(* ===== verification/Prelude.thy ===== *)
theory Prelude
  imports Main "HOL-Library.Sublist"
begin

text \<open>
  Shared vocabulary of the development: the byte strings that stand for Rust's \<open>String\<close> and
  \<open>&str\<close>, the operations of Rust's standard library the sources use on them (\<open>trim\<close>, \<open>contains\<close>,
  \<open>strip_prefix\<close>, \<open>split_once\<close>, \<open>split_whitespace\<close>, \<open>parse\<close>, \<open>to_string\<close>), \<open>Instant\<close> and \<open>Duration\<close> as
  nanosecond counts, and the error-and-state combinators the handlers are written with.

  A Rust string is its UTF-8 encoding: a HOL \<open>string\<close> whose characters are the bytes. Characters
  beyond ASCII in literals are written as byte lists. The white-space test of \<open>trim\<close> and
  \<open>split_whitespace\<close> is Unicode's \<open>White_Space\<close> property; \<open>ws_seqs\<close> lists the encodings of the
  characters that have it, and because UTF-8 is self-synchronising a match of such an encoding at
  either end of a valid string is a match of the character.
\<close>

named_theorems io_simps \<open>unfolding rules of the error-and-state combinators\<close>

section \<open>Instants and durations\<close>

type_synonym instant = nat
type_synonym duration = nat

definition from_secs :: "nat \<Rightarrow> duration" where
  "from_secs s = s * 1000000000"

definition as_secs :: "duration \<Rightarrow> nat" where
  "as_secs d = d div 1000000000"

text \<open>\<open>Instant::duration_since\<close> and \<open>Instant::elapsed\<close> saturate at zero, as subtraction on \<open>nat\<close> does.\<close>

definition duration_since :: "instant \<Rightarrow> instant \<Rightarrow> duration" where
  "duration_since now earlier = now - earlier"

lemma as_secs_from_secs [simp]: "as_secs (from_secs s) = s"
  by (simp add: as_secs_def from_secs_def)

lemma from_secs_le_iff [simp]: "from_secs a \<le> from_secs b \<longleftrightarrow> a \<le> b"
  by (simp add: from_secs_def)

lemma from_secs_less_iff [simp]: "from_secs a < from_secs b \<longleftrightarrow> a < b"
  by (simp add: from_secs_def)

lemma from_secs_pos_iff [simp]: "0 < from_secs a \<longleftrightarrow> 0 < a"
  by (simp add: from_secs_def)

section \<open>Errors and state\<close>

text \<open>
  A computation takes the state of the world and returns an error or a value with the new state:
  \<open>?\<close> in the sources is \<open>bindE\<close>, which stops at the first error and keeps the effects done so far.
\<close>

type_synonym ('w, 'e, 'a) eio = "'w \<Rightarrow> ('e + 'a) \<times> 'w"
type_synonym ('w, 'a) io = "('w, string, 'a) eio"

definition retE :: "'a \<Rightarrow> ('w, 'e, 'a) eio" where
  "retE a = (\<lambda>w. (Inr a, w))"

definition failE :: "'e \<Rightarrow> ('w, 'e, 'a) eio" where
  "failE e = (\<lambda>w. (Inl e, w))"

definition bindE :: "('w, 'e, 'a) eio \<Rightarrow> ('a \<Rightarrow> ('w, 'e, 'b) eio) \<Rightarrow> ('w, 'e, 'b) eio" where
  "bindE m k = (\<lambda>w. case m w of (Inl e, w') \<Rightarrow> (Inl e, w') | (Inr a, w') \<Rightarrow> k a w')"

definition thenE :: "('w, 'e, 'a) eio \<Rightarrow> ('w, 'e, 'b) eio \<Rightarrow> ('w, 'e, 'b) eio" where
  "thenE m k = bindE m (\<lambda>_. k)"

text \<open>\<open>catchE\<close> hands the outcome, error or value, to the continuation: the \<open>match\<close> and
  \<open>if let Err(e)\<close> of the sources, which do not propagate the error.\<close>

definition catchE :: "('w, 'e, 'a) eio \<Rightarrow> ('e + 'a \<Rightarrow> ('w, 'f, 'b) eio) \<Rightarrow> ('w, 'f, 'b) eio" where
  "catchE m k = (\<lambda>w. case m w of (r, w') \<Rightarrow> k r w')"

lemma retE_apply [simp, io_simps]: "retE a w = (Inr a, w)"
  by (simp add: retE_def)

lemma failE_apply [simp, io_simps]: "failE e w = (Inl e, w)"
  by (simp add: failE_def)

lemma bindE_apply [io_simps]:
  "bindE m k w = (case m w of (Inl e, w') \<Rightarrow> (Inl e, w') | (Inr a, w') \<Rightarrow> k a w')"
  by (simp add: bindE_def)

lemma thenE_apply [io_simps]:
  "thenE m k w = (case m w of (Inl e, w') \<Rightarrow> (Inl e, w') | (Inr a, w') \<Rightarrow> k w')"
  by (simp add: thenE_def bindE_def)

lemma catchE_apply [io_simps]: "catchE m k w = (case m w of (r, w') \<Rightarrow> k r w')"
  by (simp add: catchE_def)

lemma bindE_retE [simp]: "bindE (retE a) k = k a"
  by (rule ext) (simp add: bindE_def)

lemma bindE_failE [simp]: "bindE (failE e) k = failE e"
  by (rule ext) (simp add: bindE_def)

lemma bindE_assoc: "bindE (bindE m k) l = bindE m (\<lambda>a. bindE (k a) l)"
  by (rule ext) (simp add: bindE_def split: prod.splits sum.splits)

section \<open>Strings\<close>

definition ws_seqs :: "string list" where
  "ws_seqs = [[CHR 0x09], [CHR 0x0A], [CHR 0x0B], [CHR 0x0C], [CHR 0x0D], [CHR 0x20],
     [CHR 0xC2, CHR 0x85], [CHR 0xC2, CHR 0xA0], [CHR 0xE1, CHR 0x9A, CHR 0x80],
     [CHR 0xE2, CHR 0x80, CHR 0x80], [CHR 0xE2, CHR 0x80, CHR 0x81], [CHR 0xE2, CHR 0x80, CHR 0x82],
     [CHR 0xE2, CHR 0x80, CHR 0x83], [CHR 0xE2, CHR 0x80, CHR 0x84], [CHR 0xE2, CHR 0x80, CHR 0x85],
     [CHR 0xE2, CHR 0x80, CHR 0x86], [CHR 0xE2, CHR 0x80, CHR 0x87], [CHR 0xE2, CHR 0x80, CHR 0x88],
     [CHR 0xE2, CHR 0x80, CHR 0x89], [CHR 0xE2, CHR 0x80, CHR 0x8A], [CHR 0xE2, CHR 0x80, CHR 0xA8],
     [CHR 0xE2, CHR 0x80, CHR 0xA9], [CHR 0xE2, CHR 0x80, CHR 0xAF], [CHR 0xE2, CHR 0x81, CHR 0x9F],
     [CHR 0xE3, CHR 0x80, CHR 0x80]]"

text \<open>The length of a white-space character at the front of a string, if there is one.\<close>

definition ws_at_front :: "string \<Rightarrow> nat option" where
  "ws_at_front s = map_option length (find (\<lambda>w. prefix w s) ws_seqs)"

lemma ws_at_front_pos: "ws_at_front s = Some n \<Longrightarrow> 0 < n \<and> n \<le> length s"
proof -
  assume "ws_at_front s = Some n"
  then obtain w where w: "find (\<lambda>w. prefix w s) ws_seqs = Some w" "n = length w"
    by (auto simp: ws_at_front_def)
  from w(1) have "w \<in> set ws_seqs" "prefix w s"
    by (auto simp: find_Some_iff)
  moreover have "\<forall>v \<in> set ws_seqs. v \<noteq> []"
    by (simp add: ws_seqs_def)
  ultimately show ?thesis
    using w(2) by (auto simp: prefix_length_le)
qed

function trim_start :: "string \<Rightarrow> string" where
  "trim_start s = (case ws_at_front s of None \<Rightarrow> s | Some n \<Rightarrow> trim_start (drop n s))"
  by pat_completeness auto
termination
  by (relation "measure length") (auto dest: ws_at_front_pos)

declare trim_start.simps [simp del]

text \<open>\<open>trim_end\<close> looks for the encodings at the back: it works on the reversed string.\<close>

definition ws_at_back :: "string \<Rightarrow> nat option" where
  "ws_at_back s = map_option length (find (\<lambda>w. suffix w s) ws_seqs)"

lemma ws_at_back_pos: "ws_at_back s = Some n \<Longrightarrow> 0 < n \<and> n \<le> length s"
proof -
  assume "ws_at_back s = Some n"
  then obtain w where w: "find (\<lambda>w. suffix w s) ws_seqs = Some w" "n = length w"
    by (auto simp: ws_at_back_def)
  from w(1) have "w \<in> set ws_seqs" "suffix w s"
    by (auto simp: find_Some_iff)
  moreover have "\<forall>v \<in> set ws_seqs. v \<noteq> []"
    by (simp add: ws_seqs_def)
  ultimately show ?thesis
    using w(2) by (auto simp: suffix_length_le)
qed

function trim_end :: "string \<Rightarrow> string" where
  "trim_end s = (case ws_at_back s of None \<Rightarrow> s | Some n \<Rightarrow> trim_end (take (length s - n) s))"
  by pat_completeness auto
termination
  by (relation "measure length") (auto dest: ws_at_back_pos)

declare trim_end.simps [simp del]

definition trim :: "string \<Rightarrow> string" where
  "trim s = trim_end (trim_start s)"

text \<open>A string whose ends are printing ASCII characters is trimmed already.\<close>

definition plain_char :: "char \<Rightarrow> bool" where
  "plain_char c \<longleftrightarrow> 33 \<le> (of_char c :: nat) \<and> (of_char c :: nat) < 128"

lemma ws_seqs_ends: "w \<in> set ws_seqs \<Longrightarrow> w \<noteq> [] \<and> \<not> plain_char (hd w) \<and> \<not> plain_char (last w)"
  by (auto simp: ws_seqs_def plain_char_def)

lemma ws_at_front_plain: "s \<noteq> [] \<Longrightarrow> plain_char (hd s) \<Longrightarrow> ws_at_front s = None"
  by (auto simp: ws_at_front_def find_None_iff prefix_def dest: ws_seqs_ends)

lemma ws_at_back_plain: "s \<noteq> [] \<Longrightarrow> plain_char (last s) \<Longrightarrow> ws_at_back s = None"
  by (auto simp: ws_at_back_def find_None_iff suffix_def dest: ws_seqs_ends)

lemma trim_plain: "s \<noteq> [] \<Longrightarrow> plain_char (hd s) \<Longrightarrow> plain_char (last s) \<Longrightarrow> trim s = s"
  by (simp add: trim_def trim_start.simps ws_at_front_plain trim_end.simps ws_at_back_plain)

fun contains_str :: "string \<Rightarrow> string \<Rightarrow> bool" where
  "contains_str p [] = (p = [])"
| "contains_str p (c # s) = (prefix p (c # s) \<or> contains_str p s)"

lemma contains_str_iff: "contains_str p s \<longleftrightarrow> sublist p s"
  by (induction s) (auto simp: sublist_Cons_right)

definition strip_prefix :: "string \<Rightarrow> string \<Rightarrow> string option" where
  "strip_prefix p s = (if prefix p s then Some (drop (length p) s) else None)"

definition strip_suffix :: "string \<Rightarrow> string \<Rightarrow> string option" where
  "strip_suffix p s = (if suffix p s then Some (take (length s - length p) s) else None)"

lemma strip_prefix_Some_iff: "strip_prefix p s = Some r \<longleftrightarrow> s = p @ r"
  by (auto simp: strip_prefix_def prefix_def)

lemma strip_suffix_Some_iff: "strip_suffix p s = Some r \<longleftrightarrow> s = r @ p"
  by (auto simp: strip_suffix_def suffix_def)

text \<open>\<open>split_once(c)\<close> for a one-byte separator.\<close>

fun split_once :: "char \<Rightarrow> string \<Rightarrow> (string \<times> string) option" where
  "split_once c [] = None"
| "split_once c (x # s) =
     (if x = c then Some ([], s)
      else map_option (\<lambda>(a, b). (x # a, b)) (split_once c s))"

lemma split_once_Some_iff:
  "split_once c s = Some (a, b) \<longleftrightarrow> s = a @ c # b \<and> c \<notin> set a"
proof (induction s arbitrary: a)
  case Nil
  then show ?case by simp
next
  case (Cons x s)
  then show ?case by (cases a) auto
qed

text \<open>\<open>str::split(c)\<close>: every separator ends a piece, so there is always at least one piece.\<close>

fun split_on :: "char \<Rightarrow> string \<Rightarrow> string list" where
  "split_on c [] = [[]]"
| "split_on c (x # s) =
     (if x = c then [] # split_on c s
      else (case split_on c s of [] \<Rightarrow> [[x]] | p # ps \<Rightarrow> (x # p) # ps))"

lemma split_on_not_Nil [simp]: "split_on c s \<noteq> []"
  by (induction s) (auto split: list.splits)

lemma split_on_no_sep: "p \<in> set (split_on c s) \<Longrightarrow> c \<notin> set p"
  by (induction s arbitrary: p) (auto split: list.splits if_splits)

lemma split_on_chars: "x \<in> set s \<Longrightarrow> x = c \<or> (\<exists>p \<in> set (split_on c s). x \<in> set p)"
  by (induction s) (auto split: list.splits)

lemma split_on_free: "c \<notin> set s \<Longrightarrow> split_on c s = [s]"
  by (induction s) auto

lemma split_on_append: "c \<notin> set a \<Longrightarrow> split_on c (a @ c # b) = a # split_on c b"
  by (induction a) auto

lemma split_on_single_Nil: "split_on c s = [[]] \<longleftrightarrow> s = []"
  by (cases s) (auto split: list.splits)

lemma split_on_hd: "hd (split_on c s) \<noteq> [] \<Longrightarrow> s \<noteq> [] \<and> hd s = hd (hd (split_on c s))"
  by (cases s) (auto split: list.splits if_splits)

lemma split_on_last: "last (split_on c s) \<noteq> [] \<Longrightarrow> s \<noteq> [] \<and> last s = last (last (split_on c s))"
proof (induction s)
  case (Cons x s)
  obtain p ps where ps: "split_on c s = p # ps" by (cases "split_on c s") auto
  show ?case
  proof (cases "x = c")
    case True
    then show ?thesis using Cons ps by (auto split: if_splits)
  next
    case False
    then show ?thesis using Cons ps split_on_single_Nil [of c s]
      by (cases ps) (auto split: if_splits)
  qed
qed simp

text \<open>\<open>str::lines\<close>: pieces ended by a line feed, without a carriage return before it; a last line that
  is empty is none.\<close>

definition str_lines :: "string \<Rightarrow> string list" where
  "str_lines s =
     (let ps = split_on (CHR 0x0A) s;
          ls = (if last ps = [] then butlast ps else ps)
      in map (\<lambda>l. if l \<noteq> [] \<and> last l = CHR 0x0D then butlast l else l) ls)"

text \<open>\<open>split_whitespace\<close>: the maximal non-empty pieces free of white space. \<open>acc\<close> holds the
  current piece in reverse.\<close>

function words_acc :: "string \<Rightarrow> string \<Rightarrow> string list" where
  "words_acc acc s =
     (case ws_at_front s of
        Some n \<Rightarrow> (if acc = [] then [] else [rev acc]) @ words_acc [] (drop n s)
      | None \<Rightarrow> (case s of
           [] \<Rightarrow> (if acc = [] then [] else [rev acc])
         | c # cs \<Rightarrow> words_acc (c # acc) cs))"
  by pat_completeness auto
termination
  by (relation "measure (\<lambda>(acc, s). length s)") (auto dest: ws_at_front_pos)

declare words_acc.simps [simp del]

definition split_whitespace :: "string \<Rightarrow> string list" where
  "split_whitespace s = words_acc [] s"

fun join :: "string \<Rightarrow> string list \<Rightarrow> string" where
  "join sep [] = []"
| "join sep [x] = x"
| "join sep (x # y # ys) = x @ sep @ join sep (y # ys)"

lemma sublist_app_left: "sublist x y \<Longrightarrow> sublist x (z @ y)"
  unfolding sublist_def by (metis append.assoc)

lemma sublist_app_right: "sublist x y \<Longrightarrow> sublist x (y @ z)"
  unfolding sublist_def by (metis append.assoc)

lemma join_contains: "x \<in> set xs \<Longrightarrow> sublist x (join sep xs)"
proof (induction sep xs rule: join.induct)
  case (3 sep x' y ys)
  show ?case
  proof (cases "x = x'")
    case True
    then show ?thesis by (simp add: sublist_app_right)
  next
    case False
    with 3 show ?thesis by (simp add: sublist_app_left)
  qed
qed auto

lemma words_acc_plain: "list_all plain_char v \<Longrightarrow> words_acc acc (v @ s) = words_acc (rev v @ acc) s"
proof (induction v arbitrary: acc)
  case (Cons c v)
  then have "ws_at_front ((c # v) @ s) = None" by (intro ws_at_front_plain) auto
  with Cons show ?case by (simp add: words_acc.simps [of acc "c # v @ s"])
qed simp

lemma words_acc_space: "words_acc acc (CHR '' '' # s) = (if acc = [] then [] else [rev acc]) @ words_acc [] s"
  by (subst words_acc.simps) (simp add: ws_at_front_def ws_seqs_def)

text \<open>Words joined by spaces are split again.\<close>

lemma split_whitespace_join:
  "list_all (\<lambda>v. v \<noteq> [] \<and> list_all plain_char v) vs \<Longrightarrow> split_whitespace (join '' '' vs) = vs"
proof (induction "'' ''" vs rule: join.induct)
  case 1
  then show ?case by (simp add: split_whitespace_def words_acc.simps [of "[]" "[]"] ws_at_front_def ws_seqs_def)
next
  case (2 x)
  then show ?case
    using words_acc_plain [of x "[]" "[]"]
    by (simp add: split_whitespace_def words_acc.simps [of "rev x" "[]"] ws_at_front_def ws_seqs_def)
next
  case (3 x y ys)
  then show ?case
    using words_acc_plain [of x "[]" "'' '' @ join '' '' (y # ys)"]
    by (simp add: split_whitespace_def words_acc_space)
qed

definition is_ascii_digit :: "char \<Rightarrow> bool" where
  "is_ascii_digit c \<longleftrightarrow> 48 \<le> (of_char c :: nat) \<and> (of_char c :: nat) \<le> 57"

definition is_ascii_whitespace :: "char \<Rightarrow> bool" where
  "is_ascii_whitespace c \<longleftrightarrow> (of_char c :: nat) \<in> {9, 10, 12, 13, 32}"

definition is_ascii_hexdigit :: "char \<Rightarrow> bool" where
  "is_ascii_hexdigit c \<longleftrightarrow> is_ascii_digit c \<or> (97 \<le> (of_char c :: nat) \<and> (of_char c :: nat) \<le> 102)
     \<or> (65 \<le> (of_char c :: nat) \<and> (of_char c :: nat) \<le> 70)"

definition is_ascii_alphabetic :: "char \<Rightarrow> bool" where
  "is_ascii_alphabetic c \<longleftrightarrow> (97 \<le> (of_char c :: nat) \<and> (of_char c :: nat) \<le> 122)
     \<or> (65 \<le> (of_char c :: nat) \<and> (of_char c :: nat) \<le> 90)"

definition is_ascii_alphanumeric :: "char \<Rightarrow> bool" where
  "is_ascii_alphanumeric c \<longleftrightarrow> is_ascii_alphabetic c \<or> is_ascii_digit c"

definition ascii_lower :: "char \<Rightarrow> char" where
  "ascii_lower c = (if 65 \<le> (of_char c :: nat) \<and> (of_char c :: nat) \<le> 90
     then char_of ((of_char c :: nat) + 32) else c)"

definition to_ascii_lowercase :: "string \<Rightarrow> string" where
  "to_ascii_lowercase s = map ascii_lower s"

text \<open>
  \<open>str::to_lowercase\<close> as far as ASCII results are concerned: the only character beyond ASCII with an ASCII
  lower case is the Kelvin sign; other characters beyond ASCII keep their bytes here.
\<close>

fun to_lowercase :: "string \<Rightarrow> string" where
  "to_lowercase (a # b # c # s) =
     (if a = CHR 0xE2 \<and> b = CHR 0x84 \<and> c = CHR 0xAA then CHR ''k'' # to_lowercase s
      else ascii_lower a # to_lowercase (b # c # s))"
| "to_lowercase s = map ascii_lower s"

text \<open>Characters of a string in UTF-8: every byte that is no continuation byte starts one.\<close>

definition continuation :: "char \<Rightarrow> bool" where
  "continuation c \<longleftrightarrow> 128 \<le> (of_char c :: nat) \<and> (of_char c :: nat) < 192"

function take_chars :: "nat \<Rightarrow> string \<Rightarrow> string" where
  "take_chars n [] = []"
| "take_chars n (c # s) =
     (if n = 0 then [] else c # takeWhile continuation s @ take_chars (n - 1) (dropWhile continuation s))"
  by pat_completeness auto
termination by (relation "measure (length \<circ> snd)") (auto simp: less_Suc_eq_le length_dropWhile_le)

definition chars_count :: "string \<Rightarrow> nat" where
  "chars_count s = length (filter (\<lambda>c. \<not> continuation c) s)"

definition is_ascii :: "string \<Rightarrow> bool" where
  "is_ascii s \<longleftrightarrow> list_all (\<lambda>c. (of_char c :: nat) < 128) s"

definition digit_value :: "char \<Rightarrow> nat" where
  "digit_value c = of_char c - 48"

definition dec_value :: "string \<Rightarrow> nat" where
  "dec_value s = foldl (\<lambda>n c. 10 * n + digit_value c) 0 s"

text \<open>\<open>str::parse\<close> for an unsigned type with greatest value \<open>m\<close>: an optional \<open>+\<close>, then one or more
  decimal digits, and no overflow.\<close>

definition parse_unsigned :: "nat \<Rightarrow> string \<Rightarrow> nat option" where
  "parse_unsigned m s =
     (let ds = (case s of c # cs \<Rightarrow> if c = CHR ''+'' then cs else s | [] \<Rightarrow> [])
      in if ds \<noteq> [] \<and> list_all is_ascii_digit ds \<and> dec_value ds \<le> m then Some (dec_value ds) else None)"

definition parse_u16 :: "string \<Rightarrow> nat option" where
  "parse_u16 = parse_unsigned 65535"

definition parse_u64 :: "string \<Rightarrow> nat option" where
  "parse_u64 = parse_unsigned 18446744073709551615"

definition parse_i64 :: "string \<Rightarrow> int option" where
  "parse_i64 s =
     (case s of
        c # cs \<Rightarrow>
          if c = CHR ''-'' then
            (if cs \<noteq> [] \<and> list_all is_ascii_digit cs \<and> dec_value cs \<le> 9223372036854775808
             then Some (- int (dec_value cs)) else None)
          else map_option int (parse_unsigned 9223372036854775807 s)
      | [] \<Rightarrow> None)"

lemmas parse_eval = parse_i64_def parse_u64_def parse_u16_def parse_unsigned_def dec_value_def digit_value_def
  is_ascii_digit_def

lemma parse_unsigned_bound: "parse_unsigned m s = Some n \<Longrightarrow> n \<le> m"
  by (auto simp: parse_unsigned_def Let_def split: if_splits)

text \<open>\<open>to_string\<close> of an integer.\<close>

fun nat_str :: "nat \<Rightarrow> string" where
  "nat_str n = (if n < 10 then [char_of (48 + n)] else nat_str (n div 10) @ [char_of (48 + n mod 10)])"

declare nat_str.simps [simp del]

definition int_str :: "int \<Rightarrow> string" where
  "int_str i = (if i < 0 then CHR ''-'' # nat_str (nat (- i)) else nat_str (nat i))"

lemma of_char_digit: "(d::nat) < 10 \<Longrightarrow> (of_char (char_of (48 + d) :: char) :: nat) = 48 + d"
  by (simp add: of_char_of)

lemma is_ascii_digit_char_of: "(d::nat) < 10 \<Longrightarrow> is_ascii_digit (char_of (48 + d))"
  by (simp add: is_ascii_digit_def)

lemma nat_str_digits: "list_all is_ascii_digit (nat_str n) \<and> nat_str n \<noteq> []"
proof (induction n rule: nat_str.induct)
  case (1 n)
  then show ?case
    by (subst (1 2) nat_str.simps) (simp add: is_ascii_digit_char_of)
qed

lemma digits_plain: "c \<in> set (nat_str n) \<Longrightarrow> plain_char c \<and> c \<noteq> CHR ''-''"
  using nat_str_digits [of n] by (auto simp: list_all_iff plain_char_def is_ascii_digit_def)

lemma trim_nat_str [simp]: "trim (nat_str n) = nat_str n"
proof -
  have "nat_str n \<noteq> []" using nat_str_digits by blast
  then show ?thesis
    using digits_plain [of "hd (nat_str n)" n] digits_plain [of "last (nat_str n)" n] by (intro trim_plain) simp_all
qed

lemma dec_value_snoc: "dec_value (s @ [c]) = 10 * dec_value s + digit_value c"
  by (simp add: dec_value_def)

lemma dec_value_nat_str: "dec_value (nat_str n) = n"
proof (induction n rule: nat_str.induct)
  case (1 n)
  show ?case
  proof (cases "n < 10")
    case True
    then show ?thesis
      by (subst nat_str.simps) (simp add: dec_value_def digit_value_def of_char_of)
  next
    case False
    with 1 have "dec_value (nat_str (n div 10)) = n div 10" by simp
    with False show ?thesis
      by (subst nat_str.simps) (simp add: dec_value_snoc digit_value_def of_char_of)
  qed
qed

text \<open>Printing and parsing agree: the callback data the bot writes is read back unchanged.\<close>

lemma parse_unsigned_nat_str:
  assumes "n \<le> m"
  shows "parse_unsigned m (nat_str n) = Some n"
proof -
  obtain c cs where ns: "nat_str n = c # cs"
    using nat_str_digits [of n] by (cases "nat_str n") auto
  have "is_ascii_digit c"
    using nat_str_digits [of n] ns by simp
  then have "c \<noteq> CHR ''+''"
    by (auto simp: is_ascii_digit_def)
  then show ?thesis
    using nat_str_digits [of n] dec_value_nat_str [of n] assms ns
    by (simp add: parse_unsigned_def)
qed

section \<open>Maps and lists\<close>

lemma map_upd_None_dom: "dom (m(k := None)) = dom m - {k}"
  by (auto simp: dom_def)

lemma filter_same_length: "length (filter P xs) = length xs \<Longrightarrow> filter P xs = xs"
proof (induction xs)
  case (Cons x xs)
  have "length (filter P xs) \<le> length xs" by simp
  with Cons show ?case by (cases "P x") (simp_all del: length_filter_le)
qed simp

lemma find_Some_P: "find P xs = Some x \<Longrightarrow> P x \<and> x \<in> set xs"
  by (auto simp: find_Some_iff)

end
