(* ===== verification/Adapter.thy ===== *)
theory Adapter
  imports Prelude
begin

text \<open>
  The chat-platform interface and the routing adapter: \<open>common/trait.rs\<close>, \<open>common/markup.rs\<close> and
  \<open>common/routing.rs\<close>. A call of a \<open>BotAdapter\<close> method is a \<open>request\<close>; the routing adapter decides, per
  request, whether the primary or the secondary adapter gets it and with which target, and keeps the
  landing place of sensitive content (\<open>secondary_target\<close>) and the switch \<open>sensitive_routing\<close>. The
  adapters behind it are only named by their side. The translated texts of \<open>rust_i18n::t!\<close> come from
  resource files and are a parameter \<open>tr\<close> (key, positional arguments).
\<close>

section \<open>Messages and requests\<close>

record inline_button =
  btn_text :: string
  btn_data :: string

type_synonym markup = "inline_button list list"

record message_content =
  mc_text :: string
  mc_markup :: "markup option"

datatype platform = Telegram | Matrix | Simplex

record platform_capabilities =
  can_edit_message :: bool
  can_delete_message :: bool
  has_inline_keyboard :: bool
  has_slash_commands :: bool
  has_file_transfer :: bool
  can_send_file :: bool
  can_send_image :: bool
  can_send_voice :: bool
  can_send_typing :: bool
  can_send_reaction :: bool
  can_thread :: bool
  has_e2ee :: bool

definition TELEGRAM :: platform_capabilities where
  "TELEGRAM = \<lparr>can_edit_message = True, can_delete_message = True, has_inline_keyboard = True,
     has_slash_commands = True, has_file_transfer = True, can_send_file = True,
     can_send_image = True, can_send_voice = True, can_send_typing = True,
     can_send_reaction = True, can_thread = True, has_e2ee = False\<rparr>"

definition MATRIX :: platform_capabilities where
  "MATRIX = \<lparr>can_edit_message = True, can_delete_message = True, has_inline_keyboard = False,
     has_slash_commands = False, has_file_transfer = True, can_send_file = True,
     can_send_image = True, can_send_voice = False, can_send_typing = True,
     can_send_reaction = True, can_thread = True, has_e2ee = True\<rparr>"

definition SIMPLEX :: platform_capabilities where
  "SIMPLEX = \<lparr>can_edit_message = True, can_delete_message = True, has_inline_keyboard = False,
     has_slash_commands = False, has_file_transfer = False, can_send_file = True,
     can_send_image = True, can_send_voice = False, can_send_typing = False,
     can_send_reaction = True, can_thread = False, has_e2ee = True\<rparr>"

datatype request =
    SendMessage string message_content
  | EditMessage string string message_content
  | DeleteMessage string string
  | AnswerCallback string string "string option"
  | DownloadFile string
  | SendFile string string string string
  | SendImage string string string
  | SendVoice string string string
  | SendTyping string bool
  | SendReaction string string string
  | SendMessageThreaded string message_content string
  | AcceptContactRequest int
  | RejectContactRequest int
  | ContactSecurityCode int
  | SendMessagePrimary string message_content
  | SetSecondaryTarget string
  | SetSystemLocale string

section \<open>Rendering buttons\<close>

text \<open>One line per button: \<open>"{}. {} \<emdash> send: `{}`"\<close>; the dash is three bytes of UTF-8.\<close>

definition button_line :: "nat \<Rightarrow> inline_button \<Rightarrow> string" where
  "button_line idx b = nat_str idx @ ''. '' @ btn_text b @ '' '' @ [CHR 0xE2, CHR 0x80, CHR 0x94]
     @ '' send: `'' @ btn_data b @ ''`''"

fun button_lines :: "nat \<Rightarrow> inline_button list \<Rightarrow> string list" where
  "button_lines idx [] = []"
| "button_lines idx (b # bs) = button_line idx b # button_lines (idx + 1) bs"

definition render_markup_buttons ::
  "(string \<Rightarrow> string list \<Rightarrow> string) \<Rightarrow> string \<Rightarrow> markup \<Rightarrow> string" where
  "render_markup_buttons tr base m =
     (let lines = button_lines 1 (concat m)
      in if lines = [] then base
         else base @ tr ''matrix.markup_header'' [] @ join [CHR 0x0A] lines)"

section \<open>Sensitive content\<close>

definition PROTOCOLS :: "string list" where
  "PROTOCOLS = [''vmess://'', ''vless://'', ''trojan://'', ''ss://'', ''hysteria://'',
     ''hysteria2://'', ''tuic://'']"

definition KEY_FIELDS :: "string list" where
  "KEY_FIELDS = [[CHR 0x22] @ ''privateKey'' @ [CHR 0x22], [CHR 0x22] @ ''secretKey'' @ [CHR 0x22],
     [CHR 0x22] @ ''password'' @ [CHR 0x22] @ '':'']"

definition is_sensitive :: "string \<Rightarrow> bool" where
  "is_sensitive t \<longleftrightarrow> list_ex (\<lambda>p. contains_str p t) PROTOCOLS \<or> list_ex (\<lambda>k. contains_str k t) KEY_FIELDS"

text \<open>The text \<open>send_message\<close> decides on: buttons rendered into the body.\<close>

definition routed_text :: "(string \<Rightarrow> string list \<Rightarrow> string) \<Rightarrow> message_content \<Rightarrow> string" where
  "routed_text tr c = (case mc_markup c of
       Some m \<Rightarrow> render_markup_buttons tr (mc_text c) m
     | None \<Rightarrow> mc_text c)"

section \<open>The routing adapter\<close>

datatype side = Primary | Secondary

record routing_adapter =
  has_secondary :: bool
  secondary_target :: "string option"
  sensitive_routing :: bool

definition routing_new :: "bool \<Rightarrow> routing_adapter" where
  "routing_new sec = \<lparr>has_secondary = sec, secondary_target = None, sensitive_routing = True\<rparr>"

definition with_secondary_target :: "string \<Rightarrow> routing_adapter \<Rightarrow> routing_adapter" where
  "with_secondary_target t ra = ra\<lparr>secondary_target := Some t\<rparr>"

definition with_sensitive_routing :: "bool \<Rightarrow> routing_adapter \<Rightarrow> routing_adapter" where
  "with_sensitive_routing b ra = ra\<lparr>sensitive_routing := b\<rparr>"

text \<open>What a method does with a request: it forwards one request to one side, refuses, or only
  changes the adapter's own state.\<close>

datatype routed = Forward side request | Bail | Internal

definition routing_send_message ::
  "(string \<Rightarrow> string list \<Rightarrow> string) \<Rightarrow> routing_adapter \<Rightarrow> string \<Rightarrow> message_content \<Rightarrow> routed" where
  "routing_send_message tr ra target content =
     (if has_secondary ra \<and> sensitive_routing ra \<and> is_sensitive (routed_text tr content)
      then Forward Secondary
             (SendMessage (case secondary_target ra of Some t \<Rightarrow> t | None \<Rightarrow> target) content)
      else Forward Primary (SendMessage target content))"

definition set_secondary_target :: "string \<Rightarrow> routing_adapter \<Rightarrow> routing_adapter" where
  "set_secondary_target t ra = ra\<lparr>sensitive_routing := True, secondary_target := Some t\<rparr>"

definition to_secondary :: "routing_adapter \<Rightarrow> request \<Rightarrow> routed" where
  "to_secondary ra r = (if has_secondary ra then Forward Secondary r else Bail)"

text \<open>The whole \<open>impl BotAdapter for RoutingAdapter\<close>. \<open>set_system_locale\<close> is not overridden, so the
  trait's default applies and nothing is forwarded.\<close>

fun routing_step ::
  "(string \<Rightarrow> string list \<Rightarrow> string) \<Rightarrow> routing_adapter \<Rightarrow> request \<Rightarrow> routed \<times> routing_adapter" where
  "routing_step tr ra (SendMessage t c) = (routing_send_message tr ra t c, ra)"
| "routing_step tr ra (SetSecondaryTarget t) = (Internal, set_secondary_target t ra)"
| "routing_step tr ra (AcceptContactRequest i) = (to_secondary ra (AcceptContactRequest i), ra)"
| "routing_step tr ra (RejectContactRequest i) = (to_secondary ra (RejectContactRequest i), ra)"
| "routing_step tr ra (ContactSecurityCode i) = (to_secondary ra (ContactSecurityCode i), ra)"
| "routing_step tr ra (SendMessagePrimary t c) = (Forward Primary (SendMessage t c), ra)"
| "routing_step tr ra (SetSystemLocale l) = (Internal, ra)"
| "routing_step tr ra r = (Forward Primary r, ra)"

fun run_requests :: "('r \<Rightarrow> request \<Rightarrow> 'o \<times> 'r) \<Rightarrow> 'r \<Rightarrow> request list \<Rightarrow> 'o list \<times> 'r" where
  "run_requests step ra [] = ([], ra)"
| "run_requests step ra (r # rs) =
     (let (out, ra') = step ra r; (outs, ra'') = run_requests step ra' rs in (out # outs, ra''))"

lemma run_requests_Cons:
  "run_requests step ra (r # rs) =
     (fst (step ra r) # fst (run_requests step (snd (step ra r)) rs),
      snd (run_requests step (snd (step ra r)) rs))"
  by (simp split: prod.splits)

declare run_requests.simps(2) [simp del]

section \<open>Rendered text keeps every button\<close>

lemma button_data_in_line: "sublist (btn_data b) (button_line idx b)"
  unfolding button_line_def by (intro sublist_app_left sublist_app_right) simp

lemma button_line_in_lines: "b \<in> set bs \<Longrightarrow> \<exists>i. button_line i b \<in> set (button_lines idx bs)"
  by (induction idx bs rule: button_lines.induct) auto

lemma is_sensitive_mono: "sublist s t \<Longrightarrow> is_sensitive s \<Longrightarrow> is_sensitive t"
  unfolding is_sensitive_def contains_str_iff list_ex_iff by (meson sublist_order.order_trans)

lemma rendered_base: "sublist base (render_markup_buttons tr base m)"
  by (simp add: render_markup_buttons_def Let_def sublist_append_rightI)

lemma rendered_button:
  assumes "row \<in> set m" "b \<in> set row"
  shows "sublist (btn_data b) (render_markup_buttons tr base m)"
proof -
  from assms have "b \<in> set (concat m)" by auto
  then obtain i where i: "button_line i b \<in> set (button_lines 1 (concat m))"
    using button_line_in_lines by blast
  then have "sublist (button_line i b) (join [CHR 0x0A] (button_lines 1 (concat m)))"
    by (rule join_contains)
  with button_data_in_line have
    "sublist (btn_data b) (join [CHR 0x0A] (button_lines 1 (concat m)))"
    by (rule sublist_order.order_trans)
  moreover from i have "button_lines 1 (concat m) \<noteq> []" by auto
  ultimately show ?thesis
    by (simp add: render_markup_buttons_def Let_def sublist_app_left)
qed

text \<open>The content of a message is sensitive when its text or the data of one of its buttons is.\<close>

definition carries_secret :: "message_content \<Rightarrow> bool" where
  "carries_secret c \<longleftrightarrow> is_sensitive (mc_text c)
     \<or> (\<exists>m. mc_markup c = Some m \<and> (\<exists>row \<in> set m. \<exists>b \<in> set row. is_sensitive (btn_data b)))"

lemma carries_secret_routed: "carries_secret c \<Longrightarrow> is_sensitive (routed_text tr c)"
proof (cases "mc_markup c")
  case None
  assume "carries_secret c"
  with None show ?thesis by (simp add: carries_secret_def routed_text_def)
next
  case (Some m)
  assume "carries_secret c"
  then consider "is_sensitive (mc_text c)"
    | row b where "row \<in> set m" "b \<in> set row" "is_sensitive (btn_data b)"
    using Some by (auto simp: carries_secret_def)
  then show ?thesis
  proof cases
    case 1
    with rendered_base show ?thesis
      using Some by (auto simp: routed_text_def intro: is_sensitive_mono)
  next
    case 2
    then show ?thesis
      using Some rendered_button [of row m b tr "mc_text c"]
      by (simp add: routed_text_def is_sensitive_mono)
  qed
qed

section \<open>Routers of sensitive content\<close>

text \<open>
  What the callers of a router rely on: a pinned landing place takes every sensitive message, and only
  \<open>set_secondary_target\<close> moves it. Runs of requests are treated once, in the locale.
\<close>

locale sensitive_router =
  fixes step :: "'r \<Rightarrow> request \<Rightarrow> routed \<times> 'r"
    and pinned :: "'r \<Rightarrow> string \<Rightarrow> bool"
    and sensitive :: "message_content \<Rightarrow> bool"
  assumes pinned_send:
      "pinned r t \<Longrightarrow> sensitive c \<Longrightarrow> fst (step r (SendMessage u c)) = Forward Secondary (SendMessage t c)"
    and pinned_kept:
      "pinned r t \<Longrightarrow> (\<And>u. q \<noteq> SetSecondaryTarget u) \<Longrightarrow> pinned (snd (step r q)) t"
    and pinned_set: "pinned r t \<Longrightarrow> pinned (snd (step r (SetSecondaryTarget u))) u"
begin

lemma run_pinned:
  assumes "pinned r t" and "\<forall>u. SetSecondaryTarget u \<notin> set qs"
  shows "pinned (snd (run_requests step r qs)) t"
  using assms
proof (induction qs arbitrary: r)
  case Nil
  then show ?case by simp
next
  case (Cons q qs)
  have "pinned (snd (step r q)) t"
    using Cons.prems by (intro pinned_kept) auto
  then have "pinned (snd (run_requests step (snd (step r q)) qs)) t"
    using Cons.prems by (intro Cons.IH) auto
  then show ?case by (simp add: run_requests_Cons)
qed

lemma run_secret_lands:
  assumes "pinned r t" and "\<forall>u. SetSecondaryTarget u \<notin> set qs"
    and "i < length qs" and "qs ! i = SendMessage u c" and "sensitive c"
  shows "fst (run_requests step r qs) ! i = Forward Secondary (SendMessage t c)"
  using assms
proof (induction qs arbitrary: r i)
  case Nil
  then show ?case by simp
next
  case (Cons q qs)
  have kept: "pinned (snd (step r q)) t"
    using Cons.prems by (intro pinned_kept) auto
  show ?case
  proof (cases i)
    case 0
    then have "q = SendMessage u c" using Cons.prems(4) by simp
    then show ?thesis
      using 0 pinned_send [OF Cons.prems(1,5), of u] by (simp add: run_requests_Cons)
  next
    case (Suc j)
    have "fst (run_requests step (snd (step r q)) qs) ! j = Forward Secondary (SendMessage t c)"
      using Cons.prems Suc by (intro Cons.IH [OF kept]) auto
    then show ?thesis
      using Suc by (simp add: run_requests_Cons)
  qed
qed

end

definition pinned_to :: "routing_adapter \<Rightarrow> string \<Rightarrow> bool" where
  "pinned_to ra t \<longleftrightarrow> has_secondary ra \<and> sensitive_routing ra \<and> secondary_target ra = Some t"

lemma routing_step_frame:
  assumes "\<And>u. q \<noteq> SetSecondaryTarget u"
  shows "snd (routing_step tr ra q) = ra"
  using assms by (cases q) auto

interpretation rt: sensitive_router "routing_step tr" pinned_to carries_secret for tr
proof unfold_locales
  show "fst (routing_step tr r (SendMessage u c)) = Forward Secondary (SendMessage t c)"
    if "pinned_to r t" "carries_secret c" for r t c u
    using that carries_secret_routed
    by (auto simp: pinned_to_def routing_send_message_def)
  show "pinned_to (snd (routing_step tr r q)) t"
    if "pinned_to r t" "\<And>u. q \<noteq> SetSecondaryTarget u" for r t q
    using that by (simp add: routing_step_frame)
  show "pinned_to (snd (routing_step tr r (SetSecondaryTarget u))) u" if "pinned_to r t" for r t u
    using that by (simp add: pinned_to_def set_secondary_target_def)
qed

section \<open>Properties\<close>



text \<open>
  Also: everything else stays with the primary adapter: an insensitive message, a message sent with
  \<open>send_message_primary\<close>, and every message while there is no secondary adapter, reach the primary
  adapter with the caller's target and content.
\<close>

theorem primary_otherwise:
  "(\<not> is_sensitive (routed_text tr c) \<or> \<not> has_secondary ra \<or> \<not> sensitive_routing ra \<longrightarrow>
      routing_step tr ra (SendMessage t c) = (Forward Primary (SendMessage t c), ra))
   \<and> routing_step tr ra (SendMessagePrimary t c) = (Forward Primary (SendMessage t c), ra)"
  by (simp add: routing_send_message_def)

theorem primary_otherwise_witness:
  "routing_step (\<lambda>k a. k) (routing_new False) (SendMessage ''7'' \<lparr>mc_text = ''ss://x'', mc_markup = None\<rparr>)
     = (Forward Primary (SendMessage ''7'' \<lparr>mc_text = ''ss://x'', mc_markup = None\<rparr>), routing_new False)"
  using primary_otherwise [of "\<lambda>k a. k" "\<lparr>mc_text = ''ss://x'', mc_markup = None\<rparr>" "routing_new False" "''7''"]
  by (simp add: routing_new_def)

text \<open>
  Also: the router looks at \<open>send_message\<close> only: an edit, a threaded message or a file is forwarded to
  the primary adapter even when it carries a proxy link or a key and a landing place is pinned.
\<close>

theorem edits_bypass_routing:
  "routing_step tr ra (EditMessage t i c) = (Forward Primary (EditMessage t i c), ra)
   \<and> routing_step tr ra (SendMessageThreaded t c th) = (Forward Primary (SendMessageThreaded t c th), ra)
   \<and> routing_step tr ra (SendFile t f n x) = (Forward Primary (SendFile t f n x), ra)
   \<and> (\<exists>c. carries_secret c)"
proof -
  have "carries_secret \<lparr>mc_text = ''ss://x'', mc_markup = None\<rparr>"
    by (simp add: carries_secret_def is_sensitive_def PROTOCOLS_def contains_str_iff)
  then show ?thesis by auto
qed

text \<open>
  Also: rendering a keyboard into text loses nothing: the body and the data of every button are
  contained in the rendered text.
\<close>

theorem rendered_markup_complete:
  "sublist base (render_markup_buttons tr base m)
   \<and> (\<forall>row \<in> set m. \<forall>b \<in> set row. sublist (btn_data b) (render_markup_buttons tr base m))"
  using rendered_base rendered_button by blast

theorem rendered_markup_complete_witness:
  "sublist ''m_main'' (render_markup_buttons (\<lambda>k a. k) ''hello'' [[\<lparr>btn_text = ''Menu'', btn_data = ''m_main''\<rparr>]])"
  using rendered_markup_complete [of "''hello''" "\<lambda>k a. k" "[[\<lparr>btn_text = ''Menu'', btn_data = ''m_main''\<rparr>]]"]
  by simp

end
