(* ===== verification/CoreTypes.thy ===== *)
theory CoreTypes
  imports Prelude Adapter
begin

text \<open>
  The plain types the components share: \<open>core/types.rs\<close> (DNS providers, the domain-input dialogue, IP
  versions), \<open>core/i18n.rs\<close> (languages), \<open>shared/types.rs\<close> (time-out status, events, commands), the task
  type of \<open>core/system/scheduler/task_types.rs\<close>, and the version-tag helpers of \<open>core/utils.rs\<close>.
\<close>

section \<open>DNS providers and the domain dialogue\<close>

datatype dns_provider = Cloudflare | Route53

fun acme_flag :: "dns_provider \<Rightarrow> string" where
  "acme_flag Cloudflare = ''dns_cf''"
| "acme_flag Route53 = ''dns_aws''"

fun credential_names :: "dns_provider \<Rightarrow> string \<times> string" where
  "credential_names Cloudflare = (''CF_Token'', ''CF_Zone_ID'')"
| "credential_names Route53 = (''AWS_ACCESS_KEY_ID'', ''AWS_SECRET_ACCESS_KEY'')"

fun cdn_ports :: "dns_provider \<Rightarrow> nat list" where
  "cdn_ports Cloudflare = [443]"
| "cdn_ports Route53 = [443]"

record batch_creation_result =
  br_links :: "string list"
  br_config_file :: "string option"
  br_backup_file :: "string option"
  br_created_count :: nat

datatype domain_flow_source = Standalone | OneClick | CustomAllowlist | CustomAllowlistCheck

datatype domain_input_step =
    AwaitDomain
  | AwaitProvider
  | AwaitCredentials dns_provider
  | Processing

record domain_input_state =
  di_updated_at :: instant
  di_source :: domain_flow_source
  di_step :: domain_input_step
  di_domain :: "string option"

section \<open>IP versions\<close>

datatype ip_version = IPv4 | IPv6 | SplitStackV6Primary | SplitStackV4Primary

definition is_ipv6_primary :: "ip_version \<Rightarrow> bool" where
  "is_ipv6_primary v \<longleftrightarrow> v \<in> {IPv6, SplitStackV6Primary}"

definition is_ipv4_primary :: "ip_version \<Rightarrow> bool" where
  "is_ipv4_primary v \<longleftrightarrow> v \<in> {IPv4, SplitStackV4Primary}"

fun ip_label :: "ip_version \<Rightarrow> string" where
  "ip_label IPv4 = ''IPv4''"
| "ip_label IPv6 = ''IPv6''"
| "ip_label SplitStackV6Primary = ''IPv6/IPv4''"
| "ip_label SplitStackV4Primary = ''IPv4/IPv6''"

definition parse_ip_version :: "string \<Rightarrow> ip_version option" where
  "parse_ip_version s =
     (if s \<in> {''4'', ''ipv4'', ''IPv4''} then Some IPv4
      else if s \<in> {''6'', ''ipv6'', ''IPv6''} then Some IPv6
      else if s = ''split6'' then Some SplitStackV6Primary
      else if s = ''split4'' then Some SplitStackV4Primary
      else None)"

section \<open>Version tags\<close>

definition normalize_version_tag :: "string \<Rightarrow> string" where
  "normalize_version_tag tag =
     (case strip_prefix ''v'' (trim tag) of Some r \<Rightarrow> r | None \<Rightarrow> trim tag)"

definition is_same_version :: "string \<Rightarrow> string \<Rightarrow> bool" where
  "is_same_version loc remote_tag \<longleftrightarrow>
     (let l = normalize_version_tag loc; r = normalize_version_tag remote_tag in l \<noteq> [] \<and> l = r)"

section \<open>Languages\<close>

datatype lang = Zh | En | Ja

fun lang_as_str :: "lang \<Rightarrow> string" where
  "lang_as_str Zh = ''zh''"
| "lang_as_str En = ''en''"
| "lang_as_str Ja = ''ja''"

definition lang_from_str :: "string \<Rightarrow> lang option" where
  "lang_from_str s =
     (if s = ''en'' then Some En
      else if s = ''ja'' then Some Ja
      else if s = ''zh'' then Some Zh
      else None)"

section \<open>Scheduled tasks and time-outs\<close>

datatype task_type = GeoUpdate | GeoIpUpdate | Reboot | ReloadCore | SecurityUpdate | UnknownTask

datatype timeout_status = NotTracked | Active | Expired

section \<open>Events\<close>

datatype bot_command =
    Help
  | Start
  | Menu
  | Auth string
  | SetSecurityFile

record message_event =
  me_platform :: Adapter.platform
  me_target :: string
  me_user_id :: int
  me_text :: "string option"
  me_file_id :: "string option"
  me_file_name :: "string option"

datatype handler_action = Done | Redirect string

record callback_event =
  cb_platform :: Adapter.platform
  cb_target :: string
  cb_user_id :: string
  cb_msg_id :: string
  cb_data :: string
  cb_callback_id :: string

record command_event =
  ce_platform :: Adapter.platform
  ce_target :: string
  ce_user_id :: int
  ce_command :: bot_command

datatype bot_event =
    EvMessage message_event
  | EvCallback callback_event
  | EvCommand command_event

text \<open>\<open>BotEvent::user_id\<close>: a callback's user id that does not parse counts as 0.\<close>

fun event_user_id :: "bot_event \<Rightarrow> int" where
  "event_user_id (EvMessage m) = me_user_id m"
| "event_user_id (EvCallback c) = (case parse_i64 (cb_user_id c) of Some i \<Rightarrow> i | None \<Rightarrow> 0)"
| "event_user_id (EvCommand c) = ce_user_id c"

fun event_target :: "bot_event \<Rightarrow> string" where
  "event_target (EvMessage m) = me_target m"
| "event_target (EvCallback c) = cb_target c"
| "event_target (EvCommand c) = ce_target c"

section \<open>Lemmas\<close>

lemma lang_roundtrip [simp]: "lang_from_str (lang_as_str l) = Some l"
  by (cases l) (simp_all add: lang_from_str_def)

lemma lang_from_str_Some: "lang_from_str s = Some l \<Longrightarrow> s = lang_as_str l"
  by (auto simp: lang_from_str_def split: if_splits)

lemma ip_primary_exclusive: "is_ipv6_primary v \<longleftrightarrow> \<not> is_ipv4_primary v"
  by (cases v) (simp_all add: is_ipv6_primary_def is_ipv4_primary_def)

lemma is_same_version_sym: "is_same_version a b \<longleftrightarrow> is_same_version b a"
  by (auto simp: is_same_version_def Let_def)

lemma is_same_version_trans: "is_same_version a b \<Longrightarrow> is_same_version b c \<Longrightarrow> is_same_version a c"
  by (auto simp: is_same_version_def Let_def)

end
