(* ===== verification/AppState.thy ===== *)
theory AppState
  imports CoreTypes
begin

text \<open>
  The shared state of the bot, \<open>app/state.rs\<close>: who the administrators are, the login sessions, the
  per-identity and the global record of failed codes, and the pending dialogues (self destruction,
  WARP, schedule, security file, domain and XDRIVE input), each a map from the chat to its state.

  Every method is one definition in state-passing style. A field behind a \<open>Mutex\<close> or an atomic is a
  field of the record, and each definition is one critical section or the sequence of critical
  sections its method runs. A method that reads the clock itself (\<open>Instant::now()\<close>, \<open>elapsed()\<close>) takes
  the reading as its argument \<open>clk\<close>; the instants callers pass are separate arguments. The adapter
  and the self-destruct executor the struct carries have no state of their own here: calls of them are
  effects of the handlers (theory \<open>World\<close>). A \<open>TotpManager\<close> is represented by its secret.
\<close>

section \<open>Data\<close>

definition RECENT_AUTH_WINDOW_SECS :: nat where
  "RECENT_AUTH_WINDOW_SECS = 5 * 60"

datatype destruct_step =
    AwaitFirstTotp
  | AwaitConfirm
  | AwaitSecondTotp
  | AwaitSecurityFile
  | AwaitFinalConfirm

datatype schedule_frequency = Daily | Weekly

datatype auth_failure_outcome =
    Invalid (attempts: nat) (max_attempts: nat)
  | Locked (lock_duration: duration)

record destruct_state =
  ds_step :: destruct_step
  first_totp :: string
  second_totp :: string
  last_action_time :: instant

record failed_record =
  fr_count :: nat
  first_fail :: instant
  cooldown_until :: "instant option"
  lock_level :: nat

record schedule_input_state =
  si_updated_at :: instant
  si_task_type :: task_type
  si_frequency :: schedule_frequency
  si_timezone :: string
  si_day_of_week :: "string option"
  si_hour :: "nat option"
  si_minute :: "nat option"
  si_return_to :: string

datatype xdrive_wizard_step =
    AccountId
  | Endpoint
  | Region
  | Bucket
  | AccessKey
  | SecretKey
  | FolderId
  | ClientId
  | ClientSecret
  | RefreshToken

record xdrive_wizard_session =
  xw_region :: string
  xw_step :: xdrive_wizard_step
  xw_account_id :: "string option"
  xw_endpoint :: "string option"
  xw_s3_region :: "string option"
  xw_bucket :: "string option"
  xw_access_key :: "string option"
  xw_secret_key :: "string option"
  xw_client_id :: "string option"
  xw_client_secret :: "string option"
  xw_refresh_token :: "string option"
  xw_folder_id :: "string option"
  xw_started_at :: instant

record app_state =
  admin_id :: "int option"
  simplex_admin_cell :: int
  code_verified_cell :: int
  simplex_repin_enabled :: bool
  totp_manager :: "string option"
  sessions :: "int \<rightharpoonup> instant"
  failed_attempts :: "int \<rightharpoonup> failed_record"
  global_failed_attempts :: failed_record
  pending_destructs :: "string \<rightharpoonup> destruct_state"
  key_hash_cell :: "string option"
  pending_warp_inputs :: "string \<rightharpoonup> instant"
  pending_schedule_inputs :: "string \<rightharpoonup> schedule_input_state"
  pending_security_file :: "string \<rightharpoonup> instant"
  pending_domain_inputs :: "string \<rightharpoonup> domain_input_state"
  pending_xdrive_wizards :: "string \<rightharpoonup> xdrive_wizard_session"
  session_timeout_cell :: nat
  lang_cell :: lang
  lang_configured_cell :: bool

text \<open>The value a fresh \<open>FailedRecord\<close> has, per user and globally.\<close>

definition fresh_record :: "instant \<Rightarrow> failed_record" where
  "fresh_record now = \<lparr>fr_count = 0, first_fail = now, cooldown_until = None, lock_level = 0\<rparr>"

definition unwrap_or :: "'a option \<Rightarrow> 'a \<Rightarrow> 'a" where
  "unwrap_or x d = (case x of Some v \<Rightarrow> v | None \<Rightarrow> d)"

lemma unwrap_or_simps [simp]: "unwrap_or (Some v) d = v" "unwrap_or None d = d"
  by (simp_all add: unwrap_or_def)

definition new_app_state ::
  "int option \<Rightarrow> int option \<Rightarrow> string option \<Rightarrow> string option \<Rightarrow> nat \<Rightarrow> instant \<Rightarrow> app_state" where
  "new_app_state admin simplex totp key_hash timeout clk =
     \<lparr>admin_id = admin, simplex_admin_cell = unwrap_or simplex 0, code_verified_cell = 0,
      simplex_repin_enabled = False, totp_manager = totp, sessions = Map.empty,
      failed_attempts = Map.empty, global_failed_attempts = fresh_record clk,
      pending_destructs = Map.empty, key_hash_cell = key_hash, pending_warp_inputs = Map.empty,
      pending_schedule_inputs = Map.empty, pending_security_file = Map.empty,
      pending_domain_inputs = Map.empty, pending_xdrive_wizards = Map.empty,
      session_timeout_cell = timeout, lang_cell = Zh, lang_configured_cell = False\<rparr>"

section \<open>Identities\<close>

definition simplex_admin_id :: "app_state \<Rightarrow> int option" where
  "simplex_admin_id s = (if simplex_admin_cell s = 0 then None else Some (simplex_admin_cell s))"

definition set_simplex_admin_id :: "int \<Rightarrow> app_state \<Rightarrow> app_state" where
  "set_simplex_admin_id i s = s\<lparr>simplex_admin_cell := i\<rparr>"

definition with_simplex_repin :: "app_state \<Rightarrow> app_state" where
  "with_simplex_repin s = s\<lparr>simplex_repin_enabled := True\<rparr>"

definition with_simplex_code_verified_for :: "int option \<Rightarrow> app_state \<Rightarrow> app_state" where
  "with_simplex_code_verified_for i s = s\<lparr>code_verified_cell := unwrap_or i 0\<rparr>"

definition simplex_code_verified :: "app_state \<Rightarrow> bool" where
  "simplex_code_verified s \<longleftrightarrow>
     (if code_verified_cell s = 0 then False else simplex_admin_id s = Some (code_verified_cell s))"

definition set_simplex_code_verified_for :: "int option \<Rightarrow> app_state \<Rightarrow> app_state" where
  "set_simplex_code_verified_for i s = s\<lparr>code_verified_cell := unwrap_or i 0\<rparr>"

definition is_admin_user :: "app_state \<Rightarrow> int \<Rightarrow> bool" where
  "is_admin_user s user \<longleftrightarrow> user = unwrap_or (admin_id s) 0 \<or> simplex_admin_id s = Some user"

text \<open>\<open>check_current\<close> is the check of the TOTP crate for a secret and a code at the current time.\<close>

definition verify_totp :: "(string \<Rightarrow> string \<Rightarrow> bool) \<Rightarrow> app_state \<Rightarrow> string \<Rightarrow> bool" where
  "verify_totp check_current s code =
     (case totp_manager s of Some secret \<Rightarrow> check_current secret code | None \<Rightarrow> False)"

section \<open>Sessions and settings\<close>

definition is_session_valid :: "instant \<Rightarrow> instant \<Rightarrow> nat \<Rightarrow> bool" where
  "is_session_valid clk session_time timeout_secs \<longleftrightarrow>
     duration_since clk session_time < from_secs timeout_secs"

definition is_authorized :: "instant \<Rightarrow> app_state \<Rightarrow> int \<Rightarrow> bool" where
  "is_authorized clk s user =
     (if \<not> is_admin_user s user then False
      else (case sessions s user of
              Some t \<Rightarrow> is_session_valid clk t (session_timeout_cell s)
            | None \<Rightarrow> False))"

definition is_recently_authenticated :: "instant \<Rightarrow> app_state \<Rightarrow> int \<Rightarrow> bool" where
  "is_recently_authenticated clk s user =
     (if \<not> is_admin_user s user then False
      else (case sessions s user of
              Some t \<Rightarrow> is_session_valid clk t RECENT_AUTH_WINDOW_SECS
            | None \<Rightarrow> False))"

definition set_session_timeout_secs :: "nat \<Rightarrow> app_state \<Rightarrow> app_state" where
  "set_session_timeout_secs secs s = s\<lparr>session_timeout_cell := secs\<rparr>"

definition set_lang :: "lang \<Rightarrow> app_state \<Rightarrow> app_state" where
  "set_lang l s = s\<lparr>lang_cell := l\<rparr>"

definition mark_lang_configured :: "app_state \<Rightarrow> app_state" where
  "mark_lang_configured s = s\<lparr>lang_configured_cell := True\<rparr>"

definition set_self_destruct_key_hash :: "string option \<Rightarrow> app_state \<Rightarrow> app_state" where
  "set_self_destruct_key_hash h s = s\<lparr>key_hash_cell := h\<rparr>"

section \<open>Login attempts\<close>

definition GLOBAL_LOCKOUT_CAP :: duration where
  "GLOBAL_LOCKOUT_CAP = from_secs 900"

definition record_auth_success :: "int \<Rightarrow> instant \<Rightarrow> app_state \<Rightarrow> nat \<times> app_state" where
  "record_auth_success user now s =
     (session_timeout_cell s,
      s\<lparr>sessions := (sessions s)(user \<mapsto> now),
        failed_attempts := (failed_attempts s)(user := None),
        global_failed_attempts := (global_failed_attempts s)
          \<lparr>fr_count := 0, cooldown_until := None, first_fail := now\<rparr>\<rparr>)"

text \<open>The two statements both kinds of record start with: a window that has run out forgets the
  count and the lock, then the failure is counted.\<close>

definition count_failure :: "instant \<Rightarrow> duration \<Rightarrow> failed_record \<Rightarrow> failed_record" where
  "count_failure now failure_window rec =
     (let rec1 = (if duration_since now (first_fail rec) > failure_window
                  then rec\<lparr>fr_count := 0, first_fail := now, cooldown_until := None\<rparr> else rec)
      in rec1\<lparr>fr_count := fr_count rec1 + 1, first_fail := min (first_fail rec1) now\<rparr>)"

definition record_global_failure :: "instant \<Rightarrow> nat \<Rightarrow> duration \<Rightarrow> app_state \<Rightarrow> app_state" where
  "record_global_failure now max_att failure_window s =
     (let rec = count_failure now failure_window (global_failed_attempts s)
      in s\<lparr>global_failed_attempts :=
           (if fr_count rec \<ge> max_att
            then rec\<lparr>cooldown_until := Some (now + GLOBAL_LOCKOUT_CAP), fr_count := 0, first_fail := now\<rparr>
            else rec)\<rparr>)"

definition global_cooldown_remaining :: "instant \<Rightarrow> app_state \<Rightarrow> duration option \<times> app_state" where
  "global_cooldown_remaining now s =
     (case cooldown_until (global_failed_attempts s) of
        None \<Rightarrow> (None, s)
      | Some until \<Rightarrow>
          if until > now then (Some (until - now), s)
          else (None, s\<lparr>global_failed_attempts := (global_failed_attempts s)\<lparr>cooldown_until := None\<rparr>\<rparr>))"

text \<open>\<open>lockout_durations.len() - 1\<close> on a 64-bit \<open>usize\<close>: the release profile wraps at zero.\<close>

definition usize_pred :: "nat \<Rightarrow> nat" where
  "usize_pred n = (if n = 0 then 2 ^ 64 - 1 else n - 1)"

definition ladder_duration :: "duration list \<Rightarrow> nat \<Rightarrow> duration" where
  "ladder_duration lockout_durations level =
     (if level < length lockout_durations then lockout_durations ! level
      else if lockout_durations \<noteq> [] then last lockout_durations
      else from_secs 3600)"

definition lock_user :: "instant \<Rightarrow> duration list \<Rightarrow> failed_record \<Rightarrow> failed_record" where
  "lock_user now lockout_durations rec =
     rec\<lparr>cooldown_until := Some (now + ladder_duration lockout_durations (lock_level rec)),
         fr_count := 0, first_fail := now,
         lock_level := (if lock_level rec < usize_pred (length lockout_durations)
                        then lock_level rec + 1 else lock_level rec)\<rparr>"

definition record_auth_failure ::
  "int \<Rightarrow> instant \<Rightarrow> nat \<Rightarrow> duration \<Rightarrow> duration list \<Rightarrow> app_state \<Rightarrow> auth_failure_outcome \<times> app_state" where
  "record_auth_failure user now max_att failure_window lockout_durations s =
     (case global_cooldown_remaining now s of
        (Some remaining, s1) \<Rightarrow> (Locked remaining, s1)
      | (None, s1) \<Rightarrow>
          (let s2 = record_global_failure now max_att failure_window s1;
               rec0 = (case failed_attempts s2 user of Some r \<Rightarrow> r | None \<Rightarrow> fresh_record now);
               rec = count_failure now failure_window rec0
           in if fr_count rec \<ge> max_att
              then (Locked (ladder_duration lockout_durations (lock_level rec)),
                    s2\<lparr>failed_attempts := (failed_attempts s2)(user \<mapsto> lock_user now lockout_durations rec)\<rparr>)
              else (Invalid (fr_count rec) max_att,
                    s2\<lparr>failed_attempts := (failed_attempts s2)(user \<mapsto> rec)\<rparr>)))"

definition user_cooldown_remaining :: "int \<Rightarrow> instant \<Rightarrow> app_state \<Rightarrow> duration option \<times> app_state" where
  "user_cooldown_remaining user now s =
     (case failed_attempts s user of
        None \<Rightarrow> (None, s)
      | Some r \<Rightarrow>
          (case cooldown_until r of
             None \<Rightarrow> (None, s)
           | Some until \<Rightarrow>
               if until > now then (Some (until - now), s)
               else (None, s\<lparr>failed_attempts := (failed_attempts s)(user \<mapsto> r\<lparr>cooldown_until := None\<rparr>)\<rparr>)))"

definition auth_cooldown_remaining :: "int \<Rightarrow> instant \<Rightarrow> app_state \<Rightarrow> duration option \<times> app_state" where
  "auth_cooldown_remaining user now s =
     (let (per_user, s1) = user_cooldown_remaining user now s;
          (global, s2) = global_cooldown_remaining now s1
      in (case (per_user, global) of
            (Some a, Some b) \<Rightarrow> Some (max a b)
          | (Some a, None) \<Rightarrow> Some a
          | (None, Some b) \<Rightarrow> Some b
          | (None, None) \<Rightarrow> None, s2))"

section \<open>The self-destruct dialogue\<close>

definition begin_destruct :: "string \<Rightarrow> instant \<Rightarrow> app_state \<Rightarrow> app_state" where
  "begin_destruct chat now s = s\<lparr>pending_destructs := (pending_destructs s)
     (chat \<mapsto> \<lparr>ds_step = AwaitFirstTotp, first_totp = [], second_totp = [], last_action_time = now\<rparr>)\<rparr>"

definition cancel_destruct :: "string \<Rightarrow> app_state \<Rightarrow> bool \<times> app_state" where
  "cancel_destruct chat s =
     (pending_destructs s chat \<noteq> None, s\<lparr>pending_destructs := (pending_destructs s)(chat := None)\<rparr>)"

definition destruct_snapshot :: "app_state \<Rightarrow> string \<Rightarrow> destruct_state option" where
  "destruct_snapshot s chat = pending_destructs s chat"

definition touch_destruct ::
  "instant \<Rightarrow> string \<Rightarrow> instant \<Rightarrow> duration \<Rightarrow> app_state \<Rightarrow> timeout_status \<times> app_state" where
  "touch_destruct clk chat now timeout s =
     (case pending_destructs s chat of
        Some d \<Rightarrow>
          if duration_since clk (last_action_time d) > timeout then (Expired, s)
          else (Active, s\<lparr>pending_destructs := (pending_destructs s)(chat \<mapsto> d\<lparr>last_action_time := now\<rparr>)\<rparr>)
      | None \<Rightarrow> (NotTracked, s))"

definition with_destruct ::
  "string \<Rightarrow> (destruct_state \<Rightarrow> 'r \<times> destruct_state) \<Rightarrow> app_state \<Rightarrow> 'r option \<times> app_state" where
  "with_destruct chat f s =
     (case pending_destructs s chat of
        Some d \<Rightarrow> (let (r, d') = f d in (Some r, s\<lparr>pending_destructs := (pending_destructs s)(chat \<mapsto> d')\<rparr>))
      | None \<Rightarrow> (None, s))"

definition advance_destruct_step ::
  "string \<Rightarrow> destruct_step \<Rightarrow> destruct_step \<Rightarrow> instant \<Rightarrow> app_state \<Rightarrow> bool \<times> app_state" where
  "advance_destruct_step chat expected nxt now s =
     (let (r, s') = with_destruct chat
            (\<lambda>d. if ds_step d = expected
                 then (True, d\<lparr>ds_step := nxt, last_action_time := now\<rparr>) else (False, d)) s
      in (unwrap_or r False, s'))"

definition confirm_first_destruct_totp ::
  "string \<Rightarrow> string \<Rightarrow> instant \<Rightarrow> app_state \<Rightarrow> bool \<times> app_state" where
  "confirm_first_destruct_totp chat code now s =
     (let (r, s') = with_destruct chat
            (\<lambda>d. if ds_step d = AwaitFirstTotp
                 then (True, d\<lparr>ds_step := AwaitConfirm, first_totp := code, last_action_time := now\<rparr>)
                 else (False, d)) s
      in (unwrap_or r False, s'))"

definition confirm_second_destruct_totp ::
  "string \<Rightarrow> string \<Rightarrow> instant \<Rightarrow> app_state \<Rightarrow> (string + bool) \<times> app_state" where
  "confirm_second_destruct_totp chat code now s =
     (case destruct_snapshot s chat of
        None \<Rightarrow> (Inr False, s)
      | Some d \<Rightarrow>
          if ds_step d \<noteq> AwaitSecondTotp then (Inr False, s)
          else if first_totp d = code then (Inl (first_totp d), s)
          else (let (r, s') = with_destruct chat
                  (\<lambda>d. if ds_step d = AwaitSecondTotp
                       then (True, d\<lparr>ds_step := AwaitSecurityFile, second_totp := code, last_action_time := now\<rparr>)
                       else (False, d)) s
                in (Inr (unwrap_or r False), s')))"

definition mark_destruct_file_verified :: "string \<Rightarrow> instant \<Rightarrow> app_state \<Rightarrow> bool \<times> app_state" where
  "mark_destruct_file_verified chat now s =
     advance_destruct_step chat AwaitSecurityFile AwaitFinalConfirm now s"

section \<open>The other dialogues\<close>

definition start_warp_input :: "string \<Rightarrow> instant \<Rightarrow> app_state \<Rightarrow> app_state" where
  "start_warp_input chat now s = s\<lparr>pending_warp_inputs := (pending_warp_inputs s)(chat \<mapsto> now)\<rparr>"

definition take_warp_input_status ::
  "instant \<Rightarrow> string \<Rightarrow> duration \<Rightarrow> app_state \<Rightarrow> timeout_status \<times> app_state" where
  "take_warp_input_status clk chat timeout s =
     (case pending_warp_inputs s chat of
        Some t \<Rightarrow> if duration_since clk t > timeout then Expired else Active
      | None \<Rightarrow> NotTracked,
      s\<lparr>pending_warp_inputs := (pending_warp_inputs s)(chat := None)\<rparr>)"

definition schedule_timeout_status :: "instant \<Rightarrow> app_state \<Rightarrow> string \<Rightarrow> duration \<Rightarrow> timeout_status" where
  "schedule_timeout_status clk s chat timeout =
     (case pending_schedule_inputs s chat of
        Some i \<Rightarrow> if duration_since clk (si_updated_at i) > timeout then Expired else Active
      | None \<Rightarrow> NotTracked)"

definition remove_schedule_input :: "string \<Rightarrow> app_state \<Rightarrow> app_state" where
  "remove_schedule_input chat s = s\<lparr>pending_schedule_inputs := (pending_schedule_inputs s)(chat := None)\<rparr>"

definition insert_schedule_input :: "string \<Rightarrow> schedule_input_state \<Rightarrow> app_state \<Rightarrow> app_state" where
  "insert_schedule_input chat i s = s\<lparr>pending_schedule_inputs := (pending_schedule_inputs s)(chat \<mapsto> i)\<rparr>"

definition schedule_input_snapshot :: "app_state \<Rightarrow> string \<Rightarrow> schedule_input_state option" where
  "schedule_input_snapshot s chat = pending_schedule_inputs s chat"

definition with_schedule_input ::
  "string \<Rightarrow> (schedule_input_state \<Rightarrow> 'r \<times> schedule_input_state) \<Rightarrow> app_state \<Rightarrow> 'r option \<times> app_state" where
  "with_schedule_input chat f s =
     (case pending_schedule_inputs s chat of
        Some i \<Rightarrow> (let (r, i') = f i
                  in (Some r, s\<lparr>pending_schedule_inputs := (pending_schedule_inputs s)(chat \<mapsto> i')\<rparr>))
      | None \<Rightarrow> (None, s))"

definition start_security_file_input :: "string \<Rightarrow> instant \<Rightarrow> app_state \<Rightarrow> app_state" where
  "start_security_file_input chat now s = s\<lparr>pending_security_file := (pending_security_file s)(chat \<mapsto> now)\<rparr>"

definition take_security_file_input_status ::
  "instant \<Rightarrow> string \<Rightarrow> duration \<Rightarrow> app_state \<Rightarrow> timeout_status \<times> app_state" where
  "take_security_file_input_status clk chat timeout s =
     (case pending_security_file s chat of
        Some t \<Rightarrow> if duration_since clk t < timeout then Active else Expired
      | None \<Rightarrow> NotTracked,
      s\<lparr>pending_security_file := (pending_security_file s)(chat := None)\<rparr>)"

definition start_domain_input :: "string \<Rightarrow> domain_flow_source \<Rightarrow> instant \<Rightarrow> app_state \<Rightarrow> app_state" where
  "start_domain_input chat src now s = s\<lparr>pending_domain_inputs := (pending_domain_inputs s)
     (chat \<mapsto> \<lparr>di_updated_at = now, di_source = src, di_step = AwaitDomain, di_domain = None\<rparr>)\<rparr>"

definition domain_input_snapshot :: "app_state \<Rightarrow> string \<Rightarrow> domain_input_state option" where
  "domain_input_snapshot s chat = pending_domain_inputs s chat"

definition transition_domain_input ::
  "instant \<Rightarrow> string \<Rightarrow> domain_input_step \<Rightarrow> domain_input_step \<Rightarrow> string option \<Rightarrow> app_state \<Rightarrow> bool \<times> app_state" where
  "transition_domain_input clk chat expected nxt new_domain s =
     (case pending_domain_inputs s chat of
        Some d \<Rightarrow>
          if di_step d = expected
          then (True, s\<lparr>pending_domain_inputs := (pending_domain_inputs s)
                 (chat \<mapsto> d\<lparr>di_step := nxt, di_updated_at := clk,
                            di_domain := (if new_domain \<noteq> None then new_domain else di_domain d)\<rparr>)\<rparr>)
          else (False, s)
      | None \<Rightarrow> (False, s))"

definition take_domain_input :: "string \<Rightarrow> app_state \<Rightarrow> domain_input_state option \<times> app_state" where
  "take_domain_input chat s =
     (pending_domain_inputs s chat, s\<lparr>pending_domain_inputs := (pending_domain_inputs s)(chat := None)\<rparr>)"

definition domain_timeout_status :: "instant \<Rightarrow> app_state \<Rightarrow> string \<Rightarrow> duration \<Rightarrow> timeout_status" where
  "domain_timeout_status clk s chat timeout =
     (case pending_domain_inputs s chat of
        Some d \<Rightarrow> if duration_since clk (di_updated_at d) > timeout then Expired else Active
      | None \<Rightarrow> NotTracked)"

definition wizard_first_step :: "string \<Rightarrow> xdrive_wizard_step" where
  "wizard_first_step region =
     (let r = to_ascii_lowercase region
      in if r = ''gdrive'' \<or> r = ''google-drive'' then FolderId
         else if r = ''aws'' then Region
         else if r = ''cn'' \<or> r = ''r2'' then AccountId
         else if r = ''custom'' \<or> r = ''s3'' then Endpoint
         else Bucket)"

definition start_xdrive_wizard ::
  "instant \<Rightarrow> string \<Rightarrow> string \<Rightarrow> app_state \<Rightarrow> xdrive_wizard_step \<times> app_state" where
  "start_xdrive_wizard clk target region s =
     (let step = wizard_first_step region;
          session = \<lparr>xw_region = region, xw_step = step, xw_account_id = None, xw_endpoint = None,
            xw_s3_region = None, xw_bucket = None, xw_access_key = None, xw_secret_key = None,
            xw_client_id = None, xw_client_secret = None, xw_refresh_token = None,
            xw_folder_id = None, xw_started_at = clk\<rparr>
      in (step, s\<lparr>pending_xdrive_wizards := (pending_xdrive_wizards s)(target \<mapsto> session)\<rparr>))"

definition get_xdrive_wizard ::
  "instant \<Rightarrow> string \<Rightarrow> app_state \<Rightarrow> xdrive_wizard_session option \<times> app_state" where
  "get_xdrive_wizard clk target s =
     (case pending_xdrive_wizards s target of
        Some session \<Rightarrow>
          if duration_since clk (xw_started_at session) < from_secs 180 then (Some session, s)
          else (None, s\<lparr>pending_xdrive_wizards := (pending_xdrive_wizards s)(target := None)\<rparr>)
      | None \<Rightarrow> (None, s))"

definition update_xdrive_wizard :: "string \<Rightarrow> xdrive_wizard_session \<Rightarrow> app_state \<Rightarrow> app_state" where
  "update_xdrive_wizard target session s =
     s\<lparr>pending_xdrive_wizards := (pending_xdrive_wizards s)(target \<mapsto> session)\<rparr>"

definition clear_xdrive_wizard :: "string \<Rightarrow> app_state \<Rightarrow> app_state" where
  "clear_xdrive_wizard target s =
     s\<lparr>pending_xdrive_wizards := (pending_xdrive_wizards s)(target := None)\<rparr>"


section \<open>The code guard\<close>

text \<open>
  \<open>guarded_failure\<close> is what one login attempt with a wrong code does to the state: the cool-down is
  consulted first and only where it is over is the code looked at and the failure recorded. The first
  component says whether the code was looked at. \<open>AuthFlow\<close> shows that \<open>process_auth_code\<close> does exactly
  this with a wrong code.
\<close>

definition guarded_failure ::
  "nat \<Rightarrow> duration \<Rightarrow> duration list \<Rightarrow> int \<times> instant \<Rightarrow> app_state \<Rightarrow> bool \<times> app_state" where
  "guarded_failure max_att failure_window ladder a s =
     (case auth_cooldown_remaining (fst a) (snd a) s of
        (Some _, s1) \<Rightarrow> (False, s1)
      | (None, s1) \<Rightarrow> (True, snd (record_auth_failure (fst a) (snd a) max_att failure_window ladder s1)))"

fun guarded_failures ::
  "nat \<Rightarrow> duration \<Rightarrow> duration list \<Rightarrow> (int \<times> instant) list \<Rightarrow> app_state \<Rightarrow> nat \<times> app_state" where
  "guarded_failures m w l [] s = (0, s)"
| "guarded_failures m w l (a # as) s =
     (let (looked, s1) = guarded_failure m w l a s;
          (n, s2) = guarded_failures m w l as s1
      in ((if looked then 1 else 0) + n, s2))"

text \<open>The records a run of the program can hold: fewer failures than the limit (so the \<open>u32\<close> counter
  never overflows) and a ladder level inside the ladder.\<close>

definition auth_wf :: "nat \<Rightarrow> duration list \<Rightarrow> app_state \<Rightarrow> bool" where
  "auth_wf m ladder s \<longleftrightarrow> fr_count (global_failed_attempts s) < m
     \<and> (\<forall>u r. failed_attempts s u = Some r \<longrightarrow> fr_count r < m \<and> lock_level r \<le> length ladder - 1)"

section \<open>Lemmas: cool-downs\<close>

lemma global_cooldown_Some_iff:
  "fst (global_cooldown_remaining now s) = Some d \<longleftrightarrow>
     (\<exists>u. cooldown_until (global_failed_attempts s) = Some u \<and> now < u \<and> d = u - now)"
  by (auto simp: global_cooldown_remaining_def split: option.splits)

lemma user_cooldown_Some_iff:
  "fst (user_cooldown_remaining user now s) = Some d \<longleftrightarrow>
     (\<exists>r u. failed_attempts s user = Some r \<and> cooldown_until r = Some u \<and> now < u \<and> d = u - now)"
  by (auto simp: user_cooldown_remaining_def split: option.splits)

text \<open>Consulting a cool-down only clears locks that have run out.\<close>

definition expire :: "instant \<Rightarrow> failed_record \<Rightarrow> failed_record" where
  "expire now r = (case cooldown_until r of
       Some u \<Rightarrow> if u > now then r else r\<lparr>cooldown_until := None\<rparr> | None \<Rightarrow> r)"

lemma expire_simps [simp]:
  "fr_count (expire now r) = fr_count r" "first_fail (expire now r) = first_fail r"
  "lock_level (expire now r) = lock_level r"
  by (auto simp: expire_def split: option.splits)

lemma expire_until:
  "cooldown_until (expire now r) = Some u \<longleftrightarrow> cooldown_until r = Some u \<and> u > now"
  by (auto simp: expire_def split: option.splits)

lemma snd_global_cooldown:
  "snd (global_cooldown_remaining now s) =
     s\<lparr>global_failed_attempts := expire now (global_failed_attempts s)\<rparr>"
  by (auto simp: global_cooldown_remaining_def expire_def split: option.splits)

lemma snd_user_cooldown:
  "snd (user_cooldown_remaining user now s) =
     s\<lparr>failed_attempts := (failed_attempts s)(user := map_option (expire now) (failed_attempts s user))\<rparr>"
proof (cases "failed_attempts s user")
  case None
  then have "(failed_attempts s)(user := None) = failed_attempts s" by (simp add: fun_upd_idem)
  with None show ?thesis by (simp add: user_cooldown_remaining_def)
next
  case (Some r)
  then have "(failed_attempts s)(user \<mapsto> r) = failed_attempts s" by (simp add: fun_upd_idem)
  with Some show ?thesis
    by (auto simp: user_cooldown_remaining_def expire_def split: option.splits)
qed

lemma auth_cooldown_eq:
  "auth_cooldown_remaining user now s =
     (case (fst (user_cooldown_remaining user now s), fst (global_cooldown_remaining now s)) of
        (Some a, Some b) \<Rightarrow> Some (max a b) | (Some a, None) \<Rightarrow> Some a
      | (None, Some b) \<Rightarrow> Some b | (None, None) \<Rightarrow> None,
      s\<lparr>failed_attempts := (failed_attempts s)(user := map_option (expire now) (failed_attempts s user)),
        global_failed_attempts := expire now (global_failed_attempts s)\<rparr>)"
proof -
  obtain a s1 where u: "user_cooldown_remaining user now s = (a, s1)" by fastforce
  obtain b s2 where g: "global_cooldown_remaining now s1 = (b, s2)" by fastforce
  have s1: "s1 = s\<lparr>failed_attempts := (failed_attempts s)(user := map_option (expire now) (failed_attempts s user))\<rparr>"
    using u snd_user_cooldown [of user now s] by simp
  have "fst (global_cooldown_remaining now s1) = fst (global_cooldown_remaining now s)"
    by (auto simp: global_cooldown_remaining_def s1 split: option.splits)
  then have b: "fst (global_cooldown_remaining now s) = b"
    using g by simp
  have "s2 = s1\<lparr>global_failed_attempts := expire now (global_failed_attempts s1)\<rparr>"
    using g snd_global_cooldown [of now s1] by simp
  then have s2: "s2 = s\<lparr>failed_attempts := (failed_attempts s)(user := map_option (expire now) (failed_attempts s user)),
      global_failed_attempts := expire now (global_failed_attempts s)\<rparr>"
    by (simp add: s1)
  show ?thesis
    by (simp add: auth_cooldown_remaining_def u g b s2)
qed

lemma auth_cooldown_None_iff:
  "fst (auth_cooldown_remaining user now s) = None \<longleftrightarrow>
     fst (user_cooldown_remaining user now s) = None \<and> fst (global_cooldown_remaining now s) = None"
  by (auto simp: auth_cooldown_eq split: option.splits)

text \<open>A lock that is in force keeps the identity out for at least its rest.\<close>

lemma user_lock_blocks:
  assumes "failed_attempts s user = Some r" "cooldown_until r = Some u" "now < u"
  shows "\<exists>d. fst (auth_cooldown_remaining user now s) = Some d \<and> u - now \<le> d"
proof -
  from assms have "fst (user_cooldown_remaining user now s) = Some (u - now)"
    by (simp add: user_cooldown_Some_iff)
  then show ?thesis
    by (auto simp: auth_cooldown_eq split: option.splits)
qed

lemma global_lock_blocks:
  assumes "cooldown_until (global_failed_attempts s) = Some u" "now < u"
  shows "\<exists>d. fst (auth_cooldown_remaining user now s) = Some d \<and> u - now \<le> d"
proof -
  from assms have "fst (global_cooldown_remaining now s) = Some (u - now)"
    by (simp add: global_cooldown_Some_iff)
  then show ?thesis
    by (auto simp: auth_cooldown_eq split: option.splits)
qed

section \<open>Lemmas: recording failures\<close>

lemma count_failure_cases:
  "count_failure now w r =
     (if w < now - first_fail r then r\<lparr>fr_count := 1, first_fail := now, cooldown_until := None\<rparr>
      else r\<lparr>fr_count := fr_count r + 1, first_fail := min (first_fail r) now\<rparr>)"
  by (simp add: count_failure_def duration_since_def Let_def)

lemma count_failure_level [simp]: "lock_level (count_failure now w r) = lock_level r"
  by (simp add: count_failure_cases)

lemma record_global_failure_users [simp]:
  "failed_attempts (record_global_failure now m w s) = failed_attempts s"
  by (simp add: record_global_failure_def Let_def)

definition global_after :: "instant \<Rightarrow> nat \<Rightarrow> duration \<Rightarrow> failed_record \<Rightarrow> failed_record" where
  "global_after now m w g =
     (let rec = count_failure now w g
      in if m \<le> fr_count rec
         then rec\<lparr>cooldown_until := Some (now + GLOBAL_LOCKOUT_CAP), fr_count := 0, first_fail := now\<rparr>
         else rec)"

definition user_after ::
  "instant \<Rightarrow> nat \<Rightarrow> duration \<Rightarrow> duration list \<Rightarrow> failed_record option \<Rightarrow> auth_failure_outcome \<times> failed_record" where
  "user_after now m w ladder r0 =
     (let rec = count_failure now w (case r0 of Some r \<Rightarrow> r | None \<Rightarrow> fresh_record now)
      in if m \<le> fr_count rec then (Locked (ladder_duration ladder (lock_level rec)), lock_user now ladder rec)
         else (Invalid (fr_count rec) m, rec))"

lemma record_auth_failure_open:
  assumes "fst (global_cooldown_remaining now s) = None"
  shows "record_auth_failure user now m w ladder s =
    (fst (user_after now m w ladder (failed_attempts s user)),
     s\<lparr>global_failed_attempts := global_after now m w (expire now (global_failed_attempts s)),
       failed_attempts := (failed_attempts s)(user \<mapsto> snd (user_after now m w ladder (failed_attempts s user)))\<rparr>)"
proof -
  have g: "global_cooldown_remaining now s = (None, s\<lparr>global_failed_attempts := expire now (global_failed_attempts s)\<rparr>)"
    using assms by (metis prod.collapse snd_global_cooldown)
  show ?thesis
    by (simp add: record_auth_failure_def g record_global_failure_def global_after_def user_after_def Let_def)
qed

lemma record_auth_failure_locked:
  assumes "fst (global_cooldown_remaining now s) = Some d"
  shows "record_auth_failure user now m w ladder s = (Locked d, s)"
proof -
  obtain u where "cooldown_until (global_failed_attempts s) = Some u" "now < u" "d = u - now"
    using assms by (auto simp: global_cooldown_Some_iff)
  then have "global_cooldown_remaining now s = (Some d, s)"
    by (simp add: global_cooldown_remaining_def)
  then show ?thesis by (simp add: record_auth_failure_def)
qed

lemma global_after_count: "0 < m \<Longrightarrow> fr_count (global_after now m w g) < m"
  by (simp add: global_after_def Let_def)

lemma lock_user_count [simp]: "fr_count (lock_user now ladder r) = 0"
  by (simp add: lock_user_def)

lemma lock_user_level:
  "ladder \<noteq> [] \<Longrightarrow> lock_level r \<le> length ladder - 1 \<Longrightarrow>
     lock_level (lock_user now ladder r) = min (lock_level r + 1) (length ladder - 1)"
  by (auto simp: lock_user_def usize_pred_def)

lemma user_after_wf:
  assumes "0 < m" "ladder \<noteq> []"
    and "\<And>r. r0 = Some r \<Longrightarrow> lock_level r \<le> length ladder - 1"
  shows "fr_count (snd (user_after now m w ladder r0)) < m
    \<and> lock_level (snd (user_after now m w ladder r0)) \<le> length ladder - 1"
proof -
  let ?r = "count_failure now w (case r0 of Some r \<Rightarrow> r | None \<Rightarrow> fresh_record now)"
  have "lock_level ?r \<le> length ladder - 1"
    using assms(3) by (cases r0) (auto simp: fresh_record_def)
  then show ?thesis
    using assms(1,2) lock_user_level [of ladder ?r now]
    by (simp add: user_after_def Let_def not_le)
qed

lemma auth_wf_failure:
  assumes "auth_wf m ladder s" "ladder \<noteq> []"
  shows "auth_wf m ladder (snd (record_auth_failure user now m w ladder s))"
proof (cases "fst (global_cooldown_remaining now s)")
  case None
  have m: "0 < m" using assms(1) by (auto simp: auth_wf_def)
  have "fr_count (snd (user_after now m w ladder (failed_attempts s user))) < m
    \<and> lock_level (snd (user_after now m w ladder (failed_attempts s user))) \<le> length ladder - 1"
    using assms by (intro user_after_wf [OF m]) (auto simp: auth_wf_def)
  with m assms(1) show ?thesis
    by (auto simp: record_auth_failure_open [OF None] auth_wf_def global_after_count)
next
  case (Some d)
  with assms show ?thesis by (simp add: record_auth_failure_locked)
qed

lemma auth_wf_cooldown:
  assumes "auth_wf m ladder s"
  shows "auth_wf m ladder (snd (auth_cooldown_remaining user now s))"
  using assms by (auto simp: auth_wf_def auth_cooldown_eq split: option.splits if_splits)

lemma auth_wf_success:
  assumes "auth_wf m ladder s"
  shows "auth_wf m ladder (snd (record_auth_success user now s))"
  using assms by (auto simp: auth_wf_def record_auth_success_def)

lemma auth_wf_guarded:
  assumes "auth_wf m ladder s" "ladder \<noteq> []"
  shows "auth_wf m ladder (snd (guarded_failure m w ladder a s))"
  using auth_wf_cooldown [OF assms(1), of "fst a" "snd a"]
    auth_wf_failure [OF _ assms(2), of m "snd (auth_cooldown_remaining (fst a) (snd a) s)" "fst a" "snd a" w]
  by (auto simp: guarded_failure_def split: prod.splits option.splits)

section \<open>The budget of wrong codes\<close>

text \<open>
  How many more wrong codes can be looked at during an interval from \<open>t0\<close> to \<open>t1\<close>: none while the
  global lock outlasts the interval; otherwise the rest of the current window, plus one whole window
  when the current one began before \<open>t0\<close> and may still run out inside the interval.
\<close>

definition codes_left :: "instant \<Rightarrow> instant \<Rightarrow> nat \<Rightarrow> failed_record \<Rightarrow> nat" where
  "codes_left t0 t1 m g =
     (case cooldown_until g of
        Some u \<Rightarrow> if t1 < u then 0
                  else if t0 \<le> first_fail g then m - fr_count g else 2 * m - 1 - fr_count g
      | None \<Rightarrow> if t0 \<le> first_fail g then m - fr_count g else 2 * m - 1 - fr_count g)"

lemma codes_left_expire:
  assumes "now \<le> t1"
  shows "codes_left t0 t1 m (expire now g) = codes_left t0 t1 m g"
  using assms by (auto simp: codes_left_def expire_def split: option.splits)

lemma codes_left_step:
  assumes now: "t0 \<le> now" "now \<le> t1" and len: "t1 \<le> t0 + w" "t1 < t0 + GLOBAL_LOCKOUT_CAP"
    and g: "fr_count g < m" "cooldown_until g = None"
  shows "codes_left t0 t1 m (global_after now m w g) + 1 \<le> codes_left t0 t1 m g"
proof (cases "w < now - first_fail g")
  case True
  then have old: "\<not> t0 \<le> first_fail g" using now len by linarith
  have rec: "count_failure now w g = g\<lparr>fr_count := 1, first_fail := now, cooldown_until := None\<rparr>"
    using True by (simp add: count_failure_cases)
  show ?thesis
    using old now len g
    by (auto simp: global_after_def rec Let_def codes_left_def)
next
  case False
  have rec: "count_failure now w g = g\<lparr>fr_count := fr_count g + 1, first_fail := min (first_fail g) now\<rparr>"
    using False by (simp add: count_failure_cases)
  show ?thesis
    using now len g
    by (auto simp: global_after_def rec Let_def codes_left_def min_def)
qed

lemma guarded_failure_budget:
  assumes "auth_wf m ladder s" "ladder \<noteq> []"
    and "t0 \<le> snd a" "snd a \<le> t1" "t1 \<le> t0 + w" "t1 < t0 + GLOBAL_LOCKOUT_CAP"
  shows "(if fst (guarded_failure m w ladder a s) then 1 else 0)
      + codes_left t0 t1 m (global_failed_attempts (snd (guarded_failure m w ladder a s)))
    \<le> codes_left t0 t1 m (global_failed_attempts s)"
proof -
  obtain user now where a: "a = (user, now)" by (cases a)
  define s1 where "s1 = snd (auth_cooldown_remaining user now s)"
  have g1: "global_failed_attempts s1 = expire now (global_failed_attempts s)"
    by (simp add: s1_def auth_cooldown_eq)
  show ?thesis
  proof (cases "fst (auth_cooldown_remaining user now s)")
    case None
    then have nocd: "cooldown_until (global_failed_attempts s1) = None"
      by (auto simp: auth_cooldown_None_iff g1 global_cooldown_remaining_def expire_def
          split: option.splits if_splits)
    then have open1: "fst (global_cooldown_remaining now s1) = None"
      by (simp add: global_cooldown_remaining_def)
    have e1: "expire now (global_failed_attempts s1) = global_failed_attempts s1"
      using nocd by (simp add: expire_def)
    have "guarded_failure m w ladder a s = (True, snd (record_auth_failure user now m w ladder s1))"
      using None by (auto simp: guarded_failure_def a s1_def split: prod.splits)
    moreover have "global_failed_attempts (snd (record_auth_failure user now m w ladder s1))
         = global_after now m w (global_failed_attempts s1)"
      by (simp add: record_auth_failure_open [OF open1] e1)
    moreover have "fr_count (global_failed_attempts s1) < m"
      using assms(1) by (simp add: auth_wf_def g1)
    ultimately show ?thesis
      using codes_left_step [of t0 now t1 w "global_failed_attempts s1" m] nocd assms a
      by (simp add: g1 codes_left_expire)
  next
    case (Some d)
    then have "guarded_failure m w ladder a s = (False, s1)"
      by (auto simp: guarded_failure_def a s1_def split: prod.splits)
    then show ?thesis
      using assms a by (simp add: g1 codes_left_expire)
  qed
qed

lemma guarded_failures_budget:
  assumes "auth_wf m ladder s" "ladder \<noteq> []" "\<forall>a \<in> set as. t0 \<le> snd a \<and> snd a \<le> t1"
    and "t1 \<le> t0 + w" "t1 < t0 + GLOBAL_LOCKOUT_CAP"
  shows "fst (guarded_failures m w ladder as s) \<le> codes_left t0 t1 m (global_failed_attempts s)"
  using assms
proof (induction as arbitrary: s)
  case Nil
  then show ?case by simp
next
  case (Cons a as)
  let ?s1 = "snd (guarded_failure m w ladder a s)"
  have "fst (guarded_failures m w ladder as ?s1) \<le> codes_left t0 t1 m (global_failed_attempts ?s1)"
    using Cons.prems by (intro Cons.IH) (auto intro: auth_wf_guarded)
  moreover have "(if fst (guarded_failure m w ladder a s) then 1 else 0)
      + codes_left t0 t1 m (global_failed_attempts ?s1) \<le> codes_left t0 t1 m (global_failed_attempts s)"
    using Cons.prems by (intro guarded_failure_budget) auto
  ultimately show ?case
    by (simp add: case_prod_unfold Let_def)
qed

lemma codes_left_le: "codes_left t0 t1 m g \<le> 2 * m - 1"
  by (auto simp: codes_left_def split: option.splits)

section \<open>Properties\<close>

text \<open>
  Also: a lock that \<open>record_auth_failure\<close> reports is enforced: when it answers \<open>Locked d\<close> at time \<open>now\<close>,
  a cool-down is reported for that identity at every later instant before \<open>now + d\<close>, and what is
  reported is at least the rest of the lock.
\<close>

theorem lock_enforced:
  assumes "record_auth_failure user now m w ladder s = (Locked d, s')" and "now \<le> t" "t < now + d"
  shows "\<exists>r. fst (auth_cooldown_remaining user t s') = Some r \<and> now + d - t \<le> r"
proof (cases "fst (global_cooldown_remaining now s)")
  case None
  with assms(1) have d: "d = ladder_duration ladder (lock_level (count_failure now w
      (case failed_attempts s user of Some r \<Rightarrow> r | None \<Rightarrow> fresh_record now)))"
    and s': "failed_attempts s' user = Some (lock_user now ladder (count_failure now w
      (case failed_attempts s user of Some r \<Rightarrow> r | None \<Rightarrow> fresh_record now)))"
    by (auto simp: record_auth_failure_open user_after_def Let_def split: if_splits)
  show ?thesis
    by (rule user_lock_blocks [OF s']) (use d assms(3) in \<open>simp_all add: lock_user_def\<close>)
next
  case (Some r)
  then obtain u where u: "cooldown_until (global_failed_attempts s) = Some u" "now < u" "r = u - now"
    by (auto simp: global_cooldown_Some_iff)
  have "r = d" "s' = s"
    using assms(1) record_auth_failure_locked [OF Some, of user m w ladder] by auto
  then show ?thesis
    using global_lock_blocks [OF u(1), of t user] u assms(3) by auto
qed

theorem lock_enforced_witness:
  "let s' = snd (record_auth_failure 7 0 1 10 [5] (new_app_state (Some 7) None None None 600 0))
   in \<exists>r. fst (auth_cooldown_remaining 7 3 s') = Some r \<and> 0 + 5 - 3 \<le> r"
  unfolding Let_def
  by (rule lock_enforced [of _ _ 1 10 "[5]" "new_app_state (Some 7) None None None 600 0"])
     (simp_all add: record_auth_failure_def new_app_state_def fresh_record_def global_cooldown_remaining_def
       record_global_failure_def count_failure_def ladder_duration_def Let_def)

text \<open>
  Also: no login attempt with a wrong code makes the failure counters reach the limit or the ladder level
  leave the ladder, so the counters never wrap and the next lock's duration is always one of the
  ladder's.
\<close>

theorem guarded_failures_wf:
  assumes "auth_wf m ladder s" "ladder \<noteq> []"
  shows "auth_wf m ladder (snd (guarded_failures m w ladder as s))"
  using assms(1)
proof (induction as arbitrary: s)
  case Nil
  then show ?case by simp
next
  case (Cons a as)
  then show ?case
    using auth_wf_guarded [OF Cons.prems assms(2), of w a] by (simp add: case_prod_unfold Let_def)
qed

theorem guarded_failures_wf_witness:
  "auth_wf 5 [5] (snd (guarded_failures 5 10 [5] [(7, 0), (8, 1)] (new_app_state (Some 7) None None None 600 0)))"
  by (rule guarded_failures_wf) (simp_all add: auth_wf_def new_app_state_def fresh_record_def)

text \<open>
  Also: the lock of one identity escalates: with the records in order, a failure that locks the identity
  does so for the duration at its level of the ladder, and leaves the identity one level higher,
  staying on the last level once it is reached.
\<close>

theorem lock_escalates:
  assumes "auth_wf m ladder s" "ladder \<noteq> []" "failed_attempts s user = Some r"
    and "fst (global_cooldown_remaining now s) = None" "m \<le> fr_count (count_failure now w r)"
  shows "\<exists>r'. record_auth_failure user now m w ladder s =
        (Locked (ladder ! lock_level r), snd (record_auth_failure user now m w ladder s))
    \<and> failed_attempts (snd (record_auth_failure user now m w ladder s)) user = Some r'
    \<and> fr_count r' = 0 \<and> lock_level r' = min (lock_level r + 1) (length ladder - 1)"
proof -
  have lv: "lock_level r \<le> length ladder - 1" using assms(1,3) by (auto simp: auth_wf_def)
  then have "lock_level r < length ladder" using assms(2) by (cases ladder) auto
  moreover have "lock_level (lock_user now ladder (count_failure now w r)) = min (lock_level r + 1) (length ladder - 1)"
    using lock_user_level [OF assms(2), of "count_failure now w r" now] lv by simp
  ultimately show ?thesis
    using assms(3,5) by (simp add: record_auth_failure_open [OF assms(4)] user_after_def Let_def ladder_duration_def)
qed

theorem lock_escalates_witness:
  "let s = (new_app_state (Some 7) None None None 600 0)\<lparr>failed_attempts := [7 \<mapsto> (fresh_record 0)\<lparr>fr_count := 1\<rparr>]\<rparr>
   in \<exists>r'. record_auth_failure 7 3 2 10 [5, 6] s =
          (Locked ([5, 6] ! lock_level ((fresh_record 0)\<lparr>fr_count := 1\<rparr>)), snd (record_auth_failure 7 3 2 10 [5, 6] s))
     \<and> failed_attempts (snd (record_auth_failure 7 3 2 10 [5, 6] s)) 7 = Some r'
     \<and> fr_count r' = 0 \<and> lock_level r' = min (lock_level ((fresh_record 0)\<lparr>fr_count := 1\<rparr>) + 1) (length [5, 6 :: nat] - 1)"
  unfolding Let_def
  by (rule lock_escalates)
     (auto simp: auth_wf_def new_app_state_def fresh_record_def global_cooldown_remaining_def count_failure_def
       duration_since_def Let_def split: if_splits)

end
