(* ===== verification/World.thy ===== *)
theory World
  imports AppState
begin

text \<open>
  The world a handler runs in: the shared application state, the trace of everything the handler
  asked of the outside (adapter calls, writes to the configuration, the self-destruct trigger), and the
  network's answers. \<open>net n\<close> tells how the \<open>n\<close>-th effect of the trace went: \<open>None\<close> for success, \<open>Some e\<close>
  for the error \<open>e\<close>; it is an arbitrary function, so every theorem covers every pattern of failures.

  \<open>env\<close> collects the other inputs of one handler run: the clock reading (the time that passes inside
  one run is not modelled, so a run has one reading), the translations, the TOTP crate's check, the
  SHA-256 digest in hexadecimal, and the data adapters return.
\<close>

datatype effect =
    Call request \<comment> \<open>a call of the event's own adapter\<close>
  | StateCall request \<comment> \<open>a call of \<open>state.adapter\<close>\<close>
  | PersistSimplexAdmin int
  | PersistCodeVerified "int option"
  | PersistTimeout nat
  | PersistLang lang
  | PersistKeyHash "string option"
  | I18nSetLang lang
  | I18nMarkConfigured
  | TriggerSelfDestruct
  | SpawnTask string
  | Maintenance string \<comment> \<open>a call of \<open>MaintenanceManager\<close> or \<open>Operations\<close>\<close>

record world =
  app :: app_state
  trace :: "effect list"
  net :: "nat \<Rightarrow> string option"

record env =
  e_now :: instant
  e_tr :: "string \<Rightarrow> string list \<Rightarrow> string"
  e_check :: "string \<Rightarrow> string \<Rightarrow> bool"
  e_sha256_hex :: "string \<Rightarrow> string"
  e_download :: "string \<Rightarrow> string + string"
  e_contact_code :: "int \<Rightarrow> string + string"
  e_accept :: "int \<Rightarrow> string + int option"
  e_reject :: "int \<Rightarrow> string + unit"

section \<open>Primitive steps\<close>

definition emit :: "effect \<Rightarrow> (world, unit) io" where
  "emit ef w = (Inr (), w\<lparr>trace := trace w @ [ef]\<rparr>)"

definition perform :: "effect \<Rightarrow> (world, unit) io" where
  "perform ef w =
     (case net w (length (trace w)) of None \<Rightarrow> Inr () | Some e \<Rightarrow> Inl e, w\<lparr>trace := trace w @ [ef]\<rparr>)"

definition ask :: "effect \<Rightarrow> string + 'a \<Rightarrow> (world, 'a) io" where
  "ask ef answer w = (answer, w\<lparr>trace := trace w @ [ef]\<rparr>)"

definition gets :: "(app_state \<Rightarrow> 'a) \<Rightarrow> (world, 'a) io" where
  "gets f w = (Inr (f (app w)), w)"

definition app_op :: "(app_state \<Rightarrow> 'a \<times> app_state) \<Rightarrow> (world, 'a) io" where
  "app_op f w = (let (a, s) = f (app w) in (Inr a, w\<lparr>app := s\<rparr>))"

definition app_upd :: "(app_state \<Rightarrow> app_state) \<Rightarrow> (world, unit) io" where
  "app_upd f w = (Inr (), w\<lparr>app := f (app w)\<rparr>)"

definition send :: "string \<Rightarrow> string \<Rightarrow> markup option \<Rightarrow> (world, unit) io" where
  "send target text m = perform (Call (SendMessage target \<lparr>mc_text = text, mc_markup = m\<rparr>))"

definition edit :: "string \<Rightarrow> string \<Rightarrow> string \<Rightarrow> markup option \<Rightarrow> (world, unit) io" where
  "edit target msg_id text m = perform (Call (EditMessage target msg_id \<lparr>mc_text = text, mc_markup = m\<rparr>))"

definition answer :: "string \<Rightarrow> string \<Rightarrow> string \<Rightarrow> (world, unit) io" where
  "answer target cb_id text = perform (Call (AnswerCallback target cb_id (Some text)))"

text \<open>\<open>format!("{}\n\n{}", a, b)\<close>\<close>

definition two_paragraphs :: "string \<Rightarrow> string \<Rightarrow> string" where
  "two_paragraphs a b = a @ [CHR 0x0A, CHR 0x0A] @ b"

section \<open>Computations that leave the application state alone\<close>

definition app_frame :: "(world, 'a) io \<Rightarrow> bool" where
  "app_frame m \<longleftrightarrow> (\<forall>w. app (snd (m w)) = app w)"

named_theorems frames \<open>computations that keep the application state\<close>

lemma app_frameD: "app_frame m \<Longrightarrow> app (snd (m w)) = app w"
  by (simp add: app_frame_def)

lemma app_frame_emit [frames]: "app_frame (emit ef)"
  by (simp add: app_frame_def emit_def)

lemma app_frame_perform [frames]: "app_frame (perform ef)"
  by (simp add: app_frame_def perform_def)

lemma app_frame_ask [frames]: "app_frame (ask ef a)"
  by (simp add: app_frame_def ask_def)

lemma app_frame_gets [frames]: "app_frame (gets f)"
  by (simp add: app_frame_def gets_def)

lemma app_frame_send [frames]: "app_frame (send t x m)"
  by (simp add: send_def app_frame_perform)

lemma app_frame_edit [frames]: "app_frame (edit t i x m)"
  by (simp add: edit_def app_frame_perform)

lemma app_frame_answer [frames]: "app_frame (answer t i x)"
  by (simp add: answer_def app_frame_perform)

lemma app_frame_retE [frames]: "app_frame (retE a)"
  by (simp add: app_frame_def)

lemma app_frame_failE [frames]: "app_frame (failE a)"
  by (simp add: app_frame_def)

lemma app_frame_bindE [frames]:
  assumes "app_frame m" "\<And>a. app_frame (k a)"
  shows "app_frame (bindE m k)"
  unfolding app_frame_def
proof
  fix w
  obtain r w' where m: "m w = (r, w')" by fastforce
  show "app (snd (bindE m k w)) = app w"
    using app_frameD [OF assms(1), of w] app_frameD [OF assms(2), of "projr r" w'] m
    by (cases r) (simp_all add: bindE_def)
qed

lemma app_frame_thenE [frames]: "app_frame m \<Longrightarrow> app_frame k \<Longrightarrow> app_frame (thenE m k)"
  by (simp add: thenE_def app_frame_bindE)

lemma app_frame_catchE [frames]:
  assumes "app_frame m" "\<And>r. app_frame (k r)"
  shows "app_frame (catchE m k)"
  unfolding app_frame_def
proof
  fix w
  obtain r w' where m: "m w = (r, w')" by fastforce
  show "app (snd (catchE m k w)) = app w"
    using app_frameD [OF assms(1), of w] app_frameD [OF assms(2), of r w'] m
    by (simp add: catchE_def)
qed

lemma app_frame_if [frames]: "app_frame m \<Longrightarrow> app_frame k \<Longrightarrow> app_frame (if b then m else k)"
  by simp

lemma app_frame_case_option [frames]:
  assumes "app_frame m" "\<And>x. app_frame (k x)"
  shows "app_frame (case o' of None \<Rightarrow> m | Some x \<Rightarrow> k x)"
  using assms by (simp split: option.splits)

lemma app_frame_case_sum [frames]:
  assumes "\<And>x. app_frame (m x)" "\<And>x. app_frame (k x)"
  shows "app_frame (case s of Inl x \<Rightarrow> m x | Inr x \<Rightarrow> k x)"
  using assms by (simp split: sum.splits)

text \<open>A computation that only extends the trace, and never with one of the effects in \<open>P\<close>.\<close>

definition avoids :: "(effect \<Rightarrow> bool) \<Rightarrow> (world, 'a) io \<Rightarrow> bool" where
  "avoids P m \<longleftrightarrow> (\<forall>w. \<exists>es. trace (snd (m w)) = trace w @ es \<and> (\<forall>e \<in> set es. \<not> P e))"

named_theorems avoid \<open>computations that avoid a class of effects\<close>

lemma avoidsD:
  "avoids P m \<Longrightarrow> \<exists>es. trace (snd (m w)) = trace w @ es \<and> (\<forall>e \<in> set es. \<not> P e)"
  by (simp add: avoids_def)

lemma avoids_perform [avoid]: "\<not> P ef \<Longrightarrow> avoids P (perform ef)"
  by (simp add: avoids_def perform_def)

lemma avoids_emit [avoid]: "\<not> P ef \<Longrightarrow> avoids P (emit ef)"
  by (simp add: avoids_def emit_def)

lemma avoids_ask [avoid]: "\<not> P ef \<Longrightarrow> avoids P (ask ef a)"
  by (simp add: avoids_def ask_def)

lemma avoids_gets [avoid]: "avoids P (gets f)"
  by (simp add: avoids_def gets_def)

lemma avoids_app_op [avoid]: "avoids P (app_op f)"
  by (simp add: avoids_def app_op_def split: prod.splits)

lemma avoids_app_upd [avoid]: "avoids P (app_upd f)"
  by (simp add: avoids_def app_upd_def)

lemma avoids_retE [avoid]: "avoids P (retE a)"
  by (simp add: avoids_def)

lemma avoids_failE [avoid]: "avoids P (failE a)"
  by (simp add: avoids_def)

lemma avoids_bindE [avoid]:
  assumes "avoids P m" "\<And>a. avoids P (k a)"
  shows "avoids P (bindE m k)"
  unfolding avoids_def
proof
  fix w
  obtain es where es: "trace (snd (m w)) = trace w @ es" "\<forall>e \<in> set es. \<not> P e"
    using assms(1) by (auto simp: avoids_def)
  show "\<exists>es. trace (snd (bindE m k w)) = trace w @ es \<and> (\<forall>e \<in> set es. \<not> P e)"
  proof (cases "m w")
    case (Pair r w')
    show ?thesis
    proof (cases r)
      case (Inl e)
      with Pair es show ?thesis by (auto simp: bindE_def)
    next
      case (Inr a)
      obtain es' where "trace (snd (k a w')) = trace w' @ es'" "\<forall>e \<in> set es'. \<not> P e"
        using assms(2) [of a] by (auto simp: avoids_def)
      with Pair Inr es show ?thesis
        by (intro exI [of _ "es @ es'"]) (auto simp: bindE_def)
    qed
  qed
qed

lemma avoids_thenE [avoid]: "avoids P m \<Longrightarrow> avoids P k \<Longrightarrow> avoids P (thenE m k)"
  by (simp add: thenE_def avoids_bindE)

lemma avoids_catchE [avoid]:
  assumes "avoids P m" "\<And>r. avoids P (k r)"
  shows "avoids P (catchE m k)"
  unfolding avoids_def
proof
  fix w
  obtain es where es: "trace (snd (m w)) = trace w @ es" "\<forall>e \<in> set es. \<not> P e"
    using assms(1) by (auto simp: avoids_def)
  obtain r w' where m: "m w = (r, w')" by fastforce
  obtain es' where "trace (snd (k r w')) = trace w' @ es'" "\<forall>e \<in> set es'. \<not> P e"
    using assms(2) [of r] by (auto simp: avoids_def)
  with m es show "\<exists>es. trace (snd (catchE m k w)) = trace w @ es \<and> (\<forall>e \<in> set es. \<not> P e)"
    by (intro exI [of _ "es @ es'"]) (auto simp: catchE_def)
qed

lemma avoids_if [avoid]: "avoids P m \<Longrightarrow> avoids P k \<Longrightarrow> avoids P (if b then m else k)"
  by simp

lemma avoids_case_option [avoid]:
  assumes "avoids P m" "\<And>x. avoids P (k x)"
  shows "avoids P (case o' of None \<Rightarrow> m | Some x \<Rightarrow> k x)"
  using assms by (simp split: option.splits)

lemma avoids_case_sum [avoid]:
  assumes "\<And>x. avoids P (m x)" "\<And>x. avoids P (k x)"
  shows "avoids P (case s of Inl x \<Rightarrow> m x | Inr x \<Rightarrow> k x)"
  using assms by (simp split: sum.splits)

lemma avoids_send [avoid]:
  "\<not> P (Call (SendMessage t \<lparr>mc_text = x, mc_markup = m\<rparr>)) \<Longrightarrow> avoids P (send t x m)"
  by (simp add: send_def avoids_perform)

lemma avoids_edit [avoid]:
  "\<not> P (Call (EditMessage t i \<lparr>mc_text = x, mc_markup = m\<rparr>)) \<Longrightarrow> avoids P (edit t i x m)"
  by (simp add: edit_def avoids_perform)

lemma avoids_answer [avoid]:
  "\<not> P (Call (AnswerCallback t i (Some x))) \<Longrightarrow> avoids P (answer t i x)"
  by (simp add: answer_def avoids_perform)

text \<open>Computations that keep a property of the application state.\<close>

definition keeps :: "(app_state \<Rightarrow> bool) \<Rightarrow> (world, 'a) io \<Rightarrow> bool" where
  "keeps I m \<longleftrightarrow> (\<forall>w. I (app w) \<longrightarrow> I (app (snd (m w))))"

named_theorems keep \<open>computations that keep a property of the application state\<close>

lemma keepsD: "keeps I m \<Longrightarrow> I (app w) \<Longrightarrow> I (app (snd (m w)))"
  by (simp add: keeps_def)

lemma keeps_frame: "app_frame m \<Longrightarrow> keeps I m"
  by (simp add: keeps_def app_frame_def)

lemmas keeps_frames [keep] =
  app_frame_emit [THEN keeps_frame] app_frame_perform [THEN keeps_frame]
  app_frame_ask [THEN keeps_frame] app_frame_gets [THEN keeps_frame]
  app_frame_send [THEN keeps_frame] app_frame_edit [THEN keeps_frame]
  app_frame_answer [THEN keeps_frame] app_frame_retE [THEN keeps_frame]
  app_frame_failE [THEN keeps_frame]

lemma keeps_app_op: "(\<And>s. I s \<Longrightarrow> I (snd (f s))) \<Longrightarrow> keeps I (app_op f)"
  by (simp add: keeps_def app_op_def case_prod_unfold Let_def)

lemma keeps_app_upd: "(\<And>s. I s \<Longrightarrow> I (f s)) \<Longrightarrow> keeps I (app_upd f)"
  by (simp add: keeps_def app_upd_def)

lemma keeps_bindE [keep]:
  assumes "keeps I m" "\<And>a. keeps I (k a)"
  shows "keeps I (bindE m k)"
  unfolding keeps_def
proof (intro allI impI)
  fix w :: world assume "I (app w)"
  obtain r w' where m: "m w = (r, w')" by fastforce
  show "I (app (snd (bindE m k w)))"
    using keepsD [OF assms(1) \<open>I (app w)\<close>] keepsD [OF assms(2), of w' "projr r"] m
    by (cases r) (simp_all add: bindE_def)
qed

lemma keeps_thenE [keep]: "keeps I m \<Longrightarrow> keeps I k \<Longrightarrow> keeps I (thenE m k)"
  by (simp add: thenE_def keeps_bindE)

lemma keeps_catchE [keep]:
  assumes "keeps I m" "\<And>r. keeps I (k r)"
  shows "keeps I (catchE m k)"
  unfolding keeps_def
proof (intro allI impI)
  fix w :: world assume "I (app w)"
  obtain r w' where m: "m w = (r, w')" by fastforce
  show "I (app (snd (catchE m k w)))"
    using keepsD [OF assms(1) \<open>I (app w)\<close>] keepsD [OF assms(2), of w' r] m
    by (simp add: catchE_def)
qed

lemma keeps_if [keep]: "keeps I m \<Longrightarrow> keeps I k \<Longrightarrow> keeps I (if b then m else k)"
  by simp

lemma keeps_case_option [keep]:
  assumes "keeps I m" "\<And>x. keeps I (k x)"
  shows "keeps I (case o' of None \<Rightarrow> m | Some x \<Rightarrow> k x)"
  using assms by (simp split: option.splits)

lemma keeps_case_sum [keep]:
  assumes "\<And>x. keeps I (m x)" "\<And>x. keeps I (k x)"
  shows "keeps I (case s of Inl x \<Rightarrow> m x | Inr x \<Rightarrow> k x)"
  using assms by (simp split: sum.splits)

section \<open>Sample values\<close>

text \<open>
  A concrete environment and a concrete world, at which the properties with hypotheses are
  instantiated: the administrator is 7, the secret \<open>s\<close>, the code it accepts \<open>424242\<close>, the digest of a
  file its content, and every call of the network succeeds.
\<close>

definition sample_env :: "instant \<Rightarrow> env" where
  "sample_env now = \<lparr>e_now = now, e_tr = (\<lambda>k args. k), e_check = (\<lambda>secret code. secret = ''s'' \<and> code = ''424242''),
     e_sha256_hex = (\<lambda>content. content), e_download = (\<lambda>fid. Inr fid), e_contact_code = (\<lambda>i. Inr (int_str i)),
     e_accept = (\<lambda>i. Inr (Some i)), e_reject = (\<lambda>i. Inr ())\<rparr>"

definition sample_state :: "app_state" where
  "sample_state = new_app_state (Some 7) None (Some ''s'') (Some ''key'') 600 0"

definition sample_world :: "app_state \<Rightarrow> world" where
  "sample_world s = \<lparr>app = s, trace = [], net = (\<lambda>n. None)\<rparr>"

end
