(* ===== verification/AuthFlow.thy ===== *)
theory AuthFlow
  imports World
begin

text \<open>
  The login flow of \<open>app/auth.rs\<close>: \<open>notify_security_code\<close> and \<open>process_auth_code\<close>, with the duration
  format of \<open>utils/mod.rs\<close>. The lemmas relate a login attempt to the failure records of \<open>AppState\<close>.
\<close>

section \<open>Durations for humans\<close>

definition format_duration_human :: "nat \<Rightarrow> string" where
  "format_duration_human secs =
     (if secs < 60 then nat_str secs @ ([CHR 0xE7, CHR 0xA7, CHR 0x92])
      else if secs < 3600 then nat_str (secs div 60) @ ([CHR 0xE5, CHR 0x88, CHR 0x86, CHR 0xE9, CHR 0x92, CHR 0x9F])
      else if secs < 86400 then
        (let h = secs div 3600; m = (secs mod 3600) div 60
         in if m = 0 then nat_str h @ ([CHR 0xE5, CHR 0xB0, CHR 0x8F, CHR 0xE6, CHR 0x97, CHR 0xB6])
            else nat_str h @ ([CHR 0xE5, CHR 0xB0, CHR 0x8F, CHR 0xE6, CHR 0x97, CHR 0xB6]) @ nat_str m @ ([CHR 0xE5, CHR 0x88, CHR 0x86]))
      else
        (let d = secs div 86400; remaining = secs mod 86400; h = remaining div 3600
         in if h = 0 then nat_str d @ ([CHR 0xE5, CHR 0xA4, CHR 0xA9])
            else nat_str d @ ([CHR 0xE5, CHR 0xA4, CHR 0xA9]) @ nat_str h @ ([CHR 0xE5, CHR 0xB0, CHR 0x8F, CHR 0xE6, CHR 0x97, CHR 0xB6])))"

section \<open>The flow\<close>

definition notify_security_code :: "env \<Rightarrow> (world, unit) io" where
  "notify_security_code e =
     bindE (gets (\<lambda>s. (simplex_admin_id s, admin_id s, simplex_code_verified s))) (\<lambda>(sx, tg, verified).
       case (sx, tg) of
         (Some sx_admin, Some tg_admin) \<Rightarrow>
           if verified then retE ()
           else catchE (ask (StateCall (ContactSecurityCode sx_admin)) (e_contact_code e sx_admin)) (\<lambda>r.
             case r of
               Inr code \<Rightarrow>
                 catchE (perform (StateCall (SendMessagePrimary (int_str tg_admin)
                   \<lparr>mc_text = e_tr e ''simplex.security_code'' [code], mc_markup = None\<rparr>))) (\<lambda>_. retE ())
             | Inl _ \<Rightarrow> retE ())
       | _ \<Rightarrow> retE ())"

text \<open>The re-pin after a code that came from SimpleX: memory first, then the landing place of
  sensitive content, then the configuration file (a failure there is only logged), then the notice.\<close>

definition repin_simplex :: "env \<Rightarrow> int \<Rightarrow> (world, unit) io" where
  "repin_simplex e user =
     thenE (app_upd (set_simplex_admin_id user))
    (thenE (emit (StateCall (SetSecondaryTarget (int_str user))))
    (thenE (emit (PersistSimplexAdmin user))
           (notify_security_code e)))"

definition lang_markup :: "env \<Rightarrow> markup" where
  "lang_markup e =
     [[\<lparr>btn_text = e_tr e ''lang.zh'' [], btn_data = ''lang:zh''\<rparr>,
       \<lparr>btn_text = e_tr e ''lang.en'' [], btn_data = ''lang:en''\<rparr>,
       \<lparr>btn_text = e_tr e ''lang.ja'' [], btn_data = ''lang:ja''\<rparr>]]"

definition auth_success :: "env \<Rightarrow> platform \<Rightarrow> string \<Rightarrow> int \<Rightarrow> (world, bool) io" where
  "auth_success e plat target user =
     bindE (app_op (record_auth_success user (e_now e))) (\<lambda>timeout.
     bindE (gets simplex_repin_enabled) (\<lambda>repin.
     thenE (if repin \<and> plat = Simplex then repin_simplex e user else retE ())
    (bindE (gets lang_configured_cell) (\<lambda>configured.
       let success_text = e_tr e ''auth.success'' [format_duration_human timeout]
       in thenE
            (if \<not> configured
             then send target (two_paragraphs success_text (e_tr e ''welcome.select_language'' []))
                    (Some (lang_markup e))
             else send target success_text None)
            (retE True)))))"

definition lock_text :: "env \<Rightarrow> duration \<Rightarrow> string" where
  "lock_text e d =
     (if as_secs d \<ge> 3600 then nat_str (as_secs d div 3600) @ '' '' @ e_tr e ''auth.hours'' []
      else nat_str (as_secs d div 60) @ '' '' @ e_tr e ''auth.minutes'' [])"

definition auth_failure ::
  "env \<Rightarrow> string \<Rightarrow> int \<Rightarrow> nat \<Rightarrow> duration \<Rightarrow> duration list \<Rightarrow> (world, bool) io" where
  "auth_failure e target user max_att failure_window lockout_durations =
     bindE (app_op (record_auth_failure user (e_now e) max_att failure_window lockout_durations)) (\<lambda>out.
       case out of
         Locked d \<Rightarrow> thenE (send target (e_tr e ''auth.locked'' [lock_text e d]) None) (retE False)
       | Invalid att mx \<Rightarrow>
           thenE (send target (e_tr e ''auth.invalid_code'' [nat_str att, nat_str mx]) None) (retE False))"

definition process_auth_code ::
  "env \<Rightarrow> platform \<Rightarrow> string \<Rightarrow> int \<Rightarrow> string \<Rightarrow> nat \<Rightarrow> duration \<Rightarrow> duration list \<Rightarrow> (world, bool) io" where
  "process_auth_code e plat target user code max_att failure_window lockout_durations =
     bindE (app_op (auth_cooldown_remaining user (e_now e))) (\<lambda>cooldown.
       case cooldown of
         Some remaining \<Rightarrow>
           thenE (send target (e_tr e ''auth.rate_limit''
             [nat_str (as_secs remaining div 60), nat_str (as_secs remaining mod 60)]) None) (retE False)
       | None \<Rightarrow>
           bindE (gets (\<lambda>s. verify_totp (e_check e) s code)) (\<lambda>ok.
             if ok then auth_success e plat target user
             else auth_failure e target user max_att failure_window lockout_durations))"

text \<open>The parameters both call sites pass (\<open>shared/commands.rs\<close>, \<open>shared/dispatch.rs\<close>).\<close>

definition AUTH_MAX_ATTEMPTS :: nat where
  "AUTH_MAX_ATTEMPTS = 5"

definition AUTH_FAILURE_WINDOW :: duration where
  "AUTH_FAILURE_WINDOW = from_secs 600"

definition AUTH_LADDER :: "duration list" where
  "AUTH_LADDER = [from_secs 900, from_secs 3600, from_secs 86400, from_secs 172800]"

section \<open>Lemmas\<close>

lemma app_frame_notify [frames]: "app_frame (notify_security_code e)"
  unfolding notify_security_code_def
  by (auto intro!: frames split: prod.splits option.splits)

lemma app_op_apply: "app_op f w = (Inr (fst (f (app w))), w\<lparr>app := snd (f (app w))\<rparr>)"
  by (simp add: app_op_def case_prod_unfold Let_def)

lemma gets_apply: "gets f w = (Inr (f (app w)), w)"
  by (simp add: gets_def)

lemma app_upd_apply: "app_upd f w = (Inr (), w\<lparr>app := f (app w)\<rparr>)"
  by (simp add: app_upd_def)

lemmas step_simps = app_op_apply gets_apply app_upd_apply

text \<open>A continuation that leaves the state alone does not matter for the state.\<close>

lemma app_bindE_app_op:
  "app (snd (bindE (app_op f) k w)) = app (snd (k (fst (f (app w))) (w\<lparr>app := snd (f (app w))\<rparr>)))"
  by (simp add: bindE_def app_op_apply)

lemma app_auth_failure:
  "app (snd (auth_failure e target user m fw ladder w)) =
     snd (record_auth_failure user (e_now e) m fw ladder (app w))"
proof -
  have fr: "app_frame (case out of
         Locked d \<Rightarrow> thenE (send target (e_tr e ''auth.locked'' [lock_text e d]) None) (retE False)
       | Invalid att mx \<Rightarrow>
           thenE (send target (e_tr e ''auth.invalid_code'' [nat_str att, nat_str mx]) None) (retE False))" for out
    by (auto intro!: frames split: auth_failure_outcome.splits)
  show ?thesis
    unfolding auth_failure_def app_bindE_app_op by (subst app_frameD [OF fr]) simp
qed

lemma app_process_wrong:
  assumes "\<not> verify_totp (e_check e) (app w) code"
  shows "app (snd (process_auth_code e plat target user code m fw ladder w)) =
    snd (guarded_failure m fw ladder (user, e_now e) (app w))"
proof -
  obtain r s1 where cd: "auth_cooldown_remaining user (e_now e) (app w) = (r, s1)" by fastforce
  have "totp_manager s1 = totp_manager (app w)"
    using cd by (auto simp: auth_cooldown_eq)
  then have wrong: "\<not> verify_totp (e_check e) s1 code"
    using assms by (simp add: verify_totp_def)
  show ?thesis
  proof (cases r)
    case None
    then show ?thesis
      using wrong cd
      by (simp add: process_auth_code_def guarded_failure_def bindE_def step_simps app_auth_failure)
  next
    case (Some d)
    have "app_frame (thenE (send target (e_tr e ''auth.rate_limit''
             [nat_str (as_secs d div 60), nat_str (as_secs d mod 60)]) None) (retE False))"
      by (intro frames)
    then show ?thesis
      using Some cd by (simp add: process_auth_code_def app_bindE_app_op guarded_failure_def app_frameD)
  qed
qed

lemma totp_process_wrong:
  assumes "\<not> verify_totp (e_check e) (app w) code"
  shows "totp_manager (app (snd (process_auth_code e plat target user code m fw ladder w)))
    = totp_manager (app w)"
proof -
  have "totp_manager (snd (record_auth_failure user now m fw ladder s)) = totp_manager s" for now s
    by (cases "fst (global_cooldown_remaining now s)")
       (simp_all add: record_auth_failure_open record_auth_failure_locked)
  then show ?thesis
    using app_process_wrong [OF assms, of plat target user m fw ladder]
    by (simp add: guarded_failure_def auth_cooldown_eq split: option.splits)
qed

text \<open>A run of login attempts and the number of codes it compares: an attempt's code is compared
  exactly when the cool-down is over.\<close>

record attempt =
  at_env :: env
  at_platform :: platform
  at_target :: string
  at_user :: int
  at_code :: string

definition compares :: "attempt \<Rightarrow> world \<Rightarrow> bool" where
  "compares a w \<longleftrightarrow> fst (auth_cooldown_remaining (at_user a) (e_now (at_env a)) (app w)) = None"

fun auth_run :: "nat \<Rightarrow> duration \<Rightarrow> duration list \<Rightarrow> attempt list \<Rightarrow> world \<Rightarrow> nat \<times> world" where
  "auth_run m fw ladder [] w = (0, w)"
| "auth_run m fw ladder (a # as) w =
     (let w1 = snd (process_auth_code (at_env a) (at_platform a) (at_target a) (at_user a) (at_code a)
                 m fw ladder w);
          (n, w2) = auth_run m fw ladder as w1
      in ((if compares a w then 1 else 0) + n, w2))"

definition wrong_code :: "string option \<Rightarrow> attempt \<Rightarrow> bool" where
  "wrong_code secret a \<longleftrightarrow> (case secret of Some k \<Rightarrow> \<not> e_check (at_env a) k (at_code a) | None \<Rightarrow> True)"

lemma wrong_code_verify:
  "wrong_code (totp_manager (app w)) a \<Longrightarrow> \<not> verify_totp (e_check (at_env a)) (app w) (at_code a)"
  by (simp add: wrong_code_def verify_totp_def split: option.splits)

lemma auth_run_guarded:
  assumes "\<forall>a \<in> set as. wrong_code (totp_manager (app w)) a"
  shows "fst (auth_run m fw ladder as w) =
      fst (guarded_failures m fw ladder (map (\<lambda>a. (at_user a, e_now (at_env a))) as) (app w))
    \<and> app (snd (auth_run m fw ladder as w)) =
      snd (guarded_failures m fw ladder (map (\<lambda>a. (at_user a, e_now (at_env a))) as) (app w))"
  using assms
proof (induction as arbitrary: w)
  case Nil
  then show ?case by simp
next
  case (Cons a as)
  let ?w1 = "snd (process_auth_code (at_env a) (at_platform a) (at_target a) (at_user a) (at_code a)
                 m fw ladder w)"
  let ?g = "guarded_failure m fw ladder (at_user a, e_now (at_env a)) (app w)"
  have wrong: "\<not> verify_totp (e_check (at_env a)) (app w) (at_code a)"
    using Cons.prems by (intro wrong_code_verify) simp
  have "app ?w1 = snd ?g"
    by (rule app_process_wrong [OF wrong])
  moreover have "compares a w \<longleftrightarrow> fst ?g"
    by (auto simp: compares_def guarded_failure_def split: prod.splits option.splits)
  moreover have "\<forall>b \<in> set as. wrong_code (totp_manager (app ?w1)) b"
    using Cons.prems by (simp add: totp_process_wrong [OF wrong])
  ultimately show ?case
    using Cons.IH [of ?w1] by (simp add: case_prod_unfold Let_def)
qed

text \<open>What a successful code does to the state.\<close>

definition after_success :: "env \<Rightarrow> platform \<Rightarrow> int \<Rightarrow> app_state \<Rightarrow> app_state" where
  "after_success e plat user s =
     (let s1 = snd (record_auth_success user (e_now e) s)
      in if simplex_repin_enabled s \<and> plat = Simplex then set_simplex_admin_id user s1 else s1)"

lemma app_repin: "app (snd (repin_simplex e user w)) = set_simplex_admin_id user (app w)"
proof -
  have "app_frame (thenE (emit (StateCall (SetSecondaryTarget (int_str user))))
     (thenE (emit (PersistSimplexAdmin user)) (notify_security_code e)))"
    by (intro frames)
  then show ?thesis
    by (simp add: repin_simplex_def thenE_def [of "app_upd _"] bindE_def app_upd_apply app_frameD)
qed

lemma repin_ok: "fst (repin_simplex e user w) = Inr ()"
  by (auto simp: repin_simplex_def notify_security_code_def io_simps emit_def step_simps ask_def
      split: prod.splits option.splits sum.splits)

lemma app_auth_success: "app (snd (auth_success e plat target user w)) = after_success e plat user (app w)"
proof -
  let ?s1 = "snd (record_auth_success user (e_now e) (app w))"
  let ?tail = "\<lambda>t. bindE (gets lang_configured_cell) (\<lambda>configured.
       let success_text = e_tr e ''auth.success'' [format_duration_human t]
       in thenE
            (if \<not> configured
             then send target (two_paragraphs success_text (e_tr e ''welcome.select_language'' []))
                    (Some (lang_markup e))
             else send target success_text None)
            (retE True))"
  have fr: "app_frame (?tail t)" for t
    by (simp add: Let_def) (intro frames)
  have flag: "simplex_repin_enabled ?s1 = simplex_repin_enabled (app w)"
    by (simp add: record_auth_success_def)
  obtain u w2 where rp: "repin_simplex e user (w\<lparr>app := ?s1\<rparr>) = (Inr u, w2)"
    using repin_ok [of e user "w\<lparr>app := ?s1\<rparr>"] by (cases "repin_simplex e user (w\<lparr>app := ?s1\<rparr>)") auto
  then have w2: "app w2 = set_simplex_admin_id user ?s1"
    using app_repin [of e user "w\<lparr>app := ?s1\<rparr>"] by simp
  show ?thesis
    unfolding auth_success_def app_bindE_app_op
    using flag rp w2 app_frameD [OF fr]
    by (simp add: bindE_def [of "gets simplex_repin_enabled"] gets_apply thenE_apply after_success_def
        Let_def)
qed

lemma process_right_state:
  assumes "verify_totp (e_check e) (app w) code"
    and "fst (auth_cooldown_remaining user (e_now e) (app w)) = None"
  shows "app (snd (process_auth_code e plat target user code m fw ladder w)) =
    after_success e plat user (snd (auth_cooldown_remaining user (e_now e) (app w)))"
proof -
  have "verify_totp (e_check e) (snd (auth_cooldown_remaining user (e_now e) (app w))) code"
    using assms(1) by (simp add: verify_totp_def auth_cooldown_eq)
  then show ?thesis
    using assms(2)
    by (simp add: process_auth_code_def bindE_def step_simps app_auth_success)
qed

lemma process_blocked_state:
  assumes "fst (auth_cooldown_remaining user (e_now e) (app w)) = Some d"
  shows "app (snd (process_auth_code e plat target user code m fw ladder w)) =
      snd (auth_cooldown_remaining user (e_now e) (app w))
    \<and> fst (process_auth_code e plat target user code m fw ladder w) \<noteq> Inr True"
proof -
  have "app_frame (thenE (send target (e_tr e ''auth.rate_limit''
           [nat_str (as_secs d div 60), nat_str (as_secs d mod 60)]) None) (retE False))"
    by (intro frames)
  then show ?thesis
    using assms
    by (simp add: process_auth_code_def bindE_def app_op_apply app_frameD)
       (simp add: thenE_apply split: prod.splits sum.splits)
qed

lemma auth_failure_not_true: "fst (auth_failure e target user m fw ladder w) \<noteq> Inr True"
  by (auto simp: auth_failure_def io_simps app_op_apply split: auth_failure_outcome.splits prod.splits sum.splits)

text \<open>Only a right code while no cool-down is running is answered with success.\<close>

lemma process_true_imp:
  assumes "fst (process_auth_code e plat target user code m fw ladder w) = Inr True"
  shows "verify_totp (e_check e) (app w) code
    \<and> fst (auth_cooldown_remaining user (e_now e) (app w)) = None"
proof (cases "fst (auth_cooldown_remaining user (e_now e) (app w))")
  case None
  have "verify_totp (e_check e) (snd (auth_cooldown_remaining user (e_now e) (app w))) code
    = verify_totp (e_check e) (app w) code"
    by (simp add: verify_totp_def auth_cooldown_eq)
  then show ?thesis
    using assms None auth_failure_not_true
    by (auto simp: process_auth_code_def bindE_def app_op_apply gets_apply split: if_splits)
next
  case (Some d)
  with process_blocked_state assms show ?thesis by blast
qed

lemma auth_wf_set_simplex: "auth_wf m ladder (set_simplex_admin_id i s) = auth_wf m ladder s"
  by (simp add: auth_wf_def set_simplex_admin_id_def)

lemma process_auth_code_cases:
  "app (snd (process_auth_code e plat target user code m fw ladder w)) =
     (let c = auth_cooldown_remaining user (e_now e) (app w)
      in if fst c \<noteq> None then snd c
         else if verify_totp (e_check e) (app w) code then after_success e plat user (snd c)
         else snd (record_auth_failure user (e_now e) m fw ladder (snd c)))"
proof (cases "verify_totp (e_check e) (app w) code \<and> fst (auth_cooldown_remaining user (e_now e) (app w)) = None")
  case True
  then show ?thesis by (simp add: process_right_state Let_def)
next
  case False
  then consider d where "fst (auth_cooldown_remaining user (e_now e) (app w)) = Some d"
    | "\<not> verify_totp (e_check e) (app w) code" "fst (auth_cooldown_remaining user (e_now e) (app w)) = None"
    by (cases "fst (auth_cooldown_remaining user (e_now e) (app w))") auto
  then show ?thesis
  proof cases
    case 1
    then show ?thesis using process_blocked_state [OF 1] by (simp add: Let_def)
  next
    case 2
    then show ?thesis
      by (auto simp: app_process_wrong guarded_failure_def Let_def split: prod.splits option.splits)
  qed
qed

section \<open>Properties\<close>



text \<open>
  C3: a login is answered with success only for a code the secret accepts while neither the identity
  nor the bot is cooling down; then the session of that identity starts now, its failures are
  forgotten, and it is authorized exactly when it is an administrator or the code came from SimpleX
  with re-pinning enabled.
\<close>

theorem login_sound:
  assumes "fst (process_auth_code e plat target user code m fw ladder w) = Inr True"
    and "0 < session_timeout_cell (app w)" and "user \<noteq> 0"
  shows "verify_totp (e_check e) (app w) code
    \<and> fst (auth_cooldown_remaining user (e_now e) (app w)) = None
    \<and> (let s' = app (snd (process_auth_code e plat target user code m fw ladder w))
       in sessions s' user = Some (e_now e) \<and> failed_attempts s' user = None
        \<and> (is_authorized (e_now e) s' user \<longleftrightarrow>
             is_admin_user (app w) user \<or> simplex_repin_enabled (app w) \<and> plat = Simplex))"
proof -
  note ok = process_true_imp [OF assms(1)]
  define s' where "s' = app (snd (process_auth_code e plat target user code m fw ladder w))"
  have s': "s' = after_success e plat user (snd (auth_cooldown_remaining user (e_now e) (app w)))"
    using ok process_right_state by (simp add: s'_def)
  have adm: "is_admin_user s' user \<longleftrightarrow> is_admin_user (app w) user \<or> simplex_repin_enabled (app w) \<and> plat = Simplex"
    using assms(3)
    by (auto simp: s' after_success_def Let_def auth_cooldown_eq record_auth_success_def set_simplex_admin_id_def
        is_admin_user_def simplex_admin_id_def)
  have ses: "sessions s' user = Some (e_now e)" "failed_attempts s' user = None"
    "session_timeout_cell s' = session_timeout_cell (app w)"
    by (simp_all add: s' after_success_def Let_def auth_cooldown_eq record_auth_success_def set_simplex_admin_id_def)
  show ?thesis
    using ok adm ses assms(2)
    by (simp add: s'_def [symmetric] is_authorized_def is_session_valid_def duration_since_def)
qed

theorem login_sound_witness:
  "let w = sample_world sample_state; e = sample_env 5;
       s' = app (snd (process_auth_code e Telegram ''7'' 7 ''424242'' 5 600 [900] w))
   in verify_totp (e_check e) (app w) ''424242'' \<and> sessions s' 7 = Some 5
    \<and> (is_authorized 5 s' 7 \<longleftrightarrow> is_admin_user (app w) 7 \<or> simplex_repin_enabled (app w) \<and> Telegram = Simplex)"
proof -
  have "fst (process_auth_code (sample_env 5) Telegram ''7'' 7 ''424242'' 5 600 [900] (sample_world sample_state)) = Inr True"
    "0 < session_timeout_cell (app (sample_world sample_state))"
    by (simp_all add: process_auth_code_def io_simps step_simps auth_cooldown_remaining_def user_cooldown_remaining_def
        global_cooldown_remaining_def sample_world_def sample_state_def new_app_state_def fresh_record_def verify_totp_def
        sample_env_def auth_success_def record_auth_success_def perform_def send_def)
  from login_sound [OF this] show ?thesis
    by (simp add: Let_def sample_env_def)
qed

text \<open>
  Also: every login attempt, right, wrong or locked out, keeps the failure records within their bounds.
\<close>

theorem process_auth_code_wf:
  assumes "auth_wf m ladder (app w)" "ladder \<noteq> []"
  shows "auth_wf m ladder (app (snd (process_auth_code e plat target user code m fw ladder w)))"
proof -
  have "auth_wf m ladder (snd (auth_cooldown_remaining user (e_now e) (app w)))"
    by (rule auth_wf_cooldown [OF assms(1)])
  then show ?thesis
    using assms(2)
    by (auto simp: process_auth_code_cases Let_def after_success_def auth_wf_set_simplex intro: auth_wf_failure auth_wf_success)
qed

theorem process_auth_code_wf_witness:
  "auth_wf 5 [900] (app (snd (process_auth_code (sample_env 5) Telegram ''7'' 7 ''000000'' 5 600 [900] (sample_world sample_state))))"
  by (rule process_auth_code_wf)
     (simp_all add: auth_wf_def sample_world_def sample_state_def new_app_state_def fresh_record_def)

text \<open>
  Also: a login changes who the SimpleX administrator is only by a right code that came over SimpleX
  while re-pinning is enabled, and then to the sender; a code of another platform never re-pins.
\<close>

theorem repin_only_from_simplex:
  assumes "simplex_admin_id (app (snd (process_auth_code e plat target user code m fw ladder w)))
    \<noteq> simplex_admin_id (app w)"
  shows "plat = Simplex \<and> simplex_repin_enabled (app w) \<and> verify_totp (e_check e) (app w) code
    \<and> fst (auth_cooldown_remaining user (e_now e) (app w)) = None
    \<and> simplex_admin_cell (app (snd (process_auth_code e plat target user code m fw ladder w))) = user"
proof -
  have rf: "simplex_admin_cell (snd (record_auth_failure user now m fw ladder s)) = simplex_admin_cell s" for now s
    by (cases "fst (global_cooldown_remaining now s)")
       (simp_all add: record_auth_failure_open record_auth_failure_locked)
  show ?thesis
    using assms
    by (auto simp: process_auth_code_cases Let_def rf simplex_admin_id_def after_success_def auth_cooldown_eq
        record_auth_success_def set_simplex_admin_id_def split: if_splits)
qed

theorem repin_only_from_simplex_witness:
  "let w = sample_world (with_simplex_repin sample_state)
   in Simplex = Simplex \<and> simplex_repin_enabled (app w)
    \<and> simplex_admin_cell (app (snd (process_auth_code (sample_env 5) Simplex ''9'' 9 ''424242'' 5 600 [900] w))) = 9"
  using repin_only_from_simplex [of "sample_env 5" Simplex "''9''" 9 "''424242''" 5 600 "[900]"
    "sample_world (with_simplex_repin sample_state)"]
  by (simp add: Let_def process_auth_code_cases after_success_def auth_cooldown_eq user_cooldown_remaining_def
      global_cooldown_remaining_def sample_world_def sample_state_def with_simplex_repin_def new_app_state_def
      fresh_record_def simplex_admin_id_def record_auth_success_def set_simplex_admin_id_def verify_totp_def sample_env_def)

end
