(* ===== verification/Destruct.thy ===== *)
theory Destruct
  imports AuthFlow
begin

text \<open>
  The self-destruct dialogue of \<open>shared/destruct.rs\<close>: the pure decision \<open>process_destruct_message\<close>, the
  interception of messages and of callbacks, branch by branch, with every message sent and every
  early return on a failed send. \<open>self_destruct::trigger\<close> is the effect \<open>TriggerSelfDestruct\<close>.

  The texts compared after \<open>to_lowercase\<close> are \<open>confirm\<close>, \<open>yes\<close>, \<open>cancel\<close>, \<open>no\<close> and two CJK words. No
  character outside ASCII has a lower-case form that is one of the letters of these words, so
  lower-casing the ASCII letters decides the comparisons as Unicode lower-casing does.
\<close>

section \<open>Decisions\<close>

datatype destruct_message_action =
    ConfirmFirstTotp
  | AwaitingSecondTotp
  | VerifyFailed
  | AwaitingFile
  | FileVerified string
  | FileMismatch
  | NoSecurityKey
  | Noop

datatype flow_outcome = Handled | NotHandled

definition hash_short :: "string \<Rightarrow> string" where
  "hash_short hash =
     (if length hash > 12 then take 8 hash @ ''...'' @ drop (length hash - 4) hash else hash)"

fun process_destruct_message ::
  "env \<Rightarrow> string option \<Rightarrow> destruct_step \<Rightarrow> app_state \<Rightarrow> string option \<Rightarrow> string option \<Rightarrow> destruct_message_action" where
  "process_destruct_message e text AwaitFirstTotp s kh file =
     (case text of
        Some code \<Rightarrow> if verify_totp (e_check e) s (trim code) then ConfirmFirstTotp else VerifyFailed
      | None \<Rightarrow> Noop)"
| "process_destruct_message e text AwaitSecondTotp s kh file =
     (case text of
        Some code \<Rightarrow> if verify_totp (e_check e) s (trim code) then AwaitingSecondTotp else VerifyFailed
      | None \<Rightarrow> Noop)"
| "process_destruct_message e text AwaitSecurityFile s kh file =
     (case file of
        Some content \<Rightarrow>
          (let hash = e_sha256_hex e content
           in case kh of
                Some correct \<Rightarrow> if hash = correct then FileVerified (hash_short hash) else FileMismatch
              | None \<Rightarrow> NoSecurityKey)
      | None \<Rightarrow> AwaitingFile)"
| "process_destruct_message e text AwaitConfirm s kh file = Noop"
| "process_destruct_message e text AwaitFinalConfirm s kh file = Noop"

definition btn :: "string \<Rightarrow> string \<Rightarrow> inline_button" where
  "btn text data = \<lparr>btn_text = text, btn_data = data\<rparr>"

definition is_confirm_word :: "string \<Rightarrow> bool" where
  "is_confirm_word t \<longleftrightarrow> t = ''confirm'' \<or> t = ([CHR 0xE7, CHR 0xA2, CHR 0xBA, CHR 0xE8, CHR 0xAA, CHR 0x8D]) \<or> t = ''yes''"

definition is_cancel_word :: "string \<Rightarrow> bool" where
  "is_cancel_word t \<longleftrightarrow> t = ''cancel'' \<or> t = ([CHR 0xE5, CHR 0x8F, CHR 0x96, CHR 0xE6, CHR 0xB6, CHR 0x88]) \<or> t = ''no''"

section \<open>Messages\<close>

definition confirm_keyboard :: "env \<Rightarrow> string \<Rightarrow> string \<Rightarrow> markup" where
  "confirm_keyboard e key data =
     [[btn (e_tr e key []) data], [btn (e_tr e ''destruct.cancelled'' []) ''a_destroy_cancel'']]"

definition on_first_totp :: "env \<Rightarrow> message_event \<Rightarrow> (world, unit) io" where
  "on_first_totp e msg =
     bindE (app_op (confirm_first_destruct_totp (me_target msg) (trim (unwrap_or (me_text msg) [])) (e_now e))) (\<lambda>ok.
       if ok then send (me_target msg) (e_tr e ''destruct.title_2'' [])
                    (Some (confirm_keyboard e ''destruct.confirm_btn'' ''a_destroy_confirm''))
       else retE ())"

definition on_second_totp :: "env \<Rightarrow> message_event \<Rightarrow> (world, unit) io" where
  "on_second_totp e msg =
     bindE (app_op (confirm_second_destruct_totp (me_target msg) (trim (unwrap_or (me_text msg) [])) (e_now e))) (\<lambda>r.
       case r of
         Inl _ \<Rightarrow> send (me_target msg) (e_tr e ''destruct.security_warn'' []) None
       | Inr ok \<Rightarrow>
           if ok then send (me_target msg) (e_tr e ''destruct.title_4'' []) None
           else send (me_target msg) (e_tr e ''destruct.state_invalid'' []) None)"

definition on_file_verified :: "env \<Rightarrow> message_event \<Rightarrow> string \<Rightarrow> (world, unit) io" where
  "on_file_verified e msg short =
     (let file_display = (case me_file_name msg of Some n \<Rightarrow> n @ '' | '' @ short | None \<Rightarrow> short)
      in bindE (app_op (mark_destruct_file_verified (me_target msg) (e_now e))) (\<lambda>ok.
           if ok then send (me_target msg) (e_tr e ''destruct.file_verify_ok'' [file_display])
                        (Some (confirm_keyboard e ''destruct.final_btn'' ''a_destroy_final''))
           else retE ()))"

definition on_awaiting_file :: "env \<Rightarrow> message_event \<Rightarrow> (world, unit) io" where
  "on_awaiting_file e msg =
     (case me_file_id msg of
        Some fid \<Rightarrow>
          bindE (ask (Call (DownloadFile fid)) (e_download e fid)) (\<lambda>content.
          bindE (gets (\<lambda>s. process_destruct_message e None AwaitSecurityFile s (key_hash_cell s) (Some content))) (\<lambda>re_action.
            case re_action of
              FileVerified short \<Rightarrow> on_file_verified e msg short
            | FileMismatch \<Rightarrow> send (me_target msg) (e_tr e ''destruct.file_verify_fail'' []) None
            | NoSecurityKey \<Rightarrow> send (me_target msg) (e_tr e ''destruct.no_security_file'' []) None
            | _ \<Rightarrow> retE ()))
      | None \<Rightarrow> send (me_target msg) (e_tr e ''destruct.file_send_prompt'' []) None)"

definition cancel_by_text :: "env \<Rightarrow> message_event \<Rightarrow> (world, unit) io" where
  "cancel_by_text e msg =
     bindE (app_op (cancel_destruct (me_target msg))) (\<lambda>_.
       send (me_target msg) (e_tr e ''destruct.cancelled'' []) None)"

definition on_await_confirm :: "env \<Rightarrow> message_event \<Rightarrow> (world, unit) io" where
  "on_await_confirm e msg =
     (case me_text msg of
        Some text \<Rightarrow>
          (let t = to_ascii_lowercase (trim text)
           in bindE (gets (\<lambda>s. verify_totp (e_check e) s (trim text))) (\<lambda>code_ok.
                if is_confirm_word t \<or> code_ok then
                  bindE (app_op (advance_destruct_step (me_target msg) AwaitConfirm AwaitFinalConfirm (e_now e))) (\<lambda>ok.
                    if ok then send (me_target msg) (e_tr e ''destruct.title_4'' []) None
                    else send (me_target msg) (e_tr e ''destruct.state_invalid'' []) None)
                else if is_cancel_word t then cancel_by_text e msg
                else retE ()))
      | None \<Rightarrow> retE ())"

definition on_final_confirm :: "env \<Rightarrow> message_event \<Rightarrow> (world, unit) io" where
  "on_final_confirm e msg =
     (case me_text msg of
        Some text \<Rightarrow>
          (let t = to_ascii_lowercase (trim text)
           in bindE (gets (\<lambda>s. verify_totp (e_check e) s (trim text))) (\<lambda>code_ok.
                if is_confirm_word t \<or> code_ok then
                  thenE (send (me_target msg) (e_tr e ''destruct.final_exec'' []) None)
                 (thenE (emit TriggerSelfDestruct)
                 (bindE (app_op (cancel_destruct (me_target msg))) (\<lambda>_. retE ())))
                else if is_cancel_word t then cancel_by_text e msg
                else retE ()))
      | None \<Rightarrow> retE ())"

text \<open>The \<open>match (step, action)\<close> of \<open>intercept_message\<close>, arms in the source's order.\<close>

definition destruct_reply ::
  "env \<Rightarrow> message_event \<Rightarrow> destruct_step \<Rightarrow> destruct_message_action \<Rightarrow> (world, unit) io" where
  "destruct_reply e msg step action =
     (if step = AwaitFirstTotp \<and> action = ConfirmFirstTotp then on_first_totp e msg
      else if step = AwaitSecondTotp \<and> action = AwaitingSecondTotp then on_second_totp e msg
      else if action = VerifyFailed then send (me_target msg) (e_tr e ''destruct.verify_fail'' []) None
      else if step = AwaitSecurityFile \<and> action = AwaitingFile then on_awaiting_file e msg
      else if step = AwaitConfirm then on_await_confirm e msg
      else if step = AwaitFinalConfirm then on_final_confirm e msg
      else retE ())"

definition intercept_active :: "env \<Rightarrow> message_event \<Rightarrow> (world, flow_outcome) io" where
  "intercept_active e msg =
     bindE (gets (\<lambda>s. is_authorized (e_now e) s (me_user_id msg))) (\<lambda>authorized.
       if \<not> authorized then
         thenE (send (me_target msg) (e_tr e ''auth.expired'' []) None) (retE Handled)
       else
         bindE (gets (\<lambda>s. destruct_snapshot s (me_target msg))) (\<lambda>snapshot.
           case snapshot of
             None \<Rightarrow> retE NotHandled
           | Some d \<Rightarrow>
               bindE (gets (\<lambda>s. process_destruct_message e (me_text msg) (ds_step d) s (key_hash_cell s) None)) (\<lambda>action.
                 thenE (destruct_reply e msg (ds_step d) action) (retE Handled))))"

definition intercept_message :: "env \<Rightarrow> message_event \<Rightarrow> (world, flow_outcome) io" where
  "intercept_message e msg =
     bindE (app_op (touch_destruct (e_now e) (me_target msg) (e_now e) (from_secs 60))) (\<lambda>st.
       case st of
         Expired \<Rightarrow>
           bindE (app_op (cancel_destruct (me_target msg))) (\<lambda>_.
             thenE (send (me_target msg) (e_tr e ''destruct.timeout'' []) None) (retE Handled))
       | NotTracked \<Rightarrow> retE NotHandled
       | Active \<Rightarrow> intercept_active e msg)"

section \<open>Callbacks\<close>

definition callback_timeout :: "env \<Rightarrow> callback_event \<Rightarrow> (world, flow_outcome) io" where
  "callback_timeout e cb =
     bindE (app_op (touch_destruct (e_now e) (cb_target cb) (e_now e) (from_secs 60))) (\<lambda>st.
       case st of
         Expired \<Rightarrow>
           bindE (app_op (cancel_destruct (cb_target cb))) (\<lambda>_.
           thenE (answer (cb_target cb) (cb_callback_id cb) (e_tr e ''destruct.callback_timeout'' []))
          (thenE (edit (cb_target cb) (cb_msg_id cb) (e_tr e ''destruct.timeout'' []) None)
                 (retE Handled)))
       | Active \<Rightarrow> retE NotHandled
       | NotTracked \<Rightarrow> retE NotHandled)"

definition cancel_keyboard :: "env \<Rightarrow> markup" where
  "cancel_keyboard e = [[btn (e_tr e ''destruct.cancelled'' []) ''a_destroy_cancel'']]"

text \<open>The guard three of the four callbacks start with.\<close>

definition when_authorized ::
  "env \<Rightarrow> callback_event \<Rightarrow> (world, flow_outcome) io \<Rightarrow> (world, flow_outcome) io" where
  "when_authorized e cb body =
     bindE (gets (\<lambda>s. is_authorized (e_now e) s (unwrap_or (parse_i64 (cb_user_id cb)) 0))) (\<lambda>authorized.
       if \<not> authorized then
         thenE (answer (cb_target cb) (cb_callback_id cb) (e_tr e ''auth.expired'' [])) (retE Handled)
       else body)"

definition on_destroy_ask :: "env \<Rightarrow> callback_event \<Rightarrow> (world, flow_outcome) io" where
  "on_destroy_ask e cb = when_authorized e cb
     (thenE (app_upd (begin_destruct (cb_target cb) (e_now e)))
     (thenE (edit (cb_target cb) (cb_msg_id cb) (e_tr e ''destruct.title_1'' []) (Some (cancel_keyboard e)))
            (retE Handled)))"

definition on_destroy_cancel :: "env \<Rightarrow> callback_event \<Rightarrow> (world, flow_outcome) io" where
  "on_destroy_cancel e cb =
     bindE (app_op (cancel_destruct (cb_target cb))) (\<lambda>was.
     thenE (if was then send (cb_target cb) (e_tr e ''destruct.cancelled'' []) None else retE ())
    (thenE (edit (cb_target cb) (cb_msg_id cb)
              (two_paragraphs (e_tr e ''menu.danger_zone'' []) (e_tr e ''menu.danger_zone_desc'' []))
              (Some [[btn (e_tr e ''destruct.destroy_btn'' []) ''a_destroy_ask''],
                     [btn (e_tr e ''menu.back_settings'' []) ''m_settings'']]))
           (retE Handled)))"

definition on_destroy_confirm :: "env \<Rightarrow> callback_event \<Rightarrow> (world, flow_outcome) io" where
  "on_destroy_confirm e cb = when_authorized e cb
     (bindE (app_op (advance_destruct_step (cb_target cb) AwaitConfirm AwaitSecondTotp (e_now e))) (\<lambda>ok.
      thenE (if ok then edit (cb_target cb) (cb_msg_id cb) (e_tr e ''destruct.title_3'' []) (Some (cancel_keyboard e))
             else answer (cb_target cb) (cb_callback_id cb) (e_tr e ''destruct.state_invalid'' []))
            (retE Handled)))"

definition on_destroy_final :: "env \<Rightarrow> callback_event \<Rightarrow> (world, flow_outcome) io" where
  "on_destroy_final e cb = when_authorized e cb
     (bindE (gets (\<lambda>s. destruct_snapshot s (cb_target cb))) (\<lambda>snapshot.
        if map_option ds_step snapshot = Some AwaitFinalConfirm then
          thenE (answer (cb_target cb) (cb_callback_id cb) (e_tr e ''destruct.executing'' []))
         (thenE (edit (cb_target cb) (cb_msg_id cb) (e_tr e ''destruct.final_exec'' []) None)
         (thenE (emit TriggerSelfDestruct)
         (bindE (app_op (cancel_destruct (cb_target cb))) (\<lambda>_. retE Handled))))
        else
          thenE (answer (cb_target cb) (cb_callback_id cb) (e_tr e ''destruct.state_invalid'' []))
                (retE Handled)))"

definition callback_action :: "env \<Rightarrow> callback_event \<Rightarrow> (world, flow_outcome) io" where
  "callback_action e cb =
     (if cb_data cb = ''a_destroy_ask'' then on_destroy_ask e cb
      else if cb_data cb = ''a_destroy_cancel'' then on_destroy_cancel e cb
      else if cb_data cb = ''a_destroy_confirm'' then on_destroy_confirm e cb
      else if cb_data cb = ''a_destroy_final'' then on_destroy_final e cb
      else retE NotHandled)"

definition intercept_callback :: "env \<Rightarrow> callback_event \<Rightarrow> (world, flow_outcome) io" where
  "intercept_callback e cb =
     bindE (callback_timeout e cb) (\<lambda>out.
       if out = Handled then retE Handled else callback_action e cb)"


section \<open>The dialogue as an automaton\<close>

definition step_of :: "app_state \<Rightarrow> string \<Rightarrow> destruct_step option" where
  "step_of s chat = map_option ds_step (pending_destructs s chat)"

inductive destruct_trans :: "destruct_step option \<Rightarrow> destruct_step option \<Rightarrow> bool" where
  stay: "destruct_trans d d"
| stop: "destruct_trans d None"
| asked: "destruct_trans d (Some AwaitFirstTotp)"
| first_code: "destruct_trans (Some AwaitFirstTotp) (Some AwaitConfirm)"
| button_confirm: "destruct_trans (Some AwaitConfirm) (Some AwaitSecondTotp)"
| text_confirm: "destruct_trans (Some AwaitConfirm) (Some AwaitFinalConfirm)"
| second_code: "destruct_trans (Some AwaitSecondTotp) (Some AwaitSecurityFile)"
| file_ok: "destruct_trans (Some AwaitSecurityFile) (Some AwaitFinalConfirm)"

inductive_cases to_final: "destruct_trans d (Some AwaitFinalConfirm)"

section \<open>Lemmas: the operations on the dialogue\<close>

lemma bindE_gets [simp]: "bindE (gets f) k w = k (f (app w)) w"
  by (simp add: bindE_def gets_apply)

lemma bindE_app_op [simp]: "bindE (app_op f) k w = k (fst (f (app w))) (w\<lparr>app := snd (f (app w))\<rparr>)"
  by (simp add: bindE_def app_op_apply)

lemma app_bindE_frame:
  "(\<And>a. app_frame (k a)) \<Longrightarrow> app (snd (bindE (app_op f) k w)) = snd (f (app w))"
  by (simp add: app_frameD)

lemma step_of_touch: "step_of (snd (touch_destruct clk chat now t s)) c = step_of s c"
  by (auto simp: touch_destruct_def step_of_def split: option.splits)

lemma step_of_cancel: "step_of (snd (cancel_destruct chat s)) c = (if c = chat then None else step_of s c)"
  by (simp add: cancel_destruct_def step_of_def)

lemma step_of_begin: "step_of (begin_destruct chat now s) c = (if c = chat then Some AwaitFirstTotp else step_of s c)"
  by (simp add: begin_destruct_def step_of_def)

lemma step_of_advance:
  "step_of (snd (advance_destruct_step chat x y now s)) c =
     (if c = chat \<and> step_of s chat = Some x then Some y else step_of s c)"
  by (auto simp: advance_destruct_step_def with_destruct_def step_of_def split: option.splits)

lemma fst_advance: "fst (advance_destruct_step chat x y now s) \<longleftrightarrow> step_of s chat = Some x"
  by (auto simp: advance_destruct_step_def with_destruct_def step_of_def split: option.splits)

lemma step_of_first:
  "step_of (snd (confirm_first_destruct_totp chat code now s)) c =
     (if c = chat \<and> step_of s chat = Some AwaitFirstTotp then Some AwaitConfirm else step_of s c)"
  by (auto simp: confirm_first_destruct_totp_def with_destruct_def step_of_def split: option.splits)

lemma step_of_second:
  "step_of (snd (confirm_second_destruct_totp chat code now s)) c =
     (if c = chat \<and> step_of s chat = Some AwaitSecondTotp
         \<and> map_option first_totp (pending_destructs s chat) \<noteq> Some code
      then Some AwaitSecurityFile else step_of s c)"
  by (auto simp: confirm_second_destruct_totp_def destruct_snapshot_def with_destruct_def step_of_def
      split: option.splits)

lemma step_of_file:
  "step_of (snd (mark_destruct_file_verified chat now s)) c =
     (if c = chat \<and> step_of s chat = Some AwaitSecurityFile then Some AwaitFinalConfirm else step_of s c)"
  by (simp add: mark_destruct_file_verified_def step_of_advance)

lemmas step_of_ops = step_of_touch step_of_cancel step_of_begin step_of_advance step_of_first
  step_of_second step_of_file

lemma touch_frame:
  "admin_id (snd (touch_destruct clk chat now t s)) = admin_id s"
  "simplex_admin_cell (snd (touch_destruct clk chat now t s)) = simplex_admin_cell s"
  "sessions (snd (touch_destruct clk chat now t s)) = sessions s"
  "session_timeout_cell (snd (touch_destruct clk chat now t s)) = session_timeout_cell s"
  "totp_manager (snd (touch_destruct clk chat now t s)) = totp_manager s"
  "key_hash_cell (snd (touch_destruct clk chat now t s)) = key_hash_cell s"
  by (auto simp: touch_destruct_def split: option.splits)

lemma is_authorized_touch [simp]:
  "is_authorized now (snd (touch_destruct clk chat now' t s)) u = is_authorized now s u"
  by (auto simp: is_authorized_def is_admin_user_def simplex_admin_id_def touch_frame split: option.splits)

lemma verify_totp_touch [simp]:
  "verify_totp ck (snd (touch_destruct clk chat now' t s)) code = verify_totp ck s code"
  by (simp add: verify_totp_def touch_frame)

lemma touch_status:
  "fst (touch_destruct clk chat now t s) =
     (case pending_destructs s chat of
        None \<Rightarrow> NotTracked
      | Some d \<Rightarrow> if t < clk - last_action_time d then Expired else Active)"
  by (simp add: touch_destruct_def duration_since_def split: option.splits)

section \<open>Lemmas: what each branch does to the state\<close>

lemma app_on_first:
  "app (snd (on_first_totp e msg w)) =
     snd (confirm_first_destruct_totp (me_target msg) (trim (unwrap_or (me_text msg) [])) (e_now e) (app w))"
  unfolding on_first_totp_def by (rule app_bindE_frame) (intro frames)

lemma app_on_second:
  "app (snd (on_second_totp e msg w)) =
     snd (confirm_second_destruct_totp (me_target msg) (trim (unwrap_or (me_text msg) [])) (e_now e) (app w))"
  unfolding on_second_totp_def by (rule app_bindE_frame) (intro frames)

lemma app_cancel_by_text: "app (snd (cancel_by_text e msg w)) = snd (cancel_destruct (me_target msg) (app w))"
  unfolding cancel_by_text_def by (rule app_bindE_frame) (intro frames)

lemma app_on_file_verified:
  "app (snd (on_file_verified e msg short w)) = snd (mark_destruct_file_verified (me_target msg) (e_now e) (app w))"
  unfolding on_file_verified_def Let_def by (rule app_bindE_frame) (intro frames)

text \<open>The content of the message's file matches the stored hash.\<close>

definition right_file :: "env \<Rightarrow> message_event \<Rightarrow> app_state \<Rightarrow> bool" where
  "right_file e msg s \<longleftrightarrow> (\<exists>fid content. me_file_id msg = Some fid \<and> e_download e fid = Inr content
     \<and> key_hash_cell s = Some (e_sha256_hex e content))"

lemma app_on_awaiting_file:
  "app (snd (on_awaiting_file e msg w)) =
     (if right_file e msg (app w) then snd (mark_destruct_file_verified (me_target msg) (e_now e) (app w))
      else app w)"
proof (cases "me_file_id msg")
  case None
  then show ?thesis
    by (simp add: on_awaiting_file_def right_file_def app_frameD [OF app_frame_send])
next
  case (Some fid)
  show ?thesis
  proof (cases "e_download e fid")
    case (Inl x)
    with Some show ?thesis by (simp add: on_awaiting_file_def right_file_def bindE_def ask_def)
  next
    case (Inr content)
    with Some show ?thesis
      by (auto simp: on_awaiting_file_def right_file_def bindE_def [of "ask _ _"] ask_def Let_def
          app_on_file_verified app_frameD [OF app_frame_send] split: option.splits)
  qed
qed

definition says_confirm :: "env \<Rightarrow> message_event \<Rightarrow> app_state \<Rightarrow> bool" where
  "says_confirm e msg s \<longleftrightarrow> (\<exists>text. me_text msg = Some text \<and>
     (is_confirm_word (to_ascii_lowercase (trim text)) \<or> verify_totp (e_check e) s (trim text)))"

definition says_cancel :: "message_event \<Rightarrow> bool" where
  "says_cancel msg \<longleftrightarrow> (\<exists>text. me_text msg = Some text \<and> is_cancel_word (to_ascii_lowercase (trim text)))"

lemma app_on_await_confirm:
  "app (snd (on_await_confirm e msg w)) =
     (if says_confirm e msg (app w)
      then snd (advance_destruct_step (me_target msg) AwaitConfirm AwaitFinalConfirm (e_now e) (app w))
      else if says_cancel msg then snd (cancel_destruct (me_target msg) (app w)) else app w)"
proof (cases "me_text msg")
  case None
  then show ?thesis by (simp add: on_await_confirm_def says_confirm_def says_cancel_def)
next
  case (Some tx)
  then show ?thesis
    by (auto simp: on_await_confirm_def says_confirm_def says_cancel_def Let_def app_cancel_by_text
        app_frameD [OF app_frame_send])
qed

lemma app_on_final_confirm:
  "app (snd (on_final_confirm e msg w)) \<in> {app w, snd (cancel_destruct (me_target msg) (app w))}"
proof (cases "me_text msg")
  case None
  then show ?thesis by (simp add: on_final_confirm_def)
next
  case (Some tx)
  have "app (snd (send t x m w)) = app w" for t x m
    by (rule app_frameD [OF app_frame_send])
  then show ?thesis
    using Some
    by (auto simp: on_final_confirm_def Let_def app_cancel_by_text thenE_apply emit_def
        split: prod.splits sum.splits) (metis snd_conv)+
qed

text \<open>One message moves the dialogue along one transition.\<close>

lemma destruct_trans_op:
  assumes "step_of s' c = step_of s c \<or> step_of s' c = None"
  shows "destruct_trans (step_of s c) (step_of s' c)"
  using assms by (auto intro: destruct_trans.intros)

lemma step_of_reply:
  assumes "step_of (app w) (me_target msg) = Some d"
  shows "destruct_trans (step_of (app w) c) (step_of (app (snd (destruct_reply e msg d action w))) c)"
proof -
  have "(d = AwaitFirstTotp \<and> action = ConfirmFirstTotp) \<or> (d = AwaitSecondTotp \<and> action = AwaitingSecondTotp)
    \<or> action = VerifyFailed \<or> (d = AwaitSecurityFile \<and> action = AwaitingFile)
    \<or> (d = AwaitConfirm \<and> action \<noteq> VerifyFailed) \<or> (d = AwaitFinalConfirm \<and> action \<noteq> VerifyFailed)
    \<or> destruct_reply e msg d action w = (Inr (), w)"
    by (simp add: destruct_reply_def)
  then consider "d = AwaitFirstTotp \<and> action = ConfirmFirstTotp" | "d = AwaitSecondTotp \<and> action = AwaitingSecondTotp"
    | "action = VerifyFailed" | "d = AwaitSecurityFile \<and> action = AwaitingFile"
    | "d = AwaitConfirm \<and> action \<noteq> VerifyFailed" | "d = AwaitFinalConfirm \<and> action \<noteq> VerifyFailed"
    | "destruct_reply e msg d action w = (Inr (), w)"
    by blast
  then show ?thesis
  proof cases
    case 1
    then show ?thesis
      by (auto simp: destruct_reply_def app_on_first step_of_ops intro: destruct_trans.intros)
  next
    case 2
    then show ?thesis
      by (auto simp: destruct_reply_def app_on_second step_of_ops intro: destruct_trans.intros)
  next
    case 3
    then show ?thesis
      by (auto simp: destruct_reply_def app_frameD [OF app_frame_send] intro: destruct_trans.intros)
  next
    case 4
    then show ?thesis
      by (auto simp: destruct_reply_def app_on_awaiting_file step_of_ops intro: destruct_trans.intros)
  next
    case 5
    then show ?thesis
      by (auto simp: destruct_reply_def app_on_await_confirm step_of_ops intro: destruct_trans.intros)
  next
    case 6
    then have "destruct_reply e msg d action = on_final_confirm e msg"
      by (auto simp: destruct_reply_def)
    moreover have "step_of (app (snd (on_final_confirm e msg w))) c = step_of (app w) c
        \<or> step_of (app (snd (on_final_confirm e msg w))) c = None"
      using app_on_final_confirm [of e msg w] by (auto simp: step_of_cancel split: if_splits)
    ultimately show ?thesis by (simp add: destruct_trans_op)
  next
    case 7
    then show ?thesis by (simp add: destruct_trans.stay)
  qed
qed

lemma thenE_retE_snd: "snd (thenE m (retE x) w) = snd (m w)"
  by (simp add: thenE_apply split: prod.splits sum.splits)

lemma app_intercept_active:
  "app (snd (intercept_active e msg w)) =
     (if is_authorized (e_now e) (app w) (me_user_id msg)
      then (case pending_destructs (app w) (me_target msg) of
              None \<Rightarrow> app w
            | Some d \<Rightarrow> app (snd (destruct_reply e msg (ds_step d)
                (process_destruct_message e (me_text msg) (ds_step d) (app w) (key_hash_cell (app w)) None) w)))
      else app w)"
  by (auto simp: intercept_active_def destruct_snapshot_def thenE_retE_snd app_frameD [OF app_frame_send]
      split: option.splits)

lemma intercept_message_trans:
  "destruct_trans (step_of (app w) c) (step_of (app (snd (intercept_message e msg w))) c)"
proof -
  define s1 where "s1 = snd (touch_destruct (e_now e) (me_target msg) (e_now e) (from_secs 60) (app w))"
  have s1: "step_of s1 c = step_of (app w) c" by (simp add: s1_def step_of_touch)
  show ?thesis
  proof (cases "fst (touch_destruct (e_now e) (me_target msg) (e_now e) (from_secs 60) (app w))")
    case Expired
    then show ?thesis
      by (auto simp: intercept_message_def s1_def [symmetric] thenE_retE_snd app_frameD [OF app_frame_send]
          step_of_cancel s1 intro: destruct_trans.intros)
  next
    case NotTracked
    then show ?thesis
      by (simp add: intercept_message_def s1_def [symmetric] s1 destruct_trans.stay)
  next
    case Active
    then have im: "app (snd (intercept_message e msg w)) = app (snd (intercept_active e msg (w\<lparr>app := s1\<rparr>)))"
      by (simp add: intercept_message_def s1_def)
    show ?thesis
    proof (cases "is_authorized (e_now e) s1 (me_user_id msg) \<and> pending_destructs s1 (me_target msg) \<noteq> None")
      case True
      then obtain d where d: "pending_destructs s1 (me_target msg) = Some d" by auto
      then have st: "step_of (app (w\<lparr>app := s1\<rparr>)) (me_target msg) = Some (ds_step d)"
        by (simp add: step_of_def)
      show ?thesis
        using step_of_reply [OF st, of c e] True d s1 by (simp add: im app_intercept_active)
    next
      case False
      then show ?thesis
        by (auto simp: im app_intercept_active s1 intro: destruct_trans.intros split: option.splits)
    qed
  qed
qed

section \<open>Lemmas: callbacks\<close>

lemma app_when_authorized:
  "app (snd (when_authorized e cb body w)) =
     (if is_authorized (e_now e) (app w) (unwrap_or (parse_i64 (cb_user_id cb)) 0)
      then app (snd (body w)) else app w)"
  by (simp add: when_authorized_def thenE_retE_snd app_frameD [OF app_frame_answer])

lemma app_on_destroy_ask_body:
  "app (snd (thenE (app_upd (begin_destruct t n)) (thenE (edit t i x m) (retE Handled)) w))
     = begin_destruct t n (app w)"
  by (simp add: thenE_apply [of "app_upd _"] app_upd_apply thenE_retE_snd app_frameD [OF app_frame_edit])

lemma app_on_destroy_cancel: "app (snd (on_destroy_cancel e cb w)) = snd (cancel_destruct (cb_target cb) (app w))"
  unfolding on_destroy_cancel_def by (rule app_bindE_frame) (intro frames)

lemma app_destroy_final_body:
  "app (snd (thenE (answer t i x) (thenE (edit t j y None) (thenE (emit ef)
      (bindE (app_op (cancel_destruct t)) (\<lambda>_. retE Handled)))) w)) \<in> {app w, snd (cancel_destruct t (app w))}"
proof -
  have "app (snd (answer t i x w)) = app w" for w
    by (rule app_frameD [OF app_frame_answer])
  moreover have "app (snd (edit t j y None w)) = app w" for w
    by (rule app_frameD [OF app_frame_edit])
  ultimately show ?thesis
    by (auto simp: thenE_apply emit_def split: prod.splits sum.splits) (metis snd_conv)+
qed

text \<open>What a callback can do to the step of a chat: nothing, end it, start it over, or ask for the
  second code.\<close>

definition callback_move :: "destruct_step option \<Rightarrow> destruct_step option \<Rightarrow> bool" where
  "callback_move a b \<longleftrightarrow> b = a \<or> b = None \<or> b = Some AwaitFirstTotp \<or> (a = Some AwaitConfirm \<and> b = Some AwaitSecondTotp)"

lemma callback_move_trans: "callback_move a b \<Longrightarrow> destruct_trans a b"
  by (auto simp: callback_move_def intro: destruct_trans.intros)

lemma callback_action_move:
  "callback_move (step_of (app w) c) (step_of (app (snd (callback_action e cb w))) c)"
proof -
  have confirm: "app (snd (bindE (app_op (advance_destruct_step (cb_target cb) AwaitConfirm AwaitSecondTotp (e_now e))) (\<lambda>ok.
      thenE (if ok then edit (cb_target cb) (cb_msg_id cb) (e_tr e ''destruct.title_3'' []) (Some (cancel_keyboard e))
             else answer (cb_target cb) (cb_callback_id cb) (e_tr e ''destruct.state_invalid'' []))
            (retE Handled)) w))
     = snd (advance_destruct_step (cb_target cb) AwaitConfirm AwaitSecondTotp (e_now e) (app w))"
    by (rule app_bindE_frame) (intro frames)
  have "cb_data cb = ''a_destroy_ask'' \<or> cb_data cb = ''a_destroy_cancel''
    \<or> cb_data cb = ''a_destroy_confirm'' \<or> cb_data cb = ''a_destroy_final''
    \<or> callback_action e cb w = (Inr NotHandled, w)"
    by (simp add: callback_action_def)
  then consider "cb_data cb = ''a_destroy_ask''" | "cb_data cb = ''a_destroy_cancel''"
    | "cb_data cb = ''a_destroy_confirm''" | "cb_data cb = ''a_destroy_final''"
    | "callback_action e cb w = (Inr NotHandled, w)"
    by blast
  then show ?thesis
  proof cases
    case 1
    then show ?thesis
      by (auto simp: callback_action_def on_destroy_ask_def app_when_authorized app_on_destroy_ask_body
          step_of_ops callback_move_def)
  next
    case 2
    then show ?thesis
      by (auto simp: callback_action_def app_on_destroy_cancel step_of_ops callback_move_def)
  next
    case 3
    then show ?thesis
      by (auto simp del: bindE_app_op simp: callback_action_def on_destroy_confirm_def app_when_authorized
          confirm step_of_ops callback_move_def)
  next
    case 4
    have "app (snd (on_destroy_final e cb w)) \<in> {app w, snd (cancel_destruct (cb_target cb) (app w))}"
      using app_destroy_final_body [of "cb_target cb" _ _ _ _ TriggerSelfDestruct w]
      by (auto simp del: bindE_app_op simp: on_destroy_final_def app_when_authorized thenE_retE_snd
          app_frameD [OF app_frame_answer])
    with 4 show ?thesis
      by (auto simp: callback_action_def step_of_cancel callback_move_def split: if_splits)
  next
    case 5
    then show ?thesis by (simp add: callback_move_def)
  qed
qed

lemma callback_timeout_app:
  "app (snd (callback_timeout e cb w)) =
     (let t = touch_destruct (e_now e) (cb_target cb) (e_now e) (from_secs 60) (app w)
      in if fst t = Expired then snd (cancel_destruct (cb_target cb) (snd t)) else snd t)"
proof -
  have "app_frame (thenE (answer t i x) (thenE (edit t j y None) (retE Handled)))" for t i x j y
    by (intro frames)
  then show ?thesis
    by (auto simp: callback_timeout_def Let_def app_frameD split: timeout_status.splits)
qed

lemma callback_timeout_out:
  "fst (callback_timeout e cb w) = Inr NotHandled \<longleftrightarrow>
     fst (touch_destruct (e_now e) (cb_target cb) (e_now e) (from_secs 60) (app w)) \<noteq> Expired"
  by (auto simp: callback_timeout_def thenE_apply split: timeout_status.splits prod.splits sum.splits)

lemma intercept_callback_cases:
  "snd (intercept_callback e cb w) = snd (callback_timeout e cb w)
   \<or> (fst (callback_timeout e cb w) = Inr NotHandled
      \<and> intercept_callback e cb w = callback_action e cb (snd (callback_timeout e cb w)))"
  by (auto simp: intercept_callback_def bindE_def split: prod.splits sum.splits)
     (metis flow_outcome.exhaust)

lemma intercept_callback_move:
  "callback_move (step_of (app w) c) (step_of (app (snd (intercept_callback e cb w))) c)"
proof -
  let ?w1 = "snd (callback_timeout e cb w)"
  have t: "step_of (app ?w1) c = step_of (app w) c \<or> step_of (app ?w1) c = None"
    by (auto simp: callback_timeout_app Let_def step_of_cancel step_of_touch)
  show ?thesis
    using intercept_callback_cases [of e cb w]
  proof
    assume "snd (intercept_callback e cb w) = ?w1"
    with t show ?thesis by (auto simp: callback_move_def)
  next
    assume c: "fst (callback_timeout e cb w) = Inr NotHandled
      \<and> intercept_callback e cb w = callback_action e cb ?w1"
    then have "step_of (app ?w1) c = step_of (app w) c"
      by (simp add: callback_timeout_out callback_timeout_app Let_def step_of_touch)
    with c callback_action_move [of ?w1 c e cb] show ?thesis by simp
  qed
qed

section \<open>Lemmas: how the final step is reached\<close>

lemma reply_to_final:
  assumes "step_of (app w) (me_target msg) = Some d"
    and "step_of (app w) c \<noteq> Some AwaitFinalConfirm"
    and "step_of (app (snd (destruct_reply e msg d action w))) c = Some AwaitFinalConfirm"
  shows "c = me_target msg \<and> (d = AwaitSecurityFile \<and> right_file e msg (app w)
    \<or> d = AwaitConfirm \<and> says_confirm e msg (app w))"
proof -
  have final: "step_of (app (snd (on_final_confirm e msg w))) c \<in> {step_of (app w) c, None}"
    using app_on_final_confirm [of e msg w] by (auto simp: step_of_cancel split: if_splits)
  then show ?thesis
    using assms
    by (auto simp: destruct_reply_def app_on_first app_on_second app_on_awaiting_file app_on_await_confirm
        step_of_ops app_frameD [OF app_frame_send] split: if_splits)
qed

lemma message_to_final:
  assumes "step_of (app w) c \<noteq> Some AwaitFinalConfirm"
    and "step_of (app (snd (intercept_message e msg w))) c = Some AwaitFinalConfirm"
  shows "c = me_target msg \<and> is_authorized (e_now e) (app w) (me_user_id msg)
    \<and> (step_of (app w) c = Some AwaitSecurityFile \<and> right_file e msg (app w)
       \<or> step_of (app w) c = Some AwaitConfirm \<and> says_confirm e msg (app w))"
proof -
  define s1 where "s1 = snd (touch_destruct (e_now e) (me_target msg) (e_now e) (from_secs 60) (app w))"
  have s1: "step_of s1 c' = step_of (app w) c'" for c' by (simp add: s1_def step_of_touch)
  have act: "fst (touch_destruct (e_now e) (me_target msg) (e_now e) (from_secs 60) (app w)) = Active"
    using assms s1
    by (cases "fst (touch_destruct (e_now e) (me_target msg) (e_now e) (from_secs 60) (app w))")
       (auto simp: intercept_message_def s1_def [symmetric] thenE_retE_snd app_frameD [OF app_frame_send]
          step_of_cancel split: if_splits)
  then have im: "app (snd (intercept_message e msg w)) = app (snd (intercept_active e msg (w\<lparr>app := s1\<rparr>)))"
    by (simp add: intercept_message_def s1_def)
  have au: "is_authorized (e_now e) s1 (me_user_id msg)" "pending_destructs s1 (me_target msg) \<noteq> None"
    using assms s1 by (auto simp: im app_intercept_active split: if_splits option.splits)
  then obtain d where d: "pending_destructs s1 (me_target msg) = Some d" by auto
  then have st: "step_of (app (w\<lparr>app := s1\<rparr>)) (me_target msg) = Some (ds_step d)"
    by (simp add: step_of_def)
  have "right_file e msg s1 = right_file e msg (app w)" "says_confirm e msg s1 = says_confirm e msg (app w)"
    by (simp_all add: right_file_def says_confirm_def s1_def touch_frame)
  moreover have "is_authorized (e_now e) s1 (me_user_id msg) = is_authorized (e_now e) (app w) (me_user_id msg)"
    by (simp add: s1_def)
  ultimately show ?thesis
    using reply_to_final [OF st, of c e] assms s1 au d im st
    by (auto simp: app_intercept_active split: if_splits)
qed

lemma reply_leaves_first:
  assumes "step_of (app w) (me_target msg) = Some d"
    and "step_of (app w) c \<in> {None, Some AwaitFirstTotp}"
    and "step_of (app (snd (destruct_reply e msg d action w))) c \<notin> {None, Some AwaitFirstTotp}"
  shows "c = me_target msg \<and> d = AwaitFirstTotp \<and> action = ConfirmFirstTotp"
proof -
  have final: "step_of (app (snd (on_final_confirm e msg w))) c \<in> {step_of (app w) c, None}"
    using app_on_final_confirm [of e msg w] by (auto simp: step_of_cancel split: if_splits)
  then show ?thesis
    using assms
    by (auto simp: destruct_reply_def app_on_first app_on_second app_on_awaiting_file app_on_await_confirm
        step_of_ops app_frameD [OF app_frame_send] split: if_splits)
qed

text \<open>The sender is authorized and the text is a code the secret accepts.\<close>

definition gives_code :: "env \<Rightarrow> message_event \<Rightarrow> app_state \<Rightarrow> bool" where
  "gives_code e msg s \<longleftrightarrow> is_authorized (e_now e) s (me_user_id msg)
     \<and> (\<exists>text. me_text msg = Some text \<and> verify_totp (e_check e) s (trim text))"

lemma message_leaves_first:
  assumes "step_of (app w) c \<in> {None, Some AwaitFirstTotp}"
    and "step_of (app (snd (intercept_message e msg w))) c \<notin> {None, Some AwaitFirstTotp}"
  shows "c = me_target msg \<and> gives_code e msg (app w)"
proof -
  define s1 where "s1 = snd (touch_destruct (e_now e) (me_target msg) (e_now e) (from_secs 60) (app w))"
  have s1: "step_of s1 c' = step_of (app w) c'" for c' by (simp add: s1_def step_of_touch)
  have act: "fst (touch_destruct (e_now e) (me_target msg) (e_now e) (from_secs 60) (app w)) = Active"
    using assms s1
    by (cases "fst (touch_destruct (e_now e) (me_target msg) (e_now e) (from_secs 60) (app w))")
       (auto simp: intercept_message_def s1_def [symmetric] thenE_retE_snd app_frameD [OF app_frame_send]
          step_of_cancel split: if_splits)
  then have im: "app (snd (intercept_message e msg w)) = app (snd (intercept_active e msg (w\<lparr>app := s1\<rparr>)))"
    by (simp add: intercept_message_def s1_def)
  have au: "is_authorized (e_now e) s1 (me_user_id msg)" "pending_destructs s1 (me_target msg) \<noteq> None"
    using assms s1 by (auto simp: im app_intercept_active split: if_splits option.splits)
  then obtain d where d: "pending_destructs s1 (me_target msg) = Some d" by auto
  then have st: "step_of (app (w\<lparr>app := s1\<rparr>)) (me_target msg) = Some (ds_step d)"
    by (simp add: step_of_def)
  have "c = me_target msg \<and> ds_step d = AwaitFirstTotp
    \<and> process_destruct_message e (me_text msg) (ds_step d) s1 (key_hash_cell s1) None = ConfirmFirstTotp"
    using reply_leaves_first [OF st, of c e "process_destruct_message e (me_text msg) (ds_step d) s1 (key_hash_cell s1) None"]
      assms s1 au d im by (auto simp: app_intercept_active)
  then have "c = me_target msg" "\<exists>t. me_text msg = Some t \<and> verify_totp (e_check e) s1 (trim t)"
    by (auto split: option.splits if_splits)
  with au show ?thesis
    by (auto simp: gives_code_def s1_def)
qed

section \<open>Lemmas: when self destruction is triggered\<close>

definition triggers :: "world \<Rightarrow> (world, 'a) io \<Rightarrow> bool" where
  "triggers w m \<longleftrightarrow> (\<exists>es. trace (snd (m w)) = trace w @ es \<and> TriggerSelfDestruct \<in> set es)"

lemma avoids_not_triggers: "avoids (\<lambda>ef. ef = TriggerSelfDestruct) m \<Longrightarrow> \<not> triggers w m"
  by (drule avoidsD [of _ _ w]) (auto simp: triggers_def)

lemma avoids_on_first [avoid]: "avoids (\<lambda>ef. ef = TriggerSelfDestruct) (on_first_totp e msg)"
  unfolding on_first_totp_def by (intro avoid) auto

lemma avoids_on_second [avoid]: "avoids (\<lambda>ef. ef = TriggerSelfDestruct) (on_second_totp e msg)"
  unfolding on_second_totp_def by (intro avoid) auto

lemma avoids_cancel_by_text [avoid]: "avoids (\<lambda>ef. ef = TriggerSelfDestruct) (cancel_by_text e msg)"
  unfolding cancel_by_text_def by (intro avoid) auto

lemma avoids_on_file_verified [avoid]: "avoids (\<lambda>ef. ef = TriggerSelfDestruct) (on_file_verified e msg s)"
  unfolding on_file_verified_def Let_def by (intro avoid) auto

lemma avoids_on_awaiting_file [avoid]: "avoids (\<lambda>ef. ef = TriggerSelfDestruct) (on_awaiting_file e msg)"
  unfolding on_awaiting_file_def
  by (intro avoid) (auto intro!: avoid split: destruct_message_action.splits)

lemma avoids_on_await_confirm [avoid]: "avoids (\<lambda>ef. ef = TriggerSelfDestruct) (on_await_confirm e msg)"
  unfolding on_await_confirm_def Let_def by (intro avoid) auto

lemma triggers_on_final: "triggers w (on_final_confirm e msg) \<Longrightarrow> says_confirm e msg (app w)"
proof (rule ccontr)
  assume t: "triggers w (on_final_confirm e msg)" and n: "\<not> says_confirm e msg (app w)"
  obtain es where es: "trace (snd (cancel_by_text e msg w)) = trace w @ es" "TriggerSelfDestruct \<notin> set es"
    using avoidsD [OF avoids_cancel_by_text, of e msg w] by blast
  from n t es show False
    by (auto simp: on_final_confirm_def says_confirm_def triggers_def Let_def split: option.splits if_splits)
qed

lemma not_triggers_retE [simp]: "\<not> triggers w (retE x)"
  by (simp add: triggers_def)

lemma triggers_reply:
  assumes t: "triggers w (destruct_reply e msg d action)"
  shows "d = AwaitFinalConfirm \<and> says_confirm e msg (app w)"
proof -
  have "avoids (\<lambda>ef. ef = TriggerSelfDestruct)
      (send (me_target msg) (e_tr e ''destruct.verify_fail'' []) None)"
    by (intro avoid) simp
  note quiet = this [THEN avoids_not_triggers] avoids_on_first [THEN avoids_not_triggers]
    avoids_on_second [THEN avoids_not_triggers] avoids_on_awaiting_file [THEN avoids_not_triggers]
    avoids_on_await_confirm [THEN avoids_not_triggers]
  have "d = AwaitFinalConfirm \<and> triggers w (on_final_confirm e msg)"
    using t unfolding destruct_reply_def by (simp add: quiet split: if_splits)
  with triggers_on_final show ?thesis by blast
qed

lemma triggers_message:
  assumes "triggers w (intercept_message e msg)"
  shows "is_authorized (e_now e) (app w) (me_user_id msg)
    \<and> (\<exists>d. pending_destructs (app w) (me_target msg) = Some d \<and> ds_step d = AwaitFinalConfirm
          \<and> e_now e - last_action_time d \<le> from_secs 60)
    \<and> says_confirm e msg (app w)"
proof -
  define s1 where "s1 = snd (touch_destruct (e_now e) (me_target msg) (e_now e) (from_secs 60) (app w))"
  define w1 where "w1 = w\<lparr>app := s1\<rparr>"
  have tr1: "trace w1 = trace w" and ap1: "app w1 = s1" by (simp_all add: w1_def)
  let ?st = "fst (touch_destruct (e_now e) (me_target msg) (e_now e) (from_secs 60) (app w))"
  have im: "intercept_message e msg w =
     (case ?st of
         Expired \<Rightarrow>
           bindE (app_op (cancel_destruct (me_target msg))) (\<lambda>_.
             thenE (send (me_target msg) (e_tr e ''destruct.timeout'' []) None) (retE Handled)) w1
       | NotTracked \<Rightarrow> retE NotHandled w1
       | Active \<Rightarrow> intercept_active e msg w1)"
    by (simp add: intercept_message_def w1_def s1_def del: bindE_app_op split: timeout_status.splits)
       (simp add: bindE_def app_op_apply)
  have av: "avoids (\<lambda>ef. ef = TriggerSelfDestruct) (bindE (app_op (cancel_destruct (me_target msg))) (\<lambda>_.
             thenE (send (me_target msg) (e_tr e ''destruct.timeout'' []) None) (retE Handled)))"
    by (intro avoid) auto
  have act: "?st = Active" and ta: "triggers w1 (intercept_active e msg)"
    using assms avoids_not_triggers [OF av, of w1]
    by (auto simp: triggers_def im tr1 split: timeout_status.splits)
  have av2: "avoids (\<lambda>ef. ef = TriggerSelfDestruct)
      (thenE (send (me_target msg) (e_tr e ''auth.expired'' []) None) (retE Handled))"
    by (intro avoid) auto
  obtain d where au: "is_authorized (e_now e) s1 (me_user_id msg)"
    and d: "pending_destructs s1 (me_target msg) = Some d"
    and tr: "triggers w1 (destruct_reply e msg (ds_step d)
       (process_destruct_message e (me_text msg) (ds_step d) s1 (key_hash_cell s1) None))"
    using ta avoids_not_triggers [OF av2, of w1]
    by (auto simp: triggers_def intercept_active_def ap1 destruct_snapshot_def thenE_retE_snd
        split: if_splits option.splits)
  from triggers_reply [OF tr] have "ds_step d = AwaitFinalConfirm" "says_confirm e msg s1"
    by (simp_all add: ap1)
  moreover have "says_confirm e msg s1 = says_confirm e msg (app w)"
    by (simp add: says_confirm_def s1_def)
  moreover from act obtain d0 where "pending_destructs (app w) (me_target msg) = Some d0"
    "e_now e - last_action_time d0 \<le> from_secs 60"
    by (auto simp: touch_status not_less split: option.splits if_splits)
  moreover from this d act have "ds_step d0 = ds_step d"
    by (auto simp: s1_def touch_destruct_def duration_since_def split: if_splits)
  ultimately show ?thesis
    using au by (simp add: s1_def)
qed

lemma triggers_callback_action:
  assumes "triggers w (callback_action e cb)"
  shows "cb_data cb = ''a_destroy_final''
    \<and> is_authorized (e_now e) (app w) (unwrap_or (parse_i64 (cb_user_id cb)) 0)
    \<and> step_of (app w) (cb_target cb) = Some AwaitFinalConfirm"
proof -
  have "avoids (\<lambda>ef. ef = TriggerSelfDestruct) (on_destroy_ask e cb)"
    unfolding on_destroy_ask_def when_authorized_def by (intro avoid) auto
  moreover have "avoids (\<lambda>ef. ef = TriggerSelfDestruct) (on_destroy_cancel e cb)"
    unfolding on_destroy_cancel_def by (intro avoid) auto
  moreover have "avoids (\<lambda>ef. ef = TriggerSelfDestruct) (on_destroy_confirm e cb)"
    unfolding on_destroy_confirm_def when_authorized_def by (intro avoid) auto
  moreover have refuse: "avoids (\<lambda>ef. ef = TriggerSelfDestruct)
      (thenE (answer (cb_target cb) (cb_callback_id cb) t) (retE Handled))" for t
    by (intro avoid) auto
  have "is_authorized (e_now e) (app w) (unwrap_or (parse_i64 (cb_user_id cb)) 0)
    \<and> step_of (app w) (cb_target cb) = Some AwaitFinalConfirm" if "triggers w (on_destroy_final e cb)"
    using that avoids_not_triggers [OF refuse, of w]
    by (auto simp: triggers_def on_destroy_final_def when_authorized_def destruct_snapshot_def step_of_def
        split: if_splits)
  ultimately show ?thesis
    using assms avoids_not_triggers [of _ w]
    by (auto simp: callback_action_def triggers_def split: if_splits)
qed

lemma avoids_callback_timeout: "avoids (\<lambda>ef. ef = TriggerSelfDestruct) (callback_timeout e cb)"
  unfolding callback_timeout_def by (intro avoid) (auto intro!: avoid split: timeout_status.splits)

lemma triggers_callback:
  assumes "triggers w (intercept_callback e cb)"
  shows "cb_data cb = ''a_destroy_final''
    \<and> is_authorized (e_now e) (app w) (unwrap_or (parse_i64 (cb_user_id cb)) 0)
    \<and> (\<exists>d. pending_destructs (app w) (cb_target cb) = Some d \<and> ds_step d = AwaitFinalConfirm
          \<and> e_now e - last_action_time d \<le> from_secs 60)"
proof -
  let ?w1 = "snd (callback_timeout e cb w)"
  have not1: "\<not> triggers w (callback_timeout e cb)"
    by (rule avoids_not_triggers [OF avoids_callback_timeout])
  then have c: "fst (callback_timeout e cb w) = Inr NotHandled"
    "intercept_callback e cb w = callback_action e cb ?w1"
    using assms intercept_callback_cases [of e cb w] by (auto simp: triggers_def)
  have st: "fst (touch_destruct (e_now e) (cb_target cb) (e_now e) (from_secs 60) (app w)) \<noteq> Expired"
    using c by (simp add: callback_timeout_out)
  then have ap: "app ?w1 = snd (touch_destruct (e_now e) (cb_target cb) (e_now e) (from_secs 60) (app w))"
    by (simp add: callback_timeout_app Let_def)
  have "trace ?w1 = trace w"
    using st by (auto simp: callback_timeout_def split: timeout_status.splits)
  then have "triggers ?w1 (callback_action e cb)"
    using assms c by (simp add: triggers_def)
  then have t: "cb_data cb = ''a_destroy_final''
    \<and> is_authorized (e_now e) (app ?w1) (unwrap_or (parse_i64 (cb_user_id cb)) 0)
    \<and> step_of (app ?w1) (cb_target cb) = Some AwaitFinalConfirm"
    by (rule triggers_callback_action)
  then have "step_of (app w) (cb_target cb) = Some AwaitFinalConfirm"
    by (simp add: ap step_of_touch)
  then show ?thesis
    using t st by (auto simp: ap step_of_def touch_status not_less split: if_splits)
qed

section \<open>Properties\<close>

text \<open>A chat with an authorized administrator and a dialogue at a given step, for the instances.\<close>

definition sample_dialogue :: "destruct_step \<Rightarrow> world" where
  "sample_dialogue d = sample_world (sample_state\<lparr>sessions := [7 \<mapsto> 0], pending_destructs := [''7'' \<mapsto>
     \<lparr>ds_step = d, first_totp = ''111111'', second_totp = [], last_action_time = 0\<rparr>]\<rparr>)"

definition sample_message :: "string option \<Rightarrow> string option \<Rightarrow> message_event" where
  "sample_message text file = \<lparr>me_platform = Telegram, me_target = ''7'', me_user_id = 7, me_text = text,
     me_file_id = file, me_file_name = None\<rparr>"

definition sample_callback :: "string \<Rightarrow> callback_event" where
  "sample_callback data = \<lparr>cb_platform = Telegram, cb_target = ''7'', cb_user_id = ''7'', cb_msg_id = ''m'',
     cb_data = data, cb_callback_id = ''c''\<rparr>"

lemmas sample_defs = sample_dialogue_def sample_message_def sample_callback_def sample_world_def sample_state_def
  sample_env_def new_app_state_def

lemmas destruct_eval = intercept_message_def intercept_active_def destruct_reply_def on_first_totp_def
  on_second_totp_def on_awaiting_file_def on_file_verified_def on_await_confirm_def on_final_confirm_def
  intercept_callback_def callback_timeout_def callback_action_def on_destroy_final_def on_destroy_confirm_def
  when_authorized_def touch_destruct_def destruct_snapshot_def advance_destruct_step_def
  mark_destruct_file_verified_def with_destruct_def cancel_destruct_def is_authorized_def is_admin_user_def
  is_session_valid_def duration_since_def verify_totp_def is_confirm_word_def

lemma sample_trim [simp]: "trim ''yes'' = ''yes''"
  by code_simp

lemma sample_lower [simp]: "to_ascii_lowercase ''yes'' = ''yes''"
  by code_simp

lemma sample_user [simp]: "parse_i64 ''7'' = Some 7"
  by (simp add: parse_eval)

lemma sample_authorized [simp]: "is_authorized 5 (app (sample_dialogue d)) 7"
  by (simp add: sample_defs destruct_eval from_secs_def)

lemma sample_pending [simp]:
  "pending_destructs (app (sample_dialogue d)) = [''7'' \<mapsto>
     \<lparr>ds_step = d, first_totp = ''111111'', second_totp = [], last_action_time = 0\<rparr>]"
  by (simp add: sample_defs)

lemma sample_touch [simp]:
  "touch_destruct 5 ''7'' 5 (from_secs 60) (app (sample_dialogue d)) =
     (Active, (app (sample_dialogue d))\<lparr>pending_destructs := [''7'' \<mapsto>
        \<lparr>ds_step = d, first_totp = ''111111'', second_totp = [], last_action_time = 5\<rparr>]\<rparr>)"
  by (simp add: touch_destruct_def duration_since_def from_secs_def)

lemma sample_idle:
  "pending_destructs (app (snd (intercept_callback (sample_env 5) (sample_callback ''m_main'') (sample_dialogue d)))) =
     [''7'' \<mapsto> \<lparr>ds_step = d, first_totp = ''111111'', second_totp = [], last_action_time = 5\<rparr>]"
proof -
  have "callback_timeout (sample_env 5) (sample_callback ''m_main'') (sample_dialogue d) =
     (Inr NotHandled, (sample_dialogue d)\<lparr>app := (app (sample_dialogue d))\<lparr>pending_destructs := [''7'' \<mapsto>
        \<lparr>ds_step = d, first_totp = ''111111'', second_totp = [], last_action_time = 5\<rparr>]\<rparr>\<rparr>)"
    by (simp add: callback_timeout_def sample_callback_def sample_env_def)
  then show ?thesis
    by (simp add: intercept_callback_def bindE_def callback_action_def sample_callback_def)
qed

text \<open>
  C35: the dialogue refines its automaton: whatever a message does, the step of every chat stays, ends,
  starts over or moves along one of the automaton's edges.
\<close>

theorem message_refines:
  "destruct_trans (step_of (app w) c) (step_of (app (snd (intercept_message e msg w))) c)"
  by (rule intercept_message_trans)

text \<open>
  Also: the same for a callback, which moreover never gets a dialogue past the first code, to the
  security file or to the final confirmation.
\<close>

theorem callback_refines:
  "destruct_trans (step_of (app w) c) (step_of (app (snd (intercept_callback e cb w))) c)
   \<and> (step_of (app (snd (intercept_callback e cb w))) c \<in> {Some AwaitConfirm, Some AwaitSecurityFile, Some AwaitFinalConfirm}
      \<longrightarrow> step_of (app (snd (intercept_callback e cb w))) c = step_of (app w) c)"
  using intercept_callback_move [of w c e cb] callback_move_trans
  by (auto simp: callback_move_def)

theorem callback_refines_witness:
  "let after = step_of (app (snd (intercept_callback (sample_env 5) (sample_callback ''m_main'') (sample_dialogue AwaitConfirm)))) ''7''
   in after = Some AwaitConfirm \<and> after = step_of (app (sample_dialogue AwaitConfirm)) ''7''"
proof -
  have "step_of (app (snd (intercept_callback (sample_env 5) (sample_callback ''m_main'') (sample_dialogue AwaitConfirm)))) ''7''
    = Some AwaitConfirm"
    using sample_idle [of AwaitConfirm] by (simp add: step_of_def)
  with callback_refines [of "sample_dialogue AwaitConfirm" "''7''" "sample_env 5" "sample_callback ''m_main''"]
  show ?thesis by simp
qed

text \<open>
  C7: a message triggers self destruction only when its sender has a live administrator session, the
  dialogue of its chat is at the final confirmation and its last action is at most a minute old, and
  the text is a confirming word or a right code.
\<close>

theorem trigger_by_message:
  assumes "triggers w (intercept_message e msg)"
  shows "is_authorized (e_now e) (app w) (me_user_id msg)
    \<and> (\<exists>d. pending_destructs (app w) (me_target msg) = Some d \<and> ds_step d = AwaitFinalConfirm
          \<and> e_now e - last_action_time d \<le> from_secs 60)
    \<and> says_confirm e msg (app w)"
  using assms by (rule triggers_message)

theorem trigger_by_message_witness:
  "says_confirm (sample_env 5) (sample_message (Some ''yes'') None) (app (sample_dialogue AwaitFinalConfirm))"
proof -
  have "triggers (sample_dialogue AwaitFinalConfirm) (intercept_message (sample_env 5) (sample_message (Some ''yes'') None))"
    by (simp add: triggers_def sample_defs destruct_eval from_secs_def io_simps step_simps send_def perform_def
        emit_def)
  from trigger_by_message [OF this] show ?thesis by simp
qed

text \<open>
  C8: a callback triggers self destruction only as the final button, pressed by an authorized
  administrator while the dialogue of its chat is at the final confirmation and no older than a
  minute.
\<close>

theorem trigger_by_callback:
  assumes "triggers w (intercept_callback e cb)"
  shows "cb_data cb = ''a_destroy_final''
    \<and> is_authorized (e_now e) (app w) (unwrap_or (parse_i64 (cb_user_id cb)) 0)
    \<and> (\<exists>d. pending_destructs (app w) (cb_target cb) = Some d \<and> ds_step d = AwaitFinalConfirm
          \<and> e_now e - last_action_time d \<le> from_secs 60)"
  using assms by (rule triggers_callback)

theorem trigger_by_callback_witness:
  "is_authorized (e_now (sample_env 5)) (app (sample_dialogue AwaitFinalConfirm))
     (unwrap_or (parse_i64 (cb_user_id (sample_callback ''a_destroy_final''))) 0)"
proof -
  have "triggers (sample_dialogue AwaitFinalConfirm) (intercept_callback (sample_env 5) (sample_callback ''a_destroy_final''))"
    by (simp add: triggers_def sample_defs destruct_eval from_secs_def io_simps step_simps answer_def edit_def perform_def
        emit_def)
  from trigger_by_callback [OF this] show ?thesis by simp
qed

text \<open>
  C9: a message brings a dialogue to the final confirmation only by the security file whose digest is
  stored, sent at the file step, or by a confirming text at the confirmation step.
\<close>

theorem final_step_reached:
  assumes "step_of (app w) c \<noteq> Some AwaitFinalConfirm"
    and "step_of (app (snd (intercept_message e msg w))) c = Some AwaitFinalConfirm"
  shows "c = me_target msg \<and> is_authorized (e_now e) (app w) (me_user_id msg)
    \<and> (step_of (app w) c = Some AwaitSecurityFile \<and> right_file e msg (app w)
       \<or> step_of (app w) c = Some AwaitConfirm \<and> says_confirm e msg (app w))"
  using assms by (rule message_to_final)

theorem final_step_reached_witness:
  "step_of (app (sample_dialogue AwaitSecurityFile)) ''7'' = Some AwaitSecurityFile
   \<and> right_file (sample_env 5) (sample_message None (Some ''key'')) (app (sample_dialogue AwaitSecurityFile))"
proof -
  have "step_of (app (sample_dialogue AwaitSecurityFile)) ''7'' \<noteq> Some AwaitFinalConfirm"
    by (simp add: step_of_def)
  moreover have "step_of (app (snd (intercept_message (sample_env 5) (sample_message None (Some ''key''))
      (sample_dialogue AwaitSecurityFile)))) ''7'' = Some AwaitFinalConfirm"
    by (simp add: sample_defs destruct_eval from_secs_def io_simps step_simps send_def perform_def ask_def step_of_def)
  ultimately show ?thesis
    using final_step_reached [of "sample_dialogue AwaitSecurityFile" "''7''" "sample_env 5" "sample_message None (Some ''key'')"]
    by (simp add: step_of_def)
qed

text \<open>
  Also: the confirmation step has a short cut: at that step a text \<open>yes\<close> takes the dialogue of the chat
  straight to the final confirmation, whatever security file is stored and without a second code, and
  a second \<open>yes\<close> within a minute triggers self destruction. (The message sent in between asks for the
  security file.)
\<close>

theorem two_words_trigger:
  assumes "pending_destructs (app w) (me_target msg) = Some d" "ds_step d = AwaitConfirm"
    and "e_now e1 - last_action_time d \<le> from_secs 60" "e_now e2 - e_now e1 \<le> from_secs 60"
    and "is_authorized (e_now e1) (app w) (me_user_id msg)" "is_authorized (e_now e2) (app w) (me_user_id msg)"
    and "me_text msg = Some ''yes''" "\<And>n. net w n = None"
  shows "triggers (snd (intercept_message e1 msg w)) (intercept_message e2 msg)"
proof -
  let ?s = "app w"
  define d2 where "d2 = d\<lparr>ds_step := AwaitFinalConfirm, last_action_time := e_now e1\<rparr>"
  define w2 where "w2 = w\<lparr>app := ?s\<lparr>pending_destructs := (pending_destructs ?s)(me_target msg \<mapsto> d2)\<rparr>,
     trace := trace w @ [Call (SendMessage (me_target msg) \<lparr>mc_text = e_tr e1 ''destruct.title_4'' [], mc_markup = None\<rparr>)]\<rparr>"
  have au: "is_authorized t (?s\<lparr>pending_destructs := p\<rparr>) u = is_authorized t ?s u" for t p u
    by (simp add: is_authorized_def is_admin_user_def simplex_admin_id_def split: option.splits)
  have w2: "snd (intercept_message e1 msg w) = w2"
    using assms(1-3,5,7,8)
    by (simp add: intercept_message_def touch_destruct_def duration_since_def intercept_active_def au
        destruct_snapshot_def destruct_reply_def on_await_confirm_def is_confirm_word_def
        advance_destruct_step_def with_destruct_def thenE_retE_snd send_def perform_def w2_def d2_def)
  have "triggers w2 (intercept_message e2 msg)"
    using assms(4,6,7,8)
    by (simp add: triggers_def w2_def d2_def intercept_message_def touch_destruct_def duration_since_def
        intercept_active_def au destruct_snapshot_def destruct_reply_def on_final_confirm_def is_confirm_word_def
        thenE_retE_snd send_def perform_def thenE_apply emit_def)
  with w2 show ?thesis by simp
qed

theorem two_words_trigger_witness:
  "triggers (snd (intercept_message (sample_env 5) (sample_message (Some ''yes'') None) (sample_dialogue AwaitConfirm)))
     (intercept_message (sample_env 5) (sample_message (Some ''yes'') None))"
proof -
  have "is_authorized (e_now (sample_env 5)) (app (sample_dialogue AwaitConfirm)) 7"
    using sample_authorized by (simp add: sample_env_def)
  then show ?thesis
    by (intro two_words_trigger [of _ _ "\<lparr>ds_step = AwaitConfirm, first_totp = ''111111'', second_totp = [], last_action_time = 0\<rparr>"])
       (simp_all add: sample_message_def sample_env_def from_secs_def, simp add: sample_dialogue_def sample_world_def)
qed

text \<open>
  Also: the second code has to differ from the first: a message that repeats the code of the first step at
  the second step leaves the dialogue at the second step, however the code checks out.
\<close>

theorem second_code_differs:
  assumes "pending_destructs (app w) (me_target msg) = Some d" "ds_step d = AwaitSecondTotp"
    and "me_text msg = Some tx" "trim tx = first_totp d"
    and "e_now e - last_action_time d \<le> from_secs 60"
  shows "step_of (app (snd (intercept_message e msg w))) (me_target msg) = Some AwaitSecondTotp"
proof -
  let ?s1 = "(app w)\<lparr>pending_destructs := (pending_destructs (app w))(me_target msg \<mapsto> d\<lparr>last_action_time := e_now e\<rparr>)\<rparr>"
  have im: "app (snd (intercept_message e msg w)) = app (snd (intercept_active e msg (w\<lparr>app := ?s1\<rparr>)))"
    using assms(1,5) by (simp add: intercept_message_def touch_destruct_def duration_since_def)
  have act: "process_destruct_message e (me_text msg) AwaitSecondTotp s kh None \<in> {AwaitingSecondTotp, VerifyFailed}" for s kh
    using assms(3) by simp
  have "step_of (app (snd (destruct_reply e msg AwaitSecondTotp a (w\<lparr>app := ?s1\<rparr>)))) (me_target msg) = Some AwaitSecondTotp"
    if "a \<in> {AwaitingSecondTotp, VerifyFailed}" for a
    using that assms(2-4)
    by (auto simp: destruct_reply_def app_on_second step_of_second app_frameD [OF app_frame_send])
       (simp_all add: step_of_def)
  then show ?thesis
    using assms(2) act by (auto simp: im app_intercept_active step_of_def simp del: process_destruct_message.simps)
qed

theorem second_code_differs_witness:
  "step_of (app (snd (intercept_message (sample_env 5) (sample_message (Some ''yes'') None)
     (sample_world (sample_state\<lparr>pending_destructs := [''7'' \<mapsto>
        \<lparr>ds_step = AwaitSecondTotp, first_totp = ''yes'', second_totp = [], last_action_time = 0\<rparr>]\<rparr>)))))
     (me_target (sample_message (Some ''yes'') None)) = Some AwaitSecondTotp"
  by (rule second_code_differs [where tx = "''yes''"])
     (simp add: sample_world_def sample_message_def, simp_all add: sample_message_def sample_env_def from_secs_def)

text \<open>
  Also: a dialogue does not outlive a minute of silence: the first message or callback of the chat after
  that ends it, is consumed when the notices go out, and never triggers self destruction.
\<close>

theorem stale_dialogue_ends:
  assumes "pending_destructs (app w) chat = Some d" "from_secs 60 < e_now e - last_action_time d"
    and "me_target msg = chat" "cb_target cb = chat"
  shows "step_of (app (snd (intercept_message e msg w))) chat = None \<and> \<not> triggers w (intercept_message e msg)
    \<and> step_of (app (snd (intercept_callback e cb w))) chat = None \<and> \<not> triggers w (intercept_callback e cb)"
proof -
  have ex: "touch_destruct (e_now e) chat (e_now e) (from_secs 60) (app w) = (Expired, app w)"
    using assms(1,2) by (simp add: touch_destruct_def duration_since_def)
  have "step_of (app (snd (intercept_message e msg w))) chat = None"
    using assms(3) ex
    by (simp add: intercept_message_def thenE_retE_snd app_frameD [OF app_frame_send] step_of_cancel)
  moreover have "\<not> triggers w (intercept_message e msg)"
    using triggers_message [of w e msg] assms(1-3) by auto
  moreover have "fst (callback_timeout e cb w) \<noteq> Inr NotHandled"
    using ex assms(4) by (simp add: callback_timeout_out)
  then have "snd (intercept_callback e cb w) = snd (callback_timeout e cb w)"
    using intercept_callback_cases [of e cb w] by blast
  then have "step_of (app (snd (intercept_callback e cb w))) chat = None"
    using ex assms(4) by (simp add: callback_timeout_app step_of_cancel)
  moreover have "\<not> triggers w (intercept_callback e cb)"
    using triggers_callback [of w e cb] assms(1,2,4) by auto
  ultimately show ?thesis by blast
qed

theorem stale_dialogue_ends_witness:
  "\<not> triggers (sample_dialogue AwaitFinalConfirm)
     (intercept_callback (sample_env (from_secs 61)) (sample_callback ''a_destroy_final''))"
  using stale_dialogue_ends [of "sample_dialogue AwaitFinalConfirm" "''7''"
    "\<lparr>ds_step = AwaitFinalConfirm, first_totp = ''111111'', second_totp = [], last_action_time = 0\<rparr>"
    "sample_env (from_secs 61)" "sample_message None None" "sample_callback ''a_destroy_final''"]
  by (simp add: sample_env_def sample_message_def sample_callback_def)

end
