(* ===== verification/Dispatch.thy ===== *)
theory Dispatch
  imports Destruct
begin

text \<open>
  From an event to its handler: \<open>shared/dispatch.rs\<close>, \<open>shared/commands.rs\<close>, \<open>shared/state_ops.rs\<close>, the
  routing table of \<open>shared/handlers/mod.rs\<close> and the SimpleX approval of \<open>shared/handlers/approval.rs\<close>.

  The page handlers behind the routing table other than the approval, the text-input handler
  (\<open>handlers/message.rs\<close>) and the main menu are not modelled; they are the fields of a record
  \<open>handlers\<close>, an argument of the definitions that call them, so the theorems hold whatever they do.
\<close>

section \<open>Callback routes\<close>

datatype callback_route = Approval | Log | Singbox | Warp | Schedule | Ops | Xray | MenuRoute

definition starts_with :: "string \<Rightarrow> string \<Rightarrow> bool" where
  "starts_with s p = prefix p s"

definition menu_ids :: "string list" where
  "menu_ids = [''m_main'', ''m_ops_center'', ''m_settings'', ''m_net_opt'', ''m_security'', ''m_sys_cmd'',
     ''m_mon'', ''m_usr'', ''m_danger'', ''m_session_timeout'', ''a_wwps_core_menu'', ''a_wwps_box_menu'',
     ''a_wwps_box_restart'', ''a_wwps_box_status'', ''a_wwps_core_latest'', ''a_wwps_core_tags'',
     ''a_wwps_core_restart'', ''a_wwps_core_status'', ''a_geo_menu'']"

definition route_callback :: "string \<Rightarrow> callback_route option" where
  "route_callback data =
     (if starts_with data ''sx_approve:'' \<or> starts_with data ''sx_reject:'' then Some Approval
      else if data = ''m_log'' \<or> starts_with data ''l_'' then Some Log
      else if data = ''m_singbox_mgmt'' \<or> data = ''m_sb_routing'' \<or> data = ''sb_install''
        \<or> starts_with data ''sb_'' then Some Singbox
      else if data = ''m_warp'' \<or> data = ''m_warp_wg'' \<or> data = ''m_warp_usque'' \<or> data = ''a_inst_warp''
        \<or> starts_with data ''a_warp_'' then Some Warp
      else if data = ''m_sched'' \<or> data = ''a_geo_sched_menu'' \<or> data = ''geo_sched_off''
        \<or> data = ''s_add_menu'' \<or> data = ''s_del_menu'' \<or> starts_with data ''s_add:''
        \<or> starts_with data ''s_del:'' then Some Schedule
      else if starts_with data ''a_bbr3'' \<or> data = ''a_fw'' \<or> data = ''a_one_click'' \<or> data = ''a_reload''
        \<or> data = ''a_sys_reboot'' \<or> data = ''a_upgrade'' \<or> data = ''a_geo'' \<or> data = ''a_tune''
        \<or> data = ''a_sys_update'' then Some Ops
      else if data = ''m_xray_mgmt'' \<or> data = ''m_batch_menu'' \<or> data = ''m_routing''
        \<or> data = ''m_routing_custom'' \<or> starts_with data ''routing_custom_''
        \<or> starts_with data ''routing_toggle:'' \<or> data = ''m_del_cfg'' \<or> data = ''m_pq_mgmt''
        \<or> data = ''a_inst_base'' \<or> data = ''noop'' \<or> starts_with data ''u_'' \<or> starts_with data ''cfg_''
        \<or> starts_with data ''m_pq_'' \<or> starts_with data ''xhttp_domain_'' then Some Xray
      else if data \<in> set menu_ids \<or> starts_with data ''set_timeout:'' \<or> starts_with data ''wwps_core_tag:''
        then Some MenuRoute
      else None)"

section \<open>What is not modelled, as parameters\<close>

datatype xhttp_deploy_mode = Reality | Tls string string string

datatype message_action =
    MsgHandled
  | NeedsDestruct
  | DomainReady domain_flow_source xhttp_deploy_mode

record handlers =
  h_page :: "callback_route \<Rightarrow> env \<Rightarrow> callback_event \<Rightarrow> (world, handler_action) io"
  h_message :: "env \<Rightarrow> message_event \<Rightarrow> (world, message_action) io"
  h_main_menu :: "env \<Rightarrow> string \<Rightarrow> (world, unit) io"

section \<open>SimpleX approvals\<close>

definition auto_bind_on_approve :: "int option \<Rightarrow> (world, bool) io" where
  "auto_bind_on_approve contact =
     (case contact of
        None \<Rightarrow> retE False
      | Some contact_id \<Rightarrow>
          bindE (gets simplex_admin_id) (\<lambda>current.
            if current = Some contact_id then retE False
            else thenE (app_upd (set_simplex_admin_id contact_id))
                (thenE (emit (StateCall (SetSecondaryTarget (int_str contact_id))))
                (thenE (emit (PersistSimplexAdmin contact_id))
                       (retE True)))))"

definition approve_or_reject :: "env \<Rightarrow> bool \<Rightarrow> int \<Rightarrow> (world, bool \<times> string option) io" where
  "approve_or_reject e approve id' =
     (if approve then
        catchE (ask (Call (AcceptContactRequest id')) (e_accept e id')) (\<lambda>r.
          case r of
            Inr contact \<Rightarrow>
              bindE (auto_bind_on_approve contact) (\<lambda>bound.
                thenE (if bound then notify_security_code e else retE ()) (retE (bound, None)))
          | Inl err \<Rightarrow> retE (False, Some err))
      else
        catchE (ask (Call (RejectContactRequest id')) (e_reject e id')) (\<lambda>r.
          case r of Inr _ \<Rightarrow> retE (False, None) | Inl err \<Rightarrow> retE (False, Some err)))"

definition approval_texts :: "env \<Rightarrow> bool \<Rightarrow> int \<Rightarrow> bool \<times> string option \<Rightarrow> string \<times> string" where
  "approval_texts e approve id' res =
     (case snd res of
        None \<Rightarrow> (if fst res then e_tr e ''simplex.approval_done_bound'' []
                 else e_tr e ''simplex.approval_done'' [int_str id'],
                 if approve then e_tr e ''simplex.approved'' [] else e_tr e ''simplex.rejected'' [])
      | Some err \<Rightarrow> (e_tr e ''simplex.approval_failed'' [err], e_tr e ''simplex.approval_failed_short'' []))"

definition parse_approval :: "string \<Rightarrow> (bool \<times> string) option" where
  "parse_approval data =
     (case split_once (CHR '':'') data of
        Some (k, raw) \<Rightarrow>
          if k = ''sx_approve'' then Some (True, raw)
          else if k = ''sx_reject'' then Some (False, raw) else None
      | None \<Rightarrow> None)"

definition approval_handle :: "env \<Rightarrow> callback_event \<Rightarrow> (world, handler_action) io" where
  "approval_handle e cb =
     (case parse_approval (cb_data cb) of
        None \<Rightarrow> retE Done
      | Some (approve, raw_id) \<Rightarrow>
          (case parse_i64 raw_id of
             None \<Rightarrow>
               thenE (answer (cb_target cb) (cb_callback_id cb) (e_tr e ''simplex.bad_request_id'' [])) (retE Done)
           | Some id' \<Rightarrow>
               bindE (approve_or_reject e approve id') (\<lambda>res.
                 let (text, ans) = approval_texts e approve id' res
                 in thenE (answer (cb_target cb) (cb_callback_id cb) ans)
                   (if cb_msg_id cb = [] then thenE (send (cb_target cb) text None) (retE Done)
                    else catchE (edit (cb_target cb) (cb_msg_id cb) text None) (\<lambda>r.
                      case r of
                        Inr _ \<Rightarrow> retE Done
                      | Inl _ \<Rightarrow> thenE (send (cb_target cb) text None) (retE Done))))))"

definition handlers_dispatch ::
  "handlers \<Rightarrow> env \<Rightarrow> callback_event \<Rightarrow> (world, handler_action option) io" where
  "handlers_dispatch h e cb =
     (case route_callback (cb_data cb) of
        None \<Rightarrow> retE None
      | Some r \<Rightarrow>
          bindE (if r = Approval then approval_handle e cb else h_page h r e cb) (\<lambda>a. retE (Some a)))"

section \<open>Settings\<close>

definition handle_set_timeout :: "callback_event \<Rightarrow> (world, unit) io" where
  "handle_set_timeout cb =
     (let secs = unwrap_or (parse_u64 (unwrap_or (strip_prefix ''set_timeout:'' (cb_data cb)) ''0'')) 600
      in thenE (app_upd (set_session_timeout_secs secs)) (emit (PersistTimeout secs)))"

definition handle_lang :: "env \<Rightarrow> callback_event \<Rightarrow> (world, string option) io" where
  "handle_lang e cb =
     (case (if cb_data cb = ''lang:zh'' then Some Zh
            else if cb_data cb = ''lang:en'' then Some En
            else if cb_data cb = ''lang:ja'' then Some Ja else None) of
        None \<Rightarrow> retE None
      | Some l \<Rightarrow>
          thenE (emit (I18nSetLang l))
         (thenE (app_upd (set_lang l))
         (thenE (emit (PersistLang l))
         (thenE (app_upd mark_lang_configured)
         (thenE (emit I18nMarkConfigured)
         (catchE (perform (Call (SetSystemLocale (lang_as_str l)))) (\<lambda>_.
          catchE (answer (cb_target cb) (cb_callback_id cb) (e_tr e ''lang.switched'' [lang_as_str l])) (\<lambda>_.
            retE (Some ''m_main'')))))))))"

definition state_ops_intercept :: "env \<Rightarrow> callback_event \<Rightarrow> (world, string option) io" where
  "state_ops_intercept e cb =
     (if starts_with (cb_data cb) ''lang:'' then handle_lang e cb
      else if starts_with (cb_data cb) ''set_timeout:'' then thenE (handle_set_timeout cb) (retE None)
      else if cb_data cb = ''a_warp_add_input''
        then thenE (app_upd (start_warp_input (cb_target cb) (e_now e))) (retE None)
      else retE None)"

section \<open>Commands\<close>

definition commands_handle :: "handlers \<Rightarrow> env \<Rightarrow> command_event \<Rightarrow> (world, unit) io" where
  "commands_handle h e cmd =
     (case ce_command cmd of
        Help \<Rightarrow> send (ce_target cmd) (e_tr e ''help.text'' []) None
      | Start \<Rightarrow>
          send (ce_target cmd) (two_paragraphs (e_tr e ''welcome.title'' []) (e_tr e ''welcome.prompt'' [])) None
      | Auth code \<Rightarrow>
          catchE (process_auth_code e (ce_platform cmd) (ce_target cmd) (ce_user_id cmd) code
                    AUTH_MAX_ATTEMPTS AUTH_FAILURE_WINDOW AUTH_LADDER) (\<lambda>_. retE ())
      | Menu \<Rightarrow>
          bindE (gets (\<lambda>s. is_authorized (e_now e) s (ce_user_id cmd))) (\<lambda>authorized.
            if \<not> authorized then send (ce_target cmd) (e_tr e ''auth.required'' []) None
            else h_main_menu h e (ce_target cmd))
      | SetSecurityFile \<Rightarrow>
          bindE (gets (\<lambda>s. is_recently_authenticated (e_now e) s (ce_user_id cmd))) (\<lambda>recent.
            if \<not> recent then send (ce_target cmd) (e_tr e ''auth.recent_auth_required'' []) None
            else thenE (send (ce_target cmd) (e_tr e ''bot_commands.security_file_prompt'' []) None)
                       (app_upd (start_security_file_input (ce_target cmd) (e_now e)))))"

section \<open>Authorization\<close>

definition is_totp_code :: "string \<Rightarrow> bool" where
  "is_totp_code t \<longleftrightarrow> length t = 6 \<and> list_all is_ascii_digit t"

definition event_has_code :: "bot_event \<Rightarrow> bool" where
  "event_has_code ev =
     (case ev of
        EvMessage m \<Rightarrow> (case me_text m of Some t \<Rightarrow> is_totp_code t | None \<Rightarrow> False)
      | _ \<Rightarrow> False)"

definition check_auth :: "env \<Rightarrow> bot_event \<Rightarrow> app_state \<Rightarrow> bool" where
  "check_auth e ev s =
     (let user = event_user_id ev;
          is_login_attempt = (event_has_code ev \<and> \<not> is_authorized (e_now e) s user)
      in if \<not> is_admin_user s user \<and> \<not> is_login_attempt then False
         else (case ev of
             EvCommand c \<Rightarrow>
               (case ce_command c of
                  Auth _ \<Rightarrow> True
                | Help \<Rightarrow> True
                | Start \<Rightarrow> True
                | _ \<Rightarrow> is_authorized (e_now e) s user)
           | EvMessage m \<Rightarrow>
               (case me_text m of
                  Some t \<Rightarrow> if is_totp_code t \<and> \<not> is_authorized (e_now e) s user then True
                            else is_authorized (e_now e) s user
                | None \<Rightarrow> is_authorized (e_now e) s user)
           | EvCallback _ \<Rightarrow> is_authorized (e_now e) s user))"

section \<open>Security codes\<close>

definition MIN_CODE_DIGITS :: nat where
  "MIN_CODE_DIGITS = 12"

definition normalize_security_code :: "string \<Rightarrow> string" where
  "normalize_security_code s = filter is_ascii_digit s"

definition looks_like_security_code :: "string \<Rightarrow> bool" where
  "looks_like_security_code s \<longleftrightarrow> list_all (\<lambda>c. is_ascii_digit c \<or> is_ascii_whitespace c) s
     \<and> length (filter is_ascii_digit s) \<ge> MIN_CODE_DIGITS"

definition compare_security_code :: "env \<Rightarrow> int \<Rightarrow> int \<Rightarrow> string \<Rightarrow> (world, bool) io" where
  "compare_security_code e sx_admin tg_admin text =
     catchE (ask (StateCall (ContactSecurityCode sx_admin)) (e_contact_code e sx_admin)) (\<lambda>r.
       case r of
         Inl _ \<Rightarrow> retE False
       | Inr fetched \<Rightarrow>
           if normalize_security_code text = normalize_security_code fetched then
             thenE (app_upd (set_simplex_code_verified_for (Some sx_admin)))
            (thenE (emit (PersistCodeVerified (Some sx_admin)))
            (catchE (perform (StateCall (SendMessagePrimary (int_str tg_admin)
               \<lparr>mc_text = e_tr e ''simplex.code_verified'' [], mc_markup = None\<rparr>))) (\<lambda>_. retE True)))
           else
             catchE (perform (StateCall (SendMessagePrimary (int_str tg_admin)
               \<lparr>mc_text = e_tr e ''simplex.code_mismatch'' [], mc_markup = None\<rparr>))) (\<lambda>_. retE True))"

definition try_confirm_security_code :: "env \<Rightarrow> message_event \<Rightarrow> (world, bool) io" where
  "try_confirm_security_code e msg =
     bindE (gets (\<lambda>s. (simplex_code_verified s, simplex_admin_id s, admin_id s))) (\<lambda>(verified, sx, tg).
       if verified then retE False
       else (case sx of
          None \<Rightarrow> retE False
        | Some sx_admin \<Rightarrow> (case tg of
            None \<Rightarrow> retE False
          | Some tg_admin \<Rightarrow> (case me_text msg of
              None \<Rightarrow> retE False
            | Some text \<Rightarrow>
                if \<not> looks_like_security_code text then retE False
                else compare_security_code e sx_admin tg_admin text))))"

section \<open>Messages that are not part of a dialogue\<close>

definition MAX_FILE_SIZE :: nat where
  "MAX_FILE_SIZE = 10 * 1024 * 1024"

definition store_security_file :: "env \<Rightarrow> message_event \<Rightarrow> string \<Rightarrow> (world, unit) io" where
  "store_security_file e msg fid =
     bindE (ask (Call (DownloadFile fid)) (e_download e fid)) (\<lambda>content.
       if length content > MAX_FILE_SIZE then
         send (me_target msg) (e_tr e ''bot_commands.file_too_big''
           [nat_str (length content), nat_str MAX_FILE_SIZE]) None
       else
         (let hash = e_sha256_hex e content;
              file_display = (case me_file_name msg of Some n \<Rightarrow> n @ '' | '' @ take 8 hash | None \<Rightarrow> take 8 hash)
          in thenE (app_upd (set_self_destruct_key_hash (Some hash)))
            (thenE (emit (PersistKeyHash (Some hash)))
                   (send (me_target msg) (e_tr e ''bot_commands.security_file_set'' [file_display]) None))))"

definition deploy_domain :: "message_action \<Rightarrow> (world, unit) io" where
  "deploy_domain action =
     (case action of
        DomainReady src mode \<Rightarrow>
          (case mode of
             Tls domain fullchain privkey \<Rightarrow>
               (case src of
                  Standalone \<Rightarrow> emit (SpawnTask ''run_standalone_xhttp_tls'')
                | OneClick \<Rightarrow> emit (SpawnTask ''run_one_click'')
                | CustomAllowlist \<Rightarrow> retE ()
                | CustomAllowlistCheck \<Rightarrow> retE ())
           | Reality \<Rightarrow> retE ())
      | _ \<Rightarrow> retE ())"

definition login_by_message :: "env \<Rightarrow> message_event \<Rightarrow> message_action \<Rightarrow> (world, unit) io" where
  "login_by_message e msg action =
     (case me_text msg of
        Some text \<Rightarrow>
          bindE (gets (\<lambda>s. is_authorized (e_now e) s (me_user_id msg))) (\<lambda>authorized.
            if action = NeedsDestruct \<and> is_totp_code (trim text) \<and> \<not> authorized then
              catchE (process_auth_code e (me_platform msg) (me_target msg) (me_user_id msg) (trim text)
                        AUTH_MAX_ATTEMPTS AUTH_FAILURE_WINDOW AUTH_LADDER) (\<lambda>_. retE ())
            else retE ())
      | None \<Rightarrow> retE ())"

definition handle_message :: "handlers \<Rightarrow> env \<Rightarrow> message_event \<Rightarrow> (world, unit) io" where
  "handle_message h e msg =
     bindE (h_message h e msg) (\<lambda>action.
     thenE (login_by_message e msg action)
    (case me_file_id msg of
       None \<Rightarrow> deploy_domain action
     | Some fid \<Rightarrow>
         bindE (app_op (take_security_file_input_status (e_now e) (me_target msg) (from_secs 180))) (\<lambda>st.
           if st = Active then store_security_file e msg fid else deploy_domain action)))"

section \<open>Events\<close>

text \<open>The redirect loop of a callback: at most sixteen handlers in a row.\<close>

fun follow_redirects :: "nat \<Rightarrow> handlers \<Rightarrow> env \<Rightarrow> callback_event \<Rightarrow> (world, unit) io" where
  "follow_redirects 0 h e cb = retE ()"
| "follow_redirects (Suc n) h e cb =
     bindE (handlers_dispatch h e cb) (\<lambda>r.
       case r of
         Some (Redirect data) \<Rightarrow> follow_redirects n h e (cb\<lparr>cb_data := data\<rparr>)
       | _ \<Rightarrow> retE ())"

definition destruct_intercept :: "env \<Rightarrow> bot_event \<Rightarrow> (world, flow_outcome) io" where
  "destruct_intercept e ev =
     (case ev of
        EvMessage m \<Rightarrow> intercept_message e m
      | EvCallback c \<Rightarrow> intercept_callback e c
      | EvCommand _ \<Rightarrow> retE NotHandled)"

definition dispatch_authorized :: "handlers \<Rightarrow> env \<Rightarrow> bot_event \<Rightarrow> (world, unit) io" where
  "dispatch_authorized h e ev =
     (case ev of
        EvCommand c \<Rightarrow> commands_handle h e c
      | EvMessage m \<Rightarrow>
          bindE (try_confirm_security_code e m) (\<lambda>confirmed.
            if confirmed then retE () else handle_message h e m)
      | EvCallback c \<Rightarrow>
          bindE (state_ops_intercept e c) (\<lambda>nxt.
            follow_redirects 16 h e (case nxt of Some d \<Rightarrow> c\<lparr>cb_data := d\<rparr> | None \<Rightarrow> c)))"

definition dispatch_event :: "handlers \<Rightarrow> env \<Rightarrow> bot_event \<Rightarrow> (world, unit) io" where
  "dispatch_event h e ev =
     bindE (destruct_intercept e ev) (\<lambda>out.
       if out = Handled then retE ()
       else bindE (gets (check_auth e ev)) (\<lambda>allowed.
         if \<not> allowed then retE () else dispatch_authorized h e ev))"

section \<open>Lemmas\<close>

text \<open>Who may pass: an administrator with a live session, an administrator asking for help or to log
  in, and anybody who sends six digits without a session.\<close>

lemma check_auth_iff:
  "check_auth e ev s \<longleftrightarrow>
     is_authorized (e_now e) s (event_user_id ev)
   \<or> event_has_code ev
   \<or> is_admin_user s (event_user_id ev) \<and> (\<exists>c. ev = EvCommand c \<and>
       (ce_command c = Help \<or> ce_command c = Start \<or> (\<exists>code. ce_command c = Auth code)))"
proof -
  have "is_authorized (e_now e) s u \<Longrightarrow> is_admin_user s u" for u
    by (auto simp: is_authorized_def split: if_splits)
  then show ?thesis
    by (cases ev) (auto simp: check_auth_def Let_def event_has_code_def split: option.splits bot_command.splits)
qed

lemma dispatch_refused:
  assumes "\<not> check_auth e ev (app w)" and "\<forall>c. pending_destructs (app w) c = None"
    and "\<forall>cb. ev = EvCallback cb \<longrightarrow> cb_data cb \<notin> {''a_destroy_ask'', ''a_destroy_cancel'', ''a_destroy_confirm'', ''a_destroy_final''}"
  shows "dispatch_event h e ev w = (Inr (), w)"
proof -
  have t: "touch_destruct clk chat now d (app w) = (NotTracked, app w)" for clk chat now d
    using assms(2) by (simp add: touch_destruct_def)
  have "destruct_intercept e ev w = (Inr NotHandled, w)"
  proof (cases ev)
    case (EvMessage m)
    then show ?thesis by (simp add: destruct_intercept_def intercept_message_def t)
  next
    case (EvCallback cb)
    have out: "callback_timeout e cb w = (Inr NotHandled, w)"
      by (simp add: callback_timeout_def t)
    with EvCallback show ?thesis
      using assms(3)
      by (simp add: destruct_intercept_def intercept_callback_def bindE_def callback_action_def)
  next
    case (EvCommand c)
    then show ?thesis by (simp add: destruct_intercept_def)
  qed
  then show ?thesis
    using assms(1) by (simp add: dispatch_event_def bindE_def [of "destruct_intercept e ev"])
qed

text \<open>The re-pin and the approval leave an unverified SimpleX connection behind.\<close>

lemma repin_unverifies:
  "simplex_code_verified (set_simplex_admin_id i s) \<Longrightarrow> code_verified_cell s = i"
  by (auto simp: simplex_code_verified_def simplex_admin_id_def set_simplex_admin_id_def split: if_splits)

lemma follow_redirects_none:
  "route_callback (cb_data cb) = None \<Longrightarrow> follow_redirects (Suc n) h e cb w = (Inr (), w)"
  by (simp add: handlers_dispatch_def)

lemma app_auto_bind:
  "app (snd (auto_bind_on_approve contact w)) =
     (case contact of
        None \<Rightarrow> app w
      | Some i \<Rightarrow> if simplex_admin_id (app w) = Some i then app w else set_simplex_admin_id i (app w))"
  by (auto simp: auto_bind_on_approve_def thenE_apply app_upd_apply emit_def split: option.splits)

section \<open>Runs of the dialogue\<close>

definition step_event :: "env \<times> bot_event \<Rightarrow> world \<Rightarrow> world" where
  "step_event p w = snd (destruct_intercept (fst p) (snd p) w)"

fun after_events :: "(env \<times> bot_event) list \<Rightarrow> world \<Rightarrow> world" where
  "after_events [] w = w"
| "after_events (p # ps) w = after_events ps (step_event p w)"

lemma after_events_snoc: "after_events (ps @ [p]) w = step_event p (after_events ps w)"
  by (induction ps arbitrary: w) simp_all

lemma step_event_leaves_first:
  assumes "step_of (app w) c \<in> {None, Some AwaitFirstTotp}"
    and "step_of (app (step_event (e, ev) w)) c \<notin> {None, Some AwaitFirstTotp}"
  shows "\<exists>msg. ev = EvMessage msg \<and> me_target msg = c \<and> gives_code e msg (app w)"
proof (cases ev)
  case (EvMessage msg)
  then show ?thesis
    using assms message_leaves_first [of w c e msg] by (auto simp: step_event_def destruct_intercept_def)
next
  case (EvCallback cb)
  then show ?thesis
    using assms intercept_callback_move [of w c e cb]
    by (auto simp: step_event_def destruct_intercept_def callback_move_def)
next
  case (EvCommand cmd)
  then show ?thesis
    using assms by (simp add: step_event_def destruct_intercept_def)
qed

lemma run_code_given:
  assumes "\<forall>c. step_of (app w) c = None"
    and "step_of (app (after_events ps w)) c \<notin> {None, Some AwaitFirstTotp}"
  shows "\<exists>i e msg. i < length ps \<and> ps ! i = (e, EvMessage msg) \<and> me_target msg = c
    \<and> gives_code e msg (app (after_events (take i ps) w))"
  using assms(2)
proof (induction ps rule: rev_induct)
  case Nil
  then show ?case using assms(1) by simp
next
  case (snoc p ps)
  obtain e ev where p: "p = (e, ev)" by (cases p)
  show ?case
  proof (cases "step_of (app (after_events ps w)) c \<in> {None, Some AwaitFirstTotp}")
    case True
    then obtain msg where "ev = EvMessage msg" "me_target msg = c" "gives_code e msg (app (after_events ps w))"
      using snoc.prems step_event_leaves_first [of "after_events ps w" c e ev] by (auto simp: after_events_snoc p)
    then show ?thesis
      by (intro exI [of _ "length ps"] exI [of _ e] exI [of _ msg]) (simp add: p)
  next
    case False
    from snoc.IH [OF this] obtain i e' msg where "i < length ps" "ps ! i = (e', EvMessage msg)" "me_target msg = c"
      "gives_code e' msg (app (after_events (take i ps) w))"
      by blast
    then show ?thesis
      by (intro exI [of _ i] exI [of _ e'] exI [of _ msg]) (simp add: nth_append)
  qed
qed

lemma triggers_at_final:
  assumes "triggers w (destruct_intercept e ev)"
  shows "\<exists>c. step_of (app w) c = Some AwaitFinalConfirm"
proof (cases ev)
  case (EvMessage msg)
  with assms have "triggers w (intercept_message e msg)"
    by (simp add: destruct_intercept_def)
  from triggers_message [OF this] show ?thesis by (auto simp: step_of_def)
next
  case (EvCallback cb)
  with assms have "triggers w (intercept_callback e cb)"
    by (simp add: destruct_intercept_def)
  from triggers_callback [OF this] show ?thesis by (auto simp: step_of_def)
next
  case (EvCommand cmd)
  with assms show ?thesis by (simp add: destruct_intercept_def)
qed

section \<open>Properties\<close>


lemma sample_code [simp]: "trim ''424242'' = ''424242''"
  by code_simp

definition sample_run :: "(env \<times> bot_event) list" where
  "sample_run = [(sample_env 5, EvMessage (sample_message (Some ''424242'') None)),
     (sample_env 5, EvMessage (sample_message (Some ''yes'') None))]"


text \<open>
  Also: who gets past the gate: an event is let through exactly when its sender has a live administrator
  session, or its message is six digits, or an administrator asks for help, to start or to log in.
\<close>

theorem check_auth_characterised:
  "check_auth e ev s \<longleftrightarrow>
     is_authorized (e_now e) s (event_user_id ev)
   \<or> event_has_code ev
   \<or> is_admin_user s (event_user_id ev) \<and> (\<exists>c. ev = EvCommand c \<and>
       (ce_command c = Help \<or> ce_command c = Start \<or> (\<exists>code. ce_command c = Auth code)))"
  by (rule check_auth_iff)

text \<open>
  Also: an event the gate refuses does nothing at all while no dialogue is pending and the event is no
  button of the dialogue: no state changes and no effect is asked of the outside, whatever the page
  handlers do.
\<close>

theorem refused_event_is_noop:
  assumes "\<not> check_auth e ev (app w)" and "\<forall>c. pending_destructs (app w) c = None"
    and "\<forall>cb. ev = EvCallback cb \<longrightarrow> cb_data cb \<notin> {''a_destroy_ask'', ''a_destroy_cancel'', ''a_destroy_confirm'', ''a_destroy_final''}"
  shows "dispatch_event h e ev w = (Inr (), w)"
  using assms by (rule dispatch_refused)

theorem refused_event_is_noop_witness:
  "dispatch_event \<lparr>h_page = (\<lambda>r e cb. retE Done), h_message = (\<lambda>e m. retE MsgHandled), h_main_menu = (\<lambda>e t. retE ())\<rparr>
     (sample_env 5) (EvMessage (sample_message (Some ''yes'') None)) (sample_world sample_state)
   = (Inr (), sample_world sample_state)"
proof (rule refused_event_is_noop)
  show "\<not> check_auth (sample_env 5) (EvMessage (sample_message (Some ''yes'') None)) (app (sample_world sample_state))"
    by (simp add: check_auth_iff event_has_code_def sample_message_def is_totp_code_def sample_world_def
        sample_state_def new_app_state_def is_authorized_def)
qed (simp_all add: sample_world_def sample_state_def new_app_state_def)

text \<open>
  Also: a new SimpleX administrator starts unverified: whenever re-pinning or an approval installs an
  identity other than the one whose security code was verified, the connection counts as unverified.
\<close>

theorem new_admin_unverified:
  assumes "simplex_code_verified (app (snd (auto_bind_on_approve (Some i) w)))"
  shows "code_verified_cell (app w) = i"
  using assms
  by (simp add: app_auto_bind simplex_code_verified_def simplex_admin_id_def set_simplex_admin_id_def split: if_splits)

theorem new_admin_unverified_witness:
  "code_verified_cell (app (sample_world (sample_state\<lparr>code_verified_cell := 9\<rparr>))) = 9"
  by (rule new_admin_unverified)
     (simp add: app_auto_bind sample_world_def sample_state_def new_app_state_def simplex_admin_id_def
       set_simplex_admin_id_def simplex_code_verified_def)

end
