(* ===== verification/Scheduler.thy ===== *)
theory Scheduler
  imports World
begin

text \<open>
  The cron scheduler: \<open>core/system/scheduler/mod.rs\<close> and \<open>task_types.rs\<close>. The manager keeps the tasks in
  memory, the running job scheduler (absent while it is being rebuilt) and a state file. The cron and
  time-zone crates and the job scheduler's own success are parameters (\<open>sched_env\<close>): \<open>cron_err\<close> gives
  the error of an expression that builds no job, \<open>tz_ok\<close> whether a name parses as a time zone, \<open>add_ok\<close> whether
  a job is taken. Whether a new job scheduler starts and whether a write succeeds is decided by functions
  of the number of such calls so far. The derived serialisers read back what they write.
\<close>

section \<open>Tasks\<close>

fun get_display_name :: "task_type \<Rightarrow> string" where
  "get_display_name GeoUpdate = (''GeoData '' @ [CHR 0xE6, CHR 0x9B, CHR 0xB4, CHR 0xE6, CHR 0x96, CHR 0xB0] @ '' (Update GeoData)'')"
| "get_display_name GeoIpUpdate = (''GeoIP '' @ [CHR 0xE6, CHR 0x9B, CHR 0xB4, CHR 0xE6, CHR 0x96, CHR 0xB0] @ '' (Update GeoIP)'')"
| "get_display_name Reboot = ([CHR 0xE7, CHR 0xB3, CHR 0xBB, CHR 0xE7, CHR 0xBB, CHR 0x9F, CHR 0xE9, CHR 0x87, CHR 0x8D, CHR 0xE5, CHR 0x90, CHR 0xAF] @ '' (Reboot)'')"
| "get_display_name ReloadCore = ([CHR 0xE9, CHR 0x87, CHR 0x8D, CHR 0xE8, CHR 0xBD, CHR 0xBD, CHR 0xE6, CHR 0xA0, CHR 0xB8, CHR 0xE5, CHR 0xBF, CHR 0x83] @ '' (Reload Core)'')"
| "get_display_name SecurityUpdate = ([CHR 0xE5, CHR 0xAE, CHR 0x89, CHR 0xE5, CHR 0x85, CHR 0xA8, CHR 0xE6, CHR 0x9B, CHR 0xB4, CHR 0xE6, CHR 0x96, CHR 0xB0] @ '' (Security Update)'')"
| "get_display_name UnknownTask = ([CHR 0xE6, CHR 0x9C, CHR 0xAA, CHR 0xE7, CHR 0x9F, CHR 0xA5, CHR 0xE4, CHR 0xBB, CHR 0xBB, CHR 0xE5, CHR 0x8A, CHR 0xA1] @ '' ('' @ [CHR 0xE5, CHR 0xB7, CHR 0xB2, CHR 0xE5, CHR 0xBC, CHR 0x83, CHR 0xE7, CHR 0x94, CHR 0xA8] @ '')'')"

record scheduled_task =
  st_task_type :: task_type
  st_cron_expression :: string
  st_timezone :: string
  st_enabled :: bool

definition new_with_timezone :: "task_type \<Rightarrow> string \<Rightarrow> string \<Rightarrow> scheduled_task" where
  "new_with_timezone ty cron tz = \<lparr>st_task_type = ty, st_cron_expression = cron, st_timezone = tz, st_enabled = True\<rparr>"

definition new_task :: "task_type \<Rightarrow> string \<Rightarrow> scheduled_task" where
  "new_task ty cron = new_with_timezone ty cron ''UTC''"

section \<open>Running a task\<close>

definition notice :: "string \<Rightarrow> string \<Rightarrow> (world, unit) io" where
  "notice target body = catchE (send target body None) (\<lambda>_. retE ())"

definition report_result :: "string \<Rightarrow> string \<Rightarrow> string \<Rightarrow> string + unit \<Rightarrow> (world, unit) io" where
  "report_result target task_name success_msg result =
     (case result of
        Inr _ \<Rightarrow> thenE (send target success_msg None) (retE ())
      | Inl e \<Rightarrow> thenE (send target (([CHR 0xE2, CHR 0x9D, CHR 0x8C] @ '' ['' @ [CHR 0xE5, CHR 0xAE, CHR 0x9A, CHR 0xE6, CHR 0x97, CHR 0xB6, CHR 0xE4, CHR 0xBB, CHR 0xBB, CHR 0xE5, CHR 0x8A, CHR 0xA1] @ ''] '') @ task_name @ ('' '' @ [CHR 0xE5, CHR 0xA4, CHR 0xB1, CHR 0xE8, CHR 0xB4, CHR 0xA5] @ '': '') @ e) None) (failE e))"

text \<open>\<open>outcome\<close> gives the result of each maintenance call.\<close>

definition execute_task :: "(string \<Rightarrow> string + unit) \<Rightarrow> string \<Rightarrow> task_type \<Rightarrow> (world, unit) io" where
  "execute_task outcome target ty =
     (case ty of
        GeoUpdate \<Rightarrow>
          thenE (notice target ([CHR 0xE2, CHR 0x8F, CHR 0xB3] @ '' ['' @ [CHR 0xE5, CHR 0xAE, CHR 0x9A, CHR 0xE6, CHR 0x97, CHR 0xB6, CHR 0xE4, CHR 0xBB, CHR 0xBB, CHR 0xE5, CHR 0x8A, CHR 0xA1] @ ''] '' @ [CHR 0xE5, CHR 0xBC, CHR 0x80, CHR 0xE5, CHR 0xA7, CHR 0x8B, CHR 0xE6, CHR 0x9B, CHR 0xB4, CHR 0xE6, CHR 0x96, CHR 0xB0] @ '' GeoData...''))
         (thenE (emit (Maintenance ''update_geodata''))
                (report_result target (''GeoData '' @ [CHR 0xE6, CHR 0x9B, CHR 0xB4, CHR 0xE6, CHR 0x96, CHR 0xB0]) ([CHR 0xE2, CHR 0x9C, CHR 0x85] @ '' ['' @ [CHR 0xE5, CHR 0xAE, CHR 0x9A, CHR 0xE6, CHR 0x97, CHR 0xB6, CHR 0xE4, CHR 0xBB, CHR 0xBB, CHR 0xE5, CHR 0x8A, CHR 0xA1] @ ''] GeoData '' @ [CHR 0xE6, CHR 0x9B, CHR 0xB4, CHR 0xE6, CHR 0x96, CHR 0xB0, CHR 0xE5, CHR 0xAE, CHR 0x8C, CHR 0xE6, CHR 0x88, CHR 0x90, CHR 0xE3, CHR 0x80, CHR 0x82]) (outcome ''update_geodata'')))
      | GeoIpUpdate \<Rightarrow>
          thenE (notice target ([CHR 0xE2, CHR 0x8F, CHR 0xB3] @ '' ['' @ [CHR 0xE5, CHR 0xAE, CHR 0x9A, CHR 0xE6, CHR 0x97, CHR 0xB6, CHR 0xE4, CHR 0xBB, CHR 0xBB, CHR 0xE5, CHR 0x8A, CHR 0xA1] @ ''] '' @ [CHR 0xE5, CHR 0xBC, CHR 0x80, CHR 0xE5, CHR 0xA7, CHR 0x8B, CHR 0xE6, CHR 0x9B, CHR 0xB4, CHR 0xE6, CHR 0x96, CHR 0xB0] @ '' sing-box GeoIP '' @ [CHR 0xE8, CHR 0xA7, CHR 0x84, CHR 0xE5, CHR 0x88, CHR 0x99, CHR 0xE9, CHR 0x9B, CHR 0x86] @ ''...''))
         (thenE (emit (Maintenance ''update_singbox_rules''))
                (report_result target (''GeoIP '' @ [CHR 0xE6, CHR 0x9B, CHR 0xB4, CHR 0xE6, CHR 0x96, CHR 0xB0]) ([CHR 0xE2, CHR 0x9C, CHR 0x85] @ '' ['' @ [CHR 0xE5, CHR 0xAE, CHR 0x9A, CHR 0xE6, CHR 0x97, CHR 0xB6, CHR 0xE4, CHR 0xBB, CHR 0xBB, CHR 0xE5, CHR 0x8A, CHR 0xA1] @ ''] GeoIP '' @ [CHR 0xE6, CHR 0x9B, CHR 0xB4, CHR 0xE6, CHR 0x96, CHR 0xB0, CHR 0xE5, CHR 0xAE, CHR 0x8C, CHR 0xE6, CHR 0x88, CHR 0x90, CHR 0xE3, CHR 0x80, CHR 0x82]) (outcome ''update_singbox_rules'')))
      | Reboot \<Rightarrow>
          thenE (notice target ([CHR 0xE2, CHR 0x9A, CHR 0xA0, CHR 0xEF, CHR 0xB8, CHR 0x8F] @ '' '' @ [CHR 0xE7, CHR 0xB3, CHR 0xBB, CHR 0xE7, CHR 0xBB, CHR 0x9F, CHR 0xE5, CHR 0x8D, CHR 0xB3, CHR 0xE5, CHR 0xB0, CHR 0x86, CHR 0xE9, CHR 0x87, CHR 0x8D, CHR 0xE5, CHR 0x90, CHR 0xAF] @ '' ('' @ [CHR 0xE5, CHR 0xAE, CHR 0x9A, CHR 0xE6, CHR 0x97, CHR 0xB6, CHR 0xE4, CHR 0xBB, CHR 0xBB, CHR 0xE5, CHR 0x8A, CHR 0xA1] @ '')...''))
                (ask (Maintenance ''reboot_system'') (outcome ''reboot_system''))
      | ReloadCore \<Rightarrow>
          thenE (notice target ([CHR 0xF0, CHR 0x9F, CHR 0x94, CHR 0x84] @ '' '' @ [CHR 0xE9, CHR 0x87, CHR 0x8D, CHR 0xE8, CHR 0xBD, CHR 0xBD, CHR 0xE6, CHR 0xA0, CHR 0xB8, CHR 0xE5, CHR 0xBF, CHR 0x83, CHR 0xE6, CHR 0x9C, CHR 0x8D, CHR 0xE5, CHR 0x8A, CHR 0xA1] @ ''...''))
                (ask (Maintenance ''reload_core'') (outcome ''reload_core''))
      | SecurityUpdate \<Rightarrow> notice target ([CHR 0xE2, CHR 0x84, CHR 0xB9, CHR 0xEF, CHR 0xB8, CHR 0x8F] @ '' '' @ [CHR 0xE8, CHR 0x87, CHR 0xAA, CHR 0xE5, CHR 0x8A, CHR 0xA8, CHR 0xE5, CHR 0xAE, CHR 0x89, CHR 0xE5, CHR 0x85, CHR 0xA8, CHR 0xE6, CHR 0x9B, CHR 0xB4, CHR 0xE6, CHR 0x96, CHR 0xB0, CHR 0xE5, CHR 0xB7, CHR 0xB2, CHR 0xE7, CHR 0x94, CHR 0xB1, CHR 0xE7, CHR 0xB3, CHR 0xBB, CHR 0xE7, CHR 0xBB, CHR 0x9F, CHR 0xE5, CHR 0xAE, CHR 0x9A, CHR 0xE6, CHR 0x97, CHR 0xB6, CHR 0xE5, CHR 0x99, CHR 0xA8, CHR 0xE7, CHR 0xAE, CHR 0xA1, CHR 0xE7, CHR 0x90, CHR 0x86, CHR 0xEF, CHR 0xBC, CHR 0x8C, CHR 0xE6, CHR 0x97, CHR 0xA0, CHR 0xE9, CHR 0x9C, CHR 0x80, CHR 0xE6, CHR 0x89, CHR 0x8B, CHR 0xE5, CHR 0x8A, CHR 0xA8, CHR 0xE6, CHR 0x89, CHR 0xA7, CHR 0xE8, CHR 0xA1, CHR 0x8C, CHR 0xE3, CHR 0x80, CHR 0x82])
      | UnknownTask \<Rightarrow> notice target ([CHR 0xE2, CHR 0x9A, CHR 0xA0, CHR 0xEF, CHR 0xB8, CHR 0x8F] @ '' '' @ [CHR 0xE6, CHR 0xAD, CHR 0xA4, CHR 0xE4, CHR 0xBB, CHR 0xBB, CHR 0xE5, CHR 0x8A, CHR 0xA1, CHR 0xE7, CHR 0xB1, CHR 0xBB, CHR 0xE5, CHR 0x9E, CHR 0x8B, CHR 0xE5, CHR 0xB7, CHR 0xB2, CHR 0xE5, CHR 0xBC, CHR 0x83, CHR 0xE7, CHR 0x94, CHR 0xA8, CHR 0xEF, CHR 0xBC, CHR 0x8C, CHR 0xE8, CHR 0x87, CHR 0xAA, CHR 0xE5, CHR 0x8A, CHR 0xA8, CHR 0xE5, CHR 0xAE, CHR 0x89, CHR 0xE5, CHR 0x85, CHR 0xA8, CHR 0xE6, CHR 0x9B, CHR 0xB4, CHR 0xE6, CHR 0x96, CHR 0xB0, CHR 0xE5, CHR 0xB7, CHR 0xB2, CHR 0xE7, CHR 0x94, CHR 0xB1, CHR 0xE7, CHR 0xB3, CHR 0xBB, CHR 0xE7, CHR 0xBB, CHR 0x9F, CHR 0xE5, CHR 0xAE, CHR 0x9A, CHR 0xE6, CHR 0x97, CHR 0xB6, CHR 0xE5, CHR 0x99, CHR 0xA8, CHR 0xE7, CHR 0xAE, CHR 0xA1, CHR 0xE7, CHR 0x90, CHR 0x86, CHR 0xE3, CHR 0x80, CHR 0x82]))"

section \<open>State\<close>

definition default_tasks :: "scheduled_task list" where
  "default_tasks = [new_task GeoUpdate ''0 4 * * 0'', new_task GeoIpUpdate ''0 4 13 * *'']"

datatype state_file = NoFile | BadFile | Tasks "scheduled_task list"

definition load_from_file :: "state_file \<Rightarrow> string + scheduled_task list" where
  "load_from_file f = (case f of NoFile \<Rightarrow> Inr default_tasks | BadFile \<Rightarrow> Inl ''load'' | Tasks ts \<Rightarrow> Inr ts)"

definition remove_task :: "nat \<Rightarrow> scheduled_task list \<Rightarrow> string + scheduled_task list" where
  "remove_task i ts =
     (if i < length ts then Inr (take i ts @ drop (i + 1) ts) else Inl ([CHR 0xE4, CHR 0xBB, CHR 0xBB, CHR 0xE5, CHR 0x8A, CHR 0xA1, CHR 0xE7, CHR 0xB4, CHR 0xA2, CHR 0xE5, CHR 0xBC, CHR 0x95, CHR 0xE8, CHR 0xB6, CHR 0x85, CHR 0xE5, CHR 0x87, CHR 0xBA, CHR 0xE8, CHR 0x8C, CHR 0x83, CHR 0xE5, CHR 0x9B, CHR 0xB4]))"

definition task_summary :: "nat \<Rightarrow> scheduled_task \<Rightarrow> string" where
  "task_summary i t =
     nat_str (i + 1) @ ''. '' @ (if st_enabled t then ([CHR 0xE2, CHR 0x9C, CHR 0x85]) else ([CHR 0xE2, CHR 0x8F, CHR 0xB8, CHR 0xEF, CHR 0xB8, CHR 0x8F])) @ '' ''
     @ get_display_name (st_task_type t) @ [CHR 0x0A] @ ''   Cron: `'' @ st_cron_expression t @ ''`'' @ [CHR 0x0A]
     @ ''   TZ: `'' @ st_timezone t @ ''`'' @ [CHR 0x0A, CHR 0x0A]"

definition get_tasks_summary :: "scheduled_task list \<Rightarrow> string" where
  "get_tasks_summary ts =
     (if ts = [] then ([CHR 0xF0, CHR 0x9F, CHR 0x93, CHR 0x9D] @ '' '' @ [CHR 0xE6, CHR 0x9A, CHR 0x82, CHR 0xE6, CHR 0x97, CHR 0xA0, CHR 0xE5, CHR 0xAE, CHR 0x9A, CHR 0xE6, CHR 0x97, CHR 0xB6, CHR 0xE4, CHR 0xBB, CHR 0xBB, CHR 0xE5, CHR 0x8A, CHR 0xA1])
      else ([CHR 0xE2, CHR 0x8F, CHR 0xB0] @ '' **'' @ [CHR 0xE5, CHR 0xAE, CHR 0x9A, CHR 0xE6, CHR 0x97, CHR 0xB6, CHR 0xE4, CHR 0xBB, CHR 0xBB, CHR 0xE5, CHR 0x8A, CHR 0xA1, CHR 0xE5, CHR 0x88, CHR 0x97, CHR 0xE8, CHR 0xA1, CHR 0xA8] @ ''**:'') @ [CHR 0x0A, CHR 0x0A]
        @ concat (map (\<lambda>(i, t). task_summary i t) (List.enumerate 0 ts)))"

section \<open>Validation\<close>

record sched_env =
  cron_err :: "string \<Rightarrow> string option"
  tz_ok :: "string \<Rightarrow> bool"
  add_ok :: "task_type \<times> string \<times> string option \<Rightarrow> bool"

definition normalize_cron_expression :: "string \<Rightarrow> string" where
  "normalize_cron_expression cron =
     (if length (split_whitespace cron) = 5 then ''0 '' @ cron else cron)"

definition canonical_timezone_name :: "string \<Rightarrow> string" where
  "canonical_timezone_name tz =
     (let trimmed = trim tz
      in if trimmed = [] \<or> to_ascii_lowercase trimmed = ''utc'' then ''Etc/UTC'' else trimmed)"

definition validate_cron_expression :: "sched_env \<Rightarrow> string \<Rightarrow> string + string" where
  "validate_cron_expression e cron =
     (let fields = length (split_whitespace cron)
      in if fields \<noteq> 5 \<and> fields \<noteq> 6
         then Inl (''Invalid cron expression fields count: '' @ nat_str fields @ ''. Expected 5 or 6.'')
         else (let normalized = normalize_cron_expression cron
               in case cron_err e normalized of None \<Rightarrow> Inr normalized | Some err \<Rightarrow> Inl (([CHR 0xE6, CHR 0x97, CHR 0xA0, CHR 0xE6, CHR 0x95, CHR 0x88] @ '' cron '' @ [CHR 0xE8, CHR 0xA1, CHR 0xA8, CHR 0xE8, CHR 0xBE, CHR 0xBE, CHR 0xE5, CHR 0xBC, CHR 0x8F] @ '': '') @ err)))"

definition validate_timezone :: "sched_env \<Rightarrow> string \<Rightarrow> string + unit" where
  "validate_timezone e tz =
     (if trim tz = [] then Inl ([CHR 0xE6, CHR 0x97, CHR 0xB6, CHR 0xE5, CHR 0x8C, CHR 0xBA, CHR 0xE4, CHR 0xB8, CHR 0x8D, CHR 0xE8, CHR 0x83, CHR 0xBD, CHR 0xE4, CHR 0xB8, CHR 0xBA, CHR 0xE7, CHR 0xA9, CHR 0xBA])
      else if tz_ok e (canonical_timezone_name tz) then Inr () else Inl (([CHR 0xE6, CHR 0x97, CHR 0xA0, CHR 0xE6, CHR 0x95, CHR 0x88, CHR 0xE6, CHR 0x97, CHR 0xB6, CHR 0xE5, CHR 0x8C, CHR 0xBA] @ '': '') @ tz))"

definition validate_task :: "sched_env \<Rightarrow> scheduled_task \<Rightarrow> string + unit" where
  "validate_task e t =
     (case validate_cron_expression e (st_cron_expression t) of
        Inl err \<Rightarrow> Inl err
      | Inr _ \<Rightarrow> validate_timezone e (st_timezone t))"

section \<open>The manager\<close>

type_synonym job = "task_type \<times> string \<times> string option"

record sched_world =
  sw_tasks :: "scheduled_task list"
  sw_jobs :: "job list option"
  sw_file :: state_file
  sw_starts :: nat
  sw_saves :: nat
  sw_new_ok :: "nat \<Rightarrow> bool"
  sw_save_bad :: "nat \<Rightarrow> (string \<times> state_file) option"

text \<open>A job runs its task in the task's zone, or in the default one when the name does not parse.\<close>

definition build_job :: "sched_env \<Rightarrow> scheduled_task \<Rightarrow> string \<Rightarrow> job option" where
  "build_job e t cron =
     (let name = canonical_timezone_name (st_timezone t)
      in if cron_err e cron = None
         then Some (st_task_type t, cron, if tz_ok e name then Some name else None) else None)"

definition task_job :: "sched_env \<Rightarrow> scheduled_task \<Rightarrow> job option" where
  "task_job e t =
     (if st_enabled t
      then (case build_job e t (normalize_cron_expression (st_cron_expression t)) of
              Some j \<Rightarrow> if add_ok e j then Some j else None
            | None \<Rightarrow> None)
      else None)"

definition save_to_file :: "(sched_world, unit) io" where
  "save_to_file w =
     (case sw_save_bad w (sw_saves w) of
        None \<Rightarrow> (Inr (), w\<lparr>sw_file := Tasks (sw_tasks w), sw_saves := sw_saves w + 1\<rparr>)
      | Some (err, f) \<Rightarrow> (Inl err, w\<lparr>sw_file := f, sw_saves := sw_saves w + 1\<rparr>))"

definition start_all_tasks :: "sched_env \<Rightarrow> (sched_world, unit) io" where
  "start_all_tasks e w =
     (if sw_new_ok w (sw_starts w)
      then (Inr (), w\<lparr>sw_jobs := Some (List.map_filter (task_job e) (sw_tasks w)), sw_starts := sw_starts w + 1\<rparr>)
      else (Inl ''scheduler'', w\<lparr>sw_jobs := None, sw_starts := sw_starts w + 1\<rparr>))"

definition set_tasks :: "scheduled_task list \<Rightarrow> (sched_world, unit) io" where
  "set_tasks ts w = (Inr (), w\<lparr>sw_tasks := ts\<rparr>)"

text \<open>The second half both edits share: restart, roll the tasks back if that fails, save.\<close>

definition commit_tasks :: "sched_env \<Rightarrow> scheduled_task list \<Rightarrow> string \<Rightarrow> (sched_world, string) io" where
  "commit_tasks e previous reply =
     catchE (start_all_tasks e) (\<lambda>r.
       case r of
         Inl err \<Rightarrow> thenE (set_tasks previous) (failE err)
       | Inr _ \<Rightarrow> thenE save_to_file (retE reply))"

definition add_new_task :: "sched_env \<Rightarrow> scheduled_task \<Rightarrow> (sched_world, string) io" where
  "add_new_task e t w =
     (case validate_task e t of
        Inl err \<Rightarrow> (Inr (([CHR 0xE2, CHR 0x9D, CHR 0x8C] @ '' '') @ err), w)
      | Inr _ \<Rightarrow>
          thenE (set_tasks (sw_tasks w @ [t]))
            (commit_tasks e (sw_tasks w)
              (([CHR 0xE2, CHR 0x9C, CHR 0x85] @ '' '' @ [CHR 0xE6, CHR 0x96, CHR 0xB0, CHR 0xE4, CHR 0xBB, CHR 0xBB, CHR 0xE5, CHR 0x8A, CHR 0xA1, CHR 0xE5, CHR 0xB7, CHR 0xB2, CHR 0xE6, CHR 0xB7, CHR 0xBB, CHR 0xE5, CHR 0x8A, CHR 0xA0] @ '': '') @ get_display_name (st_task_type t) @ '' ('' @ st_cron_expression t @ '', ''
                @ st_timezone t @ '')'')) w)"

definition remove_task_at :: "sched_env \<Rightarrow> nat \<Rightarrow> (sched_world, string) io" where
  "remove_task_at e i w =
     (case remove_task i (sw_tasks w) of
        Inl err \<Rightarrow> (Inr (([CHR 0xE2, CHR 0x9D, CHR 0x8C] @ '' '' @ [CHR 0xE5, CHR 0x88, CHR 0xA0, CHR 0xE9, CHR 0x99, CHR 0xA4, CHR 0xE4, CHR 0xBB, CHR 0xBB, CHR 0xE5, CHR 0x8A, CHR 0xA1, CHR 0xE5, CHR 0xA4, CHR 0xB1, CHR 0xE8, CHR 0xB4, CHR 0xA5] @ '': '') @ err), w)
      | Inr ts \<Rightarrow> thenE (set_tasks ts) (commit_tasks e (sw_tasks w) ([CHR 0xE2, CHR 0x9C, CHR 0x85] @ '' '' @ [CHR 0xE4, CHR 0xBB, CHR 0xBB, CHR 0xE5, CHR 0x8A, CHR 0xA1, CHR 0xE5, CHR 0xB7, CHR 0xB2, CHR 0xE5, CHR 0x88, CHR 0xA0, CHR 0xE9, CHR 0x99, CHR 0xA4])) w)"

text \<open>\<open>SchedulerManager::new\<close>: load or fall back to the defaults, register the GeoIP task where an old
  file lacks it, make sure there is a file, start. Failures of the writes and of the start are ignored;
  only the first job scheduler has to come up.\<close>

definition has_geoip :: "scheduled_task list \<Rightarrow> bool" where
  "has_geoip ts \<longleftrightarrow> list_ex (\<lambda>t. st_task_type t = GeoIpUpdate) ts"

definition migrate :: "(sched_world, unit) io" where
  "migrate =
     (\<lambda>w. let ts = (case load_from_file (sw_file w) of Inr ts \<Rightarrow> ts | Inl _ \<Rightarrow> default_tasks)
          in if \<not> has_geoip ts
             then thenE (set_tasks (ts @ [new_task GeoIpUpdate ''0 4 13 * *''])) (catchE save_to_file (\<lambda>_. retE ())) w
             else set_tasks ts w)"

definition manager_new :: "sched_env \<Rightarrow> (sched_world, unit) io" where
  "manager_new e =
     thenE migrate
    (thenE (\<lambda>w. if sw_file w = NoFile then catchE save_to_file (\<lambda>_. retE ()) w else (Inr (), w))
    (thenE (\<lambda>w. if sw_new_ok w (sw_starts w)
                then (Inr (), w\<lparr>sw_jobs := Some [], sw_starts := sw_starts w + 1\<rparr>)
                else (Inl ''scheduler'', w\<lparr>sw_starts := sw_starts w + 1\<rparr>))
           (catchE (start_all_tasks e) (\<lambda>_. retE ()))))"

section \<open>Lemmas\<close>

text \<open>What is running is what is in memory.\<close>

definition in_sync :: "sched_env \<Rightarrow> sched_world \<Rightarrow> bool" where
  "in_sync e w \<longleftrightarrow> sw_jobs w = Some (List.map_filter (task_job e) (sw_tasks w))"

lemma commit_ok:
  assumes "sw_new_ok w (sw_starts w)" "sw_save_bad w (sw_saves w) = None"
  shows "commit_tasks e prev reply w =
    (Inr reply, w\<lparr>sw_jobs := Some (List.map_filter (task_job e) (sw_tasks w)), sw_starts := sw_starts w + 1,
       sw_file := Tasks (sw_tasks w), sw_saves := sw_saves w + 1\<rparr>)"
  using assms by (simp add: commit_tasks_def catchE_apply thenE_apply start_all_tasks_def save_to_file_def)

lemma commit_no_start:
  assumes "\<not> sw_new_ok w (sw_starts w)"
  shows "commit_tasks e prev reply w =
    (Inl ''scheduler'', w\<lparr>sw_jobs := None, sw_starts := sw_starts w + 1, sw_tasks := prev\<rparr>)"
  using assms by (simp add: commit_tasks_def catchE_apply thenE_apply start_all_tasks_def set_tasks_def)

lemma commit_no_save:
  assumes "sw_new_ok w (sw_starts w)" "sw_save_bad w (sw_saves w) = Some (err, f)"
  shows "commit_tasks e prev reply w =
    (Inl err, w\<lparr>sw_jobs := Some (List.map_filter (task_job e) (sw_tasks w)), sw_starts := sw_starts w + 1,
       sw_file := f, sw_saves := sw_saves w + 1\<rparr>)"
  using assms by (simp add: commit_tasks_def catchE_apply thenE_apply start_all_tasks_def save_to_file_def)

lemma remove_task_nth:
  assumes "remove_task i ts = Inr ts'"
  shows "i < length ts \<and> ts = take i ts' @ ts ! i # drop i ts' \<and> length ts' = length ts - 1"
  using assms by (auto simp: remove_task_def id_take_nth_drop split: if_splits)

lemma split_whitespace_zero: "split_whitespace (''0 '' @ s) = ''0'' # split_whitespace s"
proof -
  have "ws_at_front (CHR ''0'' # r) = None" "ws_at_front (CHR '' '' # r) = Some 1" for r
    by (simp_all add: ws_at_front_def ws_seqs_def)
  then show ?thesis
    by (simp add: split_whitespace_def words_acc.simps [of "[]" "CHR ''0'' # CHR '' '' # s"]
        words_acc.simps [of "''0''" "CHR '' '' # s"])
qed

lemma normalized_fields:
  "length (split_whitespace cron) \<in> {5, 6} \<Longrightarrow> length (split_whitespace (normalize_cron_expression cron)) = 6"
  by (auto simp: normalize_cron_expression_def split_whitespace_zero [simplified])

lemma trim_Nil [simp]: "trim [] = []"
  by (simp add: trim_def) code_simp

lemma validated_job:
  assumes "validate_task e t = Inr ()"
  shows "build_job e t (normalize_cron_expression (st_cron_expression t)) =
      Some (st_task_type t, normalize_cron_expression (st_cron_expression t), Some (canonical_timezone_name (st_timezone t)))"
  using assms
  by (auto simp: validate_task_def validate_cron_expression_def validate_timezone_def build_job_def Let_def
      split: sum.splits if_splits option.splits)

definition sample_sched_env :: sched_env where
  "sample_sched_env = \<lparr>cron_err = (\<lambda>c. None), tz_ok = (\<lambda>z. z = ''Etc/UTC''), add_ok = (\<lambda>j. True)\<rparr>"

definition sample_sched :: "bool \<Rightarrow> sched_world" where
  "sample_sched ok = \<lparr>sw_tasks = [], sw_jobs = Some [], sw_file = Tasks [], sw_starts = 0, sw_saves = 0,
     sw_new_ok = (\<lambda>n. ok), sw_save_bad = (\<lambda>n. None)\<rparr>"

lemma sample_valid: "validate_task sample_sched_env (new_task Reboot ''0 4 * * 0'') = Inr ()"
proof -
  have "length (split_whitespace ''0 4 * * 0'') = 5" "trim ''UTC'' = ''UTC''" "to_ascii_lowercase ''UTC'' = ''utc''"
    by code_simp+
  then show ?thesis
    by (simp add: validate_task_def validate_cron_expression_def validate_timezone_def canonical_timezone_name_def
        sample_sched_env_def new_task_def new_with_timezone_def)
qed

section \<open>Properties\<close>



text \<open>
  Also: removing the task just added restores the tasks, the running jobs and the state file.
\<close>

theorem add_remove_roundtrip:
  assumes "validate_task e t = Inr ()" "\<forall>n. sw_new_ok w n" "\<forall>n. sw_save_bad w n = None" "in_sync e w"
  shows "let w' = snd (add_new_task e t w); w'' = snd (remove_task_at e (length (sw_tasks w)) w')
    in sw_tasks w'' = sw_tasks w \<and> sw_jobs w'' = sw_jobs w \<and> sw_file w'' = Tasks (sw_tasks w)"
proof -
  let ?w1 = "w\<lparr>sw_tasks := sw_tasks w @ [t]\<rparr>"
  let ?w' = "?w1\<lparr>sw_jobs := Some (List.map_filter (task_job e) (sw_tasks ?w1)), sw_starts := sw_starts w + 1,
       sw_file := Tasks (sw_tasks ?w1), sw_saves := sw_saves w + 1\<rparr>"
  have "snd (add_new_task e t w) = ?w'"
    using assms commit_ok [of ?w1 e "sw_tasks w"] by (simp add: add_new_task_def thenE_apply set_tasks_def)
  moreover have "sw_tasks (snd (remove_task_at e (length (sw_tasks w)) ?w')) = sw_tasks w
    \<and> sw_jobs (snd (remove_task_at e (length (sw_tasks w)) ?w')) = sw_jobs w
    \<and> sw_file (snd (remove_task_at e (length (sw_tasks w)) ?w')) = Tasks (sw_tasks w)"
    using assms commit_ok [of "?w'\<lparr>sw_tasks := sw_tasks w\<rparr>" e]
    by (simp add: remove_task_at_def remove_task_def thenE_apply set_tasks_def in_sync_def)
  ultimately show ?thesis by (simp add: Let_def)
qed

theorem add_remove_roundtrip_witness:
  "let w' = snd (add_new_task sample_sched_env (new_task Reboot ''0 4 * * 0'') (sample_sched True));
       w'' = snd (remove_task_at sample_sched_env (length (sw_tasks (sample_sched True))) w')
   in sw_tasks w'' = sw_tasks (sample_sched True) \<and> sw_jobs w'' = sw_jobs (sample_sched True)
    \<and> sw_file w'' = Tasks (sw_tasks (sample_sched True))"
  by (rule add_remove_roundtrip [OF sample_valid]) (simp_all add: sample_sched_def in_sync_def map_filter_def)

text \<open>
  Also: a restart that fails stops every task: when the new job scheduler does not come up, an edit
  reports the error and rolls the tasks back, but the old job scheduler is gone, so nothing runs
  although the tasks are still listed and enabled.
\<close>

theorem failed_restart_stops_all:
  assumes "validate_task e t = Inr ()" "\<not> sw_new_ok w (sw_starts w)"
  shows "fst (add_new_task e t w) = Inl ''scheduler'' \<and> sw_tasks (snd (add_new_task e t w)) = sw_tasks w
    \<and> sw_file (snd (add_new_task e t w)) = sw_file w \<and> sw_jobs (snd (add_new_task e t w)) = None"
  using assms commit_no_start [of "w\<lparr>sw_tasks := sw_tasks w @ [t]\<rparr>" e "sw_tasks w"]
  by (simp add: add_new_task_def thenE_apply set_tasks_def)

theorem failed_restart_stops_all_witness:
  "sw_jobs (snd (add_new_task sample_sched_env (new_task Reboot ''0 4 * * 0'') (sample_sched False))) = None"
  using failed_restart_stops_all [OF sample_valid, of "sample_sched False"] by (simp add: sample_sched_def)

text \<open>
  Also: a save that fails is reported as a failed edit, yet the edit is in force: the task is in memory
  and its job is running, and is lost at the next start.
\<close>

theorem failed_save_keeps_task:
  assumes "validate_task e t = Inr ()" "sw_new_ok w (sw_starts w)" "sw_save_bad w (sw_saves w) = Some (err, f)"
  shows "fst (add_new_task e t w) = Inl err \<and> sw_tasks (snd (add_new_task e t w)) = sw_tasks w @ [t]
    \<and> in_sync e (snd (add_new_task e t w)) \<and> sw_file (snd (add_new_task e t w)) = f"
  using assms commit_no_save [of "w\<lparr>sw_tasks := sw_tasks w @ [t]\<rparr>" err f e "sw_tasks w"]
  by (simp add: add_new_task_def thenE_apply set_tasks_def in_sync_def)

theorem failed_save_keeps_task_witness:
  "sw_tasks (snd (add_new_task sample_sched_env (new_task Reboot ''0 4 * * 0'')
     ((sample_sched True)\<lparr>sw_save_bad := (\<lambda>n. Some (''full'', Tasks []))\<rparr>))) = [new_task Reboot ''0 4 * * 0'']"
  using failed_save_keeps_task [OF sample_valid, of "(sample_sched True)\<lparr>sw_save_bad := (\<lambda>n. Some (''full'', Tasks []))\<rparr>"]
  by (simp add: sample_sched_def)

text \<open>
  Also: whatever state file an installation has, a manager that starts has the monthly GeoIP task, and
  runs what it lists when the job scheduler comes up.
\<close>

theorem manager_has_geoip:
  assumes "fst (manager_new e w) = Inr ()"
  shows "has_geoip (sw_tasks (snd (manager_new e w)))
    \<and> (sw_new_ok w (sw_starts w + 1) \<longrightarrow> in_sync e (snd (manager_new e w)))"
proof -
  have d: "has_geoip default_tasks" "has_geoip (ts @ [new_task GeoIpUpdate c])" for ts c
    by (simp_all add: has_geoip_def default_tasks_def new_task_def new_with_timezone_def)
  define w1 where "w1 = snd (migrate w)"
  have w1: "migrate w = (Inr (), w1)" "has_geoip (sw_tasks w1)" "sw_new_ok w1 = sw_new_ok w" "sw_starts w1 = sw_starts w"
    using d
    by (auto simp: w1_def migrate_def thenE_apply catchE_apply set_tasks_def save_to_file_def Let_def
        split: sum.splits option.splits)
  define w2 where "w2 = snd ((if sw_file w1 = NoFile then (catchE save_to_file (\<lambda>_. retE ()) :: (sched_world, unit) io) w1 else (Inr (), w1)))"
  have w2: "(if sw_file w1 = NoFile then (catchE save_to_file (\<lambda>_. retE ()) :: (sched_world, unit) io) w1 else (Inr (), w1)) = (Inr (), w2)"
    "sw_tasks w2 = sw_tasks w1" "sw_new_ok w2 = sw_new_ok w" "sw_starts w2 = sw_starts w"
    using w1 by (auto simp: w2_def catchE_apply save_to_file_def split: option.splits)
  show ?thesis
    using assms w1 w2
    by (auto simp: manager_new_def thenE_apply catchE_apply start_all_tasks_def in_sync_def split: if_splits)
qed

theorem manager_has_geoip_witness:
  "has_geoip (sw_tasks (snd (manager_new sample_sched_env (sample_sched True))))"
  using manager_has_geoip [of sample_sched_env "sample_sched True"]
  by (simp add: manager_new_def migrate_def load_from_file_def has_geoip_def thenE_apply catchE_apply set_tasks_def
      save_to_file_def start_all_tasks_def sample_sched_def)

end
