(* ===== verification/Json.thy ===== *)
theory Json
  imports Prelude
begin

text \<open>
  \<open>serde_json::Value\<close> and the accessors the sources use. An object is a list of members with distinct
  keys; the order of the members carries no meaning (the crate keeps them in a map), so insertion
  replaces a member in place or appends one. Parsing and printing belong to the crate: definitions
  that read a file take the parser as an argument. A number is an integer or, opaquely, the text of
  a floating-point literal.
\<close>

datatype json =
    JNull
  | JBool bool
  | JInt int
  | JFloat string
  | JStr string
  | JArr "json list"
  | JObj "(string \<times> json) list"

fun jget :: "string \<Rightarrow> json \<Rightarrow> json option" where
  "jget k (JObj ms) = map_of ms k"
| "jget k _ = None"

fun as_array :: "json \<Rightarrow> json list option" where
  "as_array (JArr xs) = Some xs"
| "as_array _ = None"

fun as_str :: "json \<Rightarrow> string option" where
  "as_str (JStr s) = Some s"
| "as_str _ = None"

fun as_bool :: "json \<Rightarrow> bool option" where
  "as_bool (JBool b) = Some b"
| "as_bool _ = None"

fun as_object :: "json \<Rightarrow> (string \<times> json) list option" where
  "as_object (JObj ms) = Some ms"
| "as_object _ = None"

fun as_u64 :: "json \<Rightarrow> nat option" where
  "as_u64 (JInt i) = (if 0 \<le> i \<and> i < 2 ^ 64 then Some (nat i) else None)"
| "as_u64 _ = None"

text \<open>\<open>Map::insert\<close>.\<close>

fun members_insert :: "string \<Rightarrow> json \<Rightarrow> (string \<times> json) list \<Rightarrow> (string \<times> json) list" where
  "members_insert k v [] = [(k, v)]"
| "members_insert k v ((k', v') # ms) =
     (if k = k' then (k, v) # ms else (k', v') # members_insert k v ms)"

text \<open>\<open>value[k] = v\<close> on an object or on \<open>null\<close>, which becomes an object; other values panic and are not
  assigned to.\<close>

fun jset :: "string \<Rightarrow> json \<Rightarrow> json \<Rightarrow> json option" where
  "jset k v (JObj ms) = Some (JObj (members_insert k v ms))"
| "jset k v JNull = Some (JObj [(k, v)])"
| "jset k v _ = None"

text \<open>\<open>v.get(k1).and_then(|v| v.get(k2)) ...\<close>\<close>

fun jpath :: "string list \<Rightarrow> json \<Rightarrow> json option" where
  "jpath [] v = Some v"
| "jpath (k # ks) v = (case jget k v of Some v' \<Rightarrow> jpath ks v' | None \<Rightarrow> None)"

text \<open>\<open>v[key]\<close> of a value: \<open>null\<close> when there is no such member.\<close>

definition jidx :: "string \<Rightarrow> json \<Rightarrow> json" where
  "jidx k v = (case jget k v of Some x \<Rightarrow> x | None \<Rightarrow> JNull)"

lemma members_insert_get [simp]:
  "map_of (members_insert k v ms) = (map_of ms)(k \<mapsto> v)"
  by (induction ms) (auto simp: fun_eq_iff)

lemma members_insert_keys: "set (map fst (members_insert k v ms)) = insert k (set (map fst ms))"
  by (induction k v ms rule: members_insert.induct) auto

lemma members_insert_distinct: "distinct (map fst ms) \<Longrightarrow> distinct (map fst (members_insert k v ms))"
proof (induction ms)
  case (Cons m ms)
  then show ?case
    using members_insert_keys [of k v ms] by (cases m) (auto simp del: set_map)
qed simp

lemma jget_jset: "jset k v j = Some j' \<Longrightarrow> jget k' j' = (if k' = k then Some v else jget k' j)"
  by (cases j) auto

end
