(* ===== verification/RoutingRules.thy ===== *)
theory RoutingRules
  imports Json
begin

text \<open>
  The routing rules of the Xray core, \<open>core/xray/routing.rs\<close>: the table of built-in rules, the migration
  that keeps the direct rules in front of the blocking ones, and the switch of a rule. The functions
  on \<open>serde_json::Value\<close> are definitions on \<open>json\<close>; where indexing the value would panic (the document
  or its \<open>routing\<close> member is neither an object nor \<open>null\<close>) the result is \<open>None\<close>. The file operations run
  on a world with the base configuration file and counters of writes and core reloads, whose success
  is decided by functions of these counters; the lock the source takes makes each of them one step.
\<close>

section \<open>The rule table\<close>

datatype rule_kind = IpRule | DomainRule | ProtocolRule

record rule_def =
  rd_id :: string
  rd_kind :: rule_kind
  rd_targets :: "string list"
  rd_outbound :: string
  rd_default_enabled :: bool

definition connectivity_check :: rule_def where
  "connectivity_check = \<lparr>rd_id = ''connectivity_check'', rd_kind = DomainRule,
     rd_targets = [''domain:www.gstatic.com'', ''domain:connectivitycheck.gstatic.com'', ''domain:ssl.gstatic.com'',
       ''domain:fonts.gstatic.com'', ''domain:fonts.googleapis.com''],
     rd_outbound = ''direct'', rd_default_enabled = True\<rparr>"

definition essential_direct :: rule_def where
  "essential_direct = \<lparr>rd_id = ''essential_direct'', rd_kind = DomainRule,
     rd_targets = [''domain:recaptcha.net'', ''domain:safebrowsing.googleapis.com'',
       ''domain:safebrowsing-cache.google.com'', ''domain:update.googleapis.com'', ''domain:dl.google.com'',
       ''domain:dl.l.google.com'', ''domain:tools.google.com'', ''domain:clientservices.googleapis.com'',
       ''domain:performanceparameters.googleapis.com'', ''domain:tac.googleapis.com'',
       ''domain:crashlyticsreports-pa.googleapis.com'', ''domain:firebase-settings.crashlytics.com'',
       ''domain:update.crashlytics.com'', ''domain:checkin.gstatic.com'', ''domain:csi.gstatic.com'',
       ''domain:g0.gstatic.com'', ''domain:g1.gstatic.com'', ''domain:g2.gstatic.com'', ''domain:g3.gstatic.com'',
       ''domain:fontfiles.googleapis.com'', ''domain:redirector.gvt1.com'', ''domain:redirector.gcpcdn.gvt1.com'',
       ''domain:redirector.offline-maps.gvt1.com'', ''domain:redirector.snap.gvt1.com'', ''domain:beacons.gvt2.com'',
       ''domain:beacons2.gvt2.com'', ''domain:beacons3.gvt2.com'', ''domain:googlevideo.com'',
       ''domain:youtube-dubbing.com'', ''geosite:apple@cn'', ''domain:init.itunes.apple.com'',
       ''geosite:microsoft-pki'', ''domain:download.microsoft.com'', ''domain:download.visualstudio.microsoft.com'',
       ''domain:officecdn.microsoft.com'', ''domain:storeedge.microsoft.com'',
       ''domain:storeedgefd.dsx.mp.microsoft.com'', ''domain:dcg.microsoft.com'', ''domain:sdx.microsoft.com''],
     rd_outbound = ''direct'', rd_default_enabled = True\<rparr>"

definition simple_rule :: "string \<Rightarrow> rule_kind \<Rightarrow> string \<Rightarrow> string \<Rightarrow> bool \<Rightarrow> rule_def" where
  "simple_rule i k t ob en =
     \<lparr>rd_id = i, rd_kind = k, rd_targets = [t], rd_outbound = ob, rd_default_enabled = en\<rparr>"

definition ROUTING_RULES :: "rule_def list" where
  "ROUTING_RULES =
     [connectivity_check, essential_direct,
      simple_rule ''private_ip'' IpRule ''geoip:private'' ''blocked'' True,
      simple_rule ''cn_ip'' IpRule ''geoip:cn'' ''blocked'' True,
      simple_rule ''cn_domain'' DomainRule ''geosite:cn'' ''blocked'' True,
      simple_rule ''private_domain'' DomainRule ''geosite:private'' ''blocked'' False,
      simple_rule ''bt'' ProtocolRule ''bittorrent'' ''blocked'' False,
      simple_rule ''ads'' DomainRule ''geosite:category-ads-all'' ''blocked'' False,
      simple_rule ''openai'' DomainRule ''geosite:openai'' ''direct'' False]"

definition kind_key :: "rule_kind \<Rightarrow> string" where
  "kind_key k = (case k of IpRule \<Rightarrow> ''ip'' | DomainRule \<Rightarrow> ''domain'' | ProtocolRule \<Rightarrow> ''protocol'')"

definition rule_def_to_json :: "rule_def \<Rightarrow> json" where
  "rule_def_to_json r = JObj [(''type'', JStr ''field''), (''ruleTag'', JStr (rd_id r)),
     (''outboundTag'', JStr (rd_outbound r)), (kind_key (rd_kind r), JArr (map JStr (rd_targets r)))]"

text \<open>\<open>r.get("ruleTag").and_then(|t| t.as_str())\<close>\<close>

definition rule_tag :: "json \<Rightarrow> string option" where
  "rule_tag r = Option.bind (jget ''ruleTag'' r) as_str"

section \<open>The document\<close>

text \<open>The two statements that make sure that \<open>routing\<close> and \<open>routing.rules\<close> exist.\<close>

definition normalize_routing :: "json \<Rightarrow> json option" where
  "normalize_routing v =
     (case (if jidx ''routing'' v = JNull then jset ''routing'' (JObj []) v else Some v) of
        None \<Rightarrow> None
      | Some v1 \<Rightarrow>
          if as_array (jidx ''rules'' (jidx ''routing'' v1)) \<noteq> None then Some v1
          else (case jset ''rules'' (JArr []) (jidx ''routing'' v1) of
                  None \<Rightarrow> None
                | Some r \<Rightarrow> jset ''routing'' r v1))"

definition rules_of :: "json \<Rightarrow> json list" where
  "rules_of v = (case as_array (jidx ''rules'' (jidx ''routing'' v)) of Some xs \<Rightarrow> xs | None \<Rightarrow> [])"

definition set_routing_member :: "string \<Rightarrow> json \<Rightarrow> json \<Rightarrow> json option" where
  "set_routing_member k x v =
     (case jset k x (jidx ''routing'' v) of None \<Rightarrow> None | Some r \<Rightarrow> jset ''routing'' r v)"

definition strings_of :: "json \<Rightarrow> string list" where
  "strings_of v = (case as_array v of Some xs \<Rightarrow> List.map_filter as_str xs | None \<Rightarrow> [])"

definition disabled_of :: "json \<Rightarrow> string list" where
  "disabled_of v = strings_of (jidx ''rulesDisabled'' (jidx ''routing'' v))"

section \<open>Migration\<close>

definition is_direct :: "rule_def \<Rightarrow> bool" where
  "is_direct r \<longleftrightarrow> rd_outbound r = ''direct''"

definition direct_rules :: "rule_def list" where
  "direct_rules = filter is_direct ROUTING_RULES"

definition has_tag :: "json list \<Rightarrow> string \<Rightarrow> bool" where
  "has_tag rules i \<longleftrightarrow> list_ex (\<lambda>r. rule_tag r = Some i) rules"

definition reorder_rules :: "string list \<Rightarrow> json list \<Rightarrow> json list" where
  "reorder_rules disabled original =
     map rule_def_to_json (filter (\<lambda>d. has_tag original (rd_id d)
         \<or> rd_default_enabled d \<and> rd_id d \<notin> set disabled) direct_rules)
     @ filter (\<lambda>r. case rule_tag r of Some t \<Rightarrow> t \<notin> set (map rd_id direct_rules) | None \<Rightarrow> True) original"

definition reconcile_disabled :: "json list \<Rightarrow> string list \<Rightarrow> string list" where
  "reconcile_disabled rules disabled = filter (\<lambda>d. \<not> has_tag rules d) disabled"

definition ensure_direct_rules_value :: "json \<Rightarrow> (bool \<times> json) option" where
  "ensure_direct_rules_value v =
     (case normalize_routing v of
        None \<Rightarrow> None
      | Some v1 \<Rightarrow>
          (let original = rules_of v1;
               disabled = disabled_of v1;
               reordered = reorder_rules disabled original;
               reconciled = reconcile_disabled reordered disabled;
               disabled_changed = (length reconciled \<noteq> length disabled)
           in case (if disabled_changed
                    then set_routing_member ''rulesDisabled'' (JArr (map JStr reconciled)) v1 else Some v1) of
                None \<Rightarrow> None
              | Some v2 \<Rightarrow>
                  if reordered = original \<and> \<not> disabled_changed then Some (False, v2)
                  else map_option (\<lambda>v3. (True, v3)) (set_routing_member ''rules'' (JArr reordered) v2)))"

section \<open>Switching a rule\<close>

definition add_disabled_marker :: "string \<Rightarrow> json \<Rightarrow> json option" where
  "add_disabled_marker i v =
     (let arr = (case as_array (jidx ''rulesDisabled'' (jidx ''routing'' v)) of Some xs \<Rightarrow> xs | None \<Rightarrow> [])
      in set_routing_member ''rulesDisabled''
           (JArr (if list_ex (\<lambda>t. as_str t = Some i) arr then arr else arr @ [JStr i])) v)"

definition remove_disabled_marker :: "string \<Rightarrow> json \<Rightarrow> json option" where
  "remove_disabled_marker i v =
     (case as_array (jidx ''rulesDisabled'' (jidx ''routing'' v)) of
        None \<Rightarrow> Some v
      | Some arr \<Rightarrow> set_routing_member ''rulesDisabled'' (JArr (filter (\<lambda>t. as_str t \<noteq> Some i) arr)) v)"

fun remove_first :: "('a \<Rightarrow> bool) \<Rightarrow> 'a list \<Rightarrow> 'a list" where
  "remove_first P [] = []"
| "remove_first P (x # xs) = (if P x then xs else x # remove_first P xs)"

definition toggle_rule_value :: "json \<Rightarrow> rule_def \<Rightarrow> (bool \<times> json) option" where
  "toggle_rule_value v d =
     (case normalize_routing v of
        None \<Rightarrow> None
      | Some v1 \<Rightarrow>
          (let rules = rules_of v1
           in if has_tag rules (rd_id d)
              then (case set_routing_member ''rules'' (JArr (remove_first (\<lambda>r. rule_tag r = Some (rd_id d)) rules)) v1 of
                      None \<Rightarrow> None
                    | Some v2 \<Rightarrow> map_option (\<lambda>v3. (False, v3)) (add_disabled_marker (rd_id d) v2))
              else (case set_routing_member ''rules'' (JArr (rules @ [rule_def_to_json d])) v1 of
                      None \<Rightarrow> None
                    | Some v2 \<Rightarrow> map_option (\<lambda>v3. (True, v3)) (remove_disabled_marker (rd_id d) v2))))"

section \<open>The base file\<close>

datatype base_file = NoBase | BadBase | Base json

record xray_world =
  rw_base :: base_file
  rw_writes :: nat
  rw_reloads :: nat
  rw_write_bad :: "nat \<Rightarrow> (string \<times> base_file) option"
  rw_reload_err :: "nat \<Rightarrow> string option"

definition read_base_json :: "(xray_world, json) io" where
  "read_base_json w = (case rw_base w of NoBase \<Rightarrow> Inl ''read'' | BadBase \<Rightarrow> Inl ''parse'' | Base v \<Rightarrow> Inr v, w)"

definition persist_base_json :: "json \<Rightarrow> (xray_world, unit) io" where
  "persist_base_json v w =
     (case rw_write_bad w (rw_writes w) of
        None \<Rightarrow> (Inr (), w\<lparr>rw_base := Base v, rw_writes := rw_writes w + 1\<rparr>)
      | Some (e, f) \<Rightarrow> (Inl e, w\<lparr>rw_base := f, rw_writes := rw_writes w + 1\<rparr>))"

definition reload_core :: "(xray_world, unit) io" where
  "reload_core w =
     (case rw_reload_err w (rw_reloads w) of None \<Rightarrow> Inr () | Some e \<Rightarrow> Inl e, w\<lparr>rw_reloads := rw_reloads w + 1\<rparr>)"

definition write_base_json :: "json \<Rightarrow> (xray_world, unit) io" where
  "write_base_json v = thenE (persist_base_json v) reload_core"

text \<open>A panic ends the task that runs the handler; here it is the error \<open>panic\<close>.\<close>

definition ensure_direct_rules_in_base :: "(xray_world, unit) io" where
  "ensure_direct_rules_in_base =
     bindE read_base_json (\<lambda>v.
       case ensure_direct_rules_value v of
         None \<Rightarrow> failE ''panic''
       | Some (changed, v') \<Rightarrow> if changed then write_base_json v' else retE ())"

definition get_all_with_status :: "(xray_world, (rule_def \<times> bool) list) io" where
  "get_all_with_status =
     thenE ensure_direct_rules_in_base (bindE read_base_json (\<lambda>v.
       retE (map (\<lambda>d. (d, has_tag (rules_of v) (rd_id d))) ROUTING_RULES)))"

definition toggle :: "string \<Rightarrow> (xray_world, bool) io" where
  "toggle i =
     (case find (\<lambda>d. rd_id d = i) ROUTING_RULES of
        None \<Rightarrow> failE ''unknown rule''
      | Some d \<Rightarrow>
          bindE read_base_json (\<lambda>v.
            case toggle_rule_value v d of
              None \<Rightarrow> failE ''panic''
            | Some (enabled, v') \<Rightarrow> thenE (write_base_json v') (retE enabled)))"

section \<open>Lemmas: the document\<close>

definition well_routed :: "json \<Rightarrow> bool" where
  "well_routed v \<longleftrightarrow> (\<exists>ms rs xs. v = JObj ms \<and> map_of ms ''routing'' = Some (JObj rs)
     \<and> map_of rs ''rules'' = Some (JArr xs))"

lemma jset_obj: "jset k x (JObj ms) = Some (JObj (members_insert k x ms))"
  by simp

lemma normalize_well: "normalize_routing v = Some v1 \<Longrightarrow> well_routed v1"
proof -
  assume "normalize_routing v = Some v1"
  then obtain u where u: "(if jidx ''routing'' v = JNull then jset ''routing'' (JObj []) v else Some v) = Some u"
    and n: "(if as_array (jidx ''rules'' (jidx ''routing'' u)) \<noteq> None then Some u
          else (case jset ''rules'' (JArr []) (jidx ''routing'' u) of
                  None \<Rightarrow> None | Some r \<Rightarrow> jset ''routing'' r u)) = Some v1"
    by (auto simp: normalize_routing_def split: option.splits)
  have nn: "jidx ''routing'' u \<noteq> JNull"
    using u by (cases v) (auto simp: jidx_def split: if_splits option.splits)
  then obtain ms where ms: "u = JObj ms" by (cases u) (auto simp: jidx_def)
  then obtain r where r: "map_of ms ''routing'' = Some r" "jidx ''routing'' u = r" "r \<noteq> JNull"
    using nn by (auto simp: jidx_def split: option.splits)
  show ?thesis
  proof (cases "as_array (jidx ''rules'' r)")
    case None
    then obtain r' where r': "jset ''rules'' (JArr []) r = Some r'" "jset ''routing'' r' u = Some v1"
      using n r by (auto split: option.splits)
    then obtain rs where "r = JObj rs" using r(3) by (cases r) auto
    with r' ms show ?thesis by (auto simp: well_routed_def)
  next
    case (Some xs)
    then have "v1 = u" using n r by simp
    moreover obtain rs where "r = JObj rs" "map_of rs ''rules'' = Some (JArr xs)"
      using Some by (cases r; cases "jidx ''rules'' r") (auto simp: jidx_def split: option.splits)
    ultimately show ?thesis using ms r by (auto simp: well_routed_def)
  qed
qed

lemma normalize_id: "well_routed v \<Longrightarrow> normalize_routing v = Some v"
  by (auto simp: well_routed_def normalize_routing_def jidx_def)

text \<open>Assigning a member of \<open>routing\<close> in a normalised document.\<close>

lemma set_member:
  assumes "well_routed v" "k \<noteq> ''rules'' \<or> as_array x \<noteq> None"
  shows "\<exists>v'. set_routing_member k x v = Some v' \<and> well_routed v'
    \<and> (\<forall>k'. jidx k' (jidx ''routing'' v') = (if k' = k then x else jidx k' (jidx ''routing'' v)))"
proof -
  obtain ms rs xs where v: "v = JObj ms" "map_of ms ''routing'' = Some (JObj rs)" "map_of rs ''rules'' = Some (JArr xs)"
    using assms by (auto simp: well_routed_def)
  let ?v' = "JObj (members_insert ''routing'' (JObj (members_insert k x rs)) ms)"
  have "set_routing_member k x v = Some ?v'"
    using v by (simp add: set_routing_member_def jidx_def)
  moreover have "\<forall>k'. jidx k' (jidx ''routing'' ?v') = (if k' = k then x else jidx k' (jidx ''routing'' v))"
    using v by (simp add: jidx_def)
  moreover have "well_routed ?v'"
  proof (cases "k = ''rules''")
    case True
    with assms(2) obtain ys where "x = JArr ys" by (cases x) auto
    with True show ?thesis by (auto simp: well_routed_def)
  next
    case False
    with v show ?thesis by (auto simp: well_routed_def)
  qed
  ultimately show ?thesis by blast
qed

lemma set_rules:
  assumes "well_routed v"
  shows "\<exists>v'. set_routing_member ''rules'' (JArr xs) v = Some v' \<and> well_routed v'
    \<and> rules_of v' = xs \<and> disabled_of v' = disabled_of v"
proof -
  obtain v' where "set_routing_member ''rules'' (JArr xs) v = Some v'" "well_routed v'"
    "\<forall>k'. jidx k' (jidx ''routing'' v') = (if k' = ''rules'' then JArr xs else jidx k' (jidx ''routing'' v))"
    using set_member [OF assms, of "''rules''" "JArr xs"] by auto
  then show ?thesis by (intro exI [of _ v']) (simp add: rules_of_def disabled_of_def)
qed

lemma set_disabled:
  assumes "well_routed v"
  shows "\<exists>v'. set_routing_member ''rulesDisabled'' (JArr xs) v = Some v' \<and> well_routed v'
    \<and> rules_of v' = rules_of v \<and> disabled_of v' = strings_of (JArr xs)"
proof -
  obtain v' where "set_routing_member ''rulesDisabled'' (JArr xs) v = Some v'" "well_routed v'"
    "\<forall>k'. jidx k' (jidx ''routing'' v') = (if k' = ''rulesDisabled'' then JArr xs else jidx k' (jidx ''routing'' v))"
    using set_member [OF assms, of "''rulesDisabled''" "JArr xs"] by auto
  then show ?thesis by (intro exI [of _ v']) (simp add: rules_of_def disabled_of_def)
qed

lemma strings_of_map [simp]: "strings_of (JArr (map JStr xs)) = xs"
  by (induction xs) (auto simp: strings_of_def map_filter_def)

lemma set_strings_of: "i \<in> set (strings_of (JArr xs)) \<longleftrightarrow> (\<exists>t \<in> set xs. as_str t = Some i)"
  by (force simp: strings_of_def map_filter_def)

section \<open>Lemmas: reordering\<close>

lemma rule_tag_json [simp]: "rule_tag (rule_def_to_json d) = Some (rd_id d)"
  by (simp add: rule_tag_def rule_def_to_json_def)

lemma has_tag_append [simp]: "has_tag (xs @ ys) i \<longleftrightarrow> has_tag xs i \<or> has_tag ys i"
  by (simp add: has_tag_def)

lemma has_tag_map: "has_tag (map rule_def_to_json ds) i \<longleftrightarrow> i \<in> set (map rd_id ds)"
  by (auto simp: has_tag_def list_ex_iff)

lemma direct_ids_distinct: "distinct (map rd_id direct_rules)"
  by (simp add: direct_rules_def ROUTING_RULES_def is_direct_def connectivity_check_def essential_direct_def
      simple_rule_def)

text \<open>The rules the migration leaves alone.\<close>

definition foreign :: "json \<Rightarrow> bool" where
  "foreign r \<longleftrightarrow> (case rule_tag r of Some t \<Rightarrow> t \<notin> set (map rd_id direct_rules) | None \<Rightarrow> True)"

definition kept_defs :: "string list \<Rightarrow> json list \<Rightarrow> rule_def list" where
  "kept_defs disabled rules = filter (\<lambda>d. has_tag rules (rd_id d)
     \<or> rd_default_enabled d \<and> rd_id d \<notin> set disabled) direct_rules"

lemma reorder_eq: "reorder_rules dis rules = map rule_def_to_json (kept_defs dis rules) @ filter foreign rules"
  by (simp add: reorder_rules_def kept_defs_def foreign_def [abs_def])

lemma foreign_json: "d \<in> set direct_rules \<Longrightarrow> \<not> foreign (rule_def_to_json d)"
  by (simp add: foreign_def)

lemma foreign_no_tag: "d \<in> set direct_rules \<Longrightarrow> \<not> has_tag (filter foreign rules) (rd_id d)"
  by (auto simp: has_tag_def list_ex_iff foreign_def)

lemma filter_foreign_kept [simp]: "filter foreign (map rule_def_to_json (kept_defs dis rules)) = []"
  by (auto simp: filter_empty_conv kept_defs_def foreign_json)

lemma inj_direct: "d \<in> set direct_rules \<Longrightarrow> d' \<in> set direct_rules \<Longrightarrow> rd_id d = rd_id d' \<Longrightarrow> d = d'"
  using direct_ids_distinct by (auto simp: distinct_map inj_on_def)

lemma has_tag_reordered:
  assumes "d \<in> set direct_rules"
  shows "has_tag (reorder_rules dis rules) (rd_id d) \<longleftrightarrow> d \<in> set (kept_defs dis rules)"
proof -
  have "rd_id d \<in> rd_id ` set (kept_defs dis rules) \<longleftrightarrow> d \<in> set (kept_defs dis rules)"
    using inj_direct [OF _ assms] by (auto simp: kept_defs_def)
  then show ?thesis
    using foreign_no_tag [OF assms, of rules] by (simp add: reorder_eq has_tag_map)
qed

lemma kept_stable:
  "kept_defs (reconcile_disabled (reorder_rules dis rules) dis) (reorder_rules dis rules) = kept_defs dis rules"
proof -
  let ?R = "reorder_rules dis rules"
  have "has_tag ?R (rd_id d) \<or> rd_default_enabled d \<and> rd_id d \<notin> set (reconcile_disabled ?R dis)
      \<longleftrightarrow> has_tag rules (rd_id d) \<or> rd_default_enabled d \<and> rd_id d \<notin> set dis"
    if "d \<in> set direct_rules" for d
    using has_tag_reordered [OF that, of dis rules] that
    by (auto simp: reconcile_disabled_def kept_defs_def)
  then show ?thesis by (simp add: kept_defs_def cong: filter_cong)
qed

lemma reorder_stable:
  "reorder_rules (reconcile_disabled (reorder_rules dis rules) dis) (reorder_rules dis rules) = reorder_rules dis rules"
  by (subst reorder_eq) (simp add: kept_stable, simp add: reorder_eq)

lemma reconcile_stable: "reconcile_disabled R (reconcile_disabled R dis) = reconcile_disabled R dis"
  by (simp add: reconcile_disabled_def)

text \<open>What the migration computes.\<close>

lemma ensure_result:
  assumes "ensure_direct_rules_value v = Some (b, v')"
  obtains v1 where "normalize_routing v = Some v1" "well_routed v'"
    and "rules_of v' = reorder_rules (disabled_of v1) (rules_of v1)"
    and "disabled_of v' = reconcile_disabled (rules_of v') (disabled_of v1)"
    and "\<not> b \<Longrightarrow> v' = v1"
proof -
  obtain v1 where v1: "normalize_routing v = Some v1"
  proof (cases "normalize_routing v")
    case None
    with assms show ?thesis by (simp add: ensure_direct_rules_value_def)
  next
    case (Some x)
    then show ?thesis by (rule that)
  qed
  have w1: "well_routed v1" by (rule normalize_well [OF v1])
  let ?R = "reorder_rules (disabled_of v1) (rules_of v1)"
  let ?D = "reconcile_disabled ?R (disabled_of v1)"
  let ?ch = "length ?D \<noteq> length (disabled_of v1)"
  obtain u where u: "set_routing_member ''rulesDisabled'' (JArr (map JStr ?D)) v1 = Some u" "well_routed u"
    "rules_of u = rules_of v1" "disabled_of u = ?D"
    using set_disabled [OF w1, of "map JStr ?D"] by auto
  define v2 where "v2 = (if ?ch then u else v1)"
  have same: "?D = disabled_of v1" if "\<not> ?ch"
    using that unfolding reconcile_disabled_def by (simp add: filter_same_length)
  have v2: "well_routed v2" "rules_of v2 = rules_of v1" "disabled_of v2 = ?D"
    using u w1 same by (cases ?ch; simp add: v2_def)+
  obtain v3 where v3: "set_routing_member ''rules'' (JArr ?R) v2 = Some v3" "well_routed v3"
    "rules_of v3 = ?R" "disabled_of v3 = ?D"
    using set_rules [OF v2(1), of ?R] v2(3) by auto
  have first: "(if ?ch then set_routing_member ''rulesDisabled'' (JArr (map JStr ?D)) v1 else Some v1) = Some v2"
    by (simp add: v2_def u(1))
  define c where "c \<longleftrightarrow> ?R = rules_of v1 \<and> \<not> ?ch"
  have "ensure_direct_rules_value v = (if c then Some (False, v2) else Some (True, v3))"
    unfolding ensure_direct_rules_value_def v1 option.case Let_def first v3(1) c_def by auto
  then consider "c" "b = False" "v' = v2" | "b = True" "v' = v3"
    using assms by (cases c) simp_all
  then show thesis
  proof cases
    case 1
    then have "v' = v1" "?R = rules_of v1" by (auto simp: v2_def c_def)
    then show thesis using that [OF v1] 1 v2 by simp
  next
    case 2
    then show thesis using that [OF v1] v3 by simp
  qed
qed

lemma ensure_total: "well_routed v \<Longrightarrow> \<exists>b v'. ensure_direct_rules_value v = Some (b, v')"
proof -
  assume w: "well_routed v"
  let ?R = "reorder_rules (disabled_of v) (rules_of v)"
  let ?D = "reconcile_disabled ?R (disabled_of v)"
  obtain u where u: "set_routing_member ''rulesDisabled'' (JArr (map JStr ?D)) v = Some u" "well_routed u"
    using set_disabled [OF w] by blast
  obtain u' where u': "set_routing_member ''rules'' (JArr ?R) u = Some u'"
    using set_rules [OF u(2)] by blast
  obtain u'' where u'': "set_routing_member ''rules'' (JArr ?R) v = Some u''"
    using set_rules [OF w] by blast
  show ?thesis
    using u(1) u' u'' by (auto simp: ensure_direct_rules_value_def normalize_id [OF w] Let_def)
qed

text \<open>A document the migration has nothing to do for.\<close>

lemma ensure_fixed:
  assumes "well_routed v" "reorder_rules (disabled_of v) (rules_of v) = rules_of v"
    and "reconcile_disabled (rules_of v) (disabled_of v) = disabled_of v"
  shows "ensure_direct_rules_value v = Some (False, v)"
  using assms by (simp add: ensure_direct_rules_value_def normalize_id Let_def)

lemma normalize_members:
  assumes "normalize_routing v = Some v1"
  shows "rules_of v1 = rules_of v \<and> disabled_of v1 = disabled_of v"
proof -
  obtain u where u: "(if jidx ''routing'' v = JNull then jset ''routing'' (JObj []) v else Some v) = Some u"
    and n: "(if as_array (jidx ''rules'' (jidx ''routing'' u)) \<noteq> None then Some u
          else (case jset ''rules'' (JArr []) (jidx ''routing'' u) of
                  None \<Rightarrow> None | Some r \<Rightarrow> jset ''routing'' r u)) = Some v1"
    using assms by (auto simp: normalize_routing_def split: option.splits)
  have ru: "rules_of u = rules_of v" "disabled_of u = disabled_of v"
    using u by (auto simp: rules_of_def disabled_of_def strings_of_def jidx_def [of "''routing''"] jget_jset jidx_def
        split: if_splits option.splits)
  show ?thesis
  proof (cases "as_array (jidx ''rules'' (jidx ''routing'' u))")
    case None
    then obtain r where r: "jset ''rules'' (JArr []) (jidx ''routing'' u) = Some r" "jset ''routing'' r u = Some v1"
      using n by (auto split: option.splits)
    have "jidx ''routing'' v1 = r" using jget_jset [OF r(2), of "''routing''"] by (simp add: jidx_def)
    moreover have "jidx k r = (if k = ''rules'' then JArr [] else jidx k (jidx ''routing'' u))" for k
      using jget_jset [OF r(1), of k] by (simp add: jidx_def)
    ultimately show ?thesis using None ru by (simp add: rules_of_def disabled_of_def)
  next
    case (Some xs)
    then show ?thesis using n ru by simp
  qed
qed

lemma ensure_spec:
  assumes "ensure_direct_rules_value v = Some (b, v')"
  shows "well_routed v' \<and> rules_of v' = reorder_rules (disabled_of v) (rules_of v)
    \<and> disabled_of v' = reconcile_disabled (rules_of v') (disabled_of v)"
  using assms by (rule ensure_result) (simp add: normalize_members)

lemma toggle_off_spec:
  assumes "toggle_rule_value v d = Some (False, v')"
  shows "well_routed v' \<and> rules_of v' = remove_first (\<lambda>r. rule_tag r = Some (rd_id d)) (rules_of v)
    \<and> rd_id d \<in> set (disabled_of v') \<and> has_tag (rules_of v) (rd_id d)"
proof -
  obtain v1 where v1: "normalize_routing v = Some v1"
    using assms by (cases "normalize_routing v") (simp_all add: toggle_rule_value_def)
  let ?rules = "remove_first (\<lambda>r. rule_tag r = Some (rd_id d)) (rules_of v1)"
  obtain u where u: "set_routing_member ''rules'' (JArr ?rules) v1 = Some u" "well_routed u" "rules_of u = ?rules"
    using set_rules [OF normalize_well [OF v1]] by blast
  define arr where "arr = (case as_array (jidx ''rulesDisabled'' (jidx ''routing'' u)) of Some xs \<Rightarrow> xs | None \<Rightarrow> [])"
  define arr' where "arr' = (if list_ex (\<lambda>t. as_str t = Some (rd_id d)) arr then arr else arr @ [JStr (rd_id d)])"
  obtain u' where u': "set_routing_member ''rulesDisabled'' (JArr arr') u = Some u'" "well_routed u'"
    "rules_of u' = rules_of u" "disabled_of u' = strings_of (JArr arr')"
    using set_disabled [OF u(2)] by blast
  have m: "rd_id d \<in> set (strings_of (JArr arr'))"
    by (auto simp: set_strings_of arr'_def list_ex_iff)
  have add: "add_disabled_marker (rd_id d) u = Some u'"
    using u'(1) unfolding add_disabled_marker_def arr'_def arr_def Let_def .
  have has: "has_tag (rules_of v1) (rd_id d)"
    using assms by (auto simp: toggle_rule_value_def v1 Let_def split: if_splits option.splits)
  then have "v' = u'"
    using assms u(1) add by (simp add: toggle_rule_value_def v1 Let_def)
  then show ?thesis
    using u u' m has normalize_members [OF v1] by simp
qed

lemma remove_first_untagged:
  assumes "length (filter (\<lambda>r. rule_tag r = Some i) rules) \<le> 1"
  shows "\<not> has_tag (remove_first (\<lambda>r. rule_tag r = Some i) rules) i"
  using assms
proof (induction rules)
  case (Cons r rs)
  show ?case
  proof (cases "rule_tag r = Some i")
    case True
    with Cons.prems have "filter (\<lambda>r. rule_tag r = Some i) rs = []" by simp
    with True show ?thesis by (auto simp: has_tag_def list_ex_iff filter_empty_conv)
  next
    case False
    with Cons show ?thesis by (simp add: has_tag_def)
  qed
qed (simp add: has_tag_def)

lemma toggle_on_spec:
  assumes "toggle_rule_value v d = Some (True, v')"
  shows "well_routed v' \<and> rules_of v' = rules_of v @ [rule_def_to_json d] \<and> rd_id d \<notin> set (disabled_of v')"
proof -
  obtain v1 where v1: "normalize_routing v = Some v1"
    using assms by (cases "normalize_routing v") (simp_all add: toggle_rule_value_def)
  let ?rules = "rules_of v1 @ [rule_def_to_json d]"
  obtain u where u: "set_routing_member ''rules'' (JArr ?rules) v1 = Some u" "well_routed u" "rules_of u = ?rules"
    using set_rules [OF normalize_well [OF v1]] by blast
  have rm: "remove_disabled_marker (rd_id d) u = Some v'"
    using assms u(1) by (auto simp: toggle_rule_value_def v1 Let_def split: if_splits option.splits)
  have "well_routed v' \<and> rules_of v' = rules_of u \<and> rd_id d \<notin> set (disabled_of v')"
  proof (cases "as_array (jidx ''rulesDisabled'' (jidx ''routing'' u))")
    case None
    then show ?thesis using rm u by (simp add: remove_disabled_marker_def disabled_of_def strings_of_def)
  next
    case (Some arr)
    let ?arr = "filter (\<lambda>t. as_str t \<noteq> Some (rd_id d)) arr"
    obtain u' where "set_routing_member ''rulesDisabled'' (JArr ?arr) u = Some u'" "well_routed u'"
      "rules_of u' = rules_of u" "disabled_of u' = strings_of (JArr ?arr)"
      using set_disabled [OF u(2)] by blast
    then show ?thesis using rm Some by (auto simp: remove_disabled_marker_def strings_of_def map_filter_def)
  qed
  then show ?thesis using u normalize_members [OF v1] by simp
qed

definition sample_base :: json where
  "sample_base = JObj [(''routing'', JObj [(''rules'', JArr [rule_def_to_json connectivity_check])])]"

section \<open>Properties\<close>

text \<open>
  Also: the migration puts the document into its normal form: the built-in direct rules come first, in
  the order of the table and with their current definitions, namely those that were present and those
  enabled by default that the user has not switched off; all other rules follow in their old order; and
  the list of switched-off rules keeps exactly the ids that are not in force.
\<close>

theorem migration_normal_form:
  assumes "ensure_direct_rules_value v = Some (b, v')"
  shows "rules_of v' =
      map rule_def_to_json (filter (\<lambda>d. has_tag (rules_of v) (rd_id d)
          \<or> rd_default_enabled d \<and> rd_id d \<notin> set (disabled_of v)) direct_rules)
      @ filter foreign (rules_of v)
    \<and> disabled_of v' = filter (\<lambda>i. \<not> has_tag (rules_of v') i) (disabled_of v)"
  using ensure_spec [OF assms] by (simp add: reorder_eq kept_defs_def reconcile_disabled_def)

theorem migration_normal_form_witness:
  "\<exists>b v'. ensure_direct_rules_value sample_base = Some (b, v') \<and>
     rules_of v' = map rule_def_to_json (filter (\<lambda>d. has_tag (rules_of sample_base) (rd_id d)
          \<or> rd_default_enabled d \<and> rd_id d \<notin> set (disabled_of sample_base)) direct_rules)
      @ filter foreign (rules_of sample_base)"
proof -
  have "well_routed sample_base" by (simp add: well_routed_def sample_base_def)
  then obtain b v' where e: "ensure_direct_rules_value sample_base = Some (b, v')"
    using ensure_total by blast
  from migration_normal_form [OF e] e show ?thesis by blast
qed

text \<open>
  C16: the migration is idempotent: run on its own result it reports no change and changes nothing, so
  opening the menu again neither writes the file nor restarts the core.
\<close>

theorem migration_idempotent:
  assumes "ensure_direct_rules_value v = Some (b, v')"
  shows "ensure_direct_rules_value v' = Some (False, v')"
proof (rule ensure_fixed)
  note s = ensure_spec [OF assms]
  show "well_routed v'" using s by simp
  show "reorder_rules (disabled_of v') (rules_of v') = rules_of v'"
    using s reorder_stable [of "disabled_of v" "rules_of v"] by simp
  show "reconcile_disabled (rules_of v') (disabled_of v') = disabled_of v'"
    using s by (simp add: reconcile_stable)
qed

theorem migration_idempotent_witness:
  "\<exists>b v'. ensure_direct_rules_value sample_base = Some (b, v') \<and> ensure_direct_rules_value v' = Some (False, v')"
proof -
  have "well_routed sample_base" by (simp add: well_routed_def sample_base_def)
  then obtain b v' where e: "ensure_direct_rules_value sample_base = Some (b, v')"
    using ensure_total by blast
  from migration_idempotent [OF e] e show ?thesis by blast
qed

text \<open>
  C17: a rule switched off stays off: where a rule occurs once, switching it off and running the
  migration leaves it out, whether or not it is enabled by default, and keeps it marked as switched
  off.
\<close>

theorem switched_off_stays_off:
  assumes "toggle_rule_value v d = Some (False, v1)" "ensure_direct_rules_value v1 = Some (b, v2)"
    and "length (filter (\<lambda>r. rule_tag r = Some (rd_id d)) (rules_of v)) \<le> 1"
  shows "\<not> has_tag (rules_of v2) (rd_id d) \<and> rd_id d \<in> set (disabled_of v2)"
proof -
  note t = toggle_off_spec [OF assms(1)] and e = ensure_spec [OF assms(2)]
  have no: "\<not> has_tag (rules_of v1) (rd_id d)"
    using t remove_first_untagged [OF assms(3)] by simp
  have "\<not> has_tag (rules_of v2) (rd_id d)"
  proof
    assume "has_tag (rules_of v2) (rd_id d)"
    then have "rd_id d \<in> set (map rd_id (kept_defs (disabled_of v1) (rules_of v1)))
        \<or> has_tag (filter foreign (rules_of v1)) (rd_id d)"
      using e by (simp add: reorder_eq has_tag_map)
    with no t show False by (auto simp: kept_defs_def has_tag_def list_ex_iff)
  qed
  then show ?thesis using e t by (simp add: reconcile_disabled_def)
qed

theorem switched_off_stays_off_witness:
  "\<exists>v1 b v2. toggle_rule_value sample_base connectivity_check = Some (False, v1)
     \<and> ensure_direct_rules_value v1 = Some (b, v2) \<and> \<not> has_tag (rules_of v2) ''connectivity_check''"
proof -
  have "\<exists>v1. toggle_rule_value sample_base connectivity_check = Some (False, v1)"
    by (simp add: toggle_rule_value_def normalize_routing_def sample_base_def jidx_def rules_of_def has_tag_def
        set_routing_member_def add_disabled_marker_def)
  then obtain v1 where t: "toggle_rule_value sample_base connectivity_check = Some (False, v1)" by blast
  then obtain b v2 where e: "ensure_direct_rules_value v1 = Some (b, v2)"
    using toggle_off_spec ensure_total by blast
  have "length (filter (\<lambda>r. rule_tag r = Some (rd_id connectivity_check)) (rules_of sample_base)) \<le> 1"
    by (simp add: sample_base_def rules_of_def jidx_def)
  from switched_off_stays_off [OF t e this] t e show ?thesis
    by (auto simp: connectivity_check_def)
qed

end
