(* ===== verification/IpAddr.thy ===== *)
theory IpAddr
  imports Prelude "HOL-Library.Word"
begin

text \<open>
  \<open>std::net::IpAddr\<close> as the sources use it: the parser behind \<open>str::parse\<close> and the printer behind
  \<open>to_string\<close>, for both families. A reader consumes a literal at the front of the text and returns its value
  and the rest, the way the standard library's parser moves its cursor. The lemmas show that a printed address
  is read back as itself.
\<close>

section \<open>Addresses\<close>

datatype ip_addr = V4 "8 word" "8 word" "8 word" "8 word" | V6 "16 word list"

fun wf_ip :: "ip_addr \<Rightarrow> bool" where
  "wf_ip (V4 a b c d) = True"
| "wf_ip (V6 gs) = (length gs = 8)"

section \<open>Reading\<close>

definition read_number :: "(char \<Rightarrow> bool) \<Rightarrow> nat \<Rightarrow> bool \<Rightarrow> (string \<Rightarrow> nat) \<Rightarrow> nat \<Rightarrow> string \<Rightarrow> (nat \<times> string) option" where
  "read_number dig max_digits allow_zero_prefix val limit s =
     (let ds = takeWhile dig s
      in if ds = [] \<or> length ds > max_digits \<or> (\<not> allow_zero_prefix \<and> hd ds = CHR ''0'' \<and> length ds > 1) \<or> val ds > limit
         then None else Some (val ds, dropWhile dig s))"

definition read_separator :: "char \<Rightarrow> nat \<Rightarrow> (string \<Rightarrow> 'a option) \<Rightarrow> string \<Rightarrow> 'a option" where
  "read_separator sep index inner s =
     (if index > 0 then (case s of c # cs \<Rightarrow> if c = sep then inner cs else None | [] \<Rightarrow> None) else inner s)"

definition read_octet :: "string \<Rightarrow> (nat \<times> string) option" where
  "read_octet = read_number is_ascii_digit 3 False dec_value 255"

definition read_ipv4 :: "string \<Rightarrow> ((nat \<times> nat \<times> nat \<times> nat) \<times> string) option" where
  "read_ipv4 s =
     Option.bind (read_separator (CHR ''.'') 0 read_octet s) (\<lambda>(a, s1).
     Option.bind (read_separator (CHR ''.'') 1 read_octet s1) (\<lambda>(b, s2).
     Option.bind (read_separator (CHR ''.'') 2 read_octet s2) (\<lambda>(c, s3).
     Option.bind (read_separator (CHR ''.'') 3 read_octet s3) (\<lambda>(d, s4).
     Some ((a, b, c, d), s4)))))"

definition hex_digit_value :: "char \<Rightarrow> nat" where
  "hex_digit_value c =
     (if is_ascii_digit c then of_char c - 48
      else if 97 \<le> (of_char c :: nat) then of_char c - 87 else of_char c - 55)"

definition hex_value :: "string \<Rightarrow> nat" where
  "hex_value s = foldl (\<lambda>n c. 16 * n + hex_digit_value c) 0 s"

definition read_hex_group :: "string \<Rightarrow> (nat \<times> string) option" where
  "read_hex_group = read_number is_ascii_hexdigit 4 True hex_value 65535"

text \<open>Up to \<open>limit\<close> groups, the last two possibly written as an IPv4 address.\<close>

function read_groups :: "nat \<Rightarrow> nat \<Rightarrow> string \<Rightarrow> 16 word list \<times> bool \<times> string" where
  "read_groups i limit s =
     (if i \<ge> limit then ([], False, s)
      else (case (if i < limit - 1 then read_separator (CHR '':'') i read_ipv4 s else None) of
              Some ((a, b, c, d), r) \<Rightarrow> ([of_nat (256 * a + b), of_nat (256 * c + d)], True, r)
            | None \<Rightarrow>
                (case read_separator (CHR '':'') i read_hex_group s of
                   Some (g, r) \<Rightarrow> (let (gs, v4, r') = read_groups (i + 1) limit r in (of_nat g # gs, v4, r'))
                 | None \<Rightarrow> ([], False, s))))"
  by pat_completeness auto
termination by (relation "measure (\<lambda>(i, limit, s). limit - i)") auto

declare read_groups.simps [simp del]

definition read_ipv6 :: "string \<Rightarrow> (16 word list \<times> string) option" where
  "read_ipv6 s =
     (let (h, head_ipv4, r) = read_groups 0 8 s
      in if length h = 8 then Some (h, r)
         else if head_ipv4 then None
         else (case r of
                 c # d # r' \<Rightarrow>
                   if c = CHR '':'' \<and> d = CHR '':'' then
                     (let (t, _, r'') = read_groups 0 (8 - (length h + 1)) r'
                      in Some (h @ replicate (8 - (length h + length t)) 0 @ t, r''))
                   else None
               | _ \<Rightarrow> None))"

text \<open>\<open>str::parse\<close>: the literal must use up the text. \<open>Ipv4Addr\<close> refuses texts of more than 15 bytes at once.\<close>

definition parse_ipv4 :: "string \<Rightarrow> ip_addr option" where
  "parse_ipv4 s =
     (if length s > 15 then None
      else (case read_ipv4 s of
              Some ((a, b, c, d), []) \<Rightarrow> Some (V4 (of_nat a) (of_nat b) (of_nat c) (of_nat d))
            | _ \<Rightarrow> None))"

definition parse_ipv6 :: "string \<Rightarrow> ip_addr option" where
  "parse_ipv6 s = (case read_ipv6 s of Some (gs, []) \<Rightarrow> Some (V6 gs) | _ \<Rightarrow> None)"

definition parse_ip :: "string \<Rightarrow> ip_addr option" where
  "parse_ip s =
     (case read_ipv4 s of
        Some ((a, b, c, d), r) \<Rightarrow> if r = [] then Some (V4 (of_nat a) (of_nat b) (of_nat c) (of_nat d)) else None
      | None \<Rightarrow> parse_ipv6 s)"

section \<open>Printing\<close>

definition hex_char :: "nat \<Rightarrow> char" where
  "hex_char d = char_of (if d < 10 then 48 + d else 87 + d)"

fun hex_str :: "nat \<Rightarrow> string" where
  "hex_str n = (if n < 16 then [hex_char n] else hex_str (n div 16) @ [hex_char (n mod 16)])"

declare hex_str.simps [simp del]

definition v4_str :: "8 word \<Rightarrow> 8 word \<Rightarrow> 8 word \<Rightarrow> 8 word \<Rightarrow> string" where
  "v4_str a b c d = nat_str (unat a) @ ''.'' @ nat_str (unat b) @ ''.'' @ nat_str (unat c) @ ''.'' @ nat_str (unat d)"

definition fmt_subslice :: "16 word list \<Rightarrow> string" where
  "fmt_subslice gs = join '':'' (map (\<lambda>g. hex_str (unat g)) gs)"

text \<open>The first of the longest runs of zero groups, as start and length. The loop carries the longest run
  seen so far and the current one.\<close>

fun zero_span :: "nat \<Rightarrow> nat \<times> nat \<Rightarrow> nat \<times> nat \<Rightarrow> 16 word list \<Rightarrow> nat \<times> nat" where
  "zero_span i longest current [] = longest"
| "zero_span i longest current (g # gs) =
     (if g = 0 then
        (let current' = (if snd current = 0 then i else fst current, snd current + 1)
         in zero_span (i + 1) (if snd current' > snd longest then current' else longest) current' gs)
      else zero_span (i + 1) longest (0, 0) gs)"

definition v6_str :: "16 word list \<Rightarrow> string" where
  "v6_str gs =
     (if take 5 gs = replicate 5 0 \<and> gs ! 5 = 0xFFFF then
        ''::ffff:'' @ v4_str (ucast (drop_bit 8 (gs ! 6))) (ucast (gs ! 6)) (ucast (drop_bit 8 (gs ! 7))) (ucast (gs ! 7))
      else
        (let (start, n) = zero_span 0 (0, 0) (0, 0) gs
         in if n > 1 then fmt_subslice (take start gs) @ ''::'' @ fmt_subslice (drop (start + n) gs)
            else fmt_subslice gs))"

fun ip_str :: "ip_addr \<Rightarrow> string" where
  "ip_str (V4 a b c d) = v4_str a b c d"
| "ip_str (V6 gs) = v6_str gs"

section \<open>Reading numbers back\<close>

text \<open>What follows a number must not continue it.\<close>

definition stops :: "(char \<Rightarrow> bool) \<Rightarrow> string \<Rightarrow> bool" where
  "stops p s \<longleftrightarrow> (case s of c # _ \<Rightarrow> \<not> p c | [] \<Rightarrow> True)"

lemma read_number_ok:
  assumes "list_all dig ds" "ds \<noteq> []" "stops dig r" "length ds \<le> m" "z \<or> hd ds \<noteq> CHR ''0'' \<or> length ds = 1" "val ds \<le> limit"
  shows "read_number dig m z val limit (ds @ r) = Some (val ds, r)"
proof -
  have "takeWhile dig (ds @ r) = ds" "dropWhile dig (ds @ r) = r"
    using assms(1,3) by (cases r; simp add: takeWhile_append2 dropWhile_append2 list_all_iff stops_def)+
  with assms show ?thesis by (auto simp: read_number_def Let_def)
qed

lemma nat_str_length: "n < 10 ^ k \<Longrightarrow> k > 0 \<Longrightarrow> length (nat_str n) \<le> k"
proof (induction n arbitrary: k rule: nat_str.induct)
  case (1 n)
  show ?case
  proof (cases "n < 10")
    case False
    then obtain j where k: "k = Suc j" "j > 0" using 1(2,3) by (cases k; cases "k - 1") auto
    then have "n div 10 < 10 ^ j" using 1(2) by (simp add: less_mult_imp_div_less mult.commute)
    with 1(1) [OF False, of j] k False show ?thesis by (subst nat_str.simps) simp
  qed (use 1(3) in \<open>subst nat_str.simps; simp\<close>)
qed

lemma nat_str_hd: "n > 0 \<Longrightarrow> hd (nat_str n) \<noteq> CHR ''0''"
proof (induction n rule: nat_str.induct)
  case (1 n)
  show ?case
  proof (cases "n < 10")
    case True
    have "(of_char (char_of (48 + n) :: char) :: nat) \<noteq> of_char (CHR ''0'')"
      using True 1(2) by (subst of_char_digit) simp_all
    then have "char_of (48 + n) \<noteq> CHR ''0''" by metis
    with True show ?thesis by (subst nat_str.simps) simp
  next
    case False
    with 1(1) have "hd (nat_str (n div 10)) \<noteq> CHR ''0''" by auto
    moreover have "nat_str (n div 10) \<noteq> []" using nat_str_digits by blast
    ultimately show ?thesis using False by (subst nat_str.simps) simp
  qed
qed

lemma read_octet_str:
  assumes "stops is_ascii_digit r"
  shows "read_octet (nat_str (unat (a :: 8 word)) @ r) = Some (unat a, r)"
proof -
  have u: "unat a < 256" using unsigned_less [of a, where ?'a = nat] by simp
  have "hd (nat_str (unat a)) \<noteq> CHR ''0'' \<or> length (nat_str (unat a)) = 1"
    using nat_str_hd [of "unat a"] by (cases "unat a = 0") (simp_all add: nat_str.simps)
  moreover have "length (nat_str (unat a)) \<le> 3" using u by (intro nat_str_length) simp_all
  ultimately show ?thesis
    unfolding read_octet_def using u nat_str_digits [of "unat a"] assms
    by (subst read_number_ok) (simp_all add: dec_value_nat_str)
qed

lemma read_ipv4_str:
  assumes "stops is_ascii_digit r"
  shows "read_ipv4 (v4_str a b c d @ r) = Some ((unat a, unat b, unat c, unat d), r)"
  using assms by (simp add: read_ipv4_def v4_str_def read_separator_def read_octet_str stops_def is_ascii_digit_def)

lemma hex_char_value: "d < 16 \<Longrightarrow> hex_digit_value (hex_char d) = d"
  by (auto simp: hex_digit_value_def hex_char_def is_ascii_digit_def of_char_of)

lemma hex_char_hex: "d < 16 \<Longrightarrow> is_ascii_hexdigit (hex_char d)"
  by (auto simp: hex_char_def is_ascii_hexdigit_def is_ascii_digit_def of_char_of)

lemma hex_str_digits: "list_all is_ascii_hexdigit (hex_str n) \<and> hex_str n \<noteq> []"
proof (induction n rule: hex_str.induct)
  case (1 n)
  then show ?case by (subst (1 2) hex_str.simps) (simp add: hex_char_hex)
qed

lemma hex_value_str: "hex_value (hex_str n) = n"
proof (induction n rule: hex_str.induct)
  case (1 n)
  show ?case
  proof (cases "n < 16")
    case False
    with 1 have "hex_value (hex_str (n div 16)) = n div 16" by simp
    with False show ?thesis by (subst hex_str.simps) (simp add: hex_value_def hex_char_value)
  qed (subst hex_str.simps; simp add: hex_value_def hex_char_value)
qed

lemma hex_str_length: "n < 16 ^ k \<Longrightarrow> k > 0 \<Longrightarrow> length (hex_str n) \<le> k"
proof (induction n arbitrary: k rule: hex_str.induct)
  case (1 n)
  show ?case
  proof (cases "n < 16")
    case False
    then obtain j where k: "k = Suc j" "j > 0" using 1(2,3) by (cases k; cases "k - 1") auto
    then have "n div 16 < 16 ^ j" using 1(2) by (simp add: less_mult_imp_div_less mult.commute)
    with 1(1) [OF False, of j] k False show ?thesis by (subst hex_str.simps) simp
  qed (use 1(3) in \<open>subst hex_str.simps; simp\<close>)
qed

lemma read_hex_group_str:
  assumes "stops is_ascii_hexdigit r"
  shows "read_hex_group (hex_str (unat (g :: 16 word)) @ r) = Some (unat g, r)"
proof -
  have u: "unat g < 65536" using unsigned_less [of g, where ?'a = nat] by simp
  have "length (hex_str (unat g)) \<le> 4" using u by (intro hex_str_length) simp_all
  then show ?thesis
    unfolding read_hex_group_def using u hex_str_digits [of "unat g"] assms
    by (subst read_number_ok) (simp_all add: hex_value_str)
qed


section \<open>Reading groups back\<close>

text \<open>No IPv4 address is read where there is no dot.\<close>

lemma read_separator_rest:
  assumes "\<And>s v r. inner s = Some (v, r) \<Longrightarrow> set r \<subseteq> set s" "read_separator sep i inner s = Some (v, r)"
  shows "set r \<subseteq> set s"
  using assms(2) by (auto simp: read_separator_def split: if_splits list.splits dest: assms(1))

lemma read_octet_rest: "read_octet s = Some (v, r) \<Longrightarrow> set r \<subseteq> set s"
  by (auto simp: read_octet_def read_number_def Let_def split: if_splits dest: set_dropWhileD)

lemma read_ipv4_dot: "CHR ''.'' \<notin> set s \<Longrightarrow> read_ipv4 s = None"
proof (cases "read_octet s")
  case (Some p)
  assume "CHR ''.'' \<notin> set s"
  then have "CHR ''.'' \<notin> set (snd p)" using read_octet_rest [of s "fst p" "snd p"] Some by auto
  then show ?thesis using Some by (cases p; cases "snd p") (auto simp: read_ipv4_def read_separator_def)
qed (simp add: read_ipv4_def read_separator_def)

lemma read_octet_none: "stops is_ascii_digit s \<Longrightarrow> read_octet s = None"
  by (cases s) (simp_all add: read_octet_def read_number_def stops_def)

lemma read_hex_none: "stops is_ascii_hexdigit s \<Longrightarrow> read_hex_group s = None"
  by (cases s) (simp_all add: read_hex_group_def read_number_def stops_def)

lemma read_sep_v4_none: "CHR ''.'' \<notin> set s \<Longrightarrow> read_separator c i read_ipv4 s = None"
  by (auto simp: read_separator_def read_ipv4_dot split: list.splits)

text \<open>The text of a list of groups, of which the first is preceded by a colon unless it is the first of all.\<close>

definition groups_from :: "nat \<Rightarrow> 16 word list \<Rightarrow> string" where
  "groups_from i gs = (if i = 0 \<or> gs = [] then fmt_subslice gs else CHR '':'' # fmt_subslice gs)"

lemma groups_from_simps:
  "groups_from i [] = []"
  "groups_from i (g # gs) = (if i = 0 then [] else '':'') @ hex_str (unat g) @ groups_from (Suc i) gs"
  by (cases gs; simp add: groups_from_def fmt_subslice_def)+

lemma groups_from_0: "groups_from 0 gs = fmt_subslice gs"
  by (simp add: groups_from_def)

lemma hex_no_dot: "CHR ''.'' \<notin> set (hex_str n)"
  using hex_str_digits [of n] by (auto simp: list_all_iff is_ascii_hexdigit_def is_ascii_digit_def)

lemma groups_no_dot: "CHR ''.'' \<notin> set (groups_from i gs)"
  by (induction gs arbitrary: i) (auto simp: groups_from_simps hex_no_dot)

text \<open>After the groups comes the end of the text or a double colon.\<close>

definition after_groups :: "string \<Rightarrow> bool" where
  "after_groups r \<longleftrightarrow> CHR ''.'' \<notin> set r \<and> (r = [] \<or> (\<exists>t. r = ''::'' @ t))"

lemma after_groups_stops: "after_groups r \<Longrightarrow> stops is_ascii_hexdigit (groups_from (Suc i) gs @ r)"
  by (cases gs) (auto simp: groups_from_simps stops_def after_groups_def is_ascii_hexdigit_def is_ascii_digit_def)

lemma read_sep_hex_none: "after_groups r \<Longrightarrow> read_separator (CHR '':'') i read_hex_group r = None"
  by (auto simp: read_separator_def after_groups_def stops_def is_ascii_hexdigit_def is_ascii_digit_def
      intro!: read_hex_none split: list.splits)

lemma read_groups_back:
  "i + length gs \<le> limit \<Longrightarrow> after_groups r \<Longrightarrow> read_groups i limit (groups_from i gs @ r) = (gs, False, r)"
proof (induction gs arbitrary: i)
  case Nil
  have "CHR ''.'' \<notin> set r" using Nil(2) by (simp add: after_groups_def)
  then show ?case
    using read_sep_hex_none [OF Nil(2), of i]
    by (subst read_groups.simps) (simp add: groups_from_simps read_sep_v4_none)
next
  case (Cons g gs)
  have "read_separator (CHR '':'') i read_hex_group (groups_from i (g # gs) @ r) = Some (unat g, groups_from (Suc i) gs @ r)"
    using read_hex_group_str [OF after_groups_stops [OF Cons.prems(2)], of g i gs]
    by (cases "i = 0") (simp_all add: groups_from_simps read_separator_def)
  moreover have "CHR ''.'' \<notin> set (groups_from i (g # gs) @ r)"
    using groups_no_dot [of i "g # gs"] Cons.prems(2) by (simp add: after_groups_def)
  ultimately show ?case
    using Cons.IH [of "Suc i"] Cons.prems by (subst read_groups.simps) (simp add: read_sep_v4_none)
qed

section \<open>The run of zeros\<close>

lemma zero_span_zeros:
  assumes "\<And>k. k < snd cur \<Longrightarrow> fst cur + k < i \<and> all ! (fst cur + k) = 0" "snd cur > 0 \<Longrightarrow> fst cur + snd cur = i"
    and "fst best + snd best \<le> i \<and> (\<forall>k < snd best. all ! (fst best + k) = 0)"
    and "drop i all = gs" "i \<le> length all" "zero_span i best cur gs = (start, n)"
  shows "start + n \<le> length all \<and> (\<forall>k < n. all ! (start + k) = 0)"
  using assms
proof (induction gs arbitrary: i best cur)
  case Nil
  then show ?case by auto
next
  case (Cons g gs)
  have l: "i < length all" using Cons.prems(4) by (cases "i < length all") auto
  then have i: "i < length all" "all ! i = g" "drop (Suc i) all = gs"
    using Cons.prems(4) Cons_nth_drop_Suc [OF l] by simp_all
  show ?case
  proof (cases "g = 0")
    case True
    let ?cur = "(if snd cur = 0 then i else fst cur, snd cur + 1)"
    have c: "all ! (fst ?cur + k) = 0 \<and> fst ?cur + k < Suc i" if "k < snd ?cur" for k
      using that Cons.prems(1) [of k] Cons.prems(2) i True by (cases "k = snd cur") auto
    show ?thesis
      by (rule Cons.IH [of ?cur "Suc i" "if snd ?cur > snd best then ?cur else best"])
         (use c Cons.prems i True in \<open>auto simp: Let_def\<close>)
  next
    case False
    show ?thesis
      by (rule Cons.IH [of "(0, 0)" "Suc i" best]) (use Cons.prems i False in auto)
  qed
qed

section \<open>The round trip\<close>

lemma parse_ipv6_groups:
  assumes "length gs = 8"
  shows "parse_ipv6 (fmt_subslice gs) = Some (V6 gs)"
  using read_groups_back [of 0 gs 8 "[]"] assms
  by (simp add: parse_ipv6_def read_ipv6_def groups_from_0 after_groups_def)

lemma parse_ipv6_span:
  assumes "length hs + length ts < 7"
  shows "parse_ipv6 (fmt_subslice hs @ ''::'' @ fmt_subslice ts)
    = Some (V6 (hs @ replicate (8 - (length hs + length ts)) 0 @ ts))"
proof -
  have "CHR ''.'' \<notin> set (fmt_subslice ts)" using groups_no_dot [of 0 ts] by (simp add: groups_from_0)
  then have "after_groups (''::'' @ fmt_subslice ts)" by (simp add: after_groups_def)
  with read_groups_back [of 0 hs 8 "''::'' @ fmt_subslice ts"] assms
  have "read_groups 0 8 (fmt_subslice hs @ ''::'' @ fmt_subslice ts) = (hs, False, ''::'' @ fmt_subslice ts)"
    by (simp add: groups_from_0)
  moreover have "read_groups 0 (7 - length hs) (fmt_subslice ts) = (ts, False, [])"
    using read_groups_back [of 0 ts "7 - length hs" "[]"] assms by (simp add: groups_from_0 after_groups_def)
  ultimately show ?thesis using assms by (simp add: parse_ipv6_def read_ipv6_def)
qed

lemma bytes_of_group: "of_nat (256 * unat (ucast (drop_bit 8 g) :: 8 word) + unat (ucast g :: 8 word)) = (g :: 16 word)"
proof -
  have g: "unat g < 65536" using unsigned_less [of g, where ?'a = nat] by simp
  have h: "unat g div 256 mod 256 = unat g div 256" using g by (simp add: less_mult_imp_div_less)
  have "unat (ucast g :: 8 word) = unat g mod 256"
    by (simp add: unsigned_ucast_eq take_bit_eq_mod)
  moreover have "unat (ucast (drop_bit 8 g) :: 8 word) = unat g div 256"
    using h by (simp add: unsigned_ucast_eq take_bit_eq_mod drop_bit_eq_div unat_div)
  ultimately have "256 * unat (ucast (drop_bit 8 g) :: 8 word) + unat (ucast g :: 8 word) = unat g"
    by simp
  then show ?thesis by simp
qed

lemma parse_ipv6_mapped:
  assumes "length gs = 8" "take 5 gs = replicate 5 0" "gs ! 5 = 0xFFFF"
  shows "parse_ipv6 (''::ffff:'' @ v4_str (ucast (drop_bit 8 (gs ! 6))) (ucast (gs ! 6)) (ucast (drop_bit 8 (gs ! 7))) (ucast (gs ! 7))) = Some (V6 gs)"
proof -
  let ?q = "v4_str (ucast (drop_bit 8 (gs ! 6))) (ucast (gs ! 6)) (ucast (drop_bit 8 (gs ! 7))) (ucast (gs ! 7))"
  have z: "stops is_ascii_hexdigit (CHR '':'' # s)" "stops is_ascii_digit (CHR '':'' # s)"
    "stops is_ascii_digit (CHR ''f'' # s)" for s by (simp_all add: stops_def is_ascii_hexdigit_def is_ascii_digit_def)
  have hd: "read_groups 0 8 (''::ffff:'' @ ?q) = ([], False, ''::ffff:'' @ ?q)"
    using z by (subst read_groups.simps) (simp add: read_separator_def read_ipv4_def read_octet_none read_hex_none)
  have f: "read_hex_group (''ffff:'' @ ?q) = Some (65535, CHR '':'' # ?q)"
  proof -
    have "hex_str (unat (0xFFFF :: 16 word)) = ''ffff''" by (simp add: hex_str.simps hex_char_def) code_simp
    then show ?thesis using read_hex_group_str [OF z(1), of "0xFFFF" ?q] by simp
  qed
  have v: "read_ipv4 ?q = Some ((unat (ucast (drop_bit 8 (gs ! 6)) :: 8 word), unat (ucast (gs ! 6) :: 8 word),
      unat (ucast (drop_bit 8 (gs ! 7)) :: 8 word), unat (ucast (gs ! 7) :: 8 word)), [])"
    using read_ipv4_str [of "[]" "ucast (drop_bit 8 (gs ! 6))"] by (simp add: stops_def)
  have q: "read_groups 1 7 (CHR '':'' # ?q) = ([gs ! 6, gs ! 7], True, [])"
    using bytes_of_group [of "gs ! 6"] bytes_of_group [of "gs ! 7"] by (subst read_groups.simps) (simp add: read_separator_def v)
  have tl: "read_groups 0 7 (''ffff:'' @ ?q) = ([0xFFFF, gs ! 6, gs ! 7], True, [])"
    using z f q by (subst read_groups.simps) (simp add: read_separator_def read_ipv4_def read_octet_none)
  have "gs = take 5 gs @ [gs ! 5, gs ! 6, gs ! 7]"
    using assms(1) by (auto simp: list_eq_iff_nth_eq nth_append nth_Cons' less_Suc_eq numeral_eq_Suc)
  then have "gs = replicate 5 0 @ [0xFFFF, gs ! 6, gs ! 7]" using assms by simp
  then show ?thesis using hd tl by (simp add: parse_ipv6_def read_ipv6_def)
qed

lemma split_span:
  assumes "start + n \<le> length gs" "\<forall>k < n. gs ! (start + k) = 0"
  shows "take start gs @ replicate n 0 @ drop (start + n) gs = gs"
proof -
  have "take n (drop start gs) = replicate n 0"
    using assms by (auto simp: list_eq_iff_nth_eq)
  then show ?thesis by (metis append_take_drop_id drop_drop add.commute)
qed

lemma parse_ipv6_str: "length gs = 8 \<Longrightarrow> parse_ipv6 (v6_str gs) = Some (V6 gs)"
proof (cases "take 5 gs = replicate 5 0 \<and> gs ! 5 = 0xFFFF")
  case False
  assume l: "length gs = 8"
  obtain start n where sp: "zero_span 0 (0, 0) (0, 0) gs = (start, n)" by fastforce
  have z: "start + n \<le> length gs" "\<forall>k < n. gs ! (start + k) = 0"
    using zero_span_zeros [of "(0, 0)" 0 gs "(0, 0)" gs start n] sp by auto
  show ?thesis
  proof (cases "n > 1")
    case True
    have "parse_ipv6 (fmt_subslice (take start gs) @ ''::'' @ fmt_subslice (drop (start + n) gs))
      = Some (V6 (take start gs @ replicate n 0 @ drop (start + n) gs))"
      using parse_ipv6_span [of "take start gs" "drop (start + n) gs"] z(1) l True by simp
    with split_span [OF z] True False sp show ?thesis by (auto simp: v6_str_def)
  qed (use False sp l in \<open>auto simp: v6_str_def parse_ipv6_groups\<close>)
qed (use parse_ipv6_mapped [of gs] in \<open>simp add: v6_str_def\<close>)

lemma v6_not_v4: "length gs = 8 \<Longrightarrow> read_ipv4 (v6_str gs) = None"
proof (cases "take 5 gs = replicate 5 0 \<and> gs ! 5 = 0xFFFF")
  case True
  then show ?thesis
    by (simp add: v6_str_def read_ipv4_def read_separator_def read_octet_none stops_def is_ascii_digit_def)
next
  case False
  then have "CHR ''.'' \<notin> set (v6_str gs)"
    using groups_no_dot [of 0] by (auto simp: v6_str_def groups_from_0 split: prod.splits)
  then show ?thesis by (rule read_ipv4_dot)
qed

theorem parse_ip_str: "wf_ip a \<Longrightarrow> parse_ip (ip_str a) = Some a"
proof (cases a)
  case (V4 x y z w)
  then show ?thesis using read_ipv4_str [of "[]" x y z w] by (simp add: parse_ip_def stops_def)
next
  case (V6 gs)
  assume "wf_ip a"
  with V6 show ?thesis using v6_not_v4 [of gs] parse_ipv6_str [of gs] by (simp add: parse_ip_def)
qed

text \<open>A printed address is ASCII.\<close>

lemma digits_ascii: "c \<in> set (nat_str n) \<Longrightarrow> (of_char c :: nat) < 128"
  using nat_str_digits [of n] by (auto simp: list_all_iff is_ascii_digit_def)

lemma hex_ascii: "c \<in> set (hex_str n) \<Longrightarrow> (of_char c :: nat) < 128"
  using hex_str_digits [of n] by (auto simp: list_all_iff is_ascii_digit_def is_ascii_hexdigit_def)

lemma groups_ascii: "c \<in> set (groups_from i gs) \<Longrightarrow> (of_char c :: nat) < 128"
  by (induction gs arbitrary: i) (auto simp: groups_from_simps hex_ascii split: if_splits)

lemma ip_str_ascii: "c \<in> set (ip_str a) \<Longrightarrow> (of_char c :: nat) < 128"
  using groups_ascii [of c 0]
  by (cases a) (auto simp: v4_str_def v6_str_def digits_ascii groups_from_0 split: if_splits prod.splits)

lemma ip_str_nonempty: "wf_ip a \<Longrightarrow> ip_str a \<noteq> []"
  using parse_ip_str [of a]
  by (auto simp: parse_ip_def parse_ipv6_def read_ipv4_def read_ipv6_def read_separator_def read_octet_none stops_def
      read_groups.simps read_hex_none)

end
