(* ===== verification/CustomDirect.thy ===== *)
theory CustomDirect
  imports RoutingRules IpAddr
begin

text \<open>
  The user's own allow list, \<open>core/xray/custom_direct.rs\<close>: normalising what the user types, the list
  arithmetic, matching a host against an entry, and keeping the list in the routing document.

  IP literals are those of theory IpAddr. \<open>to_lowercase\<close> is exact as far as ASCII
  results are concerned: the only character beyond ASCII with an ASCII lower case is the Kelvin sign;
  other characters beyond ASCII keep their bytes, and an input with one of them is refused as not ASCII
  either way. In the matcher this is exact for entries in ASCII, the only ones the list accepts.
\<close>

section \<open>IP literals\<close>

definition is_ip_or_cidr :: "string \<Rightarrow> bool" where
  "is_ip_or_cidr s =
     (let (addr, mask) = (case split_once (CHR ''/'') s of Some (a, m) \<Rightarrow> (a, Some m) | None \<Rightarrow> (s, None))
      in (case mask of
            Some m \<Rightarrow> (case parse_unsigned 255 m of Some n \<Rightarrow> n \<le> 128 | None \<Rightarrow> False)
          | None \<Rightarrow> True)
         \<and> (parse_ipv4 addr \<noteq> None \<or> parse_ipv6 addr \<noteq> None))"

section \<open>Normalising a domain\<close>

datatype custom_domain_error =
    Empty | HasSchemeOrPath | HasPort | IpNotSupported | SingleLabel | InvalidLabel | TooLong
  | UnsupportedPrefix | NonAscii

definition trim_end_dots :: "string \<Rightarrow> string" where
  "trim_end_dots s = rev (dropWhile (\<lambda>c. c = CHR ''.'') (rev s))"

definition label_char :: "char \<Rightarrow> bool" where
  "label_char c \<longleftrightarrow> (97 \<le> (of_char c :: nat) \<and> (of_char c :: nat) \<le> 122) \<or> is_ascii_digit c \<or> c = CHR ''-''"

fun check_labels :: "string list \<Rightarrow> custom_domain_error option" where
  "check_labels [] = None"
| "check_labels (l # ls) =
     (if length l > 63 then Some TooLong
      else if l = [] \<or> hd l = CHR ''-'' \<or> last l = CHR ''-'' \<or> \<not> list_all label_char l then Some InvalidLabel
      else check_labels ls)"

definition unwrap_prefix :: "string \<Rightarrow> string \<Rightarrow> string" where
  "unwrap_prefix p s = (case strip_prefix p s of Some r \<Rightarrow> r | None \<Rightarrow> s)"

definition split_kind :: "string \<Rightarrow> custom_domain_error + (string \<times> string)" where
  "split_kind body =
     (case split_once (CHR '':'') body of
        None \<Rightarrow> Inr (''domain:'', body)
      | Some (token, rest) \<Rightarrow>
          if token = ''domain'' then Inr (''domain:'', rest)
          else if token = ''full'' then Inr (''full:'', rest)
          else if CHR ''.'' \<in> set token then Inl HasPort
          else Inl UnsupportedPrefix)"

definition check_host :: "string \<Rightarrow> custom_domain_error option" where
  "check_host host =
     (if CHR ''.'' \<notin> set host then Some SingleLabel
      else (case check_labels (split_on (CHR ''.'') host) of
              Some e \<Rightarrow> Some e
            | None \<Rightarrow> if length host > 253 then Some TooLong else None))"

definition normalize_custom_domain :: "string \<Rightarrow> custom_domain_error + string" where
  "normalize_custom_domain input =
     (let trimmed = trim input
      in if trimmed = [] then Inl Empty
         else
           (let without_dot = trim_end_dots (to_lowercase trimmed)
            in if without_dot = [] then Inl Empty
               else if \<not> is_ascii without_dot then Inl NonAscii
               else
                 (let body = unwrap_prefix ''.'' (unwrap_prefix ''*.'' without_dot)
                  in if is_ip_or_cidr body then Inl IpNotSupported
                     else if contains_str ''://'' body \<or> prefix ''http:'' body \<or> prefix ''https:'' body then Inl HasSchemeOrPath
                     else if CHR ''/'' \<in> set body then Inl HasSchemeOrPath
                     else (case split_kind body of
                             Inl e \<Rightarrow> Inl e
                           | Inr (pre, host) \<Rightarrow>
                               (case check_host host of Some e \<Rightarrow> Inl e | None \<Rightarrow> Inr (pre @ host))))))"

section \<open>The list\<close>

definition CUSTOM_DIRECT_LIMIT :: nat where
  "CUSTOM_DIRECT_LIMIT = 100"

datatype custom_add_outcome = Added string | AlreadyExists string | LimitReached

definition append_unique :: "string list \<Rightarrow> string \<Rightarrow> nat \<Rightarrow> string list option" where
  "append_unique xs entry limit = (if length xs \<ge> limit \<or> entry \<in> set xs then None else Some (xs @ [entry]))"

definition remove_at :: "string list \<Rightarrow> nat \<Rightarrow> string list option" where
  "remove_at xs i = (if i \<ge> length xs then None else Some (take i xs @ drop (i + 1) xs))"

section \<open>Matching\<close>

definition normalize_host :: "string \<Rightarrow> string" where
  "normalize_host s = to_lowercase (trim s)"

definition entry_matches_host :: "string \<Rightarrow> string \<Rightarrow> bool" where
  "entry_matches_host entry host =
     (let (exact_only, raw) =
            (case split_once (CHR '':'') entry of
               Some (k, rest) \<Rightarrow>
                 if k = ''full'' then (True, rest) else if k = ''domain'' then (False, rest) else (False, entry)
             | None \<Rightarrow> (False, entry));
          pat = trim raw
      in if pat = [] then False
         else if host = pat then True
         else if exact_only then False
         else length host > length pat \<and> suffix pat host
              \<and> host ! (length host - length pat - 1) = CHR ''.'')"

fun position_of :: "('a \<Rightarrow> bool) \<Rightarrow> 'a list \<Rightarrow> nat option" where
  "position_of P [] = None"
| "position_of P (x # xs) = (if P x then Some 0 else map_option Suc (position_of P xs))"

definition match_custom_direct :: "string list \<Rightarrow> string \<Rightarrow> nat option" where
  "match_custom_direct domains host =
     (let h = normalize_host host
      in if h = [] then None else position_of (\<lambda>entry. entry_matches_host (normalize_host entry) h) domains)"

definition matches_builtin_direct :: "string \<Rightarrow> string option" where
  "matches_builtin_direct host =
     (let h = normalize_host host
      in if h = [] then None
         else map_option rd_id (find (\<lambda>d. list_ex (\<lambda>t. entry_matches_host (normalize_host t) h) (rd_targets d)) direct_rules))"

definition matches_connectivity_check :: "string \<Rightarrow> bool" where
  "matches_connectivity_check host \<longleftrightarrow> matches_builtin_direct host = Some ''connectivity_check''"

section \<open>The rule in the document\<close>

definition custom_direct_rule_json :: "string list \<Rightarrow> json" where
  "custom_direct_rule_json domains = JObj [(''type'', JStr ''field''), (''ruleTag'', JStr ''custom_direct''),
     (''outboundTag'', JStr ''direct''), (''domain'', JArr (map JStr domains))]"

definition remove_rule_by_tag :: "json \<Rightarrow> string \<Rightarrow> bool \<times> json" where
  "remove_rule_by_tag v i =
     (case Option.bind (jpath [''routing'', ''rules''] v) as_array of
        None \<Rightarrow> (False, v)
      | Some rules \<Rightarrow>
          (let kept = filter (\<lambda>r. rule_tag r \<noteq> Some i) rules
           in (length kept \<noteq> length rules,
               case set_routing_member ''rules'' (JArr kept) v of Some v' \<Rightarrow> v' | None \<Rightarrow> v)))"

definition insert_at :: "nat \<Rightarrow> 'a \<Rightarrow> 'a list \<Rightarrow> 'a list" where
  "insert_at i x xs = take i xs @ x # drop i xs"

definition upsert_after :: "json \<Rightarrow> string \<Rightarrow> string \<Rightarrow> json \<Rightarrow> (bool \<times> json) option" where
  "upsert_after v anchor i rule =
     (case normalize_routing v of
        None \<Rightarrow> None
      | Some v1 \<Rightarrow>
          (let rules = filter (\<lambda>r. rule_tag r \<noteq> Some i) (rules_of v1);
               at = (case position_of (\<lambda>r. rule_tag r = Some anchor) rules of Some n \<Rightarrow> n + 1 | None \<Rightarrow> 0)
           in map_option (\<lambda>v'. (v' \<noteq> v, v')) (set_routing_member ''rules'' (JArr (insert_at at rule rules)) v1)))"

definition last_present_builtin_direct_tag :: "json \<Rightarrow> string option" where
  "last_present_builtin_direct_tag v =
     (case filter (\<lambda>i. has_tag (rules_of v) i) (map rd_id direct_rules) of [] \<Rightarrow> None | is \<Rightarrow> Some (last is))"

definition ensure_custom_direct_value :: "json \<Rightarrow> string list \<Rightarrow> (bool \<times> json) option" where
  "ensure_custom_direct_value v domains =
     (if domains = [] then Some (remove_rule_by_tag v ''custom_direct'')
      else upsert_after v (case last_present_builtin_direct_tag v of Some i \<Rightarrow> i | None \<Rightarrow> [])
             ''custom_direct'' (custom_direct_rule_json domains))"

definition custom_direct_domains_from :: "json \<Rightarrow> string list" where
  "custom_direct_domains_from v =
     (case find (\<lambda>r. rule_tag r = Some ''custom_direct'') (rules_of v) of
        Some r \<Rightarrow> strings_of (jidx ''domain'' r)
      | None \<Rightarrow> [])"

section \<open>File operations\<close>

definition commit_domains :: "json \<Rightarrow> string list \<Rightarrow> (xray_world, unit) io" where
  "commit_domains v domains =
     (case ensure_custom_direct_value v domains of
        None \<Rightarrow> failE ''panic''
      | Some (_, v') \<Rightarrow> write_base_json v')"

definition add_custom_direct_entry :: "string \<Rightarrow> (xray_world, custom_add_outcome) io" where
  "add_custom_direct_entry entry =
     bindE read_base_json (\<lambda>v.
       let current = custom_direct_domains_from v
       in if entry \<in> set current then retE (AlreadyExists entry)
          else (case append_unique current entry CUSTOM_DIRECT_LIMIT of
                  None \<Rightarrow> retE LimitReached
                | Some nxt \<Rightarrow> thenE (commit_domains v nxt) (retE (Added entry))))"

definition remove_custom_direct_at :: "nat \<Rightarrow> (xray_world, string) io" where
  "remove_custom_direct_at i =
     bindE read_base_json (\<lambda>v.
       let current = custom_direct_domains_from v
       in case remove_at current i of
            None \<Rightarrow> failE (([CHR 0xE5, CHR 0xBA, CHR 0x8F, CHR 0xE5, CHR 0x8F, CHR 0xB7] @ '' '') @ nat_str i @ ('' '' @ [CHR 0xE8, CHR 0xB6, CHR 0x8A, CHR 0xE7, CHR 0x95, CHR 0x8C, CHR 0xEF, CHR 0xBC, CHR 0x88, CHR 0xE5, CHR 0xBD, CHR 0x93, CHR 0xE5, CHR 0x89, CHR 0x8D] @ '' '') @ nat_str (length current) @ ('' '' @ [CHR 0xE6, CHR 0x9D, CHR 0xA1, CHR 0xEF, CHR 0xBC, CHR 0x89]))
          | Some nxt \<Rightarrow> thenE (commit_domains v nxt) (retE (current ! i)))"

definition list_custom_direct_domains :: "(xray_world, string list) io" where
  "list_custom_direct_domains = bindE read_base_json (\<lambda>v. retE (custom_direct_domains_from v))"

section \<open>Lemmas: the rule in the document\<close>

lemma rule_tag_custom [simp]: "rule_tag (custom_direct_rule_json ds) = Some ''custom_direct''"
  by (simp add: rule_tag_def custom_direct_rule_json_def)

lemma find_untagged: "find P (filter (\<lambda>x. \<not> P x) xs) = None"
  by (auto simp: find_None_iff)

lemma find_insert_at:
  assumes "\<forall>x \<in> set xs. \<not> P x" "P y"
  shows "find P (insert_at i y xs) = Some y"
proof -
  have "find P (as @ y # bs) = Some y" if "\<forall>x \<in> set as. \<not> P x" for as bs
    using that assms(2) by (induction as) auto
  moreover have "\<forall>x \<in> set (take i xs). \<not> P x" using assms(1) by (auto dest: in_set_takeD)
  ultimately show ?thesis by (simp add: insert_at_def)
qed

lemma set_insert_at: "set (insert_at i y xs) = insert y (set xs)"
  by (auto simp: insert_at_def dest: in_set_takeD in_set_dropD)
     (metis append_take_drop_id in_set_conv_decomp set_append Un_iff)

lemma upsert_spec:
  assumes "upsert_after v anchor i rule = Some (b, v')"
  shows "well_routed v' \<and> disabled_of v' = disabled_of v
    \<and> (\<exists>at. rules_of v' = insert_at at rule (filter (\<lambda>r. rule_tag r \<noteq> Some i) (rules_of v))
        \<and> at = (case position_of (\<lambda>r. rule_tag r = Some anchor) (filter (\<lambda>r. rule_tag r \<noteq> Some i) (rules_of v)) of
                  Some n \<Rightarrow> n + 1 | None \<Rightarrow> 0))"
proof -
  obtain v1 where v1: "normalize_routing v = Some v1"
    using assms by (cases "normalize_routing v") (simp_all add: upsert_after_def)
  note m = normalize_members [OF v1]
  let ?rules = "filter (\<lambda>r. rule_tag r \<noteq> Some i) (rules_of v)"
  define at where "at = (case position_of (\<lambda>r. rule_tag r = Some anchor) ?rules of Some n \<Rightarrow> n + 1 | None \<Rightarrow> 0)"
  obtain u where u: "set_routing_member ''rules'' (JArr (insert_at at rule ?rules)) v1 = Some u" "well_routed u"
    "rules_of u = insert_at at rule ?rules" "disabled_of u = disabled_of v1"
    using set_rules [OF normalize_well [OF v1]] by blast
  have "v' = u"
    using assms u(1) unfolding upsert_after_def v1 option.case Let_def m [THEN conjunct1] at_def by simp
  with u m show ?thesis by (auto simp: at_def)
qed

lemma upsert_total: "well_routed v \<Longrightarrow> \<exists>b v'. upsert_after v anchor i rule = Some (b, v')"
proof -
  assume w: "well_routed v"
  show ?thesis
    using set_rules [OF w] unfolding upsert_after_def normalize_id [OF w] option.case Let_def
    by (metis (no_types, lifting) option.map(2))
qed

lemma ensure_custom_total: "well_routed v \<Longrightarrow> \<exists>b v'. ensure_custom_direct_value v ds = Some (b, v')"
  unfolding ensure_custom_direct_value_def
  by (cases "ds = []") (simp_all add: upsert_total)

text \<open>Documents in the normal form of the migration.\<close>

lemma ensure_fixed_form:
  assumes "well_routed v" "rules_of v = map rule_def_to_json K @ F" "list_all foreign F"
    and "K = kept_defs (disabled_of v) (rules_of v)"
    and "\<forall>i \<in> set (disabled_of v). \<not> has_tag (rules_of v) i"
  shows "ensure_direct_rules_value v = Some (False, v)"
proof (rule ensure_fixed [OF assms(1)])
  have "filter foreign (map rule_def_to_json K) = []"
    unfolding assms(4) by (rule filter_foreign_kept)
  moreover have "filter foreign F = F" using assms(3) by (simp add: list_all_iff filter_id_conv)
  ultimately show "reorder_rules (disabled_of v) (rules_of v) = rules_of v"
    unfolding reorder_eq assms(4) [symmetric] using assms(2) by simp
  show "reconcile_disabled (rules_of v) (disabled_of v) = disabled_of v"
    using assms(5) by (simp add: reconcile_disabled_def filter_id_conv)
qed

lemma custom_not_direct: "''custom_direct'' \<notin> set (map rd_id direct_rules)"
  by (simp add: direct_rules_def ROUTING_RULES_def is_direct_def connectivity_check_def essential_direct_def
      simple_rule_def)

lemma direct_not_custom: "d \<in> set direct_rules \<Longrightarrow> rd_id d \<noteq> ''custom_direct''"
  using custom_not_direct by (metis image_eqI set_map)

lemma foreign_custom: "foreign (custom_direct_rule_json ds)"
  using custom_not_direct by (simp add: foreign_def)

lemma kept_cong:
  "(\<And>d. d \<in> set direct_rules \<Longrightarrow> has_tag R (rd_id d) = has_tag R' (rd_id d)) \<Longrightarrow> kept_defs dis R = kept_defs dis R'"
  by (simp add: kept_defs_def cong: filter_cong)

lemma position_of_append:
  "position_of P (xs @ ys) = (case position_of P xs of Some n \<Rightarrow> Some n | None \<Rightarrow> map_option (\<lambda>n. length xs + n) (position_of P ys))"
proof (induction xs)
  case Nil
  show ?case by (cases "position_of P ys") simp_all
next
  case (Cons x xs)
  then show ?case by (cases "position_of P ys") (auto split: option.splits)
qed

lemma position_of_None: "position_of P xs = None \<longleftrightarrow> (\<forall>x \<in> set xs. \<not> P x)"
  by (induction xs) auto

lemma position_last:
  assumes "xs \<noteq> []" "P (last xs)" "\<forall>x \<in> set (butlast xs). \<not> P x"
  shows "position_of P xs = Some (length xs - 1)"
proof -
  have "xs = butlast xs @ [last xs]" using assms(1) by simp
  moreover have "position_of P (butlast xs) = None" using assms(3) by (simp add: position_of_None)
  ultimately show ?thesis
    using assms(2) position_of_append [of P "butlast xs" "[last xs]"] by simp
qed

lemma kept_distinct: "distinct (map rd_id (kept_defs dis R))"
  using direct_ids_distinct by (simp add: kept_defs_def distinct_map_filter)

lemma present_tags_kept:
  assumes "R = map rule_def_to_json (kept_defs dis R') @ filter foreign R''"
  shows "filter (\<lambda>i. has_tag R i) (map rd_id direct_rules) = map rd_id (kept_defs dis R')"
proof -
  have "has_tag R (rd_id d) \<longleftrightarrow> has_tag R' (rd_id d) \<or> rd_default_enabled d \<and> rd_id d \<notin> set dis"
    if "d \<in> set direct_rules" for d
  proof -
    have "rd_id d \<in> rd_id ` set (kept_defs dis R') \<longleftrightarrow> d \<in> set (kept_defs dis R')"
      using inj_direct [OF _ that] by (auto simp: kept_defs_def)
    then show ?thesis
      using assms foreign_no_tag [OF that] that by (simp add: has_tag_map kept_defs_def)
  qed
  then show ?thesis by (simp add: filter_map comp_def kept_defs_def cong: filter_cong)
qed

text \<open>In the normal form the anchor is the last built-in direct rule, so the entry goes right after
  these rules.\<close>

lemma anchor_position:
  assumes R: "rules_of v = map rule_def_to_json (kept_defs dis R') @ filter foreign R''"
    and K: "kept_defs dis R' \<noteq> []"
  shows "position_of (\<lambda>r. rule_tag r = Some (case last_present_builtin_direct_tag v of Some i \<Rightarrow> i | None \<Rightarrow> []))
      (map rule_def_to_json (kept_defs dis R') @ F) = Some (length (kept_defs dis R') - 1)"
proof -
  let ?K = "kept_defs dis R'"
  have tag: "last_present_builtin_direct_tag v = Some (rd_id (last ?K))"
    unfolding last_present_builtin_direct_tag_def present_tags_kept [OF R]
    using K by (metis (no_types, lifting) last_map list.exhaust list.simps(5) map_is_Nil_conv)
  have "position_of (\<lambda>r. rule_tag r = Some (rd_id (last ?K))) (map rule_def_to_json ?K) = Some (length (map rule_def_to_json ?K) - 1)"
  proof (rule position_last)
    show "map rule_def_to_json ?K \<noteq> []" using K by simp
    show "rule_tag (last (map rule_def_to_json ?K)) = Some (rd_id (last ?K))" using K by (simp add: last_map)
    have "rd_id (last ?K) \<notin> set (map rd_id (butlast ?K))"
      using kept_distinct [of dis R'] K
      by (metis append_butlast_last_id distinct_append disjoint_iff list.set_intros(1) list.simps(9) map_append)
    then show "\<forall>x \<in> set (butlast (map rule_def_to_json ?K)). \<not> rule_tag x = Some (rd_id (last ?K))"
      by (auto simp: map_butlast [symmetric]) (metis image_eqI)
  qed
  then show ?thesis by (simp add: tag position_of_append)
qed

lemma filter_custom_kept:
  "filter (\<lambda>r. rule_tag r \<noteq> Some ''custom_direct'') (map rule_def_to_json (kept_defs dis R)) = map rule_def_to_json (kept_defs dis R)"
  by (auto simp: filter_id_conv kept_defs_def direct_not_custom)

text \<open>Adding entries to a migrated document keeps the normal form.\<close>

lemma custom_keeps_form:
  assumes e: "ensure_direct_rules_value v = Some (b, v1)" and ds: "ds \<noteq> []"
    and c: "ensure_custom_direct_value v1 ds = Some (b', v2)"
  shows "\<exists>F. rules_of v2 = map rule_def_to_json (kept_defs (disabled_of v) (rules_of v)) @ F \<and> list_all foreign F
    \<and> well_routed v2 \<and> disabled_of v2 = disabled_of v1
    \<and> (\<forall>i. i \<noteq> ''custom_direct'' \<longrightarrow> has_tag (rules_of v2) i = has_tag (rules_of v1) i)"
proof -
  let ?K = "kept_defs (disabled_of v) (rules_of v)"
  have R: "rules_of v1 = map rule_def_to_json ?K @ filter foreign (rules_of v)"
    using ensure_spec [OF e] by (simp add: reorder_eq)
  define F' where "F' = filter (\<lambda>r. rule_tag r \<noteq> Some ''custom_direct'') (filter foreign (rules_of v))"
  let ?anchor = "case last_present_builtin_direct_tag v1 of Some i \<Rightarrow> i | None \<Rightarrow> []"
  have cut: "filter (\<lambda>r. rule_tag r \<noteq> Some ''custom_direct'') (rules_of v1) = map rule_def_to_json ?K @ F'"
    by (simp only: R filter_append filter_custom_kept F'_def)
  have "upsert_after v1 ?anchor ''custom_direct'' (custom_direct_rule_json ds) = Some (b', v2)"
    using c ds by (simp add: ensure_custom_direct_value_def)
  from upsert_spec [OF this] obtain at where w: "well_routed v2" "disabled_of v2 = disabled_of v1"
    and r2: "rules_of v2 = insert_at at (custom_direct_rule_json ds) (map rule_def_to_json ?K @ F')"
    and at: "at = (case position_of (\<lambda>r. rule_tag r = Some ?anchor) (map rule_def_to_json ?K @ F') of Some n \<Rightarrow> n + 1 | None \<Rightarrow> 0)"
    unfolding cut by blast
  have ge: "length ?K \<le> at"
    using anchor_position [OF R, of F'] at by (cases "?K = []") (auto simp: Suc_le_eq)
  let ?F = "insert_at (at - length ?K) (custom_direct_rule_json ds) F'"
  have "rules_of v2 = map rule_def_to_json ?K @ ?F"
    using ge r2 by (simp add: insert_at_def)
  moreover have "list_all foreign ?F"
    by (auto simp: list_all_iff set_insert_at foreign_custom F'_def)
  moreover have "has_tag (rules_of v2) i = has_tag (rules_of v1) i" if "i \<noteq> ''custom_direct''" for i
  proof -
    have "has_tag (rules_of v2) i \<longleftrightarrow> has_tag (filter (\<lambda>r. rule_tag r \<noteq> Some ''custom_direct'') (rules_of v1)) i"
      using that by (auto simp: r2 cut [symmetric] has_tag_def list_ex_iff set_insert_at)
    with that show ?thesis by (auto simp: has_tag_def list_ex_iff)
  qed
  ultimately show ?thesis using w by blast
qed

lemma custom_written:
  assumes "ensure_custom_direct_value v ds = Some (b, v')" "ds \<noteq> []"
  shows "custom_direct_domains_from v' = ds"
proof -
  have "\<exists>a. upsert_after v a ''custom_direct'' (custom_direct_rule_json ds) = Some (b, v')"
    using assms by (auto simp: ensure_custom_direct_value_def)
  then obtain at where "rules_of v' = insert_at at (custom_direct_rule_json ds)
      (filter (\<lambda>r. rule_tag r \<noteq> Some ''custom_direct'') (rules_of v))"
    using upsert_spec by blast
  then have "find (\<lambda>r. rule_tag r = Some ''custom_direct'') (rules_of v') = Some (custom_direct_rule_json ds)"
    by (simp add: find_insert_at)
  then show ?thesis by (simp add: custom_direct_domains_from_def custom_direct_rule_json_def jidx_def)
qed

section \<open>Properties\<close>

text \<open>
  C18: the allow list and the migration do not fight: on a migrated document, writing a non-empty allow
  list leaves nothing for the migration to do, so the two never move each other's rules and never cause
  alternating writes and core restarts. (The id of the list is never itself marked as switched off.)
\<close>

theorem allow_list_settles:
  assumes "ensure_direct_rules_value v = Some (b, v1)" "ds \<noteq> []"
    and "ensure_custom_direct_value v1 ds = Some (b', v2)" "''custom_direct'' \<notin> set (disabled_of v)"
  shows "ensure_direct_rules_value v2 = Some (False, v2)"
proof -
  let ?K = "kept_defs (disabled_of v) (rules_of v)"
  note s = ensure_spec [OF assms(1)]
  obtain F where F: "rules_of v2 = map rule_def_to_json ?K @ F" "list_all foreign F" "well_routed v2"
    "disabled_of v2 = disabled_of v1" and h: "\<And>i. i \<noteq> ''custom_direct'' \<Longrightarrow> has_tag (rules_of v2) i = has_tag (rules_of v1) i"
    using custom_keeps_form [OF assms(1-3)] by blast
  show ?thesis
  proof (rule ensure_fixed_form [OF F(3,1,2)])
    have "kept_defs (disabled_of v1) (rules_of v1) = ?K"
      using s kept_stable [of "disabled_of v" "rules_of v"] by simp
    moreover have "kept_defs (disabled_of v1) (rules_of v2) = kept_defs (disabled_of v1) (rules_of v1)"
      by (intro kept_cong h direct_not_custom)
    ultimately show "?K = kept_defs (disabled_of v2) (rules_of v2)" using F(4) by simp
    show "\<forall>i \<in> set (disabled_of v2). \<not> has_tag (rules_of v2) i"
    proof
      fix i assume "i \<in> set (disabled_of v2)"
      then have i: "i \<in> set (disabled_of v)" "\<not> has_tag (rules_of v1) i"
        using s F(4) by (auto simp: reconcile_disabled_def)
      then have "i \<noteq> ''custom_direct''" using assms(4) by metis
      with h i(2) show "\<not> has_tag (rules_of v2) i" by blast
    qed
  qed
qed

theorem allow_list_settles_witness:
  "\<exists>b v1 b' v2. ensure_direct_rules_value sample_base = Some (b, v1)
     \<and> ensure_custom_direct_value v1 [''domain:example.org''] = Some (b', v2)
     \<and> ensure_direct_rules_value v2 = Some (False, v2)"
proof -
  have "well_routed sample_base" "''custom_direct'' \<notin> set (disabled_of sample_base)"
    by (simp_all add: well_routed_def sample_base_def disabled_of_def jidx_def strings_of_def)
  then obtain b v1 where e: "ensure_direct_rules_value sample_base = Some (b, v1)"
    using ensure_total by blast
  then have "well_routed v1" using ensure_spec by blast
  then obtain b' v2 where c: "ensure_custom_direct_value v1 [''domain:example.org''] = Some (b', v2)"
    using ensure_custom_total by blast
  from allow_list_settles [OF e _ c \<open>''custom_direct'' \<notin> set (disabled_of sample_base)\<close>] e c show ?thesis by auto
qed

text \<open>
  Also: what is written is what is read: after writing an allow list into a document, reading the list
  back gives exactly the entries in their order; writing the empty list removes the rule, every copy of
  it.
\<close>

theorem allow_list_roundtrip:
  assumes "ensure_custom_direct_value v ds = Some (b, v')"
  shows "custom_direct_domains_from v' = ds \<and> (ds = [] \<longrightarrow> \<not> has_tag (rules_of v') ''custom_direct'')"
proof (cases "ds = []")
  case True
  let ?P = "\<lambda>r. rule_tag r \<noteq> Some ''custom_direct''"
  have v': "v' = snd (remove_rule_by_tag v ''custom_direct'')"
    using assms True by (auto simp: ensure_custom_direct_value_def)
  have "\<not> has_tag (rules_of v') ''custom_direct''"
  proof (cases "Option.bind (jpath [''routing'', ''rules''] v) as_array")
    case None
    then have "rules_of v = []"
      by (auto simp: rules_of_def jidx_def split: option.splits)
    with None show ?thesis by (simp add: v' remove_rule_by_tag_def has_tag_def)
  next
    case (Some rules)
    then obtain r where r: "jget ''routing'' v = Some r" "jget ''rules'' r = Some (JArr rules)"
      by (auto simp: bind_eq_Some_conv split: option.splits elim: as_array.elims)
    then have w: "well_routed v" "rules_of v = rules"
      by (cases v; cases r; simp add: well_routed_def rules_of_def jidx_def)+
    obtain u where "set_routing_member ''rules'' (JArr (filter ?P rules)) v = Some u" "rules_of u = filter ?P rules"
      using set_rules [OF w(1)] by blast
    with Some show ?thesis by (auto simp: v' remove_rule_by_tag_def Let_def has_tag_def list_ex_iff)
  qed
  moreover from this have "find (\<lambda>r. rule_tag r = Some ''custom_direct'') (rules_of v') = None"
    by (auto simp: find_None_iff has_tag_def list_ex_iff)
  ultimately show ?thesis using True by (simp add: custom_direct_domains_from_def)
next
  case False
  then show ?thesis using custom_written [OF assms] by simp
qed

theorem allow_list_roundtrip_witness:
  "\<exists>b v'. ensure_custom_direct_value sample_base [''full:a.b'', ''domain:c.d''] = Some (b, v')
     \<and> custom_direct_domains_from v' = [''full:a.b'', ''domain:c.d'']"
proof -
  have "well_routed sample_base" by (simp add: well_routed_def sample_base_def)
  then obtain b v' where c: "ensure_custom_direct_value sample_base [''full:a.b'', ''domain:c.d''] = Some (b, v')"
    using ensure_custom_total by blast
  from allow_list_roundtrip [OF c] c show ?thesis by blast
qed

text \<open>
  Also: adding an entry: a repeated entry, and any entry once the list holds a hundred, leave the file and
  the core alone; otherwise, when the write succeeds, the stored list is the old one with the entry at
  its end, so it stays free of duplicates and within its limit, and the core is reloaded exactly once.
\<close>

theorem add_entry_outcomes:
  assumes "rw_base w = Base v" "well_routed v"
  shows "let cur = custom_direct_domains_from v; out = add_custom_direct_entry entry w
    in (entry \<in> set cur \<longrightarrow> out = (Inr (AlreadyExists entry), w))
     \<and> (entry \<notin> set cur \<and> CUSTOM_DIRECT_LIMIT \<le> length cur \<longrightarrow> out = (Inr LimitReached, w))
     \<and> (entry \<notin> set cur \<and> length cur < CUSTOM_DIRECT_LIMIT \<and> rw_write_bad w (rw_writes w) = None \<longrightarrow>
        (\<exists>v'. rw_base (snd out) = Base v' \<and> custom_direct_domains_from v' = cur @ [entry]
          \<and> length (custom_direct_domains_from v') \<le> CUSTOM_DIRECT_LIMIT
          \<and> (distinct cur \<longrightarrow> distinct (custom_direct_domains_from v'))
          \<and> rw_reloads (snd out) = rw_reloads w + 1
          \<and> (rw_reload_err w (rw_reloads w) = None \<longrightarrow> fst out = Inr (Added entry))))"
proof -
  let ?cur = "custom_direct_domains_from v"
  obtain b v' where c: "ensure_custom_direct_value v (?cur @ [entry]) = Some (b, v')"
    using ensure_custom_total [OF assms(2)] by blast
  have rt: "custom_direct_domains_from v' = ?cur @ [entry]"
    by (rule custom_written [OF c]) simp
  show ?thesis
    using assms(1) c rt
    by (auto simp: Let_def add_custom_direct_entry_def bindE_def read_base_json_def append_unique_def thenE_apply
        commit_domains_def write_base_json_def persist_base_json_def reload_core_def split: option.splits)
qed

theorem add_entry_outcomes_witness:
  "fst (add_custom_direct_entry ''domain:a.b'' \<lparr>rw_base = Base sample_base, rw_writes = 0, rw_reloads = 0,
     rw_write_bad = (\<lambda>n. None), rw_reload_err = (\<lambda>n. None)\<rparr>) = Inr (Added ''domain:a.b'')"
proof -
  let ?w = "\<lparr>rw_base = Base sample_base, rw_writes = 0, rw_reloads = 0, rw_write_bad = (\<lambda>n. None),
     rw_reload_err = (\<lambda>n. None)\<rparr>"
  have "well_routed sample_base" by (simp add: well_routed_def sample_base_def)
  moreover have "custom_direct_domains_from sample_base = []"
    by (simp add: custom_direct_domains_from_def sample_base_def rules_of_def jidx_def connectivity_check_def)
  ultimately show ?thesis
    using add_entry_outcomes [of ?w sample_base "''domain:a.b''"] by (auto simp: Let_def CUSTOM_DIRECT_LIMIT_def)
qed

section \<open>Lemmas: hosts\<close>

definition valid_label :: "string \<Rightarrow> bool" where
  "valid_label l \<longleftrightarrow> l \<noteq> [] \<and> length l \<le> 63 \<and> hd l \<noteq> CHR ''-'' \<and> last l \<noteq> CHR ''-'' \<and> list_all label_char l"

definition valid_host :: "string \<Rightarrow> bool" where
  "valid_host h \<longleftrightarrow> CHR ''.'' \<in> set h \<and> length h \<le> 253 \<and> (\<forall>l \<in> set (split_on (CHR ''.'') h). valid_label l)"

lemma check_labels_iff: "check_labels ls = None \<longleftrightarrow> (\<forall>l \<in> set ls. valid_label l)"
  by (induction ls) (auto simp: valid_label_def)

lemma check_host_iff: "check_host h = None \<longleftrightarrow> valid_host h"
  by (auto simp: check_host_def valid_host_def check_labels_iff [symmetric] split: option.splits)

lemma valid_host_ends:
  assumes "valid_host h"
  shows "h \<noteq> []" "label_char (hd h)" "label_char (last h)" "\<forall>c \<in> set h. label_char c \<or> c = CHR ''.''"
proof -
  have l: "valid_label l" if "l \<in> set (split_on (CHR ''.'') h)" for l
    using assms that by (simp add: valid_host_def)
  have "hd (split_on (CHR ''.'') h) \<in> set (split_on (CHR ''.'') h)" "last (split_on (CHR ''.'') h) \<in> set (split_on (CHR ''.'') h)"
    by simp_all
  then have e: "valid_label (hd (split_on (CHR ''.'') h))" "valid_label (last (split_on (CHR ''.'') h))" using l by auto
  then show "h \<noteq> []" using split_on_hd [of "CHR ''.''" h] by (auto simp: valid_label_def)
  show "label_char (hd h)"
    using e(1) split_on_hd [of "CHR ''.''" h] by (auto simp: valid_label_def list_all_iff)
  show "label_char (last h)"
    using e(2) split_on_last [of "CHR ''.''" h] by (auto simp: valid_label_def list_all_iff)
  show "\<forall>c \<in> set h. label_char c \<or> c = CHR ''.''"
    using split_on_chars [of _ h "CHR ''.''"] l by (fastforce simp: valid_label_def list_all_iff)
qed

lemma label_char_plain: "label_char c \<Longrightarrow> plain_char c \<and> ascii_lower c = c \<and> c \<noteq> CHR ''.'' \<and> c \<noteq> CHR '':'' \<and> c \<noteq> CHR ''/''"
  by (auto simp: label_char_def plain_char_def ascii_lower_def is_ascii_digit_def)

lemma to_lowercase_id: "\<forall>c \<in> set s. plain_char c \<and> ascii_lower c = c \<Longrightarrow> to_lowercase s = s"
  by (induction s rule: to_lowercase.induct) (auto simp: plain_char_def map_idI)

lemma is_ascii_plain: "\<forall>c \<in> set s. plain_char c \<Longrightarrow> is_ascii s"
  by (auto simp: is_ascii_def list_all_iff plain_char_def)

lemma trim_end_dots_id: "s \<noteq> [] \<Longrightarrow> last s \<noteq> CHR ''.'' \<Longrightarrow> trim_end_dots s = s"
  by (cases s rule: rev_cases) (auto simp: trim_end_dots_def)

text \<open>A normalised entry is no IP literal: its kind reads as one hexadecimal group at most.\<close>

lemma not_ip_entry:
  assumes "CHR ''/'' \<notin> set h" "pre = ''domain:'' \<or> pre = ''full:''"
  shows "\<not> is_ip_or_cidr (pre @ h)"
proof -
  have sp: "split_once c s = None" if "c \<notin> set s" for c s
    using that by (induction s) auto
  have no_slash: "CHR ''/'' \<notin> set (pre @ h)" using assms by auto
  have v4: "read_ipv4 (pre @ h) = None"
    using assms(2) by (auto simp: read_ipv4_def read_separator_def read_octet_none stops_def is_ascii_digit_def)
  obtain g where hex: "read_groups 0 8 (pre @ h) = ([g], False, tl (pre @ h))"
    using assms(2) v4
    by (auto simp: hex_value_def hex_digit_value_def read_groups.simps [of 0] read_groups.simps [of 1] read_groups.simps [of "Suc 0"] read_separator_def
        read_hex_group_def read_number_def is_ascii_hexdigit_def is_ascii_digit_def)
  have "read_ipv6 (pre @ h) = None"
    using assms(2) by (auto simp: read_ipv6_def hex)
  then show ?thesis
    using v4 sp [OF no_slash] by (simp add: is_ip_or_cidr_def parse_ipv4_def parse_ipv6_def)
qed

definition normal_entry :: "string \<Rightarrow> bool" where
  "normal_entry r \<longleftrightarrow> (\<exists>pre h. r = pre @ h \<and> (pre = ''domain:'' \<or> pre = ''full:'') \<and> valid_host h)"

lemma normal_entry_fixed:
  assumes "normal_entry r"
  shows "normalize_custom_domain r = Inr r"
proof -
  obtain pre h where r: "r = pre @ h" and pre: "pre = ''domain:'' \<or> pre = ''full:''" and h: "valid_host h"
    using assms unfolding normal_entry_def by blast
  note ends = valid_host_ends [OF h]
  have hc: "plain_char c \<and> ascii_lower c = c \<and> c \<noteq> CHR '':'' \<and> c \<noteq> CHR ''/''" if "c \<in> set h" for c
  proof (cases "c = CHR ''.''")
    case True then show ?thesis by (simp add: plain_char_def ascii_lower_def)
  next
    case False then show ?thesis using ends(4) that label_char_plain [of c] by blast
  qed
  have "\<forall>c \<in> set ''domain:''. plain_char c \<and> ascii_lower c = c \<and> c \<noteq> CHR ''/''"
    "\<forall>c \<in> set ''full:''. plain_char c \<and> ascii_lower c = c \<and> c \<noteq> CHR ''/''"
    by (simp_all add: plain_char_def ascii_lower_def)
  then have pc: "plain_char c \<and> ascii_lower c = c \<and> c \<noteq> CHR ''/''" if "c \<in> set pre" for c
    using pre that by metis
  have rc: "\<forall>c \<in> set r. plain_char c \<and> ascii_lower c = c" using hc pc unfolding r set_append by blast
  have ne: "r \<noteq> []" "last r = last h" using ends(1) by (simp_all add: r)
  have lr: "last r \<in> set r" "hd r \<in> set r" using ne(1) by (rule last_in_set, rule hd_in_set)
  have trimmed: "trim r = r" using rc ne(1) lr by (intro trim_plain) auto
  have dots: "trim_end_dots r = r"
    using ne ends(3) label_char_plain [of "last h"] by (intro trim_end_dots_id) auto
  have strip: "unwrap_prefix ''.'' (unwrap_prefix ''*.'' r) = r"
    using pre by (auto simp: r unwrap_prefix_def strip_prefix_def)
  have slash: "CHR ''/'' \<notin> set h" "CHR ''/'' \<notin> set r" using hc pc unfolding r set_append by blast+
  have scheme: "\<not> contains_str ''://'' r"
    using slash(2) unfolding contains_str_iff sublist_def by auto
  have http: "\<not> prefix ''http:'' r \<and> \<not> prefix ''https:'' r" using pre by (auto simp: r)
  have kind: "split_kind r = Inr (pre, h)"
    using pre by (auto simp: r split_kind_def)
  have ip: "\<not> is_ip_or_cidr r" using not_ip_entry [OF slash(1) pre] by (simp only: r not_False_eq_True)
  have ascii: "is_ascii r" using rc by (intro is_ascii_plain) blast
  have "check_host h = None" using h by (simp only: check_host_iff)
  then show ?thesis
    unfolding normalize_custom_domain_def Let_def trimmed to_lowercase_id [OF rc] dots strip kind
    using ne(1) ip ascii scheme http slash(2) by (simp add: r [symmetric])
qed

lemma split_kind_pre: "split_kind body = Inr (pre, h) \<Longrightarrow> pre = ''domain:'' \<or> pre = ''full:''"
  by (simp add: split_kind_def split: option.splits prod.splits if_splits)

lemma normalize_is_normal:
  assumes "normalize_custom_domain s = Inr r"
  shows "normal_entry r"
proof -
  define body where "body = unwrap_prefix ''.'' (unwrap_prefix ''*.'' (trim_end_dots (to_lowercase (trim s))))"
  have "(case split_kind body of Inl e \<Rightarrow> Inl e
      | Inr (pre, host) \<Rightarrow> (case check_host host of Some e \<Rightarrow> Inl e | None \<Rightarrow> Inr (pre @ host))) = Inr r"
    using assms unfolding normalize_custom_domain_def Let_def body_def
    by (simp only: sum.distinct simp_thms split: if_split_asm)
  then obtain pre h where k: "split_kind body = Inr (pre, h)" "check_host h = None" "r = pre @ h"
    by (cases "split_kind body") (auto split: option.splits prod.splits)
  then show ?thesis
    using split_kind_pre [OF k(1)] k(2,3) unfolding normal_entry_def check_host_iff by blast
qed

text \<open>
  C19: what normalisation accepts is safe to put into the core's configuration: the result is
  \<open>domain:\<close> or \<open>full:\<close> followed by a host of at most 253 characters with at least two labels, each of 1
  to 63 lower-case letters, digits and inner hyphens; and normalising it again changes nothing.
\<close>

theorem normalized_entry_sound:
  assumes "normalize_custom_domain s = Inr r"
  shows "(\<exists>pre h. r = pre @ h \<and> pre \<in> {''domain:'', ''full:''} \<and> CHR ''.'' \<in> set h \<and> length h \<le> 253
      \<and> (\<forall>l \<in> set (split_on (CHR ''.'') h). 1 \<le> length l \<and> length l \<le> 63 \<and> hd l \<noteq> CHR ''-'' \<and> last l \<noteq> CHR ''-''
           \<and> list_all label_char l))
    \<and> normalize_custom_domain r = Inr r"
proof -
  have n: "normal_entry r" by (rule normalize_is_normal [OF assms])
  then obtain pre h where "r = pre @ h" "pre = ''domain:'' \<or> pre = ''full:''" "valid_host h"
    unfolding normal_entry_def by blast
  then show ?thesis
    using normal_entry_fixed [OF n] unfolding valid_host_def valid_label_def One_nat_def Suc_le_eq length_greater_0_conv
    by blast
qed

theorem normalized_entry_sound_witness:
  "normalize_custom_domain ''full:a.b'' = Inr ''full:a.b'' \<and> normalize_custom_domain ''full:a.b'' = Inr ''full:a.b''"
proof -
  have "normal_entry ''full:a.b''"
    by (simp add: normal_entry_def, rule exI [of _ "''full:''"], simp add: valid_host_def valid_label_def label_char_def is_ascii_digit_def)
  then have "normalize_custom_domain ''full:a.b'' = Inr ''full:a.b''" by (rule normal_entry_fixed)
  from normalized_entry_sound [OF this] this show ?thesis by blast
qed

end
