(* ===== verification/KcpMask.thy ===== *)
theory KcpMask
  imports Json "HOL-Library.Multiset"
begin

text \<open>
  \<open>core/xray/kcp_mask.rs\<close>: the obfuscation layers of a mKCP inbound. A stack of layers is described by
  short codes in the callback data of the menus, checked when a layer is added
  (\<open>is_compatible_with\<close>) and again when the stack is complete (\<open>validate_stack\<close>), put into canonical
  order and written into the configuration as JSON. Passwords come from the random generator: the
  definitions that create a layer take the password drawn as an argument.
\<close>

datatype kcp_mask =
    MkcpLegacy "string option" "string option"
  | Noise
  | Salamander string "(int \<times> int) option"
  | Sudoku string
  | Xdns "string list" "string list"
  | Xicmp bool "string list"
  | Realm string "string list"

section \<open>Names and codes\<close>

fun type_str :: "kcp_mask \<Rightarrow> string" where
  "type_str (MkcpLegacy h v) = ''mkcp-legacy''"
| "type_str Noise = ''noise''"
| "type_str (Salamander p s) = ''salamander''"
| "type_str (Sudoku p) = ''sudoku''"
| "type_str (Xdns d r) = ''xdns''"
| "type_str (Xicmp d i) = ''xicmp''"
| "type_str (Realm u s) = ''realm''"

text \<open>The \<open>match h.as_str()\<close> over the six disguises the layer knows, with its default arm.\<close>

definition by_header :: "string \<Rightarrow> 'a \<Rightarrow> 'a \<Rightarrow> 'a \<Rightarrow> 'a \<Rightarrow> 'a \<Rightarrow> 'a \<Rightarrow> 'a \<Rightarrow> 'a" where
  "by_header h dns wechat srtp utp dtls wg other =
     (if h = ''dns'' then dns else if h = ''wechat'' then wechat else if h = ''srtp'' then srtp
      else if h = ''utp'' then utp else if h = ''dtls'' then dtls else if h = ''wireguard'' then wg else other)"

fun display_name :: "kcp_mask \<Rightarrow> string" where
  "display_name (MkcpLegacy None None) = ([CHR 0xF0, CHR 0x9F, CHR 0x94, CHR 0x80] @ '' mKCP Original (XOR)'')"
| "display_name (MkcpLegacy None v) = ([CHR 0xF0, CHR 0x9F, CHR 0x94, CHR 0x90] @ '' mKCP AES-128-GCM'')"
| "display_name (MkcpLegacy (Some h) v) = by_header h ([CHR 0xF0, CHR 0x9F, CHR 0x8C, CHR 0x90] @ '' mKCP + DNS'' @ [CHR 0xE4, CHR 0xBC, CHR 0xAA, CHR 0xE8, CHR 0xA3, CHR 0x85]) ([CHR 0xF0, CHR 0x9F, CHR 0x92, CHR 0xAC] @ '' mKCP + '' @ [CHR 0xE5, CHR 0xBE, CHR 0xAE, CHR 0xE4, CHR 0xBF, CHR 0xA1, CHR 0xE4, CHR 0xBC, CHR 0xAA, CHR 0xE8, CHR 0xA3, CHR 0x85])
     ([CHR 0xF0, CHR 0x9F, CHR 0x8E, CHR 0xAC] @ '' mKCP + SRTP'' @ [CHR 0xE4, CHR 0xBC, CHR 0xAA, CHR 0xE8, CHR 0xA3, CHR 0x85]) ([CHR 0xF0, CHR 0x9F, CHR 0x94, CHR 0x97] @ '' mKCP + uTP'' @ [CHR 0xE4, CHR 0xBC, CHR 0xAA, CHR 0xE8, CHR 0xA3, CHR 0x85]) ([CHR 0xF0, CHR 0x9F, CHR 0x94, CHR 0x92] @ '' mKCP + DTLS'' @ [CHR 0xE4, CHR 0xBC, CHR 0xAA, CHR 0xE8, CHR 0xA3, CHR 0x85])
     ([CHR 0xF0, CHR 0x9F, CHR 0x9B, CHR 0xA1, CHR 0xEF, CHR 0xB8, CHR 0x8F] @ '' mKCP + WireGuard'' @ [CHR 0xE4, CHR 0xBC, CHR 0xAA, CHR 0xE8, CHR 0xA3, CHR 0x85]) ([CHR 0xF0, CHR 0x9F, CHR 0x94, CHR 0x90] @ '' mKCP'')"
| "display_name Noise = ([CHR 0xF0, CHR 0x9F, CHR 0x93, CHR 0x8A] @ '' Noise'')"
| "display_name (Salamander p s) = ([CHR 0xF0, CHR 0x9F, CHR 0xA6, CHR 0x8E] @ '' Salamander'')"
| "display_name (Sudoku p) = ([CHR 0xF0, CHR 0x9F, CHR 0x94, CHR 0xA2] @ '' Sudoku'')"
| "display_name (Xdns d r) = ([CHR 0xF0, CHR 0x9F, CHR 0x93, CHR 0xA1] @ '' XDNS '' @ [CHR 0xE6, CHR 0x89, CHR 0xA9, CHR 0xE5, CHR 0xB1, CHR 0x95] @ ''DNS'')"
| "display_name (Xicmp d i) = ([CHR 0xF0, CHR 0x9F, CHR 0x92, CHR 0x93] @ '' XICMP'')"
| "display_name (Realm u s) = ([CHR 0xF0, CHR 0x9F, CHR 0x95, CHR 0xB3, CHR 0xEF, CHR 0xB8, CHR 0x8F] @ '' Realm'')"

fun brief :: "kcp_mask \<Rightarrow> string" where
  "brief (MkcpLegacy None None) = (''XOR'' @ [CHR 0xE6, CHR 0xB7, CHR 0xB7, CHR 0xE6, CHR 0xB7, CHR 0x86, CHR 0xEF, CHR 0xBC, CHR 0x8C, CHR 0xE4, CHR 0xBB, CHR 0x85] @ ''FNV1a'' @ [CHR 0xE6, CHR 0xA0, CHR 0xA1, CHR 0xE9, CHR 0xAA, CHR 0x8C])"
| "brief (MkcpLegacy None v) = (''AES-128-GCM'' @ [CHR 0xE8, CHR 0xAE, CHR 0xA4, CHR 0xE8, CHR 0xAF, CHR 0x81, CHR 0xE5, CHR 0x8A, CHR 0xA0, CHR 0xE5, CHR 0xAF, CHR 0x86])"
| "brief (MkcpLegacy (Some h) v) = by_header h ([CHR 0xE5, CHR 0x8A, CHR 0xA0, CHR 0xE5, CHR 0xAF, CHR 0x86] @ ''+DNS'' @ [CHR 0xE5, CHR 0xA4, CHR 0xB4, CHR 0xE9, CHR 0x83, CHR 0xA8, CHR 0xE4, CHR 0xBC, CHR 0xAA, CHR 0xE8, CHR 0xA3, CHR 0x85]) ([CHR 0xE5, CHR 0x8A, CHR 0xA0, CHR 0xE5, CHR 0xAF, CHR 0x86] @ ''+'' @ [CHR 0xE5, CHR 0xBE, CHR 0xAE, CHR 0xE4, CHR 0xBF, CHR 0xA1, CHR 0xE5, CHR 0xA4, CHR 0xB4, CHR 0xE9, CHR 0x83, CHR 0xA8, CHR 0xE4, CHR 0xBC, CHR 0xAA, CHR 0xE8, CHR 0xA3, CHR 0x85])
     ([CHR 0xE5, CHR 0x8A, CHR 0xA0, CHR 0xE5, CHR 0xAF, CHR 0x86] @ ''+SRTP'' @ [CHR 0xE5, CHR 0xA4, CHR 0xB4, CHR 0xE9, CHR 0x83, CHR 0xA8, CHR 0xE4, CHR 0xBC, CHR 0xAA, CHR 0xE8, CHR 0xA3, CHR 0x85]) ([CHR 0xE5, CHR 0x8A, CHR 0xA0, CHR 0xE5, CHR 0xAF, CHR 0x86] @ ''+uTP'' @ [CHR 0xE5, CHR 0xA4, CHR 0xB4, CHR 0xE9, CHR 0x83, CHR 0xA8, CHR 0xE4, CHR 0xBC, CHR 0xAA, CHR 0xE8, CHR 0xA3, CHR 0x85]) ([CHR 0xE5, CHR 0x8A, CHR 0xA0, CHR 0xE5, CHR 0xAF, CHR 0x86] @ ''+DTLS'' @ [CHR 0xE5, CHR 0xA4, CHR 0xB4, CHR 0xE9, CHR 0x83, CHR 0xA8, CHR 0xE4, CHR 0xBC, CHR 0xAA, CHR 0xE8, CHR 0xA3, CHR 0x85])
     ([CHR 0xE5, CHR 0x8A, CHR 0xA0, CHR 0xE5, CHR 0xAF, CHR 0x86] @ ''+WireGuard'' @ [CHR 0xE5, CHR 0xA4, CHR 0xB4, CHR 0xE9, CHR 0x83, CHR 0xA8, CHR 0xE4, CHR 0xBC, CHR 0xAA, CHR 0xE8, CHR 0xA3, CHR 0x85]) (''mKCP'' @ [CHR 0xE6, CHR 0xB7, CHR 0xB7, CHR 0xE6, CHR 0xB7, CHR 0x86])"
| "brief Noise = ([CHR 0xE9, CHR 0x9A, CHR 0x8F, CHR 0xE6, CHR 0x9C, CHR 0xBA, CHR 0xE5, CHR 0x99, CHR 0xAA, CHR 0xE5, CHR 0xA3, CHR 0xB0, CHR 0xE5, CHR 0xA1, CHR 0xAB, CHR 0xE5, CHR 0x85, CHR 0x85, CHR 0xEF, CHR 0xBC, CHR 0x8C, CHR 0xE6, CHR 0x8A, CHR 0x97, CHR 0xE6, CHR 0xB5, CHR 0x81, CHR 0xE9, CHR 0x87, CHR 0x8F, CHR 0xE5, CHR 0x88, CHR 0x86, CHR 0xE6, CHR 0x9E, CHR 0x90])"
| "brief (Salamander p s) = ([CHR 0xE8, CHR 0x9D, CHR 0xBE, CHR 0xE8, CHR 0x9E, CHR 0x88, CHR 0xE6, CHR 0xB7, CHR 0xB7, CHR 0xE6, CHR 0xB7, CHR 0x86] @ ''+'' @ [CHR 0xE5, CHR 0x8F, CHR 0xAF, CHR 0xE9, CHR 0x80, CHR 0x89] @ ''packetSize'')"
| "brief (Sudoku p) = ([CHR 0xE6, CHR 0x95, CHR 0xB0, CHR 0xE7, CHR 0x8B, CHR 0xAC, CHR 0xE6, CHR 0xB7, CHR 0xB7, CHR 0xE6, CHR 0xB7, CHR 0x86, CHR 0xE7, CHR 0xAE, CHR 0x97, CHR 0xE6, CHR 0xB3, CHR 0x95, CHR 0xEF, CHR 0xBC, CHR 0x8C, CHR 0xE5, CHR 0xBC, CHR 0xBA, CHR 0xE5, CHR 0xBA, CHR 0xA6, CHR 0xE6, CHR 0x9B, CHR 0xB4, CHR 0xE9, CHR 0xAB, CHR 0x98])"
| "brief (Xdns d r) = ([CHR 0xE6, CHR 0x89, CHR 0xA9, CHR 0xE5, CHR 0xB1, CHR 0x95] @ ''DNS'' @ [CHR 0xEF, CHR 0xBC, CHR 0x8C] @ ''AAAA/A'' @ [CHR 0xE8, CHR 0xAE, CHR 0xB0, CHR 0xE5, CHR 0xBD, CHR 0x95, CHR 0xE6, CHR 0x94, CHR 0xAF, CHR 0xE6, CHR 0x8C, CHR 0x81])"
| "brief (Xicmp d i) = (''ICMP'' @ [CHR 0xE4, CHR 0xBC, CHR 0xAA, CHR 0xE8, CHR 0xA3, CHR 0x85, CHR 0xEF, CHR 0xBC, CHR 0x8C] @ ''dgram'' @ [CHR 0xE6, CHR 0xA8, CHR 0xA1, CHR 0xE5, CHR 0xBC, CHR 0x8F, CHR 0xE6, CHR 0x94, CHR 0xAF, CHR 0xE6, CHR 0x8C, CHR 0x81])"
| "brief (Realm u s) = (''UDP'' @ [CHR 0xE6, CHR 0x89, CHR 0x93, CHR 0xE6, CHR 0xB4, CHR 0x9E, CHR 0xEF, CHR 0xBC, CHR 0x8C] @ ''STUN'' @ [CHR 0xE6, CHR 0x9C, CHR 0x8D, CHR 0xE5, CHR 0x8A, CHR 0xA1, CHR 0xE5, CHR 0x99, CHR 0xA8])"

fun category_code :: "kcp_mask \<Rightarrow> string" where
  "category_code (MkcpLegacy h v) = ''enc''"
| "category_code Noise = ''obf''"
| "category_code (Salamander p s) = ''obf''"
| "category_code (Sudoku p) = ''obf''"
| "category_code (Xdns d r) = ''ext''"
| "category_code (Xicmp d i) = ''ext''"
| "category_code (Realm u s) = ''ext''"

definition category_from_code :: "string \<Rightarrow> string option" where
  "category_from_code c =
     (if c = ''enc'' then Some ([CHR 0xF0, CHR 0x9F, CHR 0x94, CHR 0x90] @ '' '' @ [CHR 0xE5, CHR 0x8A, CHR 0xA0, CHR 0xE5, CHR 0xAF, CHR 0x86, CHR 0xE5, CHR 0xB1, CHR 0x82]) else if c = ''obf'' then Some ([CHR 0xF0, CHR 0x9F, CHR 0x8C, CHR 0x80] @ '' '' @ [CHR 0xE6, CHR 0xB7, CHR 0xB7, CHR 0xE6, CHR 0xB7, CHR 0x86, CHR 0xE5, CHR 0xB1, CHR 0x82])
      else if c = ''ext'' then Some ([CHR 0xE2, CHR 0x9A, CHR 0xA1] @ '' '' @ [CHR 0xE6, CHR 0x89, CHR 0xA9, CHR 0xE5, CHR 0xB1, CHR 0x95, CHR 0xE5, CHR 0xB1, CHR 0x82]) else None)"

definition category :: "kcp_mask \<Rightarrow> string" where
  "category m = (case category_from_code (category_code m) of Some n \<Rightarrow> n | None \<Rightarrow> ([CHR 0xE6, CHR 0x9C, CHR 0xAA, CHR 0xE7, CHR 0x9F, CHR 0xA5]))"

fun code :: "kcp_mask \<Rightarrow> string" where
  "code (MkcpLegacy None None) = ''ml''"
| "code (MkcpLegacy None v) = ''mla''"
| "code (MkcpLegacy (Some h) v) = by_header h ''mld'' ''mlw'' ''mls'' ''mlu'' ''mldt'' ''mlg'' ''ml''"
| "code Noise = ''no''"
| "code (Salamander p s) = ''sa''"
| "code (Sudoku p) = ''su''"
| "code (Xdns d r) = ''xd''"
| "code (Xicmp d i) = ''xi''"
| "code (Realm u s) = ''rl''"

text \<open>\<open>pw\<close> is the password \<open>generate_aes_password\<close> draws, where the arm draws one.\<close>

definition from_code :: "string \<Rightarrow> string \<Rightarrow> kcp_mask option" where
  "from_code pw c =
     (if c = ''ml'' then Some (MkcpLegacy None None)
      else if c = ''mla'' then Some (MkcpLegacy None (Some pw))
      else if c = ''mld'' then Some (MkcpLegacy (Some ''dns'') (Some ''www.baidu.com''))
      else if c = ''mlw'' then Some (MkcpLegacy (Some ''wechat'') None)
      else if c = ''mls'' then Some (MkcpLegacy (Some ''srtp'') None)
      else if c = ''mlu'' then Some (MkcpLegacy (Some ''utp'') None)
      else if c = ''mldt'' then Some (MkcpLegacy (Some ''dtls'') None)
      else if c = ''mlg'' then Some (MkcpLegacy (Some ''wireguard'') None)
      else if c = ''no'' then Some Noise
      else if c = ''sa'' then Some (Salamander pw None)
      else if c = ''su'' then Some (Sudoku pw)
      else if c = ''xd'' then Some (Xdns [''www.baidu.com''] [''www.baidu.com+udp://1.1.1.1:53''])
      else if c = ''xi'' then Some (Xicmp False [])
      else if c = ''rl'' then Some (Realm [] [])
      else None)"

fun as_json :: "kcp_mask \<Rightarrow> json" where
  "as_json (MkcpLegacy None None) = JObj [(''type'', JStr ''mkcp-legacy'')]"
| "as_json (MkcpLegacy h v) = JObj [(''type'', JStr ''mkcp-legacy''),
     (''settings'', JObj ((case h of Some x \<Rightarrow> [(''header'', JStr x)] | None \<Rightarrow> [])
        @ (case v of Some x \<Rightarrow> [(''value'', JStr x)] | None \<Rightarrow> [])))]"
| "as_json Noise = JObj [(''type'', JStr ''noise'')]"
| "as_json (Salamander p s) = JObj [(''type'', JStr ''salamander''),
     (''settings'', JObj ([(''password'', JStr p)]
        @ (case s of Some (a, b) \<Rightarrow> [(''packetSize'', JStr (int_str a @ ''-'' @ int_str b))] | None \<Rightarrow> [])))]"
| "as_json (Sudoku p) = JObj [(''type'', JStr ''sudoku''), (''settings'', JObj [(''password'', JStr p)])]"
| "as_json (Xdns d r) = JObj [(''type'', JStr ''xdns''),
     (''settings'', JObj [(''domains'', JArr (map JStr d)), (''resolvers'', JArr (map JStr r))])]"
| "as_json (Xicmp d i) = (if d \<or> i \<noteq> [] then JObj [(''type'', JStr ''xicmp''),
     (''settings'', JObj [(''dgram'', JBool d), (''ips'', JArr (map JStr i))])]
     else JObj [(''type'', JStr ''xicmp'')])"
| "as_json (Realm u s) = JObj [(''type'', JStr ''realm''),
     (''settings'', JObj [(''url'', JStr u), (''stunServers'', JArr (map JStr s))])]"

definition all_variants :: "kcp_mask list" where
  "all_variants = [MkcpLegacy None None, MkcpLegacy None (Some ''default''),
     MkcpLegacy (Some ''dns'') (Some ''www.baidu.com''), MkcpLegacy (Some ''wechat'') None,
     MkcpLegacy (Some ''srtp'') None, MkcpLegacy (Some ''utp'') None, MkcpLegacy (Some ''dtls'') None,
     MkcpLegacy (Some ''wireguard'') None, Noise, Salamander [] None, Sudoku [], Xdns [] [], Xicmp False [], Realm [] []]"

definition variants_by_category :: "string \<Rightarrow> kcp_mask list" where
  "variants_by_category c = filter (\<lambda>m. category_code m = c) all_variants"

text \<open>The \<open>i\<close>-th code takes the \<open>i\<close>-th draw.\<close>

fun parse_codes :: "(nat \<Rightarrow> string) \<Rightarrow> string list \<Rightarrow> string + kcp_mask list" where
  "parse_codes draw [] = Inr []"
| "parse_codes draw (c # cs) =
     (case from_code (draw 0) c of
        None \<Rightarrow> Inl (''Invalid mask code: '' @ c)
      | Some m \<Rightarrow> (case parse_codes (\<lambda>i. draw (Suc i)) cs of Inl e \<Rightarrow> Inl e | Inr ms \<Rightarrow> Inr (m # ms)))"

section \<open>Stacks\<close>

definition is_encryption :: "kcp_mask \<Rightarrow> bool" where
  "is_encryption m \<longleftrightarrow> (case m of MkcpLegacy h v \<Rightarrow> True | _ \<Rightarrow> False)"

definition is_sudoku :: "kcp_mask \<Rightarrow> bool" where
  "is_sudoku m \<longleftrightarrow> (case m of Sudoku p \<Rightarrow> True | _ \<Rightarrow> False)"

definition is_xdns :: "kcp_mask \<Rightarrow> bool" where
  "is_xdns m \<longleftrightarrow> (case m of Xdns d r \<Rightarrow> True | _ \<Rightarrow> False)"

definition is_xicmp :: "kcp_mask \<Rightarrow> bool" where
  "is_xicmp m \<longleftrightarrow> (case m of Xicmp d i \<Rightarrow> True | _ \<Rightarrow> False)"

definition is_realm :: "kcp_mask \<Rightarrow> bool" where
  "is_realm m \<longleftrightarrow> (case m of Realm u s \<Rightarrow> True | _ \<Rightarrow> False)"

definition is_transport_replacement :: "kcp_mask \<Rightarrow> bool" where
  "is_transport_replacement m \<longleftrightarrow> is_xdns m \<or> is_xicmp m \<or> is_realm m"

definition dns_header_size :: "string \<Rightarrow> nat" where
  "dns_header_size domain = 12 + sum_list (map (\<lambda>l. 1 + length l) (split_on (CHR ''.'') domain)) + 1 + 4"

fun header_size :: "kcp_mask \<Rightarrow> nat option" where
  "header_size (MkcpLegacy None None) = Some 6"
| "header_size (MkcpLegacy None v) = Some 28"
| "header_size (MkcpLegacy (Some h) v) =
     Some (by_header h (dns_header_size (case v of Some d \<Rightarrow> d | None \<Rightarrow> ''www.baidu.com'')) 13 4 4 13 4 4)"
| "header_size (Salamander p s) = Some 8"
| "header_size Noise = None"
| "header_size (Sudoku p) = None"
| "header_size (Xdns d r) = None"
| "header_size (Xicmp d i) = None"
| "header_size (Realm u s) = None"

fun sort_priority :: "kcp_mask \<Rightarrow> nat" where
  "sort_priority (Sudoku p) = 0"
| "sort_priority (MkcpLegacy None v) = 10"
| "sort_priority (MkcpLegacy (Some h) v) = 20"
| "sort_priority (Salamander p s) = 30"
| "sort_priority Noise = 40"
| "sort_priority (Xdns d r) = 50"
| "sort_priority (Xicmp d i) = 60"
| "sort_priority (Realm u s) = 70"

text \<open>\<open>slice::sort_by_key\<close> is stable, as \<open>sort_key\<close> is.\<close>

definition canonical_order :: "kcp_mask list \<Rightarrow> kcp_mask list" where
  "canonical_order masks = sort_key sort_priority masks"

definition header_total :: "kcp_mask list \<Rightarrow> nat" where
  "header_total ms = sum_list (List.map_filter header_size ms)"

definition header_error :: "nat \<Rightarrow> string" where
  "header_error n = (''header'' @ [CHR 0xE6, CHR 0x80, CHR 0xBB, CHR 0xE5, CHR 0xA4, CHR 0xA7, CHR 0xE5, CHR 0xB0, CHR 0x8F]) @ nat_str n @ ([CHR 0xE5, CHR 0xAD, CHR 0x97, CHR 0xE8, CHR 0x8A, CHR 0x82, CHR 0xE8, CHR 0xBF, CHR 0x87, CHR 0xE5, CHR 0xA4, CHR 0xA7, CHR 0xEF, CHR 0xBC, CHR 0x8C, CHR 0xE5, CHR 0x8F, CHR 0xAF, CHR 0xE8, CHR 0x83, CHR 0xBD, CHR 0xE8, CHR 0xB6, CHR 0x85, CHR 0xE5, CHR 0x87, CHR 0xBA] @ ''UDP'' @ [CHR 0xE5, CHR 0x8C, CHR 0x85, CHR 0xE9, CHR 0x99, CHR 0x90, CHR 0xE5, CHR 0x88, CHR 0xB6] @ ''(4096'' @ [CHR 0xE5, CHR 0xAD, CHR 0x97, CHR 0xE8, CHR 0x8A, CHR 0x82] @ '')'')"

definition is_compatible_with :: "kcp_mask \<Rightarrow> kcp_mask list \<Rightarrow> string + unit" where
  "is_compatible_with m existing =
     (if is_transport_replacement m \<and> list_ex is_transport_replacement existing
      then Inl ((if is_xdns m then ''XDNS'' else if is_xicmp m then ''XICMP'' else ''Realm'')
             @ ([CHR 0xE5, CHR 0x92, CHR 0x8C, CHR 0xE5, CHR 0x85, CHR 0xB6, CHR 0xE4, CHR 0xBB, CHR 0x96, CHR 0xE4, CHR 0xBC, CHR 0xA0, CHR 0xE8, CHR 0xBE, CHR 0x93, CHR 0xE5, CHR 0xB1, CHR 0x82, CHR 0xE4, CHR 0xB8, CHR 0x8D, CHR 0xE8, CHR 0x83, CHR 0xBD, CHR 0xE5, CHR 0x90, CHR 0x8C, CHR 0xE6, CHR 0x97, CHR 0xB6, CHR 0xE4, CHR 0xBD, CHR 0xBF, CHR 0xE7, CHR 0x94, CHR 0xA8]))
      else if is_encryption m \<and> list_ex is_encryption existing then Inl ([CHR 0xE9, CHR 0x87, CHR 0x8D, CHR 0xE5, CHR 0xA4, CHR 0x8D, CHR 0xE7, CHR 0x9A, CHR 0x84, CHR 0xE5, CHR 0x8A, CHR 0xA0, CHR 0xE5, CHR 0xAF, CHR 0x86, CHR 0xE5, CHR 0xB1, CHR 0x82])
      else if is_sudoku m \<and> list_ex is_sudoku existing then Inl ([CHR 0xE9, CHR 0x87, CHR 0x8D, CHR 0xE5, CHR 0xA4, CHR 0x8D, CHR 0xE7, CHR 0x9A, CHR 0x84] @ ''Sudoku'')
      else if list_ex (\<lambda>x. code x = code m) existing then Inl (([CHR 0xE9, CHR 0x87, CHR 0x8D, CHR 0xE5, CHR 0xA4, CHR 0x8D, CHR 0xE7, CHR 0x9A, CHR 0x84]) @ display_name m)
      else (let total = header_total existing + (case header_size m of Some n \<Rightarrow> n | None \<Rightarrow> 0);
                reserve = (if is_sudoku m \<or> list_ex is_sudoku existing then 2400 else 0)
            in if total + reserve > 3800 then Inl (header_error total) else Inr ()))"

definition validate_stack :: "kcp_mask list \<Rightarrow> string + unit" where
  "validate_stack masks =
     (if masks = [] then Inl ([CHR 0xE8, CHR 0xAF, CHR 0xB7, CHR 0xE8, CHR 0x87, CHR 0xB3, CHR 0xE5, CHR 0xB0, CHR 0x91, CHR 0xE9, CHR 0x80, CHR 0x89, CHR 0xE6, CHR 0x8B, CHR 0xA9] @ ''1'' @ [CHR 0xE5, CHR 0xB1, CHR 0x82, CHR 0xE9, CHR 0x81, CHR 0xAE, CHR 0xE7, CHR 0xBD, CHR 0xA9])
      else if list_ex is_xdns masks \<and> list_ex is_xicmp masks then Inl (''XDNS'' @ [CHR 0xE5, CHR 0x92, CHR 0x8C] @ ''XICMP'' @ [CHR 0xE4, CHR 0xB8, CHR 0x8D, CHR 0xE8, CHR 0x83, CHR 0xBD, CHR 0xE5, CHR 0x90, CHR 0x8C, CHR 0xE6, CHR 0x97, CHR 0xB6, CHR 0xE4, CHR 0xBD, CHR 0xBF, CHR 0xE7, CHR 0x94, CHR 0xA8])
      else if list_ex is_xdns masks \<and> list_ex is_realm masks then Inl (''XDNS'' @ [CHR 0xE5, CHR 0x92, CHR 0x8C] @ ''Realm'' @ [CHR 0xE4, CHR 0xB8, CHR 0x8D, CHR 0xE8, CHR 0x83, CHR 0xBD, CHR 0xE5, CHR 0x90, CHR 0x8C, CHR 0xE6, CHR 0x97, CHR 0xB6, CHR 0xE4, CHR 0xBD, CHR 0xBF, CHR 0xE7, CHR 0x94, CHR 0xA8])
      else if list_ex is_xicmp masks \<and> list_ex is_realm masks then Inl (''XICMP'' @ [CHR 0xE5, CHR 0x92, CHR 0x8C] @ ''Realm'' @ [CHR 0xE4, CHR 0xB8, CHR 0x8D, CHR 0xE8, CHR 0x83, CHR 0xBD, CHR 0xE5, CHR 0x90, CHR 0x8C, CHR 0xE6, CHR 0x97, CHR 0xB6, CHR 0xE4, CHR 0xBD, CHR 0xBF, CHR 0xE7, CHR 0x94, CHR 0xA8])
      else if length (filter is_encryption masks) > 1 then Inl ([CHR 0xE9, CHR 0x87, CHR 0x8D, CHR 0xE5, CHR 0xA4, CHR 0x8D, CHR 0xE7, CHR 0x9A, CHR 0x84, CHR 0xE5, CHR 0x8A, CHR 0xA0, CHR 0xE5, CHR 0xAF, CHR 0x86, CHR 0xE5, CHR 0xB1, CHR 0x82])
      else if length (filter is_sudoku masks) > 1 then Inl ([CHR 0xE9, CHR 0x87, CHR 0x8D, CHR 0xE5, CHR 0xA4, CHR 0x8D, CHR 0xE7, CHR 0x9A, CHR 0x84] @ ''Sudoku'')
      else (let total = header_total masks; reserve = (if list_ex is_sudoku masks then 2400 else 0)
            in if total + reserve > 3800 then Inl (header_error total) else Inr ()))"

definition get_stack_warnings :: "kcp_mask list \<Rightarrow> string list" where
  "get_stack_warnings masks =
     (if masks = [MkcpLegacy None None] then [([CHR 0xE2, CHR 0x9A, CHR 0xA0, CHR 0xEF, CHR 0xB8, CHR 0x8F] @ '' mKCP Original '' @ [CHR 0xE5, CHR 0x8D, CHR 0x95, CHR 0xE7, CHR 0x8B, CHR 0xAC, CHR 0xE4, CHR 0xBD, CHR 0xBF, CHR 0xE7, CHR 0x94, CHR 0xA8, CHR 0xE5, CHR 0xAE, CHR 0x89, CHR 0xE5, CHR 0x85, CHR 0xA8, CHR 0xE6, CHR 0x80, CHR 0xA7, CHR 0xE4, CHR 0xBD, CHR 0x8E, CHR 0xEF, CHR 0xBC, CHR 0x8C, CHR 0xE5, CHR 0xBB, CHR 0xBA, CHR 0xE8, CHR 0xAE, CHR 0xAE, CHR 0xE9, CHR 0x85, CHR 0x8D, CHR 0xE5, CHR 0x90, CHR 0x88, CHR 0xE6, CHR 0xB7, CHR 0xB7, CHR 0xE6, CHR 0xB7, CHR 0x86, CHR 0xE5, CHR 0xB1, CHR 0x82, CHR 0xE4, CHR 0xBD, CHR 0xBF, CHR 0xE7, CHR 0x94, CHR 0xA8])] else [])"

section \<open>Lemmas\<close>

lemma code_from_code: "from_code pw c = Some m \<Longrightarrow> code m = c"
  by (auto simp: from_code_def by_header_def split: if_splits)

lemma from_code_dom:
  "from_code pw c \<noteq> None \<longleftrightarrow> c \<in> {''ml'', ''mla'', ''mld'', ''mlw'', ''mls'', ''mlu'', ''mldt'', ''mlg'',
     ''no'', ''sa'', ''su'', ''xd'', ''xi'', ''rl''}"
  by (simp add: from_code_def)

lemma code_known: "from_code pw (code m) \<noteq> None"
  unfolding from_code_dom by (induction m rule: code.induct) (simp_all add: by_header_def)

lemma header_total_simps [simp]:
  "header_total [] = 0"
  "header_total (m # ms) = (case header_size m of Some n \<Rightarrow> n | None \<Rightarrow> 0) + header_total ms"
  "header_total (ms @ ms') = header_total ms + header_total ms'"
  by (simp_all add: header_total_def List.map_filter_def split: option.splits)

lemma header_total_mset:
  "header_total xs = sum_mset (image_mset (\<lambda>m. case header_size m of Some n \<Rightarrow> n | None \<Rightarrow> 0) (mset xs))"
  by (induction xs) simp_all

lemma list_ex_mset: "list_ex P xs \<longleftrightarrow> (\<exists>x \<in># mset xs. P x)"
  by (simp add: list_ex_iff)

lemma length_filter_mset: "length (filter P xs) = size (filter_mset P (mset xs))"
  by (simp flip: mset_filter)

text \<open>What \<open>validate_stack\<close> decides does not depend on the order of the layers.\<close>

lemma validate_stack_perm:
  assumes "mset xs = mset ys"
  shows "validate_stack xs = validate_stack ys"
proof -
  have "xs = [] \<longleftrightarrow> ys = []" using assms by auto
  then show ?thesis
    unfolding validate_stack_def list_ex_mset length_filter_mset header_total_mset assms by (simp only:)
qed

text \<open>What a stack built layer by layer satisfies.\<close>

definition stack_inv :: "kcp_mask list \<Rightarrow> bool" where
  "stack_inv ms \<longleftrightarrow> length (filter is_transport_replacement ms) \<le> 1 \<and> length (filter is_encryption ms) \<le> 1
     \<and> length (filter is_sudoku ms) \<le> 1 \<and> distinct (map code ms)
     \<and> header_total ms + (if list_ex is_sudoku ms then 2400 else 0) \<le> 3800"

inductive built :: "kcp_mask list \<Rightarrow> bool" where
  built_Nil: "built []"
| built_snoc: "built ms \<Longrightarrow> is_compatible_with m ms = Inr () \<Longrightarrow> built (ms @ [m])"

lemma count_snoc:
  assumes "length (filter P ms) \<le> 1" "\<not> (P m \<and> list_ex P ms)"
  shows "length (filter P (ms @ [m])) \<le> 1"
proof (cases "P m")
  case True
  then have "filter P ms = []" using assms(2) by (simp add: filter_empty_conv list_ex_iff)
  then show ?thesis by simp
qed (use assms(1) in simp)

lemma is_compatible_withD:
  assumes "is_compatible_with m ms = Inr ()"
  shows "\<not> (is_transport_replacement m \<and> list_ex is_transport_replacement ms)"
    "\<not> (is_encryption m \<and> list_ex is_encryption ms)" "\<not> (is_sudoku m \<and> list_ex is_sudoku ms)"
    "\<not> list_ex (\<lambda>x. code x = code m) ms"
    "header_total ms + (case header_size m of Some n \<Rightarrow> n | None \<Rightarrow> 0)
      + (if is_sudoku m \<or> list_ex is_sudoku ms then 2400 else 0) \<le> 3800"
  using assms unfolding is_compatible_with_def Let_def by (simp_all only: sum.distinct not_less split: if_split_asm) blast+

lemma stack_inv_snoc:
  assumes "stack_inv ms" "is_compatible_with m ms = Inr ()"
  shows "stack_inv (ms @ [m])"
proof -
  note c = is_compatible_withD [OF assms(2)]
  have "code m \<notin> set (map code ms)" using c(4) by (auto simp: list_ex_iff)
  then have "distinct (map code (ms @ [m]))" using assms(1) by (simp add: stack_inv_def)
  moreover have "header_total (ms @ [m]) + (if list_ex is_sudoku (ms @ [m]) then 2400 else 0) \<le> 3800"
    using c(5) by (simp add: add.commute disj_commute)
  ultimately show ?thesis
    using assms(1) count_snoc [OF _ c(1)] count_snoc [OF _ c(2)] count_snoc [OF _ c(3)]
    unfolding stack_inv_def by blast
qed

lemma built_inv: "built ms \<Longrightarrow> stack_inv ms"
  by (induction rule: built.induct) (simp_all add: stack_inv_snoc, simp add: stack_inv_def)

lemma stack_inv_perm:
  assumes "mset xs = mset ys"
  shows "stack_inv xs \<longleftrightarrow> stack_inv ys"
proof -
  have "distinct (map code xs) \<longleftrightarrow> distinct (map code ys)"
    using assms by (metis mset_eq_imp_distinct_iff mset_map)
  then show ?thesis
    unfolding stack_inv_def list_ex_mset length_filter_mset header_total_mset assms by (simp only:)
qed

lemma one_of_two:
  assumes "length (filter P xs) \<le> 1" "x \<in> set xs" "y \<in> set xs" "P x" "P y"
  shows "x = y"
proof -
  have "x \<in> set (filter P xs)" "y \<in> set (filter P xs)" using assms by auto
  then show ?thesis using assms(1) by (cases "filter P xs") auto
qed

lemma transport_count:
  assumes "stack_inv ms" "x \<in> set ms" "y \<in> set ms" "is_transport_replacement x" "is_transport_replacement y"
  shows "x = y"
  using assms one_of_two [of is_transport_replacement ms x y] by (simp add: stack_inv_def)

lemma transport_kinds:
  "is_xdns m \<Longrightarrow> is_transport_replacement m \<and> \<not> is_xicmp m \<and> \<not> is_realm m"
  "is_xicmp m \<Longrightarrow> is_transport_replacement m \<and> \<not> is_realm m"
  "is_realm m \<Longrightarrow> is_transport_replacement m"
  by (cases m; simp add: is_transport_replacement_def is_xdns_def is_xicmp_def is_realm_def)+

lemma stack_inv_valid:
  assumes "stack_inv ms" "ms \<noteq> []"
  shows "validate_stack ms = Inr ()"
proof -
  have apart: "\<not> (list_ex P ms \<and> list_ex Q ms)"
    if "\<And>m. P m \<Longrightarrow> is_transport_replacement m" "\<And>m. Q m \<Longrightarrow> is_transport_replacement m" "\<And>m. P m \<Longrightarrow> \<not> Q m" for P Q
    using that transport_count [OF assms(1)] unfolding list_ex_iff by metis
  have "\<not> (list_ex is_xdns ms \<and> list_ex is_xicmp ms)" "\<not> (list_ex is_xdns ms \<and> list_ex is_realm ms)"
    "\<not> (list_ex is_xicmp ms \<and> list_ex is_realm ms)"
    by (intro apart; simp add: transport_kinds; fail)+
  then show ?thesis
    using assms by (simp add: validate_stack_def stack_inv_def)
qed

text \<open>Layers of a built stack have different priorities, so that the canonical order leaves no choice.\<close>

lemma same_priority:
  assumes "sort_priority x = sort_priority y"
  shows "is_encryption x \<and> is_encryption y \<or> code x = code y"
  using assms by (cases x rule: sort_priority.cases; cases y rule: sort_priority.cases) (simp_all add: is_encryption_def)

lemma stack_inv_inj:
  assumes "stack_inv ms"
  shows "inj_on sort_priority (set ms)"
proof (rule inj_onI)
  fix x y assume x: "x \<in> set ms" and y: "y \<in> set ms" and "sort_priority x = sort_priority y"
  from same_priority [OF this(3)] consider "is_encryption x" "is_encryption y" | "code x = code y" by blast
  then show "x = y"
  proof cases
    case 1
    with x y assms one_of_two [of is_encryption ms x y] show ?thesis by (simp add: stack_inv_def)
  next
    case 2
    with x y assms show ?thesis by (auto simp: stack_inv_def distinct_map dest: inj_onD)
  qed
qed

section \<open>Properties\<close>

text \<open>
  C22: the check made when a layer is added is strong enough: every non-empty stack built by adding
  compatible layers one by one passes the final validation in canonical order, and the order in which
  the layers were added is immaterial, because any permutation has the same canonical order.
\<close>

theorem built_stack_valid:
  assumes "built ms" and "ms \<noteq> []" and "mset ms' = mset ms"
  shows "validate_stack (canonical_order ms') = Inr () \<and> canonical_order ms' = canonical_order ms
    \<and> sorted (map sort_priority (canonical_order ms'))"
proof -
  have inv: "stack_inv ms" by (rule built_inv [OF assms(1)])
  have "validate_stack (canonical_order ms') = validate_stack ms"
    by (rule validate_stack_perm) (simp add: canonical_order_def assms(3))
  moreover have "sort_key sort_priority ms' = sort_key sort_priority ms"
  proof (rule sort_key_inj_key_eq)
    show "mset ms' = mset (sort_key sort_priority ms)" using assms(3) by simp
    show "inj_on sort_priority (set ms')" using stack_inv_inj [OF inv] mset_eq_setD [OF assms(3)] by simp
  qed simp
  ultimately show ?thesis
    using stack_inv_valid [OF inv assms(2)] by (simp add: canonical_order_def)
qed

theorem built_stack_valid_witness:
  "validate_stack (canonical_order [Noise, Sudoku ''k'']) = Inr ()"
proof -
  have "is_compatible_with (Sudoku ''k'') [] = Inr ()"
    by (simp add: is_compatible_with_def is_transport_replacement_def is_xdns_def is_xicmp_def is_realm_def
        is_encryption_def is_sudoku_def)
  then have "built ([] @ [Sudoku ''k''])" by (rule built_snoc [OF built_Nil])
  moreover have "is_compatible_with Noise ([] @ [Sudoku ''k'']) = Inr ()"
    by (simp add: is_compatible_with_def is_transport_replacement_def is_xdns_def is_xicmp_def is_realm_def
        is_encryption_def is_sudoku_def)
  ultimately have "built (([] @ [Sudoku ''k'']) @ [Noise])" by (rule built_snoc)
  moreover have "mset [Noise, Sudoku ''k''] = mset (([] @ [Sudoku ''k'']) @ [Noise])" by simp
  ultimately show ?thesis using built_stack_valid [of "([] @ [Sudoku ''k'']) @ [Noise]" "[Noise, Sudoku ''k'']"] by blast
qed

text \<open>
  Also: the short codes in the callback data are faithful: the layer a code stands for has that code,
  whatever password is drawn; every layer's code stands for a layer; and a list of codes parses to
  layers with exactly those codes when every one of them stands for a layer, and to no layers at all
  otherwise.
\<close>

theorem mask_codes_roundtrip:
  "map_option code (from_code pw c) \<in> {None, Some c} \<and> from_code pw (code m) \<noteq> None
   \<and> (\<forall>cs. (\<exists>ms. parse_codes draw cs = Inr ms \<and> map code ms = cs) \<longleftrightarrow> list_all (\<lambda>c. from_code pw c \<noteq> None) cs)"
proof (intro conjI allI)
  fix cs
  show "(\<exists>ms. parse_codes draw cs = Inr ms \<and> map code ms = cs) \<longleftrightarrow> list_all (\<lambda>c. from_code pw c \<noteq> None) cs"
  proof (induction cs arbitrary: draw)
    case (Cons c cs)
    have "from_code (draw 0) c \<noteq> None \<longleftrightarrow> from_code pw c \<noteq> None" unfolding from_code_dom ..
    moreover note Cons.IH [of "\<lambda>i. draw (Suc i)"]
    ultimately show ?case
      by (cases "from_code (draw 0) c") (auto dest: code_from_code split: sum.splits)
  qed simp
next
  show "map_option code (from_code pw c) \<in> {None, Some c}"
    by (cases "from_code pw c") (auto dest: code_from_code)
qed (simp add: code_known)

end
