(* ===== verification/KcpWizard.thy ===== *)
theory KcpWizard
  imports KcpMask World
begin

text \<open>
  The mKCP dialogue of \<open>shared/handlers/xray.rs\<close> (the \<open>handle_kcp_*\<close> handlers) and the inbound and client
  link of \<open>core/xray/kcp.rs\<close>. The dialogue tame no state in the process: the stack chosen so far travels
  in the callback data of the buttons, as codes separated by commas. Layers are created from codes for
  their names and checks only, so the password a layer draws on the way is never shown; \<open>pw\<close> stands
  for it. Creating the inbounds (\<open>batch_create_kcp\<close>: ports, certificates, files) is the argument
  \<open>create\<close>; a slice out of range panics, which ends the handler.
\<close>

definition button :: "string \<Rightarrow> string \<Rightarrow> inline_button" where
  "button label data = \<lparr>btn_text = label, btn_data = data\<rparr>"

section \<open>Pages\<close>

text \<open>\<open>format!("{}\<dots> {}", i + 1, name)\<close> with the keycap suffix of the sources.\<close>

definition keycap :: "nat \<Rightarrow> string \<Rightarrow> string" where
  "keycap n name = nat_str n @ ([CHR 0xEF, CHR 0xB8, CHR 0x8F, CHR 0xE2, CHR 0x83, CHR 0xA3] @ '' '') @ name"

definition layer_name :: "string \<Rightarrow> string \<Rightarrow> string" where
  "layer_name pw c = (case from_code pw c of Some m \<Rightarrow> display_name m | None \<Rightarrow> ''???'')"

definition stack_display :: "string \<Rightarrow> string list \<Rightarrow> string list" where
  "stack_display pw codes = map (\<lambda>(i, c). keycap (i + 1) (layer_name pw c)) (enumerate 0 codes)"

definition current_masks :: "string \<Rightarrow> string list \<Rightarrow> kcp_mask list" where
  "current_masks pw codes = List.map_filter (from_code pw) (filter (\<lambda>c. c \<noteq> []) codes)"

definition mask_list :: "kcp_mask list \<Rightarrow> string" where
  "mask_list ms = join [CHR 0x0A, CHR 0x0A]
     (map (\<lambda>m. ''<b>'' @ display_name m @ ''</b>'' @ [CHR 0x0A] @ brief m) ms)"

definition stack_rows :: "env \<Rightarrow> string \<Rightarrow> markup" where
  "stack_rows e stack = [[button (e_tr e ''xray.kcp_add_more'' []) (''u_kcp_more:'' @ stack)],
     [button (e_tr e ''xray.kcp_done_btn'' []) (''u_kcp_done:'' @ stack)],
     [button (e_tr e ''xray.kcp_clear_btn'' []) ''u_kcp_init'']]"

definition init_rows :: "env \<Rightarrow> markup" where
  "init_rows e =
     [[button (e_tr e ''xray.kcp_cat_enc'' []) ''u_kcp_cat:enc'', button (e_tr e ''xray.kcp_cat_obf'' []) ''u_kcp_cat:obf''],
      [button (e_tr e ''xray.kcp_cat_dis'' []) ''u_kcp_cat:dis'', button (e_tr e ''xray.kcp_cat_ext'' []) ''u_kcp_cat:ext''],
      [button (e_tr e ''menu.back'' []) ''m_xray_mgmt'']]"

definition handle_kcp_init :: "env \<Rightarrow> callback_event \<Rightarrow> (world, handler_action) io" where
  "handle_kcp_init e cb =
     thenE (edit (cb_target cb) (cb_msg_id cb) (e_tr e ''xray.kcp_title'' []) (Some (init_rows e))) (retE Done)"

text \<open>\<open>data.strip_prefix(p).unwrap_or(d)\<close>\<close>

definition argument :: "string \<Rightarrow> string \<Rightarrow> string \<Rightarrow> string" where
  "argument p d data = (case strip_prefix p data of Some r \<Rightarrow> r | None \<Rightarrow> d)"

definition cat_rows :: "env \<Rightarrow> string \<Rightarrow> markup" where
  "cat_rows e cat =
     map (\<lambda>m. [button (([CHR 0xE2, CHR 0x9C, CHR 0x85] @ '' '') @ display_name m) (''u_kcp_add:'' @ code m)]) (variants_by_category cat)
     @ [[button (e_tr e ''xray.kcp_back_cat'' []) ''u_kcp_init'']]"

definition category_name :: "string \<Rightarrow> string" where
  "category_name cat = (case category_from_code cat of Some n \<Rightarrow> n | None \<Rightarrow> ''unknown'')"

definition handle_kcp_cat :: "env \<Rightarrow> callback_event \<Rightarrow> (world, handler_action) io" where
  "handle_kcp_cat e cb =
     (let cat = argument ''u_kcp_cat:'' ''enc'' (cb_data cb)
      in thenE (edit (cb_target cb) (cb_msg_id cb)
                 (two_paragraphs (e_tr e ''xray.kcp_select_mask'' [category_name cat]) (mask_list (variants_by_category cat)))
                 (Some (cat_rows e cat))) (retE Done))"

definition handle_kcp_add :: "env \<Rightarrow> string \<Rightarrow> callback_event \<Rightarrow> (world, handler_action) io" where
  "handle_kcp_add e pw cb =
     (let c = argument ''u_kcp_add:'' ''ml'' (cb_data cb)
      in if c = ''rl'' then
           thenE (answer (cb_target cb) (cb_callback_id cb) (e_tr e ''xray.kcp_realm_note'' []))
          (thenE (edit (cb_target cb) (cb_msg_id cb)
                   (two_paragraphs (e_tr e ''xray.kcp_stack_more'' [keycap 1 (layer_name pw c)])
                      (e_tr e ''xray.kcp_realm_note'' []))
                   (Some (stack_rows e c))) (retE Done))
         else (case from_code pw c of
             Some m \<Rightarrow>
               (case is_compatible_with m [] of
                  Inl err \<Rightarrow> thenE (answer (cb_target cb) (cb_callback_id cb) (([CHR 0xE2, CHR 0x9D, CHR 0x8C] @ '' '') @ err)) (retE Done)
                | Inr _ \<Rightarrow> thenE (edit (cb_target cb) (cb_msg_id cb)
                     (e_tr e ''xray.kcp_stack_more'' [keycap 1 (display_name m)]) (Some (stack_rows e c))) (retE Done))
           | None \<Rightarrow> retE Done))"

text \<open>\<open>handle_kcp_more\<close>: one entry per category. \<open>total - added_count\<close> is a subtraction of \<open>usize\<close> values, which
  panics below zero. Buttons of open categories go two to a row.\<close>

definition more_categories :: "(string \<times> string) list" where
  "more_categories = [(''enc'', ([CHR 0xF0, CHR 0x9F, CHR 0x94, CHR 0x90] @ '' Encryption'')), (''obf'', ([CHR 0xF0, CHR 0x9F, CHR 0x8C, CHR 0x80] @ '' Obfuscation'')), (''ext'', ([CHR 0xE2, CHR 0x9A, CHR 0xA1] @ '' Extension''))]"

definition added_count :: "string \<Rightarrow> string list \<Rightarrow> string \<Rightarrow> nat" where
  "added_count pw codes cat =
     length (filter (\<lambda>c. case from_code pw c of Some m \<Rightarrow> category_code m = cat | None \<Rightarrow> False) codes)"

definition disabled_reason :: "string \<Rightarrow> kcp_mask list \<Rightarrow> string option" where
  "disabled_reason cat ms =
     (if cat = ''enc'' \<and> list_ex is_encryption ms then Some ''added''
      else if cat = ''obf'' \<and> list_ex is_sudoku ms then Some ''sudoku added'' else None)"

definition add_to_row :: "inline_button \<Rightarrow> markup \<Rightarrow> markup" where
  "add_to_row b rows =
     (if rows = [] \<or> length (last rows) \<ge> 2 then rows @ [[b]] else butlast rows @ [last rows @ [b]])"

definition more_row :: "string \<Rightarrow> string \<Rightarrow> string \<times> string \<Rightarrow> markup \<Rightarrow> markup option" where
  "more_row pw existing cn rows =
     (let codes = split_on (CHR '','') existing; ms = current_masks pw codes; cat = fst cn; name = snd cn;
          total = length (variants_by_category cat); added = added_count pw codes cat
      in if added > total then None
         else (case disabled_reason cat ms of
             Some reason \<Rightarrow> Some (rows @ [[button (([CHR 0xE2, CHR 0x9B, CHR 0x94] @ '' '') @ name @ '' ('' @ reason @ '')'') ''noop'']])
           | None \<Rightarrow>
               if total - added > 0
               then Some (add_to_row (button (name @ '' ('' @ nat_str (total - added) @ '')'')
                      (''u_kcp_mcat:'' @ existing @ '':'' @ cat)) rows)
               else Some (rows @ [[button (([CHR 0xE2, CHR 0x9B, CHR 0x94] @ '' '') @ name @ '' (max reached)'') ''noop'']])))"

fun more_rows :: "string \<Rightarrow> string \<Rightarrow> (string \<times> string) list \<Rightarrow> markup \<Rightarrow> markup option" where
  "more_rows pw existing [] rows = Some rows"
| "more_rows pw existing (cn # cns) rows =
     (case more_row pw existing cn rows of None \<Rightarrow> None | Some rows' \<Rightarrow> more_rows pw existing cns rows')"

definition handle_kcp_more :: "env \<Rightarrow> string \<Rightarrow> callback_event \<Rightarrow> (world, handler_action) io" where
  "handle_kcp_more e pw cb =
     (let existing = argument ''u_kcp_more:'' [] (cb_data cb); codes = split_on (CHR '','') existing
      in case more_rows pw existing more_categories [] of
           None \<Rightarrow> failE ''panic: attempt to subtract with overflow''
         | Some rows \<Rightarrow>
             thenE (edit (cb_target cb) (cb_msg_id cb)
                      (e_tr e ''xray.kcp_select_cat_stack'' [join [CHR 0x0A] (stack_display pw codes), nat_str (length codes)])
                      (Some (rows @ [[button (e_tr e ''xray.kcp_done_btn'' []) (''u_kcp_done:'' @ existing)],
                         [button (e_tr e ''xray.kcp_clear_btn'' []) ''u_kcp_init'']]))) (retE Done))"

definition mcat_button :: "string \<Rightarrow> string \<Rightarrow> kcp_mask \<Rightarrow> inline_button" where
  "mcat_button pw existing m =
     (let codes = split_on (CHR '','') existing
      in if code m \<in> set codes then button (([CHR 0xE2, CHR 0x98, CHR 0x91, CHR 0xEF, CHR 0xB8, CHR 0x8F] @ '' '') @ display_name m) ''noop''
         else (case is_compatible_with m (current_masks pw codes) of
             Inr _ \<Rightarrow> button (([CHR 0xE2, CHR 0x9C, CHR 0x85] @ '' '') @ display_name m) (''u_kcp_push:'' @ existing @ '':'' @ code m)
           | Inl err \<Rightarrow> button (([CHR 0xE2, CHR 0x9B, CHR 0x94] @ '' '') @ display_name m @ '' ('' @ err @ '')'') ((''noop:'' @ [CHR 0xE2, CHR 0x9B, CHR 0x94] @ '':'') @ code m)))"

definition handle_kcp_mcat :: "env \<Rightarrow> string \<Rightarrow> callback_event \<Rightarrow> (world, handler_action) io" where
  "handle_kcp_mcat e pw cb =
     (case split_once (CHR '':'') (argument ''u_kcp_mcat:'' [] (cb_data cb)) of
        None \<Rightarrow> retE Done
      | Some (existing, cat) \<Rightarrow>
          (let variants = variants_by_category cat;
               rows = map (\<lambda>m. [mcat_button pw existing m]) variants
                 @ [[button (e_tr e ''xray.kcp_back_cat'' []) (''u_kcp_more:'' @ existing)],
                    [button (e_tr e ''xray.kcp_done_btn'' []) (''u_kcp_done:'' @ existing)],
                    [button (e_tr e ''xray.kcp_clear_btn'' []) ''u_kcp_init'']];
               txt = e_tr e ''xray.kcp_current_stack'' [] @ [CHR 0x0A]
                 @ two_paragraphs (join [CHR 0x0A] (stack_display pw (split_on (CHR '','') existing)))
                     (two_paragraphs (e_tr e ''xray.kcp_select_mask'' [category_name cat]) (mask_list variants))
           in thenE (edit (cb_target cb) (cb_msg_id cb) txt (Some rows)) (retE Done)))"

definition handle_kcp_push :: "env \<Rightarrow> string \<Rightarrow> callback_event \<Rightarrow> (world, handler_action) io" where
  "handle_kcp_push e pw cb =
     (case split_once (CHR '':'') (argument ''u_kcp_push:'' [] (cb_data cb)) of
        None \<Rightarrow> retE Done
      | Some (existing, new_code) \<Rightarrow>
          (let codes = (if existing = [] then [] else split_on (CHR '','') existing)
           in case from_code pw new_code of
                None \<Rightarrow> thenE (answer (cb_target cb) (cb_callback_id cb) (e_tr e ''xray.kcp_unknown_type'' [])) (retE Done)
              | Some new_mask \<Rightarrow>
                  (case is_compatible_with new_mask (current_masks pw codes) of
                     Inl err \<Rightarrow> thenE (answer (cb_target cb) (cb_callback_id cb) (([CHR 0xE2, CHR 0x9D, CHR 0x8C] @ '' '') @ err)) (retE Done)
                   | Inr _ \<Rightarrow>
                       (let new_stack = (if existing = [] then new_code else existing @ '','' @ new_code)
                        in thenE (edit (cb_target cb) (cb_msg_id cb)
                             (e_tr e ''xray.kcp_stack_more'' [join [CHR 0x0A] (stack_display pw (split_on (CHR '','') new_stack))])
                             (Some (stack_rows e new_stack))) (retE Done)))))"

text \<open>\<open>v6\<close> tells whether the host has a public IPv6 address. \<open>codes.is_empty()\<close> never holds: \<open>split\<close> yields at
  least one piece.\<close>

definition done_rows :: "env \<Rightarrow> bool \<Rightarrow> string \<Rightarrow> string \<Rightarrow> markup" where
  "done_rows e v6 ordered original =
     [button ([CHR 0xF0, CHR 0x9F, CHR 0x8C, CHR 0x90] @ '' IPv4 (0.0.0.0)'') (''u_kcp_ip:'' @ ordered @ '':4'')
        # (if v6 then [button ([CHR 0xF0, CHR 0x9F, CHR 0x8C, CHR 0x90] @ '' IPv6 (::)'') (''u_kcp_ip:'' @ ordered @ '':6'')] else []),
      [button (e_tr e ''xray.dual_v4'' []) (''u_kcp_ip:'' @ ordered @ '':s4'')],
      [button (e_tr e ''xray.dual_v6'' []) (''u_kcp_ip:'' @ ordered @ '':s6'')],
      [button (e_tr e ''menu.back'' []) (''u_kcp_more:'' @ original)]]"

definition handle_kcp_done :: "env \<Rightarrow> bool \<Rightarrow> string \<Rightarrow> callback_event \<Rightarrow> (world, handler_action) io" where
  "handle_kcp_done e v6 pw cb =
     (let codes_str = argument ''u_kcp_done:'' [] (cb_data cb);
          ordered = canonical_order (List.map_filter (from_code pw) (split_on (CHR '','') codes_str))
      in case validate_stack ordered of
           Inl err \<Rightarrow> thenE (answer (cb_target cb) (cb_callback_id cb) (([CHR 0xE2, CHR 0x9D, CHR 0x8C] @ '' '') @ err)) (retE Done)
         | Inr _ \<Rightarrow>
             (let warnings = get_stack_warnings ordered;
                  warning_text = (if warnings = [] then [] else two_paragraphs [] (join [CHR 0x0A] warnings));
                  ordered_str = join '','' (map code ordered)
              in thenE (edit (cb_target cb) (cb_msg_id cb)
                   (e_tr e ''xray.kcp_stack_config'' [join ('' '' @ [CHR 0xE2, CHR 0x86, CHR 0x92] @ '' '') (map display_name ordered), warning_text,
                      e_tr e ''xray.batch_step_ip'' []])
                   (Some (done_rows e v6 ordered_str codes_str))) (retE Done)))"

section \<open>Choosing the address family and the quantity\<close>

text \<open>\<open>rfind(':')\<close>: the text before and after the last colon. Without one, \<open>rest[last_colon + 1..]\<close> panics.\<close>

definition rsplit_once :: "char \<Rightarrow> string \<Rightarrow> (string \<times> string) option" where
  "rsplit_once c s = map_option (\<lambda>(a, b). (rev b, rev a)) (split_once c (rev s))"

definition ip_of_code :: "string \<Rightarrow> ip_version" where
  "ip_of_code c = (if c = ''6'' then IPv6 else if c = ''s4'' then SplitStackV4Primary
     else if c = ''s6'' then SplitStackV6Primary else IPv4)"

definition ip_display :: "env \<Rightarrow> ip_version \<Rightarrow> string" where
  "ip_display e v = (case v of IPv4 \<Rightarrow> ''IPv4'' | IPv6 \<Rightarrow> ''IPv6''
     | SplitStackV4Primary \<Rightarrow> e_tr e ''xray.dual_v4'' [] | SplitStackV6Primary \<Rightarrow> e_tr e ''xray.dual_v6'' [])"

definition quantity_rows :: "env \<Rightarrow> string \<Rightarrow> string \<Rightarrow> markup" where
  "quantity_rows e codes ip =
     map (map (\<lambda>n. button n (''u_kcp_ok:'' @ codes @ '':'' @ ip @ '':'' @ n))) [[''1'', ''3'', ''5''], [''10'', ''20'', ''50'']]
     @ [[button (e_tr e ''menu.back'' []) (''u_kcp_done:'' @ codes)]]"

definition handle_kcp_ip :: "env \<Rightarrow> string \<Rightarrow> callback_event \<Rightarrow> (world, handler_action) io" where
  "handle_kcp_ip e pw cb =
     (case rsplit_once (CHR '':'') (argument ''u_kcp_ip:'' [] (cb_data cb)) of
        None \<Rightarrow> failE ''panic: byte index out of bounds''
      | Some (codes, ip) \<Rightarrow>
          thenE (edit (cb_target cb) (cb_msg_id cb)
                   (e_tr e ''xray.kcp_batch_title'' [join [CHR 0x0A] (stack_display pw (split_on (CHR '','') codes)),
                      ip_display e (ip_of_code ip), ([CHR 0xE2, CHR 0xAC, CHR 0x87, CHR 0xEF, CHR 0xB8, CHR 0x8F] @ '' <b>Please select quantity:</b>'')])
                   (Some (quantity_rows e codes ip))) (retE Done))"

text \<open>\<open>parse::<usize>()\<close> with \<open>unwrap_or(0)\<close>.\<close>

definition quantity :: "string \<Rightarrow> nat" where
  "quantity s = (case parse_u64 s of Some n \<Rightarrow> n | None \<Rightarrow> 0)"

definition handle_kcp_ok ::
  "env \<Rightarrow> string \<Rightarrow> (nat \<Rightarrow> ip_version \<Rightarrow> string list \<Rightarrow> string + batch_creation_result) \<Rightarrow> callback_event
     \<Rightarrow> (world, handler_action) io" where
  "handle_kcp_ok e pw create cb =
     (case rsplit_once (CHR '':'') (argument ''u_kcp_ok:'' [] (cb_data cb)) of
        None \<Rightarrow> retE Done
      | Some (remaining, cnt) \<Rightarrow>
          (case rsplit_once (CHR '':'') remaining of
             None \<Rightarrow> failE ''panic: byte index out of bounds''
           | Some (codes_str, ip) \<Rightarrow>
               (let n = quantity cnt; ip_version = ip_of_code ip; codes = split_on (CHR '','') codes_str;
                    mask_label = join ''+'' (map display_name (List.map_filter (from_code pw) codes))
                in thenE (answer (cb_target cb) (cb_callback_id cb) (e_tr e ''xray.gen_kcp_progress'' [nat_str n]))
                  (bindE (ask (Maintenance ''batch_create_kcp'') (Inr (create n ip_version codes))) (\<lambda>res.
                   case res of
                     Inr result \<Rightarrow>
                       (let links = concat (map (\<lambda>l. l @ [CHR 0x0A, CHR 0x0A]) (br_links result));
                            msg = e_tr e ''xray.kcp_batch_done''
                                [nat_str (br_created_count result), ip_display e ip_version, mask_label]
                              @ (case br_config_file result of
                                   Some f \<Rightarrow> two_paragraphs [] (e_tr e ''xray.kcp_config_file'' [f]) | None \<Rightarrow> [])
                        in thenE (if links = [] then retE ()
                                  else catchE (send (cb_target cb) links None) (\<lambda>_. retE ()))
                          (thenE (catchE (send (cb_target cb) msg None) (\<lambda>_. retE ()))
                          (thenE (emit (SpawnTask ''delete batch messages'')) (retE Done))))
                   | Inl err \<Rightarrow>
                       thenE (catchE (send (cb_target cb) (e_tr e ''xray.gen_fail'' [err]) None) (\<lambda>_. retE ()))
                             (retE Done))))))"

text \<open>The arms of \<open>handle\<close> for the dialogue.\<close>

definition handle_kcp ::
  "env \<Rightarrow> bool \<Rightarrow> string \<Rightarrow> (nat \<Rightarrow> ip_version \<Rightarrow> string list \<Rightarrow> string + batch_creation_result) \<Rightarrow> callback_event
     \<Rightarrow> (world, handler_action) io" where
  "handle_kcp e v6 pw create cb =
     (let d = cb_data cb
      in if d = ''u_kcp_init'' then handle_kcp_init e cb
         else if prefix ''u_kcp_cat:'' d then handle_kcp_cat e cb
         else if prefix ''u_kcp_add:'' d then handle_kcp_add e pw cb
         else if prefix ''u_kcp_more:'' d then handle_kcp_more e pw cb
         else if prefix ''u_kcp_mcat:'' d then handle_kcp_mcat e pw cb
         else if prefix ''u_kcp_push:'' d then handle_kcp_push e pw cb
         else if prefix ''u_kcp_done:'' d then handle_kcp_done e v6 pw cb
         else if prefix ''u_kcp_ip:'' d then handle_kcp_ip e pw cb
         else if prefix ''u_kcp_ok:'' d then handle_kcp_ok e pw create cb
         else retE Done)"

section \<open>Lemmas: stacks as text\<close>

lemma split_join:
  "cs \<noteq> [] \<Longrightarrow> \<forall>c \<in> set cs. x \<notin> set c \<Longrightarrow> split_on x (join [x] cs) = cs"
proof (induction cs)
  case (Cons y ys)
  then show ?case by (cases ys) (simp_all add: split_on_free split_on_append)
qed simp

lemma join_snoc: "cs \<noteq> [] \<Longrightarrow> join sep (cs @ [c]) = join sep cs @ sep @ c"
  by (induction sep cs rule: join.induct) simp_all

lemma join_free: "\<forall>c \<in> set cs. x \<notin> set c \<Longrightarrow> x \<notin> set sep \<Longrightarrow> x \<notin> set (join sep cs)"
  by (induction sep cs rule: join.induct) auto

lemma code_free: "from_code pw c \<noteq> None \<Longrightarrow> c \<noteq> [] \<and> CHR '','' \<notin> set c \<and> CHR '':'' \<notin> set c"
  unfolding from_code_dom by auto

lemma rsplit_once_eq: "CHR '':'' \<notin> set b \<Longrightarrow> rsplit_once (CHR '':'') (a @ CHR '':'' # b) = Some (a, b)"
  using split_once_Some_iff [of "CHR '':''" "rev (a @ CHR '':'' # b)" "rev b" "rev a"] by (simp add: rsplit_once_def)

lemma split_once_eq: "x \<notin> set a \<Longrightarrow> split_once x (a @ x # b) = Some (a, b)"
  by (simp add: split_once_Some_iff)

definition masks_of :: "string \<Rightarrow> string list \<Rightarrow> kcp_mask list" where
  "masks_of pw cs = map (\<lambda>c. the (from_code pw c)) cs"

definition known :: "string \<Rightarrow> string list \<Rightarrow> bool" where
  "known pw cs \<longleftrightarrow> (\<forall>c \<in> set cs. from_code pw c \<noteq> None)"

definition stack_ok :: "string \<Rightarrow> string \<Rightarrow> bool" where
  "stack_ok pw s \<longleftrightarrow> (\<exists>cs. s = join '','' cs \<and> cs \<noteq> [] \<and> known pw cs \<and> stack_inv (masks_of pw cs))"

lemma known_masks:
  assumes "known pw cs"
  shows "List.map_filter (from_code pw) cs = masks_of pw cs" "current_masks pw cs = masks_of pw cs"
    "map code (masks_of pw cs) = cs"
proof -
  show m: "List.map_filter (from_code pw) cs = masks_of pw cs"
    using assms by (induction cs) (auto simp: known_def masks_of_def List.map_filter_def)
  have "filter (\<lambda>c. c \<noteq> []) cs = cs" using assms code_free by (auto simp: known_def filter_id_conv)
  then show "current_masks pw cs = masks_of pw cs" using m by (simp add: current_masks_def)
  show "map code (masks_of pw cs) = cs"
    using assms unfolding known_def masks_of_def map_map comp_def
    by (intro map_idI) (metis code_from_code option.collapse)
qed

lemma known_split: "known pw cs \<Longrightarrow> cs \<noteq> [] \<Longrightarrow> split_on (CHR '','') (join '','' cs) = cs"
  using code_free by (intro split_join) (auto simp: known_def)

lemma stack_okE:
  assumes "stack_ok pw s"
  obtains cs where "s = join '','' cs" "cs \<noteq> []" "known pw cs" "stack_inv (masks_of pw cs)"
    "split_on (CHR '','') s = cs" "CHR '':'' \<notin> set s" "s \<noteq> []"
proof -
  obtain cs where cs: "s = join '','' cs" "cs \<noteq> []" "known pw cs" "stack_inv (masks_of pw cs)"
    using assms unfolding stack_ok_def by blast
  have "\<forall>c \<in> set cs. CHR '':'' \<notin> set c" using cs(3) code_free unfolding known_def by blast
  then have "CHR '':'' \<notin> set s" unfolding cs(1) by (rule join_free) simp
  moreover have "split_on (CHR '','') s = cs" using known_split cs(1-3) by simp
  moreover have "s \<noteq> []"
  proof
    assume "s = []"
    then have "cs = [[]]" using calculation(2) by simp
    then show False using cs(3) by (simp add: known_def from_code_def)
  qed
  ultimately show thesis using that cs by blast
qed

lemma stack_ok_push:
  assumes "stack_ok pw s" "from_code pw c = Some m"
    and "is_compatible_with m (current_masks pw (split_on (CHR '','') s)) = Inr ()"
  shows "stack_ok pw (s @ '','' @ c)"
proof -
  obtain cs where cs: "s = join '','' cs" "cs \<noteq> []" "known pw cs" "stack_inv (masks_of pw cs)"
    "split_on (CHR '','') s = cs" using assms(1) by (rule stack_okE)
  have k: "known pw (cs @ [c])" using cs(3) assms(2) by (simp add: known_def)
  moreover have "stack_inv (masks_of pw (cs @ [c]))"
    using stack_inv_snoc [OF cs(4), of m] assms(2,3) known_masks(2) [OF cs(3)] cs(5) by (simp add: masks_of_def)
  ultimately show ?thesis
    using cs(1,2) unfolding stack_ok_def by (intro exI [of _ "cs @ [c]"]) (simp add: join_snoc)
qed

lemma stack_ok_single:
  assumes "from_code pw c = Some m" "is_compatible_with m [] = Inr ()"
  shows "stack_ok pw c"
proof -
  have "stack_inv ([] @ [m])" by (rule stack_inv_snoc) (use assms(2) in \<open>simp_all add: stack_inv_def\<close>)
  then show ?thesis
    using assms(1) unfolding stack_ok_def by (intro exI [of _ "[c]"]) (simp add: known_def masks_of_def)
qed

lemma known_map_code:
  assumes "known pw cs" "set ms \<subseteq> set (masks_of pw cs)"
  shows "known pw (map code ms)" "masks_of pw (map code ms) = ms"
proof -
  have "from_code pw (code m) = Some m" if m: "m \<in> set ms" for m
  proof -
    obtain c where "c \<in> set cs" "m = the (from_code pw c)" using subsetD [OF assms(2) m] by (auto simp: masks_of_def)
    then have "from_code pw c = Some m" using assms(1) by (auto simp: known_def)
    then show ?thesis using code_from_code by metis
  qed
  then show "known pw (map code ms)" "masks_of pw (map code ms) = ms"
    by (auto simp: known_def masks_of_def intro: map_idI)
qed

lemma stack_ok_order:
  assumes "stack_ok pw s"
  shows "validate_stack (canonical_order (List.map_filter (from_code pw) (split_on (CHR '','') s))) = Inr ()"
    "stack_ok pw (join '','' (map code (canonical_order (List.map_filter (from_code pw) (split_on (CHR '','') s)))))"
proof -
  obtain cs where cs: "cs \<noteq> []" "known pw cs" "stack_inv (masks_of pw cs)" "split_on (CHR '','') s = cs"
    using assms by (rule stack_okE)
  let ?ms = "canonical_order (masks_of pw cs)"
  have perm: "mset ?ms = mset (masks_of pw cs)" by (simp add: canonical_order_def)
  have inv: "stack_inv ?ms" using stack_inv_perm [OF perm] cs(3) by simp
  have ne: "?ms \<noteq> []" using cs(1) perm by (metis masks_of_def map_is_Nil_conv mset_zero_iff)
  show "validate_stack (canonical_order (List.map_filter (from_code pw) (split_on (CHR '','') s))) = Inr ()"
    using stack_inv_valid [OF inv ne] by (simp add: cs(4) known_masks(1) [OF cs(2)])
  have "set ?ms \<subseteq> set (masks_of pw cs)" by (simp add: canonical_order_def)
  note km = known_map_code [OF cs(2) this]
  show "stack_ok pw (join '','' (map code (canonical_order (List.map_filter (from_code pw) (split_on (CHR '','') s)))))"
    unfolding cs(4) known_masks(1) [OF cs(2)] stack_ok_def
    using km inv ne by (intro exI [of _ "map code ?ms"]) simp
qed

section \<open>Lemmas: what the buttons carry\<close>

text \<open>The callback data the dialogue can offer.\<close>

inductive good_data :: "string \<Rightarrow> string \<Rightarrow> bool" for pw where
  good_other: "\<not> prefix ''u_kcp_'' d \<Longrightarrow> good_data pw d"
| good_init: "good_data pw ''u_kcp_init''"
| good_cat: "good_data pw (''u_kcp_cat:'' @ c)"
| good_add: "good_data pw (''u_kcp_add:'' @ code m)"
| good_more: "stack_ok pw s \<Longrightarrow> good_data pw (''u_kcp_more:'' @ s)"
| good_done: "stack_ok pw s \<Longrightarrow> good_data pw (''u_kcp_done:'' @ s)"
| good_mcat: "stack_ok pw s \<Longrightarrow> good_data pw (''u_kcp_mcat:'' @ s @ CHR '':'' # c)"
| good_push: "stack_ok pw s \<Longrightarrow> good_data pw (''u_kcp_push:'' @ s @ CHR '':'' # c)"
| good_ip: "stack_ok pw s \<Longrightarrow> CHR '':'' \<notin> set c \<Longrightarrow> good_data pw (''u_kcp_ip:'' @ s @ CHR '':'' # c)"
| good_ok: "stack_ok pw s \<Longrightarrow> CHR '':'' \<notin> set c \<Longrightarrow> CHR '':'' \<notin> set n
    \<Longrightarrow> good_data pw (''u_kcp_ok:'' @ s @ CHR '':'' # c @ CHR '':'' # n)"

definition good_rows :: "string \<Rightarrow> markup \<Rightarrow> bool" where
  "good_rows pw rows \<longleftrightarrow> (\<forall>row \<in> set rows. \<forall>b \<in> set row. good_data pw (btn_data b))"

lemma good_rows_simps [simp]:
  "good_rows pw [] \<longleftrightarrow> True"
  "good_rows pw (r # rs) \<longleftrightarrow> (\<forall>b \<in> set r. good_data pw (btn_data b)) \<and> good_rows pw rs"
  "good_rows pw (xs @ ys) \<longleftrightarrow> good_rows pw xs \<and> good_rows pw ys"
  by (auto simp: good_rows_def)

lemma btn_data_button [simp]: "btn_data (button l d) = d"
  by (simp add: button_def)

fun bad_page :: "string \<Rightarrow> effect \<Rightarrow> bool" where
  "bad_page pw (Call (EditMessage t m c)) = (\<exists>rows. mc_markup c = Some rows \<and> \<not> good_rows pw rows)"
| "bad_page pw _ = False"

lemma good_stack_rows: "stack_ok pw s \<Longrightarrow> good_rows pw (stack_rows e s)"
  by (simp add: stack_rows_def good_init good_more [simplified] good_done [simplified])

lemma good_init_rows: "good_rows pw (init_rows e)"
  by (simp add: init_rows_def good_other good_cat [of pw "''enc''", simplified] good_cat [of pw "''obf''", simplified]
      good_cat [of pw "''dis''", simplified] good_cat [of pw "''ext''", simplified])

lemma good_cat_rows: "good_rows pw (cat_rows e c)"
proof -
  have "good_rows pw (map (\<lambda>m. [button (([CHR 0xE2, CHR 0x9C, CHR 0x85] @ '' '') @ display_name m) (''u_kcp_add:'' @ code m)]) ms)" for ms
    by (induction ms) (simp_all add: good_add [simplified])
  then show ?thesis by (simp add: cat_rows_def good_init del: append.append_Cons)
qed

lemma good_add_to_row: "good_rows pw rows \<Longrightarrow> good_data pw (btn_data b) \<Longrightarrow> good_rows pw (add_to_row b rows)"
  by (cases rows rule: rev_cases) (auto simp: add_to_row_def)

lemma good_more_row:
  assumes "stack_ok pw s" "good_rows pw rows" "more_row pw s cn rows = Some rows'"
  shows "good_rows pw rows'"
proof -
  have n: "good_data pw ''noop''" by (rule good_other) simp
  have m: "good_data pw (''u_kcp_mcat:'' @ s @ '':'' @ fst cn)" using good_mcat [OF assms(1), of "fst cn"] by simp
  show ?thesis
    using assms(3) unfolding more_row_def Let_def
    by (auto split: if_splits option.splits simp: assms(2) n intro!: good_add_to_row [OF assms(2)] simp del: append.append_Cons)
       (use m in simp_all)
qed

lemma good_more_rows:
  "stack_ok pw s \<Longrightarrow> good_rows pw rows \<Longrightarrow> more_rows pw s cns rows = Some rows' \<Longrightarrow> good_rows pw rows'"
  by (induction pw s cns rows rule: more_rows.induct) (auto split: option.splits dest: good_more_row)

lemma good_mcat_button: "stack_ok pw s \<Longrightarrow> good_data pw (btn_data (mcat_button pw s m))"
  using good_push [of pw s "code m"]
  by (auto simp: mcat_button_def Let_def intro!: good_other split: sum.splits)

lemma good_done_rows:
  assumes "stack_ok pw s" "stack_ok pw s'"
  shows "good_rows pw (done_rows e v6 s s')"
proof -
  have "good_data pw (''u_kcp_ip:'' @ s @ '':'' @ v)" if "CHR '':'' \<notin> set v" for v
    using good_ip [OF assms(1) that] by simp
  from this [of "''4''"] this [of "''6''"] this [of "''s4''"] this [of "''s6''"] show ?thesis
    using good_more [OF assms(2)] by (simp add: done_rows_def)
qed

lemma good_quantity_rows:
  assumes "stack_ok pw s" "CHR '':'' \<notin> set ip"
  shows "good_rows pw (quantity_rows e s ip)"
proof -
  have "good_data pw (''u_kcp_ok:'' @ s @ '':'' @ ip @ '':'' @ n)" if "CHR '':'' \<notin> set n" for n
    using good_ok [OF assms that] by simp
  from this [of "''1''"] this [of "''3''"] this [of "''5''"] this [of "''10''"] this [of "''20''"] this [of "''50''"]
  show ?thesis using good_done [OF assms(1)] by (simp add: quantity_rows_def)
qed

text \<open>Without network errors a handler returns \<open>Done\<close>.\<close>

definition smooth :: "(world, 'a) io \<Rightarrow> 'a \<Rightarrow> bool" where
  "smooth m a \<longleftrightarrow> (\<forall>w. (\<forall>n. net w n = None) \<longrightarrow> fst (m w) = Inr a \<and> net (snd (m w)) = net w)"

lemma smooth_perform: "smooth (perform ef) ()"
  by (simp add: smooth_def perform_def)

lemma smooth_thenE: "smooth m x \<Longrightarrow> smooth k a \<Longrightarrow> smooth (thenE m k) a"
  unfolding smooth_def thenE_def bindE_def
  by (metis (no_types, lifting) case_prod_conv old.sum.simps(6) surjective_pairing)

lemma smooth_bindE: "smooth m x \<Longrightarrow> smooth (k x) a \<Longrightarrow> smooth (bindE m k) a"
  unfolding smooth_def bindE_def
  by (metis (no_types, lifting) case_prod_conv old.sum.simps(6) surjective_pairing)

lemma smooth_ignored: "smooth m x \<Longrightarrow> smooth (catchE m (\<lambda>_. retE ())) ()"
  unfolding smooth_def catchE_def by (auto simp: split_beta)

lemma smooth_basic:
  "smooth (retE a) a" "smooth (send t x m) ()" "smooth (edit t i x m) ()" "smooth (answer t i x) ()"
  "smooth (emit ef) ()" "smooth (ask ef (Inr b)) b"
  by (simp_all add: send_def edit_def answer_def smooth_perform) (simp_all add: smooth_def emit_def ask_def)

lemmas smooth_intros = smooth_thenE smooth_ignored smooth_basic

lemma smooth_edit_done: "smooth (thenE (edit t i x m) (retE Done)) Done"
  by (intro smooth_thenE [OF smooth_basic(3)] smooth_basic)

lemma smooth_answer_done: "smooth (thenE (answer t i x) (retE Done)) Done"
  by (intro smooth_thenE [OF smooth_basic(4)] smooth_basic)

lemma avoids_edit_done: "good_rows pw rows \<Longrightarrow> avoids (bad_page pw) (thenE (edit t i x (Some rows)) (retE Done))"
  by (intro avoid) simp

lemma avoids_answer_done: "avoids (bad_page pw) (thenE (answer t i x) (retE Done))"
  by (intro avoid) simp

section \<open>Lemmas: the handlers\<close>

text \<open>Each handler, on data the dialogue offers, shows only good data and does not fail by itself.\<close>

definition tame :: "string \<Rightarrow> (world, handler_action) io \<Rightarrow> bool" where
  "tame pw m \<longleftrightarrow> avoids (bad_page pw) m \<and> smooth m Done"

lemma tame_edit: "good_rows pw rows \<Longrightarrow> tame pw (thenE (edit t i x (Some rows)) (retE Done))"
  by (simp add: tame_def smooth_edit_done avoids_edit_done)

lemma tame_answer: "tame pw (thenE (answer t i x) (retE Done))"
  by (simp add: tame_def smooth_answer_done avoids_answer_done)

lemma tame_ret: "tame pw (retE Done)"
  by (simp add: tame_def smooth_basic avoid)

lemma tame_then_answer: "tame pw m \<Longrightarrow> tame pw (thenE (answer t i x) m)"
  unfolding tame_def by (auto intro!: avoid smooth_thenE [OF smooth_basic(4)])

lemma argument_eq [simp]: "argument p d (p @ s) = s"
  by (simp add: argument_def strip_prefix_def)

lemma tame_add:
  assumes "cb_data cb = ''u_kcp_add:'' @ c"
  shows "tame pw (handle_kcp_add e pw cb)"
proof -
  have realm: "stack_ok pw ''rl''"
    by (rule stack_ok_single [of _ _ "Realm [] []"])
       (simp_all add: from_code_def is_compatible_with_def is_encryption_def is_sudoku_def)
  show ?thesis
    unfolding handle_kcp_add_def assms argument_eq Let_def
    by (auto split: option.splits sum.splits intro!: tame_then_answer tame_edit tame_answer tame_ret good_stack_rows realm
        stack_ok_single)
qed

lemma added_count_masks: "known pw cs \<Longrightarrow> added_count pw cs cat = length (filter (\<lambda>m. category_code m = cat) (masks_of pw cs))"
  by (induction cs) (auto simp: added_count_def masks_of_def known_def)

lemma added_bound:
  assumes "stack_inv ms" "cat \<in> {''enc'', ''obf'', ''ext''}"
  shows "length (filter (\<lambda>m. category_code m = cat) ms) \<le> length (variants_by_category cat)"
proof -
  have len: "length (variants_by_category ''enc'') = 8" "length (variants_by_category ''obf'') = 3"
    "length (variants_by_category ''ext'') = 3"
    by (simp_all add: variants_by_category_def all_variants_def)
  have enc: "(\<lambda>m. category_code m = ''enc'') = is_encryption"
    by (rule ext) (simp add: is_encryption_def split: kcp_mask.splits)
  have ext: "(\<lambda>m. category_code m = ''ext'') = is_transport_replacement"
    by (rule ext) (simp add: is_transport_replacement_def is_xdns_def is_xicmp_def is_realm_def split: kcp_mask.splits)
  have "length (filter (\<lambda>m. category_code m = ''obf'') ms) \<le> 3"
  proof -
    let ?cs = "map code (filter (\<lambda>m. category_code m = ''obf'') ms)"
    have d: "distinct ?cs" using assms(1) by (simp add: stack_inv_def distinct_map_filter)
    have "code m \<in> {''no'', ''sa'', ''su''}" if "category_code m = ''obf''" for m
      using that by (cases m) simp_all
    then have "set ?cs \<subseteq> {''no'', ''sa'', ''su''}" by auto
    then have "card (set ?cs) \<le> card {''no'', ''sa'', ''su''}" by (intro card_mono) simp_all
    then show ?thesis using distinct_card [OF d] by simp
  qed
  then show ?thesis using assms by (auto simp: len enc ext stack_inv_def)
qed

lemma more_rows_some:
  assumes "stack_ok pw s" "set cns \<subseteq> set more_categories"
  shows "\<exists>rows'. more_rows pw s cns rows = Some rows'"
  using assms(2)
proof (induction cns arbitrary: rows)
  case (Cons cn cns)
  obtain cs where cs: "known pw cs" "stack_inv (masks_of pw cs)" "split_on (CHR '','') s = cs"
    using assms(1) by (rule stack_okE)
  have "fst cn \<in> {''enc'', ''obf'', ''ext''}" using Cons.prems by (auto simp: more_categories_def)
  then have "\<not> added_count pw cs (fst cn) > length (variants_by_category (fst cn))"
    using added_bound [OF cs(2)] added_count_masks [OF cs(1)] by (simp add: not_less)
  then have "more_row pw s cn rows \<noteq> None"
    unfolding more_row_def Let_def cs(3) by (simp split: option.split)
  then obtain rows' where "more_row pw s cn rows = Some rows'" by blast
  then show ?case using Cons by simp
qed simp

lemma tame_more:
  assumes "cb_data cb = ''u_kcp_more:'' @ s" "stack_ok pw s"
  shows "tame pw (handle_kcp_more e pw cb)"
proof -
  obtain rows where rows: "more_rows pw s more_categories [] = Some rows"
    using more_rows_some [OF assms(2), of more_categories "[]"] by auto
  have "good_rows pw rows" using good_more_rows [OF assms(2) _ rows] by simp
  then show ?thesis
    unfolding handle_kcp_more_def assms(1) argument_eq Let_def rows option.case
    using good_done [OF assms(2)] by (intro tame_edit) (simp add: good_init)
qed

lemma tame_mcat:
  assumes "cb_data cb = ''u_kcp_mcat:'' @ s @ CHR '':'' # c" "stack_ok pw s"
  shows "tame pw (handle_kcp_mcat e pw cb)"
proof -
  have free: "CHR '':'' \<notin> set s" using assms(2) by (rule stack_okE)
  have "good_rows pw (map (\<lambda>m. [mcat_button pw s m]) ms)" for ms
    by (induction ms) (simp_all add: good_mcat_button [OF assms(2)])
  then show ?thesis
    unfolding handle_kcp_mcat_def assms(1) argument_eq split_once_eq [OF free] option.case prod.case Let_def
    using good_more [OF assms(2)] good_done [OF assms(2)] by (intro tame_edit) (simp add: good_init)
qed

lemma tame_push:
  assumes "cb_data cb = ''u_kcp_push:'' @ s @ CHR '':'' # c" "stack_ok pw s"
  shows "tame pw (handle_kcp_push e pw cb)"
proof -
  have free: "CHR '':'' \<notin> set s" and ne: "s \<noteq> []" using assms(2) by (auto elim: stack_okE)
  have "good_rows pw (stack_rows e (s @ '','' @ c))"
    if "from_code pw c = Some m" "is_compatible_with m (current_masks pw (split_on (CHR '','') s)) = Inr ()" for m
    by (rule good_stack_rows [OF stack_ok_push [OF assms(2) that]])
  then show ?thesis
    unfolding handle_kcp_push_def assms(1) argument_eq split_once_eq [OF free] option.case prod.case Let_def
    by (auto simp: ne split: option.splits sum.splits intro!: tame_answer tame_edit)
qed

lemma tame_done:
  assumes "cb_data cb = ''u_kcp_done:'' @ s" "stack_ok pw s"
  shows "tame pw (handle_kcp_done e v6 pw cb)"
  unfolding handle_kcp_done_def assms(1) argument_eq Let_def stack_ok_order(1) [OF assms(2)] sum.case
  by (intro tame_edit good_done_rows stack_ok_order(2) assms(2))

lemma tame_ip:
  assumes "cb_data cb = ''u_kcp_ip:'' @ s @ CHR '':'' # c" "stack_ok pw s" "CHR '':'' \<notin> set c"
  shows "tame pw (handle_kcp_ip e pw cb)"
  unfolding handle_kcp_ip_def assms(1) argument_eq rsplit_once_eq [OF assms(3)] option.case prod.case
  by (intro tame_edit good_quantity_rows assms)

lemma tame_ok:
  assumes "cb_data cb = ''u_kcp_ok:'' @ (s @ CHR '':'' # c) @ CHR '':'' # n" "CHR '':'' \<notin> set c" "CHR '':'' \<notin> set n"
  shows "tame pw (handle_kcp_ok e pw create cb)"
  unfolding handle_kcp_ok_def assms(1) argument_eq rsplit_once_eq [OF assms(3)] rsplit_once_eq [OF assms(2)]
    option.case prod.case Let_def tame_def
  by (intro conjI avoid smooth_thenE [OF smooth_basic(4)] smooth_bindE [OF smooth_basic(6)])
     (auto split: sum.splits intro!: avoid smooth_thenE [OF smooth_ignored [OF smooth_basic(2)]] smooth_basic
        smooth_thenE [OF smooth_basic(5)] smooth_thenE [OF smooth_basic(1)])

lemma tame_handle:
  assumes "good_data pw (cb_data cb)"
  shows "tame pw (handle_kcp e v6 pw create cb)"
  using assms
proof cases
  case good_other
  then have "\<not> prefix (''u_kcp_'' @ p) (cb_data cb)" for p by (auto simp: prefix_def)
  from this [of "''cat:''"] this [of "''add:''"] this [of "''more:''"] this [of "''mcat:''"] this [of "''push:''"]
    this [of "''done:''"] this [of "''ip:''"] this [of "''ok:''"] good_other
  show ?thesis by (auto simp: handle_kcp_def Let_def tame_ret)
qed (simp_all add: handle_kcp_def handle_kcp_init_def handle_kcp_cat_def Let_def tame_edit good_init_rows good_cat_rows
    tame_add tame_more tame_mcat tame_push tame_done tame_ip tame_ok)

text \<open>The data of the buttons a user can press, starting from the dialogue's first page.\<close>

inductive offered ::
  "env \<Rightarrow> bool \<Rightarrow> string \<Rightarrow> (nat \<Rightarrow> ip_version \<Rightarrow> string list \<Rightarrow> string + batch_creation_result) \<Rightarrow> string \<Rightarrow> bool"
  for e v6 pw create where
  offered_first: "offered e v6 pw create ''u_kcp_init''"
| offered_press: "offered e v6 pw create (cb_data cb)
    \<Longrightarrow> Call (EditMessage t i c) \<in> set (drop (length (trace w)) (trace (snd (handle_kcp e v6 pw create cb w))))
    \<Longrightarrow> mc_markup c = Some rows \<Longrightarrow> row \<in> set rows \<Longrightarrow> b \<in> set row
    \<Longrightarrow> offered e v6 pw create (btn_data b)"

lemma offered_good: "offered e v6 pw create d \<Longrightarrow> good_data pw d"
proof (induction rule: offered.induct)
  case offered_first
  show ?case by (rule good_init)
next
  case (offered_press cb t i c w rows row b)
  have "avoids (bad_page pw) (handle_kcp e v6 pw create cb)"
    using tame_handle [OF offered_press.IH] by (simp add: tame_def)
  from avoidsD [OF this, of w] obtain es
    where es: "trace (snd (handle_kcp e v6 pw create cb w)) = trace w @ es" "\<forall>ef \<in> set es. \<not> bad_page pw ef" by blast
  then have "\<not> bad_page pw (Call (EditMessage t i c))" using offered_press.hyps(2) by (simp del: bad_page.simps)
  then show ?case using offered_press.hyps(3-5) by (auto simp: good_rows_def)
qed

lemma offered_button:
  assumes "offered e v6 pw create (cb_data cb)"
    and "handle_kcp e v6 pw create cb = thenE (edit t i x (Some rows)) (retE Done)" "row \<in> set rows" "b \<in> set row"
  shows "offered e v6 pw create (btn_data b)"
proof (rule offered_press [OF assms(1) _ _ assms(3,4)])
  fix w :: world
  have "trace (snd (thenE (edit t i x (Some rows)) (retE Done) w)) = trace w @ [Call (EditMessage t i \<lparr>mc_text = x, mc_markup = Some rows\<rparr>)]"
    by (simp add: thenE_apply edit_def perform_def split: option.splits)
  then show "Call (EditMessage t i \<lparr>mc_text = x, mc_markup = Some rows\<rparr>)
      \<in> set (drop (length (trace w)) (trace (snd (handle_kcp e v6 pw create cb w))))"
    unfolding assms(2) by simp
qed simp

lemma good_done_inv:
  assumes "good_data pw (''u_kcp_done:'' @ s)"
  shows "stack_ok pw s"
  using assms by (cases rule: good_data.cases) simp_all

lemma good_ok_inv:
  assumes "good_data pw (''u_kcp_ok:'' @ s @ CHR '':'' # ip @ CHR '':'' # n)" "CHR '':'' \<notin> set ip" "CHR '':'' \<notin> set n"
  shows "stack_ok pw s"
  using assms(1)
proof (cases rule: good_data.cases)
  case (good_ok s' c n')
  then have e: "(s' @ CHR '':'' # c) @ CHR '':'' # n' = (s @ CHR '':'' # ip) @ CHR '':'' # n" by simp
  have "Some (s' @ CHR '':'' # c, n') = Some (s @ CHR '':'' # ip, n)"
    unfolding rsplit_once_eq [OF good_ok(4), symmetric] rsplit_once_eq [OF assms(3), symmetric] e ..
  then have f: "s' @ CHR '':'' # c = s @ CHR '':'' # ip" by (simp only: option.inject prod.inject)
  have "Some (s', c) = Some (s, ip)"
    unfolding rsplit_once_eq [OF good_ok(3), symmetric] rsplit_once_eq [OF assms(2), symmetric] f ..
  then have "s' = s" by (simp only: option.inject prod.inject)
  with good_ok(2) show ?thesis by (simp only:)
qed simp_all

lemma known_parse: "known pw cs \<Longrightarrow> \<exists>ms. parse_codes draw cs = Inr ms \<and> map code ms = cs"
proof (induction cs arbitrary: draw)
  case (Cons c cs)
  then obtain ms where ms: "parse_codes (\<lambda>i. draw (Suc i)) cs = Inr ms" "map code ms = cs" by (auto simp: known_def)
  have "from_code (draw 0) c \<noteq> None" using Cons.prems unfolding known_def from_code_dom by simp
  with ms show ?case by (auto dest: code_from_code)
qed simp

section \<open>Properties\<close>

text \<open>
  C11: the mKCP dialogue never dead-ends. Whatever buttons are pressed from its first page on, as long as
  the messages get through, every handler finishes without a panic; a stack that is declared complete
  passes the final validation; and the codes that reach the creation of the inbounds all name layers,
  whatever passwords are drawn.
\<close>

theorem kcp_dialogue_sound:
  assumes "offered e v6 pw create (cb_data cb)" and "\<forall>n. net w n = None"
  shows "fst (handle_kcp e v6 pw create cb w) = Inr Done
    \<and> (\<forall>s. cb_data cb = ''u_kcp_done:'' @ s
         \<longrightarrow> validate_stack (canonical_order (List.map_filter (from_code pw) (split_on (CHR '','') s))) = Inr ())
    \<and> (\<forall>s ip n. cb_data cb = ''u_kcp_ok:'' @ s @ CHR '':'' # ip @ CHR '':'' # n \<and> CHR '':'' \<notin> set ip \<and> CHR '':'' \<notin> set n
         \<longrightarrow> (\<exists>ms. parse_codes draw (split_on (CHR '','') s) = Inr ms \<and> map code ms = split_on (CHR '','') s))"
proof -
  have good: "good_data pw (cb_data cb)" by (rule offered_good [OF assms(1)])
  have "fst (handle_kcp e v6 pw create cb w) = Inr Done"
    using tame_handle [OF good] assms(2) by (simp add: tame_def smooth_def)
  moreover have "validate_stack (canonical_order (List.map_filter (from_code pw) (split_on (CHR '','') s))) = Inr ()"
    if "cb_data cb = ''u_kcp_done:'' @ s" for s
    using good_done_inv [of pw s] good that by (simp add: stack_ok_order)
  moreover have "\<exists>ms. parse_codes draw (split_on (CHR '','') s) = Inr ms \<and> map code ms = split_on (CHR '','') s"
    if "cb_data cb = ''u_kcp_ok:'' @ s @ CHR '':'' # ip @ CHR '':'' # n" "CHR '':'' \<notin> set ip" "CHR '':'' \<notin> set n" for s ip n
  proof -
    have "stack_ok pw s" using good_ok_inv [of pw s ip n] good that by simp
    then obtain cs where "known pw cs" "split_on (CHR '','') s = cs" by (rule stack_okE)
    then show ?thesis using known_parse by blast
  qed
  ultimately show ?thesis by blast
qed

definition sample_press :: "string \<Rightarrow> callback_event" where
  "sample_press d = \<lparr>cb_platform = Telegram, cb_target = ''7'', cb_user_id = ''7'', cb_msg_id = ''m'', cb_data = d, cb_callback_id = ''c''\<rparr>"

definition sample_texts :: env where
  "sample_texts = \<lparr>e_now = 0, e_tr = (\<lambda>k as. k), e_check = (\<lambda>s c. False), e_sha256_hex = id, e_download = Inr,
     e_contact_code = (\<lambda>i. Inr []), e_accept = (\<lambda>i. Inr None), e_reject = (\<lambda>i. Inr ())\<rparr>"

lemma sample_offered: "offered sample_texts v6 pw create ''u_kcp_done:no''"
proof -
  have "offered sample_texts v6 pw create (btn_data (button ''xray.kcp_cat_obf'' ''u_kcp_cat:obf''))"
    by (rule offered_button [of _ _ _ _ "sample_press ''u_kcp_init''" _ _ _ _ "hd (init_rows sample_texts)"])
       (simp_all add: sample_press_def offered_first handle_kcp_def handle_kcp_init_def, auto simp: init_rows_def sample_texts_def)
  then have "offered sample_texts v6 pw create (btn_data (button (([CHR 0xE2, CHR 0x9C, CHR 0x85] @ '' '') @ display_name Noise) (''u_kcp_add:'' @ code Noise)))"
    by (intro offered_button [of _ _ _ _ "sample_press ''u_kcp_cat:obf''" _ _ _ _ "hd (cat_rows sample_texts ''obf'')"])
       (simp_all add: sample_press_def handle_kcp_def handle_kcp_cat_def argument_def strip_prefix_def,
        auto simp: cat_rows_def variants_by_category_def all_variants_def)
  then have "offered sample_texts v6 pw create (btn_data (button ''xray.kcp_done_btn'' ''u_kcp_done:no''))"
    by (intro offered_button [of _ _ _ _ "sample_press ''u_kcp_add:no''" _ _ _ _ "stack_rows sample_texts ''no'' ! 1"])
       (simp_all add: sample_press_def handle_kcp_def handle_kcp_add_def argument_def strip_prefix_def from_code_def
          is_compatible_with_def is_transport_replacement_def is_xdns_def is_xicmp_def is_realm_def is_encryption_def is_sudoku_def,
        auto simp: stack_rows_def sample_texts_def)
  then show ?thesis by simp
qed

theorem kcp_dialogue_sound_witness:
  "validate_stack (canonical_order (List.map_filter (from_code ''p'') (split_on (CHR '','') ''no''))) = Inr ()"
proof -
  let ?create = "\<lambda>n v cs. Inl ''none''"
  have "offered sample_texts True ''p'' ?create (cb_data (sample_press ''u_kcp_done:no''))"
    using sample_offered [of True "''p''" ?create] by (simp add: sample_press_def)
  moreover have "\<forall>n. net (undefined\<lparr>net := \<lambda>n. None\<rparr>) n = None" by simp
  moreover have "cb_data (sample_press ''u_kcp_done:no'') = ''u_kcp_done:'' @ ''no''" by (simp add: sample_press_def)
  ultimately show ?thesis using kcp_dialogue_sound [of sample_texts True "''p''" ?create] by blast
qed

text \<open>The first page offers a fourth category that no layer belongs to.\<close>

lemma dis_category_empty: "variants_by_category ''dis'' = [] \<and> category_name ''dis'' = ''unknown''
    \<and> ''u_kcp_cat:dis'' \<in> btn_data ` set (concat (init_rows e))"
  by (simp add: variants_by_category_def all_variants_def category_name_def category_from_code_def init_rows_def)

end
