(* ===== verification/XDrive.thy ===== *)
theory XDrive
  imports Json
begin

text \<open>
  \<open>core/xray/xdrive.rs\<close>: the object-storage transport. Configurations with their presets, the validation
  every wizard applies, and the readers that pick credentials out of text an administrator pastes
  (a wizard form, a Cloudflare page, Google Drive or AWS credentials in any of several layouts). The
  JSON parser is the argument \<open>parse\<close>.
\<close>

datatype xdrive_service = S3 | Local | GoogleDrive | Template

record s3_config =
  s3_endpoint :: string
  s3_region :: string
  s3_bucket :: string
  s3_path_style :: bool

record xdrive_config =
  xd_service :: xdrive_service
  xd_remote_folder :: string
  xd_secrets :: "string list"
  xd_s3 :: "s3_config option"
  xd_segment_bytes :: "nat option"
  xd_poll_interval_ms :: "nat option"
  xd_max_poll_interval_ms :: "nat option"
  xd_flush_interval_ms :: "nat option"
  xd_eager_window_ms :: "nat option"
  xd_concurrency :: "nat option"

section \<open>Presets\<close>

definition s3_preset :: "string \<Rightarrow> string list \<Rightarrow> s3_config \<Rightarrow> xdrive_config" where
  "s3_preset folder secrets s3 = \<lparr>xd_service = S3, xd_remote_folder = folder, xd_secrets = secrets, xd_s3 = Some s3,
     xd_segment_bytes = Some (1024 * 1024), xd_poll_interval_ms = Some 25, xd_max_poll_interval_ms = Some 800,
     xd_flush_interval_ms = None, xd_eager_window_ms = None, xd_concurrency = None\<rparr>"

definition new_cloudflare_r2 :: "string \<Rightarrow> string \<Rightarrow> string \<Rightarrow> string \<Rightarrow> string \<Rightarrow> xdrive_config" where
  "new_cloudflare_r2 account_id bucket ak sk folder = s3_preset folder [ak, sk]
     \<lparr>s3_endpoint = ''https://'' @ account_id @ ''.r2.cloudflarestorage.com'', s3_region = ''auto'', s3_bucket = bucket,
       s3_path_style = True\<rparr>"

definition new_aws_s3 :: "string \<Rightarrow> string \<Rightarrow> string \<Rightarrow> string \<Rightarrow> string \<Rightarrow> xdrive_config" where
  "new_aws_s3 region bucket ak sk folder = s3_preset folder [ak, sk]
     \<lparr>s3_endpoint = ''https://s3.'' @ region @ ''.amazonaws.com'', s3_region = region, s3_bucket = bucket,
       s3_path_style = False\<rparr>"

definition new_s3 :: "string \<Rightarrow> string \<Rightarrow> string \<Rightarrow> string \<Rightarrow> string \<Rightarrow> bool \<Rightarrow> string \<Rightarrow> xdrive_config" where
  "new_s3 endpoint region bucket ak sk path_style folder = s3_preset folder [ak, sk]
     \<lparr>s3_endpoint = endpoint, s3_region = region, s3_bucket = bucket, s3_path_style = path_style\<rparr>"

definition new_google_drive :: "string \<Rightarrow> string \<Rightarrow> string \<Rightarrow> string \<Rightarrow> xdrive_config" where
  "new_google_drive client_id client_secret refresh_token folder_id =
     \<lparr>xd_service = GoogleDrive, xd_remote_folder = folder_id, xd_secrets = [client_id, client_secret, refresh_token],
       xd_s3 = None, xd_segment_bytes = Some 524288, xd_poll_interval_ms = Some 50, xd_max_poll_interval_ms = Some 200,
       xd_flush_interval_ms = Some 10, xd_eager_window_ms = Some 10000, xd_concurrency = Some 64\<rparr>"

text \<open>The derived serialisation: camel-case keys, absent options left out.\<close>

fun service_str :: "xdrive_service \<Rightarrow> string" where
  "service_str S3 = ''s3''"
| "service_str Local = ''local''"
| "service_str GoogleDrive = ''google-drive''"
| "service_str Template = ''template''"

definition opt_int :: "string \<Rightarrow> nat option \<Rightarrow> (string \<times> json) list" where
  "opt_int k v = (case v of Some n \<Rightarrow> [(k, JInt (int n))] | None \<Rightarrow> [])"

definition s3_json :: "s3_config \<Rightarrow> json" where
  "s3_json c = JObj [(''endpoint'', JStr (s3_endpoint c)), (''region'', JStr (s3_region c)),
     (''bucket'', JStr (s3_bucket c)), (''pathStyle'', JBool (s3_path_style c))]"

definition xdrive_json :: "xdrive_config \<Rightarrow> json" where
  "xdrive_json c = JObj ([(''service'', JStr (service_str (xd_service c))), (''remoteFolder'', JStr (xd_remote_folder c)),
       (''secrets'', JArr (map JStr (xd_secrets c)))]
     @ (case xd_s3 c of Some s3 \<Rightarrow> [(''s3'', s3_json s3)] | None \<Rightarrow> [])
     @ opt_int ''segmentBytes'' (xd_segment_bytes c) @ opt_int ''pollIntervalMs'' (xd_poll_interval_ms c)
     @ opt_int ''maxPollIntervalMs'' (xd_max_poll_interval_ms c) @ opt_int ''flushIntervalMs'' (xd_flush_interval_ms c)
     @ opt_int ''eagerWindowMs'' (xd_eager_window_ms c) @ opt_int ''concurrency'' (xd_concurrency c))"

section \<open>Validation\<close>

definition validate_s3 :: "xdrive_config \<Rightarrow> string + unit" where
  "validate_s3 c =
     (case xd_s3 c of
        None \<Rightarrow> Inl (''S3 '' @ [CHR 0xE6, CHR 0x9C, CHR 0x8D, CHR 0xE5, CHR 0x8A, CHR 0xA1, CHR 0xE6, CHR 0xA8, CHR 0xA1, CHR 0xE5, CHR 0xBC, CHR 0x8F, CHR 0xE5, CHR 0xBF, CHR 0x85, CHR 0xE9, CHR 0xA1, CHR 0xBB, CHR 0xE6, CHR 0x8F, CHR 0x90, CHR 0xE4, CHR 0xBE, CHR 0x9B] @ '' s3 '' @ [CHR 0xE9, CHR 0x85, CHR 0x8D, CHR 0xE7, CHR 0xBD, CHR 0xAE, CHR 0xE5, CHR 0xAF, CHR 0xB9, CHR 0xE8, CHR 0xB1, CHR 0xA1])
      | Some s3 \<Rightarrow>
          if \<not> prefix ''http://'' (s3_endpoint s3) \<and> \<not> prefix ''https://'' (s3_endpoint s3)
          then Inl (''S3 endpoint '' @ [CHR 0xE5, CHR 0xBF, CHR 0x85, CHR 0xE9, CHR 0xA1, CHR 0xBB, CHR 0xE4, CHR 0xBB, CHR 0xA5] @ '' http:// '' @ [CHR 0xE6, CHR 0x88, CHR 0x96] @ '' https:// '' @ [CHR 0xE5, CHR 0xBC, CHR 0x80, CHR 0xE5, CHR 0xA4, CHR 0xB4])
          else if trim (s3_bucket s3) = [] \<or> CHR ''/'' \<in> set (s3_bucket s3)
          then Inl (''S3 bucket '' @ [CHR 0xE5, CHR 0x90, CHR 0x8D, CHR 0xE7, CHR 0xA7, CHR 0xB0, CHR 0xE4, CHR 0xB8, CHR 0x8D, CHR 0xE8, CHR 0x83, CHR 0xBD, CHR 0xE4, CHR 0xB8, CHR 0xBA, CHR 0xE7, CHR 0xA9, CHR 0xBA, CHR 0xE4, CHR 0xB8, CHR 0x94, CHR 0xE4, CHR 0xB8, CHR 0x8D, CHR 0xE5, CHR 0xBE, CHR 0x97, CHR 0xE5, CHR 0x8C, CHR 0x85, CHR 0xE5, CHR 0x90, CHR 0xAB, CHR 0xE8, CHR 0xB7, CHR 0xAF, CHR 0xE5, CHR 0xBE, CHR 0x84, CHR 0xE5, CHR 0x88, CHR 0x86, CHR 0xE9, CHR 0x9A, CHR 0x94, CHR 0xE7, CHR 0xAC, CHR 0xA6] @ '' '' @ [CHR 0x27] @ ''/'' @ [CHR 0x27])
          else if length (xd_secrets c) < 2 \<or> length (xd_secrets c) > 3
          then Inl (''S3 '' @ [CHR 0xE5, CHR 0xAF, CHR 0x86, CHR 0xE9, CHR 0x92, CHR 0xA5, CHR 0xE5, CHR 0x8F, CHR 0x82, CHR 0xE6, CHR 0x95, CHR 0xB0] @ '' secrets '' @ [CHR 0xE6, CHR 0x95, CHR 0xB0, CHR 0xE9, CHR 0x87, CHR 0x8F, CHR 0xE5, CHR 0xBF, CHR 0x85, CHR 0xE9, CHR 0xA1, CHR 0xBB, CHR 0xE4, CHR 0xB8, CHR 0xBA] @ '' 2'' @ [CHR 0xEF, CHR 0xBC, CHR 0x88] @ ''AK, SK'' @ [CHR 0xEF, CHR 0xBC, CHR 0x89, CHR 0xE6, CHR 0x88, CHR 0x96] @ '' 3'' @ [CHR 0xEF, CHR 0xBC, CHR 0x88, CHR 0xE5, CHR 0x90, CHR 0xAB] @ '' SessionToken'' @ [CHR 0xEF, CHR 0xBC, CHR 0x89])
          else if trim (xd_secrets c ! 0) = [] \<or> trim (xd_secrets c ! 1) = []
          then Inl (''S3 AccessKeyID '' @ [CHR 0xE4, CHR 0xB8, CHR 0x8E] @ '' SecretAccessKey '' @ [CHR 0xE4, CHR 0xB8, CHR 0x8D, CHR 0xE8, CHR 0x83, CHR 0xBD, CHR 0xE4, CHR 0xB8, CHR 0xBA, CHR 0xE7, CHR 0xA9, CHR 0xBA])
          else Inr ())"

definition validate :: "xdrive_config \<Rightarrow> string + unit" where
  "validate c =
     (if trim (xd_remote_folder c) = [] then Inl (''remoteFolder '' @ [CHR 0xE4, CHR 0xB8, CHR 0x8D, CHR 0xE8, CHR 0x83, CHR 0xBD, CHR 0xE4, CHR 0xB8, CHR 0xBA, CHR 0xE7, CHR 0xA9, CHR 0xBA])
      else if contains_str ''..'' (xd_remote_folder c) then Inl (''remoteFolder '' @ [CHR 0xE4, CHR 0xB8, CHR 0x8D, CHR 0xE8, CHR 0x83, CHR 0xBD, CHR 0xE5, CHR 0x8C, CHR 0x85, CHR 0xE5, CHR 0x90, CHR 0xAB, CHR 0xE7, CHR 0x9B, CHR 0xB8, CHR 0xE5, CHR 0xAF, CHR 0xB9, CHR 0xE8, CHR 0xB7, CHR 0xAF, CHR 0xE5, CHR 0xBE, CHR 0x84] @ '' '' @ [CHR 0x27] @ ''..'' @ [CHR 0x27])
      else (case xd_service c of
          S3 \<Rightarrow> validate_s3 c
        | Local \<Rightarrow> Inr ()
        | GoogleDrive \<Rightarrow>
            if length (xd_secrets c) < 3
            then Inl (''Google Drive '' @ [CHR 0xE5, CHR 0xAF, CHR 0x86, CHR 0xE9, CHR 0x92, CHR 0xA5, CHR 0xE5, CHR 0x8F, CHR 0x82, CHR 0xE6, CHR 0x95, CHR 0xB0] @ '' secrets '' @ [CHR 0xE6, CHR 0x95, CHR 0xB0, CHR 0xE9, CHR 0x87, CHR 0x8F, CHR 0xE5, CHR 0xBF, CHR 0x85, CHR 0xE9, CHR 0xA1, CHR 0xBB, CHR 0xE8, CHR 0x87, CHR 0xB3, CHR 0xE5, CHR 0xB0, CHR 0x91, CHR 0xE4, CHR 0xB8, CHR 0xBA] @ '' 3'' @ [CHR 0xEF, CHR 0xBC, CHR 0x88] @ ''Client ID, Client Secret, Refresh Token'' @ [CHR 0xEF, CHR 0xBC, CHR 0x89])
            else if list_ex (\<lambda>s. trim s = []) (xd_secrets c)
            then Inl (''Google Drive Client ID, Client Secret '' @ [CHR 0xE4, CHR 0xB8, CHR 0x8E] @ '' Refresh Token '' @ [CHR 0xE5, CHR 0x9D, CHR 0x87, CHR 0xE4, CHR 0xB8, CHR 0x8D, CHR 0xE8, CHR 0x83, CHR 0xBD, CHR 0xE4, CHR 0xB8, CHR 0xBA, CHR 0xE7, CHR 0xA9, CHR 0xBA])
            else Inr ()
        | Template \<Rightarrow> Inr ()))"

definition validated :: "xdrive_config \<Rightarrow> string + xdrive_config" where
  "validated c = (case validate c of Inl e \<Rightarrow> Inl e | Inr _ \<Rightarrow> Inr c)"

section \<open>The wizard form\<close>

definition form_lines :: "string \<Rightarrow> string list" where
  "form_lines input = filter (\<lambda>l. l \<noteq> []) (map trim (str_lines input))"

definition folder_at :: "string list \<Rightarrow> nat \<Rightarrow> string" where
  "folder_at lines n = (if length lines > n then lines ! n else ''aegis-xdrive'')"

definition parse_region_wizard_input :: "string \<Rightarrow> string \<Rightarrow> string + xdrive_config" where
  "parse_region_wizard_input region input =
     (let lines = form_lines input; r = to_ascii_lowercase region
      in if r = ''ru'' then
           (if length lines < 3 then Inl ([CHR 0xE4, CHR 0xBF, CHR 0x84, CHR 0xE7, CHR 0xBD, CHR 0x97, CHR 0xE6, CHR 0x96, CHR 0xAF, CHR 0xE5, CHR 0x9C, CHR 0xB0, CHR 0xE5, CHR 0x8C, CHR 0xBA, CHR 0xE5, CHR 0x90, CHR 0x91, CHR 0xE5, CHR 0xAF, CHR 0xBC, CHR 0xE8, CHR 0x87, CHR 0xB3, CHR 0xE5, CHR 0xB0, CHR 0x91, CHR 0xE9, CHR 0x9C, CHR 0x80, CHR 0xE8, CHR 0xA6, CHR 0x81] @ '' 3 '' @ [CHR 0xE8, CHR 0xA1, CHR 0x8C, CHR 0xE5, CHR 0x8F, CHR 0x82, CHR 0xE6, CHR 0x95, CHR 0xB0, CHR 0xEF, CHR 0xBC, CHR 0x9A] @ ''Bucket'' @ [CHR 0xE5, CHR 0x90, CHR 0x8D, CHR 0xE7, CHR 0xA7, CHR 0xB0, CHR 0xE3, CHR 0x80, CHR 0x81] @ ''AccessKeyID'' @ [CHR 0xE3, CHR 0x80, CHR 0x81] @ ''SecretAccessKey'')
            else validated (new_s3 ''https://storage.yandexcloud.net'' ''ru-central1'' (lines ! 0) (lines ! 1) (lines ! 2)
                   True (folder_at lines 3)))
         else if r = ''ir'' then
           (if length lines < 3 then Inl ([CHR 0xE4, CHR 0xBC, CHR 0x8A, CHR 0xE6, CHR 0x9C, CHR 0x97, CHR 0xE5, CHR 0x9C, CHR 0xB0, CHR 0xE5, CHR 0x8C, CHR 0xBA, CHR 0xE5, CHR 0x90, CHR 0x91, CHR 0xE5, CHR 0xAF, CHR 0xBC, CHR 0xE8, CHR 0x87, CHR 0xB3, CHR 0xE5, CHR 0xB0, CHR 0x91, CHR 0xE9, CHR 0x9C, CHR 0x80, CHR 0xE8, CHR 0xA6, CHR 0x81] @ '' 3 '' @ [CHR 0xE8, CHR 0xA1, CHR 0x8C, CHR 0xE5, CHR 0x8F, CHR 0x82, CHR 0xE6, CHR 0x95, CHR 0xB0, CHR 0xEF, CHR 0xBC, CHR 0x9A] @ ''Bucket'' @ [CHR 0xE5, CHR 0x90, CHR 0x8D, CHR 0xE7, CHR 0xA7, CHR 0xB0, CHR 0xE3, CHR 0x80, CHR 0x81] @ ''AccessKeyID'' @ [CHR 0xE3, CHR 0x80, CHR 0x81] @ ''SecretAccessKey'')
            else validated (new_s3 ''https://s3.ir-thr-at1.arvanstorage.ir'' ''ir-thr-at1'' (lines ! 0) (lines ! 1) (lines ! 2)
                   True (folder_at lines 3)))
         else if r = ''cn'' then
           (if length lines < 4
            then Inl ([CHR 0xE4, CHR 0xB8, CHR 0xAD, CHR 0xE5, CHR 0x9B, CHR 0xBD, CHR 0xE5, CHR 0xA4, CHR 0xA7, CHR 0xE9, CHR 0x99, CHR 0x86, CHR 0xE5, CHR 0x9C, CHR 0xB0, CHR 0xE5, CHR 0x8C, CHR 0xBA, CHR 0xE5, CHR 0x90, CHR 0x91, CHR 0xE5, CHR 0xAF, CHR 0xBC, CHR 0xE8, CHR 0x87, CHR 0xB3, CHR 0xE5, CHR 0xB0, CHR 0x91, CHR 0xE9, CHR 0x9C, CHR 0x80, CHR 0xE8, CHR 0xA6, CHR 0x81] @ '' 4 '' @ [CHR 0xE8, CHR 0xA1, CHR 0x8C, CHR 0xE5, CHR 0x8F, CHR 0x82, CHR 0xE6, CHR 0x95, CHR 0xB0, CHR 0xEF, CHR 0xBC, CHR 0x9A] @ ''Cloudflare AccountID'' @ [CHR 0xE3, CHR 0x80, CHR 0x81] @ ''Bucket'' @ [CHR 0xE5, CHR 0x90, CHR 0x8D, CHR 0xE7, CHR 0xA7, CHR 0xB0, CHR 0xE3, CHR 0x80, CHR 0x81] @ ''AccessKeyID'' @ [CHR 0xE3, CHR 0x80, CHR 0x81] @ ''SecretAccessKey'')
            else validated (new_cloudflare_r2 (lines ! 0) (lines ! 1) (lines ! 2) (lines ! 3) (folder_at lines 4)))
         else if r = ''custom'' then
           (if length lines < 5
            then Inl ([CHR 0xE8, CHR 0x87, CHR 0xAA, CHR 0xE5, CHR 0xAE, CHR 0x9A, CHR 0xE4, CHR 0xB9, CHR 0x89] @ '' S3 '' @ [CHR 0xE5, CHR 0x90, CHR 0x91, CHR 0xE5, CHR 0xAF, CHR 0xBC, CHR 0xE8, CHR 0x87, CHR 0xB3, CHR 0xE5, CHR 0xB0, CHR 0x91, CHR 0xE9, CHR 0x9C, CHR 0x80, CHR 0xE8, CHR 0xA6, CHR 0x81] @ '' 5 '' @ [CHR 0xE8, CHR 0xA1, CHR 0x8C, CHR 0xE5, CHR 0x8F, CHR 0x82, CHR 0xE6, CHR 0x95, CHR 0xB0, CHR 0xEF, CHR 0xBC, CHR 0x9A] @ ''Endpoint'' @ [CHR 0xE3, CHR 0x80, CHR 0x81] @ ''Region'' @ [CHR 0xE3, CHR 0x80, CHR 0x81] @ ''Bucket'' @ [CHR 0xE5, CHR 0x90, CHR 0x8D, CHR 0xE7, CHR 0xA7, CHR 0xB0, CHR 0xE3, CHR 0x80, CHR 0x81] @ ''AccessKeyID'' @ [CHR 0xE3, CHR 0x80, CHR 0x81] @ ''SecretAccessKey'')
            else validated (new_s3 (lines ! 0) (lines ! 1) (lines ! 2) (lines ! 3) (lines ! 4) True (folder_at lines 5)))
         else Inl (([CHR 0xE6, CHR 0x9C, CHR 0xAA, CHR 0xE7, CHR 0x9F, CHR 0xA5, CHR 0xE5, CHR 0x9C, CHR 0xB0, CHR 0xE5, CHR 0x8C, CHR 0xBA, CHR 0xE7, CHR 0xB1, CHR 0xBB, CHR 0xE5, CHR 0x9E, CHR 0x8B] @ '': '') @ r))"

section \<open>Reading pasted text\<close>

text \<open>\<open>s.find(p)\<close> as the text before and after the first occurrence.\<close>

fun split_at_str :: "string \<Rightarrow> string \<Rightarrow> (string \<times> string) option" where
  "split_at_str p [] = (if p = [] then Some ([], []) else None)"
| "split_at_str p (c # s) =
     (if prefix p (c # s) then Some ([], drop (length p) (c # s))
      else map_option (\<lambda>(a, b). (c # a, b)) (split_at_str p s))"

definition extract_cloudflare_account_id :: "string \<Rightarrow> string option" where
  "extract_cloudflare_account_id input =
     (let trimmed = trim input;
          hex32 = (\<lambda>s. length s = 32 \<and> list_all is_ascii_hexdigit s);
          from_url = (case split_at_str ''.r2.cloudflarestorage.com'' trimmed of
             Some (before, _) \<Rightarrow>
               (let id = last (split_on (CHR '':'') (last (split_on (CHR ''/'') before)))
                in if hex32 id then Some (to_ascii_lowercase id) else None)
           | None \<Rightarrow> None)
      in case from_url of Some i \<Rightarrow> Some i
         | None \<Rightarrow> if hex32 trimmed then Some (to_ascii_lowercase trimmed) else None)"

text \<open>Each line with the line that follows it.\<close>

definition with_next :: "string list \<Rightarrow> (string \<times> string option) list" where
  "with_next lines = zip lines (map Some (tl lines) @ [None])"

definition hex_after :: "string list \<Rightarrow> nat \<Rightarrow> string \<times> string option \<Rightarrow> string option \<Rightarrow> string option" where
  "hex_after labels n ln acc =
     (case snd ln of
        Some nxt \<Rightarrow> if list_ex (\<lambda>l. contains_str l (fst ln)) labels \<and> length nxt = n \<and> list_all is_ascii_hexdigit nxt
                 then Some nxt else acc
      | None \<Rightarrow> acc)"

definition first_account :: "string list \<Rightarrow> string option" where
  "first_account ls =
     (case filter (\<lambda>l. contains_str ''.r2.cloudflarestorage.com'' l \<and> extract_cloudflare_account_id l \<noteq> None) ls of
        l # _ \<Rightarrow> extract_cloudflare_account_id l | [] \<Rightarrow> None)"

definition extract_cloudflare_r2_page_tokens :: "string \<Rightarrow> (string \<times> string \<times> string) option" where
  "extract_cloudflare_r2_page_tokens txt =
     (let account = first_account (str_lines txt);
          lns = with_next (form_lines txt);
          ak = fold (hex_after [([CHR 0xE8, CHR 0xAE, CHR 0xBF, CHR 0xE9, CHR 0x97, CHR 0xAE, CHR 0xE5, CHR 0xAF, CHR 0x86, CHR 0xE9, CHR 0x92, CHR 0xA5] @ '' ID''), ''Access Key ID''] 32) lns None;
          sk = fold (hex_after [([CHR 0xE6, CHR 0x9C, CHR 0xBA, CHR 0xE5, CHR 0xAF, CHR 0x86, CHR 0xE8, CHR 0xAE, CHR 0xBF, CHR 0xE9, CHR 0x97, CHR 0xAE, CHR 0xE5, CHR 0xAF, CHR 0x86, CHR 0xE9, CHR 0x92, CHR 0xA5]), ''Secret Access Key''] 64) lns None
      in case (account, ak, sk) of (Some acc, Some a, Some s) \<Rightarrow> Some (acc, a, s) | _ \<Rightarrow> None)"

text \<open>\<open>trim_matches\<close> for a predicate on ASCII characters.\<close>

definition trim_matches :: "(char \<Rightarrow> bool) \<Rightarrow> string \<Rightarrow> string" where
  "trim_matches P s = rev (dropWhile P (rev (dropWhile P s)))"

definition clean_val :: "string \<Rightarrow> string \<Rightarrow> string" where
  "clean_val cs raw = trim (trim_matches (\<lambda>c. c \<in> set cs) (trim raw))"

definition GOOGLE_QUOTES :: string where
  "GOOGLE_QUOTES = [CHR 0x22, CHR 0x27, CHR '','', CHR '';'']"

definition AWS_QUOTES :: string where
  "AWS_QUOTES = [CHR 0x22, CHR 0x27, CHR '','', CHR '';'', CHR ''['', CHR '']'', CHR ''{'', CHR ''}'']"

text \<open>\<open>line.find(['=', ':'])\<close>: the trimmed lower-case key and the trimmed value.\<close>

definition key_value :: "string \<Rightarrow> (string \<times> string) option" where
  "key_value line =
     (let k = takeWhile (\<lambda>c. c \<noteq> CHR ''='' \<and> c \<noteq> CHR '':'') line
      in if length k < length line then Some (to_ascii_lowercase (trim k), trim (drop (length k + 1) line)) else None)"

definition contains_any :: "string list \<Rightarrow> string \<Rightarrow> bool" where
  "contains_any ps s \<longleftrightarrow> list_ex (\<lambda>p. contains_str p s) ps"

text \<open>Text up to the first character of \<open>cs\<close> or white space.\<close>

fun until :: "string \<Rightarrow> string \<Rightarrow> string" where
  "until cs [] = []"
| "until cs (c # s) = (if c \<in> set cs \<or> ws_at_front (c # s) \<noteq> None then [] else c # until cs s)"

definition extract_folder_from_url :: "string \<Rightarrow> string" where
  "extract_folder_from_url v =
     (case split_at_str ''/folders/'' v of
        Some (_, after) \<Rightarrow> trim (until [CHR ''?'', CHR ''/'', CHR 0x22, CHR 0x27] after)
      | None \<Rightarrow> clean_val GOOGLE_QUOTES v)"

section \<open>Google Drive credentials\<close>

record google_tokens =
  g_client_id :: "string option"
  g_client_secret :: "string option"
  g_refresh_token :: "string option"
  g_folder_id :: "string option"

definition no_google :: google_tokens where
  "no_google = \<lparr>g_client_id = None, g_client_secret = None, g_refresh_token = None, g_folder_id = None\<rparr>"

text \<open>\<open>a.get(k).or_else(|| b.get(k)).and_then(|s| s.as_str())\<close>\<close>

definition get_str :: "string list \<Rightarrow> json \<Rightarrow> string option" where
  "get_str ks v = Option.bind (List.find (\<lambda>k. jget k v \<noteq> None) ks) (\<lambda>k. Option.bind (jget k v) as_str)"

definition get_str_or :: "string \<Rightarrow> json \<Rightarrow> json \<Rightarrow> string option" where
  "get_str_or k a b = Option.bind (case jget k a of Some x \<Rightarrow> Some x | None \<Rightarrow> jget k b) as_str"

definition google_json :: "json option \<Rightarrow> google_tokens" where
  "google_json parsed =
     (case parsed of
        None \<Rightarrow> no_google
      | Some v \<Rightarrow>
          (let obj = (case jget ''installed'' v of Some i \<Rightarrow> i
               | None \<Rightarrow> (case jget ''web'' v of Some web \<Rightarrow> web | None \<Rightarrow> v))
           in \<lparr>g_client_id = get_str [''client_id''] obj, g_client_secret = get_str [''client_secret''] obj,
                g_refresh_token = get_str_or ''refresh_token'' obj v,
                g_folder_id = map_option extract_folder_from_url (get_str_or ''folder_id'' obj v)\<rparr>))"

text \<open>One labelled field: a value after the label on the same line, else the next line when the line is
  the label itself; a field found earlier is kept.\<close>

definition google_field ::
  "(string \<Rightarrow> bool) \<Rightarrow> string list \<Rightarrow> (string \<Rightarrow> string) \<Rightarrow> string \<times> string option \<Rightarrow> string option \<Rightarrow> string option" where
  "google_field key_ok labels cleaning ln field =
     (if field \<noteq> None then field
      else (let same = (case key_value (fst ln) of
                  Some (k, v) \<Rightarrow> if key_ok k \<and> v \<noteq> [] then Some (cleaning v) else None | None \<Rightarrow> None)
            in if same \<noteq> None then same
               else if to_ascii_lowercase (fst ln) \<in> set labels then map_option cleaning (snd ln) else None))"

definition google_labels :: "string \<times> string option \<Rightarrow> google_tokens \<Rightarrow> google_tokens" where
  "google_labels ln g =
     (let cl = clean_val GOOGLE_QUOTES
      in g\<lparr>g_client_id := google_field (contains_any [''client_id'', ''client id'', ([CHR 0xE5, CHR 0xAE, CHR 0xA2, CHR 0xE6, CHR 0x88, CHR 0xB7, CHR 0xE7, CHR 0xAB, CHR 0xAF] @ '' id''), ([CHR 0xE5, CHR 0xAE, CHR 0xA2, CHR 0xE6, CHR 0x88, CHR 0xB7, CHR 0xE7, CHR 0xAB, CHR 0xAF] @ ''id'')])
             [''client id'', ''client_id'', ([CHR 0xE5, CHR 0xAE, CHR 0xA2, CHR 0xE6, CHR 0x88, CHR 0xB7, CHR 0xE7, CHR 0xAB, CHR 0xAF] @ '' id''), ([CHR 0xE5, CHR 0xAE, CHR 0xA2, CHR 0xE6, CHR 0x88, CHR 0xB7, CHR 0xE7, CHR 0xAB, CHR 0xAF] @ ''id'')] cl ln (g_client_id g),
           g_client_secret := google_field
             (\<lambda>k. contains_any [''client_secret'', ''client secret'', ([CHR 0xE5, CHR 0xAE, CHR 0xA2, CHR 0xE6, CHR 0x88, CHR 0xB7, CHR 0xE7, CHR 0xAB, CHR 0xAF, CHR 0xE5, CHR 0xAF, CHR 0x86, CHR 0xE9, CHR 0x92, CHR 0xA5]), ([CHR 0xE5, CHR 0xAE, CHR 0xA2, CHR 0xE6, CHR 0x88, CHR 0xB7, CHR 0xE7, CHR 0xAB, CHR 0xAF, CHR 0xE6, CHR 0x9C, CHR 0xBA, CHR 0xE5, CHR 0xAF, CHR 0x86])] k \<or> k = ''secret'')
             [''client secret'', ''client_secret'', ([CHR 0xE5, CHR 0xAE, CHR 0xA2, CHR 0xE6, CHR 0x88, CHR 0xB7, CHR 0xE7, CHR 0xAB, CHR 0xAF, CHR 0xE5, CHR 0xAF, CHR 0x86, CHR 0xE9, CHR 0x92, CHR 0xA5]), ''secret''] cl ln (g_client_secret g),
           g_refresh_token := google_field (contains_any [''refresh_token'', ''refresh token'', ([CHR 0xE5, CHR 0x88, CHR 0xB7, CHR 0xE6, CHR 0x96, CHR 0xB0, CHR 0xE4, CHR 0xBB, CHR 0xA4, CHR 0xE7, CHR 0x89, CHR 0x8C])])
             [''refresh token'', ''refresh_token'', ([CHR 0xE5, CHR 0x88, CHR 0xB7, CHR 0xE6, CHR 0x96, CHR 0xB0, CHR 0xE4, CHR 0xBB, CHR 0xA4, CHR 0xE7, CHR 0x89, CHR 0x8C])] cl ln (g_refresh_token g),
           g_folder_id := google_field
             (\<lambda>k. contains_any [''folder_id'', ''folder id'', ([CHR 0xE6, CHR 0x96, CHR 0x87, CHR 0xE4, CHR 0xBB, CHR 0xB6, CHR 0xE5, CHR 0xA4, CHR 0xB9] @ '' id''), ([CHR 0xE6, CHR 0x96, CHR 0x87, CHR 0xE4, CHR 0xBB, CHR 0xB6, CHR 0xE5, CHR 0xA4, CHR 0xB9] @ ''id'')] k \<or> k = ''folder'')
             [''folder id'', ''folder_id'', ([CHR 0xE6, CHR 0x96, CHR 0x87, CHR 0xE4, CHR 0xBB, CHR 0xB6, CHR 0xE5, CHR 0xA4, CHR 0xB9] @ '' id''), ''folder''] extract_folder_from_url ln (g_folder_id g)\<rparr>)"

definition or_when :: "'a option \<Rightarrow> bool \<Rightarrow> 'a \<Rightarrow> 'a option" where
  "or_when f b x = (if f = None \<and> b then Some x else f)"

definition google_word :: "string \<Rightarrow> google_tokens \<Rightarrow> google_tokens" where
  "google_word word g =
     (let w = clean_val GOOGLE_QUOTES word
      in g\<lparr>g_client_id := or_when (g_client_id g) (contains_str ''.apps.googleusercontent.com'' w) w,
           g_client_secret := or_when (g_client_secret g) (prefix ''GOCSPX-'' w) w,
           g_refresh_token := or_when (g_refresh_token g) ((prefix ''1//'' w \<or> prefix ''1/'' w) \<and> length w > 15) w,
           g_folder_id := or_when (g_folder_id g) (contains_str ''/folders/'' w) (extract_folder_from_url w)\<rparr>)"

definition google_line :: "string \<times> string option \<Rightarrow> google_tokens \<Rightarrow> google_tokens" where
  "google_line ln g = fold google_word (split_whitespace (fst ln)) (google_labels ln g)"

definition extract_google_drive_tokens ::
  "(string \<Rightarrow> json option) \<Rightarrow> string \<Rightarrow> (string \<times> string \<times> string \<times> string option) option" where
  "extract_google_drive_tokens parse txt =
     (let g = fold google_line (with_next (form_lines txt)) (google_json (parse txt))
      in case (g_client_id g, g_client_secret g, g_refresh_token g) of
           (Some cid, Some cs, Some rt) \<Rightarrow>
             if cid \<noteq> [] \<and> cs \<noteq> [] \<and> rt \<noteq> []
             then Some (cid, cs, rt, if g_folder_id g = Some [] then None else g_folder_id g) else None
         | _ \<Rightarrow> None)"

section \<open>AWS credentials\<close>

record aws_tokens =
  a_ak :: "string option"
  a_sk :: "string option"
  a_region :: "string option"
  a_bucket :: "string option"

definition no_aws :: aws_tokens where
  "no_aws = \<lparr>a_ak = None, a_sk = None, a_region = None, a_bucket = None\<rparr>"

definition aws_clean :: "string \<Rightarrow> string" where
  "aws_clean = clean_val AWS_QUOTES"

text \<open>\<open>parse_s3_url\<close>: region and bucket of an S3 address. The tests of the parts are guarded by the length.\<close>

definition s3_host :: "string \<Rightarrow> string option \<times> string option" where
  "s3_host host =
     (let ps = split_on (CHR ''.'') host
      in if contains_str ''amazonaws.com'' host then
           (if length ps \<ge> 5 \<and> (ps ! 1 = ''s3'' \<or> prefix ''s3-'' (ps ! 1)) then (Some (ps ! 2), Some (ps ! 0))
            else if length ps \<ge> 4 \<and> ps ! 0 = ''s3'' then (Some (ps ! 1), None)
            else if length ps \<ge> 4 \<and> ps ! 1 = ''s3'' then (None, Some (ps ! 0))
            else if length ps \<ge> 3 \<and> prefix ''s3-'' (ps ! 0) then (Some (drop 3 (ps ! 0)), None)
            else (None, None))
         else (None, None))"

definition parse_s3_url :: "string \<Rightarrow> string option \<times> string option" where
  "parse_s3_url url =
     (let rest = (case split_at_str ''://'' url of Some (_, r) \<Rightarrow> r | None \<Rightarrow> url);
          (host, path) = (case split_once (CHR ''/'') rest of Some hp \<Rightarrow> hp | None \<Rightarrow> (rest, []));
          (region, bucket) = s3_host host;
          first_path = trim (takeWhile (\<lambda>c. c \<noteq> CHR ''/'' \<and> c \<noteq> CHR ''?'' \<and> c \<noteq> CHR ''#'') path)
      in (region, if bucket = None \<and> path \<noteq> [] \<and> first_path \<noteq> [] then Some first_path else bucket))"

definition is_ascii_lower :: "char \<Rightarrow> bool" where
  "is_ascii_lower c \<longleftrightarrow> 97 \<le> (of_char c :: nat) \<and> (of_char c :: nat) \<le> 122"

definition is_aws_region :: "string \<Rightarrow> bool" where
  "is_aws_region v =
     (case split_on (CHR ''-'') v of
        [a, b, c] \<Rightarrow> a \<noteq> [] \<and> list_all is_ascii_lower a \<and> b \<noteq> [] \<and> list_all is_ascii_lower b
           \<and> c \<noteq> [] \<and> list_all is_ascii_digit c
      | _ \<Rightarrow> False)"

definition aws_json :: "json option \<Rightarrow> aws_tokens" where
  "aws_json parsed =
     (case parsed of
        None \<Rightarrow> no_aws
      | Some v \<Rightarrow>
          (let obj = (case jget ''credentials'' v of Some c \<Rightarrow> c | None \<Rightarrow> v);
               field = (\<lambda>ks. map_option aws_clean (get_str ks obj))
           in \<lparr>a_ak = field [''access_key_id'', ''AccessKeyId'', ''aws_access_key_id'', ''accessKeyId''],
                a_sk = field [''secret_access_key'', ''SecretAccessKey'', ''aws_secret_access_key'', ''secretAccessKey''],
                a_region = field [''region'', ''Region'', ''aws_region''],
                a_bucket = field [''bucket'', ''Bucket'', ''bucket_name'', ''s3_bucket'']\<rparr>))"

definition nonempty :: "string \<Rightarrow> string option" where
  "nonempty s = (if s = [] then None else Some s)"

definition aws_field ::
  "(string \<Rightarrow> bool) \<Rightarrow> string list \<Rightarrow> string \<times> string option \<Rightarrow> string option \<Rightarrow> string option" where
  "aws_field key_ok labels ln field =
     (if field \<noteq> None then field
      else (let same = (case key_value (fst ln) of
                  Some (k, v) \<Rightarrow> if key_ok k then nonempty (aws_clean v) else None | None \<Rightarrow> None)
            in if same \<noteq> None then same
               else if to_ascii_lowercase (fst ln) \<in> set labels
               then Option.bind (snd ln) (\<lambda>nxt. nonempty (aws_clean nxt)) else None))"

definition aws_labels :: "string \<times> string option \<Rightarrow> aws_tokens \<Rightarrow> aws_tokens" where
  "aws_labels ln a = a\<lparr>
     a_ak := aws_field (\<lambda>k. contains_any [''access_key_id'', ''access key id'', ''accesskeyid'', ''aws_access_key'',
           ''access_key'', ([CHR 0xE8, CHR 0xAE, CHR 0xBF, CHR 0xE9, CHR 0x97, CHR 0xAE, CHR 0xE5, CHR 0xAF, CHR 0x86, CHR 0xE9, CHR 0x92, CHR 0xA5])] k \<or> k = ''ak'')
        [''access key id'', ''access_key_id'', ''aws_access_key_id'', ''accesskeyid'', ([CHR 0xE8, CHR 0xAE, CHR 0xBF, CHR 0xE9, CHR 0x97, CHR 0xAE, CHR 0xE5, CHR 0xAF, CHR 0x86, CHR 0xE9, CHR 0x92, CHR 0xA5] @ '' id''), ([CHR 0xE8, CHR 0xAE, CHR 0xBF, CHR 0xE9, CHR 0x97, CHR 0xAE, CHR 0xE5, CHR 0xAF, CHR 0x86, CHR 0xE9, CHR 0x92, CHR 0xA5])] ln (a_ak a),
     a_sk := aws_field (\<lambda>k. contains_any [''secret_access_key'', ''secret access key'', ''secretaccesskey'', ''aws_secret'',
           ''secret_key'', ([CHR 0xE6, CHR 0x9C, CHR 0xBA, CHR 0xE5, CHR 0xAF, CHR 0x86, CHR 0xE8, CHR 0xAE, CHR 0xBF, CHR 0xE9, CHR 0x97, CHR 0xAE, CHR 0xE5, CHR 0xAF, CHR 0x86, CHR 0xE9, CHR 0x92, CHR 0xA5]), ([CHR 0xE7, CHR 0xA7, CHR 0x81, CHR 0xE6, CHR 0x9C, CHR 0x89, CHR 0xE8, CHR 0xAE, CHR 0xBF, CHR 0xE9, CHR 0x97, CHR 0xAE, CHR 0xE5, CHR 0xAF, CHR 0x86, CHR 0xE9, CHR 0x92, CHR 0xA5])] k \<or> k = ''sk'')
        [''secret access key'', ''secret_access_key'', ''aws_secret_access_key'', ''secretaccesskey'', ([CHR 0xE6, CHR 0x9C, CHR 0xBA, CHR 0xE5, CHR 0xAF, CHR 0x86, CHR 0xE8, CHR 0xAE, CHR 0xBF, CHR 0xE9, CHR 0x97, CHR 0xAE, CHR 0xE5, CHR 0xAF, CHR 0x86, CHR 0xE9, CHR 0x92, CHR 0xA5]),
           ([CHR 0xE7, CHR 0xA7, CHR 0x81, CHR 0xE6, CHR 0x9C, CHR 0x89, CHR 0xE8, CHR 0xAE, CHR 0xBF, CHR 0xE9, CHR 0x97, CHR 0xAE, CHR 0xE5, CHR 0xAF, CHR 0x86, CHR 0xE9, CHR 0x92, CHR 0xA5])] ln (a_sk a),
     a_region := aws_field (contains_any [''region'', ([CHR 0xE5, CHR 0x8C, CHR 0xBA, CHR 0xE5, CHR 0x9F, CHR 0x9F])]) [''region'', ([CHR 0xE5, CHR 0x8C, CHR 0xBA, CHR 0xE5, CHR 0x9F, CHR 0x9F]), ''aws_region''] ln (a_region a),
     a_bucket := aws_field (contains_any [''bucket'', ([CHR 0xE5, CHR 0xAD, CHR 0x98, CHR 0xE5, CHR 0x82, CHR 0xA8, CHR 0xE6, CHR 0xA1, CHR 0xB6])]) [''bucket'', ([CHR 0xE5, CHR 0xAD, CHR 0x98, CHR 0xE5, CHR 0x82, CHR 0xA8, CHR 0xE6, CHR 0xA1, CHR 0xB6]), ''bucket_name''] ln (a_bucket a)\<rparr>"

definition looks_like_ak :: "string \<Rightarrow> bool" where
  "looks_like_ak s \<longleftrightarrow> (prefix ''AKIA'' s \<or> prefix ''ASIA'' s) \<and> length s = 20 \<and> list_all is_ascii_alphanumeric s"

definition looks_like_sk :: "string \<Rightarrow> bool" where
  "looks_like_sk s \<longleftrightarrow> length s = 40
     \<and> list_all (\<lambda>c. is_ascii_alphanumeric c \<or> c = CHR ''/'' \<or> c = CHR ''+'' \<or> c = CHR ''='') s"

definition aws_cell :: "string \<Rightarrow> aws_tokens \<Rightarrow> aws_tokens" where
  "aws_cell part a =
     (let c = aws_clean part
      in a\<lparr>a_ak := or_when (a_ak a) (looks_like_ak c) c, a_sk := or_when (a_sk a) (looks_like_sk c) c,
           a_region := or_when (a_region a) (is_aws_region c) c\<rparr>)"

definition aws_word :: "string \<Rightarrow> aws_tokens \<Rightarrow> aws_tokens" where
  "aws_word word a =
     (let c = aws_clean word;
          a1 = a\<lparr>a_ak := or_when (a_ak a) (looks_like_ak c) c,
                 a_sk := or_when (a_sk a) (looks_like_sk c \<and> \<not> list_all is_ascii_digit c) c,
                 a_region := or_when (a_region a) (is_aws_region c) c\<rparr>
      in if contains_str ''amazonaws.com'' c
         then (let (r, b) = parse_s3_url c
               in a1\<lparr>a_region := (if a_region a1 = None then r else a_region a1),
                      a_bucket := (if a_bucket a1 = None then b else a_bucket a1)\<rparr>)
         else a1)"

definition aws_line :: "string \<times> string option \<Rightarrow> aws_tokens \<Rightarrow> aws_tokens" where
  "aws_line ln a =
     (let a1 = aws_labels ln a;
          a2 = (if CHR '','' \<in> set (fst ln) then fold aws_cell (split_on (CHR '','') (fst ln)) a1 else a1)
      in fold aws_word (split_whitespace (fst ln)) a2)"

definition extract_aws_s3_tokens ::
  "(string \<Rightarrow> json option) \<Rightarrow> string \<Rightarrow> (string \<times> string \<times> string \<times> string option) option" where
  "extract_aws_s3_tokens parse txt =
     (let a = fold aws_line (with_next (form_lines txt)) (aws_json (parse txt))
      in case (a_ak a, a_sk a) of
           (Some k, Some s) \<Rightarrow>
             (let k' = aws_clean k; s' = aws_clean s
              in if k' \<noteq> [] \<and> s' \<noteq> [] then
                   Some (case Option.bind (a_region a) (\<lambda>r. nonempty (aws_clean r)) of Some r \<Rightarrow> r | None \<Rightarrow> ''ap-northeast-1'',
                     k', s', Option.bind (a_bucket a) (\<lambda>b. nonempty (aws_clean b)))
                 else None)
         | _ \<Rightarrow> None)"

section \<open>Lemmas\<close>

lemma split_at_str_free:
  "p \<noteq> [] \<Longrightarrow> hd p \<notin> set a \<Longrightarrow> split_at_str p (a @ p @ b) = Some (a, b)"
proof (induction a)
  case Nil
  then show ?case by (cases p) auto
next
  case (Cons c a)
  then have "\<not> prefix p (c # a @ p @ b)" by (cases p) auto
  with Cons show ?case by simp
qed

lemma hex_char: "is_ascii_hexdigit c \<Longrightarrow> c \<noteq> CHR ''.'' \<and> c \<noteq> CHR ''/'' \<and> c \<noteq> CHR '':'' \<and> is_ascii_hexdigit (ascii_lower c)"
  by (auto simp: is_ascii_hexdigit_def is_ascii_digit_def ascii_lower_def)

lemma ascii_lower_idem: "ascii_lower (ascii_lower c) = ascii_lower c"
  by (auto simp: ascii_lower_def)

lemma account_id_of_url:
  assumes "length i = 32" "list_all is_ascii_hexdigit i"
  shows "extract_cloudflare_account_id (''https://'' @ i @ ''.r2.cloudflarestorage.com'') = Some (to_ascii_lowercase i)"
proof -
  define host where "host = ''.r2.cloudflarestorage.com''"
  have ch: "c \<noteq> CHR ''.'' \<and> c \<noteq> CHR ''/'' \<and> c \<noteq> CHR '':''" if "c \<in> set i" for c
    using assms(2) that hex_char [of c] by (simp add: list_all_iff)
  have "trim (''https://'' @ i @ host) = ''https://'' @ i @ host"
    by (rule trim_plain) (simp_all add: plain_char_def host_def)
  moreover have "split_at_str host ((''https://'' @ i) @ host @ []) = Some (''https://'' @ i, [])"
    by (rule split_at_str_free) (use ch in \<open>auto simp: host_def\<close>)
  moreover have "split_on (CHR ''/'') (''https:'' @ CHR ''/'' # CHR ''/'' # i) = [''https:'', [], i]"
    using split_on_free [of "CHR ''/''" i] ch by auto
  moreover have "split_on (CHR '':'') i = [i]" using ch by (intro split_on_free) auto
  ultimately show ?thesis
    using assms by (simp add: extract_cloudflare_account_id_def host_def)
qed

lemma account_id_shape:
  "extract_cloudflare_account_id s = Some i \<Longrightarrow> length i = 32 \<and> list_all is_ascii_hexdigit i \<and> to_ascii_lowercase i = i"
  unfolding extract_cloudflare_account_id_def Let_def
  by (auto simp: to_ascii_lowercase_def ascii_lower_idem list_all_iff hex_char split: option.splits prod.splits if_splits)

lemma s3_url_of_region:
  assumes "CHR ''.'' \<notin> set r" "CHR ''/'' \<notin> set r"
  shows "parse_s3_url (''https://s3.'' @ r @ ''.amazonaws.com'') = (Some r, None)"
proof -
  define host where "host = ''s3.'' @ r @ ''.amazonaws.com''"
  have "split_at_str ''://'' (''https'' @ ''://'' @ host) = Some (''https'', host)"
    by (rule split_at_str_free) simp_all
  moreover have "split_once (CHR ''/'') host = None"
  proof -
    have "split_once c s = None" if "c \<notin> set s" for c s using that by (induction s) auto
    then show ?thesis using assms(2) by (simp add: host_def)
  qed
  moreover have "split_on (CHR ''.'') host = [''s3'', r, ''amazonaws'', ''com'']"
    using assms(1) split_on_append [of "CHR ''.''" r "''amazonaws.com''"] by (simp add: host_def)
  moreover have "contains_str ''amazonaws.com'' host"
    by (auto simp: contains_str_iff host_def sublist_def intro: exI [of _ "''s3.'' @ r @ ''.''"])
  moreover have "''https://s3.'' @ r @ ''.amazonaws.com'' = ''https'' @ ''://'' @ host" by (simp add: host_def)
  ultimately show ?thesis by (simp add: parse_s3_url_def s3_host_def)
qed

lemma validated_Inr: "validated c = Inr c' \<longleftrightarrow> c' = c \<and> validate c = Inr ()"
  by (auto simp: validated_def split: sum.splits)

lemma wizard_config:
  assumes "parse_region_wizard_input region input = Inr c"
  shows "validate c = Inr () \<and> (\<exists>folder ak sk s3. c = s3_preset folder [ak, sk] s3)"
proof -
  show ?thesis
    using assms unfolding parse_region_wizard_input_def Let_def
    by (simp only: sum.distinct validated_Inr new_s3_def new_cloudflare_r2_def split: if_split_asm) blast+
qed

section \<open>Properties\<close>

text \<open>
  Also: what the wizard form accepts is a usable object-storage configuration: an S3 service with a
  folder that is not blank and never climbs (\<open>..\<close>), an \<open>http\<close> or \<open>https\<close> endpoint, a bucket name that is
  not blank and free of slashes, and exactly two secrets, neither blank.
\<close>

theorem wizard_form_sound:
  assumes "parse_region_wizard_input region input = Inr c"
  shows "xd_service c = S3 \<and> trim (xd_remote_folder c) \<noteq> [] \<and> \<not> contains_str ''..'' (xd_remote_folder c)
    \<and> (\<exists>s3. xd_s3 c = Some s3 \<and> (prefix ''http://'' (s3_endpoint s3) \<or> prefix ''https://'' (s3_endpoint s3))
         \<and> trim (s3_bucket s3) \<noteq> [] \<and> CHR ''/'' \<notin> set (s3_bucket s3))
    \<and> (\<exists>ak sk. xd_secrets c = [ak, sk] \<and> trim ak \<noteq> [] \<and> trim sk \<noteq> [])"
proof -
  obtain folder ak sk s3 where c: "c = s3_preset folder [ak, sk] s3" and v: "validate c = Inr ()"
    using wizard_config [OF assms] by blast
  show ?thesis
    using v unfolding c validate_def validate_s3_def s3_preset_def
    by (simp split: if_splits)
qed

theorem wizard_form_sound_witness:
  "(let input = ''b'' @ [CHR 0x0A] @ ''k'' @ [CHR 0x0A] @ ''s'' in
     \<exists>ak sk. xd_secrets (projr (parse_region_wizard_input ''ru'' input)) = [ak, sk] \<and> trim ak \<noteq> [] \<and> trim sk \<noteq> [])"
proof -
  have t: "trim [c] = [c]" if "plain_char c" for c using that by (intro trim_plain) auto
  have f: "trim ''aegis-xdrive'' = ''aegis-xdrive''" by (rule trim_plain) (simp_all add: plain_char_def)
  have "form_lines (''b'' @ [CHR 0x0A] @ ''k'' @ [CHR 0x0A] @ ''s'') = [''b'', ''k'', ''s'']"
    by (simp add: form_lines_def str_lines_def t plain_char_def)
  then have p: "parse_region_wizard_input ''ru'' (''b'' @ [CHR 0x0A] @ ''k'' @ [CHR 0x0A] @ ''s'')
      = Inr (new_s3 ''https://storage.yandexcloud.net'' ''ru-central1'' ''b'' ''k'' ''s'' True ''aegis-xdrive'')"
    by (simp add: parse_region_wizard_input_def to_ascii_lowercase_def ascii_lower_def validated_def validate_def validate_s3_def
        new_s3_def s3_preset_def folder_at_def t f plain_char_def)
  show ?thesis unfolding Let_def p sum.sel using wizard_form_sound [OF p] by blast
qed

text \<open>
  Also: the endpoints the presets write are read back by the readers of pasted text: the Cloudflare account
  in an R2 endpoint is recovered (in lower case), whatever is recovered is 32 lower-case hexadecimal
  digits, and the region of an AWS endpoint is recovered with no bucket invented.
\<close>

theorem endpoint_roundtrip:
  assumes "length i = 32" and "list_all is_ascii_hexdigit i" and "CHR ''.'' \<notin> set r" and "CHR ''/'' \<notin> set r"
  shows "map_option (\<lambda>s3. extract_cloudflare_account_id (s3_endpoint s3)) (xd_s3 (new_cloudflare_r2 i b ak sk f))
      = Some (Some (to_ascii_lowercase i))
    \<and> extract_cloudflare_account_id (to_ascii_lowercase i) = Some (to_ascii_lowercase i)
    \<and> map_option (\<lambda>s3. parse_s3_url (s3_endpoint s3)) (xd_s3 (new_aws_s3 r b ak sk f)) = Some (Some r, None)"
proof -
  let ?j = "to_ascii_lowercase i"
  have j: "length ?j = 32" "list_all is_ascii_hexdigit ?j" "to_ascii_lowercase ?j = ?j"
    using account_id_shape [OF account_id_of_url [OF assms(1,2)]] by auto
  have "plain_char c" if "c \<in> set ?j" for c
    using j(2) that by (auto simp: list_all_iff plain_char_def is_ascii_hexdigit_def is_ascii_digit_def)
  moreover have "?j \<noteq> []" using j(1) by auto
  ultimately have "trim ?j = ?j" by (intro trim_plain) auto
  moreover have "split_at_str ''.r2.cloudflarestorage.com'' ?j = None"
  proof -
    have "split_at_str p s = None" if "p \<noteq> []" "hd p \<notin> set s" for p s
      using that by (induction s) (cases p; auto)+
    moreover have "CHR ''.'' \<notin> set ?j" using j(2) hex_char by (auto simp: list_all_iff)
    ultimately show ?thesis by simp
  qed
  ultimately have "extract_cloudflare_account_id ?j = Some ?j"
    using j by (simp add: extract_cloudflare_account_id_def)
  then show ?thesis
    using account_id_of_url [OF assms(1,2)] s3_url_of_region [OF assms(3,4)]
    by (simp add: new_cloudflare_r2_def new_aws_s3_def s3_preset_def)
qed

theorem endpoint_roundtrip_witness:
  "map_option (\<lambda>s3. parse_s3_url (s3_endpoint s3)) (xd_s3 (new_aws_s3 ''eu-west-1'' ''b'' ''k'' ''s'' ''f''))
     = Some (Some ''eu-west-1'', None)
   \<and> extract_cloudflare_account_id (replicate 32 (CHR ''a'')) = Some (replicate 32 (CHR ''a''))"
  using endpoint_roundtrip [of "replicate 32 (CHR ''a'')" "''eu-west-1''" "''b''" "''k''" "''s''" "''f''"]
  by (simp add: is_ascii_hexdigit_def list_all_iff to_ascii_lowercase_def ascii_lower_def)

end
