(* ===== verification/FirewallScan.thy ===== *)
theory FirewallScan
  imports Prelude
begin

text \<open>
  Which ports are in use: \<open>core/security/firewall_scanner.rs\<close>. The regular expressions of the source are
  small enough to be matchers of their own; their digits are the ASCII digits, the only ones JSON and
  the tools' outputs have. A directory is what reading it gives: missing, or its entries in the order
  of \<open>read_dir\<close> and, after them, whether \<open>next_entry\<close> failed. File names are valid UTF-8.
\<close>

section \<open>Matchers\<close>

text \<open>The first position of the string at which the matcher succeeds.\<close>

fun first_match :: "(string \<Rightarrow> 'a option) \<Rightarrow> string \<Rightarrow> 'a option" where
  "first_match f [] = f []"
| "first_match f (c # cs) = (case f (c # cs) of Some r \<Rightarrow> Some r | None \<Rightarrow> first_match f cs)"

definition quoted :: "string \<Rightarrow> string" where
  "quoted s = [CHR 0x22] @ s @ [CHR 0x22]"

text \<open>\<open>"key"\s*:\s*\<close> at the front; the result is what follows.\<close>

definition match_field :: "string \<Rightarrow> string \<Rightarrow> string option" where
  "match_field key s =
     (case strip_prefix (quoted key) s of
        None \<Rightarrow> None
      | Some r \<Rightarrow> (case trim_start r of
           c # r' \<Rightarrow> if c = CHR '':'' then Some (trim_start r') else None
         | [] \<Rightarrow> None))"

text \<open>\<open>"key"\s*:\s*(\d+)\<close>: the captured digits and the rest.\<close>

definition match_digits :: "string list \<Rightarrow> string \<Rightarrow> (string \<times> string) option" where
  "match_digits keys s =
     (case find (\<lambda>k. match_field k s \<noteq> None) keys of
        None \<Rightarrow> None
      | Some k \<Rightarrow>
          (let r = the (match_field k s); ds = takeWhile is_ascii_digit r
           in if ds = [] then None else Some (ds, dropWhile is_ascii_digit r)))"

definition PORT_RE :: "string \<Rightarrow> string option" where
  "PORT_RE line = map_option fst (first_match (match_digits [''port'', ''listen_port'']) line)"

definition LISTEN_ADDR_RE :: "string \<Rightarrow> bool" where
  "LISTEN_ADDR_RE line \<longleftrightarrow> first_match (\<lambda>s.
     case match_field ''listen'' s of
       Some r \<Rightarrow> if prefix (quoted ''127.0.0.1'') r \<or> prefix (quoted ''localhost'') r then Some () else None
     | None \<Rightarrow> None) line \<noteq> None"

section \<open>Configuration files\<close>

text \<open>One line of \<open>extract_ports_from_file\<close>: the flag of the local context and the ports so far.\<close>

definition scan_line :: "string \<Rightarrow> bool \<times> nat list \<Rightarrow> bool \<times> nat list" where
  "scan_line raw st =
     (let line = trim raw
      in if line = [] then st
         else
           (let loc0 = (if CHR ''{'' \<in> set line then False else fst st);
                loc1 = (if LISTEN_ADDR_RE line then True
                        else if contains_str (quoted ''listen'') line
                          \<and> (contains_str (quoted ''::'') line \<or> contains_str (quoted ''0.0.0.0'') line)
                        then False else loc0);
                ports = (case PORT_RE line of
                   Some ds \<Rightarrow> if \<not> loc1 then (case parse_u16 ds of Some p \<Rightarrow> snd st @ [p] | None \<Rightarrow> snd st) else snd st
                 | None \<Rightarrow> snd st);
                loc2 = (if CHR ''}'' \<in> set line then False else loc1)
            in (loc2, ports)))"

definition extract_ports_from_file :: "string \<Rightarrow> nat list" where
  "extract_ports_from_file content = snd (fold scan_line (str_lines content) (False, []))"

record dir_entry =
  de_name :: string
  de_is_file :: bool
  de_content :: "string option"

datatype directory =
    NoDir
  | Dir (dir_entries: "dir_entry list") (dir_failed: bool)

text \<open>\<open>path.extension() == "json"\<close>\<close>

definition json_ext :: "string \<Rightarrow> bool" where
  "json_ext name \<longleftrightarrow> suffix ''.json'' name \<and> name \<noteq> ''.json''"

definition scan_dir_for_ports :: "directory \<Rightarrow> string + nat list" where
  "scan_dir_for_ports d =
     (case d of
        NoDir \<Rightarrow> Inr []
      | Dir es failed \<Rightarrow>
          if failed then Inl ''next_entry''
          else Inr (concat (map (\<lambda>e.
                 if de_is_file e \<and> json_ext (de_name e)
                 then (case de_content e of Some c \<Rightarrow> extract_ports_from_file c | None \<Rightarrow> [])
                 else []) es)))"

section \<open>Listening sockets and SSH\<close>

definition parse_port_from_addr :: "string \<Rightarrow> nat option" where
  "parse_port_from_addr addr = parse_u16 (last (split_on (CHR '':'') addr))"

definition ss_line :: "string \<Rightarrow> nat option" where
  "ss_line line =
     (let parts = split_whitespace line
      in if length parts < 4 then None
         else (let local_addr = parts ! (length parts - 2)
               in if contains_str ''127.0.0.1'' local_addr \<or> contains_str ''[::1]'' local_addr then None
                  else parse_port_from_addr local_addr))"

text \<open>The output of a command: \<open>None\<close> when it could not be run, otherwise its success and its text.\<close>

type_synonym cmd_output = "(bool \<times> string) option"

fun scan_with_ss :: "cmd_output list \<Rightarrow> string + nat list" where
  "scan_with_ss [] = Inr []"
| "scan_with_ss (out # outs) =
     (case out of
        None \<Rightarrow> Inl ''ss''
      | Some (ok, stdout) \<Rightarrow>
          (case scan_with_ss outs of
             Inl e \<Rightarrow> Inl e
           | Inr ps \<Rightarrow> Inr ((if ok then List.map_filter ss_line (str_lines stdout) else []) @ ps)))"

definition netstat_line :: "string \<Rightarrow> nat option" where
  "netstat_line line =
     (let parts = split_whitespace line
      in if length parts < 4 then None
         else (let local_addr = parts ! 3
               in if contains_str ''127.0.0.1'' local_addr \<or> contains_str ''::1'' local_addr then None
                  else parse_port_from_addr local_addr))"

definition scan_with_netstat :: "cmd_output \<Rightarrow> string + nat list" where
  "scan_with_netstat out =
     (case out of
        None \<Rightarrow> Inl ''netstat''
      | Some (ok, stdout) \<Rightarrow>
          if \<not> ok then Inr []
          else Inr (List.map_filter netstat_line
                 (filter (\<lambda>l. prefix ''tcp'' l \<or> prefix ''udp'' l) (str_lines stdout))))"

definition scan_active_listening_ports :: "cmd_output list \<Rightarrow> cmd_output \<Rightarrow> nat list" where
  "scan_active_listening_ports ss netstat =
     (let fallback = (case scan_with_netstat netstat of Inr ps \<Rightarrow> ps | Inl _ \<Rightarrow> [])
      in case scan_with_ss ss of
           Inr ps \<Rightarrow> if ps \<noteq> [] then ps else fallback
         | Inl _ \<Rightarrow> fallback)"

definition ssh_port_line :: "string \<Rightarrow> nat option" where
  "ssh_port_line line =
     (if \<not> prefix ''port '' (to_ascii_lowercase line) then None
      else (case split_whitespace line of _ # w # _ \<Rightarrow> parse_u16 w | _ \<Rightarrow> None))"

definition detect_ssh_port :: "string option \<Rightarrow> string + nat" where
  "detect_ssh_port config =
     (case config of
        None \<Rightarrow> Inl ''sshd_config''
      | Some c \<Rightarrow>
          (case List.map_filter ssh_port_line (filter (\<lambda>l. \<not> prefix ''#'' l) (map trim (str_lines c))) of
             p # _ \<Rightarrow> Inr (if p = 0 then 22 else p)
           | [] \<Rightarrow> Inr 22))"

text \<open>Everything the firewall has to leave open.\<close>

record host =
  sshd_config :: "string option"
  has_web :: bool
  xray_conf :: directory
  box_conf :: directory
  ss_out :: "cmd_output list"
  netstat_out :: cmd_output

definition scan_all_ports :: "host \<Rightarrow> nat list" where
  "scan_all_ports h =
     (case detect_ssh_port (sshd_config h) of Inr p \<Rightarrow> [p] | Inl _ \<Rightarrow> [22])
   @ (if has_web h then [80, 443] else [])
   @ (case scan_dir_for_ports (xray_conf h) of Inr ps \<Rightarrow> ps | Inl _ \<Rightarrow> [])
   @ (case scan_dir_for_ports (box_conf h) of Inr ps \<Rightarrow> ps | Inl _ \<Rightarrow> [])
   @ scan_active_listening_ports (ss_out h) (netstat_out h)"

section \<open>Lemmas\<close>

lemma parse_u16_bound: "parse_u16 s = Some p \<Longrightarrow> p \<le> 65535"
  by (simp add: parse_u16_def parse_unsigned_bound)

lemma detect_ssh_port_pos: "detect_ssh_port c = Inr p \<Longrightarrow> 0 < p \<and> p \<le> 65535"
proof -
  assume a: "detect_ssh_port c = Inr p"
  have "q \<le> 65535" if "q # qs = List.map_filter ssh_port_line ls" for q qs ls
  proof -
    from that have "q \<in> set (List.map_filter ssh_port_line ls)" by (metis list.set_intros(1))
    then obtain l where "ssh_port_line l = Some q" by (auto simp: map_filter_def)
    then show ?thesis
      by (auto simp: ssh_port_line_def parse_u16_bound split: if_splits list.splits)
  qed
  with a show ?thesis
    by (auto simp: detect_ssh_port_def split: option.splits list.splits if_splits) (metis)
qed

lemma map_filter_bound:
  assumes "\<And>x q. f x = Some q \<Longrightarrow> q \<le> b" "p \<in> set (List.map_filter f xs)"
  shows "p \<le> b"
  using assms by (auto simp: map_filter_def)

lemma parse_port_from_addr_bound: "parse_port_from_addr a = Some p \<Longrightarrow> p \<le> 65535"
  by (simp add: parse_port_from_addr_def parse_u16_bound)

lemma ss_line_bound: "ss_line l = Some p \<Longrightarrow> p \<le> 65535"
  by (auto simp: ss_line_def Let_def parse_port_from_addr_bound split: if_splits)

lemma netstat_line_bound: "netstat_line l = Some p \<Longrightarrow> p \<le> 65535"
  by (auto simp: netstat_line_def Let_def parse_port_from_addr_bound split: if_splits)

lemma scan_with_ss_bound: "scan_with_ss outs = Inr ps \<Longrightarrow> p \<in> set ps \<Longrightarrow> p \<le> 65535"
proof (induction outs arbitrary: ps)
  case (Cons out outs)
  then obtain ok so qs where "out = Some (ok, so)" "scan_with_ss outs = Inr qs"
    "ps = (if ok then List.map_filter ss_line (str_lines so) else []) @ qs"
    by (auto split: option.splits sum.splits)
  with Cons show ?case
    by (auto split: if_splits intro: map_filter_bound [of ss_line] ss_line_bound)
qed simp

lemma scan_with_netstat_bound: "scan_with_netstat out = Inr ps \<Longrightarrow> p \<in> set ps \<Longrightarrow> p \<le> 65535"
  by (auto simp: scan_with_netstat_def split: option.splits if_splits
      intro: map_filter_bound [of netstat_line] netstat_line_bound)

lemma scan_active_bound: "p \<in> set (scan_active_listening_ports ss ns) \<Longrightarrow> p \<le> 65535"
  by (auto simp: scan_active_listening_ports_def Let_def split: sum.splits if_splits
      dest: scan_with_ss_bound scan_with_netstat_bound [OF sym] scan_with_netstat_bound)

lemma scan_line_ports:
  "(\<exists>p. p \<le> 65535 \<and> snd (scan_line l st) = snd st @ [p]) \<or> snd (scan_line l st) = snd st"
  by (auto simp: scan_line_def Let_def split: option.splits dest: parse_u16_bound)

lemma scan_lines_ports:
  assumes "\<forall>p \<in> set (snd st). p \<le> 65535"
  shows "(\<forall>p \<in> set (snd (fold scan_line ls st)). p \<le> 65535)
    \<and> length (snd (fold scan_line ls st)) \<le> length (snd st) + length ls"
  using assms
proof (induction ls arbitrary: st)
  case (Cons l ls)
  from scan_line_ports [of l st] Cons.prems have "\<forall>p \<in> set (snd (scan_line l st)). p \<le> 65535"
    "length (snd (scan_line l st)) \<le> length (snd st) + 1"
    by auto
  with Cons.IH [of "scan_line l st"] show ?case by auto
qed simp

lemma extract_ports_bound: "p \<in> set (extract_ports_from_file c) \<Longrightarrow> p \<le> 65535"
  using scan_lines_ports [of "(False, [])" "str_lines c"] by (auto simp: extract_ports_from_file_def)

lemma scan_dir_bound: "scan_dir_for_ports d = Inr ps \<Longrightarrow> p \<in> set ps \<Longrightarrow> p \<le> 65535"
  by (auto simp: scan_dir_for_ports_def extract_ports_bound split: directory.splits if_splits option.splits)

section \<open>Properties\<close>

text \<open>
  Also: the firewall scan never locks the administrator out: whatever files, directories and tools are
  missing or fail, the set of ports to leave open contains the port \<open>sshd\<close> is configured for, or 22
  when none is, and every port of the set is a 16-bit number.
\<close>

theorem scan_keeps_ssh:
  "(\<exists>p \<in> set (scan_all_ports h). 0 < p \<and> (detect_ssh_port (sshd_config h) = Inr p
      \<or> sshd_config h = None \<and> p = 22))
   \<and> set (scan_all_ports h) \<subseteq> {..65535}"
proof
  show "\<exists>p \<in> set (scan_all_ports h). 0 < p \<and> (detect_ssh_port (sshd_config h) = Inr p
      \<or> sshd_config h = None \<and> p = 22)"
    using detect_ssh_port_pos [of "sshd_config h"]
    by (cases "detect_ssh_port (sshd_config h)")
       (auto simp: scan_all_ports_def, auto simp: detect_ssh_port_def split: option.splits list.splits)
  show "set (scan_all_ports h) \<subseteq> {..65535}"
    using detect_ssh_port_pos [of "sshd_config h"]
    by (auto simp: scan_all_ports_def split: sum.splits if_splits dest: scan_active_bound scan_dir_bound scan_dir_bound [OF sym])
qed

text \<open>
  Also: a configuration file yields at most one port per line, so of a file printed on a single line at
  most the first port is seen.
\<close>

theorem one_port_per_line:
  "length (extract_ports_from_file c) \<le> length (str_lines c)"
  using scan_lines_ports [of "(False, [])" "str_lines c"] by (simp add: extract_ports_from_file_def)

end
