(* ===== verification/PortAllocator.thy ===== *)
theory PortAllocator
  imports Json FirewallScan
begin

text \<open>
  The hop-range allocator, \<open>core/xray/port_allocator.rs\<close>, with the rule that recognises a live hopping
  inbound (\<open>ConfigManager::extract_xray_hy2_hop_ports\<close>). The allocation file is one cell of the state:
  absent, unreadable, garbled or holding the data (the derived serialisers read back what they write).
  A write that fails may leave anything behind, which the state's \<open>disk\<close> function decides together with
  the error. Ports are numbers below 65536; where the source adds to one, the sum is reduced modulo
  65536 as the release profile does unless the bounds make that superfluous.
\<close>

section \<open>Data\<close>

definition XRAY_PORT_MIN :: nat where
  "XRAY_PORT_MIN = 10000"

definition XRAY_PORT_MAX :: nat where
  "XRAY_PORT_MAX = 60000"

definition HOP_SIZE :: nat where
  "HOP_SIZE = 100"

definition BOX_HY2_PROTOCOL :: string where
  "BOX_HY2_PROTOCOL = ''hysteria2''"

definition XRAY_HY2_PROTOCOL :: string where
  "XRAY_HY2_PROTOCOL = ''xray-hysteria2''"

record locked_range =
  lr_start :: nat
  lr_end :: nat
  lr_protocol :: string
  lr_created_at :: int

record port_alloc_data =
  locked_ranges :: "locked_range list"
  initialized :: bool

definition default_alloc :: port_alloc_data where
  "default_alloc = \<lparr>locked_ranges = [], initialized = False\<rparr>"

datatype alloc_file = Absent | Unreadable | Garbled | Stored port_alloc_data

record alloc_world =
  alloc_file :: alloc_file
  writes :: nat
  disk :: "nat \<Rightarrow> (string \<times> alloc_file) option"

section \<open>The allocation file\<close>

definition load_port_alloc_at :: "(alloc_world, port_alloc_data) io" where
  "load_port_alloc_at w =
     (case alloc_file w of
        Absent \<Rightarrow> Inr default_alloc
      | Unreadable \<Rightarrow> Inl ''read''
      | Garbled \<Rightarrow> Inl ''parse''
      | Stored d \<Rightarrow> Inr d, w)"

definition save_port_alloc_at :: "port_alloc_data \<Rightarrow> (alloc_world, unit) io" where
  "save_port_alloc_at d w =
     (case disk w (writes w) of
        None \<Rightarrow> (Inr (), w\<lparr>alloc_file := Stored d, writes := writes w + 1\<rparr>)
      | Some (e, f) \<Rightarrow> (Inl e, w\<lparr>alloc_file := f, writes := writes w + 1\<rparr>))"

text \<open>\<open>load_port_alloc_at(path).await.unwrap_or_default()\<close>\<close>

definition load_or_default :: "alloc_world \<Rightarrow> port_alloc_data" where
  "load_or_default w = (case alloc_file w of Stored d \<Rightarrow> d | _ \<Rightarrow> default_alloc)"

section \<open>Scanning\<close>

definition check_hysteria2_limit :: "directory \<Rightarrow> bool" where
  "check_hysteria2_limit d =
     (case d of
        NoDir \<Rightarrow> True
      | Dir es _ \<Rightarrow>
          length (filter (\<lambda>e. suffix ''.json'' (de_name e)
            \<and> (case de_content e of Some c \<Rightarrow> contains_str ''hysteria2'' c | None \<Rightarrow> False)) es) < 50)"

function extract_ports_from_json :: "string \<Rightarrow> nat list" where
  "extract_ports_from_json content =
     (case content of
        [] \<Rightarrow> []
      | c # cs \<Rightarrow>
          (case match_digits [''listen_port''] content of
             Some (ds, rest) \<Rightarrow>
               (case parse_u16 ds of Some p \<Rightarrow> [p] | None \<Rightarrow> [])
               @ (if length rest < length content then extract_ports_from_json rest else [])
           | None \<Rightarrow> extract_ports_from_json cs))"
  by pat_completeness auto
termination by (relation "measure length") auto

declare extract_ports_from_json.simps [simp del]

definition singbox_ports :: "directory \<Rightarrow> nat list" where
  "singbox_ports d =
     (case d of
        NoDir \<Rightarrow> []
      | Dir es _ \<Rightarrow> concat (map (\<lambda>e.
          if suffix ''.json'' (de_name e) \<and> \<not> prefix ''00_'' (de_name e)
          then (case de_content e of Some c \<Rightarrow> extract_ports_from_json c | None \<Rightarrow> []) else []) es))"

definition range_ports :: "locked_range \<Rightarrow> nat list" where
  "range_ports r = [lr_start r..<lr_end r + 1]"

definition scan_all_occupied_ports :: "directory \<Rightarrow> directory \<Rightarrow> alloc_world \<Rightarrow> nat list" where
  "scan_all_occupied_ports xray_dir box_dir w =
     [22, 80, 443]
   @ (case scan_dir_for_ports xray_dir of Inr ps \<Rightarrow> ps | Inl _ \<Rightarrow> [])
   @ singbox_ports box_dir
   @ (case fst (load_port_alloc_at w) of
        Inr d \<Rightarrow> concat (map range_ports (locked_ranges d)) | Inl _ \<Rightarrow> [])"

text \<open>The two loops of \<open>find_consecutive_range\<close>; the inner one stops at the first occupied port. All sums
  stay at or below \<open>XRAY_PORT_MAX\<close>.\<close>

primrec run_free :: "nat list \<Rightarrow> nat \<Rightarrow> nat \<Rightarrow> bool" where
  "run_free occupied p 0 = True"
| "run_free occupied p (Suc n) = (if p \<in> set occupied then False else run_free occupied (p + 1) n)"

function search_range :: "nat list \<Rightarrow> nat \<Rightarrow> nat \<Rightarrow> nat option" where
  "search_range occupied sz main =
     (if main > XRAY_PORT_MAX - sz then None
      else if run_free occupied main sz then Some main
      else search_range occupied sz (main + 1))"
  by pat_completeness auto
termination by (relation "measure (\<lambda>(occ, sz, main). Suc (XRAY_PORT_MAX - sz) - main)") auto

declare search_range.simps [simp del]

definition find_consecutive_range :: "nat list \<Rightarrow> nat \<Rightarrow> string + nat" where
  "find_consecutive_range occupied sz =
     (case search_range occupied sz XRAY_PORT_MIN of Some m \<Rightarrow> Inr m | None \<Rightarrow> Inl ''no range'')"

section \<open>Allocating and releasing\<close>

definition get_locked_ranges :: "alloc_world \<Rightarrow> (nat \<times> nat) list" where
  "get_locked_ranges w = map (\<lambda>r. (lr_start r, lr_end r)) (locked_ranges (load_or_default w))"

definition is_port_in_locked_range :: "nat \<Rightarrow> alloc_world \<Rightarrow> bool" where
  "is_port_in_locked_range port w \<longleftrightarrow> list_ex (\<lambda>(a, b). a \<le> port \<and> port \<le> b) (get_locked_ranges w)"

text \<open>\<open>allocate_hysteria2_at\<close> and \<open>allocate_xray_hysteria2_at\<close> differ in the tag only.\<close>

definition allocate_tagged ::
  "string \<Rightarrow> int \<Rightarrow> directory \<Rightarrow> directory \<Rightarrow> (alloc_world, nat \<times> nat \<times> nat) io" where
  "allocate_tagged tag now xray_dir box_dir w =
     (case find_consecutive_range (scan_all_occupied_ports xray_dir box_dir w) HOP_SIZE of
        Inl e \<Rightarrow> (Inl e, w)
      | Inr main \<Rightarrow>
          (let d = load_or_default w;
               rng = \<lparr>lr_start = main, lr_end = main + 99, lr_protocol = tag, lr_created_at = now\<rparr>
           in bindE (save_port_alloc_at (d\<lparr>locked_ranges := locked_ranges d @ [rng]\<rparr>))
                (\<lambda>_. retE (main, main + 1, main + 99)) w))"

definition allocate_hysteria2_at ::
  "int \<Rightarrow> directory \<Rightarrow> directory \<Rightarrow> (alloc_world, nat \<times> nat \<times> nat) io" where
  "allocate_hysteria2_at = allocate_tagged BOX_HY2_PROTOCOL"

definition allocate_xray_hysteria2_at ::
  "int \<Rightarrow> directory \<Rightarrow> directory \<Rightarrow> (alloc_world, nat \<times> nat \<times> nat) io" where
  "allocate_xray_hysteria2_at = allocate_tagged XRAY_HY2_PROTOCOL"

definition release_tagged :: "string \<Rightarrow> nat \<Rightarrow> (alloc_world, unit) io" where
  "release_tagged tag main w =
     (let d = load_or_default w;
          kept = filter (\<lambda>r. \<not> (lr_protocol r = tag \<and> lr_start r = main)) (locked_ranges d)
      in if length kept < length (locked_ranges d)
         then save_port_alloc_at (d\<lparr>locked_ranges := kept\<rparr>) w
         else (Inr (), w))"

definition release_hysteria2_range_at :: "nat \<Rightarrow> (alloc_world, unit) io" where
  "release_hysteria2_range_at = release_tagged BOX_HY2_PROTOCOL"

definition release_xray_hysteria2_range_at :: "nat \<Rightarrow> (alloc_world, unit) io" where
  "release_xray_hysteria2_range_at = release_tagged XRAY_HY2_PROTOCOL"

definition get_hysteria2_range :: "alloc_world \<Rightarrow> (nat \<times> nat \<times> nat) option" where
  "get_hysteria2_range w =
     map_option (\<lambda>r. (lr_start r, (lr_start r + 1) mod 65536, lr_end r))
       (find (\<lambda>r. lr_protocol r = BOX_HY2_PROTOCOL) (locked_ranges (load_or_default w)))"

definition get_xray_hysteria2_ranges :: "alloc_world \<Rightarrow> (nat \<times> nat \<times> nat) list" where
  "get_xray_hysteria2_ranges w =
     map (\<lambda>r. (lr_start r, (lr_start r + 1) mod 65536, lr_end r))
       (filter (\<lambda>r. lr_protocol r = XRAY_HY2_PROTOCOL) (locked_ranges (load_or_default w)))"

section \<open>Orphaned ranges\<close>

definition hop_port :: "json \<Rightarrow> nat list" where
  "hop_port inbound =
     (if jget ''protocol'' inbound = Some (JStr ''hysteria'')
         \<and> jpath [''streamSettings'', ''finalmask'', ''quicParams'', ''udpHop''] inbound \<noteq> None
      then (case Option.bind (jget ''port'' inbound) as_u64 of
              Some p \<Rightarrow> if p \<le> 65535 - 99 then [p] else []
            | None \<Rightarrow> [])
      else [])"

text \<open>A file that is no JSON reads as \<open>null\<close>.\<close>

definition extract_xray_hy2_hop_ports :: "(string \<Rightarrow> json option) \<Rightarrow> string \<Rightarrow> nat list" where
  "extract_xray_hy2_hop_ports parse content =
     (case Option.bind (jget ''inbounds'' (case parse content of Some j \<Rightarrow> j | None \<Rightarrow> JNull)) as_array of
        Some inbounds \<Rightarrow> concat (map hop_port inbounds)
      | None \<Rightarrow> [])"

definition live_ports :: "(string \<Rightarrow> json option) \<Rightarrow> directory \<Rightarrow> nat list" where
  "live_ports parse d =
     (case d of
        NoDir \<Rightarrow> []
      | Dir es _ \<Rightarrow> concat (map (\<lambda>e.
          if json_ext (de_name e)
          then (case de_content e of Some c \<Rightarrow> extract_xray_hy2_hop_ports parse c | None \<Rightarrow> []) else []) es))"

fun release_all :: "nat list \<Rightarrow> (alloc_world, nat list) io" where
  "release_all [] = retE []"
| "release_all (m # ms) =
     thenE (release_xray_hysteria2_range_at m) (bindE (release_all ms) (\<lambda>rel. retE (m # rel)))"

definition reclaim_orphaned_xray_ranges_at ::
  "(string \<Rightarrow> json option) \<Rightarrow> directory \<Rightarrow> (alloc_world, nat list) io" where
  "reclaim_orphaned_xray_ranges_at parse conf_dir w =
     (let locked = map lr_start (filter (\<lambda>r. lr_protocol r = XRAY_HY2_PROTOCOL) (locked_ranges (load_or_default w)))
      in if locked = [] then (Inr [], w)
         else release_all (filter (\<lambda>m. m \<notin> set (live_ports parse conf_dir)) locked) w)"

section \<open>Lemmas\<close>

lemma run_free_iff: "run_free occ p n \<longleftrightarrow> (\<forall>q. p \<le> q \<and> q < p + n \<longrightarrow> q \<notin> set occ)"
proof (induction n arbitrary: p)
  case 0
  then show ?case by auto
next
  case (Suc n)
  have eq: "p \<le> q \<and> q < p + Suc n \<longleftrightarrow> q = p \<or> p + 1 \<le> q \<and> q < p + 1 + n" for q
    by auto
  show ?case
    by (simp only: run_free.simps Suc.IH eq) auto
qed

lemma search_range_Some:
  "search_range occ n m = Some p \<Longrightarrow>
     m \<le> p \<and> p \<le> XRAY_PORT_MAX - n \<and> run_free occ p n \<and> (\<forall>q. m \<le> q \<and> q < p \<longrightarrow> \<not> run_free occ q n)"
proof (induction occ n m rule: search_range.induct)
  case (1 occ n m)
  show ?case
  proof (cases "m > XRAY_PORT_MAX - n \<or> run_free occ m n")
    case True
    then show ?thesis using 1(2) by (auto simp: search_range.simps [of occ n m] split: if_splits)
  next
    case False
    then have s: "search_range occ n (m + 1) = Some p"
      using 1(2) by (simp add: search_range.simps [of occ n m])
    have IH: "m + 1 \<le> p \<and> p \<le> XRAY_PORT_MAX - n \<and> run_free occ p n
        \<and> (\<forall>q. m + 1 \<le> q \<and> q < p \<longrightarrow> \<not> run_free occ q n)"
      using False by (intro 1(1) s) auto
    have "\<not> run_free occ q n" if "m \<le> q" "q < p" for q
      using IH that False by (cases "q = m") auto
    with IH show ?thesis by auto
  qed
qed

lemma search_range_None:
  "search_range occ n m = None \<longleftrightarrow> (\<forall>q. m \<le> q \<and> q \<le> XRAY_PORT_MAX - n \<longrightarrow> \<not> run_free occ q n)"
proof (induction occ n m rule: search_range.induct)
  case (1 occ n m)
  show ?case
  proof (cases "m > XRAY_PORT_MAX - n \<or> run_free occ m n")
    case True
    then show ?thesis by (auto simp: search_range.simps [of occ n m])
  next
    case False
    then have "search_range occ n m = None \<longleftrightarrow> search_range occ n (m + 1) = None"
      by (simp add: search_range.simps [of occ n m])
    also have "\<dots> \<longleftrightarrow> (\<forall>q. m + 1 \<le> q \<and> q \<le> XRAY_PORT_MAX - n \<longrightarrow> \<not> run_free occ q n)"
      using False by (intro 1) auto
    also have "\<dots> \<longleftrightarrow> (\<forall>q. m \<le> q \<and> q \<le> XRAY_PORT_MAX - n \<longrightarrow> \<not> run_free occ q n)"
      using False by (metis Suc_eq_plus1 Suc_leI Suc_leD le_neq_implies_less)
    finally show ?thesis .
  qed
qed

definition disjoint_ranges :: "locked_range \<Rightarrow> locked_range \<Rightarrow> bool" where
  "disjoint_ranges r r' \<longleftrightarrow> lr_end r < lr_start r' \<or> lr_end r' < lr_start r"

text \<open>The ranges of a good allocation file: proper, inside the ports, pairwise disjoint.\<close>

definition alloc_ok :: "port_alloc_data \<Rightarrow> bool" where
  "alloc_ok d \<longleftrightarrow> (\<forall>r \<in> set (locked_ranges d). lr_start r \<le> lr_end r \<and> lr_end r \<le> 65535)
     \<and> sorted_wrt disjoint_ranges (locked_ranges d)"

lemma range_ports_iff: "p \<in> set (range_ports r) \<longleftrightarrow> lr_start r \<le> p \<and> p \<le> lr_end r"
  by (auto simp: range_ports_def)

lemma free_run_disjoint:
  assumes "run_free occ m n" "0 < n" "set (range_ports r) \<subseteq> set occ" "lr_start r \<le> lr_end r"
    and "lr_start r' = m" "lr_end r' = m + n - 1"
  shows "disjoint_ranges r r'"
proof (rule ccontr)
  assume "\<not> disjoint_ranges r r'"
  then have "max m (lr_start r) \<in> set (range_ports r)" "m \<le> max m (lr_start r)" "max m (lr_start r) < m + n"
    using assms(2,4-6) by (auto simp: disjoint_ranges_def range_ports_iff not_less)
  with assms(1,3) show False by (auto simp: run_free_iff)
qed

lemma allocate_cases:
  assumes "allocate_tagged tag now xd bd w = (Inr (m, a, b), w')"
  shows "find_consecutive_range (scan_all_occupied_ports xd bd w) HOP_SIZE = Inr m \<and> a = m + 1 \<and> b = m + 99
    \<and> disk w (writes w) = None
    \<and> alloc_file w' = Stored ((load_or_default w)\<lparr>locked_ranges := locked_ranges (load_or_default w) @
         [\<lparr>lr_start = m, lr_end = m + 99, lr_protocol = tag, lr_created_at = now\<rparr>]\<rparr>)
    \<and> disk w' = disk w \<and> writes w' = writes w + 1"
  using assms
  by (auto simp: allocate_tagged_def save_port_alloc_at_def bindE_def Let_def split: sum.splits option.splits)

lemma found_range:
  assumes "find_consecutive_range occ HOP_SIZE = Inr m"
  shows "10000 \<le> m \<and> m \<le> 59900 \<and> run_free occ m 100"
proof -
  from assms have "search_range occ HOP_SIZE XRAY_PORT_MIN = Some m"
    by (simp add: find_consecutive_range_def split: option.splits)
  from search_range_Some [OF this] show ?thesis
    by (simp add: XRAY_PORT_MIN_def XRAY_PORT_MAX_def HOP_SIZE_def)
qed

lemma load_stored [simp]: "load_or_default (w\<lparr>alloc_file := Stored d, writes := n\<rparr>) = d"
  by (simp add: load_or_default_def)

lemma release_file:
  assumes "disk w (writes w) = None"
  shows "fst (release_tagged tag m w) = Inr ()
    \<and> locked_ranges (load_or_default (snd (release_tagged tag m w))) =
      filter (\<lambda>r. \<not> (lr_protocol r = tag \<and> lr_start r = m)) (locked_ranges (load_or_default w))"
proof (cases "length (filter (\<lambda>r. \<not> (lr_protocol r = tag \<and> lr_start r = m)) (locked_ranges (load_or_default w)))
    < length (locked_ranges (load_or_default w))")
  case True
  with assms show ?thesis
    by (simp add: release_tagged_def save_port_alloc_at_def Let_def)
next
  case False
  then have "filter (\<lambda>r. \<not> (lr_protocol r = tag \<and> lr_start r = m)) (locked_ranges (load_or_default w))
      = locked_ranges (load_or_default w)"
    by (metis filter_True length_filter_less)
  with False show ?thesis by (simp add: release_tagged_def)
qed

lemma release_disk: "disk (snd (release_tagged tag m w)) = disk w"
  by (simp add: release_tagged_def save_port_alloc_at_def Let_def split: option.splits prod.splits)

lemma release_all_file:
  assumes "\<forall>n. disk w n = None"
  shows "fst (release_all ms w) = Inr ms
    \<and> locked_ranges (load_or_default (snd (release_all ms w))) =
      filter (\<lambda>r. \<not> (lr_protocol r = XRAY_HY2_PROTOCOL \<and> lr_start r \<in> set ms)) (locked_ranges (load_or_default w))"
  using assms
proof (induction ms arbitrary: w)
  case Nil
  then show ?case by simp
next
  case (Cons m ms)
  obtain w1 where r: "release_tagged XRAY_HY2_PROTOCOL m w = (Inr (), w1)"
    using release_file [of w XRAY_HY2_PROTOCOL m] Cons.prems by (metis prod.collapse)
  have "\<forall>n. disk w1 n = None"
    using Cons.prems release_disk [of XRAY_HY2_PROTOCOL m w] r by simp
  note IH = Cons.IH [OF this]
  obtain w2 where w2: "release_all ms w1 = (Inr ms, w2)" using IH by (metis prod.collapse)
  have eq: "release_all (m # ms) w = (Inr (m # ms), w2)"
    using r w2 by (simp add: thenE_apply bindE_def release_xray_hysteria2_range_at_def)
  have "locked_ranges (load_or_default w2) =
      filter (\<lambda>r. \<not> (lr_protocol r = XRAY_HY2_PROTOCOL \<and> lr_start r \<in> set ms))
        (filter (\<lambda>r. \<not> (lr_protocol r = XRAY_HY2_PROTOCOL \<and> lr_start r = m)) (locked_ranges (load_or_default w)))"
    using IH w2 r release_file [of w XRAY_HY2_PROTOCOL m] Cons.prems by simp
  also have "\<dots> = filter (\<lambda>r. \<not> (lr_protocol r = XRAY_HY2_PROTOCOL \<and> lr_start r \<in> set (m # ms)))
        (locked_ranges (load_or_default w))"
    by (auto intro: filter_cong)
  finally show ?case using eq by simp
qed

lemma reclaim_outcome:
  assumes "\<forall>n. disk w n = None"
  shows "fst (reclaim_orphaned_xray_ranges_at parse dir w) =
      Inr (filter (\<lambda>m. m \<notin> set (live_ports parse dir))
        (map lr_start (filter (\<lambda>r. lr_protocol r = XRAY_HY2_PROTOCOL) (locked_ranges (load_or_default w)))))
    \<and> locked_ranges (load_or_default (snd (reclaim_orphaned_xray_ranges_at parse dir w))) =
      filter (\<lambda>r. lr_protocol r = XRAY_HY2_PROTOCOL \<longrightarrow> lr_start r \<in> set (live_ports parse dir))
        (locked_ranges (load_or_default w))"
proof -
  let ?rs = "locked_ranges (load_or_default w)"
  let ?locked = "map lr_start (filter (\<lambda>r. lr_protocol r = XRAY_HY2_PROTOCOL) ?rs)"
  let ?dead = "filter (\<lambda>m. m \<notin> set (live_ports parse dir)) ?locked"
  have flt: "filter (\<lambda>r. \<not> (lr_protocol r = XRAY_HY2_PROTOCOL \<and> lr_start r \<in> set ?dead)) ?rs
      = filter (\<lambda>r. lr_protocol r = XRAY_HY2_PROTOCOL \<longrightarrow> lr_start r \<in> set (live_ports parse dir)) ?rs"
    by (rule filter_cong) auto
  show ?thesis
  proof (cases "?locked = []")
    case True
    then have "filter (\<lambda>r. lr_protocol r = XRAY_HY2_PROTOCOL) ?rs = []" by simp
    then have "filter (\<lambda>r. lr_protocol r = XRAY_HY2_PROTOCOL \<longrightarrow> lr_start r \<in> set (live_ports parse dir)) ?rs = ?rs"
      by (auto simp: filter_empty_conv filter_id_conv)
    with True show ?thesis by (simp add: reclaim_orphaned_xray_ranges_at_def Let_def)
  next
    case False
    then have "reclaim_orphaned_xray_ranges_at parse dir w = release_all ?dead w"
      by (simp add: reclaim_orphaned_xray_ranges_at_def Let_def)
    then show ?thesis
      using release_all_file [OF assms, of ?dead] flt by simp
  qed
qed

section \<open>The allocation file as a store of locks\<close>

text \<open>
  What the configuration managers rely on: a lock is named by its main port, releasing one removes that
  lock and no other, and a sound store stays sound. \<open>hop_owner\<close> adds the configurations that own locks.
\<close>

locale lock_store =
  fixes ok :: "'w \<Rightarrow> bool"
    and release :: "nat \<Rightarrow> 'w \<Rightarrow> 'w"
    and locked :: "'w \<Rightarrow> nat set"
  assumes release_ok: "ok w \<Longrightarrow> ok (release p w)"
    and release_locked: "ok w \<Longrightarrow> locked (release p w) = locked w - {p}"
begin

lemma release_list: "ok w \<Longrightarrow> ok (fold release ps w) \<and> locked (fold release ps w) = locked w - set ps"
proof (induction ps arbitrary: w)
  case (Cons p ps)
  then show ?case using Cons.IH [OF release_ok [OF Cons.prems, of p]] release_locked [OF Cons.prems, of p] by auto
qed simp

end

locale hop_owner = lock_store +
  fixes live :: "'a \<Rightarrow> nat list"
  assumes release_live: "live (release p w) = live w"
begin

definition owned :: "'a \<Rightarrow> bool" where
  "owned w \<longleftrightarrow> ok w \<and> distinct (live w) \<and> set (live w) \<subseteq> locked w"

lemma live_release_list: "live (fold release ps w) = live w"
  by (induction ps arbitrary: w) (simp_all add: release_live)

lemma owned_release_list: "owned w \<Longrightarrow> set ps \<inter> set (live w) = {} \<Longrightarrow> owned (fold release ps w)"
  using release_list [of w ps] by (auto simp: owned_def live_release_list)

end

definition alloc_sound :: "alloc_world \<Rightarrow> bool" where
  "alloc_sound w \<longleftrightarrow> (\<forall>n. disk w n = None) \<and> alloc_file w \<notin> {Unreadable, Garbled} \<and> alloc_ok (load_or_default w)"

text \<open>The main ports of the full ranges locked under a tag.\<close>

definition tag_locked :: "string \<Rightarrow> alloc_world \<Rightarrow> nat set" where
  "tag_locked tag w = lr_start ` {r \<in> set (locked_ranges (load_or_default w)). lr_protocol r = tag \<and> lr_end r = lr_start r + 99}"

lemma alloc_ok_filter: "alloc_ok d \<Longrightarrow> locked_ranges d' = filter P (locked_ranges d) \<Longrightarrow> alloc_ok d'"
  by (auto simp: alloc_ok_def sorted_wrt_filter)

lemma release_readable: "alloc_sound w \<Longrightarrow> alloc_file (snd (release_tagged tag m w)) \<notin> {Unreadable, Garbled}"
  by (auto simp: release_tagged_def save_port_alloc_at_def alloc_sound_def Let_def split: option.splits)

lemma release_sound:
  assumes "alloc_sound w"
  shows "alloc_sound (snd (release_tagged tag m w))"
    "tag_locked tag' (snd (release_tagged tag m w)) = tag_locked tag' w - (if tag' = tag then {m} else {})"
proof -
  have "disk w (writes w) = None" using assms by (simp add: alloc_sound_def)
  note f = conjunct2 [OF release_file [OF this, of tag m]]
  show "alloc_sound (snd (release_tagged tag m w))"
    using assms release_readable [OF assms, of tag m] alloc_ok_filter [OF _ f]
    by (simp add: alloc_sound_def release_disk)
  show "tag_locked tag' (snd (release_tagged tag m w)) = tag_locked tag' w - (if tag' = tag then {m} else {})"
    by (auto simp: tag_locked_def f)
qed

lemma locked_occupied:
  assumes "alloc_sound w" "r \<in> set (locked_ranges (load_or_default w))"
  shows "set (range_ports r) \<subseteq> set (scan_all_occupied_ports xd bd w)"
  using assms
  by (cases "alloc_file w") (auto simp: alloc_sound_def scan_all_occupied_ports_def load_port_alloc_at_def load_or_default_def)

lemma allocate_sound:
  assumes "alloc_sound w" "allocate_tagged tag now xd bd w = (r, w')"
  shows "alloc_sound w'"
    and "r = Inr (m, a, b) \<Longrightarrow> a = m + 1 \<and> b = m + 99 \<and> 10000 \<le> m \<and> m \<le> 59900
      \<and> (\<forall>p. m \<le> p \<and> p \<le> b \<longrightarrow> p \<notin> set (scan_all_occupied_ports xd bd w))
      \<and> m \<notin> tag_locked tag' w \<and> tag_locked tag w' = insert m (tag_locked tag w)"
    and "isl r \<Longrightarrow> w' = w"
proof -
  have d: "disk w (writes w) = None" using assms(1) by (simp add: alloc_sound_def)
  show err: "isl r \<Longrightarrow> w' = w"
    using assms(2) d by (auto simp: allocate_tagged_def save_port_alloc_at_def bindE_def Let_def split: sum.splits)
  let ?rng = "\<lambda>m. \<lparr>lr_start = m, lr_end = m + 99, lr_protocol = tag, lr_created_at = now\<rparr>"
  have ok: "alloc_sound w' \<and> a = m + 1 \<and> b = m + 99 \<and> 10000 \<le> m \<and> m \<le> 59900
      \<and> (\<forall>p. m \<le> p \<and> p \<le> b \<longrightarrow> p \<notin> set (scan_all_occupied_ports xd bd w))
      \<and> m \<notin> tag_locked tag' w \<and> tag_locked tag w' = insert m (tag_locked tag w)"
    if r: "r = Inr (m, a, b)" for m a b tag'
  proof -
    note c = allocate_cases [OF assms(2) [unfolded r]]
    have f: "10000 \<le> m" "m \<le> 59900" "run_free (scan_all_occupied_ports xd bd w) m 100"
      using found_range [of "scan_all_occupied_ports xd bd w" m] c by auto
    have proper: "lr_start q \<le> lr_end q" if "q \<in> set (locked_ranges (load_or_default w))" for q
      using assms(1) that by (simp add: alloc_sound_def alloc_ok_def)
    have "disjoint_ranges q (?rng m)" if "q \<in> set (locked_ranges (load_or_default w))" for q
      by (rule free_run_disjoint [OF f(3) _ locked_occupied [OF assms(1) that] proper [OF that]]) simp_all
    then have "alloc_ok ((load_or_default w)\<lparr>locked_ranges := locked_ranges (load_or_default w) @ [?rng m]\<rparr>)"
      using assms(1) f by (auto simp: alloc_sound_def alloc_ok_def sorted_wrt_append)
    then have "alloc_sound w'" using c assms(1) by (simp add: alloc_sound_def load_or_default_def)
    moreover have "m \<notin> tag_locked tag' w"
    proof
      assume "m \<in> tag_locked tag' w"
      then obtain q where q: "q \<in> set (locked_ranges (load_or_default w))" "lr_start q = m" by (auto simp: tag_locked_def)
      then have "m \<in> set (scan_all_occupied_ports xd bd w)"
        using locked_occupied [OF assms(1) q(1), of xd bd] proper [OF q(1)] by (auto simp: range_ports_iff)
      with f(3) show False by (simp add: run_free_iff)
    qed
    moreover have "tag_locked tag w' = insert m (tag_locked tag w)"
    proof -
      have "set (locked_ranges (load_or_default w')) = insert (?rng m) (set (locked_ranges (load_or_default w)))"
        using c by (simp add: load_or_default_def)
      then have "{q \<in> set (locked_ranges (load_or_default w')). lr_protocol q = tag \<and> lr_end q = lr_start q + 99}
          = insert (?rng m) {q \<in> set (locked_ranges (load_or_default w)). lr_protocol q = tag \<and> lr_end q = lr_start q + 99}" by auto
      then show ?thesis by (simp add: tag_locked_def)
    qed
    ultimately show ?thesis using c f by (auto simp: run_free_iff)
  qed
  show "alloc_sound w'"
  proof (cases r)
    case (Inl e)
    with err assms(1) show ?thesis by simp
  next
    case (Inr v)
    obtain m a b where "v = (m, a, b)" by (cases v)
    with ok Inr show ?thesis by blast
  qed
  show "r = Inr (m, a, b) \<Longrightarrow> a = m + 1 \<and> b = m + 99 \<and> 10000 \<le> m \<and> m \<le> 59900
      \<and> (\<forall>p. m \<le> p \<and> p \<le> b \<longrightarrow> p \<notin> set (scan_all_occupied_ports xd bd w))
      \<and> m \<notin> tag_locked tag' w \<and> tag_locked tag w' = insert m (tag_locked tag w)"
    using ok by blast
qed

lemma ranges_apart:
  assumes "alloc_sound w" "p \<in> tag_locked tag w" "q \<in> tag_locked tag' w" "p \<noteq> q"
  shows "p + 99 < q \<or> q + 99 < p"
proof -
  have "disjoint_ranges a b \<or> disjoint_ranges b a"
    if "sorted_wrt disjoint_ranges rs" "a \<in> set rs" "b \<in> set rs" "a \<noteq> b" for rs a b
    using that by (induction rs) auto
  then show ?thesis
    using assms by (fastforce simp: tag_locked_def alloc_sound_def alloc_ok_def disjoint_ranges_def)
qed

interpretation xray_locks: lock_store alloc_sound "\<lambda>p w. snd (release_xray_hysteria2_range_at p w)" "tag_locked XRAY_HY2_PROTOCOL"
  by unfold_locales (simp_all add: release_xray_hysteria2_range_at_def release_sound)

interpretation box_locks: lock_store alloc_sound "\<lambda>p w. snd (release_hysteria2_range_at p w)" "tag_locked BOX_HY2_PROTOCOL"
  by unfold_locales (simp_all add: release_hysteria2_range_at_def release_sound)

text \<open>Reclaiming on a sound store: the live locks stay, the locks without a configuration go.\<close>

lemma reclaim_sound:
  assumes "alloc_sound w"
  shows "alloc_sound (snd (reclaim_orphaned_xray_ranges_at parse d w))"
    "tag_locked XRAY_HY2_PROTOCOL (snd (reclaim_orphaned_xray_ranges_at parse d w))
      = tag_locked XRAY_HY2_PROTOCOL w \<inter> set (live_ports parse d)"
proof -
  have "\<forall>n. disk w n = None" using assms by (simp add: alloc_sound_def)
  note f = conjunct2 [OF reclaim_outcome [OF this, of parse d]]
  show "tag_locked XRAY_HY2_PROTOCOL (snd (reclaim_orphaned_xray_ranges_at parse d w))
      = tag_locked XRAY_HY2_PROTOCOL w \<inter> set (live_ports parse d)"
    by (auto simp: tag_locked_def f)
  have all: "alloc_sound (snd (release_all ms v))" if "alloc_sound v" for ms v
    using that
  proof (induction ms arbitrary: v)
    case (Cons m ms)
    then have "alloc_sound (snd (release_xray_hysteria2_range_at m v))" by (simp add: xray_locks.release_ok)
    with Cons.IH show ?case
      by (cases "release_xray_hysteria2_range_at m v"; cases "fst (release_xray_hysteria2_range_at m v)")
         (force simp: thenE_apply bindE_apply split: prod.splits sum.splits)+
  qed simp
  then show "alloc_sound (snd (reclaim_orphaned_xray_ranges_at parse d w))"
    using assms by (simp add: reclaim_orphaned_xray_ranges_at_def Let_def)
qed

definition sample_alloc :: "port_alloc_data \<Rightarrow> alloc_world" where
  "sample_alloc d = \<lparr>alloc_file = Stored d, writes = 0, disk = (\<lambda>n. None)\<rparr>"

definition sample_range :: "string \<Rightarrow> locked_range" where
  "sample_range tag = \<lparr>lr_start = 10000, lr_end = 10099, lr_protocol = tag, lr_created_at = 0\<rparr>"

section \<open>Properties\<close>

definition lowest_free :: "nat list \<Rightarrow> nat \<Rightarrow> nat \<Rightarrow> bool" where
  "lowest_free occ n m \<longleftrightarrow> 10000 \<le> m \<and> m \<le> 60000 - n \<and> (\<forall>p. m \<le> p \<and> p < m + n \<longrightarrow> p \<notin> set occ)
     \<and> (\<forall>q. 10000 \<le> q \<and> q < m \<longrightarrow> (\<exists>p. q \<le> p \<and> p < q + n \<and> p \<in> set occ))"

lemma lowest_free_unique:
  assumes "lowest_free occ n k" "lowest_free occ n m"
  shows "k = m"
proof -
  have "\<not> a < b" if "lowest_free occ n a" "lowest_free occ n b" for a b
  proof
    assume "a < b"
    moreover have "10000 \<le> a" using that(1) by (simp add: lowest_free_def)
    ultimately obtain p where "a \<le> p" "p < a + n" "p \<in> set occ"
      using \<open>lowest_free occ n b\<close> unfolding lowest_free_def by blast
    with \<open>lowest_free occ n a\<close> show False unfolding lowest_free_def by blast
  qed
  with assms show ?thesis by (metis linorder_cases)
qed

lemma search_lowest: "search_range occ n XRAY_PORT_MIN = Some k \<Longrightarrow> lowest_free occ n k"
  by (drule search_range_Some)
     (simp add: lowest_free_def run_free_iff XRAY_PORT_MIN_def XRAY_PORT_MAX_def)

lemma lowest_exists:
  assumes "search_range occ n XRAY_PORT_MIN = None"
  shows "\<not> lowest_free occ n m"
proof -
  have "\<forall>q. 10000 \<le> q \<and> q \<le> 60000 - n \<longrightarrow> \<not> run_free occ q n"
    using assms by (simp add: search_range_None XRAY_PORT_MIN_def XRAY_PORT_MAX_def)
  then show ?thesis unfolding lowest_free_def run_free_iff by blast
qed

text \<open>
  C15: the search for a hop range is exact: it answers \<open>m\<close> precisely when \<open>m\<close> is the lowest port from
  10000 on whose run of ports is free and ends by 60000, and it fails precisely when there is no such
  port.
\<close>

theorem find_range_exact:
  "(find_consecutive_range occ n = Inr m \<longleftrightarrow> lowest_free occ n m)
   \<and> ((\<exists>e. find_consecutive_range occ n = Inl e) \<longleftrightarrow> (\<forall>k. \<not> lowest_free occ n k))"
proof (cases "search_range occ n XRAY_PORT_MIN")
  case None
  then show ?thesis by (simp add: find_consecutive_range_def lowest_exists)
next
  case (Some k)
  then have "lowest_free occ n k" by (rule search_lowest)
  with Some show ?thesis
    by (auto simp: find_consecutive_range_def dest: lowest_free_unique)
qed


lemma sample_search: "search_range [22, 80, 443] 100 10000 = Some 10000"
  by (subst search_range.simps) (simp add: XRAY_PORT_MAX_def run_free_iff)

lemma sample_allocate:
  assumes "alloc_file w \<in> {Stored default_alloc, Garbled}" "disk w = (\<lambda>n. None)"
  shows "\<exists>w'. allocate_tagged tag now NoDir NoDir w = (Inr (10000, 10001, 10099), w')"
  using assms
  by (auto simp: allocate_tagged_def find_consecutive_range_def sample_search XRAY_PORT_MIN_def HOP_SIZE_def
      scan_all_occupied_ports_def scan_dir_for_ports_def singbox_ports_def load_port_alloc_at_def default_alloc_def
      save_port_alloc_at_def bindE_def Let_def)


text \<open>
  Also: releasing undoes allocating: with a good allocation file and writes that succeed, releasing a
  range just allocated restores the ranges there were before, and the next allocation hands out the
  same port again.
\<close>

theorem release_undoes_allocate:
  assumes "alloc_file w = Stored d" "\<forall>n. disk w n = None" "alloc_ok d"
    and "allocate_tagged tag now xd bd w = (Inr (m, a, b), w')"
  shows "locked_ranges (load_or_default (snd (release_tagged tag m w'))) = locked_ranges d
    \<and> (\<exists>w''. allocate_tagged tag now' xd bd (snd (release_tagged tag m w')) = (Inr (m, a, b), w''))"
proof -
  note c = allocate_cases [OF assms(4)]
  let ?r = "\<lparr>lr_start = m, lr_end = m + 99, lr_protocol = tag, lr_created_at = now\<rparr>"
  let ?w2 = "snd (release_tagged tag m w')"
  have ld: "load_or_default w = d" using assms(1) by (simp add: load_or_default_def)
  have free: "run_free (scan_all_occupied_ports xd bd w) m 100"
    using found_range [of "scan_all_occupied_ports xd bd w" m] c by auto
  have no: "lr_start r \<noteq> m" if "r \<in> set (locked_ranges d)" for r
  proof
    assume "lr_start r = m"
    then have "m \<in> set (scan_all_occupied_ports xd bd w)"
      using that assms(1,3)
      by (auto simp: scan_all_occupied_ports_def load_port_alloc_at_def range_ports_iff alloc_ok_def)
    with free show False by (simp add: run_free_iff)
  qed
  have l1: "load_or_default w' = d\<lparr>locked_ranges := locked_ranges d @ [?r]\<rparr>"
    using c ld by (simp add: load_or_default_def)
  have "disk w' (writes w') = None" using c assms(2) by simp
  then have same: "locked_ranges (load_or_default ?w2) = locked_ranges d"
    using release_file [of w' tag m] no l1 by (simp add: filter_id_conv)
  have st: "\<exists>d2. alloc_file ?w2 = Stored d2 \<and> locked_ranges d2 = locked_ranges d"
  proof -
    have "alloc_file ?w2 \<in> range Stored"
      using c by (auto simp: release_tagged_def save_port_alloc_at_def assms(2) Let_def)
    with same show ?thesis by (auto simp: load_or_default_def)
  qed
  then have "scan_all_occupied_ports xd bd ?w2 = scan_all_occupied_ports xd bd w"
    using assms(1) by (auto simp: scan_all_occupied_ports_def load_port_alloc_at_def)
  moreover have "disk ?w2 n = None" for n using c assms(2) by (simp add: release_disk)
  ultimately have "\<exists>w''. allocate_tagged tag now' xd bd ?w2 = (Inr (m, a, b), w'')"
    using c by (simp add: allocate_tagged_def save_port_alloc_at_def bindE_def Let_def)
  with same show ?thesis by blast
qed

theorem release_undoes_allocate_witness:
  "\<exists>w' w''. allocate_tagged XRAY_HY2_PROTOCOL 5 NoDir NoDir (sample_alloc default_alloc) = (Inr (10000, 10001, 10099), w')
    \<and> locked_ranges (load_or_default (snd (release_tagged XRAY_HY2_PROTOCOL 10000 w'))) = []
    \<and> allocate_tagged XRAY_HY2_PROTOCOL 9 NoDir NoDir (snd (release_tagged XRAY_HY2_PROTOCOL 10000 w')) = (Inr (10000, 10001, 10099), w'')"
proof -
  obtain w' where e: "allocate_tagged XRAY_HY2_PROTOCOL 5 NoDir NoDir (sample_alloc default_alloc) = (Inr (10000, 10001, 10099), w')"
    using sample_allocate [of "sample_alloc default_alloc" XRAY_HY2_PROTOCOL 5] by (auto simp: sample_alloc_def)
  have "alloc_file (sample_alloc default_alloc) = Stored default_alloc" "\<forall>n. disk (sample_alloc default_alloc) n = None"
    "alloc_ok default_alloc"
    by (simp_all add: sample_alloc_def alloc_ok_def default_alloc_def)
  from release_undoes_allocate [OF this e, of 9] e show ?thesis by (auto simp: default_alloc_def)
qed

text \<open>
  Also: the two cores do not release each other's ranges: releasing a main port under one tag keeps every
  range of another tag and every range that starts elsewhere, and removes exactly the rest.
\<close>

theorem release_spares_others:
  assumes "disk w (writes w) = None" "r \<in> set (locked_ranges (load_or_default w))"
  shows "r \<in> set (locked_ranges (load_or_default (snd (release_tagged tag m w)))) \<longleftrightarrow>
     lr_protocol r \<noteq> tag \<or> lr_start r \<noteq> m"
  using release_file [OF assms(1), of tag m] assms(2) by auto

theorem release_spares_others_witness:
  "sample_range BOX_HY2_PROTOCOL \<in> set (locked_ranges (load_or_default
     (snd (release_tagged XRAY_HY2_PROTOCOL 10000 (sample_alloc \<lparr>locked_ranges = [sample_range BOX_HY2_PROTOCOL], initialized = True\<rparr>)))))"
  using release_spares_others [of "sample_alloc \<lparr>locked_ranges = [sample_range BOX_HY2_PROTOCOL], initialized = True\<rparr>"
    "sample_range BOX_HY2_PROTOCOL" XRAY_HY2_PROTOCOL 10000]
  by (simp add: sample_alloc_def load_or_default_def sample_range_def XRAY_HY2_PROTOCOL_def BOX_HY2_PROTOCOL_def)

text \<open>
  Also: reclaiming frees the orphans and nothing else: while writes succeed, exactly the ranges tagged
  for Xray whose main port no live hopping inbound names are removed, and their main ports are what is
  reported.
\<close>

theorem reclaim_exact:
  assumes "\<forall>n. disk w n = None"
  shows "fst (reclaim_orphaned_xray_ranges_at parse dir w) =
      Inr (filter (\<lambda>m. m \<notin> set (live_ports parse dir))
        (map lr_start (filter (\<lambda>r. lr_protocol r = XRAY_HY2_PROTOCOL) (locked_ranges (load_or_default w)))))
    \<and> locked_ranges (load_or_default (snd (reclaim_orphaned_xray_ranges_at parse dir w))) =
      filter (\<lambda>r. lr_protocol r = XRAY_HY2_PROTOCOL \<longrightarrow> lr_start r \<in> set (live_ports parse dir))
        (locked_ranges (load_or_default w))"
  by (rule reclaim_outcome [OF assms])

theorem reclaim_exact_witness:
  "fst (reclaim_orphaned_xray_ranges_at (\<lambda>s. None) NoDir
     (sample_alloc \<lparr>locked_ranges = [sample_range XRAY_HY2_PROTOCOL, sample_range BOX_HY2_PROTOCOL], initialized = True\<rparr>)) = Inr [10000]"
  using reclaim_exact [of "sample_alloc \<lparr>locked_ranges = [sample_range XRAY_HY2_PROTOCOL, sample_range BOX_HY2_PROTOCOL], initialized = True\<rparr>"
    "\<lambda>s. None" NoDir]
  by (simp add: sample_alloc_def load_or_default_def sample_range_def live_ports_def XRAY_HY2_PROTOCOL_def BOX_HY2_PROTOCOL_def)

text \<open>
  Also: a damaged allocation file is silently forgotten: when the file cannot be read or parsed, an
  allocation that finds a free run of configured ports overwrites it with a file that holds only the
  new range, so ranges locked before are handed out again.
\<close>

theorem damaged_file_forgotten:
  assumes "alloc_file w \<in> {Unreadable, Garbled}" "allocate_tagged tag now xd bd w = (Inr (m, a, b), w')"
  shows "alloc_file w' = Stored \<lparr>locked_ranges =
      [\<lparr>lr_start = m, lr_end = m + 99, lr_protocol = tag, lr_created_at = now\<rparr>], initialized = False\<rparr>
    \<and> scan_all_occupied_ports xd bd w = scan_all_occupied_ports xd bd (w\<lparr>alloc_file := Absent\<rparr>)"
  using assms allocate_cases [OF assms(2)]
  by (auto simp: load_or_default_def default_alloc_def scan_all_occupied_ports_def load_port_alloc_at_def)

theorem damaged_file_forgotten_witness:
  "\<exists>w'. allocate_tagged XRAY_HY2_PROTOCOL 5 NoDir NoDir \<lparr>alloc_file = Garbled, writes = 0, disk = (\<lambda>n. None)\<rparr>
       = (Inr (10000, 10001, 10099), w')
    \<and> alloc_file w' = Stored \<lparr>locked_ranges =
        [\<lparr>lr_start = 10000, lr_end = 10000 + 99, lr_protocol = XRAY_HY2_PROTOCOL, lr_created_at = 5\<rparr>], initialized = False\<rparr>"
proof -
  let ?w = "\<lparr>alloc_file = Garbled, writes = 0, disk = (\<lambda>n. None)\<rparr>"
  obtain w' where e: "allocate_tagged XRAY_HY2_PROTOCOL 5 NoDir NoDir ?w = (Inr (10000, 10001, 10099), w')"
    using sample_allocate [of ?w XRAY_HY2_PROTOCOL 5] by auto
  from damaged_file_forgotten [OF _ e] e show ?thesis by auto
qed

end
