(* ===== verification/XrayConfig.thy ===== *)
theory XrayConfig
  imports XDrive KcpMask CoreTypes CustomDirect PortAllocator
begin

text \<open>
  The pure part of the configuration manager (\<open>core/xray/config.rs\<close>, \<open>core/xray/hysteria2.rs\<close>,
  \<open>core/xray/kcp.rs\<close>): which files hold inbounds, which ports a configuration needs open, the readers of
  the core's key generators, the inbounds and client links of every protocol, and the base
  configuration. Percent encoding is the argument \<open>pct\<close>, the JSON printer the argument \<open>print\<close>; the
  post-quantum seed and verification key, read once from the environment, are arguments.
\<close>

datatype proto = Vision | XHTTP | Kcp | Hysteria2 | XDrive

section \<open>Files and ports\<close>

definition is_inbound_file :: "string \<Rightarrow> bool" where
  "is_inbound_file name \<longleftrightarrow> suffix ''_inbounds.json'' name \<and> \<not> prefix ''00_'' name"

fun batch_file_prefix :: "proto \<Rightarrow> string" where
  "batch_file_prefix Vision = ''batch_reality''"
| "batch_file_prefix XHTTP = ''batch_xhttp''"
| "batch_file_prefix Kcp = ''batch_kcp''"
| "batch_file_prefix Hysteria2 = ''batch_xray_hysteria2''"
| "batch_file_prefix XDrive = ''batch_xdrive''"

text \<open>\<open>v[i]\<close> on an array, \<open>null\<close> out of range.\<close>

definition jat :: "nat \<Rightarrow> json \<Rightarrow> json" where
  "jat i v = (case as_array v of Some xs \<Rightarrow> if i < length xs then xs ! i else JNull | None \<Rightarrow> JNull)"

definition get_clients :: "json \<Rightarrow> json list" where
  "get_clients v =
     (let inb = jidx ''inbounds'' v; c0 = as_array (jidx ''clients'' (jidx ''settings'' (jat 0 inb)));
          c1 = as_array (jidx ''users'' (jat 0 inb)); c2 = as_array (jidx ''clients'' (jidx ''settings'' (jat 1 inb)))
      in case c0 of Some xs \<Rightarrow> xs
         | None \<Rightarrow> (case c1 of Some xs \<Rightarrow> xs | None \<Rightarrow> (case c2 of Some xs \<Rightarrow> xs | None \<Rightarrow> [])))"

definition collect_hop_range :: "string \<Rightarrow> nat list" where
  "collect_hop_range spec =
     (case split_once (CHR ''-'') spec of
        None \<Rightarrow> []
      | Some (a, b) \<Rightarrow>
          (case (parse_u16 (trim a), parse_u16 (trim b)) of
             (Some s, Some e) \<Rightarrow> if s > e then [] else [s..<e + 1]
           | _ \<Rightarrow> []))"

definition inbound_ports :: "json \<Rightarrow> nat list" where
  "inbound_ports inbound =
     (case Option.bind (jget ''port'' inbound) as_u64 of
        None \<Rightarrow> []
      | Some p \<Rightarrow>
          if p > 65535 then []
          else if Option.bind (jget ''listen'' inbound) as_str \<in> {Some ''127.0.0.1'', Some ''localhost''} then []
          else if p = 0 then []
          else p # (case Option.bind (jpath [''streamSettings'', ''finalmask'', ''quicParams'', ''udpHop'', ''ports''] inbound) as_str of
                  Some spec \<Rightarrow> collect_hop_range spec | None \<Rightarrow> []))"

definition collect_ports_from_config :: "json \<Rightarrow> nat list" where
  "collect_ports_from_config v =
     (case Option.bind (jget ''inbounds'' v) as_array of Some is \<Rightarrow> concat (map inbound_ports is) | None \<Rightarrow> [])"

section \<open>Identities and keys\<close>

definition uuid_short_prefix :: "string \<Rightarrow> string" where
  "uuid_short_prefix uuid = take_chars 8 (hd (split_on (CHR ''-'') uuid))"

definition second_field :: "string \<Rightarrow> string option" where
  "second_field line = (let ps = split_on (CHR '':'') line in if length ps > 1 then Some (trim (ps ! 1)) else None)"

definition parse_x25519 :: "string \<Rightarrow> string + (string \<times> string)" where
  "parse_x25519 out =
     (case Option.bind (find (\<lambda>l. contains_str ''PrivateKey'' l) (str_lines out)) second_field of
        None \<Rightarrow> Inl ([CHR 0xE2, CHR 0x9D, CHR 0x8C] @ '' '' @ [CHR 0xE6, CHR 0x9C, CHR 0xAA, CHR 0xE6, CHR 0x89, CHR 0xBE, CHR 0xE5, CHR 0x88, CHR 0xB0] @ '' PrivateKey'')
      | Some priv \<Rightarrow>
          (case Option.bind (find (\<lambda>l. contains_str ''Password'' l \<or> contains_str ''PublicKey'' l) (str_lines out)) second_field of
             None \<Rightarrow> Inl ([CHR 0xE2, CHR 0x9D, CHR 0x8C] @ '' '' @ [CHR 0xE6, CHR 0x9C, CHR 0xAA, CHR 0xE6, CHR 0x89, CHR 0xBE, CHR 0xE5, CHR 0x88, CHR 0xB0] @ '' PublicKey'')
           | Some pub \<Rightarrow> Inr (priv, pub)))"

definition fourth_quoted :: "string \<Rightarrow> string option" where
  "fourth_quoted line = (let ps = split_on (CHR 0x22) line in if length ps > 3 then Some (ps ! 3) else None)"

definition json_key :: "string \<Rightarrow> string" where
  "json_key k = [CHR 0x22] @ k @ [CHR 0x22, CHR '':'']"

text \<open>The loop over the lines of \<open>xray vlessenc\<close> stops once both keys are there.\<close>

fun scan_vlessenc :: "string list \<Rightarrow> string option \<times> string option \<Rightarrow> string option \<times> string option" where
  "scan_vlessenc [] st = st"
| "scan_vlessenc (l # ls) st =
     (let st1 = (if contains_str (json_key ''decryption'') l \<and> fourth_quoted l \<noteq> None then (fourth_quoted l, snd st)
                 else if contains_str (json_key ''encryption'') l \<and> fourth_quoted l \<noteq> None then (fst st, fourth_quoted l)
                 else st)
      in if fst st1 \<noteq> None \<and> snd st1 \<noteq> None then st1 else scan_vlessenc ls st1)"

definition parse_vlessenc :: "string \<Rightarrow> string + (string \<times> string)" where
  "parse_vlessenc out =
     (case scan_vlessenc (str_lines out) (None, None) of
        (Some d, Some e) \<Rightarrow> Inr (d, e)
      | _ \<Rightarrow> Inl ''Failed to parse vlessenc keys from xray output'')"

section \<open>Inbounds\<close>

record cert_paths =
  fullchain :: string
  privkey :: string

definition sniffing :: "string \<times> json" where
  "sniffing = (''sniffing'', JObj [(''enabled'', JBool True),
     (''destOverride'', JArr [JStr ''http'', JStr ''tls'', JStr ''quic'']), (''metadataOnly'', JBool False)])"

text \<open>Reality and TLS inbounds listen on all addresses of both families whenever IPv6 is involved; mKCP and
  Hysteria2 inbounds listen on the family of the primary address.\<close>

definition listen_any :: "ip_version \<Rightarrow> string" where
  "listen_any v = (if v = IPv4 then ''0.0.0.0'' else ''::'')"

definition listen_primary :: "ip_version \<Rightarrow> string" where
  "listen_primary v = (if is_ipv4_primary v then ''0.0.0.0'' else ''::'')"

definition build_tls_xhttp_inbound ::
  "string \<Rightarrow> int \<Rightarrow> string \<Rightarrow> string \<Rightarrow> string \<Rightarrow> cert_paths \<Rightarrow> ip_version \<Rightarrow> string \<Rightarrow> json" where
  "build_tls_xhttp_inbound tag port uuid email domain certs v path =
     JObj [(''listen'', JStr (listen_any v)), (''port'', JInt port), (''protocol'', JStr ''vless''), (''tag'', JStr tag),
       (''settings'', JObj [(''clients'', JArr [JObj [(''id'', JStr uuid), (''email'', JStr email)]]), (''decryption'', JStr ''none'')]),
       (''streamSettings'', JObj [(''network'', JStr ''xhttp''), (''security'', JStr ''tls''),
          (''tlsSettings'', JObj [(''serverName'', JStr domain), (''alpn'', JArr [JStr ''h2'', JStr ''http/1.1'']),
             (''minVersion'', JStr ''1.2''),
             (''certificates'', JArr [JObj [(''certificateFile'', JStr (fullchain certs)), (''keyFile'', JStr (privkey certs))]])]),
          (''xhttpSettings'', JObj [(''host'', JStr []), (''path'', JStr path), (''mode'', JStr ''packet-up'')])]),
       sniffing]"

text \<open>\<open>None\<close> is the \<open>unreachable!\<close> of the protocols that have builders of their own.\<close>

definition build_reality_vless_inbound ::
  "string \<Rightarrow> string \<Rightarrow> int \<Rightarrow> string \<Rightarrow> string \<Rightarrow> string \<Rightarrow> string \<Rightarrow> string \<Rightarrow> ip_version \<Rightarrow> proto \<Rightarrow> string option \<Rightarrow> bool \<Rightarrow> json option" where
  "build_reality_vless_inbound seed tag port uuid email sni priv_key short_id v p path enable_pq =
     (case (if p = Vision then Some ''tcp'' else if p = XHTTP then Some ''xhttp'' else None) of
        None \<Rightarrow> None
      | Some network \<Rightarrow>
          (let client = JObj ([(''id'', JStr uuid), (''email'', JStr email)]
                 @ (if p = Vision then [(''flow'', JStr ''xtls-rprx-vision'')] else []));
               reality = JObj ([(''show'', JBool False), (''target'', JStr (sni @ '':443'')), (''xver'', JInt 0),
                   (''serverNames'', JArr [JStr sni]), (''privateKey'', JStr priv_key), (''minClientVer'', JStr ''1.0.0''),
                   (''shortIds'', JArr [JStr [], JStr short_id])]
                 @ (if enable_pq \<and> seed \<noteq> [] then [(''mldsa65Seed'', JStr seed)] else []));
               stream = JObj ([(''network'', JStr network), (''security'', JStr ''reality''), (''realitySettings'', reality)]
                 @ (if p = XHTTP then [(''xhttpSettings'', JObj [(''host'', JStr []),
                        (''path'', JStr (case path of Some q \<Rightarrow> q | None \<Rightarrow> ''/xhttp_client_upload'')), (''mode'', JStr ''auto'')])] else []))
           in Some (JObj [(''listen'', JStr (listen_any v)), (''port'', JInt port), (''protocol'', JStr ''vless''), (''tag'', JStr tag),
                (''settings'', JObj [(''clients'', JArr [client]), (''decryption'', JStr ''none'')]), (''streamSettings'', stream), sniffing])))"

definition build_xdrive_vless_inbound :: "string \<Rightarrow> string \<Rightarrow> string \<Rightarrow> nat \<Rightarrow> xdrive_config \<Rightarrow> string \<Rightarrow> json" where
  "build_xdrive_vless_inbound tag uuid email port xd decryption_key =
     JObj [(''tag'', JStr tag), (''listen'', JStr ''127.0.0.1''), (''port'', JInt (int port)), (''protocol'', JStr ''vless''),
       (''settings'', JObj [(''clients'', JArr [JObj [(''id'', JStr uuid), (''email'', JStr email), (''level'', JInt 0)]]),
          (''decryption'', JStr decryption_key)]),
       (''streamSettings'', JObj [(''network'', JStr ''xdrive''), (''xdriveSettings'', xdrive_json xd)])]"

definition TLS_CERT :: string where
  "TLS_CERT = ''/etc/wwps/wwps-box/certs/tls.cer''"

definition TLS_KEY :: string where
  "TLS_KEY = ''/etc/wwps/wwps-box/certs/tls.key''"

definition build_kcp_inbound :: "string \<Rightarrow> int \<Rightarrow> string \<Rightarrow> string \<Rightarrow> ip_version \<Rightarrow> kcp_mask list \<Rightarrow> json" where
  "build_kcp_inbound tag port uuid email v masks =
     JObj [(''listen'', JStr (listen_primary v)), (''port'', JInt port), (''protocol'', JStr ''vless''), (''tag'', JStr tag),
       (''settings'', JObj [(''clients'', JArr [JObj [(''id'', JStr uuid), (''email'', JStr email)]]), (''decryption'', JStr ''none'')]),
       (''streamSettings'', JObj [(''network'', JStr ''kcp''), (''security'', JStr ''tls''),
          (''tlsSettings'', JObj [(''certificates'', JArr [JObj [(''certificateFile'', JStr TLS_CERT), (''keyFile'', JStr TLS_KEY)]])]),
          (''finalmask'', JObj [(''udp'', JArr (map as_json masks))]),
          (''kcpSettings'', JObj [(''mtu'', JInt 1350), (''tti'', JInt 50), (''uplinkCapacity'', JInt 5), (''downlinkCapacity'', JInt 20),
             (''cwndMultiplier'', JInt 1), (''maxSendingWindow'', JInt 2097152)])]),
       sniffing]"

datatype hysteria2_obfs_type = SalamanderObfs | Gecko

definition obfs_str :: "hysteria2_obfs_type \<Rightarrow> string" where
  "obfs_str t = (case t of SalamanderObfs \<Rightarrow> ''salamander'' | Gecko \<Rightarrow> ''gecko'')"

datatype hy2_link_style = Official | V2rayN

definition GECKO_DEFAULT_MIN_PACKET_SIZE :: nat where
  "GECKO_DEFAULT_MIN_PACKET_SIZE = 512"

definition GECKO_DEFAULT_MAX_PACKET_SIZE :: nat where
  "GECKO_DEFAULT_MAX_PACKET_SIZE = 1200"

definition build_hysteria2_udp_mask :: "hysteria2_obfs_type \<Rightarrow> string \<Rightarrow> json" where
  "build_hysteria2_udp_mask t password = JObj [(''type'', JStr ''salamander''),
     (''settings'', JObj ([(''password'', JStr password)]
        @ (if t = Gecko then [(''packetSize'', JStr (nat_str GECKO_DEFAULT_MIN_PACKET_SIZE @ ''-'' @ nat_str GECKO_DEFAULT_MAX_PACKET_SIZE))]
           else [])))]"

text \<open>\<open>"{}-{}"\<close> of a hop range.\<close>

definition hop_spec :: "nat \<times> nat \<Rightarrow> string" where
  "hop_spec r = nat_str (fst r) @ ''-'' @ nat_str (snd r)"

definition hy2_finalmask :: "(hysteria2_obfs_type \<times> string) option \<Rightarrow> (nat \<times> nat) option \<Rightarrow> (string \<times> json) list" where
  "hy2_finalmask obfs hop =
     (case obfs of Some (t, pw) \<Rightarrow> [(''udp'', JArr [build_hysteria2_udp_mask t pw])] | None \<Rightarrow> [])
   @ (case hop of Some r \<Rightarrow> [(''quicParams'', JObj [(''udpHop'', JObj [(''ports'', JStr (hop_spec r)), (''interval'', JInt 30)])])] | None \<Rightarrow> [])"

definition build_hysteria2_inbound ::
  "string \<Rightarrow> int \<Rightarrow> string \<Rightarrow> string \<Rightarrow> string \<Rightarrow> ip_version \<Rightarrow> (hysteria2_obfs_type \<times> string) option \<Rightarrow> (nat \<times> nat) option \<Rightarrow> json" where
  "build_hysteria2_inbound tag port auth email sni v obfs hop =
     JObj [(''listen'', JStr (listen_primary v)), (''port'', JInt port), (''protocol'', JStr ''hysteria''), (''tag'', JStr tag),
       (''settings'', JObj [(''version'', JInt 2),
          (''users'', JArr [JObj [(''auth'', JStr auth), (''level'', JInt 0), (''email'', JStr email)]])]),
       (''streamSettings'', JObj ([(''network'', JStr ''hysteria''), (''security'', JStr ''tls''),
          (''tlsSettings'', JObj [(''serverName'', JStr sni), (''alpn'', JArr [JStr ''h3'']),
             (''certificates'', JArr [JObj [(''usage'', JStr ''encipherment''), (''certificateFile'', JStr TLS_CERT), (''keyFile'', JStr TLS_KEY)]])]),
          (''hysteriaSettings'', JObj [(''version'', JInt 2), (''auth'', JStr auth)])]
          @ (if hy2_finalmask obfs hop = [] then [] else [(''finalmask'', JObj (hy2_finalmask obfs hop))]))),
       sniffing]"

section \<open>Client links\<close>

definition fmt_host :: "ip_version \<Rightarrow> string \<Rightarrow> string" where
  "fmt_host v host = (if is_ipv6_primary v then ''['' @ host @ '']'' else host)"

definition generate_kcp_client_link ::
  "(string \<Rightarrow> string) \<Rightarrow> (json \<Rightarrow> string) \<Rightarrow> string \<Rightarrow> string \<Rightarrow> int \<Rightarrow> string \<Rightarrow> ip_version \<Rightarrow> kcp_mask list \<Rightarrow> string \<Rightarrow> string" where
  "generate_kcp_client_link pct print uuid host port email v masks pin =
     ''vless://'' @ uuid @ ''@'' @ fmt_host v host @ '':'' @ int_str port @ ''?encryption=none&type=kcp&security=tls&pcs='' @ pct pin
     @ ''&fm='' @ pct (print (JObj [(''udp'', JArr (map as_json masks))])) @ ''#'' @ pct email"

definition generate_hysteria2_client_link ::
  "(string \<Rightarrow> string) \<Rightarrow> string \<Rightarrow> string \<Rightarrow> int \<Rightarrow> string \<Rightarrow> string \<Rightarrow> ip_version \<Rightarrow> string
     \<Rightarrow> (hysteria2_obfs_type \<times> string) option \<Rightarrow> (nat \<times> nat) option \<Rightarrow> hy2_link_style \<Rightarrow> string" where
  "generate_hysteria2_client_link pct auth host port sni email v pin obfs hop style =
     (let base = fmt_host v host @ '':'' @ int_str port;
          (authority, hop_param) = (case hop of
             Some r \<Rightarrow> (case style of
                 Official \<Rightarrow> (base @ '','' @ hop_spec r, ''&hop_interval=30s'')
               | V2rayN \<Rightarrow> (base, ''&mport='' @ hop_spec r))
           | None \<Rightarrow> (base, []));
          obfs_param = (case obfs of
             Some (t, pw) \<Rightarrow> ''&obfs='' @ obfs_str t @ ''&obfs-password='' @ pct pw | None \<Rightarrow> [])
      in ''hysteria2://'' @ pct auth @ ''@'' @ authority @ ''?sni='' @ pct sni @ ''&alpn=h3&pinSHA256='' @ pct pin
           @ hop_param @ obfs_param @ ''#'' @ pct email)"

text \<open>\<open>verify\<close> is the verification key in URL-safe base64, where there is one.\<close>

definition pq_param :: "(string \<Rightarrow> string) \<Rightarrow> string option \<Rightarrow> bool \<Rightarrow> string" where
  "pq_param pct verify enable_pq = (case verify of Some k \<Rightarrow> if enable_pq then ''&pqv='' @ pct k else [] | None \<Rightarrow> [])"

definition extra_json :: "string \<Rightarrow> int \<Rightarrow> string \<Rightarrow> string \<Rightarrow> string \<Rightarrow> string \<Rightarrow> json" where
  "extra_json secondary port sni pub_key short_id path =
     JObj [(''downloadSettings'', JObj [(''address'', JStr secondary), (''port'', JInt port), (''network'', JStr ''xhttp''),
       (''security'', JStr ''reality''),
       (''realitySettings'', JObj [(''serverName'', JStr sni), (''fingerprint'', JStr ''chrome''), (''publicKey'', JStr pub_key),
          (''shortId'', JStr short_id)]),
       (''xhttpSettings'', JObj [(''host'', JStr []), (''path'', JStr path), (''mode'', JStr ''auto'')])])]"

definition generate_client_link ::
  "(string \<Rightarrow> string) \<Rightarrow> (json \<Rightarrow> string) \<Rightarrow> string option \<Rightarrow> string \<Rightarrow> string \<Rightarrow> int \<Rightarrow> string \<Rightarrow> string \<Rightarrow> string \<Rightarrow> string
     \<Rightarrow> ip_version \<Rightarrow> proto \<Rightarrow> string option \<Rightarrow> string option \<Rightarrow> bool \<Rightarrow> string option" where
  "generate_client_link pct print verify uuid host port sni pub_key short_id email v p path secondary enable_pq =
     (let authority = ''vless://'' @ uuid @ ''@'' @ fmt_host v host @ '':'' @ int_str port;
          tail = pq_param pct verify enable_pq @ ''#'' @ pct email
      in case p of
           Vision \<Rightarrow> Some (authority @ ''?encryption=none&flow=xtls-rprx-vision&security=reality&sni='' @ pct sni
             @ ''&fp=chrome&pbk='' @ pct pub_key @ ''&sid='' @ short_id @ ''&type=tcp&headerType=none'' @ tail)
         | XHTTP \<Rightarrow>
             (let actual = (case path of Some q \<Rightarrow> q | None \<Rightarrow> ''/xhttp_client_upload'');
                  extra = (case secondary of
                     Some h \<Rightarrow> ''&extra='' @ pct (print (extra_json h port sni pub_key short_id actual)) | None \<Rightarrow> [])
              in Some (authority @ ''?encryption=none&security=reality&sni='' @ pct sni @ ''&fp=chrome&pbk='' @ pct pub_key
                   @ ''&sid='' @ short_id @ ''&type=xhttp&path='' @ pct actual @ ''&mode=auto'' @ extra @ tail))
         | _ \<Rightarrow> None)"

text \<open>The characters \<open>URI_UNRESERVED\<close> leaves alone are the crate's business: \<open>pct\<close> is that encoding here.\<close>

definition bool_str :: "bool \<Rightarrow> string" where
  "bool_str b = (if b then ''true'' else ''false'')"

definition generate_xdrive_client_link ::
  "(string \<Rightarrow> string) \<Rightarrow> string \<Rightarrow> string \<Rightarrow> nat \<Rightarrow> xdrive_config \<Rightarrow> string \<Rightarrow> string" where
  "generate_xdrive_client_link pct uuid email port xd encryption_key =
     (let folder = pct (xd_remote_folder xd); enc = pct encryption_key;
          link = (if xd_service xd = GoogleDrive
            then ''vless://'' @ uuid @ ''@www.google.com:443?type=xdrive&service=google-drive&remoteFolder='' @ folder
                 @ ''&encryption='' @ enc @ ''&security=tls&sni=www.google.com&alpn=h2&mux=true''
            else ''vless://'' @ uuid @ ''@127.0.0.1:'' @ nat_str port @ ''?type=xdrive&service='' @ service_str (xd_service xd)
                 @ ''&remoteFolder='' @ folder @ ''&encryption='' @ enc @ ''&mux=true''
                 @ (case xd_s3 xd of
                      Some s3 \<Rightarrow> ''&endpoint='' @ pct (s3_endpoint s3) @ ''&bucket='' @ pct (s3_bucket s3)
                        @ ''&region='' @ pct (s3_region s3) @ ''&pathStyle='' @ bool_str (s3_path_style s3)
                    | None \<Rightarrow> []));
          secrets = (if xd_secrets xd = [] then [] else ''&secrets='' @ join '','' (map pct (xd_secrets xd)))
      in link @ secrets @ ''#'' @ pct email)"

text \<open>\<open>domain\<close> is the validated domain: the function panics on an invalid one.\<close>

definition generate_client_link_tls :: "(string \<Rightarrow> string) \<Rightarrow> string \<Rightarrow> string \<Rightarrow> int \<Rightarrow> string \<Rightarrow> string \<Rightarrow> string" where
  "generate_client_link_tls pct uuid domain port email path =
     ''vless://'' @ uuid @ ''@'' @ domain @ '':'' @ int_str port @ ''?encryption=none&security=tls&sni='' @ pct domain
     @ ''&fp=chrome&alpn=h2&type=xhttp&host='' @ pct domain @ ''&path='' @ pct path @ ''&mode=packet-up#'' @ pct email"

definition build_tls_xhttp_node ::
  "(string \<Rightarrow> string) \<Rightarrow> nat \<Rightarrow> int \<Rightarrow> string \<Rightarrow> string \<Rightarrow> cert_paths \<Rightarrow> ip_version \<Rightarrow> string \<Rightarrow> json \<times> string" where
  "build_tls_xhttp_node pct i port uuid domain certs v path =
     (let short = uuid_short_prefix uuid; email = short @ ''-vless_xhttp_tls''; tag = ''XHTTP-'' @ short @ ''-'' @ nat_str i
      in (build_tls_xhttp_inbound tag port uuid email domain certs v path, generate_client_link_tls pct uuid domain port email path))"

definition resolve_public_hosts ::
  "ip_version \<Rightarrow> string + string \<Rightarrow> string + string \<Rightarrow> string + (string \<times> string option)" where
  "resolve_public_hosts v ipv4 ipv6 =
     (case v of
        IPv4 \<Rightarrow> map_sum id (\<lambda>h. (h, None)) ipv4
      | IPv6 \<Rightarrow> map_sum id (\<lambda>h. (h, None)) ipv6
      | SplitStackV6Primary \<Rightarrow> (case ipv6 of Inl e \<Rightarrow> Inl e | Inr h \<Rightarrow> map_sum id (\<lambda>h2. (h, Some h2)) ipv4)
      | SplitStackV4Primary \<Rightarrow> (case ipv4 of Inl e \<Rightarrow> Inl e | Inr h \<Rightarrow> map_sum id (\<lambda>h2. (h, Some h2)) ipv6))"

section \<open>The base configuration\<close>

definition patch_outbound :: "bool \<Rightarrow> json \<Rightarrow> bool \<times> json" where
  "patch_outbound has_ipv6 ob =
     (if Option.bind (jget ''tag'' ob) as_str = Some ''direct'' \<and> \<not> has_ipv6
         \<and> Option.bind (jpath [''settings'', ''domainStrategy''] ob) as_str \<noteq> Some ''UseIPv4''
      then (let settings = (case Option.bind (jget ''settings'' ob) as_object of
                  Some ms \<Rightarrow> JObj (members_insert ''domainStrategy'' (JStr ''UseIPv4'') ms)
                | None \<Rightarrow> JObj [(''domainStrategy'', JStr ''UseIPv4'')])
            in case jset ''settings'' settings ob of Some ob' \<Rightarrow> (True, ob') | None \<Rightarrow> (True, ob))
      else (False, ob))"

definition patch_direct_outbound_ipv6 :: "json \<Rightarrow> bool \<Rightarrow> bool \<times> json" where
  "patch_direct_outbound_ipv6 config has_ipv6 =
     (case (config, Option.bind (jget ''outbounds'' config) as_array) of
        (JObj ms, Some obs) \<Rightarrow>
          (let rs = map (patch_outbound has_ipv6) obs
           in (list_ex fst rs, JObj (members_insert ''outbounds'' (JArr (map snd rs)) ms)))
      | _ \<Rightarrow> (False, config))"

definition base_config :: "bool \<Rightarrow> json" where
  "base_config has_ipv6 =
     JObj [(''log'', JObj [(''loglevel'', JStr ''warning'')]),
       (''dns'', JObj [(''servers'', JArr [JStr ''https+local://1.1.1.1/dns-query'', JStr ''https+local://8.8.8.8/dns-query'']),
          (''tag'', JStr ''dns'')]),
       (''routing'', JObj [(''domainStrategy'', JStr ''IPIfNonMatch''),
          (''rules'', JArr (map rule_def_to_json (filter rd_default_enabled ROUTING_RULES)))]),
       (''outbounds'', JArr [
          JObj [(''protocol'', JStr ''freedom''),
            (''settings'', if has_ipv6 then JObj [] else JObj [(''domainStrategy'', JStr ''UseIPv4'')]), (''tag'', JStr ''direct'')],
          JObj [(''protocol'', JStr ''blackhole''), (''settings'', JObj []), (''tag'', JStr ''blocked'')]])]"

section \<open>Lemmas\<close>

lemma hop_range_roundtrip:
  assumes "a \<le> b" "b \<le> 65535"
  shows "collect_hop_range (hop_spec (a, b)) = [a..<b + 1]"
proof -
  have "split_once (CHR ''-'') (nat_str a @ CHR ''-'' # nat_str b) = Some (nat_str a, nat_str b)"
    using digits_plain [of _ a] by (auto simp: split_once_Some_iff)
  then show ?thesis
    using assms parse_unsigned_nat_str [of a 65535] parse_unsigned_nat_str [of b 65535]
    by (simp add: collect_hop_range_def hop_spec_def parse_u16_def)
qed

lemma listen_not_local: "listen_any v \<notin> {''127.0.0.1'', ''localhost''}" "listen_primary v \<notin> {''127.0.0.1'', ''localhost''}"
  by (simp_all add: listen_any_def listen_primary_def)

lemma inbound_ports_hy2:
  assumes "0 < p" "p \<le> 65535"
  shows "inbound_ports (build_hysteria2_inbound tag (int p) auth email sni v obfs hop) =
      p # (case hop of Some r \<Rightarrow> collect_hop_range (hop_spec r) | None \<Rightarrow> [])"
    "hop_port (build_hysteria2_inbound tag (int p) auth email sni v obfs hop) =
      (if hop \<noteq> None \<and> p \<le> 65436 then [p] else [])"
  using assms listen_not_local(2) [of v]
  by (auto simp: inbound_ports_def hop_port_def build_hysteria2_inbound_def hy2_finalmask_def split: option.splits)

lemma inbound_ports_kcp:
  assumes "0 < p" "p \<le> 65535"
  shows "inbound_ports (build_kcp_inbound tag (int p) uuid email v masks) = [p]"
    "hop_port (build_kcp_inbound tag (int p) uuid email v masks) = []"
  using assms listen_not_local(2) [of v] by (auto simp: inbound_ports_def hop_port_def build_kcp_inbound_def)

lemma inbound_ports_reality:
  assumes "0 < p" "p \<le> 65535" "build_reality_vless_inbound seed tag (int p) uuid email sni k sid v pr path pq = Some inb"
  shows "inbound_ports inb = [p] \<and> hop_port inb = []"
  using assms listen_not_local(1) [of v]
  by (cases pr) (auto simp: inbound_ports_def hop_port_def build_reality_vless_inbound_def Let_def)

lemma inbound_ports_tls:
  assumes "0 < p" "p \<le> 65535"
  shows "inbound_ports (build_tls_xhttp_inbound tag (int p) uuid email domain certs v path) = [p]"
    "hop_port (build_tls_xhttp_inbound tag (int p) uuid email domain certs v path) = []"
  using assms listen_not_local(1) [of v] by (auto simp: inbound_ports_def hop_port_def build_tls_xhttp_inbound_def)

lemma inbound_ports_xdrive:
  "inbound_ports (build_xdrive_vless_inbound tag uuid email p xd key) = []"
  "hop_port (build_xdrive_vless_inbound tag uuid email p xd key) = []"
  by (auto simp: inbound_ports_def hop_port_def build_xdrive_vless_inbound_def split: option.splits)

section \<open>Properties\<close>

text \<open>
  Also: what creation writes is what the firewall synchronisation and the clean-up read back. The ports a
  configuration needs open are the main port of a public inbound, the whole hop range of a hopping
  Hysteria2 inbound, and none for the loopback inbound of the storage transport; the clean-up sees a hop
  range exactly for hopping Hysteria2 inbounds, under their main port.
\<close>

theorem written_ports_read_back:
  assumes "0 < p" and "p \<le> 65436"
    and "build_reality_vless_inbound seed tag (int p) uuid email sni k sid v pr path pq = Some inb"
  shows "inbound_ports (build_hysteria2_inbound tag (int p) auth email sni v obfs (Some (p + 1, p + 99))) = [p..<p + 100]
    \<and> hop_port (build_hysteria2_inbound tag (int p) auth email sni v obfs (Some (p + 1, p + 99))) = [p]
    \<and> inbound_ports (build_hysteria2_inbound tag (int p) auth email sni v obfs None) = [p]
    \<and> hop_port (build_hysteria2_inbound tag (int p) auth email sni v obfs None) = []
    \<and> inbound_ports inb = [p] \<and> hop_port inb = []
    \<and> inbound_ports (build_kcp_inbound tag (int p) uuid email v masks) = [p]
    \<and> hop_port (build_kcp_inbound tag (int p) uuid email v masks) = []
    \<and> inbound_ports (build_tls_xhttp_inbound tag (int p) uuid email sni certs v pth) = [p]
    \<and> inbound_ports (build_xdrive_vless_inbound tag uuid email p xd key) = []"
proof -
  have p: "0 < p" "p \<le> 65535" using assms(1,2) by auto
  have "p # [p + 1..<p + 99 + 1] = [p..<p + 100]" by (simp add: upt_conv_Cons)
  moreover have "collect_hop_range (hop_spec (p + 1, p + 99)) = [p + 1..<p + 99 + 1]"
    by (rule hop_range_roundtrip) (use assms(2) in auto)
  ultimately show ?thesis
    using inbound_ports_reality [OF p assms(3)] assms(2)
    by (simp add: inbound_ports_hy2 [OF p] inbound_ports_kcp [OF p] inbound_ports_tls [OF p] inbound_ports_xdrive)
qed

theorem written_ports_read_back_witness:
  "inbound_ports (build_hysteria2_inbound ''t'' (int 10000) ''a'' ''e'' ''s'' IPv4 None (Some (10001, 10099))) = [10000..<10100]"
  using written_ports_read_back [of 10000 "[]" "''t''" "''u''" "''e''" "''s''" "''k''" "''i''" IPv4 Vision None False
      "the (build_reality_vless_inbound [] ''t'' (int 10000) ''u'' ''e'' ''s'' ''k'' ''i'' IPv4 Vision None False)" "''a''" None]
  by (simp add: build_reality_vless_inbound_def)

lemma rd_ids: "rd_id connectivity_check = ''connectivity_check''" "rd_id essential_direct = ''essential_direct''"
  "rd_default_enabled connectivity_check" "rd_default_enabled essential_direct" "rd_outbound connectivity_check = ''direct''" "rd_outbound essential_direct = ''direct''"
  by (simp_all add: connectivity_check_def essential_direct_def)

lemma filter_foreign_defs:
  "filter foreign (map rule_def_to_json ds) = map rule_def_to_json (filter (\<lambda>d. rd_id d \<notin> set (map rd_id direct_rules)) ds)"
  by (simp add: filter_map comp_def foreign_def)

lemma base_rules_settled:
  "reorder_rules [] (map rule_def_to_json (filter rd_default_enabled ROUTING_RULES))
     = map rule_def_to_json (filter rd_default_enabled ROUTING_RULES)"
  unfolding reorder_eq filter_foreign_defs kept_defs_def has_tag_map
  by (simp add: direct_rules_def ROUTING_RULES_def rd_ids simple_rule_def is_direct_def)

text \<open>
  Also: a fresh base configuration needs no repair: the routing migration finds nothing to change in it,
  and neither does the IPv6 patch for the same network; and on any configuration the IPv6 patch is done
  after one pass.
\<close>

theorem base_config_settled:
  "ensure_direct_rules_value (base_config b) = Some (False, base_config b)
   \<and> patch_direct_outbound_ipv6 (base_config b) b = (False, base_config b)
   \<and> patch_direct_outbound_ipv6 (snd (patch_direct_outbound_ipv6 c b')) b' = (False, snd (patch_direct_outbound_ipv6 c b'))"
proof (intro conjI)
  have wr: "well_routed (base_config b)" by (simp add: well_routed_def base_config_def)
  have "rules_of (base_config b) = map rule_def_to_json (filter rd_default_enabled ROUTING_RULES)" "disabled_of (base_config b) = []"
    by (simp_all add: rules_of_def disabled_of_def base_config_def jidx_def strings_of_def)
  then show "ensure_direct_rules_value (base_config b) = Some (False, base_config b)"
    unfolding ensure_direct_rules_value_def normalize_id [OF wr]
    by (simp add: base_rules_settled reconcile_disabled_def)
  show "patch_direct_outbound_ipv6 (base_config b) b = (False, base_config b)"
    by (simp add: patch_direct_outbound_ipv6_def base_config_def patch_outbound_def)
next
  have one: "patch_outbound b' (snd (patch_outbound b' ob)) = (False, snd (patch_outbound b' ob))" for ob
    by (cases ob) (auto simp: patch_outbound_def Let_def split: option.splits)
  have ins: "members_insert k x (members_insert k x ms) = members_insert k x ms" for k x ms
    by (induction ms) auto
  show "patch_direct_outbound_ipv6 (snd (patch_direct_outbound_ipv6 c b')) b' = (False, snd (patch_direct_outbound_ipv6 c b'))"
    by (cases c; cases "Option.bind (jget ''outbounds'' c) as_array")
       (auto simp: patch_direct_outbound_ipv6_def one ins list_ex_iff comp_def)
qed

end
