(* ===== verification/Firewall.thy ===== *)
theory Firewall
  imports FirewallScan
begin

text \<open>
  The host firewall: \<open>core/security/firewall.rs\<close>, \<open>core/security/ufw.rs\<close> and \<open>core/security/firewalld.rs\<close>,
  with \<open>is_port_available\<close> and the port-range helpers of \<open>core/system/maintenance.rs\<close>. The two firewalls are
  outside programs: \<open>ufw\<close> is a command whose outcome the state's \<open>fw_cmd\<close> function gives (how often it has been
  asked is part of the question, so that it may change its mind), and firewalld is a D-Bus service whose
  replies \<open>fw_bus_err\<close>, \<open>fw_bus_text\<close> and \<open>fw_bus_flag\<close> give. Every command and every call is recorded in
  \<open>fw_log\<close>. A \<open>HashSet\<close> of ports is a list of ports in the order it is iterated. The sleeps between
  attempts and the mutex that serialises \<open>ufw\<close> do not change results and are left out.
\<close>

section \<open>Commands and calls\<close>

datatype cmd_result = CmdErr string | CmdOut (cmd_ok: bool) (cmd_stdout: string) (cmd_stderr: string)

datatype bus_call =
    Connect | MainProxy | ZoneProxy | GetDefaultZone
  | RtQuery string string string | RtAdd string string string | RtRemove string string string
  | GetConfig | BuildConfig string | ZoneByName string string | BuildZone string
  | PmQuery string string string | PmAdd string string string | PmRemove string string string
  | SetTarget string string | ReloadBus

datatype fw_event = Ran string "string list" | Called bus_call

record fw_host =
  fw_cmd :: "string \<Rightarrow> string list \<Rightarrow> nat \<Rightarrow> cmd_result"
  fw_bus_err :: "bus_call \<Rightarrow> nat \<Rightarrow> string option"
  fw_bus_text :: "bus_call \<Rightarrow> nat \<Rightarrow> string"
  fw_bus_flag :: "bus_call \<Rightarrow> nat \<Rightarrow> bool"
  fw_has_ufw :: bool
  fw_has_firewalld :: bool
  fw_log :: "fw_event list"

definition fw_note :: "fw_event \<Rightarrow> fw_host \<Rightarrow> fw_host" where
  "fw_note e w = w\<lparr>fw_log := fw_log w @ [e]\<rparr>"

definition run_cmd_output :: "string \<Rightarrow> string list \<Rightarrow> fw_host \<Rightarrow> cmd_result \<times> fw_host" where
  "run_cmd_output prog args w = (fw_cmd w prog args (length (fw_log w)), fw_note (Ran prog args) w)"

definition bus :: "bus_call \<Rightarrow> (fw_host, unit) io" where
  "bus c w = (case fw_bus_err w c (length (fw_log w)) of Some e \<Rightarrow> Inl e | None \<Rightarrow> Inr (), fw_note (Called c) w)"

definition bus_text :: "bus_call \<Rightarrow> (fw_host, string) io" where
  "bus_text c w = bindE (bus c) (\<lambda>_. retE (fw_bus_text w c (length (fw_log w)))) w"

definition bus_flag :: "bus_call \<Rightarrow> (fw_host, bool) io" where
  "bus_flag c w = bindE (bus c) (\<lambda>_. retE (fw_bus_flag w c (length (fw_log w)))) w"

section \<open>Port entries\<close>

text \<open>\<open>split_once(['-', ':'])\<close>\<close>

fun split_once_any :: "char set \<Rightarrow> string \<Rightarrow> (string \<times> string) option" where
  "split_once_any S [] = None"
| "split_once_any S (c # s) = (if c \<in> S then Some ([], s) else map_option (\<lambda>(a, b). (c # a, b)) (split_once_any S s))"

definition expand_port_entry :: "string \<Rightarrow> nat list" where
  "expand_port_entry entry =
     (let spec = hd (split_on (CHR ''/'') entry)
      in case parse_u16 spec of
           Some p \<Rightarrow> [p]
         | None \<Rightarrow>
             (case split_once_any {CHR ''-'', CHR '':''} spec of
                None \<Rightarrow> []
              | Some (a, b) \<Rightarrow>
                  (case (parse_u16 (trim a), parse_u16 (trim b)) of
                     (Some start, Some stop) \<Rightarrow> if start > stop then [] else [start..<stop + 1]
                   | _ \<Rightarrow> [])))"

definition parse_port_entries :: "string \<Rightarrow> nat list" where
  "parse_port_entries output = remdups (concat (map expand_port_entry (split_whitespace output)))"

definition parse_firewalld_ports :: "string \<Rightarrow> nat list" where
  "parse_firewalld_ports output = parse_port_entries output"

definition parse_ufw_allowed_ports :: "string \<Rightarrow> nat list" where
  "parse_ufw_allowed_ports stdout =
     remdups (concat (map (\<lambda>line.
       if contains_str ''ALLOW'' (trim line) then concat (map expand_port_entry (split_whitespace (trim line))) else [])
       (str_lines stdout)))"

section \<open>ufw\<close>

definition lock_conflict :: "string \<Rightarrow> bool" where
  "lock_conflict msg \<longleftrightarrow> contains_str ''lock'' msg \<or> contains_str ''Another app'' msg"

definition existing_rule :: "string \<Rightarrow> bool" where
  "existing_rule msg \<longleftrightarrow> contains_str ''Skipping adding existing rule'' msg"

text \<open>The loop \<open>for i in 0..3\<close>; the number counts the attempts left.\<close>

fun ufw_attempts :: "nat \<Rightarrow> string list \<Rightarrow> string option \<Rightarrow> (fw_host, unit) io" where
  "ufw_attempts 0 args last_err w = (Inl (case last_err of Some e \<Rightarrow> e | None \<Rightarrow> ''ufw failed''), w)"
| "ufw_attempts (Suc n) args last_err w =
     (case run_cmd_output ''ufw'' args w of
        (CmdErr e, w') \<Rightarrow> ufw_attempts n args (Some e) w'
      | (CmdOut ok out err, w') \<Rightarrow>
          if ok then (Inr (), w')
          else if existing_rule out \<or> existing_rule err then (Inr (), w')
          else if lock_conflict (out @ err) then ufw_attempts n args (Some (''ufw lock: '' @ out @ err)) w'
          else (Inl (''ufw error: '' @ out @ err), w'))"

definition run_ufw :: "string list \<Rightarrow> (fw_host, unit) io" where
  "run_ufw args = ufw_attempts 3 args None"

definition port_spec :: "nat \<Rightarrow> string \<Rightarrow> string" where
  "port_spec port protocol = nat_str port @ ''/'' @ protocol"

definition ufw_range :: "nat \<Rightarrow> nat \<Rightarrow> string \<Rightarrow> string" where
  "ufw_range start stop protocol = nat_str start @ '':'' @ nat_str stop @ ''/'' @ protocol"

definition ufw_add_port :: "nat \<Rightarrow> string \<Rightarrow> (fw_host, unit) io" where
  "ufw_add_port port protocol = run_ufw [''allow'', port_spec port protocol]"

definition ufw_remove_port :: "nat \<Rightarrow> string \<Rightarrow> (fw_host, unit) io" where
  "ufw_remove_port port protocol = run_ufw [''delete'', ''allow'', port_spec port protocol]"

definition ufw_add_port_range :: "nat \<Rightarrow> nat \<Rightarrow> string \<Rightarrow> (fw_host, unit) io" where
  "ufw_add_port_range start stop protocol = run_ufw [''allow'', ufw_range start stop protocol]"

definition ufw_add_port_range_v6 :: "nat \<Rightarrow> nat \<Rightarrow> string \<Rightarrow> (fw_host, unit) io" where
  "ufw_add_port_range_v6 start stop protocol = run_ufw [''allow'', ufw_range start stop protocol]"

definition ufw_remove_port_range :: "nat \<Rightarrow> nat \<Rightarrow> string \<Rightarrow> (fw_host, unit) io" where
  "ufw_remove_port_range start stop protocol = run_ufw [''delete'', ''allow'', ufw_range start stop protocol]"

definition ufw_remove_port_range_v6 :: "nat \<Rightarrow> nat \<Rightarrow> string \<Rightarrow> (fw_host, unit) io" where
  "ufw_remove_port_range_v6 start stop protocol = run_ufw [''delete'', ''allow'', ufw_range start stop protocol]"

definition ufw_is_active :: "fw_host \<Rightarrow> bool \<times> fw_host" where
  "ufw_is_active w =
     (case run_cmd_output ''ufw'' [''status''] w of
        (CmdOut ok out err, w') \<Rightarrow> (ok \<and> contains_str ''status: active'' (to_ascii_lowercase out), w')
      | (CmdErr e, w') \<Rightarrow> (False, w'))"

fun ufw_list_attempts :: "nat \<Rightarrow> string option \<Rightarrow> (fw_host, nat list) io" where
  "ufw_list_attempts 0 last_err w = (Inl (case last_err of Some e \<Rightarrow> e | None \<Rightarrow> ''ufw status failed''), w)"
| "ufw_list_attempts (Suc n) last_err w =
     (case run_cmd_output ''ufw'' [''status'', ''numbered''] w of
        (CmdErr e, w') \<Rightarrow> ufw_list_attempts n (Some e) w'
      | (CmdOut ok out err, w') \<Rightarrow>
          if ok then (Inr (parse_ufw_allowed_ports out), w')
          else if lock_conflict (out @ err) then ufw_list_attempts n (Some (''ufw lock: '' @ out @ err)) w'
          else (Inl (''ufw status: '' @ out @ err), w'))"

definition ufw_list_allowed_ports :: "(fw_host, nat list) io" where
  "ufw_list_allowed_ports = ufw_list_attempts 3 None"

fun ufw_allow_all :: "nat list \<Rightarrow> (fw_host, unit) io" where
  "ufw_allow_all [] = retE ()"
| "ufw_allow_all (p # ps) = thenE (ufw_add_port p ''tcp'') (thenE (ufw_add_port p ''udp'') (ufw_allow_all ps))"

definition ufw_harden_with_ports :: "nat list \<Rightarrow> (fw_host, unit) io" where
  "ufw_harden_with_ports ports =
     catchE (run_ufw [''--force'', ''reset'']) (\<lambda>_.
       thenE (run_ufw [''default'', ''deny'', ''incoming''])
         (thenE (run_ufw [''default'', ''allow'', ''outgoing''])
            (thenE (ufw_allow_all ports) (run_ufw [''--force'', ''enable'']))))"

section \<open>firewalld\<close>

definition default_config_path :: string where
  "default_config_path = ''/org/fedoraproject/FirewallD1/config''"

text \<open>Both kinds of change do the permanent part the same way: find the zone's object and, when it can be
  found, work on it.\<close>

definition fd_permanent :: "string \<Rightarrow> (string \<Rightarrow> (fw_host, unit) io) \<Rightarrow> (fw_host, unit) io" where
  "fd_permanent zone body =
     catchE (bus_text GetConfig) (\<lambda>r.
       let path = (case r of Inr p \<Rightarrow> p | Inl _ \<Rightarrow> default_config_path)
       in thenE (bus (BuildConfig path))
            (catchE (bus_text (ZoneByName path zone)) (\<lambda>z.
               case z of Inl _ \<Rightarrow> retE () | Inr zp \<Rightarrow> thenE (bus (BuildZone zp)) (body zp))))"

definition fd_open :: "(string \<Rightarrow> (fw_host, unit) io) \<Rightarrow> (fw_host, unit) io" where
  "fd_open k = thenE (bus Connect) (thenE (bus MainProxy) (thenE (bus ZoneProxy) (bindE (bus_text GetDefaultZone) k)))"

definition fd_add :: "string \<Rightarrow> string \<Rightarrow> (fw_host, unit) io" where
  "fd_add spec protocol =
     fd_open (\<lambda>zone.
       thenE (catchE (bus_flag (RtQuery zone spec protocol)) (\<lambda>r.
                if r = Inr False then catchE (bus (RtAdd zone spec protocol)) (\<lambda>_. retE ()) else retE ()))
         (fd_permanent zone (\<lambda>zp. catchE (bus_flag (PmQuery zp spec protocol)) (\<lambda>r.
            if r = Inr False then bus (PmAdd zp spec protocol) else retE ()))))"

definition fd_remove :: "string \<Rightarrow> string \<Rightarrow> (fw_host, unit) io" where
  "fd_remove spec protocol =
     fd_open (\<lambda>zone.
       catchE (bus (RtRemove zone spec protocol)) (\<lambda>_.
         fd_permanent zone (\<lambda>zp. catchE (bus_flag (PmQuery zp spec protocol)) (\<lambda>r.
            if r = Inr True then bus (PmRemove zp spec protocol) else retE ()))))"

definition fd_range :: "nat \<Rightarrow> nat \<Rightarrow> string" where
  "fd_range start stop = nat_str start @ ''-'' @ nat_str stop"

definition fd_add_port :: "nat \<Rightarrow> string \<Rightarrow> (fw_host, unit) io" where
  "fd_add_port port protocol = fd_add (nat_str port) protocol"

definition fd_remove_port :: "nat \<Rightarrow> string \<Rightarrow> (fw_host, unit) io" where
  "fd_remove_port port protocol = fd_remove (nat_str port) protocol"

definition fd_add_port_range :: "nat \<Rightarrow> nat \<Rightarrow> string \<Rightarrow> (fw_host, unit) io" where
  "fd_add_port_range start stop protocol = fd_add (fd_range start stop) protocol"

definition fd_remove_port_range :: "nat \<Rightarrow> nat \<Rightarrow> string \<Rightarrow> (fw_host, unit) io" where
  "fd_remove_port_range start stop protocol = fd_remove (fd_range start stop) protocol"

definition fd_list_allowed_ports :: "(fw_host, nat list) io" where
  "fd_list_allowed_ports =
     thenE (bus Connect) (thenE (bus MainProxy) (bindE (bus_text GetDefaultZone) (\<lambda>zone w.
       case run_cmd_output ''firewall-cmd'' [''--zone'', zone, ''--list-ports''] w of
         (CmdErr e, w') \<Rightarrow> (Inl e, w')
       | (CmdOut ok out err, w') \<Rightarrow>
           if ok then (Inr (parse_firewalld_ports out), w') else (Inl (''list-ports: '' @ err), w'))))"

definition fd_is_active :: "fw_host \<Rightarrow> bool \<times> fw_host" where
  "fd_is_active w =
     (case thenE (bus Connect) (thenE (bus MainProxy) (bus_text GetDefaultZone)) w of
        (Inr _, w') \<Rightarrow> (True, w') | (Inl _, w') \<Rightarrow> (False, w'))"

fun fd_allow_protos :: "string \<Rightarrow> string \<Rightarrow> string list \<Rightarrow> (fw_host, unit) io" where
  "fd_allow_protos zp spec [] = retE ()"
| "fd_allow_protos zp spec (pr # prs) =
     bindE (bus_flag (PmQuery zp spec pr)) (\<lambda>present.
       thenE (if present then retE () else bus (PmAdd zp spec pr)) (fd_allow_protos zp spec prs))"

fun fd_allow_all :: "string \<Rightarrow> nat list \<Rightarrow> (fw_host, unit) io" where
  "fd_allow_all zp [] = retE ()"
| "fd_allow_all zp (p # ps) = thenE (fd_allow_protos zp (nat_str p) [''tcp'', ''udp'']) (fd_allow_all zp ps)"

definition fd_harden_with_ports :: "nat list \<Rightarrow> (fw_host, unit) io" where
  "fd_harden_with_ports ports =
     thenE (bus Connect) (thenE (bus MainProxy) (bindE (bus_text GetDefaultZone) (\<lambda>zone.
       catchE (bus_text GetConfig) (\<lambda>r.
         let path = (case r of Inr p \<Rightarrow> p | Inl _ \<Rightarrow> default_config_path)
         in thenE (bus (BuildConfig path)) (bindE (bus_text (ZoneByName path zone)) (\<lambda>zp.
              thenE (bus (BuildZone zp)) (thenE (bus (SetTarget zp ''DROP''))
                (thenE (fd_allow_all zp ports) (bus ReloadBus)))))))))"

section \<open>The manager\<close>

datatype firewall_backend = Firewalld | Ufw

definition detect_backend :: "fw_host \<Rightarrow> firewall_backend option \<times> fw_host" where
  "detect_backend w =
     (case run_cmd_output ''systemctl'' [''is-active'', ''firewalld''] w of
        (r1, w1) \<Rightarrow>
          if (case r1 of CmdOut ok _ _ \<Rightarrow> ok | CmdErr _ \<Rightarrow> False) then (Some Firewalld, w1)
          else (case run_cmd_output ''ufw'' [''status''] w1 of
                  (r2, w2) \<Rightarrow>
                    if (case r2 of CmdOut ok out _ \<Rightarrow> ok \<and> contains_str ''active'' out | CmdErr _ \<Rightarrow> False) then (Some Ufw, w2)
                    else if fw_has_ufw w2 then (Some Ufw, w2)
                    else if fw_has_firewalld w2 then (Some Firewalld, w2)
                    else (None, w2)))"

definition with_backend :: "(fw_host, 'a) io \<Rightarrow> (fw_host, 'a) io \<Rightarrow> (fw_host, 'a) io" where
  "with_backend ufw fd w =
     (case detect_backend w of
        (Some Ufw, w') \<Rightarrow> ufw w'
      | (Some Firewalld, w') \<Rightarrow> fd w'
      | (None, w') \<Rightarrow> (Inl ''no firewall'', w'))"

definition fw_add_port :: "nat \<Rightarrow> (fw_host, unit) io" where
  "fw_add_port port = with_backend (ufw_add_port port ''tcp'') (thenE (fd_add_port port ''tcp'') (fd_add_port port ''udp''))"

definition fw_remove_port :: "nat \<Rightarrow> (fw_host, unit) io" where
  "fw_remove_port port =
     with_backend (catchE (ufw_remove_port port ''tcp'') (\<lambda>_. catchE (ufw_remove_port port ''udp'') (\<lambda>_. retE ())))
       (thenE (fd_remove_port port ''tcp'') (fd_remove_port port ''udp''))"

definition fw_list_allowed_ports :: "(fw_host, nat list) io" where
  "fw_list_allowed_ports = with_backend ufw_list_allowed_ports fd_list_allowed_ports"

definition fw_harden_with_ports :: "nat list \<Rightarrow> (fw_host, unit) io" where
  "fw_harden_with_ports ports = with_backend (ufw_harden_with_ports ports) (fd_harden_with_ports ports)"

definition fw_add_port_range :: "nat \<Rightarrow> nat \<Rightarrow> (fw_host, unit) io" where
  "fw_add_port_range a b = with_backend (ufw_add_port_range a b ''udp'') (fd_add_port_range a b ''udp'')"

definition fw_add_port_range_v6 :: "nat \<Rightarrow> nat \<Rightarrow> (fw_host, unit) io" where
  "fw_add_port_range_v6 a b = with_backend (ufw_add_port_range_v6 a b ''udp'') (fd_add_port_range a b ''udp'')"

definition fw_remove_port_range :: "nat \<Rightarrow> nat \<Rightarrow> (fw_host, unit) io" where
  "fw_remove_port_range a b = with_backend (ufw_remove_port_range a b ''udp'') (fd_remove_port_range a b ''udp'')"

definition fw_remove_port_range_v6 :: "nat \<Rightarrow> nat \<Rightarrow> (fw_host, unit) io" where
  "fw_remove_port_range_v6 a b = with_backend (ufw_remove_port_range_v6 a b ''udp'') (fd_remove_port_range a b ''udp'')"

section \<open>The helpers of the maintenance manager\<close>

definition is_port_available :: "nat \<Rightarrow> fw_host \<Rightarrow> bool \<times> fw_host" where
  "is_port_available port w =
     (case run_cmd_output ''netstat'' [''-tunlp''] w of
        (CmdOut _ out _, w') \<Rightarrow> (\<not> contains_str ('':'' @ nat_str port) out, w')
      | (CmdErr _, w') \<Rightarrow> (True, w'))"

text \<open>\<open>if is_active().await { f().await?; }\<close>\<close>

definition when_active :: "(fw_host \<Rightarrow> bool \<times> fw_host) \<Rightarrow> (fw_host, unit) io \<Rightarrow> (fw_host, unit) io" where
  "when_active test m w = (case test w of (True, w') \<Rightarrow> m w' | (False, w') \<Rightarrow> (Inr (), w'))"

definition allow_port_range :: "nat \<Rightarrow> nat \<Rightarrow> (fw_host, unit) io" where
  "allow_port_range a b =
     thenE (when_active ufw_is_active (ufw_add_port_range a b ''udp'')) (when_active fd_is_active (fd_add_port_range a b ''udp''))"

definition allow_port_range_v6 :: "nat \<Rightarrow> nat \<Rightarrow> (fw_host, unit) io" where
  "allow_port_range_v6 a b = when_active ufw_is_active (ufw_add_port_range_v6 a b ''udp'')"

definition remove_port_range :: "nat \<Rightarrow> nat \<Rightarrow> (fw_host, unit) io" where
  "remove_port_range a b =
     thenE (when_active ufw_is_active (ufw_remove_port_range a b ''udp'')) (when_active fd_is_active (fd_remove_port_range a b ''udp''))"

definition remove_port_range_v6 :: "nat \<Rightarrow> nat \<Rightarrow> (fw_host, unit) io" where
  "remove_port_range_v6 a b = when_active ufw_is_active (ufw_remove_port_range_v6 a b ''udp'')"

section \<open>Lemmas\<close>

lemma run_cmd_log [simp]: "fw_log (snd (run_cmd_output prog args w)) = fw_log w @ [Ran prog args]"
  by (simp add: run_cmd_output_def fw_note_def)

text \<open>What a computation adds to the log.\<close>

definition adds :: "fw_event set \<Rightarrow> (fw_host \<Rightarrow> 'a \<times> fw_host) \<Rightarrow> bool" where
  "adds E m \<longleftrightarrow> (\<forall>w. \<exists>es. fw_log (snd (m w)) = fw_log w @ es \<and> set es \<subseteq> E)"

lemma adds_log: "adds E m \<Longrightarrow> set (drop (length (fw_log w)) (fw_log (snd (m w)))) \<subseteq> E"
  by (auto simp: adds_def) (metis append_eq_conv_conj subsetD)

lemma adds_mono: "adds E m \<Longrightarrow> E \<subseteq> E' \<Longrightarrow> adds E' m"
  by (fastforce simp: adds_def)

lemma adds_retE: "adds E (retE a)"
  by (simp add: adds_def)

lemma adds_catchE:
  assumes "adds E m" "\<And>r. adds E (k r)"
  shows "adds E (catchE m k)"
  unfolding adds_def
proof
  fix w
  obtain r w1 where m: "m w = (r, w1)" by (cases "m w")
  obtain es where es: "fw_log w1 = fw_log w @ es" "set es \<subseteq> E"
    using assms(1) m unfolding adds_def by (metis snd_conv)
  obtain fs where "fw_log (snd (k r w1)) = fw_log w1 @ fs" "set fs \<subseteq> E"
    using assms(2) unfolding adds_def by blast
  with es m show "\<exists>es. fw_log (snd (catchE m k w)) = fw_log w @ es \<and> set es \<subseteq> E"
    by (simp add: catchE_def)
qed

lemma bindE_as_catchE: "bindE m k = catchE m (\<lambda>r. case r of Inl e \<Rightarrow> failE e | Inr a \<Rightarrow> k a)"
  by (rule ext) (simp add: bindE_def catchE_def split: prod.split sum.split)

lemma adds_bindE: "adds E m \<Longrightarrow> (\<And>a. adds E (k a)) \<Longrightarrow> adds E (bindE m k)"
  unfolding bindE_as_catchE by (rule adds_catchE) (auto simp: adds_def split: sum.split)

lemma adds_thenE: "adds E m \<Longrightarrow> adds E k \<Longrightarrow> adds E (thenE m k)"
  unfolding thenE_def by (rule adds_bindE)

lemma adds_ufw_attempts: "Ran ''ufw'' args \<in> E \<Longrightarrow> adds E (ufw_attempts n args last_err)"
proof (induction n arbitrary: last_err)
  case 0
  then show ?case by (simp add: adds_def)
next
  case (Suc n)
  have one: "fw_log (fw_note (Ran ''ufw'' args) w) = fw_log w @ [Ran ''ufw'' args]" for w
    by (simp add: fw_note_def)
  have IH: "\<exists>es. fw_log (snd (ufw_attempts n args l (fw_note (Ran ''ufw'' args) w))) = fw_log w @ es \<and> set es \<subseteq> E" for l w
  proof -
    obtain es where "fw_log (snd (ufw_attempts n args l (fw_note (Ran ''ufw'' args) w)))
        = fw_log (fw_note (Ran ''ufw'' args) w) @ es" "set es \<subseteq> E"
      using Suc.IH [OF Suc.prems, of l] unfolding adds_def by blast
    with Suc.prems show ?thesis by (simp add: one)
  qed
  show ?case
    unfolding adds_def
  proof
    fix w
    show "\<exists>es. fw_log (snd (ufw_attempts (Suc n) args last_err w)) = fw_log w @ es \<and> set es \<subseteq> E"
      using IH [of _ w] Suc.prems one [of w] by (cases "fw_cmd w ''ufw'' args (length (fw_log w))") (simp_all add: run_cmd_output_def)
  qed
qed

lemma adds_run_ufw: "Ran ''ufw'' args \<in> E \<Longrightarrow> adds E (run_ufw args)"
  unfolding run_ufw_def by (rule adds_ufw_attempts)

definition detect_events :: "fw_event set" where
  "detect_events = {Ran ''systemctl'' [''is-active'', ''firewalld''], Ran ''ufw'' [''status'']}"

lemma adds_detect: "adds detect_events detect_backend"
  by (auto simp: adds_def detect_backend_def run_cmd_output_def fw_note_def detect_events_def split: cmd_result.split)

lemma with_backend_ufw:
  assumes "fst (detect_backend w) = Some Ufw"
  shows "with_backend u f w = u (snd (detect_backend w))"
  using assms by (cases "detect_backend w") (simp add: with_backend_def)

lemma adds_bus:
  assumes "Called c \<in> E"
  shows "adds E (bus c)" "adds E (bus_text c)" "adds E (bus_flag c)"
  using assms by (auto simp: adds_def bus_def bus_text_def bus_flag_def bindE_def fw_note_def split: option.split)

lemma adds_with_backend:
  assumes "detect_events \<subseteq> E" "adds E u" "adds E f"
  shows "adds E (with_backend u f)"
  unfolding adds_def
proof
  fix w
  obtain b w1 where d: "detect_backend w = (b, w1)" by (cases "detect_backend w")
  then obtain es where es: "fw_log w1 = fw_log w @ es" "set es \<subseteq> E"
    using adds_mono [OF adds_detect assms(1)] unfolding adds_def by (metis snd_conv)
  obtain fs gs where "fw_log (snd (u w1)) = fw_log w1 @ fs" "set fs \<subseteq> E" "fw_log (snd (f w1)) = fw_log w1 @ gs" "set gs \<subseteq> E"
    using assms(2,3) unfolding adds_def by metis
  with es d show "\<exists>es. fw_log (snd (with_backend u f w)) = fw_log w @ es \<and> set es \<subseteq> E"
    by (auto simp: with_backend_def split: option.split firewall_backend.split)
qed

text \<open>The commands and calls that close a single port.\<close>

definition removal_events :: "nat \<Rightarrow> fw_event set" where
  "removal_events p = {ev. \<exists>z pr. ev \<in> {Ran ''ufw'' [''delete'', ''allow'', port_spec p pr], Called (RtRemove z (nat_str p) pr),
     Called (PmRemove z (nat_str p) pr)}}"

lemma nat_str_inj: "nat_str a = nat_str b \<longleftrightarrow> a = b"
  by (metis dec_value_nat_str)

lemma port_spec_inj:
  assumes "port_spec a pr = port_spec b pr'"
  shows "a = b"
proof -
  have "hd (split_on (CHR ''/'') (port_spec p r)) = nat_str p" for p r
  proof -
    have "CHR ''/'' \<notin> set (nat_str p)" using nat_str_digits [of p] by (auto simp: list_all_iff is_ascii_digit_def)
    from split_on_append [OF this, of r] show ?thesis by (simp add: port_spec_def)
  qed
  with assms show ?thesis by (metis nat_str_inj)
qed

lemma adds_fd_open: "(\<And>z. adds (- removal_events p) (k z)) \<Longrightarrow> adds (- removal_events p) (fd_open k)"
  unfolding fd_open_def by (intro adds_thenE adds_bindE adds_bus) (simp_all add: removal_events_def)

lemma adds_fd_permanent: "(\<And>z. adds (- removal_events p) (k z)) \<Longrightarrow> adds (- removal_events p) (fd_permanent z k)"
  unfolding fd_permanent_def Let_def
  by (intro adds_thenE adds_bindE adds_bus adds_catchE)
     (auto simp: removal_events_def split: sum.split intro: adds_thenE adds_bus adds_retE)

lemma adds_fd_remove: "q \<noteq> p \<Longrightarrow> adds (- removal_events p) (fd_remove (nat_str q) pr)"
  unfolding fd_remove_def
  by (intro adds_fd_open adds_catchE adds_fd_permanent)
     (auto simp: removal_events_def nat_str_inj intro!: adds_bus adds_retE)

lemma adds_remove_port: "q \<noteq> p \<Longrightarrow> adds (- removal_events p) (fw_remove_port q)"
  unfolding fw_remove_port_def ufw_remove_port_def fd_remove_port_def
  by (intro adds_with_backend adds_catchE adds_thenE adds_run_ufw adds_fd_remove adds_retE)
     (auto simp: removal_events_def detect_events_def dest: port_spec_inj)

lemma adds_ufw_list: "adds (- removal_events p) (ufw_list_attempts n last_err)"
proof (induction n arbitrary: last_err)
  case 0
  then show ?case by (simp add: adds_def)
next
  case (Suc n)
  have E: "Ran ''ufw'' [''status'', ''numbered''] \<notin> removal_events p" by (simp add: removal_events_def)
  show ?case
    unfolding adds_def
  proof
    fix w
    let ?w = "fw_note (Ran ''ufw'' [''status'', ''numbered'']) w"
    have one: "fw_log ?w = fw_log w @ [Ran ''ufw'' [''status'', ''numbered'']]" by (simp add: fw_note_def)
    have IH: "\<exists>es. fw_log (snd (ufw_list_attempts n l ?w)) = fw_log w @ es \<and> set es \<subseteq> - removal_events p" for l
    proof -
      obtain es where "fw_log (snd (ufw_list_attempts n l ?w)) = fw_log ?w @ es" "set es \<subseteq> - removal_events p"
        using Suc.IH [of l] unfolding adds_def by blast
      with E show ?thesis by (simp add: one)
    qed
    show "\<exists>es. fw_log (snd (ufw_list_attempts (Suc n) last_err w)) = fw_log w @ es \<and> set es \<subseteq> - removal_events p"
      using IH E one by (cases "fw_cmd w ''ufw'' [''status'', ''numbered''] (length (fw_log w))") (simp_all add: run_cmd_output_def)
  qed
qed

lemma adds_list_ports: "adds (- removal_events p) fw_list_allowed_ports"
proof -
  have "adds (- removal_events p) (\<lambda>w. case run_cmd_output ''firewall-cmd'' args w of
      (CmdErr e, w') \<Rightarrow> (Inl e, w')
    | (CmdOut ok out err, w') \<Rightarrow> if ok then (Inr (parse_firewalld_ports out), w') else (Inl (''list-ports: '' @ err), w'))" for args
    by (auto simp: adds_def run_cmd_output_def fw_note_def removal_events_def split: cmd_result.split)
  then show ?thesis
    unfolding fw_list_allowed_ports_def ufw_list_allowed_ports_def fd_list_allowed_ports_def
    by (intro adds_with_backend adds_ufw_list adds_thenE adds_bindE adds_bus)
       (auto simp: removal_events_def detect_events_def)
qed

lemma expand_single: "p \<le> 65535 \<Longrightarrow> CHR ''/'' \<notin> set pr \<Longrightarrow> expand_port_entry (port_spec p pr) = [p]"
proof -
  assume "p \<le> 65535"
  have "CHR ''/'' \<notin> set (nat_str p)"
    using nat_str_digits [of p] by (auto simp: list_all_iff is_ascii_digit_def)
  then show ?thesis
    using \<open>p \<le> 65535\<close> by (simp add: expand_port_entry_def port_spec_def split_on_append parse_u16_def parse_unsigned_nat_str)
qed

lemma split_once_any_first:
  "c \<in> S \<Longrightarrow> set a \<inter> S = {} \<Longrightarrow> split_once_any S (a @ c # b) = Some (a, b)"
  by (induction a) auto

lemma expand_range:
  assumes "a \<le> b" "b \<le> 65535" "c \<in> {CHR ''-'', CHR '':''}"
  shows "expand_port_entry (nat_str a @ c # nat_str b @ ''/'' @ pr) = [a..<b + 1]"
proof -
  have digits: "is_ascii_digit x" if "x \<in> set (nat_str n)" for x n
    using nat_str_digits [of n] that by (simp add: list_all_iff)
  have "\<not> is_ascii_digit (CHR ''/'')" "\<not> is_ascii_digit (CHR ''-'')" "\<not> is_ascii_digit (CHR '':'')"
    by (simp_all add: is_ascii_digit_def)
  then have no: "CHR ''/'' \<notin> set (nat_str a @ c # nat_str b)" "set (nat_str a) \<inter> {CHR ''-'', CHR '':''} = {}"
    using digits assms(3) by auto
  have "parse_u16 (nat_str a @ c # nat_str b) = None"
  proof -
    obtain d ds where d: "nat_str a = d # ds" using nat_str_digits [of a] by (cases "nat_str a") auto
    then have "d \<noteq> CHR ''+''" using digits [of d a] by (auto simp: is_ascii_digit_def)
    moreover have "\<not> is_ascii_digit c" using assms(3) by (auto simp: is_ascii_digit_def)
    ultimately show ?thesis using d by (simp add: parse_u16_def parse_unsigned_def)
  qed
  moreover have "hd (split_on (CHR ''/'') (nat_str a @ c # nat_str b @ ''/'' @ pr)) = nat_str a @ c # nat_str b"
    using split_on_append [OF no(1), of pr] by simp
  moreover have "split_once_any {CHR ''-'', CHR '':''} (nat_str a @ c # nat_str b) = Some (nat_str a, nat_str b)"
    by (rule split_once_any_first) (use assms(3) no(2) in auto)
  ultimately show ?thesis
    using assms(1,2) by (simp add: expand_port_entry_def parse_u16_def parse_unsigned_nat_str)
qed

section \<open>Properties\<close>

text \<open>An entry of firewalld's list: one port or a range, with its protocol.\<close>

definition entry_text :: "nat \<times> nat \<times> string \<Rightarrow> string" where
  "entry_text e = (case e of (a, b, pr) \<Rightarrow> if a = b then port_spec a pr else fd_range a b @ ''/'' @ pr)"

definition entry_ok :: "nat \<times> nat \<times> string \<Rightarrow> bool" where
  "entry_ok e \<longleftrightarrow> (case e of (a, b, pr) \<Rightarrow> a \<le> b \<and> b \<le> 65535 \<and> pr \<in> {''tcp'', ''udp''})"

lemma expand_entry: "entry_ok (a, b, pr) \<Longrightarrow> expand_port_entry (entry_text (a, b, pr)) = [a..<b + 1]"
  using expand_range [of a b "CHR ''-''" pr]
  by (auto simp: entry_ok_def entry_text_def expand_single fd_range_def upt_rec)

lemma entry_plain: "entry_ok e \<Longrightarrow> entry_text e \<noteq> [] \<and> list_all plain_char (entry_text e)"
proof -
  assume "entry_ok e"
  then obtain a b pr where e: "e = (a, b, pr)" "pr \<in> {''tcp'', ''udp''}" by (auto simp: entry_ok_def split: prod.splits)
  have "list_all plain_char (nat_str n)" for n using digits_plain [of _ n] by (simp add: list_all_iff)
  then show ?thesis
    using e(2) by (auto simp: e(1) entry_text_def port_spec_def fd_range_def plain_char_def)
qed

text \<open>
  Also: the port lists of the firewalls are read in full: a list of single ports and ranges, as firewalld
  prints it, reads as exactly the ports it covers, and a range in the notation \<open>ufw\<close> is given reads as
  exactly the ports of the range.
\<close>

theorem port_entries_roundtrip:
  assumes "list_all entry_ok es" and "a \<le> b" and "b \<le> 65535"
  shows "set (parse_firewalld_ports (join '' '' (map entry_text es))) = (\<Union>(x, y, pr) \<in> set es. {x..y})
    \<and> set (expand_port_entry (ufw_range a b pr)) = {a..b}"
proof
  have "split_whitespace (join '' '' (map entry_text es)) = map entry_text es"
    by (rule split_whitespace_join) (use assms(1) entry_plain in \<open>auto simp: list_all_iff\<close>)
  moreover have "set (expand_port_entry (entry_text e)) = (case e of (x, y, pr) \<Rightarrow> {x..y})" if "e \<in> set es" for e
    using assms(1) that expand_entry by (cases e) (auto simp: list_all_iff)
  ultimately show "set (parse_firewalld_ports (join '' '' (map entry_text es))) = (\<Union>(x, y, pr) \<in> set es. {x..y})"
    by (simp add: parse_firewalld_ports_def parse_port_entries_def)
  show "set (expand_port_entry (ufw_range a b pr)) = {a..b}"
    using expand_range [of a b "CHR '':''" pr] assms(2,3) by (auto simp: ufw_range_def)
qed

theorem port_entries_roundtrip_witness:
  "set (parse_firewalld_ports (join '' '' (map entry_text [(443, 443, ''tcp''), (10001, 10099, ''udp'')]))) = {443..443} \<union> {10001..10099}
   \<and> set (expand_port_entry (ufw_range 20001 20100 ''udp'')) = {20001..20100}"
  using port_entries_roundtrip [of "[(443, 443, ''tcp''), (10001, 10099, ''udp'')]" 20001 20100 "''udp''"]
  by (simp add: entry_ok_def)

text \<open>
  Also: with \<open>ufw\<close>, opening a port runs the rule for TCP and no other command that changes the firewall, so a
  port opened for a UDP service (Hysteria2 and mKCP inbounds use UDP) stays closed for it.
\<close>

theorem ufw_opens_tcp_only:
  assumes "fst (detect_backend w) = Some Ufw"
  shows "set (drop (length (fw_log w)) (fw_log (snd (fw_add_port p w))))
    \<subseteq> detect_events \<union> {Ran ''ufw'' [''allow'', port_spec p ''tcp'']}"
proof -
  let ?E = "detect_events \<union> {Ran ''ufw'' [''allow'', port_spec p ''tcp'']}"
  obtain es where es: "fw_log (snd (detect_backend w)) = fw_log w @ es" "set es \<subseteq> ?E"
    using adds_detect by (auto simp: adds_def) (metis subset_insertI2)
  have "adds ?E (ufw_add_port p ''tcp'')"
    unfolding ufw_add_port_def by (rule adds_run_ufw) simp
  then obtain fs where "fw_log (snd (fw_add_port p w)) = fw_log w @ es @ fs" "set fs \<subseteq> ?E"
    unfolding fw_add_port_def with_backend_ufw [OF assms] adds_def using es(1) by (metis append.assoc)
  with es(2) show ?thesis by auto
qed

definition ufw_host :: fw_host where
  "ufw_host = \<lparr>fw_cmd = (\<lambda>prog args n. CmdOut (prog = ''ufw'') ''Status: active'' []), fw_bus_err = (\<lambda>c n. Some ''no bus''),
     fw_bus_text = (\<lambda>c n. []), fw_bus_flag = (\<lambda>c n. False), fw_has_ufw = True, fw_has_firewalld = False, fw_log = []\<rparr>"

theorem ufw_opens_tcp_only_witness:
  "fst (detect_backend ufw_host) = Some Ufw
   \<and> set (drop (length (fw_log ufw_host)) (fw_log (snd (fw_add_port 20000 ufw_host))))
      \<subseteq> detect_events \<union> {Ran ''ufw'' [''allow'', port_spec 20000 ''tcp'']}"
proof -
  have "fst (detect_backend ufw_host) = Some Ufw"
    by (simp add: detect_backend_def ufw_host_def run_cmd_output_def fw_note_def)
  with ufw_opens_tcp_only [OF this, of 20000] show ?thesis by simp
qed

end
