(* ===== verification/ConfigStore.thy ===== *)
theory ConfigStore
  imports XrayConfig Firewall
begin

text \<open>
  The configuration files of the proxy core on the host and what belongs to them: the file operations of
  \<open>core/xray/config.rs\<close> (listing, creation, deletion with the release of hop ranges, the base file), the
  batch creation of \<open>core/xray/hysteria2.rs\<close>, \<open>kcp.rs\<close>, \<open>reality.rs\<close> and \<open>xhttp.rs\<close>, and from
  \<open>core/system/maintenance.rs\<close> the reload with the firewall synchronisation and the reclamation of orphaned
  ranges.

  The state \<open>node\<close> holds the configuration directory (every file, the base file included), the sing-box
  directory, the allocation file and the firewall host. A path is the name of a file in the directory: all
  callers pass paths that listing returned. Commands the manager runs (\<open>iptables\<close>, \<open>systemctl\<close>, \<open>netstat\<close>, the core
  binary) go to the firewall host's log and get their outcome from it. The outcomes of file removals and
  writes are functions of how many there have been; a failed write may leave any content behind. Random
  ports are a sequence of draws; the search for a free port is a partial function, \<open>None\<close> when it never
  ends. The JSON parser and printer, and the percent-encoding, are the crates': parameters.
\<close>

section \<open>The host\<close>

datatype rm_fate = RmOk | RmRaced | RmRefused string

record node =
  nd_alloc :: alloc_world
  nd_fw :: fw_host
  nd_conf :: "dir_entry list"
  nd_box :: directory
  nd_mtime :: "string \<Rightarrow> int option"
  nd_rm :: "nat \<Rightarrow> rm_fate"
  nd_removals :: nat
  nd_write :: "nat \<Rightarrow> (string \<times> string option) option"
  nd_writes :: nat
  nd_ipv6 :: "nat \<Rightarrow> string + string"
  nd_rng :: "nat \<Rightarrow> nat"
  nd_drawn :: nat

definition on_fw :: "(fw_host \<Rightarrow> 'a \<times> fw_host) \<Rightarrow> node \<Rightarrow> 'a \<times> node" where
  "on_fw m w = (case m (nd_fw w) of (r, f) \<Rightarrow> (r, w\<lparr>nd_fw := f\<rparr>))"

definition on_alloc :: "(alloc_world \<Rightarrow> 'a \<times> alloc_world) \<Rightarrow> node \<Rightarrow> 'a \<times> node" where
  "on_alloc m w = (case m (nd_alloc w) of (r, a) \<Rightarrow> (r, w\<lparr>nd_alloc := a\<rparr>))"

text \<open>\<open>let _ = f().await\<close>\<close>

definition ignoring :: "('w \<Rightarrow> 'a \<times> 'w) \<Rightarrow> 'w \<Rightarrow> 'w" where
  "ignoring m w = snd (m w)"

definition xray_dir :: "node \<Rightarrow> directory" where
  "xray_dir w = Dir (nd_conf w) False"

definition entry_named :: "string \<Rightarrow> node \<Rightarrow> dir_entry option" where
  "entry_named name w = find (\<lambda>e. de_name e = name) (nd_conf w)"

definition read_to_string :: "string \<Rightarrow> node \<Rightarrow> string option" where
  "read_to_string name w = Option.bind (entry_named name w) de_content"

fun put_entry :: "string \<Rightarrow> string \<Rightarrow> dir_entry list \<Rightarrow> dir_entry list" where
  "put_entry name c [] = [\<lparr>de_name = name, de_is_file = True, de_content = Some c\<rparr>]"
| "put_entry name c (e # es) =
     (if de_name e = name then \<lparr>de_name = name, de_is_file = True, de_content = Some c\<rparr> # es else e # put_entry name c es)"

definition fs_write :: "string \<Rightarrow> string \<Rightarrow> (node, unit) io" where
  "fs_write name content w =
     (let w1 = w\<lparr>nd_writes := nd_writes w + 1\<rparr>
      in case nd_write w (nd_writes w) of
           None \<Rightarrow> (Inr (), w1\<lparr>nd_conf := put_entry name content (nd_conf w)\<rparr>)
         | Some (e, None) \<Rightarrow> (Inl e, w1)
         | Some (e, Some c) \<Rightarrow> (Inl e, w1\<lparr>nd_conf := put_entry name c (nd_conf w)\<rparr>))"

datatype rm_outcome = Removed | NotFound | Refused string

text \<open>\<open>RmRaced\<close>: another deleter takes the file away first.\<close>

definition remove_file :: "string \<Rightarrow> node \<Rightarrow> rm_outcome \<times> node" where
  "remove_file name w =
     (let w1 = w\<lparr>nd_removals := nd_removals w + 1\<rparr>;
          gone = w1\<lparr>nd_conf := filter (\<lambda>e. de_name e \<noteq> name) (nd_conf w)\<rparr>
      in if entry_named name w = None then (NotFound, w1)
         else case nd_rm w (nd_removals w) of
                RmOk \<Rightarrow> (Removed, gone) | RmRaced \<Rightarrow> (NotFound, gone) | RmRefused e \<Rightarrow> (Refused e, w1))"

definition get_public_ipv6 :: "node \<Rightarrow> string + string" where
  "get_public_ipv6 w = nd_ipv6 w (length (fw_log (nd_fw w)))"

definition has_ipv6 :: "node \<Rightarrow> bool" where
  "has_ipv6 w \<longleftrightarrow> \<not> isl (get_public_ipv6 w)"

section \<open>Listing\<close>

definition list_all_inbound_files :: "node \<Rightarrow> string list" where
  "list_all_inbound_files w = filter is_inbound_file (map de_name (nd_conf w))"

definition list_inbound_files_by_proto :: "proto \<Rightarrow> node \<Rightarrow> string list" where
  "list_inbound_files_by_proto p w = filter (prefix (batch_file_prefix p)) (list_all_inbound_files w)"

definition collect_all_ports :: "(string \<Rightarrow> json option) \<Rightarrow> node \<Rightarrow> nat list" where
  "collect_all_ports parse w =
     concat (map (\<lambda>f. case Option.bind (read_to_string f w) parse of
        Some j \<Rightarrow> collect_ports_from_config j | None \<Rightarrow> []) (list_all_inbound_files w))"

text \<open>The sing-box counterpart searches the whole document; \<open>main_port + 99\<close> is 16-bit arithmetic.\<close>

definition box_inbound_ports :: "json \<Rightarrow> nat list" where
  "box_inbound_ports v =
     (case Option.bind (jget ''listen_port'' v) as_u64 of
        Some p \<Rightarrow>
          if p > 65535 then []
          else p # (if Option.bind (jget ''type'' v) as_str = Some ''hysteria2''
                    then [(p + 1) mod 65536..<(p + 99) mod 65536 + 1] else [])
      | None \<Rightarrow> [])"

fun extract_ports_recursive :: "json \<Rightarrow> nat list" where
  "extract_ports_recursive (JObj ms) =
     box_inbound_ports (JObj ms) @ concat (map (\<lambda>(k, v). extract_ports_recursive v) ms)"
| "extract_ports_recursive (JArr vs) = concat (map extract_ports_recursive vs)"
| "extract_ports_recursive _ = []"

definition is_box_inbound_file :: "string \<Rightarrow> bool" where
  "is_box_inbound_file name \<longleftrightarrow> suffix ''.json'' name \<and> \<not> prefix ''00_'' name \<and> \<not> prefix ''01_'' name"

definition box_collect_all_ports :: "(string \<Rightarrow> json option) \<Rightarrow> directory \<Rightarrow> nat list" where
  "box_collect_all_ports parse d =
     (case d of
        NoDir \<Rightarrow> []
      | Dir es _ \<Rightarrow> concat (map (\<lambda>e. if is_box_inbound_file (de_name e)
          then (case Option.bind (de_content e) parse of Some j \<Rightarrow> extract_ports_recursive j | None \<Rightarrow> []) else []) es))"

section \<open>Reloading\<close>

fun remove_stale :: "nat list \<Rightarrow> fw_host \<Rightarrow> fw_host" where
  "remove_stale [] f = f"
| "remove_stale (p # ps) f = remove_stale ps (snd (fw_remove_port p f))"

definition required_ports :: "(string \<Rightarrow> json option) \<Rightarrow> node \<Rightarrow> nat list" where
  "required_ports parse w = collect_all_ports parse w @ box_collect_all_ports parse (nd_box w) @ [22]"

definition stale_ports :: "(string \<Rightarrow> json option) \<Rightarrow> node \<Rightarrow> nat list" where
  "stale_ports parse w =
     (let current = (case fst (fw_list_allowed_ports (nd_fw w)) of Inr ps \<Rightarrow> ps | Inl _ \<Rightarrow> [])
      in filter (\<lambda>p. p \<notin> set (required_ports parse w)) current)"

definition sync_firewall_with_configs :: "(string \<Rightarrow> json option) \<Rightarrow> node \<Rightarrow> node" where
  "sync_firewall_with_configs parse w =
     w\<lparr>nd_fw := remove_stale (stale_ports parse w) (snd (fw_list_allowed_ports (nd_fw w)))\<rparr>"

definition reconcile_startup_state :: "(string \<Rightarrow> json option) \<Rightarrow> node \<Rightarrow> node" where
  "reconcile_startup_state parse w =
     (let w1 = sync_firewall_with_configs parse w
      in ignoring (on_alloc (reclaim_orphaned_xray_ranges_at parse (xray_dir w1))) w1)"

text \<open>What a reload finds: whether the cores run, whether the existence test of the base file fails, the
  network, and what the sing-box manager's own base configuration reports.\<close>

record reload_env =
  re_core :: bool
  re_box :: bool
  re_stat_bad :: bool
  re_egress6 :: bool
  re_mkdir :: "string option"
  re_box_base :: "string option"

definition BASE_NAME :: string where
  "BASE_NAME = ''00_base.json''"

definition ensure_base_config ::
  "(string \<Rightarrow> json option) \<Rightarrow> (json \<Rightarrow> string) \<Rightarrow> reload_env \<Rightarrow> (node, unit) io" where
  "ensure_base_config parse pretty e w =
     (if entry_named BASE_NAME w \<noteq> None \<and> \<not> re_stat_bad e then
        (case Option.bind (read_to_string BASE_NAME w) parse of
           Some config \<Rightarrow>
             (case patch_direct_outbound_ipv6 config (re_egress6 e) of
                (True, config') \<Rightarrow> (Inr (), ignoring (fs_write BASE_NAME (pretty config')) w)
              | (False, _) \<Rightarrow> (Inr (), w))
         | None \<Rightarrow> (Inr (), w))
      else case re_mkdir e of
             Some err \<Rightarrow> (Inl err, w)
           | None \<Rightarrow> fs_write BASE_NAME (pretty (base_config (re_egress6 e))) w)"

definition run_cmd_checked :: "string \<Rightarrow> string list \<Rightarrow> (node, string) io" where
  "run_cmd_checked prog args w =
     (case on_fw (run_cmd_output prog args) w of
        (CmdErr e, w') \<Rightarrow> (Inl e, w')
      | (CmdOut ok out err, w') \<Rightarrow>
          if ok then (Inr out, w') else (Inl (if trim err = [] then trim out else trim err), w'))"

definition restart_service :: "string \<Rightarrow> (node, unit) io" where
  "restart_service service = bindE (run_cmd_checked ''systemctl'' [''restart'', service @ ''.service'']) (\<lambda>_. retE ())"

definition maintenance_reload_core ::
  "(string \<Rightarrow> json option) \<Rightarrow> (json \<Rightarrow> string) \<Rightarrow> reload_env \<Rightarrow> (node, unit) io" where
  "maintenance_reload_core parse pretty e =
     thenE (if re_core e then thenE (ensure_base_config parse pretty e) (restart_service ''wwps-core'') else retE ())
       (thenE (if re_box e then thenE (case re_box_base e of Some err \<Rightarrow> failE err | None \<Rightarrow> retE ()) (restart_service ''wwps-box'')
               else retE ())
          (\<lambda>w. (Inr (), reconcile_startup_state parse w)))"

section \<open>Deletion\<close>

definition redirect_rule :: "string \<Rightarrow> nat \<Rightarrow> string list" where
  "redirect_rule range_str main_port =
     [''-p'', ''udp'', ''--dport'', range_str, ''-j'', ''REDIRECT'', ''--to-ports'', nat_str main_port]"

definition nat_range :: "nat \<times> nat \<Rightarrow> string" where
  "nat_range r = nat_str (fst r) @ '':'' @ nat_str (snd r)"

definition remove_xray_hop_firewall_rules :: "nat \<Rightarrow> nat \<times> nat \<Rightarrow> bool \<Rightarrow> node \<Rightarrow> node" where
  "remove_xray_hop_firewall_rules main_port hop v6 w =
     (let args = [''-t'', ''nat'', ''-D'', ''PREROUTING''] @ redirect_rule (nat_range hop) main_port;
          w1 = ignoring (on_fw (run_cmd_output ''iptables'' args)) w;
          w2 = (if v6 then ignoring (on_fw (remove_port_range_v6 (fst hop) (snd hop)))
                             (ignoring (on_fw (run_cmd_output ''ip6tables'' args)) w1) else w1);
          w3 = ignoring (on_fw (remove_port_range main_port main_port)) w2
      in ignoring (on_fw (remove_port_range (fst hop) (snd hop))) w3)"

fun release_each :: "bool \<Rightarrow> nat list \<Rightarrow> node \<Rightarrow> node" where
  "release_each v6 [] w = w"
| "release_each v6 (p # ps) w =
     release_each v6 ps
       (ignoring (on_alloc (release_xray_hysteria2_range_at p)) (remove_xray_hop_firewall_rules p (p + 1, p + 99) v6 w))"

definition release_hop_ports :: "nat list \<Rightarrow> node \<Rightarrow> node" where
  "release_hop_ports ports w = (if ports = [] then w else release_each (has_ipv6 w) ports w)"

definition hop_ports_of :: "(string \<Rightarrow> json option) \<Rightarrow> string \<Rightarrow> node \<Rightarrow> nat list" where
  "hop_ports_of parse name w =
     (case read_to_string name w of Some c \<Rightarrow> extract_xray_hy2_hop_ports parse c | None \<Rightarrow> [])"

definition delete_file_then_release_hop :: "(string \<Rightarrow> json option) \<Rightarrow> string \<Rightarrow> node \<Rightarrow> bool \<times> node" where
  "delete_file_then_release_hop parse name w =
     (let ports = hop_ports_of parse name w
      in case remove_file name w of
           (Removed, w1) \<Rightarrow> (True, release_hop_ports ports w1)
         | (NotFound, w1) \<Rightarrow> (False, release_hop_ports ports w1)
         | (Refused e, w1) \<Rightarrow> (False, w1))"

fun delete_each :: "(string \<Rightarrow> json option) \<Rightarrow> string list \<Rightarrow> node \<Rightarrow> nat \<times> node" where
  "delete_each parse [] w = (0, w)"
| "delete_each parse (f # fs) w =
     (case delete_file_then_release_hop parse f w of
        (b, w1) \<Rightarrow> (case delete_each parse fs w1 of (n, w2) \<Rightarrow> ((if b then 1 else 0) + n, w2)))"

definition delete_files_at ::
  "(string \<Rightarrow> json option) \<Rightarrow> (json \<Rightarrow> string) \<Rightarrow> reload_env \<Rightarrow> string list \<Rightarrow> node \<Rightarrow> nat \<times> node" where
  "delete_files_at parse pretty e paths w =
     (case delete_each parse paths w of
        (n, w1) \<Rightarrow> (n, if n > 0 then ignoring (maintenance_reload_core parse pretty e) w1 else w1))"

definition delete_all_configurations ::
  "(string \<Rightarrow> json option) \<Rightarrow> (json \<Rightarrow> string) \<Rightarrow> reload_env \<Rightarrow> (node, nat) io" where
  "delete_all_configurations parse pretty e w =
     (let files = list_all_inbound_files w; w1 = snd (delete_each parse files w)
      in if length files > 0 then bindE (maintenance_reload_core parse pretty e) (\<lambda>_. retE (length files)) w1
         else (Inr 0, w1))"

definition delete_configurations_by_count ::
  "(string \<Rightarrow> json option) \<Rightarrow> (json \<Rightarrow> string) \<Rightarrow> reload_env \<Rightarrow> nat \<Rightarrow> (node, nat) io" where
  "delete_configurations_by_count parse pretty e n w =
     (let files = list_all_inbound_files w
      in if files = [] then (Inr 0, w)
         else (let timed = concat (map (\<lambda>f. case nd_mtime w f of Some t \<Rightarrow> [(f, t)] | None \<Rightarrow> []) files)
               in case delete_each parse (map fst (take n (sort_key snd timed))) w of
                    (k, w1) \<Rightarrow>
                      if k > 0 then bindE (maintenance_reload_core parse pretty e) (\<lambda>_. retE k) w1 else (Inr k, w1)))"

definition delete_specific_configuration_at ::
  "(string \<Rightarrow> json option) \<Rightarrow> (json \<Rightarrow> string) \<Rightarrow> reload_env \<Rightarrow> string \<Rightarrow> (node, unit) io" where
  "delete_specific_configuration_at parse pretty e name w =
     (let ports = hop_ports_of parse name w
      in case remove_file name w of
           (Removed, w1) \<Rightarrow> maintenance_reload_core parse pretty e (release_hop_ports ports w1)
         | (NotFound, w1) \<Rightarrow> (Inl ''not found'', w1)
         | (Refused err, w1) \<Rightarrow> (Inl err, w1))"

section \<open>Frames\<close>

lemma on_fw_frame [simp]:
  "nd_alloc (snd (on_fw m w)) = nd_alloc w" "nd_conf (snd (on_fw m w)) = nd_conf w" "nd_box (snd (on_fw m w)) = nd_box w"
  "nd_write (snd (on_fw m w)) = nd_write w"
  by (simp_all add: on_fw_def split: prod.split)

lemma on_alloc_frame [simp]:
  "nd_alloc (snd (on_alloc m w)) = snd (m (nd_alloc w))" "nd_conf (snd (on_alloc m w)) = nd_conf w"
  "nd_write (snd (on_alloc m w)) = nd_write w"
  by (simp_all add: on_alloc_def split: prod.split)

lemma hop_rules_frame [simp]:
  "nd_alloc (remove_xray_hop_firewall_rules p r v6 w) = nd_alloc w"
  "nd_conf (remove_xray_hop_firewall_rules p r v6 w) = nd_conf w"
  "nd_write (remove_xray_hop_firewall_rules p r v6 w) = nd_write w"
  by (simp_all add: remove_xray_hop_firewall_rules_def ignoring_def Let_def)

section \<open>Live hop ranges\<close>

text \<open>The main ports of the hopping inbounds the directory holds, and the state the manager keeps: they are
  distinct and each of them is locked in a sound allocation file.\<close>

definition live :: "(string \<Rightarrow> json option) \<Rightarrow> node \<Rightarrow> nat list" where
  "live parse w = live_ports parse (xray_dir w)"

definition hop_safe :: "(string \<Rightarrow> json option) \<Rightarrow> node \<Rightarrow> bool" where
  "hop_safe parse w \<longleftrightarrow> alloc_sound (nd_alloc w) \<and> distinct (live parse w)
     \<and> set (live parse w) \<subseteq> tag_locked XRAY_HY2_PROTOCOL (nd_alloc w)"

definition release_one :: "bool \<Rightarrow> nat \<Rightarrow> node \<Rightarrow> node" where
  "release_one v6 p w = ignoring (on_alloc (release_xray_hysteria2_range_at p)) (remove_xray_hop_firewall_rules p (p + 1, p + 99) v6 w)"

interpretation node_hops: hop_owner "\<lambda>w. alloc_sound (nd_alloc w)" "release_one v6"
    "\<lambda>w. tag_locked XRAY_HY2_PROTOCOL (nd_alloc w)" "live parse" for v6 parse
proof unfold_locales
  show "alloc_sound (nd_alloc (release_one v6 p w))" if "alloc_sound (nd_alloc w)" for p w
    using that by (simp add: release_one_def ignoring_def xray_locks.release_ok)
  show "tag_locked XRAY_HY2_PROTOCOL (nd_alloc (release_one v6 p w)) = tag_locked XRAY_HY2_PROTOCOL (nd_alloc w) - {p}"
    if "alloc_sound (nd_alloc w)" for p w
    using that by (simp add: release_one_def ignoring_def xray_locks.release_locked)
  show "live parse (release_one v6 p w) = live parse w" for p w
    by (simp add: release_one_def ignoring_def live_def xray_dir_def)
qed

lemma hop_safe_owned: "hop_safe parse w \<longleftrightarrow> node_hops.owned parse w"
  by (simp add: hop_safe_def node_hops.owned_def)

lemma release_each_fold: "release_each v6 ps w = fold (release_one v6) ps w"
  by (induction ps arbitrary: w) (simp_all add: release_one_def)

lemma release_each_frame [simp]:
  "nd_conf (release_each v6 ps w) = nd_conf w" "nd_write (release_each v6 ps w) = nd_write w"
  by (induction ps arbitrary: w) (simp_all add: ignoring_def)

lemma release_hop_safe:
  "hop_safe parse w \<Longrightarrow> set ps \<inter> set (live parse w) = {} \<Longrightarrow> hop_safe parse (release_hop_ports ps w)"
  unfolding hop_safe_owned by (simp add: release_hop_ports_def release_each_fold node_hops.owned_release_list)

text \<open>The ports one entry contributes.\<close>

definition entry_hops :: "(string \<Rightarrow> json option) \<Rightarrow> dir_entry \<Rightarrow> nat list" where
  "entry_hops parse e =
     (if json_ext (de_name e) then (case de_content e of Some c \<Rightarrow> extract_xray_hy2_hop_ports parse c | None \<Rightarrow> []) else [])"

lemma live_concat: "live parse w = concat (map (entry_hops parse) (nd_conf w))"
  by (simp add: live_def live_ports_def xray_dir_def entry_hops_def [abs_def])

lemma distinct_concat_filter:
  "distinct (concat (map f es)) \<Longrightarrow> distinct (concat (map f (filter P es)))"
  by (induction es) auto

lemma concat_filter_disjoint:
  "distinct (concat (map f es)) \<Longrightarrow> e \<in> set es \<Longrightarrow> \<not> P e \<Longrightarrow> set (f e) \<inter> set (concat (map f (filter P es))) = {}"
  by (induction es) auto

lemma inbound_json_ext: "is_inbound_file name \<Longrightarrow> json_ext name"
  by (auto simp: is_inbound_file_def json_ext_def suffix_def)

lemma remove_file_cases:
  obtains "remove_file name w = (NotFound, w\<lparr>nd_removals := nd_removals w + 1\<rparr>)" "entry_named name w = None"
  | r where "r \<in> {Removed, NotFound}" "entry_named name w \<noteq> None"
      "remove_file name w = (r, w\<lparr>nd_removals := nd_removals w + 1, nd_conf := filter (\<lambda>e. de_name e \<noteq> name) (nd_conf w)\<rparr>)"
  | err where "remove_file name w = (Refused err, w\<lparr>nd_removals := nd_removals w + 1\<rparr>)"
  by (cases "entry_named name w"; cases "nd_rm w (nd_removals w)") (auto simp: remove_file_def Let_def)

lemma hop_safe_fields:
  "nd_conf w' = nd_conf w \<Longrightarrow> nd_alloc w' = nd_alloc w \<Longrightarrow> hop_safe parse w' = hop_safe parse w"
  by (simp add: hop_safe_def live_concat)

lemma hop_safe_counts [simp]:
  "hop_safe parse (w\<lparr>nd_removals := n\<rparr>) = hop_safe parse w" "hop_safe parse (w\<lparr>nd_writes := n\<rparr>) = hop_safe parse w"
  "hop_safe parse (w\<lparr>nd_fw := f\<rparr>) = hop_safe parse w" "hop_safe parse (w\<lparr>nd_drawn := n\<rparr>) = hop_safe parse w"
  by (simp_all add: hop_safe_def live_concat)

lemma gone_hop_safe:
  assumes "hop_safe parse w" "json_ext name" "entry_named name w \<noteq> None"
    and "w' = w\<lparr>nd_removals := n, nd_conf := filter (\<lambda>e. de_name e \<noteq> name) (nd_conf w)\<rparr>"
  shows "hop_safe parse w'" "set (hop_ports_of parse name w) \<inter> set (live parse w') = {}"
proof -
  obtain e where e: "entry_named name w = Some e" using assms(3) by auto
  then have e': "e \<in> set (nd_conf w)" "de_name e = name"
    using find_Some_P [of "\<lambda>e. de_name e = name"] by (auto simp: entry_named_def)
  have ports: "hop_ports_of parse name w = entry_hops parse e"
    using e e'(2) assms(2) by (simp add: hop_ports_of_def read_to_string_def entry_hops_def)
  have d: "distinct (concat (map (entry_hops parse) (nd_conf w)))" using assms(1) by (simp add: hop_safe_def live_concat)
  show "set (hop_ports_of parse name w) \<inter> set (live parse w') = {}"
    unfolding ports using concat_filter_disjoint [OF d e'(1), of "\<lambda>e. de_name e \<noteq> name"] e'(2) by (simp add: live_concat assms(4))
  have "set (live parse w') \<subseteq> set (live parse w)" by (auto simp: live_concat assms(4))
  then show "hop_safe parse w'"
    using assms(1) distinct_concat_filter [OF d, of "\<lambda>e. de_name e \<noteq> name"] by (auto simp: hop_safe_def live_concat assms(4))
qed

lemma delete_file_hop_safe:
  assumes "hop_safe parse w" "json_ext name"
  shows "hop_safe parse (snd (delete_file_then_release_hop parse name w))"
proof (cases rule: remove_file_cases [of name w])
  case 1
  then have "hop_ports_of parse name w = []" by (simp add: hop_ports_of_def read_to_string_def)
  with 1 assms(1) show ?thesis
    by (simp add: delete_file_then_release_hop_def release_hop_ports_def)
next
  case (2 r)
  let ?g = "w\<lparr>nd_removals := nd_removals w + 1, nd_conf := filter (\<lambda>e. de_name e \<noteq> name) (nd_conf w)\<rparr>"
  have "hop_safe parse (release_hop_ports (hop_ports_of parse name w) ?g)"
    using gone_hop_safe [OF assms 2(2) refl] by (intro release_hop_safe)
  with 2 show ?thesis by (auto simp: delete_file_then_release_hop_def)
next
  case (3 err)
  with assms(1) show ?thesis by (simp add: delete_file_then_release_hop_def)
qed

lemma delete_each_hop_safe:
  "hop_safe parse w \<Longrightarrow> list_all json_ext fs \<Longrightarrow> hop_safe parse (snd (delete_each parse fs w))"
proof (induction fs arbitrary: w)
  case (Cons f fs)
  then have "hop_safe parse (snd (delete_file_then_release_hop parse f w))" by (simp add: delete_file_hop_safe)
  with Cons show ?case by (auto split: prod.split) (metis snd_conv)
qed simp

section \<open>Writing and reloading\<close>

text \<open>The printer and parser agree, and what a failed write leaves behind is no document.\<close>

definition io_sound :: "(string \<Rightarrow> json option) \<Rightarrow> (json \<Rightarrow> string) \<Rightarrow> node \<Rightarrow> bool" where
  "io_sound parse pretty w \<longleftrightarrow> (\<forall>j. parse (pretty j) = Some j) \<and> (\<forall>n e c. nd_write w n = Some (e, Some c) \<longrightarrow> parse c = None)"

definition doc_hops :: "json \<Rightarrow> nat list" where
  "doc_hops j = (case Option.bind (jget ''inbounds'' j) as_array of Some is \<Rightarrow> concat (map hop_port is) | None \<Rightarrow> [])"

lemma extract_doc: "parse c = Some j \<Longrightarrow> extract_xray_hy2_hop_ports parse c = doc_hops j"
  by (simp add: extract_xray_hy2_hop_ports_def doc_hops_def)

lemma extract_none: "parse c = None \<Longrightarrow> extract_xray_hy2_hop_ports parse c = []"
  by (simp add: extract_xray_hy2_hop_ports_def)

lemma put_entry_concat:
  "\<exists>xs ys old. concat (map f es) = xs @ old @ ys
     \<and> concat (map f (put_entry name c es)) = xs @ f \<lparr>de_name = name, de_is_file = True, de_content = Some c\<rparr> @ ys
     \<and> old = (case find (\<lambda>e. de_name e = name) es of Some e \<Rightarrow> f e | None \<Rightarrow> [])"
proof (induction es)
  case Nil
  then show ?case by simp
next
  case (Cons e es)
  show ?case
  proof (cases "de_name e = name")
    case True
    then show ?thesis by (intro exI [of _ "[]"] exI [of _ "concat (map f es)"] exI [of _ "f e"]) auto
  next
    case False
    from Cons obtain xs ys old where "concat (map f es) = xs @ old @ ys"
      "concat (map f (put_entry name c es)) = xs @ f \<lparr>de_name = name, de_is_file = True, de_content = Some c\<rparr> @ ys"
      "old = (case find (\<lambda>e. de_name e = name) es of Some e \<Rightarrow> f e | None \<Rightarrow> [])" by blast
    with False show ?thesis by (intro exI [of _ "f e @ xs"] exI [of _ ys] exI [of _ old]) simp
  qed
qed

lemma put_hop_safe:
  assumes "hop_safe parse w" "json_ext name" "w' = w\<lparr>nd_writes := n, nd_conf := put_entry name c (nd_conf w)\<rparr>"
    and new: "distinct N" "set N \<subseteq> tag_locked XRAY_HY2_PROTOCOL (nd_alloc w)"
      "set N \<inter> (set (live parse w) - set (hop_ports_of parse name w)) = {}"
    and N: "extract_xray_hy2_hop_ports parse c = N"
  shows "hop_safe parse w'"
proof -
  obtain xs ys old where s: "concat (map (entry_hops parse) (nd_conf w)) = xs @ old @ ys"
    "concat (map (entry_hops parse) (put_entry name c (nd_conf w))) =
       xs @ entry_hops parse \<lparr>de_name = name, de_is_file = True, de_content = Some c\<rparr> @ ys"
    "old = (case find (\<lambda>e. de_name e = name) (nd_conf w) of Some e \<Rightarrow> entry_hops parse e | None \<Rightarrow> [])"
    using put_entry_concat [of "entry_hops parse" "nd_conf w" name c] by blast
  have live: "live parse w = xs @ old @ ys" "live parse w' = xs @ N @ ys"
    using s(1,2) assms(2,3) N by (simp_all add: live_concat entry_hops_def)
  have old: "old = hop_ports_of parse name w"
    using s(3) assms(2)
    by (auto simp: hop_ports_of_def read_to_string_def entry_named_def entry_hops_def split: option.splits dest: find_Some_P)
  have "set xs \<inter> set N = {}" "set N \<inter> set ys = {}"
    using new(3) assms(1) unfolding old [symmetric] hop_safe_def live by auto
  then show ?thesis
    using assms(1,3) new(1,2) unfolding hop_safe_def live by auto
qed

lemma fs_write_hop_safe:
  assumes "hop_safe parse w" "io_sound parse pretty w" "json_ext name" "doc_hops j = N"
    and "distinct N" "set N \<subseteq> tag_locked XRAY_HY2_PROTOCOL (nd_alloc w)"
      "set N \<inter> (set (live parse w) - set (hop_ports_of parse name w)) = {}"
  shows "hop_safe parse (snd (fs_write name (pretty j) w))"
proof (cases "nd_write w (nd_writes w)")
  case None
  have "extract_xray_hy2_hop_ports parse (pretty j) = N"
    using assms(2,4) by (simp add: extract_doc io_sound_def)
  with None assms show ?thesis
    by (simp add: fs_write_def Let_def put_hop_safe [OF assms(1,3) refl assms(5,6,7)])
next
  case (Some ec)
  obtain e oc where ec: "ec = (e, oc)" by (cases ec)
  show ?thesis
  proof (cases oc)
    case None
    with Some ec assms(1) show ?thesis by (simp add: fs_write_def Let_def)
  next
    case (Some c)
    then have "parse c = None" using assms(2) \<open>nd_write w (nd_writes w) = Some ec\<close> ec by (auto simp: io_sound_def)
    then have "extract_xray_hy2_hop_ports parse c = []" by (rule extract_none)
    from put_hop_safe [OF assms(1,3) refl _ _ _ this]
    show ?thesis using Some ec \<open>nd_write w (nd_writes w) = Some ec\<close> by (simp add: fs_write_def Let_def)
  qed
qed

lemma fs_write_frame [simp]:
  "nd_alloc (snd (fs_write name c w)) = nd_alloc w" "nd_write (snd (fs_write name c w)) = nd_write w"
  by (simp_all add: fs_write_def Let_def split: option.split)

lemma io_sound_frame: "nd_write w' = nd_write w \<Longrightarrow> io_sound parse pretty w \<Longrightarrow> io_sound parse pretty w'"
  by (simp add: io_sound_def)

definition node_sound :: "(string \<Rightarrow> json option) \<Rightarrow> (json \<Rightarrow> string) \<Rightarrow> node \<Rightarrow> bool" where
  "node_sound parse pretty w \<longleftrightarrow> hop_safe parse w \<and> io_sound parse pretty w"

lemma patch_inbounds: "jget ''inbounds'' (snd (patch_direct_outbound_ipv6 c b)) = jget ''inbounds'' c"
  by (cases c; cases "Option.bind (jget ''outbounds'' c) as_array") (auto simp: patch_direct_outbound_ipv6_def Let_def)

lemma ensure_base_sound:
  assumes "node_sound parse pretty w"
  shows "node_sound parse pretty (snd (ensure_base_config parse pretty e w))"
proof -
  have s: "hop_safe parse w" "io_sound parse pretty w" using assms by (auto simp: node_sound_def)
  have ext: "json_ext BASE_NAME" by (simp add: json_ext_def BASE_NAME_def suffix_def)
  have fresh: "hop_safe parse (snd (fs_write BASE_NAME (pretty (base_config b)) w))" for b
    by (rule fs_write_hop_safe [OF s ext, of _ "[]"]) (simp_all add: doc_hops_def base_config_def)
  have patched: "hop_safe parse (snd (fs_write BASE_NAME (pretty (snd (patch_direct_outbound_ipv6 c b))) w))"
    if c: "Option.bind (read_to_string BASE_NAME w) parse = Some c" for c b
  proof (rule fs_write_hop_safe [OF s ext])
    from c obtain body where body: "read_to_string BASE_NAME w = Some body" "parse body = Some c" by (auto simp: bind_eq_Some_conv)
    then have ports: "hop_ports_of parse BASE_NAME w = doc_hops c" by (simp add: hop_ports_of_def extract_doc)
    obtain en where "entry_named BASE_NAME w = Some en" "de_content en = Some body"
      using body(1) by (auto simp: read_to_string_def bind_eq_Some_conv)
    then have "en \<in> set (nd_conf w)" "entry_hops parse en = doc_hops c"
      using ext body(2) by (auto simp: entry_named_def entry_hops_def extract_doc dest: find_Some_P)
    then have sub: "set (doc_hops c) \<subseteq> set (live parse w)" "distinct (doc_hops c)"
      using s(1) by (auto simp: live_concat hop_safe_def distinct_concat_iff)
    show "doc_hops (snd (patch_direct_outbound_ipv6 c b)) = doc_hops c" by (simp add: doc_hops_def patch_inbounds)
    show "distinct (doc_hops c)" "set (doc_hops c) \<subseteq> tag_locked XRAY_HY2_PROTOCOL (nd_alloc w)"
      using sub s(1) by (auto simp: hop_safe_def)
    show "set (doc_hops c) \<inter> (set (live parse w) - set (hop_ports_of parse BASE_NAME w)) = {}"
      by (auto simp: ports)
  qed
  have "hop_safe parse (snd (ensure_base_config parse pretty e w))"
  proof (cases "entry_named BASE_NAME w \<noteq> None \<and> \<not> re_stat_bad e")
    case False
    then show ?thesis using fresh s(1) by (auto simp: ensure_base_config_def split: option.split)
  next
    case True
    show ?thesis
    proof (cases "Option.bind (read_to_string BASE_NAME w) parse")
      case None
      with True s(1) show ?thesis by (simp add: ensure_base_config_def)
    next
      case (Some c)
      with True patched [OF Some, of "re_egress6 e"] s(1) show ?thesis
        by (cases "patch_direct_outbound_ipv6 c (re_egress6 e)"; cases "fst (patch_direct_outbound_ipv6 c (re_egress6 e))")
           (simp_all add: ensure_base_config_def ignoring_def)
    qed
  qed
  moreover have "nd_write (snd (ensure_base_config parse pretty e w)) = nd_write w"
    by (simp add: ensure_base_config_def ignoring_def split: option.split prod.split bool.split)
  ultimately show ?thesis using s(2) by (auto simp: node_sound_def intro: io_sound_frame)
qed

lemma node_sound_fields:
  assumes "nd_conf w' = nd_conf w" "nd_alloc w' = nd_alloc w" "nd_write w' = nd_write w" "node_sound parse pretty w"
  shows "node_sound parse pretty w'"
  using assms hop_safe_fields [OF assms(1,2)] io_sound_frame [OF assms(3)] by (simp add: node_sound_def)

lemma restart_sound: "node_sound parse pretty w \<Longrightarrow> node_sound parse pretty (snd (restart_service s w))"
  by (erule node_sound_fields [rotated 3])
     (simp_all add: restart_service_def run_cmd_checked_def bindE_apply on_fw_def split: prod.split cmd_result.split)

lemma reconcile_sound:
  assumes "node_sound parse pretty w"
  shows "node_sound parse pretty (reconcile_startup_state parse w)"
proof -
  have s: "hop_safe parse w" "io_sound parse pretty w" using assms by (auto simp: node_sound_def)
  let ?w = "reconcile_startup_state parse w"
  have conf: "nd_conf ?w = nd_conf w" "nd_write ?w = nd_write w"
    "nd_alloc ?w = snd (reclaim_orphaned_xray_ranges_at parse (xray_dir w) (nd_alloc w))"
    by (simp_all add: reconcile_startup_state_def ignoring_def sync_firewall_with_configs_def xray_dir_def Let_def)
  have "live parse ?w = live parse w" by (simp add: live_concat conf)
  then have "hop_safe parse ?w"
    using s(1) reclaim_sound [of "nd_alloc w" parse "xray_dir w"] conf(3) by (auto simp: hop_safe_def live_def)
  with s(2) conf(2) show ?thesis by (auto simp: node_sound_def intro: io_sound_frame)
qed

lemma thenE_sound:
  assumes "\<And>w. node_sound parse pretty w \<Longrightarrow> node_sound parse pretty (snd (m w))"
    "\<And>w. node_sound parse pretty w \<Longrightarrow> node_sound parse pretty (snd (k w))" "node_sound parse pretty w"
  shows "node_sound parse pretty (snd (thenE m k w))"
  using assms(1) [OF assms(3)] assms(2)
  by (cases "m w"; cases "fst (m w)") (simp_all add: thenE_apply)

lemma bindE_sound:
  assumes "\<And>w. node_sound parse pretty w \<Longrightarrow> node_sound parse pretty (snd (m w))"
    "\<And>a w. node_sound parse pretty w \<Longrightarrow> node_sound parse pretty (snd (k a w))" "node_sound parse pretty w"
  shows "node_sound parse pretty (snd (bindE m k w))"
  using assms(1) [OF assms(3)] assms(2)
  by (cases "m w"; cases "fst (m w)") (simp_all add: bindE_apply)

lemma reload_sound:
  "node_sound parse pretty w \<Longrightarrow> node_sound parse pretty (snd (maintenance_reload_core parse pretty e w))"
  unfolding maintenance_reload_core_def
  by (intro thenE_sound)
     (auto intro: thenE_sound ensure_base_sound restart_sound reconcile_sound simp: reconcile_sound split: option.split)

section \<open>The firewall synchronisation\<close>

lemma remove_stale_log:
  assumes "p \<notin> set ps"
  shows "\<exists>es. fw_log (remove_stale ps f) = fw_log f @ es \<and> set es \<inter> removal_events p = {}"
  using assms
proof (induction ps arbitrary: f)
  case (Cons q ps)
  obtain es where es: "fw_log (snd (fw_remove_port q f)) = fw_log f @ es" "set es \<subseteq> - removal_events p"
    using adds_remove_port [of q p] Cons.prems unfolding adds_def by auto
  obtain fs where "fw_log (remove_stale ps (snd (fw_remove_port q f))) = fw_log (snd (fw_remove_port q f)) @ fs"
    "set fs \<inter> removal_events p = {}"
    using Cons by auto
  with es show ?case by auto
qed simp

lemma remove_stale_reached:
  "s \<in> set ps \<Longrightarrow> \<exists>f1 qs. remove_stale ps f = remove_stale qs (snd (fw_remove_port s f1))"
  by (induction ps arbitrary: f) auto


text \<open>
  Also: the synchronisation closes an SSH port other than 22: a port that the firewall lists as allowed, that no
  configuration uses and that is not 22 is taken off the firewall, although hardening had opened the port
  found in the SSH server's configuration.
\<close>

theorem sync_closes_custom_ssh:
  assumes "fst (fw_list_allowed_ports (nd_fw w)) = Inr ps" and "s \<in> set ps"
    and "s \<notin> set (collect_all_ports parse w @ box_collect_all_ports parse (nd_box w))" and "s \<noteq> 22"
  shows "\<exists>f1 qs. nd_fw (sync_firewall_with_configs parse w) = remove_stale qs (snd (fw_remove_port s f1))"
proof -
  have "s \<in> set (stale_ports parse w)" using assms by (simp add: stale_ports_def required_ports_def Let_def)
  from remove_stale_reached [OF this] show ?thesis by (simp add: sync_firewall_with_configs_def)
qed

definition bare_node :: "fw_host \<Rightarrow> node" where
  "bare_node f = \<lparr>nd_alloc = sample_alloc default_alloc, nd_fw = f, nd_conf = [], nd_box = NoDir, nd_mtime = (\<lambda>f. None),
     nd_rm = (\<lambda>n. RmOk), nd_removals = 0, nd_write = (\<lambda>n. None), nd_writes = 0, nd_ipv6 = (\<lambda>n. Inl ''none''),
     nd_rng = (\<lambda>n. 20000), nd_drawn = 0\<rparr>"


definition ssh_host :: fw_host where
  "ssh_host = ufw_host\<lparr>fw_cmd := (\<lambda>prog args n. CmdOut (prog = ''ufw'') ''1 ALLOW active'' [])\<rparr>"

lemma ssh_host_ports: "fst (fw_list_allowed_ports ssh_host) = Inr [1]"
proof -
  have w: "split_whitespace ''1 ALLOW active'' = [''1'', ''ALLOW'', ''active'']"
    using split_whitespace_join [of "[''1'', ''ALLOW'', ''active'']"] by (simp add: plain_char_def)
  have "trim ''1 ALLOW active'' = ''1 ALLOW active''" by (rule trim_plain) (simp_all add: plain_char_def)
  moreover have "str_lines ''1 ALLOW active'' = [''1 ALLOW active'']" by (simp add: str_lines_def)
  moreover have "expand_port_entry ''1'' = [1]" "expand_port_entry ''ALLOW'' = []" "expand_port_entry ''active'' = []"
    by (simp_all add: expand_port_entry_def parse_eval)
  ultimately have "parse_ufw_allowed_ports ''1 ALLOW active'' = [1]" using w by (simp add: parse_ufw_allowed_ports_def)
  then show ?thesis
    by (simp add: fw_list_allowed_ports_def with_backend_def detect_backend_def ssh_host_def ufw_host_def run_cmd_output_def
        ufw_list_allowed_ports_def fw_note_def numeral_3_eq_3)
qed

theorem sync_closes_custom_ssh_witness:
  "\<exists>f1 qs. nd_fw (sync_firewall_with_configs (\<lambda>s. None) (bare_node ssh_host)) = remove_stale qs (snd (fw_remove_port 1 f1))"
  using sync_closes_custom_ssh [of "bare_node ssh_host" "[1]" 1 "\<lambda>s. None"] ssh_host_ports
  by (simp add: bare_node_def collect_all_ports_def list_all_inbound_files_def box_collect_all_ports_def)

end
