(* ===== verification/BatchCreate.thy ===== *)
theory BatchCreate
  imports ConfigStore "HOL-Library.Countable"
begin

text \<open>
  Batch creation of inbounds: \<open>core/xray/hysteria2.rs\<close>, \<open>kcp.rs\<close>, \<open>reality.rs\<close>, \<open>xhttp.rs\<close> and the parts of
  \<open>core/xray/config.rs\<close> they share. The search for a random free port may go on for ever, so a creation is
  a partial computation: \<open>None\<close> when such a search does not end. What the creation asks of other parts is in
  \<open>batch_env\<close>: the public addresses, the shared certificate and its pin, the server names the selector
  hands out, passwords, short ids and paths as drawn, the clock, the percent-encoding and the quantum-safe
  keys.
\<close>

section \<open>Computations that may not return\<close>

type_synonym 'a dio = "node \<Rightarrow> ((string + 'a) \<times> node) option"

definition retD :: "'a \<Rightarrow> 'a dio" where
  "retD a w = Some (Inr a, w)"

definition failD :: "string \<Rightarrow> 'a dio" where
  "failD e w = Some (Inl e, w)"

definition liftD :: "(node, 'a) io \<Rightarrow> 'a dio" where
  "liftD m w = Some (m w)"

definition bindD :: "'a dio \<Rightarrow> ('a \<Rightarrow> 'b dio) \<Rightarrow> 'b dio" where
  "bindD m k w =
     (case m w of None \<Rightarrow> None | Some (Inl e, w') \<Rightarrow> Some (Inl e, w') | Some (Inr a, w') \<Rightarrow> k a w')"

definition fromD :: "string + 'a \<Rightarrow> 'a dio" where
  "fromD r = (case r of Inl e \<Rightarrow> failD e | Inr a \<Rightarrow> retD a)"

text \<open>\<open>loop { let p = rng.random_range(10000..60000); ... }\<close>\<close>

partial_function (option) pick_port :: "node \<Rightarrow> (nat \<times> node) option" where
  "pick_port w =
     (let p = nd_rng w (nd_drawn w); w1 = w\<lparr>nd_drawn := nd_drawn w + 1\<rparr>
      in if is_port_in_locked_range p (nd_alloc w1) then pick_port w1
         else (let r = on_fw (is_port_available p) w1 in if fst r then Some (p, snd r) else pick_port (snd r)))"

definition random_port :: "nat dio" where
  "random_port w = map_option (\<lambda>(p, w'). (Inr p, w')) (pick_port w)"

section \<open>The core binary\<close>

definition XRAY_BIN :: string where
  "XRAY_BIN = ''/etc/wwps/wwps-core/wwps-core''"

definition run_wwps_core_cmd :: "string list \<Rightarrow> (node, string) io" where
  "run_wwps_core_cmd args w =
     (case on_fw (run_cmd_output XRAY_BIN args) w of
        (CmdErr e, w') \<Rightarrow> (Inl e, w')
      | (CmdOut ok out err, w') \<Rightarrow> if ok then (Inr out, w') else (Inl (''wwps-core: '' @ err), w'))"

definition generate_wwps_uuid :: "(node, string) io" where
  "generate_wwps_uuid = bindE (run_wwps_core_cmd [''uuid'']) (\<lambda>out. retE (trim out))"

definition generate_wwps_x25519 :: "(node, string \<times> string) io" where
  "generate_wwps_x25519 =
     bindE (run_wwps_core_cmd [''x25519'']) (\<lambda>out. case parse_x25519 out of Inl e \<Rightarrow> failE e | Inr ks \<Rightarrow> retE ks)"

definition generate_vless_encryption_keys :: "(node, string \<times> string) io" where
  "generate_vless_encryption_keys =
     bindE (run_wwps_core_cmd [''vlessenc'']) (\<lambda>out. case parse_vlessenc out of Inl e \<Rightarrow> failE e | Inr ks \<Rightarrow> retE ks)"

definition generate_secure_batch_filename :: "proto \<Rightarrow> (node, string) io" where
  "generate_secure_batch_filename p =
     bindE generate_wwps_uuid (\<lambda>uuid. retE (batch_file_prefix p @ ''_'' @ uuid_short_prefix uuid @ ''_inbounds.json''))"

section \<open>What creation relies on\<close>

record batch_env =
  be_parse :: "string \<Rightarrow> json option"
  be_pretty :: "json \<Rightarrow> string"
  be_compact :: "json \<Rightarrow> string"
  be_pct :: "string \<Rightarrow> string"
  be_reload :: reload_env
  be_ipv4 :: "string + string"
  be_ipv6 :: "string + string"
  be_tls :: "string + unit"
  be_pin :: "string + string"
  be_card :: "nat \<Rightarrow> string \<times> bool"
  be_auth :: "nat \<Rightarrow> string"
  be_obfs_pw :: "nat \<Rightarrow> string"
  be_short_id :: "nat \<Rightarrow> string"
  be_path :: "nat \<Rightarrow> string"
  be_now :: "nat \<Rightarrow> int"
  be_pq_seed :: string
  be_pq_verify :: "string option"

definition create_standalone_config ::
  "batch_env \<Rightarrow> json list \<Rightarrow> string list \<Rightarrow> proto \<Rightarrow> (node, batch_creation_result) io" where
  "create_standalone_config e configs links p =
     bindE (generate_secure_batch_filename p) (\<lambda>filename.
       thenE (fs_write filename (be_pretty e (JObj [(''inbounds'', JArr configs)])))
         (thenE (maintenance_reload_core (be_parse e) (be_pretty e) (be_reload e))
            (retE \<lparr>br_links = links, br_config_file = Some filename, br_backup_file = None, br_created_count = length configs\<rparr>)))"

definition create_xdrive_node :: "batch_env \<Rightarrow> xdrive_config \<Rightarrow> string \<Rightarrow> batch_creation_result dio" where
  "create_xdrive_node e xd email =
     bindD (liftD generate_wwps_uuid) (\<lambda>uuid.
       bindD (liftD generate_vless_encryption_keys) (\<lambda>(decryption, encryption).
         bindD random_port (\<lambda>port.
           let tag = ''XDRIVE-'' @ uuid_short_prefix uuid
           in liftD (create_standalone_config e [build_xdrive_vless_inbound tag uuid email port xd decryption]
                [generate_xdrive_client_link (be_pct e) uuid email port xd encryption] XDrive))))"

definition allow_port :: "nat \<Rightarrow> node \<Rightarrow> node" where
  "allow_port p = ignoring (on_fw (fw_add_port p))"

section \<open>Hysteria2\<close>

definition batch_file_delta :: "nat \<Rightarrow> nat" where
  "batch_file_delta n = (if n > 0 then 1 else 0)"

definition check_xray_hysteria2_capacity :: "nat \<Rightarrow> nat \<Rightarrow> string + unit" where
  "check_xray_hysteria2_capacity existing requested =
     (if min (existing + requested) (2 ^ 64 - 1) > 50 then Inl ''limit reached'' else Inr ())"

definition ensure_hop_redirect :: "string \<Rightarrow> nat \<Rightarrow> string \<Rightarrow> node \<Rightarrow> node" where
  "ensure_hop_redirect bin main_port range_str w =
     (let rule = [''-t'', ''nat''] @ redirect_rule range_str main_port;
          (r, w1) = on_fw (run_cmd_output bin ([''-C'', ''PREROUTING''] @ rule)) w
      in if (case r of CmdOut ok _ _ \<Rightarrow> ok | CmdErr _ \<Rightarrow> False) then w1
         else ignoring (on_fw (run_cmd_output bin ([''-A'', ''PREROUTING''] @ rule))) w1)"

definition add_xray_hop_firewall_rules :: "nat \<Rightarrow> nat \<times> nat \<Rightarrow> bool \<Rightarrow> node \<Rightarrow> node" where
  "add_xray_hop_firewall_rules main_port hop v6 w =
     (let w1 = ensure_hop_redirect ''iptables'' main_port (nat_range hop) w
      in if v6 then ensure_hop_redirect ''ip6tables'' main_port (nat_range hop) w1 else w1)"

definition hy2_port :: "batch_env \<Rightarrow> bool \<Rightarrow> nat \<Rightarrow> (nat \<times> nat \<times> nat) dio" where
  "hy2_port e hopping i =
     (if hopping
      then liftD (\<lambda>w. on_alloc (allocate_xray_hysteria2_at (be_now e i) (xray_dir w) (nd_box w)) w)
      else bindD random_port (\<lambda>p. retD (p, p, p)))"

definition hy2_open :: "bool \<Rightarrow> nat \<Rightarrow> nat \<times> nat \<Rightarrow> node \<Rightarrow> node" where
  "hy2_open hopping port hop w =
     (let w1 = allow_port port w
      in if hopping then
           (let w2 = ignoring (on_fw (allow_port_range (fst hop) (snd hop))) w1;
                v6 = has_ipv6 w2;
                w3 = (if v6 then ignoring (on_fw (allow_port_range_v6 (fst hop) (snd hop))) w2 else w2)
            in add_xray_hop_firewall_rules port hop v6 w3)
         else w1)"

text \<open>The \<open>for i in 0..count\<close> loops: \<open>i\<close> counts up, the next argument counts what is left.\<close>

fun hy2_nodes ::
  "batch_env \<Rightarrow> ip_version \<Rightarrow> hysteria2_obfs_type option \<Rightarrow> bool \<Rightarrow> hy2_link_style \<Rightarrow> string \<Rightarrow> string
     \<Rightarrow> nat \<Rightarrow> nat \<Rightarrow> json list \<times> string list \<Rightarrow> (json list \<times> string list) dio" where
  "hy2_nodes e v obfs_type hopping style host pin i 0 acc = retD acc"
| "hy2_nodes e v obfs_type hopping style host pin i (Suc n) acc =
     bindD (hy2_port e hopping i) (\<lambda>(port, hop).
       bindD (liftD generate_wwps_uuid) (\<lambda>uuid.
         let short = uuid_short_prefix uuid; sni = fst (be_card e i);
             email = short @ ''-hysteria2''; tag = ''HY2-'' @ nat_str (i + 1) @ ''-'' @ short;
             obfs = map_option (\<lambda>t. (t, be_obfs_pw e i)) obfs_type;
             link_hop = (if hopping then Some hop else None);
             config = build_hysteria2_inbound tag (int port) (be_auth e i) email sni v obfs link_hop;
             link = generate_hysteria2_client_link (be_pct e) (be_auth e i) host (int port) sni email v pin obfs link_hop style
         in (\<lambda>w. hy2_nodes e v obfs_type hopping style host pin (i + 1) n (fst acc @ [config], snd acc @ [link])
                   (hy2_open hopping port hop w))))"

definition batch_create_hysteria2_xray ::
  "batch_env \<Rightarrow> nat \<Rightarrow> ip_version \<Rightarrow> hysteria2_obfs_type option \<Rightarrow> bool \<Rightarrow> hy2_link_style \<Rightarrow> batch_creation_result dio" where
  "batch_create_hysteria2_xray e n v obfs_type hopping style w =
     bindD (fromD (check_xray_hysteria2_capacity (length (list_inbound_files_by_proto Hysteria2 w)) (batch_file_delta n))) (\<lambda>_.
       bindD (fromD (be_tls e)) (\<lambda>_. bindD (fromD (be_pin e)) (\<lambda>pin.
         bindD (fromD (resolve_public_hosts v (be_ipv4 e) (be_ipv6 e))) (\<lambda>(host, _).
           bindD (hy2_nodes e v obfs_type hopping style host pin 0 n ([], [])) (\<lambda>(configs, links).
             liftD (create_standalone_config e configs links Hysteria2)))))) w"

section \<open>mKCP\<close>

fun kcp_nodes ::
  "batch_env \<Rightarrow> ip_version \<Rightarrow> kcp_mask list \<Rightarrow> string \<Rightarrow> string \<Rightarrow> nat \<Rightarrow> nat \<Rightarrow> json list \<times> string list \<Rightarrow> (json list \<times> string list) dio" where
  "kcp_nodes e v masks host pin i 0 acc = retD acc"
| "kcp_nodes e v masks host pin i (Suc n) acc =
     bindD random_port (\<lambda>port.
       bindD (liftD generate_wwps_uuid) (\<lambda>uuid.
         let short = uuid_short_prefix uuid;
             email = short @ ''-vless-kcp-'' @ join ''+'' (map type_str masks); tag = ''KCP-'' @ nat_str (i + 1) @ ''-'' @ short;
             config = build_kcp_inbound tag (int port) uuid email v masks;
             link = generate_kcp_client_link (be_pct e) (be_compact e) uuid host (int port) email v masks pin
         in (\<lambda>w. kcp_nodes e v masks host pin (i + 1) n (fst acc @ [config], snd acc @ [link]) (allow_port port w))))"

definition batch_create_kcp :: "batch_env \<Rightarrow> nat \<Rightarrow> ip_version \<Rightarrow> string list \<Rightarrow> batch_creation_result dio" where
  "batch_create_kcp e n v codes =
     bindD (fromD (parse_codes (be_auth e) codes)) (\<lambda>masks.
       bindD (fromD (be_tls e)) (\<lambda>_. bindD (fromD (be_pin e)) (\<lambda>pin.
         bindD (fromD (resolve_public_hosts v (be_ipv4 e) (be_ipv6 e))) (\<lambda>(host, _).
           bindD (kcp_nodes e v masks host pin 0 n ([], [])) (\<lambda>(configs, links).
             liftD (create_standalone_config e configs links Kcp))))))"

section \<open>Reality\<close>

definition preferred_or_random :: "nat option \<Rightarrow> nat dio" where
  "preferred_or_random preferred w =
     (case preferred of
        None \<Rightarrow> random_port w
      | Some p \<Rightarrow> (case on_fw (is_port_available p) w of (True, w1) \<Rightarrow> Some (Inr p, w1) | (False, w1) \<Rightarrow> random_port w1))"

definition reality_suffix :: "proto \<Rightarrow> string" where
  "reality_suffix p = (case p of Vision \<Rightarrow> ''vless_reality_vision'' | XHTTP \<Rightarrow> ''vless_xhttp_reality'' | Kcp \<Rightarrow> ''vless_kcp''
     | Hysteria2 \<Rightarrow> ''hysteria2'' | XDrive \<Rightarrow> ''vless_xdrive'')"

definition reality_label :: "proto \<Rightarrow> string" where
  "reality_label p = (case p of Vision \<Rightarrow> ''VLESS'' | XHTTP \<Rightarrow> ''XHTTP'' | Kcp \<Rightarrow> ''KCP'' | Hysteria2 \<Rightarrow> ''HY2'' | XDrive \<Rightarrow> ''XDRIVE'')"

record enhanced =
  en_port :: nat
  en_uuid :: string
  en_priv :: string
  en_pub :: string
  en_short_id :: string
  en_email :: string
  en_tag :: string
  en_path :: "string option"

definition generate_enhanced_config :: "batch_env \<Rightarrow> nat \<Rightarrow> proto \<Rightarrow> nat option \<Rightarrow> enhanced dio" where
  "generate_enhanced_config e i p preferred =
     bindD (preferred_or_random preferred) (\<lambda>port.
       bindD (liftD generate_wwps_uuid) (\<lambda>uuid. bindD (liftD generate_wwps_x25519) (\<lambda>(priv, pub).
         let short = uuid_short_prefix uuid
         in retD \<lparr>en_port = port, en_uuid = uuid, en_priv = priv, en_pub = pub, en_short_id = be_short_id e i,
              en_email = short @ ''-'' @ reality_suffix p, en_tag = reality_label p @ ''-'' @ short @ ''-'' @ nat_str i,
              en_path = (if p = XHTTP then Some (be_path e i) else None)\<rparr>)))"

text \<open>The loops of the two Reality batches differ in the protocol, in when port 443 is preferred and in the
  secondary host of the link. An \<open>unreachable!\<close> panics.\<close>

fun reality_nodes ::
  "batch_env \<Rightarrow> ip_version \<Rightarrow> proto \<Rightarrow> string \<Rightarrow> string option \<Rightarrow> bool \<Rightarrow> nat \<Rightarrow> nat \<Rightarrow> json list \<times> string list
     \<Rightarrow> (json list \<times> string list) dio" where
  "reality_nodes e v p host secondary first_443 i 0 acc = retD acc"
| "reality_nodes e v p host secondary first_443 i (Suc n) acc =
     bindD (generate_enhanced_config e i p (if first_443 \<and> i = 0 then Some 443 else None)) (\<lambda>c.
       case (build_reality_vless_inbound (be_pq_seed e) (en_tag c) (int (en_port c)) (en_uuid c) (en_email c) (fst (be_card e i))
               (en_priv c) (en_short_id c) v p (en_path c) (snd (be_card e i)),
             generate_client_link (be_pct e) (be_compact e) (be_pq_verify e) (en_uuid c) host (int (en_port c)) (fst (be_card e i))
               (en_pub c) (en_short_id c) (en_email c) v p (en_path c) secondary (snd (be_card e i))) of
         (Some config, Some link) \<Rightarrow>
           (\<lambda>w. reality_nodes e v p host secondary first_443 (i + 1) n (fst acc @ [config], snd acc @ [link]) (allow_port (en_port c) w))
       | _ \<Rightarrow> failD ''panic: unreachable'')"

definition batch_create_reality_vision_enhanced :: "batch_env \<Rightarrow> nat \<Rightarrow> ip_version \<Rightarrow> batch_creation_result dio" where
  "batch_create_reality_vision_enhanced e n v =
     bindD (fromD (resolve_public_hosts v (be_ipv4 e) (be_ipv6 e))) (\<lambda>(host, _).
       bindD (\<lambda>w. case on_fw (is_port_available 443) w of (b, w1) \<Rightarrow> Some (Inr b, w1)) (\<lambda>free.
         bindD (reality_nodes e v Vision host None free 0 n ([], [])) (\<lambda>(configs, links).
           liftD (create_standalone_config e configs links Vision))))"

definition batch_create_xhttp_reality_enhanced :: "batch_env \<Rightarrow> nat \<Rightarrow> ip_version \<Rightarrow> bool \<Rightarrow> batch_creation_result dio" where
  "batch_create_xhttp_reality_enhanced e n v prefer_443 =
     bindD (fromD (resolve_public_hosts v (be_ipv4 e) (be_ipv6 e))) (\<lambda>(host, secondary).
       bindD (\<lambda>w. case on_fw (is_port_available 443) w of (b, w1) \<Rightarrow> Some (Inr b, w1)) (\<lambda>free.
         bindD (reality_nodes e v XHTTP host secondary (prefer_443 \<and> free) 0 n ([], [])) (\<lambda>(configs, links).
           liftD (create_standalone_config e configs links XHTTP))))"

section \<open>XHTTP over TLS\<close>

fun tls_nodes ::
  "batch_env \<Rightarrow> ip_version \<Rightarrow> string \<Rightarrow> cert_paths \<Rightarrow> nat \<Rightarrow> nat list \<Rightarrow> json list \<times> string list \<Rightarrow> (json list \<times> string list) dio" where
  "tls_nodes e v domain certs i [] acc = retD acc"
| "tls_nodes e v domain certs i (cdn_port # ports) acc =
     bindD (preferred_or_random (Some cdn_port)) (\<lambda>port.
       bindD (liftD generate_wwps_uuid) (\<lambda>uuid.
         case build_tls_xhttp_node (be_pct e) i (int port) uuid domain certs v (be_path e i) of
           (config, link) \<Rightarrow>
             (\<lambda>w. tls_nodes e v domain certs (i + 1) ports (fst acc @ [config], snd acc @ [link]) (allow_port cdn_port w))))"

text \<open>\<open>provider\<close> is what \<open>AcmeManager\<close> answers for the domain: invalid, no credentials, or a provider.\<close>

definition batch_create_xhttp_tls_enhanced ::
  "batch_env \<Rightarrow> string + dns_provider option \<Rightarrow> string \<Rightarrow> cert_paths \<Rightarrow> ip_version \<Rightarrow> batch_creation_result dio" where
  "batch_create_xhttp_tls_enhanced e provider domain certs v =
     bindD (fromD provider) (\<lambda>prov.
       let ports = (case prov of Some p \<Rightarrow> cdn_ports p | None \<Rightarrow> [])
       in if ports = [] then failD ''no CDN provider configured for domain''
          else bindD (tls_nodes e v domain certs 0 ports ([], [])) (\<lambda>(configs, links).
                 liftD (create_standalone_config e configs links XHTTP)))"

section \<open>The search for a port\<close>

lemma on_fw_rng [simp]:
  "nd_rng (snd (on_fw m w)) = nd_rng w" "nd_drawn (snd (on_fw m w)) = nd_drawn w"
  by (simp_all add: on_fw_def split: prod.split)

text \<open>What a search leaves alone and what it finds.\<close>

definition port_found :: "node \<Rightarrow> nat \<times> node \<Rightarrow> bool" where
  "port_found w r \<longleftrightarrow> nd_conf (snd r) = nd_conf w \<and> nd_alloc (snd r) = nd_alloc w \<and> nd_write (snd r) = nd_write w
    \<and> nd_rng (snd r) = nd_rng w \<and> \<not> is_port_in_locked_range (fst r) (nd_alloc w) \<and> (\<exists>k \<ge> nd_drawn w. fst r = nd_rng w k)"

lemma port_found_later:
  assumes "port_found w1 r" "nd_conf w1 = nd_conf w" "nd_alloc w1 = nd_alloc w" "nd_write w1 = nd_write w" "nd_rng w1 = nd_rng w"
    "nd_drawn w1 = Suc (nd_drawn w)"
  shows "port_found w r"
proof -
  obtain k where "nd_drawn w1 \<le> k" "fst r = nd_rng w1 k" using assms(1) by (auto simp: port_found_def)
  then have "nd_drawn w \<le> k \<and> fst r = nd_rng w k" using assms(5,6) by simp
  with assms show ?thesis by (auto simp: port_found_def)
qed

lemma pick_port_found:
  assumes "pick_port w = Some y"
  shows "port_found w y"
  using assms
proof (rule pick_port.raw_induct [rotated])
  fix pp w y
  assume IH: "\<And>x y. pp x = Some y \<Longrightarrow> port_found x y"
    and step: "(let p = nd_rng w (nd_drawn w); w1 = w\<lparr>nd_drawn := nd_drawn w + 1\<rparr>
      in if is_port_in_locked_range p (nd_alloc w1) then pp w1
         else (let r = on_fw (is_port_available p) w1 in if fst r then Some (p, snd r) else pp (snd r))) = Some y"
  let ?p = "nd_rng w (nd_drawn w)" and ?w = "w\<lparr>nd_drawn := nd_drawn w + 1\<rparr>"
  let ?r = "on_fw (is_port_available ?p) ?w"
  note step = step [unfolded Let_def]
  show "port_found w y"
  proof (cases "is_port_in_locked_range ?p (nd_alloc w)")
    case True
    then have "pp ?w = Some y" using step by simp
    then have "port_found ?w y" by (rule IH)
    then show ?thesis by (rule port_found_later) simp_all
  next
    case unlocked: False
    show ?thesis
    proof (cases "fst ?r")
      case True
      then have "y = (?p, snd ?r)" using step unlocked by simp
      with unlocked show ?thesis by (auto simp: port_found_def intro: exI [of _ "nd_drawn w"])
    next
      case False
      then have "pp (snd ?r) = Some y" using step unlocked by simp
      then have "port_found (snd ?r) y" by (rule IH)
      then show ?thesis by (rule port_found_later) simp_all
    qed
  qed
qed

text \<open>A draw that is unlocked and that \<open>netstat\<close> never lists ends the search.\<close>

definition never_listed :: "fw_host \<Rightarrow> nat \<Rightarrow> bool" where
  "never_listed f p \<longleftrightarrow> (\<forall>n. case fw_cmd f ''netstat'' [''-tunlp''] n of
     CmdOut _ out _ \<Rightarrow> \<not> contains_str ('':'' @ nat_str p) out | CmdErr _ \<Rightarrow> True)"

lemma never_listed_avail: "never_listed f p \<Longrightarrow> fst (is_port_available p f)"
  unfolding never_listed_def is_port_available_def run_cmd_output_def
  by (drule spec [of _ "length (fw_log f)"]) (simp split: cmd_result.splits)

lemma pick_port_returns:
  assumes "nd_rng w (nd_drawn w + k) = p" "\<not> is_port_in_locked_range p (nd_alloc w)" "never_listed (nd_fw w) p"
  shows "\<exists>q w'. pick_port w = Some (q, w')"
  using assms
proof (induction k arbitrary: w)
  case 0
  then have "fst (on_fw (is_port_available p) (w\<lparr>nd_drawn := nd_drawn w + 1\<rparr>))"
    by (simp add: on_fw_def never_listed_avail split: prod.split)
       (metis fst_conv never_listed_avail)
  with 0 show ?case by (subst pick_port.simps) (simp add: Let_def)
next
  case (Suc k)
  let ?q = "nd_rng w (nd_drawn w)" and ?w = "w\<lparr>nd_drawn := nd_drawn w + 1\<rparr>"
  let ?r = "on_fw (is_port_available ?q) ?w"
  have cmd: "fw_cmd (nd_fw (snd ?r)) = fw_cmd (nd_fw w)"
    by (simp add: on_fw_def is_port_available_def run_cmd_output_def fw_note_def split: cmd_result.split)
  have "\<exists>q w'. pick_port ?w = Some (q, w')" by (rule Suc.IH) (use Suc.prems in simp_all)
  moreover have "\<exists>q w'. pick_port (snd ?r) = Some (q, w')"
    by (rule Suc.IH) (use Suc.prems cmd in \<open>simp_all add: never_listed_def\<close>)
  ultimately show ?case by (subst pick_port.simps) (auto simp: Let_def)
qed

section \<open>Creation keeps the store sound\<close>

definition hops :: "json list \<Rightarrow> nat list" where
  "hops cs = concat (map hop_port cs)"

text \<open>The state while a batch is put together: its hop ranges are locked and no live file has them yet.\<close>

definition batching :: "batch_env \<Rightarrow> json list \<Rightarrow> node \<Rightarrow> bool" where
  "batching e cs w \<longleftrightarrow> node_sound (be_parse e) (be_pretty e) w \<and> distinct (hops cs)
     \<and> set (hops cs) \<subseteq> tag_locked XRAY_HY2_PROTOCOL (nd_alloc w) \<and> set (hops cs) \<inter> set (live (be_parse e) w) = {}"

lemma batching_sound: "batching e cs w \<Longrightarrow> node_sound (be_parse e) (be_pretty e) w"
  by (simp add: batching_def)

lemma batching_start: "node_sound (be_parse e) (be_pretty e) w \<Longrightarrow> batching e [] w"
  by (simp add: batching_def hops_def)

lemma batching_plain: "batching e cs w \<Longrightarrow> hop_port c = [] \<Longrightarrow> batching e (cs @ [c]) w"
  by (simp add: batching_def hops_def)

definition same_store :: "node \<Rightarrow> node \<Rightarrow> bool" where
  "same_store w w' \<longleftrightarrow> nd_conf w' = nd_conf w \<and> nd_alloc w' = nd_alloc w \<and> nd_write w' = nd_write w"

lemma same_store_trans: "same_store w w1 \<Longrightarrow> same_store w1 w2 \<Longrightarrow> same_store w w2"
  by (simp add: same_store_def)

lemma batching_same: "same_store w w' \<Longrightarrow> batching e cs w \<Longrightarrow> batching e cs w'"
  using node_sound_fields [of w' w] by (auto simp: batching_def same_store_def live_concat)

lemma same_store_fw [simp]: "same_store w (snd (on_fw m w))"
  by (simp add: same_store_def)

lemma same_store_core: "same_store w (snd (run_wwps_core_cmd args w))"
proof -
  obtain x w1 where o: "on_fw (run_cmd_output XRAY_BIN args) w = (x, w1)" by (cases "on_fw (run_cmd_output XRAY_BIN args) w")
  then have "same_store w w1" using same_store_fw [of w "run_cmd_output XRAY_BIN args"] by simp
  with o show ?thesis by (simp add: run_wwps_core_cmd_def split: cmd_result.split)
qed

lemma same_store_bindE:
  assumes "same_store w (snd (m w))" "\<And>a w. same_store w (snd (k a w))"
  shows "same_store w (snd (bindE m k w))"
  using assms(1) assms(2) [of "snd (m w)"]
  by (cases "m w"; cases "fst (m w)") (auto simp: bindE_apply intro: same_store_trans)

lemma same_store_keys:
  "same_store w (snd (generate_wwps_uuid w))" "same_store w (snd (generate_wwps_x25519 w))"
  "same_store w (snd (generate_vless_encryption_keys w))" "same_store w (snd (generate_secure_batch_filename p w))"
  unfolding generate_wwps_uuid_def generate_wwps_x25519_def generate_vless_encryption_keys_def generate_secure_batch_filename_def
  by (intro same_store_bindE same_store_core; simp add: same_store_def split: sum.split)+

lemma same_store_open: "same_store w (allow_port p w)" "same_store w (hy2_open hopping p r w)"
  by (simp_all add: allow_port_def hy2_open_def add_xray_hop_firewall_rules_def ensure_hop_redirect_def ignoring_def Let_def
      same_store_def split: prod.split) (simp_all add: on_fw_def split: prod.split)

text \<open>A Hoare triple for computations that may not return or may fail; after a failure the store is sound.\<close>

definition triple :: "batch_env \<Rightarrow> (node \<Rightarrow> bool) \<Rightarrow> 'a dio \<Rightarrow> ('a \<Rightarrow> node \<Rightarrow> bool) \<Rightarrow> bool" where
  "triple e P m Q \<longleftrightarrow> (\<forall>w r w'. P w \<longrightarrow> m w = Some (r, w') \<longrightarrow>
     (case r of Inl _ \<Rightarrow> node_sound (be_parse e) (be_pretty e) w' | Inr a \<Rightarrow> Q a w'))"

lemma tripleD: "triple e P m Q \<Longrightarrow> P w \<Longrightarrow> m w = Some (Inr a, w') \<Longrightarrow> Q a w'"
  "triple e P m Q \<Longrightarrow> P w \<Longrightarrow> m w = Some (Inl x, w') \<Longrightarrow> node_sound (be_parse e) (be_pretty e) w'"
  by (force simp: triple_def)+

lemma triple_bindD:
  assumes "triple e P m Q" "\<And>a. triple e (Q a) (k a) R"
  shows "triple e P (bindD m k) R"
  unfolding triple_def
proof (intro allI impI)
  fix w r w'
  assume P: "P w" and r: "bindD m k w = Some (r, w')"
  then obtain r1 w1 where m: "m w = Some (r1, w1)" by (auto simp: bindD_def split: option.splits)
  show "case r of Inl _ \<Rightarrow> node_sound (be_parse e) (be_pretty e) w' | Inr a \<Rightarrow> R a w'"
  proof (cases r1)
    case (Inl x)
    then have "r = Inl x" "w' = w1" using r m by (simp_all add: bindD_def)
    with tripleD(2) [OF assms(1) P] m Inl show ?thesis by simp
  next
    case (Inr a)
    then have "k a w1 = Some (r, w')" using r m by (simp add: bindD_def)
    moreover have "Q a w1" using tripleD(1) [OF assms(1) P] m Inr by simp
    ultimately show ?thesis using assms(2) [of a] by (auto simp: triple_def)
  qed
qed

lemma triple_retD: "(\<And>w. P w \<Longrightarrow> Q a w) \<Longrightarrow> triple e P (retD a) Q"
  by (simp add: triple_def retD_def)

lemma triple_failD: "(\<And>w. P w \<Longrightarrow> node_sound (be_parse e) (be_pretty e) w) \<Longrightarrow> triple e P (failD x) Q"
  by (simp add: triple_def failD_def)

lemma triple_fromD: "triple e (batching e cs) (fromD r) (\<lambda>_. batching e cs)"
  by (cases r) (auto simp: fromD_def intro: triple_failD triple_retD batching_sound)

lemma triple_after: "(\<And>w. same_store w (f w)) \<Longrightarrow> triple e (batching e cs) m Q \<Longrightarrow> triple e (batching e cs) (\<lambda>w. m (f w)) Q"
  using batching_same unfolding triple_def by blast

lemma triple_stable:
  assumes "\<And>w. same_store w (snd (m w))" "\<And>w w'. same_store w w' \<Longrightarrow> P w \<Longrightarrow> P w'"
    "\<And>w. P w \<Longrightarrow> node_sound (be_parse e) (be_pretty e) w"
  shows "triple e P (liftD m) (\<lambda>_. P)"
  unfolding triple_def
proof (intro allI impI)
  fix w r w'
  assume "P w" "liftD m w = Some (r, w')"
  then have "w' = snd (m w)" by (simp add: liftD_def)
  then have "P w'" using assms(1,2) \<open>P w\<close> by blast
  then show "case r of Inl _ \<Rightarrow> node_sound (be_parse e) (be_pretty e) w' | Inr a \<Rightarrow> P w'"
    using assms(3) by (simp split: sum.split)
qed

lemma triple_io: "(\<And>w. same_store w (snd (m w))) \<Longrightarrow> triple e (batching e cs) (liftD m) (\<lambda>_. batching e cs)"
  by (rule triple_stable) (auto intro: batching_same batching_sound)

lemma triple_random: "triple e (batching e cs) random_port (\<lambda>_. batching e cs)"
proof -
  have "same_store w w'" if "pick_port w = Some (p, w')" for p w w'
    using pick_port_found [OF that] by (simp add: port_found_def same_store_def)
  then have "batching e cs w'" if "batching e cs w" "pick_port w = Some (p, w')" for p w w'
    using that batching_same by blast
  then show ?thesis unfolding triple_def random_port_def by auto
qed

lemma triple_preferred: "triple e (batching e cs) (preferred_or_random p) (\<lambda>_. batching e cs)"
proof (cases p)
  case None
  then show ?thesis using triple_random [of e cs] by (simp add: preferred_or_random_def [abs_def])
next
  case (Some q)
  have "batching e cs w1" if "batching e cs w" "on_fw (is_port_available q) w = (b, w1)" for w b w1
    using that same_store_fw [of w "is_port_available q"] by (auto intro: batching_same)
  with Some triple_random [of e cs] show ?thesis
    unfolding triple_def preferred_or_random_def by (auto split: prod.splits bool.splits)
qed

text \<open>Only hopping Hysteria2 inbounds own ranges.\<close>

lemma no_hop_kcp: "hop_port (build_kcp_inbound tag p uuid email v masks) = []"
  by (simp add: hop_port_def build_kcp_inbound_def)

lemma no_hop_reality: "build_reality_vless_inbound seed tag p uuid email sni k sid v pr path pq = Some inb \<Longrightarrow> hop_port inb = []"
  by (cases pr) (auto simp: hop_port_def build_reality_vless_inbound_def Let_def)

lemma no_hop_tls: "hop_port (fst (build_tls_xhttp_node pct i p uuid domain certs v path)) = []"
  by (simp add: build_tls_xhttp_node_def hop_port_def build_tls_xhttp_inbound_def Let_def)

lemma hop_hy2:
  assumes "p \<le> 59900"
  shows "hop_port (build_hysteria2_inbound tag (int p) auth email sni v obfs hop) = (if hop = None then [] else [p])"
  using assms by (cases hop) (auto simp: hop_port_def build_hysteria2_inbound_def hy2_finalmask_def split: option.split)

definition hy2_ready :: "batch_env \<Rightarrow> json list \<Rightarrow> bool \<Rightarrow> nat \<times> nat \<times> nat \<Rightarrow> node \<Rightarrow> bool" where
  "hy2_ready e cs hopping ph w \<longleftrightarrow> batching e cs w \<and> (\<forall>tag auth email sni v obfs.
     batching e (cs @ [build_hysteria2_inbound tag (int (fst ph)) auth email sni v obfs (if hopping then Some (snd ph) else None)]) w)"

lemma hy2_ready_plain: "batching e cs w \<Longrightarrow> hy2_ready e cs False ph w"
proof -
  have "hop_port (build_hysteria2_inbound tag p auth email sni v obfs None) = []" for tag p auth email sni v obfs
    by (simp add: hop_port_def build_hysteria2_inbound_def hy2_finalmask_def split: option.split)
  then show "batching e cs w \<Longrightarrow> hy2_ready e cs False ph w"
    by (simp add: hy2_ready_def batching_plain)
qed

lemma hy2_ready_sound: "hy2_ready e cs hopping ph w \<Longrightarrow> node_sound (be_parse e) (be_pretty e) w"
  by (auto simp: hy2_ready_def dest: batching_sound)

lemma hy2_ready_step:
  "hy2_ready e cs hopping ph w \<Longrightarrow>
     batching e (cs @ [build_hysteria2_inbound tag (int (fst ph)) auth email sni v obfs (if hopping then Some (snd ph) else None)]) w"
  unfolding hy2_ready_def by blast

lemma hy2_ready_same: "same_store w w' \<Longrightarrow> hy2_ready e cs hopping ph w \<Longrightarrow> hy2_ready e cs hopping ph w'"
  by (auto simp: hy2_ready_def intro: batching_same)

lemma triple_hy2_port: "triple e (batching e cs) (hy2_port e hopping i) (hy2_ready e cs hopping)"
proof (cases hopping)
  case False
  then show ?thesis
    unfolding hy2_port_def by (auto intro!: triple_bindD [OF triple_random] triple_retD hy2_ready_plain)
next
  case True
  show ?thesis
    unfolding triple_def
  proof (intro allI impI)
    fix w r w'
    assume b: "batching e cs w" and "hy2_port e hopping i w = Some (r, w')"
    then have "on_alloc (allocate_xray_hysteria2_at (be_now e i) (xray_dir w) (nd_box w)) w = (r, w')"
      using True by (simp add: hy2_port_def liftD_def)
    then obtain a where a: "allocate_tagged XRAY_HY2_PROTOCOL (be_now e i) (xray_dir w) (nd_box w) (nd_alloc w) = (r, a)"
      "w' = w\<lparr>nd_alloc := a\<rparr>"
      by (auto simp: on_alloc_def allocate_xray_hysteria2_at_def split: prod.splits)
    have s: "hop_safe (be_parse e) w" "alloc_sound (nd_alloc w)" "io_sound (be_parse e) (be_pretty e) w"
      using b by (auto simp: batching_def node_sound_def hop_safe_def)
    note sound = allocate_sound [OF s(2) a(1)]
    have live: "live (be_parse e) w' = live (be_parse e) w" by (simp add: a(2) live_concat)
    have io: "io_sound (be_parse e) (be_pretty e) w'" using s(3) a(2) by (simp add: io_sound_def)
    show "case r of Inl _ \<Rightarrow> node_sound (be_parse e) (be_pretty e) w' | Inr ph \<Rightarrow> hy2_ready e cs hopping ph w'"
    proof (cases r)
      case (Inl x)
      then have "a = nd_alloc w" using sound(3) by simp
      with a(2) b Inl show ?thesis by (simp add: batching_def)
    next
      case (Inr v)
      obtain m x y where v: "v = (m, x, y)" by (cases v)
      note f = sound(2) [OF Inr [unfolded v], of XRAY_HY2_PROTOCOL]
      have nd: "hop_safe (be_parse e) w'"
        using s(1) sound(1) f live a(2) by (auto simp: hop_safe_def)
      have fresh: "m \<notin> set (hops cs)" "m \<notin> set (live (be_parse e) w)" "m \<in> tag_locked XRAY_HY2_PROTOCOL a"
        using f b by (auto simp: batching_def hop_safe_def node_sound_def)
      have bc: "batching e cs w'" using b nd io live f a(2) by (auto simp: batching_def node_sound_def)
      have "batching e (cs @ [build_hysteria2_inbound tag (int m) auth email sni ver obfs (Some (x, y))]) w'"
        for tag auth email sni ver obfs
        using bc fresh f live a(2) by (auto simp: batching_def hops_def hop_hy2)
      with bc Inr v True show ?thesis by (simp add: hy2_ready_def)
    qed
  qed
qed

lemma triple_weaken: "triple e P m Q \<Longrightarrow> (\<And>w. P' w \<Longrightarrow> P w) \<Longrightarrow> triple e P' m Q"
  by (force simp: triple_def)

lemma triple_hy2_nodes:
  "triple e (batching e (fst acc)) (hy2_nodes e v ot hopping style host pin i n acc) (\<lambda>r. batching e (fst r))"
proof (induction n arbitrary: i acc)
  case 0
  then show ?case by (cases acc) (simp add: triple_retD)
next
  case (Suc n)
  have keep: "triple e (hy2_ready e (fst acc) hopping ph) (liftD generate_wwps_uuid) (\<lambda>_. hy2_ready e (fst acc) hopping ph)" for ph
    by (rule triple_stable [OF same_store_keys(1)]) (blast intro: hy2_ready_same hy2_ready_sound)+
  have next_one: "triple e (hy2_ready e (fst acc) hopping ph)
      (\<lambda>w. hy2_nodes e v ot hopping style host pin (i + 1) n
         (fst acc @ [build_hysteria2_inbound tag (int (fst ph)) auth email sni v obfs (if hopping then Some (snd ph) else None)], ls)
         (hy2_open hopping (fst ph) (snd ph) w)) (\<lambda>r. batching e (fst r))" for ph tag auth email sni obfs ls
    by (rule triple_weaken, rule triple_after [OF same_store_open(2)], rule Suc.IH) (simp add: hy2_ready_step)
  show ?case
    unfolding hy2_nodes.simps
    by (rule triple_bindD [OF triple_hy2_port], simp only: split_beta, rule triple_bindD [OF keep], unfold Let_def, rule next_one)
qed

lemma triple_kcp_nodes:
  "triple e (batching e (fst acc)) (kcp_nodes e v masks host pin i n acc) (\<lambda>r. batching e (fst r))"
proof (induction n arbitrary: i acc)
  case 0
  then show ?case by (cases acc) (simp add: triple_retD)
next
  case (Suc n)
  have next_one: "triple e (batching e (fst acc)) (\<lambda>w. kcp_nodes e v masks host pin (i + 1) n
      (fst acc @ [build_kcp_inbound tag p uuid email v masks], ls) (allow_port port w)) (\<lambda>r. batching e (fst r))"
    for tag p uuid email ls port
    by (rule triple_after [OF same_store_open(1)], rule triple_weaken, rule Suc.IH) (simp add: batching_plain no_hop_kcp)
  show ?case
    unfolding kcp_nodes.simps
    by (rule triple_bindD [OF triple_random], rule triple_bindD [OF triple_io [OF same_store_keys(1)]], unfold Let_def, rule next_one)
qed

lemma triple_enhanced: "triple e (batching e cs) (generate_enhanced_config e i p preferred) (\<lambda>_. batching e cs)"
  unfolding generate_enhanced_config_def
  by (rule triple_bindD [OF triple_preferred], rule triple_bindD [OF triple_io [OF same_store_keys(1)]],
      rule triple_bindD [OF triple_io [OF same_store_keys(2)]], simp only: split_beta Let_def, rule triple_retD)

lemma triple_reality_nodes:
  "triple e (batching e (fst acc)) (reality_nodes e v p host secondary first i n acc) (\<lambda>r. batching e (fst r))"
proof (induction n arbitrary: i acc)
  case 0
  then show ?case by (cases acc) (simp add: triple_retD)
next
  case (Suc n)
  have next_one: "triple e (batching e (fst acc)) (\<lambda>w. reality_nodes e v p host secondary first (Suc i) n
      (fst acc @ [config], ls) (allow_port port w)) (\<lambda>r. batching e (fst r))" if "hop_port config = []" for config ls port
    by (rule triple_after [OF same_store_open(1)], rule triple_weaken, rule Suc.IH) (simp add: batching_plain that)
  show ?case
    unfolding reality_nodes.simps
    by (rule triple_bindD [OF triple_enhanced])
       (auto intro!: next_one triple_failD batching_sound dest: no_hop_reality split: option.split)
qed

lemma triple_tls_nodes:
  "triple e (batching e (fst acc)) (tls_nodes e v domain certs i ports acc) (\<lambda>r. batching e (fst r))"
proof (induction ports arbitrary: i acc)
  case Nil
  then show ?case by (cases acc) (simp add: triple_retD)
next
  case (Cons c ports)
  have next_one: "triple e (batching e (fst acc)) (\<lambda>w. tls_nodes e v domain certs (i + 1) ports
      (fst acc @ [fst node], ls) (allow_port c w)) (\<lambda>r. batching e (fst r))"
    if "node = build_tls_xhttp_node pct i p uuid domain certs v path" for node pct p uuid path ls
    by (rule triple_after [OF same_store_open(1)], rule triple_weaken, rule Cons.IH) (simp add: batching_plain no_hop_tls that)
  show ?case
    unfolding tls_nodes.simps
    by (rule triple_bindD [OF triple_preferred], rule triple_bindD [OF triple_io [OF same_store_keys(1)]],
        simp only: split_beta, rule next_one, rule refl)
qed

lemma filename_inbound:
  "generate_secure_batch_filename p w = (Inr f, w') \<Longrightarrow> is_inbound_file f \<and> prefix (batch_file_prefix p) f"
proof -
  assume "generate_secure_batch_filename p w = (Inr f, w')"
  then obtain u where "f = batch_file_prefix p @ ''_'' @ uuid_short_prefix u @ ''_inbounds.json''"
    by (auto simp: generate_secure_batch_filename_def bindE_apply split: prod.splits sum.splits)
  then show ?thesis
    by (cases p) (auto simp: is_inbound_file_def suffix_def prefix_def)
qed

lemma standalone_sound:
  assumes "batching e cs w"
  shows "node_sound (be_parse e) (be_pretty e) (snd (create_standalone_config e cs ls p w))"
proof -
  obtain r w1 where g: "generate_secure_batch_filename p w = (r, w1)" by (cases "generate_secure_batch_filename p w")
  then have b: "batching e cs w1" using batching_same [OF same_store_keys(4) assms, of p] by simp
  show ?thesis
  proof (cases r)
    case (Inl x)
    with g b show ?thesis by (simp add: create_standalone_config_def bindE_apply batching_sound)
  next
    case (Inr f)
    let ?j = "JObj [(''inbounds'', JArr cs)]"
    have s: "hop_safe (be_parse e) w1" "io_sound (be_parse e) (be_pretty e) w1" using b by (auto simp: batching_def node_sound_def)
    have "json_ext f" using g Inr filename_inbound inbound_json_ext by blast
    from fs_write_hop_safe [OF s this, of ?j "hops cs"]
    have "hop_safe (be_parse e) (snd (fs_write f (be_pretty e ?j) w1))"
      using b by (auto simp: doc_hops_def hops_def batching_def)
    then have "node_sound (be_parse e) (be_pretty e) (snd (fs_write f (be_pretty e ?j) w1))"
      using s(2) by (simp add: node_sound_def io_sound_def)
    moreover have "create_standalone_config e cs ls p w =
        thenE (fs_write f (be_pretty e ?j)) (thenE (maintenance_reload_core (be_parse e) (be_pretty e) (be_reload e))
          (retE \<lparr>br_links = ls, br_config_file = Some f, br_backup_file = None, br_created_count = length cs\<rparr>)) w1"
      using g Inr by (simp add: create_standalone_config_def bindE_apply)
    ultimately show ?thesis
      using reload_sound
      by (cases "fs_write f (be_pretty e ?j) w1"; cases "fst (fs_write f (be_pretty e ?j) w1)")
         (auto simp: thenE_apply split: prod.split sum.split, (metis snd_conv)+)
  qed
qed

abbreviation sound_after :: "batch_env \<Rightarrow> 'a dio \<Rightarrow> bool" where
  "sound_after e m \<equiv> triple e (batching e []) m (\<lambda>_. node_sound (be_parse e) (be_pretty e))"

lemma triple_standalone: "triple e (batching e cs) (liftD (create_standalone_config e cs ls p)) (\<lambda>_. node_sound (be_parse e) (be_pretty e))"
  unfolding triple_def liftD_def using standalone_sound by (auto split: sum.split) (metis snd_conv)+

lemma triple_finish:
  assumes "triple e (batching e []) m (\<lambda>r. batching e (fst r))"
  shows "sound_after e (bindD m (\<lambda>(cs, ls). liftD (create_standalone_config e cs ls p)))"
  by (rule triple_bindD [OF assms]) (auto simp: split_beta intro: triple_standalone)

lemma triple_free_443:
  "triple e (batching e []) (\<lambda>w. case on_fw (is_port_available 443) w of (b, w1) \<Rightarrow> Some (Inr b, w1)) (\<lambda>_. batching e [])"
  using triple_io [of "\<lambda>w. case on_fw (is_port_available 443) w of (b, w1) \<Rightarrow> (Inr b, w1)" e "[]"]
  by (auto simp: liftD_def [abs_def] same_store_def split_beta)

lemma creation_sound_hy2: "sound_after e (batch_create_hysteria2_xray e n v ot hopping style)"
proof -
  have nodes: "triple e (batching e []) (hy2_nodes e v ot hopping style host pin 0 n ([], [])) (\<lambda>r. batching e (fst r))" for host pin
    using triple_hy2_nodes [of e "([], [])"] by simp
  have "sound_after e (bindD (fromD cap) (\<lambda>_. bindD (fromD (be_tls e)) (\<lambda>_. bindD (fromD (be_pin e)) (\<lambda>pin.
      bindD (fromD (resolve_public_hosts v (be_ipv4 e) (be_ipv6 e))) (\<lambda>(host, _).
        bindD (hy2_nodes e v ot hopping style host pin 0 n ([], [])) (\<lambda>(configs, links).
          liftD (create_standalone_config e configs links Hysteria2)))))))" for cap :: "string + unit"
    by (intro triple_bindD [OF triple_fromD]) (auto simp: case_prod_beta' intro!: triple_finish [unfolded case_prod_beta'] nodes)
  then show ?thesis unfolding triple_def batch_create_hysteria2_xray_def by blast
qed

lemma creation_sound_kcp: "sound_after e (batch_create_kcp e n v codes)"
proof -
  have nodes: "triple e (batching e []) (kcp_nodes e v masks host pin 0 n ([], [])) (\<lambda>r. batching e (fst r))" for masks host pin
    using triple_kcp_nodes [of e "([], [])"] by simp
  show ?thesis
    unfolding batch_create_kcp_def
    by (intro triple_bindD [OF triple_fromD]) (auto simp: case_prod_beta' intro!: triple_finish [unfolded case_prod_beta'] nodes)
qed

lemma creation_sound_reality:
  "sound_after e (batch_create_reality_vision_enhanced e n v)" "sound_after e (batch_create_xhttp_reality_enhanced e n v p443)"
proof -
  have nodes: "triple e (batching e []) (reality_nodes e v p host s f 0 n ([], [])) (\<lambda>r. batching e (fst r))" for p host s f
    using triple_reality_nodes [of e "([], [])"] by simp
  show "sound_after e (batch_create_reality_vision_enhanced e n v)"
    unfolding batch_create_reality_vision_enhanced_def case_prod_beta'
    by (rule triple_bindD [OF triple_fromD], rule triple_bindD [OF triple_free_443 [unfolded case_prod_beta']], rule triple_finish [unfolded case_prod_beta'], rule nodes)
  show "sound_after e (batch_create_xhttp_reality_enhanced e n v p443)"
    unfolding batch_create_xhttp_reality_enhanced_def case_prod_beta'
    by (rule triple_bindD [OF triple_fromD], rule triple_bindD [OF triple_free_443 [unfolded case_prod_beta']], rule triple_finish [unfolded case_prod_beta'], rule nodes)
qed

lemma creation_sound_tls: "sound_after e (batch_create_xhttp_tls_enhanced e provider domain certs v)"
proof -
  have nodes: "triple e (batching e []) (tls_nodes e v domain certs 0 ports ([], [])) (\<lambda>r. batching e (fst r))" for ports
    using triple_tls_nodes [of e "([], [])"] by simp
  show ?thesis
    unfolding batch_create_xhttp_tls_enhanced_def Let_def
    by (rule triple_bindD [OF triple_fromD]) (auto intro!: triple_failD triple_finish nodes dest: batching_sound)
qed

lemma creation_sound_xdrive: "sound_after e (create_xdrive_node e xd email)"
proof -
  have plain: "triple e (batching e []) (liftD (create_standalone_config e [build_xdrive_vless_inbound tag uuid email port xd key] ls p))
      (\<lambda>_. node_sound (be_parse e) (be_pretty e))" for tag uuid port key ls p
    by (rule triple_weaken [OF triple_standalone])
       (use batching_plain [of e "[]"] in \<open>simp add: hop_port_def build_xdrive_vless_inbound_def\<close>)
  show ?thesis
    unfolding create_xdrive_node_def Let_def case_prod_beta'
    by (rule triple_bindD [OF triple_io [OF same_store_keys(1)]], rule triple_bindD [OF triple_io [OF same_store_keys(3)]],
        rule triple_bindD [OF triple_random], rule plain)
qed

section \<open>The manager as a state machine\<close>

text \<open>Every operation that changes the configuration directory or the allocation file, with whatever
  environment it meets.\<close>

inductive manager_step :: "(string \<Rightarrow> json option) \<Rightarrow> (json \<Rightarrow> string) \<Rightarrow> node \<Rightarrow> node \<Rightarrow> bool" for parse pretty where
  step_delete_files: "list_all is_inbound_file paths \<Longrightarrow> manager_step parse pretty w (snd (delete_files_at parse pretty e paths w))"
| step_delete_all: "manager_step parse pretty w (snd (delete_all_configurations parse pretty e w))"
| step_delete_count: "manager_step parse pretty w (snd (delete_configurations_by_count parse pretty e n w))"
| step_delete_one: "is_inbound_file name \<Longrightarrow> manager_step parse pretty w (snd (delete_specific_configuration_at parse pretty e name w))"
| step_reload: "manager_step parse pretty w (snd (maintenance_reload_core parse pretty e w))"
| step_hysteria2: "be_parse b = parse \<Longrightarrow> be_pretty b = pretty
    \<Longrightarrow> batch_create_hysteria2_xray b n v ot hopping style w = Some (r, w') \<Longrightarrow> manager_step parse pretty w w'"
| step_kcp: "be_parse b = parse \<Longrightarrow> be_pretty b = pretty \<Longrightarrow> batch_create_kcp b n v codes w = Some (r, w') \<Longrightarrow> manager_step parse pretty w w'"
| step_vision: "be_parse b = parse \<Longrightarrow> be_pretty b = pretty
    \<Longrightarrow> batch_create_reality_vision_enhanced b n v w = Some (r, w') \<Longrightarrow> manager_step parse pretty w w'"
| step_xhttp: "be_parse b = parse \<Longrightarrow> be_pretty b = pretty
    \<Longrightarrow> batch_create_xhttp_reality_enhanced b n v p443 w = Some (r, w') \<Longrightarrow> manager_step parse pretty w w'"
| step_tls: "be_parse b = parse \<Longrightarrow> be_pretty b = pretty
    \<Longrightarrow> batch_create_xhttp_tls_enhanced b provider domain certs v w = Some (r, w') \<Longrightarrow> manager_step parse pretty w w'"
| step_xdrive: "be_parse b = parse \<Longrightarrow> be_pretty b = pretty \<Longrightarrow> create_xdrive_node b xd email w = Some (r, w') \<Longrightarrow> manager_step parse pretty w w'"

lemma created_sound:
  assumes "sound_after b m" "m w = Some (r, w')" "node_sound (be_parse b) (be_pretty b) w"
  shows "node_sound (be_parse b) (be_pretty b) w'"
  using assms(1,2) batching_start [OF assms(3)] by (auto simp: triple_def split: sum.splits)

lemma delete_each_frame: "nd_write (snd (delete_each parse fs w)) = nd_write w"
proof (induction fs arbitrary: w)
  case (Cons f fs)
  have "nd_write (snd (delete_file_then_release_hop parse f w)) = nd_write w"
    by (cases rule: remove_file_cases [of f w]) (auto simp: delete_file_then_release_hop_def release_hop_ports_def Let_def)
  with Cons.IH [of "snd (delete_file_then_release_hop parse f w)"] show ?case by (simp add: split_beta)
qed simp

lemma delete_each_sound:
  assumes "node_sound parse pretty w" "list_all is_inbound_file fs"
  shows "node_sound parse pretty (snd (delete_each parse fs w))"
proof -
  have "list_all json_ext fs" using assms(2) by (auto simp: list_all_iff inbound_json_ext)
  with assms(1) show ?thesis
    using delete_each_hop_safe delete_each_frame io_sound_frame unfolding node_sound_def by blast
qed

lemma listed_inbound: "list_all is_inbound_file (list_all_inbound_files w)"
  by (simp add: list_all_inbound_files_def list_all_iff)

lemma deletion_sound:
  assumes "node_sound parse pretty w"
  shows "list_all is_inbound_file paths \<Longrightarrow> node_sound parse pretty (snd (delete_files_at parse pretty e paths w))"
    and "node_sound parse pretty (snd (delete_all_configurations parse pretty e w))"
    and "node_sound parse pretty (snd (delete_configurations_by_count parse pretty e n w))"
    and "is_inbound_file name \<Longrightarrow> node_sound parse pretty (snd (delete_specific_configuration_at parse pretty e name w))"
proof -
  show "node_sound parse pretty (snd (delete_files_at parse pretty e paths w))" if "list_all is_inbound_file paths"
    using reload_sound [OF delete_each_sound [OF assms that]] delete_each_sound [OF assms that]
    by (simp add: delete_files_at_def ignoring_def split_beta)
  have cnt: "node_sound parse pretty (snd (bindE (maintenance_reload_core parse pretty e) (\<lambda>_. retE k) w1))"
    if "node_sound parse pretty w1" for k :: nat and w1
    by (rule bindE_sound [OF reload_sound _ that]) simp_all
  show "node_sound parse pretty (snd (delete_all_configurations parse pretty e w))"
    using cnt [OF delete_each_sound [OF assms listed_inbound]] assms by (simp add: delete_all_configurations_def Let_def)
  define timed where "timed = concat (map (\<lambda>f. case nd_mtime w f of Some t \<Rightarrow> [(f, t)] | None \<Rightarrow> []) (list_all_inbound_files w))"
  have "set (map fst (take n (sort_key snd timed))) \<subseteq> set (list_all_inbound_files w)"
    by (auto simp: timed_def dest!: in_set_takeD split: option.splits)
  then have "list_all is_inbound_file (map fst (take n (sort_key snd timed)))"
    using listed_inbound [of w] by (auto simp: list_all_iff)
  from delete_each_sound [OF assms this] cnt [OF delete_each_sound [OF assms this]] assms
  show "node_sound parse pretty (snd (delete_configurations_by_count parse pretty e n w))"
    by (simp add: delete_configurations_by_count_def Let_def timed_def [symmetric] split_beta)
  show "node_sound parse pretty (snd (delete_specific_configuration_at parse pretty e name w))" if name: "is_inbound_file name"
  proof (cases rule: remove_file_cases [of name w])
    case 1
    with assms show ?thesis by (simp add: delete_specific_configuration_at_def node_sound_def io_sound_def)
  next
    case (2 r)
    let ?g = "w\<lparr>nd_removals := nd_removals w + 1, nd_conf := filter (\<lambda>e. de_name e \<noteq> name) (nd_conf w)\<rparr>"
    have s: "hop_safe parse w" "io_sound parse pretty w" using assms by (auto simp: node_sound_def)
    note g = gone_hop_safe [OF s(1) inbound_json_ext [OF name] 2(2) refl]
    have "node_sound parse pretty (release_hop_ports (hop_ports_of parse name w) ?g)"
      using release_hop_safe [OF g] s(2) by (auto simp: node_sound_def io_sound_def release_hop_ports_def)
    from reload_sound [OF this] 2 g(1) s(2) show ?thesis
      by (auto simp: delete_specific_configuration_at_def node_sound_def io_sound_def)
  next
    case (3 err)
    with assms show ?thesis by (simp add: delete_specific_configuration_at_def node_sound_def io_sound_def)
  qed
qed

lemma manager_step_sound: "manager_step parse pretty w w' \<Longrightarrow> node_sound parse pretty w \<Longrightarrow> node_sound parse pretty w'"
proof (induction rule: manager_step.induct)
  case (step_hysteria2 b n v ot hopping style w r w')
  then show ?case using created_sound [OF creation_sound_hy2] by blast
next
  case (step_kcp b n v codes w r w')
  then show ?case using created_sound [OF creation_sound_kcp] by blast
next
  case (step_vision b n v w r w')
  then show ?case using created_sound [OF creation_sound_reality(1)] by blast
next
  case (step_xhttp b n v p443 w r w')
  then show ?case using created_sound [OF creation_sound_reality(2)] by blast
next
  case (step_tls b provider domain certs v w r w')
  then show ?case using created_sound [OF creation_sound_tls] by blast
next
  case (step_xdrive b xd email w r w')
  then show ?case using created_sound [OF creation_sound_xdrive] by blast
qed (simp_all add: deletion_sound reload_sound)

section \<open>Samples\<close>

text \<open>A printer and a parser that agree: the number of a document in an enumeration of all documents.\<close>

instance json :: countable
  by countable_datatype

definition sample_pretty :: "json \<Rightarrow> string" where
  "sample_pretty j = nat_str (to_nat j)"

definition sample_parse :: "string \<Rightarrow> json option" where
  "sample_parse s = Some (from_nat (dec_value s))"

lemma sample_parse_pretty: "sample_parse (sample_pretty j) = Some j"
  by (simp add: sample_parse_def sample_pretty_def dec_value_nat_str)

definition sample_doc :: json where
  "sample_doc = JObj [(''inbounds'', JArr [build_hysteria2_inbound ''t'' (int 10000) ''a'' ''e'' ''s'' IPv4 None (Some (10001, 10099))])]"

definition sample_file :: dir_entry where
  "sample_file = \<lparr>de_name = ''batch_xray_hysteria2_ab_inbounds.json'', de_is_file = True, de_content = Some (sample_pretty sample_doc)\<rparr>"

definition sample_node :: node where
  "sample_node = \<lparr>nd_alloc = sample_alloc \<lparr>locked_ranges = [sample_range XRAY_HY2_PROTOCOL], initialized = True\<rparr>,
     nd_fw = ufw_host, nd_conf = [sample_file], nd_box = NoDir, nd_mtime = (\<lambda>f. Some 0), nd_rm = (\<lambda>n. RmRefused ''busy''), nd_removals = 0,
     nd_write = (\<lambda>n. None), nd_writes = 0, nd_ipv6 = (\<lambda>n. Inl ''none''), nd_rng = (\<lambda>n. 20000), nd_drawn = 0\<rparr>"

lemma sample_live: "live sample_parse sample_node = [10000]"
proof -
  have "hop_port (build_hysteria2_inbound ''t'' (int 10000) ''a'' ''e'' ''s'' IPv4 None (Some (10001, 10099))) = [10000]"
    by (rule hop_hy2 [THEN trans]) simp_all
  then have "extract_xray_hy2_hop_ports sample_parse (sample_pretty sample_doc) = [10000]"
    by (subst extract_doc [of sample_parse "sample_pretty sample_doc" sample_doc, OF sample_parse_pretty]) (simp add: doc_hops_def sample_doc_def del: of_nat_numeral)
  then show ?thesis
    by (simp add: live_concat sample_node_def sample_file_def entry_hops_def json_ext_def suffix_def)
qed

lemma sample_locked: "tag_locked XRAY_HY2_PROTOCOL (nd_alloc sample_node) = {10000}"
proof -
  have "{r \<in> set [sample_range XRAY_HY2_PROTOCOL]. lr_protocol r = XRAY_HY2_PROTOCOL \<and> lr_end r = lr_start r + 99}
      = {sample_range XRAY_HY2_PROTOCOL}" by (auto simp: sample_range_def)
  then show ?thesis
    by (simp add: tag_locked_def sample_node_def sample_alloc_def load_or_default_def) (simp add: sample_range_def)
qed

lemma sample_sound: "node_sound sample_parse sample_pretty sample_node"
proof -
  have "alloc_sound (nd_alloc sample_node)"
    by (simp add: sample_node_def sample_alloc_def alloc_sound_def alloc_ok_def load_or_default_def sample_range_def)
  moreover have "nd_write sample_node = (\<lambda>n. None)" by (simp add: sample_node_def)
  ultimately show ?thesis
    by (simp add: node_sound_def hop_safe_def io_sound_def sample_parse_pretty sample_live sample_locked)
qed

section \<open>Properties\<close>

text \<open>
  C6: whatever the manager does (deleting, reloading, creating batches of any kind, with removals refused or
  raced, writes and commands failing), from a sound state every hopping Hysteria2 inbound on disk keeps its
  hundred ports locked in a well-formed allocation file, and no two of them share a port. Relied on: the
  allocation file can be written, the parser reads what the printer prints, and a failed write leaves no
  valid document behind.
\<close>

theorem live_ranges_stay_locked:
  assumes "rtranclp (manager_step parse pretty) w w'" and "node_sound parse pretty w"
    and "p \<in> set (live parse w')"
  shows "(\<exists>r \<in> set (locked_ranges (load_or_default (nd_alloc w'))). lr_protocol r = XRAY_HY2_PROTOCOL \<and> lr_start r = p \<and> lr_end r = p + 99)
    \<and> (\<forall>q \<in> set (live parse w'). q = p \<or> p + 99 < q \<or> q + 99 < p)
    \<and> distinct (live parse w') \<and> alloc_ok (load_or_default (nd_alloc w'))"
proof -
  have "node_sound parse pretty w'"
    using assms(1,2) by (induction rule: rtranclp_induct) (auto intro: manager_step_sound)
  then have s: "alloc_sound (nd_alloc w')" "distinct (live parse w')"
    "set (live parse w') \<subseteq> tag_locked XRAY_HY2_PROTOCOL (nd_alloc w')"
    by (auto simp: node_sound_def hop_safe_def)
  have "q = p \<or> p + 99 < q \<or> q + 99 < p" if "q \<in> set (live parse w')" for q
    using ranges_apart [OF s(1), of p XRAY_HY2_PROTOCOL q XRAY_HY2_PROTOCOL] that assms(3) s(3) by blast
  moreover have "p \<in> tag_locked XRAY_HY2_PROTOCOL (nd_alloc w')" using assms(3) s(3) by blast
  ultimately show ?thesis using s(1,2) by (auto simp: tag_locked_def alloc_sound_def)
qed

definition idle_reload :: reload_env where
  "idle_reload = \<lparr>re_core = False, re_box = False, re_stat_bad = False, re_egress6 = False, re_mkdir = None, re_box_base = None\<rparr>"

theorem live_ranges_stay_locked_witness:
  "10000 \<in> set (live sample_parse (snd (maintenance_reload_core sample_parse sample_pretty idle_reload sample_node)))
   \<and> alloc_ok (load_or_default (nd_alloc (snd (maintenance_reload_core sample_parse sample_pretty idle_reload sample_node))))"
proof -
  let ?w = "snd (maintenance_reload_core sample_parse sample_pretty idle_reload sample_node)"
  have step: "rtranclp (manager_step sample_parse sample_pretty) sample_node ?w"
    by (rule r_into_rtranclp) (rule step_reload)
  have "nd_conf ?w = nd_conf sample_node"
    by (simp add: maintenance_reload_core_def idle_reload_def thenE_apply reconcile_startup_state_def sync_firewall_with_configs_def
        ignoring_def Let_def)
  then have live: "10000 \<in> set (live sample_parse ?w)" using sample_live by (simp add: live_concat)
  from live_ranges_stay_locked [OF step sample_sound live] live show ?thesis by blast
qed

text \<open>
  C20: deleting a file releases exactly its ranges, and only when the file is gone: with a sound allocation
  file, a file that cannot be removed keeps its ports and nothing else changes, and for a file that was
  removed, by this call or by another deleter, exactly the main ports it named are unlocked.
\<close>

theorem deletion_releases_exactly:
  assumes "alloc_sound (nd_alloc w)" and "entry_named name w \<noteq> None"
  shows "tag_locked XRAY_HY2_PROTOCOL (nd_alloc (snd (delete_file_then_release_hop parse name w)))
      = tag_locked XRAY_HY2_PROTOCOL (nd_alloc w)
        - (if entry_named name (snd (delete_file_then_release_hop parse name w)) = None then set (hop_ports_of parse name w) else {})
    \<and> (fst (delete_file_then_release_hop parse name w) \<longleftrightarrow> nd_rm w (nd_removals w) = RmOk)
    \<and> (entry_named name (snd (delete_file_then_release_hop parse name w)) \<noteq> None \<longrightarrow>
        nd_conf (snd (delete_file_then_release_hop parse name w)) = nd_conf w
        \<and> nd_alloc (snd (delete_file_then_release_hop parse name w)) = nd_alloc w
        \<and> nd_fw (snd (delete_file_then_release_hop parse name w)) = nd_fw w)"
proof -
  have rel: "tag_locked XRAY_HY2_PROTOCOL (nd_alloc (release_hop_ports ps v)) = tag_locked XRAY_HY2_PROTOCOL (nd_alloc v) - set ps"
    if "alloc_sound (nd_alloc v)" for ps v
    using node_hops.release_list [OF that] by (auto simp: release_hop_ports_def release_each_fold)
  have conf: "nd_conf (release_hop_ports ps v) = nd_conf v" for ps v by (simp add: release_hop_ports_def)
  have gone: "find (\<lambda>e. de_name e = name) (filter (\<lambda>e. de_name e \<noteq> name) es) = None" for es
    by (simp add: find_None_iff)
  show ?thesis
    using assms
    by (cases "nd_rm w (nd_removals w)")
       (auto simp: delete_file_then_release_hop_def remove_file_def Let_def rel conf entry_named_def gone)
qed

theorem deletion_releases_exactly_witness:
  "tag_locked XRAY_HY2_PROTOCOL (nd_alloc (snd (delete_file_then_release_hop sample_parse (de_name sample_file)
       (sample_node\<lparr>nd_rm := (\<lambda>n. RmOk)\<rparr>)))) = {}"
proof -
  let ?w = "sample_node\<lparr>nd_rm := (\<lambda>n. RmOk)\<rparr>"
  have a: "alloc_sound (nd_alloc ?w)" using sample_sound by (simp add: node_sound_def hop_safe_def)
  have n: "entry_named (de_name sample_file) ?w \<noteq> None" by (simp add: entry_named_def sample_node_def)
  have h: "hop_ports_of sample_parse (de_name sample_file) ?w = [10000]"
    using sample_live by (simp add: hop_ports_of_def read_to_string_def entry_named_def live_concat entry_hops_def sample_node_def
        sample_file_def json_ext_def suffix_def)
  have e: "entry_named (de_name sample_file) (snd (delete_file_then_release_hop sample_parse (de_name sample_file) ?w)) = None"
    using n by (simp add: delete_file_then_release_hop_def remove_file_def Let_def entry_named_def release_hop_ports_def find_None_iff)
  have l: "tag_locked XRAY_HY2_PROTOCOL (nd_alloc ?w) = {10000}" using sample_locked by simp
  from deletion_releases_exactly [OF a n, of sample_parse] h e l show ?thesis by auto
qed



end
