(* ===== verification/SniWire.thy ===== *)
theory SniWire
  imports Prelude "HOL-Library.Word"
begin

text \<open>
  The binary pool files of the SNI prober, \<open>sni_probe/src/pb.rs\<close>: the hand-written protobuf codec of
  \<open>DomainList\<close>. Bytes are 8-bit words, lengths and variable-length integers 64-bit words, with shifts and
  masks as the code has them; a position in a buffer is a number, and \<open>checked_add\<close> is an addition that must
  stay below \<open>2 ^ 64\<close>. A Rust string is its bytes, which are valid UTF-8.
\<close>

unbundle bit_operations_syntax

type_synonym byte = "8 word"
type_synonym bytes = "8 word list"

section \<open>Variable-length integers\<close>

lemma drop7_less: "\<not> v < 0x80 \<Longrightarrow> unat (drop_bit 7 (v :: 64 word)) < unat v"
  by (simp add: word_less_nat_alt not_less drop_bit_eq_div unat_div)

function put_varint :: "64 word \<Rightarrow> bytes" where
  "put_varint v = (if v < 0x80 then [ucast v] else (ucast v OR 0x80) # put_varint (drop_bit 7 v))"
  by pat_completeness auto
termination by (relation "measure unat") (auto intro: drop7_less)

declare put_varint.simps [simp del]

function read_varint_from :: "bytes \<Rightarrow> nat \<Rightarrow> nat \<Rightarrow> 64 word \<Rightarrow> string + (64 word \<times> nat)" where
  "read_varint_from buf pos shift acc =
     (if pos < length buf then
        (let b = buf ! pos; acc' = acc OR push_bit shift (ucast (b AND 0x7F))
         in if b AND 0x80 = 0 then Inr (acc', pos + 1)
            else if shift + 7 \<ge> 64 then Inl ''varint too long''
            else read_varint_from buf (pos + 1) (shift + 7) acc')
      else Inl ''truncated varint'')"
  by pat_completeness auto
termination by (relation "measure (\<lambda>(buf, pos, shift, acc). length buf - pos)") auto

declare read_varint_from.simps [simp del]

definition read_varint :: "bytes \<Rightarrow> nat \<Rightarrow> string + (64 word \<times> nat)" where
  "read_varint buf pos = read_varint_from buf pos 0 0"

lemma read_varint_from_pos: "read_varint_from buf pos s a = Inr (v, pos') \<Longrightarrow> pos < pos' \<and> pos' \<le> length buf"
proof (induction buf pos s a rule: read_varint_from.induct)
  case (1 buf pos s a)
  show ?case
    using 1(2) 1(1) [of "buf ! pos" "a OR push_bit s (ucast (buf ! pos AND 0x7F))"]
    by (subst (asm) read_varint_from.simps) (auto simp: Let_def split: if_splits)
qed

lemma read_varint_pos: "read_varint buf pos = Inr (v, pos') \<Longrightarrow> pos < pos' \<and> pos' \<le> length buf"
  by (simp add: read_varint_def read_varint_from_pos)

section \<open>Strings\<close>

definition cont_byte :: "byte \<Rightarrow> bool" where
  "cont_byte b \<longleftrightarrow> 0x80 \<le> b \<and> b \<le> 0xBF"

text \<open>\<open>String::from_utf8\<close>: the well-formed byte sequences of the Unicode standard (no overlong forms, no
  surrogates, nothing above U+10FFFF).\<close>

fun utf8 :: "bytes \<Rightarrow> bool" where
  "utf8 [] = True"
| "utf8 (a # s) =
     (if a < 0x80 then utf8 s
      else case s of
             [] \<Rightarrow> False
           | b # s1 \<Rightarrow>
               if 0xC2 \<le> a \<and> a \<le> 0xDF then cont_byte b \<and> utf8 s1
               else case s1 of
                      [] \<Rightarrow> False
                    | c # s2 \<Rightarrow>
                        if 0xE0 \<le> a \<and> a \<le> 0xEF then
                          cont_byte b \<and> (a = 0xE0 \<longrightarrow> 0xA0 \<le> b) \<and> (a = 0xED \<longrightarrow> b \<le> 0x9F) \<and> cont_byte c \<and> utf8 s2
                        else case s2 of
                               [] \<Rightarrow> False
                             | d # s3 \<Rightarrow> 0xF0 \<le> a \<and> a \<le> 0xF4 \<and> cont_byte b \<and> (a = 0xF0 \<longrightarrow> 0x90 \<le> b) \<and> (a = 0xF4 \<longrightarrow> b \<le> 0x8F)
                                 \<and> cont_byte c \<and> cont_byte d \<and> utf8 s3)"

text \<open>\<open>buf.get(pos..end)\<close> after \<open>pos.checked_add(len)\<close>.\<close>

definition take_field :: "string \<Rightarrow> bytes \<Rightarrow> nat \<Rightarrow> string + (bytes \<times> nat)" where
  "take_field err buf pos =
     (case read_varint buf pos of
        Inl e \<Rightarrow> Inl e
      | Inr (n, p) \<Rightarrow>
          if p + unat n \<ge> 2 ^ 64 then Inl ''length overflow''
          else if p + unat n \<le> length buf then Inr (take (unat n) (drop p buf), p + unat n)
          else Inl err)"

lemma take_field_pos: "take_field err buf pos = Inr (s, pos') \<Longrightarrow> pos < pos' \<and> pos' \<le> length buf"
  by (auto simp: take_field_def dest!: read_varint_pos split: sum.splits if_splits)

section \<open>The message\<close>

definition TAG_PQ :: byte where
  "TAG_PQ = 0x0A"

definition TAG_CLASSIC :: byte where
  "TAG_CLASSIC = 0x12"

definition put_string_field :: "byte \<Rightarrow> bytes \<Rightarrow> bytes" where
  "put_string_field tag s = (if s = [] then [] else tag # put_varint (of_nat (length s)) @ s)"

definition encode_domains :: "bytes list \<Rightarrow> bytes list \<Rightarrow> bytes" where
  "encode_domains pq classic =
     concat (map (put_string_field TAG_PQ) pq) @ concat (map (put_string_field TAG_CLASSIC) classic)"

text \<open>An unknown field is skipped by its wire type; the answer is the position after it.\<close>

definition skip_unknown :: "bytes \<Rightarrow> byte \<Rightarrow> nat \<Rightarrow> string + nat" where
  "skip_unknown buf tag pos =
     (let wire = tag AND 0x07;
          next_pos = (if wire = 0 then map_sum id snd (read_varint buf pos)
            else if wire = 2 then
              (case read_varint buf pos of
                 Inl e \<Rightarrow> Inl e
               | Inr (n, p) \<Rightarrow> if p + unat n \<ge> 2 ^ 64 then Inl ''length overflow'' else Inr (p + unat n))
            else if wire = 5 then Inr (pos + 4)
            else if wire = 1 then Inr (pos + 8)
            else Inl ''unsupported wire type'')
      in case next_pos of
           Inl e \<Rightarrow> Inl e
         | Inr p \<Rightarrow> if p > length buf then Inl ''truncated unknown field'' else Inr p)"

lemma skip_unknown_pos: "skip_unknown buf tag pos = Inr p \<Longrightarrow> pos < p \<and> p \<le> length buf"
  unfolding skip_unknown_def Let_def
  by (cases "read_varint buf pos")
     (auto split: if_splits sum.splits prod.splits dest!: read_varint_pos)

function decode_domains_from :: "bytes \<Rightarrow> nat \<Rightarrow> bytes list \<Rightarrow> bytes list \<Rightarrow> string + (bytes list \<times> bytes list)" where
  "decode_domains_from buf pos pq classic =
     (if pos < length buf then
        (let tag = buf ! pos
         in if tag = TAG_PQ \<or> tag = TAG_CLASSIC then
              (case take_field ''truncated string'' buf (pos + 1) of
                 Inl e \<Rightarrow> Inl e
               | Inr (s, p) \<Rightarrow>
                   if \<not> utf8 s then Inl ''invalid utf-8''
                   else if tag = TAG_PQ then decode_domains_from buf p (pq @ [s]) classic
                   else decode_domains_from buf p pq (classic @ [s]))
            else (case skip_unknown buf tag (pos + 1) of
                    Inl e \<Rightarrow> Inl e
                  | Inr p \<Rightarrow> decode_domains_from buf p pq classic))
      else Inr (pq, classic))"
  by pat_completeness auto
termination
  by (relation "measure (\<lambda>(buf, pos, pq, classic). length buf - pos)") (auto dest!: take_field_pos skip_unknown_pos)

declare decode_domains_from.simps [simp del]

definition decode_domains :: "bytes \<Rightarrow> string + (bytes list \<times> bytes list)" where
  "decode_domains buf = decode_domains_from buf 0 [] []"

section \<open>Lemmas\<close>

lemma low7: "ucast ((ucast v OR 0x80 :: byte) AND 0x7F) = (v AND 0x7F :: 64 word)"
  by (rule bit_word_eqI) (auto simp: bit_simps numeral_eq_Suc less_Suc_eq)

lemma high_bit: "(ucast v OR 0x80 :: byte) AND 0x80 \<noteq> 0"
proof -
  have "bit ((ucast v OR 0x80 :: byte) AND 0x80) 7" by (simp add: bit_simps)
  then show ?thesis by auto
qed

lemma small_byte:
  assumes "(v :: 64 word) < 0x80"
  shows "(ucast v :: byte) AND 0x80 = 0" "ucast ((ucast v :: byte) AND 0x7F) = v"
proof -
  have "\<not> bit v n" if "7 \<le> n" for n
  proof -
    have "v < 2 ^ 7" using assms by simp
    then have "take_bit 7 v = v" by (simp add: take_bit_eq_mod word_unat_eq_iff unat_mod word_less_nat_alt)
    then show ?thesis using that by (metis bit_take_bit_iff not_le)
  qed
  then show "(ucast v :: byte) AND 0x80 = 0" "ucast ((ucast v :: byte) AND 0x7F) = v"
    by (auto intro!: bit_word_eqI simp: bit_simps numeral_eq_Suc less_Suc_eq)
qed

lemma split7: "(v AND 0x7F) OR push_bit 7 (drop_bit 7 v) = (v :: 64 word)"
proof -
  have m: "(0x7F :: 64 word) = mask 7" by (simp add: mask_eq_exp_minus_1)
  show ?thesis unfolding m by (rule bit_word_eqI) (auto simp: bit_simps, metis le_add_diff_inverse not_less)
qed

lemma read_put_varint:
  "s < 64 \<Longrightarrow> unat v < 2 ^ (64 - s) \<Longrightarrow>
     read_varint_from (pre @ put_varint v @ post) (length pre) s a = Inr (a OR push_bit s v, length pre + length (put_varint v))"
proof (induction v arbitrary: pre s a rule: put_varint.induct)
  case (1 v)
  show ?case
  proof (cases "v < 0x80")
    case True
    then have p: "put_varint v = [ucast v]" by (simp add: put_varint.simps)
    show ?thesis
      unfolding p by (subst read_varint_from.simps) (simp add: small_byte [OF True] Let_def nth_append)
  next
    case False
    let ?b = "ucast v OR 0x80 :: byte" and ?v = "drop_bit 7 v"
    have p: "put_varint v = ?b # put_varint ?v" using False by (subst put_varint.simps) simp
    have "128 \<le> unat v" using False by (simp add: word_less_nat_alt)
    then have "(2::nat) ^ 7 < 2 ^ (64 - s)" using 1(3) by simp
    then have s: "s + 7 < 64" by (simp only: power_strict_increasing_iff)
    have div: "unat ?v = unat v div 128" by (simp add: drop_bit_eq_div unat_div)
    have "unat ?v < 2 ^ (64 - (s + 7))"
    proof -
      have "(2::nat) ^ (64 - s) = 2 ^ (64 - (s + 7)) * 128" 
      proof -
        have "64 - s = (64 - (s + 7)) + 7" using s by simp
        then have "(2::nat) ^ (64 - s) = 2 ^ (64 - (s + 7)) * 2 ^ 7" by (simp only: power_add)
        then show ?thesis by simp
      qed
      with 1(3) show ?thesis by (simp add: div less_mult_imp_div_less)
    qed
    from 1(1) [OF False s this, of "pre @ [?b]" "a OR push_bit s (v AND 0x7F)"]
    have "read_varint_from (pre @ put_varint v @ post) (length pre + 1) (s + 7) (a OR push_bit s (v AND 0x7F))
        = Inr ((a OR push_bit s (v AND 0x7F)) OR push_bit (s + 7) ?v, length pre + length (put_varint v))"
      by (simp add: p)
    moreover have "(a OR push_bit s (v AND 0x7F)) OR push_bit (s + 7) ?v = a OR push_bit s v"
    proof -
      have "push_bit s v = push_bit s ((v AND 0x7F) OR push_bit 7 ?v)" by (simp only: split7)
      also have "\<dots> = push_bit s (v AND 0x7F) OR push_bit (s + 7) ?v" by (simp only: push_bit_or push_bit_push_bit)
      finally show ?thesis by (simp only: or.assoc)
    qed
    ultimately show ?thesis
      using s by (subst read_varint_from.simps) (simp add: p Let_def nth_append high_bit low7)
  qed
qed

lemma read_varint_put:
  "read_varint (pre @ put_varint v @ post) (length pre) = Inr (v, length pre + length (put_varint v))"
proof -
  have "unat v < 2 ^ (64 - 0)" using unsigned_less [of v, where ?'a = nat] by simp
  from read_put_varint [OF _ this, of pre post 0] show ?thesis by (simp add: read_varint_def)
qed

lemma take_field_put:
  assumes "length (pre @ put_varint (of_nat (length s)) @ s @ post) < 2 ^ 64"
  shows "take_field err (pre @ put_varint (of_nat (length s)) @ s @ post) (length pre)
    = Inr (s, length pre + length (put_varint (of_nat (length s))) + length s)"
proof -
  have "unat (of_nat (length s) :: 64 word) = length s"
    using assms by (simp add: unat_of_nat take_bit_nat_eq_self)
  with read_varint_put [of pre "of_nat (length s)" "s @ post"] assms show ?thesis
    by (simp add: take_field_def)
qed

section \<open>Properties\<close>

lemma decode_step:
  assumes "length (pre @ put_string_field tag s @ post) < 2 ^ 64" "utf8 s" "s \<noteq> []" "tag \<in> {TAG_PQ, TAG_CLASSIC}"
  shows "decode_domains_from (pre @ put_string_field tag s @ post) (length pre) pq classic =
    decode_domains_from (pre @ put_string_field tag s @ post) (length (pre @ put_string_field tag s))
      (if tag = TAG_PQ then pq @ [s] else pq) (if tag = TAG_PQ then classic else classic @ [s])"
proof -
  have "take_field err (pre @ put_string_field tag s @ post) (length pre + 1) = Inr (s, length (pre @ put_string_field tag s))" for err
    using take_field_put [of "pre @ [tag]" s post err] assms(1,3) by (simp add: put_string_field_def)
  then show ?thesis
    using assms by (subst decode_domains_from.simps) (auto simp: put_string_field_def nth_append Let_def)
qed

lemma decode_fields:
  assumes "tag \<in> {TAG_PQ, TAG_CLASSIC}" "list_all utf8 ss"
    and "length (pre @ concat (map (put_string_field tag) ss) @ post) < 2 ^ 64"
  shows "decode_domains_from (pre @ concat (map (put_string_field tag) ss) @ post) (length pre) pq classic =
    decode_domains_from (pre @ concat (map (put_string_field tag) ss) @ post) (length (pre @ concat (map (put_string_field tag) ss)))
      (if tag = TAG_PQ then pq @ filter (\<lambda>s. s \<noteq> []) ss else pq)
      (if tag = TAG_PQ then classic else classic @ filter (\<lambda>s. s \<noteq> []) ss)"
  using assms(2,3)
proof (induction ss arbitrary: pre pq classic)
  case (Cons s ss)
  show ?case
  proof (cases "s = []")
    case True
    with Cons show ?thesis by (simp add: put_string_field_def)
  next
    case False
    let ?post = "concat (map (put_string_field tag) ss) @ post"
    have "decode_domains_from (pre @ put_string_field tag s @ ?post) (length pre) pq classic =
      decode_domains_from (pre @ put_string_field tag s @ ?post) (length (pre @ put_string_field tag s))
        (if tag = TAG_PQ then pq @ [s] else pq) (if tag = TAG_PQ then classic else classic @ [s])"
      using Cons.prems False assms(1) by (intro decode_step) auto
    with Cons.IH [of "pre @ put_string_field tag s"] Cons.prems False show ?thesis by simp
  qed
qed simp

lemma decode_encode:
  assumes "list_all utf8 (pq @ classic)" and "length (encode_domains pq classic) < 2 ^ 64"
  shows "decode_domains (encode_domains pq classic) = Inr (filter (\<lambda>s. s \<noteq> []) pq, filter (\<lambda>s. s \<noteq> []) classic)"
proof -
  let ?p = "concat (map (put_string_field TAG_PQ) pq)" and ?c = "concat (map (put_string_field TAG_CLASSIC) classic)"
  have "decode_domains_from (?p @ ?c) 0 [] [] = decode_domains_from (?p @ ?c) (length ?p) (filter (\<lambda>s. s \<noteq> []) pq) []"
    using decode_fields [of TAG_PQ pq "[]" ?c] assms by (simp add: encode_domains_def)
  also have "\<dots> = decode_domains_from (?p @ ?c) (length (?p @ ?c)) (filter (\<lambda>s. s \<noteq> []) pq) (filter (\<lambda>s. s \<noteq> []) classic)"
    using decode_fields [of TAG_CLASSIC classic ?p "[]"] assms by (simp add: encode_domains_def TAG_PQ_def TAG_CLASSIC_def)
  also have "\<dots> = Inr (filter (\<lambda>s. s \<noteq> []) pq, filter (\<lambda>s. s \<noteq> []) classic)"
    by (subst decode_domains_from.simps) simp
  finally show ?thesis by (simp add: decode_domains_def encode_domains_def)
qed

text \<open>
  Also: the pool files round-trip: what the codec writes for two lists of domains it reads back as the same two
  lists, in order, without the empty strings, which are not written.
\<close>

theorem domain_list_roundtrip:
  assumes "list_all utf8 (pq @ classic)" and "length (encode_domains pq classic) < 2 ^ 64"
  shows "decode_domains (encode_domains pq classic) = Inr (filter (\<lambda>s. s \<noteq> []) pq, filter (\<lambda>s. s \<noteq> []) classic)"
  using decode_encode [OF assms] .

theorem domain_list_roundtrip_witness:
  "decode_domains (encode_domains [[0x61, 0x2E], []] [[0xC3, 0xA9]]) = Inr ([[0x61, 0x2E]], [[0xC3, 0xA9]])"
  using domain_list_roundtrip [of "[[0x61, 0x2E], []]" "[[0xC3, 0xA9]]"]
  by (simp add: cont_byte_def encode_domains_def put_string_field_def put_varint.simps)

end
