(* ===== verification/SniState.thy ===== *)
theory SniState
  imports SniWire IpAddr
begin

text \<open>
  The state file of the SNI prober, \<open>sni_probe/src/state.rs\<close>: the records of the three phases and the mask of
  the phases that are done, their encoding (the codec of theory SniWire, which \<open>state.rs\<close> repeats), loading and
  the atomic save.

  A domain is its bytes. The disk holds the state file and its temporary file; a fault says which call of
  \<open>save\<close> fails, and a failing write leaves a prefix of the data behind. A save that is interrupted is one
  that fails where it was cut off.
\<close>

section \<open>Records\<close>

record entry =
  en_domain :: bytes
  en_ip :: "ip_addr option"

definition entry_new :: "bytes \<Rightarrow> ip_addr \<Rightarrow> entry" where
  "entry_new domain ip = \<lparr>en_domain = domain, en_ip = Some ip\<rparr>"

record sni_state =
  st_phase1 :: "entry list"
  st_phase2 :: "entry list"
  st_phase3 :: "entry list"
  st_completed :: "32 word"

definition empty_state :: sni_state where
  "empty_state = \<lparr>st_phase1 = [], st_phase2 = [], st_phase3 = [], st_completed = 0\<rparr>"

definition PHASE_RESOLVE :: "32 word" where
  "PHASE_RESOLVE = push_bit 0 1"

definition PHASE_SURVIVAL :: "32 word" where
  "PHASE_SURVIVAL = push_bit 1 1"

definition PHASE_BUILD :: "32 word" where
  "PHASE_BUILD = push_bit 2 1"

definition TAG_PHASE1 :: byte where
  "TAG_PHASE1 = 0x0A"

definition TAG_PHASE2 :: byte where
  "TAG_PHASE2 = 0x12"

definition TAG_PHASE3 :: byte where
  "TAG_PHASE3 = 0x1A"

definition TAG_COMPLETED :: byte where
  "TAG_COMPLETED = 0x20"

definition TAG_DOMAIN :: byte where
  "TAG_DOMAIN = 0x0A"

definition TAG_IP :: byte where
  "TAG_IP = 0x12"

lemmas tag_defs = TAG_PHASE1_def TAG_PHASE2_def TAG_PHASE3_def TAG_COMPLETED_def TAG_DOMAIN_def TAG_IP_def

text \<open>\<open>as_bytes\<close> and its inverse: the text of an address as bytes.\<close>

definition as_bytes :: "string \<Rightarrow> bytes" where
  "as_bytes s = map of_char s"

definition of_bytes :: "bytes \<Rightarrow> string" where
  "of_bytes b = map (\<lambda>x. char_of (unat x)) b"

section \<open>Encoding\<close>

definition put_bytes_field :: "byte \<Rightarrow> bytes \<Rightarrow> bytes" where
  "put_bytes_field tag b = tag # put_varint (of_nat (length b)) @ b"

definition encode_entry :: "entry \<Rightarrow> bytes" where
  "encode_entry e =
     put_bytes_field TAG_DOMAIN (en_domain e)
     @ (case en_ip e of Some ip \<Rightarrow> put_bytes_field TAG_IP (as_bytes (ip_str ip)) | None \<Rightarrow> [])"

definition encode_state :: "sni_state \<Rightarrow> bytes" where
  "encode_state st =
     concat (map (\<lambda>e. put_bytes_field TAG_PHASE1 (encode_entry e)) (st_phase1 st))
     @ concat (map (\<lambda>e. put_bytes_field TAG_PHASE2 (encode_entry e)) (st_phase2 st))
     @ concat (map (\<lambda>e. put_bytes_field TAG_PHASE3 (encode_entry e)) (st_phase3 st))
     @ (if st_completed st \<noteq> 0 then TAG_COMPLETED # put_varint (ucast (st_completed st)) else [])"

section \<open>Decoding\<close>

function decode_entry_from :: "bytes \<Rightarrow> nat \<Rightarrow> bytes \<Rightarrow> ip_addr option \<Rightarrow> string + entry" where
  "decode_entry_from buf pos domain ip =
     (if pos < length buf then
        (let tag = buf ! pos
         in case take_field ''truncated field'' buf (pos + 1) of
              Inl e \<Rightarrow> Inl e
            | Inr (s, p) \<Rightarrow>
                if tag = TAG_DOMAIN then (if utf8 s then decode_entry_from buf p s ip else Inl ''invalid utf-8'')
                else if tag = TAG_IP then
                  (if utf8 s then decode_entry_from buf p domain (parse_ip (of_bytes s)) else Inl ''invalid utf-8'')
                else decode_entry_from buf p domain ip)
      else Inr \<lparr>en_domain = domain, en_ip = ip\<rparr>)"
  by pat_completeness auto
termination
  by (relation "measure (\<lambda>(buf, pos, domain, ip). length buf - pos)") (auto dest!: take_field_pos)

declare decode_entry_from.simps [simp del]

definition decode_entry :: "bytes \<Rightarrow> string + entry" where
  "decode_entry buf = decode_entry_from buf 0 [] None"

function decode_state_from :: "bytes \<Rightarrow> nat \<Rightarrow> sni_state \<Rightarrow> string + sni_state" where
  "decode_state_from buf pos st =
     (if pos < length buf then
        (let tag = buf ! pos
         in if tag \<in> {TAG_PHASE1, TAG_PHASE2, TAG_PHASE3} then
              (case take_field ''truncated entry'' buf (pos + 1) of
                 Inl e \<Rightarrow> Inl e
               | Inr (s, p) \<Rightarrow>
                   (case decode_entry s of
                      Inl e \<Rightarrow> Inl e
                    | Inr en \<Rightarrow>
                        decode_state_from buf p
                          (if tag = TAG_PHASE1 then st\<lparr>st_phase1 := st_phase1 st @ [en]\<rparr>
                           else if tag = TAG_PHASE2 then st\<lparr>st_phase2 := st_phase2 st @ [en]\<rparr>
                           else st\<lparr>st_phase3 := st_phase3 st @ [en]\<rparr>)))
            else if tag = TAG_COMPLETED then
              (case read_varint buf (pos + 1) of
                 Inl e \<Rightarrow> Inl e
               | Inr (n, p) \<Rightarrow> decode_state_from buf p (st\<lparr>st_completed := ucast n\<rparr>))
            else (case skip_unknown buf tag (pos + 1) of
                    Inl e \<Rightarrow> Inl e
                  | Inr p \<Rightarrow> decode_state_from buf p st))
      else Inr st)"
  by pat_completeness auto
termination
  by (relation "measure (\<lambda>(buf, pos, st). length buf - pos)") (auto dest!: take_field_pos skip_unknown_pos read_varint_pos)

declare decode_state_from.simps [simp del]

definition decode_state :: "bytes \<Rightarrow> string + sni_state" where
  "decode_state buf = decode_state_from buf 0 empty_state"

section \<open>The phases that are done\<close>

definition is_done :: "sni_state \<Rightarrow> 32 word \<Rightarrow> bool" where
  "is_done st phase \<longleftrightarrow> st_completed st AND phase \<noteq> 0"

definition mark_done :: "32 word \<Rightarrow> sni_state \<Rightarrow> sni_state" where
  "mark_done phase st = st\<lparr>st_completed := st_completed st OR phase\<rparr>"

section \<open>The file\<close>

record state_disk =
  sd_file :: "bytes option"
  sd_tmp :: "bytes option"

datatype read_fault = ReadOk | ReadFails string

definition load_state :: "read_fault \<Rightarrow> state_disk \<Rightarrow> string + sni_state" where
  "load_state f d =
     (case f of
        ReadFails e \<Rightarrow> Inl e
      | ReadOk \<Rightarrow> (case sd_file d of Some data \<Rightarrow> decode_state data | None \<Rightarrow> Inr empty_state))"

datatype save_fault = SaveOk | DirFails string | CreateFails string | WriteFails nat string | SyncFails string | RenameFails string

definition save_state :: "save_fault \<Rightarrow> sni_state \<Rightarrow> state_disk \<Rightarrow> (string + unit) \<times> state_disk" where
  "save_state f st d =
     (case f of
        DirFails e \<Rightarrow> (Inl e, d)
      | CreateFails e \<Rightarrow> (Inl e, d)
      | WriteFails n e \<Rightarrow> (Inl e, d\<lparr>sd_tmp := Some (take n (encode_state st))\<rparr>)
      | SyncFails e \<Rightarrow> (Inl e, d\<lparr>sd_tmp := Some (encode_state st)\<rparr>)
      | RenameFails e \<Rightarrow> (Inl e, d\<lparr>sd_tmp := Some (encode_state st)\<rparr>)
      | SaveOk \<Rightarrow> (Inr (), d\<lparr>sd_file := Some (encode_state st), sd_tmp := None\<rparr>))"

section \<open>Well-formed states\<close>

definition wf_entry :: "entry \<Rightarrow> bool" where
  "wf_entry e \<longleftrightarrow> utf8 (en_domain e) \<and> (case en_ip e of Some ip \<Rightarrow> wf_ip ip | None \<Rightarrow> True)"

definition wf_state :: "sni_state \<Rightarrow> bool" where
  "wf_state st \<longleftrightarrow> list_all wf_entry (st_phase1 st @ st_phase2 st @ st_phase3 st) \<and> length (encode_state st) < 2 ^ 64"

section \<open>Lemmas\<close>

lemma take_field_bytes:
  assumes "length (pre @ put_bytes_field tag b @ post) < 2 ^ 64"
  shows "take_field err (pre @ put_bytes_field tag b @ post) (length pre + 1) = Inr (b, length (pre @ put_bytes_field tag b))"
  using take_field_put [of "pre @ [tag]" b post err] assms by (simp add: put_bytes_field_def)

lemma unat_of_char: "unat (of_char c :: byte) = (of_char c :: nat)"
proof -
  have "(of_char c :: byte) = of_nat (of_char c)" by (simp add: of_nat_of_char)
  then show ?thesis using nat_of_char_less_256 [of c] by (simp add: unat_of_nat take_bit_nat_eq_self)
qed

lemma of_as_bytes [simp]: "of_bytes (as_bytes s) = s"
  by (simp add: of_bytes_def as_bytes_def comp_def unat_of_char)

lemma utf8_ascii: "list_all (\<lambda>c. (of_char c :: nat) < 128) s \<Longrightarrow> utf8 (as_bytes s)"
  by (induction s) (auto simp: as_bytes_def word_less_nat_alt unat_of_char)

lemma utf8_ip: "utf8 (as_bytes (ip_str a))"
  by (rule utf8_ascii) (simp add: list_all_iff ip_str_ascii)

lemma put_bytes_field_nth: "(pre @ put_bytes_field tag b @ post) ! length pre = tag"
  by (simp add: put_bytes_field_def)

lemma put_bytes_field_pos: "length pre < length (pre @ put_bytes_field tag b @ post)"
  by (simp add: put_bytes_field_def)

text \<open>One field of an entry.\<close>

lemma decode_entry_step:
  assumes "length (pre @ put_bytes_field tag b @ post) < 2 ^ 64" "utf8 b" "tag \<in> {TAG_DOMAIN, TAG_IP}"
  shows "decode_entry_from (pre @ put_bytes_field tag b @ post) (length pre) domain ip =
    decode_entry_from (pre @ put_bytes_field tag b @ post) (length (pre @ put_bytes_field tag b))
      (if tag = TAG_DOMAIN then b else domain) (if tag = TAG_DOMAIN then ip else parse_ip (of_bytes b))"
  using take_field_bytes [OF assms(1)] put_bytes_field_nth [of pre tag b post] put_bytes_field_pos [of pre tag b post] assms(2,3)
  by (subst decode_entry_from.simps) (auto simp: Let_def)

lemma decode_entry_end: "decode_entry_from buf (length buf) d ip = Inr \<lparr>en_domain = d, en_ip = ip\<rparr>"
  by (subst decode_entry_from.simps) simp

lemma decode_encode_entry:
  assumes "wf_entry e" "length (encode_entry e) < 2 ^ 64"
  shows "decode_entry (encode_entry e) = Inr e"
proof (cases "en_ip e")
  case None
  then have b: "encode_entry e = put_bytes_field TAG_DOMAIN (en_domain e)" by (simp add: encode_entry_def)
  have "decode_entry_from (encode_entry e) 0 [] None = decode_entry_from (encode_entry e) (length (encode_entry e)) (en_domain e) None"
    using decode_entry_step [of "[]" TAG_DOMAIN "en_domain e" "[]" "[]" None] assms unfolding b by (simp add: wf_entry_def)
  with None show ?thesis by (simp add: decode_entry_def decode_entry_end)
next
  case (Some a)
  let ?d = "put_bytes_field TAG_DOMAIN (en_domain e)" and ?a = "put_bytes_field TAG_IP (as_bytes (ip_str a))"
  have b: "encode_entry e = ?d @ ?a" using Some by (simp add: encode_entry_def)
  have "decode_entry_from (?d @ ?a) 0 [] None = decode_entry_from (?d @ ?a) (length ?d) (en_domain e) None"
    using decode_entry_step [of "[]" TAG_DOMAIN "en_domain e" ?a "[]" None] assms unfolding b by (simp add: wf_entry_def)
  also have "\<dots> = decode_entry_from (?d @ ?a) (length (?d @ ?a)) (en_domain e) (Some a)"
    using decode_entry_step [of ?d TAG_IP "as_bytes (ip_str a)" "[]" "en_domain e" None] assms Some parse_ip_str [of a]
    unfolding b by (simp add: wf_entry_def utf8_ip tag_defs)
  finally show ?thesis using Some b by (simp only: decode_entry_def decode_entry_end) simp
qed

text \<open>The entries of one phase.\<close>

definition add_entry :: "byte \<Rightarrow> entry list \<Rightarrow> sni_state \<Rightarrow> sni_state" where
  "add_entry tag es st =
     (if tag = TAG_PHASE1 then st\<lparr>st_phase1 := st_phase1 st @ es\<rparr>
      else if tag = TAG_PHASE2 then st\<lparr>st_phase2 := st_phase2 st @ es\<rparr>
      else st\<lparr>st_phase3 := st_phase3 st @ es\<rparr>)"

lemma add_entry_add: "add_entry tag bs (add_entry tag as st) = add_entry tag (as @ bs) st" "add_entry tag [] st = st"
  by (simp_all add: add_entry_def)

lemma decode_state_step:
  assumes "length (pre @ put_bytes_field tag (encode_entry e) @ post) < 2 ^ 64" "wf_entry e" "tag \<in> {TAG_PHASE1, TAG_PHASE2, TAG_PHASE3}"
  shows "decode_state_from (pre @ put_bytes_field tag (encode_entry e) @ post) (length pre) st =
    decode_state_from (pre @ put_bytes_field tag (encode_entry e) @ post) (length (pre @ put_bytes_field tag (encode_entry e)))
      (add_entry tag [e] st)"
proof -
  have "decode_entry (encode_entry e) = Inr e"
    using assms by (intro decode_encode_entry) (auto simp: put_bytes_field_def)
  then show ?thesis
    using take_field_bytes [OF assms(1)] put_bytes_field_nth [of pre tag _ post] put_bytes_field_pos [of pre tag _ post] assms(3)
    by (subst decode_state_from.simps) (simp add: Let_def add_entry_def)
qed

lemma decode_state_entries:
  assumes "tag \<in> {TAG_PHASE1, TAG_PHASE2, TAG_PHASE3}" "list_all wf_entry es"
    and "length (pre @ concat (map (\<lambda>e. put_bytes_field tag (encode_entry e)) es) @ post) < 2 ^ 64"
  shows "decode_state_from (pre @ concat (map (\<lambda>e. put_bytes_field tag (encode_entry e)) es) @ post) (length pre) st =
    decode_state_from (pre @ concat (map (\<lambda>e. put_bytes_field tag (encode_entry e)) es) @ post)
      (length (pre @ concat (map (\<lambda>e. put_bytes_field tag (encode_entry e)) es))) (add_entry tag es st)"
  using assms(2,3)
proof (induction es arbitrary: pre st)
  case (Cons e es)
  let ?f = "put_bytes_field tag (encode_entry e)" and ?r = "concat (map (\<lambda>e. put_bytes_field tag (encode_entry e)) es)"
  have "decode_state_from (pre @ ?f @ ?r @ post) (length pre) st =
      decode_state_from (pre @ ?f @ ?r @ post) (length (pre @ ?f)) (add_entry tag [e] st)"
    using decode_state_step [of pre tag e "?r @ post"] assms(1) Cons.prems by simp
  with Cons.IH [of "pre @ ?f" "add_entry tag [e] st"] Cons.prems show ?case by (simp add: add_entry_add)
qed (simp add: add_entry_add)

section \<open>Properties\<close>

lemma decode_completed:
  assumes "c \<noteq> 0"
  shows "decode_state_from (pre @ TAG_COMPLETED # put_varint (ucast c)) (length pre) st = Inr (st\<lparr>st_completed := c\<rparr>)"
proof -
  have "ucast (ucast c :: 64 word) = c" by (rule bit_word_eqI) (auto simp: bit_simps)
  then show ?thesis
    using read_varint_put [of "pre @ [TAG_COMPLETED]" "ucast c" "[]"]
    by (subst decode_state_from.simps) (simp add: tag_defs decode_state_from.simps [of _ "Suc _"])
qed

lemma decode_encode_state:
  assumes "wf_state st"
  shows "decode_state (encode_state st) = Inr st"
proof -
  let ?f = "\<lambda>tag es. concat (map (\<lambda>e. put_bytes_field tag (encode_entry e)) es)"
  let ?p1 = "?f TAG_PHASE1 (st_phase1 st)" and ?p2 = "?f TAG_PHASE2 (st_phase2 st)" and ?p3 = "?f TAG_PHASE3 (st_phase3 st)"
  let ?c = "if st_completed st \<noteq> 0 then TAG_COMPLETED # put_varint (ucast (st_completed st)) else []"
  let ?buf = "?p1 @ ?p2 @ ?p3 @ ?c"
  have len: "length ?buf < 2 ^ 64" and wf: "list_all wf_entry (st_phase1 st)" "list_all wf_entry (st_phase2 st)" "list_all wf_entry (st_phase3 st)"
    using assms unfolding wf_state_def encode_state_def by auto
  have "decode_state_from ?buf 0 empty_state = decode_state_from ?buf (length ?p1) (add_entry TAG_PHASE1 (st_phase1 st) empty_state)"
    using decode_state_entries [of TAG_PHASE1 "st_phase1 st" "[]" "?p2 @ ?p3 @ ?c"] wf len by simp
  also have "\<dots> = decode_state_from ?buf (length (?p1 @ ?p2)) (add_entry TAG_PHASE2 (st_phase2 st) (add_entry TAG_PHASE1 (st_phase1 st) empty_state))"
    using decode_state_entries [of TAG_PHASE2 "st_phase2 st" ?p1 "?p3 @ ?c"] wf len by simp
  also have "\<dots> = decode_state_from ?buf (length (?p1 @ ?p2 @ ?p3))
      (add_entry TAG_PHASE3 (st_phase3 st) (add_entry TAG_PHASE2 (st_phase2 st) (add_entry TAG_PHASE1 (st_phase1 st) empty_state)))"
    using decode_state_entries [of TAG_PHASE3 "st_phase3 st" "?p1 @ ?p2" ?c] wf len by simp
  also have "\<dots> = Inr st"
  proof (cases "st_completed st = 0")
    case True
    then show ?thesis by (subst decode_state_from.simps) (simp add: add_entry_def tag_defs empty_state_def)
  next
    case False
    then show ?thesis
      using decode_completed [OF False, of "?p1 @ ?p2 @ ?p3"] by (simp add: add_entry_def tag_defs empty_state_def)
  qed
  finally show ?thesis by (simp add: decode_state_def encode_state_def)
qed

text \<open>
  C34: saving the state is atomic and loses nothing: whatever call of the save fails, and wherever a write is cut
  off, the next load sees the state that was there before; and when the save succeeds, the next load returns the
  saved state itself, with every record, address and phase mark.
\<close>

theorem state_save_atomic:
  assumes "wf_state st"
  shows "load_state ReadOk (snd (save_state f st d)) = (if fst (save_state f st d) = Inr () then Inr st else load_state ReadOk d)"
  using decode_encode_state [OF assms] by (cases f) (simp_all add: save_state_def load_state_def)

definition sample_state :: sni_state where
  "sample_state = \<lparr>st_phase1 = [entry_new [0x61] (V6 [0x2606, 0x4700, 0, 0, 0, 0, 0, 0x1111])],
     st_phase2 = [entry_new [0xC3, 0xA9] (V4 1 2 3 4)], st_phase3 = [\<lparr>en_domain = [0x62], en_ip = None\<rparr>], st_completed = 3\<rparr>"

lemma wf_sample_state: "wf_state sample_state"
proof -
  have "length (encode_state sample_state) < 100"
    by (simp add: encode_state_def sample_state_def entry_new_def encode_entry_def put_bytes_field_def as_bytes_def
        v6_str_def v4_str_def fmt_subslice_def hex_str.simps nat_str.simps put_varint.simps)
  then have "length (encode_state sample_state) < 2 ^ 64" by simp
  moreover have "list_all wf_entry (st_phase1 sample_state @ st_phase2 sample_state @ st_phase3 sample_state)"
    by (simp add: sample_state_def entry_new_def wf_entry_def cont_byte_def)
  ultimately show ?thesis by (simp add: wf_state_def)
qed

theorem state_save_atomic_witness:
  "load_state ReadOk (snd (save_state SaveOk sample_state \<lparr>sd_file = None, sd_tmp = Some [1]\<rparr>)) = Inr sample_state"
  using state_save_atomic [OF wf_sample_state, of SaveOk "\<lparr>sd_file = None, sd_tmp = Some [1]\<rparr>"] by (simp add: save_state_def)

end
