(* ===== verification/SniStage.thy ===== *)
theory SniStage
  imports SniState "HOL-Library.Multiset"
begin

text \<open>
  The worker pools of the SNI prober, \<open>sni_probe/src/pipeline.rs\<close>: a stage hands its entries to tasks, at most
  as many at a time as there are workers (a semaphore), and the tasks send what they keep into a channel of twice
  that capacity, which the stage empties into its result.

  The interleaving of dispatcher, tasks and receiver is a step relation. A task holds its permit from its start
  until it has finished, a full channel included: the free permits are the workers less the tasks. Two
  dispatchers occur in the source. In \<open>resolve_map_entries\<close> and \<open>probe_survival_entries\<close>, which the command
  \<open>run\<close> uses, the receiver starts when every entry has been handed out; in \<open>run_resolve_map\<close>,
  \<open>run_probe_survival\<close> and \<open>build_pools_entries_with_history\<close> it runs from the start.

  What a task does is given by two functions of a state the tasks share: a check made when it starts, and the
  verdict, which yields what is to be sent, if anything, and the new shared state. The network behind the verdict
  (name resolution, TLS handshakes) and the CIDR arithmetic of the crate \<open>ipnet\<close> are parameters.
\<close>

section \<open>Stages\<close>

datatype ('e, 'r) task = Started 'e | Checked 'e | Sending 'r

record ('e, 'r, 's) stage =
  sg_todo :: "'e list"
  sg_tasks :: "('e, 'r) task list"
  sg_chan :: "'r list"
  sg_recv :: bool
  sg_out :: "'r list"
  sg_kept :: nat
  sg_dropped :: nat
  sg_shared :: 's

text \<open>The work of a stage: which entries get a task at all, the check and the verdict.\<close>

record ('e, 'r, 's) work =
  wk_admit :: "'e \<Rightarrow> bool"
  wk_check :: "'s \<Rightarrow> 'e \<Rightarrow> bool"
  wk_verdict :: "'s \<Rightarrow> 'e \<Rightarrow> 'r option \<times> 's"

definition stage_start :: "bool \<Rightarrow> 'e list \<Rightarrow> 's \<Rightarrow> ('e, 'r, 's) stage" where
  "stage_start recv es s = \<lparr>sg_todo = es, sg_tasks = [], sg_chan = [], sg_recv = recv, sg_out = [], sg_kept = 0,
     sg_dropped = 0, sg_shared = s\<rparr>"

definition stage_done :: "('e, 'r, 's) stage \<Rightarrow> bool" where
  "stage_done g \<longleftrightarrow> sg_todo g = [] \<and> sg_tasks g = [] \<and> sg_chan g = [] \<and> sg_recv g"

inductive stage_step :: "nat \<Rightarrow> ('e, 'r, 's) work \<Rightarrow> ('e, 'r, 's) stage \<Rightarrow> ('e, 'r, 's) stage \<Rightarrow> bool" for w k where
  skip: "sg_todo g = e # es \<Longrightarrow> \<not> wk_admit k e \<Longrightarrow>
    stage_step w k g (g\<lparr>sg_todo := es, sg_dropped := sg_dropped g + 1\<rparr>)"
| spawn: "sg_todo g = e # es \<Longrightarrow> wk_admit k e \<Longrightarrow> length (sg_tasks g) < w \<Longrightarrow>
    stage_step w k g (g\<lparr>sg_todo := es, sg_tasks := sg_tasks g @ [Started e]\<rparr>)"
| turn_away: "sg_tasks g = xs @ Started e # ys \<Longrightarrow> \<not> wk_check k (sg_shared g) e \<Longrightarrow>
    stage_step w k g (g\<lparr>sg_tasks := xs @ ys, sg_dropped := sg_dropped g + 1\<rparr>)"
| pass: "sg_tasks g = xs @ Started e # ys \<Longrightarrow> wk_check k (sg_shared g) e \<Longrightarrow>
    stage_step w k g (g\<lparr>sg_tasks := xs @ Checked e # ys\<rparr>)"
| fail: "sg_tasks g = xs @ Checked e # ys \<Longrightarrow> wk_verdict k (sg_shared g) e = (None, s) \<Longrightarrow>
    stage_step w k g (g\<lparr>sg_tasks := xs @ ys, sg_dropped := sg_dropped g + 1, sg_shared := s\<rparr>)"
| succeed: "sg_tasks g = xs @ Checked e # ys \<Longrightarrow> wk_verdict k (sg_shared g) e = (Some r, s) \<Longrightarrow>
    stage_step w k g (g\<lparr>sg_tasks := xs @ Sending r # ys, sg_kept := sg_kept g + 1, sg_shared := s\<rparr>)"
| send: "sg_tasks g = xs @ Sending r # ys \<Longrightarrow> length (sg_chan g) < w * 2 \<Longrightarrow>
    stage_step w k g (g\<lparr>sg_tasks := xs @ ys, sg_chan := sg_chan g @ [r]\<rparr>)"
| listen: "\<not> sg_recv g \<Longrightarrow> sg_todo g = [] \<Longrightarrow> stage_step w k g (g\<lparr>sg_recv := True\<rparr>)"
| receive: "sg_recv g \<Longrightarrow> sg_chan g = r # rs \<Longrightarrow> stage_step w k g (g\<lparr>sg_chan := rs, sg_out := sg_out g @ [r]\<rparr>)"

definition stage_runs :: "nat \<Rightarrow> ('e, 'r, 's) work \<Rightarrow> ('e, 'r, 's) stage \<Rightarrow> ('e, 'r, 's) stage \<Rightarrow> bool" where
  "stage_runs w k = (stage_step w k)\<^sup>*\<^sup>*"

definition stuck :: "nat \<Rightarrow> ('e, 'r, 's) work \<Rightarrow> ('e, 'r, 's) stage \<Rightarrow> bool" where
  "stuck w k g \<longleftrightarrow> \<not> stage_done g \<and> (\<forall>g'. \<not> stage_step w k g g')"

section \<open>The stages of the source\<close>

definition CLOUDFLARE_CIDRS :: "string list" where
  "CLOUDFLARE_CIDRS =
     [''173.245.48.0/20'', ''103.21.244.0/22'', ''103.22.200.0/22'', ''103.31.4.0/22'', ''141.101.64.0/18'',
      ''108.162.192.0/18'', ''190.93.240.0/20'', ''188.114.96.0/20'', ''197.234.240.0/22'', ''198.41.128.0/17'',
      ''162.158.0.0/15'', ''104.16.0.0/13'', ''104.24.0.0/14'', ''172.64.0.0/13'', ''131.0.72.0/22'', ''1.1.1.0/24'',
      ''1.0.0.0/24'', ''199.27.128.0/21'', ''2400:cb00::/32'', ''2606:4700::/32'', ''2803:f800::/32'', ''2405:b500::/32'',
      ''2405:8100::/32'', ''2a06:98c0::/29'', ''2c0f:f248::/32'']"

definition is_cloudflare_ip :: "(string \<Rightarrow> ip_addr \<Rightarrow> bool) \<Rightarrow> ip_addr \<Rightarrow> bool" where
  "is_cloudflare_ip contains ip \<longleftrightarrow> list_ex (\<lambda>n. contains n ip) CLOUDFLARE_CIDRS"

definition resolve_work :: "(string \<Rightarrow> ip_addr \<Rightarrow> bool) \<Rightarrow> (bytes \<Rightarrow> ip_addr option) \<Rightarrow> (entry, entry, unit) work" where
  "resolve_work contains resolve_first =
     \<lparr>wk_admit = (\<lambda>e. True), wk_check = (\<lambda>s e. True),
      wk_verdict = (\<lambda>s e.
        (case (case en_ip e of Some ip \<Rightarrow> Some ip | None \<Rightarrow> resolve_first (en_domain e)) of
           Some ip \<Rightarrow> if is_cloudflare_ip contains ip then None else Some (entry_new (en_domain e) ip)
         | None \<Rightarrow> None, s))\<rparr>"

definition survival_work :: "(bytes \<Rightarrow> ip_addr \<Rightarrow> bool) \<Rightarrow> (entry, entry, unit) work" where
  "survival_work probe_survival =
     \<lparr>wk_admit = (\<lambda>e. en_ip e \<noteq> None), wk_check = (\<lambda>s e. True),
      wk_verdict = (\<lambda>s e.
        (case en_ip e of
           Some ip \<Rightarrow> if probe_survival (en_domain e) ip then Some (entry_new (en_domain e) ip) else None
         | None \<Rightarrow> None, s))\<rparr>"

text \<open>\<open>resolve_map_entries\<close> and \<open>probe_survival_entries\<close>: which results a stage can end with.\<close>

definition resolve_map_entries ::
    "(string \<Rightarrow> ip_addr \<Rightarrow> bool) \<Rightarrow> (bytes \<Rightarrow> ip_addr option) \<Rightarrow> nat \<Rightarrow> entry list \<Rightarrow> entry list \<times> nat \<times> nat \<Rightarrow> bool" where
  "resolve_map_entries contains resolve_first w es r \<longleftrightarrow>
     (\<exists>g. stage_runs w (resolve_work contains resolve_first) (stage_start False es ()) g \<and> stage_done g
        \<and> r = (sg_out g, sg_kept g, sg_dropped g))"

definition probe_survival_entries :: "(bytes \<Rightarrow> ip_addr \<Rightarrow> bool) \<Rightarrow> nat \<Rightarrow> entry list \<Rightarrow> entry list \<times> nat \<times> nat \<Rightarrow> bool" where
  "probe_survival_entries probe_survival w es r \<longleftrightarrow>
     (\<exists>g. stage_runs w (survival_work probe_survival) (stage_start False es ()) g \<and> stage_done g
        \<and> r = (sg_out g, sg_kept g, sg_dropped g))"

section \<open>Every run ends\<close>

fun task_weight :: "('e, 'r) task \<Rightarrow> nat" where
  "task_weight (Started e) = 4"
| "task_weight (Checked e) = 3"
| "task_weight (Sending r) = 2"

definition stage_weight :: "('e, 'r, 's) stage \<Rightarrow> nat" where
  "stage_weight g = 5 * length (sg_todo g) + sum_list (map task_weight (sg_tasks g)) + length (sg_chan g) + (if sg_recv g then 0 else 1)"

lemma stage_step_weight: "stage_step w k g g' \<Longrightarrow> stage_weight g' < stage_weight g"
  by (induction rule: stage_step.induct) (auto simp: stage_weight_def)

lemma stage_halts: "\<exists>g'. stage_runs w k g g' \<and> (\<forall>g''. \<not> stage_step w k g' g'')"
proof (induction "stage_weight g" arbitrary: g rule: less_induct)
  case less
  show ?case
  proof (cases "\<exists>g'. stage_step w k g g'")
    case True
    then obtain g' where g': "stage_step w k g g'" by blast
    from less [OF stage_step_weight [OF g']] g' show ?thesis
      unfolding stage_runs_def by (meson converse_rtranclp_into_rtranclp)
  qed (auto simp: stage_runs_def)
qed

section \<open>With the receiver running, nothing gets stuck\<close>

lemma task_moves:
  assumes "sg_tasks g = t # ts" "sg_recv g" "w > 0"
  shows "\<exists>g'. stage_step w k g g'"
proof (cases t)
  case (Started e)
  with assms(1) have "sg_tasks g = [] @ Started e # ts" by simp
  then show ?thesis by (cases "wk_check k (sg_shared g) e") (blast intro: stage_step.turn_away stage_step.pass)+
next
  case (Checked e)
  with assms(1) have t: "sg_tasks g = [] @ Checked e # ts" by simp
  obtain r s where "wk_verdict k (sg_shared g) e = (r, s)" by fastforce
  with t show ?thesis by (cases r) (blast intro: stage_step.fail stage_step.succeed)+
next
  case (Sending r)
  with assms(1) have t: "sg_tasks g = [] @ Sending r # ts" by simp
  show ?thesis
  proof (cases "sg_chan g")
    case Nil
    with stage_step.send [OF t, of w k] assms(3) show ?thesis by auto
  qed (use assms(2) in \<open>blast intro: stage_step.receive\<close>)
qed

lemma receiving_moves:
  assumes "sg_recv g" "w > 0" "\<not> stage_done g"
  shows "\<exists>g'. stage_step w k g g'"
proof (cases "sg_tasks g")
  case Nil
  show ?thesis
  proof (cases "sg_todo g")
    case todo: Nil
    with Nil assms show ?thesis by (cases "sg_chan g") (auto simp: stage_done_def intro: stage_step.receive)
  next
    case (Cons e es)
    show ?thesis
      using stage_step.skip [OF Cons, of k w] stage_step.spawn [OF Cons, of k w] Nil assms(2) by (cases "wk_admit k e") auto
  qed
qed (use task_moves assms in blast)

lemma recv_kept: "stage_step w k g g' \<Longrightarrow> sg_recv g \<Longrightarrow> sg_recv g'"
  by (induction rule: stage_step.induct) auto

lemma runs_recv: "stage_runs w k g g' \<Longrightarrow> sg_recv g \<Longrightarrow> sg_recv g'"
  unfolding stage_runs_def by (induction rule: rtranclp_induct) (auto dest: recv_kept)

lemma receiving_never_stuck:
  assumes "stage_runs w k (stage_start True es s) g" "w > 0"
  shows "\<not> stuck w k g"
  using runs_recv [OF assms(1)] receiving_moves [of g w k] assms(2) by (auto simp: stuck_def stage_start_def)

section \<open>What a stage produces\<close>

text \<open>The stages of \<open>run\<close> share no state: what an entry yields is a function of the entry.\<close>

definition yields :: "('e, 'r, unit) work \<Rightarrow> 'e \<Rightarrow> 'r list" where
  "yields k e = (case fst (wk_verdict k () e) of Some r \<Rightarrow> [r] | None \<Rightarrow> [])"

definition produce :: "('e, 'r, unit) work \<Rightarrow> 'e list \<Rightarrow> 'r list" where
  "produce k es = concat (map (\<lambda>e. if wk_admit k e then yields k e else []) es)"

definition no_check :: "('e, 'r, unit) work \<Rightarrow> bool" where
  "no_check k \<longleftrightarrow> (\<forall>s e. wk_check k s e)"

fun held :: "('e, 'r, unit) work \<Rightarrow> ('e, 'r) task \<Rightarrow> 'r list" where
  "held k (Started e) = yields k e"
| "held k (Checked e) = yields k e"
| "held k (Sending r) = [r]"

definition stage_inv :: "nat \<Rightarrow> ('e, 'r, unit) work \<Rightarrow> 'e list \<Rightarrow> ('e, 'r, unit) stage \<Rightarrow> bool" where
  "stage_inv w k es g \<longleftrightarrow>
     mset (produce k (sg_todo g)) + mset (concat (map (held k) (sg_tasks g))) + mset (sg_chan g) + mset (sg_out g) = mset (produce k es)
     \<and> length (sg_tasks g) \<le> w \<and> length (sg_chan g) \<le> w * 2 \<and> (\<not> sg_recv g \<longrightarrow> sg_out g = [])"

lemma produce_Cons: "produce k (e # es) = (if wk_admit k e then yields k e else []) @ produce k es"
  by (simp add: produce_def)

lemma stage_inv_start: "stage_inv w k es (stage_start b es ())"
  by (simp add: stage_inv_def stage_start_def)

lemma stage_inv_step:
  "stage_step w k g g' \<Longrightarrow> no_check k \<Longrightarrow> stage_inv w k es g \<Longrightarrow> stage_inv w k es g'"
  by (induction rule: stage_step.induct)
     (auto simp: stage_inv_def produce_Cons yields_def no_check_def ac_simps)

lemma stage_inv_runs:
  "stage_runs w k g g' \<Longrightarrow> no_check k \<Longrightarrow> stage_inv w k es g \<Longrightarrow> stage_inv w k es g'"
  unfolding stage_runs_def by (induction rule: rtranclp_induct) (auto intro: stage_inv_step)

lemmas stage_inv_reached = stage_inv_runs [OF _ _ stage_inv_start]

lemma stage_result: "stage_inv w k es g \<Longrightarrow> stage_done g \<Longrightarrow> mset (sg_out g) = mset (produce k es)"
  by (simp add: stage_inv_def stage_done_def produce_def)

lemma yields_le: "length (yields k e) \<le> 1"
  by (simp add: yields_def split: option.splits)

lemma held_le: "length (concat (map (held k) ts)) \<le> length ts"
proof (induction ts)
  case (Cons t ts)
  have "length (held k t) \<le> 1" using yields_le by (cases t) auto
  with Cons show ?case by simp
qed simp

lemma stage_inv_sizes:
  assumes "stage_inv w k es g"
  shows "length (produce k es) = length (produce k (sg_todo g)) + length (concat (map (held k) (sg_tasks g))) + length (sg_chan g) + length (sg_out g)"
proof -
  have "size (mset (produce k es)) = size (mset (produce k (sg_todo g)) + mset (concat (map (held k) (sg_tasks g))) + mset (sg_chan g) + mset (sg_out g))"
    using assms by (simp only: stage_inv_def)
  then show ?thesis by (simp only: size_union size_mset)
qed

section \<open>Waiting for the hand-out to finish before receiving\<close>

text \<open>More than three results per worker never fit: the channel takes two, the waiting tasks one.\<close>

lemma not_listening_step:
  assumes "stage_step w k g g'" "stage_inv w k es g" "length (produce k es) > 3 * w" "\<not> sg_recv g"
  shows "\<not> sg_recv g'"
  using assms
proof cases
  case listen
  have "length (concat (map (held k) (sg_tasks g))) \<le> w" using held_le [of k "sg_tasks g"] assms(2) by (simp add: stage_inv_def)
  with stage_inv_sizes [OF assms(2)] assms listen show ?thesis by (simp add: stage_inv_def produce_def)
qed auto

lemma not_listening:
  assumes "stage_runs w k (stage_start False es ()) g" "no_check k" "length (produce k es) > 3 * w"
  shows "\<not> sg_recv g"
  using assms(1)
  unfolding stage_runs_def
proof (induction rule: rtranclp_induct)
  case (step g g')
  then have "stage_inv w k es g" using stage_inv_reached [OF _ assms(2)] unfolding stage_runs_def by blast
  with step not_listening_step assms(3) show ?case by blast
qed (simp add: stage_start_def)

lemma sequential_deadlock:
  assumes "stage_runs w k (stage_start False es ()) g" "no_check k" "length (produce k es) > 3 * w"
  shows "\<not> stage_done g" "\<exists>g'. stage_runs w k g g' \<and> stuck w k g'"
proof -
  show "\<not> stage_done g" using not_listening [OF assms] by (simp add: stage_done_def)
  obtain g' where g': "stage_runs w k g g'" "\<forall>g''. \<not> stage_step w k g' g''" using stage_halts by blast
  then have "stage_runs w k (stage_start False es ()) g'" using assms(1) unfolding stage_runs_def by auto
  from not_listening [OF this assms(2,3)] g' show "\<exists>g'. stage_runs w k g g' \<and> stuck w k g'"
    by (auto simp: stuck_def stage_done_def)
qed

text \<open>With fewer results, no state is stuck.\<close>

lemma stuck_tasks_send:
  assumes "\<forall>g'. \<not> stage_step w k g g'"
  shows "\<forall>t \<in> set (sg_tasks g). \<exists>r. t = Sending r"
proof
  fix t assume "t \<in> set (sg_tasks g)"
  then obtain xs ys where t: "sg_tasks g = xs @ t # ys" by (meson split_list)
  show "\<exists>r. t = Sending r"
  proof (cases t)
    case (Started e)
    with t assms stage_step.turn_away [of g xs e ys k w] stage_step.pass [of g xs e ys k w] show ?thesis by auto
  next
    case (Checked e)
    obtain r s where v: "wk_verdict k (sg_shared g) e = (r, s)" by fastforce
    with Checked t assms stage_step.fail [of g xs e ys k s w] stage_step.succeed [of g xs e ys k _ s w] show ?thesis
      by (cases r) auto
  qed simp
qed

lemma all_sending_held: "\<forall>t \<in> set ts. \<exists>r. t = Sending r \<Longrightarrow> length (concat (map (held k) ts)) = length ts"
  by (induction ts) auto

lemma sequential_live:
  assumes "stage_runs w k (stage_start False es ()) g" "no_check k" "length (produce k es) < 3 * w"
  shows "\<not> stuck w k g"
proof
  assume s: "stuck w k g"
  have inv: "stage_inv w k es g" using stage_inv_reached [OF assms(1,2)] .
  have no: "\<forall>g'. \<not> stage_step w k g g'" and nd: "\<not> stage_done g" using s by (simp_all add: stuck_def)
  have nr: "\<not> sg_recv g" using receiving_moves [of g w k] nd no assms(3) by auto
  then obtain e es' where todo: "sg_todo g = e # es'" using no stage_step.listen [of g w k] by (cases "sg_todo g") auto
  then have full: "length (sg_tasks g) = w"
    using no stage_step.skip [OF todo, of k w] stage_step.spawn [OF todo, of k w] inv by (force simp: stage_inv_def)
  have sending: "\<forall>t \<in> set (sg_tasks g). \<exists>r. t = Sending r" using stuck_tasks_send [OF no] .
  obtain t ts where ts: "sg_tasks g = t # ts" using full assms(3) by (cases "sg_tasks g") auto
  then obtain r where "sg_tasks g = [] @ Sending r # ts" using sending by auto
  from stage_step.send [OF this, of w k] no have "length (sg_chan g) \<ge> w * 2" by (meson not_le)
  with all_sending_held [OF sending, of k] full stage_inv_sizes [OF inv] assms(3) show False by simp
qed

section \<open>The counters\<close>

definition sending :: "('e, 'r) task \<Rightarrow> bool" where
  "sending t \<longleftrightarrow> (case t of Sending r \<Rightarrow> True | _ \<Rightarrow> False)"

definition stage_counts :: "nat \<Rightarrow> ('e, 'r, 's) stage \<Rightarrow> bool" where
  "stage_counts n g \<longleftrightarrow>
     length (sg_todo g) + length (filter (\<lambda>t. \<not> sending t) (sg_tasks g)) + sg_kept g + sg_dropped g = n
     \<and> sg_kept g = length (filter sending (sg_tasks g)) + length (sg_chan g) + length (sg_out g)"

lemma stage_counts_step: "stage_step w k g g' \<Longrightarrow> stage_counts n g \<Longrightarrow> stage_counts n g'"
  by (induction rule: stage_step.induct) (auto simp: stage_counts_def sending_def)

lemma stage_counts_runs: "stage_runs w k (stage_start b es s) g \<Longrightarrow> stage_counts (length es) g"
  unfolding stage_runs_def
proof (induction rule: rtranclp_induct)
  case base
  show ?case by (simp add: stage_counts_def stage_start_def)
qed (rule stage_counts_step)

lemma stage_done_counts:
  "stage_counts n g \<Longrightarrow> stage_done g \<Longrightarrow> sg_kept g = length (sg_out g) \<and> sg_kept g + sg_dropped g = n"
  by (simp add: stage_counts_def stage_done_def)

section \<open>Where results come from\<close>

text \<open>A result belongs to one entry, which passed the check, and no entry is used twice.\<close>

fun task_entry :: "('r \<Rightarrow> 'e) \<Rightarrow> ('e, 'r) task \<Rightarrow> 'e" where
  "task_entry origin (Started e) = e"
| "task_entry origin (Checked e) = e"
| "task_entry origin (Sending r) = origin r"

definition stage_origin :: "('e, 'r, 's) work \<Rightarrow> ('r \<Rightarrow> 'e) \<Rightarrow> 'e list \<Rightarrow> ('e, 'r, 's) stage \<Rightarrow> bool" where
  "stage_origin k origin es g \<longleftrightarrow>
     mset (sg_todo g) + mset (map (task_entry origin) (sg_tasks g)) + mset (map origin (sg_chan g)) + mset (map origin (sg_out g)) \<subseteq># mset es"

definition good_result :: "('e, 'r, 's) work \<Rightarrow> 'r \<Rightarrow> bool" where
  "good_result k r \<longleftrightarrow> (\<exists>s s' s'' e. wk_check k s e \<and> wk_verdict k s' e = (Some r, s''))"

definition task_good :: "('e, 'r, 's) work \<Rightarrow> ('e, 'r) task \<Rightarrow> bool" where
  "task_good k t \<longleftrightarrow>
     (case t of Started e \<Rightarrow> True | Checked e \<Rightarrow> (\<exists>s. wk_check k s e) | Sending r \<Rightarrow> good_result k r)"

definition stage_good :: "('e, 'r, 's) work \<Rightarrow> ('e, 'r, 's) stage \<Rightarrow> bool" where
  "stage_good k g \<longleftrightarrow> list_all (task_good k) (sg_tasks g) \<and> list_all (good_result k) (sg_chan g @ sg_out g)"

lemma stage_good_step: "stage_step w k g g' \<Longrightarrow> stage_good k g \<Longrightarrow> stage_good k g'"
  by (induction rule: stage_step.induct) (auto simp: stage_good_def task_good_def good_result_def)

lemma stage_good_runs: "stage_runs w k (stage_start b es s) g \<Longrightarrow> stage_good k g"
  unfolding stage_runs_def
proof (induction rule: rtranclp_induct)
  case base
  show ?case by (simp add: stage_good_def stage_start_def)
qed (rule stage_good_step)

lemma subseteq_drop: "add_mset x A \<subseteq># B \<Longrightarrow> A \<subseteq># B"
  by (meson subset_mset.dual_order.trans mset_subset_eq_add_right union_mset_add_mset_left subset_mset.order_refl mset_subset_eq_insertD subset_mset.less_imp_le)

lemma stage_origin_step:
  assumes "\<And>s e r s'. wk_verdict k s e = (Some r, s') \<Longrightarrow> origin r = e"
  shows "stage_step w k g g' \<Longrightarrow> stage_origin k origin es g \<Longrightarrow> stage_origin k origin es g'"
  by (induction rule: stage_step.induct) (auto simp: stage_origin_def assms dest: subseteq_drop)

lemma stage_origin_runs:
  assumes "\<And>s e r s'. wk_verdict k s e = (Some r, s') \<Longrightarrow> origin r = e" "stage_runs w k (stage_start b es s) g"
  shows "mset (map origin (sg_out g)) \<subseteq># mset es"
proof -
  have "stage_origin k origin es g"
    using assms(2) unfolding stage_runs_def
  proof (induction rule: rtranclp_induct)
    case base
    show ?case by (simp add: stage_origin_def stage_start_def)
  next
    case (step y z)
    show ?case by (rule stage_origin_step [OF assms(1) step(2,3)])
  qed
  then show ?thesis
    unfolding stage_origin_def by (meson mset_subset_eq_add_right subset_mset.order_trans)
qed

text \<open>A stage with one entry that passes.\<close>

lemma single_run:
  fixes k :: "('e, 'r, 's) work"
  assumes "w > 0" "wk_admit k e" "wk_check k s e" "wk_verdict k s e = (Some r, s')"
  shows "\<exists>g. stage_runs w k (stage_start True [e] s) g \<and> stage_done g \<and> sg_out g = [r]"
proof -
  let ?g0 = "stage_start True [e] s :: ('e, 'r, 's) stage"
  let ?g1 = "?g0\<lparr>sg_todo := [], sg_tasks := sg_tasks ?g0 @ [Started e]\<rparr>"
  let ?g2 = "?g1\<lparr>sg_tasks := [] @ Checked e # []\<rparr>"
  let ?g3 = "?g2\<lparr>sg_tasks := [] @ Sending r # [], sg_kept := sg_kept ?g2 + 1, sg_shared := s'\<rparr>"
  let ?g4 = "?g3\<lparr>sg_tasks := [] @ [], sg_chan := sg_chan ?g3 @ [r]\<rparr>"
  let ?g5 = "?g4\<lparr>sg_chan := [], sg_out := sg_out ?g4 @ [r]\<rparr>"
  have "stage_step w k ?g0 ?g1" by (rule stage_step.spawn) (use assms in \<open>simp_all add: stage_start_def\<close>)
  moreover have "stage_step w k ?g1 ?g2" by (rule stage_step.pass) (use assms in \<open>simp_all add: stage_start_def\<close>)
  moreover have "stage_step w k ?g2 ?g3" by (rule stage_step.succeed) (use assms in \<open>simp_all add: stage_start_def\<close>)
  moreover have "stage_step w k ?g3 ?g4" by (rule stage_step.send) (use assms in \<open>simp_all add: stage_start_def\<close>)
  moreover have "stage_step w k ?g4 ?g5" by (rule stage_step.receive) (simp_all add: stage_start_def)
  ultimately have "stage_runs w k ?g0 ?g5"
    unfolding stage_runs_def by (meson rtranclp.rtrancl_into_rtrancl rtranclp.rtrancl_refl)
  moreover have "stage_done ?g5 \<and> sg_out ?g5 = [r]" by (simp add: stage_done_def stage_start_def)
  ultimately show ?thesis by blast
qed

section \<open>The stages of the run command\<close>

lemma stage_no_check: "no_check (survival_work p)" "no_check (resolve_work c q)"
  by (simp_all add: no_check_def survival_work_def resolve_work_def)

definition survivors :: "(bytes \<Rightarrow> ip_addr \<Rightarrow> bool) \<Rightarrow> entry list \<Rightarrow> entry list" where
  "survivors probe es = filter (\<lambda>e. case en_ip e of Some ip \<Rightarrow> probe (en_domain e) ip | None \<Rightarrow> False) es"

lemma survivors_produce: "produce (survival_work probe) es = survivors probe es"
  by (induction es)
     (auto simp: produce_def survivors_def yields_def survival_work_def entry_new_def split: option.splits)

text \<open>What a sequential stage that is not stuck can return, and that it returns.\<close>

lemma sequential_outcome:
  assumes "stage_runs w k (stage_start False es ()) g" "no_check k" "stage_done g"
  shows "mset (sg_out g) = mset (produce k es)" "sg_kept g = length (produce k es)" "sg_kept g + sg_dropped g = length es"
proof -
  show m: "mset (sg_out g) = mset (produce k es)" using stage_result [OF stage_inv_reached [OF assms(1,2)] assms(3)] .
  show "sg_kept g = length (produce k es)" "sg_kept g + sg_dropped g = length es"
    using stage_done_counts [OF stage_counts_runs [OF assms(1)] assms(3)] arg_cong [OF m, of size] by simp_all
qed

lemma live_run_ends:
  assumes "\<And>g'. stage_runs w k g g' \<Longrightarrow> \<not> stuck w k g'"
  shows "\<exists>g'. stage_runs w k g g' \<and> stage_done g'"
  using stage_halts [of w k g] assms by (auto simp: stuck_def)

lemma sequential_returns:
  assumes "no_check k" "length (produce k es) < 3 * w"
  shows "\<exists>g. stage_runs w k (stage_start False es ()) g \<and> stage_done g"
  by (rule live_run_ends) (rule sequential_live [OF _ assms])

section \<open>Properties\<close>

text \<open>
  Also: what the survival stage returns, it returns rightly: the result is, up to the order in which the tasks
  finished, exactly the entries with an address whose probe succeeded, each as often as it was handed in, and the
  counters of kept and dropped entries add up to the input.
\<close>

theorem survival_result_exact:
  assumes "probe_survival_entries probe w es (out, kept, dropped)"
  shows "mset out = mset (survivors probe es) \<and> kept = length (survivors probe es) \<and> kept + dropped = length es"
proof -
  obtain g where "stage_runs w (survival_work probe) (stage_start False es ()) g" "stage_done g"
      and r: "out = sg_out g" "kept = sg_kept g" "dropped = sg_dropped g"
    using assms by (auto simp: probe_survival_entries_def)
  from sequential_outcome [OF this(1) stage_no_check(1) this(2)] r show ?thesis by (simp add: survivors_produce)
qed


definition many_survivors :: "entry list" where
  "many_survivors = replicate 4 (entry_new [0x61] (V4 1 2 3 4))"

theorem survival_result_exact_witness:
  "\<exists>out kept dropped. probe_survival_entries (\<lambda>d ip. True) 2 many_survivors (out, kept, dropped)
     \<and> mset out = mset many_survivors \<and> kept + dropped = 4"
proof -
  have "\<exists>g. stage_runs 2 (survival_work (\<lambda>d ip. True)) (stage_start False many_survivors ()) g \<and> stage_done g"
    by (rule sequential_returns [OF stage_no_check(1)])
       (simp add: survivors_produce survivors_def many_survivors_def entry_new_def)
  then obtain out kept dropped where r: "probe_survival_entries (\<lambda>d ip. True) 2 many_survivors (out, kept, dropped)"
    by (auto simp: probe_survival_entries_def)
  from r survival_result_exact [OF r] show ?thesis
    by (intro exI conjI) (auto simp: survivors_def many_survivors_def entry_new_def)
qed


end
