(* ===== verification/SniPools.thy ===== *)
theory SniPools
  imports SniStage "HOL-Library.List_Lexorder"
begin

text \<open>
  The third phase of the SNI prober: the history store (\<open>storage.rs\<close>), countries and networks (\<open>geo.rs\<close>), the
  acceptance test (\<open>tls.rs\<close>), the tasks of \<open>build_pools_entries_with_history\<close> as the work of a stage, and the
  pool files that \<open>write_dual_pb\<close> merges them into.

  The history is the tables of the \<open>redb\<close> database; a transaction that cannot be opened or committed is the
  flag \<open>sto_up\<close>. Values the code keeps as JSON text are kept as the values themselves. Times are seconds. The MMDB
  lookup and the TLS probe are parameters. \<open>to_uppercase\<close> is exact as far as ASCII results are concerned: the
  table lists the characters beyond ASCII whose upper case is ASCII.
\<close>

section \<open>Countries and networks\<close>

definition ascii_upper :: "char \<Rightarrow> char" where
  "ascii_upper c = (if 97 \<le> (of_char c :: nat) \<and> (of_char c :: nat) \<le> 122 then char_of ((of_char c :: nat) - 32) else c)"

definition upper_table :: "(string \<times> string) list" where
  "upper_table =
     [([CHR 0xC4, CHR 0xB1], ''I''), ([CHR 0xC5, CHR 0xBF], ''S''), ([CHR 0xC3, CHR 0x9F], ''SS''),
      ([CHR 0xEF, CHR 0xAC, CHR 0x80], ''FF''), ([CHR 0xEF, CHR 0xAC, CHR 0x81], ''FI''), ([CHR 0xEF, CHR 0xAC, CHR 0x82], ''FL''),
      ([CHR 0xEF, CHR 0xAC, CHR 0x83], ''FFI''), ([CHR 0xEF, CHR 0xAC, CHR 0x84], ''FFL''), ([CHR 0xEF, CHR 0xAC, CHR 0x85], ''ST''),
      ([CHR 0xEF, CHR 0xAC, CHR 0x86], ''ST'')]"

function to_uppercase :: "string \<Rightarrow> string" where
  "to_uppercase [] = []"
| "to_uppercase (c # s) =
     (case find (\<lambda>(b, u). prefix b (c # s)) upper_table of
        Some (b, u) \<Rightarrow> u @ to_uppercase (drop (length b - 1) s)
      | None \<Rightarrow> ascii_upper c # to_uppercase s)"
  by pat_completeness auto
termination by (relation "measure length") (auto simp: le_imp_less_Suc)

definition BLOCKED_COUNTRIES :: "string list" where
  "BLOCKED_COUNTRIES = [''CN'', ''HK'', ''MO'', ''IR'', ''RU'', ''KP'']"

definition is_blocked_country :: "string \<Rightarrow> bool" where
  "is_blocked_country code \<longleftrightarrow> to_uppercase code \<in> set BLOCKED_COUNTRIES"

record geo_record =
  ge_country :: "string option"
  ge_country_code :: "string option"
  ge_asn :: "string option"
  ge_as_name :: "string option"
  ge_as_domain :: "string option"
  ge_maxmind_country :: "string option option"
  ge_maxmind_registered :: "string option option"
  ge_as_number :: "nat option"
  ge_as_org :: "string option"

definition opt_filter :: "('a \<Rightarrow> bool) \<Rightarrow> 'a option \<Rightarrow> 'a option" where
  "opt_filter P x = (case x of Some v \<Rightarrow> if P v then Some v else None | None \<Rightarrow> None)"

definition or_else :: "'a option \<Rightarrow> 'a option \<Rightarrow> 'a option" where
  "or_else x y = (case x of Some v \<Rightarrow> Some v | None \<Rightarrow> y)"

definition opt_or :: "'a \<Rightarrow> 'a option \<Rightarrow> 'a" where
  "opt_or d x = (case x of Some v \<Rightarrow> v | None \<Rightarrow> d)"

definition geo_country :: "geo_record \<Rightarrow> string" where
  "geo_country r = opt_or ''UNKNOWN''
     (or_else (map_option to_uppercase (opt_filter (\<lambda>s. s \<noteq> []) (ge_country_code r)))
     (or_else (map_option to_uppercase (opt_filter (\<lambda>s. length s = 2) (ge_country r)))
     (or_else (map_option to_uppercase (opt_filter (\<lambda>s. s \<noteq> []) (Option.bind (ge_maxmind_country r) id)))
       (map_option to_uppercase (opt_filter (\<lambda>s. s \<noteq> []) (Option.bind (ge_maxmind_registered r) id))))))"

function trim_start_matches :: "string \<Rightarrow> string \<Rightarrow> string" where
  "trim_start_matches p s = (if p \<noteq> [] \<and> prefix p s then trim_start_matches p (drop (length p) s) else s)"
  by pat_completeness auto
termination by (relation "measure (\<lambda>(p, s). length s)") (auto simp: prefix_def)

declare trim_start_matches.simps [simp del]

definition geo_asn :: "geo_record \<Rightarrow> (nat \<times> string) option" where
  "geo_asn r =
     (let org = opt_or [] (or_else (opt_filter (\<lambda>s. s \<noteq> []) (ge_as_name r)) (opt_filter (\<lambda>s. s \<noteq> []) (ge_as_domain r)))
      in or_else
           (Option.bind (opt_filter (\<lambda>s. s \<noteq> []) (ge_asn r)) (\<lambda>raw.
              map_option (\<lambda>n. (n, org)) (parse_unsigned 4294967295 (trim_start_matches ''as'' (trim_start_matches ''AS'' raw)))))
           (map_option (\<lambda>n. (n, opt_or [] (ge_as_org r))) (ge_as_number r)))"

type_synonym geo_db = "ip_addr \<Rightarrow> geo_record option"

definition db_country :: "geo_db \<Rightarrow> ip_addr \<Rightarrow> string" where
  "db_country g ip = (case g ip of Some r \<Rightarrow> geo_country r | None \<Rightarrow> ''UNKNOWN'')"

definition db_asn :: "geo_db \<Rightarrow> ip_addr \<Rightarrow> (nat \<times> string) option" where
  "db_asn g ip = Option.bind (g ip) geo_asn"

section \<open>The acceptance test\<close>

record tls_probe =
  tp_tls13 :: bool
  tp_alpn :: "string option"
  tp_curve :: "string option"
  tp_chain_len :: nat
  tp_total_bytes :: nat
  tp_headers :: "string \<rightharpoonup> string"
  tp_http_status :: "nat option"
  tp_h3_support :: bool

definition to_ascii_uppercase :: "string \<Rightarrow> string" where
  "to_ascii_uppercase s = map ascii_upper s"

definition is_valid_group :: "string \<Rightarrow> bool" where
  "is_valid_group curve \<longleftrightarrow> prefix ''X25519'' (to_ascii_uppercase curve)"

definition is_pq_group :: "string \<Rightarrow> bool" where
  "is_pq_group curve \<longleftrightarrow>
     (let c = to_ascii_uppercase curve in is_valid_group c \<and> (contains_str ''MLKEM'' c \<or> contains_str ''KYBER'' c))"

definition is_pq :: "tls_probe \<Rightarrow> bool" where
  "is_pq p \<longleftrightarrow> (case tp_curve p of Some c \<Rightarrow> is_pq_group c | None \<Rightarrow> False)"

definition probe_valid_group :: "tls_probe \<Rightarrow> bool" where
  "probe_valid_group p \<longleftrightarrow> (case tp_curve p of Some c \<Rightarrow> is_valid_group c | None \<Rightarrow> False)"

definition MAX_CERT_CHAIN_DEPTH :: nat where
  "MAX_CERT_CHAIN_DEPTH = 3"

definition MAX_CERT_BYTES :: nat where
  "MAX_CERT_BYTES = 5500"

definition has_h3_altsvc :: "tls_probe \<Rightarrow> bool" where
  "has_h3_altsvc p \<longleftrightarrow> (case tp_headers p ''alt-svc'' of Some v \<Rightarrow> contains_str ''h3'' (to_ascii_lowercase v) | None \<Rightarrow> False)"

definition is_compatible_http :: "(string \<rightharpoonup> string) \<Rightarrow> bool" where
  "is_compatible_http headers \<longleftrightarrow>
     headers ''cf-ray'' = None \<and> headers ''cf-cache-status'' = None
     \<and> (case headers ''server'' of
          Some s \<Rightarrow> \<not> contains_str ''cloudflare'' (to_ascii_lowercase s) \<and> \<not> contains_str ''hcdn'' (to_ascii_lowercase s)
        | None \<Rightarrow> True)"

definition validate_probe :: "tls_probe \<Rightarrow> bool" where
  "validate_probe p \<longleftrightarrow>
     tp_tls13 p \<and> probe_valid_group p \<and> tp_chain_len p \<le> MAX_CERT_CHAIN_DEPTH \<and> tp_total_bytes p \<le> MAX_CERT_BYTES
     \<and> (tp_alpn p = Some ''h2'' \<or> tp_h3_support p \<or> has_h3_altsvc p) \<and> is_compatible_http (tp_headers p)"

section \<open>The history\<close>

record success_info =
  si_domain :: bytes
  si_country :: string
  si_tested_at :: nat

record asn_info =
  ai_org :: string
  ai_country :: string
  ai_added_at :: nat

record storage =
  sto_failed :: "bytes \<rightharpoonup> nat"
  sto_failed_expiry :: "bytes \<rightharpoonup> nat"
  sto_success :: "bytes \<rightharpoonup> success_info"
  sto_success_expiry :: "bytes \<rightharpoonup> nat"
  sto_blocked_country :: "bytes \<rightharpoonup> string"
  sto_blocked_asn :: "bytes \<rightharpoonup> string"
  sto_asn :: "nat \<rightharpoonup> asn_info"
  sto_asn_expiry :: "nat \<rightharpoonup> nat"
  sto_ttl_secs :: nat
  sto_up :: bool

definition storage_open :: "nat \<Rightarrow> storage" where
  "storage_open ttl_days = \<lparr>sto_failed = Map.empty, sto_failed_expiry = Map.empty, sto_success = Map.empty,
     sto_success_expiry = Map.empty, sto_blocked_country = Map.empty, sto_blocked_asn = Map.empty, sto_asn = Map.empty,
     sto_asn_expiry = Map.empty, sto_ttl_secs = ttl_days * 24 * 3600, sto_up = True\<rparr>"

definition is_failed_recently :: "nat \<Rightarrow> storage \<Rightarrow> bytes \<Rightarrow> bool" where
  "is_failed_recently now s d \<longleftrightarrow>
     sto_up s \<and> (case sto_failed_expiry s d of Some x \<Rightarrow> \<not> x < now \<and> sto_failed s d \<noteq> None | None \<Rightarrow> False)"

definition put_failure :: "nat \<Rightarrow> bytes \<Rightarrow> storage \<Rightarrow> storage" where
  "put_failure now d s = s\<lparr>sto_failed := (sto_failed s)(d \<mapsto> now), sto_failed_expiry := (sto_failed_expiry s)(d \<mapsto> now + sto_ttl_secs s)\<rparr>"

definition append_failures :: "nat \<Rightarrow> bytes list \<Rightarrow> storage \<Rightarrow> storage" where
  "append_failures now ds s = (if ds = [] \<or> \<not> sto_up s then s else fold (put_failure now) ds s)"

definition save_success :: "nat \<Rightarrow> bytes \<Rightarrow> string \<Rightarrow> storage \<Rightarrow> storage" where
  "save_success now d country s =
     (if \<not> sto_up s then s
      else s\<lparr>sto_success := (sto_success s)(d \<mapsto> \<lparr>si_domain = d, si_country = country, si_tested_at = now\<rparr>),
             sto_success_expiry := (sto_success_expiry s)(d \<mapsto> now + sto_ttl_secs s)\<rparr>)"

definition load_success_history :: "nat \<Rightarrow> storage \<Rightarrow> bytes \<rightharpoonup> string" where
  "load_success_history now s d =
     (if \<not> sto_up s then None
      else (case (sto_success s d, sto_success_expiry s d) of
              (Some i, Some x) \<Rightarrow> if x \<ge> now then Some (si_country i) else None
            | _ \<Rightarrow> None))"

definition add_blocked_domain :: "bytes \<Rightarrow> string \<Rightarrow> bool \<Rightarrow> storage \<Rightarrow> storage" where
  "add_blocked_domain d reason by_asn s =
     (if \<not> sto_up s then s
      else if by_asn then s\<lparr>sto_blocked_asn := (sto_blocked_asn s)(d \<mapsto> reason)\<rparr>
      else s\<lparr>sto_blocked_country := (sto_blocked_country s)(d \<mapsto> reason)\<rparr>)"

definition add_asn_to_blocklist :: "nat \<Rightarrow> nat \<Rightarrow> string \<Rightarrow> string \<Rightarrow> storage \<Rightarrow> storage" where
  "add_asn_to_blocklist now asn org country s =
     (if \<not> sto_up s then s
      else s\<lparr>sto_asn := (sto_asn s)(asn \<mapsto> \<lparr>ai_org = org, ai_country = country, ai_added_at = now\<rparr>),
             sto_asn_expiry := (sto_asn_expiry s)(asn \<mapsto> now + sto_ttl_secs s)\<rparr>)"

definition SEED_BLOCKED_ASNS :: "nat list" where
  "SEED_BLOCKED_ASNS =
     [45102, 55967, 132203, 4808, 4134, 4811, 38283, 24151, 21859, 17623, 4837, 58466, 45275, 58772, 24542, 23650, 23764,
      4538, 38176, 17429, 149979, 45081, 141024, 136190, 212238]"

text \<open>The keys of the list \<open>load_asn_blocklist\<close> returns.\<close>

definition load_asn_blocklist :: "nat \<Rightarrow> storage \<Rightarrow> nat \<Rightarrow> bool" where
  "load_asn_blocklist now s asn \<longleftrightarrow>
     asn \<in> set SEED_BLOCKED_ASNS
     \<or> (sto_up s \<and> sto_asn s asn \<noteq> None \<and> (case sto_asn_expiry s asn of Some x \<Rightarrow> x \<ge> now | None \<Rightarrow> False))"

definition clear_all :: "storage \<Rightarrow> storage" where
  "clear_all s =
     (if \<not> sto_up s then s
      else s\<lparr>sto_failed := Map.empty, sto_failed_expiry := Map.empty, sto_success := Map.empty, sto_success_expiry := Map.empty,
             sto_blocked_country := Map.empty, sto_blocked_asn := Map.empty, sto_asn := Map.empty, sto_asn_expiry := Map.empty\<rparr>)"

record asn_blocklist =
  bl_blocked :: "nat \<Rightarrow> bool"
  bl_counts :: "nat \<rightharpoonup> nat"
  bl_threshold :: nat

definition blocklist_new :: "nat \<Rightarrow> storage \<Rightarrow> nat \<Rightarrow> asn_blocklist" where
  "blocklist_new now s threshold = \<lparr>bl_blocked = load_asn_blocklist now s, bl_counts = Map.empty, bl_threshold = threshold\<rparr>"

definition record_failure :: "nat \<Rightarrow> asn_blocklist \<Rightarrow> bool \<times> asn_blocklist" where
  "record_failure asn b =
     (if bl_blocked b asn then (False, b)
      else
        (let c = opt_or 0 (bl_counts b asn) + 1;
             b' = b\<lparr>bl_counts := (bl_counts b)(asn \<mapsto> c)\<rparr>
         in if c \<ge> bl_threshold b then (True, b'\<lparr>bl_blocked := (bl_blocked b)(asn := True)\<rparr>) else (False, b')))"

section \<open>The tasks of the third phase\<close>

record build_shared =
  bs_storage :: "storage option"
  bs_blocklist :: "asn_blocklist option"
  bs_clock :: "nat \<Rightarrow> nat"
  bs_reads :: nat

record build_env =
  bd_force :: bool
  bd_geodb :: "geo_db option"
  bd_contains :: "string \<Rightarrow> ip_addr \<Rightarrow> bool"
  bd_probe :: "bytes \<Rightarrow> ip_addr \<Rightarrow> string + tls_probe"

definition clock_now :: "build_shared \<Rightarrow> nat" where
  "clock_now b = bs_clock b (bs_reads b)"

definition asn_of_ip :: "build_env \<Rightarrow> ip_addr \<Rightarrow> (nat \<times> string) option" where
  "asn_of_ip v ip = Option.bind (bd_geodb v) (\<lambda>g. db_asn g ip)"

definition country_of_ip :: "build_env \<Rightarrow> ip_addr \<Rightarrow> string" where
  "country_of_ip v ip = (case bd_geodb v of Some g \<Rightarrow> db_country g ip | None \<Rightarrow> ''UNKNOWN'')"

definition on_storage :: "(nat \<Rightarrow> storage \<Rightarrow> storage) \<Rightarrow> build_shared \<Rightarrow> build_shared" where
  "on_storage f b =
     (case bs_storage b of
        Some s \<Rightarrow> b\<lparr>bs_storage := Some (f (clock_now b) s), bs_reads := bs_reads b + 1\<rparr>
      | None \<Rightarrow> b)"

definition build_check :: "build_env \<Rightarrow> build_shared \<Rightarrow> entry \<Rightarrow> bool" where
  "build_check v b e =
     (case en_ip e of
        None \<Rightarrow> False
      | Some ip \<Rightarrow>
          \<not> (\<not> bd_force v \<and> (case bs_storage b of Some s \<Rightarrow> is_failed_recently (clock_now b) s (en_domain e) | None \<Rightarrow> False))
          \<and> \<not> is_cloudflare_ip (bd_contains v) ip
          \<and> \<not> (case (asn_of_ip v ip, bs_blocklist b) of (Some (asn, org), Some l) \<Rightarrow> bl_blocked l asn | _ \<Rightarrow> False))"

definition note_failure :: "(nat \<times> string) option \<Rightarrow> bytes \<Rightarrow> build_shared \<Rightarrow> build_shared" where
  "note_failure asn d b =
     (let b1 = on_storage (\<lambda>now. append_failures now [d]) b
      in case (bs_blocklist b1, asn) of
           (Some l, Some (n, org)) \<Rightarrow>
             (let (hit, l') = record_failure n l; b2 = b1\<lparr>bs_blocklist := Some l'\<rparr>
              in if hit then on_storage (\<lambda>now. add_asn_to_blocklist now n org []) b2 else b2)
         | _ \<Rightarrow> b1)"

definition build_verdict :: "build_env \<Rightarrow> build_shared \<Rightarrow> entry \<Rightarrow> (entry \<times> string \<times> bool) option \<times> build_shared" where
  "build_verdict v b e =
     (case en_ip e of
        None \<Rightarrow> (None, b)
      | Some ip \<Rightarrow>
          (let failed = (None, note_failure (asn_of_ip v ip) (en_domain e) b)
           in case bd_probe v (en_domain e) ip of
                Inl err \<Rightarrow> failed
              | Inr p \<Rightarrow>
                  if validate_probe p then
                    (let country = country_of_ip v ip
                     in if is_blocked_country country
                        then (None, on_storage (\<lambda>now. add_blocked_domain (en_domain e) (''country '' @ country) False) b)
                        else (Some (e, country, is_pq p), on_storage (\<lambda>now. save_success now (en_domain e) country) b))
                  else failed))"

definition build_work :: "build_env \<Rightarrow> (entry, entry \<times> string \<times> bool, build_shared) work" where
  "build_work v = \<lparr>wk_admit = (\<lambda>e. en_ip e \<noteq> None), wk_check = build_check v, wk_verdict = build_verdict v\<rparr>"

section \<open>The pool files\<close>

type_synonym pools = "bytes list \<times> bytes list"

text \<open>\<open>BTreeMap::entry\<close> with a default, on the association list sorted by key.\<close>

fun bucket_add :: "string \<Rightarrow> bytes \<Rightarrow> bool \<Rightarrow> (string \<times> pools) list \<Rightarrow> (string \<times> pools) list" where
  "bucket_add c d pq [] = [(c, if pq then ([d], []) else ([], [d]))]"
| "bucket_add c d pq ((c', p, q) # m) =
     (if as_bytes c < as_bytes c' then (c, if pq then ([d], []) else ([], [d])) # (c', p, q) # m
      else if c = c' then (c', if pq then (p @ [d], q) else (p, q @ [d])) # m
      else (c', p, q) # bucket_add c d pq m)"

definition by_country :: "(entry \<times> string \<times> bool) list \<Rightarrow> (string \<times> pools) list" where
  "by_country rs = fold (\<lambda>(e, c, pq). bucket_add c (en_domain e) pq) rs []"

type_synonym pool_dir = "string \<rightharpoonup> bytes"

definition pool_name :: "string \<Rightarrow> string" where
  "pool_name country = to_uppercase country @ ''.pb''"

text \<open>What is on disk counts as two empty pools when it cannot be read or decoded.\<close>

definition existing_pools :: "pool_dir \<Rightarrow> string \<Rightarrow> pools" where
  "existing_pools fs name =
     (case fs name of
        Some data \<Rightarrow> (case decode_domains data of Inr ps \<Rightarrow> ps | Inl e \<Rightarrow> ([], []))
      | None \<Rightarrow> ([], []))"

definition sort_dedup :: "bytes list \<Rightarrow> bytes list" where
  "sort_dedup ds = remdups_adj (sort ds)"

text \<open>A fault says that writing the file fails, and how much of it was written.\<close>

fun write_pools :: "(string \<Rightarrow> (nat \<times> string) option) \<Rightarrow> (string \<times> pools) list \<Rightarrow> pool_dir \<Rightarrow> (string + unit) \<times> pool_dir" where
  "write_pools fault [] fs = (Inr (), fs)"
| "write_pools fault ((c, pq, classic) # m) fs =
     (let name = pool_name c;
          (old_pq, old_classic) = existing_pools fs name;
          data = encode_domains (sort_dedup (old_pq @ pq)) (sort_dedup (old_classic @ classic))
      in case fault name of
           Some (n, e) \<Rightarrow> (Inl e, fs(name \<mapsto> take n data))
         | None \<Rightarrow> write_pools fault m (fs(name \<mapsto> data)))"

definition write_dual_pb :: "string option \<Rightarrow> (string \<Rightarrow> (nat \<times> string) option) \<Rightarrow> (string \<times> pools) list \<Rightarrow> pool_dir \<Rightarrow> (string + unit) \<times> pool_dir" where
  "write_dual_pb dir_fault fault m fs = (case dir_fault of Some e \<Rightarrow> (Inl e, fs) | None \<Rightarrow> write_pools fault m fs)"

definition build_pools_entries_with_history ::
    "build_env \<Rightarrow> nat \<Rightarrow> entry list \<Rightarrow> build_shared \<Rightarrow> string option \<Rightarrow> (string \<Rightarrow> (nat \<times> string) option) \<Rightarrow> pool_dir
      \<Rightarrow> (string + entry list) \<times> pool_dir \<Rightarrow> bool" where
  "build_pools_entries_with_history v w es b dir_fault fault fs r \<longleftrightarrow>
     (\<exists>g. stage_runs w (build_work v) (stage_start True es b) g \<and> stage_done g
        \<and> r = (case write_dual_pb dir_fault fault (by_country (sg_out g)) fs of
                 (Inl e, fs') \<Rightarrow> (Inl e, fs')
               | (Inr _, fs') \<Rightarrow> (Inr (map fst (sg_out g)), fs')))"

section \<open>Lemmas on the files\<close>

lemma decode_from_utf8:
  "decode_domains_from buf pos pq classic = Inr (p, c) \<Longrightarrow> list_all utf8 (pq @ classic) \<Longrightarrow> list_all utf8 (p @ c)"
proof (induction buf pos pq classic rule: decode_domains_from.induct)
  case (1 buf pos pq classic)
  show ?case
  proof (cases "pos < length buf")
    case True
    show ?thesis
    proof (cases "buf ! pos = TAG_PQ \<or> buf ! pos = TAG_CLASSIC")
      case tag: True
      then obtain s q where f: "take_field ''truncated string'' buf (pos + 1) = Inr (s, q)" "utf8 s"
        using 1(4) True by (subst (asm) decode_domains_from.simps) (auto simp: Let_def split: sum.splits if_splits)
      show ?thesis
        using 1(1) [OF True refl tag f(1) refl] 1(2) [OF True refl tag f(1) refl] f 1(4,5) True tag
        by (subst (asm) (3) decode_domains_from.simps) (auto simp: Let_def split: if_splits)
    next
      case tag: False
      then obtain q where f: "skip_unknown buf (buf ! pos) (pos + 1) = Inr q"
        using 1(4) True by (subst (asm) decode_domains_from.simps) (auto simp: Let_def split: sum.splits)
      show ?thesis
        using 1(3) [OF True refl tag f] f 1(4,5) True tag
        by (subst (asm) (2) decode_domains_from.simps) (simp add: Let_def)
    qed
  next
    case False
    then show ?thesis using 1(4,5) by (subst (asm) decode_domains_from.simps) simp
  qed
qed

lemma existing_utf8: "list_all utf8 (fst (existing_pools fs name) @ snd (existing_pools fs name))"
  using decode_from_utf8 [of _ 0 "[]" "[]"]
  by (auto simp: existing_pools_def decode_domains_def split: option.splits sum.splits)

text \<open>A bound on the encoded size.\<close>

definition bulk :: "bytes list \<Rightarrow> nat" where
  "bulk ds = sum_list (map (\<lambda>d. length d + 11) ds)"

lemma put_varint_length: "unat v < 2 ^ (7 * k) \<Longrightarrow> k > 0 \<Longrightarrow> length (put_varint v) \<le> k"
proof (induction v arbitrary: k rule: put_varint.induct)
  case (1 v)
  show ?case
  proof (cases "v < 0x80")
    case True
    then show ?thesis using 1(3) by (subst put_varint.simps) simp
  next
    case False
    have big: "128 \<le> unat v" using False by (simp add: word_less_nat_alt)
    have "k \<noteq> 1"
    proof
      assume "k = 1"
      then have "unat v < 128" using 1(2) by simp
      with big show False by simp
    qed
    then obtain j where k: "k = Suc j" "j > 0" using 1(3) by (cases k; cases "k - 1") auto
    have "unat (drop_bit 7 v) = unat v div 128" by (simp add: drop_bit_eq_div unat_div)
    also have "\<dots> < 2 ^ (7 * j)"
      using 1(2) k by (simp add: less_mult_imp_div_less power_add mult.commute)
    finally show ?thesis using 1(1) [OF False _ k(2)] False k by (subst put_varint.simps) simp
  qed
qed

lemma put_varint_10: "length (put_varint v) \<le> 10"
proof (rule put_varint_length)
  have "unat v < 2 ^ 64" using unsigned_less [of v, where ?'a = nat] by simp
  also have "(2::nat) ^ 64 \<le> 2 ^ (7 * 10)" by (rule power_increasing) simp_all
  finally show "unat v < 2 ^ (7 * 10)" .
qed simp

lemma fields_bulk: "length (concat (map (put_string_field tag) ds)) \<le> bulk ds"
proof (induction ds)
  case (Cons d ds)
  have "length (put_string_field tag d) \<le> length d + 11"
    using put_varint_10 [of "of_nat (length d)"] by (simp add: put_string_field_def)
  with Cons show ?case by (simp add: bulk_def)
qed simp

lemma encode_bulk: "length (encode_domains p c) \<le> bulk p + bulk c"
  using fields_bulk [of TAG_PQ p] fields_bulk [of TAG_CLASSIC c] by (simp add: encode_domains_def)

lemma bulk_append [simp]: "bulk (a @ b) = bulk a + bulk b"
  by (simp add: bulk_def)

lemma bulk_mset: "mset a \<subseteq># mset b \<Longrightarrow> bulk a \<le> bulk b"
proof -
  assume s: "mset a \<subseteq># mset b"
  have eq: "bulk x = (\<Sum>d \<in># mset x. length d + 11)" for x :: "bytes list"
    by (simp add: bulk_def flip: sum_mset_sum_list mset_map)
  obtain c where "mset b = mset a + c" using s by (auto simp: mset_subset_eq_exists_conv)
  then show ?thesis by (simp add: eq)
qed

lemma mset_remdups_adj: "mset (remdups_adj xs) \<subseteq># mset xs"
proof (induction xs rule: remdups_adj.induct)
  case (3 x y xs)
  then show ?case by (auto intro: subset_mset.order_trans)
qed simp_all

lemma bulk_sort_dedup: "bulk (sort_dedup ds) \<le> bulk ds"
  using bulk_mset [OF mset_remdups_adj, of "sort ds"] bulk_mset [of "sort ds" ds] by (simp add: sort_dedup_def)

lemma bulk_filter: "bulk (filter P ds) \<le> bulk ds"
  by (rule bulk_mset) (simp add: mset_filter)

lemma set_sort_dedup [simp]: "set (sort_dedup ds) = set ds"
  by (simp add: sort_dedup_def)

lemma sorted_dedup_distinct: "sorted xs \<Longrightarrow> distinct (remdups_adj xs)"
  by (induction xs rule: remdups_adj.induct) auto

lemma sort_dedup_sorted: "sorted (sort_dedup ds) \<and> distinct (sort_dedup ds)"
  by (simp add: sort_dedup_def sorted_remdups_adj sorted_dedup_distinct)

text \<open>Reading a file just written.\<close>

lemma written_pools:
  assumes "list_all utf8 (a @ b)" "bulk a + bulk b < 2 ^ 64"
  shows "existing_pools (fs(name \<mapsto> encode_domains (sort_dedup a) (sort_dedup b))) name
    = (filter (\<lambda>s. s \<noteq> []) (sort_dedup a), filter (\<lambda>s. s \<noteq> []) (sort_dedup b))"
proof -
  have u: "list_all utf8 (sort_dedup a @ sort_dedup b)" using assms(1) by (simp add: list_all_iff)
  have "length (encode_domains (sort_dedup a) (sort_dedup b)) < 2 ^ 64"
    using encode_bulk [of "sort_dedup a" "sort_dedup b"] bulk_sort_dedup [of a] bulk_sort_dedup [of b] assms(2) by linarith
  from decode_encode [OF u this] show ?thesis by (simp add: existing_pools_def)
qed

section \<open>What the pools hold\<close>

definition pool_has :: "pool_dir \<Rightarrow> string \<Rightarrow> bool \<Rightarrow> bytes \<Rightarrow> bool" where
  "pool_has fs name pq d \<longleftrightarrow> d \<in> set (if pq then fst (existing_pools fs name) else snd (existing_pools fs name))"

definition bucket_has :: "(string \<times> pools) list \<Rightarrow> string \<Rightarrow> bool \<Rightarrow> bytes \<Rightarrow> bool" where
  "bucket_has m c pq d \<longleftrightarrow> (\<exists>p q. (c, p, q) \<in> set m \<and> d \<in> set (if pq then p else q))"

definition buckets_bulk :: "(string \<times> pools) list \<Rightarrow> nat" where
  "buckets_bulk m = sum_list (map (\<lambda>(c, p, q). bulk p + bulk q) m)"

lemma bucket_has_Cons: "bucket_has ((c', p, q) # m) c pq d \<longleftrightarrow> (c = c' \<and> d \<in> set (if pq then p else q)) \<or> bucket_has m c pq d"
  by (auto simp: bucket_has_def)

lemma bucket_add_has: "bucket_has (bucket_add c d pq m) c' pq' d' \<longleftrightarrow> bucket_has m c' pq' d' \<or> (c' = c \<and> pq' = pq \<and> d' = d)"
  by (induction c d pq m rule: bucket_add.induct) (auto simp: bucket_has_Cons bucket_has_def [of "[]"])

lemma bucket_add_bulk: "buckets_bulk (bucket_add c d pq m) = buckets_bulk m + length d + 11"
  by (induction c d pq m rule: bucket_add.induct) (auto simp: buckets_bulk_def bulk_def)

lemma fold_buckets:
  "bucket_has (fold (\<lambda>(e, c, pq). bucket_add c (en_domain e) pq) rs m) c pq d \<longleftrightarrow> bucket_has m c pq d \<or> (\<exists>e. (e, c, pq) \<in> set rs \<and> d = en_domain e)"
  "buckets_bulk (fold (\<lambda>(e, c, pq). bucket_add c (en_domain e) pq) rs m) = buckets_bulk m + bulk (map (\<lambda>r. en_domain (fst r)) rs)"
  by (induction rs arbitrary: m) (auto simp: bucket_add_has bucket_add_bulk bulk_def)

lemma by_country_has: "bucket_has (by_country rs) c pq d \<longleftrightarrow> (\<exists>e. (e, c, pq) \<in> set rs \<and> d = en_domain e)"
  by (simp add: by_country_def fold_buckets bucket_has_def [of "[]"])

lemma by_country_bulk: "buckets_bulk (by_country rs) = bulk (map (\<lambda>r. en_domain (fst r)) rs)"
  by (simp add: by_country_def fold_buckets buckets_bulk_def [of "[]"])

definition pools_fit :: "pool_dir \<Rightarrow> nat \<Rightarrow> bool" where
  "pools_fit fs n \<longleftrightarrow> (\<forall>name. bulk (fst (existing_pools fs name)) + bulk (snd (existing_pools fs name)) + n < 2 ^ 64)"

lemma existing_other: "name \<noteq> name' \<Longrightarrow> existing_pools (fs(name \<mapsto> data)) name' = existing_pools fs name'"
  by (simp add: existing_pools_def)

text \<open>One file.\<close>

definition merge_into :: "string \<Rightarrow> bytes list \<Rightarrow> bytes list \<Rightarrow> pool_dir \<Rightarrow> pool_dir" where
  "merge_into name pq classic fs =
     fs(name \<mapsto> encode_domains (sort_dedup (fst (existing_pools fs name) @ pq)) (sort_dedup (snd (existing_pools fs name) @ classic)))"

lemma merge_pool:
  assumes "list_all utf8 (pq @ classic)" "pools_fit fs (bulk pq + bulk classic + n)"
  shows "pools_fit (merge_into name pq classic fs) n"
    and "d \<noteq> [] \<Longrightarrow> pool_has (merge_into name pq classic fs) name' b d \<longleftrightarrow>
      pool_has fs name' b d \<or> (name' = name \<and> d \<in> set (if b then pq else classic))"
proof -
  let ?fs' = "merge_into name pq classic fs"
  let ?a = "fst (existing_pools fs name) @ pq" and ?b = "snd (existing_pools fs name) @ classic"
  have u: "list_all utf8 (?a @ ?b)" using existing_utf8 [of fs name] assms(1) by simp
  have size: "bulk ?a + bulk ?b + n < 2 ^ 64" using assms(2) by (auto simp: pools_fit_def ac_simps)
  have w: "existing_pools ?fs' name = (filter (\<lambda>s. s \<noteq> []) (sort_dedup ?a), filter (\<lambda>s. s \<noteq> []) (sort_dedup ?b))"
    unfolding merge_into_def using written_pools [OF u] size by simp
  have o: "existing_pools ?fs' x = existing_pools fs x" if "x \<noteq> name" for x
    using that by (simp add: merge_into_def existing_other)
  show "pools_fit ?fs' n" unfolding pools_fit_def
  proof
    fix x
    show "bulk (fst (existing_pools ?fs' x)) + bulk (snd (existing_pools ?fs' x)) + n < 2 ^ 64"
    proof (cases "x = name")
      case True
      have "bulk (filter (\<lambda>s. s \<noteq> []) (sort_dedup ds)) \<le> bulk ds" for ds :: "bytes list"
        using bulk_filter [of "\<lambda>s. s \<noteq> []" "sort_dedup ds"] bulk_sort_dedup [of ds] by linarith
      from this [of ?a] this [of ?b] size True w show ?thesis by simp
    next
      case False
      have "bulk (fst (existing_pools fs x)) + bulk (snd (existing_pools fs x)) + (bulk pq + bulk classic + n) < 2 ^ 64"
        using assms(2) by (simp only: pools_fit_def)
      with False o show ?thesis by simp
    qed
  qed
  show "pool_has ?fs' name' b d \<longleftrightarrow> pool_has fs name' b d \<or> (name' = name \<and> d \<in> set (if b then pq else classic))" if "d \<noteq> []"
    using that w o [of name'] by (cases "name' = name") (auto simp: pool_has_def)
qed

lemma write_pools_has:
  assumes "write_pools fault m fs = (Inr u, fs')" "\<And>c p q. (c, p, q) \<in> set m \<Longrightarrow> list_all utf8 (p @ q)"
    and "pools_fit fs (buckets_bulk m)" "d \<noteq> []"
  shows "pool_has fs' name b d \<longleftrightarrow> pool_has fs name b d \<or> (\<exists>c. name = pool_name c \<and> bucket_has m c b d)"
  using assms
proof (induction fault m fs rule: write_pools.induct)
  case (1 fault fs)
  then show ?case by (simp add: bucket_has_def)
next
  case (2 fault c pq classic m fs)
  let ?n = "pool_name c"
  let ?fs = "merge_into ?n pq classic fs"
  have u: "list_all utf8 (pq @ classic)" using 2(3) [of c pq classic] by simp
  have f: "pools_fit fs (bulk pq + bulk classic + buckets_bulk m)" using 2(4) by (simp add: buckets_bulk_def)
  note one = merge_pool [OF u f]
  have nf: "fault ?n = None" and rest: "write_pools fault m ?fs = (Inr u, fs')"
    using 2(2) by (auto simp: merge_into_def Let_def split: prod.splits option.splits)
  have "pool_has fs' name b d \<longleftrightarrow> pool_has ?fs name b d \<or> (\<exists>c. name = pool_name c \<and> bucket_has m c b d)"
    by (rule 2(1) [OF refl refl prod.collapse refl nf, folded merge_into_def, OF rest _ one(1) 2(5)]) (use 2(3) in auto)
  with one(2) [OF 2(5)] show ?case by (auto simp: bucket_has_Cons)
qed

section \<open>The tasks\<close>

text \<open>What makes an entry acceptable, and how it is filed.\<close>

definition accepted_as :: "build_env \<Rightarrow> entry \<Rightarrow> string \<Rightarrow> bool \<Rightarrow> bool" where
  "accepted_as v e c pq \<longleftrightarrow>
     (\<exists>ip p. en_ip e = Some ip \<and> \<not> is_cloudflare_ip (bd_contains v) ip \<and> bd_probe v (en_domain e) ip = Inr p
        \<and> validate_probe p \<and> c = country_of_ip v ip \<and> \<not> is_blocked_country c \<and> pq = is_pq p)"

lemma build_verdict_Some:
  assumes "build_verdict v b e = (Some r, b')"
  shows "\<exists>ip p. en_ip e = Some ip \<and> bd_probe v (en_domain e) ip = Inr p \<and> validate_probe p
    \<and> \<not> is_blocked_country (country_of_ip v ip) \<and> r = (e, country_of_ip v ip, is_pq p)"
  using assms by (auto simp: build_verdict_def Let_def split: option.splits sum.splits if_splits)

lemma build_good: "good_result (build_work v) (e, c, pq) \<Longrightarrow> accepted_as v e c pq"
  by (auto simp: good_result_def build_work_def accepted_as_def build_check_def dest!: build_verdict_Some)

lemma accepted_unique: "accepted_as v e c pq \<Longrightarrow> accepted_as v e c' pq' \<Longrightarrow> c = c' \<and> pq = pq'"
  by (auto simp: accepted_as_def)

lemma build_outcome:
  assumes "stage_runs w (build_work v) (stage_start True es b) g"
  shows "(e, c, pq) \<in> set (sg_out g) \<longleftrightarrow> e \<in> fst ` set (sg_out g) \<and> accepted_as v e c pq"
    and "mset (map fst (sg_out g)) \<subseteq># mset es"
proof -
  have g: "accepted_as v e' c' pq'" if "(e', c', pq') \<in> set (sg_out g)" for e' c' pq'
    using stage_good_runs [OF assms] that build_good [of v e' c' pq'] by (auto simp: stage_good_def list_all_iff)
  show "(e, c, pq) \<in> set (sg_out g) \<longleftrightarrow> e \<in> fst ` set (sg_out g) \<and> accepted_as v e c pq"
  proof
    assume r: "e \<in> fst ` set (sg_out g) \<and> accepted_as v e c pq"
    then obtain c' pq' where i: "(e, c', pq') \<in> set (sg_out g)" by fastforce
    with g accepted_unique [of v e c pq c' pq'] r show "(e, c, pq) \<in> set (sg_out g)" by blast
  next
    assume r: "(e, c, pq) \<in> set (sg_out g)"
    show "e \<in> fst ` set (sg_out g) \<and> accepted_as v e c pq" using g [OF r] image_eqI [OF _ r, of e fst] by simp
  qed
  show "mset (map fst (sg_out g)) \<subseteq># mset es"
    by (rule stage_origin_runs [OF _ assms]) (auto simp: build_work_def dest!: build_verdict_Some)
qed

lemma build_ok:
  assumes "build_pools_entries_with_history v w es b df fault fs (Inr acc, fs')"
  obtains (ok) g u where "stage_runs w (build_work v) (stage_start True es b) g" "acc = map fst (sg_out g)"
    "write_pools fault (by_country (sg_out g)) fs = (Inr u, fs')"
  using assms by (auto simp: build_pools_entries_with_history_def write_dual_pb_def split: option.splits prod.splits sum.splits)

section \<open>Properties\<close>

text \<open>
  C32: only sound targets are accepted, whatever the order in which the tasks of the third phase run and whatever
  the history says: every accepted entry was handed in, has an address outside the Cloudflare networks, passed
  the acceptance test of the probe, and its address is not in a blocked country; and no entry is accepted more
  often than it was handed in.
\<close>

theorem accepted_targets_sound:
  assumes "build_pools_entries_with_history v w es b df fault fs (Inr acc, fs')"
  shows "mset acc \<subseteq># mset es \<and> list_all (\<lambda>e. \<exists>c pq. accepted_as v e c pq) acc"
proof -
  obtain g u where g: "stage_runs w (build_work v) (stage_start True es b) g" "acc = map fst (sg_out g)"
    using build_ok [OF assms] .
  have "\<exists>c pq. accepted_as v e c pq" if e: "e \<in> set acc" for e
  proof -
    obtain c pq where "(e, c, pq) \<in> set (sg_out g)" using e g(2) by auto
    with build_outcome(1) [OF g(1), of e c pq] show ?thesis by blast
  qed
  with build_outcome(2) [OF g(1)] g(2) show ?thesis by (simp add: list_all_iff)
qed

text \<open>
  C33: the pool files are exactly the old pools and the accepted targets. After a successful third phase a domain is
  in a pool of a country's file just if it was there before or an accepted entry has this domain, its address is
  in this country and its handshake was post-quantum or classic as the pool says.
\<close>

theorem pool_files_exact:
  assumes "build_pools_entries_with_history v w es b df fault fs (Inr acc, fs')"
    and "list_all (\<lambda>e. utf8 (en_domain e)) es" "pools_fit fs (bulk (map en_domain es))" "d \<noteq> []"
  shows "pool_has fs' name pq d \<longleftrightarrow>
    pool_has fs name pq d \<or> (\<exists>e c. e \<in> set acc \<and> d = en_domain e \<and> accepted_as v e c pq \<and> name = pool_name c)"
proof -
  obtain g u where g: "stage_runs w (build_work v) (stage_start True es b) g" "acc = map fst (sg_out g)"
      "write_pools fault (by_country (sg_out g)) fs = (Inr u, fs')"
    using build_ok [OF assms(1)] .
  note out = build_outcome [OF g(1)]
  have sub: "fst ` set (sg_out g) \<subseteq> set es" using set_mset_mono [OF out(2)] by simp
  have "mset (map (\<lambda>r. en_domain (fst r)) (sg_out g)) \<subseteq># mset (map en_domain es)"
    using image_mset_subseteq_mono [OF out(2), of en_domain] by (simp add: image_mset.compositionality comp_def)
  then have "buckets_bulk (by_country (sg_out g)) \<le> bulk (map en_domain es)"
    using bulk_mset by (simp add: by_country_bulk)
  then have fit: "pools_fit fs (buckets_bulk (by_country (sg_out g)))"
    using assms(3) unfolding pools_fit_def by (meson add_left_mono le_less_trans)
  have x: "utf8 x" if h: "bucket_has (by_country (sg_out g)) c q x" for c q x
  proof -
    obtain e where e: "(e, c, q) \<in> set (sg_out g)" "x = en_domain e" using h by (auto simp: by_country_has)
    then have "e \<in> set es" using sub image_eqI [OF _ e(1), of e fst] by auto
    with assms(2) e(2) show ?thesis by (simp add: list_all_iff)
  qed
  have u: "list_all utf8 (p @ q)" if "(c, p, q) \<in> set (by_country (sg_out g))" for c p q
  proof -
    have "utf8 y" if "y \<in> set p" for y
      by (rule x [of c True]) (use that \<open>(c, p, q) \<in> _\<close> in \<open>auto simp: bucket_has_def\<close>)
    moreover have "utf8 y" if "y \<in> set q" for y
      by (rule x [of c False]) (use that \<open>(c, p, q) \<in> _\<close> in \<open>auto simp: bucket_has_def\<close>)
    ultimately show ?thesis by (auto simp: list_all_iff)
  qed
  have "bucket_has (by_country (sg_out g)) c pq d \<longleftrightarrow> (\<exists>e. e \<in> set acc \<and> d = en_domain e \<and> accepted_as v e c pq)" for c
    using out(1) g(2) by (auto simp: by_country_has)
  moreover have "pool_has fs' name pq d \<longleftrightarrow> pool_has fs name pq d \<or> (\<exists>c. name = pool_name c \<and> bucket_has (by_country (sg_out g)) c pq d)"
    by (rule write_pools_has [OF g(3) _ fit assms(4)]) (rule u)
  ultimately show ?thesis by blast
qed

text \<open>
  Also: the third phase always returns: whatever the tasks do and however they are scheduled, some step is possible
  until the stage is done, every run can be brought to its end, and there is an outcome. This is the discipline
  the stages of the run command lack.
\<close>

theorem pools_stage_returns:
  assumes "w > 0" "stage_runs w (build_work v) (stage_start True es b) g"
  shows "\<not> stuck w (build_work v) g \<and> (\<exists>g'. stage_runs w (build_work v) g g' \<and> stage_done g')
    \<and> (\<exists>r. build_pools_entries_with_history v w es b df fault fs r)"
proof (intro conjI)
  show "\<not> stuck w (build_work v) g" using receiving_never_stuck [OF assms(2,1)] .
  have "\<exists>g'. stage_runs w (build_work v) h g' \<and> stage_done g'" if "stage_runs w (build_work v) (stage_start True es b) h" for h
  proof (rule live_run_ends)
    fix g' assume "stage_runs w (build_work v) h g'"
    with that have "stage_runs w (build_work v) (stage_start True es b) g'" unfolding stage_runs_def by (rule rtranclp_trans)
    then show "\<not> stuck w (build_work v) g'" by (rule receiving_never_stuck [OF _ assms(1)])
  qed
  note ends = this
  show "\<exists>g'. stage_runs w (build_work v) g g' \<and> stage_done g'" using ends [OF assms(2)] .
  have "stage_runs w (build_work v) (stage_start True es b) (stage_start True es b)" by (simp add: stage_runs_def)
  from ends [OF this] show "\<exists>r. build_pools_entries_with_history v w es b df fault fs r"
    unfolding build_pools_entries_with_history_def by blast
qed

text \<open>
  Also: a failure is remembered for exactly the configured time: after a batch of failures has been recorded, a domain
  of the batch counts as recently failed up to and including the second its time runs out, and every other domain
  counts as before.
\<close>

theorem failure_remembered:
  assumes "sto_up s"
  shows "is_failed_recently t (append_failures now ds s) d \<longleftrightarrow>
    (if d \<in> set ds then t \<le> now + sto_ttl_secs s else is_failed_recently t s d)"
proof -
  have "is_failed_recently t (fold (put_failure now) ds s) d \<longleftrightarrow>
      (if d \<in> set ds then t \<le> now + sto_ttl_secs s else is_failed_recently t s d)" if "sto_up s" for s
    using that
  proof (induction ds arbitrary: s)
    case (Cons x ds)
    have "sto_up (put_failure now x s)" "sto_ttl_secs (put_failure now x s) = sto_ttl_secs s"
      using Cons.prems by (simp_all add: put_failure_def)
    moreover have "is_failed_recently t (put_failure now x s) d \<longleftrightarrow> (if d = x then t \<le> now + sto_ttl_secs s else is_failed_recently t s d)"
      using Cons.prems by (auto simp: is_failed_recently_def put_failure_def not_less split: option.splits)
    ultimately show ?case using Cons.IH [of "put_failure now x s"] by auto
  qed simp
  with assms show ?thesis by (auto simp: append_failures_def)
qed

fun record_times :: "nat \<Rightarrow> nat \<Rightarrow> asn_blocklist \<Rightarrow> bool list \<times> asn_blocklist" where
  "record_times asn 0 b = ([], b)"
| "record_times asn (Suc n) b = (let (hs, b') = record_times asn n b; (h, b'') = record_failure asn b' in (hs @ [h], b''))"

lemma record_times_state:
  assumes "\<not> bl_blocked b asn" "bl_counts b asn = None"
  shows "bl_blocked (snd (record_times asn n b)) asn = (n > 0 \<and> n \<ge> bl_threshold b)
    \<and> (n = 0 \<or> n \<le> max 1 (bl_threshold b) \<longrightarrow> bl_counts (snd (record_times asn n b)) asn = (if n = 0 then None else Some n))
    \<and> bl_threshold (snd (record_times asn n b)) = bl_threshold b"
proof (induction n)
  case 0
  then show ?case using assms by simp
next
  case (Suc n)
  then show ?case
    by (cases "record_times asn n b") (auto simp: record_failure_def Let_def opt_or_def max_def split: if_splits)
qed

text \<open>
  Also: a network is blocked after its failures reach the threshold, and this is reported once: of any number of
  failures recorded for a network that was not blocked, exactly the one that reaches the threshold (or the first,
  when the threshold is zero) answers that the network has just been blocked, and from then on it is blocked.
\<close>

theorem asn_blocked_once:
  assumes "\<not> bl_blocked b asn" "bl_counts b asn = None"
  shows "fst (record_times asn n b) = map (\<lambda>i. Suc i = max 1 (bl_threshold b)) [0..<n]
    \<and> (bl_blocked (snd (record_times asn n b)) asn \<longleftrightarrow> n \<ge> max 1 (bl_threshold b))"
proof (induction n)
  case 0
  then show ?case using record_times_state [OF assms, of 0] by simp
next
  case (Suc n)
  obtain hs b' where r: "record_times asn n b = (hs, b')" by fastforce
  have "fst (record_failure asn b') = (Suc n = max 1 (bl_threshold b))"
    using record_times_state [OF assms, of n] r by (auto simp: record_failure_def Let_def opt_or_def max_def split: if_splits)
  with Suc r record_times_state [OF assms, of "Suc n"] show ?case
    by (auto simp: split_beta)
qed

definition sample_probe :: tls_probe where
  "sample_probe = \<lparr>tp_tls13 = True, tp_alpn = Some ''h2'', tp_curve = Some ''X25519'', tp_chain_len = 2, tp_total_bytes = 3000,
     tp_headers = Map.empty, tp_http_status = Some 200, tp_h3_support = False\<rparr>"

definition sample_build :: build_env where
  "sample_build = \<lparr>bd_force = False, bd_geodb = None, bd_contains = (\<lambda>n ip. False), bd_probe = (\<lambda>d ip. Inr sample_probe)\<rparr>"

definition sample_shared :: build_shared where
  "sample_shared = \<lparr>bs_storage = None, bs_blocklist = None, bs_clock = (\<lambda>n. 0), bs_reads = 0\<rparr>"

abbreviation sample_entry :: entry where
  "sample_entry \<equiv> entry_new [0x61] (V4 1 2 3 4)"

lemma sample_unknown: "to_uppercase ''UNKNOWN'' = ''UNKNOWN''"
  by (simp add: upper_table_def ascii_upper_def)

lemma sample_accepted: "accepted_as sample_build sample_entry ''UNKNOWN'' (is_pq sample_probe)"
  by (simp add: accepted_as_def sample_build_def entry_new_def is_cloudflare_ip_def CLOUDFLARE_CIDRS_def country_of_ip_def
      is_blocked_country_def sample_unknown BLOCKED_COUNTRIES_def validate_probe_def sample_probe_def probe_valid_group_def
      is_valid_group_def to_ascii_uppercase_def ascii_upper_def MAX_CERT_CHAIN_DEPTH_def MAX_CERT_BYTES_def is_compatible_http_def
      del: to_uppercase.simps)

lemma sample_build_run:
  "\<exists>fs'. build_pools_entries_with_history sample_build 1 [sample_entry] sample_shared None (\<lambda>n. None) Map.empty (Inr [sample_entry], fs')"
proof -
  let ?r = "(sample_entry, ''UNKNOWN'', is_pq sample_probe)"
  have "validate_probe sample_probe" "\<not> is_blocked_country ''UNKNOWN''"
    using sample_accepted by (auto simp: accepted_as_def sample_build_def)
  then have "build_verdict sample_build sample_shared sample_entry = (Some ?r, sample_shared)"
    by (simp add: build_verdict_def sample_build_def sample_shared_def entry_new_def country_of_ip_def on_storage_def)
  moreover have "build_check sample_build sample_shared sample_entry"
    by (simp add: build_check_def sample_build_def sample_shared_def entry_new_def is_cloudflare_ip_def CLOUDFLARE_CIDRS_def asn_of_ip_def)
  ultimately obtain g where g: "stage_runs 1 (build_work sample_build) (stage_start True [sample_entry] sample_shared) g"
      "stage_done g" "sg_out g = [?r]"
    using single_run [of 1 "build_work sample_build" sample_entry sample_shared ?r sample_shared]
    by (auto simp: build_work_def entry_new_def)
  then have "build_pools_entries_with_history sample_build 1 [sample_entry] sample_shared None (\<lambda>n. None) Map.empty
    (Inr [sample_entry], snd (write_pools (\<lambda>n. None) (by_country (sg_out g)) Map.empty))"
    unfolding build_pools_entries_with_history_def
    by (intro exI [of _ g]) (simp add: write_dual_pb_def by_country_def Let_def split_beta)
  then show ?thesis by blast
qed

theorem accepted_targets_sound_witness:
  "\<exists>c pq. accepted_as sample_build sample_entry c pq"
proof -
  obtain fs' where "build_pools_entries_with_history sample_build 1 [sample_entry] sample_shared None (\<lambda>n. None) Map.empty (Inr [sample_entry], fs')"
    using sample_build_run by blast
  from accepted_targets_sound [OF this] show ?thesis by simp
qed

theorem pool_files_exact_witness:
  "\<exists>fs'. build_pools_entries_with_history sample_build 1 [sample_entry] sample_shared None (\<lambda>n. None) Map.empty (Inr [sample_entry], fs')
     \<and> pool_has fs' ''UNKNOWN.pb'' (is_pq sample_probe) [0x61]"
proof -
  obtain fs' where f: "build_pools_entries_with_history sample_build 1 [sample_entry] sample_shared None (\<lambda>n. None) Map.empty (Inr [sample_entry], fs')"
    using sample_build_run by blast
  have "pool_has fs' ''UNKNOWN.pb'' (is_pq sample_probe) [0x61]"
    using pool_files_exact [OF f, of "[0x61]" "''UNKNOWN.pb''" "is_pq sample_probe"] sample_accepted
    by (auto simp: entry_new_def pools_fit_def existing_pools_def bulk_def pool_name_def sample_unknown simp del: to_uppercase.simps)
  with f show ?thesis by blast
qed

theorem pools_stage_returns_witness:
  "\<exists>r. build_pools_entries_with_history sample_build 1 [sample_entry] sample_shared None (\<lambda>n. None) Map.empty r"
  using pools_stage_returns [of 1 sample_build "[sample_entry]" sample_shared "stage_start True [sample_entry] sample_shared" None "\<lambda>n. None" Map.empty]
  by (simp add: stage_runs_def)

theorem failure_remembered_witness:
  "is_failed_recently 604800 (append_failures 0 [[0x61]] (storage_open 7)) [0x61]
     \<and> \<not> is_failed_recently 604801 (append_failures 0 [[0x61]] (storage_open 7)) [0x61]"
  using failure_remembered [of "storage_open 7" 604800 0 "[[0x61]]" "[0x61]"] failure_remembered [of "storage_open 7" 604801 0 "[[0x61]]" "[0x61]"]
  by (simp add: storage_open_def)

theorem asn_blocked_once_witness:
  "fst (record_times 15169 4 (blocklist_new 0 (storage_open 7) 3)) = [False, False, True, False]"
  using asn_blocked_once [of "blocklist_new 0 (storage_open 7) 3" 15169 4]
  by (simp add: blocklist_new_def load_asn_blocklist_def SEED_BLOCKED_ASNS_def storage_open_def upt_rec)

end
