(* ===== verification/SniMerge.thy ===== *)
theory SniMerge
  imports SniPools
begin

text \<open>
  Maintenance of the SNI pool files: merging a directory of them (\<open>sni_probe/src/merge.rs\<close>) and probing the
  domains of a file again (\<open>sni_probe/src/upgrade.rs\<close>).

  A directory is its listing, in which an entry may fail to be read, and its files. The tasks of an upgrade share
  the history only, and each reads and writes the records of its own domain; the domains of a file are distinct
  and the results are awaited in the order of the domains, so the tasks are run in that order.
\<close>

section \<open>Merging\<close>

definition EXCLUDED_FILES :: "string list" where
  "EXCLUDED_FILES = [''CN.PB'', ''HK.PB'', ''MO.PB'', ''IR.PB'', ''RU.PB'', ''KP.PB'']"

definition dedupe_sorted :: "bytes list \<Rightarrow> bytes list" where
  "dedupe_sorted ds = remdups_adj (sort (filter (\<lambda>d. d \<noteq> []) ds))"

text \<open>The reference: a \<open>BTreeSet\<close>, iterated in order.\<close>

definition merge_lists :: "bytes list list \<Rightarrow> bytes list" where
  "merge_lists ls = sorted_list_of_set (fold (\<lambda>l s. fold (\<lambda>d s. if d \<noteq> [] then insert d s else s) l s) ls {})"

datatype pb_format = DualPool | LegacySinglePool

definition decode_as :: "bytes \<Rightarrow> pb_format \<Rightarrow> string + pools" where
  "decode_as data f =
     (case decode_domains data of
        Inl e \<Rightarrow> Inl e
      | Inr (field1, field2) \<Rightarrow> (case f of DualPool \<Rightarrow> Inr (field1, field2) | LegacySinglePool \<Rightarrow> Inr ([], field1 @ field2)))"

text \<open>\<open>Path::extension\<close> of a file name: what follows the last dot, unless the name starts with it.\<close>

definition extension :: "string \<Rightarrow> string option" where
  "extension name =
     (let ext = rev (takeWhile (\<lambda>c. c \<noteq> CHR ''.'') (rev name)); stem = length name - length ext - 1
      in if CHR ''.'' \<notin> set name \<or> stem = 0 \<or> name = ''..'' then None else Some ext)"

record pb_dir =
  pd_listing :: "string + (string + string) list"
  pd_files :: "string \<Rightarrow> string + bytes"

fun listed_names :: "(string + string) list \<Rightarrow> string + string list" where
  "listed_names [] = Inr []"
| "listed_names (Inl e # es) = Inl e"
| "listed_names (Inr n # es) = (case listed_names es of Inl e \<Rightarrow> Inl e | Inr ns \<Rightarrow> Inr (n # ns))"

definition is_pb :: "string \<Rightarrow> bool" where
  "is_pb n = (case extension n of Some e \<Rightarrow> to_ascii_lowercase e = ''pb'' | None \<Rightarrow> False)"

definition pb_files :: "pb_dir \<Rightarrow> string + string list" where
  "pb_files d =
     (case pd_listing d of
        Inl e \<Rightarrow> Inl e
      | Inr es \<Rightarrow> (case listed_names es of Inl e \<Rightarrow> Inl e | Inr ns \<Rightarrow> Inr (filter is_pb ns)))"

definition is_excluded :: "string \<Rightarrow> bool" where
  "is_excluded name \<longleftrightarrow> to_uppercase name \<in> set EXCLUDED_FILES"

definition file_pools :: "pb_dir \<Rightarrow> pb_format \<Rightarrow> string \<Rightarrow> pools" where
  "file_pools d f name =
     (if is_excluded name then ([], [])
      else (case pd_files d name of
              Inl e \<Rightarrow> ([], [])
            | Inr data \<Rightarrow> (case decode_as data f of Inl e \<Rightarrow> ([], []) | Inr ps \<Rightarrow> ps)))"

definition collect_dir :: "pb_dir \<Rightarrow> pb_format \<Rightarrow> string + pools" where
  "collect_dir d f =
     (case pb_files d of
        Inl e \<Rightarrow> Inl e
      | Inr files \<Rightarrow>
          (let sorted_files = sort_key as_bytes files;
               pq = dedupe_sorted (concat (map (\<lambda>n. fst (file_pools d f n)) sorted_files));
               classic = dedupe_sorted (concat (map (\<lambda>n. snd (file_pools d f n)) sorted_files))
           in Inr (pq, filter (\<lambda>x. x \<notin> set pq) classic)))"

definition merge_dir_into :: "pb_dir \<Rightarrow> pb_format \<Rightarrow> string option \<Rightarrow> (string + (nat \<times> nat)) \<times> bytes option" where
  "merge_dir_into d f write_fault =
     (case collect_dir d f of
        Inl e \<Rightarrow> (Inl e, None)
      | Inr (pq, classic) \<Rightarrow>
          (case write_fault of
             Some e \<Rightarrow> (Inl e, None)
           | None \<Rightarrow> (Inr (length pq, length classic), Some (encode_domains pq classic))))"

section \<open>Probing again\<close>

record upgrade_env =
  up_resolve :: "bytes \<Rightarrow> ip_addr option"
  up_probe :: "bytes \<Rightarrow> ip_addr \<Rightarrow> string + tls_probe"
  up_contains :: "string \<Rightarrow> ip_addr \<Rightarrow> bool"
  up_geodb :: "geo_db option"
  up_keep_dead :: bool
  up_force :: bool
  up_format :: pb_format
  up_now :: nat

record upgrade_stats =
  us_total :: nat
  us_pq_count :: nat
  us_classic_count :: nat
  us_dead_count :: nat

text \<open>One task: whether the domain is alive, and with a post-quantum handshake; and the history after it.\<close>

definition upgrade_task :: "upgrade_env \<Rightarrow> bytes \<Rightarrow> storage option \<Rightarrow> bool option \<times> storage option" where
  "upgrade_task v d st =
     (if \<not> up_force v \<and> (case st of Some s \<Rightarrow> is_failed_recently (up_now v) s d | None \<Rightarrow> False) then (None, st)
      else (case up_resolve v d of
              None \<Rightarrow> (None, st)
            | Some ip \<Rightarrow>
                if is_cloudflare_ip (up_contains v) ip then (None, st)
                else if (case up_geodb v of Some g \<Rightarrow> is_blocked_country (db_country g ip) | None \<Rightarrow> False) then (None, st)
                else
                  (let failed = (None, map_option (append_failures (up_now v) [d]) st)
                   in case up_probe v d ip of
                        Inl e \<Rightarrow> failed
                      | Inr p \<Rightarrow>
                          if validate_probe p then
                            (Some (is_pq p),
                             map_option (save_success (up_now v) d (case up_geodb v of Some g \<Rightarrow> db_country g ip | None \<Rightarrow> ''UNKNOWN'')) st)
                          else failed)))"

fun upgrade_tasks :: "upgrade_env \<Rightarrow> bytes list \<Rightarrow> storage option \<Rightarrow> (bytes \<times> bool) list \<times> nat \<times> storage option" where
  "upgrade_tasks v [] st = ([], 0, st)"
| "upgrade_tasks v (d # ds) st =
     (let (r, st1) = upgrade_task v d st; (rs, dead, st2) = upgrade_tasks v ds st1
      in case r of Some q \<Rightarrow> ((d, q) # rs, dead, st2) | None \<Rightarrow> (rs, dead + 1, st2))"

definition push_missing :: "bytes list \<Rightarrow> bytes \<Rightarrow> bytes list \<Rightarrow> bytes list" where
  "push_missing pq d classic = (if d \<notin> set pq \<and> d \<notin> set classic then classic @ [d] else classic)"

definition upgrade_pools :: "upgrade_env \<Rightarrow> pools \<Rightarrow> (bytes \<times> bool) list \<Rightarrow> pools" where
  "upgrade_pools v old rs =
     (let pq = map fst (filter snd rs); classic = map fst (filter (\<lambda>r. \<not> snd r) rs);
          classic' = (if up_keep_dead v then fold (push_missing pq) (snd old) classic else classic)
      in (sort_dedup pq, sort_dedup classic'))"

text \<open>The file after the upgrade is the second component, when it was written.\<close>

definition upgrade_pb_file :: "upgrade_env \<Rightarrow> string + bytes \<Rightarrow> string option \<Rightarrow> storage option
    \<Rightarrow> (string + upgrade_stats) \<times> bytes option \<times> storage option" where
  "upgrade_pb_file v file write_fault st =
     (case file of
        Inl e \<Rightarrow> (Inl e, None, st)
      | Inr data \<Rightarrow>
          (case decode_as data (up_format v) of
             Inl e \<Rightarrow> (Inl e, None, st)
           | Inr old \<Rightarrow>
               (let domains = sort_dedup (fst old @ snd old)
                in if domains = [] then (Inr \<lparr>us_total = 0, us_pq_count = 0, us_classic_count = 0, us_dead_count = 0\<rparr>, None, st)
                   else
                     (let (rs, dead, st') = upgrade_tasks v domains st; (pq, classic) = upgrade_pools v old rs
                      in case write_fault of
                           Some e \<Rightarrow> (Inl e, None, st')
                         | None \<Rightarrow> (Inr \<lparr>us_total = length domains, us_pq_count = length pq, us_classic_count = length classic,
                                     us_dead_count = dead\<rparr>, Some (encode_domains pq classic), st')))))"

section \<open>Lemmas\<close>

lemma fold_insert_nonempty: "fold (\<lambda>d s. if d \<noteq> [] then insert d s else s) l s = s \<union> (set l - {[]})"
  by (induction l arbitrary: s) auto

lemma merge_lists_set:
  "fold (\<lambda>l s. fold (\<lambda>d s. if d \<noteq> [] then insert d s else s) l s) ls s = s \<union> (set (concat ls) - {[]})"
  by (induction ls arbitrary: s) (auto simp: fold_insert_nonempty)

lemma dedupe_set [simp]: "set (dedupe_sorted ds) = set ds - {[]}"
  by (auto simp: dedupe_sorted_def)

lemma dedupe_sorted_distinct: "sorted (dedupe_sorted ds)" "distinct (dedupe_sorted ds)"
  by (simp_all add: dedupe_sorted_def sorted_remdups_adj sorted_dedup_distinct)

lemma dedupe_reference: "dedupe_sorted (concat ls) = merge_lists ls"
proof -
  have "sorted_list_of_set (set (dedupe_sorted (concat ls))) = dedupe_sorted (concat ls)"
    by (rule sorted_list_of_set.idem_if_sorted_distinct) (simp_all add: dedupe_sorted_distinct)
  then show ?thesis unfolding merge_lists_def merge_lists_set by simp
qed

lemma merge_lists_cong: "set ls = set ls' \<Longrightarrow> merge_lists ls = merge_lists ls'"
  unfolding merge_lists_def merge_lists_set by simp

text \<open>A task neither depends on the others nor disturbs them.\<close>

lemma failed_after_task:
  assumes "d \<noteq> d'"
  shows "(case snd (upgrade_task v d' st) of Some s \<Rightarrow> is_failed_recently t s d | None \<Rightarrow> False)
    = (case st of Some s \<Rightarrow> is_failed_recently t s d | None \<Rightarrow> False)"
proof -
  have "is_failed_recently t (save_success n d' c s) d = is_failed_recently t s d"
    "is_failed_recently t (append_failures n [d'] s) d = is_failed_recently t s d" for n c s
    using assms by (auto simp: is_failed_recently_def save_success_def append_failures_def put_failure_def split: option.splits)
  then show ?thesis by (cases st) (auto simp: upgrade_task_def Let_def split: option.splits sum.splits)
qed

definition verdict :: "upgrade_env \<Rightarrow> storage option \<Rightarrow> bytes \<Rightarrow> bool option" where
  "verdict v st d = fst (upgrade_task v d st)"

lemma verdict_failed:
  assumes "(case st of Some s \<Rightarrow> is_failed_recently (up_now v) s d | None \<Rightarrow> False)
    = (case st' of Some s \<Rightarrow> is_failed_recently (up_now v) s d | None \<Rightarrow> False)"
  shows "verdict v st d = verdict v st' d"
  unfolding verdict_def upgrade_task_def assms by (auto simp: Let_def split: option.splits sum.splits)

lemma verdict_after_task: "d \<noteq> d' \<Longrightarrow> verdict v (snd (upgrade_task v d' st)) d = verdict v st d"
  by (rule verdict_failed) (rule failed_after_task)

lemma upgrade_tasks_verdicts:
  "distinct ds \<Longrightarrow> upgrade_tasks v ds st = (rs, dead, st') \<Longrightarrow>
     rs = concat (map (\<lambda>d. case verdict v st d of Some q \<Rightarrow> [(d, q)] | None \<Rightarrow> []) ds)
     \<and> length rs + dead = length ds"
proof (induction ds arbitrary: st rs dead st')
  case (Cons d ds)
  obtain rs' dead' where r: "upgrade_tasks v ds (snd (upgrade_task v d st)) = (rs', dead', st')"
    using Cons.prems(2) by (auto simp: Let_def split: prod.splits option.splits)
  define f where "f = (\<lambda>st d. case verdict v st d of Some q \<Rightarrow> [(d, q)] | None \<Rightarrow> [])"
  have h: "rs' = concat (map (f (snd (upgrade_task v d st))) ds) \<and> length rs' + dead' = length ds"
    unfolding f_def by (rule Cons.IH [OF _ r]) (use Cons.prems(1) in simp)
  moreover have "map (f (snd (upgrade_task v d st))) ds = map (f st) ds"
  proof (rule map_cong [OF refl])
    fix x assume "x \<in> set ds"
    then have "x \<noteq> d" using Cons.prems(1) by auto
    then show "f (snd (upgrade_task v d st)) x = f st x" by (simp add: f_def verdict_after_task)
  qed
  ultimately have "rs' = concat (map (f st) ds)" by (simp only:)
  moreover have "length rs' + dead' = length ds" using h by blast
  moreover have "rs = f st d @ rs'" "dead = (if f st d = [] then dead' + 1 else dead')"
    using Cons.prems(2) r by (auto simp: f_def verdict_def split: prod.splits option.splits)
  moreover have "length (f st d) = (if f st d = [] then 0 else 1)" by (simp add: f_def split: option.splits)
  ultimately have "rs = concat (map (f st) (d # ds)) \<and> length rs + dead = length (d # ds)" by (auto split: if_splits)
  then show ?case unfolding f_def .
qed simp

lemma fst_filter_iff: "d \<in> set (map fst (filter P rs)) \<longleftrightarrow> (\<exists>q. (d, q) \<in> set rs \<and> P (d, q))"
  by force

lemma length_verdicts:
  "length (concat (map (\<lambda>d. case verdict v st d of Some q \<Rightarrow> [(d, q)] | None \<Rightarrow> []) ds)) = length (filter (\<lambda>d. verdict v st d \<noteq> None) ds)"
  by (induction ds) (auto split: option.splits)

lemma fold_push_missing: "set (fold (push_missing pq) ds cs) = set cs \<union> (set ds - set pq)"
  by (induction ds arbitrary: cs) (auto simp: push_missing_def)

lemma upgrade_pools_sets:
  assumes "rs = concat (map (\<lambda>d. case verdict v st d of Some q \<Rightarrow> [(d, q)] | None \<Rightarrow> []) ds)" "set ds = set (fst old @ snd old)"
    and "upgrade_pools v old rs = (pq, classic)"
  shows "set pq = {d \<in> set ds. verdict v st d = Some True}"
    and "set classic = {d \<in> set ds. verdict v st d = Some False \<or> (up_keep_dead v \<and> d \<in> set (snd old) \<and> verdict v st d = None)}"
    and "sorted pq" "distinct pq" "sorted classic" "distinct classic"
proof -
  have rs: "(d, q) \<in> set rs \<longleftrightarrow> d \<in> set ds \<and> verdict v st d = Some q" for d q
    unfolding assms(1) by (auto split: option.splits)
  define P C where "P = map fst (filter snd rs)" and "C = map fst (filter (\<lambda>r. \<not> snd r) rs)"
  have p: "set P = {d \<in> set ds. verdict v st d = Some True}" using rs by (simp add: set_eq_iff P_def fst_filter_iff del: set_map set_filter) (metis (full_types))
  have c: "set C = {d \<in> set ds. verdict v st d = Some False}" using rs by (simp add: set_eq_iff C_def fst_filter_iff del: set_map set_filter) (metis (full_types))
  have pools: "pq = sort_dedup P" "classic = sort_dedup (if up_keep_dead v then fold (push_missing P) (snd old) C else C)"
    using assms(3) by (auto simp: upgrade_pools_def Let_def P_def C_def)
  show "set pq = {d \<in> set ds. verdict v st d = Some True}" using pools(1) p by simp
  have "set classic = {d \<in> set ds. verdict v st d = Some False} \<union>
      (if up_keep_dead v then set (snd old) - {d \<in> set ds. verdict v st d = Some True} else {})"
    using pools(2) p c by (simp add: fold_push_missing)
  also have "\<dots> = {d \<in> set ds. verdict v st d = Some False \<or> (up_keep_dead v \<and> d \<in> set (snd old) \<and> verdict v st d = None)}"
  proof -
    have "verdict v st d = Some True \<or> verdict v st d = Some False \<or> verdict v st d = None" for d
      by (cases "verdict v st d") auto
    then show ?thesis using assms(2) by (auto split: if_splits)
  qed
  finally show "set classic = {d \<in> set ds. verdict v st d = Some False \<or> (up_keep_dead v \<and> d \<in> set (snd old) \<and> verdict v st d = None)}" .
  show "sorted pq" "distinct pq" "sorted classic" "distinct classic"
    unfolding pools using sort_dedup_sorted by blast+
qed

lemma bulk_distinct: "distinct xs \<Longrightarrow> set xs \<subseteq> set ys \<Longrightarrow> bulk xs \<le> bulk ys"
proof (rule bulk_mset)
  assume "distinct xs" "set xs \<subseteq> set ys"
  then have "mset xs = mset_set (set xs)" by (simp add: mset_set_set)
  also have "\<dots> \<subseteq># mset_set (set ys)" using \<open>set xs \<subseteq> set ys\<close> by (intro subset_imp_msubset_mset_set) simp_all
  also have "\<dots> \<subseteq># mset ys" by (metis mset_set_set_mset_msubset set_mset_mset)
  finally show "mset xs \<subseteq># mset ys" .
qed

section \<open>Properties\<close>

text \<open>
  Also: merging a directory is the union of its files, whatever their order: the post-quantum pool is the sorted set of
  all non-empty domains of the post-quantum pools of the files that are neither excluded nor damaged, the classic
  pool the sorted set of their classic domains without those of the post-quantum pool, so that no domain is in both.
\<close>

theorem merged_pools_exact:
  assumes "pb_files d = Inr files"
  shows "\<exists>pq classic. collect_dir d f = Inr (pq, classic)
    \<and> pq = merge_lists (map (\<lambda>n. fst (file_pools d f n)) files)
    \<and> classic = filter (\<lambda>x. x \<notin> set pq) (merge_lists (map (\<lambda>n. snd (file_pools d f n)) files))
    \<and> set pq \<inter> set classic = {} \<and> sorted pq \<and> distinct pq \<and> sorted classic \<and> distinct classic"
proof -
  let ?fs = "sort_key as_bytes files"
  have "dedupe_sorted (concat (map (\<lambda>n. g (file_pools d f n)) ?fs)) = merge_lists (map (\<lambda>n. g (file_pools d f n)) files)" for g
    unfolding dedupe_reference by (rule merge_lists_cong) simp
  then have "collect_dir d f = Inr (merge_lists (map (\<lambda>n. fst (file_pools d f n)) files),
      filter (\<lambda>x. x \<notin> set (merge_lists (map (\<lambda>n. fst (file_pools d f n)) files))) (merge_lists (map (\<lambda>n. snd (file_pools d f n)) files)))"
    using assms by (simp add: collect_dir_def Let_def del: dedupe_set)
  moreover have "sorted (merge_lists ls)" "distinct (merge_lists ls)" for ls
    by (simp_all add: merge_lists_def)
  ultimately show ?thesis by (auto simp: sorted_wrt_filter)
qed

text \<open>
  Also: what an upgrade writes is what the probes said. The written file decodes to two disjoint, sorted pools: the
  post-quantum pool holds the domains of the old file whose probe now succeeds with a post-quantum handshake, the
  classic pool those that succeed with a classic one and, when dead domains are to be kept, the dead domains of
  the old classic pool. A dead domain of the old post-quantum pool is in neither, whatever the option says; and
  the counts of live and dead domains add up to the total.
\<close>

theorem upgraded_file_exact:
  assumes "upgrade_pb_file v (Inr data) fault st = (Inr stats, Some out, st')" "decode_as data (up_format v) = Inr old"
    and "bulk (fst old @ snd old) < 2 ^ 64"
  shows "\<exists>pq classic. decode_domains out = Inr (pq, classic) \<and> set pq \<inter> set classic = {}
    \<and> sorted pq \<and> distinct pq \<and> sorted classic \<and> distinct classic
    \<and> set pq = {d \<in> set (fst old @ snd old). d \<noteq> [] \<and> verdict v st d = Some True}
    \<and> set classic = {d \<in> set (fst old @ snd old). d \<noteq> [] \<and>
        (verdict v st d = Some False \<or> (up_keep_dead v \<and> d \<in> set (snd old) \<and> verdict v st d = None))}
    \<and> us_total stats = length (filter (\<lambda>d. verdict v st d \<noteq> None) (sort_dedup (fst old @ snd old))) + us_dead_count stats"
proof -
  let ?ds = "sort_dedup (fst old @ snd old)"
  obtain rs dead where tasks: "upgrade_tasks v ?ds st = (rs, dead, st')"
    using assms(1,2) by (auto simp: upgrade_pb_file_def Let_def split: if_splits prod.splits option.splits)
  obtain pq classic where pools: "upgrade_pools v old rs = (pq, classic)" by fastforce
  have out: "out = encode_domains pq classic" "us_total stats = length ?ds" "us_dead_count stats = dead"
    using assms(1,2) tasks pools by (auto simp: upgrade_pb_file_def Let_def split: if_splits option.splits)
  have vs: "rs = concat (map (\<lambda>d. case verdict v st d of Some q \<Rightarrow> [(d, q)] | None \<Rightarrow> []) ?ds)" "length rs + dead = length ?ds"
    using upgrade_tasks_verdicts [OF _ tasks] sort_dedup_sorted by blast+
  note sets = upgrade_pools_sets [OF vs(1) set_sort_dedup pools]
  have disj: "set pq \<inter> set classic = {}" unfolding sets by auto
  have "list_all utf8 (fst old @ snd old)"
    using assms(2) decode_from_utf8 [of data 0 "[]" "[]"]
    by (auto simp: decode_as_def decode_domains_def split: sum.splits prod.splits pb_format.splits)
  then have u: "list_all utf8 (pq @ classic)" using sets(1,2) by (auto simp: list_all_iff)
  have "bulk (pq @ classic) \<le> bulk (fst old @ snd old)"
    using sets disj by (intro bulk_distinct) auto
  then have "length (encode_domains pq classic) < 2 ^ 64" using encode_bulk [of pq classic] assms(3) by simp
  from decode_encode [OF u this] have "decode_domains out = Inr (filter (\<lambda>s. s \<noteq> []) pq, filter (\<lambda>s. s \<noteq> []) classic)" by (simp add: out)
  moreover have "length rs = length (filter (\<lambda>d. verdict v st d \<noteq> None) ?ds)"
    unfolding vs(1) by (rule length_verdicts)
  moreover have "us_total stats = length (filter (\<lambda>d. verdict v st d \<noteq> None) ?ds) + us_dead_count stats"
    using out(2,3) vs(2) calculation(2) by simp
  moreover have "set (filter (\<lambda>s. s \<noteq> []) pq) \<inter> set (filter (\<lambda>s. s \<noteq> []) classic) = {}" using disj by auto
  moreover have "set (filter (\<lambda>s. s \<noteq> []) pq) = {d \<in> set (fst old @ snd old). d \<noteq> [] \<and> verdict v st d = Some True}"
    unfolding set_filter sets(1) set_sort_dedup by auto
  moreover have "set (filter (\<lambda>s. s \<noteq> []) classic) = {d \<in> set (fst old @ snd old). d \<noteq> [] \<and>
        (verdict v st d = Some False \<or> (up_keep_dead v \<and> d \<in> set (snd old) \<and> verdict v st d = None))}"
    unfolding set_filter sets(2) set_sort_dedup by auto
  moreover have "sorted (filter (\<lambda>s. s \<noteq> []) pq)" "distinct (filter (\<lambda>s. s \<noteq> []) pq)"
      "sorted (filter (\<lambda>s. s \<noteq> []) classic)" "distinct (filter (\<lambda>s. s \<noteq> []) classic)"
    using sets(3-6) by (simp_all add: sorted_wrt_filter)
  ultimately show ?thesis by blast
qed

definition sample_dir :: pb_dir where
  "sample_dir = \<lparr>pd_listing = Inr [Inr ''US.pb'', Inr ''x.txt''],
     pd_files = (\<lambda>n. Inr (encode_domains [[0x61]] [[0x62], [0x61]]))\<rparr>"

theorem merged_pools_exact_witness:
  "\<exists>pq classic. collect_dir sample_dir DualPool = Inr (pq, classic) \<and> set pq \<inter> set classic = {}"
proof -
  have "pb_files sample_dir = Inr [''US.pb'']"
    by (simp add: pb_files_def sample_dir_def is_pb_def extension_def to_ascii_lowercase_def ascii_lower_def)
  from merged_pools_exact [OF this] show ?thesis by blast
qed

definition sample_upgrade :: upgrade_env where
  "sample_upgrade = \<lparr>up_resolve = (\<lambda>d. if d = [0x61] then Some (V4 1 2 3 4) else None), up_probe = (\<lambda>d ip. Inr sample_probe),
     up_contains = (\<lambda>n ip. False), up_geodb = None, up_keep_dead = True, up_force = False, up_format = DualPool, up_now = 0\<rparr>"

definition sample_file :: bytes where
  "sample_file = encode_domains [[0x61], [0x63]] [[0x62]]"

lemma sample_decode: "decode_as sample_file (up_format sample_upgrade) = Inr ([[0x61], [0x63]], [[0x62]])"
proof -
  have "decode_domains sample_file = Inr ([[0x61], [0x63]], [[0x62]])"
    using decode_encode [of "[[0x61], [0x63]]" "[[0x62]]"]
    by (simp add: sample_file_def encode_domains_def put_string_field_def put_varint.simps)
  then show ?thesis by (simp add: decode_as_def sample_upgrade_def)
qed

lemma sample_verdicts:
  "verdict sample_upgrade None [0x61] = Some False" "verdict sample_upgrade None [0x62] = None" "verdict sample_upgrade None [0x63] = None"
proof -
  have "validate_probe sample_probe" "\<not> is_pq sample_probe"
    using sample_accepted
    by (auto simp: accepted_as_def sample_build_def is_pq_def sample_probe_def is_pq_group_def to_ascii_uppercase_def ascii_upper_def)
  then show "verdict sample_upgrade None [0x61] = Some False" "verdict sample_upgrade None [0x62] = None" "verdict sample_upgrade None [0x63] = None"
    by (simp_all add: verdict_def upgrade_task_def sample_upgrade_def is_cloudflare_ip_def CLOUDFLARE_CIDRS_def)
qed

theorem upgraded_file_exact_witness:
  "\<exists>stats out st'. upgrade_pb_file sample_upgrade (Inr sample_file) None None = (Inr stats, Some out, st')
     \<and> (\<exists>pq classic. decode_domains out = Inr (pq, classic) \<and> set pq = {} \<and> set classic = {[0x61], [0x62]})"
proof -
  have "sort_dedup ([[0x61], [0x63]] @ [[0x62]]) \<noteq> []" using set_sort_dedup [of "[[0x61], [0x63]] @ [[0x62]]"] by fastforce
  then obtain stats out st' where u: "upgrade_pb_file sample_upgrade (Inr sample_file) None None = (Inr stats, Some out, st')"
    using sample_decode by (fastforce simp: upgrade_pb_file_def Let_def split_beta)
  have "bulk (fst ([[0x61], [0x63]], [[0x62]]) @ snd ([[0x61], [0x63]], [[0x62]])) < 2 ^ 64" by (simp add: bulk_def)
  from upgraded_file_exact [OF u sample_decode this] obtain pq classic where d: "decode_domains out = Inr (pq, classic)"
      and p: "set pq = {d \<in> set [[0x61], [0x63], [0x62]]. d \<noteq> [] \<and> verdict sample_upgrade None d = Some True}"
      and c: "set classic = {d \<in> set [[0x61], [0x63], [0x62]]. d \<noteq> [] \<and> (verdict sample_upgrade None d = Some False
          \<or> (up_keep_dead sample_upgrade \<and> d \<in> set [[0x62]] \<and> verdict sample_upgrade None d = None))}"
    by auto
  have "up_keep_dead sample_upgrade" by (simp add: sample_upgrade_def)
  then have "set classic = {[0x61], [0x62]}" unfolding c by (auto simp: sample_verdicts)
  moreover have "set pq = {}" unfolding p by (auto simp: sample_verdicts)
  ultimately show ?thesis using u d by blast
qed

end
