(* ===== verification/SniRun.thy ===== *)
theory SniRun
  imports SniMerge
begin

text \<open>
  The three phases of the SNI prober in one command, \<open>sni_probe/src/run.rs\<close>, with the input lines of
  \<open>target.rs\<close> and the network gate on \<open>connectivity.rs\<close>. A run loads the state file, skips the phases it has
  marked as done, and after each other phase stores the result, sets the mark and saves.

  What a run meets is its environment: the answers of the connectivity checks and of the user at the prompts, the
  input file, the pipeline stages, the geo database, and which saves fail. A gate asks again until the network is
  right or the user gives up; a gate that is never satisfied and a stage that never returns make the run the value
  None.
\<close>

section \<open>Input lines\<close>

definition parse_line :: "string \<Rightarrow> (string \<times> string option) option" where
  "parse_line line =
     (let raw = trim line
      in if raw = [] \<or> prefix ''#'' raw \<or> prefix ''//'' raw then None
         else
           (let parts = filter (\<lambda>p. p \<noteq> []) (map trim (split_on (CHR '','') raw));
                parts' = (case parts of p # ps \<Rightarrow> if parse_u64 p \<noteq> None then ps else parts | [] \<Rightarrow> [])
            in case parts' of
                 [] \<Rightarrow> None
               | domain # rest \<Rightarrow>
                   Some (domain, case rest of c # _ \<Rightarrow> if parse_ip c \<noteq> None then Some c else None | [] \<Rightarrow> None)))"

definition seed_entry :: "string \<times> string option \<Rightarrow> entry" where
  "seed_entry = (\<lambda>(domain, ip). \<lparr>en_domain = as_bytes domain, en_ip = Option.bind ip parse_ip\<rparr>)"

definition seeds :: "nat \<Rightarrow> string \<Rightarrow> entry list" where
  "seeds max_lines content =
     (let es = map seed_entry (List.map_filter parse_line (str_lines content))
      in if max_lines > 0 then take max_lines es else es)"

section \<open>The gates\<close>

datatype connectivity = Reachable ip_addr | DnsFailed string | HandshakeFailed ip_addr string

definition is_reachable :: "connectivity \<Rightarrow> bool" where
  "is_reachable c = (case c of Reachable ip \<Rightarrow> True | _ \<Rightarrow> False)"

record run_env =
  rn_skip_gates :: bool
  rn_check :: "nat \<Rightarrow> connectivity"
  rn_enter :: "nat \<Rightarrow> bool"
  rn_input :: "string + string"
  rn_max_lines :: nat
  rn_resolver :: "string + unit"
  rn_resolve :: "entry list \<Rightarrow> (string + entry list) option"
  rn_survive :: "entry list \<Rightarrow> (string + entry list) option"
  rn_geo :: "string + unit"
  rn_build :: "entry list \<Rightarrow> (string + entry list) option"
  rn_read :: read_fault
  rn_save :: "nat \<Rightarrow> save_fault"

text \<open>The \<open>n\<close>-th check and the prompt that follows it when it fails.\<close>

partial_function (option) gate_loop :: "(connectivity \<Rightarrow> bool) \<Rightarrow> run_env \<Rightarrow> string \<Rightarrow> nat \<Rightarrow> ((string + unit) \<times> nat) option" where
  "gate_loop good v err n =
     (if good (rn_check v n) then Some (Inr (), n + 1)
      else if rn_enter v n then gate_loop good v err (n + 1) else Some (Inl err, n + 1))"

definition gate_expect_reachable :: "run_env \<Rightarrow> nat \<Rightarrow> ((string + unit) \<times> nat) option" where
  "gate_expect_reachable v n = (if rn_skip_gates v then Some (Inr (), n) else gate_loop is_reachable v ''not abroad'' n)"

definition gate_expect_blocked :: "run_env \<Rightarrow> nat \<Rightarrow> ((string + unit) \<times> nat) option" where
  "gate_expect_blocked v n = (if rn_skip_gates v then Some (Inr (), n) else gate_loop (\<lambda>c. \<not> is_reachable c) v ''not at home'' n)"

section \<open>The run\<close>

text \<open>The state file, how many checks and saves there were, and, for the statements below, what was run on what and
  what was saved.\<close>

record run_world =
  rw_disk :: state_disk
  rw_checks :: nat
  rw_saves :: nat
  rw_ran :: "(nat \<times> entry list) list"
  rw_saved :: "sni_state list"

definition save_run :: "run_env \<Rightarrow> sni_state \<Rightarrow> run_world \<Rightarrow> (string + sni_state) \<times> run_world" where
  "save_run v st w =
     (case save_state (rn_save v (rw_saves w)) st (rw_disk w) of
        (r, d) \<Rightarrow>
          let w' = w\<lparr>rw_disk := d, rw_saves := rw_saves w + 1, rw_saved := rw_saved w @ [st]\<rparr>
          in (case r of Inl e \<Rightarrow> (Inl e, w') | Inr _ \<Rightarrow> (Inr st, w')))"

text \<open>A phase that is not done: its gate, its preparation, the stage on its input, the mark and the save.\<close>

definition run_phase :: "run_env \<Rightarrow> (nat \<Rightarrow> ((string + unit) \<times> nat) option) \<Rightarrow> nat \<Rightarrow> 32 word
    \<Rightarrow> (sni_state \<Rightarrow> string + entry list) \<Rightarrow> (entry list \<Rightarrow> (string + entry list) option)
    \<Rightarrow> (entry list \<Rightarrow> sni_state \<Rightarrow> sni_state) \<Rightarrow> sni_state \<Rightarrow> run_world \<Rightarrow> ((string + sni_state) \<times> run_world) option" where
  "run_phase v gate k bit_mask input stage put st w =
     (if is_done st bit_mask then Some (Inr st, w)
      else (case gate (rw_checks w) of
              None \<Rightarrow> None
            | Some (Inl e, n) \<Rightarrow> Some (Inl e, w\<lparr>rw_checks := n\<rparr>)
            | Some (Inr _, n) \<Rightarrow>
                (let w1 = w\<lparr>rw_checks := n\<rparr>
                 in case input st of
                      Inl e \<Rightarrow> Some (Inl e, w1)
                    | Inr es \<Rightarrow>
                        (let w2 = w1\<lparr>rw_ran := rw_ran w1 @ [(k, es)]\<rparr>
                         in case stage es of
                              None \<Rightarrow> None
                            | Some (Inl e) \<Rightarrow> Some (Inl e, w2)
                            | Some (Inr r) \<Rightarrow> Some (save_run v (mark_done bit_mask (put r st)) w2)))))"

definition phase_resolve :: "run_env \<Rightarrow> sni_state \<Rightarrow> run_world \<Rightarrow> ((string + sni_state) \<times> run_world) option" where
  "phase_resolve v = run_phase v (gate_expect_reachable v) 1 PHASE_RESOLVE
     (\<lambda>st. case rn_input v of
              Inl e \<Rightarrow> Inl e
            | Inr c \<Rightarrow> (case rn_resolver v of Inl e \<Rightarrow> Inl e | Inr _ \<Rightarrow> Inr (seeds (rn_max_lines v) c)))
     (rn_resolve v) (\<lambda>r st. st\<lparr>st_phase1 := r\<rparr>)"

definition phase_survival :: "run_env \<Rightarrow> sni_state \<Rightarrow> run_world \<Rightarrow> ((string + sni_state) \<times> run_world) option" where
  "phase_survival v = run_phase v (gate_expect_blocked v) 2 PHASE_SURVIVAL (\<lambda>st. Inr (st_phase1 st)) (rn_survive v) (\<lambda>r st. st\<lparr>st_phase2 := r\<rparr>)"

definition phase_build :: "run_env \<Rightarrow> sni_state \<Rightarrow> run_world \<Rightarrow> ((string + sni_state) \<times> run_world) option" where
  "phase_build v = run_phase v (gate_expect_reachable v) 3 PHASE_BUILD
     (\<lambda>st. case rn_geo v of Inl e \<Rightarrow> Inl e | Inr _ \<Rightarrow> Inr (st_phase2 st)) (rn_build v) (\<lambda>r st. st\<lparr>st_phase3 := r\<rparr>)"

definition then_phase :: "((string + sni_state) \<times> run_world) option \<Rightarrow> (sni_state \<Rightarrow> run_world \<Rightarrow> ((string + sni_state) \<times> run_world) option)
    \<Rightarrow> ((string + sni_state) \<times> run_world) option" where
  "then_phase r f = (case r of None \<Rightarrow> None | Some (Inl e, w) \<Rightarrow> Some (Inl e, w) | Some (Inr st, w) \<Rightarrow> f st w)"

definition run :: "run_env \<Rightarrow> run_world \<Rightarrow> ((string + sni_state) \<times> run_world) option" where
  "run v w =
     (case load_state (rn_read v) (rw_disk w) of
        Inl e \<Rightarrow> Some (Inl e, w)
      | Inr st \<Rightarrow> then_phase (then_phase (phase_resolve v st w) (phase_survival v)) (phase_build v))"

section \<open>The gates end\<close>

lemma gate_loop_ends:
  assumes "good (rn_check v m) \<or> \<not> rn_enter v m" "n \<le> m"
  shows "\<exists>r k. gate_loop good v err n = Some (r, k)"
  using assms(2)
proof (induction "m - n" arbitrary: n)
  case 0
  then show ?case using assms(1) by (subst gate_loop.simps) auto
next
  case (Suc x)
  then have "\<exists>r k. gate_loop good v err (n + 1) = Some (r, k)" by (intro Suc(1)) auto
  then show ?case by (subst gate_loop.simps) auto
qed

lemma gate_loop_good: "gate_loop good v err n = Some (Inr u, k) \<Longrightarrow> k > 0 \<and> good (rn_check v (k - 1))"
proof -
  have "fst r = Inr () \<longrightarrow> snd r > 0 \<and> good (rn_check v (snd r - 1))" if "gate_loop good v err n = Some r" for r
  proof (rule gate_loop.raw_induct [rotated, OF that], goal_cases)
    case (1 f good v err n r)
    show ?case using 1(1) [of good v err "n + 1" r] 1(2) by (auto split: if_splits)
  qed
  then show "gate_loop good v err n = Some (Inr u, k) \<Longrightarrow> k > 0 \<and> good (rn_check v (k - 1))" by force
qed

section \<open>The mask\<close>

lemma masks: "PHASE_RESOLVE = 1" "PHASE_SURVIVAL = 2" "PHASE_BUILD = 4"
  by (simp_all add: PHASE_RESOLVE_def PHASE_SURVIVAL_def PHASE_BUILD_def)

lemma mask_bit: "n < 32 \<Longrightarrow> ((x :: 32 word) AND push_bit n 1 \<noteq> 0) = bit x n"
proof
  assume n: "n < 32" "bit x n"
  then have "bit (x AND push_bit n 1) n" by (simp add: bit_simps)
  then show "x AND push_bit n 1 \<noteq> 0" by auto
next
  assume "x AND push_bit n 1 \<noteq> 0"
  then obtain m where "bit (x AND push_bit n 1) m" using bit_eq_iff [of "x AND push_bit n 1" 0] by auto
  then show "bit x n" by (auto simp: bit_simps bit_1_iff)
qed

lemma or_mask_bit: "k < 32 \<Longrightarrow> bit ((x :: 32 word) OR push_bit k 1) n \<longleftrightarrow> bit x n \<or> n = k"
  by (auto simp: bit_simps bit_1_iff)

lemma is_done_bit: "is_done st PHASE_RESOLVE \<longleftrightarrow> bit (st_completed st) 0" "is_done st PHASE_SURVIVAL \<longleftrightarrow> bit (st_completed st) 1"
  "is_done st PHASE_BUILD \<longleftrightarrow> bit (st_completed st) 2"
  unfolding is_done_def PHASE_RESOLVE_def PHASE_SURVIVAL_def PHASE_BUILD_def by (rule mask_bit; simp)+

lemma mark_done_bit:
  "bit (st_completed (mark_done PHASE_RESOLVE st)) n \<longleftrightarrow> bit (st_completed st) n \<or> n = 0"
  "bit (st_completed (mark_done PHASE_SURVIVAL st)) n \<longleftrightarrow> bit (st_completed st) n \<or> n = 1"
  "bit (st_completed (mark_done PHASE_BUILD st)) n \<longleftrightarrow> bit (st_completed st) n \<or> n = 2"
  unfolding mark_done_def PHASE_RESOLVE_def PHASE_SURVIVAL_def PHASE_BUILD_def
  using or_mask_bit [of 0 "st_completed st" n] or_mask_bit [of 1 "st_completed st" n] or_mask_bit [of 2 "st_completed st" n] by simp_all

lemma mark_done_phases [simp]:
  "st_phase1 (mark_done m st) = st_phase1 st" "st_phase2 (mark_done m st) = st_phase2 st" "st_phase3 (mark_done m st) = st_phase3 st"
  by (simp_all add: mark_done_def)

section \<open>What a run does to the state file\<close>

text \<open>The results of the phases that are done fit together.\<close>

definition chain :: "sni_state \<Rightarrow> bool" where
  "chain st \<longleftrightarrow>
     (is_done st PHASE_SURVIVAL \<longrightarrow> is_done st PHASE_RESOLVE \<and> mset (st_phase2 st) \<subseteq># mset (st_phase1 st))
     \<and> (is_done st PHASE_BUILD \<longrightarrow> is_done st PHASE_SURVIVAL \<and> mset (st_phase3 st) \<subseteq># mset (st_phase2 st))"

text \<open>A later state: no mark is lost, and the result of a phase that was done is the same.\<close>

definition later :: "sni_state \<Rightarrow> sni_state \<Rightarrow> bool" where
  "later st st' \<longleftrightarrow>
     (is_done st PHASE_RESOLVE \<longrightarrow> is_done st' PHASE_RESOLVE \<and> st_phase1 st' = st_phase1 st)
     \<and> (is_done st PHASE_SURVIVAL \<longrightarrow> is_done st' PHASE_SURVIVAL \<and> st_phase2 st' = st_phase2 st)
     \<and> (is_done st PHASE_BUILD \<longrightarrow> is_done st' PHASE_BUILD \<and> st_phase3 st' = st_phase3 st)"

lemma later_refl: "later st st"
  by (simp add: later_def)

lemma later_trans: "later a b \<Longrightarrow> later b c \<Longrightarrow> later a c"
  by (auto simp: later_def)

definition on_disk :: "sni_state \<Rightarrow> run_world \<Rightarrow> bool" where
  "on_disk st w \<longleftrightarrow> load_state ReadOk (rw_disk w) = Inr st"

lemma run_phase_cases:
  assumes "run_phase v gate k m input stage put st w = Some (res, w')"
  obtains (skipped) "is_done st m" "res = Inr st" "w' = w"
  | (stopped) e where "\<not> is_done st m" "res = Inl e" "rw_disk w' = rw_disk w" "rw_saved w' = rw_saved w"
      "rw_ran w' = rw_ran w \<or> (\<exists>es. input st = Inr es \<and> rw_ran w' = rw_ran w @ [(k, es)])"
  | (finished) es r wa where "\<not> is_done st m" "input st = Inr es" "stage es = Some (Inr r)"
      "rw_disk wa = rw_disk w" "rw_saved wa = rw_saved w" "rw_ran wa = rw_ran w @ [(k, es)]"
      "(res, w') = save_run v (mark_done m (put r st)) wa"
proof (cases "is_done st m")
  case True
  then show ?thesis using assms skipped by (simp add: run_phase_def)
next
  case False
  obtain g n where g: "gate (rw_checks w) = Some (g, n)"
    using assms False by (auto simp: run_phase_def Let_def split: option.splits)
  show ?thesis
  proof (cases g)
    case (Inl e)
    then show ?thesis using assms False g by (intro stopped [of e]) (auto simp: run_phase_def Let_def)
  next
    case (Inr u)
    show ?thesis
    proof (cases "input st")
      case (Inl e)
      then show ?thesis using assms False g Inr by (intro stopped [of e]) (auto simp: run_phase_def Let_def)
    next
      case es: (Inr es)
      then obtain s where s: "stage es = Some s" using assms False g Inr by (auto simp: run_phase_def Let_def split: option.splits)
      show ?thesis
      proof (cases s)
        case (Inl e)
        then show ?thesis using assms False g Inr es s by (intro stopped [of e]) (auto simp: run_phase_def Let_def)
      next
        case r: (Inr r)
        then show ?thesis
          using assms False g Inr es s
          by (intro finished [of es r "w\<lparr>rw_checks := n, rw_ran := rw_ran w @ [(k, es)]\<rparr>"]) (auto simp: run_phase_def Let_def)
      qed
    qed
  qed
qed

lemma save_run_disk:
  assumes "save_run v st w = (res, w')" "wf_state st"
  shows "rw_saved w' = rw_saved w @ [st]" "rw_ran w' = rw_ran w"
    and "res = Inr s \<Longrightarrow> s = st \<and> on_disk st w'" "res = Inl e \<Longrightarrow> load_state ReadOk (rw_disk w') = load_state ReadOk (rw_disk w)"
proof -
  obtain r d where r: "save_state (rn_save v (rw_saves w)) st (rw_disk w) = (r, d)" by fastforce
  then have "load_state ReadOk d = (if r = Inr () then Inr st else load_state ReadOk (rw_disk w))"
    using decode_encode_state [OF assms(2)]
    by (cases "rn_save v (rw_saves w)") (auto simp: save_state_def load_state_def)
  with assms(1) r show "rw_saved w' = rw_saved w @ [st]" "rw_ran w' = rw_ran w"
      "res = Inr s \<Longrightarrow> s = st \<and> on_disk st w'" "res = Inl e \<Longrightarrow> load_state ReadOk (rw_disk w') = load_state ReadOk (rw_disk w)"
    by (auto simp: save_run_def on_disk_def Let_def split: sum.splits)
qed

text \<open>One phase, for a property of the state it stores.\<close>

lemma run_phase_disk:
  assumes "run_phase v gate k m input stage put st w = Some (res, w')" "on_disk st w"
    and "\<And>es r. \<not> is_done st m \<Longrightarrow> input st = Inr es \<Longrightarrow> stage es = Some (Inr r) \<Longrightarrow> P (mark_done m (put r st))"
    and "P st" "list_all wf_state (rw_saved w')"
  shows "\<exists>st'. on_disk st' w' \<and> P st'
    \<and> (\<forall>s. res = Inr s \<longrightarrow> s = st' \<and> (is_done st' m \<or> (\<exists>r. st' = mark_done m (put r st))))
    \<and> (\<exists>xs. rw_ran w' = rw_ran w @ xs \<and> (\<forall>p \<in> set xs. fst p = k \<and> \<not> is_done st m))"
  using assms(1)
proof (cases rule: run_phase_cases)
  case skipped
  then show ?thesis using assms by auto
next
  case (stopped e)
  then show ?thesis using assms by (auto simp: on_disk_def)
next
  case (finished es r wa)
  let ?st = "mark_done m (put r st)"
  have sv: "save_run v ?st wa = (res, w')" using finished by simp
  have "?st \<in> set (rw_saved w')" using sv by (auto simp: save_run_def Let_def split: sum.splits prod.splits)
  then have wf: "wf_state ?st" using assms(5) by (simp add: list_all_iff)
  note d = save_run_disk [OF sv wf]
  show ?thesis
  proof (cases res)
    case (Inl e)
    then have "on_disk st w'" using d(4) finished assms(2) by (simp add: on_disk_def)
    then show ?thesis using Inl assms(4) d(2) finished by auto
  next
    case (Inr s)
    then show ?thesis using d(2) d(3) [OF Inr] finished assms(3) by auto
  qed
qed

section \<open>The three phases\<close>

text \<open>The stages are those of the pipeline.\<close>

definition stages_sound :: "run_env \<Rightarrow> bool" where
  "stages_sound v \<longleftrightarrow>
     (\<forall>es r. rn_survive v es = Some (Inr r) \<longrightarrow> (\<exists>probe n k d. probe_survival_entries probe n es (r, k, d)))
     \<and> (\<forall>es r. rn_build v es = Some (Inr r) \<longrightarrow>
          (\<exists>e n b df fault fs fs'. build_pools_entries_with_history e n es b df fault fs (Inr r, fs')))"

lemma survive_subset: "probe_survival_entries probe n es (r, k, d) \<Longrightarrow> mset r \<subseteq># mset es"
proof -
  assume "probe_survival_entries probe n es (r, k, d)"
  then obtain g where "stage_runs n (survival_work probe) (stage_start False es ()) g" "stage_done g" "r = sg_out g"
    by (auto simp: probe_survival_entries_def)
  then have "mset r = mset (survivors probe es)" using sequential_outcome(1) [OF _ stage_no_check(1)] by (simp add: survivors_produce)
  then show ?thesis by (simp add: survivors_def mset_filter)
qed

lemma build_subset: "build_pools_entries_with_history e n es b df fault fs (Inr r, fs') \<Longrightarrow> mset r \<subseteq># mset es"
  by (erule build_ok) (use build_outcome(2) in auto)

lemma stages_subset:
  assumes "stages_sound v"
  shows "rn_survive v es = Some (Inr r) \<Longrightarrow> mset r \<subseteq># mset es" "rn_build v es = Some (Inr r) \<Longrightarrow> mset r \<subseteq># mset es"
  using assms unfolding stages_sound_def by (meson survive_subset, meson build_subset)

text \<open>What holds between the state a phase finds and the one it leaves, and how the run goes on.\<close>

definition phase_post :: "nat \<Rightarrow> 32 word \<Rightarrow> sni_state \<Rightarrow> run_world \<Rightarrow> (string + sni_state) \<times> run_world \<Rightarrow> bool" where
  "phase_post k m st w rw \<longleftrightarrow>
     (\<exists>st'. on_disk st' (snd rw) \<and> chain st' \<and> later st st' \<and> (\<forall>s. fst rw = Inr s \<longrightarrow> s = st' \<and> is_done st' m)
        \<and> (\<exists>xs. rw_ran (snd rw) = rw_ran w @ xs \<and> (\<forall>p \<in> set xs. fst p = k \<and> \<not> is_done st m)))"

lemma saved_grows: "run_phase v gate k m input stage put st w = Some (res, w') \<Longrightarrow> \<exists>xs. rw_saved w' = rw_saved w @ xs"
  by (erule run_phase_cases) (auto simp: save_run_def Let_def split: sum.splits prod.splits)

lemma phase_post_intro:
  assumes "run_phase v gate k m input stage put st w = Some (res, w')" "on_disk st w" "chain st"
    and "\<And>es r. \<not> is_done st m \<Longrightarrow> input st = Inr es \<Longrightarrow> stage es = Some (Inr r) \<Longrightarrow>
      chain (mark_done m (put r st)) \<and> later st (mark_done m (put r st))"
    and "\<And>r. is_done (mark_done m (put r st)) m" "list_all wf_state (rw_saved w')"
  shows "phase_post k m st w (res, w')"
proof -
  have "\<exists>st'. on_disk st' w' \<and> (chain st' \<and> later st st')
    \<and> (\<forall>s. res = Inr s \<longrightarrow> s = st' \<and> (is_done st' m \<or> (\<exists>r. st' = mark_done m (put r st))))
    \<and> (\<exists>xs. rw_ran w' = rw_ran w @ xs \<and> (\<forall>p \<in> set xs. fst p = k \<and> \<not> is_done st m))"
    by (rule run_phase_disk [OF assms(1,2) _ _ assms(6)]) (use assms(3,4) later_refl in auto)
  then show ?thesis unfolding phase_post_def using assms(5) by (metis fst_conv snd_conv)
qed

lemma done_marks:
  "is_done (mark_done PHASE_RESOLVE st) PHASE_RESOLVE" "is_done (mark_done PHASE_SURVIVAL st) PHASE_SURVIVAL"
  "is_done (mark_done PHASE_BUILD st) PHASE_BUILD"
  by (simp_all add: is_done_bit mark_done_bit)

lemma is_done_upd [simp]:
  "is_done (st\<lparr>st_phase1 := a\<rparr>) m = is_done st m" "is_done (st\<lparr>st_phase2 := a\<rparr>) m = is_done st m" "is_done (st\<lparr>st_phase3 := a\<rparr>) m = is_done st m"
  by (simp_all add: is_done_def)

lemma is_done_mark:
  "is_done (mark_done PHASE_RESOLVE st) PHASE_SURVIVAL = is_done st PHASE_SURVIVAL" "is_done (mark_done PHASE_RESOLVE st) PHASE_BUILD = is_done st PHASE_BUILD"
  "is_done (mark_done PHASE_SURVIVAL st) PHASE_RESOLVE = is_done st PHASE_RESOLVE" "is_done (mark_done PHASE_SURVIVAL st) PHASE_BUILD = is_done st PHASE_BUILD"
  "is_done (mark_done PHASE_BUILD st) PHASE_RESOLVE = is_done st PHASE_RESOLVE" "is_done (mark_done PHASE_BUILD st) PHASE_SURVIVAL = is_done st PHASE_SURVIVAL"
  by (simp_all add: is_done_bit mark_done_bit)

lemmas phase_marks = done_marks is_done_mark chain_def later_def

lemma resolve_post:
  assumes "phase_resolve v st w = Some (res, w')" "on_disk st w" "chain st" "list_all wf_state (rw_saved w')"
  shows "phase_post 1 PHASE_RESOLVE st w (res, w')"
  using assms(1) unfolding phase_resolve_def
  by (rule phase_post_intro [OF _ assms(2,3) _ _ assms(4)]) (use assms(3) in \<open>auto simp: phase_marks\<close>)

lemma survival_post:
  assumes "phase_survival v st w = Some (res, w')" "on_disk st w" "chain st" "list_all wf_state (rw_saved w')"
    and "is_done st PHASE_RESOLVE" "stages_sound v"
  shows "phase_post 2 PHASE_SURVIVAL st w (res, w')"
  using assms(1) unfolding phase_survival_def
  by (rule phase_post_intro [OF _ assms(2,3) _ _ assms(4)]) (use assms(3,5) stages_subset(1) [OF assms(6)] in \<open>auto simp: phase_marks\<close>)

lemma build_post:
  assumes "phase_build v st w = Some (res, w')" "on_disk st w" "chain st" "list_all wf_state (rw_saved w')"
    and "is_done st PHASE_SURVIVAL" "stages_sound v"
  shows "phase_post 3 PHASE_BUILD st w (res, w')"
  using assms(1) unfolding phase_build_def
  by (rule phase_post_intro [OF _ assms(2,3) _ _ assms(4)])
     (use assms(3,5) stages_subset(2) [OF assms(6)] in \<open>auto simp: phase_marks split: sum.splits\<close>)

lemma phase_saved:
  "phase_survival v st w = Some (res, w') \<Longrightarrow> \<exists>xs. rw_saved w' = rw_saved w @ xs"
  "phase_build v st w = Some (res, w') \<Longrightarrow> \<exists>xs. rw_saved w' = rw_saved w @ xs"
  unfolding phase_survival_def phase_build_def by (erule saved_grows)+

section \<open>Properties\<close>

text \<open>Two phases in a row.\<close>

definition runs_only_new :: "sni_state \<Rightarrow> run_world \<Rightarrow> run_world \<Rightarrow> bool" where
  "runs_only_new st w w' \<longleftrightarrow>
     (\<exists>xs. rw_ran w' = rw_ran w @ xs
        \<and> (\<forall>p \<in> set xs. (fst p = 1 \<and> \<not> is_done st PHASE_RESOLVE) \<or> (fst p = 2 \<and> \<not> is_done st PHASE_SURVIVAL)
             \<or> (fst p = 3 \<and> \<not> is_done st PHASE_BUILD)))"

lemma runs_only_new_trans:
  assumes "runs_only_new st w w1" "later st st1" "runs_only_new st1 w1 w2"
  shows "runs_only_new st w w2"
proof -
  obtain xs ys where "rw_ran w1 = rw_ran w @ xs" "rw_ran w2 = rw_ran w1 @ ys"
      and x: "\<forall>p \<in> set xs. (fst p = 1 \<and> \<not> is_done st PHASE_RESOLVE) \<or> (fst p = 2 \<and> \<not> is_done st PHASE_SURVIVAL) \<or> (fst p = 3 \<and> \<not> is_done st PHASE_BUILD)"
      and y: "\<forall>p \<in> set ys. (fst p = 1 \<and> \<not> is_done st1 PHASE_RESOLVE) \<or> (fst p = 2 \<and> \<not> is_done st1 PHASE_SURVIVAL) \<or> (fst p = 3 \<and> \<not> is_done st1 PHASE_BUILD)"
    using assms(1,3) unfolding runs_only_new_def by blast
  moreover have "\<forall>p \<in> set ys. (fst p = 1 \<and> \<not> is_done st PHASE_RESOLVE) \<or> (fst p = 2 \<and> \<not> is_done st PHASE_SURVIVAL) \<or> (fst p = 3 \<and> \<not> is_done st PHASE_BUILD)"
    using y assms(2) unfolding later_def by blast
  ultimately show ?thesis unfolding runs_only_new_def by (intro exI [of _ "xs @ ys"]) auto
qed

definition run_post :: "sni_state \<Rightarrow> run_world \<Rightarrow> 32 word \<Rightarrow> (string + sni_state) \<times> run_world \<Rightarrow> bool" where
  "run_post st w m rw \<longleftrightarrow>
     (\<exists>st'. on_disk st' (snd rw) \<and> chain st' \<and> later st st' \<and> (\<forall>s. fst rw = Inr s \<longrightarrow> s = st' \<and> is_done st' m) \<and> runs_only_new st w (snd rw))"

lemma phase_run_post:
  assumes "phase_post k m st w rw" "(k, m) \<in> {(1, PHASE_RESOLVE), (2, PHASE_SURVIVAL), (3, PHASE_BUILD)}"
  shows "run_post st w m rw"
proof -
  obtain st' xs where "on_disk st' (snd rw)" "chain st'" "later st st'" "\<forall>s. fst rw = Inr s \<longrightarrow> s = st' \<and> is_done st' m"
      and x: "rw_ran (snd rw) = rw_ran w @ xs" "\<forall>p \<in> set xs. fst p = k \<and> \<not> is_done st m"
    using assms(1) unfolding phase_post_def by blast
  moreover have "runs_only_new st w (snd rw)" unfolding runs_only_new_def using x assms(2) by (intro exI [of _ xs]) auto
  ultimately show ?thesis unfolding run_post_def by blast
qed

lemma run_post_then:
  assumes "run_post st w m rw1" "then_phase (Some rw1) f = Some rw2"
    and "\<And>s w1. on_disk s w1 \<Longrightarrow> chain s \<Longrightarrow> is_done s m \<Longrightarrow> f s w1 = Some rw2 \<Longrightarrow> run_post s w1 m' rw2"
  shows "run_post st w m' rw2"
proof (cases "fst rw1")
  case (Inl e)
  then have "rw2 = rw1" using assms(2) by (cases rw1) (simp add: then_phase_def)
  with Inl assms(1) show ?thesis by (auto simp: run_post_def)
next
  case (Inr s)
  obtain st1 where s1: "on_disk st1 (snd rw1)" "chain st1" "later st st1" "s = st1" "is_done st1 m" "runs_only_new st w (snd rw1)"
    using assms(1) Inr unfolding run_post_def by blast
  have "f s (snd rw1) = Some rw2" using assms(2) Inr by (cases rw1) (simp add: then_phase_def)
  then have "run_post s (snd rw1) m' rw2" using assms(3) s1 by blast
  then obtain st2 where "on_disk st2 (snd rw2)" "chain st2" "later s st2" "\<forall>u. fst rw2 = Inr u \<longrightarrow> u = st2 \<and> is_done st2 m'" "runs_only_new s (snd rw1) (snd rw2)"
    unfolding run_post_def by blast
  with s1 later_trans [of st s st2] runs_only_new_trans [of st w "snd rw1" s "snd rw2"] show ?thesis
    unfolding run_post_def by blast
qed

lemma then_phaseD: "then_phase r f = Some rw2 \<Longrightarrow> \<exists>rw1. r = Some rw1 \<and> then_phase (Some rw1) f = Some rw2"
  by (cases r) (auto simp: then_phase_def)

lemma then_saved:
  assumes "then_phase (Some rw1) f = Some rw2" "\<And>s w1. f s w1 = Some rw2 \<Longrightarrow> \<exists>xs. rw_saved (snd rw2) = rw_saved w1 @ xs"
    and "list_all wf_state (rw_saved (snd rw2))"
  shows "list_all wf_state (rw_saved (snd rw1))"
proof (cases "fst rw1")
  case (Inl e)
  then show ?thesis using assms(1,3) by (cases rw1) (auto simp: then_phase_def)
next
  case (Inr s)
  then have "f s (snd rw1) = Some rw2" using assms(1) by (cases rw1) (simp add: then_phase_def)
  from assms(2) [OF this] assms(3) show ?thesis by auto
qed

text \<open>
  C30: a run can be interrupted anywhere and resumed. Starting from a state file whose results fit together, whatever
  fails (the network, the user, a stage, a save cut off half-way), the file afterwards loads as a state whose
  results fit together, no phase that was done is executed again and its result is unchanged, the survivors are
  among the resolved entries and the accepted among the survivors; and a run that ends well leaves all phases done.
\<close>

theorem run_resumes:
  assumes "on_disk st w" "chain st" "stages_sound v" "run v w = Some (res, w')" "list_all wf_state (rw_saved w')"
  shows "\<exists>st'. on_disk st' w' \<and> chain st' \<and> later st st' \<and> runs_only_new st w w'
    \<and> (\<forall>s. res = Inr s \<longrightarrow> s = st' \<and> is_done st' PHASE_RESOLVE \<and> is_done st' PHASE_SURVIVAL \<and> is_done st' PHASE_BUILD)"
proof (cases "rn_read v")
  case (ReadFails e)
  then have "res = Inl e" "w' = w" using assms(4) by (auto simp: run_def load_state_def)
  then show ?thesis using assms(1,2) later_refl by (auto simp: runs_only_new_def)
next
  case ReadOk
  then have "then_phase (then_phase (phase_resolve v st w) (phase_survival v)) (phase_build v) = Some (res, w')"
    using assms(1,4) by (simp add: run_def on_disk_def)
  then obtain rw1 rw2 where p: "phase_resolve v st w = Some rw1" "then_phase (Some rw1) (phase_survival v) = Some rw2"
      "then_phase (Some rw2) (phase_build v) = Some (res, w')"
    by (meson then_phaseD)
  have wf2: "list_all wf_state (rw_saved (snd rw2))"
    using then_saved [OF p(3)] phase_saved(2) assms(5) by fastforce
  have wf1: "list_all wf_state (rw_saved (snd rw1))"
    using then_saved [OF p(2) _ wf2] phase_saved(1) [of v _ _ "fst rw2" "snd rw2"] by simp
  have "run_post st w PHASE_RESOLVE rw1"
    using resolve_post [of v st w "fst rw1" "snd rw1"] p(1) assms(1,2) wf1 by (intro phase_run_post) auto
  then have "run_post st w PHASE_SURVIVAL rw2"
  proof (rule run_post_then [OF _ p(2)])
    fix s w1 assume "on_disk s w1" "chain s" "is_done s PHASE_RESOLVE" "phase_survival v s w1 = Some rw2"
    then show "run_post s w1 PHASE_SURVIVAL rw2"
      using survival_post [of v s w1 "fst rw2" "snd rw2"] wf2 assms(3) by (intro phase_run_post) auto
  qed
  then have "run_post st w PHASE_BUILD (res, w')"
  proof (rule run_post_then [OF _ p(3)])
    fix s w1 assume "on_disk s w1" "chain s" "is_done s PHASE_SURVIVAL" "phase_build v s w1 = Some (res, w')"
    then show "run_post s w1 PHASE_BUILD (res, w')"
      using build_post [of v s w1 res w'] assms(3,5) by (intro phase_run_post) auto
  qed
  then obtain st' where "on_disk st' w'" "chain st'" "later st st'" "\<forall>s. res = Inr s \<longrightarrow> s = st' \<and> is_done st' PHASE_BUILD" "runs_only_new st w w'"
    unfolding run_post_def by auto
  then show ?thesis by (auto simp: chain_def)
qed

text \<open>
  Also: a gate waits no longer than it must: it ends as soon as a check succeeds or the user gives up at a prompt, and
  it lets the run pass only when the last check it made found the network it wants.
\<close>

theorem gate_waits_exactly:
  assumes "\<not> rn_skip_gates v"
  shows "((\<exists>m \<ge> n. is_reachable (rn_check v m) \<or> \<not> rn_enter v m) \<longrightarrow> gate_expect_reachable v n \<noteq> None)
    \<and> (\<forall>k. gate_expect_reachable v n = Some (Inr (), k) \<longrightarrow> k > 0 \<and> is_reachable (rn_check v (k - 1)))
    \<and> (\<forall>k. gate_expect_blocked v n = Some (Inr (), k) \<longrightarrow> k > 0 \<and> \<not> is_reachable (rn_check v (k - 1)))"
proof (intro conjI impI allI)
  assume "\<exists>m \<ge> n. is_reachable (rn_check v m) \<or> \<not> rn_enter v m"
  then show "gate_expect_reachable v n \<noteq> None"
    using gate_loop_ends [of is_reachable v _ n] assms by (fastforce simp: gate_expect_reachable_def)
next
  fix k assume "gate_expect_reachable v n = Some (Inr (), k)"
  then show "k > 0" "is_reachable (rn_check v (k - 1))"
    using gate_loop_good [of is_reachable v _ n "()" k] assms by (auto simp: gate_expect_reachable_def)
next
  fix k assume "gate_expect_blocked v n = Some (Inr (), k)"
  then show "k > 0" "\<not> is_reachable (rn_check v (k - 1))"
    using gate_loop_good [of "\<lambda>c. \<not> is_reachable c" v _ n "()" k] assms by (auto simp: gate_expect_blocked_def)
qed

definition sample_run :: run_env where
  "sample_run = \<lparr>rn_skip_gates = True, rn_check = (\<lambda>n. DnsFailed []), rn_enter = (\<lambda>n. False), rn_input = Inr [], rn_max_lines = 0,
     rn_resolver = Inr (), rn_resolve = (\<lambda>es. Some (Inr [sample_entry])), rn_survive = (\<lambda>es. Some (Inr [])), rn_geo = Inr (),
     rn_build = (\<lambda>es. if es = [] then Some (Inr []) else None), rn_read = ReadOk, rn_save = (\<lambda>n. SaveOk)\<rparr>"

definition sample_world :: run_world where
  "sample_world = \<lparr>rw_disk = \<lparr>sd_file = None, sd_tmp = None\<rparr>, rw_checks = 0, rw_saves = 0, rw_ran = [], rw_saved = []\<rparr>"

lemma sample_stages: "stages_sound sample_run"
proof -
  have "\<exists>probe n k d. probe_survival_entries probe n es ([], k, d)" for es
  proof -
    have s: "survivors (\<lambda>d ip. False) es = []" by (simp add: survivors_def filter_empty_conv split: option.splits)
    obtain g where g: "stage_runs 1 (survival_work (\<lambda>d ip. False)) (stage_start False es ()) g" "stage_done g"
      using sequential_returns [OF stage_no_check(1), of "\<lambda>d ip. False" es 1] s by (auto simp: survivors_produce)
    then have "sg_out g = []" using sequential_outcome(1) [OF g(1) stage_no_check(1) g(2)] s by (simp add: survivors_produce)
    with g have "probe_survival_entries (\<lambda>d ip. False) 1 es ([], sg_kept g, sg_dropped g)"
      unfolding probe_survival_entries_def by metis
    then show ?thesis by blast
  qed
  moreover have "build_pools_entries_with_history sample_build 1 [] sample_shared None (\<lambda>n. None) Map.empty (Inr [], Map.empty)"
    unfolding build_pools_entries_with_history_def stage_runs_def
    by (rule exI [of _ "stage_start True [] sample_shared"]) (simp add: stage_done_def stage_start_def write_dual_pb_def by_country_def)
  then have "\<exists>e n b df fault fs fs'. build_pools_entries_with_history e n [] b df fault fs (Inr [], fs')" by blast
  ultimately show ?thesis unfolding stages_sound_def sample_run_def by (simp split: if_splits)
qed

theorem run_resumes_witness:
  "\<exists>s w'. run sample_run sample_world = Some (Inr s, w') \<and> on_disk s w' \<and> is_done s PHASE_BUILD \<and> st_phase1 s = [sample_entry]"
proof -
  let ?st = "\<lambda>c. \<lparr>st_phase1 = [sample_entry], st_phase2 = [], st_phase3 = [], st_completed = c\<rparr>"
  have r: "run sample_run sample_world = Some (Inr (?st 7), \<lparr>rw_disk = \<lparr>sd_file = Some (encode_state (?st 7)), sd_tmp = None\<rparr>,
      rw_checks = 0, rw_saves = 3, rw_ran = [(1, []), (2, [sample_entry]), (3, [])], rw_saved = [?st 1, ?st 3, ?st 7]\<rparr>)"
    by (simp add: run_def then_phase_def phase_resolve_def phase_survival_def phase_build_def run_phase_def sample_run_def sample_world_def
        load_state_def gate_expect_reachable_def gate_expect_blocked_def empty_state_def is_done_def masks mark_done_def save_run_def save_state_def
        seeds_def str_lines_def map_filter_simps)
  have "wf_state (?st c)" if "c \<in> {1, 3, 7}" for c
    using that by (auto simp: wf_state_def wf_entry_def entry_new_def encode_state_def encode_entry_def put_bytes_field_def as_bytes_def
        v4_str_def nat_str.simps put_varint.simps)
  then have w: "list_all wf_state (rw_saved \<lparr>rw_disk = \<lparr>sd_file = Some (encode_state (?st 7)), sd_tmp = None\<rparr>,
      rw_checks = 0, rw_saves = 3, rw_ran = [(1, []), (2, [sample_entry]), (3, [])], rw_saved = [?st 1, ?st 3, ?st 7]\<rparr>)" by simp
  have "on_disk empty_state sample_world" "chain empty_state"
    by (simp_all add: on_disk_def sample_world_def load_state_def chain_def is_done_def empty_state_def)
  from run_resumes [OF this sample_stages r w] r show ?thesis by auto
qed

theorem gate_waits_exactly_witness:
  "gate_expect_reachable (sample_run\<lparr>rn_skip_gates := False\<rparr>) 0 \<noteq> None"
proof -
  have "\<not> rn_enter (sample_run\<lparr>rn_skip_gates := False\<rparr>) 0" by (simp add: sample_run_def)
  then show ?thesis using gate_waits_exactly [of "sample_run\<lparr>rn_skip_gates := False\<rparr>" 0] by auto
qed

end
