(* ===== verification/ReleaseApi.thy ===== *)
theory ReleaseApi
  imports Prelude "HOL-Library.List_Lexorder" "HOL-Library.Char_ord"
begin

text \<open>
  What the upgrade of a proxy core learns about a release, \<open>core/network/release_api.rs\<close>, and how the
  signature of a release is checked, \<open>core/crypto/minisign.rs\<close>.

  A document of the release service is the value \<open>serde\<close> reads from it. The HTTP client is the
  parameter \<open>get\<close>: one attempt (request, status check, body, decoding) gives the document or an error.
  The regular expression of \<open>extract_sha256_from_body\<close> is written out as a scanner; its two
  character classes have no character in common, so the greedy repetition never gives a character back,
  and under \<open>(?i)\<close> the only character beyond ASCII that equals a letter of the pattern is the long s.
  The crate \<open>minisign_verify\<close> is a record of its four functions.
\<close>

section \<open>Releases and their assets\<close>

record release_asset =
  ra_name :: string
  browser_download_url :: string
  ra_url :: string
  ra_size :: "nat option"
  ra_digest :: "string option"

record release_response =
  rr_tag_name :: string
  rr_body :: "string option"
  rr_assets :: "release_asset list"
  prerelease :: bool

definition download_url :: "release_asset \<Rightarrow> string" where
  "download_url a =
     (if browser_download_url a \<noteq> [] then browser_download_url a
      else if ra_url a \<noteq> [] then ra_url a else [])"

fun fetch_json_from :: "(string \<Rightarrow> string + 'a) \<Rightarrow> string option \<Rightarrow> string list \<Rightarrow> string \<Rightarrow> string + 'a" where
  "fetch_json_from get last_err [] api_path =
     Inl (case last_err of Some e \<Rightarrow> e | None \<Rightarrow> ''all mirrors failed'')"
| "fetch_json_from get last_err (base # bases) api_path =
     (case get (rev (dropWhile (\<lambda>c. c = CHR ''/'') (rev base)) @ ''/'' @ dropWhile (\<lambda>c. c = CHR ''/'') api_path) of
        Inr data \<Rightarrow> Inr data
      | Inl e \<Rightarrow> fetch_json_from get (Some e) bases api_path)"

definition fetch_json_from_mirrors :: "(string \<Rightarrow> string + 'a) \<Rightarrow> string list \<Rightarrow> string \<Rightarrow> string + 'a" where
  "fetch_json_from_mirrors get bases api_path = fetch_json_from get None bases api_path"

definition fetch_prerelease :: "(string \<Rightarrow> string + release_response list) \<Rightarrow> string list \<Rightarrow> string \<Rightarrow> string + release_response" where
  "fetch_prerelease get bases api_path =
     (case fetch_json_from_mirrors get bases api_path of
        Inl e \<Rightarrow> Inl e
      | Inr rs \<Rightarrow> (case find prerelease rs of Some r \<Rightarrow> Inr r | None \<Rightarrow> Inl ''No prerelease found''))"

definition pick_latest_release :: "release_response list \<Rightarrow> string + release_response" where
  "pick_latest_release rs = (case rs of r # _ \<Rightarrow> Inr r | [] \<Rightarrow> Inl ''No release found'')"

section \<open>Where the hash comes from\<close>

definition parse_digest :: "string \<Rightarrow> string option" where
  "parse_digest input =
     (case map_option trim (strip_prefix ''sha256:'' (to_lowercase input)) of
        Some s \<Rightarrow> (if length s = 64 then Some s else None)
      | None \<Rightarrow> None)"

fun manifest_lines :: "string \<Rightarrow> string list \<Rightarrow> string option" where
  "manifest_lines target_asset [] = None"
| "manifest_lines target_asset (l # ls) =
     (let line = trim l in
      if line = [] then manifest_lines target_asset ls
      else case split_whitespace line of
             [] \<Rightarrow> None
           | hash # rest \<Rightarrow>
               let filename = (case rest of f # _ \<Rightarrow> f | [] \<Rightarrow> []) in
               if (suffix target_asset filename \<or> filename = target_asset) \<and> length hash = 64 then Some hash
               else manifest_lines target_asset ls)"

definition parse_sha256_manifest :: "string \<Rightarrow> string \<Rightarrow> string option" where
  "parse_sha256_manifest manifest target_asset = manifest_lines target_asset (str_lines manifest)"

definition strip_sha256 :: "string \<Rightarrow> string option" where
  "strip_sha256 s =
     (if to_ascii_lowercase (take 6 s) = ''sha256'' then Some (drop 6 s)
      else case strip_prefix [CHR 0xC5, CHR 0xBF] s of
             Some r \<Rightarrow> (if to_ascii_lowercase (take 5 r) = ''ha256'' then Some (drop 5 r) else None)
           | None \<Rightarrow> None)"

definition separator_at_front :: "string \<Rightarrow> nat option" where
  "separator_at_front s = (if s \<noteq> [] \<and> hd s = CHR '':'' then Some 1 else ws_at_front s)"

lemma separator_pos: "separator_at_front s = Some n \<Longrightarrow> 0 < n \<and> n \<le> length s"
  by (auto simp: separator_at_front_def Suc_le_eq dest: ws_at_front_pos split: if_splits)

function skip_separators :: "string \<Rightarrow> string" where
  "skip_separators s = (case separator_at_front s of Some n \<Rightarrow> skip_separators (drop n s) | None \<Rightarrow> s)"
  by pat_completeness auto
termination
  by (relation "measure length") (auto dest: separator_pos)

declare skip_separators.simps [simp del]

definition match_sha256 :: "string \<Rightarrow> string option" where
  "match_sha256 s =
     (case strip_sha256 s of
        None \<Rightarrow> None
      | Some r \<Rightarrow>
          (let h = take 64 (skip_separators r) in
           if separator_at_front r \<noteq> None \<and> length h = 64 \<and> list_all is_ascii_hexdigit h then Some h else None))"

fun extract_sha256_from_body :: "string \<Rightarrow> string option" where
  "extract_sha256_from_body [] = None"
| "extract_sha256_from_body (c # s) =
     (case match_sha256 (c # s) of Some h \<Rightarrow> Some h | None \<Rightarrow> extract_sha256_from_body s)"

definition find_minisig_asset :: "release_asset list \<Rightarrow> string \<Rightarrow> release_asset option" where
  "find_minisig_asset assets binary_name = find (\<lambda>a. ra_name a = binary_name @ ''.minisig'') assets"

section \<open>Signatures\<close>

record minisign_key_entry =
  public_key :: string
  expires_at :: string
  retired_at :: string

definition MINISIGN_ACTIVE_KEYS :: "minisign_key_entry list" where
  "MINISIGN_ACTIVE_KEYS =
     [\<lparr>public_key = ''RWTZPf3UsUDo9hPmWcOp+0TcwRLWHmOkNCGPw3kXcM3x5awPEzR3Y3Sf'',
       expires_at = ''2027-07-02'', retired_at = []\<rparr>]"

definition MINISIGN_HISTORICAL_KEYS :: "minisign_key_entry list" where
  "MINISIGN_HISTORICAL_KEYS = []"

record ('k, 's) minisign_crate =
  sig_decode :: "string \<Rightarrow> string + 's"
  key_from_base64 :: "string \<Rightarrow> 'k option"
  key_verify :: "'k \<Rightarrow> string \<Rightarrow> 's \<Rightarrow> bool"
  sig_trusted_comment :: "'s \<Rightarrow> string"

text \<open>\<open>today\<close> is the current date as \<open>YYYY-MM-DD\<close>.\<close>

definition key_expired :: "string \<Rightarrow> string \<Rightarrow> bool" where
  "key_expired today expires \<longleftrightarrow> expires = [] \<or> expires < today"

definition key_is_active :: "minisign_key_entry \<Rightarrow> bool" where
  "key_is_active entry \<longleftrightarrow> retired_at entry = []"

definition try_verify :: "('k, 's) minisign_crate \<Rightarrow> string \<Rightarrow> 's \<Rightarrow> minisign_key_entry \<Rightarrow> string option" where
  "try_verify cr data sig entry =
     (case key_from_base64 cr (public_key entry) of
        None \<Rightarrow> None
      | Some k \<Rightarrow> (if key_verify cr k data sig then Some (sig_trusted_comment cr sig) else None))"

fun first_verified :: "('k, 's) minisign_crate \<Rightarrow> string \<Rightarrow> 's \<Rightarrow> minisign_key_entry list \<Rightarrow> string option" where
  "first_verified cr data sig [] = None"
| "first_verified cr data sig (entry # es) =
     (case try_verify cr data sig entry of Some info \<Rightarrow> Some info | None \<Rightarrow> first_verified cr data sig es)"

fun verify_active :: "('k, 's) minisign_crate \<Rightarrow> string \<Rightarrow> string \<Rightarrow> 's \<Rightarrow> minisign_key_entry list \<Rightarrow> string option" where
  "verify_active cr today data sig [] = None"
| "verify_active cr today data sig (entry # es) =
     (if \<not> key_is_active entry \<or> key_expired today (expires_at entry) then verify_active cr today data sig es
      else case try_verify cr data sig entry of Some info \<Rightarrow> Some info | None \<Rightarrow> verify_active cr today data sig es)"

definition verify_minisign ::
  "('k, 's) minisign_crate \<Rightarrow> string \<Rightarrow> string \<Rightarrow> string \<Rightarrow> minisign_key_entry list \<Rightarrow> minisign_key_entry list \<Rightarrow> string + string" where
  "verify_minisign cr today data sig_str active_keys historical_keys =
     (case sig_decode cr sig_str of
        Inl e \<Rightarrow> Inl e
      | Inr sig \<Rightarrow>
          (case verify_active cr today data sig active_keys of
             Some info \<Rightarrow> Inr info
           | None \<Rightarrow>
               (case first_verified cr data sig historical_keys of
                  Some info \<Rightarrow> Inr info
                | None \<Rightarrow> Inl ''no matching public key'')))"

definition parse_trusted_comment :: "string \<Rightarrow> string + (string \<times> string)" where
  "parse_trusted_comment comment =
     (case split_once (CHR '':'') comment of Some p \<Rightarrow> Inr p | None \<Rightarrow> Inl ''malformed trusted comment'')"

section \<open>What is accepted\<close>

text \<open>A usable key: not retired and not past its date if it is an active one, any historical one.\<close>

definition usable_keys :: "string \<Rightarrow> minisign_key_entry list \<Rightarrow> minisign_key_entry list \<Rightarrow> minisign_key_entry set" where
  "usable_keys today active_keys historical_keys =
     {k \<in> set active_keys. retired_at k = [] \<and> expires_at k \<noteq> [] \<and> today \<le> expires_at k} \<union> set historical_keys"

definition verifies :: "('k, 's) minisign_crate \<Rightarrow> string \<Rightarrow> 's \<Rightarrow> minisign_key_entry \<Rightarrow> bool" where
  "verifies cr data sig entry \<longleftrightarrow> (\<exists>k. key_from_base64 cr (public_key entry) = Some k \<and> key_verify cr k data sig)"

lemma try_verify_iff: "try_verify cr data sig e = Some i \<longleftrightarrow> verifies cr data sig e \<and> i = sig_trusted_comment cr sig"
  by (auto simp: try_verify_def verifies_def split: option.splits)

lemma first_verified_iff:
  "first_verified cr data sig es = Some i \<longleftrightarrow> (\<exists>e \<in> set es. verifies cr data sig e) \<and> i = sig_trusted_comment cr sig"
  by (induction es) (auto simp: try_verify_iff try_verify_def verifies_def split: option.splits)

lemma verify_active_filter:
  "verify_active cr today data sig es =
     first_verified cr data sig (filter (\<lambda>e. key_is_active e \<and> \<not> key_expired today (expires_at e)) es)"
  by (induction es) (auto split: option.splits)

lemma verify_minisign_iff:
  "verify_minisign cr today data s act hist = Inr c \<longleftrightarrow>
     (\<exists>sig. sig_decode cr s = Inr sig \<and> c = sig_trusted_comment cr sig
       \<and> (\<exists>k \<in> usable_keys today act hist. verifies cr data sig k))"
proof (cases "sig_decode cr s")
  case (Inr sig)
  have usable: "{k \<in> set act. key_is_active k \<and> \<not> key_expired today (expires_at k)} \<union> set hist = usable_keys today act hist"
    by (auto simp: usable_keys_def key_is_active_def key_expired_def)
  have "verify_active cr today data sig act = Some i \<longleftrightarrow>
      (\<exists>k \<in> {k \<in> set act. key_is_active k \<and> \<not> key_expired today (expires_at k)}. verifies cr data sig k)
      \<and> i = sig_trusted_comment cr sig" for i
    by (auto simp: verify_active_filter first_verified_iff)
  then have active: "verify_active cr today data sig act =
      (if \<exists>k \<in> {k \<in> set act. key_is_active k \<and> \<not> key_expired today (expires_at k)}. verifies cr data sig k
       then Some (sig_trusted_comment cr sig) else None)"
    by (cases "verify_active cr today data sig act") auto
  have hist: "first_verified cr data sig hist =
      (if \<exists>k \<in> set hist. verifies cr data sig k then Some (sig_trusted_comment cr sig) else None)"
    using first_verified_iff [of cr data sig hist] by (cases "first_verified cr data sig hist") auto
  show ?thesis
    unfolding verify_minisign_def Inr sum.case active hist usable [symmetric] by auto
qed (simp add: verify_minisign_def)

lemma parse_trusted_comment_iff:
  "parse_trusted_comment c = Inr (v, a) \<longleftrightarrow> c = v @ '':'' @ a \<and> CHR '':'' \<notin> set v"
  unfolding parse_trusted_comment_def using split_once_Some_iff [of "CHR '':''" c v a]
  by (auto split: option.splits)

lemma pick_latest_head: "pick_latest_release (r # rs) = Inr r"
  by (simp add: pick_latest_release_def)

end
