(* ===== verification/CoreHealth.thy ===== *)
theory CoreHealth
  imports Prelude "HOL-Library.List_Lexorder" "HOL-Library.Char_ord"
begin

text \<open>
  The two checks around the replacement of a proxy core and the pruning of its backups,
  \<open>core/system/core_health.rs\<close>: the configuration check before the replacement, the sampling of the
  service after it, and the choice of the backups to delete.

  \<open>core_cmd\<close> gives whether the exit status is success, the standard output and the standard error
  (both made valid UTF-8), or an error when the command cannot be run or does not end in time.
\<close>

type_synonym cmd_answer = "string + (bool \<times> string \<times> string)"

section \<open>The configuration check\<close>

datatype preflight_outcome = Passed | Unsupported | Invalid string

definition preflight_markers :: "string list" where
  "preflight_markers = [''flag provided but not defined'', ''unknown flag'', ''unknown shorthand flag'',
     ''unknown command'', ''no such flag'', ''usage:'', ''invalid syntax'']"

definition is_preflight_unsupported :: "string \<Rightarrow> bool" where
  "is_preflight_unsupported stderr =
     (let lower = to_ascii_lowercase stderr in list_ex (\<lambda>m. contains_str m lower) preflight_markers)"

definition truncate_text :: "string \<Rightarrow> nat \<Rightarrow> string" where
  "truncate_text s max_chars =
     (if chars_count s \<le> max_chars then s else take_chars max_chars s @ [CHR 0xE2, CHR 0x80, CHR 0xA6])"

text \<open>\<open>rsplit_once(": ")\<close>: the parts around the last occurrence.\<close>

fun rsplit_colon :: "string \<Rightarrow> (string \<times> string) option" where
  "rsplit_colon [] = None"
| "rsplit_colon (c # s) =
     (case rsplit_colon s of
        Some (a, b) \<Rightarrow> Some (c # a, b)
      | None \<Rightarrow> (if prefix '': '' (c # s) then Some ([], drop 2 (c # s)) else None))"

definition preflight_noise :: "string list" where
  "preflight_noise = [''failed to start'', ''error'', ''failed to load config files'']"

definition summarize_line :: "string \<Rightarrow> string" where
  "summarize_line line =
     (case rsplit_colon line of
        Some (_, d) \<Rightarrow> (let detail = trim d in if detail \<noteq> [] then truncate_text detail 300 else truncate_text line 300)
      | None \<Rightarrow> truncate_text line 300)"

fun summarize_lines :: "string list \<Rightarrow> string option" where
  "summarize_lines [] = None"
| "summarize_lines (l # ls) =
     (let line = trim l in
      if line = [] then summarize_lines ls
      else if list_ex (\<lambda>n. contains_str n (to_ascii_lowercase line)) preflight_noise then Some (summarize_line line)
      else summarize_lines ls)"

definition unknown_reason :: string where
  "unknown_reason = [CHR 0xE6, CHR 0x9C, CHR 0xAA, CHR 0xE7, CHR 0x9F, CHR 0xA5, CHR 0xE5, CHR 0x8E, CHR 0x9F,
     CHR 0xE5, CHR 0x9B, CHR 0xA0]"

definition summarize_preflight_failure :: "string \<Rightarrow> string \<Rightarrow> string" where
  "summarize_preflight_failure stdout stderr =
     (let combined = stderr @ [CHR 0x0A] @ stdout in
      case summarize_lines (str_lines combined) of
        Some r \<Rightarrow> r
      | None \<Rightarrow>
          (case find (\<lambda>l. l \<noteq> []) (map trim (str_lines combined)) of
             Some f \<Rightarrow> truncate_text f 300
           | None \<Rightarrow> truncate_text unknown_reason 300))"

definition run_config_preflight :: "cmd_answer \<Rightarrow> string + preflight_outcome" where
  "run_config_preflight out =
     (case out of
        Inl e \<Rightarrow> Inl e
      | Inr (success, stdout, stderr) \<Rightarrow>
          if success then Inr Passed
          else if is_preflight_unsupported stderr then Inr Unsupported
          else Inr (Invalid (summarize_preflight_failure stdout stderr)))"

section \<open>The health of the service\<close>

datatype health_verdict = Healthy | Inactive | CrashLooping | Unknown

definition should_rollback :: "health_verdict \<Rightarrow> bool" where
  "should_rollback v \<longleftrightarrow> v = Inactive \<or> v = CrashLooping"

record health_sample =
  hs_active :: bool
  hs_restarts :: "nat option"

definition HEALTH_SAMPLE_COUNT :: nat where
  "HEALTH_SAMPLE_COUNT = 5"

definition HEALTH_SAMPLE_INTERVAL :: duration where
  "HEALTH_SAMPLE_INTERVAL = from_secs 3"

definition classify_samples :: "health_sample list \<Rightarrow> health_verdict" where
  "classify_samples samples =
     (if samples = [] then Unknown
      else if list_all (\<lambda>s. \<not> hs_active s) samples then Inactive
      else if list_ex (\<lambda>s. \<not> hs_active s) samples then Inactive
      else let restarts = List.map_filter hs_restarts samples in
           if length restarts \<ge> 2 \<and> last restarts > hd restarts then CrashLooping else Healthy)"

definition parse_nrestarts :: "string \<Rightarrow> nat option" where
  "parse_nrestarts stdout = parse_u64 (trim stdout)"

text \<open>The two commands of one probe; the answer to the second is only asked for when the first was run.\<close>

definition probe_unit :: "cmd_answer \<Rightarrow> cmd_answer \<Rightarrow> string + health_sample" where
  "probe_unit is_active show_restarts =
     (case is_active of
        Inl e \<Rightarrow> Inl e
      | Inr (success, _, _) \<Rightarrow>
          Inr \<lparr>hs_active = success,
               hs_restarts = (case show_restarts of Inl _ \<Rightarrow> None | Inr (_, stdout, _) \<Rightarrow> parse_nrestarts stdout)\<rparr>)"

section \<open>Pruning\<close>

definition is_backup_name :: "string \<Rightarrow> string \<Rightarrow> bool" where
  "is_backup_name pre name =
     (case strip_prefix pre name of
        None \<Rightarrow> False
      | Some rest \<Rightarrow>
          let stamp = (case strip_prefix ''-'' rest of Some r \<Rightarrow> r | None \<Rightarrow> rest)
          in stamp \<noteq> [] \<and> list_all is_ascii_digit stamp)"

definition select_backups_to_delete :: "string list \<Rightarrow> string \<Rightarrow> nat \<Rightarrow> string list" where
  "select_backups_to_delete names pre keep =
     (let candidates = rev (sort (filter (is_backup_name pre) names)) in rev (drop keep candidates))"

section \<open>What the checks decide\<close>

lemma map_filter_all: "list_all (\<lambda>x. f x \<noteq> None) xs \<Longrightarrow> List.map_filter f xs = map (the \<circ> f) xs"
  by (induction xs) (auto simp: List.map_filter_simps)

lemma preflight_passes: "run_config_preflight out = Inr Passed \<longleftrightarrow> (\<exists>so se. out = Inr (True, so, se))"
  by (auto simp: run_config_preflight_def split: sum.splits prod.splits if_splits)

lemma select_take:
  "select_backups_to_delete names pre keep =
     take (length (filter (is_backup_name pre) names) - keep) (sort (filter (is_backup_name pre) names))"
  by (simp add: select_backups_to_delete_def Let_def drop_rev)

lemma sorted_split:
  assumes "sorted xs" "i \<in> set (take n xs)" "j \<in> set (drop n xs)"
  shows "i \<le> j"
  using assms sorted_append [of "take n xs" "drop n xs"] by (metis append_take_drop_id)

lemma select_names: "set (select_backups_to_delete names pre keep) \<subseteq> {x \<in> set names. is_backup_name pre x}"
  unfolding select_take by (auto dest: in_set_takeD)

lemma select_count:
  "distinct names \<Longrightarrow> length (filter (\<lambda>x. is_backup_name pre x \<and> x \<notin> set (select_backups_to_delete names pre keep)) names)
     = min keep (length (filter (is_backup_name pre) names))"
proof -
  assume d: "distinct names"
  let ?c = "sort (filter (is_backup_name pre) names)" and ?k = "length (filter (is_backup_name pre) names) - keep"
  have dc: "distinct ?c" using d by simp
  have parts: "set (take ?k ?c) \<inter> set (drop ?k ?c) = {}" "set (take ?k ?c) \<union> set (drop ?k ?c) = set ?c"
    using dc by (metis append_take_drop_id distinct_append, metis append_take_drop_id set_append)
  have "set (filter (\<lambda>x. is_backup_name pre x \<and> x \<notin> set (take ?k ?c)) names) = set (drop ?k ?c)"
    using parts by auto
  moreover have "distinct (filter (\<lambda>x. is_backup_name pre x \<and> x \<notin> set (take ?k ?c)) names)" using d by simp
  ultimately show ?thesis
    unfolding select_take using dc distinct_card [of "drop ?k ?c"] distinct_card
    by (metis (no_types, lifting) diff_diff_cancel distinct_drop length_drop length_sort linorder_le_cases min.absorb1 min.absorb2 diff_is_0_eq' drop0)
qed

lemma select_oldest:
  assumes "x \<in> set (select_backups_to_delete names pre keep)"
    and "y \<in> set names" "is_backup_name pre y" "y \<notin> set (select_backups_to_delete names pre keep)"
  shows "x \<le> y"
proof -
  let ?c = "sort (filter (is_backup_name pre) names)" and ?k = "length (filter (is_backup_name pre) names) - keep"
  have "y \<in> set ?c" "y \<notin> set (take ?k ?c)" using assms(2-4) by (simp_all add: select_take)
  then have "y \<in> set (drop ?k ?c)" by (metis UnE append_take_drop_id set_append)
  with assms(1) show ?thesis unfolding select_take by (rule sorted_split [OF sorted_sort])
qed

end
