(* ===== verification/Triples.thy ===== *)
theory Triples
  imports Prelude
begin

text \<open>
  Triples for the error-and-state computations of the prelude: from a state with \<open>P\<close> the computation
  ends with a value and a state related by \<open>Q\<close>, or with an error in a state with \<open>E\<close>. The rules follow the
  combinators, so the proof of a long handler is one rule per statement.
\<close>

definition io_triple :: "('w \<Rightarrow> bool) \<Rightarrow> ('w, 'e, 'a) eio \<Rightarrow> ('a \<Rightarrow> 'w \<Rightarrow> bool) \<Rightarrow> ('w \<Rightarrow> bool) \<Rightarrow> bool" where
  "io_triple P m Q E \<longleftrightarrow> (\<forall>w. P w \<longrightarrow> (case m w of (Inr a, w') \<Rightarrow> Q a w' | (Inl _, w') \<Rightarrow> E w'))"

lemma io_tripleI:
  assumes "\<And>w a w'. P w \<Longrightarrow> m w = (Inr a, w') \<Longrightarrow> Q a w'" "\<And>w e w'. P w \<Longrightarrow> m w = (Inl e, w') \<Longrightarrow> E w'"
  shows "io_triple P m Q E"
  unfolding io_triple_def
proof (intro allI impI)
  fix w assume "P w"
  then show "case m w of (Inr a, w') \<Rightarrow> Q a w' | (Inl _, w') \<Rightarrow> E w'"
    using assms by (auto split: prod.split sum.split)
qed

lemma io_tripleD: "io_triple P m Q E \<Longrightarrow> P w \<Longrightarrow> m w = (Inr a, w') \<Longrightarrow> Q a w'"
  by (fastforce simp: io_triple_def)

lemma io_tripleE: "io_triple P m Q E \<Longrightarrow> P w \<Longrightarrow> m w = (Inl e, w') \<Longrightarrow> E w'"
  by (fastforce simp: io_triple_def)

lemma io_triple_end: "io_triple P m (\<lambda>_. Q) Q \<Longrightarrow> P w \<Longrightarrow> Q (snd (m w))"
  by (cases "m w"; cases "fst (m w)") (auto dest: io_tripleD io_tripleE)

lemma io_triple_weaken:
  "io_triple P m Q E \<Longrightarrow> (\<And>w. P' w \<Longrightarrow> P w) \<Longrightarrow> (\<And>a w. Q a w \<Longrightarrow> Q' a w) \<Longrightarrow> (\<And>w. E w \<Longrightarrow> E' w) \<Longrightarrow> io_triple P' m Q' E'"
  by (fastforce simp: io_triple_def split: prod.splits sum.splits)

lemma io_triple_pre: "io_triple P m Q E \<Longrightarrow> (\<And>w. P' w \<Longrightarrow> P w) \<Longrightarrow> io_triple P' m Q E"
  by (erule io_triple_weaken) auto

lemma io_triple_ret: "(\<And>w. P w \<Longrightarrow> Q a w) \<Longrightarrow> io_triple P (retE a) Q E"
  by (simp add: io_triple_def)

lemma io_triple_fail: "(\<And>w. P w \<Longrightarrow> E w) \<Longrightarrow> io_triple P (failE e) Q E"
  by (simp add: io_triple_def)

lemma io_triple_bind:
  assumes m: "io_triple P m Q E" and k: "\<And>a. io_triple (Q a) (k a) R E"
  shows "io_triple P (bindE m k) R E"
  unfolding io_triple_def
proof (intro allI impI)
  fix w assume p: "P w"
  obtain r w1 where r: "m w = (r, w1)" by fastforce
  show "case bindE m k w of (Inr a, w') \<Rightarrow> R a w' | (Inl _, w') \<Rightarrow> E w'"
  proof (cases r)
    case (Inl e)
    then show ?thesis using io_tripleE [OF m p] r by (simp add: bindE_def)
  next
    case (Inr a)
    then have "Q a w1" using io_tripleD [OF m p] r by simp
    with k [of a] Inr r show ?thesis unfolding io_triple_def by (simp add: bindE_def)
  qed
qed

lemma io_triple_then: "io_triple P m (\<lambda>_. Q) E \<Longrightarrow> io_triple Q k R E \<Longrightarrow> io_triple P (thenE m k) R E"
  unfolding thenE_def by (rule io_triple_bind)

lemma io_triple_catch:
  assumes m: "io_triple P m Q F" and k: "\<And>a. io_triple (Q a) (k (Inr a)) R E" "\<And>e. io_triple F (k (Inl e)) R E"
  shows "io_triple P (catchE m k) R E"
  unfolding io_triple_def
proof (intro allI impI)
  fix w assume p: "P w"
  obtain r w1 where r: "m w = (r, w1)" by fastforce
  show "case catchE m k w of (Inr a, w') \<Rightarrow> R a w' | (Inl _, w') \<Rightarrow> E w'"
  proof (cases r)
    case (Inl e)
    then have "F w1" using io_tripleE [OF m p] r by simp
    with k(2) [of e] Inl r show ?thesis unfolding io_triple_def by (simp add: catchE_def)
  next
    case (Inr a)
    then have "Q a w1" using io_tripleD [OF m p] r by simp
    with k(1) [of a] Inr r show ?thesis unfolding io_triple_def by (simp add: catchE_def)
  qed
qed

lemma io_triple_if: "(c \<Longrightarrow> io_triple P m Q E) \<Longrightarrow> (\<not> c \<Longrightarrow> io_triple P n Q E) \<Longrightarrow> io_triple P (if c then m else n) Q E"
  by simp

text \<open>A computation that keeps a property whatever happens.\<close>

abbreviation invar :: "('w \<Rightarrow> bool) \<Rightarrow> ('w, 'e, 'a) eio \<Rightarrow> bool" where
  "invar P m \<equiv> io_triple P m (\<lambda>_. P) P"

text \<open>A fact about the result that holds in every run can be added to a triple.\<close>

lemma io_triple_value:
  "io_triple P m Q E \<Longrightarrow> (\<And>w a w'. m w = (Inr a, w') \<Longrightarrow> V a) \<Longrightarrow> io_triple P m (\<lambda>a w. V a \<and> Q a w) E"
  by (fastforce simp: io_triple_def split: prod.splits sum.splits)

definition ignoreE :: "('w, 'e, 'a) eio \<Rightarrow> ('w, 'f, unit) eio" where
  "ignoreE m = catchE m (\<lambda>_. retE ())"

lemma io_triple_ignore: "io_triple P m (\<lambda>_. Q) Q \<Longrightarrow> io_triple P (ignoreE m) (\<lambda>_. Q) E"
  unfolding ignoreE_def by (erule io_triple_catch) (auto intro: io_triple_ret)

lemma invar_snd: "(\<And>w. P w \<Longrightarrow> P (snd (m w))) \<Longrightarrow> invar P m"
  by (rule io_tripleI) (metis snd_conv)+

lemma bindE_success:
  assumes "bindE m k w = (Inr b, w')"
  obtains a w1 where "m w = (Inr a, w1)" "k a w1 = (Inr b, w')"
proof -
  obtain r w1 where r: "m w = (r, w1)" by fastforce
  then show ?thesis using assms that by (cases r) (simp_all add: bindE_apply)
qed

lemma io_triple_frame: "io_triple P m Q E \<Longrightarrow> io_triple (\<lambda>w. P w \<and> X) m (\<lambda>a w. Q a w \<and> X) E"
  by (cases X) (simp_all add: io_triple_def)

lemma io_triple_any: "io_triple (\<lambda>_. True) m (\<lambda>_ _. True) (\<lambda>_. True)"
  by (rule io_tripleI) simp_all

end
