(* ===== verification/CoreUpgrade.thy ===== *)
theory CoreUpgrade
  imports ReleaseApi CoreHealth Triples CoreTypes SniWire "HOL-Library.AList"
begin

text \<open>
  The upgrade of the proxy core, \<open>core/system/core_upgrade.rs\<close>: fetch the release, download and check the
  package, unpack it, check the configuration with the new core, back the old core up, replace it,
  restart the service, watch it, and roll back when it is not healthy.

  The state holds what the upgrade touches: the install directory, the backup directory and the files
  of the temporary directory (the three directories do not overlap), and the trace of everything asked of the
  outside. \<open>cw_fault n\<close> tells how the \<open>n\<close>-th effect of the trace went, \<open>cw_left n\<close> what a copy that
  failed there left of its destination, \<open>cw_kept n\<close> which files a failed removal of a directory left;
  all three are arbitrary. The answers of the network, of the commands that are run and of the clock are
  functions of the position in the trace, so two readings of the clock may differ in any way. The
  incremental hash of the chunks is the hash \<open>ue_sha256\<close> of their concatenation; buffering of the writes is
  not modelled, so what a download that failed leaves of its file may be longer here than on disk.
\<close>

section \<open>Architectures, configuration, releases\<close>

datatype cpu_arch = Amd64 | Arm64

definition from_arch_str :: "string \<Rightarrow> string + cpu_arch" where
  "from_arch_str value =
     (if value = ''x86_64'' \<or> value = ''amd64'' then Inr Amd64
      else if value = ''aarch64'' \<or> value = ''arm64'' then Inr Arm64
      else Inl (''unsupported CPU architecture: '' @ value))"

fun asset_basename :: "cpu_arch \<Rightarrow> string" where
  "asset_basename Amd64 = ''Xray-linux-64''"
| "asset_basename Arm64 = ''Xray-linux-arm64-v8a''"

record upgrade_config =
  uc_owner :: string
  uc_repo :: string
  uc_service_name :: string
  uc_install_dir :: string
  uc_backup_dir :: string
  uc_temp_dir :: string
  uc_arch :: cpu_arch

record core_release_info =
  ri_tag_name :: string
  ri_download_url :: string
  ri_sha256 :: string
  ri_size :: "nat option"
  ri_minisig_url :: "string option"

definition WWPS_CORE_RELEASE_API_BASE :: string where
  "WWPS_CORE_RELEASE_API_BASE = ''https://api.github.com/repos''"

definition WWPS_CORE_DEFAULT_BACKUP_PREFIX :: string where
  "WWPS_CORE_DEFAULT_BACKUP_PREFIX = ''wwps-core-backup''"

definition BACKUP_KEEP :: nat where
  "BACKUP_KEEP = 3"

fun first_version :: "string list \<Rightarrow> string option" where
  "first_version [] = None"
| "first_version (l # ls) =
     (case strip_prefix ''Xray '' (trim l) of
        None \<Rightarrow> first_version ls
      | Some rest \<Rightarrow> (case split_whitespace rest of v # _ \<Rightarrow> if v \<noteq> [] then Some v else first_version ls | [] \<Rightarrow> first_version ls))"

definition parse_xray_version_from_output :: "string \<Rightarrow> string option" where
  "parse_xray_version_from_output output = first_version (str_lines output)"

section \<open>The world of an upgrade\<close>

record core_file =
  cf_data :: string
  cf_mode :: nat

datatype core_effect =
    SendMsg string
  | EditMsg string
  | BuildClient
  | HttpGet string
  | RunCmd string "string list"
  | CreateDir string
  | WriteTest string
  | CreateFile string
  | WriteChunk string
  | FlushFile string
  | SyncFile string
  | ReadFile string
  | Unzip string
  | CopyFile string string
  | ReadMeta string
  | SetMode string nat
  | RenameFile string string
  | ReadDir string
  | RemovePath string
  | NormaliseRules
  | Sleep duration

record core_world =
  cw_install :: "string \<Rightarrow> core_file option"
  cw_backups :: "(string \<times> (string \<Rightarrow> core_file option) option) list" \<comment> \<open>\<open>None\<close>: not a directory\<close>
  cw_archives :: "string \<Rightarrow> string option"
  cw_unpacked :: "string \<Rightarrow> (string \<Rightarrow> core_file option) option"
  cw_has_dir :: "string \<Rightarrow> bool"
  cw_trace :: "core_effect list"
  cw_fault :: "nat \<Rightarrow> string option"
  cw_left :: "nat \<Rightarrow> core_file option"
  cw_kept :: "nat \<Rightarrow> string \<Rightarrow> bool"

record ('k, 's) core_env =
  ue_var :: "string \<Rightarrow> string option"
  ue_arch :: string
  ue_tr :: "string \<Rightarrow> string list \<Rightarrow> string"
  ue_msg_id :: string
  ue_release :: "nat \<Rightarrow> string \<Rightarrow> string + release_response"
  ue_releases :: "nat \<Rightarrow> string \<Rightarrow> string + release_response list"
  ue_text :: "nat \<Rightarrow> string \<Rightarrow> string + string"
  ue_chunks :: "nat \<Rightarrow> string \<Rightarrow> string + (string + string) list"
  ue_sig :: "nat \<Rightarrow> string \<Rightarrow> string + string"
  ue_sha256 :: "string \<Rightarrow> string"
  ue_minisign :: "('k, 's) minisign_crate"
  ue_unzip :: "string \<Rightarrow> string + (string \<Rightarrow> core_file option)"
  ue_cmd :: "nat \<Rightarrow> string \<Rightarrow> string list \<Rightarrow> cmd_answer"
  ue_unix :: "nat \<Rightarrow> int"
  ue_stamp :: "nat \<Rightarrow> string"
  ue_today :: "nat \<Rightarrow> string"
  ue_report :: "nat \<Rightarrow> bool"
  ue_progress :: "nat \<Rightarrow> string"
  ue_size_text :: "nat \<Rightarrow> string"

definition log_effect :: "core_effect \<Rightarrow> core_world \<Rightarrow> core_world" where
  "log_effect ef w = w\<lparr>cw_trace := cw_trace w @ [ef]\<rparr>"

definition try_effect :: "core_effect \<Rightarrow> (core_world, unit) io" where
  "try_effect ef w =
     (case cw_fault w (length (cw_trace w)) of None \<Rightarrow> Inr () | Some e \<Rightarrow> Inl e, log_effect ef w)"

definition answered :: "core_effect \<Rightarrow> (nat \<Rightarrow> string + 'a) \<Rightarrow> (core_world, 'a) io" where
  "answered ef ans w = (ans (length (cw_trace w)), log_effect ef w)"

definition reading :: "(nat \<Rightarrow> 'a) \<Rightarrow> (core_world, 'a) io" where
  "reading f w = (Inr (f (length (cw_trace w))), w)"

definition looking :: "(core_world \<Rightarrow> 'a) \<Rightarrow> (core_world, 'a) io" where
  "looking f w = (Inr (f w), w)"

definition updating :: "(core_world \<Rightarrow> core_world) \<Rightarrow> (core_world, unit) io" where
  "updating f w = (Inr (), f w)"

text \<open>A copy writes its destination with the data and the mode of the source; one that fails leaves it as it
  was or with anything in it.\<close>

definition copy_to ::
  "string \<Rightarrow> string \<Rightarrow> core_file option \<Rightarrow> (core_file \<Rightarrow> core_world \<Rightarrow> core_world) \<Rightarrow> (core_world, unit) io" where
  "copy_to src dst source put w =
     (let n = length (cw_trace w); w1 = log_effect (CopyFile src dst) w in
      case source of
        None \<Rightarrow> (Inl ''not found'', w1)
      | Some f \<Rightarrow>
          (case cw_fault w n of
             None \<Rightarrow> (Inr (), put f w1)
           | Some e \<Rightarrow> (Inl e, case cw_left w n of None \<Rightarrow> w1 | Some g \<Rightarrow> put g w1)))"

definition put_install :: "string \<Rightarrow> core_file \<Rightarrow> core_world \<Rightarrow> core_world" where
  "put_install name f w = w\<lparr>cw_install := (cw_install w)(name \<mapsto> f)\<rparr>"

definition backup_files :: "string \<Rightarrow> core_world \<Rightarrow> (string \<Rightarrow> core_file option)" where
  "backup_files b w = (case map_of (cw_backups w) b of Some (Some fs) \<Rightarrow> fs | _ \<Rightarrow> (\<lambda>_. None))"

definition put_backup :: "string \<Rightarrow> string \<Rightarrow> core_file \<Rightarrow> core_world \<Rightarrow> core_world" where
  "put_backup b name f w =
     w\<lparr>cw_backups := AList.update b (Some ((backup_files b w)(name \<mapsto> f))) (cw_backups w)\<rparr>"

definition csend :: "('k, 's) core_env \<Rightarrow> string \<Rightarrow> (core_world, string) io" where
  "csend env t = thenE (try_effect (SendMsg t)) (retE (ue_msg_id env))"

definition cedit :: "string \<Rightarrow> (core_world, unit) io" where
  "cedit t = try_effect (EditMsg t)"

definition core_cmd :: "('k, 's) core_env \<Rightarrow> string \<Rightarrow> string list \<Rightarrow> (core_world, bool \<times> string \<times> string) io" where
  "core_cmd env program args = answered (RunCmd program args) (\<lambda>n. ue_cmd env n program args)"

definition path_join :: "string \<Rightarrow> string \<Rightarrow> string" where
  "path_join d f = (if d = [] then f else if last d = CHR ''/'' then d @ f else d @ ''/'' @ f)"

section \<open>Configuration\<close>

definition var_or :: "('k, 's) core_env \<Rightarrow> string \<Rightarrow> string \<Rightarrow> string" where
  "var_or env name d = (case ue_var env name of Some v \<Rightarrow> v | None \<Rightarrow> d)"

definition from_env :: "('k, 's) core_env \<Rightarrow> string + upgrade_config" where
  "from_env env =
     (let install = var_or env ''WWPS_CORE_INSTALL_DIR'' ''/etc/wwps/wwps-core'' in
      case from_arch_str (ue_arch env) of
        Inl e \<Rightarrow> Inl e
      | Inr arch \<Rightarrow>
          Inr \<lparr>uc_owner = var_or env ''WWPS_CORE_RELEASE_OWNER'' ''XTLS'',
               uc_repo = var_or env ''WWPS_CORE_RELEASE_REPO'' ''Xray-core'',
               uc_service_name = var_or env ''WWPS_CORE_SERVICE_NAME'' ''wwps-core'',
               uc_install_dir = install,
               uc_backup_dir = var_or env ''WWPS_CORE_BACKUP_DIR'' (path_join install ''backup''),
               uc_temp_dir = var_or env ''WWPS_CORE_TEMP_DIR'' ''/tmp/wwps-core-upgrade'',
               uc_arch = arch\<rparr>)"

definition create_dir :: "string \<Rightarrow> (core_world, unit) io" where
  "create_dir p = thenE (try_effect (CreateDir p)) (updating (\<lambda>w. w\<lparr>cw_has_dir := (cw_has_dir w)(p := True)\<rparr>))"

definition ensure_dir_writable :: "string \<Rightarrow> (core_world, unit) io" where
  "ensure_dir_writable p =
     bindE (looking (\<lambda>w. cw_has_dir w p)) (\<lambda>there.
     thenE (if there then retE () else create_dir p)
     (thenE (try_effect (WriteTest p))
       (ignoreE (try_effect (RemovePath (path_join p ''.write-test''))))))"

definition validate_host :: "upgrade_config \<Rightarrow> (core_world, unit) io" where
  "validate_host cfg =
     bindE (looking (\<lambda>w. cw_has_dir w (uc_install_dir cfg))) (\<lambda>there.
     if \<not> there then failE ''install directory missing''
     else bindE (looking (\<lambda>w. cw_install w ''wwps-core'')) (\<lambda>core.
     if core = None then failE ''core binary missing''
     else thenE (ensure_dir_writable (uc_install_dir cfg))
         (thenE (ensure_dir_writable (uc_backup_dir cfg))
           (ensure_dir_writable (uc_temp_dir cfg)))))"

section \<open>Learning about the release\<close>

text \<open>\<open>None\<close> when the command cannot be run, does not end in time, or its output has no version.\<close>

definition current_version :: "('k, 's) core_env \<Rightarrow> upgrade_config \<Rightarrow> (core_world, string option) io" where
  "current_version env cfg =
     catchE (core_cmd env (path_join (uc_install_dir cfg) ''wwps-core'') [''version''])
       (\<lambda>r. retE (case r of Inl _ \<Rightarrow> None | Inr (_, stdout, _) \<Rightarrow> parse_xray_version_from_output stdout))"

definition releases_path :: "upgrade_config \<Rightarrow> string" where
  "releases_path cfg = uc_owner cfg @ ''/'' @ uc_repo cfg @ ''/releases''"

definition fetch_recent_tags :: "('k, 's) core_env \<Rightarrow> upgrade_config \<Rightarrow> nat \<Rightarrow> (core_world, string list) io" where
  "fetch_recent_tags env cfg limit =
     (if limit = 0 then retE []
      else let path = releases_path cfg @ ''?per_page='' @ nat_str limit in
        bindE (answered (HttpGet path) (\<lambda>n. fetch_json_from_mirrors (ue_releases env n) [WWPS_CORE_RELEASE_API_BASE] path))
          (\<lambda>rs. retE (take limit (map rr_tag_name rs))))"

definition is_manifest_name :: "string \<Rightarrow> bool" where
  "is_manifest_name name \<longleftrightarrow> suffix ''.sha256'' name \<or> suffix ''.sha256.txt'' name \<or> suffix ''.sha256sum'' name"

definition download_sha256_manifest ::
  "('k, 's) core_env \<Rightarrow> release_asset list \<Rightarrow> string \<Rightarrow> (core_world, string option) io" where
  "download_sha256_manifest env assets target_asset =
     (case find (\<lambda>a. is_manifest_name (ra_name a)) assets of
        None \<Rightarrow> retE None
      | Some m \<Rightarrow>
          bindE (answered (HttpGet (download_url m)) (\<lambda>n. ue_text env n (download_url m)))
            (\<lambda>t. retE (parse_sha256_manifest t target_asset)))"

definition fetch_response :: "('k, 's) core_env \<Rightarrow> upgrade_config \<Rightarrow> string option \<Rightarrow> (core_world, release_response) io" where
  "fetch_response env cfg tag =
     (case tag of
        Some t \<Rightarrow>
          (let path = releases_path cfg @ ''/tags/'' @ t in
           answered (HttpGet path) (\<lambda>n. fetch_json_from_mirrors (ue_release env n) [WWPS_CORE_RELEASE_API_BASE] path))
      | None \<Rightarrow>
          (let path = releases_path cfg @ ''?per_page=20'' in
           bindE (answered (HttpGet path) (\<lambda>n. fetch_json_from_mirrors (ue_releases env n) [WWPS_CORE_RELEASE_API_BASE] path))
             (\<lambda>rs. case pick_latest_release rs of Inl e \<Rightarrow> failE e | Inr r \<Rightarrow> retE r)))"

definition release_sha256 :: "('k, 's) core_env \<Rightarrow> release_response \<Rightarrow> release_asset \<Rightarrow> (core_world, string) io" where
  "release_sha256 env release asset =
     (case ra_digest asset of
        Some digest \<Rightarrow> (case parse_digest digest of Some h \<Rightarrow> retE h | None \<Rightarrow> failE ''bad digest'')
      | None \<Rightarrow>
          bindE (download_sha256_manifest env (rr_assets release) (ra_name asset)) (\<lambda>m.
          case m of
            Some hash \<Rightarrow> retE hash
          | None \<Rightarrow>
              (case rr_body release of
                 Some body \<Rightarrow> (case extract_sha256_from_body body of Some h \<Rightarrow> retE h | None \<Rightarrow> failE ''no SHA256'')
               | None \<Rightarrow> failE ''no SHA256'')))"

definition fetch_release :: "('k, 's) core_env \<Rightarrow> upgrade_config \<Rightarrow> string option \<Rightarrow> (core_world, core_release_info) io" where
  "fetch_release env cfg tag =
     bindE (fetch_response env cfg tag) (\<lambda>release.
     let asset_name = asset_basename (uc_arch cfg) @ ''.zip'' in
     case find (\<lambda>a. ra_name a = asset_name) (rr_assets release) of
       None \<Rightarrow> failE ''asset not found''
     | Some asset \<Rightarrow>
         if download_url asset = [] then failE ''asset has no URL''
         else bindE (release_sha256 env release asset) (\<lambda>sha256.
           retE \<lparr>ri_tag_name = rr_tag_name release, ri_download_url = download_url asset, ri_sha256 = sha256,
                 ri_size = ra_size asset,
                 ri_minisig_url = map_option download_url (find_minisig_asset (rr_assets release) (ra_name asset))\<rparr>))"

section \<open>Download and unpacking\<close>

fun write_chunks :: "('k, 's) core_env \<Rightarrow> string \<Rightarrow> bool \<Rightarrow> string \<Rightarrow> (string + string) list \<Rightarrow> (core_world, string) io" where
  "write_chunks env temp report received [] = retE received"
| "write_chunks env temp report received (Inl e # cs) = failE e"
| "write_chunks env temp report received (Inr c # cs) =
     thenE (try_effect (WriteChunk temp))
     (thenE (updating (\<lambda>w. w\<lparr>cw_archives := (cw_archives w)(temp \<mapsto> received @ c)\<rparr>))
     (thenE (if report \<and> ue_report env (length (received @ c)) then ignoreE (cedit (ue_progress env (length (received @ c)))) else retE ())
       (write_chunks env temp report (received @ c) cs)))"

definition remove_archive :: "string \<Rightarrow> (core_world, unit) io" where
  "remove_archive temp =
     thenE (try_effect (RemovePath temp)) (updating (\<lambda>w. w\<lparr>cw_archives := (cw_archives w)(temp := None)\<rparr>))"

definition check_signature :: "('k, 's) core_env \<Rightarrow> upgrade_config \<Rightarrow> core_release_info \<Rightarrow> string \<Rightarrow> string \<Rightarrow> (core_world, unit) io" where
  "check_signature env cfg release temp sig_url =
     bindE (answered (HttpGet sig_url) (\<lambda>n. ue_sig env n sig_url)) (\<lambda>sig_bytes.
     if \<not> utf8 (map of_char sig_bytes) then failE ''signature is not UTF-8''
     else thenE (try_effect (ReadFile temp))
     (bindE (looking (\<lambda>w. cw_archives w temp)) (\<lambda>content.
     case content of
       None \<Rightarrow> failE ''not found''
     | Some download_data \<Rightarrow>
         bindE (reading (ue_today env)) (\<lambda>today.
         case verify_minisign (ue_minisign env) today download_data sig_bytes MINISIGN_ACTIVE_KEYS MINISIGN_HISTORICAL_KEYS of
           Inl e \<Rightarrow> failE e
         | Inr comment \<Rightarrow>
             (case parse_trusted_comment comment of
                Inl e \<Rightarrow> failE e
              | Inr (got_version, got_asset) \<Rightarrow>
                  if got_version \<noteq> ri_tag_name release then
                    thenE (ignoreE (remove_archive temp)) (failE ''signed version differs'')
                  else if got_asset \<noteq> asset_basename (uc_arch cfg) @ ''.zip'' then
                    thenE (ignoreE (remove_archive temp)) (failE ''signed file name differs'')
                  else retE ())))))"

definition download_release :: "('k, 's) core_env \<Rightarrow> upgrade_config \<Rightarrow> core_release_info \<Rightarrow> bool \<Rightarrow> (core_world, string) io" where
  "download_release env cfg release report =
     bindE (reading (ue_unix env)) (\<lambda>now.
     let temp = path_join (uc_temp_dir cfg) (''wwps-core-'' @ ri_tag_name release @ ''-'' @ int_str now @ ''.zip'') in
     thenE (create_dir (uc_temp_dir cfg))
     (bindE (answered (HttpGet (ri_download_url release)) (\<lambda>n. ue_chunks env n (ri_download_url release))) (\<lambda>stream.
     thenE (try_effect (CreateFile temp))
     (thenE (updating (\<lambda>w. w\<lparr>cw_archives := (cw_archives w)(temp \<mapsto> [])\<rparr>))
     (bindE (write_chunks env temp report [] stream) (\<lambda>received.
     thenE (try_effect (FlushFile temp))
     (thenE (try_effect (SyncFile temp))
     (if ue_sha256 env received \<noteq> ri_sha256 release then
        thenE (ignoreE (remove_archive temp)) (failE ''SHA256 mismatch'')
      else case ri_minisig_url release of
             None \<Rightarrow> retE temp
           | Some sig_url \<Rightarrow> thenE (check_signature env cfg release temp sig_url) (retE temp)))))))))"

definition unpack_name :: "upgrade_config \<Rightarrow> int \<Rightarrow> string" where
  "unpack_name cfg now = path_join (uc_temp_dir cfg) (''wwps-core-unpack-'' @ int_str now)"

text \<open>Unpacking adds the files of the archive to what the directory holds; one that fails leaves some of
  them.\<close>

definition extract_archive :: "('k, 's) core_env \<Rightarrow> upgrade_config \<Rightarrow> string \<Rightarrow> (core_world, string) io" where
  "extract_archive env cfg archive_path =
     bindE (reading (ue_unix env)) (\<lambda>now.
     let target = unpack_name cfg now in
     thenE (create_dir target)
     (thenE (updating (\<lambda>w. w\<lparr>cw_unpacked := (cw_unpacked w)(target \<mapsto> (case cw_unpacked w target of Some fs \<Rightarrow> fs | None \<Rightarrow> \<lambda>_. None))\<rparr>))
     (bindE (looking (\<lambda>w. cw_archives w archive_path)) (\<lambda>content.
     case content of
       None \<Rightarrow> failE ''not found''
     | Some data \<Rightarrow>
         (case ue_unzip env data of
            Inl e \<Rightarrow> failE e
          | Inr files \<Rightarrow>
              bindE (looking (\<lambda>w. (cw_fault w (length (cw_trace w)), cw_kept w (length (cw_trace w))))) (\<lambda>(fault, kept).
              thenE (updating (\<lambda>w. w\<lparr>cw_unpacked := (cw_unpacked w)(target \<mapsto>
                       (\<lambda>x. if (fault = None \<or> kept x) \<and> files x \<noteq> None then files x
                            else Option.bind (cw_unpacked w target) (\<lambda>fs. fs x)))\<rparr>))
              (thenE (try_effect (Unzip archive_path)) (retE target))))))))"

section \<open>Backup and replacement\<close>

definition geo_files :: "string list" where
  "geo_files = [''geoip.dat'', ''geosite.dat'']"

fun backup_geo :: "upgrade_config \<Rightarrow> string \<Rightarrow> string list \<Rightarrow> (core_world, unit) io" where
  "backup_geo cfg b [] = retE ()"
| "backup_geo cfg b (d # ds) =
     bindE (looking (\<lambda>w. cw_install w d)) (\<lambda>src.
     thenE (if src \<noteq> None then ignoreE (copy_to (path_join (uc_install_dir cfg) d) (path_join b d) src (put_backup b d)) else retE ())
       (backup_geo cfg b ds))"

text \<open>A backup is named by its directory's name; \<open>uc_backup_dir\<close> is in front of it in the source.\<close>

definition backup_current_core :: "('k, 's) core_env \<Rightarrow> upgrade_config \<Rightarrow> (core_world, string) io" where
  "backup_current_core env cfg =
     thenE (create_dir (uc_backup_dir cfg))
     (bindE (reading (ue_stamp env)) (\<lambda>stamp.
     let b = WWPS_CORE_DEFAULT_BACKUP_PREFIX @ ''-'' @ stamp in
     thenE (create_dir (path_join (uc_backup_dir cfg) b))
     (thenE (updating (\<lambda>w. w\<lparr>cw_backups := AList.update b (Some (backup_files b w)) (cw_backups w)\<rparr>))
     (bindE (looking (\<lambda>w. cw_install w ''wwps-core'')) (\<lambda>core.
     thenE (copy_to (path_join (uc_install_dir cfg) ''wwps-core'') (path_join b ''wwps-core'') core (put_backup b ''wwps-core''))
     (thenE (backup_geo cfg b geo_files) (retE b)))))))"

definition CONF_DIR :: string where
  "CONF_DIR = ''/etc/wwps/wwps-core/conf''"

definition preflight_check_config :: "('k, 's) core_env \<Rightarrow> string \<Rightarrow> (core_world, preflight_outcome) io" where
  "preflight_check_config env new_binary =
     answered (RunCmd new_binary [''run'', ''-test'', ''-confdir'', CONF_DIR])
       (\<lambda>n. run_config_preflight (ue_cmd env n new_binary [''run'', ''-test'', ''-confdir'', CONF_DIR]))"

fun remove_backups :: "upgrade_config \<Rightarrow> string list \<Rightarrow> (core_world, string list) io" where
  "remove_backups cfg [] = retE []"
| "remove_backups cfg (b # bs) =
     bindE (looking (\<lambda>w. cw_kept w (length (cw_trace w)))) (\<lambda>kept.
     catchE (try_effect (RemovePath (path_join (uc_backup_dir cfg) b))) (\<lambda>r.
     case r of
       Inr _ \<Rightarrow>
         thenE (updating (\<lambda>w. w\<lparr>cw_backups := AList.delete b (cw_backups w)\<rparr>))
           (bindE (remove_backups cfg bs) (\<lambda>removed. retE (b # removed)))
     | Inl _ \<Rightarrow>
         thenE (updating (\<lambda>w. w\<lparr>cw_backups := AList.update b (Some (\<lambda>x. if kept x then backup_files b w x else None)) (cw_backups w)\<rparr>))
           (remove_backups cfg bs)))"

definition directory_names :: "core_world \<Rightarrow> string list" where
  "directory_names w = map fst (filter (\<lambda>(_, d). \<not> Option.is_none d) (cw_backups w))"

definition prune_backups :: "upgrade_config \<Rightarrow> nat \<Rightarrow> (core_world, string list) io" where
  "prune_backups cfg keep =
     bindE (looking (\<lambda>w. cw_has_dir w (uc_backup_dir cfg))) (\<lambda>there.
     if \<not> there then retE []
     else thenE (try_effect (ReadDir (uc_backup_dir cfg)))
       (bindE (looking directory_names) (\<lambda>names.
        remove_backups cfg (select_backups_to_delete names WWPS_CORE_DEFAULT_BACKUP_PREFIX keep))))"

definition rename_install :: "string \<Rightarrow> string \<Rightarrow> (core_world, unit) io" where
  "rename_install a b =
     thenE (try_effect (RenameFile a b))
       (updating (\<lambda>w. w\<lparr>cw_install := (cw_install w)(b := cw_install w a, a := None)\<rparr>))"

definition set_mode :: "string \<Rightarrow> nat \<Rightarrow> (core_world, unit) io" where
  "set_mode name mode =
     thenE (try_effect (ReadMeta name))
     (thenE (try_effect (SetMode name mode))
       (updating (\<lambda>w. w\<lparr>cw_install := (cw_install w)(name := map_option (\<lambda>f. f\<lparr>cf_mode := mode\<rparr>) (cw_install w name))\<rparr>)))"

definition install_binary_from :: "string \<Rightarrow> core_file option \<Rightarrow> string \<Rightarrow> (core_world, unit) io" where
  "install_binary_from src_path source file_name =
     (let staging = file_name @ ''.new'' in
      thenE (copy_to src_path staging source (put_install staging))
      (thenE (set_mode staging 493) (rename_install staging file_name)))"

definition install_data_file :: "string \<Rightarrow> core_file option \<Rightarrow> string \<Rightarrow> (core_world, unit) io" where
  "install_data_file src_path source file_name =
     (let staging = file_name @ ''.new'' in
      thenE (copy_to src_path staging source (put_install staging)) (rename_install staging file_name))"

definition replace_core :: "string \<Rightarrow> (core_world, unit) io" where
  "replace_core unpack_dir =
     bindE (looking (\<lambda>w. Option.bind (cw_unpacked w unpack_dir) (\<lambda>fs. fs ''xray''))) (\<lambda>new_core.
     if new_core = None then failE ''no xray in the package''
     else install_binary_from (path_join unpack_dir ''xray'') new_core ''wwps-core'')"

section \<open>The service\<close>

definition service_unit :: "upgrade_config \<Rightarrow> string" where
  "service_unit cfg = uc_service_name cfg @ ''.service''"

definition systemctl :: "('k, 's) core_env \<Rightarrow> string \<Rightarrow> upgrade_config \<Rightarrow> (core_world, unit) io" where
  "systemctl env verb cfg =
     bindE (core_cmd env ''systemctl'' [verb, service_unit cfg])
       (\<lambda>(success, _, _). if success then retE () else failE (''systemctl '' @ verb @ '' failed''))"

definition restart_core_service :: "('k, 's) core_env \<Rightarrow> upgrade_config \<Rightarrow> (core_world, unit) io" where
  "restart_core_service env cfg = systemctl env ''restart'' cfg"

definition verify_service_active :: "('k, 's) core_env \<Rightarrow> upgrade_config \<Rightarrow> (core_world, unit) io" where
  "verify_service_active env cfg = systemctl env ''is-active'' cfg"

definition probe :: "('k, 's) core_env \<Rightarrow> string \<Rightarrow> (core_world, health_sample) io" where
  "probe env unit_name =
     bindE (core_cmd env ''systemctl'' [''is-active'', unit_name]) (\<lambda>active.
     catchE (core_cmd env ''systemctl'' [''show'', unit_name, ''-p'', ''NRestarts'', ''--value''])
       (\<lambda>show_restarts. case probe_unit (Inr active) show_restarts of Inl e \<Rightarrow> failE e | Inr s \<Rightarrow> retE s))"

fun sample_health :: "('k, 's) core_env \<Rightarrow> string \<Rightarrow> nat \<Rightarrow> nat \<Rightarrow> (core_world, health_sample list) io" where
  "sample_health env unit_name index 0 = retE []"
| "sample_health env unit_name index (Suc n) =
     thenE (if index > 0 then updating (log_effect (Sleep HEALTH_SAMPLE_INTERVAL)) else retE ())
     (catchE (probe env unit_name) (\<lambda>r.
      bindE (sample_health env unit_name (index + 1) n)
        (\<lambda>samples. retE (case r of Inr s \<Rightarrow> s # samples | Inl _ \<Rightarrow> samples))))"

definition wait_for_health :: "('k, 's) core_env \<Rightarrow> string \<Rightarrow> (core_world, health_verdict) io" where
  "wait_for_health env unit_name =
     bindE (sample_health env unit_name 0 HEALTH_SAMPLE_COUNT) (\<lambda>samples. retE (classify_samples samples))"

fun restore_geo :: "string \<Rightarrow> string list \<Rightarrow> (core_world, unit) io" where
  "restore_geo b [] = retE ()"
| "restore_geo b (d # ds) =
     bindE (looking (\<lambda>w. backup_files b w d)) (\<lambda>src.
     thenE (if src \<noteq> None then ignoreE (install_data_file (path_join b d) src d) else retE ())
       (restore_geo b ds))"

definition restore_backup :: "('k, 's) core_env \<Rightarrow> upgrade_config \<Rightarrow> string \<Rightarrow> (core_world, unit) io" where
  "restore_backup env cfg b =
     bindE (looking (\<lambda>w. backup_files b w ''wwps-core'')) (\<lambda>backup_core.
     if backup_core = None then failE ''no core in the backup''
     else thenE (install_binary_from (path_join b ''wwps-core'') backup_core ''wwps-core'')
     (thenE (restore_geo b geo_files)
     (thenE (restart_core_service env cfg)
     (thenE (verify_service_active env cfg)
     (bindE (wait_for_health env (service_unit cfg)) (\<lambda>verdict.
      if should_rollback verdict then failE ''not healthy after the rollback'' else retE ()))))))"

definition remove_unpacked :: "string \<Rightarrow> (core_world, unit) io" where
  "remove_unpacked p =
     thenE (try_effect (RemovePath p)) (updating (\<lambda>w. w\<lparr>cw_unpacked := (cw_unpacked w)(p := None)\<rparr>))"

definition cleanup_paths :: "string \<Rightarrow> string \<Rightarrow> (core_world, unit) io" where
  "cleanup_paths archive_path unpack_dir =
     bindE (looking (\<lambda>w. cw_archives w archive_path)) (\<lambda>a.
     thenE (if a \<noteq> None then ignoreE (remove_archive archive_path) else retE ())
     (bindE (looking (\<lambda>w. cw_unpacked w unpack_dir)) (\<lambda>d.
      if Option.is_none d then retE () else ignoreE (remove_unpacked unpack_dir))))"

section \<open>The upgrade\<close>

fun verdict_debug :: "health_verdict \<Rightarrow> string" where
  "verdict_debug Healthy = ''Healthy''"
| "verdict_debug Inactive = ''Inactive''"
| "verdict_debug CrashLooping = ''CrashLooping''"
| "verdict_debug Unknown = ''Unknown''"

definition handle_rollback :: "('k, 's) core_env \<Rightarrow> upgrade_config \<Rightarrow> string \<Rightarrow> health_verdict \<Rightarrow> (core_world, unit) io" where
  "handle_rollback env cfg b verdict =
     thenE (ignoreE (cedit (ue_tr env ''upgrade.core_rolling_back'' [])))
     (catchE (restore_backup env cfg b) (\<lambda>r.
      case r of
        Inr _ \<Rightarrow> thenE (csend env (ue_tr env ''upgrade.core_rollback_done'' [verdict_debug verdict])) (retE ())
      | Inl err \<Rightarrow>
          thenE (csend env (ue_tr env ''upgrade.core_rollback_failed'' [err, path_join (uc_backup_dir cfg) b])) (failE err)))"

definition upgrade_summary :: "('k, 's) core_env \<Rightarrow> upgrade_config \<Rightarrow> core_release_info \<Rightarrow> string \<Rightarrow> health_verdict \<Rightarrow> string list \<Rightarrow> string" where
  "upgrade_summary env cfg release b verdict pruned =
     ue_tr env ''upgrade.core_updated'' [ri_tag_name release, path_join (uc_backup_dir cfg) b]
     @ (if verdict = Unknown then [CHR 0x0A] @ ue_tr env ''upgrade.core_verify_unknown'' [] else [])
     @ (if pruned \<noteq> [] then [CHR 0x0A] @ ue_tr env ''upgrade.core_pruned'' [nat_str (length pruned)] else [])"

text \<open>From the restart on: the second line of defence.\<close>

definition watch_and_finish ::
  "('k, 's) core_env \<Rightarrow> upgrade_config \<Rightarrow> core_release_info \<Rightarrow> string \<Rightarrow> string \<Rightarrow> string \<Rightarrow> string list \<Rightarrow> (core_world, unit) io" where
  "watch_and_finish env cfg release archive_path unpack_dir b pruned =
     thenE (restart_core_service env cfg)
     (thenE (ignoreE (verify_service_active env cfg))
     (thenE (ignoreE (cedit (ue_tr env ''upgrade.core_verifying'' [])))
     (bindE (wait_for_health env (service_unit cfg)) (\<lambda>verdict.
      if should_rollback verdict then
        catchE (handle_rollback env cfg b verdict) (\<lambda>result.
          thenE (cleanup_paths archive_path unpack_dir) (case result of Inr _ \<Rightarrow> retE () | Inl e \<Rightarrow> failE e))
      else
        thenE (cleanup_paths archive_path unpack_dir)
        (thenE (csend env (upgrade_summary env cfg release b verdict pruned)) (retE ()))))))"

text \<open>From the backup to the replacement.\<close>

definition backup_and_replace ::
  "('k, 's) core_env \<Rightarrow> upgrade_config \<Rightarrow> core_release_info \<Rightarrow> string \<Rightarrow> string \<Rightarrow> (core_world, unit) io" where
  "backup_and_replace env cfg release archive_path unpack_dir =
     thenE (ignoreE (cedit (ue_tr env ''upgrade.core_backing_up'' [])))
     (bindE (backup_current_core env cfg) (\<lambda>b.
     bindE (catchE (prune_backups cfg BACKUP_KEEP) (\<lambda>r. retE (case r of Inr p \<Rightarrow> p | Inl _ \<Rightarrow> []))) (\<lambda>pruned.
     thenE (ignoreE (cedit (ue_tr env ''upgrade.core_replacing'' [])))
     (thenE (replace_core unpack_dir)
     (thenE (ignoreE (cedit (ue_tr env ''upgrade.core_restarting'' [])))
       (watch_and_finish env cfg release archive_path unpack_dir b pruned))))))"

text \<open>From the download to the verdict of the first line of defence.\<close>

definition download_and_check ::
  "('k, 's) core_env \<Rightarrow> upgrade_config \<Rightarrow> core_release_info \<Rightarrow> (core_world, unit) io" where
  "download_and_check env cfg release =
     thenE (ignoreE (cedit (ue_tr env ''upgrade.core_download_info''
       [ri_tag_name release,
        (case ri_size release of Some n \<Rightarrow> ue_size_text env n | None \<Rightarrow> ue_tr env ''upgrade.core_unknown_size'' []),
        ri_sha256 release])))
     (bindE (download_release env cfg release True) (\<lambda>archive_path.
     thenE (ignoreE (cedit (ue_tr env ''upgrade.core_extracting'' [])))
     (bindE (extract_archive env cfg archive_path) (\<lambda>unpack_dir.
     thenE (ignoreE (try_effect NormaliseRules))
     (bindE (preflight_check_config env (path_join unpack_dir ''xray'')) (\<lambda>outcome.
      case outcome of
        Passed \<Rightarrow>
          thenE (ignoreE (cedit (ue_tr env ''upgrade.core_preflight_ok'' [])))
            (backup_and_replace env cfg release archive_path unpack_dir)
      | Unsupported \<Rightarrow>
          thenE (ignoreE (cedit (ue_tr env ''upgrade.core_preflight_unsupported'' [])))
            (backup_and_replace env cfg release archive_path unpack_dir)
      | Invalid reason \<Rightarrow>
          thenE (cleanup_paths archive_path unpack_dir)
          (let t = ue_tr env ''upgrade.core_preflight_failed'' [reason] in
           thenE (ignoreE (cedit t))
           (thenE (csend env t) (failE ''configuration check failed, core untouched'')))))))))"

definition run_upgrade :: "('k, 's) core_env \<Rightarrow> string option \<Rightarrow> (core_world, unit) io" where
  "run_upgrade env tag =
     thenE (csend env (ue_tr env ''upgrade.core_checking'' []))
     (case from_env env of
        Inl e \<Rightarrow> failE e
      | Inr cfg \<Rightarrow>
          thenE (validate_host cfg)
          (thenE (try_effect BuildClient)
          (thenE (ignoreE (cedit (ue_tr env ''upgrade.core_fetching'' [])))
          (bindE (fetch_release env cfg tag) (\<lambda>release.
           bindE (current_version env cfg) (\<lambda>loc.
           case loc of
             Some l \<Rightarrow>
               if is_same_version l (ri_tag_name release)
               then cedit (ue_tr env ''upgrade.core_already_latest'' [l, ri_tag_name release])
               else download_and_check env cfg release
           | None \<Rightarrow> download_and_check env cfg release))))))"

end
