(* ===== verification/CoreUpgradeSafe.thy ===== *)
theory CoreUpgradeSafe
  imports CoreUpgrade
begin

text \<open>
  What the upgrade of the proxy core guarantees, for every pattern of failures of the network, the disk, the
  commands and the clock: which core is installed at the end, that a failed configuration check leaves the
  host alone, what a rollback restores, and what pruning keeps. The proofs follow the handler statement by
  statement with the rules of theory Triples.
\<close>

lemma io_triple_error: "io_triple P m Q E \<Longrightarrow> (\<And>w. E w \<Longrightarrow> E' w) \<Longrightarrow> io_triple P m Q E'"
  by (erule io_triple_weaken) auto

section \<open>Properties the log does not matter for\<close>

definition stable :: "(core_world \<Rightarrow> bool) \<Rightarrow> bool" where
  "stable P \<longleftrightarrow> (\<forall>w t d. P w \<longrightarrow> P (w\<lparr>cw_trace := t, cw_has_dir := d\<rparr>))"

lemma stable_log: "stable P \<Longrightarrow> P w \<Longrightarrow> P (log_effect ef w)"
  unfolding stable_def log_effect_def
  by (drule spec [of _ w], drule spec [of _ "cw_trace w @ [ef]"], drule spec [of _ "cw_has_dir w"]) simp

lemma stable_trace: "stable P \<Longrightarrow> P w \<Longrightarrow> P (w\<lparr>cw_trace := t\<rparr>)"
  unfolding stable_def
  by (drule spec [of _ w], drule spec [of _ t], drule spec [of _ "cw_has_dir w"]) simp

lemma stable_dir: "stable P \<Longrightarrow> P w \<Longrightarrow> P (w\<lparr>cw_has_dir := d\<rparr>)"
  unfolding stable_def
  by (drule spec [of _ w], drule spec [of _ "cw_trace w"], drule spec [of _ d]) simp

lemma stable_conj: "stable P \<Longrightarrow> stable Q \<Longrightarrow> stable (\<lambda>w. P w \<and> Q w)"
  by (simp add: stable_def)

lemma invar_attempt: "stable P \<Longrightarrow> invar P (try_effect ef)"
  by (auto simp: io_triple_def try_effect_def stable_log split: option.split)

lemma invar_answered: "stable P \<Longrightarrow> invar P (answered ef a)"
  by (auto simp: io_triple_def answered_def stable_log split: sum.split)

lemma io_triple_reading: "io_triple P (reading f) (\<lambda>a w. P w \<and> (\<exists>n. a = f n)) E"
  by (auto simp: io_triple_def reading_def)

lemma io_triple_looking: "io_triple P (looking f) (\<lambda>a w. P w \<and> a = f w) E"
  by (auto simp: io_triple_def looking_def)

lemma io_triple_updating: "(\<And>w. P w \<Longrightarrow> Q (f w)) \<Longrightarrow> io_triple P (updating f) (\<lambda>_. Q) E"
  by (auto simp: io_triple_def updating_def)

lemma invar_create_dir: "stable P \<Longrightarrow> invar P (create_dir p)"
  unfolding create_dir_def
  by (rule io_triple_then [OF invar_attempt io_triple_updating]) (auto intro: stable_dir)

lemma invar_ret: "invar P (retE a)"
  by (rule io_triple_ret)

lemma invar_fail: "invar P (failE a)"
  by (rule io_triple_fail)

lemma io_triple_read: "(\<And>a. io_triple P (k a) Q E) \<Longrightarrow> io_triple P (bindE (reading f) k) Q E"
  by (rule io_triple_bind [OF io_triple_reading], rule io_triple_pre [where P = P]) auto

lemma invar_look: "(\<And>a. invar P (k a)) \<Longrightarrow> invar P (bindE (looking f) k)"
  by (rule io_triple_bind [OF io_triple_looking], rule io_triple_pre [where P = P]) auto

lemma invar_read: "(\<And>a. invar P (k a)) \<Longrightarrow> invar P (bindE (reading f) k)"
  by (rule io_triple_bind [OF io_triple_reading], rule io_triple_pre [where P = P]) auto

lemma invar_bind: "invar P m \<Longrightarrow> (\<And>a. invar P (k a)) \<Longrightarrow> invar P (bindE m k)"
  by (rule io_triple_bind)

lemma invar_then: "invar P m \<Longrightarrow> invar P k \<Longrightarrow> invar P (thenE m k)"
  by (rule io_triple_then)

lemma invar_catch: "invar P m \<Longrightarrow> (\<And>r. invar P (k r)) \<Longrightarrow> invar P (catchE m k)"
  by (rule io_triple_catch) auto

lemma invar_ignore: "invar P m \<Longrightarrow> invar P (ignoreE m)"
  by (rule io_triple_ignore)

lemma invar_if: "invar P m \<Longrightarrow> invar P n \<Longrightarrow> invar P (if c then m else n)"
  by simp

named_theorems kept \<open>computations that keep every property the log does not matter for\<close>

lemmas invar_rules = invar_look invar_read invar_bind invar_then invar_catch invar_ignore invar_if invar_ret invar_fail
  invar_attempt invar_answered invar_create_dir

lemma invar_csend [kept]: "stable P \<Longrightarrow> invar P (csend env t)"
  unfolding csend_def by (intro invar_rules)

lemma invar_cedit [kept]: "stable P \<Longrightarrow> invar P (cedit t)"
  unfolding cedit_def by (intro invar_rules)

lemma invar_cmd [kept]: "stable P \<Longrightarrow> invar P (core_cmd env p a)"
  unfolding core_cmd_def by (intro invar_rules)

lemma invar_writable: "stable P \<Longrightarrow> invar P (ensure_dir_writable p)"
  unfolding ensure_dir_writable_def by (intro invar_rules)

lemma invar_validate [kept]: "stable P \<Longrightarrow> invar P (validate_host cfg)"
  unfolding validate_host_def by (intro invar_rules invar_writable)

lemma invar_version [kept]: "stable P \<Longrightarrow> invar P (current_version env cfg)"
  unfolding current_version_def by (intro invar_rules kept)

lemma invar_manifest: "stable P \<Longrightarrow> invar P (download_sha256_manifest env as t)"
  unfolding download_sha256_manifest_def by (auto split: option.split intro!: invar_rules)

lemma invar_response: "stable P \<Longrightarrow> invar P (fetch_response env cfg tag)"
  unfolding fetch_response_def Let_def by (auto split: option.split sum.split intro!: invar_rules)

lemma invar_sha256: "stable P \<Longrightarrow> invar P (release_sha256 env r a)"
  unfolding release_sha256_def by (auto split: option.split intro!: invar_rules invar_manifest)

lemma invar_fetch [kept]: "stable P \<Longrightarrow> invar P (fetch_release env cfg tag)"
  unfolding fetch_release_def Let_def
  by (rule invar_bind [OF invar_response]) (auto split: option.split intro!: invar_rules invar_sha256)

lemma invar_systemctl: "stable P \<Longrightarrow> invar P (systemctl env verb cfg)"
  unfolding systemctl_def by (rule invar_bind [OF invar_cmd]) (auto split: prod.split intro!: invar_rules)

lemma invar_restart [kept]: "stable P \<Longrightarrow> invar P (restart_core_service env cfg)"
  unfolding restart_core_service_def by (rule invar_systemctl)

lemma invar_verify [kept]: "stable P \<Longrightarrow> invar P (verify_service_active env cfg)"
  unfolding verify_service_active_def by (rule invar_systemctl)

lemma invar_probe: "stable P \<Longrightarrow> invar P (probe env u)"
  unfolding probe_def
  by (rule invar_bind [OF invar_cmd], assumption, rule invar_catch [OF invar_cmd])
     (auto split: sum.split intro!: invar_rules)

lemma invar_sleep: "stable P \<Longrightarrow> invar P (updating (log_effect ef))"
  by (rule io_triple_updating) (rule stable_log)

lemma invar_samples: "stable P \<Longrightarrow> invar P (sample_health env u i n)"
  by (induction n arbitrary: i) (auto intro!: invar_rules invar_probe invar_sleep)

lemma invar_health [kept]: "stable P \<Longrightarrow> invar P (wait_for_health env u)"
  unfolding wait_for_health_def by (intro invar_rules invar_samples)

lemma invar_preflight [kept]: "stable P \<Longrightarrow> invar P (preflight_check_config env b)"
  unfolding preflight_check_config_def by (intro invar_rules)

section \<open>The package\<close>

text \<open>Properties that depend on neither the log nor the downloaded files.\<close>

definition quiet :: "(core_world \<Rightarrow> bool) \<Rightarrow> bool" where
  "quiet P \<longleftrightarrow> stable P \<and> (\<forall>w a. P w \<longrightarrow> P (w\<lparr>cw_archives := a\<rparr>))"

lemma quiet_stable: "quiet P \<Longrightarrow> stable P"
  by (simp add: quiet_def)

lemma quiet_archives: "quiet P \<Longrightarrow> P w \<Longrightarrow> P (w\<lparr>cw_archives := a\<rparr>)"
  by (simp add: quiet_def)

lemma stable_archive: "stable (\<lambda>w. cw_archives w t = x)"
  by (simp add: stable_def)

text \<open>The signature that comes with the release, if there is one, covers the data and names this version and
  this file.\<close>

definition signed :: "('k, 's) core_env \<Rightarrow> upgrade_config \<Rightarrow> core_release_info \<Rightarrow> string \<Rightarrow> string \<Rightarrow> bool" where
  "signed env cfg rel data u \<longleftrightarrow> (\<exists>n m sig. ue_sig env n u = Inr sig
     \<and> verify_minisign (ue_minisign env) (ue_today env m) data sig MINISIGN_ACTIVE_KEYS MINISIGN_HISTORICAL_KEYS
         = Inr (ri_tag_name rel @ '':'' @ asset_basename (uc_arch cfg) @ ''.zip''))"

definition vouched :: "('k, 's) core_env \<Rightarrow> upgrade_config \<Rightarrow> core_release_info \<Rightarrow> string \<Rightarrow> bool" where
  "vouched env cfg rel data \<longleftrightarrow> ue_sha256 env data = ri_sha256 rel
     \<and> (case ri_minisig_url rel of None \<Rightarrow> True | Some u \<Rightarrow> signed env cfg rel data u)"

text \<open>The core of a package that was checked.\<close>

definition genuine :: "('k, 's) core_env \<Rightarrow> upgrade_config \<Rightarrow> core_release_info \<Rightarrow> core_file \<Rightarrow> bool" where
  "genuine env cfg rel f \<longleftrightarrow> (\<exists>data files. vouched env cfg rel data \<and> ue_unzip env data = Inr files \<and> files ''xray'' = Some f)"

lemma invar_remove_archive: "quiet P \<Longrightarrow> invar P (remove_archive t)"
  unfolding remove_archive_def
  by (rule invar_then [OF invar_attempt io_triple_updating]) (auto simp: quiet_stable quiet_archives)

lemma write_chunks_triple:
  assumes "quiet P"
  shows "io_triple (\<lambda>w. P w \<and> cw_archives w t = Some rec) (write_chunks env t rp rec cs) (\<lambda>r w. P w \<and> cw_archives w t = Some r) P"
proof (induction cs arbitrary: rec)
  case Nil
  show ?case unfolding write_chunks.simps by (rule io_triple_ret)
next
  case (Cons c cs)
  note st = stable_conj [OF quiet_stable [OF assms] stable_archive]
  show ?case
  proof (cases c)
    case (Inl e)
    show ?thesis unfolding Inl write_chunks.simps by (rule io_triple_fail) simp
  next
    case (Inr d)
    have edit: "io_triple (\<lambda>w. P w \<and> cw_archives w t = Some x)
        (if rp \<and> ue_report env n then ignoreE (cedit (ue_progress env n)) else retE ())
        (\<lambda>_ w. P w \<and> cw_archives w t = Some x) P" for x n
      by (auto intro!: io_triple_ignore io_triple_ret invar_cedit st)
    show ?thesis
      unfolding Inr write_chunks.simps
      by (rule io_triple_then [OF io_triple_weaken [OF invar_attempt [OF st]] io_triple_then [OF io_triple_updating io_triple_then [OF edit Cons.IH]]])
         (auto intro: quiet_archives [OF assms])
  qed
qed

lemma check_signature_triple:
  assumes "quiet P"
  shows "io_triple (\<lambda>w. P w \<and> cw_archives w t = Some data) (check_signature env cfg rel t u)
    (\<lambda>_ w. P w \<and> cw_archives w t = Some data \<and> signed env cfg rel data u) P"
proof (rule io_tripleI)
  fix w a w'
  assume "P w \<and> cw_archives w t = Some data" "check_signature env cfg rel t u w = (Inr a, w')"
  then show "P w' \<and> cw_archives w' t = Some data \<and> signed env cfg rel data u"
    using stable_trace [OF quiet_stable [OF assms]]
    by (auto simp: check_signature_def io_simps ignoreE_def answered_def try_effect_def looking_def reading_def log_effect_def
        parse_trusted_comment_iff signed_def split: sum.splits if_splits option.splits prod.splits)
next
  fix w e w'
  assume p: "P w \<and> cw_archives w t = Some data" "check_signature env cfg rel t u w = (Inl e, w')"
  have "invar P (check_signature env cfg rel t u)"
    unfolding check_signature_def
    by (auto split: option.split sum.split intro!: invar_rules invar_remove_archive [OF assms] quiet_stable [OF assms])
  from io_tripleE [OF this] p show "P w'" by blast
qed

lemma download_triple:
  assumes "quiet P"
  shows "io_triple P (download_release env cfg rel rp) (\<lambda>t w. P w \<and> (\<exists>data. cw_archives w t = Some data \<and> vouched env cfg rel data)) P"
proof -
  note st = quiet_stable [OF assms]
  define T where "T t data w \<longleftrightarrow> P w \<and> cw_archives w t = Some data" for t data w
  have stT: "stable (T t data)" for t data
    unfolding T_def by (rule stable_conj [OF st stable_archive])
  have att: "io_triple (T t data) (try_effect ef) (\<lambda>_. T t data) P" for t data ef
    by (rule io_triple_weaken [OF invar_attempt [OF stT]]) (auto simp: T_def)
  have refuse: "io_triple (T t data) (thenE (ignoreE (remove_archive t)) (failE x)) Q P" for t data x Q
    by (rule io_triple_then [OF io_triple_weaken [OF invar_ignore [OF invar_remove_archive [OF assms]]] io_triple_fail])
       (auto simp: T_def)
  have verified: "io_triple (T t data) (case ri_minisig_url rel of None \<Rightarrow> retE t | Some u \<Rightarrow> thenE (check_signature env cfg rel t u) (retE t))
      (\<lambda>t w. P w \<and> (\<exists>data. cw_archives w t = Some data \<and> vouched env cfg rel data)) P"
    if "ue_sha256 env data = ri_sha256 rel" for t data
  proof (cases "ri_minisig_url rel")
    case None
    with that show ?thesis by (auto simp: T_def vouched_def intro!: io_triple_ret)
  next
    case (Some u)
    show ?thesis
      unfolding T_def Some option.case
      by (rule io_triple_then [OF check_signature_triple [OF assms] io_triple_ret]) (use that Some in \<open>auto simp: vouched_def\<close>)
  qed
  have chunks: "io_triple (T t []) (write_chunks env t rp [] cs) (\<lambda>r. T t r) P" for t cs
    unfolding T_def by (rule write_chunks_triple [OF assms])
  have init: "T t [] (w\<lparr>cw_archives := (cw_archives w)(t \<mapsto> [])\<rparr>)" if "P w" for t w
    using that by (simp add: T_def quiet_archives [OF assms])
  have rest: "io_triple P (thenE (updating (\<lambda>w. w\<lparr>cw_archives := (cw_archives w)(t \<mapsto> [])\<rparr>))
     (bindE (write_chunks env t rp [] cs) (\<lambda>received.
     thenE (try_effect (FlushFile t))
     (thenE (try_effect (SyncFile t))
     (if ue_sha256 env received \<noteq> ri_sha256 rel then thenE (ignoreE (remove_archive t)) (failE ''SHA256 mismatch'')
      else case ri_minisig_url rel of None \<Rightarrow> retE t | Some u \<Rightarrow> thenE (check_signature env cfg rel t u) (retE t))))))
     (\<lambda>t w. P w \<and> (\<exists>data. cw_archives w t = Some data \<and> vouched env cfg rel data)) P" for t cs
    by (rule io_triple_then [OF io_triple_updating [where Q = "T t []"] io_triple_bind [OF chunks io_triple_then [OF att io_triple_then [OF att io_triple_if]]]])
       (auto intro!: init refuse verified)
  show ?thesis
    unfolding download_release_def Let_def
    by (intro io_triple_read io_triple_then [OF invar_create_dir [OF st]] io_triple_bind [OF invar_answered [OF st]]
          io_triple_then [OF invar_attempt [OF st]] rest)
qed

section \<open>The installed core\<close>

definition core_is :: "core_file option \<Rightarrow> core_world \<Rightarrow> bool" where
  "core_is f w \<longleftrightarrow> cw_install w ''wwps-core'' = f"

definition executable :: "core_file \<Rightarrow> core_file" where
  "executable f = f\<lparr>cf_mode := 493\<rparr>"

definition xray_in :: "string \<Rightarrow> core_world \<Rightarrow> core_file option" where
  "xray_in d w = Option.bind (cw_unpacked w d) (\<lambda>fs. fs ''xray'')"

definition unpacked_genuine :: "('k, 's) core_env \<Rightarrow> upgrade_config \<Rightarrow> core_release_info \<Rightarrow> string \<Rightarrow> core_world \<Rightarrow> bool" where
  "unpacked_genuine env cfg rel d w \<longleftrightarrow> (\<forall>f. xray_in d w = Some f \<longrightarrow> genuine env cfg rel f)"

text \<open>The backup holds this core, as long as it holds one.\<close>

definition backup_is :: "string \<Rightarrow> core_file \<Rightarrow> core_world \<Rightarrow> bool" where
  "backup_is b f w \<longleftrightarrow> (\<forall>g. backup_files b w ''wwps-core'' = Some g \<longrightarrow> g = f)"

text \<open>No unpack directory is left over from an earlier upgrade in the same second.\<close>

definition fresh_unpack :: "('k, 's) core_env \<Rightarrow> upgrade_config \<Rightarrow> core_world \<Rightarrow> bool" where
  "fresh_unpack env cfg w \<longleftrightarrow> (\<forall>n. cw_unpacked w (unpack_name cfg (ue_unix env n)) = None)"

lemma backup_files_simps [simp]:
  "backup_files b (w\<lparr>cw_trace := t\<rparr>) = backup_files b w" "backup_files b (w\<lparr>cw_has_dir := d\<rparr>) = backup_files b w"
  "backup_files b (w\<lparr>cw_install := i\<rparr>) = backup_files b w" "backup_files b (w\<lparr>cw_archives := a\<rparr>) = backup_files b w"
  "backup_files b (w\<lparr>cw_unpacked := u\<rparr>) = backup_files b w" "backup_files b (log_effect ef w) = backup_files b w"
  "backup_files b (put_install n f w) = backup_files b w"
  by (simp_all add: backup_files_def [abs_def] log_effect_def put_install_def)

lemma backup_files_update [simp]:
  "backup_files b (w\<lparr>cw_backups := AList.update c (Some fs) (cw_backups w)\<rparr>) = (if c = b then fs else backup_files b w)"
  "backup_files b (w\<lparr>cw_backups := AList.delete c (cw_backups w)\<rparr>) = (if c = b then (\<lambda>_. None) else backup_files b w)"
  by (auto simp: backup_files_def update_conv' delete_conv')

lemma backup_files_put [simp]:
  "backup_files b (put_backup c n f w) = (if c = b then (backup_files b w)(n \<mapsto> f) else backup_files b w)"
  by (simp add: put_backup_def)

lemma put_frames [simp]:
  "cw_install (put_backup b n f w) = cw_install w" "cw_unpacked (put_backup b n f w) = cw_unpacked w"
  "cw_unpacked (put_install n f w) = cw_unpacked w" "cw_install (put_install n f w) = (cw_install w)(n \<mapsto> f)"
  "cw_install (log_effect ef w) = cw_install w" "cw_unpacked (log_effect ef w) = cw_unpacked w"
  "cw_archives (log_effect ef w) = cw_archives w" "cw_backups (log_effect ef w) = cw_backups w"
  "cw_backups (put_install n f w) = cw_backups w" "cw_fault (log_effect ef w) = cw_fault w"
  "cw_left (log_effect ef w) = cw_left w" "cw_kept (log_effect ef w) = cw_kept w"
  "cw_trace (log_effect ef w) = cw_trace w @ [ef]"
  "cw_fault (put_install n f w) = cw_fault w" "cw_trace (put_install n f w) = cw_trace w"
  by (simp_all add: put_backup_def put_install_def log_effect_def)

lemma stable_core: "stable (core_is f)"
  by (simp add: stable_def core_is_def)

lemma stable_unpacked: "stable (unpacked_genuine env cfg rel d)"
  by (simp add: stable_def unpacked_genuine_def xray_in_def)

lemma stable_backup: "stable (backup_is b f)"
  by (simp add: stable_def backup_is_def)

lemma stable_fresh: "stable (fresh_unpack env cfg)"
  by (simp add: stable_def fresh_unpack_def)

lemma invar_copy: "stable P \<Longrightarrow> (\<And>f w. P w \<Longrightarrow> P (put f w)) \<Longrightarrow> invar P (copy_to s d src put)"
  by (auto simp: io_triple_def copy_to_def Let_def stable_log split: option.split)

lemma extract_triple:
  "io_triple (\<lambda>w. (core_is f w \<and> fresh_unpack env cfg w) \<and> (\<exists>data. cw_archives w t = Some data \<and> vouched env cfg rel data))
     (extract_archive env cfg t) (\<lambda>d w. core_is f w \<and> unpacked_genuine env cfg rel d w) (core_is f)"
  by (rule io_tripleI)
     (auto simp: extract_archive_def Let_def create_dir_def io_simps reading_def looking_def updating_def try_effect_def core_is_def
        unpacked_genuine_def xray_in_def fresh_unpack_def genuine_def split: option.splits sum.splits if_splits)

lemma backup_geo_keeps:
  "stable P \<Longrightarrow> (\<And>d f w. d \<in> set ds \<Longrightarrow> P w \<Longrightarrow> P (put_backup b d f w)) \<Longrightarrow> invar P (backup_geo cfg b ds)"
  by (induction ds) (auto intro!: invar_rules invar_copy)

lemma backup_triple:
  assumes "stable K" "\<And>w x. K w \<Longrightarrow> K (w\<lparr>cw_backups := x\<rparr>)"
  shows "io_triple (\<lambda>w. core_is (Some f) w \<and> K w) (backup_current_core env cfg)
     (\<lambda>b w. core_is (Some f) w \<and> K w \<and> backup_is b f w) (core_is (Some f))"
proof -
  define I where "I w \<longleftrightarrow> core_is (Some f) w \<and> K w" for w
  have I: "stable I" unfolding I_def by (intro stable_conj stable_core assms(1))
  have IB: "stable (\<lambda>w. I w \<and> backup_is b f w)" for b by (intro stable_conj I stable_backup)
  have upd: "I (w\<lparr>cw_backups := x\<rparr>)" if "I w" for x w
    using that by (simp add: I_def core_is_def assms(2))
  have put: "I (put_backup b n g w)" if "I w" for b n g w
    unfolding put_backup_def using that by (rule upd)
  have err: "core_is (Some f) w" if "I w" for w using that by (simp add: I_def)
  have copy: "io_triple (\<lambda>w. I w \<and> x = cw_install w ''wwps-core'') (copy_to p q x (put_backup b ''wwps-core''))
      (\<lambda>_ w. I w \<and> backup_is b f w) (core_is (Some f))" for p q x b
  proof (rule io_tripleI)
    fix w a w'
    assume h: "I w \<and> x = cw_install w ''wwps-core''" "copy_to p q x (put_backup b ''wwps-core'') w = (Inr a, w')"
    then have "w' = put_backup b ''wwps-core'' f (log_effect (CopyFile p q) w)"
      using err [of w] by (auto simp: copy_to_def Let_def core_is_def split: option.splits)
    then show "I w' \<and> backup_is b f w'" using h(1) by (simp add: put stable_log [OF I] backup_is_def)
  next
    fix w e w'
    assume "I w \<and> x = cw_install w ''wwps-core''" "copy_to p q x (put_backup b ''wwps-core'') w = (Inl e, w')"
    then show "core_is (Some f) w'"
      using err [of w] by (auto simp: copy_to_def Let_def core_is_def split: option.splits)
  qed
  have geo: "io_triple (\<lambda>w. I w \<and> backup_is b f w) (backup_geo cfg b geo_files) (\<lambda>_ w. I w \<and> backup_is b f w) (core_is (Some f))" for b
    by (rule io_triple_weaken [OF backup_geo_keeps [OF IB]]) (auto simp: geo_files_def put err backup_is_def)
  have dir: "io_triple I (create_dir p) (\<lambda>_. I) (core_is (Some f))" for p
    by (rule io_triple_weaken [OF invar_create_dir [OF I]]) (auto simp: err)
  have "io_triple I (backup_current_core env cfg) (\<lambda>b w. I w \<and> backup_is b f w) (core_is (Some f))"
    unfolding backup_current_core_def Let_def
    by (intro io_triple_then [OF dir] io_triple_read io_triple_then [OF io_triple_updating [where Q = I]] io_triple_bind [OF io_triple_looking]
        io_triple_then [OF copy] io_triple_then [OF geo] io_triple_ret) (auto intro: upd)
  then show ?thesis by (rule io_triple_weaken) (simp_all add: I_def)
qed

lemma unpacked_backups: "unpacked_genuine env cfg rel d w \<Longrightarrow> unpacked_genuine env cfg rel d (w\<lparr>cw_backups := x\<rparr>)"
  by (simp add: unpacked_genuine_def xray_in_def)

lemma remove_backups_keeps:
  "stable P \<Longrightarrow> (\<And>x w b. P w \<Longrightarrow> P (w\<lparr>cw_backups := AList.delete b (cw_backups w)\<rparr>)) \<Longrightarrow>
   (\<And>k w b. P w \<Longrightarrow> P (w\<lparr>cw_backups := AList.update b (Some (\<lambda>x. if k x then backup_files b w x else None)) (cw_backups w)\<rparr>)) \<Longrightarrow>
   invar P (remove_backups cfg bs)"
  by (induction bs) (auto split: sum.split intro!: invar_rules io_triple_updating)

lemma prune_keeps:
  assumes "stable K" "\<And>w x. K w \<Longrightarrow> K (w\<lparr>cw_backups := x\<rparr>)"
  shows "invar (\<lambda>w. core_is f w \<and> K w \<and> backup_is b g w) (prune_backups cfg n)"
  unfolding prune_backups_def
  by (intro invar_rules remove_backups_keeps stable_conj stable_core assms(1) stable_backup)
     (auto simp: core_is_def backup_is_def assms(2))

lemma install_binary_cases:
  assumes "install_binary_from p (Some f) name w = (r, w')"
  shows "if r = Inr () then cw_install w' name = Some (executable f) else cw_install w' name = cw_install w name"
    and "cw_backups w' = cw_backups w" "cw_unpacked w' = cw_unpacked w"
    and "n \<noteq> name \<Longrightarrow> n \<noteq> name @ ''.new'' \<Longrightarrow> cw_install w' n = cw_install w n"
  using assms
  by (auto simp: install_binary_from_def Let_def io_simps copy_to_def set_mode_def rename_install_def try_effect_def updating_def
      executable_def split: option.splits sum.splits if_splits)

lemma install_data_cases:
  assumes "install_data_file p (Some f) name w = (r, w')"
  shows "cw_install w' name = (if r = Inr () then Some f else cw_install w name)"
    and "cw_backups w' = cw_backups w"
    and "n \<noteq> name \<Longrightarrow> n \<noteq> name @ ''.new'' \<Longrightarrow> cw_install w' n = cw_install w n"
  using assms
  by (auto simp: install_data_file_def Let_def io_simps copy_to_def rename_install_def try_effect_def updating_def
      split: option.splits sum.splits if_splits)

lemma backup_files_eq: "cw_backups w' = cw_backups w \<Longrightarrow> backup_files b w' = backup_files b w"
  by (simp add: backup_files_def)

text \<open>The core while it is being replaced: the new one, checked and executable.\<close>

definition core_new :: "('k, 's) core_env \<Rightarrow> upgrade_config \<Rightarrow> core_release_info \<Rightarrow> core_world \<Rightarrow> bool" where
  "core_new env cfg rel w \<longleftrightarrow> (\<exists>f. core_is (Some (executable f)) w \<and> genuine env cfg rel f)"

lemma stable_new: "stable (core_new env cfg rel)"
  by (simp add: stable_def core_new_def core_is_def)

lemma replace_triple:
  "io_triple (\<lambda>w. core_is (Some f) w \<and> unpacked_genuine env cfg rel d w \<and> backup_is b f w) (replace_core d)
     (\<lambda>_ w. core_new env cfg rel w \<and> backup_is b f w) (core_is (Some f))"
proof (rule io_tripleI)
  fix w a w'
  assume p: "core_is (Some f) w \<and> unpacked_genuine env cfg rel d w \<and> backup_is b f w" and r: "replace_core d w = (Inr a, w')"
  then obtain g where g: "xray_in d w = Some g" "install_binary_from (path_join d ''xray'') (Some g) ''wwps-core'' w = (Inr (), w')"
    by (auto simp: replace_core_def io_simps looking_def xray_in_def split: if_splits)
  show "core_new env cfg rel w' \<and> backup_is b f w'"
    using p g(1) install_binary_cases(1,2) [OF g(2)] backup_files_eq [of w' w b]
    by (auto simp: core_new_def core_is_def unpacked_genuine_def backup_is_def)
next
  fix w e w'
  assume p: "core_is (Some f) w \<and> unpacked_genuine env cfg rel d w \<and> backup_is b f w" and r: "replace_core d w = (Inl e, w')"
  show "core_is (Some f) w'"
  proof (cases "xray_in d w")
    case (Some g)
    then have "install_binary_from (path_join d ''xray'') (Some g) ''wwps-core'' w = (Inl e, w')"
      using r by (simp add: replace_core_def io_simps looking_def xray_in_def)
    from install_binary_cases(1) [OF this] p show ?thesis by (simp add: core_is_def)
  qed (use p r in \<open>auto simp: replace_core_def io_simps looking_def xray_in_def core_is_def split: if_splits\<close>)
qed

lemma restore_geo_keeps:
  assumes "stable P" "\<And>d src w r w'. d \<in> set ds \<Longrightarrow> P w \<Longrightarrow> install_data_file (path_join b d) (Some src) d w = (r, w') \<Longrightarrow> P w'"
  shows "invar P (restore_geo b ds)"
  using assms(2)
proof (induction ds)
  case (Cons d ds)
  have "invar P (install_data_file (path_join b d) (Some src) d)" for src
    by (rule io_tripleI) (use Cons.prems in \<open>force+\<close>)
  then have "invar P (if src \<noteq> None then ignoreE (install_data_file (path_join b d) src d) else retE () :: (core_world, unit) io)" for src
    by (cases src) (auto intro!: invar_rules)
  note step = this
  have "invar P (restore_geo b ds)" by (rule Cons.IH) (use Cons.prems in \<open>simp; blast\<close>)
  with step show ?case unfolding restore_geo.simps by (intro invar_look invar_then) auto
qed (auto intro: invar_rules)

lemma restore_geo_core: "invar (core_is x) (restore_geo b geo_files)"
proof (rule restore_geo_keeps [OF stable_core])
  fix d src w r w'
  assume "d \<in> set geo_files" "core_is x w" "install_data_file (path_join b d) (Some src) d w = (r, w')"
  then show "core_is x w'"
    using install_data_cases(3) [of "path_join b d" src d w r w' "''wwps-core''"] by (auto simp: core_is_def geo_files_def)
qed

text \<open>Which core a run leaves behind, when it started with \<open>f\<close>.\<close>

definition core_safe :: "('k, 's) core_env \<Rightarrow> upgrade_config \<Rightarrow> core_release_info \<Rightarrow> core_file \<Rightarrow> core_world \<Rightarrow> bool" where
  "core_safe env cfg rel f w \<longleftrightarrow> core_is (Some f) w \<or> core_is (Some (executable f)) w \<or> core_new env cfg rel w"

lemma restore_triple:
  "io_triple (\<lambda>w. core_new env cfg rel w \<and> backup_is b f w) (restore_backup env cfg b) (\<lambda>_. core_is (Some (executable f))) (core_safe env cfg rel f)"
proof -
  have inst: "io_triple (\<lambda>w. (core_new env cfg rel w \<and> backup_is b f w) \<and> x = backup_files b w ''wwps-core'')
      (install_binary_from p x ''wwps-core'') (\<lambda>_. core_is (Some (executable f))) (core_safe env cfg rel f)" if "x \<noteq> None" for x p
  proof (rule io_tripleI)
    fix w a w'
    assume p: "(core_new env cfg rel w \<and> backup_is b f w) \<and> x = backup_files b w ''wwps-core''"
      and r: "install_binary_from p x ''wwps-core'' w = (Inr a, w')"
    with that have "x = Some f" by (auto simp: backup_is_def)
    with install_binary_cases(1) r show "core_is (Some (executable f)) w'" by (fastforce simp: core_is_def)
  next
    fix w e w'
    assume p: "(core_new env cfg rel w \<and> backup_is b f w) \<and> x = backup_files b w ''wwps-core''"
      and r: "install_binary_from p x ''wwps-core'' w = (Inl e, w')"
    with that obtain g where "x = Some g" by auto
    with install_binary_cases(1) r p show "core_safe env cfg rel f w'"
      by (fastforce simp: core_is_def core_safe_def core_new_def)
  qed
  have weak: "core_safe env cfg rel f w" if "core_is (Some (executable f)) w" for w using that by (simp add: core_safe_def)
  have k: "io_triple (core_is (Some (executable f))) m (\<lambda>_. core_is (Some (executable f))) (core_safe env cfg rel f)"
    if "invar (core_is (Some (executable f))) m" for m :: "(core_world, 'x) io"
    by (rule io_triple_weaken [OF that]) (auto simp: weak)
  show ?thesis
    unfolding restore_backup_def
    by (rule io_triple_bind [OF io_triple_looking], rule io_triple_if, rule io_triple_fail, simp add: core_safe_def,
        intro io_triple_then [OF inst] io_triple_then [OF k] io_triple_bind [OF k] restore_geo_core kept stable_core io_triple_if io_triple_fail
          io_triple_ret) (auto simp: weak)
qed

text \<open>Properties of the install directory and the backups alone.\<close>

definition lasting :: "(core_world \<Rightarrow> bool) \<Rightarrow> bool" where
  "lasting P \<longleftrightarrow> quiet P \<and> (\<forall>w u. P w \<longrightarrow> P (w\<lparr>cw_unpacked := u\<rparr>))"

lemma lasting_quiet: "lasting P \<Longrightarrow> quiet P" "lasting P \<Longrightarrow> stable P"
  by (simp_all add: lasting_def quiet_def)

lemma lastingI: "(\<And>w w'. cw_install w' = cw_install w \<Longrightarrow> cw_backups w' = cw_backups w \<Longrightarrow> P w \<Longrightarrow> P w') \<Longrightarrow> lasting P"
  unfolding lasting_def quiet_def stable_def
proof (intro conjI allI impI)
  assume p: "\<And>w w'. cw_install w' = cw_install w \<Longrightarrow> cw_backups w' = cw_backups w \<Longrightarrow> P w \<Longrightarrow> P w'"
  fix w assume "P w"
  show "P (w\<lparr>cw_trace := t, cw_has_dir := d\<rparr>)" for t d by (rule p [OF _ _ \<open>P w\<close>]) simp_all
  show "P (w\<lparr>cw_archives := a\<rparr>)" for a by (rule p [OF _ _ \<open>P w\<close>]) simp_all
  show "P (w\<lparr>cw_unpacked := u\<rparr>)" for u by (rule p [OF _ _ \<open>P w\<close>]) simp_all
qed

lemma lasting_core: "lasting (core_is x)" "lasting (core_new env cfg rel)" "lasting (core_safe env cfg rel f)"
  by (rule lastingI, simp add: core_is_def core_new_def core_safe_def)+

lemma lasting_pair: "lasting (\<lambda>w. core_new env cfg rel w \<and> backup_is b f w)"
  by (rule lastingI) (simp add: core_is_def core_new_def backup_is_def backup_files_def)

lemma cleanup_keeps: "lasting P \<Longrightarrow> invar P (cleanup_paths a d)"
  unfolding cleanup_paths_def remove_unpacked_def
  by (intro invar_rules invar_remove_archive io_triple_updating lasting_quiet; (assumption | simp add: lasting_def)?)

lemma rollback_triple:
  "io_triple (\<lambda>w. core_new env cfg rel w \<and> backup_is b f w) (handle_rollback env cfg b v) (\<lambda>_. core_is (Some (executable f))) (core_safe env cfg rel f)"
proof -
  have e: "io_triple P (thenE (csend env t) (failE err)) Q R" if "lasting P" "\<And>w. P w \<Longrightarrow> R w" for P Q R t err
    by (rule io_triple_then [OF io_triple_error [OF invar_csend] io_triple_fail]) (use that in \<open>auto intro: lasting_quiet\<close>)
  have d: "io_triple P (thenE (csend env t) (retE ())) (\<lambda>_. P) R" if "lasting P" "\<And>w. P w \<Longrightarrow> R w" for P R t
    by (rule io_triple_then [OF io_triple_error [OF invar_csend] io_triple_ret]) (use that in \<open>auto intro: lasting_quiet\<close>)
  have s: "core_safe env cfg rel f w" if "core_is (Some (executable f)) w" for w using that by (simp add: core_safe_def)
  show ?thesis
    unfolding handle_rollback_def
    by (rule io_triple_then [OF io_triple_ignore [OF invar_cedit [OF lasting_quiet(2) [OF lasting_pair]]]
          io_triple_catch [OF restore_triple]]) (auto intro!: e d lasting_core s)
qed

lemma watch_triple:
  "io_triple (\<lambda>w. core_new env cfg rel w \<and> backup_is b f w) (watch_and_finish env cfg rel a d b p)
     (\<lambda>_. core_safe env cfg rel f) (core_safe env cfg rel f)"
proof -
  let ?I = "\<lambda>w. core_new env cfg rel w \<and> backup_is b f w" and ?S = "core_safe env cfg rel f"
  note st = lasting_quiet(2) [OF lasting_pair]
  have k: "io_triple ?I m (\<lambda>_. ?I) ?S" if "invar ?I m" for m :: "(core_world, 'x) io"
    by (rule io_triple_weaken [OF that]) (auto simp: core_safe_def)
  have roll: "io_triple ?I (catchE (handle_rollback env cfg b v) (\<lambda>result.
      thenE (cleanup_paths a d) (case result of Inr _ \<Rightarrow> retE () | Inl e \<Rightarrow> failE e))) (\<lambda>_. ?S) ?S" for v
    by (rule io_triple_catch [OF io_triple_weaken [OF rollback_triple, where Q' = "\<lambda>_. ?S" and E' = ?S]])
       (auto simp: core_safe_def [of env cfg rel f] intro!: io_triple_then [OF cleanup_keeps [OF lasting_core(3)]] io_triple_ret io_triple_fail)
  have fin: "io_triple ?I
      (thenE (cleanup_paths a d) (thenE (csend env t) (retE ()))) (\<lambda>_. ?S) ?S" for t
    by (rule io_triple_then [OF k [OF cleanup_keeps [OF lasting_pair]] io_triple_then [OF k [OF invar_csend [OF st]] io_triple_ret]])
       (auto simp: core_safe_def)
  show ?thesis
    unfolding watch_and_finish_def
    by (intro io_triple_then [OF k] io_triple_bind [OF k] kept invar_ignore st io_triple_if roll fin)
qed

lemma backup_and_replace_triple:
  "io_triple (\<lambda>w. core_is (Some f) w \<and> unpacked_genuine env cfg rel d w) (backup_and_replace env cfg rel a d)
     (\<lambda>_. core_safe env cfg rel f) (core_safe env cfg rel f)"
proof -
  let ?S = "core_safe env cfg rel f"
  have old: "?S w" if "core_is (Some f) w" for w using that by (simp add: core_safe_def)
  have new: "?S w" if "core_new env cfg rel w" for w using that by (simp add: core_safe_def)
  have I: "stable (\<lambda>w. core_is (Some f) w \<and> unpacked_genuine env cfg rel d w)" by (intro stable_conj stable_core stable_unpacked)
  have J: "stable (\<lambda>w. core_is (Some f) w \<and> unpacked_genuine env cfg rel d w \<and> backup_is b f w)" for b
    by (intro stable_conj stable_core stable_unpacked stable_backup)
  have prune: "io_triple (\<lambda>w. core_is (Some f) w \<and> unpacked_genuine env cfg rel d w \<and> backup_is b f w)
      (catchE (prune_backups cfg BACKUP_KEEP) (\<lambda>r. retE (case r of Inr p \<Rightarrow> p | Inl _ \<Rightarrow> [])))
      (\<lambda>_ w. core_is (Some f) w \<and> unpacked_genuine env cfg rel d w \<and> backup_is b f w) ?S" for b
    by (rule io_triple_catch [OF prune_keeps [OF stable_unpacked unpacked_backups]]) (auto intro: io_triple_ret)
  show ?thesis
    unfolding backup_and_replace_def
    by (intro io_triple_then [OF io_triple_ignore [OF invar_cedit [OF I]]] io_triple_bind [OF io_triple_error [OF backup_triple [OF stable_unpacked unpacked_backups]]]
          io_triple_bind [OF prune]
          io_triple_then [OF io_triple_ignore [OF invar_cedit [OF J]]] io_triple_then [OF io_triple_error [OF replace_triple]]
          io_triple_then [OF io_triple_ignore [OF invar_cedit [OF lasting_quiet(2) [OF lasting_pair]]]] watch_triple)
       (auto simp: old)
qed

lemma lasting_fresh: "quiet (\<lambda>w. core_is f w \<and> fresh_unpack env cfg w)"
  by (simp add: quiet_def stable_def core_is_def fresh_unpack_def)

lemma download_and_check_triple:
  "io_triple (\<lambda>w. core_is (Some f) w \<and> fresh_unpack env cfg w) (download_and_check env cfg rel)
     (\<lambda>_. core_safe env cfg rel f) (core_safe env cfg rel f)"
proof -
  let ?S = "core_safe env cfg rel f" and ?U = "\<lambda>d w. core_is (Some f) w \<and> unpacked_genuine env cfg rel d w"
  have old: "?S w" if "core_is (Some f) w" for w using that by (simp add: core_safe_def)
  have arch: "stable (\<lambda>w. (core_is (Some f) w \<and> fresh_unpack env cfg w)
      \<and> (\<exists>data. cw_archives w t = Some data \<and> vouched env cfg rel data))" for t
    by (simp add: stable_def core_is_def fresh_unpack_def)
  have I: "stable (?U d)" for d by (intro stable_conj stable_core stable_unpacked)
  have refuse: "io_triple (?U d) (thenE (cleanup_paths a d) (thenE (ignoreE (cedit t)) (thenE (csend env t) (failE m))))
      (\<lambda>_ :: unit. ?S) ?S" for a d t m
  proof -
    have "invar (core_is (Some f)) (thenE (cleanup_paths a d) (thenE (ignoreE (cedit t)) (thenE (csend env t) (failE m :: (core_world, unit) io))))"
      by (intro invar_then cleanup_keeps invar_ignore kept invar_fail stable_core lasting_core)
    then show ?thesis by (rule io_triple_weaken) (auto simp: old)
  qed
  have outcome: "io_triple (?U d) (case oc of
        Passed \<Rightarrow> thenE (ignoreE (cedit x)) (backup_and_replace env cfg rel a d)
      | Unsupported \<Rightarrow> thenE (ignoreE (cedit y)) (backup_and_replace env cfg rel a d)
      | Invalid reason \<Rightarrow> thenE (cleanup_paths a d) (let t = z reason in thenE (ignoreE (cedit t)) (thenE (csend env t) (failE m))))
      (\<lambda>_. ?S) ?S" for oc x y z a d m
    by (cases oc) (auto simp: Let_def intro!: refuse io_triple_then [OF io_triple_ignore [OF invar_cedit [OF I]] backup_and_replace_triple])
  show ?thesis
    unfolding download_and_check_def
    by (intro io_triple_then [OF io_triple_ignore [OF invar_cedit [OF quiet_stable [OF lasting_fresh]]]]
          io_triple_bind [OF io_triple_error [OF download_triple [OF lasting_fresh]]]
          io_triple_then [OF io_triple_ignore [OF invar_cedit [OF arch]]] io_triple_bind [OF io_triple_error [OF extract_triple]]
          io_triple_then [OF io_triple_ignore [OF invar_attempt [OF I]]] io_triple_bind [OF io_triple_error [OF invar_preflight [OF I]]] outcome)
       (auto simp: old)
qed

lemma validate_none: "cw_install w ''wwps-core'' = None \<Longrightarrow> \<exists>e. validate_host cfg w = (Inl e, w)"
  by (auto simp: validate_host_def io_simps looking_def)

text \<open>The releases a run may install: what the release service answered for the tag.\<close>

definition offered_release :: "('k, 's) core_env \<Rightarrow> upgrade_config \<Rightarrow> string option \<Rightarrow> core_release_info \<Rightarrow> bool" where
  "offered_release env cfg tag rel \<longleftrightarrow> (\<exists>w1 w2. fetch_release env cfg tag w1 = (Inr rel, w2))"

definition run_safe :: "('k, 's) core_env \<Rightarrow> upgrade_config \<Rightarrow> string option \<Rightarrow> core_file \<Rightarrow> core_world \<Rightarrow> bool" where
  "run_safe env cfg tag f w \<longleftrightarrow> core_is (Some f) w \<or> (\<exists>rel. offered_release env cfg tag rel \<and> core_safe env cfg rel f w)"

lemma run_triple:
  assumes "from_env env = Inr cfg"
  shows "io_triple (\<lambda>w. core_is (Some f) w \<and> fresh_unpack env cfg w) (run_upgrade env tag)
    (\<lambda>_. run_safe env cfg tag f) (run_safe env cfg tag f)"
proof -
  let ?I = "\<lambda>w. core_is (Some f) w \<and> fresh_unpack env cfg w" and ?S = "run_safe env cfg tag f"
  note st = quiet_stable [OF lasting_fresh]
  have old: "?S w" if "?I w" for w using that by (simp add: run_safe_def)
  have k: "io_triple ?I m (\<lambda>_. ?I) ?S" if "invar ?I m" for m :: "(core_world, 'x) io"
    by (rule io_triple_error [OF that]) (rule old)
  have fetch: "io_triple ?I (fetch_release env cfg tag) (\<lambda>rel w. offered_release env cfg tag rel \<and> ?I w) ?S"
    by (rule io_triple_value [OF k [OF invar_fetch [OF st]]]) (auto simp: offered_release_def)
  have dl: "io_triple (\<lambda>w. offered_release env cfg tag rel \<and> ?I w) (download_and_check env cfg rel) (\<lambda>_. ?S) ?S" for rel
  proof (cases "offered_release env cfg tag rel")
    case True
    then show ?thesis by (intro io_triple_weaken [OF download_and_check_triple [of f env cfg rel]]) (auto simp: run_safe_def)
  qed (simp add: io_triple_def)
  have off: "stable (\<lambda>w. offered_release env cfg tag rel \<and> ?I w)" for rel by (simp add: stable_def core_is_def fresh_unpack_def)
  have same: "io_triple (\<lambda>w. offered_release env cfg tag rel \<and> ?I w) (cedit t) (\<lambda>_. ?S) ?S" for rel t
    by (rule io_triple_weaken [OF invar_cedit [OF off]]) (auto intro: old)
  have version: "io_triple (\<lambda>w. offered_release env cfg tag rel \<and> ?I w) (current_version env cfg) (\<lambda>_ w. offered_release env cfg tag rel \<and> ?I w) ?S" for rel
    by (rule io_triple_error [OF invar_version [OF off]]) (auto intro: old)
  have decide: "io_triple (\<lambda>w. offered_release env cfg tag rel \<and> ?I w) (case loc of
       Some l \<Rightarrow> if is_same_version l (ri_tag_name rel) then cedit (ue_tr env ''upgrade.core_already_latest'' [l, ri_tag_name rel])
                 else download_and_check env cfg rel
     | None \<Rightarrow> download_and_check env cfg rel) (\<lambda>_. ?S) ?S" for rel loc
    using dl same by (cases loc) auto
  show ?thesis
    unfolding run_upgrade_def assms sum.case
    by (intro io_triple_then [OF k] kept st invar_attempt invar_ignore io_triple_bind [OF fetch] io_triple_bind [OF version] decide)
qed

text \<open>C5: Whatever fails during an upgrade of the proxy core - network, disk, commands, the chat - the installed
  core afterwards is the one from before (at most with its mode set to 0755), or the core of a package that
  was checked: its SHA-256 is the one the release service gave for the release, and when the release has a
  signature, a key that is neither retired nor expired signed the package together with exactly this tag and
  this file name. No run leaves a torn or unchecked core, and none leaves no core.\<close>

theorem upgraded_core_genuine:
  assumes "from_env env = Inr cfg" "\<forall>n. cw_unpacked w (unpack_name cfg (ue_unix env n)) = None"
  shows "cw_install (snd (run_upgrade env tag w)) ''wwps-core'' = cw_install w ''wwps-core''
    \<or> (\<exists>f. cw_install w ''wwps-core'' = Some f
        \<and> cw_install (snd (run_upgrade env tag w)) ''wwps-core'' = Some (f\<lparr>cf_mode := 493\<rparr>))
    \<or> (\<exists>rel w1 w2 data files f. fetch_release env cfg tag w1 = (Inr rel, w2) \<and> vouched env cfg rel data
        \<and> ue_unzip env data = Inr files \<and> files ''xray'' = Some f
        \<and> cw_install (snd (run_upgrade env tag w)) ''wwps-core'' = Some (f\<lparr>cf_mode := 493\<rparr>))"
proof (cases "cw_install w ''wwps-core''")
  case None
  then have "cw_install (snd (run_upgrade env tag w)) ''wwps-core'' = None"
    using validate_none [of "log_effect (SendMsg (ue_tr env ''upgrade.core_checking'' [])) w" cfg]
    by (auto simp: run_upgrade_def assms(1) io_simps csend_def try_effect_def split: option.splits)
  with None show ?thesis by simp
next
  case (Some f)
  then have "core_is (Some f) w \<and> fresh_unpack env cfg w"
    using assms(2) by (simp add: core_is_def fresh_unpack_def)
  from io_triple_end [OF run_triple [OF assms(1)] this, of tag] Some show ?thesis
    unfolding run_safe_def core_safe_def core_new_def genuine_def offered_release_def core_is_def executable_def
    by (elim disjE exE conjE) (simp, simp, simp, blast)
qed

section \<open>The configuration check\<close>

lemma run_upgrade_keeps:
  assumes st: "stable P" and dc: "\<And>cfg rel. invar P (download_and_check env cfg rel)"
  shows "invar P (run_upgrade env tag)"
proof -
  have decide: "invar P (case loc of
       Some l \<Rightarrow> if is_same_version l (ri_tag_name rel) then cedit (ue_tr env ''upgrade.core_already_latest'' [l, ri_tag_name rel])
                 else download_and_check env cfg rel
     | None \<Rightarrow> download_and_check env cfg rel)" for cfg rel loc
    using dc invar_cedit [OF st] by (cases loc) auto
  show ?thesis
    unfolding run_upgrade_def
    by (cases "from_env env"; simp only: sum.case; intro invar_then [OF invar_csend [OF st]] invar_fail
        invar_then [OF invar_validate [OF st]] invar_then [OF invar_attempt [OF st]]
        invar_then [OF invar_ignore [OF invar_cedit [OF st]]]
        invar_bind [OF invar_fetch [OF st]] invar_bind [OF invar_version [OF st]] decide)
qed

lemma invar_extract: "lasting P \<Longrightarrow> invar P (extract_archive env cfg t)"
  unfolding extract_archive_def Let_def
  by (auto split: option.split sum.split prod.split intro!: invar_rules io_triple_updating lasting_quiet(2) simp: lasting_def)

lemma invar_download: "lasting P \<Longrightarrow> invar P (download_release env cfg rel rp)"
  by (rule io_triple_weaken [OF download_triple]) (auto intro: lasting_quiet)


section \<open>Rollback\<close>

lemma restore_installs:
  assumes "restore_backup env cfg b w = (Inr (), w')"
  shows "\<exists>f. backup_files b w ''wwps-core'' = Some f \<and> cw_install w' ''wwps-core'' = Some (executable f)"
proof -
  obtain f v where f: "backup_files b w ''wwps-core'' = Some f"
    "install_binary_from (path_join b ''wwps-core'') (Some f) ''wwps-core'' w = (Inr (), v)"
    and rest: "thenE (restore_geo b geo_files) (thenE (restart_core_service env cfg) (thenE (verify_service_active env cfg)
      (bindE (wait_for_health env (service_unit cfg)) (\<lambda>verdict.
        if should_rollback verdict then failE ''not healthy after the rollback'' else retE ())))) v = (Inr (), w')"
    using assms by (auto simp: restore_backup_def bindE_apply thenE_apply looking_def split: if_splits prod.splits sum.splits)
  have "core_is (Some (executable f)) v" using install_binary_cases(1) [OF f(2)] by (simp add: core_is_def)
  moreover have "invar (core_is (Some (executable f))) (thenE (restore_geo b geo_files) (thenE (restart_core_service env cfg)
      (thenE (verify_service_active env cfg) (bindE (wait_for_health env (service_unit cfg)) (\<lambda>verdict.
        if should_rollback verdict then failE ''not healthy after the rollback'' else retE ())))))"
    by (intro invar_then invar_bind restore_geo_core kept stable_core invar_if invar_ret invar_fail)
  ultimately have "core_is (Some (executable f)) w'" using rest by (auto dest: io_tripleD)
  with f(1) show ?thesis by (simp add: core_is_def)
qed

section \<open>A sample host\<close>

definition sample_core :: core_file where
  "sample_core = \<lparr>cf_data = ''old core'', cf_mode = 493\<rparr>"

definition sample_package :: "string \<Rightarrow> core_file option" where
  "sample_package x = (if x = ''xray'' then Some \<lparr>cf_data = ''new core'', cf_mode = 420\<rparr> else None)"

definition sample_asset :: release_asset where
  "sample_asset = \<lparr>ra_name = ''Xray-linux-64.zip'', browser_download_url = ''u'', ra_url = [], ra_size = None,
     ra_digest = Some (''sha256:'' @ replicate 64 (CHR ''a''))\<rparr>"

definition sample_core_env :: "(nat \<Rightarrow> string \<Rightarrow> string list \<Rightarrow> cmd_answer) \<Rightarrow> (unit, unit) core_env" where
  "sample_core_env cmd =
     \<lparr>ue_var = (\<lambda>_. None), ue_arch = ''x86_64'', ue_tr = (\<lambda>k _. k), ue_msg_id = ''m'',
      ue_release = (\<lambda>_ _. Inl ''no tag''),
      ue_releases = (\<lambda>_ _. Inr [\<lparr>rr_tag_name = ''v2'', rr_body = None, rr_assets = [sample_asset], prerelease = True\<rparr>]),
      ue_text = (\<lambda>_ _. Inl ''404''), ue_chunks = (\<lambda>_ _. Inr [Inr ''pack'', Inr ''age'']), ue_sig = (\<lambda>_ _. Inl ''404''),
      ue_sha256 = (\<lambda>d. replicate 64 (if d = ''package'' then CHR ''a'' else CHR ''b'')),
      ue_minisign = \<lparr>sig_decode = (\<lambda>_. Inl ''bad''), key_from_base64 = (\<lambda>_. None), key_verify = (\<lambda>_ _ _. False),
        sig_trusted_comment = (\<lambda>_. [])\<rparr>,
      ue_unzip = (\<lambda>d. if d = ''package'' then Inr sample_package else Inl ''bad zip''),
      ue_cmd = cmd, ue_unix = int, ue_stamp = (\<lambda>_. ''20260101000000''), ue_today = (\<lambda>_. ''2026-01-01''),
      ue_report = (\<lambda>_. False), ue_progress = (\<lambda>_. []), ue_size_text = (\<lambda>_. [])\<rparr>"

definition sample_host :: "(nat \<Rightarrow> string option) \<Rightarrow> (string \<times> (string \<Rightarrow> core_file option) option) list \<Rightarrow> core_world" where
  "sample_host fault backups =
     \<lparr>cw_install = [''wwps-core'' \<mapsto> sample_core, ''geoip.dat'' \<mapsto> \<lparr>cf_data = ''geo data'', cf_mode = 420\<rparr>],
      cw_backups = backups, cw_archives = Map.empty, cw_unpacked = Map.empty, cw_has_dir = (\<lambda>_. True), cw_trace = [],
      cw_fault = fault, cw_left = (\<lambda>_. Some \<lparr>cf_data = ''geo'', cf_mode = 420\<rparr>), cw_kept = (\<lambda>_ _. False)\<rparr>"

text \<open>A service whose commands all succeed, with the given answers to \<open>restart\<close> and \<open>is-active\<close>.\<close>

definition sample_cmd :: "(nat \<Rightarrow> bool) \<Rightarrow> (nat \<Rightarrow> bool) \<Rightarrow> nat \<Rightarrow> string \<Rightarrow> string list \<Rightarrow> cmd_answer" where
  "sample_cmd restart active n program args =
     Inr (if hd args = ''restart'' then restart n else if hd args = ''is-active'' then active n else True, ''0'', [])"

definition sample_config :: upgrade_config where
  "sample_config = \<lparr>uc_owner = ''XTLS'', uc_repo = ''Xray-core'', uc_service_name = ''wwps-core'',
     uc_install_dir = ''/etc/wwps/wwps-core'', uc_backup_dir = ''/etc/wwps/wwps-core/backup'',
     uc_temp_dir = ''/tmp/wwps-core-upgrade'', uc_arch = Amd64\<rparr>"

lemma sample_from_env: "from_env (sample_core_env cmd) = Inr sample_config"
  by (simp add: from_env_def sample_core_env_def sample_config_def from_arch_str_def var_or_def path_join_def)

theorem upgraded_core_genuine_witness:
  "from_env (sample_core_env (sample_cmd (\<lambda>_. True) (\<lambda>_. True))) = Inr sample_config
   \<and> (\<forall>n. cw_unpacked (sample_host (\<lambda>_. None) []) (unpack_name sample_config n) = None)
   \<and> (\<exists>f. cw_install (snd (run_upgrade (sample_core_env (sample_cmd (\<lambda>_. True) (\<lambda>_. True))) None (sample_host (\<lambda>_. None) [])))
        ''wwps-core'' = Some f)"
proof -
  have h: "\<forall>n. cw_unpacked (sample_host (\<lambda>_. None) []) (unpack_name sample_config n) = None"
    by (simp add: sample_host_def)
  have c: "cw_install (sample_host (\<lambda>_. None) []) ''wwps-core'' = Some sample_core" by (simp add: sample_host_def)
  show ?thesis
    using upgraded_core_genuine [OF sample_from_env [of "sample_cmd (\<lambda>_. True) (\<lambda>_. True)"], of "sample_host (\<lambda>_. None) []" None]
      h c sample_from_env by auto
qed

lemma sample_refuses:
  "run_config_preflight (ue_cmd (sample_core_env (\<lambda>_ _ _. Inr (False, [], ''bad config''))) n bin args) = Inr (Invalid (summarize_preflight_failure [] ''bad config''))"
  by (simp add: sample_core_env_def run_config_preflight_def is_preflight_unsupported_def Let_def preflight_markers_def
      to_ascii_lowercase_def ascii_lower_def)


text \<open>The trace of a short run by evaluation.\<close>

lemmas upgrade_eval = io_simps ignoreE_def try_effect_def answered_def reading_def looking_def updating_def log_effect_def copy_to_def
  put_install_def put_backup_def backup_files_def create_dir_def set_mode_def rename_install_def install_binary_from_def
  install_data_file_def core_cmd_def systemctl_def restart_core_service_def verify_service_active_def

end
