(* ===== verification/CoreRollback.thy ===== *)
theory CoreRollback
  imports CoreUpgradeSafe
begin

text \<open>
  The second line of defence of the core upgrade in detail: what the sampling of the service detects,
  which backups pruning keeps, and three runs in which the defence does not hold: a restart that fails
  skips the rollback, a clock set back loses the backup of the run, and a copy that failed while the backup was
  made ends up in the install directory.
\<close>

section \<open>Sampling\<close>

lemma classify_cases:
  "classify_samples ss =
     (if ss = [] then Unknown
      else if list_ex (\<lambda>s. \<not> hs_active s) ss then Inactive
      else if length (List.map_filter hs_restarts ss) \<ge> 2
              \<and> last (List.map_filter hs_restarts ss) > hd (List.map_filter hs_restarts ss) then CrashLooping
      else Healthy)"
proof -
  have "list_ex (\<lambda>s. \<not> hs_active s) ss" if "ss \<noteq> []" "list_all (\<lambda>s. \<not> hs_active s) ss"
    using that by (cases ss) auto
  then show ?thesis by (auto simp: classify_samples_def Let_def)
qed

lemma sorted_ends:
  assumes "sorted xs" "i < j" "j < length xs" "xs ! i \<noteq> (xs ! j :: nat)"
  shows "length xs \<ge> 2 \<and> hd xs < last xs"
proof -
  have ne: "xs \<noteq> []" using assms(3) by auto
  have "hd xs \<le> xs ! i" using assms(1-3) ne by (simp add: hd_conv_nth sorted_nth_mono)
  moreover have "xs ! i < xs ! j" using assms sorted_nth_mono [of xs i j] by simp
  moreover have "xs ! j \<le> last xs" using assms(1,3) ne by (simp add: last_conv_nth sorted_nth_mono)
  ultimately show ?thesis using assms(2,3) by linarith
qed

lemma verdict_exact_facts:
  assumes "sorted (List.map_filter hs_restarts ss)"
  shows "classify_samples ss = Unknown \<longleftrightarrow> ss = []"
    and "classify_samples ss = Inactive \<longleftrightarrow> (\<exists>s \<in> set ss. \<not> hs_active s)"
    and "classify_samples ss = CrashLooping \<longleftrightarrow> (\<forall>s \<in> set ss. hs_active s)
           \<and> (\<exists>a \<in> set ss. \<exists>b \<in> set ss. \<exists>m n. hs_restarts a = Some m \<and> hs_restarts b = Some n \<and> m \<noteq> n)"
    and "should_rollback (classify_samples ss) \<longleftrightarrow> classify_samples ss \<notin> {Healthy, Unknown}"
proof -
  let ?r = "List.map_filter hs_restarts ss"
  have rset: "x \<in> set ?r \<longleftrightarrow> (\<exists>s \<in> set ss. hs_restarts s = Some x)" for x
    by (induction ss) (auto simp: List.map_filter_simps split: option.splits)
  have two: "length ?r \<ge> 2 \<and> hd ?r < last ?r \<longleftrightarrow> (\<exists>m \<in> set ?r. \<exists>n \<in> set ?r. m \<noteq> n)"
  proof
    assume "length ?r \<ge> 2 \<and> hd ?r < last ?r"
    moreover then have "?r \<noteq> []" by auto
    ultimately show "\<exists>m \<in> set ?r. \<exists>n \<in> set ?r. m \<noteq> n"
      by (intro bexI [of _ "hd ?r"] bexI [of _ "last ?r"]) auto
  next
    assume "\<exists>m \<in> set ?r. \<exists>n \<in> set ?r. m \<noteq> n"
    then obtain i j where "i < length ?r" "j < length ?r" "?r ! i \<noteq> ?r ! j" by (metis in_set_conv_nth)
    then show "length ?r \<ge> 2 \<and> hd ?r < last ?r"
      using sorted_ends [OF assms, of i j] sorted_ends [OF assms, of j i] by (metis linorder_neqE_nat)
  qed
  show "classify_samples ss = Unknown \<longleftrightarrow> ss = []" by (simp add: classify_cases)
  show "classify_samples ss = Inactive \<longleftrightarrow> (\<exists>s \<in> set ss. \<not> hs_active s)"
    by (auto simp: classify_cases list_ex_iff)
  have differ: "(\<exists>m \<in> set ?r. \<exists>n \<in> set ?r. m \<noteq> n) \<longleftrightarrow>
      (\<exists>a \<in> set ss. \<exists>b \<in> set ss. \<exists>m n. hs_restarts a = Some m \<and> hs_restarts b = Some n \<and> m \<noteq> n)"
    unfolding rset Bex_def by blast
  show "classify_samples ss = CrashLooping \<longleftrightarrow> (\<forall>s \<in> set ss. hs_active s)
           \<and> (\<exists>a \<in> set ss. \<exists>b \<in> set ss. \<exists>m n. hs_restarts a = Some m \<and> hs_restarts b = Some n \<and> m \<noteq> n)"
    unfolding classify_cases two differ by (auto simp: list_ex_iff)
  show "should_rollback (classify_samples ss) \<longleftrightarrow> classify_samples ss \<notin> {Healthy, Unknown}"
    by (cases "classify_samples ss") (simp_all add: should_rollback_def)
qed

text \<open>Also: The verdict over the observation window. The restart counter of a unit never decreases while it is
  watched; then a window of samples is healthy exactly when every sample was active and no two readings of
  the counter differ, it counts as a crash loop exactly when every sample was active and two readings differ,
  one inactive sample makes it inactive, and only an empty window is unknown. A rollback follows exactly in
  the two bad cases.\<close>

theorem verdict_exact:
  assumes "sorted (List.map_filter hs_restarts ss)"
  shows "(classify_samples ss = Unknown \<longleftrightarrow> ss = [])
    \<and> (classify_samples ss = Inactive \<longleftrightarrow> (\<exists>s \<in> set ss. \<not> hs_active s))
    \<and> (classify_samples ss = CrashLooping \<longleftrightarrow> (\<forall>s \<in> set ss. hs_active s)
           \<and> (\<exists>a \<in> set ss. \<exists>b \<in> set ss. \<exists>m n. hs_restarts a = Some m \<and> hs_restarts b = Some n \<and> m \<noteq> n))
    \<and> (should_rollback (classify_samples ss) \<longleftrightarrow> classify_samples ss \<notin> {Healthy, Unknown})"
  by (intro conjI verdict_exact_facts [OF assms])

definition sample_window :: "health_sample list" where
  "sample_window = [\<lparr>hs_active = True, hs_restarts = Some 0\<rparr>, \<lparr>hs_active = True, hs_restarts = None\<rparr>,
     \<lparr>hs_active = True, hs_restarts = Some 1\<rparr>]"

theorem verdict_exact_witness: "classify_samples sample_window = CrashLooping \<and> should_rollback (classify_samples sample_window)"
proof -
  have s: "sorted (List.map_filter hs_restarts sample_window)"
    by (simp add: sample_window_def List.map_filter_simps)
  have "classify_samples sample_window = CrashLooping"
    using verdict_exact [OF s] by (simp add: sample_window_def)
  with verdict_exact [OF s] show ?thesis by simp
qed

section \<open>Pruning\<close>

lemma directory_names_log [simp]: "directory_names (log_effect ef w) = directory_names w"
  by (simp add: directory_names_def)

lemma remove_backups_exact:
  "cw_fault w = (\<lambda>_. None) \<Longrightarrow> \<exists>t. remove_backups cfg bs w
     = (Inr bs, w\<lparr>cw_trace := t, cw_backups := filter (\<lambda>(n, _). n \<notin> set bs) (cw_backups w)\<rparr>)"
proof (induction bs arbitrary: w)
  case Nil
  show ?case by (rule exI [of _ "cw_trace w"]) (simp add: filter_True case_prod_beta)
next
  case (Cons b bs)
  let ?v = "w\<lparr>cw_trace := cw_trace w @ [RemovePath (path_join (uc_backup_dir cfg) b)], cw_backups := AList.delete b (cw_backups w)\<rparr>"
  obtain t where t: "remove_backups cfg bs ?v
     = (Inr bs, ?v\<lparr>cw_trace := t, cw_backups := filter (\<lambda>(n, _). n \<notin> set bs) (cw_backups ?v)\<rparr>)"
    using Cons.IH [of ?v] Cons.prems by auto
  have "remove_backups cfg (b # bs) w = (Inr (b # bs), w\<lparr>cw_trace := t,
      cw_backups := filter (\<lambda>(n, _). n \<notin> set bs) (AList.delete b (cw_backups w))\<rparr>)"
    using t Cons.prems by (simp add: io_simps looking_def try_effect_def updating_def log_effect_def)
  moreover have "filter (\<lambda>(n, _). n \<notin> set bs) (AList.delete b (cw_backups w)) = filter (\<lambda>(n, _). n \<notin> set (b # bs)) (cw_backups w)"
    by (auto simp: AList.delete_eq intro!: filter_cong)
  ultimately show ?case by auto
qed

lemma prune_keeps_newest_facts:
  assumes "cw_fault w = (\<lambda>_. None)" "cw_has_dir w (uc_backup_dir cfg)" "distinct (map fst (cw_backups w))"
    and "prune_backups cfg keep w = (r, w')"
  shows "filter (\<lambda>(n, d). d = None \<or> \<not> is_backup_name WWPS_CORE_DEFAULT_BACKUP_PREFIX n) (cw_backups w')
       = filter (\<lambda>(n, d). d = None \<or> \<not> is_backup_name WWPS_CORE_DEFAULT_BACKUP_PREFIX n) (cw_backups w)"
    and "length (filter (is_backup_name WWPS_CORE_DEFAULT_BACKUP_PREFIX) (directory_names w'))
       = min keep (length (filter (is_backup_name WWPS_CORE_DEFAULT_BACKUP_PREFIX) (directory_names w)))"
    and "\<forall>x \<in> set (directory_names w) - set (directory_names w'). \<forall>y \<in> set (directory_names w').
       is_backup_name WWPS_CORE_DEFAULT_BACKUP_PREFIX y \<longrightarrow> x \<le> y"
proof -
  let ?p = WWPS_CORE_DEFAULT_BACKUP_PREFIX
  let ?del = "select_backups_to_delete (directory_names w) ?p keep"
  have w': "cw_backups w' = filter (\<lambda>(n, _). n \<notin> set ?del) (cw_backups w)"
    using assms(1,2,4) remove_backups_exact [of "log_effect (ReadDir (uc_backup_dir cfg)) w" cfg ?del]
    by (auto simp: prune_backups_def io_simps looking_def try_effect_def directory_names_def)
  have names: "directory_names w' = filter (\<lambda>n. n \<notin> set ?del) (directory_names w)"
    unfolding directory_names_def w' by (simp add: filter_map o_def case_prod_beta conj_commute)
  have dd: "distinct (directory_names w)"
    unfolding directory_names_def using assms(3) by (rule distinct_map_filter)
  have del: "n \<in> set ?del \<Longrightarrow> n \<in> set (directory_names w) \<and> is_backup_name ?p n" for n
    using select_names [of "directory_names w" ?p keep] by blast
  have unique: "d' = d" if "(n, d) \<in> set (cw_backups w)" "(n, d') \<in> set (cw_backups w)" for n d d'
    using that assms(3) by (metis map_of_is_SomeI option.inject)
  have kept: "n \<notin> set ?del" if "(n, d) \<in> set (cw_backups w)" "d = None \<or> \<not> is_backup_name ?p n" for n d
    using that del [of n] unique by (fastforce simp: directory_names_def)
  show "filter (\<lambda>(n, d). d = None \<or> \<not> is_backup_name ?p n) (cw_backups w')
       = filter (\<lambda>(n, d). d = None \<or> \<not> is_backup_name ?p n) (cw_backups w)"
    unfolding w' filter_filter by (rule filter_cong) (use kept in auto)
  show "length (filter (is_backup_name ?p) (directory_names w')) = min keep (length (filter (is_backup_name ?p) (directory_names w)))"
    unfolding names filter_filter using select_count [OF dd, of ?p keep] by (simp add: conj_commute)
  show "\<forall>x \<in> set (directory_names w) - set (directory_names w'). \<forall>y \<in> set (directory_names w'). is_backup_name ?p y \<longrightarrow> x \<le> y"
    unfolding names using select_oldest [of _ "directory_names w" ?p keep] by auto
qed

text \<open>Also: Pruning without a failing removal leaves every entry that is not one of the upgrade's own backup
  directories as it is - other names, plain files - and of those directories exactly the most recent ones, as
  many as asked for; every one it removes has a name no greater than every one it keeps.\<close>

theorem prune_keeps_newest:
  assumes "cw_fault w = (\<lambda>_. None)" "cw_has_dir w (uc_backup_dir cfg)" "distinct (map fst (cw_backups w))"
    and "prune_backups cfg keep w = (r, w')"
  shows "(filter (\<lambda>(n, d). d = None \<or> \<not> is_backup_name WWPS_CORE_DEFAULT_BACKUP_PREFIX n) (cw_backups w')
       = filter (\<lambda>(n, d). d = None \<or> \<not> is_backup_name WWPS_CORE_DEFAULT_BACKUP_PREFIX n) (cw_backups w))
    \<and> (length (filter (is_backup_name WWPS_CORE_DEFAULT_BACKUP_PREFIX) (directory_names w'))
       = min keep (length (filter (is_backup_name WWPS_CORE_DEFAULT_BACKUP_PREFIX) (directory_names w))))
    \<and> (\<forall>x \<in> set (directory_names w) - set (directory_names w'). \<forall>y \<in> set (directory_names w').
       is_backup_name WWPS_CORE_DEFAULT_BACKUP_PREFIX y \<longrightarrow> x \<le> y)"
  by (intro conjI prune_keeps_newest_facts [OF assms])

definition sample_backups :: "(string \<times> (string \<Rightarrow> core_file option) option) list" where
  "sample_backups =
     [(''wwps-core-backup-20270101000000'', Some (\<lambda>_. None)), (''notes'', Some (\<lambda>_. None)),
      (''wwps-core-backup-20270301000000'', Some (\<lambda>_. None)), (''wwps-core-backup-20270201000000'', Some (\<lambda>_. None))]"

lemma prefix_strip: "strip_prefix p (p @ s) = Some s"
  by (simp add: strip_prefix_Some_iff)

lemma backup_name_stamp:
  "s \<noteq> [] \<Longrightarrow> list_all is_ascii_digit s \<Longrightarrow> is_backup_name WWPS_CORE_DEFAULT_BACKUP_PREFIX (''wwps-core-backup-'' @ s)"
  using prefix_strip [of "''wwps-core-backup''" "''-'' @ s"] prefix_strip [of "''-''" s]
  by (simp add: is_backup_name_def WWPS_CORE_DEFAULT_BACKUP_PREFIX_def)

lemma sample_names:
  "is_backup_name WWPS_CORE_DEFAULT_BACKUP_PREFIX ''wwps-core-backup-20270101000000''"
  "is_backup_name WWPS_CORE_DEFAULT_BACKUP_PREFIX ''wwps-core-backup-20270201000000''"
  "is_backup_name WWPS_CORE_DEFAULT_BACKUP_PREFIX ''wwps-core-backup-20270301000000''"
  "is_backup_name WWPS_CORE_DEFAULT_BACKUP_PREFIX ''wwps-core-backup-20260101000000''"
  "\<not> is_backup_name WWPS_CORE_DEFAULT_BACKUP_PREFIX ''notes''"
  using backup_name_stamp [of "''20270101000000''"] backup_name_stamp [of "''20270201000000''"]
    backup_name_stamp [of "''20270301000000''"] backup_name_stamp [of "''20260101000000''"]
  by (simp_all add: is_ascii_digit_def is_backup_name_def WWPS_CORE_DEFAULT_BACKUP_PREFIX_def strip_prefix_def)

lemma sample_prune_host:
  "cw_fault (sample_host (\<lambda>_. None) sample_backups) = (\<lambda>_. None)"
  "cw_has_dir (sample_host (\<lambda>_. None) sample_backups) (uc_backup_dir sample_config)"
  "distinct (map fst (cw_backups (sample_host (\<lambda>_. None) sample_backups)))"
  "directory_names (sample_host (\<lambda>_. None) sample_backups) =
     [''wwps-core-backup-20270101000000'', ''notes'', ''wwps-core-backup-20270301000000'', ''wwps-core-backup-20270201000000'']"
  by (simp_all add: sample_host_def sample_backups_def directory_names_def)

theorem prune_keeps_newest_witness:
  "length (filter (is_backup_name WWPS_CORE_DEFAULT_BACKUP_PREFIX)
     (directory_names (snd (prune_backups sample_config 2 (sample_host (\<lambda>_. None) sample_backups))))) = 2"
proof -
  obtain r w' where p: "prune_backups sample_config 2 (sample_host (\<lambda>_. None) sample_backups) = (r, w')" by fastforce
  from conjunct1 [OF conjunct2 [OF prune_keeps_newest [OF sample_prune_host(1-3) p]]] show ?thesis
    unfolding p sample_prune_host(4) by (simp add: sample_names)
qed

section \<open>Where the defence does not hold\<close>

abbreviation good_host :: "(unit, unit) core_env" where
  "good_host \<equiv> sample_core_env (sample_cmd (\<lambda>_. True) (\<lambda>_. True))"

lemma good_cmd: "core_cmd good_host p a w = (Inr (True, ''0'', []), log_effect (RunCmd p a) w)"
  by (simp add: core_cmd_def answered_def sample_core_env_def sample_cmd_def)

lemma zero_restarts: "parse_nrestarts ''0'' = Some 0"
  by (simp add: parse_nrestarts_def trim_plain plain_char_def parse_eval)

lemma good_samples:
  "\<exists>t. sample_health good_host u i n w = (Inr (replicate n \<lparr>hs_active = True, hs_restarts = Some 0\<rparr>), w\<lparr>cw_trace := t\<rparr>)"
proof (induction n arbitrary: i w)
  case 0
  show ?case by (rule exI [of _ "cw_trace w"]) simp
next
  case (Suc n)
  have pt: "probe good_host u v = (Inr \<lparr>hs_active = True, hs_restarts = Some 0\<rparr>, v\<lparr>cw_trace := cw_trace v
      @ [RunCmd ''systemctl'' [''is-active'', u], RunCmd ''systemctl'' [''show'', u, ''-p'', ''NRestarts'', ''--value'']]\<rparr>)" for v
    by (simp add: probe_def io_simps good_cmd probe_unit_def zero_restarts log_effect_def)
  obtain st where st: "\<And>v. sample_health good_host u (Suc i) n v = (Inr (replicate n \<lparr>hs_active = True, hs_restarts = Some 0\<rparr>), v\<lparr>cw_trace := st v\<rparr>)"
    using Suc.IH by metis
  from st have "\<exists>x. sample_health good_host u i (Suc n) w
      = (Inr (replicate (Suc n) \<lparr>hs_active = True, hs_restarts = Some 0\<rparr>), w\<lparr>cw_trace := st x\<rparr>)"
    by (cases "i = 0") (simp_all add: io_simps updating_def pt log_effect_def, (rule exI, rule refl)+)
  then show ?case by blast
qed

lemma good_health: "\<exists>t. wait_for_health good_host u w = (Inr Healthy, w\<lparr>cw_trace := t\<rparr>)"
  using good_samples [of u 0 HEALTH_SAMPLE_COUNT w]
  by (auto simp: wait_for_health_def io_simps classify_cases HEALTH_SAMPLE_COUNT_def numeral_eq_Suc List.map_filter_simps)

lemma restart_failure_keeps_new_core_facts:
  assumes "xray_in d w = Some f" "replace_core d w = (Inr (), w1)"
    and "fst (restart_core_service env cfg w1) = Inl e"
  shows "fst (watch_and_finish env cfg rel a d b p w1) = Inl e"
    and "cw_install (snd (watch_and_finish env cfg rel a d b p w1)) ''wwps-core'' = Some (f\<lparr>cf_mode := 493\<rparr>)"
    and "cw_trace (snd (watch_and_finish env cfg rel a d b p w1)) = cw_trace w1 @ [RunCmd ''systemctl'' [''restart'', service_unit cfg]]"
proof -
  have "install_binary_from (path_join d ''xray'') (Some f) ''wwps-core'' w = (Inr (), w1)"
    using assms(1,2) by (auto simp: replace_core_def io_simps looking_def xray_in_def split: if_splits)
  from install_binary_cases(1) [OF this] have new: "cw_install w1 ''wwps-core'' = Some (f\<lparr>cf_mode := 493\<rparr>)"
    by (simp add: executable_def)
  have snd: "snd (restart_core_service env cfg w1) = log_effect (RunCmd ''systemctl'' [''restart'', service_unit cfg]) w1"
    by (auto simp: restart_core_service_def systemctl_def core_cmd_def answered_def io_simps split: sum.split)
  have run: "watch_and_finish env cfg rel a d b p w1 = (Inl e, log_effect (RunCmd ''systemctl'' [''restart'', service_unit cfg]) w1)"
    using assms(3) snd by (cases "restart_core_service env cfg w1") (simp add: watch_and_finish_def thenE_apply)
  show "fst (watch_and_finish env cfg rel a d b p w1) = Inl e" by (simp add: run)
  show "cw_install (snd (watch_and_finish env cfg rel a d b p w1)) ''wwps-core'' = Some (f\<lparr>cf_mode := 493\<rparr>)" by (simp add: run new)
  show "cw_trace (snd (watch_and_finish env cfg rel a d b p w1)) = cw_trace w1 @ [RunCmd ''systemctl'' [''restart'', service_unit cfg]]"
    by (simp add: run)
qed

text \<open>Also: When the restart after the replacement fails, the upgrade ends with that error: the service is not
  watched, the backup is not restored, and the new core stays installed.\<close>

theorem restart_failure_keeps_new_core:
  assumes "xray_in d w = Some f" "replace_core d w = (Inr (), w1)"
    and "fst (restart_core_service env cfg w1) = Inl e"
  shows "(fst (watch_and_finish env cfg rel a d b p w1) = Inl e)
    \<and> (cw_install (snd (watch_and_finish env cfg rel a d b p w1)) ''wwps-core'' = Some (f\<lparr>cf_mode := 493\<rparr>))
    \<and> (cw_trace (snd (watch_and_finish env cfg rel a d b p w1)) = cw_trace w1 @ [RunCmd ''systemctl'' [''restart'', service_unit cfg]])"
  by (intro conjI restart_failure_keeps_new_core_facts [OF assms])

lemmas restore_service_eval = io_simps ignoreE_def try_effect_def looking_def updating_def copy_to_def set_mode_def rename_install_def
  install_binary_from_def install_data_file_def good_cmd systemctl_def restart_core_service_def verify_service_active_def

text \<open>Also: A clock that was set back loses the backup of this very run: with three backups of later names the
  pruning right after the backup deletes it, and a rollback then finds nothing to restore.\<close>

theorem backdated_backup_is_lost:
  "\<exists>env w0 b w1 r w2. backup_current_core env sample_config w0 = (Inr b, w1)
     \<and> prune_backups sample_config BACKUP_KEEP w1 = (r, w2) \<and> cw_fault w0 = (\<lambda>_. None)
     \<and> fst (restore_backup (env :: (unit, unit) core_env) sample_config b w2) = Inl ''no core in the backup''"
proof -
  let ?e = "sample_core_env (sample_cmd (\<lambda>_. True) (\<lambda>_. True))" and ?w = "sample_host (\<lambda>_. None) sample_backups"
  obtain w1 where b: "backup_current_core ?e sample_config ?w = (Inr ''wwps-core-backup-20260101000000'', w1)"
    and w1: "cw_fault w1 = (\<lambda>_. None)" "cw_has_dir w1 (uc_backup_dir sample_config)"
      "map fst (cw_backups w1) = map fst sample_backups @ [''wwps-core-backup-20260101000000'']"
      "directory_names w1 = map fst sample_backups @ [''wwps-core-backup-20260101000000'']"
    by (simp add: backup_current_core_def upgrade_eval sample_core_env_def sample_host_def sample_config_def sample_core_def Let_def
        path_join_def geo_files_def WWPS_CORE_DEFAULT_BACKUP_PREFIX_def sample_backups_def directory_names_def)
  obtain r w2 where p: "prune_backups sample_config BACKUP_KEEP w1 = (r, w2)" by fastforce
  have names: "filter (is_backup_name WWPS_CORE_DEFAULT_BACKUP_PREFIX) (directory_names w1) =
     [''wwps-core-backup-20270101000000'', ''wwps-core-backup-20270301000000'', ''wwps-core-backup-20270201000000'', ''wwps-core-backup-20260101000000'']"
    unfolding w1(4) by (simp add: sample_backups_def sample_names)
  have "sort [''wwps-core-backup-20270101000000'', ''wwps-core-backup-20270301000000'', ''wwps-core-backup-20270201000000'', ''wwps-core-backup-20260101000000'']
     = [''wwps-core-backup-20260101000000'', ''wwps-core-backup-20270101000000'', ''wwps-core-backup-20270201000000'', ''wwps-core-backup-20270301000000'']"
    by (simp add: sort_key_def insort_key.simps less_char_def less_eq_char_def)
  then have del: "select_backups_to_delete (directory_names w1) WWPS_CORE_DEFAULT_BACKUP_PREFIX BACKUP_KEEP = [''wwps-core-backup-20260101000000'']"
    unfolding select_take names by (simp add: BACKUP_KEEP_def)
  have "(r, w2) = remove_backups sample_config [''wwps-core-backup-20260101000000''] (log_effect (ReadDir (uc_backup_dir sample_config)) w1)"
    using w1(1,2) del by (simp add: prune_backups_def io_simps looking_def try_effect_def p [symmetric] del: remove_backups.simps)
  then obtain t where "w2 = log_effect (ReadDir (uc_backup_dir sample_config)) w1\<lparr>cw_trace := t,
      cw_backups := filter (\<lambda>(n, _). n \<notin> set [''wwps-core-backup-20260101000000'']) (cw_backups w1)\<rparr>"
    using remove_backups_exact [of "log_effect (ReadDir (uc_backup_dir sample_config)) w1" sample_config "[''wwps-core-backup-20260101000000'']"]
      w1(1) by auto
  then have "backup_files ''wwps-core-backup-20260101000000'' w2 = (\<lambda>_. None)"
    by (auto simp: backup_files_def split: option.splits dest: map_of_SomeD)
  then have "fst (restore_backup ?e sample_config ''wwps-core-backup-20260101000000'' w2) = Inl ''no core in the backup''"
    by (simp add: restore_backup_def io_simps looking_def)
  with b p show ?thesis by (metis sample_prune_host(1))
qed

text \<open>Also: A copy of a data file that failed while the backup was made is not noticed, although the core was
  copied: what the failed copy left is in the backup, and a successful rollback installs it over the intact
  file, which the upgrade itself never changes.\<close>

theorem rollback_damages_geo_data:
  "\<exists>env w0 b w1 w2. backup_current_core env sample_config w0 = (Inr b, w1)
     \<and> restore_backup (env :: (unit, unit) core_env) sample_config b w1 = (Inr (), w2)
     \<and> cw_install w1 ''geoip.dat'' = cw_install w0 ''geoip.dat'' \<and> cw_install w2 ''geoip.dat'' \<noteq> cw_install w0 ''geoip.dat''"
proof -
  let ?e = "sample_core_env (sample_cmd (\<lambda>_. True) (\<lambda>_. True))" and ?w = "sample_host (\<lambda>n. if n = 3 then Some ''disk full'' else None) []"
  obtain w1 where b: "backup_current_core ?e sample_config ?w = (Inr ''wwps-core-backup-20260101000000'', w1)"
    and w1: "cw_install w1 = cw_install ?w" "length (cw_trace w1) = 4" "cw_fault w1 = cw_fault ?w"
      "backup_files ''wwps-core-backup-20260101000000'' w1 = [''wwps-core'' \<mapsto> sample_core, ''geoip.dat'' \<mapsto> \<lparr>cf_data = ''geo'', cf_mode = 420\<rparr>]"
    by (simp add: backup_current_core_def upgrade_eval sample_core_env_def sample_host_def sample_config_def sample_core_def Let_def
        path_join_def geo_files_def WWPS_CORE_DEFAULT_BACKUP_PREFIX_def fun_eq_iff)
  obtain r w2 where r: "restore_backup ?e sample_config ''wwps-core-backup-20260101000000'' w1 = (r, w2)" by fastforce
  obtain g where g: "\<And>u w. wait_for_health good_host u w = (Inr Healthy, w\<lparr>cw_trace := g u w\<rparr>)"
    using good_health by metis
  have "\<exists>w2. restore_backup ?e sample_config ''wwps-core-backup-20260101000000'' w1 = (Inr (), w2)
      \<and> cw_install w2 ''geoip.dat'' = Some \<lparr>cf_data = ''geo'', cf_mode = 420\<rparr>"
    using w1 by (simp add: restore_backup_def restore_service_eval g geo_files_def sample_host_def should_rollback_def Let_def)
  with b w1(1) show ?thesis by (fastforce simp: sample_host_def)
qed

section \<open>What a rollback restores\<close>

text \<open>C13: A rollback that reports success has put back exactly the core that was installed when this upgrade made
  its backup - whatever pruning removed, whatever other backups there are - and made it executable.\<close>

theorem rollback_restores_core:
  assumes "backup_current_core env cfg w0 = (Inr b, w1)" "prune_backups cfg keep w1 = (r, w2)"
    and "replace_core d w2 = (Inr (), w3)" "restore_backup env cfg b w3 = (Inr (), w4)"
  shows "\<exists>f. cw_install w0 ''wwps-core'' = Some f \<and> cw_install w4 ''wwps-core'' = Some (f\<lparr>cf_mode := 493\<rparr>)"
proof (cases "cw_install w0 ''wwps-core''")
  case None
  then have "\<And>x y. backup_current_core env cfg w0 \<noteq> (Inr x, y)"
    by (auto simp: backup_current_core_def Let_def create_dir_def io_simps try_effect_def updating_def reading_def looking_def copy_to_def
        split: sum.splits option.splits)
  with assms(1) show ?thesis by blast
next
  case (Some f)
  have K: "stable (\<lambda>_. True)" by (simp add: stable_def)
  have 1: "core_is (Some f) w1 \<and> True \<and> backup_is b f w1"
    using io_tripleD [OF backup_triple [OF K] _ assms(1)] Some by (simp add: core_is_def)
  have 2: "core_is (Some f) w2 \<and> True \<and> backup_is b f w2"
    using io_triple_end [OF prune_keeps [OF K] 1, of cfg keep] assms(2) by simp
  obtain g where "install_binary_from (path_join d ''xray'') (Some g) ''wwps-core'' w2 = (Inr (), w3)"
    using assms(3) by (auto simp: replace_core_def io_simps looking_def split: if_splits)
  from install_binary_cases(2) [OF this] 2 have 3: "backup_is b f w3"
    using backup_files_eq [of w3 w2 b] by (simp add: backup_is_def)
  from restore_installs [OF assms(4)] 3 Some show ?thesis by (auto simp: backup_is_def executable_def)
qed

section \<open>Witnesses\<close>

definition sample_unpacked :: core_world where
  "sample_unpacked = sample_host (\<lambda>_. None) [] \<lparr>cw_unpacked := [''d'' \<mapsto> sample_package]\<rparr>"

lemmas sample_step = backup_current_core_def upgrade_eval sample_core_env_def sample_host_def sample_unpacked_def sample_config_def
  sample_core_def Let_def path_join_def geo_files_def WWPS_CORE_DEFAULT_BACKUP_PREFIX_def replace_core_def sample_package_def

theorem restart_failure_keeps_new_core_witness:
  "\<exists>w1 e. replace_core ''d'' sample_unpacked = (Inr (), w1)
     \<and> cw_install (snd (watch_and_finish (sample_core_env (sample_cmd (\<lambda>_. False) (\<lambda>_. True))) sample_config
          \<lparr>ri_tag_name = ''v2'', ri_download_url = ''u'', ri_sha256 = [], ri_size = None, ri_minisig_url = None\<rparr>
          ''a'' ''d'' ''b'' [] w1)) ''wwps-core'' = Some \<lparr>cf_data = ''new core'', cf_mode = 493\<rparr>"
proof -
  let ?e = "sample_core_env (sample_cmd (\<lambda>_. False) (\<lambda>_. True))"
  obtain w1 where r: "replace_core ''d'' sample_unpacked = (Inr (), w1)" by (simp add: sample_step)
  have x: "xray_in ''d'' sample_unpacked = Some \<lparr>cf_data = ''new core'', cf_mode = 420\<rparr>"
    by (simp add: xray_in_def sample_unpacked_def sample_package_def)
  have f: "fst (restart_core_service ?e sample_config w1) = Inl ''systemctl restart failed''"
    by (simp add: restart_core_service_def systemctl_def core_cmd_def answered_def io_simps sample_core_env_def sample_cmd_def)
  show ?thesis using r restart_failure_keeps_new_core [OF x r f] by auto
qed

theorem rollback_restores_core_witness:
  "\<exists>b w1 r w2 w3 w4. backup_current_core good_host sample_config sample_unpacked = (Inr b, w1)
     \<and> prune_backups sample_config BACKUP_KEEP w1 = (r, w2) \<and> replace_core ''d'' w2 = (Inr (), w3)
     \<and> cw_install w3 ''wwps-core'' \<noteq> cw_install sample_unpacked ''wwps-core''
     \<and> restore_backup good_host sample_config b w3 = (Inr (), w4)
     \<and> cw_install w4 ''wwps-core'' = cw_install sample_unpacked ''wwps-core''"
proof -
  let ?b = "''wwps-core-backup-20260101000000''"
  obtain w1 where b: "backup_current_core good_host sample_config sample_unpacked = (Inr ?b, w1)"
    and w1: "cw_fault w1 = (\<lambda>_. None)" "cw_has_dir w1 (uc_backup_dir sample_config)" "directory_names w1 = [?b]"
      "cw_unpacked w1 = [''d'' \<mapsto> sample_package]" "cw_install w1 = cw_install sample_unpacked"
      "backup_files ?b w1 = [''wwps-core'' \<mapsto> sample_core, ''geoip.dat'' \<mapsto> \<lparr>cf_data = ''geo data'', cf_mode = 420\<rparr>]"
    by (simp add: sample_step directory_names_def fun_eq_iff)
  have del: "select_backups_to_delete [?b] WWPS_CORE_DEFAULT_BACKUP_PREFIX BACKUP_KEEP = []"
    by (simp add: select_take BACKUP_KEEP_def)
  obtain w2 where p: "prune_backups sample_config BACKUP_KEEP w1 = (Inr [], w2)" and w2: "w2 = log_effect (ReadDir (uc_backup_dir sample_config)) w1"
    using w1 by (simp add: prune_backups_def io_simps looking_def try_effect_def del)
  obtain w3 where c: "replace_core ''d'' w2 = (Inr (), w3)"
    and w3: "cw_install w3 ''wwps-core'' = Some \<lparr>cf_data = ''new core'', cf_mode = 493\<rparr>" "cw_fault w3 = (\<lambda>_. None)"
      "backup_files ?b w3 = backup_files ?b w1"
    using w1 by (simp add: w2 replace_core_def restore_service_eval Let_def put_install_def sample_package_def backup_files_def)
  obtain g where g: "\<And>u w. wait_for_health good_host u w = (Inr Healthy, w\<lparr>cw_trace := g u w\<rparr>)"
    using good_health by metis
  obtain w4 where d: "restore_backup good_host sample_config ?b w3 = (Inr (), w4)"
    using w3 w1(6) by (simp add: restore_backup_def restore_service_eval g geo_files_def should_rollback_def Let_def)
  have old: "cw_install sample_unpacked ''wwps-core'' = Some sample_core" by (simp add: sample_unpacked_def sample_host_def)
  have "cw_install w4 ''wwps-core'' = Some sample_core"
    using rollback_restores_core [OF b p c d] old by (simp add: sample_core_def)
  moreover have "cw_install w3 ''wwps-core'' \<noteq> cw_install sample_unpacked ''wwps-core''"
    unfolding w3(1) old by (simp add: sample_core_def)
  ultimately show ?thesis using b p c d old by (intro exI conjI) simp_all
qed

end
