(* ===== verification/Warp.thy ===== *)
theory Warp
  imports Json Triples
begin

text \<open>
  WARP as an outbound of the proxy core: the verdicts of the two connectivity probes
  (\<open>core/network/warp_probe.rs\<close>), the choice of the engine and its cache (\<open>core/usque/engine.rs\<close>) and the routing
  file (\<open>core/xray/warp.rs\<close>).

  Files are values: what \<open>serde_json\<close> prints it also parses back, so a document is kept as the JSON value.
  Every effect is appended to a log; \<open>wp_bad n\<close> tells whether the \<open>n\<close>-th effect fails, and for a write what it leaves
  in the file. The monotonic clock is read at a position of the log.
\<close>

section \<open>Probes and engines\<close>

datatype udp_verdict = UdpAvailable | UdpBlocked | UdpProbeFailed
datatype tcp_verdict = AvailableH2 | OpenNoH2 | TcpBlocked
datatype probe_conclusion = WgUsable | TcpOnly | UdpOnly | FullyBlocked

definition from_verdicts :: "udp_verdict \<Rightarrow> tcp_verdict \<Rightarrow> probe_conclusion" where
  "from_verdicts udp tcp =
     (case (udp = UdpAvailable, tcp = AvailableH2) of
        (True, True) \<Rightarrow> WgUsable
      | (False, True) \<Rightarrow> TcpOnly
      | (True, False) \<Rightarrow> UdpOnly
      | (False, False) \<Rightarrow> FullyBlocked)"

record probe_report =
  pr_udp :: udp_verdict
  pr_tcp :: tcp_verdict
  pr_conclusion :: probe_conclusion

definition report_of :: "udp_verdict \<Rightarrow> tcp_verdict \<Rightarrow> probe_report" where
  "report_of udp tcp = \<lparr>pr_udp = udp, pr_tcp = tcp, pr_conclusion = from_verdicts udp tcp\<rparr>"

datatype egress = WireGuard | Masque | Direct

definition is_warp_enabled :: "egress \<Rightarrow> bool" where
  "is_warp_enabled e \<longleftrightarrow> e \<noteq> Direct"

fun egress_str :: "egress \<Rightarrow> string" where
  "egress_str WireGuard = ''wireguard''"
| "egress_str Masque = ''masque''"
| "egress_str Direct = ''direct''"

fun select_egress :: "probe_conclusion \<Rightarrow> egress" where
  "select_egress WgUsable = WireGuard"
| "select_egress UdpOnly = WireGuard"
| "select_egress TcpOnly = Masque"
| "select_egress FullyBlocked = Direct"

text \<open>Durations are nanoseconds.\<close>

definition CACHE_TTL :: nat where
  "CACHE_TTL = 600 * 1000000000"

type_synonym probe_cache = "(probe_report \<times> nat) option"

definition cache_store :: "probe_report \<Rightarrow> nat \<Rightarrow> probe_cache \<Rightarrow> probe_cache" where
  "cache_store r now c = Some (r, now)"

definition cache_get :: "nat \<Rightarrow> nat \<Rightarrow> probe_cache \<Rightarrow> probe_report option" where
  "cache_get now ttl c =
     (case c of
        None \<Rightarrow> None
      | Some (r, at) \<Rightarrow> if at \<le> now \<and> now - at < ttl then Some r else None)"

definition cache_clear :: "probe_cache \<Rightarrow> probe_cache" where
  "cache_clear c = None"

section \<open>Modes and scopes\<close>

datatype warp_mode = DefaultMode | PreferIPv4 | PreferIPv6

fun warp_mode_next :: "warp_mode \<Rightarrow> warp_mode" where
  "warp_mode_next DefaultMode = PreferIPv4"
| "warp_mode_next PreferIPv4 = PreferIPv6"
| "warp_mode_next PreferIPv6 = DefaultMode"

datatype warp_scope = DomainScope | GlobalScope

fun warp_scope_key :: "warp_scope \<Rightarrow> string" where
  "warp_scope_key DomainScope = ''warp.scope_domain''"
| "warp_scope_key GlobalScope = ''warp.scope_global''"

fun warp_scope_next :: "warp_scope \<Rightarrow> warp_scope" where
  "warp_scope_next DomainScope = GlobalScope"
| "warp_scope_next GlobalScope = DomainScope"

definition is_global :: "warp_scope \<Rightarrow> bool" where
  "is_global s \<longleftrightarrow> s = GlobalScope"

text \<open>\<open>serde\<close> with \<open>rename_all = snake_case\<close>; a unit variant is also read from an object with one \<open>null\<close> member.\<close>

fun scope_json :: "warp_scope \<Rightarrow> json" where
  "scope_json DomainScope = JStr ''domain''"
| "scope_json GlobalScope = JStr ''global''"

definition scope_named :: "string \<Rightarrow> warp_scope option" where
  "scope_named s = (if s = ''domain'' then Some DomainScope else if s = ''global'' then Some GlobalScope else None)"

fun scope_from_json :: "json \<Rightarrow> warp_scope option" where
  "scope_from_json (JStr s) = scope_named s"
| "scope_from_json (JObj [(k, JNull)]) = scope_named k"
| "scope_from_json _ = None"

section \<open>The host\<close>

datatype warp_file = Absent | Unreadable | Garbage | Doc json | Blob string

datatype warp_effect =
    WWrite string
  | WRemove string
  | WMkdir string
  | WRun string "string list"
  | WReload

datatype ran = NotRun string | RanWith bool string string \<comment> \<open>success, output, error output\<close>

record warp_world =
  wp_files :: "string \<Rightarrow> warp_file"
  wp_log :: "warp_effect list"
  wp_bad :: "nat \<Rightarrow> (string \<times> warp_file) option"
  wp_cache :: probe_cache
  wp_health :: "bool option"

record warp_env =
  we_now :: "nat \<Rightarrow> nat"
  we_exec :: "nat \<Rightarrow> string \<Rightarrow> string list \<Rightarrow> (string \<Rightarrow> warp_file) \<Rightarrow> ran \<times> (string \<Rightarrow> warp_file)"
  we_systemd :: bool \<comment> \<open>whether \<open>/run/systemd/system\<close> exists\<close>
  we_probe :: "udp_verdict \<times> tcp_verdict"
  we_register :: "string + json" \<comment> \<open>what the registration of a WireGuard account returns, printed\<close>
  we_register_scope :: warp_scope

type_synonym 'a wio = "(warp_world, 'a) io"

definition ACCOUNT_FILE :: string where "ACCOUNT_FILE = ''/etc/wwps/wwps-core/warp_account.json''"
definition ROUTING_FILE :: string where "ROUTING_FILE = ''/etc/wwps/wwps-core/conf/10_warp_routing.json''"
definition SOCKS_ADDR :: string where "SOCKS_ADDR = ''127.0.0.1''"
definition SOCKS_PORT :: nat where "SOCKS_PORT = 1080"

text \<open>An effect that fails or not; a failed write may leave anything in the file.\<close>

definition warp_step :: "warp_effect \<Rightarrow> (warp_world \<Rightarrow> warp_world) \<Rightarrow> (warp_file \<Rightarrow> warp_world \<Rightarrow> warp_world) \<Rightarrow> unit wio" where
  "warp_step ef good bad w =
     (case wp_bad w (length (wp_log w)) of
        None \<Rightarrow> (Inr (), (good w)\<lparr>wp_log := wp_log w @ [ef]\<rparr>)
      | Some (err, left) \<Rightarrow> (Inl err, (bad left w)\<lparr>wp_log := wp_log w @ [ef]\<rparr>))"

definition put_file :: "string \<Rightarrow> warp_file \<Rightarrow> warp_world \<Rightarrow> warp_world" where
  "put_file p f w = w\<lparr>wp_files := (wp_files w)(p := f)\<rparr>"

definition write_file :: "string \<Rightarrow> warp_file \<Rightarrow> unit wio" where
  "write_file p f = warp_step (WWrite p) (put_file p f) (put_file p)"

definition warp_remove :: "string \<Rightarrow> unit wio" where
  "warp_remove p w =
     (if wp_files w p = Absent then (Inl ''not found'', w\<lparr>wp_log := wp_log w @ [WRemove p]\<rparr>)
      else warp_step (WRemove p) (put_file p Absent) (\<lambda>_. id) w)"

definition reload_warp :: "unit wio" where
  "reload_warp = warp_step WReload id (\<lambda>_. id)"

definition exists_file :: "string \<Rightarrow> warp_world \<Rightarrow> bool" where
  "exists_file p w \<longleftrightarrow> wp_files w p \<noteq> Absent"

definition read_doc :: "string \<Rightarrow> warp_world \<Rightarrow> string + json" where
  "read_doc p w = (case wp_files w p of Doc v \<Rightarrow> Inr v | Absent \<Rightarrow> Inl ''no such file'' | Unreadable \<Rightarrow> Inl ''unreadable'' | _ \<Rightarrow> Inl ''not JSON'')"

definition cannot_read :: "string \<Rightarrow> warp_world \<Rightarrow> bool" where
  "cannot_read p w \<longleftrightarrow> wp_files w p = Absent \<or> wp_files w p = Unreadable"

definition current_egress :: "warp_env \<Rightarrow> warp_world \<Rightarrow> egress" where
  "current_egress e w =
     (case cache_get (we_now e (length (wp_log w))) CACHE_TTL (wp_cache w) of
        Some r \<Rightarrow> select_egress (pr_conclusion r)
      | None \<Rightarrow> Direct)"

section \<open>The documents\<close>

definition masque_outbound :: "string \<Rightarrow> nat \<Rightarrow> json" where
  "masque_outbound addr port = JObj [(''tag'', JStr ''proxy-warp''), (''protocol'', JStr ''socks''),
     (''settings'', JObj [(''address'', JStr addr), (''port'', JInt (int port))])]"

definition build_routing_rules :: "string list \<Rightarrow> warp_scope \<Rightarrow> bool \<Rightarrow> json list" where
  "build_routing_rules rules scope enforce =
     JObj [(''type'', JStr ''field''), (''inboundTag'', JArr [JStr ''warp-in'']), (''outboundTag'', JStr ''warp'')]
     # (if is_global scope \<and> enforce then [JObj [(''type'', JStr ''field''), (''outboundTag'', JStr ''warp'')]]
        else if rules \<noteq> [] then [JObj [(''type'', JStr ''field''), (''outboundTag'', JStr ''warp''), (''domain'', JArr (map JStr rules))]]
        else [])"

record wireguard_account =
  wg_private_key :: string
  wg_address_v4 :: string
  wg_address_v6 :: string
  wg_reserved :: "nat list"

definition str_or_empty :: "json \<Rightarrow> string" where
  "str_or_empty v = (case as_str v of Some s \<Rightarrow> s | None \<Rightarrow> [])"

definition account_of :: "json \<Rightarrow> wireguard_account" where
  "account_of v = \<lparr>wg_private_key = str_or_empty (jidx ''private_key'' v), wg_address_v4 = str_or_empty (jidx ''address_v4'' v),
     wg_address_v6 = str_or_empty (jidx ''address_v6'' v),
     wg_reserved = (case as_array (jidx ''reserved'' v) of
        Some xs \<Rightarrow> map (\<lambda>x. (case as_u64 x of Some n \<Rightarrow> n | None \<Rightarrow> 0) mod 256) xs
      | None \<Rightarrow> [0, 0, 0])\<rparr>"

definition read_wireguard_account :: "wireguard_account wio" where
  "read_wireguard_account w =
     (if cannot_read ACCOUNT_FILE w then (Inl ''WARP is not installed (warp_account.json is missing)'', w)
      else (case read_doc ACCOUNT_FILE w of Inl e \<Rightarrow> (Inl e, w) | Inr v \<Rightarrow> (Inr (account_of v), w)))"

definition wireguard_outbound :: "string \<Rightarrow> wireguard_account \<Rightarrow> json" where
  "wireguard_outbound tag a = JObj [(''tag'', JStr tag), (''protocol'', JStr ''wireguard''),
     (''settings'', JObj [(''secretKey'', JStr (wg_private_key a)),
        (''address'', JArr [JStr (wg_address_v4 a), JStr (wg_address_v6 a)]),
        (''peers'', JArr [JObj [(''publicKey'', JStr ''bmXOC+F1FxEMF9dyiK2H5/1SUtzH0JuVo51h2wPfgyo=''),
           (''endpoint'', JStr ''engage.cloudflareclient.com:2408''), (''keepAlive'', JInt 30)]]),
        (''reserved'', JArr (map (\<lambda>n. JInt (int n)) (wg_reserved a))), (''mtu'', JInt 1280)])]"

definition freedom_outbound :: "warp_mode \<Rightarrow> json" where
  "freedom_outbound mode = JObj [(''tag'', JStr ''warp''), (''protocol'', JStr ''freedom''),
     (''settings'', JObj [(''domainStrategy'', JStr (case mode of PreferIPv4 \<Rightarrow> ''UseIPv4'' | PreferIPv6 \<Rightarrow> ''UseIPv6'' | DefaultMode \<Rightarrow> ''UseIP''))]),
     (''streamSettings'', JObj [(''sockopt'', JObj [(''dialerProxy'', JStr ''proxy-warp'')])])]"

definition socks_inbound :: json where
  "socks_inbound = JObj [(''tag'', JStr ''warp-in''), (''port'', JInt 40000), (''listen'', JStr ''127.0.0.1''),
     (''protocol'', JStr ''socks''), (''settings'', JObj [(''udp'', JBool True)])]"

definition warp_document :: "json \<Rightarrow> warp_mode \<Rightarrow> json list \<Rightarrow> warp_scope \<Rightarrow> json" where
  "warp_document proxy mode rules scope = JObj [(''inbounds'', JArr [socks_inbound]),
     (''outbounds'', JArr (proxy # (if mode = DefaultMode then [] else [freedom_outbound mode]))),
     (''routing'', JObj [(''rules'', JArr rules)]), (''scope'', scope_json scope)]"

section \<open>The operations\<close>

definition persist_scope :: "warp_scope \<Rightarrow> bool wio" where
  "persist_scope scope w =
     (if cannot_read ROUTING_FILE w then (Inr False, w)
      else (case read_doc ROUTING_FILE w of
              Inl _ \<Rightarrow> (Inl ''the routing file is damaged'', w)
            | Inr cfg \<Rightarrow>
                (case jset ''scope'' (scope_json scope) cfg of
                   None \<Rightarrow> (Inl ''panic'', w)
                 | Some cfg' \<Rightarrow> thenE (write_file ROUTING_FILE (Doc cfg')) (retE True) w)))"

definition proxy_outbound :: "warp_env \<Rightarrow> warp_mode \<Rightarrow> json wio" where
  "proxy_outbound e mode w =
     (if current_egress e w = Masque then (Inr (masque_outbound SOCKS_ADDR SOCKS_PORT), w)
      else bindE read_wireguard_account
             (\<lambda>a. retE (wireguard_outbound (if mode = DefaultMode then ''warp'' else ''proxy-warp'') a)) w)"

definition update_warp_routing_rules ::
  "warp_env \<Rightarrow> string list \<Rightarrow> warp_mode \<Rightarrow> warp_scope \<Rightarrow> bool \<Rightarrow> unit wio" where
  "update_warp_routing_rules e rules mode scope scope_only =
     (if scope_only then
        bindE (persist_scope scope) (\<lambda>written.
          if written then retE () else failE ''WARP is not installed (no WARP routing file)'')
      else
        bindE (proxy_outbound e mode) (\<lambda>proxy.
        bindE (\<lambda>w. (Inr (is_warp_enabled (current_egress e w)), w)) (\<lambda>enforce.
        thenE (write_file ROUTING_FILE (Doc (warp_document proxy mode (build_routing_rules rules scope enforce) scope)))
          reload_warp)))"

definition scope_from_config :: "json \<Rightarrow> warp_scope" where
  "scope_from_config v =
     (case Option.bind (jget ''scope'' v) scope_from_json of Some s \<Rightarrow> s | None \<Rightarrow> DomainScope)"

definition read_scope :: "warp_world \<Rightarrow> warp_scope" where
  "read_scope w = (case read_doc ROUTING_FILE w of Inr v \<Rightarrow> scope_from_config v | Inl _ \<Rightarrow> DomainScope)"

fun first_domains :: "json list \<Rightarrow> json list option" where
  "first_domains [] = None"
| "first_domains (r # rs) = (case as_array (jidx ''domain'' r) of Some ds \<Rightarrow> Some ds | None \<Rightarrow> first_domains rs)"

definition rules_of_document :: "json \<Rightarrow> string list" where
  "rules_of_document v =
     (case as_array (jidx ''rules'' (jidx ''routing'' v)) of
        Some rs \<Rightarrow> (case first_domains rs of Some ds \<Rightarrow> List.map_filter as_str ds | None \<Rightarrow> [])
      | None \<Rightarrow> [])"

definition mode_of_document :: "json \<Rightarrow> warp_mode" where
  "mode_of_document v =
     (case as_array (jidx ''outbounds'' v) of
        Some obs \<Rightarrow>
          (case find (\<lambda>b. as_str (jidx ''tag'' b) = Some ''warp'' \<and> as_str (jidx ''protocol'' b) = Some ''freedom'') obs of
             Some b \<Rightarrow> (let s = as_str (jidx ''domainStrategy'' (jidx ''settings'' b)) in
                if s = Some ''UseIPv4'' then PreferIPv4 else if s = Some ''UseIPv6'' then PreferIPv6 else DefaultMode)
           | None \<Rightarrow> DefaultMode)
      | None \<Rightarrow> DefaultMode)"

definition read_routing_file :: "(string list \<times> warp_mode) wio" where
  "read_routing_file w =
     (if \<not> exists_file ROUTING_FILE w then (Inr ([], DefaultMode), w)
      else (case read_doc ROUTING_FILE w of
              Inl e \<Rightarrow> (Inl e, w)
            | Inr v \<Rightarrow> (Inr (rules_of_document v, mode_of_document v), w)))"

definition get_warp_routing_rules :: "(string list \<times> warp_mode \<times> warp_scope) wio" where
  "get_warp_routing_rules =
     bindE read_routing_file (\<lambda>(rules, mode) w. (Inr (rules, mode, read_scope w), w))"

text \<open>The loop over the new rules: rules that are there already are skipped, also within the list.\<close>

definition push_new :: "string list \<Rightarrow> string list \<Rightarrow> string list" where
  "push_new current new_rules = fold (\<lambda>r acc. if r \<in> set acc then acc else acc @ [r]) new_rules current"

definition add_warp_routing_rules :: "warp_env \<Rightarrow> string list \<Rightarrow> unit wio" where
  "add_warp_routing_rules e new_rules =
     bindE get_warp_routing_rules (\<lambda>(current, mode, scope).
       let rules = push_new current new_rules in
       if length rules > length current then update_warp_routing_rules e rules mode scope False else retE ())"

definition remove_warp_routing_rule :: "warp_env \<Rightarrow> string \<Rightarrow> unit wio" where
  "remove_warp_routing_rule e rule =
     bindE get_warp_routing_rules (\<lambda>(current, mode, scope).
       update_warp_routing_rules e (filter (\<lambda>r. r \<noteq> rule) current) mode scope False)"

section \<open>Lemmas\<close>

lemma jidx_simps [simp]:
  "jidx k (JObj ms) = (case map_of ms k of Some x \<Rightarrow> x | None \<Rightarrow> JNull)" "jidx k (JStr s) = JNull" "jidx k (JArr xs) = JNull" "jidx k JNull = JNull"
  by (simp_all add: jidx_def)

lemma write_file_ok:
  "write_file p f w = (Inr (), w') \<longleftrightarrow> wp_bad w (length (wp_log w)) = None
     \<and> w' = (put_file p f w)\<lparr>wp_log := wp_log w @ [WWrite p]\<rparr>"
  by (auto simp: write_file_def warp_step_def split: option.splits)

lemma reload_ok: "reload_warp w = (Inr (), w') \<Longrightarrow> wp_files w' = wp_files w"
  by (auto simp: reload_warp_def warp_step_def split: option.splits)

lemma read_account_state: "read_wireguard_account w = (r, w') \<Longrightarrow> w' = w"
  by (auto simp: read_wireguard_account_def split: if_splits sum.splits)

lemma proxy_state: "proxy_outbound e mode w = (r, w') \<Longrightarrow> w' = w"
  using read_account_state [of w] by (fastforce simp: proxy_outbound_def bindE_apply split: if_splits prod.splits sum.splits)

lemma proxy_result:
  assumes "proxy_outbound e mode w = (Inr p, w')"
  shows "p = masque_outbound SOCKS_ADDR SOCKS_PORT \<and> current_egress e w = Masque
    \<or> (\<exists>a. p = wireguard_outbound (if mode = DefaultMode then ''warp'' else ''proxy-warp'') a \<and> current_egress e w \<noteq> Masque)"
proof (cases "current_egress e w = Masque")
  case True
  with assms show ?thesis by (simp add: proxy_outbound_def)
next
  case False
  with assms have "bindE read_wireguard_account
      (\<lambda>a. retE (wireguard_outbound (if mode = DefaultMode then ''warp'' else ''proxy-warp'') a)) w = (Inr p, w')"
    by (simp add: proxy_outbound_def)
  then obtain a w1 where "retE (wireguard_outbound (if mode = DefaultMode then ''warp'' else ''proxy-warp'') a) w1 = (Inr p :: string + json, w')"
    by (rule bindE_success)
  with False show ?thesis by auto
qed

text \<open>What a successful update writes.\<close>

lemma update_result:
  assumes "update_warp_routing_rules e rules mode scope False w = (Inr (), w')"
  shows "\<exists>p. proxy_outbound e mode w = (Inr p, w)
    \<and> wp_files w' ROUTING_FILE = Doc (warp_document p mode (build_routing_rules rules scope (is_warp_enabled (current_egress e w))) scope)"
proof -
  let ?doc = "\<lambda>p enforce. Doc (warp_document p mode (build_routing_rules rules scope enforce) scope)"
  from assms have "bindE (proxy_outbound e mode) (\<lambda>p. bindE (\<lambda>w. (Inr (is_warp_enabled (current_egress e w)), w)) (\<lambda>enforce.
      thenE (write_file ROUTING_FILE (?doc p enforce)) reload_warp)) w = (Inr (), w')"
    by (simp add: update_warp_routing_rules_def)
  then obtain p w1 where p: "proxy_outbound e mode w = (Inr p, w1)"
    and k: "bindE (\<lambda>w. (Inr (is_warp_enabled (current_egress e w)), w)) (\<lambda>enforce.
      thenE (write_file ROUTING_FILE (?doc p enforce)) reload_warp) w1 = (Inr () :: string + unit, w')"
    by (rule bindE_success)
  from proxy_state [OF p] have w1: "w1 = w" .
  from k w1 have "thenE (write_file ROUTING_FILE (?doc p (is_warp_enabled (current_egress e w)))) reload_warp w = (Inr (), w')"
    by (simp add: bindE_apply)
  then obtain w2 where w2: "write_file ROUTING_FILE (?doc p (is_warp_enabled (current_egress e w))) w = (Inr (), w2)"
    and r: "reload_warp w2 = (Inr (), w')"
    unfolding thenE_def by (rule bindE_success) auto
  have "wp_files w' ROUTING_FILE = ?doc p (is_warp_enabled (current_egress e w))"
    using w2 reload_ok [OF r] by (simp add: write_file_ok put_file_def)
  with p w1 show ?thesis by blast
qed

lemma written_rules:
  "rules_of_document (warp_document p mode (build_routing_rules rules scope enforce) scope)
   = (if is_global scope \<and> enforce then [] else rules)"
  by (simp add: rules_of_document_def warp_document_def build_routing_rules_def map_filter_def comp_def)

lemma written_mode:
  assumes "proxy_outbound e mode w = (Inr p, w')"
  shows "mode_of_document (warp_document p mode rs scope) = mode"
  using proxy_result [OF assms]
  by (cases mode) (auto simp: mode_of_document_def warp_document_def masque_outbound_def wireguard_outbound_def freedom_outbound_def)

lemma written_scope: "scope_from_config (warp_document p mode rs scope) = scope"
  by (cases scope) (simp_all add: scope_from_config_def warp_document_def scope_named_def)

lemma settings_read_back:
  assumes "update_warp_routing_rules e rules mode scope False w = (Inr (), w')"
  shows "get_warp_routing_rules w'
    = (Inr (if scope = GlobalScope \<and> current_egress e w \<noteq> Direct then [] else rules, mode, scope), w')"
proof -
  obtain p where p: "proxy_outbound e mode w = (Inr p, w)"
    and f: "wp_files w' ROUTING_FILE = Doc (warp_document p mode (build_routing_rules rules scope (is_warp_enabled (current_egress e w))) scope)"
    using update_result [OF assms] by blast
  have "read_routing_file w' = (Inr (if is_global scope \<and> is_warp_enabled (current_egress e w) then [] else rules, mode), w')"
    unfolding read_routing_file_def exists_file_def read_doc_def f
    by (simp only: warp_file.distinct not_False_eq_True not_True_eq_False if_False warp_file.simps sum.simps written_rules written_mode [OF p])
  moreover have "read_scope w' = scope"
    unfolding read_scope_def read_doc_def f by (simp only: warp_file.simps sum.simps written_scope)
  ultimately show ?thesis
    by (simp add: get_warp_routing_rules_def bindE_apply is_global_def is_warp_enabled_def)
qed

text \<open>C27: Reading the settings back after they were written gives the mode and the scope that were written; it gives the
  list of domains too, except when the whole traffic goes through WARP at that moment: the catch-all rule replaces
  the domain rule in the only place that stores the list, so the list is lost.\<close>

theorem warp_settings_read_back:
  assumes "update_warp_routing_rules e rules mode scope False w = (Inr (), w')"
  shows "get_warp_routing_rules w'
    = (Inr (if scope = GlobalScope \<and> current_egress e w \<noteq> Direct then [] else rules, mode, scope), w')"
  using assms by (rule settings_read_back)

definition outbound_tags :: "json \<Rightarrow> string list" where
  "outbound_tags v = (case as_array (jidx ''outbounds'' v) of Some obs \<Rightarrow> List.map_filter (\<lambda>b. as_str (jidx ''tag'' b)) obs | None \<Rightarrow> [])"

definition rule_targets :: "json \<Rightarrow> string list" where
  "rule_targets v = (case as_array (jidx ''rules'' (jidx ''routing'' v)) of
     Some rs \<Rightarrow> List.map_filter (\<lambda>r. as_str (jidx ''outboundTag'' r)) rs | None \<Rightarrow> [])"

lemma written_targets: "set (rule_targets (warp_document p mode (build_routing_rules rules scope enforce) scope)) = {''warp''}"
  by (auto simp: rule_targets_def warp_document_def build_routing_rules_def map_filter_def)

lemma written_tags:
  assumes "proxy_outbound e mode w = (Inr p, w')"
  shows "''warp'' \<in> set (outbound_tags (warp_document p mode rs scope)) \<longleftrightarrow> \<not> (current_egress e w = Masque \<and> mode = DefaultMode)"
  using proxy_result [OF assms]
  by (cases mode) (auto simp: outbound_tags_def warp_document_def masque_outbound_def wireguard_outbound_def freedom_outbound_def map_filter_def)

text \<open>Also: The rules of a written routing file point to an outbound of that file exactly when not both the engine is MASQUE and
  the mode is the default one. In that case - a fresh installation of usque - every rule names the outbound \<open>warp\<close>,
  but the only outbound is \<open>proxy-warp\<close>.\<close>

theorem rules_resolve_exact:
  assumes "update_warp_routing_rules e rules mode scope False w = (Inr (), w')"
  shows "\<exists>v. wp_files w' ROUTING_FILE = Doc v
    \<and> (set (rule_targets v) \<subseteq> set (outbound_tags v) \<longleftrightarrow> \<not> (current_egress e w = Masque \<and> mode = DefaultMode))"
proof -
  obtain p where p: "proxy_outbound e mode w = (Inr p, w)"
    and f: "wp_files w' ROUTING_FILE = Doc (warp_document p mode (build_routing_rules rules scope (is_warp_enabled (current_egress e w))) scope)"
    using update_result [OF assms] by blast
  show ?thesis
    by (rule exI, rule conjI [OF f]) (simp only: written_targets insert_subset empty_subsetI simp_thms written_tags [OF p])
qed

lemma push_new_set: "set (push_new current new_rules) = set current \<union> set new_rules"
  unfolding push_new_def by (induction new_rules arbitrary: current) auto

lemma push_new_distinct: "distinct current \<Longrightarrow> distinct (push_new current new_rules)"
  unfolding push_new_def by (induction new_rules arbitrary: current) auto

lemma push_new_prefix: "\<exists>added. push_new current new_rules = current @ added"
  unfolding push_new_def
proof (induction new_rules arbitrary: current)
  case (Cons r rs)
  show ?case
  proof (cases "r \<in> set current")
    case True
    then show ?thesis using Cons [of current] by simp
  next
    case False
    then show ?thesis using Cons [of "current @ [r]"] by auto
  qed
qed simp

lemma push_new_known: "set new_rules \<subseteq> set current \<Longrightarrow> push_new current new_rules = current"
  unfolding push_new_def by (induction new_rules) auto

lemma push_new_longer:
  assumes "\<not> set new_rules \<subseteq> set current"
  shows "length (push_new current new_rules) > length current"
proof -
  obtain added where a: "push_new current new_rules = current @ added" using push_new_prefix by blast
  have "added \<noteq> []" using assms push_new_set [of current new_rules] a by auto
  with a show ?thesis by simp
qed

lemma get_state: "get_warp_routing_rules w = (r, w') \<Longrightarrow> w' = w"
  by (auto simp: get_warp_routing_rules_def read_routing_file_def bindE_apply split: if_splits sum.splits)

text \<open>Also: The cache of the last probe expires after ten minutes and nothing refreshes it. On a host that has only
  usque, adding a rule after that fails with ``WARP is not installed'' and changes nothing, although usque is
  running: without a probe the engine counts as \<open>Direct\<close>, which needs the WireGuard account.\<close>

theorem expired_probe_refuses_rules:
  assumes "wp_cache w = Some (r, at)" "at + CACHE_TTL \<le> we_now e (length (wp_log w))"
    and "wp_files w ACCOUNT_FILE = Absent" "get_warp_routing_rules w = (Inr (current, mode, scope), w)" "\<not> set new_rules \<subseteq> set current"
  shows "add_warp_routing_rules e new_rules w = (Inl ''WARP is not installed (warp_account.json is missing)'', w)"
proof -
  have "\<not> (at \<le> we_now e (length (wp_log w)) \<and> we_now e (length (wp_log w)) - at < CACHE_TTL)" using assms(2) by auto
  then have "cache_get (we_now e (length (wp_log w))) CACHE_TTL (wp_cache w) = None" by (simp only: assms(1) cache_get_def option.simps prod.simps if_False)
  then have "current_egress e w = Direct" by (simp add: current_egress_def)
  then have "proxy_outbound e mode w = (Inl ''WARP is not installed (warp_account.json is missing)'', w)"
    using assms(3) by (simp add: proxy_outbound_def bindE_apply read_wireguard_account_def cannot_read_def)
  then show ?thesis
    using push_new_longer [OF assms(5)]
    by (simp add: add_warp_routing_rules_def bindE_apply assms(4) Let_def update_warp_routing_rules_def)
qed

text \<open>Also: Adding rules keeps the list free of repetitions and in order: when all are there already nothing is
  written; otherwise a success leaves the old list followed by exactly the new ones, each once (unless all traffic goes
  through WARP).\<close>

theorem added_rules_exact:
  assumes "get_warp_routing_rules w = (Inr (current, mode, scope), w)" "distinct current"
    and "add_warp_routing_rules e new_rules w = (Inr (), w')"
    and "\<not> (scope = GlobalScope \<and> current_egress e w \<noteq> Direct)"
  shows "\<exists>rules. get_warp_routing_rules w' = (Inr (rules, mode, scope), w') \<and> distinct rules
    \<and> set rules = set current \<union> set new_rules \<and> (\<exists>added. rules = current @ added)"
    and "set new_rules \<subseteq> set current \<Longrightarrow> w' = w"
proof -
  let ?rules = "push_new current new_rules"
  have facts: "distinct ?rules" "set ?rules = set current \<union> set new_rules" "\<exists>added. ?rules = current @ added"
    using push_new_distinct [OF assms(2)] push_new_set push_new_prefix by blast+
  have step: "add_warp_routing_rules e new_rules w
      = (if length ?rules > length current then update_warp_routing_rules e ?rules mode scope False w else (Inr (), w))"
    by (simp add: add_warp_routing_rules_def bindE_apply assms(1) Let_def)
  show "w' = w" if "set new_rules \<subseteq> set current"
    using step assms(3) push_new_known [OF that] by simp
  have "get_warp_routing_rules w' = (Inr (?rules, mode, scope), w')"
  proof (cases "length ?rules > length current")
    case True
    with step assms(3) have "update_warp_routing_rules e ?rules mode scope False w = (Inr (), w')" by simp
    from settings_read_back [OF this] assms(4) show ?thesis by auto
  next
    case False
    then have "?rules = current" using push_new_prefix [of current new_rules] by auto
    moreover have "w' = w" using False step assms(3) by simp
    ultimately show ?thesis using assms(1) by simp
  qed
  with facts show "\<exists>rules. get_warp_routing_rules w' = (Inr (rules, mode, scope), w') \<and> distinct rules
    \<and> set rules = set current \<union> set new_rules \<and> (\<exists>added. rules = current @ added)" by blast
qed

section \<open>A host with usque only\<close>

definition warp_sample_env :: warp_env where
  "warp_sample_env = \<lparr>we_now = (\<lambda>n. 700 * 1000000000), we_exec = (\<lambda>k p args fs. (RanWith True [] [], fs)), we_systemd = True,
     we_probe = (UdpBlocked, AvailableH2), we_register = Inl ''blocked'', we_register_scope = DomainScope\<rparr>"

text \<open>\<open>seconds\<close> is when the probe ran; the clock reads 700 seconds.\<close>

definition warp_sample_world :: "nat \<Rightarrow> warp_world" where
  "warp_sample_world seconds = \<lparr>wp_files = (\<lambda>_. Absent), wp_log = [], wp_bad = (\<lambda>_. None),
     wp_cache = Some (report_of UdpBlocked AvailableH2, seconds * 1000000000), wp_health = None\<rparr>"

abbreviation warp_sample_update :: "warp_mode \<Rightarrow> warp_scope \<Rightarrow> warp_world" where
  "warp_sample_update mode scope \<equiv> snd (update_warp_routing_rules warp_sample_env [''a.io''] mode scope False (warp_sample_world 600))"

lemma warp_sample_egress: "current_egress warp_sample_env (warp_sample_world 600) = Masque"
  by (simp add: current_egress_def cache_get_def warp_sample_env_def warp_sample_world_def CACHE_TTL_def report_of_def from_verdicts_def)

lemma warp_sample_update_ends:
  "update_warp_routing_rules warp_sample_env [''a.io''] mode scope False (warp_sample_world 600) = (Inr (), warp_sample_update mode scope)"
proof -
  have "fst (update_warp_routing_rules warp_sample_env [''a.io''] mode scope False (warp_sample_world 600)) = Inr ()"
    by (simp add: update_warp_routing_rules_def bindE_apply thenE_apply proxy_outbound_def warp_sample_egress write_file_def reload_warp_def
        warp_step_def put_file_def) (simp add: warp_sample_world_def warp_step_def put_file_def)
  then show ?thesis by (simp add: prod_eq_iff)
qed

theorem warp_settings_read_back_witness:
  "get_warp_routing_rules (warp_sample_update PreferIPv4 DomainScope)
     = (Inr ([''a.io''], PreferIPv4, DomainScope), warp_sample_update PreferIPv4 DomainScope)
   \<and> get_warp_routing_rules (warp_sample_update PreferIPv4 GlobalScope)
     = (Inr ([], PreferIPv4, GlobalScope), warp_sample_update PreferIPv4 GlobalScope)"
  using warp_settings_read_back [OF warp_sample_update_ends, of PreferIPv4 DomainScope]
    warp_settings_read_back [OF warp_sample_update_ends, of PreferIPv4 GlobalScope]
  by (simp add: warp_sample_egress)

theorem rules_resolve_exact_witness:
  "\<exists>v. wp_files (warp_sample_update DefaultMode DomainScope) ROUTING_FILE = Doc v \<and> \<not> set (rule_targets v) \<subseteq> set (outbound_tags v)"
  using rules_resolve_exact [OF warp_sample_update_ends, of DefaultMode DomainScope] warp_sample_egress by simp

theorem expired_probe_refuses_rules_witness:
  "add_warp_routing_rules warp_sample_env [''a.io''] (warp_sample_world 100)
     = (Inl ''WARP is not installed (warp_account.json is missing)'', warp_sample_world 100)"
  by (rule expired_probe_refuses_rules [where r = "report_of UdpBlocked AvailableH2" and at = "100 * 1000000000" and current = "[]"
        and mode = DefaultMode and scope = DomainScope])
     (simp_all add: warp_sample_world_def warp_sample_env_def CACHE_TTL_def get_warp_routing_rules_def bindE_apply read_routing_file_def exists_file_def
        read_scope_def read_doc_def)

lemma warp_sample_get: "get_warp_routing_rules (warp_sample_world 600) = (Inr ([], DefaultMode, DomainScope), warp_sample_world 600)"
  by (simp add: warp_sample_world_def get_warp_routing_rules_def bindE_apply read_routing_file_def exists_file_def read_scope_def read_doc_def)

theorem added_rules_exact_witness:
  "\<exists>w' rules. add_warp_routing_rules warp_sample_env [''a.io''] (warp_sample_world 600) = (Inr (), w')
    \<and> get_warp_routing_rules w' = (Inr (rules, DefaultMode, DomainScope), w') \<and> set rules = {''a.io''}"
proof -
  have run: "add_warp_routing_rules warp_sample_env [''a.io''] (warp_sample_world 600) = (Inr (), warp_sample_update DefaultMode DomainScope)"
    using warp_sample_update_ends [of DefaultMode DomainScope]
    by (simp add: add_warp_routing_rules_def bindE_apply warp_sample_get Let_def push_new_def)
  show ?thesis using added_rules_exact(1) [OF warp_sample_get _ run] run by fastforce
qed

end
