(* ===== verification/Usque.thy ===== *)
theory Usque
  imports Warp
begin

text \<open>
  usque, the WARP client over TCP: the pinned release (\<open>core/usque/pin.rs\<close>), its service unit (\<open>unit.rs\<close>), installation,
  removal and restart (\<open>installer.rs\<close>), the health watchdog (\<open>health.rs\<close>), and the installer that chooses between the two
  implementations (\<open>WarpInstaller\<close> in \<open>core/xray/installer.rs\<close>).

  External programs are the parameter \<open>we_exec\<close>: position in the log, program and arguments, the files before,
  how it ended and the files after.
\<close>

section \<open>The pinned release\<close>

definition USQUE_VERSION :: string where "USQUE_VERSION = ''4.2.1''"
definition USQUE_SHA256_LINUX_AMD64 :: string where
  "USQUE_SHA256_LINUX_AMD64 = ''4117e20695078af9c11edecd1a826c009bbc7ea0b7f64458612b4198910bc313''"
definition USQUE_SHA256_LINUX_ARM64 :: string where
  "USQUE_SHA256_LINUX_ARM64 = ''c88b061c2a567f30813d7505637d1fb6fe7ec5898b5b61fd05122409fa5ad925''"
definition GITHUB_REPO :: string where "GITHUB_REPO = ''Diniboy1123/usque''"

definition asset_name :: "string \<Rightarrow> string option" where
  "asset_name arch =
     map_option (\<lambda>sfx. ''usque_'' @ USQUE_VERSION @ ''_'' @ sfx @ ''.zip'')
       (if arch \<in> {''x86_64'', ''amd64''} then Some ''linux_amd64''
        else if arch \<in> {''aarch64'', ''arm64''} then Some ''linux_arm64'' else None)"

definition expected_sha256 :: "string \<Rightarrow> string option" where
  "expected_sha256 arch =
     (if arch \<in> {''x86_64'', ''amd64''} then Some USQUE_SHA256_LINUX_AMD64
      else if arch \<in> {''aarch64'', ''arm64''} then Some USQUE_SHA256_LINUX_ARM64 else None)"

definition release_url :: "string \<Rightarrow> string" where
  "release_url name = ''https://github.com/'' @ GITHUB_REPO @ ''/releases/download/v'' @ USQUE_VERSION @ ''/'' @ name"

definition checksums_url :: string where
  "checksums_url = release_url ''checksums.txt''"

definition is_hex64 :: "string \<Rightarrow> bool" where
  "is_hex64 s \<longleftrightarrow> length s = 64 \<and> list_all is_ascii_hexdigit s"

text \<open>\<open>trim_start_matches\<close> with a string: every copy of the pattern at the front goes.\<close>

function strip_copies :: "string \<Rightarrow> string \<Rightarrow> string" where
  "strip_copies p s = (if p \<noteq> [] \<and> prefix p s then strip_copies p (drop (length p) s) else s)"
  by pat_completeness auto
termination
  by (relation "measure (\<lambda>(p, s). length s)") (auto simp: prefix_def)

declare strip_copies.simps [simp del]

definition normal_hash :: "string \<Rightarrow> string" where
  "normal_hash s = to_ascii_lowercase (trim (strip_copies ''sha256:'' (trim s)))"

definition verify_sha256 :: "string \<Rightarrow> string \<Rightarrow> bool" where
  "verify_sha256 expected actual \<longleftrightarrow>
     is_hex64 (normal_hash expected) \<and> is_hex64 (normal_hash actual) \<and> normal_hash expected = normal_hash actual"

definition checksum_of_line :: "string \<Rightarrow> string \<Rightarrow> string option" where
  "checksum_of_line asset raw =
     (let line = trim raw in
      if line = [] \<or> hd line = CHR ''#'' then None
      else (case split_whitespace line of
              hash # name # _ \<Rightarrow>
                (let name = strip_copies ''*'' (last (split_on (CHR ''/'') (strip_copies ''*'' name)))
                 in if name = asset \<and> is_hex64 hash then Some (to_ascii_lowercase hash) else None)
            | _ \<Rightarrow> None))"

fun first_checksum :: "string \<Rightarrow> string list \<Rightarrow> string option" where
  "first_checksum asset [] = None"
| "first_checksum asset (l # ls) =
     (case checksum_of_line asset l of Some h \<Rightarrow> Some h | None \<Rightarrow> first_checksum asset ls)"

definition parse_checksums :: "string \<Rightarrow> string \<Rightarrow> string option" where
  "parse_checksums txt asset = first_checksum asset (str_lines txt)"

definition pinned_target :: "string \<Rightarrow> (string \<times> string) option" where
  "pinned_target arch =
     Option.bind (asset_name arch) (\<lambda>a. map_option (Pair a) (expected_sha256 arch))"

section \<open>The service unit\<close>

definition USQUE_DIR :: string where "USQUE_DIR = ''/etc/wwps/usque''"
definition USQUE_BIN :: string where "USQUE_BIN = ''/etc/wwps/usque/usque''"
definition USQUE_CONFIG :: string where "USQUE_CONFIG = ''/etc/wwps/usque/config.json''"
definition USQUE_SERVICE :: string where "USQUE_SERVICE = ''wwps-usque''"
definition USQUE_SERVICE_PATH :: string where "USQUE_SERVICE_PATH = ''/etc/systemd/system/wwps-usque.service''"
definition RESTART_SEC :: nat where "RESTART_SEC = 5"

definition usque_service_unit :: "string \<Rightarrow> string \<Rightarrow> nat \<Rightarrow> string" where
  "usque_service_unit bin config port =
     (let nl = [CHR 0x0A] in
      ''[Unit]'' @ nl @ ''Description=wwps-usque (WARP over TCP/443, MASQUE/HTTP-2)'' @ nl @ ''After=network.target'' @ nl @ nl
      @ ''[Service]'' @ nl @ ''User=root'' @ nl @ ''Type=simple'' @ nl
      @ ''ExecStart='' @ bin @ '' socks --http2 -p '' @ nat_str port @ '' -b '' @ SOCKS_ADDR @ '' -c '' @ config @ nl
      @ ''Restart=always'' @ nl @ ''RestartSec='' @ nat_str RESTART_SEC @ nl @ ''LimitNOFILE=51200'' @ nl @ nl
      @ ''[Install]'' @ nl @ ''WantedBy=multi-user.target'' @ nl)"

definition default_service_unit :: string where
  "default_service_unit = usque_service_unit USQUE_BIN USQUE_CONFIG SOCKS_PORT"

section \<open>What is installed\<close>

datatype install_plan_kind = PlanWireGuard | PlanUsque

definition install_plan :: "probe_conclusion \<Rightarrow> bool \<Rightarrow> string + install_plan_kind" where
  "install_plan conclusion probe_failed =
     (if probe_failed then Inl ''the probe could not be completed''
      else (case conclusion of
              WgUsable \<Rightarrow> Inr PlanWireGuard
            | UdpOnly \<Rightarrow> Inr PlanWireGuard
            | TcpOnly \<Rightarrow> Inr PlanUsque
            | FullyBlocked \<Rightarrow> Inl ''both ways are blocked''))"

record installed_kinds =
  ik_wireguard :: bool
  ik_usque :: bool

definition any_installed :: "installed_kinds \<Rightarrow> bool" where
  "any_installed k \<longleftrightarrow> ik_wireguard k \<or> ik_usque k"

text \<open>\<open>try_exists(..).unwrap_or(false)\<close>\<close>

definition detect_installed :: "warp_world \<Rightarrow> installed_kinds" where
  "detect_installed w = \<lparr>ik_wireguard = exists_file ACCOUNT_FILE w, ik_usque = exists_file USQUE_CONFIG w\<rparr>"

definition subpage_entries :: "installed_kinds \<Rightarrow> (string \<times> string) list" where
  "subpage_entries k =
     (if ik_wireguard k then [(''warp.subpage_wireguard'', ''m_warp_wg'')] else [])
     @ (if ik_usque k then [(''warp.subpage_usque'', ''m_warp_usque'')] else [])"

definition installed_banner_key :: "installed_kinds \<Rightarrow> string" where
  "installed_banner_key k =
     (if ik_wireguard k \<and> ik_usque k then ''warp.installed_both''
      else if ik_wireguard k then ''warp.installed_wireguard''
      else if ik_usque k then ''warp.installed_usque'' else ''warp.not_installed'')"

datatype uninstall_target = OnlyWireGuard | OnlyUsque | BothEngines

datatype restart_action = ReloadTheCore | RestartService string

fun restart_action_for :: "uninstall_target \<Rightarrow> restart_action" where
  "restart_action_for OnlyWireGuard = ReloadTheCore"
| "restart_action_for OnlyUsque = RestartService USQUE_SERVICE"
| "restart_action_for BothEngines = RestartService USQUE_SERVICE"

fun uninstall_scope :: "uninstall_target \<Rightarrow> bool \<times> bool" where
  "uninstall_scope OnlyWireGuard = (True, False)"
| "uninstall_scope OnlyUsque = (False, True)"
| "uninstall_scope BothEngines = (True, True)"

record uninstall_outcome =
  removed_wireguard :: bool
  removed_usque :: bool

definition nothing_removed :: "uninstall_outcome \<Rightarrow> bool" where
  "nothing_removed u \<longleftrightarrow> \<not> removed_wireguard u \<and> \<not> removed_usque u"

definition uninstall_key :: "uninstall_outcome \<Rightarrow> string" where
  "uninstall_key u =
     (if removed_wireguard u \<and> removed_usque u then ''warp.uninstalled_both''
      else if removed_wireguard u then ''warp.uninstalled_wireguard''
      else if removed_usque u then ''warp.uninstalled_usque'' else ''warp.uninstalled_none'')"

section \<open>Commands\<close>

definition run_program :: "warp_env \<Rightarrow> string \<Rightarrow> string list \<Rightarrow> (bool \<times> string \<times> string) wio" where
  "run_program e program args w =
     (let (r, fs) = we_exec e (length (wp_log w)) program args (wp_files w);
          w' = w\<lparr>wp_files := fs, wp_log := wp_log w @ [WRun program args]\<rparr>
      in (case r of NotRun err \<Rightarrow> Inl err | RanWith ok out errs \<Rightarrow> Inr (ok, out, errs), w'))"

definition run_or_fail :: "warp_env \<Rightarrow> string \<Rightarrow> string list \<Rightarrow> string \<Rightarrow> string wio" where
  "run_or_fail e program args what =
     bindE (run_program e program args) (\<lambda>(ok, out, errs). if ok then retE out else failE (what @ trim errs))"

definition run_systemctl :: "warp_env \<Rightarrow> string list \<Rightarrow> unit wio" where
  "run_systemctl e args = bindE (run_or_fail e ''systemctl'' args ''systemctl: '') (\<lambda>_. retE ())"

section \<open>Installation\<close>

definition ZIP :: string where "ZIP = USQUE_DIR @ ''/usque.zip''"

definition download_asset :: "warp_env \<Rightarrow> string \<Rightarrow> string \<Rightarrow> unit wio" where
  "download_asset e url dest =
     bindE (run_or_fail e ''curl'' [''-fsSL'', ''--max-time'', ''300'', ''-o'', dest, url] ''download failed: '') (\<lambda>_. retE ())"

definition verify_downloaded :: "warp_env \<Rightarrow> string \<Rightarrow> string \<Rightarrow> unit wio" where
  "verify_downloaded e path expected =
     bindE (run_or_fail e ''sha256sum'' [path] ''sha256sum failed: '') (\<lambda>out.
       let actual = (case split_whitespace out of x # _ \<Rightarrow> x | [] \<Rightarrow> [])
       in if verify_sha256 expected actual then retE () else failE ''usque verification failed'')"

definition extract_binary :: "warp_env \<Rightarrow> string \<Rightarrow> unit wio" where
  "extract_binary e archive =
     bindE (run_or_fail e ''unzip'' [''-o'', ''-j'', archive, ''usque'', ''-d'', USQUE_DIR] ''unzip failed: '') (\<lambda>_ w.
       if exists_file USQUE_BIN w then warp_step (WWrite USQUE_BIN) id (\<lambda>_. id) w else (Inl ''no such file'', w))"

definition register_usque :: "warp_env \<Rightarrow> unit wio" where
  "register_usque e =
     bindE (run_or_fail e USQUE_BIN [''register''] ''registration failed: '') (\<lambda>_ w.
       if exists_file USQUE_CONFIG w then (Inr (), w) else (Inl ''no config.json was generated'', w))"

definition write_service_unit :: "warp_env \<Rightarrow> unit wio" where
  "write_service_unit e =
     (if \<not> we_systemd e then retE ()
      else thenE (write_file USQUE_SERVICE_PATH (Blob default_service_unit)) (ignoreE (run_systemctl e [''daemon-reload''])))"

definition enable_service :: "warp_env \<Rightarrow> unit wio" where
  "enable_service e = (if \<not> we_systemd e then retE () else run_systemctl e [''enable'', ''--now'', USQUE_SERVICE])"

definition usque_install :: "warp_env \<Rightarrow> string \<Rightarrow> unit wio" where
  "usque_install e arch w =
     (if exists_file USQUE_CONFIG w then (Inr (), w)
      else (case pinned_target arch of
              None \<Rightarrow> (Inl ''no pinned release for this architecture'', w)
            | Some (asset, expected) \<Rightarrow>
                thenE (warp_step (WMkdir USQUE_DIR) id (\<lambda>_. id))
               (thenE (download_asset e (release_url asset) ZIP)
               (thenE (verify_downloaded e ZIP expected)
               (thenE (extract_binary e ZIP)
               (thenE (ignoreE (warp_remove ZIP))
               (thenE (register_usque e)
               (thenE (write_service_unit e)
                      (enable_service e))))))) w))"

section \<open>Removal and restart\<close>

definition clear_probe :: "unit wio" where
  "clear_probe w = (Inr (), w\<lparr>wp_cache := cache_clear (wp_cache w)\<rparr>)"

definition remove_usque :: "warp_env \<Rightarrow> unit wio" where
  "remove_usque e =
     thenE (ignoreE (run_systemctl e [''stop'', USQUE_SERVICE]))
    (thenE (ignoreE (run_systemctl e [''disable'', USQUE_SERVICE]))
    (thenE (\<lambda>w. if exists_file USQUE_SERVICE_PATH w then ignoreE (warp_remove USQUE_SERVICE_PATH) w else (Inr (), w))
    (thenE (ignoreE (run_systemctl e [''daemon-reload'']))
    (thenE (ignoreE (warp_remove USQUE_CONFIG))
    (thenE (ignoreE (warp_remove USQUE_BIN))
           (ignoreE (warp_step (WRemove USQUE_DIR) id (\<lambda>_. id))))))))"

definition uninstall_one :: "warp_env \<Rightarrow> uninstall_target \<Rightarrow> uninstall_outcome wio" where
  "uninstall_one e target =
     (let (wg, uq) = uninstall_scope target in
      thenE (if wg then ignoreE (warp_remove ACCOUNT_FILE) else retE ())
     (thenE (if uq then remove_usque e else retE ())
     (thenE (ignoreE (warp_remove ROUTING_FILE))
     (thenE clear_probe
     (thenE reload_warp
            (retE \<lparr>removed_wireguard = wg, removed_usque = uq\<rparr>))))))"

definition uninstall_all :: "warp_env \<Rightarrow> uninstall_outcome wio" where
  "uninstall_all e = uninstall_one e BothEngines"

definition restart_one :: "warp_env \<Rightarrow> uninstall_target \<Rightarrow> unit wio" where
  "restart_one e target =
     thenE (case restart_action_for target of
              RestartService name \<Rightarrow> run_systemctl e [''restart'', name @ ''.service'']
            | ReloadTheCore \<Rightarrow> retE ())
       (if target \<in> {OnlyWireGuard, BothEngines} then reload_warp else retE ())"

section \<open>The installer of either implementation\<close>

definition is_warp_installed :: "warp_world \<Rightarrow> bool" where
  "is_warp_installed w \<longleftrightarrow> any_installed (detect_installed w)"

definition record_probe_result :: "warp_env \<Rightarrow> probe_report \<Rightarrow> unit wio" where
  "record_probe_result e report w =
     (Inr (), w\<lparr>wp_cache := cache_store report (we_now e (length (wp_log w))) (wp_cache w)\<rparr>)"

definition config_to_restore :: "(string list \<times> warp_mode) option \<Rightarrow> string list \<times> warp_mode" where
  "config_to_restore preserved = (case preserved of Some c \<Rightarrow> c | None \<Rightarrow> ([], DefaultMode))"

definition read_preservable_config :: "(string list \<times> warp_mode) option wio" where
  "read_preservable_config =
     catchE get_warp_routing_rules (\<lambda>r. retE (case r of Inr (rules, mode, _) \<Rightarrow> Some (rules, mode) | Inl _ \<Rightarrow> None))"

definition install_wireguard_only :: "warp_env \<Rightarrow> unit wio" where
  "install_wireguard_only e =
     (case we_register e of
        Inl err \<Rightarrow> failE err
      | Inr account \<Rightarrow>
          bindE read_preservable_config (\<lambda>preserved.
          thenE (write_file ACCOUNT_FILE (Doc account))
         (let (rules, mode) = config_to_restore preserved
          in update_warp_routing_rules e rules mode (we_register_scope e) False)))"

definition resolve_install_scope :: "warp_scope option \<Rightarrow> warp_scope" where
  "resolve_install_scope existing = (case existing of Some s \<Rightarrow> s | None \<Rightarrow> GlobalScope)"

definition wire_up_usque :: "warp_env \<Rightarrow> unit wio" where
  "wire_up_usque e =
     catchE get_warp_routing_rules (\<lambda>r.
       let (rules, mode) = (case r of Inr (rules, mode, _) \<Rightarrow> (rules, mode) | Inl _ \<Rightarrow> ([], DefaultMode));
           scope = resolve_install_scope (case r of Inr (_, _, s) \<Rightarrow> Some s | Inl _ \<Rightarrow> None)
       in update_warp_routing_rules e rules mode scope False)"

definition install_smart :: "warp_env \<Rightarrow> string \<Rightarrow> install_plan_kind wio" where
  "install_smart e arch =
     (let (udp, tcp) = we_probe e; report = report_of udp tcp in
      case install_plan (pr_conclusion report) (udp = UdpProbeFailed \<and> tcp = TcpBlocked) of
        Inl err \<Rightarrow> failE err
      | Inr plan \<Rightarrow>
          thenE (record_probe_result e report)
         (catchE (case plan of
                    PlanWireGuard \<Rightarrow> install_wireguard_only e
                  | PlanUsque \<Rightarrow> thenE (usque_install e arch) (wire_up_usque e))
            (\<lambda>outcome. (case outcome of
                Inl err \<Rightarrow> thenE clear_probe (failE err)
              | Inr _ \<Rightarrow> retE plan))))"

text \<open>Two readings of the receive counter of \<open>wg0\<close>: only growth counts as a working tunnel.\<close>

datatype wg_tunnel_health = Established | NoTraffic

definition verdict_from_samples :: "nat option \<Rightarrow> nat option \<Rightarrow> wg_tunnel_health" where
  "verdict_from_samples first_rx second_rx =
     (case (first_rx, second_rx) of (Some a, Some b) \<Rightarrow> if a < b then Established else NoTraffic | _ \<Rightarrow> NoTraffic)"

definition uninstall_wireguard :: "unit wio" where
  "uninstall_wireguard = thenE (ignoreE (warp_remove ACCOUNT_FILE)) (thenE (ignoreE (warp_remove ROUTING_FILE)) reload_warp)"

section \<open>The watchdog\<close>

definition FAILURE_THRESHOLD :: nat where "FAILURE_THRESHOLD = 3"

definition is_tunnel_healthy :: "string \<Rightarrow> bool" where
  "is_tunnel_healthy body =
     list_ex (\<lambda>raw. case strip_prefix ''warp='' (trim raw) of
        Some v \<Rightarrow> trim v = ''on'' \<or> trim v = ''plus'' | None \<Rightarrow> False) (str_lines body)"

text \<open>\<open>None\<close>: the request failed or timed out.\<close>

definition probe_tunnel_health :: "ran \<Rightarrow> bool option" where
  "probe_tunnel_health r = (case r of RanWith True out _ \<Rightarrow> Some (is_tunnel_healthy out) | _ \<Rightarrow> None)"

text \<open>The tracker of consecutive failures; the counter saturates at \<open>u32::MAX\<close>.\<close>

definition tracker_record :: "bool \<Rightarrow> nat \<Rightarrow> nat" where
  "tracker_record success n = (if success then 0 else min (n + 1) (2 ^ 32 - 1))"

definition should_restart :: "nat \<Rightarrow> bool" where
  "should_restart n \<longleftrightarrow> n \<ge> FAILURE_THRESHOLD"

text \<open>What one round sees: whether usque is installed and what became of the request through the tunnel.\<close>

datatype round_input = NotThere | Asked ran

record watchdog =
  wd_failures :: nat
  wd_health :: "bool option"
  wd_restarts :: nat

definition health_round :: "round_input \<Rightarrow> watchdog \<Rightarrow> watchdog" where
  "health_round i d =
     (case i of
        NotThere \<Rightarrow> d\<lparr>wd_failures := 0\<rparr>
      | Asked r \<Rightarrow>
          (case probe_tunnel_health r of
             None \<Rightarrow> d
           | Some healthy \<Rightarrow>
               (let n = tracker_record healthy (wd_failures d); d1 = d\<lparr>wd_health := Some healthy, wd_failures := n\<rparr>
                in if should_restart n then d1\<lparr>wd_failures := 0, wd_restarts := wd_restarts d + 1\<rparr> else d1)))"

definition watch :: "round_input list \<Rightarrow> watchdog \<Rightarrow> watchdog" where
  "watch is d = fold health_round is d"

definition watchdog_start :: watchdog where
  "watchdog_start = \<lparr>wd_failures = 0, wd_health = None, wd_restarts = 0\<rparr>"

section \<open>Nothing runs before the hash was checked\<close>

definition release_verified :: "warp_env \<Rightarrow> string \<Rightarrow> bool" where
  "release_verified e expected \<longleftrightarrow> (\<exists>k fs out errs. fst (we_exec e k ''sha256sum'' [ZIP] fs) = RanWith True out errs
     \<and> verify_sha256 expected (case split_whitespace out of x # _ \<Rightarrow> x | [] \<Rightarrow> []))"

text \<open>The log grew by commands with a property only (and by other effects).\<close>

definition runs_only :: "(string \<Rightarrow> bool) \<Rightarrow> warp_effect list \<Rightarrow> warp_world \<Rightarrow> bool" where
  "runs_only ok l w \<longleftrightarrow> (\<exists>new. wp_log w = l @ new \<and> (\<forall>p args. WRun p args \<in> set new \<longrightarrow> ok p))"

lemma runs_only_add:
  "runs_only ok l w \<Longrightarrow> wp_log w' = wp_log w @ [ef] \<Longrightarrow> (\<And>p args. ef = WRun p args \<Longrightarrow> ok p) \<Longrightarrow> runs_only ok l w'"
  unfolding runs_only_def by fastforce

lemma run_program_log: "wp_log (snd (run_program e p args w)) = wp_log w @ [WRun p args]"
  by (simp add: run_program_def Let_def split: prod.split)

lemma runs_program: "ok p \<Longrightarrow> invar (runs_only ok l) (run_program e p args)"
  by (rule invar_snd) (rule runs_only_add [OF _ run_program_log], auto)

lemma runs_or_fail: "ok p \<Longrightarrow> invar (runs_only ok l) (run_or_fail e p args what)"
  unfolding run_or_fail_def by (rule io_triple_bind [OF runs_program]) (auto intro: io_triple_ret io_triple_fail split: prod.split)

lemma runs_step: "(\<And>p args. ef \<noteq> WRun p args) \<Longrightarrow> (\<And>w. wp_log (good w) = wp_log w) \<Longrightarrow> (\<And>l w. wp_log (bad l w) = wp_log w)
    \<Longrightarrow> invar (runs_only ok l) (warp_step ef good bad)"
  by (rule invar_snd, rule runs_only_add [where ef = ef]) (auto simp: warp_step_def split: option.split)

lemma verify_only_when_verified:
  assumes "ok ''sha256sum''"
  shows "io_triple (runs_only ok l) (verify_downloaded e ZIP expected) (\<lambda>_ w. release_verified e expected \<and> runs_only ok l w) (runs_only ok l)"
proof -
  have "io_triple (runs_only ok l) (run_or_fail e ''sha256sum'' [ZIP] ''sha256sum failed: '')
     (\<lambda>out w. (\<exists>k fs errs. fst (we_exec e k ''sha256sum'' [ZIP] fs) = RanWith True out errs) \<and> runs_only ok l w) (runs_only ok l)"
  proof (rule io_triple_value [OF runs_or_fail [of ok, OF assms]])
    fix w out w' assume "run_or_fail e ''sha256sum'' [ZIP] ''sha256sum failed: '' w = (Inr out, w')"
    then obtain x w1 where x: "run_program e ''sha256sum'' [ZIP] w = (Inr x, w1)"
      and k: "(case x of (ok, out, errs) \<Rightarrow> if ok then retE out else failE (''sha256sum failed: '' @ trim errs)) w1 = (Inr out :: string + string, w')"
      unfolding run_or_fail_def by (rule bindE_success)
    obtain ok o' errs where t: "x = (ok, o', errs)" by (cases x)
    have "ok \<and> o' = out" using k t by (simp split: if_splits)
    moreover obtain r fs where r: "we_exec e (length (wp_log w)) ''sha256sum'' [ZIP] (wp_files w) = (r, fs)" by fastforce
    ultimately have "r = RanWith True out errs" using x t by (cases r) (simp_all add: run_program_def)
    with r show "\<exists>k fs errs. fst (we_exec e k ''sha256sum'' [ZIP] fs) = RanWith True out errs" by (metis fst_conv)
  qed
  then show ?thesis unfolding verify_downloaded_def
    by (rule io_triple_bind) (auto simp: Let_def release_verified_def intro!: io_triple_ret io_triple_fail)
qed

definition before_check :: "string \<Rightarrow> bool" where
  "before_check p \<longleftrightarrow> p \<in> {''curl'', ''sha256sum''}"

lemma install_runs:
  assumes "pinned_target arch = Some (asset, expected)" "\<not> release_verified e expected"
  shows "invar (runs_only before_check l) (usque_install e arch)"
proof -
  let ?I = "runs_only before_check l"
  let ?rest = "thenE (extract_binary e ZIP) (thenE (ignoreE (warp_remove ZIP)) (thenE (register_usque e)
      (thenE (write_service_unit e) (enable_service e))))"
  have mk: "invar ?I (warp_step (WMkdir USQUE_DIR) id (\<lambda>_. id))" by (rule runs_step) auto
  have dl: "invar ?I (download_asset e (release_url asset) ZIP)"
    unfolding download_asset_def by (rule io_triple_bind [OF runs_or_fail]) (simp_all add: before_check_def io_triple_ret)
  have ver: "io_triple ?I (verify_downloaded e ZIP expected) (\<lambda>_ _. False) ?I"
    by (rule io_triple_weaken [OF verify_only_when_verified [of before_check]]) (use assms(2) in \<open>simp_all add: before_check_def\<close>)
  have rest: "io_triple (\<lambda>_. False) ?rest (\<lambda>_. ?I) ?I" by (simp add: io_triple_def)
  have body: "invar ?I (thenE (warp_step (WMkdir USQUE_DIR) id (\<lambda>_. id)) (thenE (download_asset e (release_url asset) ZIP)
      (thenE (verify_downloaded e ZIP expected) ?rest)))"
    by (rule io_triple_then [OF mk io_triple_then [OF dl io_triple_then [OF ver rest]]])
  show ?thesis
  proof (rule invar_snd)
    fix w assume "?I w"
    show "?I (snd (usque_install e arch w))"
    proof (cases "exists_file USQUE_CONFIG w")
      case True
      then show ?thesis using \<open>?I w\<close> by (simp add: usque_install_def)
    next
      case False
      then show ?thesis using io_triple_end [OF body \<open>?I w\<close>] by (simp only: usque_install_def assms(1) option.case prod.case if_False)
    qed
  qed
qed


text \<open>A host where everything works, but one effect may fail.\<close>

definition usque_sample_exec :: "nat \<Rightarrow> string \<Rightarrow> string list \<Rightarrow> (string \<Rightarrow> warp_file) \<Rightarrow> ran \<times> (string \<Rightarrow> warp_file)" where
  "usque_sample_exec k p args fs =
     (if p = ''sha256sum'' then (RanWith True (USQUE_SHA256_LINUX_AMD64 @ ''  usque.zip'') [], fs)
      else if p = ''unzip'' then (RanWith True [] [], fs(USQUE_BIN := Blob []))
      else if p = USQUE_BIN then (RanWith True [] [], fs(USQUE_CONFIG := Blob []))
      else (RanWith True [] [], fs))"

definition usque_sample_env :: warp_env where
  "usque_sample_env = \<lparr>we_now = (\<lambda>_. 0), we_exec = usque_sample_exec, we_systemd = True, we_probe = (UdpBlocked, AvailableH2),
     we_register = Inl ''blocked'', we_register_scope = DomainScope\<rparr>"

definition usque_sample_world :: "(nat \<Rightarrow> (string \<times> warp_file) option) \<Rightarrow> warp_world" where
  "usque_sample_world bad = \<lparr>wp_files = (\<lambda>_. Absent), wp_log = [], wp_bad = bad, wp_cache = None, wp_health = None\<rparr>"


text \<open>Also: An installation that fails after the account was registered is not repeated: the service unit is missing, yet
  the next attempt finds the account file and reports success.\<close>

theorem half_install_sticks:
  "\<exists>e w w1. usque_install e ''amd64'' w = (Inl ''disk full'', w1) \<and> wp_files w1 USQUE_SERVICE_PATH = Absent
    \<and> usque_install e ''amd64'' w1 = (Inr (), w1)"
proof (intro exI conjI)
  let ?w = "usque_sample_world (\<lambda>n. if n = 7 then Some (''disk full'', Absent) else None)"
  let ?w1 = "snd (usque_install usque_sample_env ''amd64'' ?w)"
  have "fst (usque_install usque_sample_env ''amd64'' ?w) = Inl ''disk full''" by code_simp
  then show "usque_install usque_sample_env ''amd64'' ?w = (Inl ''disk full'', ?w1)" by (simp add: prod_eq_iff)
  show "wp_files ?w1 USQUE_SERVICE_PATH = Absent" by code_simp
  have "exists_file USQUE_CONFIG ?w1" by code_simp
  then show "usque_install usque_sample_env ''amd64'' ?w1 = (Inr (), ?w1)" by (simp add: usque_install_def)
qed

section \<open>Removing one of the two\<close>

text \<open>Also: Removing WireGuard alone leaves usque as it is, but takes the shared routing file and the probe with it:
  usque counts as installed, while no rule sends anything to it and the list of domains is gone.\<close>

theorem removing_wireguard_unroutes_usque:
  assumes "wp_bad w = (\<lambda>_. None)"
  shows "\<exists>u w'. uninstall_one e OnlyWireGuard w = (Inr u, w')
    \<and> ik_usque (detect_installed w') = ik_usque (detect_installed w) \<and> \<not> ik_wireguard (detect_installed w')
    \<and> wp_cache w' = None \<and> get_warp_routing_rules w' = (Inr ([], DefaultMode, DomainScope), w')"
proof -
  have rm: "\<exists>r. warp_remove p w = (r, w\<lparr>wp_files := (wp_files w)(p := Absent), wp_log := wp_log w @ [WRemove p]\<rparr>)"
    if "wp_bad w = (\<lambda>_. None)" for p w
    using that by (cases "wp_files w p = Absent") (auto simp: warp_remove_def warp_step_def put_file_def fun_upd_idem)
  obtain r1 where r1: "warp_remove ACCOUNT_FILE w = (r1, w\<lparr>wp_files := (wp_files w)(ACCOUNT_FILE := Absent), wp_log := wp_log w @ [WRemove ACCOUNT_FILE]\<rparr>)"
    using rm [OF assms] by blast
  let ?w1 = "w\<lparr>wp_files := (wp_files w)(ACCOUNT_FILE := Absent), wp_log := wp_log w @ [WRemove ACCOUNT_FILE]\<rparr>"
  obtain r2 where r2: "warp_remove ROUTING_FILE ?w1 = (r2, ?w1\<lparr>wp_files := (wp_files ?w1)(ROUTING_FILE := Absent), wp_log := wp_log ?w1 @ [WRemove ROUTING_FILE]\<rparr>)"
    using rm [of ?w1] assms by auto
  have names: "USQUE_CONFIG \<noteq> ACCOUNT_FILE" "USQUE_CONFIG \<noteq> ROUTING_FILE" by (simp_all add: USQUE_CONFIG_def ACCOUNT_FILE_def ROUTING_FILE_def)
  show ?thesis
    by (simp add: uninstall_one_def thenE_apply ignoreE_def catchE_apply r1 r2 clear_probe_def reload_warp_def warp_step_def assms cache_clear_def
        detect_installed_def exists_file_def names get_warp_routing_rules_def bindE_apply read_routing_file_def read_scope_def read_doc_def)
qed

theorem removing_wireguard_unroutes_usque_witness:
  "\<exists>u w'. uninstall_one warp_sample_env OnlyWireGuard (warp_sample_world 600) = (Inr u, w') \<and> wp_cache w' = None"
  using removing_wireguard_unroutes_usque [of "warp_sample_world 600" warp_sample_env] by (auto simp: warp_sample_world_def)

section \<open>The watchdog\<close>

definition decided :: "round_input \<Rightarrow> bool" where
  "decided i \<longleftrightarrow> (case i of Asked r \<Rightarrow> probe_tunnel_health r \<noteq> None | NotThere \<Rightarrow> False)"

definition says_down :: "round_input \<Rightarrow> bool" where
  "says_down i \<longleftrightarrow> (case i of Asked r \<Rightarrow> probe_tunnel_health r \<noteq> Some True | NotThere \<Rightarrow> False)"

lemma round_undecided: "says_down i \<Longrightarrow> \<not> decided i \<Longrightarrow> health_round i d = d"
  by (cases i) (auto simp: says_down_def decided_def health_round_def)

lemma round_down:
  "says_down i \<Longrightarrow> decided i \<Longrightarrow> wd_failures d < 3 \<Longrightarrow>
   wd_failures (health_round i d) = (wd_failures d + 1) mod 3
   \<and> wd_restarts (health_round i d) = wd_restarts d + (wd_failures d + 1) div 3"
proof -
  assume i: "says_down i" "decided i" and n: "wd_failures d < 3"
  obtain r where r: "i = Asked r" "probe_tunnel_health r = Some False"
    using i by (cases i) (auto simp: says_down_def decided_def)
  from n consider "wd_failures d = 0" | "wd_failures d = 1" | "wd_failures d = 2" by linarith
  then show ?thesis
    by cases (simp_all add: r health_round_def Let_def tracker_record_def should_restart_def FAILURE_THRESHOLD_def)
qed

lemma watch_down:
  assumes "list_all says_down inputs" "wd_failures d < 3"
  shows "wd_failures (watch inputs d) = (wd_failures d + length (filter decided inputs)) mod 3
    \<and> wd_restarts (watch inputs d) = wd_restarts d + (wd_failures d + length (filter decided inputs)) div 3"
  using assms
proof (induction inputs arbitrary: d)
  case Nil
  then show ?case by (simp add: watch_def)
next
  case (Cons i inputs)
  have step: "watch (i # inputs) d = watch inputs (health_round i d)" by (simp add: watch_def)
  show ?case
  proof (cases "decided i")
    case False
    then have "health_round i d = d" using Cons.prems by (intro round_undecided) auto
    then show ?thesis using Cons.IH [of d] Cons.prems step False by simp
  next
    case True
    have r: "wd_failures (health_round i d) = (wd_failures d + 1) mod 3"
      "wd_restarts (health_round i d) = wd_restarts d + (wd_failures d + 1) div 3"
      using round_down [OF _ True Cons.prems(2)] Cons.prems(1) by simp_all
    have ih: "wd_failures (watch inputs (health_round i d)) = (wd_failures (health_round i d) + length (filter decided inputs)) mod 3
      \<and> wd_restarts (watch inputs (health_round i d)) = wd_restarts (health_round i d) + (wd_failures (health_round i d) + length (filter decided inputs)) div 3"
      using Cons.prems(1) r(1) by (intro Cons.IH) simp_all
    have m: "(x mod 3 + k) mod 3 = (x + k) mod 3 \<and> x div 3 + (x mod 3 + k) div 3 = (x + k) div 3" for x k :: nat
      by presburger
    show ?thesis using ih m [of "wd_failures d + 1" "length (filter decided inputs)"] r True step by simp
  qed
qed

text \<open>C26: The watchdog restarts usque once for every three answers through the tunnel that say it is down, as long as none says
  it is up and usque stays installed; rounds without an answer count for nothing. In particular a tunnel that
  hangs so that no request through it gets an answer - the case the watchdog exists for - is never restarted.\<close>

theorem watchdog_exact:
  assumes "list_all says_down inputs"
  shows "wd_restarts (watch inputs watchdog_start) = length (filter decided inputs) div 3
    \<and> (list_all (\<lambda>i. \<not> decided i) inputs \<longrightarrow> watch inputs watchdog_start = watchdog_start)"
proof
  show "wd_restarts (watch inputs watchdog_start) = length (filter decided inputs) div 3"
    using watch_down [OF assms, of watchdog_start] by (simp add: watchdog_start_def)
  show "list_all (\<lambda>i. \<not> decided i) inputs \<longrightarrow> watch inputs watchdog_start = watchdog_start"
    using assms round_undecided by (induction inputs) (simp_all add: watch_def)
qed

theorem watchdog_exact_witness:
  "wd_restarts (watch (replicate 7 (Asked (RanWith True ''warp=off'' [])) @ [Asked (NotRun ''timeout'')]) watchdog_start) = 2"
proof -
  have "str_lines ''warp=off'' = [''warp=off'']" by (simp add: str_lines_def Let_def)
  moreover have "trim ''warp=off'' = ''warp=off''" "trim ''off'' = ''off''" by (rule trim_plain, simp_all add: plain_char_def)+
  ultimately have off: "probe_tunnel_health (RanWith True ''warp=off'' []) = Some False"
    by (simp add: probe_tunnel_health_def is_tunnel_healthy_def strip_prefix_def)
  have none: "probe_tunnel_health (NotRun ''timeout'') = None" by (simp add: probe_tunnel_health_def)
  show ?thesis
    using conjunct1 [OF watchdog_exact [of "replicate 7 (Asked (RanWith True ''warp=off'' [])) @ [Asked (NotRun ''timeout'')]"]]
    by (simp add: says_down_def decided_def off none list_all_iff)
qed

section \<open>Wiring usque up\<close>

text \<open>C28: On a host without a WARP routing file - a first installation - wiring usque up routes nothing through it: a missing
  file is read as no rules with the domain scope, so the default of a fresh installation, all traffic, is never
  taken; the written file has the one rule for the local test inbound, and even that rule names an outbound that
  does not exist.\<close>

theorem fresh_wiring_is_inert:
  assumes "wp_files w ROUTING_FILE = Absent" "current_egress e w = Masque" "wire_up_usque e w = (Inr (), w')"
  shows "\<exists>v. wp_files w' ROUTING_FILE = Doc v \<and> scope_from_config v = DomainScope
    \<and> jidx ''rules'' (jidx ''routing'' v) = JArr [JObj [(''type'', JStr ''field''), (''inboundTag'', JArr [JStr ''warp-in'']), (''outboundTag'', JStr ''warp'')]]
    \<and> outbound_tags v = [''proxy-warp'']"
proof -
  have "get_warp_routing_rules w = (Inr ([], DefaultMode, DomainScope), w)"
    by (simp add: get_warp_routing_rules_def bindE_apply read_routing_file_def exists_file_def read_scope_def read_doc_def assms(1))
  then have "wire_up_usque e w = update_warp_routing_rules e [] DefaultMode DomainScope False w"
    by (simp add: wire_up_usque_def catchE_apply Let_def resolve_install_scope_def)
  with assms(3) have "update_warp_routing_rules e [] DefaultMode DomainScope False w = (Inr (), w')" by simp
  from update_result [OF this] assms(2)
  have "wp_files w' ROUTING_FILE = Doc (warp_document (masque_outbound SOCKS_ADDR SOCKS_PORT) DefaultMode (build_routing_rules [] DomainScope True) DomainScope)"
    by (auto simp: proxy_outbound_def is_warp_enabled_def)
  then show ?thesis
    unfolding written_scope
    by (intro exI conjI, assumption) (simp_all add: warp_document_def build_routing_rules_def is_global_def outbound_tags_def masque_outbound_def
        List.map_filter_simps scope_from_config_def scope_named_def)
qed

theorem fresh_wiring_is_inert_witness:
  "\<exists>v. wp_files (snd (wire_up_usque warp_sample_env (warp_sample_world 600))) ROUTING_FILE = Doc v \<and> outbound_tags v = [''proxy-warp'']"
proof -
  have a: "wp_files (warp_sample_world 600) ROUTING_FILE = Absent" by (simp add: warp_sample_world_def)
  have "fst (wire_up_usque warp_sample_env (warp_sample_world 600)) = Inr ()"
    by (simp add: wire_up_usque_def catchE_apply warp_sample_get Let_def resolve_install_scope_def update_warp_routing_rules_def bindE_apply
        thenE_apply proxy_outbound_def warp_sample_egress write_file_def reload_warp_def warp_step_def put_file_def)
      (simp add: warp_sample_world_def warp_step_def put_file_def)
  then have "wire_up_usque warp_sample_env (warp_sample_world 600) = (Inr (), snd (wire_up_usque warp_sample_env (warp_sample_world 600)))"
    by (simp add: prod_eq_iff)
  from fresh_wiring_is_inert [OF a warp_sample_egress this] show ?thesis by blast
qed

end
