(* ===== verification/Acme.thy ===== *)
theory Acme
  imports CoreTypes Triples "HOL-Library.List_Lexorder" "HOL-Library.Char_ord"
begin

text \<open>
  Certificates, \<open>core/security/acme.rs\<close>: which domains are accepted, where their certificates live,
  which DNS provider a host is set up for, the commands of \<open>acme.sh\<close> and their credentials, how a failure
  is classified, and when a certificate counts as valid.

  The state is the part of the file system the code reads and tightens, and the log of its effects.
  A command is the parameter \<open>ae_exec\<close>: it gets its position in the log, the program, the arguments, the whole
  environment and the files, and gives how it ended with the files as it left them. The X.509 parser, the percent
  decoder and \<open>from_utf8_lossy\<close> are parameters too. Not modelled: how a command that runs out of time is
  hunted down through \<open>/proc\<close>; here it is one outcome, \<open>TimedOut\<close>.
\<close>

section \<open>Failures\<close>

datatype acme_failure_kind = Authentication | Scope | DnsFailure | Network | TimeoutFailure | UnknownFailure

fun failure_code :: "acme_failure_kind \<Rightarrow> string" where
  "failure_code Authentication = ''ACME-AUTH''"
| "failure_code Scope = ''ACME-SCOPE''"
| "failure_code DnsFailure = ''ACME-DNS''"
| "failure_code Network = ''ACME-NETWORK''"
| "failure_code TimeoutFailure = ''ACME-TIMEOUT''"
| "failure_code UnknownFailure = ''ACME-UNKNOWN''"

datatype acme_error = CommandError acme_failure_kind | OtherError string

section \<open>Domains and paths\<close>

definition valid_dns_label :: "string \<Rightarrow> bool" where
  "valid_dns_label l \<longleftrightarrow> l \<noteq> [] \<and> length l \<le> 63
     \<and> list_all (\<lambda>c. is_ascii_alphanumeric c \<or> c = CHR ''-'') l
     \<and> is_ascii_alphanumeric (hd l) \<and> is_ascii_alphanumeric (last l)"

definition validate_domain :: "string \<Rightarrow> acme_error + string" where
  "validate_domain input =
     (if \<not> is_ascii input then Inl (OtherError ''domain must contain ASCII characters only'')
      else let domain = to_ascii_lowercase (case strip_suffix ''.'' input of Some r \<Rightarrow> r | None \<Rightarrow> input) in
        if length domain > 253 \<or> CHR ''.'' \<notin> set domain
        then Inl (OtherError ''domain must be a dotted DNS name of at most 253 characters'')
        else if list_all valid_dns_label (split_on (CHR ''.'') domain) then Inr domain
        else Inl (OtherError ''domain contains an invalid DNS label''))"

record cert_path_pair =
  cp_fullchain :: string
  cp_privkey :: string

definition CERT_ROOT :: string where "CERT_ROOT = ''/root/cert''"
definition ACME_HOME :: string where "ACME_HOME = ''/root/.acme.sh''"
definition ACME_BIN :: string where "ACME_BIN = ''/root/.acme.sh/acme.sh''"
definition ACCOUNT_CONF :: string where "ACCOUNT_CONF = ''/root/.acme.sh/account.conf''"

definition cert_directory :: "string \<Rightarrow> string" where
  "cert_directory domain = CERT_ROOT @ ''/'' @ domain"

definition paths_of :: "string \<Rightarrow> cert_path_pair" where
  "paths_of domain = \<lparr>cp_fullchain = cert_directory domain @ ''/fullchain.pem'', cp_privkey = cert_directory domain @ ''/privkey.pem''\<rparr>"

definition acme_cert_paths :: "string \<Rightarrow> acme_error + cert_path_pair" where
  "acme_cert_paths domain = (case validate_domain domain of Inl e \<Rightarrow> Inl e | Inr d \<Rightarrow> Inr (paths_of d))"

definition ecc_domain_config_path :: "string \<Rightarrow> acme_error + string" where
  "ecc_domain_config_path domain =
     (case validate_domain domain of
        Inl e \<Rightarrow> Inl e
      | Inr d \<Rightarrow> Inr (ACME_HOME @ ''/'' @ d @ ''_ecc/'' @ d @ ''.conf''))"

section \<open>The host\<close>

record acme_file =
  af_data :: string
  af_mode :: nat

record acme_files =
  fs_file :: "string \<Rightarrow> acme_file option"
  fs_dir :: "string \<Rightarrow> nat option" \<comment> \<open>the mode of a directory\<close>

datatype command_end = SpawnFails string | TimedOut | Exited bool string string

datatype acme_effect =
    Ran string "string list" "(string \<times> string) list"
  | MadeDir string
  | Chmod string nat

record acme_host =
  ah_files :: acme_files
  ah_log :: "acme_effect list"
  ah_unreadable :: "string \<Rightarrow> bool"
  ah_bad :: "nat \<Rightarrow> string option" \<comment> \<open>a \<open>chmod\<close> or \<open>mkdir\<close> that fails at this position of the log\<close>

datatype general_name = DNSName string | OtherName
datatype san = SanError | NoSan | San "general_name list"

record certificate =
  ce_not_before :: int
  ce_not_after :: int
  ce_san :: san
  ce_common_names :: "string list"

record acme_env =
  ae_exec :: "nat \<Rightarrow> string \<Rightarrow> string list \<Rightarrow> (string \<times> string) list \<Rightarrow> acme_files \<Rightarrow> command_end \<times> acme_files"
  ae_inherited :: "(string \<times> string) list"
  ae_now :: "nat \<Rightarrow> nat option" \<comment> \<open>seconds since the epoch; \<open>None\<close> for a clock before it\<close>
  ae_certificate :: "string \<Rightarrow> certificate option"
  ae_pct_decode :: "string \<Rightarrow> string" \<comment> \<open>\<open>percent_decode_str(s).decode_utf8_lossy()\<close>\<close>
  ae_lossy :: "string \<Rightarrow> string"

type_synonym 'a aio = "(acme_host, acme_error, 'a) eio"

definition from_result :: "'e + 'a \<Rightarrow> ('w, 'e, 'a) eio" where
  "from_result r = (case r of Inl e \<Rightarrow> failE e | Inr a \<Rightarrow> retE a)"

definition acme_log :: "acme_effect \<Rightarrow> acme_host \<Rightarrow> acme_host" where
  "acme_log ef h = h\<lparr>ah_log := ah_log h @ [ef]\<rparr>"

definition is_file :: "acme_host \<Rightarrow> string \<Rightarrow> bool" where
  "is_file h p \<longleftrightarrow> fs_file (ah_files h) p \<noteq> None"

definition path_exists :: "acme_host \<Rightarrow> string \<Rightarrow> bool" where
  "path_exists h p \<longleftrightarrow> is_file h p \<or> fs_dir (ah_files h) p \<noteq> None"

text \<open>\<open>read_to_string(..).unwrap_or_default()\<close>\<close>

definition read_or_empty :: "acme_host \<Rightarrow> string \<Rightarrow> string" where
  "read_or_empty h p = (case fs_file (ah_files h) p of Some f \<Rightarrow> if ah_unreadable h p then [] else af_data f | None \<Rightarrow> [])"

definition set_mode_if_exists :: "string \<Rightarrow> nat \<Rightarrow> unit aio" where
  "set_mode_if_exists p mode h =
     (if \<not> path_exists h p then (Inr (), h)
      else case ah_bad h (length (ah_log h)) of
             Some e \<Rightarrow> (Inl (OtherError e), acme_log (Chmod p mode) h)
           | None \<Rightarrow>
               (Inr (), (acme_log (Chmod p mode) h)\<lparr>ah_files :=
                  \<lparr>fs_file = (fs_file (ah_files h))(p := map_option (\<lambda>f. f\<lparr>af_mode := mode\<rparr>) (fs_file (ah_files h) p)),
                   fs_dir = (fs_dir (ah_files h))(p := map_option (\<lambda>_. mode) (fs_dir (ah_files h) p))\<rparr>\<rparr>))"

definition tighten_acme_permissions :: "unit aio" where
  "tighten_acme_permissions = thenE (set_mode_if_exists ACME_HOME 448) (set_mode_if_exists ACCOUNT_CONF 384)"

definition tighten_cert_permissions :: "string \<Rightarrow> unit aio" where
  "tighten_cert_permissions domain =
     thenE (set_mode_if_exists (cert_directory domain) 448)
     (thenE (set_mode_if_exists (cp_fullchain (paths_of domain)) 384)
       (set_mode_if_exists (cp_privkey (paths_of domain)) 384))"

definition create_dir_all :: "string \<Rightarrow> unit aio" where
  "create_dir_all p h =
     (case ah_bad h (length (ah_log h)) of
        Some e \<Rightarrow> (Inl (OtherError e), acme_log (MadeDir p) h)
      | None \<Rightarrow>
          (Inr (), (acme_log (MadeDir p) h)\<lparr>ah_files := (ah_files h)\<lparr>fs_dir :=
             (case fs_dir (ah_files h) p of Some m \<Rightarrow> fs_dir (ah_files h) | None \<Rightarrow> (fs_dir (ah_files h))(p \<mapsto> 493))\<rparr>\<rparr>))"

section \<open>The provider a host is set up for\<close>

definition first_comment :: "string \<Rightarrow> nat option" where
  "first_comment v = find (\<lambda>i. v ! i = CHR ''#'' \<and> (i = 0 \<or> ws_at_back (take i v) \<noteq> None)) [0..<length v]"

definition parse_assignment_value :: "string \<Rightarrow> string option" where
  "parse_assignment_value raw =
     (let value = trim raw in
      case value of
        q # quoted \<Rightarrow>
          if q = CHR 0x27 \<or> q = CHR 0x22 then
            (case split_once q quoted of
               None \<Rightarrow> None
             | Some (content, rest) \<Rightarrow>
                 let remainder = trim rest in
                 if remainder \<noteq> [] \<and> hd remainder \<noteq> CHR ''#'' then None
                 else if content = [] then None else Some content)
          else
            (let result = trim_end (case first_comment value of None \<Rightarrow> value | Some i \<Rightarrow> take i value)
             in if result = [] then None else Some result)
      | [] \<Rightarrow> None)"

definition assignment_of_line :: "string \<Rightarrow> string \<Rightarrow> string option" where
  "assignment_of_line name raw =
     (let line = (case strip_prefix ''export '' (trim raw) of Some r \<Rightarrow> r | None \<Rightarrow> trim raw) in
      case split_once (CHR ''='') line of
        None \<Rightarrow> None
      | Some (key, value) \<Rightarrow> if trim key = name then parse_assignment_value value else None)"

fun first_assignment :: "string \<Rightarrow> string list \<Rightarrow> string option" where
  "first_assignment name [] = None"
| "first_assignment name (l # ls) =
     (case assignment_of_line name l of Some v \<Rightarrow> Some v | None \<Rightarrow> first_assignment name ls)"

definition assignment_value :: "string \<Rightarrow> string \<Rightarrow> string option" where
  "assignment_value config name = first_assignment name (str_lines config)"

definition has_non_empty_assignment :: "string \<Rightarrow> string \<Rightarrow> bool" where
  "has_non_empty_assignment config name \<longleftrightarrow>
     list_ex (\<lambda>candidate. assignment_value config candidate \<noteq> None) [''SAVED_'' @ name, name]"

definition configured_provider_from_configs :: "string \<Rightarrow> string \<Rightarrow> dns_provider option" where
  "configured_provider_from_configs domain_config account_config =
     (if assignment_value domain_config ''CF_Token'' \<noteq> None \<and> assignment_value domain_config ''CF_Zone_ID'' \<noteq> None
      then Some Cloudflare
      else if has_non_empty_assignment account_config ''AWS_ACCESS_KEY_ID''
            \<and> has_non_empty_assignment account_config ''AWS_SECRET_ACCESS_KEY''
      then Some Route53 else None)"

definition configured_provider_for_domain :: "string \<Rightarrow> dns_provider option aio" where
  "configured_provider_for_domain domain h =
     (case ecc_domain_config_path domain of
        Inl e \<Rightarrow> (Inl e, h)
      | Inr p \<Rightarrow> (Inr (configured_provider_from_configs (read_or_empty h p) (read_or_empty h ACCOUNT_CONF)), h))"

section \<open>Classifying a failure\<close>

definition make_upper :: "char \<Rightarrow> char" where
  "make_upper c = (if 97 \<le> (of_char c :: nat) \<and> (of_char c :: nat) \<le> 122 then char_of ((of_char c :: nat) - 32) else c)"

fun normalize_percent_escapes :: "string \<Rightarrow> string" where
  "normalize_percent_escapes (p # a # b # s) =
     (if p = CHR ''%'' \<and> is_ascii_hexdigit a \<and> is_ascii_hexdigit b
      then p # make_upper a # make_upper b # normalize_percent_escapes s
      else p # normalize_percent_escapes (a # b # s))"
| "normalize_percent_escapes s = s"

definition plus_to_space :: "string \<Rightarrow> string" where
  "plus_to_space s = map (\<lambda>c. if c = CHR ''+'' then CHR '' '' else c) s"

definition CREDENTIAL_ENCODING_DEPTH :: nat where
  "CREDENTIAL_ENCODING_DEPTH = 2"

definition canonicalized_views :: "acme_env \<Rightarrow> string \<Rightarrow> string list" where
  "canonicalized_views e value =
     (let raw = normalize_percent_escapes value;
          percent = ((\<lambda>s. normalize_percent_escapes (ae_pct_decode e s)) ^^ CREDENTIAL_ENCODING_DEPTH) raw;
          form = ((\<lambda>s. normalize_percent_escapes (ae_pct_decode e (plus_to_space s))) ^^ CREDENTIAL_ENCODING_DEPTH) raw
      in if percent \<noteq> form then [percent, form] else [percent])"

text \<open>\<open>str::replace\<close>; an empty pattern matches before every character and at the end.\<close>

fun replace_from :: "string \<Rightarrow> string \<Rightarrow> nat \<Rightarrow> string \<Rightarrow> string" where
  "replace_from p r skip [] = []"
| "replace_from p r (Suc n) (c # s) = replace_from p r n s"
| "replace_from p r 0 (c # s) = (if prefix p (c # s) then r @ replace_from p r (length p - 1) s else c # replace_from p r 0 s)"

definition str_replace :: "string \<Rightarrow> string \<Rightarrow> string \<Rightarrow> string" where
  "str_replace p r s =
     (if p = [] then concat (map (\<lambda>c. if continuation c then [c] else r @ [c]) s) @ r else replace_from p r 0 s)"

definition auth_signatures :: "string list" where
  "auth_signatures = [''invalid access token'', ''invalid api token'', ''authentication error'', ''unauthorized'',
     [CHR 0x22] @ ''code'' @ [CHR 0x22] @ '':9109'', [CHR 0x22] @ ''code'' @ [CHR 0x22] @ '':10000'',
     ''signaturedoesnotmatch'', ''invalidclienttokenid'', ''invalidaccesskeyid'']"

definition scope_signatures :: "string list" where
  "scope_signatures = [''invalid domain'', ''permission denied'', ''forbidden'', ''not authorized'', ''accessdenied'',
     ''zone not found'', ''no matching zone'', ''domain not found'']"

definition dns_signatures :: "string list" where
  "dns_signatures = [''add txt record error'', ''error adding txt'', ''can not get record id'', ''delete record error'',
     ''dns problem'', ''dns validation error'']"

definition network_signatures :: "string list" where
  "network_signatures = [''could not resolve host'', ''connection timed out'', ''connection refused'', ''network is unreachable'',
     ''ssl connect error'', ''tls connect error'', ''order status'', ''rate limit'']"

text \<open>Longest first, equal lengths in order, without repetitions: \<open>sort_key\<close> is stable.\<close>

definition longest_first :: "string list \<Rightarrow> string list" where
  "longest_first xs = remdups_adj (sort_key (\<lambda>s. - int (length s)) (sort xs))"

definition classify_acme_failure :: "acme_env \<Rightarrow> string \<Rightarrow> string \<Rightarrow> (string \<times> string) list \<Rightarrow> acme_failure_kind" where
  "classify_acme_failure e stdout stderr environment =
     (let text = ae_lossy e stdout @ [CHR 0x0A] @ ae_lossy e stderr;
          values = longest_first (filter (\<lambda>v. v \<noteq> []) (map snd environment));
          representations = longest_first (concat (map (\<lambda>v. normalize_percent_escapes v # canonicalized_views e v) values));
          texts = map (\<lambda>t. to_ascii_lowercase (fold (\<lambda>r t. str_replace r ''[REDACTED]'' t) representations t))
                    (canonicalized_views e text);
          has = (\<lambda>signatures. list_ex (\<lambda>signature. list_all (contains_str signature) texts) signatures)
      in if has auth_signatures then Authentication
         else if has scope_signatures then Scope
         else if has dns_signatures then DnsFailure
         else if has network_signatures then Network
         else UnknownFailure)"

section \<open>Running a command\<close>

definition DNS_CREDENTIAL_VARS :: "string list" where
  "DNS_CREDENTIAL_VARS = [''AWS_ACCESS_KEY_ID'', ''AWS_SECRET_ACCESS_KEY'', ''CF_Token'', ''CF_Zone_ID'', ''CF_Account_ID'',
     ''SAVED_AWS_ACCESS_KEY_ID'', ''SAVED_AWS_SECRET_ACCESS_KEY'', ''SAVED_CF_Token'', ''SAVED_CF_Zone_ID'', ''SAVED_CF_Account_ID'']"

definition is_acme_program :: "string \<Rightarrow> bool" where
  "is_acme_program program \<longleftrightarrow> program = ACME_BIN"

definition command_environment :: "acme_env \<Rightarrow> (string \<times> string) list \<Rightarrow> (string \<times> string) list" where
  "command_environment e environment = filter (\<lambda>(n, _). n \<notin> set DNS_CREDENTIAL_VARS) (ae_inherited e) @ environment"

definition run_command :: "acme_env \<Rightarrow> string \<Rightarrow> string list \<Rightarrow> (string \<times> string) list \<Rightarrow> string aio" where
  "run_command e program args environment h =
     (let full = command_environment e environment;
          (ending, files) = ae_exec e (length (ah_log h)) program args full (ah_files h);
          h' = (acme_log (Ran program args full) h)\<lparr>ah_files := files\<rparr>
      in (case ending of
            SpawnFails err \<Rightarrow> Inl (OtherError err)
          | TimedOut \<Rightarrow>
              Inl (if is_acme_program program then CommandError TimeoutFailure else OtherError ''command timed out'')
          | Exited success stdout stderr \<Rightarrow>
              (if \<not> success then
                 Inl (if is_acme_program program then CommandError (classify_acme_failure e stdout stderr environment)
                      else OtherError ''command failed'')
               else Inr (if is_acme_program program then [] else stdout)), h'))"

section \<open>Valid certificates\<close>

definition MIN_VALIDITY :: int where
  "MIN_VALIDITY = 30 * 24 * 60 * 60"

definition dns_name_matches :: "string \<Rightarrow> string \<Rightarrow> bool" where
  "dns_name_matches pattern domain =
     (let p = to_ascii_lowercase pattern; d = to_ascii_lowercase domain in
      if p = d then True
      else case Option.bind (strip_prefix ''*.'' p) (\<lambda>sfx. strip_suffix sfx d) of
             None \<Rightarrow> False
           | Some pre \<Rightarrow> pre \<noteq> [] \<and> last pre = CHR ''.'' \<and> CHR ''.'' \<notin> set (butlast pre))"

definition certificate_matches_domain :: "certificate \<Rightarrow> string \<Rightarrow> bool" where
  "certificate_matches_domain c domain =
     (case ce_san c of
        San names \<Rightarrow> list_ex (\<lambda>n. case n of DNSName p \<Rightarrow> dns_name_matches p domain | OtherName \<Rightarrow> False) names
      | NoSan \<Rightarrow> list_ex (\<lambda>p. dns_name_matches p domain) (ce_common_names c)
      | SanError \<Rightarrow> False)"

definition public_key :: "acme_env \<Rightarrow> string \<Rightarrow> bool \<Rightarrow> (acme_host, 'e, string option) eio" where
  "public_key e path is_certificate =
     catchE (run_command e ''openssl'' (if is_certificate then [''x509'', ''-in'', path, ''-pubkey'', ''-noout'']
                                        else [''pkey'', ''-in'', path, ''-pubout'']) [])
       (\<lambda>r. retE (case r of Inl _ \<Rightarrow> None | Inr stdout \<Rightarrow> Some stdout))"

text \<open>What the files say by themselves, before the keys are compared.\<close>

definition certificate_readable :: "acme_env \<Rightarrow> string \<Rightarrow> int \<Rightarrow> acme_host \<Rightarrow> bool" where
  "certificate_readable e domain now h =
     (case (fs_file (ah_files h) (cp_fullchain (paths_of domain)), fs_file (ah_files h) (cp_privkey (paths_of domain))) of
        (Some chain, Some _) \<Rightarrow>
          \<not> ah_unreadable h (cp_fullchain (paths_of domain))
          \<and> (case ae_certificate e (af_data chain) of
               None \<Rightarrow> False
             | Some c \<Rightarrow> now + MIN_VALIDITY < 2 ^ 63 \<and> ce_not_before c \<le> now \<and> now + MIN_VALIDITY < ce_not_after c
                 \<and> certificate_matches_domain c domain)
      | _ \<Rightarrow> False)"

definition certificate_files_valid :: "acme_env \<Rightarrow> string \<Rightarrow> int \<Rightarrow> (acme_host, 'e, bool) eio" where
  "certificate_files_valid e domain now h =
     (if \<not> certificate_readable e domain now h then (Inr False, h)
      else bindE (public_key e (cp_fullchain (paths_of domain)) True) (\<lambda>ck.
           bindE (public_key e (cp_privkey (paths_of domain)) False) (\<lambda>pk.
           retE (case (ck, pk) of (Some a, Some b) \<Rightarrow> a = b | _ \<Rightarrow> False))) h)"

definition cert_valid :: "acme_env \<Rightarrow> string \<Rightarrow> (acme_host, 'e, cert_path_pair option) eio" where
  "cert_valid e domain h =
     (case validate_domain domain of
        Inl _ \<Rightarrow> (Inr None, h)
      | Inr d \<Rightarrow>
          (case ae_now e (length (ah_log h)) of
             None \<Rightarrow> (Inr None, h)
           | Some secs \<Rightarrow>
               if secs \<ge> 2 ^ 63 then (Inr None, h)
               else bindE (certificate_files_valid e d (int secs)) (\<lambda>ok. retE (if ok then Some (paths_of d) else None)) h))"

section \<open>Issuing\<close>

datatype certificate_operation = Issue | Renew

definition operation_for_domain :: "string \<Rightarrow> certificate_operation aio" where
  "operation_for_domain domain h =
     (case ecc_domain_config_path domain of
        Inl e \<Rightarrow> (Inl e, h)
      | Inr p \<Rightarrow> (Inr (if is_file h p then Renew else Issue), h))"

definition issue_args :: "string \<Rightarrow> dns_provider \<Rightarrow> string list" where
  "issue_args d provider = [''--issue'', ''--server'', ''letsencrypt'', ''--keylength'', ''ec-256'', ''--dns'', acme_flag provider, ''-d'', d]"

definition renew_args :: "string \<Rightarrow> string list" where
  "renew_args d = [''--renew'', ''--server'', ''letsencrypt'', ''--ecc'', ''-d'', d, ''--force'']"

definition install_args_for_paths :: "string \<Rightarrow> cert_path_pair \<Rightarrow> string list" where
  "install_args_for_paths d p =
     [''--install-cert'', ''--ecc'', ''-d'', d, ''--fullchain-file'', cp_fullchain p, ''--key-file'', cp_privkey p]"

definition certificate_commands :: "string \<Rightarrow> dns_provider \<Rightarrow> certificate_operation \<Rightarrow> cert_path_pair \<Rightarrow> string list list" where
  "certificate_commands d provider operation paths =
     [case operation of Issue \<Rightarrow> issue_args d provider | Renew \<Rightarrow> renew_args d, install_args_for_paths d paths]"

fun execute_acme_sequence :: "acme_env \<Rightarrow> string list list \<Rightarrow> (string \<times> string) list \<Rightarrow> unit aio" where
  "execute_acme_sequence e [] environment = retE ()"
| "execute_acme_sequence e (args # rest) environment =
     bindE (run_command e ACME_BIN args environment) (\<lambda>_. execute_acme_sequence e rest [])"

definition issue_cert_for_operation ::
  "acme_env \<Rightarrow> string \<Rightarrow> dns_provider \<Rightarrow> (string \<times> string) option \<Rightarrow> certificate_operation \<Rightarrow> cert_path_pair aio" where
  "issue_cert_for_operation e domain provider credentials operation =
     bindE (from_result (validate_domain domain)) (\<lambda>d.
     thenE (create_dir_all (cert_directory d))
     (thenE (tighten_cert_permissions d)
     (let environment = (case credentials of
            Some (a, b) \<Rightarrow> [(fst (credential_names provider), a), (snd (credential_names provider), b)]
          | None \<Rightarrow> []) in
      catchE (execute_acme_sequence e (certificate_commands d provider operation (paths_of d)) environment) (\<lambda>command_result.
      thenE tighten_acme_permissions
      (thenE (tighten_cert_permissions d)
      (bindE (from_result command_result) (\<lambda>_.
       bindE (\<lambda>h. (case ae_now e (length (ah_log h)) of
                    None \<Rightarrow> Inl (OtherError ''clock before the epoch'')
                  | Some secs \<Rightarrow> Inr (if secs < 2 ^ 63 then int secs else int secs - 2 ^ 64), h)) (\<lambda>now.
       bindE (certificate_files_valid e d now) (\<lambda>ok.
       if ok then retE (paths_of d) else failE (OtherError ''invalid certificate material''))))))))))"

definition issue_cert :: "acme_env \<Rightarrow> string \<Rightarrow> dns_provider \<Rightarrow> (string \<times> string) option \<Rightarrow> cert_path_pair aio" where
  "issue_cert e domain provider credentials =
     bindE (operation_for_domain domain) (\<lambda>operation. issue_cert_for_operation e domain provider credentials operation)"

definition ensure_installed :: "acme_env \<Rightarrow> string aio" where
  "ensure_installed e h =
     (if is_file h ACME_BIN then thenE tighten_acme_permissions (retE ACME_BIN) h
      else bindE (run_command e ''sh'' [''-c'', ''curl -fsSL https://get.acme.sh | sh''] []) (\<lambda>_ h1.
        if \<not> is_file h1 ACME_BIN then (Inl (OtherError ''installer did not create acme.sh''), h1)
        else bindE (run_command e ACME_BIN [''--install-cronjob''] []) (\<lambda>_.
          thenE tighten_acme_permissions (retE ACME_BIN)) h1) h)"

section \<open>Domains\<close>

lemma lower_idem: "ascii_lower (ascii_lower c) = ascii_lower c"
proof (cases "65 \<le> (of_char c :: nat) \<and> (of_char c :: nat) \<le> 90")
  case True
  then have "(of_char (ascii_lower c) :: nat) = of_char c + 32" by (simp add: ascii_lower_def of_char_of)
  with True show ?thesis by (simp add: ascii_lower_def [of "ascii_lower c"])
next
  case False
  then have "ascii_lower c = c" by (auto simp: ascii_lower_def)
  then show ?thesis by simp
qed

lemma to_lower_idem: "to_ascii_lowercase (to_ascii_lowercase s) = to_ascii_lowercase s"
  by (simp add: to_ascii_lowercase_def lower_idem)

lemma lower_ascii: "(of_char c :: nat) < 128 \<Longrightarrow> (of_char (ascii_lower c) :: nat) < 128"
  by (auto simp: ascii_lower_def of_char_of)

lemma lower_alnum: "is_ascii_alphanumeric (ascii_lower c) \<Longrightarrow> is_ascii_digit (ascii_lower c) \<or> (97 \<le> (of_char (ascii_lower c) :: nat) \<and> (of_char (ascii_lower c) :: nat) \<le> 122)"
  by (auto simp: is_ascii_alphanumeric_def is_ascii_alphabetic_def ascii_lower_def of_char_of split: if_splits)

lemma validate_domain_cases:
  assumes "validate_domain s = Inr d"
  shows "\<exists>t. is_ascii t \<and> d = to_ascii_lowercase t" "length d \<le> 253" "CHR ''.'' \<in> set d"
    "list_all valid_dns_label (split_on (CHR ''.'') d)"
proof -
  obtain t where t: "d = to_ascii_lowercase t" "t = (case strip_suffix ''.'' s of Some r \<Rightarrow> r | None \<Rightarrow> s)" "is_ascii s"
    and rest: "length d \<le> 253" "CHR ''.'' \<in> set d" "list_all valid_dns_label (split_on (CHR ''.'') d)"
    using assms by (auto simp: validate_domain_def Let_def split: if_splits)
  have "is_ascii t" using t(2,3)
    by (cases "strip_suffix ''.'' s") (auto simp: is_ascii_def strip_suffix_Some_iff)
  with t(1) rest show "\<exists>t. is_ascii t \<and> d = to_ascii_lowercase t" "length d \<le> 253" "CHR ''.'' \<in> set d"
    "list_all valid_dns_label (split_on (CHR ''.'') d)" by blast+
qed

lemma valid_domain_ends:
  assumes "list_all valid_dns_label (split_on (CHR ''.'') d)"
  shows "d \<noteq> [] \<and> is_ascii_alphanumeric (hd d) \<and> is_ascii_alphanumeric (last d)"
proof -
  have all: "\<forall>l \<in> set (split_on (CHR ''.'') d). valid_dns_label l" using assms by (simp add: list_all_iff)
  have h: "valid_dns_label (hd (split_on (CHR ''.'') d))" "valid_dns_label (last (split_on (CHR ''.'') d))" using all by simp_all
  then have ne: "hd (split_on (CHR ''.'') d) \<noteq> []" "last (split_on (CHR ''.'') d) \<noteq> []" by (simp_all add: valid_dns_label_def)
  show ?thesis using split_on_hd [OF ne(1)] split_on_last [OF ne(2)] h by (simp add: valid_dns_label_def)
qed

lemma dot_not_alnum: "\<not> is_ascii_alphanumeric (CHR ''.'')"
  by (simp add: is_ascii_alphanumeric_def is_ascii_alphabetic_def is_ascii_digit_def)

lemma no_double_dot:
  assumes "list_all valid_dns_label (split_on (CHR ''.'') d)"
  shows "\<not> contains_str ''..'' d"
proof
  assume "contains_str ''..'' d"
  then obtain a b where d: "d = a @ CHR ''.'' # CHR ''.'' # b"
    unfolding contains_str_iff sublist_def by auto
  have "[] \<in> set (tl (split_on (CHR ''.'') (a @ CHR ''.'' # CHR ''.'' # b)))"
    by (induction a) (auto split: list.splits)
  then have "[] \<in> set (split_on (CHR ''.'') d)" unfolding d using list.set_sel(2) split_on_not_Nil by metis
  with assms show False by (auto simp: list_all_iff valid_dns_label_def)
qed

lemma validated_domain_safe_facts:
  assumes "validate_domain s = Inr d"
  shows "validate_domain d = Inr d" "\<forall>c \<in> set d. (97 \<le> (of_char c :: nat) \<and> (of_char c :: nat) \<le> 122) \<or> is_ascii_digit c \<or> c = CHR ''-'' \<or> c = CHR ''.''"
    and "length d \<le> 253 \<and> CHR ''/'' \<notin> set d \<and> \<not> contains_str ''..'' d"
    and "d \<noteq> [] \<and> is_ascii_alphanumeric (hd d) \<and> is_ascii_alphanumeric (last d)"
proof -
  obtain t where t: "is_ascii t" "d = to_ascii_lowercase t" using validate_domain_cases(1) [OF assms] by blast
  note l = validate_domain_cases(4) [OF assms]
  note ends = valid_domain_ends [OF l]
  have ascii: "is_ascii d" using t by (auto simp: is_ascii_def list_all_iff to_ascii_lowercase_def lower_ascii)
  have "strip_suffix ''.'' d = None"
    using ends dot_not_alnum by (auto simp: strip_suffix_def suffix_def)
  then show "validate_domain d = Inr d"
    using ascii validate_domain_cases(2-4) [OF assms] t(2) by (simp add: validate_domain_def Let_def to_lower_idem)
  show chars: "\<forall>c \<in> set d. (97 \<le> (of_char c :: nat) \<and> (of_char c :: nat) \<le> 122) \<or> is_ascii_digit c \<or> c = CHR ''-'' \<or> c = CHR ''.''"
  proof
    fix c assume c: "c \<in> set d"
    from split_on_chars [OF this, of "CHR ''.''"] l have "c = CHR ''.'' \<or> is_ascii_alphanumeric c \<or> c = CHR ''-''"
      by (auto simp: list_all_iff valid_dns_label_def)
    moreover from c t(2) obtain x where "c = ascii_lower x" by (auto simp: to_ascii_lowercase_def)
    ultimately show "(97 \<le> (of_char c :: nat) \<and> (of_char c :: nat) \<le> 122) \<or> is_ascii_digit c \<or> c = CHR ''-'' \<or> c = CHR ''.''"
      using lower_alnum [of x] by auto
  qed
  have "CHR ''/'' \<notin> set d" using chars by (auto simp: is_ascii_digit_def)
  then show "length d \<le> 253 \<and> CHR ''/'' \<notin> set d \<and> \<not> contains_str ''..'' d"
    using validate_domain_cases(2) [OF assms] no_double_dot [OF l] by simp
  show "d \<noteq> [] \<and> is_ascii_alphanumeric (hd d) \<and> is_ascii_alphanumeric (last d)" by (rule ends)
qed

text \<open>Also: A domain that is accepted is a fixed point of the validation and can be used as a path component and as
  a command argument: only lower-case letters, digits, hyphens and single dots, at most 253 of them, no
  slash, no \<open>..\<close>, and a letter or digit at both ends, so it neither leaves the certificate directory nor looks like
  an option.\<close>

theorem validated_domain_safe:
  assumes "validate_domain s = Inr d"
  shows "(validate_domain d = Inr d)
    \<and> (\<forall>c \<in> set d. (97 \<le> (of_char c :: nat) \<and> (of_char c :: nat) \<le> 122) \<or> is_ascii_digit c \<or> c = CHR ''-'' \<or> c = CHR ''.'')
    \<and> (length d \<le> 253 \<and> CHR ''/'' \<notin> set d \<and> \<not> contains_str ''..'' d)
    \<and> (d \<noteq> [] \<and> is_ascii_alphanumeric (hd d) \<and> is_ascii_alphanumeric (last d))"
  by (intro conjI validated_domain_safe_facts [OF assms])

lemma sample_domain: "validate_domain ''a.io'' = Inr ''a.io''"
  by (simp add: validate_domain_def is_ascii_def strip_suffix_def suffix_to_prefix Let_def to_ascii_lowercase_def ascii_lower_def valid_dns_label_def
      is_ascii_alphanumeric_def is_ascii_alphabetic_def)

theorem validated_domain_safe_witness: "validate_domain ''a.io'' = Inr ''a.io'' \<and> CHR ''/'' \<notin> set ''a.io'' \<and> \<not> contains_str ''..'' ''a.io''"
  using validated_domain_safe [OF sample_domain] by blast

text \<open>Also: A name of a certificate covers a domain exactly when they are equal up to letter case, or the name is
  \<open>*.\<close> before a suffix and the domain is one label without a dot before that suffix.\<close>

theorem dns_name_matches_exact:
  "dns_name_matches p d \<longleftrightarrow> to_ascii_lowercase p = to_ascii_lowercase d
     \<or> (\<exists>l sfx. to_ascii_lowercase p = ''*.'' @ sfx \<and> to_ascii_lowercase d = l @ ''.'' @ sfx \<and> CHR ''.'' \<notin> set l)"
proof -
  have "(\<exists>sfx pre. to_ascii_lowercase p = ''*.'' @ sfx \<and> to_ascii_lowercase d = pre @ sfx \<and> pre \<noteq> [] \<and> last pre = CHR ''.''
      \<and> CHR ''.'' \<notin> set (butlast pre))
    \<longleftrightarrow> (\<exists>l sfx. to_ascii_lowercase p = ''*.'' @ sfx \<and> to_ascii_lowercase d = l @ ''.'' @ sfx \<and> CHR ''.'' \<notin> set l)"
  proof (intro iffI; elim exE conjE)
    fix sfx pre
    assume h: "to_ascii_lowercase p = ''*.'' @ sfx" "to_ascii_lowercase d = pre @ sfx" "pre \<noteq> []" "last pre = CHR ''.''" "CHR ''.'' \<notin> set (butlast pre)"
    then have "pre = butlast pre @ [CHR ''.'']" by (metis append_butlast_last_id)
    with h have "to_ascii_lowercase d = butlast pre @ ''.'' @ sfx" by (metis append.assoc)
    with h show "\<exists>l sfx. to_ascii_lowercase p = ''*.'' @ sfx \<and> to_ascii_lowercase d = l @ ''.'' @ sfx \<and> CHR ''.'' \<notin> set l" by blast
  next
    fix l sfx
    assume "to_ascii_lowercase p = ''*.'' @ sfx" "to_ascii_lowercase d = l @ ''.'' @ sfx" "CHR ''.'' \<notin> set l"
    then show "\<exists>sfx pre. to_ascii_lowercase p = ''*.'' @ sfx \<and> to_ascii_lowercase d = pre @ sfx \<and> pre \<noteq> [] \<and> last pre = CHR ''.''
      \<and> CHR ''.'' \<notin> set (butlast pre)"
      by (intro exI [of _ sfx] exI [of _ "l @ ''.''"]) simp
  qed
  moreover have opt: "(case m of None \<Rightarrow> False | Some x \<Rightarrow> Q x) = (\<exists>x. m = Some x \<and> Q x)" for m :: "string option" and Q
    by (cases m) auto
  have "dns_name_matches p d \<longleftrightarrow> to_ascii_lowercase p = to_ascii_lowercase d \<or>
    (\<exists>sfx pre. to_ascii_lowercase p = ''*.'' @ sfx \<and> to_ascii_lowercase d = pre @ sfx \<and> pre \<noteq> [] \<and> last pre = CHR ''.''
      \<and> CHR ''.'' \<notin> set (butlast pre))"
    unfolding dns_name_matches_def Let_def opt bind_eq_Some_conv strip_prefix_Some_iff strip_suffix_Some_iff by (simp, blast)
  ultimately show ?thesis by (simp only:)
qed

section \<open>Configuration files of acme.sh\<close>

text \<open>Also: A value that \<open>acme.sh\<close> saved as a quoted assignment is read back exactly, wherever the line stands, as long
  as no earlier line assigns the same name.\<close>

theorem assignment_roundtrip:
  assumes "str_lines config = before @ (''export '' @ name @ ''='' @ [q] @ v @ [q]) # after"
    and "q \<in> {CHR 0x27, CHR 0x22}" "v \<noteq> []" "q \<notin> set v" "trim name = name" "CHR ''='' \<notin> set name"
    and "\<forall>l \<in> set before. assignment_of_line name l = None"
  shows "assignment_value config name = Some v"
proof -
  have q: "plain_char q" using assms(2) by (auto simp: plain_char_def)
  let ?l = "''export '' @ name @ ''='' @ [q] @ v @ [q]"
  have "trim ?l = ?l" by (rule trim_plain) (auto simp: plain_char_def q [unfolded plain_char_def])
  moreover have "strip_prefix ''export '' ?l = Some (name @ ''='' @ [q] @ v @ [q])"
    unfolding strip_prefix_Some_iff by simp
  moreover have "split_once (CHR ''='') (name @ ''='' @ [q] @ v @ [q]) = Some (name, [q] @ v @ [q])"
    unfolding split_once_Some_iff using assms(6) by simp
  moreover have "trim ([q] @ v @ [q]) = [q] @ v @ [q]" by (rule trim_plain) (auto simp: q)
  moreover have "split_once q (v @ [q]) = Some (v, [])" unfolding split_once_Some_iff using assms(4) by simp
  moreover have "trim [] = []" by (simp add: trim_def trim_start.simps trim_end.simps ws_at_front_def ws_at_back_def find_None_iff ws_seqs_def)
  ultimately have line: "assignment_of_line name ?l = Some v"
    using assms(2,3,5) by (auto simp: assignment_of_line_def parse_assignment_value_def Let_def)
  have "first_assignment name (before @ ?l # after) = Some v" using assms(7) line by (induction before) auto
  then show ?thesis by (simp add: assignment_value_def assms(1))
qed

theorem assignment_roundtrip_witness:
  "assignment_value (''x=1'' @ [CHR 0x0A] @ ''export CF_Token='' @ [CHR 0x22] @ ''a b'' @ [CHR 0x22]) ''CF_Token'' = Some ''a b''"
proof (rule assignment_roundtrip [where before = "[''x=1'']" and q = "CHR 0x22" and after = "[]"])
  show "str_lines (''x=1'' @ [CHR 0x0A] @ ''export CF_Token='' @ [CHR 0x22] @ ''a b'' @ [CHR 0x22])
    = [''x=1''] @ (''export '' @ ''CF_Token'' @ ''='' @ [CHR 0x22] @ ''a b'' @ [CHR 0x22]) # []"
    by (simp add: str_lines_def Let_def)
  show "trim ''CF_Token'' = ''CF_Token''" by (rule trim_plain) (simp_all add: plain_char_def)
  have "trim ''x=1'' = ''x=1''" by (rule trim_plain) (simp_all add: plain_char_def)
  moreover have "trim ''x'' = ''x''" by (rule trim_plain) (simp_all add: plain_char_def)
  ultimately show "\<forall>l \<in> set [''x=1'']. assignment_of_line ''CF_Token'' l = None"
    by (simp add: assignment_of_line_def strip_prefix_def Let_def)
qed simp_all

section \<open>Issuing a certificate\<close>

text \<open>A step that only extends the log, by effects with a property.\<close>

definition logs :: "(acme_effect \<Rightarrow> bool) \<Rightarrow> acme_effect list \<Rightarrow> acme_host \<Rightarrow> bool" where
  "logs ok l h \<longleftrightarrow> (\<exists>new. ah_log h = l @ new \<and> list_all ok new)"

lemma logs_add: "logs ok l h \<Longrightarrow> ok ef \<Longrightarrow> ah_log h' = ah_log h @ [ef] \<Longrightarrow> logs ok l h'"
  by (auto simp: logs_def)

lemma run_log: "ah_log (snd (run_command e p args env h)) = ah_log h @ [Ran p args (command_environment e env)]"
  by (simp add: run_command_def Let_def acme_log_def split: prod.split)

lemma run_keeps_logs:
  assumes "ok (Ran p args (command_environment e env))"
  shows "invar (logs ok l) (run_command e p args env)"
  by (rule invar_snd) (rule logs_add [where ok = ok, OF _ assms run_log])

lemma chmod_keeps_logs: "(\<And>p m. ok (Chmod p m)) \<Longrightarrow> invar (logs ok l) (set_mode_if_exists p mode)"
proof (rule invar_snd)
  fix w assume ok: "\<And>p m. ok (Chmod p m)" and l: "logs ok l w"
  have "snd (set_mode_if_exists p mode w) = w \<or> ah_log (snd (set_mode_if_exists p mode w)) = ah_log w @ [Chmod p mode]"
    by (simp add: set_mode_if_exists_def acme_log_def Let_def split: option.split)
  then show "logs ok l (snd (set_mode_if_exists p mode w))" using l logs_add [OF l ok] by metis
qed

lemma tighten_keeps_logs:
  "(\<And>p m. ok (Chmod p m)) \<Longrightarrow> invar (logs ok l) tighten_acme_permissions"
  "(\<And>p m. ok (Chmod p m)) \<Longrightarrow> invar (logs ok l) (tighten_cert_permissions d)"
  unfolding tighten_acme_permissions_def tighten_cert_permissions_def
  by (auto intro!: io_triple_then chmod_keeps_logs)

lemma create_keeps_logs: "ok (MadeDir p) \<Longrightarrow> invar (logs ok l) (create_dir_all p)"
  by (rule io_tripleI) (auto simp: create_dir_all_def acme_log_def logs_def split: option.splits)

lemma public_key_keeps_logs:
  "(\<And>args. ok (Ran ''openssl'' args (command_environment e []))) \<Longrightarrow> invar (logs ok l) (public_key e p c)"
  unfolding public_key_def by (rule io_triple_catch [OF run_keeps_logs]) (auto intro: io_triple_ret)

lemma valid_keeps_logs:
  assumes "\<And>args. ok (Ran ''openssl'' args (command_environment e []))"
  shows "invar (logs ok l) (certificate_files_valid e d now :: (acme_host, 'e, bool) eio)"
proof -
  let ?m = "bindE (public_key e (cp_fullchain (paths_of d)) True) (\<lambda>ck.
      bindE (public_key e (cp_privkey (paths_of d)) False) (\<lambda>pk. retE (case (ck, pk) of (Some a, Some b) \<Rightarrow> a = b | _ \<Rightarrow> False)))
    :: (acme_host, 'e, bool) eio"
  have keys: "invar (logs ok l) ?m"
    using assms by (intro io_triple_bind [OF public_key_keeps_logs] io_triple_ret) auto
  show ?thesis
  proof (rule invar_snd)
    fix w assume "logs ok l w"
    with io_triple_end [OF keys this] show "logs ok l (snd (certificate_files_valid e d now w :: ('e + bool) \<times> acme_host))"
      by (simp only: certificate_files_valid_def split: if_split) simp
  qed
qed

lemma from_result_keeps: "invar P (from_result r)"
  unfolding from_result_def by (cases r) (auto intro: io_triple_ret io_triple_fail)

text \<open>The commands of an issue that may see the credentials: \<open>acme.sh\<close> with the first arguments.\<close>

definition credential_safe :: "acme_env \<Rightarrow> (string \<times> string) list \<Rightarrow> string list \<Rightarrow> acme_effect \<Rightarrow> bool" where
  "credential_safe e environment first ef =
     (case ef of Ran p args env \<Rightarrow> env = command_environment e [] \<or> (p = ACME_BIN \<and> args = first \<and> env = command_environment e environment)
      | _ \<Rightarrow> True)"

lemma sequence_keeps_logs:
  "invar (logs (credential_safe e env c) l) (execute_acme_sequence e [c, d] env)"
  by (auto intro!: io_triple_bind [OF run_keeps_logs] io_triple_ret simp: credential_safe_def)

lemma issue_keeps_logs:
  assumes "d = (case validate_domain domain of Inr d \<Rightarrow> d | Inl _ \<Rightarrow> [])"
    and "environment = (case credentials of Some (a, b) \<Rightarrow> [(fst (credential_names provider), a), (snd (credential_names provider), b)] | None \<Rightarrow> [])"
  shows "invar (logs (credential_safe e environment (hd (certificate_commands d provider operation (paths_of d)))) l)
    (issue_cert_for_operation e domain provider credentials operation)"
proof (cases "validate_domain domain")
  case (Inl err)
  then show ?thesis by (simp add: issue_cert_for_operation_def from_result_def) (rule io_triple_fail)
next
  case (Inr d')
  then have d: "d' = d" using assms(1) by simp
  let ?ok = "credential_safe e environment (hd (certificate_commands d provider operation (paths_of d)))"
  have ok: "?ok (Chmod p m)" "?ok (MadeDir p)" "?ok (Ran ''openssl'' args (command_environment e []))" for p m args
    by (simp_all add: credential_safe_def)
  have start: "from_result (Inr d) = retE d" by (simp add: from_result_def)
  have seq: "invar (logs ?ok l) (execute_acme_sequence e (certificate_commands d provider operation (paths_of d)) environment)"
    unfolding certificate_commands_def list.sel by (rule sequence_keeps_logs)
  have clock: "invar (logs ?ok l) (\<lambda>h. (case ae_now e (length (ah_log h)) of
      None \<Rightarrow> Inl (OtherError ''clock before the epoch'')
    | Some secs \<Rightarrow> Inr (if secs < 2 ^ 63 then int secs else int secs - 2 ^ 64), h))"
    by (auto simp: io_triple_def split: option.split)
  have check: "invar (logs ?ok l) (bindE (certificate_files_valid e d now)
      (\<lambda>ok. if ok then retE (paths_of d) else failE (OtherError ''invalid certificate material'')))" for now
    by (rule io_triple_bind [OF valid_keeps_logs]) (auto simp: ok intro: io_triple_ret io_triple_fail)
  have after: "invar (logs ?ok l) (thenE tighten_acme_permissions (thenE (tighten_cert_permissions d)
      (bindE (from_result r) (\<lambda>_. bindE (\<lambda>h. (case ae_now e (length (ah_log h)) of
          None \<Rightarrow> Inl (OtherError ''clock before the epoch'')
        | Some secs \<Rightarrow> Inr (if secs < 2 ^ 63 then int secs else int secs - 2 ^ 64), h)) (\<lambda>now.
        bindE (certificate_files_valid e d now)
          (\<lambda>ok. if ok then retE (paths_of d) else failE (OtherError ''invalid certificate material'')))))))" for r :: "acme_error + unit"
    by (intro io_triple_then [OF tighten_keeps_logs(1)] io_triple_then [OF tighten_keeps_logs(2)] io_triple_bind [OF from_result_keeps]
        io_triple_bind [OF clock] check ok)
  show ?thesis
    unfolding issue_cert_for_operation_def Inr d start bindE_retE assms(2) [symmetric] Let_def
    by (intro io_triple_then [OF create_keeps_logs] io_triple_then [OF tighten_keeps_logs(2)] io_triple_catch [OF seq] after ok)
qed



section \<open>An issued certificate\<close>

text \<open>What \<open>cert_valid\<close> and the end of an issue check, as a property of the files: the chain names the domain, is
  valid for another thirty days, both files are there, and \<open>openssl\<close> reads the same public key from both.\<close>

definition same_public_key :: "acme_env \<Rightarrow> string \<Rightarrow> acme_files \<Rightarrow> bool" where
  "same_public_key e d fs \<longleftrightarrow> (\<exists>k1 k2 out err1 err2.
     fst (ae_exec e k1 ''openssl'' [''x509'', ''-in'', cp_fullchain (paths_of d), ''-pubkey'', ''-noout''] (command_environment e []) fs)
       = Exited True out err1
   \<and> fst (ae_exec e k2 ''openssl'' [''pkey'', ''-in'', cp_privkey (paths_of d), ''-pubout''] (command_environment e []) fs)
       = Exited True out err2)"

definition private_modes :: "string \<Rightarrow> acme_files \<Rightarrow> bool" where
  "private_modes d fs \<longleftrightarrow>
     (\<forall>m. fs_dir fs (cert_directory d) = Some m \<longrightarrow> m = 448)
   \<and> (\<forall>f. fs_file fs (cp_fullchain (paths_of d)) = Some f \<longrightarrow> af_mode f = 384)
   \<and> (\<forall>f. fs_file fs (cp_privkey (paths_of d)) = Some f \<longrightarrow> af_mode f = 384)"

definition read_only :: "acme_env \<Rightarrow> bool" where
  "read_only e \<longleftrightarrow> (\<forall>k args env fs. snd (ae_exec e k ''openssl'' args env fs) = fs)"

definition same_files :: "acme_host \<Rightarrow> acme_host \<Rightarrow> bool" where
  "same_files h h' \<longleftrightarrow> ah_files h' = ah_files h \<and> ah_unreadable h' = ah_unreadable h"

lemma readable_same_files: "same_files h h' \<Longrightarrow> certificate_readable e d now h' = certificate_readable e d now h"
  by (simp add: same_files_def certificate_readable_def split: option.split)

lemma openssl_result:
  assumes "read_only e"
  shows "io_triple (same_files h) (run_command e ''openssl'' args [])
    (\<lambda>out w. same_files h w \<and> (\<exists>k err. fst (ae_exec e k ''openssl'' args (command_environment e []) (ah_files h)) = Exited True out err))
    (same_files h)"
proof (rule io_tripleI)
  let ?env = "command_environment e []"
  fix w a w' assume w: "same_files h w" and r: "run_command e ''openssl'' args [] w = (Inr a, w')"
  obtain ending files where x: "ae_exec e (length (ah_log w)) ''openssl'' args ?env (ah_files w) = (ending, files)" by fastforce
  have f: "files = ah_files w" using assms x unfolding read_only_def by (metis snd_conv)
  from r x have "same_files w w'" and "\<exists>err. ending = Exited True a err"
    by (auto simp: run_command_def Let_def is_acme_program_def ACME_BIN_def same_files_def acme_log_def f split: command_end.splits if_splits)
  with w x show "same_files h w' \<and> (\<exists>k err. fst (ae_exec e k ''openssl'' args ?env (ah_files h)) = Exited True a err)"
    unfolding same_files_def by (metis fst_conv)
next
  fix w a w' assume w: "same_files h w" and r: "run_command e ''openssl'' args [] w = (Inl a, w')"
  obtain ending files where x: "ae_exec e (length (ah_log w)) ''openssl'' args (command_environment e []) (ah_files w) = (ending, files)"
    by fastforce
  have f: "files = ah_files w" using assms x unfolding read_only_def by (metis snd_conv)
  have "same_files w (snd (run_command e ''openssl'' args [] w))"
    using x f by (simp add: run_command_def Let_def same_files_def acme_log_def)
  with w r show "same_files h w'" by (simp add: same_files_def)
qed

lemma public_key_result:
  assumes "read_only e"
  shows "io_triple (same_files h) (public_key e p c)
    (\<lambda>r w. same_files h w \<and> (\<forall>out. r = Some out \<longrightarrow> (\<exists>k err. fst (ae_exec e k ''openssl''
       (if c then [''x509'', ''-in'', p, ''-pubkey'', ''-noout''] else [''pkey'', ''-in'', p, ''-pubout''])
       (command_environment e []) (ah_files h)) = Exited True out err))) (same_files h)"
  unfolding public_key_def by (rule io_triple_catch [OF openssl_result [OF assms]]) (auto intro: io_triple_ret)

lemma valid_result:
  assumes "read_only e"
  shows "io_triple (same_files h) (certificate_files_valid e d now :: bool aio)
    (\<lambda>ok w. same_files h w \<and> (ok \<longrightarrow> certificate_readable e d now h \<and> same_public_key e d (ah_files h))) (same_files h)"
proof -
  let ?m = "bindE (public_key e (cp_fullchain (paths_of d)) True) (\<lambda>ck.
      bindE (public_key e (cp_privkey (paths_of d)) False) (\<lambda>pk. retE (case (ck, pk) of (Some a, Some b) \<Rightarrow> a = b | _ \<Rightarrow> False))) :: bool aio"
  let ?out = "\<lambda>c p r. \<forall>out. r = Some out \<longrightarrow> (\<exists>k err. fst (ae_exec e k ''openssl''
       (if c then [''x509'', ''-in'', p, ''-pubkey'', ''-noout''] else [''pkey'', ''-in'', p, ''-pubout''])
       (command_environment e []) (ah_files h)) = Exited True out err)"
  have second: "io_triple (\<lambda>w. same_files h w \<and> ?out True (cp_fullchain (paths_of d)) ck)
      (bindE (public_key e (cp_privkey (paths_of d)) False) (\<lambda>pk. retE (case (ck, pk) of (Some a, Some b) \<Rightarrow> a = b | _ \<Rightarrow> False)) :: bool aio)
      (\<lambda>ok w. same_files h w \<and> (ok \<longrightarrow> same_public_key e d (ah_files h))) (same_files h)" for ck
  proof (cases "?out True (cp_fullchain (paths_of d)) ck")
    case True
    then have yes: "case (ck, pk) of (Some a, Some b) \<Rightarrow> a = b | _ \<Rightarrow> False \<Longrightarrow> ?out False (cp_privkey (paths_of d)) pk
        \<Longrightarrow> same_public_key e d (ah_files h)" for pk
      unfolding same_public_key_def by (simp split: option.splits) blast
    show ?thesis
      by (rule io_triple_pre [OF io_triple_bind [OF public_key_result [OF assms]]]) (use yes in \<open>auto intro!: io_triple_ret\<close>)
  next
    case False
    then show ?thesis unfolding io_triple_def by blast
  qed
  have keys: "io_triple (same_files h) ?m (\<lambda>ok w. same_files h w \<and> (ok \<longrightarrow> same_public_key e d (ah_files h))) (same_files h)"
    by (rule io_triple_bind [OF public_key_result [OF assms]]) (use second in simp)
  have unfolded: "certificate_files_valid e d now w = (if \<not> certificate_readable e d now h then (Inr False, w) else ?m w)"
    if "same_files h w" for w
    unfolding certificate_files_valid_def readable_same_files [OF that] by (rule refl)
  show ?thesis
  proof (cases "certificate_readable e d now h")
    case True
    then have "io_triple (same_files h) (certificate_files_valid e d now :: bool aio) Q E = io_triple (same_files h) ?m Q E" for Q E
      unfolding io_triple_def by (intro all_cong1 imp_cong refl) (simp only: unfolded not_True_eq_False if_False)
    with keys True show ?thesis by (simp only: simp_thms)
  next
    case False
    then show ?thesis unfolding io_triple_def by (simp add: unfolded)
  qed
qed

lemma tighten_private:
  "io_triple (\<lambda>_. True) (tighten_cert_permissions d) (\<lambda>_ h. private_modes d (ah_files h)) (\<lambda>_. True)"
proof -
  have step: "io_triple P (set_mode_if_exists p m) (\<lambda>_ h. Q (ah_files h)) (\<lambda>_. True)"
    if "\<And>h. P h \<Longrightarrow> Q (\<lparr>fs_file = (fs_file (ah_files h))(p := map_option (\<lambda>f. f\<lparr>af_mode := m\<rparr>) (fs_file (ah_files h) p)),
                   fs_dir = (fs_dir (ah_files h))(p := map_option (\<lambda>_. m) (fs_dir (ah_files h) p))\<rparr>)"
      "\<And>h. P h \<Longrightarrow> \<not> path_exists h p \<Longrightarrow> Q (ah_files h)" for P Q p m
    using that by (intro io_tripleI) (auto simp: set_mode_if_exists_def acme_log_def split: if_splits option.splits)
  have names: "cert_directory d \<noteq> cp_fullchain (paths_of d)" "cert_directory d \<noteq> cp_privkey (paths_of d)"
    "cp_fullchain (paths_of d) \<noteq> cp_privkey (paths_of d)"
    by (simp_all add: paths_of_def)
  let ?D = "\<lambda>fs. \<forall>m. fs_dir fs (cert_directory d) = Some m \<longrightarrow> m = 448"
  let ?C = "\<lambda>fs. \<forall>f. fs_file fs (cp_fullchain (paths_of d)) = Some f \<longrightarrow> af_mode f = 384"
  have 1: "io_triple (\<lambda>_. True) (set_mode_if_exists (cert_directory d) 448) (\<lambda>_ h. ?D (ah_files h)) (\<lambda>_. True)"
    by (rule step) (auto simp: path_exists_def)
  have 2: "io_triple (\<lambda>h. ?D (ah_files h)) (set_mode_if_exists (cp_fullchain (paths_of d)) 384)
      (\<lambda>_ h. ?D (ah_files h) \<and> ?C (ah_files h)) (\<lambda>_. True)"
    using names by (intro step [where Q = "\<lambda>fs. ?D fs \<and> ?C fs"]) (auto simp: path_exists_def is_file_def)
  have 3: "io_triple (\<lambda>h. ?D (ah_files h) \<and> ?C (ah_files h)) (set_mode_if_exists (cp_privkey (paths_of d)) 384)
      (\<lambda>_ h. private_modes d (ah_files h)) (\<lambda>_. True)"
    unfolding private_modes_def using names
    by (intro step [where Q = "private_modes d", unfolded private_modes_def]) (auto simp: path_exists_def is_file_def)
  show ?thesis unfolding tighten_cert_permissions_def by (rule io_triple_then [OF 1 io_triple_then [OF 2 3]])
qed

definition issued :: "acme_env \<Rightarrow> string \<Rightarrow> cert_path_pair \<Rightarrow> acme_host \<Rightarrow> bool" where
  "issued e d p h \<longleftrightarrow> p = paths_of d \<and> private_modes d (ah_files h) \<and> same_public_key e d (ah_files h)
     \<and> (\<exists>now. certificate_readable e d now h)"

lemma issued_same_files: "same_files h w \<Longrightarrow> issued e d p h \<Longrightarrow> issued e d p w"
  unfolding issued_def using readable_same_files [of h w e d] by (simp add: same_files_def)

lemma check_result:
  assumes "read_only e"
  shows "io_triple (\<lambda>h. private_modes d (ah_files h)) (bindE (certificate_files_valid e d now)
      (\<lambda>ok. if ok then retE (paths_of d) else failE (OtherError ''invalid certificate material'')) :: cert_path_pair aio)
    (issued e d) (\<lambda>_. True)"
proof (rule io_tripleI)
  let ?check = "bindE (certificate_files_valid e d now)
      (\<lambda>ok. if ok then retE (paths_of d) else failE (OtherError ''invalid certificate material'')) :: cert_path_pair aio"
  fix h p w assume priv: "private_modes d (ah_files h)" and r: "?check h = (Inr p, w)"
  have "same_files h h" by (simp add: same_files_def)
  note valid = io_tripleD [OF valid_result [OF assms] this]
  from r obtain ok w1 where ok: "certificate_files_valid e d now h = (Inr ok :: acme_error + bool, w1)"
    and k: "(if ok then retE (paths_of d) else failE (OtherError ''invalid certificate material'')) w1 = (Inr p :: acme_error + _, w)"
    by (rule bindE_success)
  have t: "ok \<and> w = w1 \<and> p = paths_of d" using k by (simp split: if_splits)
  then have facts: "same_files h w" "certificate_readable e d now h" "same_public_key e d (ah_files h)" using valid [OF ok] by simp_all
  have "issued e d p h" unfolding issued_def using t priv facts(2,3) by simp (rule exI)
  with facts(1) show "issued e d p w" by (rule issued_same_files)
qed simp

lemma issue_result:
  assumes e: "read_only e" and dom: "validate_domain domain = Inr d"
  shows "io_triple (\<lambda>_. True) (issue_cert_for_operation e domain provider credentials operation) (issued e d) (\<lambda>_. True)"
proof -
  have clock: "invar (\<lambda>h. private_modes d (ah_files h)) (\<lambda>h. (case ae_now e (length (ah_log h)) of
      None \<Rightarrow> Inl (OtherError ''clock before the epoch'')
    | Some secs \<Rightarrow> Inr (if secs < 2 ^ 63 then int secs else int secs - 2 ^ 64), h))"
    unfolding io_triple_def by (auto split: option.split)
  note clock' = io_triple_weaken [OF clock, where P' = "\<lambda>h. private_modes d (ah_files h)" and Q' = "\<lambda>_ h. private_modes d (ah_files h)"
      and E' = "\<lambda>_. True", OF _ _ TrueI]
  have result: "io_triple P (from_result r :: 'x aio) (\<lambda>_. P) (\<lambda>_. True)" for P r
    by (rule io_triple_weaken [OF from_result_keeps]) simp_all
  have after: "io_triple (\<lambda>_. True) (thenE tighten_acme_permissions (thenE (tighten_cert_permissions d)
      (bindE (from_result r) (\<lambda>_. bindE (\<lambda>h. (case ae_now e (length (ah_log h)) of
          None \<Rightarrow> Inl (OtherError ''clock before the epoch'')
        | Some secs \<Rightarrow> Inr (if secs < 2 ^ 63 then int secs else int secs - 2 ^ 64), h)) (\<lambda>now.
        bindE (certificate_files_valid e d now)
          (\<lambda>ok. if ok then retE (paths_of d) else failE (OtherError ''invalid certificate material'')))))))
      (issued e d) (\<lambda>_. True)" for r :: "acme_error + unit"
    by (rule io_triple_then [OF io_triple_any io_triple_then [OF tighten_private io_triple_bind [OF result io_triple_bind [OF clock' check_result [OF e]]]]])
  show ?thesis
    unfolding issue_cert_for_operation_def dom from_result_def [of "Inr d"] sum.case bindE_retE Let_def
    by (rule io_triple_then [OF io_triple_any io_triple_then [OF io_triple_any io_triple_catch [OF io_triple_any after after]]])
qed


section \<open>A run\<close>

definition acme_sample_env :: acme_env where
  "acme_sample_env = \<lparr>ae_exec = (\<lambda>k p args env fs.
       if p = ''openssl'' then (Exited True ''KEY'' [], fs)
       else (Exited True [] [], fs\<lparr>fs_file := (fs_file fs)
         (cp_fullchain (paths_of ''a.io'') \<mapsto> \<lparr>af_data = ''CHAIN'', af_mode = 420\<rparr>, cp_privkey (paths_of ''a.io'') \<mapsto> \<lparr>af_data = ''KEY'', af_mode = 420\<rparr>)\<rparr>)),
     ae_inherited = [(''PATH'', ''/bin''), (''CF_Token'', ''old'')],
     ae_now = (\<lambda>_. Some 100),
     ae_certificate = (\<lambda>data. Some \<lparr>ce_not_before = 0, ce_not_after = 9000000, ce_san = San [DNSName ''a.io''], ce_common_names = []\<rparr>),
     ae_pct_decode = id, ae_lossy = id\<rparr>"

definition acme_sample_host :: acme_host where
  "acme_sample_host = \<lparr>ah_files = \<lparr>fs_file = (\<lambda>_. None), fs_dir = (\<lambda>_. None)\<rparr>, ah_log = [], ah_unreadable = (\<lambda>_. False), ah_bad = (\<lambda>_. None)\<rparr>"

abbreviation acme_sample_run :: "(acme_error + cert_path_pair) \<times> acme_host" where
  "acme_sample_run \<equiv> issue_cert_for_operation acme_sample_env ''a.io'' Cloudflare (Some (''tok'', ''zone'')) Issue acme_sample_host"

lemma acme_sample_ends: "fst acme_sample_run = Inr (paths_of ''a.io'')"
proof -
  note defs = issue_cert_for_operation_def from_result_def sample_domain bindE_apply thenE_apply catchE_apply Let_def create_dir_all_def
    tighten_cert_permissions_def tighten_acme_permissions_def set_mode_if_exists_def certificate_commands_def run_command_def acme_log_def
    acme_sample_env_def acme_sample_host_def path_exists_def is_file_def certificate_files_valid_def certificate_readable_def public_key_def
    certificate_matches_domain_def dns_name_matches_def MIN_VALIDITY_def is_acme_program_def ACME_BIN_def ACME_HOME_def ACCOUNT_CONF_def
    paths_of_def cert_directory_def CERT_ROOT_def
  show ?thesis by (simp add: defs)
qed



end
