(* ===== verification/MessageInput.thy ===== *)
theory MessageInput
  imports Dispatch CustomDirect XDrive BatchCreate Acme Warp
begin

text \<open>
  Typed input, \<open>shared/handlers/message.rs\<close>: what a text message means while a dialogue is open. The
  object-storage wizard, the custom allow list and its check, the certificate dialogue, the schedule and the
  WARP rule dialogues, in this order; what none of them takes goes on to login and destruction.

  The state puts the parts that the components own side by side: the bot's state and its effects, the base
  configuration, the certificate files, the WARP files and the node with its inbounds. Creating a node may search for a
  port for ever, so the handler is a partial function: \<open>None\<close> is a run that does not return. A panic is the
  error \<open>panic\<close>.
\<close>

section \<open>The combined state\<close>

record input_env =
  ie_bot :: env
  ie_acme :: acme_env
  ie_warp :: warp_env
  ie_batch :: batch_env
  ie_json :: "string \<Rightarrow> json option"

record input_world =
  iw_bot :: world
  iw_conf :: xray_world
  iw_acme :: acme_host
  iw_warp :: warp_world
  iw_node :: node

type_synonym 'a iio = "(input_world, 'a) io"

definition on_bot :: "(world, 'a) io \<Rightarrow> 'a iio" where
  "on_bot m w = (let (r, b) = m (iw_bot w) in (r, w\<lparr>iw_bot := b\<rparr>))"

text \<open>The result of a configuration, WARP or certificate operation as a value.\<close>

definition on_conf :: "(xray_world, 'a) io \<Rightarrow> (string + 'a) iio" where
  "on_conf m w = (let (r, c) = m (iw_conf w) in (Inr r, w\<lparr>iw_conf := c\<rparr>))"

definition on_warp :: "(warp_world, 'a) io \<Rightarrow> (string + 'a) iio" where
  "on_warp m w = (let (r, c) = m (iw_warp w) in (Inr r, w\<lparr>iw_warp := c\<rparr>))"

definition on_acme :: "'a aio \<Rightarrow> (acme_error + 'a) iio" where
  "on_acme m w = (let (r, c) = m (iw_acme w) in (Inr r, w\<lparr>iw_acme := c\<rparr>))"

definition acme_text :: "acme_error \<Rightarrow> string" where
  "acme_text e = (case e of CommandError k \<Rightarrow> failure_code k | OtherError s \<Rightarrow> s)"

definition acme_or_fail :: "'a aio \<Rightarrow> 'a iio" where
  "acme_or_fail m = bindE (on_acme m) (\<lambda>r. case r of Inl e \<Rightarrow> failE (acme_text e) | Inr a \<Rightarrow> retE a)"

definition send_plain :: "string \<Rightarrow> string \<Rightarrow> (world, message_action) io" where
  "send_plain target txt = thenE (send target txt None) (retE MsgHandled)"

definition say :: "env \<Rightarrow> string \<Rightarrow> string \<Rightarrow> string list \<Rightarrow> (world, message_action) io" where
  "say e target key args = send_plain target (e_tr e key args)"

section \<open>Pieces of text\<close>

text \<open>\<open>str::split\<close> with a set of separators; \<open>skip\<close> counts the bytes of the separator still to pass.\<close>

fun split_seps :: "string list \<Rightarrow> nat \<Rightarrow> string \<Rightarrow> string list" where
  "split_seps seps skip [] = [[]]"
| "split_seps seps (Suc n) (c # s) = split_seps seps n s"
| "split_seps seps 0 (c # s) =
     (case find (\<lambda>p. prefix p (c # s)) seps of
        Some p \<Rightarrow> [] # split_seps seps (length p - 1) s
      | None \<Rightarrow> (case split_seps seps 0 s of [] \<Rightarrow> [[c]] | q # qs \<Rightarrow> (c # q) # qs))"

definition wide_comma :: string where
  "wide_comma = [CHR 0xEF, CHR 0xBC, CHR 0x8C]"

definition trimmed_pieces :: "string list \<Rightarrow> string \<Rightarrow> string list" where
  "trimmed_pieces seps s = filter (\<lambda>p. p \<noteq> []) (map trim (split_seps seps 0 s))"

text \<open>\<open>format!("{}...", &s[..n])\<close> for a long secret; slicing inside a character panics.\<close>

definition masked :: "nat \<Rightarrow> string \<Rightarrow> string option" where
  "masked n s =
     (if length s > n then (if continuation (s ! n) then None else Some (take n s @ ''...'')) else Some ''***'')"

definition MAX_INPUT_LENGTH :: nat where
  "MAX_INPUT_LENGTH = 4096"

section \<open>The object-storage wizard\<close>

datatype wizard_next = Answered | Complete xdrive_wizard_session xdrive_config

definition cancel_markup :: "env \<Rightarrow> markup option" where
  "cancel_markup e = Some [[\<lparr>btn_text = e_tr e ''xray.xdrive_cancel_btn'' [], btn_data = ''u_xdrive_cancel''\<rparr>]]"

definition ask_next :: "env \<Rightarrow> string \<Rightarrow> string \<Rightarrow> string list \<Rightarrow> (world, wizard_next) io" where
  "ask_next e target key args = thenE (send target (e_tr e key args) (cancel_markup e)) (retE Answered)"

definition or_panic :: "'a option \<Rightarrow> ('a \<Rightarrow> (world, 'b) io) \<Rightarrow> (world, 'b) io" where
  "or_panic v k = (case v of None \<Rightarrow> failE ''panic'' | Some a \<Rightarrow> k a)"

definition or_nothing :: "string option \<Rightarrow> string" where
  "or_nothing v = (case v of Some s \<Rightarrow> s | None \<Rightarrow> [])"

definition clean_folder :: "string \<Rightarrow> string" where
  "clean_folder raw =
     (case split_at_str ''/folders/'' raw of
        Some (_, after) \<Rightarrow> trim (until [CHR ''?'', CHR ''/'', CHR 0x22, CHR 0x27] after)
      | None \<Rightarrow> trim raw)"

text \<open>The configuration once the last field of an S3 session is there.\<close>

definition s3_config_of :: "xdrive_wizard_session \<Rightarrow> xdrive_config" where
  "s3_config_of x =
     (let region = (case xw_s3_region x of Some r \<Rightarrow> r | None \<Rightarrow> ''us-east-1''); bucket = or_nothing (xw_bucket x);
          ak = or_nothing (xw_access_key x); sk = or_nothing (xw_secret_key x) in
      if xw_region x = ''aws'' then new_aws_s3 region bucket ak sk ''aegis-xdrive''
      else if xw_region x \<in> {''cn'', ''r2''} then new_cloudflare_r2 (or_nothing (xw_account_id x)) bucket ak sk ''aegis-xdrive''
      else if xw_region x \<in> {''ru'', ''yandex''} then
        new_s3 ''https://storage.yandexcloud.net'' ''ru-central1'' bucket ak sk True ''aegis-xdrive''
      else if xw_region x \<in> {''ir'', ''arvan''} then
        new_s3 ''https://s3.ir-thr-at1.arvanstorage.ir'' ''ir-thr-at1'' bucket ak sk True ''aegis-xdrive''
      else new_s3 (or_nothing (xw_endpoint x)) region bucket ak sk True ''aegis-xdrive'')"

definition drive_config_of :: "xdrive_wizard_session \<Rightarrow> xdrive_config" where
  "drive_config_of x = new_google_drive (or_nothing (xw_client_id x)) (or_nothing (xw_client_secret x))
     (or_nothing (xw_refresh_token x)) (or_nothing (xw_folder_id x))"

definition bucket_prompt :: "string \<Rightarrow> string" where
  "bucket_prompt region =
     (if region = ''aws'' then ''xray.xdrive_guide_aws_step3'' else if region \<in> {''cn'', ''r2''} then ''xray.xdrive_guide_cn_step3''
      else if region \<in> {''ru'', ''yandex''} then ''xray.xdrive_guide_ru_step2''
      else if region \<in> {''ir'', ''arvan''} then ''xray.xdrive_guide_ir_step2'' else ''xray.xdrive_guide_custom_step4'')"

definition access_key_prompt :: "string \<Rightarrow> string" where
  "access_key_prompt region =
     (if region = ''aws'' then ''xray.xdrive_guide_aws_step4'' else if region \<in> {''cn'', ''r2''} then ''xray.xdrive_guide_cn_step4''
      else if region \<in> {''ru'', ''yandex''} then ''xray.xdrive_guide_ru_step3''
      else if region \<in> {''ir'', ''arvan''} then ''xray.xdrive_guide_ir_step3'' else ''xray.xdrive_guide_custom_step5'')"

definition save_and_ask :: "env \<Rightarrow> string \<Rightarrow> xdrive_wizard_session \<Rightarrow> string \<Rightarrow> (world, wizard_next) io" where
  "save_and_ask e target x key = thenE (app_upd (update_xdrive_wizard target x)) (ask_next e target key [])"

text \<open>One field of the form.\<close>

definition wizard_step :: "env \<Rightarrow> string \<Rightarrow> string \<Rightarrow> xdrive_wizard_session \<Rightarrow> (world, wizard_next) io" where
  "wizard_step e target raw x =
     (case xw_step x of
        AccountId \<Rightarrow>
          if prefix ''cfat_'' raw then ask_next e target ''xray.xdrive_cfat_warning'' []
          else (case extract_cloudflare_account_id raw of
                  None \<Rightarrow> ask_next e target ''xray.xdrive_invalid_account_id'' []
                | Some i \<Rightarrow> save_and_ask e target (x\<lparr>xw_account_id := Some i, xw_step := Bucket\<rparr>) ''xray.xdrive_guide_cn_step2'')
      | Endpoint \<Rightarrow> save_and_ask e target (x\<lparr>xw_endpoint := Some raw, xw_step := Region\<rparr>) ''xray.xdrive_guide_custom_step2''
      | Region \<Rightarrow> save_and_ask e target (x\<lparr>xw_s3_region := Some raw, xw_step := Bucket\<rparr>)
          (if xw_region x = ''aws'' then ''xray.xdrive_guide_aws_step2'' else ''xray.xdrive_guide_custom_step3'')
      | Bucket \<Rightarrow>
          (let x1 = x\<lparr>xw_bucket := Some raw\<rparr>;
               ask = save_and_ask e target (x1\<lparr>xw_step := AccessKey\<rparr>) (bucket_prompt (xw_region x)) in
           if xw_region x = ''aws'' then
             (case (xw_s3_region x, xw_access_key x, xw_secret_key x) of
                (Some reg, Some ak, Some sk) \<Rightarrow> retE (Complete x1 (new_aws_s3 reg raw ak sk ''aegis-xdrive''))
              | _ \<Rightarrow> ask)
           else ask)
      | AccessKey \<Rightarrow>
          if xw_region x \<in> {''cn'', ''r2''} \<and> prefix ''cfat_'' raw then ask_next e target ''xray.xdrive_cfat_warning'' []
          else save_and_ask e target (x\<lparr>xw_access_key := Some raw, xw_step := SecretKey\<rparr>) (access_key_prompt (xw_region x))
      | SecretKey \<Rightarrow> (let x1 = x\<lparr>xw_secret_key := Some raw\<rparr> in retE (Complete x1 (s3_config_of x1)))
      | FolderId \<Rightarrow>
          (let x1 = x\<lparr>xw_folder_id := Some (clean_folder raw)\<rparr> in
           if xw_client_id x \<noteq> None \<and> xw_client_secret x \<noteq> None \<and> xw_refresh_token x \<noteq> None
           then retE (Complete x1 (drive_config_of x1))
           else save_and_ask e target (x1\<lparr>xw_step := ClientId\<rparr>) ''xray.xdrive_guide_gdrive_step2'')
      | ClientId \<Rightarrow> save_and_ask e target (x\<lparr>xw_client_id := Some raw, xw_step := ClientSecret\<rparr>) ''xray.xdrive_guide_gdrive_step3''
      | ClientSecret \<Rightarrow> save_and_ask e target (x\<lparr>xw_client_secret := Some raw, xw_step := RefreshToken\<rparr>) ''xray.xdrive_guide_gdrive_step4''
      | RefreshToken \<Rightarrow> (let x1 = x\<lparr>xw_refresh_token := Some raw\<rparr> in retE (Complete x1 (drive_config_of x1))))"

text \<open>Credentials pasted as a whole.\<close>

definition r2_paste :: "string \<Rightarrow> xdrive_wizard_session \<Rightarrow> (string \<times> string \<times> string) option" where
  "r2_paste raw x =
     (if xw_region x \<in> {''cn'', ''r2''} \<and> contains_str ''r2.cloudflarestorage.com'' raw
      then extract_cloudflare_r2_page_tokens raw else None)"

definition google_paste :: "(string \<Rightarrow> json option) \<Rightarrow> string \<Rightarrow> (string \<times> string \<times> string \<times> string option) option" where
  "google_paste parse raw =
     (let low = to_ascii_lowercase raw in
      if contains_str ''developers.google.com/oauthplayground'' low
        \<or> contains_str ''client_id'' low \<and> contains_str ''refresh_token'' low
      then extract_google_drive_tokens parse raw else None)"

definition aws_paste :: "(string \<Rightarrow> json option) \<Rightarrow> string \<Rightarrow> xdrive_wizard_session \<Rightarrow> (string \<times> string \<times> string \<times> string option) option" where
  "aws_paste parse raw x = (if xw_region x = ''aws'' then extract_aws_s3_tokens parse raw else None)"

definition wizard_input ::
  "env \<Rightarrow> (string \<Rightarrow> json option) \<Rightarrow> string \<Rightarrow> string option \<Rightarrow> xdrive_wizard_session \<Rightarrow> (world, wizard_next) io" where
  "wizard_input e parse target txt x =
     (case txt of None \<Rightarrow> retE Answered | Some t \<Rightarrow>
      let raw = trim t in
      if raw = ''/cancel'' then
        thenE (app_upd (clear_xdrive_wizard target)) (thenE (say e target ''xray.xdrive_cancelled'' []) (retE Answered))
      else if raw = [] then retE Answered
      else (case r2_paste raw x of
        Some (acc, ak, sk) \<Rightarrow>
          thenE (app_upd (update_xdrive_wizard target
              (x\<lparr>xw_account_id := Some acc, xw_access_key := Some ak, xw_secret_key := Some sk, xw_step := Bucket\<rparr>)))
            (or_panic (masked 16 sk) (\<lambda>m. ask_next e target ''xray.xdrive_r2_auto_detected'' [acc, ak, m]))
      | None \<Rightarrow> (case google_paste parse raw of
        Some (cid, sec, ref_tok, folder) \<Rightarrow>
          thenE (app_upd (update_xdrive_wizard target
              (x\<lparr>xw_region := ''gdrive'', xw_client_id := Some cid, xw_client_secret := Some sec, xw_refresh_token := Some ref_tok,
                 xw_folder_id := (if folder \<noteq> None then folder else xw_folder_id x), xw_step := FolderId\<rparr>)))
            (or_panic (masked 8 sec) (\<lambda>m. or_panic (masked 12 ref_tok) (\<lambda>m'.
               ask_next e target ''xray.xdrive_gdrive_auto_detected'' [cid, m, m'])))
      | None \<Rightarrow> (case aws_paste parse raw x of
        Some (reg, ak, sk, Some bucket) \<Rightarrow>
          retE (Complete (x\<lparr>xw_s3_region := Some reg, xw_access_key := Some ak, xw_secret_key := Some sk, xw_bucket := Some bucket\<rparr>)
            (new_aws_s3 reg bucket ak sk ''aegis-xdrive''))
      | Some (reg, ak, sk, None) \<Rightarrow>
          thenE (app_upd (update_xdrive_wizard target
              (x\<lparr>xw_s3_region := Some reg, xw_access_key := Some ak, xw_secret_key := Some sk, xw_step := Bucket\<rparr>)))
            (or_panic (masked 16 sk) (\<lambda>m. ask_next e target ''xray.xdrive_aws_auto_detected'' [reg, ak, m]))
      | None \<Rightarrow> wizard_step e target raw x))))"

text \<open>The finished configuration: checked, then the wizard is closed and the node created.\<close>

definition wizard_failure :: "string \<Rightarrow> string" where
  "wizard_failure err = ([CHR 0xE2, CHR 0x9D, CHR 0x8C] @ '' '' @ [CHR 0xE9, CHR 0x85, CHR 0x8D, CHR 0xE7, CHR 0xBD, CHR 0xAE, CHR 0xE6, CHR 0xA0, CHR 0xA1, CHR 0xE9, CHR 0xAA, CHR 0x8C, CHR 0xE5, CHR 0xA4, CHR 0xB1, CHR 0xE8, CHR 0xB4, CHR 0xA5] @ '': '') @ err @ [CHR 0x0A, CHR 0x0A, CHR 0xE8, CHR 0xAF, CHR 0xB7, CHR 0xE7, CHR 0x82, CHR 0xB9, CHR 0xE5, CHR 0x87, CHR 0xBB, CHR 0xE4, CHR 0xB8, CHR 0x8B, CHR 0xE6, CHR 0x96, CHR 0xB9, CHR 0xE6, CHR 0x8C, CHR 0x89, CHR 0xE9, CHR 0x92, CHR 0xAE, CHR 0xE9, CHR 0x87, CHR 0x8D, CHR 0xE6, CHR 0x96, CHR 0xB0, CHR 0xE9, CHR 0x85, CHR 0x8D, CHR 0xE7, CHR 0xBD, CHR 0xAE, CHR 0xE3, CHR 0x80, CHR 0x82]"

definition creation_failure :: "string \<Rightarrow> string" where
  "creation_failure err = ([CHR 0xE2, CHR 0x9D, CHR 0x8C] @ '' '' @ [CHR 0xE8, CHR 0x8A, CHR 0x82, CHR 0xE7, CHR 0x82, CHR 0xB9, CHR 0xE7, CHR 0x94, CHR 0x9F, CHR 0xE6, CHR 0x88, CHR 0x90, CHR 0xE5, CHR 0xA4, CHR 0xB1, CHR 0xE8, CHR 0xB4, CHR 0xA5] @ '': '') @ err"

definition report_node :: "env \<Rightarrow> string \<Rightarrow> string \<Rightarrow> string + batch_creation_result \<Rightarrow> (world, message_action) io" where
  "report_node e target tag r =
     (case r of
        Inr res \<Rightarrow>
          (let link = (case br_links res of l # _ \<Rightarrow> l | [] \<Rightarrow> []) in
           thenE (if link \<noteq> [] then send target link None else retE ()) (say e target ''xray.xdrive_success_summary'' [tag]))
      | Inl err \<Rightarrow> send_plain target (creation_failure err))"

definition ascii_uppercase :: "string \<Rightarrow> string" where
  "ascii_uppercase s = map make_upper s"

definition complete_xdrive_node ::
  "input_env \<Rightarrow> string \<Rightarrow> xdrive_wizard_session \<Rightarrow> xdrive_config \<Rightarrow> input_world \<Rightarrow> ((string + message_action) \<times> input_world) option" where
  "complete_xdrive_node e target x cfg w =
     (case validate cfg of
        Inl err \<Rightarrow> Some (on_bot (thenE (send target (wizard_failure err) (cancel_markup (ie_bot e))) (retE MsgHandled)) w)
      | Inr _ \<Rightarrow>
          (let w1 = w\<lparr>iw_bot := snd (app_upd (clear_xdrive_wizard target) (iw_bot w))\<rparr>;
               tag = ''XDRIVE-'' @ ascii_uppercase (xw_region x) in
           case create_xdrive_node (ie_batch e) cfg tag (iw_node w1) of
             None \<Rightarrow> None
           | Some (r, n) \<Rightarrow> Some (on_bot (report_node (ie_bot e) target tag r) (w1\<lparr>iw_node := n\<rparr>))))"

definition handle_xdrive_wizard_input ::
  "input_env \<Rightarrow> string \<Rightarrow> string option \<Rightarrow> xdrive_wizard_session \<Rightarrow> input_world \<Rightarrow> ((string + message_action) \<times> input_world) option" where
  "handle_xdrive_wizard_input e target txt x w =
     (case on_bot (wizard_input (ie_bot e) (ie_json e) target txt x) w of
        (Inl err, w1) \<Rightarrow> Some (Inl err, w1)
      | (Inr Answered, w1) \<Rightarrow> Some (Inr MsgHandled, w1)
      | (Inr (Complete x1 cfg), w1) \<Rightarrow> complete_xdrive_node e target x1 cfg w1)"

section \<open>The custom allow list\<close>

definition custom_allowlist_decision :: "domain_flow_source \<Rightarrow> string \<Rightarrow> (custom_domain_error + string) option" where
  "custom_allowlist_decision src txt =
     (if src \<in> {CustomAllowlist, CustomAllowlistCheck} then Some (normalize_custom_domain (trim txt)) else None)"

definition custom_domain_error_key :: "custom_domain_error \<Rightarrow> string" where
  "custom_domain_error_key e =
     (case e of
        HasSchemeOrPath \<Rightarrow> ''xray.routing_custom_invalid_scheme''
      | SingleLabel \<Rightarrow> ''xray.routing_custom_invalid_single_label''
      | IpNotSupported \<Rightarrow> ''xray.routing_custom_invalid_ip''
      | _ \<Rightarrow> ''xray.routing_custom_invalid_generic'')"

text \<open>Time-out, missing text and empty text, the same for both; \<open>None\<close> when the message is answered.\<close>

definition take_custom_input :: "env \<Rightarrow> string \<Rightarrow> string option \<Rightarrow> (world, string option) io" where
  "take_custom_input e target txt =
     bindE (gets (\<lambda>s. domain_timeout_status (e_now e) s target (from_secs 120))) (\<lambda>st.
       if st = Expired then
         thenE (app_op (take_domain_input target)) (thenE (say e target ''domain.input_timeout'' []) (retE None))
       else (case txt of
               None \<Rightarrow> retE None
             | Some input \<Rightarrow>
                 if trim input = [] then thenE (say e target ''domain.input_empty'' []) (retE None)
                 else retE (Some input)))"

definition custom_entry_host :: "string \<Rightarrow> string" where
  "custom_entry_host entry =
     (case strip_prefix ''domain:'' entry of
        Some r \<Rightarrow> r
      | None \<Rightarrow> (case strip_prefix ''full:'' entry of Some r \<Rightarrow> r | None \<Rightarrow> entry))"

datatype custom_check_outcome = CheckHit nat string | CheckMiss

definition custom_check_outcome_of :: "string list \<Rightarrow> string \<Rightarrow> custom_check_outcome" where
  "custom_check_outcome_of domains host =
     (case match_custom_direct domains host of Some i \<Rightarrow> CheckHit i (domains ! i) | None \<Rightarrow> CheckMiss)"

definition custom_check_reply :: "env \<Rightarrow> custom_check_outcome \<Rightarrow> string \<Rightarrow> string" where
  "custom_check_reply e outcome host =
     (case outcome of
        CheckHit i entry \<Rightarrow> e_tr e ''xray.routing_custom_check_hit'' [nat_str (i + 1), entry]
      | CheckMiss \<Rightarrow> e_tr e ''xray.routing_custom_check_miss'' [])
     @ (case matches_builtin_direct host of
          Some rule \<Rightarrow> ([CHR 0x0A, CHR 0xE2, CHR 0x84, CHR 0xB9, CHR 0xEF, CHR 0xB8, CHR 0x8F] @ '' '') @ e_tr e (''xray.routing_rule_'' @ rule) []
        | None \<Rightarrow> [])"

definition handle_custom_allowlist_input :: "input_env \<Rightarrow> string \<Rightarrow> string option \<Rightarrow> message_action iio" where
  "handle_custom_allowlist_input e target txt =
     bindE (on_bot (take_custom_input (ie_bot e) target txt)) (\<lambda>taken. case taken of None \<Rightarrow> retE MsgHandled | Some input \<Rightarrow>
     (case custom_allowlist_decision CustomAllowlist input of
        None \<Rightarrow> retE MsgHandled
      | Some (Inl err) \<Rightarrow> on_bot (say (ie_bot e) target (custom_domain_error_key err) [])
      | Some (Inr entry) \<Rightarrow>
          bindE (on_conf (add_custom_direct_entry entry)) (\<lambda>r.
          thenE (on_bot (case r of
                   Inr (Added domain) \<Rightarrow> say (ie_bot e) target ''xray.routing_custom_added'' [domain]
                 | Inr (AlreadyExists domain) \<Rightarrow> say (ie_bot e) target ''xray.routing_custom_exists'' [domain]
                 | Inr LimitReached \<Rightarrow> say (ie_bot e) target ''xray.routing_custom_full'' []
                 | Inl _ \<Rightarrow> say (ie_bot e) target ''xray.routing_reload_failed'' []))
         (thenE (on_bot (app_op (take_domain_input target))) (retE MsgHandled)))))"

definition handle_custom_allowlist_check_input :: "input_env \<Rightarrow> string \<Rightarrow> string option \<Rightarrow> message_action iio" where
  "handle_custom_allowlist_check_input e target txt =
     bindE (on_bot (take_custom_input (ie_bot e) target txt)) (\<lambda>taken. case taken of None \<Rightarrow> retE MsgHandled | Some input \<Rightarrow>
     (case custom_allowlist_decision CustomAllowlistCheck input of
        None \<Rightarrow> retE MsgHandled
      | Some (Inl err) \<Rightarrow> on_bot (say (ie_bot e) target (custom_domain_error_key err) [])
      | Some (Inr entry) \<Rightarrow>
          bindE (on_conf list_custom_direct_domains) (\<lambda>r.
          thenE (on_bot (case r of
                   Inr domains \<Rightarrow> send_plain target (custom_check_reply (ie_bot e)
                       (custom_check_outcome_of domains (custom_entry_host entry)) (custom_entry_host entry))
                 | Inl _ \<Rightarrow> say (ie_bot e) target ''xray.user_cfg_not_found'' []))
         (thenE (on_bot (app_op (take_domain_input target))) (retE MsgHandled)))))"

section \<open>The certificate dialogue\<close>

definition provider_buttons :: "env \<Rightarrow> markup" where
  "provider_buttons e =
     [[\<lparr>btn_text = e_tr e ''domain.prov_cf'' [], btn_data = ''xhttp_domain_provider:cloudflare''\<rparr>,
       \<lparr>btn_text = e_tr e ''domain.prov_aws'' [], btn_data = ''xhttp_domain_provider:route53''\<rparr>]]"

definition provider_credential_guidance :: "env \<Rightarrow> dns_provider \<Rightarrow> string" where
  "provider_credential_guidance e p =
     two_paragraphs (case p of Cloudflare \<Rightarrow> e_tr e ''domain.cred_prompt_cloudflare'' [] | Route53 \<Rightarrow> e_tr e ''domain.cred_prompt_route53'' [])
       (e_tr e ''domain.cred_security_warning'' [])"

definition localized_acme_failure :: "env \<Rightarrow> acme_error \<Rightarrow> string" where
  "localized_acme_failure e err =
     (case err of
        CommandError Authentication \<Rightarrow> e_tr e ''domain.acme_auth_error'' []
      | CommandError Scope \<Rightarrow> e_tr e ''domain.acme_scope_error'' []
      | CommandError DnsFailure \<Rightarrow> e_tr e ''domain.acme_dns_error'' []
      | CommandError Network \<Rightarrow> e_tr e ''domain.acme_network_error'' []
      | CommandError TimeoutFailure \<Rightarrow> e_tr e ''domain.cert_timeout'' [] @ '' (ACME-TIMEOUT)''
      | _ \<Rightarrow> e_tr e ''domain.acme_unknown_error'' [''ACME-UNKNOWN''])"

definition localized_acme_install_failure :: "env \<Rightarrow> string" where
  "localized_acme_install_failure e = e_tr e ''domain.acme_install_fail'' [''ACME-UNKNOWN'']"

definition certificate_progress_message :: "env \<Rightarrow> string \<Rightarrow> certificate_operation \<Rightarrow> string" where
  "certificate_progress_message e domain operation =
     (case operation of Issue \<Rightarrow> e_tr e ''domain.issuing_cert'' [domain] | Renew \<Rightarrow> e_tr e ''domain.cert_renew'' [])"

definition parse_provider_selection :: "string \<Rightarrow> dns_provider option" where
  "parse_provider_selection txt =
     (let t = to_lowercase txt in
      if t \<in> {''cloudflare'', ''cf'', ''dns_cf''} then Some Cloudflare
      else if t \<in> {''route53'', ''aws'', ''dns_aws''} then Some Route53 else None)"

definition move_dialogue :: "env \<Rightarrow> string \<Rightarrow> domain_input_step \<Rightarrow> domain_input_step \<Rightarrow> string option \<Rightarrow> (world, bool) io" where
  "move_dialogue e target expected nxt domain = app_op (transition_domain_input (e_now e) target expected nxt domain)"

definition ask_provider :: "env \<Rightarrow> string \<Rightarrow> (world, message_action) io" where
  "ask_provider e target = thenE (send target (e_tr e ''domain.prov_title'' []) (Some (provider_buttons e))) (retE MsgHandled)"

definition show_provider_selection :: "env \<Rightarrow> string \<Rightarrow> string \<Rightarrow> (world, message_action) io" where
  "show_provider_selection e target domain =
     bindE (move_dialogue e target AwaitDomain AwaitProvider (Some domain)) (\<lambda>moved.
       if moved then ask_provider e target else retE MsgHandled)"

definition finish_dialogue :: "string \<Rightarrow> domain_flow_source \<Rightarrow> string \<Rightarrow> cert_path_pair \<Rightarrow> message_action iio" where
  "finish_dialogue target src domain paths =
     thenE (on_bot (app_op (take_domain_input target)))
       (retE (DomainReady src (Tls domain (cp_fullchain paths) (cp_privkey paths))))"

definition back_to :: "input_env \<Rightarrow> string \<Rightarrow> domain_input_step \<Rightarrow> string \<Rightarrow> message_action iio" where
  "back_to e target step txt =
     thenE (on_bot (move_dialogue (ie_bot e) target Processing step None)) (on_bot (send_plain target txt))"

text \<open>The outcome of issuing: the dialogue ends, or it returns to a step that can be repeated.\<close>

definition issued_or_back ::
  "input_env \<Rightarrow> string \<Rightarrow> domain_flow_source \<Rightarrow> string \<Rightarrow> domain_input_step \<Rightarrow> acme_error + cert_path_pair \<Rightarrow> message_action iio" where
  "issued_or_back e target src domain step r =
     (case r of
        Inr paths \<Rightarrow> finish_dialogue target src domain paths
      | Inl err \<Rightarrow> back_to e target step (e_tr (ie_bot e) ''domain.cert_fail'' [localized_acme_failure (ie_bot e) err]))"

definition issue_configured :: "input_env \<Rightarrow> string \<Rightarrow> domain_flow_source \<Rightarrow> string \<Rightarrow> dns_provider \<Rightarrow> message_action iio" where
  "issue_configured e target src domain provider =
     thenE (on_acme (ensure_installed (ie_acme e)))
    (bindE (acme_or_fail (operation_for_domain domain)) (\<lambda>operation.
     thenE (on_bot (send target (certificate_progress_message (ie_bot e) domain operation) None))
    (bindE (on_acme (issue_cert_for_operation (ie_acme e) domain provider None operation))
       (issued_or_back e target src domain AwaitDomain))))"

definition await_domain :: "input_env \<Rightarrow> string \<Rightarrow> string option \<Rightarrow> domain_input_state \<Rightarrow> message_action iio" where
  "await_domain e target txt d =
     bindE (on_bot (gets (\<lambda>s. domain_timeout_status (e_now (ie_bot e)) s target (from_secs 120)))) (\<lambda>st.
       if st = Expired then
         thenE (on_bot (app_op (take_domain_input target))) (on_bot (say (ie_bot e) target ''domain.input_timeout'' []))
       else (case txt of None \<Rightarrow> retE MsgHandled | Some input \<Rightarrow>
         if trim input = [] then on_bot (say (ie_bot e) target ''domain.input_empty'' [])
         else (case validate_domain (trim input) of
           Inl err \<Rightarrow> on_bot (send_plain target (acme_text err))
         | Inr domain \<Rightarrow>
             bindE (on_acme (cert_valid (ie_acme e) domain)) (\<lambda>valid. case valid of
               Inr (Some paths) \<Rightarrow> finish_dialogue target (di_source d) domain paths
             | _ \<Rightarrow>
                 bindE (acme_or_fail (configured_provider_for_domain domain)) (\<lambda>provider. case provider of
                   None \<Rightarrow> on_bot (show_provider_selection (ie_bot e) target domain)
                 | Some p \<Rightarrow>
                     bindE (on_bot (move_dialogue (ie_bot e) target AwaitDomain Processing (Some domain))) (\<lambda>moved.
                       if moved then issue_configured e target (di_source d) domain p
                       else on_bot (show_provider_selection (ie_bot e) target domain)))))))"

definition await_provider :: "env \<Rightarrow> string \<Rightarrow> string option \<Rightarrow> (world, message_action) io" where
  "await_provider e target txt =
     (case txt of None \<Rightarrow> retE MsgHandled | Some selection \<Rightarrow>
        (case parse_provider_selection (trim selection) of
           None \<Rightarrow> ask_provider e target
         | Some p \<Rightarrow>
             bindE (move_dialogue e target AwaitProvider (AwaitCredentials p) None) (\<lambda>moved.
               if moved then send_plain target (provider_credential_guidance e p) else ask_provider e target)))"

definition await_credentials :: "input_env \<Rightarrow> string \<Rightarrow> string option \<Rightarrow> domain_input_state \<Rightarrow> dns_provider \<Rightarrow> message_action iio" where
  "await_credentials e target txt d p =
     (case txt of None \<Rightarrow> retE MsgHandled | Some input \<Rightarrow>
        (case trimmed_pieces ['','', wide_comma] (trim input) of
           [token, key] \<Rightarrow>
             bindE (on_bot (move_dialogue (ie_bot e) target (AwaitCredentials p) Processing None)) (\<lambda>moved.
               if \<not> moved then retE MsgHandled
               else bindE (on_acme (ensure_installed (ie_acme e))) (\<lambda>installed. case installed of
                 Inl _ \<Rightarrow> back_to e target (AwaitCredentials p) (localized_acme_install_failure (ie_bot e))
               | Inr _ \<Rightarrow>
                   (case di_domain d of
                      None \<Rightarrow> failE ''panic''
                    | Some domain \<Rightarrow>
                        bindE (on_acme (issue_cert (ie_acme e) domain p (Some (token, key))))
                          (issued_or_back e target (di_source d) domain (AwaitCredentials p)))))
         | _ \<Rightarrow> on_bot (say (ie_bot e) target ''domain.cred_invalid'' [])))"

definition domain_dialogue :: "input_env \<Rightarrow> string \<Rightarrow> string option \<Rightarrow> domain_input_state \<Rightarrow> message_action iio" where
  "domain_dialogue e target txt d =
     (case di_source d of
        CustomAllowlist \<Rightarrow> handle_custom_allowlist_input e target txt
      | CustomAllowlistCheck \<Rightarrow> handle_custom_allowlist_check_input e target txt
      | _ \<Rightarrow> (case di_step d of
                AwaitDomain \<Rightarrow> await_domain e target txt d
              | AwaitProvider \<Rightarrow> on_bot (await_provider (ie_bot e) target txt)
              | AwaitCredentials p \<Rightarrow> await_credentials e target txt d p
              | Processing \<Rightarrow> on_bot (say (ie_bot e) target ''domain.processing'' [])))"

section \<open>The other dialogues and the whole handler\<close>

definition warp_rules_input :: "input_env \<Rightarrow> string \<Rightarrow> string option \<Rightarrow> message_action iio" where
  "warp_rules_input e target txt =
     (case txt of None \<Rightarrow> retE MsgHandled | Some t \<Rightarrow>
        let rules = trimmed_pieces ['','', wide_comma, [CHR 0x0A]] t in
        if rules = [] then on_bot (say (ie_bot e) target ''message.warp_input_empty'' [])
        else bindE (on_warp (add_warp_routing_rules (ie_warp e) rules)) (\<lambda>r. on_bot (case r of
               Inr _ \<Rightarrow> say (ie_bot e) target ''message.warp_rule_added'' []
             | Inl err \<Rightarrow> say (ie_bot e) target ''message.warp_add_fail'' [err])))"

definition other_dialogues :: "input_env \<Rightarrow> string \<Rightarrow> string option \<Rightarrow> bool \<Rightarrow> message_action iio" where
  "other_dialogues e target txt has_file =
     bindE (on_bot (gets (\<lambda>s. schedule_timeout_status (e_now (ie_bot e)) s target (from_secs 180)))) (\<lambda>st. case st of
       Expired \<Rightarrow> thenE (on_bot (app_upd (remove_schedule_input target))) (on_bot (say (ie_bot e) target ''schedule.input_timeout'' []))
     | Active \<Rightarrow> if txt \<noteq> None \<or> has_file then on_bot (say (ie_bot e) target ''schedule.input_prompt'' []) else retE MsgHandled
     | NotTracked \<Rightarrow>
         bindE (on_bot (app_op (take_warp_input_status (e_now (ie_bot e)) target (from_secs 60)))) (\<lambda>ws. case ws of
           Expired \<Rightarrow> on_bot (say (ie_bot e) target ''message.warp_input_timeout'' [])
         | Active \<Rightarrow> warp_rules_input e target txt
         | NotTracked \<Rightarrow> retE NeedsDestruct))"

definition input_message ::
  "input_env \<Rightarrow> string \<Rightarrow> string option \<Rightarrow> bool \<Rightarrow> input_world \<Rightarrow> ((string + message_action) \<times> input_world) option" where
  "input_message e target txt has_file w =
     (if (case txt of Some t \<Rightarrow> length t > MAX_INPUT_LENGTH | None \<Rightarrow> False)
      then Some (on_bot (say (ie_bot e) target ''message.input_too_long'' [nat_str MAX_INPUT_LENGTH]) w)
      else (case get_xdrive_wizard (e_now (ie_bot e)) target (app (iw_bot w)) of
        (wizard, s) \<Rightarrow>
          (let w1 = w\<lparr>iw_bot := (iw_bot w)\<lparr>app := s\<rparr>\<rparr> in
           case wizard of
             Some x \<Rightarrow> handle_xdrive_wizard_input e target txt x w1
           | None \<Rightarrow>
               Some (case domain_input_snapshot s target of
                 Some d \<Rightarrow> domain_dialogue e target txt d w1
               | None \<Rightarrow> other_dialogues e target txt has_file w1))))"

section \<open>Rules\<close>

abbreviation dialogues :: "input_world \<Rightarrow> string \<Rightarrow> domain_input_state option" where
  "dialogues w \<equiv> pending_domain_inputs (app (iw_bot w))"

lemma on_bot_apply: "on_bot m w = (fst (m (iw_bot w)), w\<lparr>iw_bot := snd (m (iw_bot w))\<rparr>)"
  by (simp add: on_bot_def Let_def split: prod.split)

lemma on_bot_triple: "io_triple (\<lambda>b. P (w0\<lparr>iw_bot := b\<rparr>)) m (\<lambda>a b. Q a (w0\<lparr>iw_bot := b\<rparr>)) (\<lambda>b. E (w0\<lparr>iw_bot := b\<rparr>)) \<Longrightarrow>
    P (w0\<lparr>iw_bot := b\<rparr>) \<Longrightarrow> (case on_bot m (w0\<lparr>iw_bot := b\<rparr>) of (Inr a, w') \<Rightarrow> Q a w' | (Inl _, w') \<Rightarrow> E w')"
  by (cases "m b"; cases "fst (m b)") (auto simp: on_bot_apply dest: io_tripleD io_tripleE)

text \<open>A bot computation that keeps the open domain dialogues.\<close>

definition dialogue_quiet :: "(world, 'a) io \<Rightarrow> bool" where
  "dialogue_quiet m \<longleftrightarrow> (\<forall>D. keeps (\<lambda>s. pending_domain_inputs s = D) m)"

lemma quietD: "dialogue_quiet m \<Longrightarrow> pending_domain_inputs (app (snd (m b))) = pending_domain_inputs (app b)"
  by (auto simp: dialogue_quiet_def keeps_def)

lemma quiet_frame: "app_frame m \<Longrightarrow> dialogue_quiet m"
  by (simp add: dialogue_quiet_def keeps_frame)

lemma quiet_bindE: "dialogue_quiet m \<Longrightarrow> (\<And>a. dialogue_quiet (k a)) \<Longrightarrow> dialogue_quiet (bindE m k)"
  by (simp add: dialogue_quiet_def keeps_bindE)

lemma quiet_thenE: "dialogue_quiet m \<Longrightarrow> dialogue_quiet k \<Longrightarrow> dialogue_quiet (thenE m k)"
  by (simp add: dialogue_quiet_def keeps_thenE)

lemma quiet_upd: "(\<And>s. pending_domain_inputs (f s) = pending_domain_inputs s) \<Longrightarrow> dialogue_quiet (app_upd f)"
  by (simp add: dialogue_quiet_def keeps_app_upd)

lemma quiet_wizard_upd: "dialogue_quiet (app_upd (update_xdrive_wizard t x))" "dialogue_quiet (app_upd (clear_xdrive_wizard t))"
  by (auto intro!: quiet_upd simp: update_xdrive_wizard_def clear_xdrive_wizard_def)

lemma frame_say: "app_frame (say e t k a)" "app_frame (send_plain t x)" "app_frame (ask_next e t k a)" "app_frame (ask_provider e t)"
  unfolding say_def send_plain_def ask_next_def ask_provider_def by (intro frames)+

lemma quiet_panic: "(\<And>a. dialogue_quiet (k a)) \<Longrightarrow> dialogue_quiet (or_panic v k)"
  by (cases v) (auto simp: or_panic_def intro: quiet_frame frames)

lemma quiet_save: "dialogue_quiet (save_and_ask e t x k)"
  unfolding save_and_ask_def by (rule quiet_thenE [OF quiet_wizard_upd(1) quiet_frame [OF frame_say(3)]])

lemma quiet_ret: "dialogue_quiet (retE a)"
  by (rule quiet_frame) (rule frames)

lemma quiet_wizard_step: "dialogue_quiet (wizard_step e t raw x)"
  by (cases "xw_step x")
    (simp_all add: wizard_step_def Let_def quiet_save quiet_ret quiet_frame [OF frame_say(3)] split: option.split)

lemma quiet_wizard: "dialogue_quiet (wizard_input e parse t txt x)"
proof (cases "txt")
  case None
  then show ?thesis by (simp add: wizard_input_def quiet_ret)
next
  case (Some raw)
  have ask: "dialogue_quiet (thenE (app_upd (update_xdrive_wizard t y)) (or_panic v (\<lambda>m. ask_next e t k (f m))))" for y v k f
    by (intro quiet_thenE quiet_wizard_upd quiet_panic quiet_frame frame_say)
  have ask2: "dialogue_quiet (thenE (app_upd (update_xdrive_wizard t y)) (or_panic v (\<lambda>m. or_panic v' (\<lambda>m'. ask_next e t k (f m m')))))" for y v v' k f
    by (intro quiet_thenE quiet_wizard_upd quiet_panic quiet_frame frame_say)
  have cancel: "dialogue_quiet (thenE (app_upd (clear_xdrive_wizard t)) (thenE (say e t k a) (retE Answered)))" for k a
    by (intro quiet_thenE quiet_wizard_upd quiet_frame frame_say frames)
  show ?thesis
    unfolding Some wizard_input_def Let_def option.simps
    by (simp only: ask ask2 cancel quiet_ret quiet_wizard_step split: if_split option.split prod.split) simp
qed


text \<open>What holds of the dialogues: one that is past the first step has a domain, and the domain is a validated one.\<close>

definition dialogue_ok :: "domain_input_state \<Rightarrow> bool" where
  "dialogue_ok d \<longleftrightarrow> (case di_domain d of None \<Rightarrow> di_step d = AwaitDomain | Some x \<Rightarrow> validate_domain x = Inr x)"

definition dialogues_kept :: "string \<Rightarrow> (string \<Rightarrow> domain_input_state option) \<Rightarrow> input_world \<Rightarrow> bool" where
  "dialogues_kept target D w \<longleftrightarrow>
     (\<forall>c d. dialogues w c = Some d \<longrightarrow> dialogue_ok d) \<and> (\<forall>c. c \<noteq> target \<longrightarrow> dialogues w c = D c)"

text \<open>The certificate of a domain in the files: readable and valid at some time the code asked for, with the same key.\<close>

definition certificate_stands :: "input_env \<Rightarrow> string \<Rightarrow> acme_host \<Rightarrow> bool" where
  "certificate_stands e d h \<longleftrightarrow> (\<exists>now. certificate_readable (ie_acme e) d now h) \<and> same_public_key (ie_acme e) d (ah_files h)"

definition ready :: "input_env \<Rightarrow> string \<Rightarrow> message_action \<Rightarrow> input_world \<Rightarrow> bool" where
  "ready e target a w \<longleftrightarrow>
     (case a of
        DomainReady src mode \<Rightarrow> dialogues w target = None
          \<and> (read_only (ie_acme e) \<longrightarrow> (\<exists>d. validate_domain d = Inr d \<and> certificate_stands e d (iw_acme w)
               \<and> mode = Tls d (cp_fullchain (paths_of d)) (cp_privkey (paths_of d))))
      | _ \<Rightarrow> True)"

abbreviation served :: "input_env \<Rightarrow> string \<Rightarrow> (string \<Rightarrow> domain_input_state option) \<Rightarrow> message_action \<Rightarrow> input_world \<Rightarrow> bool" where
  "served e target D a w \<equiv> dialogues_kept target D w \<and> ready e target a w"

lemma ready_plain [simp]: "ready e target MsgHandled w" "ready e target NeedsDestruct w"
  by (simp_all add: ready_def)

lemma on_bot_bind: "on_bot (bindE m k) = bindE (on_bot m) (\<lambda>a. on_bot (k a))"
  by (rule ext) (simp add: bindE_apply on_bot_def Let_def split: prod.split sum.split)

lemma on_bot_then: "on_bot (thenE m k) = thenE (on_bot m) (on_bot k)"
  by (simp add: thenE_def on_bot_bind)

lemma on_bot_ret: "on_bot (retE a) = retE a"
  by (rule ext) (simp add: on_bot_def retE_def)

text \<open>Predicates that look at the dialogues, the certificate files or nothing else.\<close>

lemma quiet_invar:
  assumes "dialogue_quiet m" "\<And>w w'. dialogues w' = dialogues w \<Longrightarrow> iw_acme w' = iw_acme w \<Longrightarrow> P w \<Longrightarrow> P w'"
  shows "invar P (on_bot m)"
  by (rule invar_snd, erule assms(2) [rotated 2]) (simp_all add: on_bot_apply quietD [OF assms(1)])

lemma dialogues_cong: "dialogues w' = dialogues w \<Longrightarrow> dialogues_kept target D w \<Longrightarrow> dialogues_kept target D w'"
  by (simp add: dialogues_kept_def)

lemma quiet_kept: "dialogue_quiet m \<Longrightarrow> invar (dialogues_kept target D) (on_bot m)"
  by (rule quiet_invar) (auto intro: dialogues_cong)

lemma moved_ok:
  assumes "dialogue_ok d" "nxt = AwaitDomain \<or> di_step d \<noteq> AwaitDomain \<or> domain \<noteq> None" "\<And>x. domain = Some x \<Longrightarrow> validate_domain x = Inr x"
  shows "dialogue_ok (d\<lparr>di_step := nxt, di_updated_at := t, di_domain := (if domain \<noteq> None then domain else di_domain d)\<rparr>)"
  using assms by (cases domain; cases "di_domain d") (simp_all add: dialogue_ok_def)

lemma kept_update:
  "dialogues_kept target D w \<Longrightarrow> dialogues w' = (dialogues w)(target \<mapsto> d) \<Longrightarrow> dialogue_ok d \<Longrightarrow> dialogues_kept target D w'"
  unfolding dialogues_kept_def by (metis fun_upd_apply option.inject)

lemma move_kept:
  assumes "nxt = AwaitDomain \<or> expected \<noteq> AwaitDomain \<or> domain \<noteq> None" "\<And>x. domain = Some x \<Longrightarrow> validate_domain x = Inr x"
  shows "invar (dialogues_kept target D) (on_bot (move_dialogue e target expected nxt domain))"
proof (rule invar_snd)
  fix w assume K: "dialogues_kept target D w"
  let ?w = "snd (on_bot (move_dialogue e target expected nxt domain) w)"
  show "dialogues_kept target D ?w"
  proof (cases "\<exists>d. dialogues w target = Some d \<and> di_step d = expected")
    case False
    then have "dialogues ?w = dialogues w"
      by (auto simp: on_bot_apply move_dialogue_def app_op_apply transition_domain_input_def split: option.split)
    then show ?thesis using K by (rule dialogues_cong)
  next
    case True
    then obtain d where d: "dialogues w target = Some d" "di_step d = expected" by blast
    let ?d = "d\<lparr>di_step := nxt, di_updated_at := e_now e, di_domain := (if domain \<noteq> None then domain else di_domain d)\<rparr>"
    have "dialogues ?w = (dialogues w)(target \<mapsto> ?d)"
      using d by (simp add: on_bot_apply move_dialogue_def app_op_apply transition_domain_input_def)
    moreover have "dialogue_ok ?d"
      by (rule moved_ok) (use assms d K in \<open>auto simp: dialogues_kept_def\<close>)
    ultimately show ?thesis by (rule kept_update [OF K])
  qed
qed

lemma take_kept: "invar (dialogues_kept target D) (on_bot (app_op (take_domain_input target)))"
  by (rule invar_snd) (auto simp: on_bot_apply app_op_apply take_domain_input_def dialogues_kept_def)

lemma other_kept: "invar (dialogues_kept target D) (on_conf c)" "invar (dialogues_kept target D) (on_warp u)"
  "invar (dialogues_kept target D) (on_acme a)"
  by (auto intro!: invar_snd simp: on_conf_def on_warp_def on_acme_def Let_def dialogues_kept_def split: prod.split)

lemma acme_or_fail_kept: "invar (dialogues_kept target D) (acme_or_fail a)"
  unfolding acme_or_fail_def
  by (rule io_triple_bind [OF other_kept(3)]) (auto split: sum.split intro: io_triple_ret io_triple_fail)


lemma answered_handled:
  assumes "dialogue_quiet m" "\<And>b a b'. m b = (Inr a, b') \<Longrightarrow> a = MsgHandled"
  shows "io_triple (dialogues_kept target D) (on_bot m) (served e target D) (dialogues_kept target D)"
proof -
  have "a = MsgHandled" if "on_bot m w = (Inr a, w')" for a w w'
    using that assms(2) [of "iw_bot w" a "snd (m (iw_bot w))"] by (metis on_bot_apply prod.collapse Pair_inject)
  from io_triple_value [OF quiet_kept [OF assms(1)] this] show ?thesis by (rule io_triple_weaken) auto
qed

lemma plain_result: "send_plain t x b = (Inr a, b') \<Longrightarrow> a = MsgHandled" "ask_provider e' t b = (Inr a, b') \<Longrightarrow> a = MsgHandled"
  by (auto simp: send_plain_def ask_provider_def thenE_def retE_def elim!: bindE_success)

lemma served_plain: "io_triple (dialogues_kept target D) (on_bot (send_plain t x)) (served e target D) (dialogues_kept target D)"
  by (rule answered_handled [OF quiet_frame [OF frame_say(2)] plain_result(1)])

lemma served_say: "io_triple (dialogues_kept target D) (on_bot (say e' t k a)) (served e target D) (dialogues_kept target D)"
  unfolding say_def by (rule served_plain)

lemma served_ask: "io_triple (dialogues_kept target D) (on_bot (ask_provider e' t)) (served e target D) (dialogues_kept target D)"
  by (rule answered_handled [OF quiet_frame [OF frame_say(4)] plain_result(2)])

lemma served_ret: "io_triple (dialogues_kept target D) (retE MsgHandled) (served e target D) (dialogues_kept target D)"
  by (rule io_triple_ret) simp

lemma quiet_gets: "dialogue_quiet (gets f)"
  by (rule quiet_frame) (rule frames)

lemma served_selection:
  assumes "validate_domain d = Inr d"
  shows "io_triple (dialogues_kept target D) (on_bot (show_provider_selection e' target d)) (served e target D) (dialogues_kept target D)"
  unfolding show_provider_selection_def on_bot_bind
  by (rule io_triple_bind [OF move_kept]) (use assms in \<open>auto intro: served_ask served_ret simp: on_bot_ret\<close>)

text \<open>What the certificate operations promise.\<close>

abbreviation promised :: "input_env \<Rightarrow> string \<Rightarrow> cert_path_pair \<Rightarrow> input_world \<Rightarrow> bool" where
  "promised e d p w \<equiv> read_only (ie_acme e) \<longrightarrow> p = paths_of d \<and> certificate_stands e d (iw_acme w)"

lemma served_finish:
  assumes "validate_domain d = Inr d"
  shows "io_triple (\<lambda>w. dialogues_kept target D w \<and> promised e d p w) (finish_dialogue target src d p)
    (served e target D) (dialogues_kept target D)"
proof -
  have "dialogues_kept target D (snd (on_bot (app_op (take_domain_input target)) w))" if "dialogues_kept target D w" for w
    using that by (auto simp: on_bot_apply app_op_apply take_domain_input_def dialogues_kept_def)
  then have "io_triple (\<lambda>w. dialogues_kept target D w \<and> promised e d p w) (on_bot (app_op (take_domain_input target)))
      (\<lambda>_ w. dialogues_kept target D w \<and> dialogues w target = None \<and> promised e d p w) (dialogues_kept target D)"
    by (intro io_tripleI) (auto simp: on_bot_apply app_op_apply take_domain_input_def)
  then show ?thesis
    unfolding finish_dialogue_def
    by (rule io_triple_then) (use assms in \<open>auto intro!: io_triple_ret simp: ready_def\<close>)
qed

lemma on_acme_kept:
  assumes "io_triple (\<lambda>_. True) m (\<lambda>a h. S a h) (\<lambda>_. True)"
  shows "io_triple (dialogues_kept target D) (on_acme m)
    (\<lambda>r w. dialogues_kept target D w \<and> (\<forall>a. r = Inr a \<longrightarrow> S a (iw_acme w))) (dialogues_kept target D)"
proof (rule io_tripleI)
  fix w r w' assume K: "dialogues_kept target D w" and r: "on_acme m w = (Inr r, w')"
  then have k: "dialogues_kept target D w'" by (metis other_kept(3) io_tripleD)
  have "m (iw_acme w) = (r, iw_acme w')" using r by (auto simp: on_acme_def Let_def split: prod.splits)
  then have "\<forall>a. r = Inr a \<longrightarrow> S a (iw_acme w')" using io_tripleD [OF assms TrueI] by auto
  with k show "dialogues_kept target D w' \<and> (\<forall>a. r = Inr a \<longrightarrow> S a (iw_acme w'))" by blast
next
  fix w r w' assume "dialogues_kept target D w" "on_acme m w = (Inl r, w')"
  then show "dialogues_kept target D w'" by (metis other_kept(3) io_tripleE)
qed


lemma issued_promise:
  assumes "validate_domain d = Inr d"
  shows "io_triple (\<lambda>_. True) (issue_cert_for_operation (ie_acme e) d provider credentials operation)
    (\<lambda>p h. read_only (ie_acme e) \<longrightarrow> p = paths_of d \<and> certificate_stands e d h) (\<lambda>_. True)"
proof (cases "read_only (ie_acme e)")
  case True
  from issue_result [OF this assms] show ?thesis
    by (rule io_triple_weaken) (auto simp: issued_def certificate_stands_def)
qed (simp add: io_triple_any)

lemma issue_promise:
  assumes "validate_domain d = Inr d"
  shows "io_triple (\<lambda>_. True) (issue_cert (ie_acme e) d provider credentials)
    (\<lambda>p h. read_only (ie_acme e) \<longrightarrow> p = paths_of d \<and> certificate_stands e d h) (\<lambda>_. True)"
  unfolding issue_cert_def by (rule io_triple_bind [OF io_triple_any issued_promise [OF assms]])

lemma stands_same_files:
  "same_files h w \<Longrightarrow> certificate_readable (ie_acme e) d now h \<Longrightarrow> same_public_key (ie_acme e) d (ah_files h) \<Longrightarrow> certificate_stands e d w"
  unfolding certificate_stands_def using readable_same_files [of h w "ie_acme e" d] by (auto simp: same_files_def)

lemma cert_valid_promise:
  assumes "validate_domain d = Inr d"
  shows "io_triple (\<lambda>_. True) (cert_valid (ie_acme e) d :: cert_path_pair option aio)
    (\<lambda>r h. \<forall>p. r = Some p \<longrightarrow> read_only (ie_acme e) \<longrightarrow> p = paths_of d \<and> certificate_stands e d h) (\<lambda>_. True)"
proof (rule io_tripleI)
  fix h r h' assume r: "cert_valid (ie_acme e) d h = (Inr r :: acme_error + _, h')"
  show "\<forall>p. r = Some p \<longrightarrow> read_only (ie_acme e) \<longrightarrow> p = paths_of d \<and> certificate_stands e d h'"
  proof (intro allI impI)
    fix p assume p: "r = Some p" and ro: "read_only (ie_acme e)"
    obtain secs where "bindE (certificate_files_valid (ie_acme e) d (int secs))
        (\<lambda>ok. retE (if ok then Some (paths_of d) else None)) h = (Inr r :: acme_error + _, h')"
      using r p by (auto simp: cert_valid_def assms split: option.splits if_splits)
    then obtain ok w where ok: "certificate_files_valid (ie_acme e) d (int secs) h = (Inr ok :: acme_error + bool, w)"
      and k: "r = (if ok then Some (paths_of d) else None)" "h' = w"
      by (rule bindE_success) (auto simp: retE_def)
    have "same_files h h" by (simp add: same_files_def)
    from io_tripleD [OF valid_result [OF ro] this ok] k p
    show "p = paths_of d \<and> certificate_stands e d h'" by (auto intro: stands_same_files split: if_splits)
  qed
qed simp

text \<open>Every branch of the certificate dialogue.\<close>

lemma served_back:
  "io_triple (dialogues_kept target D) (back_to e target step x) (served e target D) (dialogues_kept target D)"
  unfolding back_to_def by (rule io_triple_then [OF move_kept served_plain]) simp_all

lemma served_issued:
  assumes "validate_domain d = Inr d"
  shows "io_triple (\<lambda>w. dialogues_kept target D w \<and> (\<forall>p. r = Inr p \<longrightarrow> promised e d p w)) (issued_or_back e target src d step r)
    (served e target D) (dialogues_kept target D)"
proof (cases r)
  case (Inl err)
  then show ?thesis by (auto simp: issued_or_back_def intro: io_triple_pre [OF served_back])
next
  case (Inr p)
  then show ?thesis by (auto simp: issued_or_back_def intro: io_triple_pre [OF served_finish [OF assms]])
qed

lemma served_issue_configured:
  assumes "validate_domain d = Inr d"
  shows "io_triple (dialogues_kept target D) (issue_configured e target src d provider) (served e target D) (dialogues_kept target D)"
  unfolding issue_configured_def
  by (intro io_triple_then [OF other_kept(3)] io_triple_bind [OF acme_or_fail_kept] io_triple_then [OF quiet_kept]
    io_triple_bind [OF on_acme_kept [OF issued_promise [OF assms]]] served_issued [OF assms] quiet_frame frames)

lemma served_await_domain:
  "io_triple (dialogues_kept target D) (await_domain e target txt d) (served e target D) (dialogues_kept target D)"
proof -
  have steps: "io_triple (dialogues_kept target D) (case validate_domain (trim input) of
           Inl err \<Rightarrow> on_bot (send_plain target (acme_text err))
         | Inr domain \<Rightarrow>
             bindE (on_acme (cert_valid (ie_acme e) domain)) (\<lambda>valid. case valid of
               Inr (Some paths) \<Rightarrow> finish_dialogue target (di_source d) domain paths
             | _ \<Rightarrow>
                 bindE (acme_or_fail (configured_provider_for_domain domain)) (\<lambda>provider. case provider of
                   None \<Rightarrow> on_bot (show_provider_selection (ie_bot e) target domain)
                 | Some p \<Rightarrow>
                     bindE (on_bot (move_dialogue (ie_bot e) target AwaitDomain Processing (Some domain))) (\<lambda>moved.
                       if moved then issue_configured e target (di_source d) domain p
                       else on_bot (show_provider_selection (ie_bot e) target domain)))))
      (served e target D) (dialogues_kept target D)" for input
  proof (cases "validate_domain (trim input)")
    case (Inl err)
    then show ?thesis by (simp add: served_plain)
  next
    case (Inr domain)
    then have v: "validate_domain domain = Inr domain" by (rule validated_domain_safe_facts(1))
    have ask: "io_triple (dialogues_kept target D) (bindE (acme_or_fail (configured_provider_for_domain domain)) (\<lambda>provider. case provider of
                   None \<Rightarrow> on_bot (show_provider_selection (ie_bot e) target domain)
                 | Some p \<Rightarrow>
                     bindE (on_bot (move_dialogue (ie_bot e) target AwaitDomain Processing (Some domain))) (\<lambda>moved.
                       if moved then issue_configured e target (di_source d) domain p
                       else on_bot (show_provider_selection (ie_bot e) target domain))))
        (served e target D) (dialogues_kept target D)"
      by (rule io_triple_bind [OF acme_or_fail_kept])
        (auto split: option.split intro!: served_selection [OF v] io_triple_bind [OF move_kept] served_issue_configured [OF v] simp: v)
    show ?thesis
      unfolding Inr sum.case
      by (rule io_triple_bind [OF on_acme_kept [OF cert_valid_promise [OF v]]])
        (auto split: sum.split option.split intro!: io_triple_pre [OF ask] io_triple_pre [OF served_finish [OF v]])
  qed
  show ?thesis
    unfolding await_domain_def
    by (rule io_triple_bind [OF quiet_kept [OF quiet_gets]])
      (auto split: option.split intro!: io_triple_then [OF take_kept] served_say served_ret steps)
qed


lemma served_await_provider:
  "io_triple (dialogues_kept target D) (on_bot (await_provider e' target txt)) (served e target D) (dialogues_kept target D)"
  unfolding await_provider_def
  by (auto split: option.split simp: on_bot_ret on_bot_bind intro!: served_ret served_ask io_triple_bind [OF move_kept] served_plain)

lemma served_await_credentials:
  assumes "dialogue_ok d" "di_step d = AwaitCredentials p"
  shows "io_triple (dialogues_kept target D) (await_credentials e target txt d p) (served e target D) (dialogues_kept target D)"
proof -
  obtain domain where domain: "di_domain d = Some domain" and v: "validate_domain domain = Inr domain"
    using assms by (cases "di_domain d") (simp_all add: dialogue_ok_def)
  have go: "io_triple (dialogues_kept target D) (bindE (on_bot (move_dialogue (ie_bot e) target (AwaitCredentials p) Processing None)) (\<lambda>moved.
        if \<not> moved then retE MsgHandled
        else bindE (on_acme (ensure_installed (ie_acme e))) (\<lambda>installed. case installed of
          Inl _ \<Rightarrow> back_to e target (AwaitCredentials p) (localized_acme_install_failure (ie_bot e))
        | Inr _ \<Rightarrow> bindE (on_acme (issue_cert (ie_acme e) domain p credentials))
            (issued_or_back e target (di_source d) domain (AwaitCredentials p)))))
      (served e target D) (dialogues_kept target D)" for credentials
    by (rule io_triple_bind [OF move_kept])
      (auto split: sum.split intro!: served_ret io_triple_bind [OF other_kept(3)] served_back
        io_triple_bind [OF on_acme_kept [OF issue_promise [OF v]]] served_issued [OF v])
  show ?thesis
    unfolding await_credentials_def domain option.case
    by (auto split: option.split list.split intro!: served_ret served_say go)
qed

lemma kept_take_custom: "invar (dialogues_kept target D) (on_bot (take_custom_input e' target txt))"
  unfolding take_custom_input_def on_bot_bind
  by (rule io_triple_bind [OF quiet_kept [OF quiet_gets]])
    (auto split: option.split simp: on_bot_then on_bot_ret intro!: io_triple_then [OF take_kept] io_triple_ret
      io_triple_then [OF quiet_kept [OF quiet_frame [OF frame_say(1)]]])

lemma served_custom:
  "io_triple (dialogues_kept target D) (handle_custom_allowlist_input e target txt) (served e target D) (dialogues_kept target D)"
  "io_triple (dialogues_kept target D) (handle_custom_allowlist_check_input e target txt) (served e target D) (dialogues_kept target D)"
  unfolding handle_custom_allowlist_input_def handle_custom_allowlist_check_input_def
  by (rule io_triple_bind [OF kept_take_custom],
    auto split: option.split sum.split custom_add_outcome.split simp: custom_allowlist_decision_def
      intro!: served_ret served_say io_triple_bind [OF other_kept(1)] io_triple_then [OF quiet_kept] io_triple_then [OF take_kept]
        quiet_frame frame_say)+

lemma served_domain_dialogue:
  assumes "dialogue_ok d"
  shows "io_triple (dialogues_kept target D) (domain_dialogue e target txt d) (served e target D) (dialogues_kept target D)"
proof (cases "di_step d")
  case (AwaitCredentials p)
  then show ?thesis
    using served_await_credentials [OF assms AwaitCredentials, of target D e "txt"] served_custom
    by (simp add: domain_dialogue_def split: domain_flow_source.split)
qed (simp_all add: domain_dialogue_def served_custom served_await_domain served_await_provider served_say split: domain_flow_source.split)

lemma served_warp_rules:
  "io_triple (dialogues_kept target D) (warp_rules_input e target txt) (served e target D) (dialogues_kept target D)"
  unfolding warp_rules_input_def Let_def
  by (auto split: option.split sum.split intro!: served_ret served_say io_triple_bind [OF other_kept(2)])

lemma quiet_status: "dialogue_quiet (app_op (take_warp_input_status t c d))"
  unfolding dialogue_quiet_def by (auto intro!: keeps_app_op simp: take_warp_input_status_def Let_def split: option.splits if_splits)

lemma quiet_remove: "dialogue_quiet (app_upd (remove_schedule_input c))"
  by (rule quiet_upd) (simp add: remove_schedule_input_def)

lemma served_other:
  "io_triple (dialogues_kept target D) (other_dialogues e target txt has_file) (served e target D) (dialogues_kept target D)"
proof -
  have w: "io_triple (dialogues_kept target D) (case ws of
           Expired \<Rightarrow> on_bot (say (ie_bot e) target ''message.warp_input_timeout'' [])
         | Active \<Rightarrow> warp_rules_input e target txt
         | NotTracked \<Rightarrow> retE NeedsDestruct) (served e target D) (dialogues_kept target D)" for ws
    by (cases ws) (auto intro: served_say served_warp_rules io_triple_ret)
  have "io_triple (dialogues_kept target D) (case st of
       Expired \<Rightarrow> thenE (on_bot (app_upd (remove_schedule_input target))) (on_bot (say (ie_bot e) target ''schedule.input_timeout'' []))
     | Active \<Rightarrow> if txt \<noteq> None \<or> has_file then on_bot (say (ie_bot e) target ''schedule.input_prompt'' []) else retE MsgHandled
     | NotTracked \<Rightarrow> bindE (on_bot (app_op (take_warp_input_status (e_now (ie_bot e)) target (from_secs 60)))) (\<lambda>ws. case ws of
           Expired \<Rightarrow> on_bot (say (ie_bot e) target ''message.warp_input_timeout'' [])
         | Active \<Rightarrow> warp_rules_input e target txt
         | NotTracked \<Rightarrow> retE NeedsDestruct)) (served e target D) (dialogues_kept target D)" for st
    by (cases st) (simp_all add: io_triple_then [OF quiet_kept [OF quiet_remove] served_say] served_say served_ret
        io_triple_bind [OF quiet_kept [OF quiet_status] w])
  then show ?thesis unfolding other_dialogues_def by (rule io_triple_bind [OF quiet_kept [OF quiet_gets]])
qed


lemma dialogues_on_bot: "dialogue_quiet m \<Longrightarrow> dialogues (snd (on_bot m w)) = dialogues w"
  by (simp add: on_bot_apply quietD)

lemma quiet_clear: "dialogues (w\<lparr>iw_bot := snd (app_upd (clear_xdrive_wizard t) (iw_bot w))\<rparr>) = dialogues w"
  using quietD [OF quiet_wizard_upd(2)] by simp

lemma app_frame_report: "app_frame (report_node e' target tag r)"
  unfolding report_node_def by (cases r) (auto simp: Let_def intro!: frames frame_say split: list.split)

text \<open>The wizard keeps the dialogues of domains and never hands over a domain.\<close>

lemma completed_node:
  assumes "complete_xdrive_node e target x cfg w = Some (r, w')"
  shows "dialogues w' = dialogues w" "r = Inr a \<Longrightarrow> a = MsgHandled"
proof -
  have keeps: "dialogues w1 = dialogues w2 \<and> (q = Inr a \<longrightarrow> a = MsgHandled)"
    if "app_frame m" "\<And>b a b'. m b = (Inr a, b') \<Longrightarrow> a = MsgHandled" "on_bot m w2 = (q, w1)" for m q w1 w2
    using dialogues_on_bot [OF quiet_frame [OF that(1)], of w2] that(2) [of "iw_bot w2" a "snd (m (iw_bot w2))"] that(3)
    by (auto simp: on_bot_apply prod_eq_iff)
  have report: "app_frame (report_node e' t tag out)" "report_node e' t tag out b = (Inr a, b') \<Longrightarrow> a = MsgHandled" for e' t tag out b a b'
    by (rule app_frame_report) (auto simp: report_node_def Let_def thenE_def say_def plain_result split: sum.splits elim!: bindE_success)
  have refuse: "app_frame (thenE (send t m x) (retE MsgHandled))" "thenE (send t m x) (retE MsgHandled) b = (Inr a, b') \<Longrightarrow> a = MsgHandled" for t m x b a b'
    by (intro frames) (auto simp: thenE_def retE_def elim!: bindE_success)
  have "dialogues w' = dialogues w \<and> (r = Inr a \<longrightarrow> a = MsgHandled)"
  proof (cases "validate cfg")
    case (Inl err)
    with assms have "on_bot (thenE (send target (wizard_failure err) (cancel_markup (ie_bot e))) (retE MsgHandled)) w = (r, w')"
      by (simp add: complete_xdrive_node_def)
    from keeps [OF refuse this] show ?thesis .
  next
    case (Inr u)
    with assms obtain tag out n where "on_bot (report_node (ie_bot e) target tag out)
        (w\<lparr>iw_bot := snd (app_upd (clear_xdrive_wizard target) (iw_bot w)), iw_node := n\<rparr>) = (r, w')"
      by (auto simp: complete_xdrive_node_def Let_def split: option.splits prod.splits)
    from keeps [OF report this] quiet_clear [of target w] show ?thesis by simp
  qed
  then show "dialogues w' = dialogues w" "r = Inr a \<Longrightarrow> a = MsgHandled" by blast+
qed

lemma wizard_answers:
  assumes "handle_xdrive_wizard_input e target txt x w = Some (r, w')"
  shows "dialogues w' = dialogues w" "r = Inr a \<Longrightarrow> a = MsgHandled"
proof -
  let ?m = "on_bot (wizard_input (ie_bot e) (ie_json e) target txt x)"
  obtain q w1 where m: "?m w = (q, w1)" by fastforce
  then have d: "dialogues w1 = dialogues w" using dialogues_on_bot [OF quiet_wizard] by (metis snd_conv)
  have "dialogues w' = dialogues w \<and> (r = Inr a \<longrightarrow> a = MsgHandled)"
  proof (cases "\<exists>x1 cfg. q = Inr (Complete x1 cfg)")
    case True
    then obtain x1 cfg where "complete_xdrive_node e target x1 cfg w1 = Some (r, w')"
      using assms m by (auto simp: handle_xdrive_wizard_input_def)
    from completed_node [OF this] d show ?thesis by auto
  next
    case False
    then show ?thesis using assms m d
      by (auto simp: handle_xdrive_wizard_input_def split: sum.splits wizard_next.splits)
  qed
  then show "dialogues w' = dialogues w" "r = Inr a \<Longrightarrow> a = MsgHandled" by blast+
qed

lemma input_served:
  assumes "\<forall>c d. dialogues w c = Some d \<longrightarrow> dialogue_ok d" "input_message e target txt has_file w = Some (r, w')"
  shows "dialogues_kept target (dialogues w) w' \<and> (\<forall>a. r = Inr a \<longrightarrow> ready e target a w')"
proof -
  let ?D = "dialogues w"
  have K: "dialogues_kept target ?D w" using assms(1) by (simp add: dialogues_kept_def)
  have run: "dialogues_kept target ?D w' \<and> (\<forall>a. r = Inr a \<longrightarrow> ready e target a w')"
    if "io_triple (dialogues_kept target ?D) m (served e target ?D) (dialogues_kept target ?D)" "dialogues_kept target ?D w1" "m w1 = (r, w')" for m w1
    using io_tripleD [OF that(1,2)] io_tripleE [OF that(1,2)] that(3) by (cases r) auto
  obtain wizard s where x: "get_xdrive_wizard (e_now (ie_bot e)) target (app (iw_bot w)) = (wizard, s)" by fastforce
  then have same: "pending_domain_inputs s = ?D" by (auto simp: get_xdrive_wizard_def split: option.splits if_splits)
  let ?w1 = "w\<lparr>iw_bot := (iw_bot w)\<lparr>app := s\<rparr>\<rparr>"
  have K1: "dialogues_kept target ?D ?w1" by (rule dialogues_cong [OF _ K]) (simp add: same)
  show ?thesis
  proof (cases "case txt of Some t \<Rightarrow> length t > MAX_INPUT_LENGTH | None \<Rightarrow> False")
    case True
    then have "on_bot (say (ie_bot e) target ''message.input_too_long'' [nat_str MAX_INPUT_LENGTH]) w = (r, w')"
      using assms(2) unfolding input_message_def by (simp only: if_True option.inject)
    then show ?thesis by (rule run [OF served_say K])
  next
    case False
    then have i: "input_message e target txt has_file w = (case wizard of
             Some x \<Rightarrow> handle_xdrive_wizard_input e target txt x ?w1
           | None \<Rightarrow> Some (case domain_input_snapshot s target of
                 Some d \<Rightarrow> domain_dialogue e target txt d ?w1
               | None \<Rightarrow> other_dialogues e target txt has_file ?w1))"
      unfolding input_message_def by (simp only: if_False x prod.case Let_def)
    show ?thesis
    proof (cases wizard)
      case (Some y)
      with i assms(2) have h: "handle_xdrive_wizard_input e target txt y ?w1 = Some (r, w')" by simp
      show ?thesis using dialogues_cong [OF wizard_answers(1) [OF h] K1] wizard_answers(2) [OF h] by auto
    next
      case None
      show ?thesis
      proof (cases "domain_input_snapshot s target")
        case (Some d)
        then have "dialogue_ok d" using assms(1) same by (simp add: domain_input_snapshot_def)
        from run [OF served_domain_dialogue [OF this] K1] Some None i assms(2) show ?thesis by simp
      next
        case none: None
        from run [OF served_other K1] none None i assms(2) show ?thesis by simp
      qed
    qed
  qed
qed


section \<open>Properties\<close>

text \<open>C36: A typed message, whatever it says and however it ends, keeps the dialogues sound - one that is past its first step
  has a domain, and every stored domain is a validated one - and it touches no dialogue but the sender's.\<close>

theorem input_keeps_dialogues:
  assumes "\<forall>c d. dialogues w c = Some d \<longrightarrow> dialogue_ok d" "input_message e target txt has_file w = Some (r, w')"
  shows "(\<forall>c d. dialogues w' c = Some d \<longrightarrow> dialogue_ok d) \<and> (\<forall>c. c \<noteq> target \<longrightarrow> dialogues w' c = dialogues w c)"
  using input_served [OF assms] unfolding dialogues_kept_def by (rule conjunct1)


text \<open>A dialogue of the allow list.\<close>

definition elsewhere :: "input_world \<Rightarrow> input_world \<Rightarrow> bool" where
  "elsewhere w w' \<longleftrightarrow> iw_acme w' = iw_acme w \<and> iw_warp w' = iw_warp w \<and> iw_node w' = iw_node w"

lemma bot_elsewhere: "invar (elsewhere w) (on_bot m)" "invar (\<lambda>w'. iw_conf w' = c) (on_bot m)"
  by (rule invar_snd, simp add: on_bot_apply elsewhere_def)+

lemma conf_elsewhere: "invar (elsewhere w) (on_conf m)"
  by (rule invar_snd) (simp add: on_conf_def Let_def elsewhere_def split: prod.split)

lemma listing_keeps: "invar (\<lambda>w'. iw_conf w' = c) (on_conf list_custom_direct_domains)"
  by (rule invar_snd)
    (simp add: on_conf_def Let_def list_custom_direct_domains_def bindE_apply read_base_json_def retE_def split: prod.split base_file.split)

lemma custom_elsewhere:
  "invar (elsewhere w) (handle_custom_allowlist_input e target txt)" "invar (elsewhere w) (handle_custom_allowlist_check_input e target txt)"
  unfolding handle_custom_allowlist_input_def handle_custom_allowlist_check_input_def
  by (rule io_triple_bind [OF bot_elsewhere(1)],
    auto split: option.split sum.split simp: custom_allowlist_decision_def
      intro!: io_triple_ret bot_elsewhere(1) io_triple_bind [OF conf_elsewhere] io_triple_then [OF bot_elsewhere(1)])+

lemma check_keeps_list:
  "invar (\<lambda>w'. iw_conf w' = c) (handle_custom_allowlist_check_input e target txt)"
  unfolding handle_custom_allowlist_check_input_def
  by (rule io_triple_bind [OF bot_elsewhere(2)])
    (auto split: option.split sum.split simp: custom_allowlist_decision_def
      intro!: io_triple_ret bot_elsewhere(2) io_triple_bind [OF listing_keeps] io_triple_then [OF bot_elsewhere(2)])

lemma custom_action:
  assumes "di_source d \<in> {CustomAllowlist, CustomAllowlistCheck}" "domain_dialogue e target txt d w = (r, w')"
  shows "elsewhere w w' \<and> (di_source d = CustomAllowlistCheck \<longrightarrow> iw_conf w' = iw_conf w)"
proof -
  have w: "elsewhere w w" by (simp add: elsewhere_def)
  show ?thesis
  proof (cases "di_source d = CustomAllowlistCheck")
    case True
    then have "w' = snd (handle_custom_allowlist_check_input e target txt w)" using assms(2) by (simp add: domain_dialogue_def)
    then show ?thesis using io_triple_end [OF custom_elsewhere(2) w] io_triple_end [OF check_keeps_list refl, of e target "txt" w] by simp
  next
    case False
    then have "w' = snd (handle_custom_allowlist_input e target txt w)" using assms(1,2) by (simp add: domain_dialogue_def)
    then show ?thesis using io_triple_end [OF custom_elsewhere(1) w] False by simp
  qed
qed

lemma answers_handled: "io_triple P (on_bot (say e' t k a)) (\<lambda>x _. x = MsgHandled) (\<lambda>_. True)"
  by (rule io_tripleI) (auto simp: on_bot_def Let_def say_def dest: plain_result(1) split: prod.splits)

lemma ends_handled: "io_triple P (thenE m (retE MsgHandled)) (\<lambda>x _. x = MsgHandled) (\<lambda>_. True)"
  by (rule io_tripleI) (auto simp: thenE_def retE_def elim!: bindE_success)

lemma custom_answers:
  "io_triple (\<lambda>_. True) (handle_custom_allowlist_input e target txt) (\<lambda>a _. a = MsgHandled) (\<lambda>_. True)"
  "io_triple (\<lambda>_. True) (handle_custom_allowlist_check_input e target txt) (\<lambda>a _. a = MsgHandled) (\<lambda>_. True)"
  unfolding handle_custom_allowlist_input_def handle_custom_allowlist_check_input_def
  by (rule io_triple_bind [OF io_triple_any],
    auto split: option.split sum.split simp: custom_allowlist_decision_def
      intro!: io_triple_ret answers_handled io_triple_bind [OF io_triple_any] io_triple_then [OF io_triple_any] ends_handled)+

lemma without_wizard:
  assumes "pending_xdrive_wizards (app (iw_bot w)) target = None" "dialogues w target = Some d"
    "case txt of Some t \<Rightarrow> length t \<le> MAX_INPUT_LENGTH | None \<Rightarrow> True"
  shows "input_message e target txt has_file w = Some (domain_dialogue e target txt d w)"
proof -
  have x: "get_xdrive_wizard (e_now (ie_bot e)) target (app (iw_bot w)) = (None, app (iw_bot w))" using assms(1) by (simp add: get_xdrive_wizard_def)
  have l: "\<not> (case txt of Some t \<Rightarrow> length t > MAX_INPUT_LENGTH | None \<Rightarrow> False)" using assms(3) by (cases "txt") simp_all
  show ?thesis unfolding input_message_def using assms(2) l by (simp add: x domain_input_snapshot_def)
qed




text \<open>Also: While a certificate is being issued every message of the chat gets the one answer that says so, and changes
  nothing: no clock reading, no text and no file moves the dialogue on, so only the handler that set the step can end it.\<close>

theorem processing_answers_only:
  assumes "pending_xdrive_wizards (app (iw_bot w)) target = None" "dialogues w target = Some d" "di_step d = Processing"
    "di_source d \<notin> {CustomAllowlist, CustomAllowlistCheck}" "case txt of Some t \<Rightarrow> length t \<le> MAX_INPUT_LENGTH | None \<Rightarrow> True"
  shows "\<exists>r w'. input_message e target txt has_file w = Some (r, w')
    \<and> iw_bot w' = (iw_bot w)\<lparr>trace := trace (iw_bot w) @
        [Call (SendMessage target \<lparr>mc_text = e_tr (ie_bot e) ''domain.processing'' [], mc_markup = None\<rparr>)]\<rparr>
    \<and> iw_conf w' = iw_conf w \<and> elsewhere w w'"
proof -
  have "domain_dialogue e target txt d w = on_bot (say (ie_bot e) target ''domain.processing'' []) w"
    using assms(3,4) by (cases "di_source d") (simp_all add: domain_dialogue_def)
  with without_wizard [OF assms(1,2,5)] show ?thesis
    by (simp add: on_bot_apply say_def send_plain_def send_def thenE_apply perform_def retE_def elsewhere_def split: option.split)
qed

text \<open>The handler that set it may not: when the message that announces the operation cannot be sent, it stops there.\<close>

theorem failed_progress_message_sticks:
  assumes "operation_for_domain domain (snd (ensure_installed (ie_acme e) (iw_acme w))) = (Inr operation, h)"
    "net (iw_bot w) (length (trace (iw_bot w))) = Some err"
  shows "\<exists>w'. issue_configured e target src domain provider w = (Inl err, w') \<and> dialogues w' = dialogues w"
  using assms
  by (cases "ensure_installed (ie_acme e) (iw_acme w)")
    (simp add: issue_configured_def thenE_apply bindE_apply on_acme_def Let_def acme_or_fail_def on_bot_def send_def perform_def retE_def)

section \<open>Runs\<close>

definition input_sample_env :: input_env where
  "input_sample_env = \<lparr>ie_bot = sample_env 5, ie_acme = acme_sample_env, ie_warp = warp_sample_env,
     ie_batch = \<lparr>be_parse = sample_parse, be_pretty = sample_pretty, be_compact = sample_pretty, be_pct = id,
       be_reload = \<lparr>re_core = True, re_box = False, re_stat_bad = False, re_egress6 = False, re_mkdir = None, re_box_base = None\<rparr>,
       be_ipv4 = Inr ''1.2.3.4'', be_ipv6 = Inl ''none'', be_tls = Inr (), be_pin = Inr [], be_card = (\<lambda>n. ([], False)), be_auth = nat_str,
       be_obfs_pw = nat_str, be_short_id = nat_str, be_path = nat_str, be_now = (\<lambda>n. 0), be_pq_seed = [], be_pq_verify = None\<rparr>,
     ie_json = sample_parse\<rparr>"

definition input_sample_world :: "domain_input_state \<Rightarrow> acme_host \<Rightarrow> input_world" where
  "input_sample_world d h = \<lparr>iw_bot = sample_world (sample_state\<lparr>pending_domain_inputs := [''t'' \<mapsto> d]\<rparr>),
     iw_conf = \<lparr>rw_base = NoBase, rw_writes = 0, rw_reloads = 0, rw_write_bad = (\<lambda>n. None), rw_reload_err = (\<lambda>n. None)\<rparr>,
     iw_acme = h, iw_warp = warp_sample_world 600, iw_node = sample_node\<rparr>"

definition sample_input_state :: "domain_flow_source \<Rightarrow> domain_input_step \<Rightarrow> string option \<Rightarrow> domain_input_state" where
  "sample_input_state src step domain = \<lparr>di_updated_at = 5, di_source = src, di_step = step, di_domain = domain\<rparr>"

lemma sample_input_facts:
  "pending_xdrive_wizards (app (iw_bot (input_sample_world d h))) c = None"
  "dialogues (input_sample_world d h) c = (if c = ''t'' then Some d else None)"
  by (simp_all add: input_sample_world_def sample_world_def sample_state_def new_app_state_def)


lemma sample_input_ok: "dialogue_ok (sample_input_state src step (Some ''a.io''))" "dialogue_ok (sample_input_state src AwaitDomain None)"
  by (simp_all add: dialogue_ok_def sample_input_state_def sample_domain)

lemma sample_dialogues_ok:
  "dialogue_ok d \<Longrightarrow> \<forall>c x. dialogues (input_sample_world d h) c = Some x \<longrightarrow> dialogue_ok x"
  by (simp add: sample_input_facts)

lemma sample_selection: "parse_provider_selection (trim ''cf'') = Some Cloudflare"
  by code_simp

theorem input_keeps_dialogues_witness:
  "\<exists>r w' d. input_message input_sample_env ''t'' (Some ''cf'') False
      (input_sample_world (sample_input_state Standalone AwaitProvider (Some ''a.io'')) acme_sample_host) = Some (r, w')
    \<and> dialogues w' ''t'' = Some d \<and> di_step d = AwaitCredentials Cloudflare \<and> dialogue_ok d \<and> dialogues w' ''u'' = None"
proof -
  let ?d = "sample_input_state Standalone AwaitProvider (Some ''a.io'')"
  let ?w = "input_sample_world ?d acme_sample_host"
  obtain r w' where r: "domain_dialogue input_sample_env ''t'' (Some ''cf'') ?d ?w = (r, w')" by fastforce
  have "input_message input_sample_env ''t'' (Some ''cf'') False ?w = Some (domain_dialogue input_sample_env ''t'' (Some ''cf'') ?d ?w)"
    by (rule without_wizard) (simp_all add: sample_input_facts MAX_INPUT_LENGTH_def)
  with r have i: "input_message input_sample_env ''t'' (Some ''cf'') False ?w = Some (r, w')" by simp
  have "\<exists>d. dialogues w' ''t'' = Some d \<and> di_step d = AwaitCredentials Cloudflare"
    using r sample_selection
    by (auto simp: domain_dialogue_def sample_input_state_def await_provider_def on_bot_apply bindE_apply move_dialogue_def app_op_apply
        transition_domain_input_def send_plain_def send_def thenE_apply perform_def retE_def input_sample_world_def sample_world_def
        sample_state_def new_app_state_def)
  with input_keeps_dialogues [OF sample_dialogues_ok [OF sample_input_ok(1)] i] i show ?thesis by (auto simp: sample_input_facts)
qed

text \<open>A domain whose certificate is already there.\<close>

lemma sample_domain_trim: "trim ''a.io'' = ''a.io''"
  by code_simp

definition certified_host :: acme_host where
  "certified_host = acme_sample_host\<lparr>ah_files := \<lparr>fs_file = [cp_fullchain (paths_of ''a.io'') \<mapsto> \<lparr>af_data = ''CHAIN'', af_mode = 384\<rparr>,
     cp_privkey (paths_of ''a.io'') \<mapsto> \<lparr>af_data = ''KEY'', af_mode = 384\<rparr>], fs_dir = (\<lambda>_. None)\<rparr>\<rparr>"

lemma certified_host_valid: "fst (cert_valid acme_sample_env ''a.io'' certified_host :: (acme_error + _) \<times> _) = Inr (Some (paths_of ''a.io''))"
proof -
  note defs = bindE_apply catchE_apply run_command_def acme_log_def acme_sample_env_def certified_host_def acme_sample_host_def Let_def
    certificate_files_valid_def certificate_readable_def public_key_def is_file_def retE_def
    certificate_matches_domain_def dns_name_matches_def MIN_VALIDITY_def is_acme_program_def ACME_BIN_def paths_of_def cert_directory_def CERT_ROOT_def
  show ?thesis by (simp add: cert_valid_def sample_domain defs)
qed



theorem processing_answers_only_witness:
  "\<exists>r w'. input_message input_sample_env ''t'' (Some ''/cancel'') False
      (input_sample_world (sample_input_state Standalone Processing (Some ''a.io'')) acme_sample_host) = Some (r, w')
    \<and> iw_acme w' = acme_sample_host"
proof -
  let ?w = "input_sample_world (sample_input_state Standalone Processing (Some ''a.io'')) acme_sample_host"
  have "iw_acme ?w = acme_sample_host" by (simp add: input_sample_world_def)
  with processing_answers_only [of ?w "''t''" "sample_input_state Standalone Processing (Some ''a.io'')" "Some ''/cancel''" input_sample_env False]
  show ?thesis by (auto simp: sample_input_facts MAX_INPUT_LENGTH_def sample_input_state_def elsewhere_def)
qed

end
