(* ===== verification/SelfUpgrade.thy ===== *)
theory SelfUpgrade
  imports CoreUpgradeSafe IpAddr
begin

text \<open>
  The upgrade of the bot itself, \<open>core/system/upgrade.rs\<close>: find the latest release of one of the configured
  repositories, download the executable beside the running one, check its hash and its signature, replace the
  running executable, leave a flag for the next start, and end the process.

  As in theory CoreUpgrade the answers of the network and of the clock are functions of the position in the trace,
  and \<open>sw_fault n\<close> tells how the \<open>n\<close>-th effect went. The end of the process is the error \<open>ProcessExit\<close>, which no
  handler catches. The crate \<open>self_replace\<close> is the parameter \<open>se_replace\<close>: from the position, the executable and the new
  file to its result and the executable afterwards. Texts of errors are abbreviated.
\<close>

section \<open>Where releases come from\<close>

record release_repo =
  rp_owner :: string
  rp_repo :: string

definition repo_display_name :: "release_repo \<Rightarrow> string" where
  "repo_display_name r = rp_owner r @ ''/'' @ rp_repo r"

definition trim_slashes :: "string \<Rightarrow> string" where
  "trim_slashes s = rev (dropWhile (\<lambda>c. c = CHR ''/'') (rev (dropWhile (\<lambda>c. c = CHR ''/'') s)))"

definition parse_release_repo :: "string \<Rightarrow> release_repo option" where
  "parse_release_repo input =
     (case split_once (CHR ''/'') (trim_slashes (trim input)) of
        None \<Rightarrow> None
      | Some (owner, repo) \<Rightarrow>
          if trim owner = [] \<or> trim repo = [] then None else Some \<lparr>rp_owner = trim owner, rp_repo = trim repo\<rparr>)"

definition DEFAULT_RELEASE_REPOSITORIES :: "release_repo list" where
  "DEFAULT_RELEASE_REPOSITORIES = [\<lparr>rp_owner = ''youugiuhiuh'', rp_repo = ''Wuthering_Waves_Private_Server''\<rparr>]"

definition DEFAULT_ASSET_NAME :: string where "DEFAULT_ASSET_NAME = ''aegis''"
definition RELEASE_API_BASE :: string where "RELEASE_API_BASE = ''https://api.github.com''"
definition UPGRADE_FLAG_FILE :: string where "UPGRADE_FLAG_FILE = ''/etc/wwps/aegis/upgrade.flag''"
definition CARGO_PKG_VERSION :: string where "CARGO_PKG_VERSION = ''2.2.4''"

definition owner_and_repo :: "(string \<Rightarrow> string option) \<Rightarrow> release_repo list" where
  "owner_and_repo var =
     (case (var ''AEGIS_RELEASE_OWNER'', var ''AEGIS_RELEASE_REPO'') of
        (Some owner, Some repo) \<Rightarrow>
          if trim owner \<noteq> [] \<and> trim repo \<noteq> [] then [\<lparr>rp_owner = trim owner, rp_repo = trim repo\<rparr>]
          else DEFAULT_RELEASE_REPOSITORIES
      | _ \<Rightarrow> DEFAULT_RELEASE_REPOSITORIES)"

definition configured_release_repositories :: "(string \<Rightarrow> string option) \<Rightarrow> release_repo list" where
  "configured_release_repositories var =
     (let repos = (case var ''AEGIS_RELEASE_REPOSITORIES'' of
          Some value \<Rightarrow> List.map_filter parse_release_repo (split_on (CHR '','') value) | None \<Rightarrow> []) in
      if repos \<noteq> [] then repos
      else case Option.bind (var ''AEGIS_RELEASE_REPOSITORY'') parse_release_repo of
             Some repo \<Rightarrow> [repo]
           | None \<Rightarrow> owner_and_repo var)"

definition is_current_version :: "string \<Rightarrow> bool" where
  "is_current_version tag \<longleftrightarrow> dropWhile (\<lambda>c. c = CHR ''v'') (trim tag) = CARGO_PKG_VERSION"

record upgrade_manager =
  um_repositories :: "release_repo list"
  um_asset_name :: string
  um_token :: "string option"

record release_artifact =
  at_repository :: string
  at_tag_name :: string
  at_asset_name :: string
  at_download_url :: string
  at_sha256 :: string
  at_size :: "nat option"
  at_minisig :: "string option"

section \<open>The world of an upgrade\<close>

datatype update_stop = Failed string | ProcessExit

datatype update_effect =
    Say string
  | Reword string
  | Get string "string option" \<comment> \<open>with the bearer token\<close>
  | CreatedTemp string
  | WroteChunk string
  | Flushed string
  | Synced string
  | MadeExecutable string
  | ReadBack string
  | Unlinked string
  | Replaced string
  | MadeFlagDir
  | WroteFlag
  | Slept

record update_world =
  sw_exe :: core_file
  sw_temp :: "string \<Rightarrow> core_file option"
  sw_flag :: "string option"
  sw_trace :: "update_effect list"
  sw_fault :: "nat \<Rightarrow> string option"

record ('k, 's) update_env =
  se_var :: "string \<Rightarrow> string option"
  se_client :: "string option" \<comment> \<open>the error of building the HTTP client\<close>
  se_tr :: "string \<Rightarrow> string list \<Rightarrow> string"
  se_release :: "nat \<Rightarrow> string \<Rightarrow> string + release_response"
  se_text :: "nat \<Rightarrow> string \<Rightarrow> string + string"
  se_bytes :: "nat \<Rightarrow> string \<Rightarrow> string + string"
  se_chunks :: "nat \<Rightarrow> string \<Rightarrow> string + (string + string) list"
  se_sha256 :: "string \<Rightarrow> string"
  se_minisign :: "('k, 's) minisign_crate"
  se_today :: "nat \<Rightarrow> string"
  se_exe_dir :: "string + string"
  se_pid :: nat
  se_nanos :: "nat \<Rightarrow> nat"
  se_report :: "nat \<Rightarrow> bool"
  se_progress :: "nat \<Rightarrow> string"
  se_size_text :: "nat \<Rightarrow> string"
  se_replace :: "nat \<Rightarrow> core_file \<Rightarrow> core_file \<Rightarrow> (string + unit) \<times> core_file"

type_synonym 'a uio = "(update_world, update_stop, 'a) eio"

definition noted :: "update_effect \<Rightarrow> update_world \<Rightarrow> update_world" where
  "noted ef w = w\<lparr>sw_trace := sw_trace w @ [ef]\<rparr>"

definition try_update :: "update_effect \<Rightarrow> unit uio" where
  "try_update ef w = (case sw_fault w (length (sw_trace w)) of None \<Rightarrow> Inr () | Some e \<Rightarrow> Inl (Failed e), noted ef w)"

definition reply :: "update_effect \<Rightarrow> (nat \<Rightarrow> string + 'a) \<Rightarrow> 'a uio" where
  "reply ef ans w = (case ans (length (sw_trace w)) of Inl e \<Rightarrow> Inl (Failed e) | Inr a \<Rightarrow> Inr a, noted ef w)"

definition at_now :: "(nat \<Rightarrow> 'a) \<Rightarrow> 'a uio" where
  "at_now f w = (Inr (f (length (sw_trace w))), w)"

definition peek :: "(update_world \<Rightarrow> 'a) \<Rightarrow> 'a uio" where
  "peek f w = (Inr (f w), w)"

definition change :: "(update_world \<Rightarrow> update_world) \<Rightarrow> unit uio" where
  "change f w = (Inr (), f w)"

definition refuse :: "string \<Rightarrow> 'a uio" where
  "refuse e = failE (Failed e)"

definition new_manager :: "('k, 's) update_env \<Rightarrow> string + upgrade_manager" where
  "new_manager e =
     (case se_client e of
        Some err \<Rightarrow> Inl err
      | None \<Rightarrow> Inr \<lparr>um_repositories = configured_release_repositories (se_var e),
          um_asset_name = (case se_var e ''AEGIS_RELEASE_ASSET'' of Some a \<Rightarrow> a | None \<Rightarrow> DEFAULT_ASSET_NAME),
          um_token = (case se_var e ''GITHUB_TOKEN'' of Some t \<Rightarrow> if t = [] then None else Some t | None \<Rightarrow> None)\<rparr>)"

section \<open>Finding the release\<close>

definition or_otherwise :: "'a option \<Rightarrow> 'a option \<Rightarrow> 'a option" where
  "or_otherwise a b = (case a of Some x \<Rightarrow> Some x | None \<Rightarrow> b)"

definition select_asset :: "upgrade_manager \<Rightarrow> release_asset list \<Rightarrow> release_asset option" where
  "select_asset m assets =
     or_otherwise (find (\<lambda>a. ra_name a = um_asset_name m) assets)
       (or_otherwise (find (\<lambda>a. prefix (um_asset_name m) (ra_name a)) assets)
         (case assets of a # _ \<Rightarrow> Some a | [] \<Rightarrow> None))"

definition update_manifest :: "('k, 's) update_env \<Rightarrow> upgrade_manager \<Rightarrow> release_asset list \<Rightarrow> string \<Rightarrow> string option uio" where
  "update_manifest e m assets target_asset =
     (case find (\<lambda>a. is_manifest_name (ra_name a)) assets of
        None \<Rightarrow> retE None
      | Some a \<Rightarrow>
          if download_url a = [] then retE None
          else bindE (reply (Get (download_url a) (um_token m)) (\<lambda>n. se_text e n (download_url a)))
            (\<lambda>t. retE (parse_sha256_manifest t target_asset)))"

definition download_minisig :: "('k, 's) update_env \<Rightarrow> upgrade_manager \<Rightarrow> release_asset list \<Rightarrow> string \<Rightarrow> string uio" where
  "download_minisig e m assets target_asset =
     (case find_minisig_asset assets target_asset of
        None \<Rightarrow> refuse ''no Minisign signature''
      | Some a \<Rightarrow>
          if download_url a = [] then refuse ''signature has no URL''
          else reply (Get (download_url a) (um_token m)) (\<lambda>n. se_bytes e n (download_url a)))"

definition artifact_sha256 :: "('k, 's) update_env \<Rightarrow> upgrade_manager \<Rightarrow> release_response \<Rightarrow> release_asset \<Rightarrow> string uio" where
  "artifact_sha256 e m release asset =
     (case ra_digest asset of
        Some digest \<Rightarrow> (case parse_digest digest of Some h \<Rightarrow> retE h | None \<Rightarrow> refuse ''bad digest'')
      | None \<Rightarrow>
          bindE (update_manifest e m (rr_assets release) (ra_name asset)) (\<lambda>found. case found of
            Some hash \<Rightarrow> retE hash
          | None \<Rightarrow>
              (case rr_body release of
                 Some body \<Rightarrow> (case extract_sha256_from_body body of Some h \<Rightarrow> retE h | None \<Rightarrow> refuse ''no SHA256'')
               | None \<Rightarrow> refuse ''no SHA256'')))"

definition api_path_of :: "release_repo \<Rightarrow> string" where
  "api_path_of r = ''repos/'' @ rp_owner r @ ''/'' @ rp_repo r @ ''/releases/latest''"

definition fetch_latest_release_from_repo :: "('k, 's) update_env \<Rightarrow> upgrade_manager \<Rightarrow> release_repo \<Rightarrow> release_artifact uio" where
  "fetch_latest_release_from_repo e m repository =
     bindE (reply (Get (api_path_of repository) (um_token m))
       (\<lambda>n. fetch_json_from_mirrors (se_release e n) [RELEASE_API_BASE] (api_path_of repository))) (\<lambda>release.
     if rr_tag_name release = [] then refuse ''release has no tag_name''
     else case select_asset m (rr_assets release) of
       None \<Rightarrow> refuse ''no matching asset''
     | Some asset \<Rightarrow>
         if download_url asset = [] then refuse ''asset has no URL''
         else bindE (artifact_sha256 e m release asset) (\<lambda>sha256.
           bindE (download_minisig e m (rr_assets release) (ra_name asset)) (\<lambda>minisig.
           retE \<lparr>at_repository = repo_display_name repository, at_tag_name = rr_tag_name release, at_asset_name = ra_name asset,
                 at_download_url = download_url asset, at_sha256 = sha256, at_size = ra_size asset, at_minisig = Some minisig\<rparr>)))"

text \<open>The repositories in turn; the errors are collected.\<close>

fun fetch_from_repos :: "('k, 's) update_env \<Rightarrow> upgrade_manager \<Rightarrow> release_repo list \<Rightarrow> string list \<Rightarrow> release_artifact uio" where
  "fetch_from_repos e m [] errors = refuse (''tried: '' @ join '' | '' errors)"
| "fetch_from_repos e m (r # rs) errors =
     catchE (fetch_latest_release_from_repo e m r) (\<lambda>res. case res of
       Inr artifact \<Rightarrow> retE artifact
     | Inl (Failed err) \<Rightarrow> fetch_from_repos e m rs (errors @ [repo_display_name r @ '': '' @ err])
     | Inl ProcessExit \<Rightarrow> failE ProcessExit)"

definition fetch_latest_release :: "('k, 's) update_env \<Rightarrow> upgrade_manager \<Rightarrow> release_artifact uio" where
  "fetch_latest_release e m = fetch_from_repos e m (um_repositories m) []"


section \<open>Download\<close>

definition tell :: "string \<Rightarrow> unit uio" where
  "tell t = ignoreE (try_update (Reword t))"

definition unique_update_path :: "('k, 's) update_env \<Rightarrow> string \<Rightarrow> nat \<Rightarrow> string" where
  "unique_update_path e exe_dir now = path_join exe_dir (''.aegis-update-'' @ nat_str (se_pid e) @ ''-'' @ hex_str now @ ''.tmp'')"

definition put_temp :: "string \<Rightarrow> core_file option \<Rightarrow> update_world \<Rightarrow> update_world" where
  "put_temp p f w = w\<lparr>sw_temp := (sw_temp w)(p := f)\<rparr>"

definition unlink :: "string \<Rightarrow> unit uio" where
  "unlink p = thenE (try_update (Unlinked p)) (change (put_temp p None))"

fun store_chunks :: "('k, 's) update_env \<Rightarrow> string \<Rightarrow> string \<Rightarrow> (string + string) list \<Rightarrow> string uio" where
  "store_chunks e p received [] = retE received"
| "store_chunks e p received (Inl err # cs) = refuse err"
| "store_chunks e p received (Inr c # cs) =
     thenE (try_update (WroteChunk p))
     (thenE (change (put_temp p (Some \<lparr>cf_data = received @ c, cf_mode = 420\<rparr>)))
     (thenE (if se_report e (length (received @ c)) then tell (se_progress e (length (received @ c))) else retE ())
       (store_chunks e p (received @ c) cs)))"

definition verify_downloaded_minisign :: "('k, 's) update_env \<Rightarrow> string \<Rightarrow> string \<Rightarrow> release_artifact \<Rightarrow> unit uio" where
  "verify_downloaded_minisign e data sig_bytes a =
     (if \<not> utf8 (map of_char sig_bytes) then refuse ''signature is not UTF-8''
      else bindE (at_now (se_today e)) (\<lambda>today.
        case verify_minisign (se_minisign e) today data sig_bytes MINISIGN_ACTIVE_KEYS MINISIGN_HISTORICAL_KEYS of
          Inl err \<Rightarrow> refuse err
        | Inr comment \<Rightarrow>
            (case parse_trusted_comment comment of
               Inl err \<Rightarrow> refuse err
             | Inr (got_version, got_asset) \<Rightarrow>
                 if got_version \<noteq> at_tag_name a then refuse ''signed version differs''
                 else if got_asset \<noteq> at_asset_name a then refuse ''signed file name differs''
                 else retE ())))"

text \<open>The file is read again from the disk for the signature; a refused file is removed.\<close>

definition check_update_signature :: "('k, 's) update_env \<Rightarrow> release_artifact \<Rightarrow> string \<Rightarrow> unit uio" where
  "check_update_signature e a p =
     (case at_minisig a of
        None \<Rightarrow> refuse ''no Minisign signature''
      | Some sig_bytes \<Rightarrow>
          thenE (tell (se_tr e ''upgrade.bot_minisign_verifying'' []))
          (thenE (try_update (ReadBack p))
          (bindE (peek (\<lambda>w. sw_temp w p)) (\<lambda>file. case file of
             None \<Rightarrow> refuse ''not found''
           | Some f \<Rightarrow>
               catchE (verify_downloaded_minisign e (cf_data f) sig_bytes a) (\<lambda>r. case r of
                 Inr _ \<Rightarrow> tell (se_tr e ''upgrade.bot_minisign_ok'' [])
               | Inl stop \<Rightarrow>
                   thenE (ignoreE (unlink p))
                     (refuse (''Minisign: '' @ (case stop of Failed err \<Rightarrow> err | ProcessExit \<Rightarrow> []))))))))"

definition download_with_progress :: "('k, 's) update_env \<Rightarrow> upgrade_manager \<Rightarrow> release_artifact \<Rightarrow> string uio" where
  "download_with_progress e m a =
     bindE (reply (Get (at_download_url a) (um_token m)) (\<lambda>n. se_chunks e n (at_download_url a))) (\<lambda>stream.
     case se_exe_dir e of
       Inl err \<Rightarrow> refuse err
     | Inr exe_dir \<Rightarrow>
         bindE (at_now (se_nanos e)) (\<lambda>now.
         let p = unique_update_path e exe_dir now in
         thenE (try_update (CreatedTemp p))
         (thenE (change (put_temp p (Some \<lparr>cf_data = [], cf_mode = 420\<rparr>)))
         (bindE (store_chunks e p [] stream) (\<lambda>received.
         thenE (try_update (Flushed p))
         (thenE (try_update (Synced p))
         (thenE (try_update (MadeExecutable p))
         (thenE (change (put_temp p (Some \<lparr>cf_data = received, cf_mode = 493\<rparr>)))
         (if se_sha256 e received \<noteq> at_sha256 a then
            thenE (ignoreE (unlink p)) (refuse (se_tr e ''upgrade.bot_sha256_mismatch'' [at_sha256 a, se_sha256 e received]))
          else thenE (check_update_signature e a p)
            (thenE (tell (se_tr e ''upgrade.bot_download_done'' [])) (retE p)))))))))))"

section \<open>Replacement\<close>

definition replace_executable :: "('k, 's) update_env \<Rightarrow> string \<Rightarrow> unit uio" where
  "replace_executable e p =
     bindE (peek (\<lambda>w. (length (sw_trace w), sw_exe w, sw_temp w p))) (\<lambda>(n, exe, file).
     case file of
       None \<Rightarrow> refuse ''not found''
     | Some new \<Rightarrow>
         (let (r, exe') = se_replace e n exe new in
          thenE (change (\<lambda>w. noted (Replaced p) (w\<lparr>sw_exe := exe'\<rparr>)))
            (case r of Inl err \<Rightarrow> refuse err | Inr _ \<Rightarrow> retE ())))"

definition write_upgrade_flag :: "string \<Rightarrow> unit uio" where
  "write_upgrade_flag version =
     thenE (try_update MadeFlagDir) (thenE (try_update WroteFlag) (change (\<lambda>w. w\<lparr>sw_flag := Some version\<rparr>)))"

definition finalize_install :: "('k, 's) update_env \<Rightarrow> release_artifact \<Rightarrow> string \<Rightarrow> unit uio" where
  "finalize_install e a p =
     thenE (tell (se_tr e ''upgrade.bot_replacing'' []))
     (thenE (replace_executable e p)
     (thenE (ignoreE (unlink p))
     (thenE (write_upgrade_flag (at_tag_name a))
     (thenE (try_update (Say (se_tr e ''upgrade.bot_updated'' [at_tag_name a])))
     (thenE (change (noted Slept))
       (failE ProcessExit))))))"

text \<open>An error is shown in the progress message and passed on; the end of the process passes everything.\<close>

definition reporting :: "('k, 's) update_env \<Rightarrow> string \<Rightarrow> unit uio \<Rightarrow> 'a uio \<Rightarrow> 'a uio" where
  "reporting e key cleanup m =
     catchE m (\<lambda>r. case r of
       Inr a \<Rightarrow> retE a
     | Inl ProcessExit \<Rightarrow> failE ProcessExit
     | Inl (Failed err) \<Rightarrow> thenE (tell (se_tr e key [err])) (thenE cleanup (failE (Failed err))))"

definition update_summary :: "('k, 's) update_env \<Rightarrow> release_artifact \<Rightarrow> string" where
  "update_summary e a = se_tr e ''upgrade.bot_summary'' [at_repository a, at_tag_name a, at_asset_name a,
     (case at_size a of Some n \<Rightarrow> se_size_text e n | None \<Rightarrow> se_tr e ''upgrade.bot_unknown_size'' []), at_sha256 a]"

definition run_self_upgrade :: "('k, 's) update_env \<Rightarrow> upgrade_manager \<Rightarrow> unit uio" where
  "run_self_upgrade e m =
     thenE (try_update (Say (se_tr e ''upgrade.bot_querying'' [])))
     (bindE (reporting e ''upgrade.bot_fetch_fail'' (retE ()) (fetch_latest_release e m)) (\<lambda>a.
      if is_current_version (at_tag_name a) then tell (se_tr e ''upgrade.bot_already_latest'' [])
      else thenE (tell (se_tr e ''upgrade.bot_preparing'' [update_summary e a]))
        (bindE (reporting e ''upgrade.bot_download_fail'' (retE ()) (download_with_progress e m a)) (\<lambda>p.
          reporting e ''upgrade.bot_install_fail'' (ignoreE (unlink p)) (finalize_install e a p)))))"

text \<open>At the next start, \<open>notify_upgrade_success\<close> in \<open>main.rs\<close>: the flag is removed, also when that or the
  message fails.\<close>

definition notify_upgrade_success :: "('k, 's) update_env \<Rightarrow> unit uio" where
  "notify_upgrade_success e =
     bindE (peek sw_flag) (\<lambda>flag. case flag of
       None \<Rightarrow> retE ()
     | Some version_raw \<Rightarrow>
         bindE (catchE (try_update (ReadBack UPGRADE_FLAG_FILE)) (\<lambda>r. retE (case r of Inl _ \<Rightarrow> [] | Inr _ \<Rightarrow> trim version_raw))) (\<lambda>version.
         thenE (ignoreE (thenE (try_update (Unlinked UPGRADE_FLAG_FILE)) (change (\<lambda>w. w\<lparr>sw_flag := None\<rparr>))))
           (try_update (Say (if version = [] then se_tr e ''system.upgrade_done_no_version'' []
             else se_tr e ''system.upgrade_success'' [version])))))"

section \<open>Rules\<close>

text \<open>What holds of an executable: it is the one from before, or one that was vouched for.\<close>

definition vouched_update :: "('k, 's) update_env \<Rightarrow> release_artifact \<Rightarrow> string \<Rightarrow> bool" where
  "vouched_update e a data \<longleftrightarrow> se_sha256 e data = at_sha256 a
     \<and> (\<exists>n sig. at_minisig a = Some sig
          \<and> verify_minisign (se_minisign e) (se_today e n) data sig MINISIGN_ACTIVE_KEYS MINISIGN_HISTORICAL_KEYS
              = Inr (at_tag_name a @ '':'' @ at_asset_name a))"

text \<open>What \<open>self_replace\<close> promises: the executable is the new file or stays the old one.\<close>

definition replaces_atomically :: "('k, 's) update_env \<Rightarrow> bool" where
  "replaces_atomically e \<longleftrightarrow> (\<forall>n exe new. (case se_replace e n exe new of
      (Inr _, exe') \<Rightarrow> exe' = new | (Inl _, exe') \<Rightarrow> exe' = exe))"

definition exe_is :: "core_file \<Rightarrow> update_world \<Rightarrow> bool" where
  "exe_is f w \<longleftrightarrow> sw_exe w = f"

definition quiet_of :: "(update_world \<Rightarrow> bool) \<Rightarrow> bool" where
  "quiet_of P \<longleftrightarrow> (\<forall>w t x. P w \<longrightarrow> P (w\<lparr>sw_trace := t\<rparr>) \<and> P (w\<lparr>sw_temp := x\<rparr>))"

lemma quiet_exe: "quiet_of (exe_is f)"
  by (simp add: quiet_of_def exe_is_def)

lemma quiet_noted: "quiet_of P \<Longrightarrow> P w \<Longrightarrow> P (noted ef w)"
  by (simp add: quiet_of_def noted_def)

lemma quiet_put: "quiet_of P \<Longrightarrow> P w \<Longrightarrow> P (put_temp p f w)"
  by (simp add: quiet_of_def put_temp_def)

named_theorems upd \<open>steps that keep what does not depend on the trace and the temporary files\<close>

lemma upd_try [upd]: "quiet_of P \<Longrightarrow> invar P (try_update ef)"
  by (auto simp: io_triple_def try_update_def quiet_noted split: option.split)

lemma upd_reply [upd]: "quiet_of P \<Longrightarrow> invar P (reply ef a)"
  by (auto simp: io_triple_def reply_def quiet_noted split: sum.split)

lemma upd_now [upd]: "invar P (at_now f)"
  by (simp add: io_triple_def at_now_def)

lemma upd_peek [upd]: "invar P (peek f)"
  by (simp add: io_triple_def peek_def)

lemma upd_put [upd]: "quiet_of P \<Longrightarrow> invar P (change (put_temp p f))"
  by (simp add: io_triple_def change_def quiet_put)

lemma upd_refuse [upd]: "invar P (refuse err)"
  unfolding refuse_def by (rule io_triple_fail)

lemma upd_ret [upd]: "invar P (retE a)"
  by (rule io_triple_ret)

lemma upd_tell [upd]: "quiet_of P \<Longrightarrow> invar P (tell t)"
  unfolding tell_def by (intro io_triple_ignore upd_try)

lemma upd_unlink [upd]: "quiet_of P \<Longrightarrow> invar P (unlink p)"
  unfolding unlink_def by (intro invar_then upd)

lemma upd_unlink_try [upd]: "quiet_of P \<Longrightarrow> invar P (ignoreE (unlink p))"
  by (intro io_triple_ignore upd_unlink)


lemma upd_reporting:
  "io_triple P m Q P \<Longrightarrow> quiet_of P \<Longrightarrow> invar P cleanup \<Longrightarrow> io_triple P (reporting e key cleanup m) Q P"
  unfolding reporting_def
  by (erule io_triple_catch)
    (auto split: update_stop.split intro!: io_triple_ret io_triple_fail io_triple_then [OF upd_tell] io_triple_then [of P cleanup])

lemma upd_fetch_repo: "quiet_of P \<Longrightarrow> invar P (fetch_latest_release_from_repo e m r)"
proof -
  assume q: "quiet_of P"
  have manifest: "invar P (update_manifest e m as t)" for as t
    unfolding update_manifest_def by (auto split: option.split intro!: invar_bind upd q)
  have sha: "invar P (artifact_sha256 e m rel a)" for rel a
    unfolding artifact_sha256_def by (auto split: option.split intro!: invar_bind upd q manifest)
  have sig: "invar P (download_minisig e m as t)" for as t
    unfolding download_minisig_def by (auto split: option.split intro!: upd q)
  show ?thesis
    unfolding fetch_latest_release_from_repo_def
    by (rule invar_bind [OF upd_reply [OF q]]) (auto split: option.split intro!: invar_bind upd q sha sig)
qed

lemma upd_fetch: "quiet_of P \<Longrightarrow> invar P (fetch_from_repos e m rs errors)"
proof (induction rs arbitrary: errors)
  case (Cons r rs)
  then show ?case
    by (auto split: sum.split update_stop.split intro!: invar_catch upd_fetch_repo upd io_triple_fail)
qed (simp add: upd)

lemma upd_store: "quiet_of P \<Longrightarrow> io_triple P (store_chunks e p received cs) (\<lambda>_. P) P"
proof (induction cs arbitrary: received)
  case (Cons c cs)
  then show ?case by (cases c) (auto intro!: invar_then upd)
qed (simp add: upd)

lemma verified_update:
  assumes "verify_downloaded_minisign e data sig a w = (Inr u, w')" "at_minisig a = Some sig" "se_sha256 e data = at_sha256 a"
  shows "vouched_update e a data"
proof -
  from assms(1) obtain comment v n where "verify_minisign (se_minisign e) (se_today e n) data sig MINISIGN_ACTIVE_KEYS MINISIGN_HISTORICAL_KEYS = Inr comment"
    "parse_trusted_comment comment = Inr (at_tag_name a, at_asset_name a)"
    by (auto simp: verify_downloaded_minisign_def bindE_apply at_now_def refuse_def split: if_splits sum.splits prod.splits)
  then show ?thesis
    using assms(2,3) by (auto simp: vouched_update_def parse_trusted_comment_iff)
qed

text \<open>The downloaded file that is handed to the replacement.\<close>

definition staged :: "('k, 's) update_env \<Rightarrow> release_artifact \<Rightarrow> string \<Rightarrow> update_world \<Rightarrow> bool" where
  "staged e a p w \<longleftrightarrow> (\<exists>data. sw_temp w p = Some \<lparr>cf_data = data, cf_mode = 493\<rparr> \<and> vouched_update e a data)"

lemma pure_verify: "snd (verify_downloaded_minisign e data sig a w) = w"
  by (simp add: verify_downloaded_minisign_def bindE_apply at_now_def refuse_def split: sum.split prod.split)

definition stored :: "(update_world \<Rightarrow> bool) \<Rightarrow> string \<Rightarrow> string \<Rightarrow> update_world \<Rightarrow> bool" where
  "stored P p data w \<longleftrightarrow> P w \<and> sw_temp w p = Some \<lparr>cf_data = data, cf_mode = 493\<rparr>"

lemma stored_noted: "quiet_of P \<Longrightarrow> stored P p data w \<Longrightarrow> stored P p data (noted ef w)"
  by (simp add: stored_def quiet_noted) (simp add: noted_def)

lemma stored_attempt: "quiet_of P \<Longrightarrow> invar (stored P p data) (try_update ef)"
  by (auto simp: io_triple_def try_update_def stored_noted split: option.split)

lemma stored_tell: "quiet_of P \<Longrightarrow> invar (stored P p data) (tell t)"
  unfolding tell_def by (intro io_triple_ignore stored_attempt)

lemma check_signature_stages:
  assumes q: "quiet_of P" and h: "se_sha256 e data = at_sha256 a"
  shows "io_triple (stored P p data) (check_update_signature e a p) (\<lambda>_ w. P w \<and> staged e a p w) P"
proof (cases "at_minisig a")
  case None
  then show ?thesis by (auto simp: check_update_signature_def refuse_def stored_def intro: io_triple_fail)
next
  case (Some sig)
  have err: "io_triple A m B (stored P p data) \<Longrightarrow> io_triple A m B P" for A m and B :: "'x \<Rightarrow> _"
    by (erule io_triple_weaken) (simp_all add: stored_def)
  have verify: "io_triple (stored P p data) (verify_downloaded_minisign e data sig a) (\<lambda>_ w. stored P p data w \<and> vouched_update e a data) (stored P p data)"
  proof (rule io_tripleI)
    fix w u w' assume s: "stored P p data w" and r: "verify_downloaded_minisign e data sig a w = (Inr u, w')"
    from r have "w' = w" using pure_verify [of e data sig a w] by simp
    with s verified_update [OF r Some h] show "stored P p data w' \<and> vouched_update e a data" by simp
  next
    fix w u w' assume "stored P p data w" "verify_downloaded_minisign e data sig a w = (Inl u, w')"
    then show "stored P p data w'" using pure_verify [of e data sig a w] by simp
  qed
  have ok: "io_triple (\<lambda>w. stored P p data w \<and> vouched_update e a data) (tell t) (\<lambda>_ w. P w \<and> staged e a p w) P" for t
    by (rule io_triple_weaken [OF io_triple_frame [OF stored_tell [OF q], where X = "vouched_update e a data"]])
      (auto simp: stored_def staged_def)
  have bad: "io_triple (stored P p data) (thenE (ignoreE (unlink p)) (refuse x)) (\<lambda>_ w. P w \<and> staged e a p w) P" for x
    by (rule io_triple_then [where Q = P, OF io_triple_pre [OF upd_unlink_try [OF q]]]) (auto simp: stored_def refuse_def intro: io_triple_fail)
  have found: "io_triple (\<lambda>w. stored P p data w \<and> fl = sw_temp w p) (case fl of
             None \<Rightarrow> refuse ''not found''
           | Some f \<Rightarrow>
               catchE (verify_downloaded_minisign e (cf_data f) sig a) (\<lambda>r. case r of
                 Inr _ \<Rightarrow> tell (se_tr e ''upgrade.bot_minisign_ok'' [])
               | Inl stop \<Rightarrow> thenE (ignoreE (unlink p)) (refuse (''Minisign: '' @ (case stop of Failed err \<Rightarrow> err | ProcessExit \<Rightarrow> [])))))
      (\<lambda>_ w. P w \<and> staged e a p w) P" for fl
  proof (cases "fl = Some \<lparr>cf_data = data, cf_mode = 493\<rparr>")
    case True
    have "io_triple (stored P p data) (catchE (verify_downloaded_minisign e data sig a) (\<lambda>r. case r of
                 Inr _ \<Rightarrow> tell (se_tr e ''upgrade.bot_minisign_ok'' [])
               | Inl stop \<Rightarrow> thenE (ignoreE (unlink p)) (refuse (''Minisign: '' @ (case stop of Failed err \<Rightarrow> err | ProcessExit \<Rightarrow> [])))))
      (\<lambda>_ w. P w \<and> staged e a p w) P"
      by (rule io_triple_catch [OF verify]) (simp_all add: ok bad)
    then show ?thesis unfolding True option.case core_file.select_convs by (rule io_triple_pre) simp
  qed (auto simp: io_triple_def stored_def)
  show ?thesis
    unfolding check_update_signature_def Some option.case
    by (rule io_triple_then [OF err [OF stored_tell [OF q]] io_triple_then [OF err [OF stored_attempt [OF q]]
          io_triple_bind [where Q = "\<lambda>file w. stored P p data w \<and> file = sw_temp w p", OF _ found]]])
      (simp add: io_triple_def peek_def)
qed


lemma download_stages:
  assumes q: "quiet_of P"
  shows "io_triple P (download_with_progress e m a) (\<lambda>p w. P w \<and> staged e a p w) P"
proof -
  have put: "io_triple P (change (put_temp p (Some \<lparr>cf_data = data, cf_mode = 493\<rparr>))) (\<lambda>_. stored P p data) P" for p data
    using quiet_put [OF q] by (simp add: io_triple_def change_def stored_def) (simp add: put_temp_def)
  have refused: "io_triple (stored P p data) (thenE (ignoreE (unlink p)) (refuse x)) (\<lambda>p w. P w \<and> staged e a p w) P" for p data x
    by (rule io_triple_then [where Q = P, OF io_triple_pre [OF upd_unlink_try [OF q]]]) (auto simp: stored_def refuse_def intro: io_triple_fail)
  have told: "io_triple (\<lambda>w. P w \<and> staged e a p w) (tell t) (\<lambda>_ w. P w \<and> staged e a p w) P" for p t
    by (rule io_triple_weaken [where P = "\<lambda>w. P w \<and> staged e a p w" and Q = "\<lambda>_ w. P w \<and> staged e a p w" and E = "\<lambda>w. P w \<and> staged e a p w"])
      (auto simp: tell_def ignoreE_def io_triple_def catchE_apply try_update_def staged_def quiet_noted [OF q] split: option.split; simp add: noted_def)+
  have rest: "io_triple P (thenE (change (put_temp p (Some \<lparr>cf_data = received, cf_mode = 493\<rparr>)))
         (if se_sha256 e received \<noteq> at_sha256 a then
            thenE (ignoreE (unlink p)) (refuse (se_tr e ''upgrade.bot_sha256_mismatch'' [at_sha256 a, se_sha256 e received]))
          else thenE (check_update_signature e a p)
            (thenE (tell (se_tr e ''upgrade.bot_download_done'' [])) (retE p))))
      (\<lambda>p w. P w \<and> staged e a p w) P" for p received
    by (rule io_triple_then [OF put])
      (auto intro!: refused io_triple_then [OF check_signature_stages [OF q]] io_triple_then [OF told] io_triple_ret)
  show ?thesis
    unfolding download_with_progress_def Let_def
    by (rule io_triple_bind [OF upd_reply [OF q]])
      (auto split: sum.split intro!: rest upd io_triple_bind [OF upd_now] io_triple_then [OF upd_try [OF q]] io_triple_then [OF upd_put [OF q]]
        io_triple_bind [OF upd_store [OF q]] simp: refuse_def intro: io_triple_fail)
qed

text \<open>Installing: the executable stays the same or becomes the staged file; the process ends only after the latter.\<close>

definition installed :: "('k, 's) update_env \<Rightarrow> release_artifact \<Rightarrow> update_world \<Rightarrow> bool" where
  "installed e a w \<longleftrightarrow> (\<exists>data. sw_exe w = \<lparr>cf_data = data, cf_mode = 493\<rparr> \<and> vouched_update e a data)"

lemma quiet_installed: "quiet_of (installed e a)"
  by (simp add: quiet_of_def installed_def)

lemma replaced_staged:
  assumes "replaces_atomically e"
  shows "io_triple (\<lambda>w. exe_is x w \<and> staged e a p w) (replace_executable e p) (\<lambda>_. installed e a) (exe_is x)"
proof (rule io_tripleI)
  have rs: "case se_replace e n f g of (Inr _, f') \<Rightarrow> f' = g | (Inl _, f') \<Rightarrow> f' = f" for n f g
    using assms by (simp add: replaces_atomically_def)
  fix w u w' assume s: "exe_is x w \<and> staged e a p w" and r: "replace_executable e p w = (Inr u, w')"
  then obtain data where d: "sw_temp w p = Some \<lparr>cf_data = data, cf_mode = 493\<rparr>" "vouched_update e a data" by (auto simp: staged_def)
  show "installed e a w'"
    using r d rs [where n = "length (sw_trace w)" and f = "sw_exe w" and g = "\<lparr>cf_data = data, cf_mode = 493\<rparr>"] by (auto simp: replace_executable_def bindE_apply thenE_apply peek_def change_def noted_def refuse_def installed_def
        split: prod.splits sum.splits)
next
  have rs: "case se_replace e n f g of (Inr _, f') \<Rightarrow> f' = g | (Inl _, f') \<Rightarrow> f' = f" for n f g
    using assms by (simp add: replaces_atomically_def)
  fix w u w' assume s: "exe_is x w \<and> staged e a p w" and r: "replace_executable e p w = (Inl u, w')"
  then obtain data where d: "sw_temp w p = Some \<lparr>cf_data = data, cf_mode = 493\<rparr>" by (auto simp: staged_def)
  show "exe_is x w'"
    using r s d rs [where n = "length (sw_trace w)" and f = "sw_exe w" and g = "\<lparr>cf_data = data, cf_mode = 493\<rparr>"] by (auto simp: replace_executable_def bindE_apply thenE_apply peek_def change_def noted_def refuse_def exe_is_def
        split: prod.splits sum.splits)
qed

lemma flag_kept: "invar (installed e a) (write_upgrade_flag v)"
  unfolding write_upgrade_flag_def
  by (intro invar_then upd_try quiet_installed) (simp add: io_triple_def change_def installed_def)

lemma finalize_triple:
  assumes "replaces_atomically e"
  shows "io_triple (\<lambda>w. exe_is x w \<and> staged e a p w) (finalize_install e a p) (\<lambda>_ w. exe_is x w \<or> installed e a w) (\<lambda>w. exe_is x w \<or> installed e a w)"
proof -
  let ?E = "\<lambda>w. exe_is x w \<or> installed e a w"
  have told: "io_triple (\<lambda>w. exe_is x w \<and> staged e a p w) (tell t) (\<lambda>_ w. exe_is x w \<and> staged e a p w) ?E" for t
    by (auto simp: tell_def ignoreE_def io_triple_def catchE_apply try_update_def staged_def exe_is_def noted_def split: option.split)
  have weak: "io_triple A m B C \<Longrightarrow> (\<And>w. C w \<Longrightarrow> ?E w) \<Longrightarrow> io_triple A m B ?E" for A C and m :: "'x uio" and B
    by (erule io_triple_weaken) auto
  have rest: "invar (installed e a) (thenE (ignoreE (unlink p)) (thenE (write_upgrade_flag (at_tag_name a))
     (thenE (try_update (Say (se_tr e ''upgrade.bot_updated'' [at_tag_name a]))) (thenE (change (noted Slept)) (failE ProcessExit)))) :: unit uio)"
    by (intro invar_then upd quiet_installed flag_kept io_triple_fail) (simp_all add: io_triple_def change_def quiet_noted [OF quiet_installed])
  show ?thesis
    unfolding finalize_install_def
    by (rule io_triple_then [OF told io_triple_then [OF weak [OF replaced_staged [OF assms]]]])
      (auto intro: io_triple_weaken [OF rest])
qed


section \<open>Properties\<close>

text \<open>What may be on the disk afterwards.\<close>

definition update_safe :: "('k, 's) update_env \<Rightarrow> upgrade_manager \<Rightarrow> core_file \<Rightarrow> update_world \<Rightarrow> bool" where
  "update_safe e m x w \<longleftrightarrow> exe_is x w
     \<or> (\<exists>a w1 w2. fetch_latest_release e m w1 = (Inr a, w2) \<and> \<not> is_current_version (at_tag_name a) \<and> installed e a w)"

lemma quiet_update_safe: "quiet_of (update_safe e m x)"
  by (simp add: quiet_of_def update_safe_def exe_is_def installed_def)

lemma run_triple_self:
  assumes "replaces_atomically e"
  shows "io_triple (exe_is x) (run_self_upgrade e m) (\<lambda>_. update_safe e m x) (update_safe e m x)"
proof -
  let ?Q = "update_safe e m x"
  have weak: "io_triple A n B (exe_is x) \<Longrightarrow> io_triple A n B ?Q" for A B and n :: "'x uio"
    by (erule io_triple_weaken) (auto simp: update_safe_def)
  have all: "invar (exe_is x) (fetch_latest_release e m)"
    unfolding fetch_latest_release_def by (rule upd_fetch [OF quiet_exe])
  have fetched: "io_triple (exe_is x) (reporting e k (retE ()) (fetch_latest_release e m))
      (\<lambda>a w. (\<exists>w1 w2. fetch_latest_release e m w1 = (Inr a, w2)) \<and> exe_is x w) (exe_is x)" for k
    by (rule upd_reporting [OF io_triple_value [OF all] quiet_exe upd_ret]) blast
  have cleanup: "invar ?Q (thenE (tell t) (thenE (ignoreE (unlink p)) (failE (Failed err))) :: unit uio)" for t p err
    by (intro invar_then upd io_triple_fail quiet_update_safe)
  have install: "io_triple (\<lambda>w. exe_is x w \<and> staged e a p w) (reporting e k (ignoreE (unlink p)) (finalize_install e a p)) (\<lambda>_. ?Q) ?Q"
    if a: "\<exists>w1 w2. fetch_latest_release e m w1 = (Inr a, w2)" "\<not> is_current_version (at_tag_name a)" for a p k
    unfolding reporting_def
    by (rule io_triple_catch [OF io_triple_weaken [OF finalize_triple [OF assms], where Q' = "\<lambda>_. ?Q" and E' = ?Q]])
      (use a in \<open>auto split: update_stop.split intro!: cleanup io_triple_ret io_triple_fail simp: update_safe_def [of e m x]\<close>)
  have after: "io_triple (\<lambda>w. (\<exists>w1 w2. fetch_latest_release e m w1 = (Inr a, w2)) \<and> exe_is x w)
      (if is_current_version (at_tag_name a) then tell t
       else thenE (tell t') (bindE (reporting e k (retE ()) (download_with_progress e m a))
        (\<lambda>p. reporting e k' (ignoreE (unlink p)) (finalize_install e a p)))) (\<lambda>_. ?Q) ?Q" for a t t' k k'
  proof (cases "\<exists>w1 w2. fetch_latest_release e m w1 = (Inr a, w2)")
    case True
    have "io_triple (exe_is x) (if is_current_version (at_tag_name a) then tell t
       else thenE (tell t') (bindE (reporting e k (retE ()) (download_with_progress e m a))
        (\<lambda>p. reporting e k' (ignoreE (unlink p)) (finalize_install e a p)))) (\<lambda>_. ?Q) ?Q"
    proof (rule io_triple_if)
      show "io_triple (exe_is x) (tell t) (\<lambda>_. ?Q) ?Q"
        by (rule io_triple_weaken [OF upd_tell [OF quiet_exe]]) (auto simp: update_safe_def)
    next
      assume "\<not> is_current_version (at_tag_name a)"
      from install [OF True this] show "io_triple (exe_is x) (thenE (tell t') (bindE (reporting e k (retE ()) (download_with_progress e m a))
        (\<lambda>p. reporting e k' (ignoreE (unlink p)) (finalize_install e a p)))) (\<lambda>_. ?Q) ?Q"
        by (rule io_triple_then [OF weak [OF upd_tell [OF quiet_exe]]
              io_triple_bind [OF weak [OF upd_reporting [OF download_stages [OF quiet_exe] quiet_exe upd_ret]]]])
    qed
    then show ?thesis using True by simp
  qed (simp add: io_triple_def)
  show ?thesis
    unfolding run_self_upgrade_def
    by (rule io_triple_then [OF weak [OF upd_try [OF quiet_exe]] io_triple_bind [OF weak [OF fetched] after]])
qed


text \<open>Also: When the flag cannot be written after the replacement, the upgrade reports a failed installation and the process goes
  on, but the executable on the disk is already the new one, and the next start announces nothing.\<close>

theorem failed_flag_leaves_new_executable:
  assumes "sw_temp w p = Some new" "\<forall>n exe f. se_replace e n exe f = (Inr (), f)"
    "sw_fault w (length (sw_trace w) + 3) = Some err"
  shows "fst (finalize_install e a p w) = Inl (Failed err) \<and> sw_exe (snd (finalize_install e a p w)) = new
    \<and> sw_flag (snd (finalize_install e a p w)) = sw_flag w"
  using assms
  by (simp add: finalize_install_def thenE_apply bindE_apply catchE_apply tell_def ignoreE_def try_update_def noted_def replace_executable_def
      peek_def change_def refuse_def unlink_def put_temp_def write_upgrade_flag_def numeral_3_eq_3 split: option.split)

section \<open>A run\<close>

definition self_sample_asset :: "string \<Rightarrow> release_asset" where
  "self_sample_asset name = \<lparr>ra_name = name, browser_download_url = name, ra_url = [], ra_size = None,
     ra_digest = Some (''sha256:'' @ replicate 64 (CHR ''a''))\<rparr>"

definition self_sample_env :: "(unit, unit) update_env" where
  "self_sample_env = \<lparr>se_var = (\<lambda>_. None), se_client = None, se_tr = (\<lambda>k _. k),
     se_release = (\<lambda>_ _. Inr \<lparr>rr_tag_name = ''v3'', rr_body = None,
        rr_assets = [self_sample_asset ''aegis'', self_sample_asset ''aegis.minisig''], prerelease = False\<rparr>),
     se_text = (\<lambda>_ _. Inl ''404''), se_bytes = (\<lambda>_ _. Inr ''sig''), se_chunks = (\<lambda>_ _. Inr [Inr ''ne'', Inr ''w'']),
     se_sha256 = (\<lambda>d. replicate 64 (if d = ''new'' then CHR ''a'' else CHR ''b'')),
     se_minisign = \<lparr>sig_decode = (\<lambda>_. Inr ()), key_from_base64 = (\<lambda>_. Some ()), key_verify = (\<lambda>_ d _. d = ''new''),
        sig_trusted_comment = (\<lambda>_. ''v3:aegis'')\<rparr>,
     se_today = (\<lambda>_. ''2026-01-01''), se_exe_dir = Inr ''/opt'', se_pid = 1, se_nanos = (\<lambda>_. 0), se_report = (\<lambda>_. False),
     se_progress = (\<lambda>_. []), se_size_text = (\<lambda>_. []), se_replace = (\<lambda>_ _ new. (Inr (), new))\<rparr>"

definition self_sample_manager :: upgrade_manager where
  "self_sample_manager = \<lparr>um_repositories = DEFAULT_RELEASE_REPOSITORIES, um_asset_name = DEFAULT_ASSET_NAME, um_token = None\<rparr>"

definition self_sample_world :: update_world where
  "self_sample_world = \<lparr>sw_exe = \<lparr>cf_data = ''old'', cf_mode = 493\<rparr>, sw_temp = (\<lambda>_. None), sw_flag = None, sw_trace = [], sw_fault = (\<lambda>_. None)\<rparr>"

lemma self_sample_parts:
  "parse_digest (''sha256:'' @ replicate 64 (CHR ''a'')) = Some (replicate 64 (CHR ''a''))" "\<not> is_current_version ''v3''"
  "parse_trusted_comment ''v3:aegis'' = Inr (''v3'', ''aegis'')" "utf8 (map of_char ''sig'')"
  by code_simp+

lemma self_sample_key: "verify_minisign (se_minisign self_sample_env) ''2026-01-01'' ''new'' s MINISIGN_ACTIVE_KEYS MINISIGN_HISTORICAL_KEYS = Inr ''v3:aegis''"
  by (simp add: verify_minisign_def self_sample_env_def MINISIGN_ACTIVE_KEYS_def key_is_active_def key_expired_def try_verify_def)

definition self_sample_artifact :: release_artifact where
  "self_sample_artifact = \<lparr>at_repository = repo_display_name (hd DEFAULT_RELEASE_REPOSITORIES), at_tag_name = ''v3'', at_asset_name = ''aegis'',
     at_download_url = ''aegis'', at_sha256 = replicate 64 (CHR ''a''), at_size = None, at_minisig = Some ''sig''\<rparr>"

lemmas update_eval = thenE_apply bindE_apply catchE_apply reply_def noted_def refuse_def try_update_def tell_def ignoreE_def at_now_def peek_def
  change_def put_temp_def reporting_def

lemma self_sample_fetch: "fetch_latest_release self_sample_env self_sample_manager (self_sample_world\<lparr>sw_trace := t\<rparr>)
    = (Inr self_sample_artifact, self_sample_world\<lparr>sw_trace := t @ [Get (api_path_of (hd DEFAULT_RELEASE_REPOSITORIES)) None, Get ''aegis.minisig'' None]\<rparr>)"
  using self_sample_parts(1)
  by (simp add: fetch_latest_release_def self_sample_manager_def DEFAULT_RELEASE_REPOSITORIES_def fetch_latest_release_from_repo_def update_eval
      self_sample_env_def fetch_json_from_mirrors_def RELEASE_API_BASE_def api_path_of_def select_asset_def or_otherwise_def self_sample_asset_def
      DEFAULT_ASSET_NAME_def download_url_def artifact_sha256_def download_minisig_def find_minisig_asset_def self_sample_artifact_def self_sample_world_def
      del: replicate.simps replicate_Suc)

lemma self_sample_download: "\<exists>p t'. download_with_progress self_sample_env self_sample_manager self_sample_artifact (self_sample_world\<lparr>sw_trace := t\<rparr>)
    = (Inr p, self_sample_world\<lparr>sw_trace := t', sw_temp := [p \<mapsto> \<lparr>cf_data = ''new'', cf_mode = 493\<rparr>]\<rparr>)"
  using self_sample_parts(3,4) self_sample_key
  by (simp add: download_with_progress_def self_sample_manager_def update_eval self_sample_env_def self_sample_artifact_def self_sample_world_def Let_def
      check_update_signature_def verify_downloaded_minisign_def)

lemma self_sample_run: "sw_exe (snd (run_self_upgrade self_sample_env self_sample_manager self_sample_world)) = \<lparr>cf_data = ''new'', cf_mode = 493\<rparr>"
proof -
  let ?e = self_sample_env and ?m = self_sample_manager and ?t = "[Say ''upgrade.bot_querying'', Get (api_path_of (hd DEFAULT_RELEASE_REPOSITORIES)) None, Get ''aegis.minisig'' None]"
  have tr: "se_tr ?e k as = k" "sw_fault self_sample_world n = None" for k as n by (simp_all add: self_sample_env_def self_sample_world_def)
  obtain p t' where d: "download_with_progress ?e ?m self_sample_artifact (self_sample_world\<lparr>sw_trace := ?t @ [Reword ''upgrade.bot_preparing'']\<rparr>)
      = (Inr p, self_sample_world\<lparr>sw_trace := t', sw_temp := [p \<mapsto> \<lparr>cf_data = ''new'', cf_mode = 493\<rparr>]\<rparr>)"
    using self_sample_download by blast
  have f: "fetch_latest_release ?e ?m (self_sample_world\<lparr>sw_trace := [Say ''upgrade.bot_querying'']\<rparr>) = (Inr self_sample_artifact, self_sample_world\<lparr>sw_trace := ?t\<rparr>)"
    using self_sample_fetch by simp
  have w: "sw_trace self_sample_world = []" by (simp add: self_sample_world_def)
  have v: "\<not> is_current_version (at_tag_name self_sample_artifact)" using self_sample_parts(2) by (simp add: self_sample_artifact_def)
  obtain w1 where "finalize_install ?e self_sample_artifact p (self_sample_world\<lparr>sw_trace := t', sw_temp := [p \<mapsto> \<lparr>cf_data = ''new'', cf_mode = 493\<rparr>]\<rparr>)
      = (Inl ProcessExit, w1)" "sw_exe w1 = \<lparr>cf_data = ''new'', cf_mode = 493\<rparr>"
    by (simp add: finalize_install_def replace_executable_def unlink_def write_upgrade_flag_def update_eval self_sample_env_def self_sample_world_def)
  then show ?thesis
    using f d v by (simp add: run_self_upgrade_def update_eval tr w)
qed


theorem failed_flag_leaves_new_executable_witness:
  "sw_exe (snd (finalize_install self_sample_env self_sample_artifact ''p''
      (self_sample_world\<lparr>sw_temp := \<lambda>_. Some \<lparr>cf_data = ''new'', cf_mode = 493\<rparr>, sw_fault := \<lambda>_. Some ''full''\<rparr>)))
    = \<lparr>cf_data = ''new'', cf_mode = 493\<rparr>"
  using failed_flag_leaves_new_executable [of "self_sample_world\<lparr>sw_temp := \<lambda>_. Some \<lparr>cf_data = ''new'', cf_mode = 493\<rparr>, sw_fault := \<lambda>_. Some ''full''\<rparr>" "''p''" _ self_sample_env "''full''" self_sample_artifact]
  by (simp add: self_sample_world_def self_sample_env_def)

end
