(* ===== verification/SingboxUpgrade.thy ===== *)
theory SingboxUpgrade
  imports CoreUpgradeSafe Json
begin

text \<open>
  Upgrading sing-box, \<open>core/singbox/upgrade.rs\<close>, with the parts of \<open>core/singbox/installer.rs\<close> it uses: the release and its
  hash, the download, the check of its attestation with the fall-back to the release page, the check of the
  configuration with the new binary, backup, replacement, the watch over the service, and the rollback.

  The world is that of theory CoreUpgrade, with the binary under the name \<open>wwps-box\<close>. \<open>curl\<close> and \<open>tar\<close> are programs that
  are run: what they leave on the disk is a parameter, whatever their exit status. The answers of the two web
  sites depend on the position in the trace.
\<close>

section \<open>Versions and assets\<close>

definition strip_v :: "string \<Rightarrow> string" where
  "strip_v s = dropWhile (\<lambda>c. c = CHR ''v'') s"

fun parse_box_version :: "string list \<Rightarrow> string option" where
  "parse_box_version [] = None"
| "parse_box_version (l # ls) =
     (case strip_prefix ''sing-box version '' (trim l) of
        Some rest \<Rightarrow> if trim rest \<noteq> [] then Some (strip_v (trim rest)) else parse_box_version ls
      | None \<Rightarrow> parse_box_version ls)"

definition parse_version_from_output :: "string \<Rightarrow> string option" where
  "parse_version_from_output output = parse_box_version (str_lines output)"

definition tarball_name :: "string \<Rightarrow> string \<Rightarrow> string" where
  "tarball_name version arch = ''sing-box-'' @ version @ ''-linux-'' @ arch @ ''.tar.gz''"

definition build_download_url :: "string \<Rightarrow> string \<Rightarrow> string" where
  "build_download_url version arch =
     ''https://github.com/SagerNet/sing-box/releases/download/v'' @ version @ ''/'' @ tarball_name version arch"

definition detect_arch_for :: "string \<Rightarrow> string + string" where
  "detect_arch_for arch =
     (if arch = ''x86_64'' then Inr ''amd64'' else if arch = ''aarch64'' then Inr ''arm64''
      else if arch = ''armv7l'' then Inr ''armv7'' else Inl (''unsupported architecture: '' @ arch))"

definition SINGBOX_RELEASES :: string where
  "SINGBOX_RELEASES = ''SagerNet/sing-box/releases''"

definition SINGBOX_RELEASE_API_BASE :: string where
  "SINGBOX_RELEASE_API_BASE = ''https://api.github.com/repos''"

definition SINGBOX_UPGRADE_TEMP_DIR :: string where "SINGBOX_UPGRADE_TEMP_DIR = ''/tmp/sing-box-upgrade''"
definition SINGBOX_BACKUP_DIR :: string where "SINGBOX_BACKUP_DIR = ''/etc/wwps/wwps-box/backup''"
definition SINGBOX_BACKUP_PREFIX :: string where "SINGBOX_BACKUP_PREFIX = ''wwps-box-backup''"
definition SINGBOX_SERVICE_UNIT :: string where "SINGBOX_SERVICE_UNIT = ''wwps-box.service''"
definition SINGBOX_DIR :: string where "SINGBOX_DIR = ''/etc/wwps/wwps-box''"
definition SINGBOX_BIN :: string where "SINGBOX_BIN = ''/etc/wwps/wwps-box/wwps-box''"
definition SINGBOX_CONF_DIR :: string where "SINGBOX_CONF_DIR = ''/etc/wwps/wwps-box/conf''"

section \<open>Digests\<close>

text \<open>The first well-formed digest; a candidate that is cut off ends the search. The marker does not overlap with itself, so
  going on behind its first character finds the same next occurrence.\<close>

fun sha256_hex_in :: "string \<Rightarrow> string option" where
  "sha256_hex_in [] = None"
| "sha256_hex_in (c # s) =
     (if prefix ''sha256:'' (c # s) then
        (let rest = drop 7 (c # s) in
         if length rest < 64 \<or> (length rest > 64 \<and> continuation (rest ! 64)) then None
         else if list_all is_ascii_hexdigit (take 64 rest) then Some (to_ascii_lowercase (take 64 rest))
         else sha256_hex_in s)
      else sha256_hex_in s)"

text \<open>\<open>html.split(word)\<close>; \<open>skip\<close> counts the bytes of the separator still to pass.\<close>

fun split_word :: "string \<Rightarrow> nat \<Rightarrow> string \<Rightarrow> string list" where
  "split_word p skip [] = [[]]"
| "split_word p (Suc n) (c # s) = split_word p n s"
| "split_word p 0 (c # s) =
     (if prefix p (c # s) then [] # split_word p (length p - 1) s
      else (case split_word p 0 s of [] \<Rightarrow> [[c]] | q # qs \<Rightarrow> (c # q) # qs))"

fun digest_in_rows :: "string \<Rightarrow> string list \<Rightarrow> string option" where
  "digest_in_rows asset_name [] = None"
| "digest_in_rows asset_name (row # rows) =
     (if contains_str asset_name row \<and> contains_str ''/releases/download/'' row then
        (case sha256_hex_in row of Some h \<Rightarrow> Some h | None \<Rightarrow> digest_in_rows asset_name rows)
      else digest_in_rows asset_name rows)"

definition parse_asset_digest_from_release_html :: "string \<Rightarrow> string \<Rightarrow> string option" where
  "parse_asset_digest_from_release_html html asset_name = digest_in_rows asset_name (split_word ''Box-row'' 0 html)"

definition find_asset_sha256 :: "release_asset list \<Rightarrow> string \<Rightarrow> string option" where
  "find_asset_sha256 assets asset_name =
     Option.bind (find (\<lambda>a. ra_name a = asset_name) assets)
       (\<lambda>a. parse_digest (case ra_digest a of Some d \<Rightarrow> d | None \<Rightarrow> []))"

definition is_sha256_hex :: "string \<Rightarrow> bool" where
  "is_sha256_hex s \<longleftrightarrow> length s = 64 \<and> list_all is_ascii_hexdigit s"

definition attestation_path :: "string \<Rightarrow> string" where
  "attestation_path sha256_hex =
     (if is_sha256_hex sha256_hex then ''/repos/SagerNet/sing-box/attestations/sha256:'' @ to_ascii_lowercase sha256_hex else [])"

definition attestation_url :: "string \<Rightarrow> string" where
  "attestation_url sha256_hex =
     (if attestation_path sha256_hex = [] then [] else ''https://api.github.com'' @ attestation_path sha256_hex)"

definition eq_ignore_ascii_case :: "string \<Rightarrow> string \<Rightarrow> bool" where
  "eq_ignore_ascii_case a b \<longleftrightarrow> to_ascii_lowercase a = to_ascii_lowercase b"

definition degraded_accepts :: "string \<Rightarrow> string option \<Rightarrow> bool" where
  "degraded_accepts api_digest html_digest =
     (case html_digest of Some h \<Rightarrow> api_digest \<noteq> [] \<and> eq_ignore_ascii_case h api_digest | None \<Rightarrow> False)"

section \<open>Attestations\<close>

record http_answer =
  ha_status :: nat
  ha_json :: "json option" \<comment> \<open>the body, when it can be read as JSON\<close>
  ha_text :: "string option"
  ha_retry_after :: "string option"
  ha_remaining :: "string option"
  ha_reset :: "string option"

definition attestation_count :: "json \<Rightarrow> nat" where
  "attestation_count body = (case Option.bind (jget ''attestations'' body) as_array of Some a \<Rightarrow> length a | None \<Rightarrow> 0)"

definition attestation_decision :: "nat \<Rightarrow> json option \<Rightarrow> string + bool" where
  "attestation_decision status body =
     (if status = 404 then Inr False
      else if \<not> (200 \<le> status \<and> status < 300) then Inl (''HTTP '' @ nat_str status)
      else case body of None \<Rightarrow> Inl ''no body'' | Some b \<Rightarrow> Inr (attestation_count b > 0))"

definition is_rate_limited :: "nat \<Rightarrow> string option \<Rightarrow> string option \<Rightarrow> string option \<Rightarrow> bool" where
  "is_rate_limited status body_message ratelimit_remaining retry_after \<longleftrightarrow>
     status = 429 \<or> (status = 403 \<and> (retry_after \<noteq> None \<or> ratelimit_remaining = Some ''0''
       \<or> (case body_message of Some m \<Rightarrow> contains_str ''rate limit'' (to_ascii_lowercase m) | None \<Rightarrow> False)))"

definition clamp_wait :: "nat \<Rightarrow> nat" where
  "clamp_wait n = max 1 (min 60 n)"

definition retry_delay_secs :: "string option \<Rightarrow> string option \<Rightarrow> nat \<Rightarrow> nat" where
  "retry_delay_secs retry_after reset_epoch now =
     (case Option.bind retry_after (\<lambda>v. parse_u64 (trim v)) of
        Some ra \<Rightarrow> clamp_wait ra
      | None \<Rightarrow> (case Option.bind reset_epoch (\<lambda>v. parse_u64 (trim v)) of Some reset \<Rightarrow> clamp_wait (reset - now) | None \<Rightarrow> 5))"

record ('k, 's) box_env =
  bx_core :: "('k, 's) core_env"
  bx_attest :: "nat \<Rightarrow> string \<Rightarrow> string + http_answer"
  bx_page :: "nat \<Rightarrow> string \<Rightarrow> (nat \<times> string option) option" \<comment> \<open>status and text\<close>
  bx_now :: "nat \<Rightarrow> nat"
  bx_fetched :: "nat \<Rightarrow> string \<Rightarrow> string option" \<comment> \<open>what \<open>curl\<close> leaves in the file\<close>
  bx_untar :: "string \<Rightarrow> string \<Rightarrow> core_file option" \<comment> \<open>the files of an archive\<close>

definition MAX_ATTEMPTS :: nat where
  "MAX_ATTEMPTS = 4"

fun attestation_attempts :: "('k, 's) box_env \<Rightarrow> string \<Rightarrow> nat \<Rightarrow> (core_world, bool) io" where
  "attestation_attempts e url 0 = failE ''attestation query failed''"
| "attestation_attempts e url (Suc n) =
     bindE (answered (HttpGet url) (\<lambda>k. bx_attest e k url)) (\<lambda>r.
     if 200 \<le> ha_status r \<and> ha_status r < 300 then
       (case ha_json r of
          None \<Rightarrow> failE ''unreadable attestation answer''
        | Some body \<Rightarrow> (case attestation_decision (ha_status r) (Some body) of Inl err \<Rightarrow> failE err | Inr ok \<Rightarrow> retE ok))
     else if is_rate_limited (ha_status r) (ha_text r) (ha_remaining r) (ha_retry_after r) then
       (if n = 0 then failE (''rate limited: HTTP '' @ nat_str (ha_status r))
        else bindE (reading (bx_now e)) (\<lambda>now.
          thenE (updating (log_effect (Sleep (from_secs (retry_delay_secs (ha_retry_after r) (ha_reset r) now)))))
            (attestation_attempts e url n)))
     else (case attestation_decision (ha_status r) None of Inl err \<Rightarrow> failE err | Inr ok \<Rightarrow> retE ok))"

definition has_attestation_for :: "('k, 's) box_env \<Rightarrow> string \<Rightarrow> (core_world, bool) io" where
  "has_attestation_for e sha256_hex =
     (if attestation_url sha256_hex = [] then failE (''bad sha256: '' @ sha256_hex)
      else attestation_attempts e (attestation_url sha256_hex) MAX_ATTEMPTS)"

definition release_page_url :: "string \<Rightarrow> string" where
  "release_page_url tag = ''https://github.com/SagerNet/sing-box/releases/expanded_assets/'' @ tag"

definition html_digest_for_asset :: "('k, 's) box_env \<Rightarrow> string \<Rightarrow> string \<Rightarrow> (core_world, string option) io" where
  "html_digest_for_asset e tag asset_name =
     bindE (answered (HttpGet (release_page_url tag)) (\<lambda>n. Inr (bx_page e n (release_page_url tag)))) (\<lambda>answer.
     retE (case answer of
       Some (status, Some html) \<Rightarrow>
         if 200 \<le> status \<and> status < 300 then parse_asset_digest_from_release_html html asset_name else None
     | _ \<Rightarrow> None))"

definition verify_sha256_file :: "('k, 's) box_env \<Rightarrow> string \<Rightarrow> string \<Rightarrow> (core_world, unit) io" where
  "verify_sha256_file e p expected_hex =
     thenE (try_effect (ReadFile p))
     (bindE (looking (\<lambda>w. cw_archives w p)) (\<lambda>content. case content of
        None \<Rightarrow> failE ''not found''
      | Some data \<Rightarrow>
          if eq_ignore_ascii_case (ue_sha256 (bx_core e) data) expected_hex then retE () else failE ''SHA256 mismatch''))"

definition verify_download_for_tag :: "('k, 's) box_env \<Rightarrow> string \<Rightarrow> string \<Rightarrow> string option \<Rightarrow> (core_world, unit) io" where
  "verify_download_for_tag e p sha256_hex tag =
     thenE (verify_sha256_file e p sha256_hex)
     (catchE (has_attestation_for e sha256_hex) (\<lambda>r. case r of
        Inr True \<Rightarrow> retE ()
      | Inr False \<Rightarrow> failE (''no attestation: '' @ sha256_hex)
      | Inl err \<Rightarrow>
          (case tag of
             None \<Rightarrow> failE err
           | Some t \<Rightarrow>
               (case detect_arch_for (ue_arch (bx_core e)) of
                  Inl bad \<Rightarrow> failE bad
                | Inr arch \<Rightarrow>
                    bindE (html_digest_for_asset e t (tarball_name (strip_v t) arch)) (\<lambda>html_digest.
                      if degraded_accepts sha256_hex html_digest then retE () else failE err)))))"


section \<open>The release\<close>

record box_release =
  br_tag_name :: string
  br_download_url :: string
  br_size :: "nat option"
  br_sha256 :: string

definition box_recent_tags :: "('k, 's) box_env \<Rightarrow> nat \<Rightarrow> (core_world, string list) io" where
  "box_recent_tags e limit =
     (if limit = 0 then retE []
      else let path = SINGBOX_RELEASES @ ''?per_page='' @ nat_str limit in
        bindE (answered (HttpGet path) (\<lambda>n. fetch_json_from_mirrors (ue_releases (bx_core e) n) [SINGBOX_RELEASE_API_BASE] path))
          (\<lambda>rs. retE (take limit (map rr_tag_name rs))))"

definition box_response :: "('k, 's) box_env \<Rightarrow> string option \<Rightarrow> (core_world, release_response) io" where
  "box_response e tag =
     (case tag of
        Some t \<Rightarrow>
          (let path = SINGBOX_RELEASES @ ''/tags/'' @ t in
           answered (HttpGet path) (\<lambda>n. fetch_json_from_mirrors (ue_release (bx_core e) n) [SINGBOX_RELEASE_API_BASE] path))
      | None \<Rightarrow>
          (let path = SINGBOX_RELEASES @ ''?per_page=20'' in
           answered (HttpGet path) (\<lambda>n. fetch_prerelease (ue_releases (bx_core e) n) [SINGBOX_RELEASE_API_BASE] path)))"

definition fetch_box_release :: "('k, 's) box_env \<Rightarrow> string option \<Rightarrow> (core_world, box_release) io" where
  "fetch_box_release e tag =
     bindE (box_response e tag) (\<lambda>release.
     case detect_arch_for (ue_arch (bx_core e)) of
       Inl bad \<Rightarrow> failE bad
     | Inr arch \<Rightarrow>
         (let version = strip_v (rr_tag_name release); tarball = tarball_name version arch in
          case find_asset_sha256 (rr_assets release) tarball of
            None \<Rightarrow> failE ''asset has no SHA256 digest''
          | Some sha256 \<Rightarrow> retE \<lparr>br_tag_name = rr_tag_name release, br_download_url = build_download_url version arch,
              br_size = Option.bind (find (\<lambda>a. ra_name a = tarball) (rr_assets release)) ra_size, br_sha256 = sha256\<rparr>))"

definition box_version :: "('k, 's) box_env \<Rightarrow> (core_world, string option) io" where
  "box_version e =
     catchE (core_cmd (bx_core e) SINGBOX_BIN [''version''])
       (\<lambda>r. retE (case r of Inl _ \<Rightarrow> None | Inr (_, stdout, _) \<Rightarrow> parse_version_from_output stdout))"

section \<open>Programs and directories\<close>

definition checked_cmd :: "('k, 's) box_env \<Rightarrow> string \<Rightarrow> string list \<Rightarrow> (core_world, unit) io" where
  "checked_cmd e program args =
     bindE (core_cmd (bx_core e) program args) (\<lambda>(success, _, stderr).
       if success then retE () else failE (program @ '' failed: '' @ stderr))"

text \<open>\<open>curl -L -o path url\<close> and \<open>tar -xzf archive -C dest\<close>.\<close>

definition box_download :: "('k, 's) box_env \<Rightarrow> string \<Rightarrow> string \<Rightarrow> (core_world, unit) io" where
  "box_download e url p =
     bindE (looking (\<lambda>w. bx_fetched e (length (cw_trace w)) url)) (\<lambda>got.
     thenE (updating (\<lambda>w. w\<lparr>cw_archives := (cw_archives w)(p := (if got = None then cw_archives w p else got))\<rparr>))
       (checked_cmd e ''curl'' [''-L'', ''-o'', p, url]))"

definition dir_files :: "string \<Rightarrow> core_world \<Rightarrow> string \<Rightarrow> core_file option" where
  "dir_files d w = (case cw_unpacked w d of Some fs \<Rightarrow> fs | None \<Rightarrow> (\<lambda>_. None))"

definition untar_into :: "(string \<Rightarrow> core_file option) \<Rightarrow> (string \<Rightarrow> bool) \<Rightarrow> string \<Rightarrow> core_world \<Rightarrow> core_world" where
  "untar_into files part d w = w\<lparr>cw_unpacked := (cw_unpacked w)(d \<mapsto> (\<lambda>x. if part x \<and> files x \<noteq> None then files x else dir_files d w x))\<rparr>"

text \<open>When \<open>tar\<close> fails, some of the files may be there.\<close>

definition box_extract :: "('k, 's) box_env \<Rightarrow> string \<Rightarrow> string \<Rightarrow> (core_world, unit) io" where
  "box_extract e archive d =
     bindE (looking (\<lambda>w. (cw_archives w archive, cw_kept w (length (cw_trace w))))) (\<lambda>(content, kept).
     catchE (checked_cmd e ''tar'' [''-xzf'', archive, ''-C'', d]) (\<lambda>r.
       let files = (case content of Some data \<Rightarrow> bx_untar e data | None \<Rightarrow> (\<lambda>_. None)) in
       case r of
         Inr _ \<Rightarrow> updating (untar_into files (\<lambda>_. True) d)
       | Inl err \<Rightarrow> thenE (updating (untar_into files kept d)) (failE err)))"

text \<open>\<open>remove_dir_all\<close> of a directory with the archive in it; one that fails leaves what \<open>cw_kept\<close> says.\<close>

definition wipe_dir :: "string \<Rightarrow> string \<Rightarrow> (core_world, unit) io" where
  "wipe_dir d archive =
     bindE (looking (\<lambda>w. cw_kept w (length (cw_trace w)))) (\<lambda>kept.
     catchE (try_effect (RemovePath d)) (\<lambda>r. case r of
       Inr _ \<Rightarrow> updating (\<lambda>w. w\<lparr>cw_unpacked := (cw_unpacked w)(d := None), cw_archives := (cw_archives w)(archive := None),
                 cw_has_dir := (cw_has_dir w)(d := False)\<rparr>)
     | Inl err \<Rightarrow>
         thenE (updating (\<lambda>w. w\<lparr>cw_unpacked := (cw_unpacked w)(d \<mapsto> (\<lambda>x. if kept x then dir_files d w x else None)),
                  cw_archives := (cw_archives w)(archive := (if kept archive then cw_archives w archive else None))\<rparr>))
           (failE err)))"

definition replace_binary :: "string \<Rightarrow> core_file option \<Rightarrow> (core_world, unit) io" where
  "replace_binary src_path source =
     (if source = None then failE ''no binary to install''
      else install_binary_from src_path source ''wwps-box'')"

definition box_restart :: "('k, 's) box_env \<Rightarrow> (core_world, unit) io" where
  "box_restart e = checked_cmd e ''systemctl'' [''restart'', ''wwps-box'']"

section \<open>Backup and rollback\<close>

text \<open>The paths in the form the operations of theory CoreUpgrade take.\<close>

definition box_paths :: upgrade_config where
  "box_paths = \<lparr>uc_owner = ''SagerNet'', uc_repo = ''sing-box'', uc_service_name = ''wwps-box'', uc_install_dir = SINGBOX_DIR,
     uc_backup_dir = SINGBOX_BACKUP_DIR, uc_temp_dir = SINGBOX_UPGRADE_TEMP_DIR, uc_arch = Amd64\<rparr>"

definition backup_binary :: "('k, 's) box_env \<Rightarrow> (core_world, string) io" where
  "backup_binary e =
     thenE (create_dir SINGBOX_BACKUP_DIR)
     (bindE (reading (ue_stamp (bx_core e))) (\<lambda>stamp.
     let b = SINGBOX_BACKUP_PREFIX @ ''-'' @ stamp in
     thenE (create_dir (path_join SINGBOX_BACKUP_DIR b))
     (thenE (updating (\<lambda>w. w\<lparr>cw_backups := AList.update b (Some (backup_files b w)) (cw_backups w)\<rparr>))
     (bindE (looking (\<lambda>w. cw_install w ''wwps-box'')) (\<lambda>bin.
     thenE (copy_to SINGBOX_BIN (path_join b ''wwps-box'') bin (put_backup b ''wwps-box'')) (retE b))))))"

definition box_prune_backups :: "nat \<Rightarrow> (core_world, string list) io" where
  "box_prune_backups keep =
     bindE (looking (\<lambda>w. cw_has_dir w SINGBOX_BACKUP_DIR)) (\<lambda>there.
     if \<not> there then retE []
     else thenE (try_effect (ReadDir SINGBOX_BACKUP_DIR))
       (bindE (looking directory_names) (\<lambda>names.
        remove_backups box_paths (select_backups_to_delete names SINGBOX_BACKUP_PREFIX keep))))"

definition box_preflight :: "('k, 's) box_env \<Rightarrow> string \<Rightarrow> (core_world, preflight_outcome) io" where
  "box_preflight e new_binary =
     answered (RunCmd new_binary [''check'', ''-C'', SINGBOX_CONF_DIR])
       (\<lambda>n. run_config_preflight (ue_cmd (bx_core e) n new_binary [''check'', ''-C'', SINGBOX_CONF_DIR]))"

definition box_restore_backup :: "('k, 's) box_env \<Rightarrow> string \<Rightarrow> (core_world, unit) io" where
  "box_restore_backup e b =
     bindE (looking (\<lambda>w. backup_files b w ''wwps-box'')) (\<lambda>saved.
     if saved = None then failE ''no binary in the backup''
     else thenE (replace_binary (path_join b ''wwps-box'') saved)
     (thenE (box_restart e)
     (bindE (wait_for_health (bx_core e) SINGBOX_SERVICE_UNIT) (\<lambda>verdict.
      if should_rollback verdict then failE ''not healthy after the rollback'' else retE ()))))"

section \<open>The upgrade\<close>

definition box_archive :: "string \<Rightarrow> string" where
  "box_archive d = d @ ''/sing-box.tar.gz''"

definition unpacked_name :: "string \<Rightarrow> string \<Rightarrow> string" where
  "unpacked_name version arch = ''sing-box-'' @ version @ ''-linux-'' @ arch @ ''/sing-box''"

definition box_tr :: "('k, 's) box_env \<Rightarrow> string \<Rightarrow> string list \<Rightarrow> string" where
  "box_tr e k args = ue_tr (bx_core e) (''menu.singbox_upgrade_'' @ k) args"

definition box_tell :: "('k, 's) box_env \<Rightarrow> string \<Rightarrow> string list \<Rightarrow> (core_world, unit) io" where
  "box_tell e k args = ignoreE (cedit (box_tr e k args))"

definition box_summary :: "('k, 's) box_env \<Rightarrow> box_release \<Rightarrow> health_verdict \<Rightarrow> string list \<Rightarrow> string" where
  "box_summary e rel verdict pruned =
     box_tr e ''success'' [br_tag_name rel]
     @ (if verdict = Unknown then [CHR 0x0A] @ box_tr e ''verify_unknown'' [] else [])
     @ (if pruned \<noteq> [] then [CHR 0x0A] @ box_tr e ''pruned'' [nat_str (length pruned)] else [])"

abbreviation wipe_temp :: "(core_world, unit) io" where
  "wipe_temp \<equiv> wipe_dir SINGBOX_UPGRADE_TEMP_DIR (box_archive SINGBOX_UPGRADE_TEMP_DIR)"

text \<open>From the restart on.\<close>

definition box_watch :: "('k, 's) box_env \<Rightarrow> box_release \<Rightarrow> string \<Rightarrow> string list \<Rightarrow> (core_world, unit) io" where
  "box_watch e rel b pruned =
     thenE (box_tell e ''restarting'' [])
     (thenE (box_restart e)
     (thenE (box_tell e ''verifying'' [])
     (bindE (wait_for_health (bx_core e) SINGBOX_SERVICE_UNIT) (\<lambda>verdict.
      if should_rollback verdict then
        thenE (box_tell e ''rolling_back'' [])
        (catchE (box_restore_backup e b) (\<lambda>r. case r of
           Inr _ \<Rightarrow> thenE (ignoreE wipe_temp) (thenE (csend (bx_core e) (box_tr e ''rollback_done'' [verdict_debug verdict])) (retE ()))
         | Inl err \<Rightarrow>
             thenE (csend (bx_core e) (box_tr e ''rollback_failed'' [err, path_join SINGBOX_BACKUP_DIR b])) (failE err)))
      else thenE (csend (bx_core e) (box_summary e rel verdict pruned)) (ignoreE wipe_temp)))))"

definition box_backup_and_replace :: "('k, 's) box_env \<Rightarrow> box_release \<Rightarrow> string \<Rightarrow> core_file option \<Rightarrow> (core_world, unit) io" where
  "box_backup_and_replace e rel unpacked_path new =
     bindE (backup_binary e) (\<lambda>b.
     bindE (catchE (box_prune_backups BACKUP_KEEP) (\<lambda>r. retE (case r of Inr p \<Rightarrow> p | Inl _ \<Rightarrow> []))) (\<lambda>pruned.
     thenE (box_tell e ''replacing'' [])
     (thenE (replace_binary unpacked_path new)
       (box_watch e rel b pruned))))"

definition box_check_and_install :: "('k, 's) box_env \<Rightarrow> box_release \<Rightarrow> (core_world, unit) io" where
  "box_check_and_install e rel =
     (case detect_arch_for (ue_arch (bx_core e)) of
        Inl bad \<Rightarrow> failE bad
      | Inr arch \<Rightarrow>
          (let name = unpacked_name (strip_v (br_tag_name rel)) arch; p = path_join SINGBOX_UPGRADE_TEMP_DIR name in
           bindE (looking (\<lambda>w. dir_files SINGBOX_UPGRADE_TEMP_DIR w name)) (\<lambda>new.
           if new = None then failE ''no sing-box in the package''
           else bindE (box_preflight e p) (\<lambda>outcome. case outcome of
             Passed \<Rightarrow> thenE (box_tell e ''preflight_ok'' []) (box_backup_and_replace e rel p new)
           | Unsupported \<Rightarrow> thenE (box_tell e ''preflight_unsupported'' []) (box_backup_and_replace e rel p new)
           | Invalid reason \<Rightarrow>
               thenE (ignoreE wipe_temp)
               (thenE (box_tell e ''preflight_failed'' [reason])
               (thenE (csend (bx_core e) (box_tr e ''preflight_failed'' [reason])) (failE ''configuration check failed'')))))))"

definition box_download_checked :: "('k, 's) box_env \<Rightarrow> box_release \<Rightarrow> string \<Rightarrow> (core_world, unit) io" where
  "box_download_checked e rel archive =
     thenE (box_download e (br_download_url rel) archive)
     (catchE (verify_download_for_tag e archive (br_sha256 rel) (Some (br_tag_name rel))) (\<lambda>r. case r of
        Inr _ \<Rightarrow> retE ()
      | Inl err \<Rightarrow> thenE (ignoreE (remove_archive archive)) (failE err)))"

definition box_fetch_and_install :: "('k, 's) box_env \<Rightarrow> box_release \<Rightarrow> (core_world, unit) io" where
  "box_fetch_and_install e rel =
     thenE (box_tell e ''download_info'' [br_tag_name rel,
       (case br_size rel of Some n \<Rightarrow> ue_size_text (bx_core e) n | None \<Rightarrow> box_tr e ''unknown_size'' [])])
     (bindE (looking (\<lambda>w. cw_has_dir w SINGBOX_UPGRADE_TEMP_DIR)) (\<lambda>there.
     thenE (if there then wipe_temp else retE ())
     (thenE (create_dir SINGBOX_UPGRADE_TEMP_DIR)
     (thenE (box_download_checked e rel (box_archive SINGBOX_UPGRADE_TEMP_DIR))
     (thenE (box_tell e ''extracting'' [])
     (thenE (box_extract e (box_archive SINGBOX_UPGRADE_TEMP_DIR) SINGBOX_UPGRADE_TEMP_DIR)
       (box_check_and_install e rel)))))))"

definition run_box_upgrade :: "('k, 's) box_env \<Rightarrow> string option \<Rightarrow> (core_world, unit) io" where
  "run_box_upgrade e tag =
     thenE (csend (bx_core e) (box_tr e ''checking'' []))
     (thenE (try_effect BuildClient)
     (thenE (box_tell e ''fetching'' [])
     (bindE (fetch_box_release e tag) (\<lambda>rel.
      bindE (box_version e) (\<lambda>local_version.
      case local_version of
        Some l \<Rightarrow>
          if is_same_version l (br_tag_name rel) then cedit (box_tr e ''already_latest'' [l, br_tag_name rel])
          else box_fetch_and_install e rel
      | None \<Rightarrow> box_fetch_and_install e rel)))))"


section \<open>What is accepted\<close>

definition attested :: "('k, 's) box_env \<Rightarrow> string \<Rightarrow> bool" where
  "attested e sha \<longleftrightarrow> (\<exists>n r body. bx_attest e n (attestation_url sha) = Inr r \<and> 200 \<le> ha_status r \<and> ha_status r < 300
     \<and> ha_json r = Some body \<and> attestation_count body > 0)"

text \<open>The release page shows the hash, and asking for the attestation ended with an error.\<close>

definition page_confirms :: "('k, 's) box_env \<Rightarrow> box_release \<Rightarrow> bool" where
  "page_confirms e rel \<longleftrightarrow> (\<exists>w err w'. has_attestation_for e (br_sha256 rel) w = (Inl err, w'))
     \<and> (\<exists>arch n status html h. detect_arch_for (ue_arch (bx_core e)) = Inr arch
          \<and> bx_page e n (release_page_url (br_tag_name rel)) = Some (status, Some html) \<and> 200 \<le> status \<and> status < 300
          \<and> parse_asset_digest_from_release_html html (tarball_name (strip_v (br_tag_name rel)) arch) = Some h
          \<and> eq_ignore_ascii_case h (br_sha256 rel))"

definition vouched_box :: "('k, 's) box_env \<Rightarrow> box_release \<Rightarrow> string \<Rightarrow> bool" where
  "vouched_box e rel data \<longleftrightarrow> eq_ignore_ascii_case (ue_sha256 (bx_core e) data) (br_sha256 rel)
     \<and> (attested e (br_sha256 rel) \<or> page_confirms e rel)"

definition genuine_box :: "('k, 's) box_env \<Rightarrow> box_release \<Rightarrow> core_file \<Rightarrow> bool" where
  "genuine_box e rel f \<longleftrightarrow> (\<exists>data arch. vouched_box e rel data \<and> detect_arch_for (ue_arch (bx_core e)) = Inr arch
     \<and> bx_untar e data (unpacked_name (strip_v (br_tag_name rel)) arch) = Some f)"

lemma decision_cases: "attestation_decision st b = Inr True \<longleftrightarrow> 200 \<le> st \<and> st < 300 \<and> (\<exists>body. b = Some body \<and> attestation_count body > 0)"
  by (auto simp: attestation_decision_def split: option.splits)

lemma attempts_attested:
  "attestation_attempts e (attestation_url sha) n w = (Inr True, w') \<Longrightarrow> attested e sha"
proof (induction n arbitrary: w)
  case (Suc n)
  obtain r where r: "bx_attest e (length (cw_trace w)) (attestation_url sha) = Inr r"
    using Suc.prems by (cases "bx_attest e (length (cw_trace w)) (attestation_url sha)") (auto simp: bindE_apply answered_def)
  show ?case
  proof (cases "200 \<le> ha_status r \<and> ha_status r < 300")
    case True
    then have "\<exists>body. ha_json r = Some body \<and> attestation_count body > 0"
      using Suc.prems r by (auto simp: bindE_apply answered_def attestation_decision_def split: option.splits)
    then show ?thesis using r True unfolding attested_def by blast
  next
    case False
    then show ?thesis
      using Suc.prems r
      by (auto simp: bindE_apply thenE_apply answered_def reading_def updating_def attestation_decision_def split: if_splits intro: Suc.IH)
  qed
qed simp

lemma has_attested: "has_attestation_for e sha w = (Inr True, w') \<Longrightarrow> attested e sha"
  by (auto simp: has_attestation_for_def attempts_attested split: if_splits)

text \<open>What the check lets through.\<close>

lemma accepted_download:
  assumes "verify_download_for_tag e p (br_sha256 rel) (Some (br_tag_name rel)) w = (Inr u, w')"
  shows "\<exists>data. cw_archives w p = Some data \<and> vouched_box e rel data"
proof -
  obtain u1 w1 where 1: "verify_sha256_file e p (br_sha256 rel) w = (Inr u1, w1)"
    using assms by (auto simp: verify_download_for_tag_def thenE_apply split: prod.splits sum.splits)
  then obtain data where data: "cw_archives w p = Some data" "eq_ignore_ascii_case (ue_sha256 (bx_core e) data) (br_sha256 rel)"
    by (auto simp: verify_sha256_file_def thenE_apply bindE_apply try_effect_def looking_def log_effect_def split: option.splits if_splits)
  obtain q w2 where 2: "has_attestation_for e (br_sha256 rel) w1 = (q, w2)" by fastforce
  have "attested e (br_sha256 rel) \<or> page_confirms e rel"
  proof (cases q)
    case (Inr ok)
    then have "ok" using assms 1 2 by (cases ok) (simp_all add: verify_download_for_tag_def thenE_apply catchE_apply)
    with 2 Inr have "has_attestation_for e (br_sha256 rel) w1 = (Inr True, w2)" by simp
    then show ?thesis using has_attested by blast
  next
    case (Inl err)
    then have "page_confirms e rel"
      using assms 1 2 unfolding page_confirms_def
      by (auto simp: verify_download_for_tag_def thenE_apply catchE_apply bindE_apply html_digest_for_asset_def answered_def degraded_accepts_def
          split: sum.splits option.splits if_splits prod.splits)
    then show ?thesis ..
  qed
  with data show ?thesis unfolding vouched_box_def by blast
qed

section \<open>Steps that leave the binary and its backups alone\<close>

named_theorems box_keep \<open>steps that keep what depends on the binary and the backups alone\<close>

definition of_binary :: "(core_world \<Rightarrow> bool) \<Rightarrow> bool" where
  "of_binary P \<longleftrightarrow> (\<forall>w w'. cw_install w' = cw_install w \<longrightarrow> cw_backups w' = cw_backups w \<longrightarrow> P w \<longrightarrow> P w')"

lemma of_binaryD: "of_binary P \<Longrightarrow> P w \<Longrightarrow> cw_install w' = cw_install w \<Longrightarrow> cw_backups w' = cw_backups w \<Longrightarrow> P w'"
  unfolding of_binary_def by blast

lemma of_binary_stable: "of_binary P \<Longrightarrow> stable P"
  unfolding stable_def by (auto intro: of_binaryD)

lemma of_binary_upd: "of_binary P \<Longrightarrow> (\<And>w. cw_install (f w) = cw_install w \<and> cw_backups (f w) = cw_backups w) \<Longrightarrow> invar P (updating f)"
  by (rule io_triple_updating) (auto intro: of_binaryD)

lemma keep_tell [box_keep]: "of_binary P \<Longrightarrow> invar P (box_tell e k as)"
  unfolding box_tell_def by (intro invar_ignore invar_cedit of_binary_stable)

lemma keep_send [box_keep]: "of_binary P \<Longrightarrow> invar P (csend c t)"
  by (intro invar_csend of_binary_stable)

lemma keep_edit [box_keep]: "of_binary P \<Longrightarrow> invar P (cedit t)"
  by (intro invar_cedit of_binary_stable)

lemma keep_cmd [box_keep]: "of_binary P \<Longrightarrow> invar P (checked_cmd e p as)"
  unfolding checked_cmd_def by (rule invar_bind [OF invar_cmd [OF of_binary_stable]]) (auto split: prod.split intro!: invar_rules)

lemma keep_restart [box_keep]: "of_binary P \<Longrightarrow> invar P (box_restart e)"
  unfolding box_restart_def by (intro box_keep)

lemma keep_health [box_keep]: "of_binary P \<Longrightarrow> invar P (wait_for_health c u)"
  by (intro invar_health of_binary_stable)

lemma keep_create [box_keep]: "of_binary P \<Longrightarrow> invar P (create_dir d)"
  by (intro invar_create_dir of_binary_stable)

lemma keep_effect [box_keep]: "of_binary P \<Longrightarrow> invar P (try_effect ef)"
  by (intro invar_attempt of_binary_stable)

lemma keep_wipe [box_keep]: "of_binary P \<Longrightarrow> invar P (wipe_dir d a)"
  unfolding wipe_dir_def
  by (rule invar_look, rule invar_catch [OF keep_effect], assumption)
    (auto split: sum.split intro!: invar_then of_binary_upd invar_fail)

lemma keep_wipe_try [box_keep]: "of_binary P \<Longrightarrow> invar P (ignoreE (wipe_dir d a))"
  by (intro invar_ignore keep_wipe)

lemma keep_archive [box_keep]: "of_binary P \<Longrightarrow> invar P (ignoreE (remove_archive a))"
  unfolding remove_archive_def by (intro invar_ignore invar_then keep_effect of_binary_upd) auto

lemma keep_preflight [box_keep]: "of_binary P \<Longrightarrow> invar P (box_preflight e b)"
  unfolding box_preflight_def by (intro invar_answered of_binary_stable)

lemma keep_version [box_keep]: "of_binary P \<Longrightarrow> invar P (box_version e)"
  unfolding box_version_def by (intro invar_catch invar_cmd of_binary_stable invar_ret)

lemma keep_release [box_keep]: "of_binary P \<Longrightarrow> invar P (fetch_box_release e tag)"
proof -
  assume "of_binary P"
  note st = of_binary_stable [OF this]
  have r: "invar P (box_response e tag)" unfolding box_response_def Let_def by (auto split: option.split intro!: invar_answered st)
  show ?thesis
    unfolding fetch_box_release_def Let_def by (rule invar_bind [OF r]) (auto split: sum.split option.split intro!: invar_rules)
qed

lemma stable_attempts: "stable P \<Longrightarrow> invar P (attestation_attempts e url n)"
proof (induction n)
  case (Suc n)
  then show ?case
    unfolding attestation_attempts.simps
    by (intro invar_bind [OF invar_answered])
      (auto split: option.split sum.split intro!: invar_rules invar_sleep)
qed (simp add: invar_fail)

lemma stable_verify: "stable P \<Longrightarrow> invar P (verify_download_for_tag e p sha tag)"
  unfolding verify_download_for_tag_def verify_sha256_file_def has_attestation_for_def html_digest_for_asset_def
  by (auto split: option.split sum.split bool.split intro!: invar_rules stable_attempts)


section \<open>The installed binary\<close>

definition box_is :: "core_file option \<Rightarrow> core_world \<Rightarrow> bool" where
  "box_is x w \<longleftrightarrow> cw_install w ''wwps-box'' = x"

definition box_new :: "('k, 's) box_env \<Rightarrow> box_release \<Rightarrow> core_world \<Rightarrow> bool" where
  "box_new e rel w \<longleftrightarrow> (\<exists>g. box_is (Some (executable g)) w \<and> genuine_box e rel g)"

text \<open>The backup holds this binary, as long as it holds one.\<close>

definition box_saved :: "string \<Rightarrow> core_file option \<Rightarrow> core_world \<Rightarrow> bool" where
  "box_saved b x w \<longleftrightarrow> (\<forall>g. backup_files b w ''wwps-box'' = Some g \<longrightarrow> x = Some g)"

definition box_safe :: "('k, 's) box_env \<Rightarrow> box_release \<Rightarrow> core_file option \<Rightarrow> core_world \<Rightarrow> bool" where
  "box_safe e rel x w \<longleftrightarrow> box_is x w \<or> (\<exists>f. x = Some f \<and> box_is (Some (executable f)) w) \<or> box_new e rel w"

lemma of_binary_box [intro]: "of_binary (box_is x)" "of_binary (box_new e rel)" "of_binary (box_safe e rel x)"
  "of_binary (\<lambda>w. box_is x w \<and> box_saved b x w)" "of_binary (\<lambda>w. box_new e rel w \<and> box_saved b x w)"
  by (simp_all add: of_binary_def box_is_def box_new_def box_safe_def box_saved_def backup_files_def)

lemma weak_error: "io_triple P m Q R \<Longrightarrow> (\<And>w. R w \<Longrightarrow> E w) \<Longrightarrow> io_triple P m Q E"
  by (rule io_triple_error)

lemma backup_box:
  "io_triple (box_is x) (backup_binary e) (\<lambda>b w. box_is x w \<and> box_saved b x w) (box_is x)"
proof -
  have copy: "io_triple (\<lambda>w. box_is x w \<and> y = cw_install w ''wwps-box'') (copy_to p q y (put_backup b ''wwps-box''))
      (\<lambda>_ w. box_is x w \<and> box_saved b x w) (box_is x)" for p q y b
    by (rule io_tripleI)
      (auto simp: copy_to_def Let_def box_is_def box_saved_def split: option.splits)
  show ?thesis
    unfolding backup_binary_def Let_def
    by (intro io_triple_then [OF keep_create] io_triple_read io_triple_then [OF io_triple_updating [where Q = "box_is x"]]
        io_triple_bind [OF io_triple_looking] io_triple_then [OF copy] io_triple_ret) (auto simp: box_is_def)
qed

lemma prune_box: "invar (\<lambda>w. box_is x w \<and> box_saved b x w) (box_prune_backups n)"
proof -
  have "stable (\<lambda>w. box_is x w \<and> box_saved b x w)" by (rule of_binary_stable) blast
  then show ?thesis
    unfolding box_prune_backups_def
    by (intro invar_rules remove_backups_keeps) (auto simp: box_is_def box_saved_def)
qed

lemma replace_box:
  assumes "\<And>f. new = Some f \<Longrightarrow> genuine_box e rel f"
  shows "io_triple (\<lambda>w. box_is x w \<and> box_saved b x w) (replace_binary p new) (\<lambda>_ w. box_new e rel w \<and> box_saved b x w) (box_is x)"
proof (cases new)
  case None
  then show ?thesis by (auto simp: replace_binary_def intro: io_triple_fail)
next
  case (Some f)
  show ?thesis
  proof (rule io_tripleI)
    fix w u w' assume w: "box_is x w \<and> box_saved b x w" and "replace_binary p new w = (Inr u, w')"
    then have i: "install_binary_from p (Some f) ''wwps-box'' w = (Inr (), w')" by (simp add: replace_binary_def Some)
    from install_binary_cases(1,2) [OF i] w assms [OF Some] show "box_new e rel w' \<and> box_saved b x w'"
      by (auto simp: box_new_def box_is_def box_saved_def backup_files_def)
  next
    fix w u w' assume w: "box_is x w \<and> box_saved b x w" and "replace_binary p new w = (Inl u, w')"
    then have i: "install_binary_from p (Some f) ''wwps-box'' w = (Inl u, w')" by (simp add: replace_binary_def Some)
    from install_binary_cases(1) [OF i] w show "box_is x w'" by (simp add: box_is_def)
  qed
qed

lemma restore_box:
  "io_triple (\<lambda>w. box_new e rel w \<and> box_saved b x w) (box_restore_backup e b) (\<lambda>_. box_safe e rel x) (box_safe e rel x)"
proof -
  have put: "io_triple (\<lambda>w. (box_new e rel w \<and> box_saved b x w) \<and> y = backup_files b w ''wwps-box'') (replace_binary p y)
      (\<lambda>_. box_safe e rel x) (box_safe e rel x)" for y p
  proof (cases y)
    case (Some g)
    show ?thesis
    proof (rule io_tripleI)
      fix w u w' assume w: "(box_new e rel w \<and> box_saved b x w) \<and> y = backup_files b w ''wwps-box''" and r: "replace_binary p y w = (Inr u, w')"
      from r have i: "install_binary_from p (Some g) ''wwps-box'' w = (Inr (), w')" by (simp add: replace_binary_def Some)
      have "backup_files b w ''wwps-box'' = Some g" using w Some by metis
      then have "x = Some g" using w by (simp add: box_saved_def)
      with install_binary_cases(1) [OF i] show "box_safe e rel x w'" by (simp add: box_safe_def box_is_def)
    next
      fix w u w' assume w: "(box_new e rel w \<and> box_saved b x w) \<and> y = backup_files b w ''wwps-box''" and r: "replace_binary p y w = (Inl u, w')"
      from r have i: "install_binary_from p (Some g) ''wwps-box'' w = (Inl u, w')" by (simp add: replace_binary_def Some)
      from install_binary_cases(1) [OF i] w show "box_safe e rel x w'" by (auto simp: box_safe_def box_new_def box_is_def)
    qed
  qed (auto simp: replace_binary_def box_safe_def intro: io_triple_fail)
  show ?thesis
    unfolding box_restore_backup_def
    by (intro io_triple_bind [OF io_triple_looking] io_triple_if io_triple_then [OF put] io_triple_then [OF keep_restart]
        io_triple_bind [OF keep_health] io_triple_ret io_triple_fail) (auto simp: box_safe_def)
qed

lemma watch_box:
  "io_triple (\<lambda>w. box_new e rel w \<and> box_saved b x w) (box_watch e rel b pruned) (\<lambda>_. box_safe e rel x) (box_safe e rel x)"
proof -
  let ?I = "\<lambda>w. box_new e rel w \<and> box_saved b x w" and ?S = "box_safe e rel x"
  have k: "io_triple ?I m (\<lambda>_. ?I) ?S" if "invar ?I m" for m :: "(core_world, 'z) io"
    by (rule weak_error [OF that]) (auto simp: box_safe_def)
  have s: "invar ?S (thenE (ignoreE (wipe_dir d a)) (thenE (csend c t) (retE ())))" for d a c t
    by (intro invar_then box_keep invar_ret of_binary_box)
  have f: "invar ?S (thenE (csend c t) (failE err) :: (core_world, unit) io)" for c t err
    by (intro invar_then box_keep invar_fail of_binary_box)
  have rolled: "io_triple ?I (catchE (box_restore_backup e b) (\<lambda>r. case r of
           Inr _ \<Rightarrow> thenE (ignoreE wipe_temp) (thenE (csend (bx_core e) (box_tr e ''rollback_done'' [verdict_debug v])) (retE ()))
         | Inl err \<Rightarrow> thenE (csend (bx_core e) (box_tr e ''rollback_failed'' [err, path_join SINGBOX_BACKUP_DIR b])) (failE err))) (\<lambda>_. ?S) ?S" for v
    by (rule io_triple_catch [OF restore_box]) (auto intro: s f)
  have fin: "io_triple ?I (thenE (csend c t) (ignoreE wipe_temp)) (\<lambda>_. ?S) ?S" for c t
    by (rule io_triple_then [OF k [OF keep_send [OF of_binary_box(5)]] io_triple_weaken [OF keep_wipe_try [OF of_binary_box(3) [of e rel x]]]])
      (auto simp: box_safe_def)
  show ?thesis
    unfolding box_watch_def
    by (intro io_triple_then [OF k [OF keep_tell]] io_triple_then [OF k [OF keep_restart]] io_triple_bind [OF k [OF keep_health]]
        io_triple_if rolled fin of_binary_box)
qed

lemma install_box:
  assumes "\<And>f. new = Some f \<Longrightarrow> genuine_box e rel f"
  shows "io_triple (box_is x) (box_backup_and_replace e rel p new) (\<lambda>_. box_safe e rel x) (box_safe e rel x)"
proof -
  let ?J = "\<lambda>b w. box_is x w \<and> box_saved b x w" and ?S = "box_safe e rel x"
  have old: "?S w" if "box_is x w" for w using that by (simp add: box_safe_def)
  have prune: "io_triple (?J b) (catchE (box_prune_backups BACKUP_KEEP) (\<lambda>r. retE (case r of Inr p \<Rightarrow> p | Inl _ \<Rightarrow> []))) (\<lambda>_. ?J b) ?S" for b
    by (rule io_triple_catch [OF prune_box]) (auto intro: io_triple_ret)
  show ?thesis
    unfolding box_backup_and_replace_def
    by (intro io_triple_bind [OF weak_error [OF backup_box]] io_triple_bind [OF prune]
        io_triple_then [OF weak_error [OF keep_tell [OF of_binary_box(4)]]] io_triple_then [OF weak_error [OF replace_box [OF assms]]] watch_box)
      (auto intro: old)
qed

text \<open>What the directory for unpacking holds.\<close>

definition box_unpacked :: "('k, 's) box_env \<Rightarrow> box_release \<Rightarrow> core_world \<Rightarrow> bool" where
  "box_unpacked e rel w \<longleftrightarrow> (\<forall>arch f. detect_arch_for (ue_arch (bx_core e)) = Inr arch
     \<longrightarrow> dir_files SINGBOX_UPGRADE_TEMP_DIR w (unpacked_name (strip_v (br_tag_name rel)) arch) = Some f \<longrightarrow> genuine_box e rel f)"

definition box_fresh :: "core_file option \<Rightarrow> core_world \<Rightarrow> bool" where
  "box_fresh x w \<longleftrightarrow> box_is x w \<and> dir_files SINGBOX_UPGRADE_TEMP_DIR w = (\<lambda>_. None)"

definition box_fetched :: "('k, 's) box_env \<Rightarrow> box_release \<Rightarrow> string \<Rightarrow> core_file option \<Rightarrow> core_world \<Rightarrow> bool" where
  "box_fetched e rel p x w \<longleftrightarrow> box_fresh x w \<and> (\<exists>data. cw_archives w p = Some data \<and> vouched_box e rel data)"

definition box_ready :: "('k, 's) box_env \<Rightarrow> box_release \<Rightarrow> core_file option \<Rightarrow> core_world \<Rightarrow> bool" where
  "box_ready e rel x w \<longleftrightarrow> box_is x w \<and> box_unpacked e rel w"

lemma stable_box [intro]: "stable (box_fresh x)" "stable (box_fetched e rel p x)" "stable (box_is x)" "stable (box_ready e rel x)"
  by (simp_all add: stable_def box_fresh_def box_fetched_def box_is_def box_ready_def box_unpacked_def dir_files_def)

lemma safe_box: "box_is x w \<Longrightarrow> box_safe e rel x w" "box_fresh x w \<Longrightarrow> box_safe e rel x w" "box_fetched e rel p x w \<Longrightarrow> box_safe e rel x w"
  "box_ready e rel x w \<Longrightarrow> box_safe e rel x w"
  by (simp_all add: box_safe_def box_fresh_def box_fetched_def box_ready_def)

lemma check_box: "io_triple (box_ready e rel x) (box_check_and_install e rel) (\<lambda>_. box_safe e rel x) (box_safe e rel x)"
proof (cases "detect_arch_for (ue_arch (bx_core e))")
  case (Inl bad)
  then show ?thesis unfolding box_check_and_install_def by (auto intro: io_triple_fail safe_box)
next
  case (Inr arch)
  let ?n = "unpacked_name (strip_v (br_tag_name rel)) arch" and ?S = "box_safe e rel x"
  have out: "invar ?S (thenE (ignoreE wipe_temp) (thenE (box_tell e k as) (thenE (csend (bx_core e) t) (failE err))) :: (core_world, unit) io)"
    for k as t err by (intro invar_then box_keep invar_fail of_binary_box)
  have inst: "io_triple (box_is x) (thenE (box_tell e k as) (box_backup_and_replace e rel p new)) (\<lambda>_. ?S) ?S"
    if "\<And>f. new = Some f \<Longrightarrow> genuine_box e rel f" for k as p new
    by (rule io_triple_then [OF weak_error [OF keep_tell [OF of_binary_box(1)]] install_box]) (auto intro: that safe_box)
  have rest: "io_triple (\<lambda>w. box_ready e rel x w \<and> new = dir_files SINGBOX_UPGRADE_TEMP_DIR w ?n)
      (if new = None then failE err else bindE (box_preflight e p) (\<lambda>outcome. case outcome of
             Passed \<Rightarrow> thenE (box_tell e ''preflight_ok'' []) (box_backup_and_replace e rel p new)
           | Unsupported \<Rightarrow> thenE (box_tell e ''preflight_unsupported'' []) (box_backup_and_replace e rel p new)
           | Invalid reason \<Rightarrow>
               thenE (ignoreE wipe_temp)
               (thenE (box_tell e ''preflight_failed'' [reason])
               (thenE (csend (bx_core e) (box_tr e ''preflight_failed'' [reason])) (failE ''configuration check failed''))))) (\<lambda>_. ?S) ?S"
    for new err p
  proof (cases "\<forall>f. new = Some f \<longrightarrow> genuine_box e rel f")
    case True
    then have g: "new = Some f \<Longrightarrow> genuine_box e rel f" for f by blast
    have "io_triple (box_is x) (bindE (box_preflight e p) (\<lambda>outcome. case outcome of
             Passed \<Rightarrow> thenE (box_tell e ''preflight_ok'' []) (box_backup_and_replace e rel p new)
           | Unsupported \<Rightarrow> thenE (box_tell e ''preflight_unsupported'' []) (box_backup_and_replace e rel p new)
           | Invalid reason \<Rightarrow>
               thenE (ignoreE wipe_temp)
               (thenE (box_tell e ''preflight_failed'' [reason])
               (thenE (csend (bx_core e) (box_tr e ''preflight_failed'' [reason])) (failE ''configuration check failed''))))) (\<lambda>_. ?S) ?S"
      by (rule io_triple_bind [OF weak_error [OF keep_preflight [OF of_binary_box(1)]]])
        (auto split: preflight_outcome.split intro: safe_box inst [OF g] io_triple_pre [OF out])
    then show ?thesis
      by (intro io_triple_if io_triple_fail) (auto intro: safe_box io_triple_pre simp: box_ready_def)
  next
    case False
    then have "\<not> (box_ready e rel x w \<and> new = dir_files SINGBOX_UPGRADE_TEMP_DIR w ?n)" for w
      using Inr by (auto simp: box_ready_def box_unpacked_def)
    then show ?thesis unfolding io_triple_def by blast
  qed
  show ?thesis
    unfolding box_check_and_install_def Inr sum.case Let_def by (rule io_triple_bind [OF io_triple_looking rest])
qed

lemma genuine_boxI: "vouched_box e rel data \<Longrightarrow> detect_arch_for (ue_arch (bx_core e)) = Inr arch
    \<Longrightarrow> bx_untar e data (unpacked_name (strip_v (br_tag_name rel)) arch) = Some f \<Longrightarrow> genuine_box e rel f"
  unfolding genuine_box_def by blast

lemma extract_box:
  "io_triple (box_fetched e rel p x) (box_extract e p SINGBOX_UPGRADE_TEMP_DIR) (\<lambda>_. box_ready e rel x) (box_is x)"
  by (rule io_tripleI)
    ((auto simp: box_extract_def checked_cmd_def core_cmd_def answered_def bindE_apply catchE_apply thenE_apply looking_def updating_def Let_def
      log_effect_def untar_into_def box_fetched_def box_fresh_def box_ready_def box_is_def box_unpacked_def dir_files_def
      split: sum.splits option.splits if_splits prod.splits); (blast intro: genuine_boxI)?)+

lemma verified_box:
  "io_triple (box_fresh x) (verify_download_for_tag e p (br_sha256 rel) (Some (br_tag_name rel))) (\<lambda>_. box_fetched e rel p x) (box_fresh x)"
proof (rule io_tripleI)
  fix w u w' assume w: "box_fresh x w" and v: "verify_download_for_tag e p (br_sha256 rel) (Some (br_tag_name rel)) w = (Inr u, w')"
  from accepted_download [OF v] obtain data where d: "cw_archives w p = Some data" "vouched_box e rel data" by blast
  have st: "stable (\<lambda>w. box_fresh x w \<and> cw_archives w p = Some data)"
    by (rule stable_conj [OF stable_box(1) stable_archive])
  have "box_fresh x w' \<and> cw_archives w' p = Some data"
    using io_tripleD [OF stable_verify [OF st] _ v] w d by simp
  with d show "box_fetched e rel p x w'" unfolding box_fetched_def by blast
next
  fix w u w' assume "box_fresh x w" and "verify_download_for_tag e p (br_sha256 rel) (Some (br_tag_name rel)) w = (Inl u, w')"
  then show "box_fresh x w'" using io_tripleE [OF stable_verify [OF stable_box(1)]] by blast
qed

lemma fetch_box: "io_triple (box_fresh x) (box_download_checked e rel p) (\<lambda>_. box_fetched e rel p x) (box_is x)"
proof -
  have d: "invar (box_fresh x) (box_download e u q)" for u q
    unfolding box_download_def checked_cmd_def
    by (rule invar_look, rule invar_then)
      (auto simp: box_fresh_def box_is_def dir_files_def split: prod.split
        intro!: io_triple_updating invar_rules invar_cmd stable_box)
  have f: "io_triple (box_fresh x) (thenE (ignoreE (remove_archive p)) (failE err)) (\<lambda>_. box_fetched e rel p x) (box_is x)" for err
    by (rule io_triple_then [OF io_triple_pre [OF weak_error [OF keep_archive [OF of_binary_box(1)]]]])
      (auto simp: box_fresh_def intro: io_triple_fail)
  show ?thesis
    unfolding box_download_checked_def
    by (rule io_triple_then [OF weak_error [OF d] io_triple_catch [OF verified_box]])
      (auto simp: box_fresh_def intro: f io_triple_ret)
qed

lemma wiped_box: "io_triple (box_is x) wipe_temp (\<lambda>_. box_fresh x) (box_is x)"
  by (rule io_tripleI)
    (auto simp: wipe_dir_def bindE_apply catchE_apply thenE_apply looking_def updating_def try_effect_def log_effect_def
      box_fresh_def box_is_def dir_files_def split: option.splits)

text \<open>The directory is only there when it holds something unpacked.\<close>

definition box_tidy :: "core_file option \<Rightarrow> core_world \<Rightarrow> bool" where
  "box_tidy x w \<longleftrightarrow> box_is x w \<and> (\<not> cw_has_dir w SINGBOX_UPGRADE_TEMP_DIR \<longrightarrow> cw_unpacked w SINGBOX_UPGRADE_TEMP_DIR = None)"

lemma stable_attempt_tidy: "io_triple (box_fresh x) (create_dir d) (\<lambda>_. box_fresh x) (box_safe e rel x)"
  by (rule weak_error [OF invar_create_dir [OF stable_box(1)] safe_box(2)])

lemma install_from_web:
  "io_triple (box_tidy x) (box_fetch_and_install e rel) (\<lambda>_. box_safe e rel x) (box_safe e rel x)"
proof -
  let ?S = "box_safe e rel x"
  have start: "invar (box_tidy x) (box_tell e k as)" for k as
    by (rule invar_snd) (simp add: box_tidy_def box_is_def box_tell_def ignoreE_def catchE_apply cedit_def try_effect_def log_effect_def)
  have wipe: "io_triple (\<lambda>w. box_tidy x w \<and> there = cw_has_dir w SINGBOX_UPGRADE_TEMP_DIR) (if there then wipe_temp else retE ())
      (\<lambda>_. box_fresh x) ?S" for there
    by (intro io_triple_if io_triple_pre [OF weak_error [OF wiped_box safe_box(1)]] io_triple_ret)
      (auto simp: box_tidy_def box_fresh_def dir_files_def)
  have tell: "io_triple (box_fetched e rel p x) (box_tell e k as) (\<lambda>_. box_fetched e rel p x) ?S" for p k as
    unfolding box_tell_def by (intro io_triple_ignore invar_cedit stable_box)
  have tidy: "io_triple (box_tidy x) (box_tell e k as) (\<lambda>_. box_tidy x) ?S" for k as
    by (rule weak_error [OF start]) (simp add: box_tidy_def safe_box)
  show ?thesis
    unfolding box_fetch_and_install_def
    by (rule io_triple_then [OF tidy io_triple_bind [OF io_triple_looking io_triple_then [OF wipe io_triple_then [OF stable_attempt_tidy
        io_triple_then [OF weak_error [OF fetch_box safe_box(1)] io_triple_then [OF tell
          io_triple_then [OF weak_error [OF extract_box safe_box(1)] check_box]]]]]]])
qed

section \<open>The whole upgrade\<close>

definition offered_box :: "('k, 's) box_env \<Rightarrow> string option \<Rightarrow> box_release \<Rightarrow> bool" where
  "offered_box e tag rel \<longleftrightarrow> (\<exists>w w'. fetch_box_release e tag w = (Inr rel, w'))"

definition box_upgraded :: "('k, 's) box_env \<Rightarrow> string option \<Rightarrow> core_file option \<Rightarrow> core_world \<Rightarrow> bool" where
  "box_upgraded e tag x w \<longleftrightarrow> box_is x w \<or> (\<exists>f. x = Some f \<and> box_is (Some (executable f)) w) \<or> (\<exists>rel. offered_box e tag rel \<and> box_new e rel w)"

lemma tidy_answered: "invar (box_tidy x) (answered ef a)"
  by (rule invar_snd) (simp add: box_tidy_def box_is_def answered_def log_effect_def)

lemma tidy_effect: "invar (box_tidy x) (try_effect ef)"
  by (rule invar_snd) (simp add: box_tidy_def box_is_def try_effect_def log_effect_def)

lemma tidy_cmd: "invar (box_tidy x) (core_cmd c p as)"
  unfolding core_cmd_def by (rule tidy_answered)

lemma tidy_tell: "invar (box_tidy x) (box_tell e k as)"
  unfolding box_tell_def cedit_def by (intro invar_ignore tidy_effect)

lemma tidy_send: "invar (box_tidy x) (csend c t)"
  unfolding csend_def by (intro invar_then tidy_effect invar_ret)

lemma tidy_version: "invar (box_tidy x) (box_version e)"
  unfolding box_version_def by (intro invar_catch tidy_cmd invar_ret)

lemma tidy_release: "io_triple (box_tidy x) (fetch_box_release e tag) (\<lambda>rel w. offered_box e tag rel \<and> box_tidy x w) (box_tidy x)"
proof (rule io_triple_value)
  have r: "invar (box_tidy x) (box_response e tag)"
    unfolding box_response_def Let_def by (auto split: option.split intro!: tidy_answered)
  show "invar (box_tidy x) (fetch_box_release e tag)"
    unfolding fetch_box_release_def Let_def
    by (rule invar_bind [OF r]) (auto split: sum.split option.split intro!: invar_ret invar_fail)
qed (auto simp: offered_box_def)

lemma run_upgraded: "io_triple (box_tidy x) (run_box_upgrade e tag) (\<lambda>_. box_upgraded e tag x) (box_upgraded e tag x)"
proof -
  let ?U = "box_upgraded e tag x" and ?T = "box_tidy x"
  have old: "?U w" if "?T w" for w using that by (simp add: box_upgraded_def box_tidy_def)
  have k: "io_triple ?T m (\<lambda>_. ?T) ?U" if "invar ?T m" for m :: "(core_world, 'z) io"
    by (rule weak_error [OF that old])
  have same: "io_triple ?T (cedit t) (\<lambda>_. ?U) ?U" for t
    unfolding cedit_def by (rule io_triple_weaken [OF tidy_effect]) (auto intro: old)
  have install: "io_triple ?T (box_fetch_and_install e rel) (\<lambda>_. ?U) ?U" if "offered_box e tag rel" for rel
    by (rule io_triple_weaken [OF install_from_web]) (use that in \<open>auto simp: box_upgraded_def box_safe_def\<close>)
  have choice: "io_triple (\<lambda>w. offered_box e tag rel \<and> ?T w) (bindE (box_version e) (\<lambda>local_version.
      case local_version of
        Some l \<Rightarrow>
          if is_same_version l (br_tag_name rel) then cedit (box_tr e ''already_latest'' [l, br_tag_name rel])
          else box_fetch_and_install e rel
      | None \<Rightarrow> box_fetch_and_install e rel)) (\<lambda>_. ?U) ?U" for rel
  proof (cases "offered_box e tag rel")
    case True
    have "io_triple ?T (bindE (box_version e) (\<lambda>local_version.
      case local_version of
        Some l \<Rightarrow>
          if is_same_version l (br_tag_name rel) then cedit (box_tr e ''already_latest'' [l, br_tag_name rel])
          else box_fetch_and_install e rel
      | None \<Rightarrow> box_fetch_and_install e rel)) (\<lambda>_. ?U) ?U"
      by (rule io_triple_bind [OF k [OF tidy_version]]) (auto split: option.split intro: same install [OF True])
    then show ?thesis by (rule io_triple_pre) simp
  qed (simp add: io_triple_def)
  show ?thesis
    unfolding run_box_upgrade_def
    by (intro io_triple_then [OF k [OF tidy_send]] io_triple_then [OF k [OF tidy_effect]] io_triple_then [OF k [OF tidy_tell]]
        io_triple_bind [OF weak_error [OF tidy_release old]] choice)
qed

lemma box_upgraded_cases:
  assumes "box_upgraded e tag x w"
  shows "cw_install w ''wwps-box'' \<in> {x, map_option executable x} \<union> {Some (executable f) | f rel. offered_box e tag rel \<and> genuine_box e rel f}"
proof (cases "box_is x w \<or> (\<exists>f. x = Some f \<and> box_is (Some (executable f)) w)")
  case True
  then show ?thesis by (auto simp: box_is_def)
next
  case False
  with assms obtain rel f where "offered_box e tag rel" "genuine_box e rel f" "cw_install w ''wwps-box'' = Some (executable f)"
    unfolding box_upgraded_def box_new_def box_is_def by blast
  then show ?thesis by blast
qed

text \<open>C40: whatever fails on the way, the sing-box that is installed after an upgrade is the one from before, or it comes
  from an archive with the hash of a release the API offered, with an attestation for that hash or, when asking for one
  ended with an error, with the same hash on the release page.\<close>

theorem upgraded_box_genuine:
  assumes "cw_has_dir w SINGBOX_UPGRADE_TEMP_DIR \<or> cw_unpacked w SINGBOX_UPGRADE_TEMP_DIR = None"
  shows "cw_install (snd (run_box_upgrade e tag w)) ''wwps-box''
    \<in> {cw_install w ''wwps-box'', map_option executable (cw_install w ''wwps-box'')}
      \<union> {Some (executable f) | f rel. offered_box e tag rel \<and> genuine_box e rel f}"
proof -
  have "box_tidy (cw_install w ''wwps-box'') w" unfolding box_tidy_def box_is_def using assms by blast
  then have "box_upgraded e tag (cw_install w ''wwps-box'') (snd (run_box_upgrade e tag w))"
    by (rule io_triple_end [where P = "box_tidy (cw_install w ''wwps-box'')", OF run_upgraded])
  then show ?thesis by (rule box_upgraded_cases)
qed

definition sample_box_env :: "(unit, unit) box_env" where
  "sample_box_env = \<lparr>bx_core = sample_core_env (sample_cmd (\<lambda>_. True) (\<lambda>_. True)),
     bx_attest = (\<lambda>_ _. Inr \<lparr>ha_status = 200, ha_json = Some (JObj [(''attestations'', JArr [JNull])]), ha_text = None,
       ha_retry_after = None, ha_remaining = None, ha_reset = None\<rparr>),
     bx_page = (\<lambda>_ _. None), bx_now = (\<lambda>n. n), bx_fetched = (\<lambda>_ _. Some ''package''), bx_untar = (\<lambda>_ _. Some sample_core)\<rparr>"

definition sample_box_host :: core_world where
  "sample_box_host = (sample_host (\<lambda>_. None) [])\<lparr>cw_install := [''wwps-box'' \<mapsto> sample_core]\<rparr>"

theorem upgraded_box_genuine_witness:
  "cw_unpacked sample_box_host SINGBOX_UPGRADE_TEMP_DIR = None
   \<and> (\<exists>f. cw_install (snd (run_box_upgrade sample_box_env None sample_box_host)) ''wwps-box'' = Some f \<and> cf_mode f = 493)"
proof -
  have h: "cw_unpacked sample_box_host SINGBOX_UPGRADE_TEMP_DIR = None" "cw_install sample_box_host ''wwps-box'' = Some sample_core"
    by (simp_all add: sample_box_host_def sample_host_def)
  then show ?thesis using upgraded_box_genuine [of sample_box_host sample_box_env None] by (auto simp: sample_core_def executable_def)
qed

text \<open>A hash with an attestation behind it is accepted, one whose attestation is denied is not, whatever the release page says.\<close>

lemma denied_download:
  assumes "has_attestation_for e sha w1 = (Inr False, w2)" and "verify_sha256_file e p sha w = (Inr (), w1)"
  shows "verify_download_for_tag e p sha tag w = (Inl (''no attestation: '' @ sha), w2)"
  using assms by (simp add: verify_download_for_tag_def thenE_apply catchE_apply)

text \<open>Any error of the query leads to the release page, also one the server answers with.\<close>

lemma any_error_degrades:
  assumes "verify_sha256_file e p sha w = (Inr (), w1)" and "has_attestation_for e sha w1 = (Inl err, w2)"
    and "detect_arch_for (ue_arch (bx_core e)) = Inr arch"
    and "html_digest_for_asset e t (tarball_name (strip_v t) arch) w2 = (Inr (Some h), w3)"
    and "eq_ignore_ascii_case h sha" and "sha \<noteq> []"
  shows "verify_download_for_tag e p sha (Some t) w = (Inr (), w3)"
  using assms by (simp add: verify_download_for_tag_def thenE_apply catchE_apply bindE_apply degraded_accepts_def)

lemma server_error_is_error:
  assumes "is_sha256_hex sha" and "bx_attest e (length (cw_trace w)) (attestation_url sha) = Inr r" and "ha_status r = 500"
  shows "fst (has_attestation_for e sha w) = Inl (''HTTP '' @ nat_str 500)"
proof -
  have "attestation_url sha \<noteq> []" using assms(1) by (simp add: attestation_url_def attestation_path_def)
  then have "has_attestation_for e sha = attestation_attempts e (attestation_url sha) (Suc 3)"
    by (simp add: has_attestation_for_def MAX_ATTEMPTS_def)
  moreover have "\<not> is_rate_limited 500 a b c" for a b c by (simp add: is_rate_limited_def)
  ultimately show ?thesis
    using assms(2,3) by (simp only: attestation_attempts.simps) (simp add: bindE_apply answered_def attestation_decision_def)
qed

end
