(* ===== verification/BoxRouting.thy ===== *)
theory BoxRouting
  imports RoutingRules
begin

text \<open>
  The routing rules of sing-box, \<open>core/singbox/routing.rs\<close>, and the base configuration of
  \<open>core/singbox/config.rs\<close>: the table of rules, the rule sets they need, the migration that adds missing rule sets to
  the base file, the switch of a rule. A rule has no tag here: it is on when the list of rules contains the value the
  table gives for it. The world is that of theory RoutingRules with the base file of sing-box; indexing that would
  panic is the error \<open>panic\<close>. The lock is taken for each reading and writing step, not across a switch.
\<close>

section \<open>The rule table\<close>

datatype box_rule_kind = IpPrivate | RuleSet

record box_rule =
  sr_id :: string
  sr_kind :: box_rule_kind
  sr_targets :: "string list"
  sr_outbound :: string
  sr_default_enabled :: bool

definition SINGBOX_ROUTING_RULES :: "box_rule list" where
  "SINGBOX_ROUTING_RULES =
     [\<lparr>sr_id = ''private_ip'', sr_kind = IpPrivate, sr_targets = [], sr_outbound = ''block'', sr_default_enabled = True\<rparr>,
      \<lparr>sr_id = ''cn_ip'', sr_kind = RuleSet, sr_targets = [''geoip-cn''], sr_outbound = ''block'', sr_default_enabled = True\<rparr>,
      \<lparr>sr_id = ''cn_domain'', sr_kind = RuleSet, sr_targets = [''geosite-cn''], sr_outbound = ''block'', sr_default_enabled = True\<rparr>,
      \<lparr>sr_id = ''private_domain'', sr_kind = RuleSet, sr_targets = [''geosite-private''], sr_outbound = ''block'', sr_default_enabled = False\<rparr>,
      \<lparr>sr_id = ''ads'', sr_kind = RuleSet, sr_targets = [''geosite-category-ads-all''], sr_outbound = ''block'', sr_default_enabled = False\<rparr>,
      \<lparr>sr_id = ''openai'', sr_kind = RuleSet, sr_targets = [''geosite-openai''], sr_outbound = ''direct'', sr_default_enabled = False\<rparr>]"

definition GEOSITE_CATEGORIES :: "string list" where
  "GEOSITE_CATEGORIES = [''cn'', ''private'', ''category-ads-all'', ''openai'']"

definition GEOIP_CATEGORIES :: "string list" where
  "GEOIP_CATEGORIES = [''cn'']"

definition RULE_SET_DIR :: string where
  "RULE_SET_DIR = ''/etc/wwps/wwps-box/rule-set''"

definition box_rule_json :: "box_rule \<Rightarrow> json" where
  "box_rule_json r = JObj [(''outbound'', JStr (sr_outbound r)),
     (case sr_kind r of IpPrivate \<Rightarrow> (''ip_is_private'', JBool True) | RuleSet \<Rightarrow> (''rule_set'', JArr (map JStr (sr_targets r))))]"

definition rule_set_definition :: "string \<Rightarrow> json" where
  "rule_set_definition tag = JObj [(''tag'', JStr tag), (''type'', JStr ''local''), (''format'', JStr ''binary''),
     (''path'', JStr (RULE_SET_DIR @ ''/'' @ tag @ ''.srs''))]"

definition rule_set_definitions :: "json list" where
  "rule_set_definitions =
     map (\<lambda>c. rule_set_definition (''geosite-'' @ c)) GEOSITE_CATEGORIES @ map (\<lambda>c. rule_set_definition (''geoip-'' @ c)) GEOIP_CATEGORIES"

text \<open>Equality of a value with one of the table, whose members are no objects: the order of the members does not count.\<close>

definition same_object :: "json \<Rightarrow> json \<Rightarrow> bool" where
  "same_object r c =
     (case (as_object r, as_object c) of
        (Some ms, Some ns) \<Rightarrow> length ms = length ns \<and> list_all (\<lambda>(k, v). map_of ms k = Some v) ns
      | _ \<Rightarrow> False)"

section \<open>The document\<close>

definition rule_set_tags :: "json \<Rightarrow> string list" where
  "rule_set_tags v =
     (case as_array (jidx ''rule_set'' (jidx ''route'' v)) of
        Some xs \<Rightarrow> List.map_filter (\<lambda>r. as_str (jidx ''tag'' r)) xs | None \<Rightarrow> [])"

definition set_route_member :: "string \<Rightarrow> json \<Rightarrow> json \<Rightarrow> json option" where
  "set_route_member k x v = Option.bind (jset k x (jidx ''route'' v)) (\<lambda>r. jset ''route'' r v)"

definition box_rules_of :: "json \<Rightarrow> json list" where
  "box_rules_of v = (case as_array (jidx ''rules'' (jidx ''route'' v)) of Some xs \<Rightarrow> xs | None \<Rightarrow> [])"

definition ensure_rule_sets_value :: "json \<Rightarrow> (bool \<times> json) option" where
  "ensure_rule_sets_value v =
     (let existing = rule_set_tags v;
          missing = filter (\<lambda>d. (case as_str (jidx ''tag'' d) of Some t \<Rightarrow> t | None \<Rightarrow> []) \<notin> set existing) rule_set_definitions
      in if missing = [] then Some (False, v)
         else Option.bind (if jidx ''route'' v = JNull then jset ''route'' (JObj []) v else Some v) (\<lambda>v1.
              Option.bind (if as_array (jidx ''rule_set'' (jidx ''route'' v1)) = None then set_route_member ''rule_set'' (JArr []) v1 else Some v1) (\<lambda>v2.
              case as_array (jidx ''rule_set'' (jidx ''route'' v2)) of
                None \<Rightarrow> None
              | Some arr \<Rightarrow> map_option (\<lambda>v3. (True, v3)) (set_route_member ''rule_set'' (JArr (arr @ missing)) v2))))"

definition ensure_rule_sets_in_base :: "(xray_world, unit) io" where
  "ensure_rule_sets_in_base =
     bindE read_base_json (\<lambda>v.
       case ensure_rule_sets_value v of
         None \<Rightarrow> failE ''panic''
       | Some (changed, v') \<Rightarrow> if changed then persist_base_json v' else retE ())"

definition box_read_rules :: "(xray_world, json list) io" where
  "box_read_rules = bindE read_base_json (\<lambda>v. retE (box_rules_of v))"

definition box_write_rules :: "json list \<Rightarrow> (xray_world, unit) io" where
  "box_write_rules rules =
     bindE read_base_json (\<lambda>v.
       case set_route_member ''rules'' (JArr rules) v of
         None \<Rightarrow> failE ''panic''
       | Some v' \<Rightarrow> thenE (persist_base_json v') reload_core)"

definition box_enabled :: "json list \<Rightarrow> box_rule \<Rightarrow> bool" where
  "box_enabled rules d \<longleftrightarrow> list_ex (\<lambda>r. same_object r (box_rule_json d)) rules"

definition box_get_all_with_status :: "(xray_world, (box_rule \<times> bool) list) io" where
  "box_get_all_with_status =
     thenE ensure_rule_sets_in_base (bindE box_read_rules (\<lambda>rules.
       retE (map (\<lambda>d. (d, box_enabled rules d)) SINGBOX_ROUTING_RULES)))"

definition flip_rule :: "box_rule \<Rightarrow> json list \<Rightarrow> bool \<times> json list" where
  "flip_rule d rules =
     (if box_enabled rules d then (False, remove_first (\<lambda>r. same_object r (box_rule_json d)) rules)
      else (True, rules @ [box_rule_json d]))"

definition box_toggle :: "string \<Rightarrow> (xray_world, bool) io" where
  "box_toggle rule_id =
     thenE ensure_rule_sets_in_base
     (case find (\<lambda>r. sr_id r = rule_id) SINGBOX_ROUTING_RULES of
        None \<Rightarrow> failE ''unknown rule''
      | Some d \<Rightarrow>
          bindE box_read_rules (\<lambda>rules.
            case flip_rule d rules of (now_enabled, rules') \<Rightarrow> thenE (box_write_rules rules') (retE now_enabled)))"

section \<open>The base configuration\<close>

definition box_base_config :: json where
  "box_base_config = JObj
     [(''log'', JObj [(''level'', JStr ''warning'')]),
      (''dns'', JObj [(''servers'', JArr
         [JObj [(''tag'', JStr ''dns''), (''type'', JStr ''udp''), (''server'', JStr ''8.8.8.8''), (''domain_resolver'', JStr ''local'')],
          JObj [(''tag'', JStr ''local''), (''type'', JStr ''local'')]])]),
      (''route'', JObj [(''default_domain_resolver'', JStr ''dns''), (''rule_set'', JArr rule_set_definitions),
         (''rules'', JArr (map box_rule_json (filter sr_default_enabled SINGBOX_ROUTING_RULES)))]),
      (''outbounds'', JArr [JObj [(''type'', JStr ''direct''), (''tag'', JStr ''direct'')],
         JObj [(''type'', JStr ''block''), (''tag'', JStr ''block'')]])]"

text \<open>\<open>stat_bad\<close>: the test whether the file exists fails, which counts as its absence.\<close>

definition box_ensure_base_config :: "bool \<Rightarrow> string option \<Rightarrow> (xray_world, unit) io" where
  "box_ensure_base_config stat_bad mkdir w =
     (if rw_base w \<noteq> NoBase \<and> \<not> stat_bad then (Inr (), w)
      else case mkdir of Some e \<Rightarrow> (Inl e, w) | None \<Rightarrow> persist_base_json box_base_config w)"

section \<open>Lemmas: the document\<close>

definition box_status :: "json \<Rightarrow> (string \<times> bool) list" where
  "box_status v = map (\<lambda>d. (sr_id d, box_enabled (box_rules_of v) d)) SINGBOX_ROUTING_RULES"

lemma set_route_get:
  assumes "set_route_member k x v = Some v'"
  shows "jidx k' (jidx ''route'' v') = (if k' = k then x else jidx k' (jidx ''route'' v))"
proof -
  from assms obtain r where r: "jset k x (jidx ''route'' v) = Some r" "jset ''route'' r v = Some v'"
    by (auto simp: set_route_member_def bind_eq_Some_conv)
  then have "jidx ''route'' v' = r" by (simp add: jidx_def jget_jset [OF r(2)])
  then show ?thesis by (simp add: jidx_def jget_jset [OF r(1)])
qed

lemma set_rules_rules: "set_route_member ''rules'' (JArr rules) v = Some v' \<Longrightarrow> box_rules_of v' = rules"
  by (simp add: box_rules_of_def set_route_get)

lemma set_rules_tags: "set_route_member ''rules'' (JArr rules) v = Some v' \<Longrightarrow> rule_set_tags v' = rule_set_tags v"
  by (simp add: rule_set_tags_def set_route_get)

definition needed_tags :: "string list" where
  "needed_tags = concat (map sr_targets SINGBOX_ROUTING_RULES)"

lemma needed_defined: "set needed_tags \<subseteq> {t. \<exists>d \<in> set rule_set_definitions. as_str (jidx ''tag'' d) = Some t}"
  by (simp add: needed_tags_def SINGBOX_ROUTING_RULES_def rule_set_definitions_def GEOSITE_CATEGORIES_def GEOIP_CATEGORIES_def
      rule_set_definition_def jidx_def)

lemma definitions_tagged: "d \<in> set rule_set_definitions \<Longrightarrow> \<exists>t. as_str (jidx ''tag'' d) = Some t"
  by (auto simp: rule_set_definitions_def rule_set_definition_def jidx_def)

lemma map_filter_set: "set (List.map_filter f xs) = {y. \<exists>x \<in> set xs. f x = Some y}"
  by (induction xs) (auto simp: List.map_filter_def split: option.splits)

lemma ensured_tags:
  assumes "ensure_rule_sets_value v = Some (c, v')" "t \<in> set needed_tags"
  shows "t \<in> set (rule_set_tags v')"
proof -
  define missing where "missing = filter (\<lambda>d. (case as_str (jidx ''tag'' d) of Some t \<Rightarrow> t | None \<Rightarrow> []) \<notin> set (rule_set_tags v)) rule_set_definitions"
  from needed_defined assms(2) obtain d where d: "d \<in> set rule_set_definitions" "as_str (jidx ''tag'' d) = Some t" by auto
  show ?thesis
  proof (cases "missing = []")
    case True
    then have "v' = v" using assms(1) by (simp add: ensure_rule_sets_value_def missing_def [symmetric] Let_def)
    have "d \<notin> set missing" using True by simp
    with d \<open>v' = v\<close> show ?thesis by (auto simp: missing_def)
  next
    case False
    then obtain v1 v2 arr where s: "(if jidx ''route'' v = JNull then jset ''route'' (JObj []) v else Some v) = Some v1"
      "(if as_array (jidx ''rule_set'' (jidx ''route'' v1)) = None then set_route_member ''rule_set'' (JArr []) v1 else Some v1) = Some v2"
      "as_array (jidx ''rule_set'' (jidx ''route'' v2)) = Some arr" "set_route_member ''rule_set'' (JArr (arr @ missing)) v2 = Some v'"
      using assms(1) by (auto simp: ensure_rule_sets_value_def missing_def [symmetric] Let_def bind_eq_Some_conv split: option.splits)
    have tags: "rule_set_tags v' = List.map_filter (\<lambda>r. as_str (jidx ''tag'' r)) (arr @ missing)"
      using set_route_get [OF s(4)] by (simp add: rule_set_tags_def)
    show ?thesis
    proof (cases "t \<in> set (rule_set_tags v)")
      case True
      then obtain xs where xs: "as_array (jidx ''rule_set'' (jidx ''route'' v)) = Some xs"
        by (cases "as_array (jidx ''rule_set'' (jidx ''route'' v))") (auto simp: rule_set_tags_def)
      then have "jidx ''route'' v \<noteq> JNull" by (auto simp: jidx_def)
      then have "arr = xs" using s xs by (simp split: if_splits)
      with True xs tags show ?thesis by (auto simp: rule_set_tags_def map_filter_set)
    next
      case False
      then have "d \<in> set missing" using d by (simp add: missing_def)
      with d tags show ?thesis by (auto simp: map_filter_set)
    qed
  qed
qed

lemma ensured_rules:
  assumes "ensure_rule_sets_value v = Some (c, v')"
  shows "box_rules_of v' = box_rules_of v"
proof -
  define missing where "missing = filter (\<lambda>d. (case as_str (jidx ''tag'' d) of Some t \<Rightarrow> t | None \<Rightarrow> []) \<notin> set (rule_set_tags v)) rule_set_definitions"
  show ?thesis
  proof (cases "missing = []")
    case True
    then show ?thesis using assms by (simp add: ensure_rule_sets_value_def missing_def [symmetric] Let_def)
  next
    case False
    then obtain v1 v2 arr where s: "(if jidx ''route'' v = JNull then jset ''route'' (JObj []) v else Some v) = Some v1"
      "(if as_array (jidx ''rule_set'' (jidx ''route'' v1)) = None then set_route_member ''rule_set'' (JArr []) v1 else Some v1) = Some v2"
      "set_route_member ''rule_set'' (JArr (arr @ missing)) v2 = Some v'"
      using assms by (auto simp: ensure_rule_sets_value_def missing_def [symmetric] Let_def bind_eq_Some_conv split: option.splits)
    have "box_rules_of v1 = box_rules_of v"
      using s(1) by (auto simp: box_rules_of_def jidx_def jget_jset split: if_splits)
    moreover have "box_rules_of v2 = box_rules_of v1"
      using s(2) by (auto simp: box_rules_of_def set_route_get split: if_splits)
    moreover have "box_rules_of v' = box_rules_of v2"
      using s(3) by (simp add: box_rules_of_def set_route_get)
    ultimately show ?thesis by simp
  qed
qed

section \<open>Switching a rule\<close>

lemma rule_ids_distinct: "d \<in> set SINGBOX_ROUTING_RULES \<Longrightarrow> d' \<in> set SINGBOX_ROUTING_RULES \<Longrightarrow> sr_id d = sr_id d' \<Longrightarrow> d = d'"
proof -
  have "distinct (map sr_id SINGBOX_ROUTING_RULES)" by (simp add: SINGBOX_ROUTING_RULES_def)
  then have "inj_on sr_id (set SINGBOX_ROUTING_RULES)" by (simp add: distinct_map)
  then show "d \<in> set SINGBOX_ROUTING_RULES \<Longrightarrow> d' \<in> set SINGBOX_ROUTING_RULES \<Longrightarrow> sr_id d = sr_id d' \<Longrightarrow> d = d'"
    by (rule inj_onD)
qed

lemma same_object_members:
  assumes "same_object r (box_rule_json d)"
  shows "\<exists>ms. r = JObj ms \<and> length ms = 2 \<and> map_of ms ''outbound'' = Some (JStr (sr_outbound d))
    \<and> (case sr_kind d of IpPrivate \<Rightarrow> map_of ms ''ip_is_private'' = Some (JBool True)
       | RuleSet \<Rightarrow> map_of ms ''rule_set'' = Some (JArr (map JStr (sr_targets d))))"
  using assms by (cases r) (auto simp: same_object_def box_rule_json_def split: box_rule_kind.splits)

lemma two_members:
  assumes "length ms = 2" "map_of ms a = Some x" "map_of ms b = Some y" "map_of ms c = Some z" "a \<noteq> b" "a \<noteq> c" "b \<noteq> c"
  shows False
proof -
  have "{a, b, c} \<subseteq> dom (map_of ms)" using assms(2-4) by (simp add: domIff)
  then have "card {a, b, c} \<le> card (dom (map_of ms))" by (rule card_mono [OF finite_dom_map_of])
  moreover have "card (dom (map_of ms)) \<le> 2"
    using card_length [of "map fst ms"] assms(1) by (simp add: dom_map_of_conv_image_fst)
  moreover have "card {a, b, c} = 3" using assms(5-7) by simp
  ultimately show False by linarith
qed

lemma table_keys:
  assumes "d \<in> set SINGBOX_ROUTING_RULES" "d' \<in> set SINGBOX_ROUTING_RULES" "sr_kind d = sr_kind d'"
    and "sr_kind d = RuleSet \<Longrightarrow> sr_targets d = sr_targets d'"
  shows "d = d'"
proof -
  have "distinct (map (\<lambda>d. (sr_kind d, sr_targets d)) SINGBOX_ROUTING_RULES)" by (simp add: SINGBOX_ROUTING_RULES_def)
  then have "inj_on (\<lambda>d. (sr_kind d, sr_targets d)) (set SINGBOX_ROUTING_RULES)" by (simp add: distinct_map)
  moreover have "x \<in> set SINGBOX_ROUTING_RULES \<Longrightarrow> sr_kind x = IpPrivate \<Longrightarrow> sr_targets x = []" for x
    by (auto simp: SINGBOX_ROUTING_RULES_def)
  then have "(sr_kind d, sr_targets d) = (sr_kind d', sr_targets d')" using assms by (cases "sr_kind d") simp_all
  ultimately show ?thesis using assms(1,2) by (rule inj_onD)
qed

lemma JStr_inj: "map JStr xs = map JStr ys \<longleftrightarrow> xs = ys"
  by (rule inj_map_eq_map) (simp add: inj_def)

lemma same_object_unique:
  assumes "same_object r (box_rule_json d)" "same_object r (box_rule_json d')"
    and "d \<in> set SINGBOX_ROUTING_RULES" "d' \<in> set SINGBOX_ROUTING_RULES"
  shows "d = d'"
proof -
  obtain ms where 1: "r = JObj ms" "length ms = 2" "map_of ms ''outbound'' = Some (JStr (sr_outbound d))"
    "case sr_kind d of IpPrivate \<Rightarrow> map_of ms ''ip_is_private'' = Some (JBool True) | RuleSet \<Rightarrow> map_of ms ''rule_set'' = Some (JArr (map JStr (sr_targets d)))"
    using same_object_members [OF assms(1)] by blast
  have 2: "map_of ms ''outbound'' = Some (JStr (sr_outbound d'))"
    "case sr_kind d' of IpPrivate \<Rightarrow> map_of ms ''ip_is_private'' = Some (JBool True) | RuleSet \<Rightarrow> map_of ms ''rule_set'' = Some (JArr (map JStr (sr_targets d')))"
    using same_object_members [OF assms(2)] 1(1) by auto
  have k: "sr_kind d = sr_kind d'"
  proof (rule ccontr)
    assume "sr_kind d \<noteq> sr_kind d'"
    then obtain y z where "map_of ms ''ip_is_private'' = Some y" "map_of ms ''rule_set'' = Some z"
      using 1(4) 2(2) by (cases "sr_kind d"; cases "sr_kind d'") auto
    from two_members [OF 1(2) 1(3) this] show False by simp
  qed
  have "sr_targets d = sr_targets d'" if "sr_kind d = RuleSet"
    using 1(4) 2(2) k that by (simp add: JStr_inj)
  with k show ?thesis using table_keys assms(3,4) by blast
qed

lemma same_object_refl: "same_object (box_rule_json d) (box_rule_json d)"
  by (auto simp: same_object_def box_rule_json_def split: box_rule_kind.split)

lemma flip_status:
  assumes "d \<in> set SINGBOX_ROUTING_RULES" "d' \<in> set SINGBOX_ROUTING_RULES"
    and "length (filter (\<lambda>r. same_object r (box_rule_json d)) rules) \<le> 1" and "flip_rule d rules = (b, rules')"
  shows "box_enabled rules' d' = (if d' = d then \<not> box_enabled rules d else box_enabled rules d')" "b = (\<not> box_enabled rules d)"
proof -
  have other: "same_object r (box_rule_json d') \<Longrightarrow> d' \<noteq> d \<Longrightarrow> \<not> same_object r (box_rule_json d)" for r
    using same_object_unique assms(1,2) by blast
  have drop: "length (filter P xs) \<le> 1 \<Longrightarrow> \<not> list_ex P (remove_first P xs)" for P and xs :: "json list"
    by (induction xs) (auto simp: list_ex_iff filter_empty_conv)
  have keep: "(\<And>x. Q x \<Longrightarrow> \<not> P x) \<Longrightarrow> list_ex Q (remove_first P xs) = list_ex Q xs" for P Q and xs :: "json list"
    by (induction xs) auto
  show "b = (\<not> box_enabled rules d)" using assms(4) by (auto simp: flip_rule_def split: if_splits)
  show "box_enabled rules' d' = (if d' = d then \<not> box_enabled rules d else box_enabled rules d')"
  proof (cases "box_enabled rules d")
    case True
    then have r: "rules' = remove_first (\<lambda>r. same_object r (box_rule_json d)) rules" using assms(4) by (simp add: flip_rule_def)
    show ?thesis
    proof (cases "d' = d")
      case True
      with drop [OF assms(3)] r \<open>box_enabled rules d\<close> show ?thesis by (simp add: box_enabled_def)
    next
      case False
      with keep [of "\<lambda>r. same_object r (box_rule_json d')" "\<lambda>r. same_object r (box_rule_json d)" rules] other r
      show ?thesis by (simp add: box_enabled_def)
    qed
  next
    case False
    then have r: "rules' = rules @ [box_rule_json d]" using assms(4) by (simp add: flip_rule_def)
    have "d' \<noteq> d \<Longrightarrow> \<not> same_object (box_rule_json d) (box_rule_json d')" using other same_object_refl by blast
    with r False show ?thesis by (auto simp: box_enabled_def same_object_refl)
  qed
qed

lemma persisted: "persist_base_json v w = (Inr u, w') \<Longrightarrow> rw_base w' = Base v"
  by (auto simp: persist_base_json_def split: option.splits)

lemma base_read: "read_base_json w = (Inr v, w') \<longleftrightarrow> rw_base w = Base v \<and> w' = w"
  by (auto simp: read_base_json_def split: base_file.splits)

lemma ensured_base:
  assumes "ensure_rule_sets_in_base w = (Inr u, w')"
  shows "\<exists>v0 c v. rw_base w = Base v0 \<and> ensure_rule_sets_value v0 = Some (c, v) \<and> rw_base w' = Base v"
proof -
  obtain v0 where v0: "rw_base w = Base v0"
    using assms by (cases "rw_base w") (simp_all add: ensure_rule_sets_in_base_def bindE_apply read_base_json_def)
  then obtain c v where e: "ensure_rule_sets_value v0 = Some (c, v)"
    using assms by (cases "ensure_rule_sets_value v0") (auto simp: ensure_rule_sets_in_base_def bindE_apply read_base_json_def)
  have "rw_base w' = Base v"
  proof (cases c)
    case True
    with assms v0 e show ?thesis by (auto simp: ensure_rule_sets_in_base_def bindE_apply read_base_json_def dest: persisted)
  next
    case False
    then have "v = v0" using e by (auto simp: ensure_rule_sets_value_def Let_def bind_eq_Some_conv split: if_splits option.splits)
    with False assms v0 e show ?thesis by (simp add: ensure_rule_sets_in_base_def bindE_apply read_base_json_def)
  qed
  with v0 e show ?thesis by blast
qed

lemma find_props: "find P xs = Some x \<Longrightarrow> x \<in> set xs \<and> P x"
  by (induction xs) (auto split: if_splits)

lemma toggled:
  assumes "box_toggle i w = (Inr b, w')"
  obtains v0 c v1 d rules' v where "rw_base w = Base v0" "ensure_rule_sets_value v0 = Some (c, v1)" "d \<in> set SINGBOX_ROUTING_RULES"
    "sr_id d = i" "flip_rule d (box_rules_of v0) = (b, rules')" "set_route_member ''rules'' (JArr rules') v1 = Some v" "rw_base w' = Base v"
proof -
  obtain u w1 where 1: "ensure_rule_sets_in_base w = (Inr u, w1)"
    using assms by (auto simp: box_toggle_def thenE_apply split: prod.splits sum.splits)
  from ensured_base [OF 1] obtain v0 c v1 where e: "rw_base w = Base v0" "ensure_rule_sets_value v0 = Some (c, v1)" "rw_base w1 = Base v1"
    by blast
  obtain d where d: "find (\<lambda>r. sr_id r = i) SINGBOX_ROUTING_RULES = Some d"
    using assms 1 by (cases "find (\<lambda>r. sr_id r = i) SINGBOX_ROUTING_RULES") (simp_all add: box_toggle_def thenE_apply)
  obtain b' rules' where f: "flip_rule d (box_rules_of v1) = (b', rules')" by fastforce
  have r: "thenE (box_write_rules rules') (retE b') w1 = (Inr b, w')"
    using assms 1 d f e(3) by (simp add: box_toggle_def thenE_apply bindE_apply box_read_rules_def read_base_json_def)
  then obtain u2 where wr: "box_write_rules rules' w1 = (Inr u2, w')" "b' = b"
    by (auto simp: thenE_apply split: prod.splits sum.splits)
  then obtain v where v: "set_route_member ''rules'' (JArr rules') v1 = Some v"
    using e(3) by (cases "set_route_member ''rules'' (JArr rules') v1") (auto simp: box_write_rules_def bindE_apply read_base_json_def)
  then have "rw_base w' = Base v"
    using wr(1) e(3) by (auto simp: box_write_rules_def bindE_apply thenE_apply read_base_json_def reload_core_def
        dest: persisted split: prod.splits sum.splits option.splits)
  moreover have "flip_rule d (box_rules_of v0) = (b, rules')" using f wr(2) ensured_rules [OF e(2)] by simp
  moreover have "d \<in> set SINGBOX_ROUTING_RULES" "sr_id d = i" using find_props [OF d] by simp_all
  ultimately show ?thesis using that e v by blast
qed

text \<open>Also: switching a rule that the file holds at most once inverts the status of this rule and of no other, and the
  answer is the new status.\<close>

theorem box_toggle_exact:
  assumes "box_toggle i w = (Inr b, w')" and "rw_base w = Base v0"
    and "\<forall>d \<in> set SINGBOX_ROUTING_RULES. length (filter (\<lambda>r. same_object r (box_rule_json d)) (box_rules_of v0)) \<le> 1"
  shows "\<exists>v. rw_base w' = Base v \<and> (i, b) \<in> set (box_status v)
    \<and> box_status v = map (\<lambda>(k, on). (k, if k = i then \<not> on else on)) (box_status v0)"
proof -
  obtain v0' c v1 d rules' v where h: "rw_base w = Base v0'" "ensure_rule_sets_value v0' = Some (c, v1)" "d \<in> set SINGBOX_ROUTING_RULES"
    "sr_id d = i" "flip_rule d (box_rules_of v0') = (b, rules')" "set_route_member ''rules'' (JArr rules') v1 = Some v" "rw_base w' = Base v"
    by (rule toggled [OF assms(1)])
  have v0: "v0' = v0" using h(1) assms(2) by simp
  have new: "box_rules_of v = rules'" by (rule set_rules_rules [OF h(6)])
  have one: "length (filter (\<lambda>r. same_object r (box_rule_json d)) (box_rules_of v0')) \<le> 1" using assms(3) h(3) v0 by blast
  have st: "box_enabled rules' d' = (if sr_id d' = i then \<not> box_enabled (box_rules_of v0) d' else box_enabled (box_rules_of v0) d')"
    if "d' \<in> set SINGBOX_ROUTING_RULES" for d'
  proof (cases "d' = d")
    case True
    then show ?thesis using flip_status(1) [OF h(3) that one h(5)] h(4) v0 by simp
  next
    case False
    then have "sr_id d' \<noteq> i" using rule_ids_distinct [OF that h(3)] h(4) by metis
    then show ?thesis using flip_status(1) [OF h(3) that one h(5)] False v0 by simp
  qed
  have "box_status v = map (\<lambda>(k, on). (k, if k = i then \<not> on else on)) (box_status v0)"
    unfolding box_status_def new map_map by (rule map_cong [OF refl]) (simp add: st)
  moreover have "box_enabled rules' d = b"
    using flip_status(2) [OF h(3) h(3) one h(5)] st [OF h(3)] h(4) v0 by simp
  then have "(i, b) \<in> set (box_status v)" unfolding box_status_def new set_map using h(3,4) by blast
  ultimately show ?thesis using h(7) by blast
qed

text \<open>Also: after a switch every rule set a rule of the table refers to is defined in the file, whatever the file held
  before, so that the configuration with the rules that are on names no rule set sing-box does not know.\<close>

theorem rule_sets_defined:
  assumes "box_toggle i w = (Inr b, w')" and "rw_base w' = Base v"
  shows "set needed_tags \<subseteq> set (rule_set_tags v)"
proof -
  obtain v0 c v1 d rules' v' where h: "rw_base w = Base v0" "ensure_rule_sets_value v0 = Some (c, v1)" "d \<in> set SINGBOX_ROUTING_RULES"
    "sr_id d = i" "flip_rule d (box_rules_of v0) = (b, rules')" "set_route_member ''rules'' (JArr rules') v1 = Some v'" "rw_base w' = Base v'"
    by (rule toggled [OF assms(1)])
  have "v' = v" using h(7) assms(2) by simp
  then have "rule_set_tags v = rule_set_tags v1" using set_rules_tags [OF h(6)] by simp
  moreover have "set needed_tags \<subseteq> set (rule_set_tags v1)" using ensured_tags [OF h(2)] by (rule subsetI)
  ultimately show ?thesis by simp
qed

definition sample_box_base :: xray_world where
  "sample_box_base = \<lparr>rw_base = Base box_base_config, rw_writes = 0, rw_reloads = 0, rw_write_bad = (\<lambda>_. None), rw_reload_err = (\<lambda>_. None)\<rparr>"

lemma fresh_base: "box_ensure_base_config stat_bad None (sample_box_base\<lparr>rw_base := NoBase\<rparr>)
    = (Inr (), sample_box_base\<lparr>rw_base := Base box_base_config, rw_writes := 1\<rparr>)"
  by (simp add: box_ensure_base_config_def persist_base_json_def sample_box_base_def)

lemma sample_rules: "box_rules_of box_base_config = map box_rule_json (filter sr_default_enabled SINGBOX_ROUTING_RULES)"
  by (simp add: box_rules_of_def box_base_config_def jidx_def)

lemma sample_single: "list_all (\<lambda>d. length (filter (\<lambda>r. same_object r (box_rule_json d)) (box_rules_of box_base_config)) \<le> 1) SINGBOX_ROUTING_RULES"
  unfolding sample_rules by code_simp

lemma sample_toggle: "fst (box_toggle ''ads'' sample_box_base) = Inr True"
  by code_simp

theorem box_toggle_exact_witness:
  "\<exists>w' v. box_toggle ''ads'' sample_box_base = (Inr True, w') \<and> rw_base w' = Base v \<and> (''ads'', True) \<in> set (box_status v)"
proof -
  obtain w' where t: "box_toggle ''ads'' sample_box_base = (Inr True, w')"
    using sample_toggle by (cases "box_toggle ''ads'' sample_box_base") simp
  have "rw_base sample_box_base = Base box_base_config" by (simp add: sample_box_base_def)
  with box_toggle_exact [OF t this] sample_single t show ?thesis by (auto simp: list_all_iff)
qed

theorem rule_sets_defined_witness:
  "\<exists>w' v. box_toggle ''ads'' sample_box_base = (Inr True, w') \<and> rw_base w' = Base v \<and> ''geosite-category-ads-all'' \<in> set (rule_set_tags v)"
proof -
  obtain w' where t: "box_toggle ''ads'' sample_box_base = (Inr True, w')"
    using sample_toggle by (cases "box_toggle ''ads'' sample_box_base") simp
  obtain v where v: "rw_base w' = Base v" using toggled [OF t] by metis
  have "''geosite-category-ads-all'' \<in> set needed_tags" by (simp add: needed_tags_def SINGBOX_ROUTING_RULES_def)
  then have "''geosite-category-ads-all'' \<in> set (rule_set_tags v)" using rule_sets_defined [OF t v] by blast
  with t v show ?thesis by blast
qed

end
