(* ===== verification/BoxManager.thy ===== *)
theory BoxManager
  imports BatchCreate BoxRouting
begin

text \<open>
  The inbounds of sing-box: \<open>core/singbox/hysteria2.rs\<close> and \<open>tuic.rs\<close> (inbound values and client links),
  \<open>config.rs\<close> (listing, deletion with the release of hop ranges, writing) and the two batch creations
  \<open>hy2_batch.rs\<close> and \<open>tuic_batch.rs\<close>. The state is the \<open>node\<close> of theory ConfigStore; the files are those of its
  sing-box directory. Fates of removals and writes, commands, random draws and addresses are as there; the stamp and
  the random letters of a file name, the certificate and its pin, and the random values are in the environment.
\<close>

section \<open>Hysteria2\<close>

record hysteria2_config =
  h2_port :: nat
  h2_password :: string
  h2_sni :: string
  h2_obfs_type :: "hysteria2_obfs_type option"
  h2_obfs_password :: "string option"
  h2_pin_sha256 :: "string option"

definition hy2_new :: "nat \<Rightarrow> string \<Rightarrow> string \<Rightarrow> hysteria2_config" where
  "hy2_new p pw sni = \<lparr>h2_port = p, h2_password = pw, h2_sni = sni, h2_obfs_type = None, h2_obfs_password = None, h2_pin_sha256 = None\<rparr>"

definition hy2_with_obfs :: "nat \<Rightarrow> string \<Rightarrow> string \<Rightarrow> hysteria2_obfs_type \<Rightarrow> string \<Rightarrow> hysteria2_config" where
  "hy2_with_obfs p pw sni t opw =
     \<lparr>h2_port = p, h2_password = pw, h2_sni = sni, h2_obfs_type = Some t, h2_obfs_password = Some opw, h2_pin_sha256 = None\<rparr>"

definition with_pin_sha256 :: "string \<Rightarrow> hysteria2_config \<Rightarrow> hysteria2_config" where
  "with_pin_sha256 pin c = c\<lparr>h2_pin_sha256 := Some pin\<rparr>"

definition box_tls :: "string \<Rightarrow> string \<Rightarrow> string \<times> json" where
  "box_tls sni alpn = (''tls'', JObj [(''enabled'', JBool True), (''server_name'', JStr sni), (''alpn'', JArr [JStr alpn]),
     (''key_path'', JStr ''/etc/wwps/wwps-box/certs/tls.key''), (''certificate_path'', JStr ''/etc/wwps/wwps-box/certs/tls.cer'')])"

definition hy2_inbound_json :: "hysteria2_config \<Rightarrow> string \<Rightarrow> json" where
  "hy2_inbound_json c tag = JObj
     ([(''type'', JStr ''hysteria2''), (''tag'', JStr tag), (''listen'', JStr ''::''), (''listen_port'', JInt (int (h2_port c))),
       (''users'', JArr [JObj [(''password'', JStr (h2_password c))]]), box_tls (h2_sni c) ''h3'']
      @ (case (h2_obfs_type c, h2_obfs_password c) of
           (Some t, Some pw) \<Rightarrow>
             [(''obfs'', JObj ([(''type'', JStr (obfs_str t)), (''password'', JStr pw)]
               @ (if t = Gecko then [(''min_packet_size'', JInt (int GECKO_DEFAULT_MIN_PACKET_SIZE)),
                    (''max_packet_size'', JInt (int GECKO_DEFAULT_MAX_PACKET_SIZE))] else [])))]
         | _ \<Rightarrow> []))"

definition pin_query :: "hysteria2_config \<Rightarrow> string" where
  "pin_query c = (case h2_pin_sha256 c of Some p \<Rightarrow> ''&pinSHA256='' @ p | None \<Rightarrow> [])"

definition obfs_query :: "(string \<Rightarrow> string) \<Rightarrow> hysteria2_config \<Rightarrow> string" where
  "obfs_query pct c = ''&obfs='' @ (case h2_obfs_type c of Some t \<Rightarrow> obfs_str t | None \<Rightarrow> ''salamander'')
     @ ''&obfs-password='' @ pct (case h2_obfs_password c of Some p \<Rightarrow> p | None \<Rightarrow> [])"

definition hy2_authority :: "(string \<Rightarrow> string) \<Rightarrow> hysteria2_config \<Rightarrow> string \<Rightarrow> string" where
  "hy2_authority pct c host = ''hysteria2://'' @ pct (h2_password c) @ ''@'' @ host @ '':'' @ nat_str (h2_port c)"

definition hy2_query :: "(string \<Rightarrow> string) \<Rightarrow> hysteria2_config \<Rightarrow> string" where
  "hy2_query pct c = ''?sni='' @ pct (h2_sni c) @ ''&alpn=h3'' @ pin_query c"

definition to_client_link :: "(string \<Rightarrow> string) \<Rightarrow> hysteria2_config \<Rightarrow> string \<Rightarrow> string \<Rightarrow> string" where
  "to_client_link pct c host name = hy2_authority pct c host @ hy2_query pct c @ ''#'' @ pct name"

definition to_client_link_with_obfs :: "(string \<Rightarrow> string) \<Rightarrow> hysteria2_config \<Rightarrow> string \<Rightarrow> string \<Rightarrow> string" where
  "to_client_link_with_obfs pct c host name = hy2_authority pct c host @ hy2_query pct c @ obfs_query pct c @ ''#'' @ pct name"

definition to_client_link_with_hopping ::
  "(string \<Rightarrow> string) \<Rightarrow> hysteria2_config \<Rightarrow> string \<Rightarrow> string \<Rightarrow> nat \<times> nat \<Rightarrow> hy2_link_style \<Rightarrow> string" where
  "to_client_link_with_hopping pct c host name hop style =
     (case style of
        Official \<Rightarrow> hy2_authority pct c host @ '','' @ hop_spec hop @ hy2_query pct c @ ''&hop_interval=30s#'' @ pct name
      | V2rayN \<Rightarrow> hy2_authority pct c host @ hy2_query pct c @ ''&mport='' @ hop_spec hop @ ''#'' @ pct name)"

definition to_client_link_with_hopping_and_obfs ::
  "(string \<Rightarrow> string) \<Rightarrow> hysteria2_config \<Rightarrow> string \<Rightarrow> string \<Rightarrow> nat \<times> nat \<Rightarrow> hy2_link_style \<Rightarrow> string" where
  "to_client_link_with_hopping_and_obfs pct c host name hop style =
     (case style of
        Official \<Rightarrow> hy2_authority pct c host @ '','' @ hop_spec hop @ hy2_query pct c @ ''&hop_interval=30s'' @ obfs_query pct c @ ''#'' @ pct name
      | V2rayN \<Rightarrow> hy2_authority pct c host @ hy2_query pct c @ ''&mport='' @ hop_spec hop @ obfs_query pct c @ ''#'' @ pct name)"

section \<open>TUIC\<close>

record tuic_config =
  tu_port :: nat
  tu_uuid :: string
  tu_password :: string
  tu_sni :: string
  tu_alpn :: string
  tu_congestion_control :: string
  tu_cert_sha256 :: "string option"

definition tuic_new :: "nat \<Rightarrow> string \<Rightarrow> string \<Rightarrow> string \<Rightarrow> tuic_config" where
  "tuic_new p uuid pw sni = \<lparr>tu_port = p, tu_uuid = uuid, tu_password = pw, tu_sni = sni, tu_alpn = ''h3'',
     tu_congestion_control = ''bbr'', tu_cert_sha256 = None\<rparr>"

definition with_cert_sha256 :: "string \<Rightarrow> tuic_config \<Rightarrow> tuic_config" where
  "with_cert_sha256 h c = c\<lparr>tu_cert_sha256 := Some h\<rparr>"

definition tuic_inbound_json :: "tuic_config \<Rightarrow> string \<Rightarrow> json" where
  "tuic_inbound_json c tag = JObj
     [(''type'', JStr ''tuic''), (''tag'', JStr tag), (''listen'', JStr ''::''), (''listen_port'', JInt (int (tu_port c))),
      (''users'', JArr [JObj [(''uuid'', JStr (tu_uuid c)), (''password'', JStr (tu_password c))]]),
      box_tls (tu_sni c) (tu_alpn c),
      (''congestion_control'', JStr (tu_congestion_control c)), (''zero_rtt_handshake'', JBool False), (''heartbeat'', JStr ''30s'')]"

definition tuic_client_link :: "(string \<Rightarrow> string) \<Rightarrow> tuic_config \<Rightarrow> string \<Rightarrow> string \<Rightarrow> string" where
  "tuic_client_link pct c host name =
     ''tuic://'' @ tu_uuid c @ '':'' @ pct (tu_password c) @ ''@'' @ host @ '':'' @ nat_str (tu_port c)
     @ ''?sni='' @ pct (tu_sni c) @ ''&alpn='' @ tu_alpn c @ ''&congestion_control='' @ tu_congestion_control c
     @ (case tu_cert_sha256 c of Some h \<Rightarrow> ''&pcs='' @ h | None \<Rightarrow> []) @ ''#'' @ pct name"

section \<open>The files\<close>

definition box_entries :: "node \<Rightarrow> dir_entry list" where
  "box_entries w = (case nd_box w of NoDir \<Rightarrow> [] | Dir es _ \<Rightarrow> es)"

definition box_failed :: "node \<Rightarrow> bool" where
  "box_failed w = (case nd_box w of NoDir \<Rightarrow> False | Dir _ b \<Rightarrow> b)"

definition box_inbound_files :: "node \<Rightarrow> string list" where
  "box_inbound_files w = filter is_box_inbound_file (map de_name (box_entries w))"

definition box_entry :: "string \<Rightarrow> node \<Rightarrow> dir_entry option" where
  "box_entry name w = find (\<lambda>e. de_name e = name) (box_entries w)"

definition box_read :: "string \<Rightarrow> node \<Rightarrow> string option" where
  "box_read name w = Option.bind (box_entry name w) de_content"

definition hy2_listen_port :: "json \<Rightarrow> nat list" where
  "hy2_listen_port inbound =
     (if Option.bind (jget ''type'' inbound) as_str = Some ''hysteria2''
      then (case as_u64 (jidx ''listen_port'' inbound) of Some p \<Rightarrow> if p \<le> 65535 then [p] else [] | None \<Rightarrow> []) else [])"

definition hysteria2_ports_of :: "json \<Rightarrow> nat list" where
  "hysteria2_ports_of j = (case as_array (jidx ''inbounds'' j) of Some inbounds \<Rightarrow> concat (map hy2_listen_port inbounds) | None \<Rightarrow> [])"

text \<open>\<open>extract_hysteria2_ports_from_config(path).await.ok()\<close>; a file without such ports is an error.\<close>

definition extract_hysteria2_ports :: "(string \<Rightarrow> json option) \<Rightarrow> string \<Rightarrow> node \<Rightarrow> nat list option" where
  "extract_hysteria2_ports parse name w =
     (case Option.bind (box_read name w) parse of
        Some j \<Rightarrow> if hysteria2_ports_of j = [] then None else Some (hysteria2_ports_of j)
      | None \<Rightarrow> None)"

definition box_remove_file :: "string \<Rightarrow> node \<Rightarrow> rm_outcome \<times> node" where
  "box_remove_file name w =
     (let w1 = w\<lparr>nd_removals := nd_removals w + 1\<rparr>;
          gone = w1\<lparr>nd_box := Dir (filter (\<lambda>e. de_name e \<noteq> name) (box_entries w)) (box_failed w)\<rparr>
      in if box_entry name w = None then (NotFound, w1)
         else case nd_rm w (nd_removals w) of
                RmOk \<Rightarrow> (Removed, gone) | RmRaced \<Rightarrow> (NotFound, gone) | RmRefused e \<Rightarrow> (Refused e, w1))"

definition box_fs_write :: "string \<Rightarrow> string \<Rightarrow> (node, unit) io" where
  "box_fs_write name content w =
     (let w1 = w\<lparr>nd_writes := nd_writes w + 1\<rparr>; put = (\<lambda>c. w1\<lparr>nd_box := Dir (put_entry name c (box_entries w)) (box_failed w)\<rparr>)
      in case nd_write w (nd_writes w) of
           None \<Rightarrow> (Inr (), put content)
         | Some (e, None) \<Rightarrow> (Inl e, w1)
         | Some (e, Some c) \<Rightarrow> (Inl e, put c))"

section \<open>Deletion\<close>

text \<open>The range of a port; \<open>main_port + 1\<close> and \<open>main_port + 99\<close> are 16-bit.\<close>

definition hop_range_of :: "nat \<Rightarrow> nat \<times> nat" where
  "hop_range_of p = ((p + 1) mod 65536, (p + 99) mod 65536)"

definition cleanup_specific_hysteria2_rules :: "nat \<Rightarrow> nat \<times> nat \<Rightarrow> bool \<Rightarrow> node \<Rightarrow> node" where
  "cleanup_specific_hysteria2_rules main_port hop v6 w =
     (let args = [''-t'', ''nat'', ''-D'', ''PREROUTING''] @ redirect_rule (nat_range hop) main_port;
          w1 = ignoring (on_fw (run_cmd_output ''iptables'' args)) w;
          w2 = (if v6 then ignoring (on_fw (remove_port_range_v6 (fst hop) (snd hop)))
                             (ignoring (on_fw (run_cmd_output ''ip6tables'' args)) w1) else w1);
          w3 = ignoring (on_fw (remove_port_range main_port main_port)) w2
      in ignoring (on_fw (remove_port_range (fst hop) (snd hop))) w3)"

definition release_box_port :: "bool \<Rightarrow> nat \<Rightarrow> node \<Rightarrow> node" where
  "release_box_port v6 p w =
     ignoring (on_alloc (release_hysteria2_range_at p)) (cleanup_specific_hysteria2_rules p (hop_range_of p) v6 w)"

definition cleanup_hysteria2_ports :: "nat list \<Rightarrow> bool \<Rightarrow> node \<Rightarrow> node" where
  "cleanup_hysteria2_ports ports v6 w = fold (release_box_port v6) ports w"

definition box_delete_specific :: "(string \<Rightarrow> json option) \<Rightarrow> string \<Rightarrow> (node, unit) io" where
  "box_delete_specific parse name w =
     (let hy2_ports = extract_hysteria2_ports parse name w
      in case box_remove_file name w of
           (Removed, w1) \<Rightarrow> (Inr (), case hy2_ports of Some ports \<Rightarrow> cleanup_hysteria2_ports ports (has_ipv6 w1) w1 | None \<Rightarrow> w1)
         | (NotFound, w1) \<Rightarrow> (Inl ''not found'', w1)
         | (Refused e, w1) \<Rightarrow> (Inl e, w1))"

text \<open>One round of the loops of \<open>delete_all_configurations\<close> and \<open>delete_by_count\<close>; the last component is what is known
  about IPv6.\<close>

definition box_delete_one :: "(string \<Rightarrow> json option) \<Rightarrow> string \<Rightarrow> nat \<times> bool option \<times> node \<Rightarrow> nat \<times> bool option \<times> node" where
  "box_delete_one parse name = (\<lambda>(deleted, known, w).
     let hy2_ports = extract_hysteria2_ports parse name w
     in case box_remove_file name w of
          (Removed, w1) \<Rightarrow>
            (case hy2_ports of
               Some ports \<Rightarrow> (let v6 = (case known of Some b \<Rightarrow> b | None \<Rightarrow> has_ipv6 w1) in (deleted + 1, Some v6, cleanup_hysteria2_ports ports v6 w1))
             | None \<Rightarrow> (deleted + 1, known, w1))
        | (_, w1) \<Rightarrow> (deleted, known, w1))"

definition box_delete_each :: "(string \<Rightarrow> json option) \<Rightarrow> string list \<Rightarrow> node \<Rightarrow> nat \<times> node" where
  "box_delete_each parse files w = (case fold (box_delete_one parse) files (0, None, w) of (n, _, w') \<Rightarrow> (n, w'))"

definition box_delete_all :: "(string \<Rightarrow> json option) \<Rightarrow> node \<Rightarrow> nat \<times> node" where
  "box_delete_all parse w = box_delete_each parse (box_inbound_files w) w"

text \<open>The times of change of the sing-box files are kept apart from those of the other directory.\<close>

definition box_mtime :: "node \<Rightarrow> string \<Rightarrow> int option" where
  "box_mtime w name = nd_mtime w (''wwps-box/'' @ name)"

definition box_delete_by_count :: "(string \<Rightarrow> json option) \<Rightarrow> nat \<Rightarrow> node \<Rightarrow> nat \<times> node" where
  "box_delete_by_count parse n w =
     (let timed = concat (map (\<lambda>f. case box_mtime w f of Some t \<Rightarrow> [(f, t)] | None \<Rightarrow> []) (box_inbound_files w))
      in box_delete_each parse (map fst (take n (sort_key snd timed))) w)"

definition box_config_count :: "node \<Rightarrow> nat" where
  "box_config_count w = length (box_inbound_files w)"

section \<open>Writing and restarting\<close>

definition box_reload_service :: "(node, unit) io" where
  "box_reload_service w =
     (case on_fw (run_cmd_output ''systemctl'' [''restart'', ''wwps-box'']) w of
        (CmdErr e, w') \<Rightarrow> (Inl e, w')
      | (CmdOut ok _ err, w') \<Rightarrow> (if ok then Inr () else Inl (''reload failed: '' @ err), w'))"

record box_batch_env = batch_env +
  bb_mkdir :: "string option"
  bb_stamp :: int
  bb_letters :: string
  bb_random_uuid :: "nat \<Rightarrow> string"

datatype box_proto = BoxHysteria2 | BoxTuic

definition box_file_name :: "box_batch_env \<Rightarrow> box_proto \<Rightarrow> string" where
  "box_file_name e p = (case p of BoxHysteria2 \<Rightarrow> ''batch_hy2_'' | BoxTuic \<Rightarrow> ''batch_tuic_'')
     @ int_str (bb_stamp e) @ ''_'' @ bb_letters e @ ''.json''"

definition save_standalone_config :: "box_batch_env \<Rightarrow> json list \<Rightarrow> box_proto \<Rightarrow> (node, string) io" where
  "save_standalone_config e configs p w =
     (case bb_mkdir e of
        Some err \<Rightarrow> (Inl err, w)
      | None \<Rightarrow> thenE (box_fs_write (box_file_name e p) (be_pretty e (JObj [(''inbounds'', JArr configs)])))
                  (retE (box_file_name e p)) w)"

section \<open>Batches\<close>

definition box_host :: "box_batch_env \<Rightarrow> ip_version \<Rightarrow> string + string" where
  "box_host e v = (case v of IPv4 \<Rightarrow> be_ipv4 e | SplitStackV4Primary \<Rightarrow> be_ipv4 e | IPv6 \<Rightarrow> be_ipv6 e | SplitStackV6Primary \<Rightarrow> be_ipv6 e)"

definition box_hy2_port :: "box_batch_env \<Rightarrow> bool \<Rightarrow> nat \<Rightarrow> (nat \<times> nat \<times> nat) dio" where
  "box_hy2_port e hopping i =
     (if hopping
      then liftD (\<lambda>w. on_alloc (allocate_hysteria2_at (be_now e i) (xray_dir w) (nd_box w)) w)
      else bindD random_port (\<lambda>p. retD (p, p, p)))"

definition box_hop_rule :: "string \<Rightarrow> nat \<Rightarrow> nat \<times> nat \<Rightarrow> node \<Rightarrow> node" where
  "box_hop_rule bin main_port hop =
     ignoring (on_fw (run_cmd_output bin ([''-t'', ''nat'', ''-A'', ''PREROUTING''] @ redirect_rule (nat_range hop) main_port)))"

definition box_hy2_open :: "bool \<Rightarrow> nat \<Rightarrow> nat \<times> nat \<Rightarrow> node \<Rightarrow> node" where
  "box_hy2_open hopping port hop w =
     (let w1 = allow_port port w
      in if hopping then
           (let w2 = ignoring (on_fw (allow_port_range (fst hop) (snd hop))) w1;
                v6 = has_ipv6 w2;
                w3 = (if v6 then ignoring (on_fw (allow_port_range_v6 (fst hop) (snd hop))) w2 else w2);
                w4 = box_hop_rule ''iptables'' port hop w3
            in if v6 then box_hop_rule ''ip6tables'' port hop w4 else w4)
         else w1)"

definition box_hy2_config :: "box_batch_env \<Rightarrow> hysteria2_obfs_type option \<Rightarrow> string \<Rightarrow> nat \<Rightarrow> nat \<Rightarrow> hysteria2_config" where
  "box_hy2_config e obfs_type pin i port =
     with_pin_sha256 pin (case obfs_type of
        Some t \<Rightarrow> hy2_with_obfs port (be_auth e i) (fst (be_card e i)) t (be_obfs_pw e i)
      | None \<Rightarrow> hy2_new port (be_auth e i) (fst (be_card e i)))"

definition box_hy2_link ::
  "box_batch_env \<Rightarrow> hysteria2_obfs_type option \<Rightarrow> bool \<Rightarrow> hy2_link_style \<Rightarrow> string \<Rightarrow> string \<Rightarrow> nat \<times> nat \<Rightarrow> hysteria2_config \<Rightarrow> string" where
  "box_hy2_link e obfs_type hopping style host tag hop c =
     (if obfs_type \<noteq> None \<and> hopping then to_client_link_with_hopping_and_obfs (be_pct e) c host tag hop style
      else if obfs_type \<noteq> None then to_client_link_with_obfs (be_pct e) c host tag
      else if hopping then to_client_link_with_hopping (be_pct e) c host tag hop style
      else to_client_link (be_pct e) c host tag)"

fun box_hy2_nodes ::
  "box_batch_env \<Rightarrow> hysteria2_obfs_type option \<Rightarrow> bool \<Rightarrow> hy2_link_style \<Rightarrow> string \<Rightarrow> string
     \<Rightarrow> nat \<Rightarrow> nat \<Rightarrow> json list \<times> string list \<Rightarrow> (json list \<times> string list) dio" where
  "box_hy2_nodes e obfs_type hopping style host pin i 0 acc = retD acc"
| "box_hy2_nodes e obfs_type hopping style host pin i (Suc n) acc =
     bindD (box_hy2_port e hopping i) (\<lambda>(port, hop).
       let tag = ''HYSTERIA2-'' @ nat_str (i + 1) @ ''-'' @ take 8 (be_auth e i);
           c = box_hy2_config e obfs_type pin i port
       in (\<lambda>w. box_hy2_nodes e obfs_type hopping style host pin (i + 1) n
                 (fst acc @ [hy2_inbound_json c tag], snd acc @ [box_hy2_link e obfs_type hopping style host tag hop c])
                 (box_hy2_open hopping port hop w)))"

definition box_finish :: "box_batch_env \<Rightarrow> nat \<Rightarrow> box_proto \<Rightarrow> json list \<times> string list \<Rightarrow> (node, batch_creation_result) io" where
  "box_finish e n p r =
     bindE (save_standalone_config e (fst r) p) (\<lambda>filename.
       thenE box_reload_service
         (retE \<lparr>br_links = snd r, br_config_file = Some filename, br_backup_file = None, br_created_count = n\<rparr>))"

definition batch_create_hysteria2 ::
  "box_batch_env \<Rightarrow> nat \<Rightarrow> ip_version \<Rightarrow> hysteria2_obfs_type option \<Rightarrow> bool \<Rightarrow> hy2_link_style \<Rightarrow> batch_creation_result dio" where
  "batch_create_hysteria2 e n v obfs_type hopping style w =
     (if \<not> check_hysteria2_limit (nd_box w) then failD ''limit of 50 reached'' w
      else bindD (fromD (box_host e v)) (\<lambda>host.
        bindD (fromD (be_tls e)) (\<lambda>_. bindD (fromD (be_pin e)) (\<lambda>pin.
          bindD (box_hy2_nodes e obfs_type hopping style host pin 0 n ([], [])) (\<lambda>r. liftD (box_finish e n BoxHysteria2 r))))) w)"

text \<open>\<open>&uuid[..8]\<close> panics when the command printed less.\<close>

definition uuid_head :: "string \<Rightarrow> string + string" where
  "uuid_head uuid = (if length uuid < 8 \<or> (length uuid > 8 \<and> continuation (uuid ! 8)) then Inl ''panic'' else Inr (take 8 uuid))"

definition box_generate_uuid :: "box_batch_env \<Rightarrow> nat \<Rightarrow> (node, string) io" where
  "box_generate_uuid e i w =
     (case on_fw (run_cmd_output XRAY_BIN [''uuid'']) w of
        (CmdErr err, w') \<Rightarrow> (Inl err, w')
      | (CmdOut ok out _, w') \<Rightarrow> (Inr (if ok then trim out else bb_random_uuid e i), w'))"

fun tuic_nodes ::
  "box_batch_env \<Rightarrow> bool \<Rightarrow> string \<Rightarrow> string \<Rightarrow> nat \<Rightarrow> nat \<Rightarrow> json list \<times> string list \<Rightarrow> (json list \<times> string list) dio" where
  "tuic_nodes e free443 host pin i 0 acc = retD acc"
| "tuic_nodes e free443 host pin i (Suc n) acc =
     bindD (if i = 0 \<and> free443 then retD 443 else random_port) (\<lambda>port.
     bindD (liftD (box_generate_uuid e i)) (\<lambda>uuid.
     bindD (fromD (uuid_head uuid)) (\<lambda>short.
       let tag = ''TUIC-'' @ nat_str (i + 1) @ ''-'' @ short;
           c = with_cert_sha256 pin (tuic_new port uuid (be_auth e i) (fst (be_card e i)))
       in (\<lambda>w. tuic_nodes e free443 host pin (i + 1) n
                 (fst acc @ [tuic_inbound_json c tag], snd acc @ [tuic_client_link (be_pct e) c host tag]) (allow_port port w)))))"

definition batch_create_tuic :: "box_batch_env \<Rightarrow> nat \<Rightarrow> ip_version \<Rightarrow> batch_creation_result dio" where
  "batch_create_tuic e n v =
     bindD (fromD (box_host e v)) (\<lambda>host.
     bindD (liftD (\<lambda>w. case on_fw (is_port_available 443) w of (b, w') \<Rightarrow> (Inr b, w'))) (\<lambda>free443.
     bindD (fromD (be_tls e)) (\<lambda>_. bindD (fromD (be_pin e)) (\<lambda>pin.
       bindD (tuic_nodes e free443 host pin 0 n ([], [])) (\<lambda>r. liftD (box_finish e n BoxTuic r))))))"

section \<open>Deleting releases the ranges of the file\<close>

lemma cleanup_frame [simp]:
  "nd_alloc (cleanup_specific_hysteria2_rules p r v6 w) = nd_alloc w" "nd_box (cleanup_specific_hysteria2_rules p r v6 w) = nd_box w"
  by (simp_all add: cleanup_specific_hysteria2_rules_def ignoring_def Let_def)

lemma release_box_frame [simp]:
  "nd_alloc (release_box_port v6 p w) = snd (release_hysteria2_range_at p (nd_alloc w))" "nd_box (release_box_port v6 p w) = nd_box w"
  by (simp_all add: release_box_port_def ignoring_def on_alloc_def split: prod.split)

interpretation node_box_locks: lock_store "\<lambda>w. alloc_sound (nd_alloc w)" "release_box_port v6" "\<lambda>w. tag_locked BOX_HY2_PROTOCOL (nd_alloc w)"
  for v6
  by unfold_locales (simp_all add: box_locks.release_ok box_locks.release_locked)

lemma cleanup_box [simp]: "nd_box (cleanup_hysteria2_ports ps v6 w) = nd_box w"
  by (induction ps arbitrary: w) (simp_all add: cleanup_hysteria2_ports_def)

lemma cleanup_other_tag:
  "alloc_sound (nd_alloc w) \<Longrightarrow> tag_locked XRAY_HY2_PROTOCOL (nd_alloc (cleanup_hysteria2_ports ps v6 w)) = tag_locked XRAY_HY2_PROTOCOL (nd_alloc w)"
proof (induction ps arbitrary: w)
  case (Cons p ps)
  have "tag_locked XRAY_HY2_PROTOCOL (nd_alloc (release_box_port v6 p w)) = tag_locked XRAY_HY2_PROTOCOL (nd_alloc w)"
    using release_sound(2) [OF Cons.prems, of XRAY_HY2_PROTOCOL BOX_HY2_PROTOCOL p]
    by (simp add: release_hysteria2_range_at_def XRAY_HY2_PROTOCOL_def BOX_HY2_PROTOCOL_def)
  with Cons node_box_locks.release_ok show ?case by (simp add: cleanup_hysteria2_ports_def box_locks.release_ok)
qed (simp add: cleanup_hysteria2_ports_def)

lemma remove_box_frame: "nd_alloc (snd (box_remove_file name w)) = nd_alloc w"
  by (simp add: box_remove_file_def Let_def split: rm_fate.split)

lemma removed_gone: "box_remove_file name w = (Removed, w1) \<Longrightarrow> box_entry name w1 = None"
  by (auto simp: box_remove_file_def Let_def box_entry_def box_entries_def find_None_iff split: if_splits rm_fate.splits)

lemma entry_of_box: "nd_box w' = nd_box w \<Longrightarrow> box_entry name w' = box_entry name w"
  by (simp add: box_entry_def box_entries_def)

definition deletion_exact :: "nat list \<Rightarrow> string \<Rightarrow> bool \<Rightarrow> node \<Rightarrow> node \<Rightarrow> bool" where
  "deletion_exact ports name deleted w w' \<longleftrightarrow>
     (if deleted then box_entry name w' = None
        \<and> tag_locked BOX_HY2_PROTOCOL (nd_alloc w') = tag_locked BOX_HY2_PROTOCOL (nd_alloc w) - set ports
        \<and> tag_locked XRAY_HY2_PROTOCOL (nd_alloc w') = tag_locked XRAY_HY2_PROTOCOL (nd_alloc w)
      else nd_alloc w' = nd_alloc w)"

lemma deleted_exact:
  assumes "alloc_sound (nd_alloc w)" "box_delete_specific parse name w = (r, w')"
  shows "alloc_sound (nd_alloc w') \<and> deletion_exact (case extract_hysteria2_ports parse name w of Some ps \<Rightarrow> ps | None \<Rightarrow> []) name (r = Inr ()) w w'"
proof -
  obtain x w1 where x: "box_remove_file name w = (x, w1)" by fastforce
  have a: "nd_alloc w1 = nd_alloc w" using remove_box_frame [of name w] x by simp
  show ?thesis
  proof (cases x)
    case Removed
    have gone: "box_entry name w1 = None" using removed_gone x Removed by simp
    show ?thesis
    proof (cases "extract_hysteria2_ports parse name w")
      case None
      then show ?thesis using assms x Removed a gone by (auto simp: box_delete_specific_def Let_def deletion_exact_def)
    next
      case (Some ps)
      then have w': "w' = cleanup_hysteria2_ports ps (has_ipv6 w1) w1" "r = Inr ()"
        using assms(2) x Removed by (auto simp: box_delete_specific_def Let_def)
      have "alloc_sound (nd_alloc w1)" using assms(1) a by simp
      note rl = node_box_locks.release_list [OF this, of "has_ipv6 w1" ps] and ot = cleanup_other_tag [OF this, of ps "has_ipv6 w1"]
      have "box_entry name w' = None" using gone w'(1) entry_of_box [of w' w1 name] by simp
      then show ?thesis
        using rl ot a w' Some by (simp add: deletion_exact_def cleanup_hysteria2_ports_def)
    qed
  next
    case NotFound
    then show ?thesis using assms x a by (auto simp: box_delete_specific_def Let_def deletion_exact_def)
  next
    case (Refused err)
    then show ?thesis using assms x a by (auto simp: box_delete_specific_def Let_def deletion_exact_def)
  qed
qed

text \<open>Also: deleting an inbound file of sing-box gives back exactly the ranges its Hysteria2 inbounds own, and only once the
  file is gone: when the removal is refused, or somebody else was faster, every lock stays.\<close>

theorem box_deletion_exact:
  assumes "alloc_sound (nd_alloc w)" and "box_delete_specific parse name w = (r, w')"
    and "extract_hysteria2_ports parse name w = Some ports"
  shows "deletion_exact ports name (r = Inr ()) w w'"
  using deleted_exact [OF assms(1,2)] assms(3) by simp

text \<open>Also: the ninety-nine ports behind the main port are closed with every Hysteria2 inbound that is deleted, also
  with one that never hopped and holds no range.\<close>

theorem neighbours_closed:
  assumes "extract_hysteria2_ports parse name w = Some [p]" "p \<le> 65436" and "box_delete_specific parse name w = (Inr (), w')"
  shows "\<exists>f. nd_fw w' = snd (remove_port_range (p + 1) (p + 99) f)"
proof -
  obtain w1 where "w' = cleanup_hysteria2_ports [p] (has_ipv6 w1) w1"
    using assms(1,3) by (auto simp: box_delete_specific_def Let_def split: prod.splits rm_outcome.splits)
  then have "nd_fw w' = nd_fw (cleanup_specific_hysteria2_rules p (p + 1, p + 99) (has_ipv6 w1) w1)"
    using assms(2) by (simp add: cleanup_hysteria2_ports_def release_box_port_def ignoring_def on_alloc_def hop_range_of_def split: prod.split)
  then show ?thesis
    by (auto simp: cleanup_specific_hysteria2_rules_def Let_def ignoring_def on_fw_def split: prod.splits) (metis snd_conv)+
qed

section \<open>Creating locks the ranges of the file\<close>

definition box_ports :: "json list \<Rightarrow> nat list" where
  "box_ports cs = concat (map hy2_listen_port cs)"

definition box_batching :: "nat set \<Rightarrow> json list \<Rightarrow> node \<Rightarrow> bool" where
  "box_batching L cs w \<longleftrightarrow> alloc_sound (nd_alloc w) \<and> distinct (box_ports cs) \<and> set (box_ports cs) \<inter> L = {}
     \<and> tag_locked BOX_HY2_PROTOCOL (nd_alloc w) = L \<union> set (box_ports cs)"

lemma inbound_port: "h2_port c \<le> 65535 \<Longrightarrow> hy2_listen_port (hy2_inbound_json c tag) = [h2_port c]"
  by (simp add: hy2_listen_port_def hy2_inbound_json_def jidx_def)

lemma config_port: "h2_port (box_hy2_config e t pin i p) = p"
  by (simp add: box_hy2_config_def with_pin_sha256_def hy2_with_obfs_def hy2_new_def split: option.split)

lemma open_frame [simp]: "nd_alloc (box_hy2_open hopping p hop w) = nd_alloc w" "nd_box (box_hy2_open hopping p hop w) = nd_box w"
  by (simp_all add: box_hy2_open_def allow_port_def box_hop_rule_def ignoring_def Let_def)

lemma hop_port_locked:
  assumes "box_batching L cs w" "box_hy2_port e True i w = Some (Inr (p, hop), w')"
  shows "box_batching L (cs @ [hy2_inbound_json (box_hy2_config e t pin j p) tag]) w'" "nd_box w' = nd_box w"
proof -
  obtain a where a: "allocate_tagged BOX_HY2_PROTOCOL (be_now e i) (xray_dir w) (nd_box w) (nd_alloc w) = (Inr (p, hop), a)" "w' = w\<lparr>nd_alloc := a\<rparr>"
    using assms(2) by (auto simp: box_hy2_port_def liftD_def on_alloc_def allocate_hysteria2_at_def split: prod.splits)
  obtain x y where h: "hop = (x, y)" by (cases hop)
  have s: "alloc_sound (nd_alloc w)" using assms(1) by (simp add: box_batching_def)
  note f = allocate_sound(1) [OF s a(1)] allocate_sound(2) [OF s a(1), of p x y BOX_HY2_PROTOCOL]
  have "p \<le> 65535" "p \<notin> tag_locked BOX_HY2_PROTOCOL (nd_alloc w)" "tag_locked BOX_HY2_PROTOCOL a = insert p (tag_locked BOX_HY2_PROTOCOL (nd_alloc w))"
    using f(2) h by auto
  then show "box_batching L (cs @ [hy2_inbound_json (box_hy2_config e t pin j p) tag]) w'"
    using assms(1) f(1) a(2) by (auto simp: box_batching_def box_ports_def inbound_port config_port)
  show "nd_box w' = nd_box w" using a(2) by simp
qed

lemma hop_nodes_locked:
  assumes "box_hy2_nodes e t True style host pin i n acc w = Some (Inr r, w')" "box_batching L (fst acc) w"
  shows "box_batching L (fst r) w' \<and> nd_box w' = nd_box w"
  using assms
proof (induction n arbitrary: i acc w)
  case 0
  then show ?case by (simp add: retD_def)
next
  case (Suc n)
  obtain ph w1 where p: "box_hy2_port e True i w = Some (Inr ph, w1)"
    using Suc.prems(1) by (auto simp: bindD_def split: option.splits sum.splits prod.splits)
  obtain port hop where ph: "ph = (port, hop)" by (cases ph)
  let ?tag = "''HYSTERIA2-'' @ nat_str (i + 1) @ ''-'' @ take 8 (be_auth e i)" and ?c = "box_hy2_config e t pin i port"
  have step: "box_hy2_nodes e t True style host pin (i + 1) n
      (fst acc @ [hy2_inbound_json ?c ?tag], snd acc @ [box_hy2_link e t True style host ?tag hop ?c]) (box_hy2_open True port hop w1) = Some (Inr r, w')"
    using Suc.prems(1) p ph by (simp add: bindD_def Let_def)
  note b = hop_port_locked(1) [OF Suc.prems(2) p [unfolded ph], of t pin i ?tag] hop_port_locked(2) [OF Suc.prems(2) p [unfolded ph]]
  have "box_batching L (fst acc @ [hy2_inbound_json ?c ?tag]) (box_hy2_open True port hop w1)"
    using b(1) by (simp add: box_batching_def)
  with Suc.IH [OF step] b(2) show ?case by simp
qed

lemma box_put_read: "nd_box w' = Dir (put_entry name c es) b \<Longrightarrow> box_read name w' = Some c"
proof -
  have "find (\<lambda>e. de_name e = name) (put_entry name c es) = Some \<lparr>de_name = name, de_is_file = True, de_content = Some c\<rparr>"
    by (induction name c es rule: put_entry.induct) auto
  then show "nd_box w' = Dir (put_entry name c es) b \<Longrightarrow> box_read name w' = Some c"
    by (simp add: box_read_def box_entry_def box_entries_def)
qed

lemma reload_frame: "nd_alloc (snd (box_reload_service w)) = nd_alloc w" "nd_box (snd (box_reload_service w)) = nd_box w"
proof -
  obtain x w1 where o: "on_fw (run_cmd_output ''systemctl'' [''restart'', ''wwps-box'']) w = (x, w1)" by fastforce
  then have "nd_alloc w1 = nd_alloc w" "nd_box w1 = nd_box w" using on_fw_frame [of "run_cmd_output ''systemctl'' [''restart'', ''wwps-box'']" w] by simp_all
  with o show "nd_alloc (snd (box_reload_service w)) = nd_alloc w" "nd_box (snd (box_reload_service w)) = nd_box w"
    by (simp_all add: box_reload_service_def split: cmd_result.split)
qed

lemma save_frame: "nd_alloc (snd (save_standalone_config e cs p w)) = nd_alloc w"
  by (simp add: save_standalone_config_def box_fs_write_def thenE_apply Let_def split: option.split prod.split)

lemma finished:
  assumes "box_finish e n p r w = (Inr res, w')"
  shows "nd_alloc w' = nd_alloc w \<and> br_config_file res = Some (box_file_name e p)
    \<and> box_read (box_file_name e p) w' = Some (be_pretty e (JObj [(''inbounds'', JArr (fst r))]))"
proof -
  obtain f w1 where s: "save_standalone_config e (fst r) p w = (Inr f, w1)"
    using assms by (auto simp: box_finish_def bindE_apply split: prod.splits sum.splits)
  then have f: "f = box_file_name e p" "box_read f w1 = Some (be_pretty e (JObj [(''inbounds'', JArr (fst r))]))"
    by (auto simp: save_standalone_config_def thenE_apply box_fs_write_def Let_def intro!: box_put_read split: option.splits prod.splits sum.splits)
  have a: "nd_alloc w1 = nd_alloc w" using save_frame [of e "fst r" p w] s by simp
  obtain u w2 where rl: "box_reload_service w1 = (Inr u, w2)" "w' = w2" "br_config_file res = Some f"
    using assms s by (auto simp: box_finish_def bindE_apply thenE_apply split: prod.splits sum.splits)
  with f a reload_frame [of w1] show ?thesis by (simp add: box_read_def box_entry_def box_entries_def)
qed

lemma ports_of_saved: "hysteria2_ports_of (JObj [(''inbounds'', JArr cs)]) = box_ports cs"
  by (simp add: hysteria2_ports_of_def box_ports_def jidx_def)

lemma created:
  assumes "batch_create_hysteria2 e n v t True style w = Some (Inr res, w')" "alloc_sound (nd_alloc w)"
    and "\<And>j. be_parse e (be_pretty e j) = Some j"
  shows "\<exists>cs. box_batching (tag_locked BOX_HY2_PROTOCOL (nd_alloc w)) cs w' \<and> br_config_file res = Some (box_file_name e BoxHysteria2)
    \<and> extract_hysteria2_ports (be_parse e) (box_file_name e BoxHysteria2) w' = (if box_ports cs = [] then None else Some (box_ports cs))"
proof -
  obtain host pin r w1 where n: "box_hy2_nodes e t True style host pin 0 n ([], []) w = Some (Inr r, w1)" "box_finish e n BoxHysteria2 r w1 = (Inr res, w')"
    using assms(1) by (auto simp: batch_create_hysteria2_def bindD_def fromD_def liftD_def retD_def failD_def split: if_splits option.splits sum.splits)
  have "box_batching (tag_locked BOX_HY2_PROTOCOL (nd_alloc w)) [] w" using assms(2) by (simp add: box_batching_def box_ports_def)
  with hop_nodes_locked [OF n(1)] have b: "box_batching (tag_locked BOX_HY2_PROTOCOL (nd_alloc w)) (fst r) w1" by simp
  note f = finished [OF n(2)]
  have "box_batching (tag_locked BOX_HY2_PROTOCOL (nd_alloc w)) (fst r) w'" using b f by (simp add: box_batching_def)
  moreover have "extract_hysteria2_ports (be_parse e) (box_file_name e BoxHysteria2) w' = (if box_ports (fst r) = [] then None else Some (box_ports (fst r)))"
    using f assms(3) by (simp add: extract_hysteria2_ports_def ports_of_saved)
  ultimately show ?thesis using f by blast
qed

text \<open>Also: creating a batch of hopping Hysteria2 inbounds of sing-box and deleting its file again leaves the locks of both
  cores as they were. Relied on: the allocation file is good and can be written, and the parser reads what the printer
  prints.\<close>

theorem box_batch_roundtrip:
  assumes "batch_create_hysteria2 e n v t True style w = Some (Inr res, w1)" and "alloc_sound (nd_alloc w)"
    and "\<And>j. be_parse e (be_pretty e j) = Some j" and "br_config_file res = Some name"
    and "box_delete_specific (be_parse e) name w1 = (Inr (), w2)"
  shows "tag_locked BOX_HY2_PROTOCOL (nd_alloc w2) = tag_locked BOX_HY2_PROTOCOL (nd_alloc w)"
proof -
  obtain cs where c: "box_batching (tag_locked BOX_HY2_PROTOCOL (nd_alloc w)) cs w1" "name = box_file_name e BoxHysteria2"
      "extract_hysteria2_ports (be_parse e) name w1 = (if box_ports cs = [] then None else Some (box_ports cs))"
    using created [OF assms(1-3)] assms(4) by auto
  have "alloc_sound (nd_alloc w1)" using c(1) by (simp add: box_batching_def)
  from deleted_exact [OF this assms(5)] c(3)
  have "tag_locked BOX_HY2_PROTOCOL (nd_alloc w2) = tag_locked BOX_HY2_PROTOCOL (nd_alloc w1) - set (box_ports cs)"
    by (auto simp: deletion_exact_def split: if_splits)
  then show ?thesis using c(1) by (auto simp: box_batching_def)
qed

text \<open>Also: a batch that fails when its file is written or sing-box is restarted gives none of its ranges back.\<close>

theorem failed_batch_keeps_locks:
  assumes "box_finish e n p r w = (Inl err, w')"
  shows "nd_alloc w' = nd_alloc w"
proof -
  obtain x w1 where s: "save_standalone_config e (fst r) p w = (x, w1)" by fastforce
  have a: "nd_alloc w1 = nd_alloc w" using save_frame [of e "fst r" p w] s by simp
  obtain y w2 where rl: "box_reload_service w1 = (y, w2)" by fastforce
  then show ?thesis
    using assms s a reload_frame(1) [of w1] by (cases x; cases y) (auto simp: box_finish_def bindE_apply thenE_apply)
qed

end
