(* ===== verification/Spec2Isabelle.thy ===== *)
theory Spec2Isabelle
  imports Dispatch Scheduler CustomDirect KcpWizard BatchCreate SniRun CoreRollback Usque MessageInput SelfUpgrade SingboxUpgrade BoxManager
begin

text \<open>
  Aegis is the bot that manages a proxy server over chat (\<open>src/rust/aegis\<close>), with a companion program that probes server
  names for camouflage (\<open>src/sni_probe\<close>). This development models the core of both in Isabelle/HOL, function by function,
  and proves what each part promises. Paths below are relative to \<open>src/rust/aegis/src\<close> unless they start with \<open>sni_probe\<close>.

  \<^bold>\<open>How the program hangs together.\<close> A chat event reaches \<open>shared/dispatch.rs\<close>. The self-destruct dialogue may take it first, then
  the login gate decides whether the sender may go on, then a command, a button (\<open>shared/handlers/mod.rs\<close> finds the page) or
  typed text (\<open>shared/handlers/message.rs\<close>) is handled. Handlers keep their dialogues in \<open>app/state.rs\<close> and answer through an
  adapter; the routing adapter sends secrets to a second platform. What a handler does to the host goes through the managers of
  \<open>core\<close>: the configuration of the proxy core Xray and of sing-box, the firewall, the port-range allocator, certificates, the
  scheduler, WARP, and the three upgrades (proxy core, sing-box, the bot itself). The SNI prober works in three phases on
  pool files, with a state file to resume from.

  \<^bold>\<open>How state and effects are modelled.\<close> A \<open>String\<close> is its list of bytes. A fallible function returns a sum, \<open>Inl\<close> the error; a function with
  effects is a state transformer \<open>'w \<Rightarrow> (string + 'a) \<times> 'w\<close> (\<open>io\<close>, theory Prelude). Three kinds of worlds occur: \<open>world\<close> (theory
  World) for handlers - the application state, a trace of every call made and a function that says how the n-th call went;
  \<open>node\<close> (theory ConfigStore) for the configuration of the host - files, allocation file, firewall log; \<open>core_world\<close> (theory
  CoreUpgrade) for upgrades - installed files, backups, archives, directories, a trace and faults. Faults and answers are
  arbitrary functions of the position in the trace, so a theorem covers every pattern of failures of the network, the disk
  and the commands. Panics (indexing, slicing a string inside a character) are errors or \<open>None\<close>. Crates and outside programs
  (JSON, TOTP, SHA-256, minisign, zip, tar, curl, acme.sh, X.509, cron) are parameters, with what is relied on as a hypothesis.

  \<^bold>\<open>Theories.\<close>
  \<^item> Prelude, Triples, Json, IpAddr: bytes, UTF-8, trimming and parsing of the standard library, the error-and-state
    combinators, triples \<open>io_triple P m Q E\<close> with one rule per combinator, JSON values, IP addresses.
  \<^item> Adapter (\<open>common/trait.rs\<close>, \<open>markup.rs\<close>, \<open>routing.rs\<close>): the requests of an adapter and the routing adapter; where sensitive
    texts land.
  \<^item> CoreTypes, AppState, World (\<open>core/types.rs\<close>, \<open>shared/types.rs\<close>, \<open>app/state.rs\<close>): administrators, sessions, failure records,
    dialogues; every method of the shared state with an explicit clock.
  \<^item> AuthFlow, Destruct, Dispatch (\<open>app/auth.rs\<close>, \<open>shared/destruct.rs\<close>, \<open>dispatch.rs\<close>, \<open>commands.rs\<close>, \<open>state_ops.rs\<close>,
    \<open>handlers/approval.rs\<close>, \<open>handlers/mod.rs\<close>): login with the budget of guesses, the destruction dialogue and its refinement to
    a small transition relation, the gate and the routing of events.
  \<^item> MessageInput, KcpWizard, XDrive (\<open>handlers/message.rs\<close>, parts of \<open>handlers/xray.rs\<close>, \<open>core/xray/xdrive.rs\<close>): typed dialogues.
  \<^item> FirewallScan, PortAllocator, Firewall (\<open>core/security/firewall*.rs\<close>, \<open>ufw.rs\<close>, \<open>core/xray/port_allocator.rs\<close>): ports in use,
    hop ranges, opening and closing ports.
  \<^item> KcpMask, XrayConfig, ConfigStore, BatchCreate (\<open>core/xray/*.rs\<close>, parts of \<open>core/system/maintenance.rs\<close>): inbounds, links,
    files, deletion, reload, the creation of batches.
  \<^item> RoutingRules, CustomDirect (\<open>core/xray/routing.rs\<close>, \<open>custom_direct.rs\<close>), BoxRouting, BoxManager (\<open>core/singbox/routing.rs\<close>,
    \<open>config.rs\<close>, \<open>hysteria2.rs\<close>, \<open>tuic.rs\<close> and the two batch files): rules and configurations of the two cores.
  \<^item> Warp, Usque (\<open>core/network/warp_probe.rs\<close>, \<open>core/xray/warp.rs\<close>, \<open>core/usque\<close>): routing through WARP, its installer and watchdog.
  \<^item> Acme (\<open>core/security/acme.rs\<close>): domains, providers, commands and the validity of certificates.
  \<^item> Scheduler (\<open>core/system/scheduler\<close>): tasks, their file, rollback of an edit.
  \<^item> ReleaseApi, CoreHealth, CoreUpgrade, CoreUpgradeSafe, CoreRollback (\<open>core/network/release_api.rs\<close>,
    \<open>core/system/core_health.rs\<close>, \<open>core_upgrade.rs\<close>), SingboxUpgrade (\<open>core/singbox/upgrade.rs\<close>), SelfUpgrade (\<open>core/system/upgrade.rs\<close>):
    the three upgrades.
  \<^item> SniWire, SniState, SniStage, SniPools, SniMerge, SniRun (\<open>sni_probe/src\<close>: \<open>pb.rs\<close>, \<open>state.rs\<close>, \<open>pipeline.rs\<close>, \<open>storage.rs\<close>, \<open>geo.rs\<close>,
    \<open>tls.rs\<close>, \<open>merge.rs\<close>, \<open>upgrade.rs\<close>, \<open>run.rs\<close>): codecs, worker pools as a step relation, acceptance of targets, resuming.

  \<^bold>\<open>What is shown.\<close> Access: the number of guesses a lock-out leaves, what a login changes, that destruction needs the codes and the
  last step, by message and by button, and that the handlers refine the abstract dialogue. Ports: allocated ranges are disjoint
  and free, live ranges stay locked whatever the manager does, deletion releases exactly what it should, the firewall keeps
  what is needed. Configurations: stacks of layers are valid, migrations are idempotent, switches last, lists settle, switching
  a sing-box rule changes this rule only and leaves no rule set undefined. Upgrades: what is installed at the end is the old
  file or one whose origin was checked, a rollback restores, an invalid configuration stops the run before anything changes.
  WARP, certificates, scheduler: settings are read back, a watchdog restarts exactly when it should, credentials reach one
  command only, failed edits are undone. Prober: saves are atomic, runs resume, files hold what was accepted, and one stage
  can hang. Theorems introduced by \<open>Also:\<close> are properties beyond the numbered ones; several exhibit behaviour the sources do not
  intend. Each numbered property with a hypothesis has a witness, a run on concrete data.

  \<^bold>\<open>Interfaces.\<close> The locale \<open>sensitive_router\<close> states what a router owes the sender of a secret and is interpreted by the routing
  adapter; \<open>lock_store\<close> and its extension \<open>hop_owner\<close> state what releasing a range does, interpreted by the allocation file for the
  tags of both cores and by the host (\<open>node_hops\<close> for Xray, \<open>node_box_locks\<close> for sing-box).

  \<^bold>\<open>Bounds and loops.\<close> Loops over data are structural. A loop the source bounds counts down from the source's bound: 16 redirects of a
  button, 4 attestation queries, the samples of the health check, the retries of ufw and of downloads; these are the numbers of
  the code, not fuel. Two loops may go on for ever and are partial functions with value \<open>None\<close> in that case: the search for a
  random free port, shown to return when a free port is drawn, and the network gate of the prober, shown to return exactly
  when the network comes up or the user gives up. 16-bit sums wrap where the code's do.

  \<^bold>\<open>Not modelled.\<close> Time inside a handler run (one clock reading) and concurrent handlers; every lock of the source makes its critical
  section one step. The gateways to Telegram, Matrix and SimpleX, start-up and the main loop, the command line: input and output
  around the dispatcher. Most pages of \<open>shared/handlers\<close> (\<open>xray.rs\<close> beyond the KCP dialogue, \<open>singbox.rs\<close>, \<open>ops.rs\<close>, \<open>warp.rs\<close>,
  \<open>menu.rs\<close>, \<open>schedule.rs\<close>, \<open>log.rs\<close>): they render keyboards around operations modelled here. \<open>core/xray/installer.rs\<close> except WARP and
  the first installation of sing-box: package managers and unit files. The rest of \<open>maintenance.rs\<close>, \<open>operations.rs\<close>, \<open>monitor.rs\<close>:
  reports and system tuning through outside programs. \<open>core/sni\<close>: the selection of names is a parameter. Encryption, wiping and
  anti-debugging: their worth lies in the crates and the kernel. In \<open>sni_probe\<close>: DNS, TLS and HTTP exchanges, sockets, downloads of
  the country database, progress, logging, CSV front ends. The Go installer and the SNI testers are other programs. Sigstore
  signatures are not verified by the source either; X.509, cron and percent-encoding belong to their crates.
\<close>

end
